(* ===== verification/Js_Prelude.thy ===== *)
theory Js_Prelude
  imports Main "HOL-Library.AList" "HOL-Library.Product_Lexorder"
begin

text \<open>
  The part of JavaScript the modelled TypeScript relies on, and the generic lemmas the
  components share.
  \<^item> Strings are \<^typ>\<open>string\<close>; \<open>js_lower\<close> is \<open>toLowerCase\<close> on ASCII text (hashes,
    addresses and selectors are ASCII), \<open>js_slice_to\<close>, \<open>js_slice_from\<close> and
    \<open>js_slice_last\<close> are the three forms of \<open>slice\<close> the code uses.
  \<^item> A \<open>Map\<close> or a plain object keeps its insertion order: it is an association list that is
    updated in place (\<open>jmap_set\<close>) and read with \<open>jmap_get\<close>. A \<open>Set\<close> is a list without
    repetitions in insertion order (\<open>jset_add\<close>).
  \<^item> An exception is the left side of a sum: \<open>res_bind\<close> is sequencing, \<open>res_map\<close> is a loop
    over a list that stops at the first exception.
  The locales state the ordered-map contract and the fold of a step that keeps an invariant;
  both are interpreted on the definitions of this development.
\<close>

named_theorems js_eval \<comment> \<open>equations that compute the JavaScript primitives\<close>

section \<open>Exceptions\<close>

datatype js_error = TypeError | Thrown string

fun res_bind :: "'e + 'a \<Rightarrow> ('a \<Rightarrow> 'e + 'b) \<Rightarrow> 'e + 'b" where
  "res_bind (Inl e) f = Inl e"
| "res_bind (Inr x) f = f x"

fun res_map :: "('a \<Rightarrow> 'e + 'b) \<Rightarrow> 'a list \<Rightarrow> 'e + 'b list" where
  "res_map f [] = Inr []"
| "res_map f (x # xs) = res_bind (f x) (\<lambda>y. res_bind (res_map f xs) (\<lambda>ys. Inr (y # ys)))"

definition throw :: "string \<Rightarrow> js_error + 'a" where
  "throw msg = Inl (Thrown msg)"

text \<open>Reading a property of \<open>undefined\<close> is a \<open>TypeError\<close>.\<close>

fun js_defined :: "'a option \<Rightarrow> js_error + 'a" where
  "js_defined None = Inl TypeError"
| "js_defined (Some x) = Inr x"

lemma res_bind_Inr_iff: "res_bind r f = Inr y \<longleftrightarrow> (\<exists>x. r = Inr x \<and> f x = Inr y)"
  by (cases r) auto

lemma res_bind_Inl_iff: "res_bind r f = Inl e \<longleftrightarrow> r = Inl e \<or> (\<exists>x. r = Inr x \<and> f x = Inl e)"
  by (cases r) auto

lemma throw_not_Inr [simp]: "throw msg \<noteq> Inr x" "Inr x \<noteq> throw msg"
  by (simp_all add: throw_def)

lemma guard_Inr: "(if c then throw msg else r) = Inr x \<longleftrightarrow> \<not> c \<and> r = Inr x"
  by simp

lemma res_bind_throw [simp]: "res_bind (throw msg) f = throw msg"
  by (simp add: throw_def)

lemma js_defined_Inr_iff [simp]: "js_defined m = Inr x \<longleftrightarrow> m = Some x"
  by (cases m) auto

lemma js_defined_Inl_iff [simp]: "js_defined m = Inl e \<longleftrightarrow> m = None \<and> e = TypeError"
  by (cases m) auto

lemma res_map_length: "res_map f xs = Inr ys \<Longrightarrow> length ys = length xs"
  by (induction xs arbitrary: ys) (auto simp: res_bind_Inr_iff)

lemma res_map_all2: "res_map f xs = Inr ys \<longleftrightarrow> list_all2 (\<lambda>x y. f x = Inr y) xs ys"
  by (induction xs arbitrary: ys) (auto simp: res_bind_Inr_iff list_all2_Cons1)

lemma res_map_member: "res_map f xs = Inr ys \<Longrightarrow> x \<in> set xs \<Longrightarrow> \<exists>y \<in> set ys. f x = Inr y"
  by (induction xs arbitrary: ys) (auto simp: res_bind_Inr_iff)

lemma res_map_origin: "res_map f xs = Inr ys \<Longrightarrow> y \<in> set ys \<Longrightarrow> \<exists>x \<in> set xs. f x = Inr y"
  by (induction xs arbitrary: ys) (auto simp: res_bind_Inr_iff)

lemma res_map_total:
  assumes "\<And>x. x \<in> set xs \<Longrightarrow> f x = Inr (g x)"
  shows "res_map f xs = Inr (map g xs)"
  using assms by (induction xs) auto

lemma res_map_append:
  "res_map f (xs @ ys) = res_bind (res_map f xs) (\<lambda>us. res_bind (res_map f ys) (\<lambda>vs. Inr (us @ vs)))"
proof (induction xs)
  case Nil
  then show ?case by (cases "res_map f ys") auto
next
  case (Cons x xs)
  then show ?case by (cases "f x"; cases "res_map f xs"; cases "res_map f ys") auto
qed

section \<open>Strings\<close>

definition js_lower_char :: "char \<Rightarrow> char" where
  "js_lower_char c = (let n = (of_char c :: nat) in if 65 \<le> n \<and> n \<le> 90 then char_of (n + 32) else c)"

definition js_lower :: "string \<Rightarrow> string" where
  "js_lower s = map js_lower_char s"

definition js_upper_char :: "char \<Rightarrow> char" where
  "js_upper_char c = (let n = (of_char c :: nat) in if 97 \<le> n \<and> n \<le> 122 then char_of (n - 32) else c)"

definition js_slice_to :: "nat \<Rightarrow> string \<Rightarrow> string" where
  "js_slice_to n s = take n s" \<comment> \<open>\<open>s.slice(0, n)\<close>\<close>

definition js_slice_from :: "nat \<Rightarrow> string \<Rightarrow> string" where
  "js_slice_from n s = drop n s" \<comment> \<open>\<open>s.slice(n)\<close>\<close>

definition js_slice_last :: "nat \<Rightarrow> string \<Rightarrow> string" where
  "js_slice_last n s = drop (length s - n) s" \<comment> \<open>\<open>s.slice(-n)\<close> for a positive \<open>n\<close>\<close>

fun js_starts_with :: "string \<Rightarrow> string \<Rightarrow> bool" where
  "js_starts_with s [] = True"
| "js_starts_with [] (p # ps) = False"
| "js_starts_with (c # s) (p # ps) = (c = p \<and> js_starts_with s ps)"

fun js_join :: "string \<Rightarrow> string list \<Rightarrow> string" where
  "js_join sep [] = []"
| "js_join sep [s] = s"
| "js_join sep (s # t # ss) = s @ sep @ js_join sep (t # ss)"

text \<open>An equation on the bits of a character, for evaluation.\<close>

lemma js_lower_char_code [code]:
  "js_lower_char (Char b0 b1 b2 b3 b4 b5 b6 b7) =
     (if b6 \<and> \<not> b5 \<and> \<not> b7 \<and> (b0 \<or> b1 \<or> b2 \<or> b3 \<or> b4) \<and> \<not> (b4 \<and> b3 \<and> (b2 \<or> b1 \<and> b0))
      then Char b0 b1 b2 b3 b4 True b6 b7 else Char b0 b1 b2 b3 b4 b5 b6 b7)"
  by (cases b0; cases b1; cases b2; cases b3; cases b4; cases b5; cases b6; cases b7; simp add: js_lower_char_def char_of_def bit_0)

lemmas [js_eval] = js_lower_def js_lower_char_def js_slice_to_def js_slice_from_def js_slice_last_def

lemma js_lower_char_idem [simp]: "js_lower_char (js_lower_char c) = js_lower_char c"
proof (cases "65 \<le> (of_char c :: nat) \<and> (of_char c :: nat) \<le> 90")
  case True
  then have "(of_char (char_of (of_char c + 32 :: nat)) :: nat) = of_char c + 32"
    by simp
  with True show ?thesis by (simp add: js_lower_char_def Let_def)
next
  case False
  then have "js_lower_char c = c" by (auto simp: js_lower_char_def Let_def)
  then show ?thesis by simp
qed

lemma js_lower_idem [simp]: "js_lower (js_lower s) = js_lower s"
  by (simp add: js_lower_def)

lemma js_lower_Nil [simp]: "js_lower [] = []"
  and length_js_lower [simp]: "length (js_lower s) = length s"
  and js_lower_eq_Nil [simp]: "js_lower s = [] \<longleftrightarrow> s = []"
  by (simp_all add: js_lower_def)

lemma js_starts_with_iff: "js_starts_with s p \<longleftrightarrow> take (length p) s = p"
  by (induction s p rule: js_starts_with.induct) auto

text \<open>A template literal and \<open>String\<close> print integers in decimal.\<close>

definition js_digit :: "nat \<Rightarrow> char" where
  "js_digit d = char_of (48 + d)"

fun show_nat :: "nat \<Rightarrow> string" where
  "show_nat n = (if n < 10 then [js_digit n] else show_nat (n div 10) @ [js_digit (n mod 10)])"

declare show_nat.simps [simp del]

definition show_int :: "int \<Rightarrow> string" where
  "show_int i = (if i < 0 then ''-'' @ show_nat (nat (- i)) else show_nat (nat i))"

text \<open>\<open>String(x)\<close> of a value that may be \<open>undefined\<close>.\<close>

definition js_String_int :: "int option \<Rightarrow> string" where
  "js_String_int m = (case m of None \<Rightarrow> ''undefined'' | Some i \<Rightarrow> show_int i)"

lemma show_nat_not_Nil [simp]: "show_nat n \<noteq> []"
  by (subst show_nat.simps) simp

lemma js_digit_inj: "a < 10 \<Longrightarrow> b < 10 \<Longrightarrow> js_digit a = js_digit b \<Longrightarrow> a = b"
  by (simp add: js_digit_def char_of_eq_iff [symmetric])

lemma show_nat_inj: "show_nat m = show_nat n \<Longrightarrow> m = n"
proof (induction m arbitrary: n rule: less_induct)
  case (less m)
  show ?case
  proof (cases "m < 10 \<or> n < 10")
    case True
    then show ?thesis using less.prems
      by (auto simp: show_nat.simps [of m] show_nat.simps [of n] append_eq_Cons_conv Cons_eq_append_conv
          split: if_splits dest: js_digit_inj)
  next
    case False
    with less.prems have "show_nat (m div 10) = show_nat (n div 10)"
      and "js_digit (m mod 10) = js_digit (n mod 10)"
      by (auto simp: show_nat.simps [of m] show_nat.simps [of n])
    moreover from this False have "m div 10 = n div 10" by (intro less.IH) auto
    ultimately have "m div 10 = n div 10" and "m mod 10 = n mod 10"
      by (auto dest: js_digit_inj [rotated -1])
    then show ?thesis by (metis div_mult_mod_eq)
  qed
qed

section \<open>Maps and sets in insertion order\<close>

type_synonym ('k, 'v) jmap = "('k \<times> 'v) list"

definition jmap_get :: "('k, 'v) jmap \<Rightarrow> 'k \<Rightarrow> 'v option" where
  "jmap_get m k = map_of m k"

definition jmap_set :: "'k \<Rightarrow> 'v \<Rightarrow> ('k, 'v) jmap \<Rightarrow> ('k, 'v) jmap" where
  "jmap_set k v m = AList.update k v m"

definition jmap_keys :: "('k, 'v) jmap \<Rightarrow> 'k list" where
  "jmap_keys m = map fst m"

definition jset_add :: "'a \<Rightarrow> 'a list \<Rightarrow> 'a list" where
  "jset_add x s = (if x \<in> set s then s else s @ [x])"

definition jset_of :: "'a list \<Rightarrow> 'a list" where
  "jset_of xs = foldl (\<lambda>s x. jset_add x s) [] xs" \<comment> \<open>\<open>new Set(xs)\<close>\<close>

lemma set_jset_add [simp]: "set (jset_add x s) = insert x (set s)"
  by (auto simp: jset_add_def)

lemma distinct_jset_add [simp]: "distinct (jset_add x s) \<longleftrightarrow> distinct s"
  by (auto simp: jset_add_def)

lemma set_foldl_jset_add: "set (foldl (\<lambda>s x. jset_add x s) acc xs) = set acc \<union> set xs"
  by (induction xs arbitrary: acc) auto

lemma distinct_foldl_jset_add: "distinct (foldl (\<lambda>s x. jset_add x s) acc xs) \<longleftrightarrow> distinct acc"
  by (induction xs arbitrary: acc) auto

lemma set_jset_of [simp]: "set (jset_of xs) = set xs"
  by (simp add: jset_of_def set_foldl_jset_add)

lemma distinct_jset_of [simp]: "distinct (jset_of xs)"
  by (simp add: jset_of_def distinct_foldl_jset_add)

text \<open>The contract of an ordered map: last write wins, and the order is that of first writes.\<close>

locale ordered_map =
  fixes emp :: "'m" and get :: "'m \<Rightarrow> 'k \<Rightarrow> 'v option"
    and put :: "'k \<Rightarrow> 'v \<Rightarrow> 'm \<Rightarrow> 'm" and keys :: "'m \<Rightarrow> 'k list"
  assumes get_emp: "get emp k = None"
    and get_put: "get (put k v m) k' = (if k' = k then Some v else get m k')"
    and keys_emp: "keys emp = []"
    and keys_put: "keys (put k v m) = (if get m k = None then keys m @ [k] else keys m)"
    and keys_get: "k \<in> set (keys m) \<longleftrightarrow> get m k \<noteq> None"
begin

lemma distinct_put: "distinct (keys m) \<Longrightarrow> distinct (keys (put k v m))"
  by (auto simp: keys_put keys_get)

lemma set_keys_put: "set (keys (put k v m)) = insert k (set (keys m))"
  by (auto simp: keys_put keys_get)

lemma put_get_same: "get (put k v m) k = Some v"
  by (simp add: get_put)

lemma put_get_other: "k' \<noteq> k \<Longrightarrow> get (put k v m) k' = get m k'"
  by (simp add: get_put)

lemma get_put_all:
  "get (foldl (\<lambda>m (k, v). put k v m) m kvs) k =
     (case map_of (rev kvs) k of None \<Rightarrow> get m k | Some v \<Rightarrow> Some v)"
proof (induction kvs arbitrary: m)
  case Nil
  then show ?case by simp
next
  case (Cons kv kvs)
  obtain k0 v0 where kv: "kv = (k0, v0)" by (cases kv)
  show ?case using Cons.IH [of "put k0 v0 m"]
    by (simp add: kv get_put map_add_def split: option.splits)
qed

lemma distinct_put_all: "distinct (keys m) \<Longrightarrow> distinct (keys (foldl (\<lambda>m (k, v). put k v m) m kvs))"
  by (induction kvs arbitrary: m) (auto simp: distinct_put)

lemma set_keys_put_all:
  "set (keys (foldl (\<lambda>m (k, v). put k v m) m kvs)) = fst ` set kvs \<union> set (keys m)"
  by (induction kvs arbitrary: m) (force simp: set_keys_put)+

end

interpretation jm: ordered_map "[]" jmap_get jmap_set jmap_keys
proof
  show "jmap_keys (jmap_set k v m) = (if jmap_get m k = None then jmap_keys m @ [k] else jmap_keys m)"
    for k :: 'a and v :: 'b and m
    by (induction m) (auto simp: jmap_keys_def jmap_set_def jmap_get_def)
qed (auto simp: jmap_get_def jmap_set_def jmap_keys_def update_conv' map_of_eq_None_iff)

text \<open>An object spread \<open>{ ...m, ...kvs }\<close> writes the keys of \<open>kvs\<close> one after the other.\<close>

definition jmap_set_all :: "('k \<times> 'v) list \<Rightarrow> ('k, 'v) jmap \<Rightarrow> ('k, 'v) jmap" where
  "jmap_set_all kvs m = foldl (\<lambda>m (k, v). jmap_set k v m) m kvs"

lemmas jmap_get_set_all = jm.get_put_all [folded jmap_set_all_def]
  and distinct_jmap_set_all = jm.distinct_put_all [folded jmap_set_all_def]
  and set_keys_jmap_set_all = jm.set_keys_put_all [folded jmap_set_all_def]

lemmas jmap_simps [simp] = jm.get_emp jm.get_put jm.keys_emp

lemma jmap_set_not_Nil [simp]: "jmap_set k v m \<noteq> []"
  by (cases m) (auto simp: jmap_set_def)

lemma set_jmap_set: "set (jmap_set k v m) \<subseteq> insert (k, v) (set m)"
  by (induction m) (auto simp: jmap_set_def)

lemma jmap_get_Some_key: "jmap_get m k = Some v \<Longrightarrow> (k, v) \<in> set m"
  by (simp add: jmap_get_def map_of_SomeD)

lemma jmap_get_distinct: "distinct (jmap_keys m) \<Longrightarrow> (k, v) \<in> set m \<Longrightarrow> jmap_get m k = Some v"
  by (simp add: jmap_get_def jmap_keys_def)

section \<open>Folding a step that keeps an invariant\<close>

locale invariant_step =
  fixes step :: "'s \<Rightarrow> 'e \<Rightarrow> 's" and inv :: "'s \<Rightarrow> bool"
  assumes step_inv: "inv s \<Longrightarrow> inv (step s e)"
begin

lemma foldl_inv: "inv s \<Longrightarrow> inv (foldl step s es)"
  by (induction es arbitrary: s) (auto simp: step_inv)

lemma prefix_inv: "inv s \<Longrightarrow> inv (foldl step s (take n es))"
  by (rule foldl_inv)

end

section \<open>Lists\<close>

lemma ex_image_iff: "(\<exists>x \<in> set xs. f x = y) \<longleftrightarrow> y \<in> f ` set xs"
  by blast

lemma find_Some_mem: "find P xs = Some x \<Longrightarrow> x \<in> set xs \<and> P x"
  by (induction xs) (auto split: if_splits)

lemma find_None_all: "find P xs = None \<longleftrightarrow> (\<forall>x \<in> set xs. \<not> P x)"
  by (induction xs) auto

text \<open>Updating the first element that satisfies a predicate, as \<open>list.find\<close> followed by a
  mutation of the found object does.\<close>

fun update_first :: "('a \<Rightarrow> bool) \<Rightarrow> ('a \<Rightarrow> 'a) \<Rightarrow> 'a list \<Rightarrow> 'a list" where
  "update_first P f [] = []"
| "update_first P f (x # xs) = (if P x then f x # xs else x # update_first P f xs)"

lemma length_update_first [simp]: "length (update_first P f xs) = length xs"
  by (induction xs) auto

lemma update_first_none: "(\<And>x. x \<in> set xs \<Longrightarrow> \<not> P x) \<Longrightarrow> update_first P f xs = xs"
  by (induction xs) auto

lemma map_update_first: "(\<And>x. g (f x) = g x) \<Longrightarrow> map g (update_first P f xs) = map g xs"
  by (induction xs) auto

lemma set_update_first: "y \<in> set (update_first P f xs) \<Longrightarrow> y \<in> set xs \<or> (\<exists>x \<in> set xs. P x \<and> y = f x)"
  by (induction xs) (auto split: if_splits)

end
