(* ===== verification/Chain_Types.thy ===== *)
theory Chain_Types
  imports Js_Prelude
begin

text \<open>
  The data the monitor works on: \<open>src/src/types/chain.ts\<close> (actions, state deltas and
  execution entries), \<open>src/src/types/events.ts\<close> (the decoded contract events) and
  \<open>src/src/types/visualization.ts\<close> (diagram nodes, table rows and transaction bundles).
  \<^item> A TypeScript type is a \<^theory_text>\<open>record\<close> with one field per property (a prefix keeps the
    HOL names apart), a union of literals is a \<^theory_text>\<open>datatype\<close> with a function that gives the
    literal; \<open>bigint\<close> is \<^typ>\<open>int\<close>, an optional property an \<^typ>\<open>'a option\<close>.
  \<^item> \<open>EventRecord.args\<close> is a dynamic object that the code reads through casts. It is one
    record of all the argument names the event types declare, each an option: \<^const>\<open>None\<close> is
    \<open>undefined\<close>.
\<close>

section \<open>Actions and execution entries\<close>

datatype chain = L1 | L2

fun chain_str :: "chain \<Rightarrow> string" where
  "chain_str L1 = ''l1''"
| "chain_str L2 = ''l2''"

fun other_chain :: "chain \<Rightarrow> chain" where
  "other_chain L1 = L2"
| "other_chain L2 = L1"

lemma other_chain_simps [simp]: "other_chain (other_chain c) = c" "other_chain c \<noteq> c"
  by (cases c; simp)+

lemma chain_str_inj [simp]: "chain_str a = chain_str b \<longleftrightarrow> a = b"
  by (cases a; cases b; simp)

text \<open>\<open>L1\<close> sorts before \<open>L2\<close>, as every comparator of the code has it.\<close>

instantiation chain :: linorder
begin

definition less_eq_chain :: "chain \<Rightarrow> chain \<Rightarrow> bool" where
  "less_eq_chain a b \<longleftrightarrow> a = L1 \<or> b = L2"

definition less_chain :: "chain \<Rightarrow> chain \<Rightarrow> bool" where
  "less_chain a b \<longleftrightarrow> a = L1 \<and> b = L2"

instance
proof
  fix x y z :: chain
  show "x < y \<longleftrightarrow> x \<le> y \<and> \<not> y \<le> x"
    by (cases x; cases y) (auto simp: less_chain_def less_eq_chain_def)
  show "x \<le> x" by (cases x) (auto simp: less_eq_chain_def)
  show "x \<le> y \<Longrightarrow> y \<le> z \<Longrightarrow> x \<le> z" by (auto simp: less_eq_chain_def)
  show "x \<le> y \<Longrightarrow> y \<le> x \<Longrightarrow> x = y" by (auto simp: less_eq_chain_def)
  show "x \<le> y \<or> y \<le> x" by (cases x; cases y) (auto simp: less_eq_chain_def)
qed

end

text \<open>The \<open>ActionType\<close> constants.\<close>

definition CALL :: int where "CALL = 0"
definition RESULT :: int where "RESULT = 1"
definition L2TX :: int where "L2TX = 2"
definition REVERT :: int where "REVERT = 3"
definition REVERT_CONTINUE :: int where "REVERT_CONTINUE = 4"

lemmas action_type_defs = CALL_def RESULT_def L2TX_def REVERT_def REVERT_CONTINUE_def

record action_fields =
  a_actionType :: int
  a_rollupId :: int
  a_destination :: string
  a_value :: int
  a_data :: string
  a_failed :: bool
  a_sourceAddress :: string
  a_sourceRollup :: int
  a_scope :: "int list"

record state_delta =
  sd_rollupId :: int
  sd_currentState :: string
  sd_newState :: string
  sd_etherDelta :: int

record exec_entry =
  ee_stateDeltas :: "state_delta list"
  ee_actionHash :: string
  ee_nextAction :: action_fields

definition zero_hash :: string where
  "zero_hash = ''0x0000000000000000000000000000000000000000000000000000000000000000''"

definition zero_addr :: string where
  "zero_addr = ''0x0000000000000000000000000000000000000000''"

section \<open>Events\<close>

datatype event_name = RollupCreated | StateUpdated | VerificationKeyUpdated | OwnershipTransferred
  | CrossChainProxyCreated | L2ExecutionPerformed | ExecutionConsumed | CrossChainCallExecuted
  | L2TXExecuted | BatchPosted | ExecutionTableLoaded | IncomingCrossChainCallExecuted

fun event_name_str :: "event_name \<Rightarrow> string" where
  "event_name_str RollupCreated = ''RollupCreated''"
| "event_name_str StateUpdated = ''StateUpdated''"
| "event_name_str VerificationKeyUpdated = ''VerificationKeyUpdated''"
| "event_name_str OwnershipTransferred = ''OwnershipTransferred''"
| "event_name_str CrossChainProxyCreated = ''CrossChainProxyCreated''"
| "event_name_str L2ExecutionPerformed = ''L2ExecutionPerformed''"
| "event_name_str ExecutionConsumed = ''ExecutionConsumed''"
| "event_name_str CrossChainCallExecuted = ''CrossChainCallExecuted''"
| "event_name_str L2TXExecuted = ''L2TXExecuted''"
| "event_name_str BatchPosted = ''BatchPosted''"
| "event_name_str ExecutionTableLoaded = ''ExecutionTableLoaded''"
| "event_name_str IncomingCrossChainCallExecuted = ''IncomingCrossChainCallExecuted''"

record event_args =
  ar_entries :: "exec_entry list option"
  ar_actionHash :: "string option"
  ar_action :: "action_fields option"
  ar_proxy :: "string option"
  ar_originalAddress :: "string option"
  ar_originalRollupId :: "int option"
  ar_sourceAddress :: "string option"
  ar_destination :: "string option"
  ar_rollupId :: "int option"
  ar_owner :: "string option"
  ar_verificationKey :: "string option"
  ar_initialState :: "string option"
  ar_newStateRoot :: "string option"
  ar_currentState :: "string option"
  ar_newState :: "string option"
  ar_publicInputsHash :: "string option"
  ar_callData :: "string option"
  ar_value :: "int option"
  ar_data :: "string option"
  ar_sourceRollup :: "int option"
  ar_scope :: "int list option"
  ar_rlpEncodedTx :: "string option"

definition no_args :: event_args where
  "no_args = \<lparr>ar_entries = None, ar_actionHash = None, ar_action = None, ar_proxy = None,
     ar_originalAddress = None, ar_originalRollupId = None, ar_sourceAddress = None,
     ar_destination = None, ar_rollupId = None, ar_owner = None, ar_verificationKey = None,
     ar_initialState = None, ar_newStateRoot = None, ar_currentState = None,
     ar_newState = None, ar_publicInputsHash = None, ar_callData = None, ar_value = None,
     ar_data = None, ar_sourceRollup = None, ar_scope = None, ar_rlpEncodedTx = None\<rparr>"

record event_record =
  ev_id :: string
  ev_chain :: chain
  ev_name :: event_name
  ev_block :: int
  ev_logIndex :: int
  ev_tx :: string
  ev_args :: event_args
  ev_timestamp :: "int option"

text \<open>The order every event list is kept in: block number, then log index.\<close>

definition ev_key :: "event_record \<Rightarrow> int \<times> int" where
  "ev_key e = (ev_block e, ev_logIndex e)"

section \<open>Diagram, tables and bundles\<close>

datatype node_type = User | Contract | Proxy | System | Ghost

fun node_type_str :: "node_type \<Rightarrow> string" where
  "node_type_str User = ''user''"
| "node_type_str Contract = ''contract''"
| "node_type_str Proxy = ''proxy''"
| "node_type_str System = ''system''"
| "node_type_str Ghost = ''ghost''"

record arch_node =
  an_id :: string
  an_label :: string
  an_sub :: string
  an_type :: node_type
  an_col :: nat

record arch_edge =
  ae_from :: string
  ae_to :: string
  ae_label :: string
  ae_back :: "bool option"
  ae_alt :: "bool option"
  ae_id :: "string option"

datatype entry_status = Ja | Jc | Ok | Consumed

type_synonym detail = "(string, string) jmap"

record table_entry =
  te_id :: string
  te_actionHash :: string
  te_nextActionHash :: string
  te_delta :: "string option"
  te_status :: entry_status
  te_stateDeltas :: "string list"
  te_rollupIds :: "int list"
  te_actionDetail :: "detail option"
  te_nextActionDetail :: "detail option"
  te_fullActionHash :: "string option"
  te_fullNextActionHash :: "string option"

datatype diagram_item = Node string string string string | Arrow string
  \<comment> \<open>\<open>Node label sub type chain\<close>\<close>

datatype bundle_direction = D_L1_L2 | D_L2_L1 | D_L1_L2_L1 | D_L2_L1_L2 | D_L1 | D_L2 | D_mixed

fun direction_str :: "bundle_direction \<Rightarrow> string" where
  "direction_str D_L1_L2 = ''L1->L2''"
| "direction_str D_L2_L1 = ''L2->L1''"
| "direction_str D_L1_L2_L1 = ''L1->L2->L1''"
| "direction_str D_L2_L1_L2 = ''L2->L1->L2''"
| "direction_str D_L1 = ''L1''"
| "direction_str D_L2 = ''L2''"
| "direction_str D_mixed = ''mixed''"

datatype bundle_status = Complete | InProgress

record tx_bundle =
  tb_id :: string
  tb_direction :: bundle_direction
  tb_title :: string
  tb_actionHashes :: "string list"
  tb_events :: "string list"
  tb_chains :: "chain list"
  tb_from :: int
  tb_to :: int
  tb_txHashes :: "string list"
  tb_status :: bundle_status

record addr_info =
  ai_address :: string
  ai_label :: string
  ai_type :: node_type
  ai_chain :: chain
  ai_rollupId :: "int option"

end
