(* ===== verification/Action_Format.thy ===== *)
theory Action_Format
  imports Chain_Types
begin

text \<open>
  \<open>src/src/lib/actionFormatter.ts\<close> and \<open>src/src/lib/actionHashDecoder.ts\<close>: the display text of
  hashes, addresses, scopes and actions, and the action hash.
  The hash is ABI encoding and keccak256 of a third-party package (viem); it is the parameter
  \<open>ah\<close>, which returns the hash or throws. Every definition that hashes takes it as an argument.
  The table of selector names is the one the module starts with (\<open>registerSelector\<close> has no
  caller in the repository). \<open>formatEther\<close> (floating point, no caller) is not modelled.
\<close>

type_synonym action_hasher = "action_fields \<Rightarrow> js_error + string"

section \<open>Text\<close>

definition actionTypeName :: "int \<Rightarrow> string" where
  "actionTypeName t =
     (if t = CALL then ''CALL''
      else if t = RESULT then ''RESULT''
      else if t = L2TX then ''L2TX''
      else if t = REVERT then ''REVERT''
      else if t = REVERT_CONTINUE then ''REVERT_CONTINUE''
      else ''UNKNOWN('' @ show_int t @ '')'')"

definition truncateAddress :: "string \<Rightarrow> string" where
  "truncateAddress addr =
     (if length addr \<le> 10 then addr
      else js_slice_to 6 addr @ ''...'' @ js_slice_last 4 addr)"

definition truncateHex_n :: "nat \<Rightarrow> string \<Rightarrow> string" where
  "truncateHex_n chars hex =
     (if length hex \<le> chars + 4 then hex else js_slice_to (chars + 2) hex @ ''...'')"

abbreviation truncateHex :: "string \<Rightarrow> string" where
  "truncateHex \<equiv> truncateHex_n 8"

definition formatScope :: "int list \<Rightarrow> string" where
  "formatScope scope =
     (if scope = [] then ''[]'' else ''['' @ js_join '','' (map show_int scope) @ '']'')"

section \<open>Known selectors and the display of an action\<close>

definition KNOWN_SELECTORS :: "(string, string) jmap" where
  "KNOWN_SELECTORS =
    [(''0xd09de08a'', ''increment()''),
     (''0x06661abd'', ''counter()''),
     (''0x5a6a9e05'', ''targetCounter()''),
     (''0x2bf21647'', ''incrementProxy()''),
     (''0xe9d68d7b'', ''setContext()''),
     (''0x96609ad5'', ''loadExecutionTable()''),
     (''0x0f64c845'', ''executeIncomingCrossChainCall()''),
     (''0x9af53259'', ''executeCrossChainCall()''),
     (''0x92f6fe4a'', ''newScope()''),
     (''0x532f0839'', ''executeOnBehalf()'')]"

text \<open>\<open>data.length >= 10 ? data.slice(0, 10) : data\<close>, a phrase several functions share.\<close>

definition data_selector :: "string \<Rightarrow> string" where
  "data_selector d = (if length d \<ge> 10 then js_slice_to 10 d else d)"

definition show_addr :: "string \<Rightarrow> string \<Rightarrow> string" where
  "show_addr zero_text a = (if a = zero_addr then zero_text else truncateAddress a)"

definition formatActionFields :: "action_fields \<Rightarrow> detail" where
  "formatActionFields action =
     (let dataSelector = data_selector (a_data action);
          dataDisplay = (case jmap_get KNOWN_SELECTORS (js_lower dataSelector) of
              Some selectorName \<Rightarrow> dataSelector @ '' ('' @ selectorName @ '')''
            | None \<Rightarrow> if length (a_data action) > 20 then truncateHex (a_data action) else a_data action)
      in [(''actionType'', actionTypeName (a_actionType action)),
          (''rollupId'', show_int (a_rollupId action)),
          (''destination'', show_addr ''address(0)'' (a_destination action)),
          (''value'', show_int (a_value action)),
          (''data'', dataDisplay),
          (''failed'', if a_failed action then ''true'' else ''false''),
          (''sourceAddress'', show_addr ''address(0)'' (a_sourceAddress action)),
          (''sourceRollup'', show_int (a_sourceRollup action)),
          (''scope'', formatScope (a_scope action))])"

text \<open>\<open>{ computedHash: h, ...formatActionFields(fields) }\<close>.\<close>

definition hashed_detail :: "string \<Rightarrow> action_fields \<Rightarrow> detail" where
  "hashed_detail h act = jmap_set_all (formatActionFields act) [(''computedHash'', h)]"

text \<open>
  \<open>actionFromEventArgs\<close> rebuilds the record from the decoded tuple. \<open>Number\<close>, \<open>BigInt\<close> and
  \<open>Boolean\<close> of a decoded value of these types are that value, so it copies the fields.
\<close>

definition actionFromEventArgs :: "action_fields \<Rightarrow> action_fields" where
  "actionFromEventArgs arg =
     \<lparr>a_actionType = a_actionType arg, a_rollupId = a_rollupId arg,
      a_destination = a_destination arg, a_value = a_value arg, a_data = a_data arg,
      a_failed = a_failed arg, a_sourceAddress = a_sourceAddress arg,
      a_sourceRollup = a_sourceRollup arg, a_scope = map (\<lambda>s. s) (a_scope arg)\<rparr>"

lemma actionFromEventArgs_id [simp]: "actionFromEventArgs arg = arg"
  by (simp add: actionFromEventArgs_def)

definition actionSummary :: "action_fields \<Rightarrow> string" where
  "actionSummary action =
     (let type = actionTypeName (a_actionType action);
          rollup = (if a_rollupId action = 0 then ''MAIN'' else ''L2('' @ show_int (a_rollupId action) @ '')'')
      in if a_actionType action = 1 \<or> a_actionType action = 3 \<or> a_actionType action = 4 then
           let dataPreview = (if a_data action = ''0x'' then [CHR 0x22, CHR 0x22] else truncateHex_n 6 (a_data action))
           in type @ ''{'' @ rollup @ '', data='' @ dataPreview @ ''}''
         else if a_actionType action = 2 then
           type @ ''{'' @ rollup @ '', rlp='' @ truncateHex_n 6 (a_data action) @ ''}''
         else
           let dest = show_addr ''0x0'' (a_destination action);
               selector = data_selector (a_data action);
               fnName = (case jmap_get KNOWN_SELECTORS (js_lower selector) of Some n \<Rightarrow> n | None \<Rightarrow> selector);
               src = show_addr ''0x0'' (a_sourceAddress action);
               scopeStr = (if a_scope action \<noteq> [] then '', scope='' @ formatScope (a_scope action) else [])
           in type @ ''{'' @ rollup @ '', '' @ dest @ '', '' @ fnName @ '', src='' @ src @ scopeStr @ ''}'')"

section \<open>Checking a stored hash\<close>

record decoded_hash =
  dh_computedHash :: string
  dh_verified :: bool
  dh_fields :: action_fields
  dh_display :: detail

definition decodeActionHash :: "action_hasher \<Rightarrow> string \<Rightarrow> action_fields \<Rightarrow> js_error + decoded_hash" where
  "decodeActionHash ah storedHash action =
     res_bind (ah action) (\<lambda>computedHash.
       Inr \<lparr>dh_computedHash = computedHash,
            dh_verified = (js_lower computedHash = js_lower storedHash),
            dh_fields = action,
            dh_display = formatActionFields action\<rparr>)"

section \<open>Facts about truncation\<close>

lemma truncateHex_n_short: "length h \<le> n + 4 \<Longrightarrow> truncateHex_n n h = h"
  by (simp add: truncateHex_n_def)

lemma truncateHex_n_long: "n + 4 < length h \<Longrightarrow> truncateHex_n n h = take (n + 2) h @ ''...''"
  by (simp add: truncateHex_n_def js_slice_to_def)

lemma truncateHex_n_idem: "truncateHex_n n (truncateHex_n n h) = truncateHex_n n h"
proof (cases "length h \<le> n + 4")
  case False
  then have "truncateHex_n n h = take (n + 2) h @ ''...''" and "length (take (n + 2) h) = n + 2"
    by (simp_all add: truncateHex_n_long)
  then show ?thesis by (simp add: truncateHex_n_def js_slice_to_def)
qed (simp add: truncateHex_n_short)

text \<open>Two long hashes have the same short form exactly when they agree on the kept prefix.\<close>

lemma truncateHex_n_eq_iff:
  assumes "n + 4 < length a" and "n + 4 < length b"
  shows "truncateHex_n n a = truncateHex_n n b \<longleftrightarrow> take (n + 2) a = take (n + 2) b"
  using assms by (simp add: truncateHex_n_long)

lemma length_truncateHex_n: "length (truncateHex_n n h) \<le> n + 5"
  by (simp add: truncateHex_n_def js_slice_to_def)

lemma length_truncateAddress: "length (truncateAddress a) \<le> 13"
  by (simp add: truncateAddress_def js_slice_to_def js_slice_last_def)

lemma keys_formatActionFields:
  "jmap_keys (formatActionFields a) =
     [''actionType'', ''rollupId'', ''destination'', ''value'', ''data'', ''failed'',
      ''sourceAddress'', ''sourceRollup'', ''scope'']"
  by (simp add: formatActionFields_def Let_def jmap_keys_def)

lemma hashed_detail_not_Nil [simp]: "hashed_detail h a \<noteq> []"
proof -
  have "''computedHash'' \<in> set (jmap_keys (hashed_detail h a))"
    by (simp add: hashed_detail_def set_keys_jmap_set_all) (simp add: jmap_keys_def)
  then show ?thesis by (auto simp: jmap_keys_def)
qed

lemma hashed_detail_computedHash: "jmap_get (hashed_detail h a) ''computedHash'' = Some h"
  by (simp add: hashed_detail_def jmap_get_set_all formatActionFields_def Let_def)
     (simp add: jmap_get_def)

end
