(* ===== verification/Event_Tables.thy ===== *)
theory Event_Tables
  imports Action_Format
begin

text \<open>
  \<open>src/src/lib/eventProcessor.ts\<close>: what a decoded event does to the two execution tables
  (\<open>processEventForTables\<close>) and to the shown contract state (\<open>extractRollupState\<close>).
  The module keeps one global, the cache of action details by lower-case action hash; it is
  passed in and returned. An exception (an absent argument, or the hash function throwing) is
  \<^const>\<open>Inl\<close>, with the cache as it was when it was thrown.
\<close>

type_synonym detail_cache = "(string, detail) jmap"

record consume_info =
  ci_actionHash :: "string option"
  ci_actionDetail :: detail

record table_mutations =
  l1Adds :: "table_entry list"
  l2Adds :: "table_entry list"
  l1Consumes :: "consume_info list"
  l2Consumes :: "consume_info list"

definition no_mutations :: table_mutations where
  "no_mutations = \<lparr>l1Adds = [], l2Adds = [], l1Consumes = [], l2Consumes = []\<rparr>"

definition is_immediate :: "exec_entry \<Rightarrow> bool" where
  "is_immediate entry \<longleftrightarrow> ee_actionHash entry = zero_hash"

definition delta_text :: "state_delta \<Rightarrow> string" where
  "delta_text sd =
     ''r'' @ show_int (sd_rollupId sd) @ '': '' @ truncateHex (sd_currentState sd) @ '' -> '' @ truncateHex (sd_newState sd)"

definition entryToTableEntry ::
  "action_hasher \<Rightarrow> detail_cache \<Rightarrow> exec_entry \<Rightarrow> string \<Rightarrow> js_error + table_entry" where
  "entryToTableEntry ah cache entry eventId =
     (let naFields = actionFromEventArgs (ee_nextAction entry);
          nextSummary = actionSummary naFields;
          deltas = map delta_text (ee_stateDeltas entry);
          rollupIds = map sd_rollupId (ee_stateDeltas entry);
          actionDetail = (case jmap_get cache (js_lower (ee_actionHash entry)) of
              Some cached \<Rightarrow> cached
            | None \<Rightarrow> [(''actionHash'', ee_actionHash entry)])
      in res_bind (ah naFields) (\<lambda>nextComputedHash.
         Inr \<lparr>te_id = eventId @ ''-'' @ ee_actionHash entry,
              te_actionHash = truncateHex (ee_actionHash entry),
              te_nextActionHash = nextSummary,
              te_delta = (if length deltas > 0 then Some (js_join ''; '' deltas) else None),
              te_status = Ja,
              te_stateDeltas = deltas,
              te_rollupIds = rollupIds,
              te_actionDetail = Some actionDetail,
              te_nextActionDetail = Some (hashed_detail nextComputedHash naFields),
              te_fullActionHash = Some (ee_actionHash entry),
              te_fullNextActionHash = Some nextComputedHash\<rparr>))"

text \<open>The detail an \<open>ExecutionConsumed\<close> event carries: empty without an action.\<close>

definition consumed_detail :: "action_hasher \<Rightarrow> event_record \<Rightarrow> js_error + detail" where
  "consumed_detail ah event =
     (case ar_action (ev_args event) of
        None \<Rightarrow> Inr []
      | Some actionArg \<Rightarrow>
          (let act = actionFromEventArgs actionArg
           in res_bind (ah act) (\<lambda>computed. Inr (hashed_detail computed act))))"

definition processEventForTables ::
  "action_hasher \<Rightarrow> detail_cache \<Rightarrow> event_record \<Rightarrow> detail_cache \<times> (js_error + table_mutations)" where
  "processEventForTables ah cache event =
     (case ev_name event of
        BatchPosted \<Rightarrow>
          (case ar_entries (ev_args event) of
             None \<Rightarrow> (cache, Inr no_mutations)
           | Some entries \<Rightarrow>
               (cache, res_bind (res_map (\<lambda>entry. entryToTableEntry ah cache entry (ev_id event))
                                   (filter (\<lambda>entry. \<not> is_immediate entry) entries))
                         (\<lambda>tes. Inr (no_mutations\<lparr>l1Adds := tes\<rparr>))))
      | ExecutionTableLoaded \<Rightarrow>
          (case ar_entries (ev_args event) of
             None \<Rightarrow> (cache, Inr no_mutations)
           | Some entries \<Rightarrow>
               (cache, res_bind (res_map (\<lambda>entry. entryToTableEntry ah cache entry (ev_id event)) entries)
                         (\<lambda>tes. Inr (no_mutations\<lparr>l2Adds := tes\<rparr>))))
      | ExecutionConsumed \<Rightarrow>
          (let actionHash = ar_actionHash (ev_args event)
           in case consumed_detail ah event of
             Inl e \<Rightarrow> (cache, Inl e)
           | Inr actionDetail \<Rightarrow>
               (let info = \<lparr>ci_actionHash = actionHash, ci_actionDetail = actionDetail\<rparr>;
                    muts = (if ev_chain event = L1 then no_mutations\<lparr>l1Consumes := [info]\<rparr>
                            else no_mutations\<lparr>l2Consumes := [info]\<rparr>)
                in if length actionDetail > 0 then
                     (case actionHash of
                        None \<Rightarrow> (cache, Inl TypeError)
                      | Some h \<Rightarrow> (jmap_set (js_lower h) actionDetail cache, Inr muts))
                   else (cache, Inr muts)))
      | _ \<Rightarrow> (cache, Inr no_mutations))"

section \<open>Contract state\<close>

record state_update =
  su_rollupId :: string
  su_key :: string
  su_value :: "string option"

definition rollup_key :: "string \<Rightarrow> string \<Rightarrow> string" where
  "rollup_key rid what = ''Rollup '' @ rid @ '' '' @ what"

definition state_text :: "string option \<Rightarrow> js_error + string option" where
  "state_text m = res_bind (js_defined m) (\<lambda>h. Inr (Some (truncateHex h)))"

definition single_update :: "int option \<Rightarrow> string option \<Rightarrow> js_error + state_update list" where
  "single_update rollupId newState =
     (let rid = js_String_int rollupId
      in res_bind (state_text newState) (\<lambda>v.
         Inr [\<lparr>su_rollupId = rid, su_key = rollup_key rid ''state'', su_value = v\<rparr>]))"

definition extractRollupState :: "event_record \<Rightarrow> js_error + state_update list" where
  "extractRollupState event =
     (let args = ev_args event in
      case ev_name event of
        RollupCreated \<Rightarrow>
          (let rid = js_String_int (ar_rollupId args)
           in res_bind (state_text (ar_initialState args)) (\<lambda>st.
              res_bind (state_text (ar_verificationKey args)) (\<lambda>vk.
              Inr [\<lparr>su_rollupId = rid, su_key = rollup_key rid ''state'', su_value = st\<rparr>,
                   \<lparr>su_rollupId = rid, su_key = rollup_key rid ''owner'', su_value = ar_owner args\<rparr>,
                   \<lparr>su_rollupId = rid, su_key = rollup_key rid ''vk'', su_value = vk\<rparr>])))
      | StateUpdated \<Rightarrow> single_update (ar_rollupId args) (ar_newStateRoot args)
      | L2ExecutionPerformed \<Rightarrow> single_update (ar_rollupId args) (ar_newState args)
      | BatchPosted \<Rightarrow>
          (case ar_entries args of
             None \<Rightarrow> Inr []
           | Some entries \<Rightarrow>
               Inr (concat (map (\<lambda>entry.
                 if \<not> is_immediate entry then []
                 else map (\<lambda>sd. \<lparr>su_rollupId = show_int (sd_rollupId sd),
                                su_key = rollup_key (show_int (sd_rollupId sd)) ''state'',
                                su_value = Some (truncateHex (sd_newState sd))\<rparr>)
                        (ee_stateDeltas entry)) entries)))
      | _ \<Rightarrow> Inr [])"

section \<open>What the tables receive\<close>

lemma no_mutations_simps [simp]:
  "l1Adds no_mutations = []" "l2Adds no_mutations = []"
  "l1Consumes no_mutations = []" "l2Consumes no_mutations = []"
  by (simp_all add: no_mutations_def)

lemma entryToTableEntry_Inr:
  assumes "entryToTableEntry ah cache entry eventId = Inr te"
  shows "te_id te = eventId @ ''-'' @ ee_actionHash entry"
    and "te_fullActionHash te = Some (ee_actionHash entry)"
    and "te_actionHash te = truncateHex (ee_actionHash entry)"
    and "te_status te = Ja"
    and "te_rollupIds te = map sd_rollupId (ee_stateDeltas entry)"
    and "\<exists>h. ah (ee_nextAction entry) = Inr h \<and> te_fullNextActionHash te = Some h"
  using assms by (auto simp: entryToTableEntry_def Let_def res_bind_Inr_iff)

text \<open>A row fails to build only when hashing its next action throws.\<close>

lemma entryToTableEntry_Inl_iff:
  "entryToTableEntry ah cache entry eventId = Inl e \<longleftrightarrow> ah (ee_nextAction entry) = Inl e"
  by (auto simp: entryToTableEntry_def Let_def res_bind_Inl_iff)

lemma entries_to_rows:
  assumes "res_map (\<lambda>entry. entryToTableEntry ah cache entry i) entries = Inr tes"
  shows "map te_fullActionHash tes = map (\<lambda>en. Some (ee_actionHash en)) entries"
    and "map te_actionHash tes = map (\<lambda>en. truncateHex (ee_actionHash en)) entries"
    and "map te_id tes = map (\<lambda>en. i @ ''-'' @ ee_actionHash en) entries"
    and "\<forall>te \<in> set tes. te_status te = Ja"
proof -
  have all2: "list_all2 (\<lambda>en te. entryToTableEntry ah cache en i = Inr te) entries tes"
    using assms by (simp add: res_map_all2)
  show "map te_fullActionHash tes = map (\<lambda>en. Some (ee_actionHash en)) entries"
    and "map te_actionHash tes = map (\<lambda>en. truncateHex (ee_actionHash en)) entries"
    and "map te_id tes = map (\<lambda>en. i @ ''-'' @ ee_actionHash en) entries"
    and "\<forall>te \<in> set tes. te_status te = Ja"
    using all2 by (induction rule: list_all2_induct) (auto simp: entryToTableEntry_Inr)
qed

fun table_event :: "event_name \<Rightarrow> bool" where
  "table_event BatchPosted = True"
| "table_event ExecutionTableLoaded = True"
| "table_event ExecutionConsumed = True"
| "table_event _ = False"

lemma process_other_event [simp]:
  "\<not> table_event (ev_name event) \<Longrightarrow> processEventForTables ah cache event = (cache, Inr no_mutations)"
  by (cases "ev_name event") (simp_all add: processEventForTables_def)

lemma process_adds:
  assumes "processEventForTables ah cache event = (cache', Inr muts)"
  shows "map te_fullActionHash (l1Adds muts) =
           (if ev_name event = BatchPosted then
              map (\<lambda>en. Some (ee_actionHash en))
                (filter (\<lambda>en. \<not> is_immediate en) (case ar_entries (ev_args event) of None \<Rightarrow> [] | Some es \<Rightarrow> es))
            else [])"
    and "map te_fullActionHash (l2Adds muts) =
           (if ev_name event = ExecutionTableLoaded then
              map (\<lambda>en. Some (ee_actionHash en)) (case ar_entries (ev_args event) of None \<Rightarrow> [] | Some es \<Rightarrow> es)
            else [])"
    and "\<forall>te \<in> set (l1Adds muts @ l2Adds muts). te_status te = Ja"
  using assms
  by (auto simp: processEventForTables_def Let_def res_bind_Inr_iff
      split: event_name.splits option.splits sum.splits if_splits dest: entries_to_rows)

lemma process_consumes:
  assumes "processEventForTables ah cache event = (cache', Inr muts)"
  shows "map ci_actionHash (l1Consumes muts) =
           (if ev_name event = ExecutionConsumed \<and> ev_chain event = L1 then [ar_actionHash (ev_args event)] else [])"
    and "map ci_actionHash (l2Consumes muts) =
           (if ev_name event = ExecutionConsumed \<and> ev_chain event = L2 then [ar_actionHash (ev_args event)] else [])"
proof -
  have c: "ev_chain event \<noteq> L1 \<longleftrightarrow> ev_chain event = L2" by (cases "ev_chain event") auto
  show "map ci_actionHash (l1Consumes muts) =
           (if ev_name event = ExecutionConsumed \<and> ev_chain event = L1 then [ar_actionHash (ev_args event)] else [])"
    and "map ci_actionHash (l2Consumes muts) =
           (if ev_name event = ExecutionConsumed \<and> ev_chain event = L2 then [ar_actionHash (ev_args event)] else [])"
    using assms c
    by (auto simp: processEventForTables_def Let_def res_bind_Inr_iff
        split: event_name.splits option.splits sum.splits if_splits)
qed

text \<open>Only a consumed event with an action writes the cache, under the lower-case hash.\<close>

lemma process_cache:
  assumes "processEventForTables ah cache event = (cache', r)"
  shows "cache' = cache \<or>
    (\<exists>h act d. ev_name event = ExecutionConsumed \<and> ar_actionHash (ev_args event) = Some h \<and>
       ar_action (ev_args event) = Some act \<and> ah act = Inr d \<and>
       cache' = jmap_set (js_lower h) (hashed_detail d act) cache)"
  using assms
  by (auto simp: processEventForTables_def consumed_detail_def Let_def res_bind_Inr_iff
      split: event_name.splits option.splits sum.splits if_splits)

text \<open>The invariant of the cache: lower-case keys, and every detail shows the hash it was
  computed with.\<close>

definition cache_ok :: "detail_cache \<Rightarrow> bool" where
  "cache_ok cache \<longleftrightarrow> (\<forall>(k, d) \<in> set cache. js_lower k = k \<and> jmap_get d ''computedHash'' \<noteq> None)
     \<and> distinct (jmap_keys cache)"

lemma process_cache_ok:
  assumes "cache_ok cache"
  shows "cache_ok (fst (processEventForTables ah cache event))"
proof -
  obtain c' r where p: "processEventForTables ah cache event = (c', r)" by fastforce
  have "cache_ok (jmap_set (js_lower h) (hashed_detail d act) cache)" for h d act
    using assms set_jmap_set [of "js_lower h" "hashed_detail d act" cache]
    by (auto simp: cache_ok_def jm.distinct_put hashed_detail_computedHash split: prod.splits)
  with process_cache [OF p] assms show ?thesis by (auto simp: p)
qed

end
