(* ===== verification/Monitor_Store.thy ===== *)
theory Monitor_Store
  imports Event_Tables
begin

text \<open>
  \<open>src/src/store/\<close>: the state the monitor page renders, one group of operations per slice
  (events, execution tables, architecture, connection, playback, contract state), as functions
  on the \<open>store\<close> record. A zustand \<open>set\<close> replaces the named fields, so each operation is
  a record update. The locale \<open>ordered_log\<close> is the contract of the event list: insertion
  keeps the (block, log index) order and refuses a known id.
\<close>

record monitor_config =
  cfg_l1Rpc :: string
  cfg_l2Rpc :: string
  cfg_rollupsAddress :: string
  cfg_ccmL2Address :: string

definition default_l2_manager :: string where
  "default_l2_manager = ''0x4200000000000000000000000000000000000007''"

definition js_or :: "string \<Rightarrow> string \<Rightarrow> string" where
  "js_or a b = (if a = [] then b else a)" \<comment> \<open>\<open>a || b\<close> on strings\<close>

record store =
  st_l1RpcUrl :: string
  st_l2RpcUrl :: string
  st_l1ContractAddress :: string
  st_l2ContractAddress :: string
  st_connected :: bool
  st_l1Connected :: bool
  st_l2Connected :: bool
  st_events :: "event_record list"
  st_l1Table :: "table_entry list"
  st_l2Table :: "table_entry list"
  st_l1Nodes :: "arch_node list"
  st_l2Nodes :: "arch_node list"
  st_edges :: "arch_edge list"
  st_knownAddresses :: "(string, addr_info) jmap"
  st_activeNodes :: "string list"
  st_activeEdges :: "string list"
  st_selectedEventId :: "string option"
  st_contractState :: "(string, string option) jmap"
  st_changedKeys :: "string list"

definition init_store :: "monitor_config \<Rightarrow> store" where
  "init_store cfg =
     \<lparr>st_l1RpcUrl = cfg_l1Rpc cfg, st_l2RpcUrl = cfg_l2Rpc cfg,
      st_l1ContractAddress = cfg_rollupsAddress cfg,
      st_l2ContractAddress = js_or (cfg_ccmL2Address cfg) default_l2_manager,
      st_connected = False, st_l1Connected = False, st_l2Connected = False,
      st_events = [], st_l1Table = [], st_l2Table = [], st_l1Nodes = [], st_l2Nodes = [],
      st_edges = [], st_knownAddresses = [], st_activeNodes = [], st_activeEdges = [],
      st_selectedEventId = None, st_contractState = [], st_changedKeys = []\<rparr>"

section \<open>Events slice\<close>

text \<open>The loop that walks back from the end to the insertion index.\<close>

fun insert_index :: "event_record list \<Rightarrow> event_record \<Rightarrow> nat \<Rightarrow> nat" where
  "insert_index events event 0 = 0"
| "insert_index events event (Suc i) =
     (if ev_block (events ! i) > ev_block event \<or>
         (ev_block (events ! i) = ev_block event \<and> ev_logIndex (events ! i) > ev_logIndex event)
      then insert_index events event i else Suc i)"

definition add_event :: "event_record \<Rightarrow> event_record list \<Rightarrow> event_record list" where
  "add_event event events =
     (let i = insert_index events event (length events)
      in if (\<exists>e \<in> set events. ev_id e = ev_id event) then events
         else take i events @ event # drop i events)"

definition addEvent :: "event_record \<Rightarrow> store \<Rightarrow> store" where
  "addEvent event s = s\<lparr>st_events := add_event event (st_events s)\<rparr>"

definition clearEvents :: "store \<Rightarrow> store" where
  "clearEvents s = s\<lparr>st_events := []\<rparr>"

section \<open>Execution table slice\<close>

definition age_row :: "table_entry \<Rightarrow> table_entry" where
  "age_row e = (if te_status e = Ja then e\<lparr>te_status := Ok\<rparr> else e)"

definition add_entries :: "table_entry list \<Rightarrow> table_entry list \<Rightarrow> table_entry list" where
  "add_entries entries table = map age_row table @ entries"

definition set_detail :: "detail \<Rightarrow> table_entry \<Rightarrow> table_entry" where
  "set_detail d e = (if length d > 0 then e\<lparr>te_actionDetail := Some d\<rparr> else e)"

definition consume_entry :: "string \<Rightarrow> detail \<Rightarrow> table_entry list \<Rightarrow> table_entry list" where
  "consume_entry actionHash actionDetail table =
     map (\<lambda>e. if te_actionHash e = actionHash then set_detail actionDetail (e\<lparr>te_status := Jc\<rparr>) else e) table"

definition addL1Entries :: "table_entry list \<Rightarrow> store \<Rightarrow> store" where
  "addL1Entries entries s = s\<lparr>st_l1Table := add_entries entries (st_l1Table s)\<rparr>"

definition addL2Entries :: "table_entry list \<Rightarrow> store \<Rightarrow> store" where
  "addL2Entries entries s = s\<lparr>st_l2Table := add_entries entries (st_l2Table s)\<rparr>"

definition consumeL1Entry :: "string \<Rightarrow> detail \<Rightarrow> store \<Rightarrow> store" where
  "consumeL1Entry actionHash actionDetail s =
     s\<lparr>st_l1Table := consume_entry actionHash actionDetail (st_l1Table s)\<rparr>"

definition consumeL2Entry :: "string \<Rightarrow> detail \<Rightarrow> store \<Rightarrow> store" where
  "consumeL2Entry actionHash actionDetail s =
     s\<lparr>st_l2Table := consume_entry actionHash actionDetail (st_l2Table s)\<rparr>"

definition clearTables :: "store \<Rightarrow> store" where
  "clearTables s = s\<lparr>st_l1Table := [], st_l2Table := []\<rparr>"

section \<open>Architecture slice\<close>

definition add_node :: "arch_node list \<Rightarrow> arch_node \<Rightarrow> arch_node list" where
  "add_node ns node = (if (\<exists>n \<in> set ns. an_id n = an_id node) then ns else ns @ [node])"

definition addNodes :: "(chain \<times> arch_node) list \<Rightarrow> store \<Rightarrow> store" where
  "addNodes nodes s =
     (let (l1, l2) = foldl (\<lambda>(l1, l2) (chain, node).
            if chain = L1 then (add_node l1 node, l2) else (l1, add_node l2 node))
          (st_l1Nodes s, st_l2Nodes s) nodes
      in s\<lparr>st_l1Nodes := l1, st_l2Nodes := l2\<rparr>)"

text \<open>\<open>e.id || `${e.from}->${e.to}`\<close>.\<close>

definition edge_key :: "arch_edge \<Rightarrow> string" where
  "edge_key e = (case ae_id e of
       Some i \<Rightarrow> js_or i (ae_from e @ ''->'' @ ae_to e)
     | None \<Rightarrow> ae_from e @ ''->'' @ ae_to e)"

definition add_edges :: "arch_edge list \<Rightarrow> arch_edge list \<Rightarrow> arch_edge list" where
  "add_edges new old = old @ filter (\<lambda>e. edge_key e \<notin> edge_key ` set old) new"

definition addEdges :: "arch_edge list \<Rightarrow> store \<Rightarrow> store" where
  "addEdges new s = s\<lparr>st_edges := add_edges new (st_edges s)\<rparr>"

definition addKnownAddresses :: "addr_info list \<Rightarrow> store \<Rightarrow> store" where
  "addKnownAddresses infos s =
     s\<lparr>st_knownAddresses :=
        foldl (\<lambda>m info. jmap_set (js_lower (ai_address info)) info m) (st_knownAddresses s) infos\<rparr>"

definition setActiveNodes :: "string list \<Rightarrow> store \<Rightarrow> store" where
  "setActiveNodes ids s = s\<lparr>st_activeNodes := jset_of ids\<rparr>"

definition setActiveEdges :: "string list \<Rightarrow> store \<Rightarrow> store" where
  "setActiveEdges ids s = s\<lparr>st_activeEdges := jset_of ids\<rparr>"

definition clearArchitecture :: "store \<Rightarrow> store" where
  "clearArchitecture s =
     s\<lparr>st_l1Nodes := [], st_l2Nodes := [], st_edges := [], st_knownAddresses := [],
       st_activeNodes := [], st_activeEdges := []\<rparr>"

section \<open>Connection, playback and contract state\<close>

definition setL1RpcUrl :: "string \<Rightarrow> store \<Rightarrow> store" where
  "setL1RpcUrl url s = s\<lparr>st_l1RpcUrl := url\<rparr>"

definition setL2RpcUrl :: "string \<Rightarrow> store \<Rightarrow> store" where
  "setL2RpcUrl url s = s\<lparr>st_l2RpcUrl := url\<rparr>"

definition setL1ContractAddress :: "string \<Rightarrow> store \<Rightarrow> store" where
  "setL1ContractAddress addr s = s\<lparr>st_l1ContractAddress := addr\<rparr>"

definition setL2ContractAddress :: "string \<Rightarrow> store \<Rightarrow> store" where
  "setL2ContractAddress addr s = s\<lparr>st_l2ContractAddress := addr\<rparr>"

definition setConnected :: "bool \<Rightarrow> bool \<Rightarrow> store \<Rightarrow> store" where
  "setConnected l1 l2 s = s\<lparr>st_l1Connected := l1, st_l2Connected := l2, st_connected := l1 \<or> l2\<rparr>"

definition setSelectedEventId :: "string option \<Rightarrow> store \<Rightarrow> store" where
  "setSelectedEventId i s = s\<lparr>st_selectedEventId := i\<rparr>"

definition isLive :: "store \<Rightarrow> bool" where
  "isLive s \<longleftrightarrow> st_selectedEventId s = None"

definition updateContractState :: "string \<Rightarrow> string option \<Rightarrow> store \<Rightarrow> store" where
  "updateContractState key v s =
     s\<lparr>st_contractState := jmap_set key v (st_contractState s),
       st_changedKeys := filter (\<lambda>k. k \<noteq> key) (st_changedKeys s) @ [key]\<rparr>"

definition setChangedKeys :: "string list \<Rightarrow> store \<Rightarrow> store" where
  "setChangedKeys ks s = s\<lparr>st_changedKeys := ks\<rparr>"

definition clearAll :: "store \<Rightarrow> store" where
  "clearAll s =
     s\<lparr>st_events := [], st_l1Table := [], st_l2Table := [], st_l1Nodes := [], st_l2Nodes := [],
       st_edges := [], st_knownAddresses := [], st_activeNodes := [], st_activeEdges := [],
       st_contractState := [], st_changedKeys := [], st_selectedEventId := None,
       st_connected := False, st_l1Connected := False, st_l2Connected := False\<rparr>"

lemmas store_op_defs = addEvent_def clearEvents_def addL1Entries_def addL2Entries_def
  consumeL1Entry_def consumeL2Entry_def clearTables_def addNodes_def addEdges_def
  addKnownAddresses_def setActiveNodes_def setActiveEdges_def clearArchitecture_def
  setL1RpcUrl_def setL2RpcUrl_def setL1ContractAddress_def setL2ContractAddress_def
  setConnected_def setSelectedEventId_def updateContractState_def setChangedKeys_def clearAll_def

section \<open>The event log contract\<close>

locale ordered_log =
  fixes add :: "'e \<Rightarrow> 'e list \<Rightarrow> 'e list" and key :: "'e \<Rightarrow> 'k::linorder" and ident :: "'e \<Rightarrow> 'i"
  assumes add_known: "ident e \<in> ident ` set l \<Longrightarrow> add e l = l"
    and add_new: "ident e \<notin> ident ` set l \<Longrightarrow> sorted (map key l) \<Longrightarrow>
      \<exists>us vs. l = us @ vs \<and> add e l = us @ e # vs \<and> (\<forall>u \<in> set us. key u \<le> key e) \<and> (\<forall>v \<in> set vs. key e < key v)"
begin

definition log_ok :: "'e list \<Rightarrow> bool" where
  "log_ok l \<longleftrightarrow> sorted (map key l) \<and> distinct (map ident l)"

lemma log_ok_Nil: "log_ok []"
  by (simp add: log_ok_def)

lemma add_ok:
  assumes "log_ok l"
  shows "log_ok (add e l)"
proof (cases "ident e \<in> ident ` set l")
  case True
  with assms show ?thesis by (simp add: add_known)
next
  case False
  from assms have srt: "sorted (map key l)" and dst: "distinct (map ident l)"
    by (simp_all add: log_ok_def)
  from add_new [OF False srt] obtain us vs where l: "l = us @ vs" "add e l = us @ e # vs"
    and le: "\<forall>u \<in> set us. key u \<le> key e" and gt: "\<forall>v \<in> set vs. key e < key v"
    by blast
  have "sorted (map key (us @ e # vs))"
    using srt le gt unfolding l(1) by (auto simp: sorted_append less_imp_le)
  moreover have "distinct (map ident (us @ e # vs))"
    using dst False unfolding l(1) by auto
  ultimately show ?thesis by (simp add: log_ok_def l(2))
qed

lemma set_add: "log_ok l \<Longrightarrow> set (add e l) = (if ident e \<in> ident ` set l then set l else insert e (set l))"
  using add_known [of e l] add_new [of e l] by (auto simp: log_ok_def)

lemma idents_add: "log_ok l \<Longrightarrow> ident ` set (add e l) = insert (ident e) (ident ` set l)"
  by (auto simp: set_add)

definition log_of :: "'e list \<Rightarrow> 'e list" where
  "log_of es = foldl (\<lambda>l e. add e l) [] es"

lemma foldl_add_ok: "log_ok l \<Longrightarrow> log_ok (foldl (\<lambda>l e. add e l) l es)"
  by (induction es arbitrary: l) (auto simp: add_ok)

lemma foldl_add_set:
  assumes "log_ok l" and "inj_on ident (set l \<union> set es)"
  shows "set (foldl (\<lambda>l e. add e l) l es) = set l \<union> set es"
  using assms
proof (induction es arbitrary: l)
  case Nil
  then show ?case by simp
next
  case (Cons e es)
  have "set (add e l) = insert e (set l)"
    using Cons.prems by (auto simp: set_add inj_on_def)
  then show ?case using Cons.IH [OF add_ok [OF Cons.prems(1)], of e] Cons.prems
    by (simp add: insert_commute)
qed

text \<open>The log of a set of deliveries does not depend on the order of delivery, on any part of
  the events whose keys are pairwise distinct.\<close>

lemma log_part_order_independent:
  assumes "set xs = set ys" and ids: "inj_on ident (set xs)"
    and keys: "inj_on key {e \<in> set xs. P e}"
  shows "filter P (log_of xs) = filter P (log_of ys)"
proof -
  have sx: "set (log_of xs) = set xs" and sy: "set (log_of ys) = set xs"
    using foldl_add_set [of "[]" xs] foldl_add_set [of "[]" ys] assms(1) ids
    by (simp_all add: log_of_def log_ok_Nil)
  have ok: "log_ok (log_of xs)" "log_ok (log_of ys)"
    by (simp_all add: log_of_def foldl_add_ok log_ok_Nil)
  have part: "sorted (map key (filter P l)) \<and> distinct (map key (filter P l))"
    if "log_ok l" and "set l = set xs" for l
  proof -
    have "distinct (filter P l)"
      using that(1) by (auto simp: log_ok_def distinct_map)
    moreover have "inj_on key (set (filter P l))"
      using keys that(2) by simp
    ultimately show ?thesis
      using that(1) by (auto simp: log_ok_def sorted_filter distinct_map)
  qed
  show ?thesis
  proof (rule map_sorted_distinct_set_unique [of key])
    show "inj_on key (set (filter P (log_of xs)) \<union> set (filter P (log_of ys)))"
      using keys by (simp add: sx sy)
    show "set (filter P (log_of xs)) = set (filter P (log_of ys))" by (simp add: sx sy)
  qed (use part [OF ok(1) sx] part [OF ok(2) sy] in auto)
qed

end

lemma insert_index_spec:
  assumes "n \<le> length events" and "sorted (map ev_key (take n events))"
  shows "insert_index events event n \<le> n
    \<and> (\<forall>j < insert_index events event n. ev_key (events ! j) \<le> ev_key event)
    \<and> (\<forall>j. insert_index events event n \<le> j \<and> j < n \<longrightarrow> ev_key event < ev_key (events ! j))"
  using assms
proof (induction events event n rule: insert_index.induct)
  case (1 events event)
  then show ?case by simp
next
  case (2 events event i)
  let ?gt = "ev_block (events ! i) > ev_block event \<or>
         (ev_block (events ! i) = ev_block event \<and> ev_logIndex (events ! i) > ev_logIndex event)"
  have gt: "?gt \<longleftrightarrow> ev_key event < ev_key (events ! i)"
    by (auto simp: ev_key_def less_prod_def)
  have srt: "sorted (map ev_key (take i events))"
    using "2.prems" by (simp add: take_Suc_conv_app_nth sorted_append)
  show ?case
  proof (cases ?gt)
    case True
    from "2.IH" [OF True _ srt] "2.prems" True gt show ?thesis
      by (auto simp: less_Suc_eq)
  next
    case False
    have "ev_key (events ! j) \<le> ev_key event" if "j < Suc i" for j
    proof -
      have "ev_key (events ! j) \<le> ev_key (events ! i)"
        using "2.prems" that
        by (simp add: sorted_iff_nth_mono del: take_Suc_conv_app_nth)
      also have "\<dots> \<le> ev_key event" using False gt by simp
      finally show ?thesis .
    qed
    with False show ?thesis by auto
  qed
qed

interpretation event_log: ordered_log add_event ev_key ev_id
proof
  fix e :: event_record and l
  show "ev_id e \<in> ev_id ` set l \<Longrightarrow> add_event e l = l"
    by (simp add: add_event_def ex_image_iff Let_def)
  assume new: "ev_id e \<notin> ev_id ` set l" and srt: "sorted (map ev_key l)"
  let ?i = "insert_index l e (length l)"
  have sp: "?i \<le> length l" "\<forall>j < ?i. ev_key (l ! j) \<le> ev_key e"
      "\<forall>j. ?i \<le> j \<and> j < length l \<longrightarrow> ev_key e < ev_key (l ! j)"
    using insert_index_spec [of "length l" l e] srt by auto
  have "add_event e l = take ?i l @ e # drop ?i l"
    using new by (simp add: add_event_def ex_image_iff Let_def)
  moreover have "\<forall>u \<in> set (take ?i l). ev_key u \<le> ev_key e"
    using sp(1,2) by (auto simp: in_set_conv_nth)
  moreover have "\<forall>v \<in> set (drop ?i l). ev_key e < ev_key v"
    using sp(1,3) by (auto simp: in_set_conv_nth)
  ultimately show "\<exists>us vs. l = us @ vs \<and> add_event e l = us @ e # vs \<and>
      (\<forall>u \<in> set us. ev_key u \<le> ev_key e) \<and> (\<forall>v \<in> set vs. ev_key e < ev_key v)"
    by (intro exI [of _ "take ?i l"] exI [of _ "drop ?i l"]) auto
qed

section \<open>The other slices\<close>

lemma add_node_ids [simp]:
  "set (map an_id (add_node ns n)) = insert (an_id n) (set (map an_id ns))"
  by (auto simp: add_node_def ex_image_iff)

lemma distinct_add_node: "distinct (map an_id ns) \<Longrightarrow> distinct (map an_id (add_node ns n))"
  by (auto simp: add_node_def ex_image_iff)

lemma edge_keys_add_edges:
  "edge_key ` set (add_edges new old) = edge_key ` set old \<union> edge_key ` set new"
  by (auto simp: add_edges_def)

lemma distinct_add_edges:
  "distinct (map edge_key old) \<Longrightarrow> distinct (map edge_key new) \<Longrightarrow> distinct (map edge_key (add_edges new old))"
proof -
  assume d: "distinct (map edge_key old)" "distinct (map edge_key new)"
  have "set (map edge_key old) \<inter> set (map edge_key (filter (\<lambda>e. edge_key e \<notin> edge_key ` set old) new)) = {}"
  proof (rule equals0I)
    fix k assume "k \<in> set (map edge_key old) \<inter> set (map edge_key (filter (\<lambda>e. edge_key e \<notin> edge_key ` set old) new))"
    then have old: "k \<in> edge_key ` set old"
      and new: "k \<in> edge_key ` {e \<in> set new. edge_key e \<notin> edge_key ` set old}" by simp_all
    from new have "k \<notin> edge_key ` set old" by (elim imageE) simp
    with old show False by contradiction
  qed
  with d show ?thesis by (simp add: add_edges_def distinct_map_filter)
qed

lemma consume_entry_fields:
  "map te_actionHash (consume_entry h d t) = map te_actionHash t"
  "map te_fullActionHash (consume_entry h d t) = map te_fullActionHash t"
  "map te_id (consume_entry h d t) = map te_id t"
  by (simp_all add: consume_entry_def set_detail_def)

lemma add_entries_fields:
  "map te_id (add_entries es t) = map te_id t @ map te_id es"
  "map te_actionHash (add_entries es t) = map te_actionHash t @ map te_actionHash es"
  by (simp_all add: add_entries_def age_row_def)

lemma consume_entry_status:
  "e \<in> set (consume_entry h d t) \<Longrightarrow> te_actionHash e = h \<Longrightarrow> te_status e = Jc"
proof -
  assume "e \<in> set (consume_entry h d t)" and h: "te_actionHash e = h"
  then obtain x where e: "e = (if te_actionHash x = h then set_detail d (x\<lparr>te_status := Jc\<rparr>) else x)"
    unfolding consume_entry_def set_map by blast
  then show "te_status e = Jc"
    using h by (cases "te_actionHash x = h") (simp_all add: set_detail_def)
qed

end
