(* ===== verification/Discovery.thy ===== *)
theory Discovery
  imports Monitor_Store
begin

text \<open>
  \<open>src/src/lib/autoDiscovery.ts\<close>: which diagram nodes, edges and address labels an event
  reveals. The module keeps the next free column of each chain; the caller passes the set of
  node ids that exist. Both are threaded through the \<open>disc\<close> record, with the result lists.
\<close>

record columns =
  col_l1 :: nat
  col_l2 :: nat

definition resetDiscovery :: columns where
  "resetDiscovery = \<lparr>col_l1 = 0, col_l2 = 0\<rparr>"

definition col_of :: "chain \<Rightarrow> columns \<Rightarrow> nat" where
  "col_of c cols = (case c of L1 \<Rightarrow> col_l1 cols | L2 \<Rightarrow> col_l2 cols)"

definition bump_col :: "chain \<Rightarrow> columns \<Rightarrow> columns" where
  "bump_col c cols = (case c of L1 \<Rightarrow> cols\<lparr>col_l1 := Suc (col_l1 cols)\<rparr> | L2 \<Rightarrow> cols\<lparr>col_l2 := Suc (col_l2 cols)\<rparr>)"

record discovery =
  d_newNodes :: "(chain \<times> arch_node) list"
  d_newEdges :: "arch_edge list"
  d_addressInfos :: "addr_info list"

definition no_discovery :: discovery where
  "no_discovery = \<lparr>d_newNodes = [], d_newEdges = [], d_addressInfos = []\<rparr>"

definition mk_info :: "string \<Rightarrow> string \<Rightarrow> node_type \<Rightarrow> chain \<Rightarrow> addr_info" where
  "mk_info a l t c = \<lparr>ai_address = a, ai_label = l, ai_type = t, ai_chain = c, ai_rollupId = None\<rparr>"

definition mk_edge :: "string \<Rightarrow> string \<Rightarrow> string \<Rightarrow> arch_edge" where
  "mk_edge f t l = \<lparr>ae_from = f, ae_to = t, ae_label = l, ae_back = None, ae_alt = None,
     ae_id = Some (f @ ''->'' @ t)\<rparr>"

text \<open>The two manager nodes, at column 0 of each chain (the counters restart).\<close>

definition manager_node :: "chain \<Rightarrow> string \<Rightarrow> string \<Rightarrow> columns \<times> discovery \<Rightarrow> columns \<times> discovery" where
  "manager_node c addr label = (\<lambda>(cols, d).
     if addr = [] then (cols, d)
     else (bump_col c cols,
           d\<lparr>d_newNodes := d_newNodes d @ [(c, \<lparr>an_id = js_lower addr, an_label = label, an_sub = ''Manager'',
                an_type = System, an_col = col_of c cols\<rparr>)],
             d_addressInfos := d_addressInfos d @ [mk_info (js_lower addr) label System c]\<rparr>))"

definition initManagerNodes :: "string \<Rightarrow> string \<Rightarrow> columns \<times> discovery" where
  "initManagerNodes l1Address l2Address =
     manager_node L2 l2Address ''ManagerL2'' (manager_node L1 l1Address ''Rollups'' (resetDiscovery, no_discovery))"

section \<open>Discovery from one event\<close>

record disc =
  dc_existing :: "string list"
  dc_cols :: columns
  dc_out :: discovery

definition push_edge :: "arch_edge \<Rightarrow> disc \<Rightarrow> disc" where
  "push_edge e s = s\<lparr>dc_out := (dc_out s)\<lparr>d_newEdges := d_newEdges (dc_out s) @ [e]\<rparr>\<rparr>"

definition push_info :: "addr_info \<Rightarrow> disc \<Rightarrow> disc" where
  "push_info i s = s\<lparr>dc_out := (dc_out s)\<lparr>d_addressInfos := d_addressInfos (dc_out s) @ [i]\<rparr>\<rparr>"

text \<open>The common part of \<open>ensureNode\<close> and the two ghost nodes: register an id once.\<close>

definition new_node :: "string \<Rightarrow> string \<Rightarrow> string \<Rightarrow> node_type \<Rightarrow> chain \<Rightarrow> disc \<Rightarrow> disc" where
  "new_node i label sub t c s =
     (if i \<in> set (dc_existing s) then s
      else s\<lparr>dc_existing := jset_add i (dc_existing s),
             dc_cols := bump_col c (dc_cols s),
             dc_out := (dc_out s)\<lparr>d_newNodes := d_newNodes (dc_out s) @
               [(c, \<lparr>an_id = i, an_label = label, an_sub = sub, an_type = t, an_col = col_of c (dc_cols s)\<rparr>)]\<rparr>\<rparr>)"

definition ensureNode :: "string \<Rightarrow> string \<Rightarrow> node_type \<Rightarrow> chain \<Rightarrow> disc \<Rightarrow> disc" where
  "ensureNode address label t c s =
     (let i = js_lower address
      in if i \<in> set (dc_existing s) then s
         else push_info (mk_info i label t c) (new_node i label (truncateAddress address) t c s))"

definition known_has :: "(string, addr_info) jmap \<Rightarrow> string \<Rightarrow> bool" where
  "known_has known a \<longleftrightarrow> jmap_get known a \<noteq> None"

definition discover_step ::
  "event_record \<Rightarrow> (string, addr_info) jmap \<Rightarrow> string \<Rightarrow> string \<Rightarrow> disc \<Rightarrow> js_error + disc" where
  "discover_step event known l1Manager l2Manager s =
     (let args = ev_args event; ch = ev_chain event;
          managerId = js_lower (if ch = L1 then l1Manager else l2Manager)
      in case ev_name event of
        CrossChainProxyCreated \<Rightarrow>
          res_bind (js_defined (ar_proxy args)) (\<lambda>p.
          res_bind (js_defined (ar_originalAddress args)) (\<lambda>ori.
            let proxy = js_lower p; orig = js_lower ori;
                proxyLabel = (case jmap_get known orig of
                    Some k \<Rightarrow> if ai_chain k = other_chain ch then ai_label k @ [CHR 0x27] else truncateAddress proxy
                  | None \<Rightarrow> truncateAddress proxy);
                s1 = ensureNode proxy proxyLabel Proxy ch s
            in Inr (if managerId \<noteq> [] \<and> managerId \<in> set (dc_existing s1)
                    then push_edge (mk_edge proxy managerId
                           (''proxy(r'' @ js_String_int (ar_originalRollupId args) @ '')'')) s1
                    else s1)))
      | BatchPosted \<Rightarrow>
          (let s1 = new_node ''__prover__'' ''Prover'' ''ZK batch poster'' Ghost L1 s;
               m = js_lower l1Manager
           in Inr (if m \<noteq> [] then push_edge (mk_edge ''__prover__'' m ''postBatch'') s1 else s1))
      | ExecutionTableLoaded \<Rightarrow>
          (let s1 = new_node ''__system__'' ''SYSTEM'' ''sysAddr'' Ghost L2 s;
               m = js_lower l2Manager
           in Inr (if m \<noteq> [] then push_edge (mk_edge ''__system__'' m ''loadTable'') s1 else s1))
      | CrossChainCallExecuted \<Rightarrow>
          res_bind (js_defined (ar_sourceAddress args)) (\<lambda>sa.
          res_bind (js_defined (ar_proxy args)) (\<lambda>p.
            let src = js_lower sa; proxy = js_lower p;
                s1 = (if \<not> known_has known src then ensureNode src (truncateAddress src) User ch s else s)
            in Inr (if src \<in> set (dc_existing s1) \<and> proxy \<in> set (dc_existing s1)
                    then push_edge (mk_edge src proxy ''call'') s1 else s1)))
      | IncomingCrossChainCallExecuted \<Rightarrow>
          res_bind (js_defined (ar_destination args)) (\<lambda>de.
          res_bind (js_defined (ar_sourceAddress args)) (\<lambda>sa.
            let dest = js_lower de; srcAddr = js_lower sa;
                s1 = (if \<not> known_has known dest then ensureNode dest (truncateAddress dest) Contract ch s else s);
                s2 = (if srcAddr \<noteq> [] \<and> srcAddr \<noteq> zero_addr \<and> \<not> known_has known srcAddr
                      then push_info (mk_info srcAddr (truncateAddress srcAddr) Contract (other_chain ch)) s1
                      else s1)
            in Inr (if managerId \<noteq> [] \<and> managerId \<in> set (dc_existing s2) \<and> dest \<in> set (dc_existing s2)
                    then push_edge (mk_edge managerId dest ''execIncoming'') s2 else s2)))
      | _ \<Rightarrow> Inr s)"

definition discoverFromEvent ::
  "event_record \<Rightarrow> (string, addr_info) jmap \<Rightarrow> string list \<Rightarrow> string \<Rightarrow> string \<Rightarrow> columns
    \<Rightarrow> js_error + (columns \<times> discovery)" where
  "discoverFromEvent event known existing l1Manager l2Manager cols =
     res_bind (discover_step event known l1Manager l2Manager
                \<lparr>dc_existing = existing, dc_cols = cols, dc_out = no_discovery\<rparr>)
       (\<lambda>s. Inr (dc_cols s, dc_out s))"

section \<open>Fresh ids and fresh columns\<close>

lemma no_discovery_simps [simp]:
  "d_newNodes no_discovery = []" "d_newEdges no_discovery = []" "d_addressInfos no_discovery = []"
  by (simp_all add: no_discovery_def)

definition nodes_on :: "chain \<Rightarrow> (chain \<times> arch_node) list \<Rightarrow> arch_node list" where
  "nodes_on c ns = map snd (filter (\<lambda>(c', _). c' = c) ns)"

lemma nodes_on_simps [simp]:
  "nodes_on c [] = []"
  "nodes_on c ((c', n) # ns) = (if c' = c then n # nodes_on c ns else nodes_on c ns)"
  "nodes_on c (xs @ ys) = nodes_on c xs @ nodes_on c ys"
  by (simp_all add: nodes_on_def)

lemma col_of_bump [simp]: "col_of c (bump_col c' cols) = (if c = c' then Suc (col_of c cols) else col_of c cols)"
  by (cases c; cases c') (simp_all add: col_of_def bump_col_def)

text \<open>The invariant of a discovery started from ids \<open>ex\<close> and columns \<open>cols0\<close>: every new
  node has a new id, and the nodes of a chain take the columns from the old counter up to the
  new one, in order.\<close>

definition disc_inv :: "string list \<Rightarrow> columns \<Rightarrow> disc \<Rightarrow> bool" where
  "disc_inv ex cols0 s \<longleftrightarrow>
     set (dc_existing s) = set ex \<union> an_id ` snd ` set (d_newNodes (dc_out s)) \<and>
     set ex \<inter> an_id ` snd ` set (d_newNodes (dc_out s)) = {} \<and>
     distinct (map (an_id \<circ> snd) (d_newNodes (dc_out s))) \<and>
     (\<forall>c. col_of c cols0 \<le> col_of c (dc_cols s) \<and>
        map an_col (nodes_on c (d_newNodes (dc_out s))) = [col_of c cols0 ..< col_of c (dc_cols s)])"

lemma disc_inv_init: "disc_inv ex cols \<lparr>dc_existing = ex, dc_cols = cols, dc_out = no_discovery\<rparr>"
  by (simp add: disc_inv_def)

lemma disc_inv_push [simp]:
  "disc_inv ex cols0 (push_edge e s) = disc_inv ex cols0 s"
  "disc_inv ex cols0 (push_info i s) = disc_inv ex cols0 s"
  by (simp_all add: disc_inv_def push_edge_def push_info_def)

lemma disc_inv_new_node:
  assumes "disc_inv ex cols0 s"
  shows "disc_inv ex cols0 (new_node i label sub t c s)"
proof (cases "i \<in> set (dc_existing s)")
  case True
  with assms show ?thesis by (simp add: new_node_def)
next
  case False
  let ?s = "new_node i label sub t c s"
  let ?n = "\<lparr>an_id = i, an_label = label, an_sub = sub, an_type = t, an_col = col_of c (dc_cols s)\<rparr>"
  have s: "dc_existing ?s = jset_add i (dc_existing s)" "dc_cols ?s = bump_col c (dc_cols s)"
      "d_newNodes (dc_out ?s) = d_newNodes (dc_out s) @ [(c, ?n)]"
    using False by (simp_all add: new_node_def)
  have ids: "set (dc_existing s) = set ex \<union> an_id ` snd ` set (d_newNodes (dc_out s))"
    and disj: "set ex \<inter> an_id ` snd ` set (d_newNodes (dc_out s)) = {}"
    and dst: "distinct (map (an_id \<circ> snd) (d_newNodes (dc_out s)))"
    and cols: "\<And>c. col_of c cols0 \<le> col_of c (dc_cols s) \<and>
        map an_col (nodes_on c (d_newNodes (dc_out s))) = [col_of c cols0 ..< col_of c (dc_cols s)]"
    using assms by (auto simp: disc_inv_def)
  have "i \<notin> set (map (an_id \<circ> snd) (d_newNodes (dc_out s)))"
    using False ids by (simp add: image_comp)
  moreover have "i \<notin> set ex" using False ids by simp
  ultimately show ?thesis
    unfolding disc_inv_def s using ids disj dst cols cols [THEN conjunct1, THEN le_SucI]
    by (auto simp: image_comp)
qed

lemma disc_inv_ensureNode: "disc_inv ex cols0 s \<Longrightarrow> disc_inv ex cols0 (ensureNode a label t c s)"
  by (simp add: ensureNode_def Let_def disc_inv_new_node)

lemma disc_inv_step:
  assumes step: "discover_step event known m1 m2 s = Inr s'" and inv: "disc_inv ex cols0 s"
  shows "disc_inv ex cols0 s'"
proof (cases "ev_name event")
  case CrossChainProxyCreated
  with step inv show ?thesis
    by (auto simp: discover_step_def Let_def res_bind_Inr_iff disc_inv_ensureNode)
next
  case BatchPosted
  with step inv show ?thesis by (auto simp: discover_step_def Let_def disc_inv_new_node)
next
  case ExecutionTableLoaded
  with step inv show ?thesis by (auto simp: discover_step_def Let_def disc_inv_new_node)
next
  case CrossChainCallExecuted
  with step inv show ?thesis
    by (auto simp: discover_step_def Let_def res_bind_Inr_iff disc_inv_ensureNode)
next
  case IncomingCrossChainCallExecuted
  with step inv show ?thesis
    by (auto simp: discover_step_def Let_def res_bind_Inr_iff disc_inv_ensureNode)
qed (use step inv in \<open>simp_all add: discover_step_def\<close>)

lemma discoverFromEvent_inv:
  assumes "discoverFromEvent event known ex m1 m2 cols = Inr (cols', d)"
  shows "set ex \<inter> an_id ` snd ` set (d_newNodes d) = {}"
    and "distinct (map (an_id \<circ> snd) (d_newNodes d))"
    and "col_of c cols \<le> col_of c cols'"
    and "map an_col (nodes_on c (d_newNodes d)) = [col_of c cols ..< col_of c cols']"
proof -
  obtain s where s: "discover_step event known m1 m2
      \<lparr>dc_existing = ex, dc_cols = cols, dc_out = no_discovery\<rparr> = Inr s"
      and out: "cols' = dc_cols s" "d = dc_out s"
    using assms by (auto simp: discoverFromEvent_def res_bind_Inr_iff)
  have "disc_inv ex cols s" by (rule disc_inv_step [OF s disc_inv_init])
  then show "set ex \<inter> an_id ` snd ` set (d_newNodes d) = {}"
    and "distinct (map (an_id \<circ> snd) (d_newNodes d))"
    and "col_of c cols \<le> col_of c cols'"
    and "map an_col (nodes_on c (d_newNodes d)) = [col_of c cols ..< col_of c cols']"
    by (auto simp: disc_inv_def out)
qed

text \<open>An event reveals at most one edge, and a guarded edge only between existing nodes.\<close>

lemma new_node_edges [simp]: "d_newEdges (dc_out (new_node i l sub t c s)) = d_newEdges (dc_out s)"
  by (simp add: new_node_def)

lemma ensureNode_edges [simp]: "d_newEdges (dc_out (ensureNode a l t c s)) = d_newEdges (dc_out s)"
  by (simp add: ensureNode_def Let_def push_info_def)

lemma push_simps [simp]:
  "d_newEdges (dc_out (push_edge e s)) = d_newEdges (dc_out s) @ [e]"
  "d_newEdges (dc_out (push_info i s)) = d_newEdges (dc_out s)"
  "dc_existing (push_edge e s) = dc_existing s"
  "dc_existing (push_info i s) = dc_existing s"
  by (simp_all add: push_edge_def push_info_def)

lemma discover_step_edges:
  assumes step: "discover_step event known m1 m2 s = Inr s'"
  shows "length (d_newEdges (dc_out s')) \<le> Suc (length (d_newEdges (dc_out s)))"
proof (cases "ev_name event")
  case CrossChainProxyCreated
  with step show ?thesis by (auto simp: discover_step_def Let_def res_bind_Inr_iff)
next
  case BatchPosted
  with step show ?thesis by (auto simp: discover_step_def Let_def)
next
  case ExecutionTableLoaded
  with step show ?thesis by (auto simp: discover_step_def Let_def)
next
  case CrossChainCallExecuted
  with step show ?thesis by (auto simp: discover_step_def Let_def res_bind_Inr_iff)
next
  case IncomingCrossChainCallExecuted
  with step show ?thesis by (auto simp: discover_step_def Let_def res_bind_Inr_iff)
qed (use step in \<open>simp_all add: discover_step_def\<close>)

lemma discoverFromEvent_edges:
  assumes "discoverFromEvent event known ex m1 m2 cols = Inr (cols', d)"
  shows "length (d_newEdges d) \<le> 1"
  using assms
  by (auto simp: discoverFromEvent_def res_bind_Inr_iff dest: discover_step_edges)

lemma initManagerNodes_simps:
  "d_newEdges (snd (initManagerNodes a b)) = []"
  "d_newNodes (snd (initManagerNodes a b)) =
     (if a = [] then [] else [(L1, \<lparr>an_id = js_lower a, an_label = ''Rollups'', an_sub = ''Manager'', an_type = System, an_col = 0\<rparr>)]) @
     (if b = [] then [] else [(L2, \<lparr>an_id = js_lower b, an_label = ''ManagerL2'', an_sub = ''Manager'', an_type = System, an_col = 0\<rparr>)])"
  "fst (initManagerNodes a b) = \<lparr>col_l1 = (if a = [] then 0 else 1), col_l2 = (if b = [] then 0 else 1)\<rparr>"
  by (simp_all add: initManagerNodes_def manager_node_def resetDiscovery_def col_of_def bump_col_def)

end
