(* ===== verification/Event_Stream.thy ===== *)
theory Event_Stream
  imports Discovery
begin

text \<open>
  The live monitor: \<open>src/src/hooks/useEventStream.ts\<close> (\<open>handleEvent\<close>, what one delivered event
  does to the store), \<open>src/src/hooks/useChainWatcher.ts\<close> (the records it delivers),
  \<open>src/src/hooks/useAutoDiscovery.ts\<close>, \<open>ConnectionBar.tsx\<close>, \<open>MonitorView.tsx\<close> and
  \<open>EventTimeline.tsx\<close> under \<open>src/src/components/monitor/\<close> (the other handlers that write
  the store).
  A \<open>world\<close> is the store with the two module globals: the action detail cache and the
  discovery columns. A handler that throws keeps the writes made before the exception: an
  \<open>outcome\<close> is the new world with the exception, if any, and \<open>and_then\<close> is sequencing.
  The managers a handler closes over are those of the last render, so the step relation
  \<open>monitor_step\<close> leaves them free.
\<close>

record world =
  w_store :: store
  w_cache :: detail_cache
  w_cols :: columns

type_synonym outcome = "world \<times> js_error option"

definition and_then :: "outcome \<Rightarrow> (world \<Rightarrow> outcome) \<Rightarrow> outcome" where
  "and_then r f = (case r of (w, None) \<Rightarrow> f w | (w, Some e) \<Rightarrow> (w, Some e))"

lemma and_then_simps [simp]:
  "and_then (w, None) f = f w"
  "and_then (w, Some e) f = (w, Some e)"
  by (simp_all add: and_then_def)

definition on_store :: "(store \<Rightarrow> store) \<Rightarrow> world \<Rightarrow> world" where
  "on_store f w = w\<lparr>w_store := f (w_store w)\<rparr>"

lemma on_store_simps [simp]:
  "w_store (on_store f w) = f (w_store w)"
  "w_cache (on_store f w) = w_cache w"
  "w_cols (on_store f w) = w_cols w"
  by (simp_all add: on_store_def)

section \<open>Delivered records\<close>

text \<open>A log of a watched contract, as the client library returns it: a pending log has no
  block number, log index or transaction.\<close>

record watched_log =
  wl_name :: event_name
  wl_block :: "int option"
  wl_index :: "int option"
  wl_tx :: "string option"
  wl_args :: "event_args option"

definition or_else :: "'a option \<Rightarrow> 'a \<Rightarrow> 'a" where
  "or_else m d = (case m of None \<Rightarrow> d | Some x \<Rightarrow> x)" \<comment> \<open>\<open>m ?? d\<close>\<close>

definition watched_record :: "chain \<Rightarrow> watched_log \<Rightarrow> event_record" where
  "watched_record c log =
     (let b = or_else (wl_block log) 0; i = or_else (wl_index log) 0
      in \<lparr>ev_id = chain_str c @ ''-'' @ show_int b @ ''-'' @ show_int i,
          ev_chain = c, ev_name = wl_name log, ev_block = b, ev_logIndex = i,
          ev_tx = or_else (wl_tx log) ''0x'', ev_args = or_else (wl_args log) no_args,
          ev_timestamp = None\<rparr>)"

section \<open>handleEvent\<close>

fun apply_consumes ::
  "(string \<Rightarrow> detail \<Rightarrow> store \<Rightarrow> store) \<Rightarrow> consume_info list \<Rightarrow> world \<Rightarrow> outcome" where
  "apply_consumes consume [] w = (w, None)"
| "apply_consumes consume (info # infos) w =
     (case ci_actionHash info of
        None \<Rightarrow> (w, Some TypeError)
      | Some h \<Rightarrow> apply_consumes consume infos (on_store (consume (truncateHex h) (ci_actionDetail info)) w))"

definition apply_tables :: "action_hasher \<Rightarrow> event_record \<Rightarrow> world \<Rightarrow> outcome" where
  "apply_tables ah event w =
     (case processEventForTables ah (w_cache w) event of
        (cache', Inl e) \<Rightarrow> (w\<lparr>w_cache := cache'\<rparr>, Some e)
      | (cache', Inr muts) \<Rightarrow>
          (let w1 = w\<lparr>w_cache := cache'\<rparr>;
               w2 = (if length (l1Adds muts) > 0 then on_store (addL1Entries (l1Adds muts)) w1 else w1);
               w3 = (if length (l2Adds muts) > 0 then on_store (addL2Entries (l2Adds muts)) w2 else w2)
           in and_then (apply_consumes consumeL1Entry (l1Consumes muts) w3)
                (apply_consumes consumeL2Entry (l2Consumes muts))))"

definition apply_discovery :: "string \<Rightarrow> string \<Rightarrow> event_record \<Rightarrow> world \<Rightarrow> outcome" where
  "apply_discovery m1 m2 event w =
     (let s = w_store w;
          existing = jset_of (map an_id (st_l1Nodes s) @ map an_id (st_l2Nodes s))
      in case discoverFromEvent event (st_knownAddresses s) existing m1 m2 (w_cols w) of
        Inl e \<Rightarrow> (w, Some e)
      | Inr (cols', d) \<Rightarrow>
          (let w1 = w\<lparr>w_cols := cols'\<rparr>;
               w2 = (if length (d_newNodes d) > 0 then on_store (addNodes (d_newNodes d)) w1 else w1);
               w3 = (if length (d_newEdges d) > 0 then on_store (addEdges (d_newEdges d)) w2 else w2);
               w4 = (if length (d_addressInfos d) > 0 then on_store (addKnownAddresses (d_addressInfos d)) w3 else w3)
           in (w4, None)))"

definition apply_state :: "event_record \<Rightarrow> world \<Rightarrow> outcome" where
  "apply_state event w =
     (case extractRollupState event of
        Inl e \<Rightarrow> (w, Some e)
      | Inr us \<Rightarrow> (on_store (\<lambda>s. foldl (\<lambda>s u. updateContractState (su_key u) (su_value u) s) s us) w, None))"

text \<open>\<open>if (arg) nodes.push(arg.toLowerCase())\<close>: absent and empty strings are skipped.\<close>

definition push_arg :: "string option \<Rightarrow> string list" where
  "push_arg m = (case m of None \<Rightarrow> [] | Some a \<Rightarrow> if a = [] then [] else [js_lower a])"

definition active_ids :: "string \<Rightarrow> string \<Rightarrow> event_record \<Rightarrow> string list" where
  "active_ids m1 m2 event =
     (let args = ev_args event;
          managerAddr = (if ev_chain event = L1 then js_lower m1 else js_lower m2)
      in push_arg (ar_proxy args) @ push_arg (ar_sourceAddress args) @ push_arg (ar_destination args)
         @ (if managerAddr \<noteq> [] then [managerAddr] else []))"

fun link_edges :: "string list \<Rightarrow> string list" where
  "link_edges (a # b # rest) = (a @ ''->'' @ b) # link_edges (b # rest)"
| "link_edges _ = []"

definition apply_active :: "string \<Rightarrow> string \<Rightarrow> event_record \<Rightarrow> world \<Rightarrow> outcome" where
  "apply_active m1 m2 event w =
     (let ids = active_ids m1 m2 event
      in (if length ids > 0
          then on_store (\<lambda>s. setActiveEdges (link_edges ids) (setActiveNodes ids s)) w else w, None))"

definition handleEvent :: "action_hasher \<Rightarrow> string \<Rightarrow> string \<Rightarrow> event_record \<Rightarrow> world \<Rightarrow> outcome" where
  "handleEvent ah m1 m2 event w =
     and_then (and_then (and_then
       (apply_tables ah event (on_store (addEvent event) w))
       (apply_discovery m1 m2 event))
       (apply_state event))
       (apply_active m1 m2 event)"

section \<open>The other handlers\<close>

definition seed_managers :: "string \<Rightarrow> string \<Rightarrow> world \<Rightarrow> world" where
  "seed_managers a1 a2 w =
     (case initManagerNodes a1 a2 of (cols, d) \<Rightarrow>
        let w1 = w\<lparr>w_cols := cols\<rparr>;
            w2 = (if length (d_newNodes d) > 0 then on_store (addNodes (d_newNodes d)) w1 else w1)
        in (if length (d_addressInfos d) > 0 then on_store (addKnownAddresses (d_addressInfos d)) w2 else w2))"

text \<open>The effect of \<open>useAutoDiscovery\<close>; the second component is its \<open>seededRef\<close>.\<close>

definition useAutoDiscovery :: "string \<Rightarrow> string \<Rightarrow> world \<times> bool \<Rightarrow> world \<times> bool" where
  "useAutoDiscovery a1 a2 = (\<lambda>(w, seeded).
     if seeded then (w, seeded)
     else if a1 = [] \<and> a2 = [] then (w, seeded)
     else (seed_managers a1 a2 w, True))"

definition handleConnect :: "string \<Rightarrow> string \<Rightarrow> string \<Rightarrow> string \<Rightarrow> bool \<Rightarrow> world \<Rightarrow> world" where
  "handleConnect l1Rpc l2Rpc l1Addr l2Addr connected w =
     (if connected then on_store (setConnected False False) ((on_store clearAll w)\<lparr>w_cols := resetDiscovery\<rparr>)
      else on_store (setConnected (l1Rpc \<noteq> []) (l2Rpc \<noteq> []))
             (seed_managers l1Addr l2Addr
               (on_store (\<lambda>s. setL2ContractAddress l2Addr (setL1ContractAddress l1Addr
                                (setL2RpcUrl l2Rpc (setL1RpcUrl l1Rpc s)))) w)))"

text \<open>\<open>tryAutoConnect\<close> with its ref: returns whether polling can stop.\<close>

definition tryAutoConnect :: "monitor_config \<Rightarrow> world \<times> bool \<Rightarrow> (world \<times> bool) \<times> bool" where
  "tryAutoConnect cfg = (\<lambda>(w, done).
     if done then ((w, done), True)
     else
       (let rollupsAddr = cfg_rollupsAddress cfg;
            l2Manager = js_or (cfg_ccmL2Address cfg) default_l2_manager;
            hasL1 = (cfg_l1Rpc cfg \<noteq> [] \<and> rollupsAddr \<noteq> []);
            hasL2 = (cfg_l2Rpc cfg \<noteq> [])
        in if \<not> hasL1 \<and> \<not> hasL2 then ((w, done), False)
           else
             (let w1 = on_store (\<lambda>s. setL2RpcUrl (cfg_l2Rpc cfg) (setL1RpcUrl (cfg_l1Rpc cfg) s)) w;
                  w2 = (if rollupsAddr \<noteq> [] then on_store (setL1ContractAddress rollupsAddr) w1 else w1);
                  w3 = on_store (setL2ContractAddress l2Manager) w2
              in ((on_store (setConnected hasL1 hasL2) (seed_managers rollupsAddr l2Manager w3), True), True))))"

text \<open>\<open>findIndex\<close> on event ids.\<close>

fun index_of :: "string \<Rightarrow> event_record list \<Rightarrow> nat option" where
  "index_of i [] = None"
| "index_of i (e # es) = (if ev_id e = i then Some 0 else map_option Suc (index_of i es))"

definition handleKeyDown :: "bool \<Rightarrow> string \<Rightarrow> store \<Rightarrow> store" where
  "handleKeyDown events_mode key s =
     (let events = st_events s; sel = st_selectedEventId s
      in if \<not> events_mode then s
         else if events = [] then s
         else if key = ''ArrowDown'' \<or> key = ''ArrowRight'' then
           (case sel of
              None \<Rightarrow> s
            | Some i \<Rightarrow>
                (case index_of i events of
                   Some idx \<Rightarrow> if Suc idx < length events
                     then setSelectedEventId (Some (ev_id (events ! Suc idx))) s
                     else setSelectedEventId None s
                 | None \<Rightarrow> setSelectedEventId None s))
         else if key = ''ArrowUp'' \<or> key = ''ArrowLeft'' then
           (case sel of
              None \<Rightarrow> setSelectedEventId (Some (ev_id (events ! (length events - 1)))) s
            | Some i \<Rightarrow>
                (case index_of i events of
                   Some idx \<Rightarrow> if idx > 0 then setSelectedEventId (Some (ev_id (events ! (idx - 1)))) s else s
                 | None \<Rightarrow> s))
         else if key = ''Escape'' then setSelectedEventId None s
         else s)"

section \<open>The step relation\<close>

definition init_world :: "monitor_config \<Rightarrow> world" where
  "init_world cfg = \<lparr>w_store = init_store cfg, w_cache = [], w_cols = resetDiscovery\<rparr>"

inductive monitor_step :: "action_hasher \<Rightarrow> world \<Rightarrow> world \<Rightarrow> bool" for ah where
  deliver: "handleEvent ah m1 m2 event w = (w', r) \<Longrightarrow> monitor_step ah w w'"
| connect: "monitor_step ah w (handleConnect r1 r2 a1 a2 (st_connected (w_store w)) w)"
| auto_connect: "tryAutoConnect cfg (w, done) = ((w', done'), b) \<Longrightarrow> monitor_step ah w w'"
| seed: "useAutoDiscovery a1 a2 (w, seeded) = (w', seeded') \<Longrightarrow> monitor_step ah w w'"
| key: "monitor_step ah w (on_store (handleKeyDown m k) w)"
| latest: "monitor_step ah w (on_store (setSelectedEventId None) w)"
| select: "event \<in> set (st_events (w_store w)) \<Longrightarrow>
    monitor_step ah w (on_store (setSelectedEventId (Some (ev_id event))) w)"

inductive reachable :: "action_hasher \<Rightarrow> monitor_config \<Rightarrow> world \<Rightarrow> bool" for ah cfg where
  start: "reachable ah cfg (init_world cfg)"
| step: "reachable ah cfg w \<Longrightarrow> monitor_step ah w w' \<Longrightarrow> reachable ah cfg w'"

end
