(* ===== verification/Monitor_Invariant.thy ===== *)
theory Monitor_Invariant
  imports Event_Stream
begin

text \<open>
  What every reachable state of the live monitor satisfies. The invariant is one predicate per
  slice; each store operation preserves each of them, every handler is a composition of store
  operations, and \<^const>\<open>reachable\<close> is covered by rule induction. The consequences for the
  event log and for the tables follow.
\<close>

section \<open>Slice invariants\<close>

definition events_ok :: "store \<Rightarrow> bool" where
  "events_ok s \<longleftrightarrow> sorted (map ev_key (st_events s)) \<and> distinct (map ev_id (st_events s))"

definition row_ok :: "table_entry \<Rightarrow> bool" where
  "row_ok te \<longleftrightarrow> (case te_fullActionHash te of None \<Rightarrow> False | Some h \<Rightarrow> te_actionHash te = truncateHex h)"

definition tables_ok :: "store \<Rightarrow> bool" where
  "tables_ok s \<longleftrightarrow> (\<forall>te \<in> set (st_l1Table s). row_ok te \<and> te_fullActionHash te \<noteq> Some zero_hash)
     \<and> (\<forall>te \<in> set (st_l2Table s). row_ok te)"

definition arch_ok :: "store \<Rightarrow> bool" where
  "arch_ok s \<longleftrightarrow> distinct (map an_id (st_l1Nodes s)) \<and> distinct (map an_id (st_l2Nodes s))
     \<and> distinct (map edge_key (st_edges s))
     \<and> distinct (jmap_keys (st_knownAddresses s))
     \<and> distinct (st_activeNodes s) \<and> distinct (st_activeEdges s)"

definition known_ok :: "store \<Rightarrow> bool" where
  "known_ok s \<longleftrightarrow> (\<forall>(k, info) \<in> set (st_knownAddresses s). k = js_lower (ai_address info))"

definition conn_ok :: "store \<Rightarrow> bool" where
  "conn_ok s \<longleftrightarrow> st_connected s = (st_l1Connected s \<or> st_l2Connected s)"

definition state_ok :: "store \<Rightarrow> bool" where
  "state_ok s \<longleftrightarrow> distinct (jmap_keys (st_contractState s)) \<and> distinct (st_changedKeys s)
     \<and> set (st_changedKeys s) = set (jmap_keys (st_contractState s))"

definition selection_ok :: "store \<Rightarrow> bool" where
  "selection_ok s \<longleftrightarrow> set_option (st_selectedEventId s) \<subseteq> set (map ev_id (st_events s))"

definition store_ok :: "store \<Rightarrow> bool" where
  "store_ok s \<longleftrightarrow> events_ok s \<and> tables_ok s \<and> arch_ok s \<and> known_ok s \<and> conn_ok s \<and> state_ok s \<and> selection_ok s"

definition world_ok :: "world \<Rightarrow> bool" where
  "world_ok w \<longleftrightarrow> store_ok (w_store w) \<and> cache_ok (w_cache w)"

lemmas slice_defs = events_ok_def tables_ok_def arch_ok_def known_ok_def conn_ok_def state_ok_def
  selection_ok_def

section \<open>Each store operation\<close>

lemma add_event_log:
  assumes "sorted (map ev_key es)" and "distinct (map ev_id es)"
  shows "sorted (map ev_key (add_event e es))" and "distinct (map ev_id (add_event e es))"
    and "set (map ev_id (add_event e es)) = insert (ev_id e) (set (map ev_id es))"
proof -
  have ok: "event_log.log_ok es"
    using assms by (simp add: event_log.log_ok_def)
  from event_log.add_ok [OF ok]
  show "sorted (map ev_key (add_event e es))" "distinct (map ev_id (add_event e es))"
    by (simp_all add: event_log.log_ok_def)
  show "set (map ev_id (add_event e es)) = insert (ev_id e) (set (map ev_id es))"
    using event_log.idents_add [OF ok] by simp
qed

lemma store_ok_addEvent: "store_ok s \<Longrightarrow> store_ok (addEvent e s)"
  using add_event_log [of "st_events s" e]
  by (auto simp: store_ok_def slice_defs addEvent_def split: option.splits)

lemma row_ok_keep [simp]:
  "row_ok (age_row te) = row_ok te" "row_ok (set_detail d te) = row_ok te"
  "row_ok (te\<lparr>te_status := st\<rparr>) = row_ok te"
  "te_fullActionHash (age_row te) = te_fullActionHash te"
  "te_fullActionHash (set_detail d te) = te_fullActionHash te"
  by (simp_all add: row_ok_def age_row_def set_detail_def split: option.splits)

lemma store_ok_addL1Entries:
  "store_ok s \<Longrightarrow> \<forall>te \<in> set es. row_ok te \<and> te_fullActionHash te \<noteq> Some zero_hash \<Longrightarrow> store_ok (addL1Entries es s)"
  by (auto simp: store_ok_def slice_defs addL1Entries_def add_entries_def)

lemma store_ok_addL2Entries:
  "store_ok s \<Longrightarrow> \<forall>te \<in> set es. row_ok te \<Longrightarrow> store_ok (addL2Entries es s)"
  by (auto simp: store_ok_def slice_defs addL2Entries_def add_entries_def)

lemma store_ok_consume:
  "store_ok s \<Longrightarrow> store_ok (consumeL1Entry h d s)"
  "store_ok s \<Longrightarrow> store_ok (consumeL2Entry h d s)"
  by (auto simp: store_ok_def slice_defs consumeL1Entry_def consumeL2Entry_def consume_entry_def)

lemma addNodes_lists:
  assumes "foldl (\<lambda>(l1, l2) (chain, node).
            if chain = L1 then (add_node l1 node, l2) else (l1, add_node l2 node)) (a, b) ns = (a', b')"
    and "distinct (map an_id a)" and "distinct (map an_id b)"
  shows "distinct (map an_id a') \<and> distinct (map an_id b')"
  using assms
proof (induction ns arbitrary: a b)
  case Nil
  then show ?case by simp
next
  case (Cons n ns)
  then show ?case
    by (cases n; cases "fst n = L1") (simp_all add: distinct_add_node)
qed

lemma store_ok_addNodes: "store_ok s \<Longrightarrow> store_ok (addNodes ns s)"
  unfolding addNodes_def Let_def
  by (auto simp: store_ok_def slice_defs split: prod.splits dest!: addNodes_lists)

lemma store_ok_addEdges:
  "store_ok s \<Longrightarrow> distinct (map edge_key es) \<Longrightarrow> store_ok (addEdges es s)"
  by (auto simp: store_ok_def slice_defs addEdges_def distinct_add_edges)

lemma known_fold:
  assumes "distinct (jmap_keys m)" and "\<forall>(k, info) \<in> set m. k = js_lower (ai_address info)"
  shows "distinct (jmap_keys (foldl (\<lambda>m info. jmap_set (js_lower (ai_address info)) info m) m infos)) \<and>
    (\<forall>(k, info) \<in> set (foldl (\<lambda>m info. jmap_set (js_lower (ai_address info)) info m) m infos).
       k = js_lower (ai_address info))"
  using assms
proof (induction infos arbitrary: m)
  case Nil
  then show ?case by simp
next
  case (Cons info infos)
  have "\<forall>(k, i) \<in> set (jmap_set (js_lower (ai_address info)) info m). k = js_lower (ai_address i)"
    using Cons.prems(2) set_jmap_set [of "js_lower (ai_address info)" info m] by auto
  from Cons.IH [OF _ this] Cons.prems(1) show ?case by (simp add: jm.distinct_put)
qed

lemma store_ok_addKnownAddresses: "store_ok s \<Longrightarrow> store_ok (addKnownAddresses infos s)"
  using known_fold [of "st_knownAddresses s" infos]
  by (auto simp: store_ok_def slice_defs addKnownAddresses_def)

lemma store_ok_active:
  "store_ok s \<Longrightarrow> store_ok (setActiveNodes ids s)" "store_ok s \<Longrightarrow> store_ok (setActiveEdges ids s)"
  by (auto simp: store_ok_def slice_defs setActiveNodes_def setActiveEdges_def)

lemma store_ok_connection:
  "store_ok s \<Longrightarrow> store_ok (setL1RpcUrl u s)" "store_ok s \<Longrightarrow> store_ok (setL2RpcUrl u s)"
  "store_ok s \<Longrightarrow> store_ok (setL1ContractAddress u s)" "store_ok s \<Longrightarrow> store_ok (setL2ContractAddress u s)"
  "store_ok s \<Longrightarrow> store_ok (setConnected a b s)"
  by (auto simp: store_ok_def slice_defs setL1RpcUrl_def setL2RpcUrl_def setL1ContractAddress_def
      setL2ContractAddress_def setConnected_def)

lemma store_ok_updateContractState: "store_ok s \<Longrightarrow> store_ok (updateContractState k v s)"
  by (auto simp: store_ok_def slice_defs updateContractState_def jm.distinct_put jm.set_keys_put)

lemma store_ok_clearAll: "store_ok (clearAll s)"
  by (simp add: store_ok_def slice_defs clearAll_def jmap_keys_def)

lemma store_ok_init: "store_ok (init_store cfg)"
  by (simp add: store_ok_def slice_defs init_store_def jmap_keys_def)

lemma store_ok_select:
  "store_ok s \<Longrightarrow> i \<in> set (map ev_id (st_events s)) \<Longrightarrow> store_ok (setSelectedEventId (Some i) s)"
  "store_ok s \<Longrightarrow> store_ok (setSelectedEventId None s)"
  by (simp_all add: store_ok_def slice_defs setSelectedEventId_def)

lemmas store_ok_ops = store_ok_addEvent store_ok_consume store_ok_addNodes store_ok_addEdges
  store_ok_addKnownAddresses store_ok_active store_ok_connection store_ok_updateContractState
  store_ok_clearAll store_ok_select

section \<open>Each handler\<close>

lemma world_ok_on_store:
  "world_ok w \<Longrightarrow> (\<And>s. s = w_store w \<Longrightarrow> store_ok s \<Longrightarrow> store_ok (f s)) \<Longrightarrow> world_ok (on_store f w)"
  by (simp add: world_ok_def)

lemma world_ok_cols [simp]: "world_ok (w\<lparr>w_cols := c\<rparr>) = world_ok w"
  by (simp add: world_ok_def)

lemma world_ok_consumes:
  assumes "\<And>h d s. store_ok s \<Longrightarrow> store_ok (consume h d s)" and "world_ok w"
  shows "world_ok (fst (apply_consumes consume infos w))"
  using assms(2)
proof (induction infos arbitrary: w)
  case (Cons info infos)
  show ?case
  proof (cases "ci_actionHash info")
    case None
    with Cons.prems show ?thesis by simp
  next
    case (Some h)
    have "world_ok (on_store (consume (truncateHex h) (ci_actionDetail info)) w)"
      using Cons.prems by (intro world_ok_on_store assms(1))
    with Cons.IH Some show ?thesis by simp
  qed
qed simp

lemma world_ok_and_then:
  assumes "world_ok (fst r)" and "\<And>w. world_ok w \<Longrightarrow> world_ok (fst (f w))"
  shows "world_ok (fst (and_then r f))"
  using assms by (auto simp: and_then_def split: prod.splits option.splits)

lemma rows_row_ok:
  assumes "res_map (\<lambda>en. entryToTableEntry ah c en i) ens = Inr tes"
  shows "\<forall>te \<in> set tes. row_ok te"
proof -
  have "list_all2 (\<lambda>en te. entryToTableEntry ah c en i = Inr te) ens tes"
    using assms by (simp add: res_map_all2)
  then show ?thesis
    by (induction rule: list_all2_induct) (auto simp: row_ok_def entryToTableEntry_Inr)
qed

lemma process_rows_ok:
  assumes "processEventForTables ah cache event = (cache', Inr muts)"
  shows "\<forall>te \<in> set (l1Adds muts). row_ok te \<and> te_fullActionHash te \<noteq> Some zero_hash"
    and "\<forall>te \<in> set (l2Adds muts). row_ok te"
proof -
  have "Some zero_hash \<notin> set (map te_fullActionHash (l1Adds muts))"
    unfolding process_adds(1) [OF assms] by (auto simp: is_immediate_def)
  then have "\<forall>te \<in> set (l1Adds muts). te_fullActionHash te \<noteq> Some zero_hash"
    by (metis imageI set_map)
  moreover have "\<forall>te \<in> set (l1Adds muts). row_ok te" and l2: "\<forall>te \<in> set (l2Adds muts). row_ok te"
    using assms
    by (auto simp: processEventForTables_def Let_def res_bind_Inr_iff
        split: event_name.splits option.splits sum.splits if_splits dest: rows_row_ok)
  ultimately show "\<forall>te \<in> set (l1Adds muts). row_ok te \<and> te_fullActionHash te \<noteq> Some zero_hash"
    by blast
  show "\<forall>te \<in> set (l2Adds muts). row_ok te" by (rule l2)
qed

lemma world_ok_apply_tables: "world_ok w \<Longrightarrow> world_ok (fst (apply_tables ah event w))"
proof -
  assume ok: "world_ok w"
  obtain cache' r where p: "processEventForTables ah (w_cache w) event = (cache', r)" by fastforce
  have c: "cache_ok cache'"
    using process_cache_ok [of "w_cache w" ah event] ok by (simp add: world_ok_def p)
  then have ok1: "world_ok (w\<lparr>w_cache := cache'\<rparr>)" using ok by (simp add: world_ok_def)
  show ?thesis
  proof (cases r)
    case (Inl e)
    then show ?thesis by (simp add: apply_tables_def p ok1)
  next
    case (Inr muts)
    note rows = process_rows_ok [OF p [unfolded Inr]]
    define w2 where "w2 = (if length (l1Adds muts) > 0 then on_store (addL1Entries (l1Adds muts)) (w\<lparr>w_cache := cache'\<rparr>)
      else w\<lparr>w_cache := cache'\<rparr>)"
    define w3 where "w3 = (if length (l2Adds muts) > 0 then on_store (addL2Entries (l2Adds muts)) w2 else w2)"
    have "world_ok w2"
      unfolding w2_def using ok1 rows(1) by (auto intro!: world_ok_on_store store_ok_addL1Entries)
    then have "world_ok w3"
      unfolding w3_def using rows(2) by (auto intro!: world_ok_on_store store_ok_addL2Entries)
    moreover have "fst (apply_tables ah event w) =
        fst (and_then (apply_consumes consumeL1Entry (l1Consumes muts) w3) (apply_consumes consumeL2Entry (l2Consumes muts)))"
      by (simp add: apply_tables_def p Inr Let_def w2_def w3_def)
    ultimately show ?thesis
      by (simp add: world_ok_and_then world_ok_consumes store_ok_consume)
  qed
qed

lemma world_ok_apply_discovery: "world_ok w \<Longrightarrow> world_ok (fst (apply_discovery m1 m2 event w))"
proof -
  assume ok: "world_ok w"
  let ?s = "w_store w"
  show ?thesis
  proof (cases "discoverFromEvent event (st_knownAddresses ?s)
      (jset_of (map an_id (st_l1Nodes ?s) @ map an_id (st_l2Nodes ?s))) m1 m2 (w_cols w)")
    case (Inl e)
    with ok show ?thesis by (simp add: apply_discovery_def Let_def)
  next
    case (Inr r)
    obtain cols' d where r: "r = (cols', d)" by (cases r)
    have "length (d_newEdges d) \<le> 1" using discoverFromEvent_edges Inr r by blast
    then have "distinct (map edge_key (d_newEdges d))" by (cases "d_newEdges d") auto
    with ok show ?thesis
      by (simp add: apply_discovery_def Let_def Inr r)
         (intro conjI impI world_ok_on_store store_ok_ops; simp)
  qed
qed

lemma store_ok_updates:
  "store_ok s \<Longrightarrow> store_ok (foldl (\<lambda>s u. updateContractState (su_key u) (su_value u) s) s us)"
  by (induction us arbitrary: s) (simp_all add: store_ok_updateContractState)

lemma world_ok_apply_state: "world_ok w \<Longrightarrow> world_ok (fst (apply_state event w))"
  by (auto simp: apply_state_def split: sum.splits intro!: world_ok_on_store store_ok_updates)

lemma world_ok_apply_active: "world_ok w \<Longrightarrow> world_ok (fst (apply_active m1 m2 event w))"
  by (auto simp: apply_active_def Let_def intro!: world_ok_on_store store_ok_active)

lemma world_ok_handleEvent: "world_ok w \<Longrightarrow> world_ok (fst (handleEvent ah m1 m2 event w))"
  unfolding handleEvent_def
  by (intro world_ok_and_then world_ok_apply_tables world_ok_apply_discovery world_ok_apply_state
      world_ok_apply_active world_ok_on_store store_ok_addEvent)

interpretation delivery: invariant_step "\<lambda>w event. fst (handleEvent ah m1 m2 event w)" world_ok
  for ah m1 m2
  by unfold_locales (rule world_ok_handleEvent)

lemma world_ok_seed: "world_ok w \<Longrightarrow> world_ok (seed_managers a1 a2 w)"
  by (auto simp: seed_managers_def Let_def split: prod.splits
      intro!: world_ok_on_store store_ok_ops)

lemma world_ok_connect: "world_ok w \<Longrightarrow> world_ok (handleConnect r1 r2 a1 a2 b w)"
  by (auto simp: handleConnect_def intro!: world_ok_on_store store_ok_ops world_ok_seed)

lemma world_ok_auto_connect:
  assumes "tryAutoConnect cfg (w, d) = ((w', d'), b)" and "world_ok w"
  shows "world_ok w'"
  using assms unfolding tryAutoConnect_def Let_def
  by (auto split: if_splits intro!: world_ok_on_store store_ok_ops world_ok_seed)

lemma index_of_Some: "index_of i es = Some k \<Longrightarrow> k < length es \<and> ev_id (es ! k) = i"
  by (induction es arbitrary: k) (auto split: if_splits)

lemma index_of_None: "index_of i es = None \<longleftrightarrow> i \<notin> set (map ev_id es)"
  by (induction es) auto

lemma store_ok_select_nth:
  "store_ok s \<Longrightarrow> k < length (st_events s) \<Longrightarrow> store_ok (setSelectedEventId (Some (ev_id (st_events s ! k))) s)"
  by (rule store_ok_select) simp_all

lemma store_ok_key: "store_ok s \<Longrightarrow> store_ok (handleKeyDown m k s)"
  unfolding handleKeyDown_def Let_def
  by (simp add: store_ok_select_nth store_ok_select(2) split: option.split)
     (auto intro!: store_ok_select_nth dest: index_of_Some)

lemma monitor_step_ok: "monitor_step ah w w' \<Longrightarrow> world_ok w \<Longrightarrow> world_ok w'"
proof (induction rule: monitor_step.induct)
  case (deliver m1 m2 event w w' r)
  then show ?case using world_ok_handleEvent [of w ah m1 m2 event] by simp
next
  case (auto_connect cfg w d w' d' b)
  then show ?case by (blast intro: world_ok_auto_connect)
next
  case (seed a1 a2 w seeded w' seeded')
  then show ?case by (auto simp: useAutoDiscovery_def world_ok_seed split: if_splits)
next
  case (key w m k)
  then show ?case by (auto intro!: world_ok_on_store store_ok_key)
next
  case (latest w)
  then show ?case by (auto intro!: world_ok_on_store store_ok_select)
next
  case (select event w)
  then show ?case by (auto intro!: world_ok_on_store store_ok_select)
qed (simp add: world_ok_connect)

lemma init_world_ok: "world_ok (init_world cfg)"
  by (simp add: world_ok_def init_world_def store_ok_init cache_ok_def jmap_keys_def)

lemma reachable_world_ok: "reachable ah cfg w \<Longrightarrow> world_ok w"
  by (induction rule: reachable.induct) (auto intro: init_world_ok monitor_step_ok)

end
