(* ===== verification/Replay.thy ===== *)
theory Replay
  imports Monitor_Invariant
begin

text \<open>
  \<open>src/src/hooks/useDerivedState.ts\<close>: what the page shows when an event is selected. The
  tables and the contract state are recomputed from the events up to the selected one;
  without a selection (or with one that is not in the log) the store is shown as it is.
  The replay calls \<open>processEventForTables\<close>, so it reads and writes the action detail cache:
  \<open>replay_event\<close> and \<open>useDerivedState\<close> return it.
\<close>

section \<open>Highlighted nodes and edges\<close>

definition truthy :: "string option \<Rightarrow> bool" where
  "truthy m = (case m of None \<Rightarrow> False | Some s \<Rightarrow> s \<noteq> [])"

definition push_if :: "bool \<Rightarrow> string \<Rightarrow> string list" where
  "push_if b s = (if b then [s] else [])"

definition arrow :: "string \<Rightarrow> string \<Rightarrow> string" where
  "arrow a b = a @ ''->'' @ b"

definition computeActiveForEvent :: "event_record \<Rightarrow> string \<Rightarrow> string \<Rightarrow> string list \<times> string list" where
  "computeActiveForEvent event l1Manager l2Manager =
     (let args = ev_args event;
          m = (if ev_chain event = L1 then js_lower l1Manager else js_lower l2Manager);
          pm = push_if (m \<noteq> []) m
      in case ev_name event of
        BatchPosted \<Rightarrow> (pm @ [''__prover__''], [arrow ''__prover__'' m])
      | ExecutionTableLoaded \<Rightarrow> (pm @ [''__system__''], [arrow ''__system__'' m])
      | CrossChainCallExecuted \<Rightarrow>
          (let proxy = map_option js_lower (ar_proxy args); src = map_option js_lower (ar_sourceAddress args);
               p = or_else proxy []; s = or_else src []
           in (push_if (truthy src) s @ push_if (truthy proxy) p @ pm,
               push_if (truthy src \<and> truthy proxy) (arrow s p) @ push_if (truthy proxy \<and> m \<noteq> []) (arrow p m)))
      | IncomingCrossChainCallExecuted \<Rightarrow>
          (let dest = map_option js_lower (ar_destination args); d = or_else dest []
           in (pm @ push_if (truthy dest) d, push_if (m \<noteq> [] \<and> truthy dest) (arrow m d)))
      | CrossChainProxyCreated \<Rightarrow>
          (let proxy = map_option js_lower (ar_proxy args); p = or_else proxy []
           in (push_if (truthy proxy) p @ pm, push_if (truthy proxy \<and> m \<noteq> []) (arrow p m)))
      | _ \<Rightarrow> (pm, []))"

section \<open>The replay\<close>

record replay =
  rp_l1 :: "table_entry list"
  rp_l2 :: "table_entry list"
  rp_state :: "(string, string option) jmap"

definition replay_add :: "bool \<Rightarrow> table_entry list \<Rightarrow> table_entry list \<Rightarrow> table_entry list" where
  "replay_add isCurrent adds table =
     map age_row table @ map (\<lambda>te. te\<lparr>te_status := (if isCurrent then Ja else Ok)\<rparr>) adds"

fun replay_consumes ::
  "bool \<Rightarrow> consume_info list \<Rightarrow> table_entry list \<Rightarrow> js_error + table_entry list" where
  "replay_consumes isCurrent [] table = Inr table"
| "replay_consumes isCurrent (info # infos) table =
     (case ci_actionHash info of
        None \<Rightarrow> Inl TypeError
      | Some h \<Rightarrow> replay_consumes isCurrent infos
          (update_first (\<lambda>e. te_actionHash e = truncateHex h)
             (\<lambda>e. set_detail (ci_actionDetail info) (e\<lparr>te_status := (if isCurrent then Jc else Consumed)\<rparr>)) table))"

definition replay_event ::
  "action_hasher \<Rightarrow> bool \<Rightarrow> event_record \<Rightarrow> detail_cache \<Rightarrow> replay \<Rightarrow> detail_cache \<times> (js_error + replay)" where
  "replay_event ah isCurrent event cache r =
     (case processEventForTables ah cache event of (cache', res) \<Rightarrow>
       (cache',
        res_bind res (\<lambda>muts.
        res_bind (replay_consumes isCurrent (l1Consumes muts) (replay_add isCurrent (l1Adds muts) (rp_l1 r))) (\<lambda>t1.
        res_bind (replay_consumes isCurrent (l2Consumes muts) (replay_add isCurrent (l2Adds muts) (rp_l2 r))) (\<lambda>t2.
        res_bind (extractRollupState event) (\<lambda>us.
          Inr \<lparr>rp_l1 = t1, rp_l2 = t2,
               rp_state = jmap_set_all (map (\<lambda>u. (su_key u, su_value u)) us) (rp_state r)\<rparr>))))))"

text \<open>The loop over \<open>events[0..selectedIdx]\<close>: the last event of the list is the selected one.\<close>

fun replay_run ::
  "action_hasher \<Rightarrow> event_record list \<Rightarrow> detail_cache \<Rightarrow> replay \<Rightarrow> detail_cache \<times> (js_error + replay)" where
  "replay_run ah [] cache r = (cache, Inr r)"
| "replay_run ah (event # events) cache r =
     (case replay_event ah (events = []) event cache r of
        (cache', Inl e) \<Rightarrow> (cache', Inl e)
      | (cache', Inr r') \<Rightarrow> replay_run ah events cache' r')"

record derived =
  dv_l1Table :: "table_entry list"
  dv_l2Table :: "table_entry list"
  dv_contractState :: "(string, string option) jmap"
  dv_eventsUpTo :: "event_record list"
  dv_activeNodes :: "string list"
  dv_activeEdges :: "string list"

definition live_view :: "store \<Rightarrow> derived" where
  "live_view s = \<lparr>dv_l1Table = st_l1Table s, dv_l2Table = st_l2Table s, dv_contractState = st_contractState s,
     dv_eventsUpTo = st_events s, dv_activeNodes = st_activeNodes s, dv_activeEdges = st_activeEdges s\<rparr>"

definition empty_replay :: replay where
  "empty_replay = \<lparr>rp_l1 = [], rp_l2 = [], rp_state = []\<rparr>"

definition useDerivedState :: "action_hasher \<Rightarrow> detail_cache \<Rightarrow> store \<Rightarrow> detail_cache \<times> (js_error + derived)" where
  "useDerivedState ah cache s =
     (case st_selectedEventId s of
        None \<Rightarrow> (cache, Inr (live_view s))
      | Some i \<Rightarrow>
          (case index_of i (st_events s) of
             None \<Rightarrow> (cache, Inr (live_view s))
           | Some selectedIdx \<Rightarrow>
               (let eventsUpTo = take (Suc selectedIdx) (st_events s)
                in case replay_run ah eventsUpTo cache empty_replay of
                  (cache', Inl e) \<Rightarrow> (cache', Inl e)
                | (cache', Inr r) \<Rightarrow>
                    (let (ns, es) = computeActiveForEvent (st_events s ! selectedIdx)
                                      (st_l1ContractAddress s) (st_l2ContractAddress s)
                     in (cache', Inr \<lparr>dv_l1Table = rp_l1 r, dv_l2Table = rp_l2 r, dv_contractState = rp_state r,
                          dv_eventsUpTo = eventsUpTo, dv_activeNodes = jset_of ns, dv_activeEdges = jset_of es\<rparr>)))))"

section \<open>The rows of a replay\<close>

text \<open>The action hashes an event adds to the table of a chain, from its arguments alone.\<close>

definition added_hashes :: "chain \<Rightarrow> event_record \<Rightarrow> string list" where
  "added_hashes c event =
     (let entries = (case ar_entries (ev_args event) of None \<Rightarrow> [] | Some es \<Rightarrow> es)
      in if c = L1 \<and> ev_name event = BatchPosted
         then map ee_actionHash (filter (\<lambda>en. \<not> is_immediate en) entries)
         else if c = L2 \<and> ev_name event = ExecutionTableLoaded then map ee_actionHash entries
         else [])"

definition full_hashes :: "table_entry list \<Rightarrow> string option list" where
  "full_hashes t = map te_fullActionHash t"

lemma process_added:
  assumes "processEventForTables ah cache event = (cache', Inr muts)"
  shows "full_hashes (l1Adds muts) = map Some (added_hashes L1 event)"
    and "full_hashes (l2Adds muts) = map Some (added_hashes L2 event)"
  using process_adds [OF assms] by (simp_all add: full_hashes_def added_hashes_def Let_def)

lemma full_hashes_simps [simp]:
  "full_hashes [] = []" "full_hashes (a @ b) = full_hashes a @ full_hashes b"
  by (simp_all add: full_hashes_def)

text \<open>A row up to its status and its action detail.\<close>

definition row_core :: "table_entry \<Rightarrow> table_entry" where
  "row_core te = te\<lparr>te_status := Ja, te_actionDetail := None\<rparr>"

text \<open>The rows an event adds to the table of a chain, up to status and action detail.\<close>

definition added_cores :: "action_hasher \<Rightarrow> chain \<Rightarrow> event_record \<Rightarrow> table_entry list" where
  "added_cores ah c event =
     (case processEventForTables ah [] event of
        (_, Inl e) \<Rightarrow> [] | (_, Inr muts) \<Rightarrow> map row_core (if c = L1 then l1Adds muts else l2Adds muts))"

lemma row_core_change [simp]:
  "row_core (te\<lparr>te_status := st\<rparr>) = row_core te" "row_core (te\<lparr>te_actionDetail := d\<rparr>) = row_core te"
  by (simp_all add: row_core_def)

lemma entry_core: "res_bind (entryToTableEntry ah cache en i) (\<lambda>te. Inr (row_core te)) = res_bind (entryToTableEntry ah [] en i) (\<lambda>te. Inr (row_core te))"
  by (cases "ah (actionFromEventArgs (ee_nextAction en))") (simp_all add: entryToTableEntry_def Let_def row_core_def)

lemma entries_core:
  "res_map (\<lambda>en. entryToTableEntry ah cache en i) ens = Inr tes \<Longrightarrow>
     \<exists>tes'. res_map (\<lambda>en. entryToTableEntry ah [] en i) ens = Inr tes' \<and> map row_core tes' = map row_core tes"
proof (induction ens arbitrary: tes)
  case (Cons en ens)
  then obtain te us where te: "entryToTableEntry ah cache en i = Inr te" and us: "res_map (\<lambda>en. entryToTableEntry ah cache en i) ens = Inr us" "tes = te # us"
    by (auto simp: res_bind_Inr_iff)
  moreover obtain te' where "entryToTableEntry ah [] en i = Inr te'" "row_core te' = row_core te"
    using entry_core [of ah cache en i] te by (cases "entryToTableEntry ah [] en i") auto
  ultimately show ?case using Cons.IH [OF us(1)] by (auto simp: res_bind_Inr_iff)
qed simp

lemma process_cores:
  assumes "processEventForTables ah cache event = (cache', Inr muts)"
  shows "map row_core (l1Adds muts) = added_cores ah L1 event \<and> map row_core (l2Adds muts) = added_cores ah L2 event"
proof -
  consider "ev_name event = BatchPosted" | "ev_name event = ExecutionTableLoaded" | "ev_name event = ExecutionConsumed" | "\<not> table_event (ev_name event)"
    by (cases "ev_name event") auto
  then show ?thesis
  proof cases
    case 1
    show ?thesis
    proof (cases "ar_entries (ev_args event)")
      case None
      with assms 1 show ?thesis by (simp add: added_cores_def processEventForTables_def)
    next
      case (Some ens)
      with assms 1 obtain us where us: "res_map (\<lambda>en. entryToTableEntry ah cache en (ev_id event)) (filter (\<lambda>en. \<not> is_immediate en) ens) = Inr us"
        and muts: "muts = no_mutations\<lparr>l1Adds := us\<rparr>"
        by (auto simp: processEventForTables_def res_bind_Inr_iff)
      from entries_core [OF us] obtain us' where "res_map (\<lambda>en. entryToTableEntry ah [] en (ev_id event)) (filter (\<lambda>en. \<not> is_immediate en) ens) = Inr us'"
        "map row_core us' = map row_core us" by blast
      with muts 1 Some show ?thesis by (simp add: added_cores_def processEventForTables_def)
    qed
  next
    case 2
    show ?thesis
    proof (cases "ar_entries (ev_args event)")
      case None
      with assms 2 show ?thesis by (simp add: added_cores_def processEventForTables_def)
    next
      case (Some ens)
      with assms 2 obtain us where us: "res_map (\<lambda>en. entryToTableEntry ah cache en (ev_id event)) ens = Inr us"
        and muts: "muts = no_mutations\<lparr>l2Adds := us\<rparr>"
        by (auto simp: processEventForTables_def res_bind_Inr_iff)
      from entries_core [OF us] obtain us' where "res_map (\<lambda>en. entryToTableEntry ah [] en (ev_id event)) ens = Inr us'"
        "map row_core us' = map row_core us" by blast
      with muts 2 Some show ?thesis by (simp add: added_cores_def processEventForTables_def)
    qed
  next
    case 3
    with assms show ?thesis
      by (auto simp: added_cores_def processEventForTables_def Let_def split: sum.splits option.splits if_splits)
  next
    case 4
    with assms show ?thesis by (simp add: added_cores_def)
  qed
qed

lemma and_then_None: "and_then r f = (w', None) \<longleftrightarrow> (\<exists>w. r = (w, None) \<and> f w = (w', None))"
  by (cases r; cases "snd r") (auto simp: and_then_def)

section \<open>What both tables show\<close>

text \<open>
  A view of the rows that neither ageing nor consumption changes: on every table the views of the rows are those of the rows that
  the events added, in the live store as in the replay. \<open>added\<close> gives the views of the rows that an event adds.
\<close>

locale row_view =
  fixes ah :: action_hasher and view :: "table_entry \<Rightarrow> 'v" and added :: "chain \<Rightarrow> event_record \<Rightarrow> 'v list"
  assumes view_status: "view (te\<lparr>te_status := st\<rparr>) = view te"
    and view_detail: "view (te\<lparr>te_actionDetail := d\<rparr>) = view te"
    and view_added: "processEventForTables ah cache event = (cache', Inr muts) \<Longrightarrow>
      map view (l1Adds muts) = added L1 event \<and> map view (l2Adds muts) = added L2 event"
begin

lemma view_rows [simp]: "view (age_row te) = view te" "view (set_detail d te) = view te"
  by (simp_all add: age_row_def set_detail_def view_status view_detail)

lemma view_consume: "map view (consume_entry h d t) = map view t"
  by (simp add: consume_entry_def view_status)

lemma view_add: "map view (add_entries es t) = map view t @ map view es"
  by (simp add: add_entries_def)

lemma view_replay_add: "map view (replay_add b adds t) = map view t @ map view adds"
  by (simp add: replay_add_def view_status)

lemma view_update_first:
  assumes "\<And>e. view (f e) = view e"
  shows "map view (update_first P f t) = map view t"
  by (induction t) (auto simp: assms)

lemma view_replay_consumes: "replay_consumes b infos t = Inr t' \<Longrightarrow> map view t' = map view t"
proof (induction b infos t rule: replay_consumes.induct)
  case (2 b info infos t)
  then show ?case by (auto simp: view_update_first view_status split: option.splits)
qed simp

lemma view_replay_event:
  assumes "replay_event ah b event cache r = (cache', Inr r')"
  shows "map view (rp_l1 r') = map view (rp_l1 r) @ added L1 event" "map view (rp_l2 r') = map view (rp_l2 r) @ added L2 event"
  using assms
  by (auto simp: replay_event_def res_bind_Inr_iff view_replay_consumes view_replay_add dest: view_added split: prod.splits)

lemma view_replay_run:
  assumes "replay_run ah events cache r = (cache', Inr r')"
  shows "map view (rp_l1 r') = map view (rp_l1 r) @ concat (map (added L1) events)
    \<and> map view (rp_l2 r') = map view (rp_l2 r) @ concat (map (added L2) events)"
  using assms
proof (induction events arbitrary: cache r)
  case (Cons event events)
  then show ?case by (auto split: prod.splits sum.splits dest: view_replay_event)
qed simp

lemma view_apply_consumes:
  assumes "\<And>h d s. map view (st_l1Table (consume h d s)) = map view (st_l1Table s) \<and> map view (st_l2Table (consume h d s)) = map view (st_l2Table s)"
  shows "map view (st_l1Table (w_store (fst (apply_consumes consume infos w)))) = map view (st_l1Table (w_store w))
    \<and> map view (st_l2Table (w_store (fst (apply_consumes consume infos w)))) = map view (st_l2Table (w_store w))"
  by (induction infos arbitrary: w) (auto simp: assms split: option.splits)

lemma view_apply_tables:
  assumes "apply_tables ah event w = (w', None)"
  shows "map view (st_l1Table (w_store w')) = map view (st_l1Table (w_store w)) @ added L1 event"
    and "map view (st_l2Table (w_store w')) = map view (st_l2Table (w_store w)) @ added L2 event"
proof -
  have c1: "map view (st_l1Table (w_store u)) = map view (st_l1Table (w_store v)) \<and> map view (st_l2Table (w_store u)) = map view (st_l2Table (w_store v))"
    if "apply_consumes consumeL1Entry infos v = (u, None) \<or> apply_consumes consumeL2Entry infos v = (u, None)" for infos u v
    using that view_apply_consumes [of consumeL1Entry infos v] view_apply_consumes [of consumeL2Entry infos v]
    by (auto simp: consumeL1Entry_def consumeL2Entry_def view_consume)
  obtain cache' muts where p: "processEventForTables ah (w_cache w) event = (cache', Inr muts)"
    using assms by (auto simp: apply_tables_def split: prod.splits sum.splits)
  show "map view (st_l1Table (w_store w')) = map view (st_l1Table (w_store w)) @ added L1 event"
    and "map view (st_l2Table (w_store w')) = map view (st_l2Table (w_store w)) @ added L2 event"
    using assms view_added [OF p, THEN conjunct1, symmetric] view_added [OF p, THEN conjunct2, symmetric]
    by (auto simp: apply_tables_def p Let_def and_then_None addL1Entries_def addL2Entries_def view_add
        split: if_splits dest!: c1 [OF disjI1] c1 [OF disjI2])
qed

end

lemma addNodes_tables [simp]:
  "st_l1Table (addNodes ns s) = st_l1Table s" "st_l2Table (addNodes ns s) = st_l2Table s"
  "st_events (addNodes ns s) = st_events s" "st_contractState (addNodes ns s) = st_contractState s"
  by (simp_all add: addNodes_def Let_def split: prod.splits)

lemma updates_tables [simp]:
  "st_l1Table (foldl (\<lambda>s u. updateContractState (k u) (v u) s) s us) = st_l1Table s"
  "st_l2Table (foldl (\<lambda>s u. updateContractState (k u) (v u) s) s us) = st_l2Table s"
  "st_events (foldl (\<lambda>s u. updateContractState (k u) (v u) s) s us) = st_events s"
  by (induction us arbitrary: s) (simp_all add: updateContractState_def)

text \<open>The steps after the tables leave the tables and the log alone.\<close>

definition log_part :: "world \<Rightarrow> table_entry list \<times> table_entry list \<times> event_record list" where
  "log_part w = (st_l1Table (w_store w), st_l2Table (w_store w), st_events (w_store w))"

lemma log_part_discovery: "log_part (fst (apply_discovery m1 m2 event w)) = log_part w"
  by (simp add: log_part_def apply_discovery_def Let_def addEdges_def addKnownAddresses_def split: sum.split prod.split)

lemma log_part_state: "log_part (fst (apply_state event w)) = log_part w"
  by (simp add: log_part_def apply_state_def split: sum.split)

lemma log_part_active: "log_part (fst (apply_active m1 m2 event w)) = log_part w"
  by (simp add: log_part_def apply_active_def Let_def setActiveNodes_def setActiveEdges_def)

lemma log_part_and_then:
  "(\<And>w. log_part (fst (f w)) = log_part w) \<Longrightarrow> log_part (fst (and_then r f)) = log_part (fst r)"
  by (auto simp: and_then_def split: prod.split option.split)

lemma log_part_handleEvent:
  "log_part (fst (handleEvent ah m1 m2 event w)) = log_part (fst (apply_tables ah event (on_store (addEvent event) w)))"
  by (simp add: handleEvent_def log_part_and_then log_part_discovery log_part_state log_part_active)

context row_view begin

lemma view_handleEvent:
  assumes "handleEvent ah m1 m2 event w = (w', None)"
  shows "map view (st_l1Table (w_store w')) = map view (st_l1Table (w_store w)) @ added L1 event"
    and "map view (st_l2Table (w_store w')) = map view (st_l2Table (w_store w)) @ added L2 event"
proof -
  obtain u where u: "apply_tables ah event (on_store (addEvent event) w) = (u, None)"
    using assms by (auto simp: handleEvent_def and_then_None)
  have "log_part w' = log_part u"
    using log_part_handleEvent [of ah m1 m2 event w] assms u by simp
  then show "map view (st_l1Table (w_store w')) = map view (st_l1Table (w_store w)) @ added L1 event"
    and "map view (st_l2Table (w_store w')) = map view (st_l2Table (w_store w)) @ added L2 event"
    using view_apply_tables [OF u] by (simp_all add: log_part_def addEvent_def)
qed

end

text \<open>The full hashes of the rows, and the rows up to status and action detail, are such views.\<close>

interpretation hash_view: row_view ah te_fullActionHash "\<lambda>c event. map Some (added_hashes c event)" for ah
  by unfold_locales (simp_all add: process_added [unfolded full_hashes_def])

interpretation core_view: row_view ah row_core "added_cores ah" for ah
  by unfold_locales (simp_all add: process_cores)

lemma concat_map_Some: "concat (map (\<lambda>x. map Some (f x)) xs) = map Some (concat (map f xs))"
  by (simp add: map_concat comp_def)

lemma replay_run_hashes:
  assumes "replay_run ah events cache r = (cache', Inr r')"
  shows "full_hashes (rp_l1 r') = full_hashes (rp_l1 r) @ map Some (concat (map (added_hashes L1) events)) \<and>
    full_hashes (rp_l2 r') = full_hashes (rp_l2 r) @ map Some (concat (map (added_hashes L2) events))"
  using hash_view.view_replay_run [OF assms] by (simp add: full_hashes_def concat_map_Some)

lemma handleEvent_hashes:
  assumes "handleEvent ah m1 m2 event w = (w', None)"
  shows "full_hashes (st_l1Table (w_store w')) = full_hashes (st_l1Table (w_store w)) @ map Some (added_hashes L1 event)"
    and "full_hashes (st_l2Table (w_store w')) = full_hashes (st_l2Table (w_store w)) @ map Some (added_hashes L2 event)"
  using hash_view.view_handleEvent [OF assms] by (simp_all add: full_hashes_def)

lemma handleEvent_events:
  "st_events (w_store (fst (handleEvent ah m1 m2 event w))) = add_event event (st_events (w_store w))"
proof -
  have cons: "st_events (w_store (fst (apply_consumes c infos w))) = st_events (w_store w)"
    if "\<And>h d s. st_events (c h d s) = st_events s" for c infos w
    by (induction infos arbitrary: w) (auto simp: that split: option.splits)
  have seq: "st_events (w_store (fst (and_then r f))) = st_events (w_store (fst r))"
    if "\<And>w. st_events (w_store (fst (f w))) = st_events (w_store w)" for r f
    using that by (auto simp: and_then_def split: prod.split option.split)
  have ops: "st_events (consumeL1Entry h d s) = st_events s" "st_events (consumeL2Entry h d s) = st_events s"
      "st_events (addL1Entries es s) = st_events s" "st_events (addL2Entries es s) = st_events s" for h d es s
    by (simp_all add: consumeL1Entry_def consumeL2Entry_def addL1Entries_def addL2Entries_def)
  have "st_events (w_store (fst (apply_tables ah event v))) = st_events (w_store v)" for v
    by (simp add: apply_tables_def Let_def seq cons ops split: prod.split sum.split)
  then show ?thesis
    using log_part_handleEvent [of ah m1 m2 event w] by (simp add: log_part_def addEvent_def)
qed

end
