(* ===== verification/Monitor_Properties.thy ===== *)
theory Monitor_Properties
  imports Replay
begin

text \<open>
  The properties of the live monitor: the invariant of every reachable state, what a batch of
  deliveries leaves in the event log and in the tables, when a delivery throws, and how the
  replay of the log relates to the live tables.
\<close>

text \<open>The loop over fetched or watched logs: it stops at the first exception.\<close>

fun deliver_all :: "action_hasher \<Rightarrow> string \<Rightarrow> string \<Rightarrow> event_record list \<Rightarrow> world \<Rightarrow> outcome" where
  "deliver_all ah m1 m2 [] w = (w, None)"
| "deliver_all ah m1 m2 (event # events) w =
     and_then (handleEvent ah m1 m2 event w) (deliver_all ah m1 m2 events)"

section \<open>Batches of deliveries\<close>

lemma deliver_all_events:
  "deliver_all ah m1 m2 events w = (w', None) \<Longrightarrow>
   st_events (w_store w') = foldl (\<lambda>l e. add_event e l) (st_events (w_store w)) events"
proof (induction events arbitrary: w)
  case (Cons event events)
  then obtain u where u: "handleEvent ah m1 m2 event w = (u, None)"
    and rest: "deliver_all ah m1 m2 events u = (w', None)"
    by (auto simp: and_then_None)
  from Cons.IH [OF rest] handleEvent_events [of ah m1 m2 event w] u show ?case by simp
qed simp

context row_view begin

lemma view_deliver_all:
  "deliver_all ah m1 m2 events w = (w', None) \<Longrightarrow>
   map view (st_l1Table (w_store w')) = map view (st_l1Table (w_store w)) @ concat (map (added L1) events) \<and>
   map view (st_l2Table (w_store w')) = map view (st_l2Table (w_store w)) @ concat (map (added L2) events)"
proof (induction events arbitrary: w)
  case (Cons event events)
  then obtain u where u: "handleEvent ah m1 m2 event w = (u, None)"
    and rest: "deliver_all ah m1 m2 events u = (w', None)"
    by (auto simp: and_then_None)
  from Cons.IH [OF rest] view_handleEvent [OF u] show ?case by simp
qed simp

end

lemma init_world_simps [simp]:
  "st_events (w_store (init_world cfg)) = []" "st_l1Table (w_store (init_world cfg)) = []"
  "st_l2Table (w_store (init_world cfg)) = []"
  by (simp_all add: init_world_def init_store_def)

text \<open>Events that arrive in order, each once, are appended.\<close>

lemma add_event_last:
  assumes "ev_id e \<notin> set (map ev_id es)" and "\<forall>x \<in> set es. ev_key x \<le> ev_key e"
  shows "add_event e es = es @ [e]"
proof -
  have "insert_index es e (length es) = length es"
  proof (cases "length es")
    case (Suc n)
    then have "es ! n \<in> set es" by simp
    with assms(2) have "ev_key (es ! n) \<le> ev_key e" by blast
    then show ?thesis by (auto simp: Suc ev_key_def less_eq_prod_def)
  qed simp
  with assms(1) show ?thesis by (simp add: add_event_def ex_image_iff Let_def)
qed

lemma foldl_add_event_sorted:
  assumes "sorted (map ev_key (es @ xs))" and "distinct (map ev_id (es @ xs))"
  shows "foldl (\<lambda>l e. add_event e l) es xs = es @ xs"
  using assms
proof (induction xs arbitrary: es)
  case (Cons x xs)
  have "add_event x es = es @ [x]"
    using Cons.prems by (intro add_event_last) (auto simp: sorted_append)
  with Cons.IH [of "es @ [x]"] Cons.prems show ?case by simp
qed simp

section \<open>When a delivery throws\<close>

text \<open>The arguments the handler reads without a check, by event.\<close>

definition args_complete :: "event_record \<Rightarrow> bool" where
  "args_complete event =
     (let args = ev_args event
      in case ev_name event of
        RollupCreated \<Rightarrow> ar_initialState args \<noteq> None \<and> ar_verificationKey args \<noteq> None
      | StateUpdated \<Rightarrow> ar_newStateRoot args \<noteq> None
      | L2ExecutionPerformed \<Rightarrow> ar_newState args \<noteq> None
      | ExecutionConsumed \<Rightarrow> ar_actionHash args \<noteq> None
      | CrossChainProxyCreated \<Rightarrow> ar_proxy args \<noteq> None \<and> ar_originalAddress args \<noteq> None
      | CrossChainCallExecuted \<Rightarrow> ar_sourceAddress args \<noteq> None \<and> ar_proxy args \<noteq> None
      | IncomingCrossChainCallExecuted \<Rightarrow> ar_destination args \<noteq> None \<and> ar_sourceAddress args \<noteq> None
      | _ \<Rightarrow> True)"

lemma snd_and_then: "snd (and_then r f) = None \<longleftrightarrow> snd r = None \<and> snd (f (fst r)) = None"
  by (auto simp: and_then_def split: prod.split option.split)

lemma apply_consumes_ok:
  "snd (apply_consumes c infos w) = None \<longleftrightarrow> None \<notin> set (map ci_actionHash infos)"
  by (induction infos arbitrary: w) (auto split: option.split)

text \<open>The actions whose hash the handler computes, by event; nothing catches what the computation throws.\<close>

definition hashed_actions :: "event_record \<Rightarrow> action_fields list" where
  "hashed_actions event =
     (let entries = (case ar_entries (ev_args event) of None \<Rightarrow> [] | Some es \<Rightarrow> es)
      in case ev_name event of
        BatchPosted \<Rightarrow> map ee_nextAction (filter (\<lambda>en. ee_actionHash en \<noteq> zero_hash) entries)
      | ExecutionTableLoaded \<Rightarrow> map ee_nextAction entries
      | ExecutionConsumed \<Rightarrow> (case ar_action (ev_args event) of None \<Rightarrow> [] | Some a \<Rightarrow> [a])
      | _ \<Rightarrow> [])"

definition hashes_computed :: "action_hasher \<Rightarrow> event_record \<Rightarrow> bool" where
  "hashes_computed ah event \<longleftrightarrow> list_all (\<lambda>a. \<exists>h. ah a = Inr h) (hashed_actions event)"

lemma row_built: "(\<exists>te. entryToTableEntry ah cache en i = Inr te) \<longleftrightarrow> (\<exists>h. ah (ee_nextAction en) = Inr h)"
proof (cases "ah (ee_nextAction en)")
  case (Inl e)
  then have "entryToTableEntry ah cache en i = Inl e" by (simp add: entryToTableEntry_Inl_iff)
  with Inl show ?thesis by simp
next
  case (Inr h)
  then have "entryToTableEntry ah cache en i \<noteq> Inl e" for e by (simp add: entryToTableEntry_Inl_iff)
  with Inr show ?thesis by (cases "entryToTableEntry ah cache en i") auto
qed

lemma rows_built:
  "(\<exists>tes. res_map (\<lambda>en. entryToTableEntry ah cache en i) ens = Inr tes) \<longleftrightarrow> list_all (\<lambda>a. \<exists>h. ah a = Inr h) (map ee_nextAction ens)"
proof (induction ens)
  case (Cons en ens)
  have "(\<exists>tes. res_map (\<lambda>en. entryToTableEntry ah cache en i) (en # ens) = Inr tes)
      \<longleftrightarrow> (\<exists>te. entryToTableEntry ah cache en i = Inr te) \<and> (\<exists>tes. res_map (\<lambda>en. entryToTableEntry ah cache en i) ens = Inr tes)"
    by (simp only: res_map.simps res_bind_Inr_iff sum.inject) blast
  then show ?case by (simp only: Cons.IH row_built list.map list.pred_inject)
qed simp

lemma hashed_detail_given: "hashed_detail h a \<noteq> []"
  using hashed_detail_computedHash [of h a] by auto

lemma process_ok:
  "(\<exists>muts. snd (processEventForTables ah cache event) = Inr muts) \<longleftrightarrow>
     hashes_computed ah event \<and> (ev_name event = ExecutionConsumed \<and> ar_action (ev_args event) \<noteq> None \<longrightarrow> ar_actionHash (ev_args event) \<noteq> None)"
proof (cases "table_event (ev_name event)")
  case False
  then show ?thesis by (cases "ev_name event") (simp_all add: hashes_computed_def hashed_actions_def)
next
  case True
  then consider "ev_name event = BatchPosted" | "ev_name event = ExecutionTableLoaded" | "ev_name event = ExecutionConsumed"
    by (cases "ev_name event") auto
  then show ?thesis
  proof cases
    case 1
    then show ?thesis
      using rows_built [of ah cache "ev_id event" "filter (\<lambda>en. \<not> is_immediate en) (the (ar_entries (ev_args event)))"]
      by (cases "ar_entries (ev_args event)")
         (simp_all add: processEventForTables_def hashes_computed_def hashed_actions_def is_immediate_def res_bind_Inr_iff)
  next
    case 2
    then show ?thesis
      using rows_built [of ah cache "ev_id event" "the (ar_entries (ev_args event))"]
      by (cases "ar_entries (ev_args event)")
         (simp_all add: processEventForTables_def hashes_computed_def hashed_actions_def res_bind_Inr_iff)
  next
    case 3
    then show ?thesis
    proof (cases "ar_action (ev_args event)")
      case None
      with 3 show ?thesis by (simp add: processEventForTables_def consumed_detail_def hashes_computed_def hashed_actions_def Let_def)
    next
      case (Some a)
      have act: "actionFromEventArgs a = a" by simp
      with Some 3 show ?thesis
        by (cases "ah a"; cases "ar_actionHash (ev_args event)")
           (simp_all add: processEventForTables_def consumed_detail_def hashes_computed_def hashed_actions_def Let_def hashed_detail_given)
    qed
  qed
qed

lemma apply_tables_ok:
  "snd (apply_tables ah event w) = None \<longleftrightarrow>
     hashes_computed ah event \<and> (ev_name event = ExecutionConsumed \<longrightarrow> ar_actionHash (ev_args event) \<noteq> None)"
proof (cases "snd (processEventForTables ah (w_cache w) event)")
  case (Inl e)
  moreover obtain c where "processEventForTables ah (w_cache w) event = (c, Inl e)" using Inl by (metis prod.collapse)
  ultimately show ?thesis using process_ok [of ah "w_cache w" event] by (auto simp: apply_tables_def)
next
  case (Inr muts)
  then obtain c where p: "processEventForTables ah (w_cache w) event = (c, Inr muts)" by (metis prod.collapse)
  then have "snd (apply_tables ah event w) = None \<longleftrightarrow> None \<notin> set (map ci_actionHash (l1Consumes muts)) \<and> None \<notin> set (map ci_actionHash (l2Consumes muts))"
    by (simp add: apply_tables_def Let_def snd_and_then apply_consumes_ok)
  then show ?thesis
    using process_consumes [OF p] process_ok [of ah "w_cache w" event] Inr by (cases "ev_chain event") auto
qed

definition reads_discovery :: "event_record \<Rightarrow> bool" where
  "reads_discovery event =
     (let args = ev_args event
      in case ev_name event of
        CrossChainProxyCreated \<Rightarrow> ar_proxy args \<noteq> None \<and> ar_originalAddress args \<noteq> None
      | CrossChainCallExecuted \<Rightarrow> ar_sourceAddress args \<noteq> None \<and> ar_proxy args \<noteq> None
      | IncomingCrossChainCallExecuted \<Rightarrow> ar_destination args \<noteq> None \<and> ar_sourceAddress args \<noteq> None
      | _ \<Rightarrow> True)"

lemma discover_step_ok: "(\<exists>s'. discover_step event known m1 m2 s = Inr s') \<longleftrightarrow> reads_discovery event"
proof (cases "ev_name event")
  case CrossChainProxyCreated
  then show ?thesis
    by (cases "ar_proxy (ev_args event)"; cases "ar_originalAddress (ev_args event)")
       (simp_all add: discover_step_def reads_discovery_def Let_def)
next
  case CrossChainCallExecuted
  then show ?thesis
    by (cases "ar_proxy (ev_args event)"; cases "ar_sourceAddress (ev_args event)")
       (simp_all add: discover_step_def reads_discovery_def Let_def)
next
  case IncomingCrossChainCallExecuted
  then show ?thesis
    by (cases "ar_destination (ev_args event)"; cases "ar_sourceAddress (ev_args event)")
       (simp_all add: discover_step_def reads_discovery_def Let_def)
qed (simp_all add: discover_step_def reads_discovery_def Let_def)

lemma apply_discovery_ok: "snd (apply_discovery m1 m2 event w) = None \<longleftrightarrow> reads_discovery event"
  unfolding discover_step_ok [symmetric, of event "st_knownAddresses (w_store w)" m1 m2
      "\<lparr>dc_existing = jset_of (map an_id (st_l1Nodes (w_store w)) @ map an_id (st_l2Nodes (w_store w))),
        dc_cols = w_cols w, dc_out = no_discovery\<rparr>"]
  by (auto simp: apply_discovery_def discoverFromEvent_def Let_def res_bind_Inr_iff res_bind_Inl_iff
      split: sum.split)

definition reads_state :: "event_record \<Rightarrow> bool" where
  "reads_state event =
     (let args = ev_args event
      in case ev_name event of
        RollupCreated \<Rightarrow> ar_initialState args \<noteq> None \<and> ar_verificationKey args \<noteq> None
      | StateUpdated \<Rightarrow> ar_newStateRoot args \<noteq> None
      | L2ExecutionPerformed \<Rightarrow> ar_newState args \<noteq> None
      | _ \<Rightarrow> True)"

lemma state_text_Inr: "state_text m = Inr v \<longleftrightarrow> (\<exists>h. m = Some h \<and> v = Some (truncateHex h))"
  by (cases m) (auto simp: state_text_def)

lemma apply_state_ok: "snd (apply_state event w) = None \<longleftrightarrow> reads_state event"
proof -
  have "(\<exists>us. extractRollupState event = Inr us) \<longleftrightarrow> reads_state event"
    by (cases "ev_name event")
       (auto simp: extractRollupState_def reads_state_def single_update_def Let_def res_bind_Inr_iff
          state_text_Inr split: option.split)
  then show ?thesis by (auto simp: apply_state_def split: sum.split)
qed

lemma args_complete_split:
  "args_complete event \<longleftrightarrow> (ev_name event = ExecutionConsumed \<longrightarrow> ar_actionHash (ev_args event) \<noteq> None) \<and>
     reads_discovery event \<and> reads_state event"
  by (cases "ev_name event") (simp_all add: args_complete_def reads_discovery_def reads_state_def Let_def)

lemma handleEvent_ok_iff:
  "snd (handleEvent ah m1 m2 event w) = None \<longleftrightarrow> args_complete event \<and> hashes_computed ah event"
  by (auto simp: handleEvent_def snd_and_then apply_tables_ok apply_discovery_ok apply_state_ok
      args_complete_split apply_active_def Let_def)

section \<open>Consumption\<close>

lemma handleEvent_consumed_tables:
  assumes "handleEvent ah m1 m2 event w = (w', None)" and "ev_name event = ExecutionConsumed"
    and "ev_chain event = c" and "ar_actionHash (ev_args event) = Some h"
  shows "\<exists>d. st_l1Table (w_store w') = (if c = L1 then consume_entry (truncateHex h) d (st_l1Table (w_store w)) else st_l1Table (w_store w))
    \<and> st_l2Table (w_store w') = (if c = L2 then consume_entry (truncateHex h) d (st_l2Table (w_store w)) else st_l2Table (w_store w))"
proof -
  obtain u where u: "apply_tables ah event (on_store (addEvent event) w) = (u, None)"
    using assms(1) by (auto simp: handleEvent_def and_then_None)
  have lp: "log_part w' = log_part u"
    using log_part_handleEvent [of ah m1 m2 event w] assms(1) u by simp
  obtain d where d: "consumed_detail ah event = Inr d"
    using u assms(2) by (cases "consumed_detail ah event") (simp_all add: apply_tables_def processEventForTables_def Let_def)
  show ?thesis
    using u lp assms(2-4) d
    by (cases c; cases "length d > 0")
       (auto simp: apply_tables_def processEventForTables_def Let_def log_part_def addEvent_def
          consumeL1Entry_def consumeL2Entry_def)
qed

section \<open>Contract state\<close>

lemma updates_state:
  "st_contractState (foldl (\<lambda>s u. updateContractState (su_key u) (su_value u) s) s us) =
   jmap_set_all (map (\<lambda>u. (su_key u, su_value u)) us) (st_contractState s)"
  by (induction us arbitrary: s) (simp_all add: updateContractState_def jmap_set_all_def)

lemma state_before_update:
  "st_contractState (w_store (fst (apply_consumes consumeL1Entry infos w))) = st_contractState (w_store w)"
  "st_contractState (w_store (fst (apply_consumes consumeL2Entry infos w))) = st_contractState (w_store w)"
  by (induction infos arbitrary: w) (auto simp: consumeL1Entry_def consumeL2Entry_def split: option.splits)

lemma state_tables:
  assumes "apply_tables ah event w = (w', None)"
  shows "st_contractState (w_store w') = st_contractState (w_store w)"
proof -
  have c: "st_contractState (w_store v) = st_contractState (w_store u)"
    if "apply_consumes consumeL1Entry infos u = (v, r) \<or> apply_consumes consumeL2Entry infos u = (v, r)" for infos u v r
    using that state_before_update [of infos u] by auto
  show ?thesis
    using assms
    by (auto simp: apply_tables_def Let_def and_then_None addL1Entries_def addL2Entries_def
        split: prod.splits sum.splits if_splits dest!: c [OF disjI1] c [OF disjI2])
qed

lemma handleEvent_state:
  assumes "handleEvent ah m1 m2 event w = (w', None)"
  shows "\<exists>us. extractRollupState event = Inr us \<and>
    st_contractState (w_store w') = jmap_set_all (map (\<lambda>u. (su_key u, su_value u)) us) (st_contractState (w_store w))"
proof -
  obtain u1 u2 u3 where t: "apply_tables ah event (on_store (addEvent event) w) = (u1, None)"
    and d: "apply_discovery m1 m2 event u1 = (u2, None)" and s: "apply_state event u2 = (u3, None)"
    and a: "apply_active m1 m2 event u3 = (w', None)"
    using assms by (auto simp: handleEvent_def and_then_None)
  have "st_contractState (w_store u1) = st_contractState (w_store w)"
    using state_tables [OF t] by (simp add: addEvent_def)
  moreover have "st_contractState (w_store u2) = st_contractState (w_store u1)"
    using d by (auto simp: apply_discovery_def Let_def addEdges_def addKnownAddresses_def split: sum.splits prod.splits)
  moreover have "st_contractState (w_store w') = st_contractState (w_store u3)"
    using a by (auto simp: apply_active_def Let_def setActiveNodes_def setActiveEdges_def)
  moreover obtain us where "extractRollupState event = Inr us"
    and "st_contractState (w_store u3) = jmap_set_all (map (\<lambda>u. (su_key u, su_value u)) us) (st_contractState (w_store u2))"
    using s by (auto simp: apply_state_def updates_state split: sum.splits)
  ultimately show ?thesis by auto
qed

lemma replay_run_state:
  assumes "deliver_all ah m1 m2 events w = (w', None)" and "replay_run ah' events cache r = (cache', Inr r')"
    and "st_contractState (w_store w) = rp_state r"
  shows "st_contractState (w_store w') = rp_state r'"
  using assms
proof (induction events arbitrary: w cache r)
  case (Cons event events)
  then obtain u where u: "handleEvent ah m1 m2 event w = (u, None)"
    and rest: "deliver_all ah m1 m2 events u = (w', None)"
    by (auto simp: and_then_None)
  from Cons.prems(2) obtain c1 r1 where r1: "replay_event ah' (events = []) event cache r = (c1, Inr r1)"
    and run: "replay_run ah' events c1 r1 = (cache', Inr r')"
    by (auto split: prod.splits sum.splits)
  obtain us where us: "extractRollupState event = Inr us"
    and live: "st_contractState (w_store u) = jmap_set_all (map (\<lambda>u. (su_key u, su_value u)) us) (st_contractState (w_store w))"
    using handleEvent_state [OF u] by blast
  have "rp_state r1 = jmap_set_all (map (\<lambda>u. (su_key u, su_value u)) us) (rp_state r)"
    using r1 us by (auto simp: replay_event_def res_bind_Inr_iff split: prod.splits)
  then show ?case using Cons.IH [OF rest run] live Cons.prems(3) by simp
qed simp

lemma index_of_last:
  "es \<noteq> [] \<Longrightarrow> distinct (map ev_id es) \<Longrightarrow> index_of (ev_id (last es)) es = Some (length es - 1)"
proof (induction es)
  case (Cons e es)
  then show ?case by (cases es) auto
qed simp

section \<open>Properties\<close>

text \<open>Concrete events for the witnesses, and a hash function that ignores its argument.\<close>

definition sample_config :: monitor_config where
  "sample_config = \<lparr>cfg_l1Rpc = ''http'', cfg_l2Rpc = ''http'', cfg_rollupsAddress = ''0xAA'', cfg_ccmL2Address = []\<rparr>"

definition sample_action :: action_fields where
  "sample_action = \<lparr>a_actionType = CALL, a_rollupId = 1, a_destination = ''0xd'', a_value = 0, a_data = ''0x'',
     a_failed = False, a_sourceAddress = ''0xs'', a_sourceRollup = 0, a_scope = []\<rparr>"

definition sample_event :: "event_name \<Rightarrow> chain \<Rightarrow> int \<Rightarrow> event_record" where
  "sample_event n c b = \<lparr>ev_id = chain_str c @ ''-'' @ show_int b @ ''-0'', ev_chain = c, ev_name = n, ev_block = b,
     ev_logIndex = 0, ev_tx = ''0x1'',
     ev_args = no_args\<lparr>ar_entries := Some [\<lparr>ee_stateDeltas = [], ee_actionHash = ''0xh'', ee_nextAction = sample_action\<rparr>],
                       ar_actionHash := Some ''0xh''\<rparr>,
     ev_timestamp = None\<rparr>"

definition sample_hash :: action_hasher where
  "sample_hash a = Inr ''0xn''"

definition sample_store :: store where
  "sample_store = (init_store sample_config)
     \<lparr>st_events := [sample_event BatchPosted L1 1, sample_event BatchPosted L1 2], st_selectedEventId := Some ''l1-1-0''\<rparr>"

text \<open>C25. In every state the live monitor can reach, the event log is sorted by block and log
  index without repeated ids, both tables hold rows whose short hash is the short form of the
  full one (and no immediate entry on L1), node ids, edge keys, known addresses and contract
  state keys are unique, \<open>connected\<close> is the disjunction of the two chains and the selected
  event is in the log.\<close>
theorem reachable_store_ok: "reachable ah cfg w \<Longrightarrow> store_ok (w_store w)"
  using reachable_world_ok by (simp add: world_ok_def)

theorem reachable_store_ok_witness:
  "store_ok (w_store (fst (handleEvent sample_hash ''0xAA'' ''0xBB'' (sample_event BatchPosted L1 1) (init_world sample_config))))"
  by (rule reachable_store_ok [where ah = sample_hash and cfg = sample_config,
        OF reachable.step [OF reachable.start monitor_step.deliver [OF surjective_pairing]]])

text \<open>C27. Two complete deliveries of the same events leave the same event log on each chain,
  whatever the order of arrival, provided ids are unique and positions on the chain differ.\<close>
theorem chain_log_order_independent:
  assumes "set xs = set ys" and "inj_on ev_id (set xs)" and "inj_on ev_key {e \<in> set xs. ev_chain e = c}"
    and "deliver_all ah m1 m2 xs (init_world cfg) = (w1, None)"
    and "deliver_all ah m1 m2 ys (init_world cfg) = (w2, None)"
  shows "filter (\<lambda>e. ev_chain e = c) (st_events (w_store w1)) = filter (\<lambda>e. ev_chain e = c) (st_events (w_store w2))"
  using event_log.log_part_order_independent [OF assms(1-3)]
  by (simp add: event_log.log_of_def deliver_all_events [OF assms(4)] deliver_all_events [OF assms(5)])

theorem chain_log_order_independent_witness:
  "filter (\<lambda>e. ev_chain e = L2) (st_events (w_store (fst (deliver_all sample_hash [] []
      [sample_event L2TXExecuted L2 2, sample_event L2TXExecuted L2 1] (init_world sample_config))))) =
   filter (\<lambda>e. ev_chain e = L2) (st_events (w_store (fst (deliver_all sample_hash [] []
      [sample_event L2TXExecuted L2 1, sample_event L2TXExecuted L2 2] (init_world sample_config)))))"
proof -
  have ok: "snd (deliver_all sample_hash [] [] [sample_event L2TXExecuted L2 i, sample_event L2TXExecuted L2 j]
      (init_world sample_config)) = None" for i j
    by (simp add: snd_and_then handleEvent_ok_iff hashes_computed_def hashed_actions_def sample_hash_def args_complete_def sample_event_def)
  let ?a = "sample_event L2TXExecuted L2 1" and ?b = "sample_event L2TXExecuted L2 2"
  let ?r = "\<lambda>xs. deliver_all sample_hash [] [] xs (init_world sample_config)"
  have neq: "ev_id ?a \<noteq> ev_id ?b" "ev_key ?a \<noteq> ev_key ?b" by code_simp+
  have out: "?r [?b, ?a] = (fst (?r [?b, ?a]), None)" "?r [?a, ?b] = (fst (?r [?a, ?b]), None)"
    using ok by (simp_all only: prod_eq_iff fst_conv snd_conv)
  have "set [?b, ?a] = set [?a, ?b]" and "inj_on ev_id (set [?b, ?a])"
    and "inj_on ev_key {e \<in> set [?b, ?a]. ev_chain e = L2}"
    using neq by (auto simp: inj_on_def)
  from chain_log_order_independent [OF this out] show ?thesis .
qed

text \<open>C28. A delivery throws exactly when the event lacks an argument that its handler reads without a check, or the hash of an action
  that the event carries for a table row cannot be computed (no caller catches that); every other event is processed completely,
  whatever the state.\<close>
theorem handleEvent_throws_iff:
  "(\<exists>e. snd (handleEvent ah m1 m2 event w) = Some e) \<longleftrightarrow> \<not> (args_complete event \<and> hashes_computed ah event)"
  using handleEvent_ok_iff [of ah m1 m2 event w] by auto

theorem handleEvent_throws_iff_witness:
  "(\<exists>e. snd (handleEvent sample_hash [] [] (sample_event StateUpdated L1 1) (init_world sample_config)) = Some e)
   \<and> (\<exists>e. snd (handleEvent (\<lambda>a. throw ''bytes'') [] [] (sample_event BatchPosted L1 1) (init_world sample_config)) = Some e)
   \<and> snd (handleEvent sample_hash [] [] (sample_event BatchPosted L1 1) (init_world sample_config)) = None"
proof -
  have "\<not> args_complete (sample_event StateUpdated L1 1)" "\<not> hashes_computed (\<lambda>a. throw ''bytes'') (sample_event BatchPosted L1 1)"
    "args_complete (sample_event BatchPosted L1 1) \<and> hashes_computed sample_hash (sample_event BatchPosted L1 1)"
    by (simp_all add: args_complete_def hashes_computed_def hashed_actions_def sample_hash_def sample_event_def no_args_def zero_hash_def)
  then show ?thesis
    using handleEvent_throws_iff [of sample_hash "[]" "[]" "sample_event StateUpdated L1 1" "init_world sample_config"]
      handleEvent_throws_iff [of "\<lambda>a. throw ''bytes''" "[]" "[]" "sample_event BatchPosted L1 1" "init_world sample_config"]
      handleEvent_throws_iff [of sample_hash "[]" "[]" "sample_event BatchPosted L1 1" "init_world sample_config"] by simp
qed

text \<open>Selecting an event shows exactly the rows that the events up to it loaded, in that
  order, on both tables, and the events up to it.\<close>
theorem replay_prefix:
  assumes "st_selectedEventId s = Some i" and "index_of i (st_events s) = Some k"
    and "useDerivedState ah cache s = (cache', Inr d)"
  shows "dv_eventsUpTo d = take (Suc k) (st_events s)
    \<and> full_hashes (dv_l1Table d) = map Some (concat (map (added_hashes L1) (take (Suc k) (st_events s))))
    \<and> full_hashes (dv_l2Table d) = map Some (concat (map (added_hashes L2) (take (Suc k) (st_events s))))"
proof -
  obtain r c where run: "replay_run ah (take (Suc k) (st_events s)) cache empty_replay = (c, Inr r)"
    and d: "dv_eventsUpTo d = take (Suc k) (st_events s)" "dv_l1Table d = rp_l1 r" "dv_l2Table d = rp_l2 r"
    using assms by (auto simp: useDerivedState_def Let_def split: prod.splits sum.splits)
  from replay_run_hashes [OF run] d show ?thesis by (simp add: empty_replay_def)
qed

theorem replay_prefix_witness:
  "full_hashes (dv_l1Table (projr (snd (useDerivedState sample_hash [] sample_store)))) = [Some ''0xh'']"
proof -
  have ok: "\<not> isl (snd (useDerivedState sample_hash [] sample_store))" by code_simp
  have run: "useDerivedState sample_hash [] sample_store =
      (fst (useDerivedState sample_hash [] sample_store), Inr (projr (snd (useDerivedState sample_hash [] sample_store))))"
    using ok by (simp add: prod_eq_iff)
  have "st_selectedEventId sample_store = Some ''l1-1-0''" and "index_of ''l1-1-0'' (st_events sample_store) = Some 0"
    by code_simp+
  from replay_prefix [OF this run]
  have "full_hashes (dv_l1Table (projr (snd (useDerivedState sample_hash [] sample_store)))) =
      map Some (concat (map (added_hashes L1) (take 1 (st_events sample_store))))"
    by simp
  also have "\<dots> = [Some ''0xh'']" by code_simp
  finally show ?thesis .
qed

text \<open>C26. After an in-order delivery of events, selecting the last one replays to the log and the contract state of the live store, and
  to the same rows in the same order on both tables: they agree in every field, the ids, hashes, state changes and the action that follows,
  but the status and the action detail, which the replay computes differently.\<close>
theorem replay_matches_live:
  assumes live: "deliver_all ah m1 m2 events (init_world cfg) = (w, None)"
    and sorted: "sorted (map ev_key events)" and dist: "distinct (map ev_id events)" and ne: "events \<noteq> []"
    and replay: "useDerivedState ah cache (setSelectedEventId (Some (ev_id (last events))) (w_store w)) = (cache', Inr d)"
  shows "map row_core (dv_l1Table d) = map row_core (st_l1Table (w_store w))
    \<and> map row_core (dv_l2Table d) = map row_core (st_l2Table (w_store w))
    \<and> dv_eventsUpTo d = st_events (w_store w) \<and> dv_contractState d = st_contractState (w_store w)"
proof -
  have log: "st_events (w_store w) = events"
    using deliver_all_events [OF live] foldl_add_event_sorted [of "[]" events] sorted dist by simp
  obtain r c where run: "replay_run ah events cache empty_replay = (c, Inr r)"
    and d: "dv_eventsUpTo d = events" "dv_l1Table d = rp_l1 r" "dv_l2Table d = rp_l2 r" "dv_contractState d = rp_state r"
    using replay ne
    by (auto simp: useDerivedState_def setSelectedEventId_def log index_of_last [OF ne dist] Let_def
        split: prod.splits sum.splits)
  have "st_contractState (w_store w) = rp_state r"
    by (rule replay_run_state [OF live run]) (simp add: init_world_def init_store_def empty_replay_def)
  with core_view.view_replay_run [OF run] core_view.view_deliver_all [OF live] d log show ?thesis
    by (simp add: empty_replay_def)
qed

theorem replay_matches_live_witness:
  "\<exists>w d cache'. deliver_all sample_hash [] [] [sample_event BatchPosted L1 1, sample_event ExecutionConsumed L1 2] (init_world sample_config) = (w, None)
     \<and> useDerivedState sample_hash [] (setSelectedEventId (Some ''l1-2-0'') (w_store w)) = (cache', Inr d)
     \<and> map row_core (dv_l1Table d) = map row_core (st_l1Table (w_store w)) \<and> length (dv_l1Table d) = 1
     \<and> dv_contractState d = st_contractState (w_store w)"
proof -
  let ?es = "[sample_event BatchPosted L1 1, sample_event ExecutionConsumed L1 2]"
  let ?r = "deliver_all sample_hash [] [] ?es (init_world sample_config)"
  let ?v = "useDerivedState sample_hash [] (setSelectedEventId (Some (ev_id (List.last ?es))) (w_store (fst ?r)))"
  have ok: "snd ?r = None" by code_simp
  have v: "\<not> isl (snd ?v)" by code_simp
  have i: "ev_id (sample_event ExecutionConsumed L1 2) = ''l1-2-0''" by code_simp
  have n: "length (dv_l1Table (projr (snd ?v))) = 1" by code_simp
  have s: "sorted (map ev_key ?es)" "distinct (map ev_id ?es)" by code_simp+
  from replay_matches_live [of sample_hash "[]" "[]" ?es sample_config "fst ?r" "[]" "fst ?v" "projr (snd ?v)"] ok v s n
  show ?thesis by (intro exI [of _ "fst ?r"] exI [of _ "projr (snd ?v)"] exI [of _ "fst ?v"]) (simp add: prod_eq_iff i)
qed

text \<open>A consumed event turns exactly the rows of its chain whose short hash is that of its
  action hash to just-consumed, and leaves the hashes of every row, all other rows and the
  other table alone.\<close>
theorem consumed_rows:
  assumes "handleEvent ah m1 m2 event w = (w', None)" and "ev_name event = ExecutionConsumed"
    and "ev_chain event = L1" and "ar_actionHash (ev_args event) = Some h"
  shows "list_all2 (\<lambda>old new. te_fullActionHash new = te_fullActionHash old \<and>
      (if te_actionHash old = truncateHex h then te_status new = Jc else new = old))
      (st_l1Table (w_store w)) (st_l1Table (w_store w'))
    \<and> st_l2Table (w_store w') = st_l2Table (w_store w)"
  using handleEvent_consumed_tables [OF assms]
  by (auto simp: consume_entry_def set_detail_def list.rel_map intro!: list.rel_refl_strong)

theorem consumed_rows_witness:
  "map te_status (st_l1Table (w_store (fst (handleEvent sample_hash [] [] (sample_event ExecutionConsumed L1 2)
     (fst (handleEvent sample_hash [] [] (sample_event BatchPosted L1 1) (init_world sample_config))))))) = [Jc]"
proof -
  let ?w = "fst (handleEvent sample_hash [] [] (sample_event BatchPosted L1 1) (init_world sample_config))"
  let ?r = "handleEvent sample_hash [] [] (sample_event ExecutionConsumed L1 2) ?w"
  have ok: "snd ?r = None" by code_simp
  have old: "map te_actionHash (st_l1Table (w_store ?w)) = [''0xh'']" by code_simp
  have h: "truncateHex ''0xh'' = ''0xh''" by code_simp
  from consumed_rows [of sample_hash "[]" "[]" "sample_event ExecutionConsumed L1 2" ?w "fst ?r" "''0xh''"] ok old h
  show ?thesis
    by (auto simp: prod_eq_iff sample_event_def no_args_def list_all2_Cons1)
qed

text \<open>Delivering an event a second time, as a second mount of the watcher does when it
  fetches the logs from block 0 again, does not change the event log but loads all the rows of
  the event again.\<close>
theorem duplicate_delivery_rows:
  assumes "handleEvent ah m1 m2 event w = (w1, None)" and "handleEvent ah m1 m2 event w1 = (w2, None)"
    and "world_ok w"
  shows "st_events (w_store w2) = st_events (w_store w1)
    \<and> full_hashes (st_l2Table (w_store w2)) = full_hashes (st_l2Table (w_store w1)) @ map Some (added_hashes L2 event)"
proof -
  have "world_ok w1" using world_ok_handleEvent [OF assms(3), of ah m1 m2 event] assms(1) by simp
  have ev: "st_events (w_store w1) = add_event event (st_events (w_store w))"
    "st_events (w_store w2) = add_event event (st_events (w_store w1))"
    using handleEvent_events [of ah m1 m2 event w] handleEvent_events [of ah m1 m2 event w1] assms(1,2) by simp_all
  have "ev_id event \<in> set (map ev_id (st_events (w_store w1)))"
    using add_event_log(3) [of "st_events (w_store w)" event] assms(3)
    by (simp add: ev(1) world_ok_def store_ok_def events_ok_def)
  then have "add_event event (st_events (w_store w1)) = st_events (w_store w1)"
    using event_log.add_known by simp
  with ev(2) handleEvent_hashes [OF assms(2)] show ?thesis by simp
qed

theorem duplicate_delivery_rows_witness:
  "full_hashes (st_l2Table (w_store (fst (handleEvent sample_hash [] [] (sample_event ExecutionTableLoaded L2 1)
     (fst (handleEvent sample_hash [] [] (sample_event ExecutionTableLoaded L2 1) (init_world sample_config))))))) =
   [Some ''0xh'', Some ''0xh'']"
proof -
  let ?e = "sample_event ExecutionTableLoaded L2 1"
  let ?r1 = "handleEvent sample_hash [] [] ?e (init_world sample_config)"
  let ?r2 = "handleEvent sample_hash [] [] ?e (fst ?r1)"
  have ok: "snd ?r1 = None" "snd ?r2 = None" by code_simp+
  have one: "full_hashes (st_l2Table (w_store (fst ?r1))) = [Some ''0xh'']" by code_simp
  have add: "added_hashes L2 ?e = [''0xh'']" by code_simp
  from duplicate_delivery_rows [of sample_hash "[]" "[]" ?e "init_world sample_config" "fst ?r1" "fst ?r2"] ok one add init_world_ok
  show ?thesis by (simp add: prod_eq_iff)
qed

text \<open>The nodes an event reveals have ids that no existing node has, no id twice, and take
  the free columns of their chain one after the other; at most one edge is revealed.\<close>
theorem discovery_fresh:
  assumes "discoverFromEvent event known existing m1 m2 cols = Inr (cols', d)"
  shows "set existing \<inter> an_id ` snd ` set (d_newNodes d) = {} \<and> distinct (map (an_id \<circ> snd) (d_newNodes d))
    \<and> map an_col (nodes_on c (d_newNodes d)) = [col_of c cols ..< col_of c cols'] \<and> length (d_newEdges d) \<le> 1"
  using discoverFromEvent_inv [OF assms] discoverFromEvent_edges [OF assms] by blast

theorem discovery_fresh_witness:
  "map an_col (nodes_on L1 (d_newNodes (snd (projr (discoverFromEvent (sample_event BatchPosted L1 1) [] [] ''0xAA'' []
     \<lparr>col_l1 = 1, col_l2 = 1\<rparr>))))) = [1]"
proof -
  let ?r = "discoverFromEvent (sample_event BatchPosted L1 1) [] [] ''0xAA'' [] \<lparr>col_l1 = 1, col_l2 = 1\<rparr>"
  have "\<not> isl ?r" by code_simp
  then have r: "?r = Inr (fst (projr ?r), snd (projr ?r))" by simp
  have "col_of L1 (fst (projr ?r)) = 2" by code_simp
  with discovery_fresh [OF r, of L1] show ?thesis by (simp add: col_of_def upt_rec)
qed

end
