(* ===== verification/Js_Value.thy ===== *)
theory Js_Value
  imports Js_Prelude
begin

text \<open>
  JavaScript values, for the decoded event arguments and table entries that the inspector reads
  as \<open>Record<string, unknown>\<close>: property reads, truthiness, \<open>===\<close>, \<open>??\<close>, \<open>String\<close> and \<open>BigInt\<close>.
  \<^item> A number is an integer: the decoded values the code reads are \<open>bigint\<close>s, small unsigned
    numbers, booleans, strings, arrays and objects of them.
  \<^item> \<open>===\<close> on two arrays or objects is reference identity, which a decoded value never shares
    with another one: \<open>js_strict_eq\<close> is \<^const>\<open>False\<close> there.
  \<^item> \<open>BigInt\<close> of a malformed string is a \<open>SyntaxError\<close> (\<^term>\<open>Thrown ''SyntaxError''\<close>).
\<close>

datatype js = JUndefined | JNull | JBool bool | JNum int | JBig int | JStr string
  | JArr "js list" | JObj "(string \<times> js) list"

type_synonym js_object = "(string, js) jmap"

definition js_prop :: "js_object \<Rightarrow> string \<Rightarrow> js" where
  "js_prop ob k = (case jmap_get ob k of None \<Rightarrow> JUndefined | Some v \<Rightarrow> v)"

fun js_truthy :: "js \<Rightarrow> bool" where
  "js_truthy JUndefined = False"
| "js_truthy JNull = False"
| "js_truthy (JBool b) = b"
| "js_truthy (JNum n) = (n \<noteq> 0)"
| "js_truthy (JBig n) = (n \<noteq> 0)"
| "js_truthy (JStr s) = (s \<noteq> [])"
| "js_truthy _ = True"

fun js_nullish :: "js \<Rightarrow> bool" where
  "js_nullish JUndefined = True"
| "js_nullish JNull = True"
| "js_nullish _ = False"

definition js_coalesce :: "js \<Rightarrow> js \<Rightarrow> js" where
  "js_coalesce a b = (if js_nullish a then b else a)" \<comment> \<open>\<open>a ?? b\<close>\<close>

fun js_strict_eq :: "js \<Rightarrow> js \<Rightarrow> bool" where
  "js_strict_eq JUndefined JUndefined = True"
| "js_strict_eq JNull JNull = True"
| "js_strict_eq (JBool a) (JBool b) = (a = b)"
| "js_strict_eq (JNum a) (JNum b) = (a = b)"
| "js_strict_eq (JBig a) (JBig b) = (a = b)"
| "js_strict_eq (JStr a) (JStr b) = (a = b)"
| "js_strict_eq _ _ = False"

section \<open>String\<close>

fun js_string :: "js \<Rightarrow> string" where
  "js_string JUndefined = ''undefined''"
| "js_string JNull = ''null''"
| "js_string (JBool b) = (if b then ''true'' else ''false'')"
| "js_string (JNum n) = show_int n"
| "js_string (JBig n) = show_int n"
| "js_string (JStr s) = s"
| "js_string (JArr vs) = js_join '','' (map (\<lambda>v. if js_nullish v then [] else js_string v) vs)"
| "js_string (JObj kvs) = ''[object Object]''"

section \<open>Hexadecimal text and BigInt\<close>

definition digit_value :: "char \<Rightarrow> nat option" where
  "digit_value c =
     (let n = (of_char c :: nat)
      in if 48 \<le> n \<and> n \<le> 57 then Some (n - 48)
         else if 97 \<le> n \<and> n \<le> 102 then Some (n - 87)
         else if 65 \<le> n \<and> n \<le> 70 then Some (n - 55)
         else None)"

lemma digit_value_code [code]:
  "digit_value (Char b0 b1 b2 b3 b4 b5 b6 b7) =
     (if \<not> b6 \<and> b5 \<and> b4 \<and> \<not> b7 \<and> \<not> (b3 \<and> (b2 \<or> b1)) then Some (of_bool b0 + 2 * of_bool b1 + 4 * of_bool b2 + 8 * of_bool b3)
      else if b6 \<and> \<not> b4 \<and> \<not> b3 \<and> \<not> b7 \<and> (b0 \<or> b1 \<or> b2) \<and> \<not> (b0 \<and> b1 \<and> b2) then Some (9 + of_bool b0 + 2 * of_bool b1 + 4 * of_bool b2)
      else None)"
  by (cases b0; cases b1; cases b2; cases b3; cases b4; cases b5; cases b6; cases b7; simp add: digit_value_def)

definition is_hex_digit :: "char \<Rightarrow> bool" where
  "is_hex_digit c \<longleftrightarrow> digit_value c \<noteq> None"

text \<open>\<open>/^0x[\da-f]*$/i\<close>, and the same with a fixed number of digits.\<close>

definition is_hex_text :: "string \<Rightarrow> bool" where
  "is_hex_text s \<longleftrightarrow> length s \<ge> 2 \<and> s ! 0 = CHR ''0'' \<and> js_lower_char (s ! 1) = CHR ''x''
     \<and> (\<forall>c \<in> set (drop 2 s). is_hex_digit c)"

definition is_hex_of :: "nat \<Rightarrow> string \<Rightarrow> bool" where
  "is_hex_of n s \<longleftrightarrow> is_hex_text s \<and> length s = n + 2"

fun digits_value :: "nat \<Rightarrow> nat \<Rightarrow> string \<Rightarrow> nat option" where
  "digits_value base acc [] = Some acc"
| "digits_value base acc (c # cs) =
     (case digit_value c of
        None \<Rightarrow> None
      | Some d \<Rightarrow> if d < base then digits_value base (acc * base + d) cs else None)"

definition syntax_error :: js_error where
  "syntax_error = Thrown ''SyntaxError''"

definition parse_digits :: "nat \<Rightarrow> string \<Rightarrow> js_error + int" where
  "parse_digits base s =
     (if s = [] then Inl syntax_error
      else case digits_value base 0 s of None \<Rightarrow> Inl syntax_error | Some n \<Rightarrow> Inr (int n))"

text \<open>\<open>BigInt(s)\<close>: a decimal number with an optional sign, or hexadecimal, octal or binary
  digits after their prefix; the empty string is zero. Surrounding white space does not occur.\<close>

definition string_BigInt :: "string \<Rightarrow> js_error + int" where
  "string_BigInt s =
     (if s = [] then Inr 0
      else if take 2 s = ''0x'' \<or> take 2 s = ''0X'' then parse_digits 16 (drop 2 s)
      else if take 2 s = ''0o'' \<or> take 2 s = ''0O'' then parse_digits 8 (drop 2 s)
      else if take 2 s = ''0b'' \<or> take 2 s = ''0B'' then parse_digits 2 (drop 2 s)
      else if hd s = CHR ''-'' then res_bind (parse_digits 10 (tl s)) (\<lambda>n. Inr (- n))
      else if hd s = CHR ''+'' then parse_digits 10 (tl s)
      else parse_digits 10 s)"

fun js_BigInt :: "js \<Rightarrow> js_error + int" where
  "js_BigInt (JBool b) = Inr (if b then 1 else 0)"
| "js_BigInt (JNum n) = Inr n"
| "js_BigInt (JBig n) = Inr n"
| "js_BigInt (JStr s) = string_BigInt s"
| "js_BigInt JUndefined = Inl TypeError"
| "js_BigInt JNull = Inl TypeError"
| "js_BigInt (JArr vs) = string_BigInt (js_string (JArr vs))"
| "js_BigInt (JObj kvs) = Inl syntax_error"

definition js_field :: "js \<Rightarrow> string \<Rightarrow> js" where
  "js_field v k = (case v of JObj ob \<Rightarrow> js_prop ob k | _ \<Rightarrow> JUndefined)" \<comment> \<open>\<open>v?.k\<close>\<close>

text \<open>A decoded array of objects (\<open>value as Record<string, unknown>[]\<close>), and \<open>Number(v)\<close> of a
  decoded value, \<^const>\<open>None\<close> for \<open>NaN\<close>.\<close>

definition js_objects :: "js \<Rightarrow> js_object list" where
  "js_objects v = (case v of JArr vs \<Rightarrow> map (\<lambda>x. case x of JObj ob \<Rightarrow> ob | _ \<Rightarrow> []) vs | _ \<Rightarrow> [])"

definition js_Number :: "js \<Rightarrow> int option" where
  "js_Number v = (case v of JUndefined \<Rightarrow> None | JNull \<Rightarrow> Some 0 | JObj _ \<Rightarrow> None
     | _ \<Rightarrow> (case js_BigInt v of Inr n \<Rightarrow> Some n | Inl _ \<Rightarrow> None))"

section \<open>Round trip of decimal text\<close>

lemma digit_value_js_digit: "d < 10 \<Longrightarrow> digit_value (js_digit d) = Some d"
  by (simp add: digit_value_def js_digit_def Let_def)

lemma digits_value_append:
  "digits_value b acc (xs @ ys) =
     (case digits_value b acc xs of None \<Rightarrow> None | Some v \<Rightarrow> digits_value b v ys)"
  by (induction b acc xs rule: digits_value.induct) (auto split: option.splits)

lemma digits_value_acc:
  "digits_value b acc s = Some v \<Longrightarrow> digits_value b 0 s = Some w \<Longrightarrow> v = acc * b ^ length s + w"
proof (induction s arbitrary: acc v w)
  case (Cons c s)
  then obtain d where d: "digit_value c = Some d" "d < b"
    by (auto split: option.splits if_splits)
  obtain u where u: "digits_value b 0 s = Some u"
  proof (cases "digits_value b 0 s")
    case None
    have "digits_value b a s = None" if "digits_value b a0 s = None" for a a0
      using that by (induction s arbitrary: a a0) (auto split: option.splits if_splits)
    with None Cons.prems d show ?thesis by auto
  qed
  from Cons.prems d have "digits_value b (acc * b + d) s = Some v" and "digits_value b d s = Some w"
    by auto
  with Cons.IH u have "v = (acc * b + d) * b ^ length s + u" and "w = d * b ^ length s + u"
    by blast+
  then show ?case by (simp add: algebra_simps)
qed simp

lemma digits_value_show_nat: "digits_value 10 0 (show_nat n) = Some n"
proof (induction n rule: less_induct)
  case (less n)
  show ?case
  proof (cases "n < 10")
    case True
    then show ?thesis by (simp add: show_nat.simps [of n] digit_value_js_digit)
  next
    case False
    then have "digits_value 10 0 (show_nat (n div 10)) = Some (n div 10)" by (intro less.IH) auto
    with False show ?thesis
      by (simp add: show_nat.simps [of n] digits_value_append digit_value_js_digit)
  qed
qed

lemma show_nat_digit: "\<forall>c \<in> set (show_nat n). digit_value c \<noteq> None"
proof (induction n rule: less_induct)
  case (less n)
  have "\<forall>c \<in> set (show_nat (n div 10)). digit_value c \<noteq> None" if "\<not> n < 10"
    using that by (intro less.IH) simp
  moreover have "digit_value (js_digit (n mod 10)) \<noteq> None" by (simp add: digit_value_js_digit)
  ultimately show ?case by (auto simp: show_nat.simps [of n])
qed

lemma show_nat_free: "digit_value sep = None \<Longrightarrow> \<forall>c \<in> set (show_nat n). c \<noteq> sep"
  using show_nat_digit by metis

text \<open>A separator ends a decimal number, on either side.\<close>

lemma take_number:
  assumes "digit_value sep = None" and "r = [] \<or> (\<exists>r'. r = sep # r')"
  shows "takeWhile (\<lambda>c. c \<noteq> sep) (show_nat n @ r) = show_nat n"
  using assms(2) show_nat_free [OF assms(1), of n]
  by (elim disjE exE) (simp_all add: takeWhile_eq_all_conv takeWhile_append2 del: show_nat.simps)

lemma last_number_inj:
  assumes "digit_value sep = None" and "a @ sep # show_nat m = b @ sep # show_nat n"
  shows "a = b \<and> m = n"
proof -
  have tw: "takeWhile (\<lambda>c. c \<noteq> sep) (rev (xs @ sep # show_nat k)) = rev (show_nat k)" for xs k
  proof -
    have "takeWhile (\<lambda>c. c \<noteq> sep) (rev (show_nat k) @ sep # rev xs) = rev (show_nat k) @ takeWhile (\<lambda>c. c \<noteq> sep) (sep # rev xs)"
      by (rule takeWhile_append2) (use show_nat_free [OF assms(1), of k] in simp)
    then show ?thesis by simp
  qed
  have "rev (show_nat m) = rev (show_nat n)" using tw [of a m] tw [of b n] assms(2) by simp
  then have "m = n" by (auto dest: show_nat_inj)
  with assms(2) show ?thesis by simp
qed

section \<open>Hexadecimal output\<close>

definition hex_digit :: "nat \<Rightarrow> char" where
  "hex_digit d = (if d < 10 then char_of (48 + d) else char_of (87 + d))"

fun show_hex :: "nat \<Rightarrow> string" where
  "show_hex n = (if n < 16 then [hex_digit n] else show_hex (n div 16) @ [hex_digit (n mod 16)])"

declare show_hex.simps [simp del]

text \<open>\<open>`0x${n.toString(16)}`\<close>.\<close>

definition hex_of :: "int \<Rightarrow> string" where
  "hex_of n = ''0x'' @ (if n < 0 then ''-'' @ show_hex (nat (- n)) else show_hex (nat n))"

lemma digit_value_hex_digit: "d < 16 \<Longrightarrow> digit_value (hex_digit d) = Some d"
  by (simp add: digit_value_def hex_digit_def Let_def)

lemma digits_value_show_hex: "digits_value 16 0 (show_hex n) = Some n"
proof (induction n rule: less_induct)
  case (less n)
  show ?case
  proof (cases "n < 16")
    case True
    then show ?thesis by (simp add: show_hex.simps [of n] digit_value_hex_digit)
  next
    case False
    then have "digits_value 16 0 (show_hex (n div 16)) = Some (n div 16)" by (intro less.IH) auto
    with False show ?thesis
      by (simp add: show_hex.simps [of n] digits_value_append digit_value_hex_digit)
  qed
qed

lemma show_hex_not_Nil [simp]: "show_hex n \<noteq> []"
  by (subst show_hex.simps) simp

lemma string_BigInt_hex_of: "0 \<le> n \<Longrightarrow> string_BigInt (hex_of n) = Inr n"
  by (simp add: hex_of_def string_BigInt_def parse_digits_def digits_value_show_hex)

section \<open>Evaluation on integers\<close>

text \<open>Code equations that compute numbers as integers, so that values of any size evaluate.\<close>

fun digits_int :: "int \<Rightarrow> int \<Rightarrow> string \<Rightarrow> int option" where
  "digits_int base acc [] = Some acc"
| "digits_int base acc (c # cs) =
     (case digit_value c of
        None \<Rightarrow> None
      | Some d \<Rightarrow> if int d < base then digits_int base (acc * base + int d) cs else None)"

lemma digits_int: "digits_int (int b) (int a) s = map_option int (digits_value b a s)"
proof (induction b a s rule: digits_value.induct)
  case (2 base acc c cs)
  have "int acc * int base + int d = int (acc * base + d)" for d by simp
  with 2 show ?case by (auto split: option.split simp del: of_nat_add of_nat_mult)
qed simp

lemma parse_digits_code [code]:
  "parse_digits base s = (if s = [] then Inl syntax_error else case digits_int (int base) 0 s of None \<Rightarrow> Inl syntax_error | Some n \<Rightarrow> Inr n)"
  using digits_int [of base 0 s] by (auto simp: parse_digits_def split: option.splits)

function show_int_digits :: "int \<Rightarrow> (nat \<Rightarrow> char) \<Rightarrow> int \<Rightarrow> string" where
  "show_int_digits base digit n =
     (if n < base \<or> base < 2 then [digit (nat n)] else show_int_digits base digit (n div base) @ [digit (nat (n mod base))])"
  by auto
termination
proof (relation "measure (\<lambda>(base, digit, n). nat n)")
  fix base digit and n :: int
  assume "\<not> (n < base \<or> base < 2)"
  then have "n div base < n" and "0 \<le> n div base" by (simp_all add: int_div_less_self pos_imp_zdiv_nonneg_iff)
  then show "((base, digit, n div base), base, digit, n) \<in> measure (\<lambda>(base, digit, n). nat n)" by simp
qed simp

declare show_int_digits.simps [simp del]

lemma show_int_digits_dec: "show_int_digits 10 js_digit (int n) = show_nat n"
proof (induction n rule: less_induct)
  case (less n)
  show ?case
    using less.IH [of "n div 10"] by (auto simp: show_int_digits.simps [of _ _ "int n"] show_nat.simps [of n] zdiv_int nat_mod_as_int)
qed

lemma show_int_digits_hex: "show_int_digits 16 hex_digit (int n) = show_hex n"
proof (induction n rule: less_induct)
  case (less n)
  show ?case
    using less.IH [of "n div 16"] by (auto simp: show_int_digits.simps [of _ _ "int n"] show_hex.simps [of n] zdiv_int nat_mod_as_int)
qed

lemma show_int_code [code]:
  "show_int i = (if i < 0 then ''-'' @ show_int_digits 10 js_digit (- i) else show_int_digits 10 js_digit i)"
  using show_int_digits_dec [of "nat (- i)"] show_int_digits_dec [of "nat i"] by (auto simp: show_int_def)

lemma hex_of_code [code]:
  "hex_of n = ''0x'' @ (if n < 0 then ''-'' @ show_int_digits 16 hex_digit (- n) else show_int_digits 16 hex_digit n)"
  using show_int_digits_hex [of "nat (- n)"] show_int_digits_hex [of "nat n"] by (auto simp: hex_of_def)

end
