(* ===== verification/Debug_Types.thy ===== *)
theory Debug_Types
  imports Chain_Types Js_Value
begin

text \<open>
  The data of the execution inspector (\<open>src/src/lib/executionDebugger.ts\<close>): receipts with
  decoded events, transactions with the decoded call payload, blocks, settlements and traces.
  Hex quantities of the RPC (block numbers, transaction and log indices) are modelled by their
  value; a malformed quantity, for which \<open>BigInt\<close> throws, is not.
\<close>

record raw_transaction =
  rt_hash :: string
  rt_from :: string
  rt_to :: "string option"
  rt_input :: string
  rt_value :: string
  rt_blockNumber :: "int option"
  rt_blockHash :: "string option"
  rt_transactionIndex :: "int option"

record raw_log =
  rl_address :: string
  rl_topics :: "string list"
  rl_data :: string
  rl_logIndex :: int
  rl_transactionHash :: string
  rl_blockHash :: string
  rl_blockNumber :: int

record debug_event =
  de_name :: string
  de_args :: js_object
  de_raw :: raw_log
  de_protocol :: bool

record debug_receipt =
  dr_status :: string
  dr_gasUsed :: string
  dr_blockNumber :: int
  dr_blockHash :: string
  dr_logs :: "raw_log list"
  dr_contractAddress :: "string option"

record debug_payload =
  dp_method :: string
  dp_args :: js_object
  dp_entries :: "js_object list"
  dp_staticEntries :: "js_object list"
  dp_immediateEntryCount :: int

record debug_transaction =
  dt_chain :: chain
  dt_tx :: raw_transaction
  dt_receipt :: "debug_receipt option"
  dt_events :: "debug_event list"
  dt_payload :: "debug_payload option"
  dt_warnings :: "string list"

record debug_block =
  db_chain :: chain
  db_number :: int
  db_hash :: string
  db_parentHash :: string
  db_timestamp :: string
  db_gasUsed :: string
  db_gasLimit :: string
  db_transactions :: "debug_transaction list"

record settlement =
  sl_l1BlockNumber :: int
  sl_l1BlockHash :: string
  sl_l1TransactionHash :: string
  sl_l2Blocks :: "(int \<times> string) list"
  sl_canonicalL2 :: bool
  sl_l2Finalized :: bool

record debug_context =
  dx_sourceChain :: chain
  dx_sourceBlock :: "debug_block option"
  dx_selected :: "debug_transaction option"
  dx_blocks :: "debug_block list"
  dx_settlements :: "settlement list"
  dx_warnings :: "string list"

text \<open>A call frame of a trace (its type, addresses, gas and value are only displayed).\<close>

datatype call_trace = Trace (tr_error: "string option") (tr_output: "string option") (tr_calls: "call_trace list")

section \<open>The block range of a settlement\<close>

definition range_step :: "int \<times> int \<Rightarrow> int \<Rightarrow> int \<times> int" where
  "range_step = (\<lambda>(first, last) n. (if n < first then n else first, if n > last then n else last))"

definition settlementRange :: "settlement \<Rightarrow> (int \<times> int) option" where
  "settlementRange s =
     (case sl_l2Blocks s of
        [] \<Rightarrow> None
      | (n, h) # rest \<Rightarrow> Some (foldl range_step (n, n) (map fst (sl_l2Blocks s))))"

lemma foldl_range_step:
  "a \<le> b \<Longrightarrow> foldl range_step (a, b) ns = (Min (insert a (set ns)), Max (insert b (set ns)))"
proof (induction ns arbitrary: a b)
  case (Cons n ns)
  have "foldl range_step (min a n, max b n) ns = (Min (insert (min a n) (set ns)), Max (insert (max b n) (set ns)))"
    using Cons.prems by (intro Cons.IH) auto
  moreover have "range_step (a, b) n = (min a n, max b n)"
    by (auto simp: range_step_def min_def max_def)
  moreover have "Min (insert (min a n) (set ns)) = Min (insert a (insert n (set ns)))"
    by (cases "ns = []") (auto simp: min_def)
  moreover have "Max (insert (max b n) (set ns)) = Max (insert b (insert n (set ns)))"
    by (cases "ns = []") (auto simp: max_def)
  ultimately show ?case by simp
qed simp

lemma settlementRange_min_max:
  "settlementRange s = (if sl_l2Blocks s = [] then None
     else Some (Min (fst ` set (sl_l2Blocks s)), Max (fst ` set (sl_l2Blocks s))))"
proof (cases "sl_l2Blocks s")
  case (Cons b bs)
  then show ?thesis
    using foldl_range_step [of "fst b" "fst b" "map fst (sl_l2Blocks s)"]
    by (cases b) (simp add: settlementRange_def insert_absorb)
qed (simp add: settlementRange_def)

text \<open>
  The pure part of \<open>src/src/lib/executionDebugger.ts\<close>: which address is an EEZ contract, the
  decoding of logs, payloads and reverts, and the call hashes of a transaction.
  The module variables are the record \<open>discovered\<close>, the configuration the record \<open>debug_config\<close>.
  The ABI library and the contract ABIs are parameters: \<open>abi_lib\<close> has one event decoder per event
  of the ABI of a chain, in its order, and the decoders of calls and errors; a decoder that throws
  gives \<^const>\<open>None\<close>.
\<close>

section \<open>Known contracts\<close>

record debug_config =
  cfg_l1Rpc :: string
  cfg_l2Rpc :: string
  cfg_rollupsAddress :: string
  cfg_ccmL2Address :: string
  cfg_rollupId :: string

record discovered =
  dv_registries :: "(string, string) jmap"
  dv_targets :: "(string, string list) jmap"
  dv_managers :: "(string, string) jmap"

definition js_or :: "string \<Rightarrow> string \<Rightarrow> string" where
  "js_or a b = (if a \<noteq> [] then a else b)" \<comment> \<open>\<open>a || b\<close> on text\<close>

definition js_get_or :: "(string, string) jmap \<Rightarrow> string \<Rightarrow> string" where
  "js_get_or m k = (case jmap_get m k of None \<Rightarrow> [] | Some v \<Rightarrow> v)" \<comment> \<open>\<open>m.get(k) || ""\<close>\<close>

definition managerAddress :: "debug_config \<Rightarrow> discovered \<Rightarrow> chain \<Rightarrow> string" where
  "managerAddress cfg dv c =
     (case c of
        L1 \<Rightarrow> js_or (cfg_rollupsAddress cfg) (js_get_or (dv_registries dv) (cfg_l1Rpc cfg))
      | L2 \<Rightarrow> js_or (cfg_ccmL2Address cfg)
               (js_or (js_get_or (dv_managers dv) (cfg_l2Rpc cfg)) ''0x4200000000000000000000000000000000000007''))"

definition same_text :: "string \<Rightarrow> string \<Rightarrow> bool" where
  "same_text a b \<longleftrightarrow> a \<noteq> [] \<and> b \<noteq> [] \<and> js_lower a = js_lower b"

definition batch_targets :: "debug_config \<Rightarrow> discovered \<Rightarrow> string list" where
  "batch_targets cfg dv = (case jmap_get (dv_targets dv) (cfg_l1Rpc cfg) of None \<Rightarrow> [] | Some s \<Rightarrow> s)"

definition isDebugManager :: "debug_config \<Rightarrow> discovered \<Rightarrow> chain \<Rightarrow> string option \<Rightarrow> bool" where
  "isDebugManager cfg dv c address =
     (case address of
        None \<Rightarrow> False
      | Some a \<Rightarrow> a \<noteq> [] \<and> (same_text a (managerAddress cfg dv c)
          \<or> c = L1 \<and> js_lower a \<in> set (batch_targets cfg dv)))"

section \<open>Decoding\<close>

record abi_lib =
  abi_events :: "chain \<Rightarrow> (raw_log \<Rightarrow> (string \<times> js_object) option) list"
  abi_call :: "chain \<Rightarrow> string \<Rightarrow> (string \<times> string list \<times> js list) option"
    \<comment> \<open>name, parameter names and values of a decoded call\<close>
  abi_error :: "chain \<Rightarrow> string \<Rightarrow> (string \<times> js list) option"

definition raw_event :: "raw_log \<Rightarrow> debug_event" where
  "raw_event raw = \<lparr>de_name = ''Raw log'',
     de_args = [(''topics'', JArr (map JStr (rl_topics raw))), (''data'', JStr (rl_data raw))],
     de_raw = raw, de_protocol = False\<rparr>"

fun first_decoded :: "(raw_log \<Rightarrow> (string \<times> js_object) option) list \<Rightarrow> raw_log \<Rightarrow> debug_event" where
  "first_decoded [] raw = raw_event raw"
| "first_decoded (d # ds) raw =
     (case d raw of
        Some (name, args) \<Rightarrow> \<lparr>de_name = name, de_args = args, de_raw = raw, de_protocol = True\<rparr>
      | None \<Rightarrow> first_decoded ds raw)"

definition decodeProtocolLog :: "abi_lib \<Rightarrow> chain \<Rightarrow> raw_log \<Rightarrow> debug_event" where
  "decodeProtocolLog lib c raw = first_decoded (abi_events lib c) raw"

definition decodeDebugLog :: "abi_lib \<Rightarrow> debug_config \<Rightarrow> discovered \<Rightarrow> chain \<Rightarrow> raw_log \<Rightarrow> debug_event" where
  "decodeDebugLog lib cfg dv c raw =
     (if isDebugManager cfg dv c (Some (rl_address raw)) then decodeProtocolLog lib c raw else raw_event raw)"

text \<open>\<open>args[field.name || String(i)] = values[i]\<close>.\<close>

definition named_args :: "string list \<Rightarrow> js list \<Rightarrow> js_object" where
  "named_args names values =
     jmap_set_all (map (\<lambda>i. (js_or (names ! i) (show_nat i), if i < length values then values ! i else JUndefined))
       [0 ..< length names]) []"

definition nth_value :: "js list \<Rightarrow> nat \<Rightarrow> js" where
  "nth_value vs i = (if i < length vs then vs ! i else JUndefined)"

definition has_table :: "string \<Rightarrow> bool" where
  "has_table name \<longleftrightarrow> name = ''loadExecutionTable'' \<or> name = ''executeIncomingCrossChainCall''"

definition js_count :: "js \<Rightarrow> int" where
  "js_count v = (case js_Number v of Some n \<Rightarrow> n | None \<Rightarrow> 0)"

text \<open>A decoded batch is an object; reading a field of anything else throws, which gives \<open>null\<close>.\<close>

definition decodeDebugPayload :: "abi_lib \<Rightarrow> chain \<Rightarrow> string \<Rightarrow> debug_payload option" where
  "decodeDebugPayload lib c input =
     (case abi_call lib c input of
        None \<Rightarrow> None
      | Some (name, names, values) \<Rightarrow>
          if name = ''postAndVerifyBatch'' then
            (case nth_value values 0 of
               JObj batch \<Rightarrow> Some \<lparr>dp_method = name, dp_args = batch, dp_entries = js_objects (js_prop batch ''entries''),
                 dp_staticEntries = js_objects (js_prop batch ''staticEntries''),
                 dp_immediateEntryCount = js_count (js_prop batch ''immediateEntryCount'')\<rparr>
             | _ \<Rightarrow> None)
          else Some \<lparr>dp_method = name, dp_args = named_args names values,
                 dp_entries = (if has_table name then js_objects (nth_value values 0) else []),
                 dp_staticEntries = (if has_table name then js_objects (nth_value values 1) else []),
                 dp_immediateEntryCount = 0\<rparr>)"

section \<open>The call hashes of a transaction\<close>

text \<open>\<open>/^0x[\da-f]{64}$/i\<close> and not \<open>/^0x0{64}$/i\<close>.\<close>

definition call_hash :: "js \<Rightarrow> string option" where
  "call_hash v = (case v of
     JStr s \<Rightarrow> if is_hex_of 64 s \<and> \<not> list_all (\<lambda>c. c = CHR ''0'') (drop 2 s) then Some (js_lower s) else None
   | _ \<Rightarrow> None)"

definition entries_of :: "js_object \<Rightarrow> js_object list" where
  "entries_of args = js_objects (js_prop args ''entries'') @ js_objects (js_prop args ''staticEntries'')"

definition event_hash_values :: "debug_event \<Rightarrow> js list" where
  "event_hash_values e =
     js_prop (de_args e) ''crossChainCallHash'' #
       (if de_name e = ''ExecutionTableLoaded''
        then map (\<lambda>en. js_prop en ''proxyEntryHash'') (entries_of (de_args e)) else [])"

definition payload_entries :: "debug_transaction \<Rightarrow> js_object list" where
  "payload_entries tx = (case dt_payload tx of None \<Rightarrow> [] | Some p \<Rightarrow> dp_entries p @ dp_staticEntries p)"

definition transactionHashes :: "debug_transaction \<Rightarrow> string list" where
  "transactionHashes tx =
     jset_of (List.map_filter call_hash (concat (map event_hash_values (dt_events tx))
       @ map (\<lambda>en. js_prop en ''proxyEntryHash'') (payload_entries tx)))"

definition shares_call :: "debug_transaction \<Rightarrow> debug_transaction \<Rightarrow> bool" where
  "shares_call a b \<longleftrightarrow> list_ex (\<lambda>h. h \<in> set (transactionHashes a)) (transactionHashes b)"

definition block_transactions :: "debug_context \<Rightarrow> debug_transaction list" where
  "block_transactions context = concat (map db_transactions (dx_blocks context))"

definition relatedTransactions :: "debug_context \<Rightarrow> debug_transaction list" where
  "relatedTransactions context =
     (case dx_selected context of
        None \<Rightarrow> []
      | Some s \<Rightarrow> filter (\<lambda>tx. \<not> (dt_chain tx = dt_chain s \<and> same_text (rt_hash (dt_tx tx)) (rt_hash (dt_tx s))) \<and> shares_call s tx)
          (block_transactions context))"

lemma call_hash_lower: "call_hash v = Some h \<Longrightarrow> js_lower h = h"
  by (auto simp: call_hash_def split: js.splits if_splits)

lemma shares_call_iff: "shares_call a b \<longleftrightarrow> set (transactionHashes a) \<inter> set (transactionHashes b) \<noteq> {}"
  by (auto simp: shares_call_def list_ex_iff)

lemma shares_call_sym: "shares_call a b \<longleftrightarrow> shares_call b a"
  by (auto simp: shares_call_iff)

text \<open>A decoded protocol event comes from a manager contract, unless the log is shown raw.\<close>

lemma decodeDebugLog_protocol:
  "de_protocol (decodeDebugLog lib cfg dv c raw) \<Longrightarrow> isDebugManager cfg dv c (Some (rl_address raw))"
  by (auto simp: decodeDebugLog_def raw_event_def split: if_splits)

lemma first_decoded_raw [simp]: "de_raw (first_decoded ds raw) = raw"
  by (induction ds) (auto simp: raw_event_def split: option.split)

lemma decodeDebugLog_raw [simp]: "de_raw (decodeDebugLog lib cfg dv c raw) = raw"
  by (simp add: decodeDebugLog_def decodeProtocolLog_def raw_event_def)

end
