(* ===== verification/Fenwick.thy ===== *)
theory Fenwick
  imports Js_Prelude "HOL-Library.Word"
begin

unbundle bit_operations_syntax

text \<open>
  The prefix tree of \<open>alignTimelineRows\<close> (\<open>src/src/lib/executionTimeline.ts\<close>): a Fenwick tree
  whose cells hold the index of the best candidate of a range of positions. \<open>query\<close> walks
  \<open>i -= i & -i\<close> and \<open>update\<close> walks \<open>i += i & -i\<close>; a cell that holds no candidate is
  \<^const>\<open>None\<close> (the code stores \<open>-1\<close>). The indices are far below 2^31, so \<open>&\<close> on 32-bit
  integers is \<open>AND\<close> on \<^typ>\<open>int\<close>.
  The locale \<open>prefix_best\<close> is the contract of a structure that keeps the best candidate of
  every prefix of positions; the tree is its interpretation.
\<close>

definition lowbit :: "nat \<Rightarrow> nat" where
  "lowbit i = nat (int i AND - int i)"

definition better :: "nat list \<Rightarrow> nat option \<Rightarrow> nat option \<Rightarrow> nat option" where
  "better scores a b =
     (case a of None \<Rightarrow> b
      | Some x \<Rightarrow> (case b of None \<Rightarrow> a | Some y \<Rightarrow> if scores ! x > scores ! y then a else b))"

section \<open>The lowest set bit\<close>

lemma and_neg_double: "(2 * x :: int) AND - (2 * x) = 2 * (x AND - x)"
proof -
  have "- (2 * x) div 2 = - x" by presburger
  moreover have "2 * x AND - (2 * x) = 2 * (2 * x div 2 AND - (2 * x) div 2)"
    by (subst and_rec) simp
  ultimately show ?thesis by simp
qed

lemma and_neg_odd: "(2 * x + 1 :: int) AND - (2 * x + 1) = 1"
proof -
  have "- (2 * x + 1) div 2 = - x - 1" by presburger
  moreover have "x AND (- x - 1) = 0"
    by (simp add: not_int_def [symmetric])
  ultimately show ?thesis
    by (subst and_rec) (simp add: not_int_def)
qed

lemma lowbit_double: "lowbit (2 * i) = 2 * lowbit i"
  using and_neg_double [of "int i"] by (simp add: lowbit_def nat_mult_distrib)

lemma lowbit_odd: "lowbit (2 * i + 1) = 1"
  using and_neg_odd [of "int i"] by (simp add: lowbit_def add.commute)

lemma lowbit_pow: "lowbit (2 ^ k * (2 * m + 1)) = 2 ^ k"
proof (induction k)
  case 0
  then show ?case using lowbit_odd [of m] by simp
next
  case (Suc k)
  then show ?case by (simp only: power_Suc mult.assoc lowbit_double)
qed

lemma pos_pow_odd:
  assumes "0 < (i :: nat)"
  obtains k m where "i = 2 ^ k * (2 * m + 1)"
proof -
  have "\<exists>k m. i = 2 ^ k * (2 * m + 1)" using assms
  proof (induction i rule: less_induct)
    case (less i)
    show ?case
    proof (cases "even i")
      case True
      then obtain j where j: "i = 2 * j" by blast
      with less obtain k m where "j = 2 ^ k * (2 * m + 1)" by fastforce
      with j have "i = 2 ^ Suc k * (2 * m + 1)" by simp
      then show ?thesis by blast
    next
      case False
      then obtain m where "i = 2 ^ 0 * (2 * m + 1)" by (auto elim: oddE)
      then show ?thesis by blast
    qed
  qed
  with that show thesis by blast
qed

lemma lowbit_pos: "0 < i \<Longrightarrow> 0 < lowbit i"
  by (erule pos_pow_odd) (simp only: lowbit_pow, simp)

lemma lowbit_le: "lowbit i \<le> i"
proof (cases "i = 0")
  case True
  then show ?thesis by (simp add: lowbit_def)
next
  case False
  then obtain k m where "i = 2 ^ k * (2 * m + 1)" using pos_pow_odd by blast
  then show ?thesis by (simp only: lowbit_pow) simp
qed

lemma lowbit_next: "0 < i \<Longrightarrow> 2 * lowbit i \<le> lowbit (i + lowbit i)"
proof -
  assume "0 < i"
  then obtain k m where i: "i = 2 ^ k * (2 * m + 1)" using pos_pow_odd by blast
  then have sum: "i + lowbit i = 2 ^ Suc k * (m + 1)"
    by (simp only: lowbit_pow) (simp add: algebra_simps)
  obtain k' m' where "m + 1 = 2 ^ k' * (2 * m' + 1)" using pos_pow_odd [of "m + 1"] by auto
  then have "i + lowbit i = 2 ^ (Suc k + k') * (2 * m' + 1)"
    by (simp only: sum power_add mult.assoc)
  then have "lowbit (i + lowbit i) = 2 ^ (Suc k + k')" by (simp only: lowbit_pow)
  moreover have "(2 :: nat) ^ Suc k \<le> 2 ^ (Suc k + k')" by (rule power_increasing) simp_all
  moreover have "lowbit i = 2 ^ k" using i by (simp only: lowbit_pow)
  ultimately show ?thesis by simp
qed

lemma lowbit_between:
  assumes "0 < i" and "0 < r" and "r < lowbit i"
  shows "lowbit (i + r) \<le> r"
proof -
  obtain k m where i: "i = 2 ^ k * (2 * m + 1)" using pos_pow_odd assms(1) by blast
  obtain j n where r: "r = 2 ^ j * (2 * n + 1)" using pos_pow_odd assms(2) by blast
  have low: "lowbit i = 2 ^ k" using i by (simp only: lowbit_pow)
  have "(2 :: nat) ^ j \<le> r" by (simp add: r)
  with assms(3) low have "(2 :: nat) ^ j < 2 ^ k" by linarith
  then have "j < k" using power_less_imp_less_exp [of "2 :: nat" j k] by linarith
  then obtain d where k: "k = j + Suc d" using less_imp_Suc_add by auto
  have "i + r = 2 ^ j * (2 * (2 ^ d * (2 * m + 1) + n) + 1)"
    by (simp add: i r k power_add algebra_simps)
  then have "lowbit (i + r) = 2 ^ j" by (simp only: lowbit_pow)
  with \<open>2 ^ j \<le> r\<close> show ?thesis by simp
qed

section \<open>Query and update\<close>

function query_from :: "nat list \<Rightarrow> nat option list \<Rightarrow> nat \<Rightarrow> nat option \<Rightarrow> nat option" where
  "query_from scores tree i best =
     (if i > 0 then query_from scores tree (i - lowbit i) (better scores (tree ! i) best) else best)"
  by pat_completeness auto
termination
  by (relation "measure (\<lambda>(_, _, i, _). i)") (auto simp: lowbit_pos lowbit_le)

definition query :: "nat list \<Rightarrow> nat option list \<Rightarrow> nat \<Rightarrow> nat option" where
  "query scores tree n = query_from scores tree n None"

function update_from :: "nat list \<Rightarrow> nat \<Rightarrow> nat \<Rightarrow> nat option list \<Rightarrow> nat option list" where
  "update_from scores candidate i tree =
     (if 0 < i \<and> i < length tree
      then update_from scores candidate (i + lowbit i) (tree[i := better scores (Some candidate) (tree ! i)])
      else tree)"
  by pat_completeness auto
termination
  by (relation "measure (\<lambda>(_, _, i, tree). length tree - i)") (auto simp: lowbit_pos intro!: diff_less_mono2)

definition update :: "nat list \<Rightarrow> nat \<Rightarrow> nat \<Rightarrow> nat option list \<Rightarrow> nat option list" where
  "update scores position candidate tree = update_from scores candidate (position + 1) tree"

declare query_from.simps [simp del] update_from.simps [simp del]

text \<open>The positions a cell covers: cell \<open>i\<close> answers for \<open>i - lowbit i \<le> p < i\<close>.\<close>

definition covers :: "nat \<Rightarrow> nat \<Rightarrow> bool" where
  "covers i p \<longleftrightarrow> i - lowbit i \<le> p \<and> p < i"

lemma covers_start: "covers (Suc p) p"
  using lowbit_pos [of "Suc p"] by (auto simp: covers_def)

lemma covers_next: "covers i p \<Longrightarrow> covers (i + lowbit i) p"
proof -
  assume c: "covers i p"
  then have i: "0 < i" by (auto simp: covers_def)
  from lowbit_next [OF i] have "i + lowbit i - lowbit (i + lowbit i) \<le> i - lowbit i" by simp
  with c show ?thesis by (auto simp: covers_def)
qed

lemma covers_gap: "covers i p \<Longrightarrow> i < j \<Longrightarrow> covers j p \<Longrightarrow> i + lowbit i \<le> j"
proof (rule ccontr)
  assume c: "covers i p" and ij: "i < j" and cj: "covers j p" and "\<not> i + lowbit i \<le> j"
  then have i: "0 < i" and r: "0 < j - i" "j - i < lowbit i" by (auto simp: covers_def)
  from lowbit_between [OF i r] ij have "lowbit j \<le> j - i" by simp
  then have "i \<le> j - lowbit j" using ij by simp
  with cj c show False by (auto simp: covers_def)
qed

text \<open>\<open>update\<close> changes exactly the cells that cover the position.\<close>

lemma update_from_nth:
  assumes "covers i p" and "j < length tree"
  shows "update_from scores c i tree ! j =
    (if i \<le> j \<and> covers j p then better scores (Some c) (tree ! j) else tree ! j)"
  using assms
proof (induction scores c i tree rule: update_from.induct)
  case (1 scores c i tree)
  then have pos: "0 < i" by (auto simp: covers_def)
  show ?case
  proof (cases "i < length tree")
    case False
    with 1 show ?thesis by (simp add: update_from.simps [of scores c i])
  next
    case True
    let ?t = "tree[i := better scores (Some c) (tree ! i)]"
    have step: "update_from scores c i tree ! j =
        (if i + lowbit i \<le> j \<and> covers j p then better scores (Some c) (?t ! j) else ?t ! j)"
      using "1.IH" [OF conjI [OF pos True] covers_next [OF "1.prems"(1)]] "1.prems"(2) True pos
      by (simp add: update_from.simps [of scores c i])
    show ?thesis
    proof (cases "j = i")
      case True
      with lowbit_pos [OF pos] step "1.prems" show ?thesis by simp
    next
      case False
      then show ?thesis
        using step covers_gap [OF "1.prems"(1), of j] by (auto simp: le_less)
    qed
  qed
qed

lemma length_update_from [simp]: "length (update_from scores c i tree) = length tree"
  by (induction scores c i tree rule: update_from.induct)
     (subst update_from.simps, simp)

lemma update_nth:
  "j < length tree \<Longrightarrow> update scores p c tree ! j = (if covers j p then better scores (Some c) (tree ! j) else tree ! j)"
  using update_from_nth [OF covers_start] by (auto simp: update_def covers_def)

lemma length_update [simp]: "length (update scores p c tree) = length tree"
  by (simp add: update_def)

section \<open>Best candidates\<close>

text \<open>\<open>v\<close> is a best candidate among those that satisfy \<open>P\<close>.\<close>

definition best_of :: "nat list \<Rightarrow> (nat \<Rightarrow> bool) \<Rightarrow> nat option \<Rightarrow> bool" where
  "best_of scores P v \<longleftrightarrow> (case v of None \<Rightarrow> \<forall>k. \<not> P k | Some j \<Rightarrow> P j \<and> (\<forall>k. P k \<longrightarrow> scores ! k \<le> scores ! j))"

lemma best_of_better:
  assumes "best_of scores P a" and "best_of scores Q b"
  shows "best_of scores (\<lambda>k. P k \<or> Q k) (better scores a b)"
  using assms unfolding best_of_def better_def
  by (auto split: option.splits)

lemma best_of_cong: "(\<And>k. P k = Q k) \<Longrightarrow> best_of scores P v = best_of scores Q v"
proof -
  assume "\<And>k. P k = Q k"
  then have "P = Q" by blast
  then show ?thesis by simp
qed

lemma best_of_single: "best_of scores (\<lambda>k. k = c) (Some c)"
  by (simp add: best_of_def)

lemma best_of_none: "best_of scores (\<lambda>k. False) None"
  by (simp add: best_of_def)

text \<open>The contract: \<open>rep S t\<close> says that the structure holds the placed candidates \<open>S\<close> (pairs
  of a position and a candidate).\<close>

locale prefix_best =
  fixes rep :: "(nat \<times> nat) set \<Rightarrow> 't \<Rightarrow> bool" and empty :: "'t"
    and put :: "nat \<Rightarrow> nat \<Rightarrow> 't \<Rightarrow> 't" and get :: "'t \<Rightarrow> nat \<Rightarrow> nat option"
    and score :: "nat list" and size :: nat
  assumes rep_empty: "rep {} empty"
    and rep_put: "rep S t \<Longrightarrow> p < size \<Longrightarrow> rep (insert (p, c) S) (put p c t)"
    and rep_get: "rep S t \<Longrightarrow> n \<le> size \<Longrightarrow> best_of score (\<lambda>k. \<exists>p < n. (p, k) \<in> S) (get t n)"
begin

lemma rep_put_all:
  "rep S t \<Longrightarrow> \<forall>(p, c) \<in> set xs. p < size \<Longrightarrow> rep (set xs \<union> S) (foldl (\<lambda>t (p, c). put p c t) t xs)"
proof (induction xs arbitrary: S t)
  case (Cons x xs)
  obtain p c where x: "x = (p, c)" by (cases x)
  have "rep (insert (p, c) S) (put p c t)" using Cons.prems x by (intro rep_put) auto
  from Cons.IH [OF this] Cons.prems x show ?case by simp
qed simp

lemma get_le: "rep S t \<Longrightarrow> n \<le> size \<Longrightarrow> (p, k) \<in> S \<Longrightarrow> p < n \<Longrightarrow> \<exists>j. get t n = Some j \<and> score ! k \<le> score ! j"
  using rep_get [of S t n] by (auto simp: best_of_def split: option.splits)

lemma get_mem: "rep S t \<Longrightarrow> n \<le> size \<Longrightarrow> get t n = Some j \<Longrightarrow> \<exists>p < n. (p, j) \<in> S"
  using rep_get [of S t n] by (auto simp: best_of_def)

end

definition tree_rep :: "nat list \<Rightarrow> nat \<Rightarrow> (nat \<times> nat) set \<Rightarrow> nat option list \<Rightarrow> bool" where
  "tree_rep scores m S tree \<longleftrightarrow> length tree = Suc m \<and>
     (\<forall>i. 0 < i \<and> i \<le> m \<longrightarrow> best_of scores (\<lambda>k. \<exists>p. covers i p \<and> (p, k) \<in> S) (tree ! i))"

lemma tree_rep_update:
  assumes "tree_rep scores m S tree"
  shows "tree_rep scores m (insert (p, c) S) (update scores p c tree)"
proof -
  have "best_of scores (\<lambda>k. \<exists>q. covers i q \<and> (q, k) \<in> insert (p, c) S) (update scores p c tree ! i)"
    if i: "0 < i" "i \<le> m" for i
  proof -
    have old: "best_of scores (\<lambda>k. \<exists>q. covers i q \<and> (q, k) \<in> S) (tree ! i)"
      and len: "i < length tree"
      using assms i by (auto simp: tree_rep_def)
    show ?thesis
    proof (cases "covers i p")
      case True
      have "best_of scores (\<lambda>k. k = c \<or> (\<exists>q. covers i q \<and> (q, k) \<in> S)) (better scores (Some c) (tree ! i))"
        by (rule best_of_better [OF best_of_single old])
      then show ?thesis
        using True len by (subst best_of_cong [where Q = "\<lambda>k. k = c \<or> (\<exists>q. covers i q \<and> (q, k) \<in> S)"])
          (auto simp: update_nth)
    next
      case False
      then show ?thesis
        using old len by (subst best_of_cong [where Q = "\<lambda>k. \<exists>q. covers i q \<and> (q, k) \<in> S"])
          (auto simp: update_nth)
    qed
  qed
  with assms show ?thesis by (simp add: tree_rep_def)
qed

lemma query_from_best:
  assumes "tree_rep scores m S tree" and "i \<le> m" and "i \<le> n"
    and "best_of scores (\<lambda>k. \<exists>p. i \<le> p \<and> p < n \<and> (p, k) \<in> S) best"
  shows "best_of scores (\<lambda>k. \<exists>p < n. (p, k) \<in> S) (query_from scores tree i best)"
  using assms
proof (induction scores tree i best rule: query_from.induct)
  case (1 scores tree i best)
  show ?case
  proof (cases "i > 0")
    case False
    with "1.prems"(4) show ?thesis by (simp add: query_from.simps [of scores tree 0])
  next
    case True
    have cell: "best_of scores (\<lambda>k. \<exists>p. covers i p \<and> (p, k) \<in> S) (tree ! i)"
      using "1.prems" True by (auto simp: tree_rep_def)
    have "best_of scores (\<lambda>k. \<exists>p. i - lowbit i \<le> p \<and> p < n \<and> (p, k) \<in> S) (better scores (tree ! i) best)"
      using best_of_better [OF cell "1.prems"(4)] "1.prems"(3)
      by (subst best_of_cong [where Q = "\<lambda>k. (\<exists>p. covers i p \<and> (p, k) \<in> S) \<or> (\<exists>p. i \<le> p \<and> p < n \<and> (p, k) \<in> S)"])
         (auto simp: covers_def; meson le_less_linear order.strict_trans2 diff_le_self le_trans)+
    with "1.IH" [OF True "1.prems"(1)] "1.prems"(2,3) True show ?thesis
      by (simp add: query_from.simps [of scores tree i])
  qed
qed

lemma query_best:
  assumes "tree_rep scores m S tree" and "n \<le> m"
  shows "best_of scores (\<lambda>k. \<exists>p < n. (p, k) \<in> S) (query scores tree n)"
  unfolding query_def using assms by (intro query_from_best) (auto simp: best_of_def)

interpretation fenwick: prefix_best "tree_rep scores m" "replicate (Suc m) None"
    "\<lambda>p c. update scores p c" "\<lambda>t n. query scores t n" scores m
  for scores m
proof
  show "tree_rep scores m {} (replicate (Suc m) None)"
    by (auto simp: tree_rep_def best_of_def simp del: replicate_Suc)
qed (rule tree_rep_update, assumption, rule query_best)

end
