(* ===== verification/Timeline_Align.thy ===== *)
theory Timeline_Align
  imports Debug_Types Fenwick
begin

text \<open>
  The types of \<open>src/src/lib/executionTimeline.ts\<close> and its \<open>alignTimelineRows\<close>: the two chains'
  event lists are merged into rows, and a row may pair an L1 event with an L2 event only along
  an unambiguous connection. The pairs are a heaviest noncrossing set of connections (a
  weighted increasing subsequence, found with the prefix tree of theory \<open>Fenwick\<close>).
  The loop that follows the \<open>previous\<close> links has no syntactic bound; it is \<open>chain_back\<close> with
  fuel, and one step more than there are anchors is always enough.
\<close>

section \<open>Types\<close>

datatype step_kind = K_Call | K_Entry | K_Result | K_Rollback | K_Settlement | K_Table | K_Event

record timeline_step =
  ts_id :: string
  ts_tx :: debug_transaction
  ts_event :: debug_event
  ts_eventIndex :: nat
  ts_order :: nat
  ts_hash :: "string option"
  ts_title :: string
  ts_description :: string
  ts_kind :: step_kind

record timeline_transaction =
  tt_tx :: debug_transaction
  tt_timestamp :: "string option"
  tt_steps :: "timeline_step list"

datatype link_basis = Matching_call_hash | Replay_candidate

record timeline_connection =
  tc_from :: string
  tc_to :: string
  tc_basis :: link_basis
  tc_hash :: "string option"
  tc_ambiguous :: bool

record execution_timeline =
  tl_l1 :: "timeline_transaction list"
  tl_l2 :: "timeline_transaction list"
  tl_connections :: "timeline_connection list"
  tl_steps :: "timeline_step list"

record timeline_row =
  rw_id :: string
  rw_l1 :: "timeline_step option"
  rw_l2 :: "timeline_step option"
  rw_connection :: "timeline_connection option"

record anchor =
  ac_connection :: timeline_connection
  ac_a :: nat
  ac_b :: nat

section \<open>Anchors\<close>

text \<open>An index read outside an array is \<open>undefined\<close>.\<close>

definition js_nth :: "'a list \<Rightarrow> nat \<Rightarrow> 'a option" where
  "js_nth xs i = (if i < length xs then Some (xs ! i) else None)"

definition chain_steps :: "timeline_transaction list \<Rightarrow> timeline_step list" where
  "chain_steps ts = concat (map tt_steps ts)"

definition step_positions :: "timeline_step list \<Rightarrow> timeline_step list \<Rightarrow> (string, chain \<times> nat) jmap" where
  "step_positions l1 l2 =
     jmap_set_all (map (\<lambda>i. (ts_id (l1 ! i), (L1, i))) [0..<length l1] @
                   map (\<lambda>i. (ts_id (l2 ! i), (L2, i))) [0..<length l2]) []"

definition anchor_of :: "(string, chain \<times> nat) jmap \<Rightarrow> timeline_connection \<Rightarrow> anchor option" where
  "anchor_of positions connection =
     (case (jmap_get positions (tc_from connection), jmap_get positions (tc_to connection)) of
        (Some (fc, fi), Some (tc, ti)) \<Rightarrow>
          if tc_ambiguous connection \<or> fc = tc then None
          else Some \<lparr>ac_connection = connection, ac_a = (if fc = L1 then fi else ti),
                     ac_b = (if fc = L2 then fi else ti)\<rparr>
      | _ \<Rightarrow> None)"

definition timeline_anchors :: "timeline_step list \<Rightarrow> timeline_step list \<Rightarrow> timeline_connection list \<Rightarrow> anchor list" where
  "timeline_anchors l1 l2 connections =
     sort_key (\<lambda>x. (ac_a x, ac_b x)) (List.map_filter (anchor_of (step_positions l1 l2)) connections)"

definition is_incoming :: "timeline_step option \<Rightarrow> bool" where
  "is_incoming s = (case s of None \<Rightarrow> False | Some t \<Rightarrow> de_name (ts_event t) = ''IncomingCrossChainCallExecuted'')"

definition anchor_weight :: "timeline_step list \<Rightarrow> timeline_step list \<Rightarrow> nat \<Rightarrow> anchor \<Rightarrow> nat" where
  "anchor_weight l1 l2 base x =
     (let incoming = (is_incoming (js_nth l1 (ac_a x)) \<or> is_incoming (js_nth l2 (ac_b x)))
      in if tc_basis (ac_connection x) = Matching_call_hash then base * base + (if incoming then base else 0) else 1)"

section \<open>The heaviest increasing subsequence\<close>

record dp_state =
  dp_scores :: "nat list"
  dp_previous :: "nat option list"
  dp_tree :: "nat option list"

definition score_step :: "anchor list \<Rightarrow> (anchor \<Rightarrow> nat) \<Rightarrow> dp_state \<Rightarrow> nat \<Rightarrow> dp_state" where
  "score_step anchors weight st i =
     (let p = query (dp_scores st) (dp_tree st) (ac_b (anchors ! i));
          s = (case p of None \<Rightarrow> 0 | Some j \<Rightarrow> dp_scores st ! j) + weight (anchors ! i)
      in st\<lparr>dp_previous := (dp_previous st)[i := p], dp_scores := (dp_scores st)[i := s]\<rparr>)"

function group_end :: "anchor list \<Rightarrow> nat \<Rightarrow> nat \<Rightarrow> nat" where
  "group_end anchors start e =
     (if e < length anchors \<and> ac_a (anchors ! e) = ac_a (anchors ! start)
      then group_end anchors start (Suc e) else e)"
  by pat_completeness auto
termination by (relation "measure (\<lambda>(anchors, _, e). length anchors - e)") auto

declare group_end.simps [simp del]

definition place_group :: "anchor list \<Rightarrow> nat \<Rightarrow> nat \<Rightarrow> dp_state \<Rightarrow> dp_state" where
  "place_group anchors start e st =
     st\<lparr>dp_tree := foldl (\<lambda>t i. update (dp_scores st) (ac_b (anchors ! i)) i t) (dp_tree st) [start..<e]\<rparr>"

lemma group_end_ge: "e \<le> group_end anchors start e"
proof (induction anchors start e rule: group_end.induct)
  case (1 anchors start e)
  then show ?case by (subst group_end.simps) auto
qed

function group_loop :: "anchor list \<Rightarrow> (anchor \<Rightarrow> nat) \<Rightarrow> nat \<Rightarrow> dp_state \<Rightarrow> dp_state" where
  "group_loop anchors weight start st =
     (if start < length anchors
      then (let e = group_end anchors start (start + 1)
            in group_loop anchors weight e
                 (place_group anchors start e (foldl (score_step anchors weight) st [start..<e])))
      else st)"
  by pat_completeness auto
termination
proof (relation "measure (\<lambda>(anchors, _, start, _). length anchors - start)")
  fix anchors :: "anchor list" and weight :: "anchor \<Rightarrow> nat" and start e st
  assume "start < length anchors" "e = group_end anchors start (start + 1)"
  with group_end_ge [of "start + 1" anchors start]
  show "((anchors, weight, e, place_group anchors start e (foldl (score_step anchors weight) st [start..<e])), anchors, weight, start, st)
      \<in> measure (\<lambda>(anchors, _, start, _). length anchors - start)"
    by auto
qed simp

declare group_loop.simps [simp del]

fun chain_back :: "nat \<Rightarrow> nat option list \<Rightarrow> nat option \<Rightarrow> nat list option" where
  "chain_back fuel previous None = Some []"
| "chain_back 0 previous (Some i) = None"
| "chain_back (Suc fuel) previous (Some i) = map_option ((#) i) (chain_back fuel previous (previous ! i))"

text \<open>The indices of the chosen anchors, in order.\<close>

definition choose_anchors :: "anchor list \<Rightarrow> (anchor \<Rightarrow> nat) \<Rightarrow> nat \<Rightarrow> nat list option" where
  "choose_anchors anchors weight width =
     (let n = length anchors;
          st = group_loop anchors weight 0
                 \<lparr>dp_scores = replicate n 0, dp_previous = replicate n None, dp_tree = replicate (width + 1) None\<rparr>
      in map_option rev (chain_back (Suc n) (dp_previous st) (query (dp_scores st) (dp_tree st) width)))"

section \<open>Rows\<close>

definition mk_row :: "timeline_step option \<Rightarrow> timeline_step option \<Rightarrow> timeline_connection option \<Rightarrow> timeline_row" where
  "mk_row l r c =
     (let sid = (\<lambda>s. case s of None \<Rightarrow> ''-'' | Some t \<Rightarrow> ts_id t)
      in \<lparr>rw_id = sid l @ ''|'' @ sid r, rw_l1 = l, rw_l2 = r, rw_connection = c\<rparr>)"

type_synonym row_state = "nat \<times> nat \<times> timeline_row list"

function unpaired :: "timeline_step list \<Rightarrow> timeline_step list \<Rightarrow> nat \<Rightarrow> nat \<Rightarrow> row_state \<Rightarrow> row_state" where
  "unpaired l1 l2 endA endB (a, b, rows) =
     (if a < endA \<or> b < endB
      then (let (a', rows1) = (if a < endA then (a + 1, rows @ [mk_row (js_nth l1 a) None None]) else (a, rows));
                (b', rows2) = (if b < endB then (b + 1, rows1 @ [mk_row None (js_nth l2 b) None]) else (b, rows1))
            in unpaired l1 l2 endA endB (a', b', rows2))
      else (a, b, rows))"
  by pat_completeness auto
termination
  by (relation "measure (\<lambda>(_, _, endA, endB, a, b, _). (endA - a) + (endB - b))") (auto split: if_splits)

declare unpaired.simps [simp del]

definition anchor_row :: "timeline_step list \<Rightarrow> timeline_step list \<Rightarrow> row_state \<Rightarrow> anchor \<Rightarrow> row_state" where
  "anchor_row l1 l2 st x =
     (case unpaired l1 l2 (ac_a x) (ac_b x) st of (a, b, rows) \<Rightarrow>
        (a + 1, b + 1, rows @ [mk_row (js_nth l1 a) (js_nth l2 b) (Some (ac_connection x))]))"

definition build_rows :: "timeline_step list \<Rightarrow> timeline_step list \<Rightarrow> anchor list \<Rightarrow> timeline_row list" where
  "build_rows l1 l2 chosen =
     snd (snd (unpaired l1 l2 (length l1) (length l2) (foldl (anchor_row l1 l2) (0, 0, []) chosen)))"

definition alignTimelineRows :: "execution_timeline \<Rightarrow> timeline_row list option" where
  "alignTimelineRows timeline =
     (let l1 = chain_steps (tl_l1 timeline);
          l2 = chain_steps (tl_l2 timeline);
          anchors = timeline_anchors l1 l2 (tl_connections timeline);
          base = length anchors + 1
      in map_option (\<lambda>chosen. build_rows l1 l2 (map (\<lambda>i. anchors ! i) chosen))
           (choose_anchors anchors (anchor_weight l1 l2 base) (length l2)))"

end
