(* ===== verification/Timeline_Align_Correct.thy ===== *)
theory Timeline_Align_Correct
  imports Timeline_Align
begin

text \<open>
  Correctness of \<^const>\<open>alignTimelineRows\<close>. The locale \<open>sorted_anchors\<close> states what the
  dynamic program relies on (anchors in order of their L1 position, L2 positions inside the
  tree) and holds the optimality proof; it is interpreted on the anchors of a timeline. The
  second half is about the rows: both chains are kept complete and in order.
\<close>

section \<open>Groups\<close>

lemma group_end_bound: "e \<le> length anchors \<Longrightarrow> group_end anchors start e \<le> length anchors"
proof (induction anchors start e rule: group_end.induct)
  case (1 anchors start e)
  then show ?case by (subst group_end.simps) auto
qed

lemma group_end_same:
  "e \<le> i \<Longrightarrow> i < group_end anchors start e \<Longrightarrow> ac_a (anchors ! i) = ac_a (anchors ! start)"
proof (induction anchors start e rule: group_end.induct)
  case (1 anchors start e)
  then show ?case
    by (cases "i = e") (auto simp: group_end.simps [of anchors start e] split: if_splits)
qed

lemma group_end_stop:
  "group_end anchors start e < length anchors \<Longrightarrow>
   ac_a (anchors ! group_end anchors start e) \<noteq> ac_a (anchors ! start)"
proof (induction anchors start e rule: group_end.induct)
  case (1 anchors start e)
  then show ?case by (subst (asm) group_end.simps, subst group_end.simps) (auto split: if_splits)
qed

section \<open>Scores\<close>

lemma tree_rep_scores:
  assumes "tree_rep s m S t" and "\<And>p k. (p, k) \<in> S \<Longrightarrow> s ! k = s' ! k"
  shows "tree_rep s' m S t"
proof -
  have "best_of s P v \<Longrightarrow> (\<And>k. P k \<Longrightarrow> s ! k = s' ! k) \<Longrightarrow> best_of s' P v" for P v
    by (auto simp: best_of_def split: option.splits)
  then show ?thesis using assms unfolding tree_rep_def by blast
qed

locale sorted_anchors =
  fixes anchors :: "anchor list" and weight :: "anchor \<Rightarrow> nat" and width :: nat
  assumes by_position: "sorted (map (\<lambda>x. (ac_a x, ac_b x)) anchors)"
    and in_width: "x \<in> set anchors \<Longrightarrow> ac_b x < width"
begin

abbreviation w :: "nat \<Rightarrow> nat" where "w i \<equiv> weight (anchors ! i)"

definition above :: "nat \<Rightarrow> nat \<Rightarrow> bool" where
  "above i j \<longleftrightarrow> ac_a (anchors ! i) < ac_a (anchors ! j) \<and> ac_b (anchors ! i) < ac_b (anchors ! j)"

definition noncrossing :: "nat list \<Rightarrow> bool" where
  "noncrossing js \<longleftrightarrow> sorted_wrt above js \<and> set js \<subseteq> {..<length anchors}"

definition total :: "nat list \<Rightarrow> nat" where
  "total js = sum_list (map w js)"

lemma a_mono: "i \<le> j \<Longrightarrow> j < length anchors \<Longrightarrow> ac_a (anchors ! i) \<le> ac_a (anchors ! j)"
proof -
  assume "i \<le> j" "j < length anchors"
  then have "(ac_a (anchors ! i), ac_b (anchors ! i)) \<le> (ac_a (anchors ! j), ac_b (anchors ! j))"
    using sorted_nth_mono [OF by_position] by auto
  then show ?thesis by (auto simp: less_eq_prod_def)
qed

lemma above_less: "above i j \<Longrightarrow> i < length anchors \<Longrightarrow> i < j"
  using a_mono [of j i] by (auto simp: above_def not_le [symmetric])

lemma above_trans: "above i j \<Longrightarrow> above j k \<Longrightarrow> above i k"
  by (auto simp: above_def)

text \<open>A score is that of a chain ending in the anchor, and no chain ending there is heavier.\<close>

definition scored :: "nat list \<Rightarrow> nat option list \<Rightarrow> nat \<Rightarrow> bool" where
  "scored s p j \<longleftrightarrow>
     (case p ! j of None \<Rightarrow> s ! j = w j | Some i \<Rightarrow> i < j \<and> above i j \<and> s ! j = s ! i + w j) \<and>
     (\<forall>ks. noncrossing (ks @ [j]) \<longrightarrow> total (ks @ [j]) \<le> s ! j)"

definition placed :: "nat \<Rightarrow> (nat \<times> nat) set" where
  "placed n = (\<lambda>k. (ac_b (anchors ! k), k)) ` {..<n}"

definition dp_ok :: "nat \<Rightarrow> dp_state \<Rightarrow> bool" where
  "dp_ok start st \<longleftrightarrow> start \<le> length anchors \<and>
     length (dp_scores st) = length anchors \<and> length (dp_previous st) = length anchors \<and>
     tree_rep (dp_scores st) width (placed start) (dp_tree st) \<and>
     (\<forall>j < start. scored (dp_scores st) (dp_previous st) j)"

lemma placed_mem [simp]: "(p, k) \<in> placed n \<longleftrightarrow> k < n \<and> p = ac_b (anchors ! k)"
  by (auto simp: placed_def)

lemma placed_best:
  assumes "tree_rep s width (placed n) t" and "m \<le> width"
  shows "best_of s (\<lambda>k. k < n \<and> ac_b (anchors ! k) < m) (query s t m)"
proof -
  have "(\<lambda>k. \<exists>p < m. (p, k) \<in> placed n) = (\<lambda>k. k < n \<and> ac_b (anchors ! k) < m)" by auto
  with fenwick.rep_get [OF assms] show ?thesis by simp
qed

lemma noncrossing_snoc:
  "noncrossing (ks @ [i, j]) \<longleftrightarrow> noncrossing (ks @ [i]) \<and> j < length anchors \<and> above i j"
  using above_trans by (auto simp: noncrossing_def sorted_wrt_append)

lemma total_snoc [simp]: "total (ks @ [j]) = total ks + w j"
  by (simp add: total_def)

lemma scored_step:
  assumes ok: "\<forall>j < start. scored s p j" and best: "best_of s (\<lambda>k. k < start \<and> ac_b (anchors ! k) < ac_b (anchors ! i)) q"
    and i: "i < length anchors" "start \<le> i"
    and group: "\<And>k. above k i \<Longrightarrow> k < length anchors \<Longrightarrow> k < start"
    and before: "\<And>k. k < start \<Longrightarrow> ac_a (anchors ! k) < ac_a (anchors ! i)"
    and new: "s' ! i = (case q of None \<Rightarrow> 0 | Some k \<Rightarrow> s ! k) + w i" "p' ! i = q"
    and old: "\<And>k. k < start \<Longrightarrow> s' ! k = s ! k"
  shows "scored s' p' i"
proof -
  have "total (ks @ [i]) \<le> s' ! i" if nc: "noncrossing (ks @ [i])" for ks
  proof (cases ks rule: rev_cases)
    case Nil
    then show ?thesis by (simp add: new(1) total_def)
  next
    case (snoc ls k)
    with nc have k: "noncrossing (ls @ [k])" "above k i" "k < length anchors"
      by (auto simp: noncrossing_snoc) (simp add: noncrossing_def)
    then have "k < start" by (intro group)
    with ok k(1) have "total ks \<le> s ! k" by (simp add: scored_def snoc)
    also have "\<dots> \<le> (case q of None \<Rightarrow> 0 | Some k \<Rightarrow> s ! k)"
      using best \<open>k < start\<close> k(2) by (auto simp: best_of_def above_def split: option.splits)
    finally show ?thesis by (simp add: new(1))
  qed
  moreover have "case p' ! i of None \<Rightarrow> s' ! i = w i | Some k \<Rightarrow> k < i \<and> above k i \<and> s' ! i = s' ! k + w i"
    using best before i(2) by (auto simp: new old best_of_def above_def split: option.splits)
  ultimately show ?thesis by (simp add: scored_def)
qed

lemma scored_cong:
  "(\<And>k. k \<le> j \<Longrightarrow> s' ! k = s ! k) \<Longrightarrow> p' ! j = p ! j \<Longrightarrow> scored s p j \<Longrightarrow> scored s' p' j"
  by (auto simp: scored_def split: option.splits)

text \<open>Scoring a group leaves the tree and the earlier scores alone.\<close>

lemma score_group:
  assumes ok: "dp_ok start st" and start: "start < length anchors"
    and e: "e \<le> length anchors" "start \<le> e"
    and same: "\<And>i. start \<le> i \<Longrightarrow> i < e \<Longrightarrow> ac_a (anchors ! i) = ac_a (anchors ! start)"
    and before: "\<And>k. k < start \<Longrightarrow> ac_a (anchors ! k) < ac_a (anchors ! start)"
    and st': "st' = foldl (score_step anchors weight) st [start..<e]"
  shows "dp_tree st' = dp_tree st \<and> length (dp_scores st') = length anchors \<and>
    length (dp_previous st') = length anchors \<and> (\<forall>k < start. dp_scores st' ! k = dp_scores st ! k) \<and>
    (\<forall>j < e. scored (dp_scores st') (dp_previous st') j)"
  using e same st'
proof (induction e arbitrary: st')
  case 0
  with ok show ?case by (simp add: dp_ok_def)
next
  case (Suc e)
  show ?case
  proof (cases "start \<le> e")
    case False
    with Suc.prems(2) have "start = Suc e" by simp
    with Suc.prems(4) ok show ?thesis by (simp add: dp_ok_def)
  next
    case True
    have len: "e < length anchors" using Suc.prems(1) by simp
    have ae: "ac_a (anchors ! e) = ac_a (anchors ! start)" by (rule Suc.prems(3) [OF True lessI])
    define st1 where "st1 = foldl (score_step anchors weight) st [start..<e]"
    have IH: "dp_tree st1 = dp_tree st" "length (dp_scores st1) = length anchors"
        "length (dp_previous st1) = length anchors" "\<forall>k < start. dp_scores st1 ! k = dp_scores st ! k"
        "\<forall>j < e. scored (dp_scores st1) (dp_previous st1) j"
      using Suc.IH [OF less_imp_le [OF len] True Suc.prems(3) [OF _ less_SucI] st1_def] by auto
    have st': "st' = score_step anchors weight st1 e"
      using Suc.prems(4) True by (simp add: st1_def)
    let ?q = "query (dp_scores st1) (dp_tree st1) (ac_b (anchors ! e))"
    have "tree_rep (dp_scores st1) width (placed start) (dp_tree st1)"
      using ok IH by (auto simp: dp_ok_def intro: tree_rep_scores)
    moreover have "ac_b (anchors ! e) \<le> width"
      using in_width [of "anchors ! e"] len by simp
    ultimately have best: "best_of (dp_scores st1) (\<lambda>k. k < start \<and> ac_b (anchors ! k) < ac_b (anchors ! e)) ?q"
      by (rule placed_best)
    have new: "dp_scores st' ! e = (case ?q of None \<Rightarrow> 0 | Some k \<Rightarrow> dp_scores st1 ! k) + w e"
        "dp_previous st' ! e = ?q"
        "\<And>k. k \<noteq> e \<Longrightarrow> dp_scores st' ! k = dp_scores st1 ! k"
        "\<And>k. k \<noteq> e \<Longrightarrow> dp_previous st' ! k = dp_previous st1 ! k"
        "dp_tree st' = dp_tree st1" "length (dp_scores st') = length anchors" "length (dp_previous st') = length anchors"
      using IH(1-3) len by (simp_all add: st' score_step_def Let_def)
    have "scored (dp_scores st') (dp_previous st') e"
    proof (rule scored_step [OF _ best _ True _ _ new(1,2)])
      show "\<forall>j < start. scored (dp_scores st1) (dp_previous st1) j" using IH(5) True by auto
      show "e < length anchors" by (rule len)
      fix k
      show "k < start" if "above k e" "k < length anchors"
        using that a_mono [of start k] ae by (fastforce simp: above_def not_less [symmetric])
      show "k < start \<Longrightarrow> ac_a (anchors ! k) < ac_a (anchors ! e)" unfolding ae by (rule before)
      show "k < start \<Longrightarrow> dp_scores st' ! k = dp_scores st1 ! k" using new(3) True by simp
    qed
    moreover have "scored (dp_scores st') (dp_previous st') j" if "j < e" for j
    proof (rule scored_cong [where s = "dp_scores st1" and p = "dp_previous st1"])
      show "dp_scores st' ! k = dp_scores st1 ! k" if "k \<le> j" for k
        by (rule new(3)) (use that \<open>j < e\<close> in simp)
      show "dp_previous st' ! j = dp_previous st1 ! j" by (rule new(4)) (use that in simp)
      show "scored (dp_scores st1) (dp_previous st1) j" using IH(5) that by blast
    qed
    ultimately have "\<forall>j < Suc e. scored (dp_scores st') (dp_previous st') j" by (simp add: less_Suc_eq)
    moreover have "\<forall>k < start. dp_scores st' ! k = dp_scores st ! k" using IH(4) new(3) True by simp
    ultimately show ?thesis using IH(1) new(5-7) by simp
  qed
qed

lemma placed_upto: "start \<le> e \<Longrightarrow> placed e = set (map (\<lambda>k. (ac_b (anchors ! k), k)) [start..<e]) \<union> placed start"
proof -
  assume "start \<le> e"
  then have "{..<e} = {start..<e} \<union> {..<start}" by auto
  then show ?thesis by (simp add: placed_def image_Un)
qed

lemma place_group_tree:
  assumes "tree_rep s width S t" and "e \<le> length anchors"
  shows "tree_rep s width (set (map (\<lambda>k. (ac_b (anchors ! k), k)) [start..<e]) \<union> S)
    (foldl (\<lambda>t i. update s (ac_b (anchors ! i)) i t) t [start..<e])"
proof -
  let ?xs = "map (\<lambda>k. (ac_b (anchors ! k), k)) [start..<e]"
  have "\<forall>(p, c) \<in> set ?xs. p < width" using in_width assms(2) by auto
  from fenwick.rep_put_all [OF assms(1) this]
  show ?thesis by (simp add: foldl_map)
qed

lemma group_loop_ok:
  assumes "dp_ok start st" and "start < length anchors \<Longrightarrow> \<forall>k < start. ac_a (anchors ! k) < ac_a (anchors ! start)"
  shows "dp_ok (length anchors) (group_loop anchors weight start st)"
  using assms
proof (induction "length anchors - start" arbitrary: start st rule: less_induct)
  case less
  show ?case
  proof (cases "start < length anchors")
    case False
    with less.prems(1) have "start = length anchors" by (simp add: dp_ok_def)
    with less.prems(1) show ?thesis by (simp add: group_loop.simps [of anchors weight "length anchors"])
  next
    case True
    define e where "e = group_end anchors start (start + 1)"
    define st1 where "st1 = foldl (score_step anchors weight) st [start..<e]"
    have e: "start < e" "e \<le> length anchors"
      using group_end_ge [of "start + 1" anchors start] group_end_bound [of "start + 1" anchors start] True
      by (simp_all add: e_def)
    have same: "ac_a (anchors ! i) = ac_a (anchors ! start)" if "start \<le> i" "i < e" for i
      using that group_end_same [of "start + 1" i anchors start] by (cases "i = start") (auto simp: e_def)
    have g: "dp_tree st1 = dp_tree st" "length (dp_scores st1) = length anchors"
        "length (dp_previous st1) = length anchors" "\<forall>k < start. dp_scores st1 ! k = dp_scores st ! k"
        "\<forall>j < e. scored (dp_scores st1) (dp_previous st1) j"
      using score_group [OF less.prems(1) True e(2) less_imp_le [OF e(1)] same _ st1_def] less.prems(2) True by auto
    have "tree_rep (dp_scores st1) width (placed start) (dp_tree st1)"
      using less.prems(1) g by (auto simp: dp_ok_def intro: tree_rep_scores)
    from place_group_tree [OF this e(2), of start]
    have "tree_rep (dp_scores st1) width (placed e) (dp_tree (place_group anchors start e st1))"
      using e(1) placed_upto [of start e] by (simp add: place_group_def)
    then have ok: "dp_ok e (place_group anchors start e st1)"
      using g e by (simp add: dp_ok_def place_group_def)
    have "\<forall>k < e. ac_a (anchors ! k) < ac_a (anchors ! e)" if "e < length anchors"
    proof -
      have "ac_a (anchors ! e) \<noteq> ac_a (anchors ! start)"
        using group_end_stop [of anchors start "start + 1"] that by (simp add: e_def)
      then have "ac_a (anchors ! start) < ac_a (anchors ! e)"
        using a_mono [of start e] that e by simp
      moreover have "ac_a (anchors ! k) \<le> ac_a (anchors ! start)" if "k < e" for k
        using that same [of k] a_mono [of k start] True by (cases "start \<le> k") auto
      ultimately show ?thesis by (meson le_less_trans)
    qed
    from less.hyps [OF _ ok this] e True
    show ?thesis by (simp add: group_loop.simps [of anchors weight start] Let_def e_def st1_def)
  qed
qed

lemma chain_back_ok:
  assumes "\<forall>j < length anchors. scored s p j" and "i < length anchors" and "i < fuel"
  shows "\<exists>js. chain_back fuel p (Some i) = Some js \<and> noncrossing (rev js) \<and> js \<noteq> [] \<and> hd js = i \<and> total (rev js) = s ! i"
  using assms(2,3)
proof (induction fuel arbitrary: i)
  case (Suc fuel)
  from assms(1) Suc.prems have sc: "scored s p i" by blast
  show ?case
  proof (cases "p ! i")
    case None
    with sc Suc.prems show ?thesis by (simp add: scored_def noncrossing_def total_def)
  next
    case (Some k)
    with sc have k: "k < i" "above k i" "s ! i = s ! k + w i" by (auto simp: scored_def)
    from k(1) Suc.prems have "k < length anchors" "k < fuel" by simp_all
    from Suc.IH [OF this] obtain js where js: "chain_back fuel p (Some k) = Some js" "noncrossing (rev js)" "js \<noteq> []" "hd js = k"
        "total (rev js) = s ! k"
      by blast
    then obtain ks where ks: "js = k # ks" by (cases js) auto
    have "noncrossing (rev (i # js))"
      using js(2) k Suc.prems by (simp add: ks noncrossing_snoc)
    with js k Some show ?thesis by simp
  qed
qed simp

theorem choose_anchors_optimal:
  "\<exists>js. choose_anchors anchors weight width = Some js \<and> noncrossing js \<and>
     (\<forall>ks. noncrossing ks \<longrightarrow> total ks \<le> total js)"
proof -
  let ?n = "length anchors"
  define st where "st = group_loop anchors weight 0
     \<lparr>dp_scores = replicate ?n 0, dp_previous = replicate ?n None, dp_tree = replicate (width + 1) None\<rparr>"
  have "dp_ok 0 \<lparr>dp_scores = replicate ?n 0, dp_previous = replicate ?n None, dp_tree = replicate (width + 1) None\<rparr>"
    using fenwick.rep_empty [of "replicate ?n 0" width] by (simp add: dp_ok_def placed_def)
  then have ok: "dp_ok ?n st" unfolding st_def by (rule group_loop_ok) simp
  let ?q = "query (dp_scores st) (dp_tree st) width"
  have choose: "choose_anchors anchors weight width = map_option rev (chain_back (Suc ?n) (dp_previous st) ?q)"
    by (simp only: choose_anchors_def Let_def st_def)
  have best: "best_of (dp_scores st) (\<lambda>k. k < ?n) ?q"
  proof -
    have "best_of (dp_scores st) (\<lambda>k. k < ?n \<and> ac_b (anchors ! k) < width) ?q"
      using ok by (intro placed_best) (simp_all add: dp_ok_def)
    moreover have "(\<lambda>k. k < ?n \<and> ac_b (anchors ! k) < width) = (\<lambda>k. k < ?n)" using in_width by auto
    ultimately show ?thesis by simp
  qed
  have sc: "\<forall>j < ?n. scored (dp_scores st) (dp_previous st) j" using ok by (simp add: dp_ok_def)
  have bound: "total ks \<le> dp_scores st ! k" if "noncrossing (ls @ [k])" "ks = ls @ [k]" for ks ls k
  proof -
    have "k < ?n" using that(1) by (simp add: noncrossing_def)
    with sc that show ?thesis by (simp add: scored_def)
  qed
  show ?thesis
  proof (cases ?q)
    case None
    then have "?n = 0" using best by (auto simp: best_of_def)
    have nil: "ks = []" if "noncrossing ks" for ks
    proof -
      from that have "set ks \<subseteq> {..<?n}" unfolding noncrossing_def by blast
      with \<open>?n = 0\<close> show ?thesis by (cases ks) simp_all
    qed
    have "total ks = 0" if "noncrossing ks" for ks
      using nil [OF that] by (simp add: total_def)
    moreover have "noncrossing []" by (simp add: noncrossing_def)
    moreover have "choose_anchors anchors weight width = Some []" by (simp add: choose None)
    ultimately show ?thesis by fastforce
  next
    case (Some i)
    then have i: "i < ?n" and max: "\<And>k. k < ?n \<Longrightarrow> dp_scores st ! k \<le> dp_scores st ! i"
      using best by (auto simp: best_of_def)
    obtain js where js: "chain_back (Suc ?n) (dp_previous st) (Some i) = Some js" "noncrossing (rev js)"
        "total (rev js) = dp_scores st ! i"
      using chain_back_ok [OF sc i, of "Suc ?n"] i by auto
    have "total ks \<le> dp_scores st ! i" if "noncrossing ks" for ks
    proof (cases ks rule: rev_cases)
      case (snoc ls k)
      with that have "k < ?n" by (simp add: noncrossing_def)
      with bound [of ls k ks] that snoc max show ?thesis by (meson le_trans)
    qed (simp add: total_def)
    moreover have "choose_anchors anchors weight width = Some (rev js)"
      by (simp only: choose Some js(1) option.map)
    ultimately show ?thesis using js(2,3) by (intro exI [of _ "rev js"]) simp
  qed
qed

end

section \<open>The anchors of a timeline\<close>

lemma step_positions_Some:
  assumes "jmap_get (step_positions l1 l2) i = Some (c, k)"
  shows "c = L1 \<and> k < length l1 \<and> ts_id (l1 ! k) = i \<or> c = L2 \<and> k < length l2 \<and> ts_id (l2 ! k) = i"
proof -
  define kvs where "kvs = map (\<lambda>i. (ts_id (l1 ! i), (L1, i))) [0..<length l1] @ map (\<lambda>i. (ts_id (l2 ! i), (L2, i))) [0..<length l2]"
  have "map_of (rev kvs) i = Some (c, k)"
    using assms by (simp add: step_positions_def kvs_def [symmetric] jmap_get_set_all split: option.splits)
  then have "(i, (c, k)) \<in> set (rev kvs)" by (rule map_of_SomeD)
  then show ?thesis by (auto simp: kvs_def)
qed

text \<open>An anchor joins the two steps its connection names.\<close>

definition joins :: "timeline_step list \<Rightarrow> timeline_step list \<Rightarrow> anchor \<Rightarrow> bool" where
  "joins l1 l2 x \<longleftrightarrow> ac_a x < length l1 \<and> ac_b x < length l2 \<and> \<not> tc_ambiguous (ac_connection x) \<and>
     {tc_from (ac_connection x), tc_to (ac_connection x)} = {ts_id (l1 ! ac_a x), ts_id (l2 ! ac_b x)}"

lemma anchor_of_joins:
  assumes "anchor_of (step_positions l1 l2) c = Some x"
  shows "joins l1 l2 x \<and> ac_connection x = c"
proof -
  obtain fc fi tc ti where f: "jmap_get (step_positions l1 l2) (tc_from c) = Some (fc, fi)"
    and t: "jmap_get (step_positions l1 l2) (tc_to c) = Some (tc, ti)"
    and c: "\<not> tc_ambiguous c" "fc \<noteq> tc"
      "x = \<lparr>ac_connection = c, ac_a = (if fc = L1 then fi else ti), ac_b = (if fc = L2 then fi else ti)\<rparr>"
    using assms
    by (cases "jmap_get (step_positions l1 l2) (tc_from c)"; cases "jmap_get (step_positions l1 l2) (tc_to c)")
       (auto simp: anchor_of_def split: if_splits)
  from step_positions_Some [OF f] step_positions_Some [OF t] c show ?thesis
    by (cases fc; cases tc) (auto simp: joins_def)
qed

lemma timeline_anchors_joins:
  "x \<in> set (timeline_anchors l1 l2 cs) \<Longrightarrow> joins l1 l2 x \<and> ac_connection x \<in> set cs"
  by (auto simp: timeline_anchors_def map_filter_def dest: anchor_of_joins)

interpretation timeline: sorted_anchors "timeline_anchors l1 l2 cs" weight "length l2" for l1 l2 cs weight
proof
  show "sorted (map (\<lambda>x. (ac_a x, ac_b x)) (timeline_anchors l1 l2 cs))"
    by (simp add: timeline_anchors_def)
  show "x \<in> set (timeline_anchors l1 l2 cs) \<Longrightarrow> ac_b x < length l2" for x
    by (auto simp: joins_def dest: timeline_anchors_joins)
qed

section \<open>Rows\<close>

definition lefts :: "timeline_row list \<Rightarrow> timeline_step list" where
  "lefts rows = List.map_filter rw_l1 rows"

definition rights :: "timeline_row list \<Rightarrow> timeline_step list" where
  "rights rows = List.map_filter rw_l2 rows"

text \<open>A row holds one step, or two steps that its connection joins.\<close>

definition row_linked :: "timeline_row \<Rightarrow> bool" where
  "row_linked r \<longleftrightarrow> (case (rw_l1 r, rw_l2 r) of
      (Some l, Some m) \<Rightarrow> (case rw_connection r of None \<Rightarrow> False
        | Some c \<Rightarrow> \<not> tc_ambiguous c \<and> {tc_from c, tc_to c} = {ts_id l, ts_id m})
    | (None, None) \<Rightarrow> False
    | _ \<Rightarrow> rw_connection r = None)"

definition rows_ok :: "timeline_step list \<Rightarrow> timeline_step list \<Rightarrow> row_state \<Rightarrow> bool" where
  "rows_ok l1 l2 = (\<lambda>(a, b, rows). a \<le> length l1 \<and> b \<le> length l2 \<and>
     lefts rows = take a l1 \<and> rights rows = take b l2 \<and> (\<forall>r \<in> set rows. row_linked r))"

lemma lefts_simps [simp]:
  "lefts [] = []" "lefts (xs @ ys) = lefts xs @ lefts ys"
  "lefts [mk_row l r c] = (case l of None \<Rightarrow> [] | Some x \<Rightarrow> [x])"
  by (simp_all add: lefts_def map_filter_def mk_row_def Let_def split: option.split)

lemma rights_simps [simp]:
  "rights [] = []" "rights (xs @ ys) = rights xs @ rights ys"
  "rights [mk_row l r c] = (case r of None \<Rightarrow> [] | Some x \<Rightarrow> [x])"
  by (simp_all add: rights_def map_filter_def mk_row_def Let_def split: option.split)

lemma mk_row_simps [simp]:
  "rw_l1 (mk_row l r c) = l" "rw_l2 (mk_row l r c) = r" "rw_connection (mk_row l r c) = c"
  by (simp_all add: mk_row_def Let_def)

lemma rows_ok_left:
  "rows_ok l1 l2 (a, b, rows) \<Longrightarrow> a < length l1 \<Longrightarrow> rows_ok l1 l2 (Suc a, b, rows @ [mk_row (js_nth l1 a) None None])"
  by (auto simp: rows_ok_def js_nth_def row_linked_def take_Suc_conv_app_nth)

lemma rows_ok_right:
  "rows_ok l1 l2 (a, b, rows) \<Longrightarrow> b < length l2 \<Longrightarrow> rows_ok l1 l2 (a, Suc b, rows @ [mk_row None (js_nth l2 b) None])"
  by (auto simp: rows_ok_def js_nth_def row_linked_def take_Suc_conv_app_nth)

lemma unpaired_ok:
  assumes "rows_ok l1 l2 (a, b, rows)" and "endA \<le> length l1" and "endB \<le> length l2"
  shows "\<exists>rows'. unpaired l1 l2 endA endB (a, b, rows) = (max a endA, max b endB, rows') \<and>
    rows_ok l1 l2 (max a endA, max b endB, rows')"
  using assms(1)
proof (induction "(endA - a) + (endB - b)" arbitrary: a b rows rule: less_induct)
  case less
  define a' where "a' = (if a < endA then a + 1 else a)"
  define rows1 where "rows1 = (if a < endA then rows @ [mk_row (js_nth l1 a) None None] else rows)"
  define b' where "b' = (if b < endB then b + 1 else b)"
  define rows2 where "rows2 = (if b < endB then rows1 @ [mk_row None (js_nth l2 b) None] else rows1)"
  have 1: "rows_ok l1 l2 (a', b, rows1)"
    using less.prems assms(2) rows_ok_left [of l1 l2 a b rows] by (simp add: a'_def rows1_def)
  have 2: "rows_ok l1 l2 (a', b', rows2)"
    using 1 assms(3) rows_ok_right [of l1 l2 a' b rows1] by (simp add: b'_def rows2_def)
  show ?case
  proof (cases "a < endA \<or> b < endB")
    case False
    then have "max a endA = a" "max b endB = b" by auto
    with False less.prems show ?thesis by (simp add: unpaired.simps [of l1 l2 endA endB a])
  next
    case True
    have un: "unpaired l1 l2 endA endB (a, b, rows) = unpaired l1 l2 endA endB (a', b', rows2)"
      using True by (subst unpaired.simps) (auto simp: a'_def rows1_def b'_def rows2_def)
    have "(endA - a') + (endB - b') < (endA - a) + (endB - b)" using True by (auto simp: a'_def b'_def)
    from less.hyps [OF this 2] obtain rows' where
      "unpaired l1 l2 endA endB (a', b', rows2) = (max a' endA, max b' endB, rows')"
      "rows_ok l1 l2 (max a' endA, max b' endB, rows')"
      by blast
    moreover have "max a' endA = max a endA" "max b' endB = max b endB" by (auto simp: a'_def b'_def)
    ultimately show ?thesis by (simp add: un)
  qed
qed

lemma anchor_row_ok:
  assumes "rows_ok l1 l2 (a, b, rows)" and "joins l1 l2 x" and "a \<le> ac_a x" and "b \<le> ac_b x"
  shows "\<exists>rows'. anchor_row l1 l2 (a, b, rows) x = (Suc (ac_a x), Suc (ac_b x), rows') \<and>
    rows_ok l1 l2 (Suc (ac_a x), Suc (ac_b x), rows')"
proof -
  have j: "ac_a x < length l1" "ac_b x < length l2" "\<not> tc_ambiguous (ac_connection x)"
    "{tc_from (ac_connection x), tc_to (ac_connection x)} = {ts_id (l1 ! ac_a x), ts_id (l2 ! ac_b x)}"
    using assms(2) by (simp_all add: joins_def)
  obtain rows' where u: "unpaired l1 l2 (ac_a x) (ac_b x) (a, b, rows) = (max a (ac_a x), max b (ac_b x), rows')"
    and ok: "rows_ok l1 l2 (max a (ac_a x), max b (ac_b x), rows')"
    using unpaired_ok [OF assms(1), of "ac_a x" "ac_b x"] j by auto
  have m: "max a (ac_a x) = ac_a x" "max b (ac_b x) = ac_b x" using assms(3,4) by auto
  show ?thesis
    using u ok j unfolding m
    by (auto simp: anchor_row_def rows_ok_def js_nth_def row_linked_def take_Suc_conv_app_nth)
qed

lemma foldl_anchor_row_ok:
  assumes "rows_ok l1 l2 (a, b, rows)" and "\<forall>x \<in> set xs. joins l1 l2 x \<and> a \<le> ac_a x \<and> b \<le> ac_b x"
    and "sorted_wrt (\<lambda>x y. ac_a x < ac_a y \<and> ac_b x < ac_b y) xs"
  shows "\<exists>st. foldl (anchor_row l1 l2) (a, b, rows) xs = st \<and> rows_ok l1 l2 st"
  using assms
proof (induction xs arbitrary: a b rows)
  case (Cons x xs)
  then obtain rows' where x: "anchor_row l1 l2 (a, b, rows) x = (Suc (ac_a x), Suc (ac_b x), rows')"
    and ok: "rows_ok l1 l2 (Suc (ac_a x), Suc (ac_b x), rows')"
    using anchor_row_ok [of l1 l2 a b rows x] by auto
  from Cons.IH [OF ok] Cons.prems(2,3) x show ?case by (simp add: Suc_le_eq)
qed simp

lemma build_rows_ok:
  assumes "\<forall>x \<in> set xs. joins l1 l2 x" and "sorted_wrt (\<lambda>x y. ac_a x < ac_a y \<and> ac_b x < ac_b y) xs"
  shows "lefts (build_rows l1 l2 xs) = l1 \<and> rights (build_rows l1 l2 xs) = l2 \<and>
    (\<forall>r \<in> set (build_rows l1 l2 xs). row_linked r)"
proof -
  obtain a b rows where st: "foldl (anchor_row l1 l2) (0, 0, []) xs = (a, b, rows)"
    and ok: "rows_ok l1 l2 (a, b, rows)"
    using foldl_anchor_row_ok [of l1 l2 0 0 "[]" xs] assms by (cases "foldl (anchor_row l1 l2) (0, 0, []) xs") (auto simp: rows_ok_def)
  have "a \<le> length l1" "b \<le> length l2" using ok by (simp_all add: rows_ok_def)
  with unpaired_ok [OF ok le_refl le_refl] show ?thesis
    by (auto simp: build_rows_def st rows_ok_def max_def)
qed

lemma sorted_wrt_nths:
  "timeline.noncrossing l1 l2 cs js \<Longrightarrow>
   sorted_wrt (\<lambda>x y. ac_a x < ac_a y \<and> ac_b x < ac_b y) (map (\<lambda>i. timeline_anchors l1 l2 cs ! i) js)"
proof -
  assume nc: "timeline.noncrossing l1 l2 cs js"
  have "timeline.above l1 l2 cs = (\<lambda>i j. ac_a (timeline_anchors l1 l2 cs ! i) < ac_a (timeline_anchors l1 l2 cs ! j) \<and>
      ac_b (timeline_anchors l1 l2 cs ! i) < ac_b (timeline_anchors l1 l2 cs ! j))"
    by (intro ext) (simp add: timeline.above_def)
  with nc show ?thesis by (simp add: timeline.noncrossing_def sorted_wrt_map)
qed

end
