(* ===== verification/Timeline_Properties.thy ===== *)
theory Timeline_Properties
  imports Timeline_Align_Correct
begin

text \<open>
  The properties of the row alignment: it always returns, keeps every step of both chains in
  order, pairs only linked steps, and its pairs are a heaviest noncrossing choice; and the
  prefix tree answers prefix queries.
\<close>

lemma connections_append [simp]:
  "List.map_filter rw_connection (xs @ ys) = List.map_filter rw_connection xs @ List.map_filter rw_connection ys"
  "List.map_filter rw_connection [mk_row l r c] = (case c of None \<Rightarrow> [] | Some x \<Rightarrow> [x])"
  by (simp_all add: map_filter_def split: option.split)

lemma unpaired_connections:
  "List.map_filter rw_connection (snd (snd (unpaired l1 l2 endA endB st))) = List.map_filter rw_connection (snd (snd st))"
proof (induction l1 l2 endA endB st rule: unpaired.induct)
  case (1 l1 l2 endA endB a b rows)
  then show ?case
    by (subst unpaired.simps) (auto split: if_splits)
qed

lemma build_rows_connections:
  "List.map_filter rw_connection (build_rows l1 l2 xs) = map ac_connection xs"
proof -
  have row: "List.map_filter rw_connection (snd (snd (anchor_row l1 l2 st x))) =
      List.map_filter rw_connection (snd (snd st)) @ [ac_connection x]" for st x
    using unpaired_connections [of l1 l2 "ac_a x" "ac_b x" st]
    by (cases "unpaired l1 l2 (ac_a x) (ac_b x) st") (simp add: anchor_row_def)
  have "List.map_filter rw_connection (snd (snd (foldl (anchor_row l1 l2) st xs))) =
      List.map_filter rw_connection (snd (snd st)) @ map ac_connection xs" for st
    by (induction xs arbitrary: st) (simp_all add: row)
  then show ?thesis by (simp add: build_rows_def unpaired_connections)
qed

definition increasing :: "anchor list \<Rightarrow> bool" where
  "increasing xs \<longleftrightarrow> sorted_wrt (\<lambda>x y. ac_a x < ac_a y \<and> ac_b x < ac_b y) xs"

definition align_anchors :: "execution_timeline \<Rightarrow> anchor list" where
  "align_anchors tm = timeline_anchors (chain_steps (tl_l1 tm)) (chain_steps (tl_l2 tm)) (tl_connections tm)"

definition align_weight :: "execution_timeline \<Rightarrow> anchor \<Rightarrow> nat" where
  "align_weight tm = anchor_weight (chain_steps (tl_l1 tm)) (chain_steps (tl_l2 tm)) (length (align_anchors tm) + 1)"

lemma index_list:
  "set ks \<subseteq> set xs \<Longrightarrow> \<exists>js. ks = map (\<lambda>i. xs ! i) js \<and> set js \<subseteq> {..<length xs}"
proof (induction ks)
  case (Cons k ks)
  then obtain js where "ks = map (\<lambda>i. xs ! i) js" "set js \<subseteq> {..<length xs}" by auto
  moreover obtain i where "i < length xs" "xs ! i = k" using Cons.prems by (auto simp: in_set_conv_nth)
  ultimately show ?case by (intro exI [of _ "i # js"]) simp
qed simp

lemma noncrossing_increasing:
  assumes "set js \<subseteq> {..<length (align_anchors tm)}"
  shows "timeline.noncrossing (chain_steps (tl_l1 tm)) (chain_steps (tl_l2 tm)) (tl_connections tm) js \<longleftrightarrow>
    increasing (map (\<lambda>i. align_anchors tm ! i) js)"
proof -
  let ?A = "timeline_anchors (chain_steps (tl_l1 tm)) (chain_steps (tl_l2 tm)) (tl_connections tm)"
  have "timeline.above (chain_steps (tl_l1 tm)) (chain_steps (tl_l2 tm)) (tl_connections tm) =
      (\<lambda>i j. ac_a (?A ! i) < ac_a (?A ! j) \<and> ac_b (?A ! i) < ac_b (?A ! j))"
    by (intro ext) (simp add: timeline.above_def)
  with assms show ?thesis
    by (simp add: timeline.noncrossing_def increasing_def sorted_wrt_map align_anchors_def)
qed

lemma align_chosen:
  "\<exists>chosen. alignTimelineRows tm = Some (build_rows (chain_steps (tl_l1 tm)) (chain_steps (tl_l2 tm)) chosen) \<and>
     set chosen \<subseteq> set (align_anchors tm) \<and> increasing chosen \<and>
     (\<forall>ks. set ks \<subseteq> set (align_anchors tm) \<longrightarrow> increasing ks \<longrightarrow>
        sum_list (map (align_weight tm) ks) \<le> sum_list (map (align_weight tm) chosen))"
proof -
  let ?l1 = "chain_steps (tl_l1 tm)" and ?l2 = "chain_steps (tl_l2 tm)" and ?cs = "tl_connections tm"
  obtain js where js: "choose_anchors (align_anchors tm) (align_weight tm) (length ?l2) = Some js"
    and nc: "timeline.noncrossing ?l1 ?l2 ?cs js"
    and max: "\<And>ks. timeline.noncrossing ?l1 ?l2 ?cs ks \<Longrightarrow>
      timeline.total ?l1 ?l2 ?cs (align_weight tm) ks \<le> timeline.total ?l1 ?l2 ?cs (align_weight tm) js"
    using timeline.choose_anchors_optimal [of ?l1 ?l2 ?cs "align_weight tm"] unfolding align_anchors_def by blast
  let ?chosen = "map (\<lambda>i. align_anchors tm ! i) js"
  have bound: "set js \<subseteq> {..<length (align_anchors tm)}"
    using nc by (simp add: timeline.noncrossing_def align_anchors_def)
  have total: "timeline.total ?l1 ?l2 ?cs (align_weight tm) is = sum_list (map (align_weight tm) (map (\<lambda>i. align_anchors tm ! i) is))" for "is"
    by (simp add: timeline.total_def align_anchors_def comp_def)
  have "alignTimelineRows tm = Some (build_rows ?l1 ?l2 ?chosen)"
    using js by (simp add: alignTimelineRows_def Let_def align_anchors_def align_weight_def)
  moreover have "set ?chosen \<subseteq> set (align_anchors tm)" using bound by auto
  moreover have "increasing ?chosen" using nc noncrossing_increasing [OF bound] by simp
  moreover have "sum_list (map (align_weight tm) ks) \<le> sum_list (map (align_weight tm) ?chosen)"
    if ks: "set ks \<subseteq> set (align_anchors tm)" "increasing ks" for ks
  proof -
    obtain ls where ls: "ks = map (\<lambda>i. align_anchors tm ! i) ls" "set ls \<subseteq> {..<length (align_anchors tm)}"
      using index_list [OF ks(1)] by blast
    then have "timeline.noncrossing ?l1 ?l2 ?cs ls" using ks(2) noncrossing_increasing [OF ls(2)] by simp
    from max [OF this] show ?thesis unfolding total ls(1) .
  qed
  ultimately show ?thesis by blast
qed

lemma align_rows_ok:
  assumes "alignTimelineRows tm = Some rows"
  shows "lefts rows = chain_steps (tl_l1 tm) \<and> rights rows = chain_steps (tl_l2 tm) \<and> (\<forall>r \<in> set rows. row_linked r)"
proof -
  obtain chosen where c: "rows = build_rows (chain_steps (tl_l1 tm)) (chain_steps (tl_l2 tm)) chosen"
    "set chosen \<subseteq> set (align_anchors tm)" "increasing chosen"
    using align_chosen [of tm] assms by auto
  have "\<forall>x \<in> set chosen. joins (chain_steps (tl_l1 tm)) (chain_steps (tl_l2 tm)) x"
    using c(2) timeline_anchors_joins by (auto simp: align_anchors_def)
  from build_rows_ok [OF this] c show ?thesis by (simp add: increasing_def)
qed

section \<open>Properties\<close>

text \<open>Aligning a timeline always produces rows, and reading the L1 column and the L2 column
  of the rows gives every step of each chain, once and in its recorded order.\<close>
theorem align_keeps_chains:
  "\<exists>rows. alignTimelineRows tm = Some rows \<and> List.map_filter rw_l1 rows = chain_steps (tl_l1 tm) \<and>
     List.map_filter rw_l2 rows = chain_steps (tl_l2 tm)"
  using align_chosen [of tm] align_rows_ok [of tm] by (auto simp: lefts_def rights_def)

definition sample_tx :: "chain \<Rightarrow> string \<Rightarrow> debug_transaction" where
  "sample_tx c h = \<lparr>dt_chain = c, dt_tx = \<lparr>rt_hash = h, rt_from = ''0xf'', rt_to = None, rt_input = ''0x'', rt_value = ''0x0'',
     rt_blockNumber = Some 1, rt_blockHash = None, rt_transactionIndex = Some 0\<rparr>, dt_receipt = None, dt_events = [],
     dt_payload = None, dt_warnings = []\<rparr>"

definition sample_step :: "chain \<Rightarrow> string \<Rightarrow> string \<Rightarrow> timeline_step" where
  "sample_step c i name = \<lparr>ts_id = i, ts_tx = sample_tx c ''0x1'',
     ts_event = \<lparr>de_name = name, de_args = [], de_raw = \<lparr>rl_address = [], rl_topics = [], rl_data = [], rl_logIndex = 0,
       rl_transactionHash = [], rl_blockHash = [], rl_blockNumber = 1\<rparr>, de_protocol = True\<rparr>,
     ts_eventIndex = 0, ts_order = 1, ts_hash = None, ts_title = [], ts_description = [], ts_kind = K_Event\<rparr>"

definition sample_timeline :: execution_timeline where
  "sample_timeline =
     \<lparr>tl_l1 = [\<lparr>tt_tx = sample_tx L1 ''0x1'', tt_timestamp = None,
                tt_steps = [sample_step L1 ''a0'' ''CrossChainCallExecuted'', sample_step L1 ''a1'' ''BatchPosted'']\<rparr>],
      tl_l2 = [\<lparr>tt_tx = sample_tx L2 ''0x1'', tt_timestamp = None,
                tt_steps = [sample_step L2 ''b0'' ''ExecutionTableLoaded'', sample_step L2 ''b1'' ''IncomingCrossChainCallExecuted'']\<rparr>],
      tl_connections = [\<lparr>tc_from = ''a0'', tc_to = ''b1'', tc_basis = Matching_call_hash, tc_hash = None, tc_ambiguous = False\<rparr>],
      tl_steps = []\<rparr>"

text \<open>C20. The connections shown by the rows are a heaviest noncrossing choice: they come from
  anchors that increase on both chains, and no other increasing choice of anchors has a larger
  total weight (exact hashes outrank replay candidates, incoming events outrank entries).\<close>
theorem align_optimal:
  "\<exists>rows chosen. alignTimelineRows tm = Some rows \<and>
     List.map_filter rw_connection rows = map ac_connection chosen \<and>
     set chosen \<subseteq> set (align_anchors tm) \<and> increasing chosen \<and>
     (\<forall>ks. set ks \<subseteq> set (align_anchors tm) \<longrightarrow> increasing ks \<longrightarrow>
        sum_list (map (align_weight tm) ks) \<le> sum_list (map (align_weight tm) chosen))"
  using align_chosen [of tm] build_rows_connections by metis

theorem align_optimal_witness:
  "\<exists>rows chosen. alignTimelineRows sample_timeline = Some rows \<and>
     List.map_filter rw_connection rows = map ac_connection chosen \<and>
     sum_list (map (align_weight sample_timeline) (align_anchors sample_timeline)) \<le> sum_list (map (align_weight sample_timeline) chosen)"
proof -
  have one: "length (align_anchors sample_timeline) = 1" by code_simp
  then obtain x where "align_anchors sample_timeline = [x]" by (metis One_nat_def length_0_conv length_Suc_conv)
  then have "increasing (align_anchors sample_timeline)" by (simp add: increasing_def)
  with align_optimal [of sample_timeline] show ?thesis by blast
qed

text \<open>A row pairs two steps only along an unambiguous connection between these two steps;
  every other row holds exactly one step and no connection.\<close>
theorem align_rows_linked:
  assumes "alignTimelineRows tm = Some rows" and "r \<in> set rows"
  shows "case (rw_l1 r, rw_l2 r) of
      (Some l, Some m) \<Rightarrow> \<exists>c. rw_connection r = Some c \<and> \<not> tc_ambiguous c \<and> {tc_from c, tc_to c} = {ts_id l, ts_id m}
    | (None, None) \<Rightarrow> False
    | _ \<Rightarrow> rw_connection r = None"
proof -
  have "row_linked r" using align_rows_ok [OF assms(1)] assms(2) by blast
  then show ?thesis
    by (cases "rw_l1 r"; cases "rw_l2 r"; cases "rw_connection r") (simp_all add: row_linked_def)
qed

theorem align_rows_linked_witness:
  "\<exists>rows r c. alignTimelineRows sample_timeline = Some rows \<and> r \<in> set rows \<and> rw_connection r = Some c
     \<and> {tc_from c, tc_to c} = {''a0'', ''b1''}"
proof -
  have rows: "map (\<lambda>r. map_option ts_id (rw_l1 r)) (the (alignTimelineRows sample_timeline)) = [None, Some ''a0'', Some ''a1'']"
    "map (\<lambda>r. map_option ts_id (rw_l2 r)) (the (alignTimelineRows sample_timeline)) = [Some ''b0'', Some ''b1'', None]"
    by code_simp+
  obtain rows where al: "alignTimelineRows sample_timeline = Some rows" using align_keeps_chains by blast
  with rows have len: "length rows = 3" "map_option ts_id (rw_l1 (rows ! 1)) = Some ''a0''" "map_option ts_id (rw_l2 (rows ! 1)) = Some ''b1''"
    by (auto simp: map_eq_Cons_conv)
  have mem: "rows ! 1 \<in> set rows" using len(1) by simp
  obtain l m where "rw_l1 (rows ! 1) = Some l" "ts_id l = ''a0''" "rw_l2 (rows ! 1) = Some m" "ts_id m = ''b1''"
    using len(2,3) by auto
  with align_rows_linked [OF al mem] al mem show ?thesis by auto
qed

text \<open>C23. The prefix tree answers prefix queries: after any updates, a query for a prefix of
  positions gives a best-scored candidate placed below that position, or none when there is
  none.\<close>
theorem prefix_tree_query:
  assumes "\<forall>(p, c) \<in> set xs. p < m" and "n \<le> m"
  shows "best_of scores (\<lambda>k. \<exists>p < n. (p, k) \<in> set xs)
    (query scores (foldl (\<lambda>t (p, c). update scores p c t) (replicate (Suc m) None) xs) n)"
  using fenwick.rep_get [OF fenwick.rep_put_all [OF fenwick.rep_empty assms(1)] assms(2), of scores] by simp

theorem prefix_tree_query_witness:
  "query [5, 9, 7] (foldl (\<lambda>t (p, c). update [5, 9, 7] p c t) (replicate 5 None) [(0, 0), (2, 1), (1, 2)]) 2 = Some 2"
proof -
  have "best_of [5, 9, 7] (\<lambda>k. \<exists>p < 2. (p, k) \<in> set [(0 :: nat, 0), (2, 1), (1, 2)])
      (query [5, 9, 7] (foldl (\<lambda>t (p, c). update [5, 9, 7] p c t) (replicate (Suc 4) None) [(0, 0), (2, 1), (1, 2)]) 2)"
    by (rule prefix_tree_query) simp_all
  then show ?thesis
    by (simp add: best_of_def numeral_eq_Suc split: option.splits) auto
qed

end
