(* ===== verification/Gas_Estimation.thy ===== *)
theory Gas_Estimation
  imports Js_Value "HOL-Library.Signed_Division"
begin

text \<open>
  \<open>src/src/lib/gasEstimation.ts\<close>. The node behind \<open>rpcCall\<close> is not in the repository: it is the
  parameter \<open>node\<close>, a function from its own state and a request to an error or a JavaScript
  value and the next state, so every statement holds for any sequence of answers. An
  \<open>async\<close> function is state passing: it returns its result (or what it throws) with the state
  of the node after its requests.
  \<open>decodeErrorResult\<close> of the ABI library is the parameter \<open>dec\<close> (\<^const>\<open>None\<close> when it throws).
  An abort signal is the pair of predicates \<open>before\<close> and \<open>waiting\<close>: is it aborted when
  attempt \<open>i\<close> starts, and during the pause after attempt \<open>i\<close>.
\<close>

section \<open>Requests and failures\<close>

record rpc_error =
  re_message :: string
  re_isRpcError :: bool
  re_code :: "int option"
  re_data :: js

type_synonym rpc_request = "string \<times> js list"
type_synonym 'w node = "'w \<Rightarrow> rpc_request \<Rightarrow> (rpc_error + js) \<times> 'w"

datatype gas_error_type = E_revert | E_rpc_error | E_unsupported | E_unavailable

datatype failure = GasEstimateError gas_error_type string "string option"
  | RpcFailure rpc_error
  | JsFailure string
  | Aborted

datatype gas_method = M_direct | M_legacy_params | M_unpriced | M_calldata_computed | M_eth_call_simulation

record gas_estimate =
  ge_gasLimit :: int
  ge_rawEstimate :: int
  ge_method :: gas_method

definition applyBuffer :: "int \<Rightarrow> int" where
  "applyBuffer gas = (gas * 130) sdiv 100"

definition buffered :: "int \<Rightarrow> gas_method \<Rightarrow> gas_estimate" where
  "buffered est m = \<lparr>ge_gasLimit = applyBuffer est, ge_rawEstimate = est, ge_method = m\<rparr>"

section \<open>Classifying an error message\<close>

definition js_newline :: "char \<Rightarrow> bool" where
  "js_newline c \<longleftrightarrow> c = CHR 0x0A \<or> c = CHR 0x0D"

definition js_space :: "char \<Rightarrow> bool" where
  "js_space c \<longleftrightarrow> c \<in> {CHR '' '', CHR 0x09, CHR 0x0A, CHR 0x0B, CHR 0x0C, CHR 0x0D}"

definition js_trim :: "string \<Rightarrow> string" where
  "js_trim s = rev (dropWhile js_space (rev (dropWhile js_space s)))"

text \<open>The text after the first occurrence of \<open>p\<close>, if any.\<close>

fun js_after :: "string \<Rightarrow> string \<Rightarrow> string option" where
  "js_after p s = (if js_starts_with s p then Some (drop (length p) s)
     else case s of [] \<Rightarrow> None | c # cs \<Rightarrow> js_after p cs)"

definition js_includes :: "string \<Rightarrow> string \<Rightarrow> bool" where
  "js_includes s p \<longleftrightarrow> js_after p s \<noteq> None"

definition revertPatterns :: "string list" where
  "revertPatterns = [''execution reverted'', ''revert'', ''out of gas'', ''invalid opcode'',
     ''stack underflow'', ''vm exception'', ''evm error'', ''transaction would fail'']"

text \<open>The position after a case-insensitive match, in the original text.\<close>

definition after_ci :: "string \<Rightarrow> string \<Rightarrow> string option" where
  "after_ci p s = (case js_after p (js_lower s) of None \<Rightarrow> None
     | Some rest \<Rightarrow> Some (drop (length s - length rest) s))"

definition drop_prefix_ci :: "string \<Rightarrow> string \<Rightarrow> string" where
  "drop_prefix_ci p s = (if js_starts_with (js_lower s) p then drop (length p) s else s)"

definition rest_of_line :: "string \<Rightarrow> string" where
  "rest_of_line s = takeWhile (\<lambda>c. \<not> js_newline c) (dropWhile js_space s)"

text \<open>\<open>/revert(?:ed)?:?\s*(.*)/i\<close>, or else \<open>/reason:\s*(.*)/i\<close>; the third pattern of the code
  only matches texts that the first one matches.\<close>

definition matched_reason :: "string \<Rightarrow> string" where
  "matched_reason msg =
     (case after_ci ''revert'' msg of
        Some rest \<Rightarrow> rest_of_line (drop_prefix_ci '':'' (drop_prefix_ci ''ed'' rest))
      | None \<Rightarrow> (case after_ci ''reason:'' msg of Some rest \<Rightarrow> rest_of_line rest | None \<Rightarrow> []))"

definition strip_trailing :: "string \<Rightarrow> string" where
  "strip_trailing s = rev (dropWhile (\<lambda>c. c \<in> {CHR ''.'', CHR 0x22, CHR 0x27}) (rev s))"

definition failure_message :: "failure \<Rightarrow> string" where
  "failure_message e = (case e of GasEstimateError t m r \<Rightarrow> m | RpcFailure r \<Rightarrow> re_message r
     | JsFailure m \<Rightarrow> m | Aborted \<Rightarrow> ''This operation was aborted'')"

definition classifyError :: "failure \<Rightarrow> bool \<times> string" where
  "classifyError err =
     (let msg = failure_message err;
          isRevert = list_ex (js_includes (js_lower msg)) revertPatterns;
          m = matched_reason msg
      in (isRevert, if m \<noteq> [] then js_trim (strip_trailing (js_trim m)) else msg))"

section \<open>Calldata\<close>

fun byte_gas :: "string \<Rightarrow> int" where
  "byte_gas (a # b # rest) = (if [a, b] = ''00'' then 4 else 16) + byte_gas rest"
| "byte_gas _ = 0"

definition computeCalldataGas :: "string \<Rightarrow> int" where
  "computeCalldataGas hexData =
     (let clean = (if js_starts_with hexData ''0x'' then drop 2 hexData else hexData)
      in if length clean = 0 \<or> length clean mod 2 \<noteq> 0 then 0 else byte_gas clean)"

section \<open>Hexadecimal output\<close>

definition gasToHex :: "int \<Rightarrow> string" where
  "gasToHex gas = hex_of gas"

section \<open>Single requests\<close>

definition rpc_bind ::
  "('e + 'a) \<times> 'w \<Rightarrow> ('a \<Rightarrow> 'w \<Rightarrow> ('e + 'b) \<times> 'w) \<Rightarrow> ('e + 'b) \<times> 'w" where
  "rpc_bind r f = (case r of (Inl e, w) \<Rightarrow> (Inl e, w) | (Inr x, w) \<Rightarrow> f x w)"

definition rpcCall :: "'w node \<Rightarrow> string \<Rightarrow> js list \<Rightarrow> 'w \<Rightarrow> (failure + js) \<times> 'w" where
  "rpcCall node method params w =
     (case node w (method, params) of
        (Inl e, w') \<Rightarrow> (Inl (RpcFailure e), w') | (Inr v, w') \<Rightarrow> (Inr v, w'))"

text \<open>\<open>BigInt\<close> of an answer, with the message of the exception it throws.\<close>

definition to_BigInt :: "js \<Rightarrow> failure + int" where
  "to_BigInt v = (case js_BigInt v of Inr n \<Rightarrow> Inr n
     | Inl e \<Rightarrow> Inl (JsFailure (''Cannot convert '' @ js_string v @ '' to a BigInt'')))"

type_synonym tx_params = "(string, js) jmap"

definition tryEstimateGas :: "'w node \<Rightarrow> tx_params \<Rightarrow> 'w \<Rightarrow> (failure + int) \<times> 'w" where
  "tryEstimateGas node params w =
     rpc_bind (rpcCall node ''eth_estimateGas'' [JObj params] w) (\<lambda>v w'. (to_BigInt v, w'))"

definition tryEthCallSimulation :: "'w node \<Rightarrow> tx_params \<Rightarrow> 'w \<Rightarrow> (failure + int) \<times> 'w" where
  "tryEthCallSimulation node params w =
     rpc_bind (rpcCall node ''eth_call'' [JObj (jmap_set ''gas'' (JStr ''0x1000000'') params), JStr ''latest''] w)
       (\<lambda>v w'. (Inr 200000, w'))"

text \<open>\<open>fetchGasPricing\<close>: the fee fields to add to an estimate.\<close>

definition legacy_pricing :: "'w node \<Rightarrow> 'w \<Rightarrow> tx_params \<times> 'w" where
  "legacy_pricing node w =
     (case rpcCall node ''eth_gasPrice'' [] w of
        (Inr price, w') \<Rightarrow> ([(''gasPrice'', price)], w') | (Inl e, w') \<Rightarrow> ([], w'))"

definition fetchGasPricing :: "'w node \<Rightarrow> 'w \<Rightarrow> tx_params \<times> 'w" where
  "fetchGasPricing node w =
     (case rpcCall node ''eth_getBlockByNumber'' [JStr ''latest'', JBool False] w of
        (Inl e, w1) \<Rightarrow> legacy_pricing node w1
      | (Inr block, w1) \<Rightarrow>
          if \<not> js_truthy (js_field block ''baseFeePerGas'') then legacy_pricing node w1
          else (case to_BigInt (js_field block ''baseFeePerGas'') of
              Inl e \<Rightarrow> legacy_pricing node w1
            | Inr baseFee \<Rightarrow>
                (let (r, w2) = rpc_bind (rpcCall node ''eth_maxPriorityFeePerGas'' [] w1) (\<lambda>v w'. (to_BigInt v, w'));
                     tip = (case r of Inr t \<Rightarrow> t | Inl e \<Rightarrow> 1000000000);
                     maxFee = baseFee * 2 + tip
                 in ([(''maxFeePerGas'', JStr (gasToHex maxFee)),
                      (''maxPriorityFeePerGas'', JStr (gasToHex tip))], w2))))"

definition base_params :: "string \<Rightarrow> string \<Rightarrow> string option \<Rightarrow> string option \<Rightarrow> tx_params" where
  "base_params to data from val =
     [(''to'', JStr to), (''data'', JStr data)]
     @ (case from of None \<Rightarrow> [] | Some f \<Rightarrow> if f = [] then [] else [(''from'', JStr f)])
     @ (case val of None \<Rightarrow> [] | Some v \<Rightarrow> if v = [] then [] else [(''value'', JStr v)])"

text \<open>The second strategy of both estimators: the legacy price, when the node gives one.\<close>

definition legacy_params :: "'w node \<Rightarrow> tx_params \<Rightarrow> 'w \<Rightarrow> tx_params \<times> 'w" where
  "legacy_params node base w =
     (case rpcCall node ''eth_gasPrice'' [] w of
        (Inr price, w') \<Rightarrow> (if js_truthy price then jmap_set ''gasPrice'' price base else base, w')
      | (Inl e, w') \<Rightarrow> (base, w'))"

section \<open>Standard transactions\<close>

definition revert_error :: "string \<Rightarrow> failure" where
  "revert_error reason = GasEstimateError E_revert reason (Some reason)"

definition js_or_text :: "string \<Rightarrow> string \<Rightarrow> string" where
  "js_or_text a b = (if a = [] then b else a)"

definition estimate_simulated :: "'w node \<Rightarrow> tx_params \<Rightarrow> 'w \<Rightarrow> (failure + gas_estimate) \<times> 'w" where
  "estimate_simulated node base w =
     (case tryEthCallSimulation node base w of
        (Inr est, w') \<Rightarrow> (Inr (buffered est M_eth_call_simulation), w')
      | (Inl e, w') \<Rightarrow>
          (case classifyError e of (isRevert, reason) \<Rightarrow>
             (Inl (if isRevert then revert_error reason else GasEstimateError E_rpc_error reason None), w')))"

definition estimate_unpriced :: "'w node \<Rightarrow> tx_params \<Rightarrow> 'w \<Rightarrow> (failure + gas_estimate) \<times> 'w" where
  "estimate_unpriced node base w =
     (case tryEstimateGas node base w of
        (Inr est, w') \<Rightarrow> (Inr (buffered est M_unpriced), w')
      | (Inl e, w') \<Rightarrow>
          (case classifyError e of (isRevert, reason) \<Rightarrow>
             if isRevert then (Inl (revert_error reason), w') else estimate_simulated node base w'))"

definition estimate_legacy :: "'w node \<Rightarrow> tx_params \<Rightarrow> 'w \<Rightarrow> (failure + gas_estimate) \<times> 'w" where
  "estimate_legacy node base w =
     (let (params, w1) = legacy_params node base w
      in case tryEstimateGas node params w1 of
        (Inr est, w2) \<Rightarrow> (Inr (buffered est M_legacy_params), w2)
      | (Inl e, w2) \<Rightarrow>
          (case classifyError e of (isRevert, reason) \<Rightarrow>
             if isRevert then (Inl (revert_error reason), w2) else estimate_unpriced node base w2))"

definition estimateGas ::
  "'w node \<Rightarrow> string \<Rightarrow> string \<Rightarrow> string option \<Rightarrow> string option \<Rightarrow> 'w \<Rightarrow> (failure + gas_estimate) \<times> 'w" where
  "estimateGas node to data from val w =
     (let base = base_params to data from val;
          (pricing, w1) = fetchGasPricing node w
      in case tryEstimateGas node (jmap_set_all pricing base) w1 of
        (Inr est, w2) \<Rightarrow> (Inr (buffered est M_direct), w2)
      | (Inl e, w2) \<Rightarrow>
          (case classifyError e of (isRevert, reason) \<Rightarrow>
             if isRevert then
               (case tryEthCallSimulation node base w2 of
                  (Inr _, w3) \<Rightarrow> (Inr (buffered 200000 M_eth_call_simulation), w3)
                | (Inl callErr, w3) \<Rightarrow>
                    (Inl (revert_error (js_or_text (snd (classifyError callErr)) reason)), w3))
             else estimate_legacy node base w2))"

section \<open>Cross-chain proxy calls\<close>

definition estimateCrossChainGas ::
  "'w node \<Rightarrow> string \<Rightarrow> string \<Rightarrow> string option \<Rightarrow> string option \<Rightarrow> 'w \<Rightarrow> (failure + gas_estimate) \<times> 'w" where
  "estimateCrossChainGas node proxyAddress calldata from val w =
     (let base = base_params proxyAddress calldata from val;
          (pricing, w1) = fetchGasPricing node w
      in case tryEstimateGas node (jmap_set_all pricing base) w1 of
        (Inr est, w2) \<Rightarrow> (Inr (buffered est M_direct), w2)
      | (Inl _, w2) \<Rightarrow>
          (let (params, w3) = legacy_params node base w2
           in case tryEstimateGas node params w3 of
             (Inr est, w4) \<Rightarrow> (Inr (buffered est M_legacy_params), w4)
           | (Inl _, w4) \<Rightarrow>
               (case tryEthCallSimulation node base w4 of
                  (Inr est, w5) \<Rightarrow> (Inr (buffered est M_eth_call_simulation), w5)
                | (Inl _, w5) \<Rightarrow>
                    (Inr (buffered (21000 + computeCalldataGas calldata + 263000) M_calldata_computed), w5))))"

section \<open>Bridge estimates through the Composer\<close>

type_synonym error_decoder = "string \<Rightarrow> (string \<times> js list) option"

function missingBridgeExecutionContext :: "error_decoder \<Rightarrow> js \<Rightarrow> nat \<Rightarrow> bool" where
  "missingBridgeExecutionContext dec data depth =
     (case data of
        JStr s \<Rightarrow>
          if depth > 4 then False
          else (case dec s of
              None \<Rightarrow> False
            | Some (errorName, args) \<Rightarrow>
                errorName = ''ExecutionNotInCurrentBlock'' \<or>
                (errorName = ''ProxyCallFailed'' \<and>
                 missingBridgeExecutionContext dec (if args = [] then JUndefined else hd args) (depth + 1)))
      | _ \<Rightarrow> False)"
  by pat_completeness auto
termination by (relation "measure (\<lambda>(_, _, depth). 5 - depth)") auto

declare missingBridgeExecutionContext.simps [simp del]

definition retry_codes :: "string list" where
  "retry_codes = [''settlement_reconciliation_pending'', ''estimation_context_changed'']"

definition unsupported_error :: failure where
  "unsupported_error = GasEstimateError E_unsupported
     ''This Composer cannot estimate cross-chain gas yet. Enter a manual gas limit to continue.'' None"

definition unavailable_error :: failure where
  "unavailable_error = GasEstimateError E_unavailable
     ''Composer is waiting for settlement or a stable chain state. Please retry shortly.'' None"

definition invalid_estimate :: failure where
  "invalid_estimate = GasEstimateError E_rpc_error ''Composer returned an invalid bridge gas estimate'' None"

text \<open>What a failed attempt does: \<^const>\<open>None\<close> retries, \<open>Some e\<close> throws.\<close>

definition bridge_failure :: "error_decoder \<Rightarrow> nat \<Rightarrow> rpc_error \<Rightarrow> failure option" where
  "bridge_failure dec attempt err =
     (if re_isRpcError err \<and> (re_code err = Some (-32601) \<or> missingBridgeExecutionContext dec (re_data err) 0)
      then Some unsupported_error
      else
        (let hint = (if re_isRpcError err \<and> re_code err = Some (-32000) then re_data err else JUndefined)
         in if \<not> (js_field hint ''retryable'' = JBool True \<and> js_string (js_field hint ''code'') \<in> set retry_codes)
            then Some (RpcFailure err)
            else if attempt = 3 then Some unavailable_error else None))"

definition read_estimate :: "js \<Rightarrow> failure + gas_estimate" where
  "read_estimate v =
     (case v of
        JStr s \<Rightarrow>
          if \<not> (is_hex_text s \<and> length s > 2) then Inl invalid_estimate
          else (case string_BigInt s of
              Inl e \<Rightarrow> Inl (JsFailure ''SyntaxError'')
            | Inr gas \<Rightarrow> if gas \<le> 0 \<or> gas > 9007199254740991 then Inl invalid_estimate
                else Inr \<lparr>ge_gasLimit = gas, ge_rawEstimate = gas, ge_method = M_direct\<rparr>)
      | _ \<Rightarrow> Inl invalid_estimate)"

text \<open>The attempts that are left; the result carries the pauses made, in milliseconds.\<close>

fun bridge_attempts ::
  "'w node \<Rightarrow> error_decoder \<Rightarrow> (nat \<Rightarrow> bool) \<Rightarrow> (nat \<Rightarrow> bool) \<Rightarrow> js list \<Rightarrow> nat \<Rightarrow> nat \<Rightarrow> 'w
    \<Rightarrow> ((failure + js) \<times> 'w) \<times> nat list" where
  "bridge_attempts node dec before waiting params attempt 0 w = ((Inr JUndefined, w), [])"
| "bridge_attempts node dec before waiting params attempt (Suc left) w =
     (if before attempt then ((Inl Aborted, w), [])
      else case node w (''eth_estimateGas'', params) of
        (Inr v, w') \<Rightarrow> ((Inr v, w'), [])
      | (Inl err, w') \<Rightarrow>
          (case bridge_failure dec attempt err of
             Some e \<Rightarrow> ((Inl e, w'), [])
           | None \<Rightarrow>
               if waiting attempt then ((Inl Aborted, w'), [])
               else (let (r, waits) = bridge_attempts node dec before waiting params (attempt + 1) left w'
                     in (r, 1000 * 2 ^ attempt # waits))))"

definition estimateBridgeGas ::
  "'w node \<Rightarrow> error_decoder \<Rightarrow> (nat \<Rightarrow> bool) \<Rightarrow> (nat \<Rightarrow> bool) \<Rightarrow> string \<Rightarrow> string \<Rightarrow> string \<Rightarrow> string \<Rightarrow> 'w
    \<Rightarrow> ((failure + gas_estimate) \<times> 'w) \<times> nat list" where
  "estimateBridgeGas node dec before waiting from to data val w =
     (let (r, waits) = bridge_attempts node dec before waiting
            [JObj [(''from'', JStr from), (''to'', JStr to), (''data'', JStr data), (''value'', JStr val)]] 0 4 w
      in (rpc_bind r (\<lambda>v w'. (read_estimate v, w')), waits))"

section \<open>Explicit fee fields\<close>

record fee_fields =
  ff_maxFeePerGas :: int
  ff_maxPriorityFeePerGas :: int

definition fee_quote :: "int \<Rightarrow> int \<Rightarrow> int \<Rightarrow> fee_fields" where
  "fee_quote baseFee gasPrice nodePriority =
     (let priorityFee = (if gasPrice > baseFee \<and> gasPrice - baseFee > nodePriority then gasPrice - baseFee else nodePriority);
          maxFee = 2 * baseFee + priorityFee
      in \<lparr>ff_maxFeePerGas = (if maxFee > gasPrice then maxFee else gasPrice), ff_maxPriorityFeePerGas = priorityFee\<rparr>)"

definition getEip1559Fees :: "'w node \<Rightarrow> 'w \<Rightarrow> (failure + fee_fields) \<times> 'w" where
  "getEip1559Fees node w =
     rpc_bind (rpcCall node ''eth_getBlockByNumber'' [JStr ''latest'', JBool False] w) (\<lambda>block w1.
       if \<not> js_truthy (js_field block ''baseFeePerGas'')
       then (Inl (JsFailure ''Source chain did not provide an EIP-1559 base fee''), w1)
       else rpc_bind (to_BigInt (js_field block ''baseFeePerGas''), w1) (\<lambda>baseFee w1'.
         rpc_bind (rpcCall node ''eth_gasPrice'' [] w1') (\<lambda>price w2.
         rpc_bind (to_BigInt price, w2) (\<lambda>gasPrice w2'.
           let (r, w3) = rpc_bind (rpcCall node ''eth_maxPriorityFeePerGas'' [] w2') (\<lambda>v w'. (to_BigInt v, w'));
               p = (case r of Inr t \<Rightarrow> t | Inl e \<Rightarrow> 0)
           in (Inr (fee_quote baseFee gasPrice p), w3)))))"

definition fee_params :: "fee_fields \<Rightarrow> (string, string) jmap" where
  "fee_params f = [(''type'', ''0x2''), (''maxFeePerGas'', gasToHex (ff_maxFeePerGas f)),
     (''maxPriorityFeePerGas'', gasToHex (ff_maxPriorityFeePerGas f))]"

text \<open>
  \<open>src/src/lib/bridgeMax.ts\<close>: the largest native amount a bridge can send while the gas stays
  paid. The gas estimate is asynchronous; it is the parameter \<open>estimate\<close>, which gets the amount
  and threads its own state. The four attempts of the loop are the argument \<open>left\<close>.
\<close>

definition max_fail :: "string \<Rightarrow> failure" where
  "max_fail msg = JsFailure msg"

definition gas_reserve :: "int \<Rightarrow> int \<Rightarrow> int \<Rightarrow> int" where
  "gas_reserve gas feeCap minimumReserve = (if gas * feeCap > minimumReserve then gas * feeCap else minimumReserve)"

definition chosen_gas :: "int option \<Rightarrow> int \<Rightarrow> int" where
  "chosen_gas gasOverride estimatedGas = (case gasOverride of None \<Rightarrow> estimatedGas | Some g \<Rightarrow> g)"

fun max_attempts ::
  "(int \<Rightarrow> 'w \<Rightarrow> (failure + int) \<times> 'w) \<Rightarrow> int \<Rightarrow> int \<Rightarrow> int option \<Rightarrow> int \<Rightarrow> nat \<Rightarrow> int \<Rightarrow> 'w
    \<Rightarrow> (failure + (int \<times> int)) \<times> 'w" where
  "max_attempts estimate balance feeCap gasOverride minimumReserve 0 amount w =
     (Inl (max_fail ''The gas requirement changed repeatedly. Enter an amount manually.''), w)"
| "max_attempts estimate balance feeCap gasOverride minimumReserve (Suc left) amount w =
     rpc_bind (estimate amount w) (\<lambda>estimatedGas w'.
       let gas = chosen_gas gasOverride estimatedGas in
       if gas \<le> 0 then (Inl (max_fail ''A valid gas limit is required for MAX.''), w')
       else
         (let reserve = gas_reserve gas feeCap minimumReserve;
              available = balance - reserve
          in if available \<le> 0 then (Inl (max_fail ''Not enough native balance to cover gas.''), w')
             else if amount \<le> available then (Inr (amount, reserve), w')
             else max_attempts estimate balance feeCap gasOverride minimumReserve left available w'))"

definition prepareNativeBridgeMax ::
  "(int \<Rightarrow> 'w \<Rightarrow> (failure + int) \<times> 'w) \<Rightarrow> int \<Rightarrow> int \<Rightarrow> int option \<Rightarrow> int \<Rightarrow> 'w
    \<Rightarrow> (failure + (int \<times> int)) \<times> 'w" where
  "prepareNativeBridgeMax estimate balance feeCap gasOverride minimumReserve w =
     (if balance \<le> 0 then (Inl (max_fail ''No balance available to bridge.''), w)
      else if feeCap < 0 \<or> minimumReserve < 0 then (Inl (max_fail ''Invalid gas fee quote.''), w)
      else if balance - minimumReserve \<le> 0 then (Inl (max_fail ''Not enough native balance to cover gas.''), w)
      else max_attempts estimate balance feeCap gasOverride minimumReserve 4 (balance - minimumReserve) w)"

lemma gas_reserve_ge: "minimumReserve \<le> gas_reserve gas feeCap minimumReserve"
  "gas * feeCap \<le> gas_reserve gas feeCap minimumReserve"
  by (simp_all add: gas_reserve_def)

lemma max_attempts_ok:
  assumes "max_attempts estimate balance feeCap ovr m left amount w = (Inr (a, r), w')" and "0 < amount"
  shows "0 < a \<and> a + r \<le> balance \<and>
    (\<exists>g w1 w2. estimate a w1 = (Inr g, w2) \<and> 0 < chosen_gas ovr g \<and> r = gas_reserve (chosen_gas ovr g) feeCap m)"
  using assms
proof (induction left arbitrary: amount w)
  case (Suc left)
  obtain g w1 where est: "estimate amount w = (Inr g, w1)"
    using Suc.prems(1) by (cases "estimate amount w"; cases "fst (estimate amount w)") (auto simp: rpc_bind_def)
  let ?gas = "chosen_gas ovr g" and ?r = "gas_reserve (chosen_gas ovr g) feeCap m"
  have gas: "0 < ?gas" and avail: "0 < balance - ?r"
    using Suc.prems(1) est by (auto simp: rpc_bind_def Let_def split: if_splits)
  show ?case
  proof (cases "amount \<le> balance - ?r")
    case True
    with Suc.prems est gas avail have "a = amount" "r = ?r"
      by (auto simp: rpc_bind_def Let_def)
    with True est gas Suc.prems(2) show ?thesis by auto
  next
    case False
    with Suc.prems(1) est gas avail
    have "max_attempts estimate balance feeCap ovr m left (balance - ?r) w1 = (Inr (a, r), w')"
      by (auto simp: rpc_bind_def Let_def)
    from Suc.IH [OF this avail] show ?thesis .
  qed
qed simp

text \<open>A MAX amount that is returned is positive, leaves at least its reserve in the wallet,
  and the reserve covers both the minimum and the gas, estimated for exactly this amount (or
  set by the user), at the fee cap.\<close>
theorem bridge_max_covers_gas:
  assumes "fst (prepareNativeBridgeMax estimate balance feeCap ovr m w) = Inr (a, r)"
  shows "0 < a \<and> a + r \<le> balance \<and> m \<le> r \<and>
    (\<exists>g w1 w2. estimate a w1 = (Inr g, w2) \<and> chosen_gas ovr g * feeCap \<le> r)"
proof -
  obtain w' where "max_attempts estimate balance feeCap ovr m 4 (balance - m) w = (Inr (a, r), w')"
    and pos: "0 < balance - m"
    using assms
    by (cases "max_attempts estimate balance feeCap ovr m 4 (balance - m) w")
       (auto simp: prepareNativeBridgeMax_def split: if_splits)
  from max_attempts_ok [OF this] gas_reserve_ge show ?thesis by fastforce
qed

theorem bridge_max_covers_gas_witness:
  "fst (prepareNativeBridgeMax (\<lambda>v w. (Inr (if v > 900 then 21 else 20), ())) 1000 5 None 10 ()) = Inr (895, 100)
   \<and> (895 :: int) + 100 \<le> 1000"
proof -
  have run: "fst (prepareNativeBridgeMax (\<lambda>v w. (Inr (if v > 900 then 21 else 20), ())) 1000 5 None 10 ()) = Inr (895, 100)"
    by code_simp
  from bridge_max_covers_gas [OF run] run show ?thesis by simp
qed

text \<open>Against a gas requirement that does not depend on the amount, MAX is exactly the balance
  less the reserve whenever that is positive: no less is offered, and no attempt is lost.\<close>
theorem bridge_max_exact:
  assumes "\<And>v w. estimate v w = (Inr g, w)" and "0 < chosen_gas ovr g" and "0 \<le> feeCap" and "0 \<le> m"
    and "0 < balance - gas_reserve (chosen_gas ovr g) feeCap m"
  shows "fst (prepareNativeBridgeMax estimate balance feeCap ovr m w) =
    Inr (balance - gas_reserve (chosen_gas ovr g) feeCap m, gas_reserve (chosen_gas ovr g) feeCap m)"
proof -
  have ge: "m \<le> gas_reserve (chosen_gas ovr g) feeCap m" by (rule gas_reserve_ge)
  have "0 < balance - m" "0 < balance" using assms(3-5) ge by linarith+
  moreover have "fst (max_attempts estimate balance feeCap ovr m (Suc (Suc n)) (balance - m) w) =
    Inr (balance - gas_reserve (chosen_gas ovr g) feeCap m, gas_reserve (chosen_gas ovr g) feeCap m)" for n
    using assms ge by (auto simp: rpc_bind_def Let_def)
  from this [of 2] have "fst (max_attempts estimate balance feeCap ovr m 4 (balance - m) w) =
    Inr (balance - gas_reserve (chosen_gas ovr g) feeCap m, gas_reserve (chosen_gas ovr g) feeCap m)"
    by (simp add: numeral_eq_Suc)
  ultimately show ?thesis using assms(3,4) by (simp add: prepareNativeBridgeMax_def)
qed

theorem bridge_max_exact_witness:
  "fst (prepareNativeBridgeMax (\<lambda>v w. (Inr 21, w)) 1000 5 None 10 ()) = Inr (895, 105)"
  using bridge_max_exact [of "\<lambda>v w. (Inr 21, w)" 21 None 5 10 1000 "()"]
  by (simp add: chosen_gas_def gas_reserve_def)

end
