(* ===== verification/Gas_Properties.thy ===== *)
theory Gas_Properties
  imports Gas_Estimation
begin

text \<open>
  What the gas estimators guarantee against any node: the buffer, which failures they report,
  the bounds of the computed estimate, the retry policy of the bridge estimate and the fee
  quote.
\<close>

section \<open>The buffer\<close>

lemma applyBuffer_nonneg: "0 \<le> gas \<Longrightarrow> applyBuffer gas = gas * 130 div 100"
  by (cases "gas = 0") (simp_all add: applyBuffer_def signed_divide_int_def)

lemma applyBuffer_bounds: "0 \<le> gas \<Longrightarrow> gas \<le> applyBuffer gas \<and> 100 * applyBuffer gas \<le> 130 * gas \<and> 130 * gas < 100 * applyBuffer gas + 100"
  using div_mult_mod_eq [of "gas * 130" 100] pos_mod_bound [of 100 "gas * 130"] pos_mod_sign [of 100 "gas * 130"]
  unfolding applyBuffer_nonneg by linarith

definition buffered_ok :: "gas_estimate \<Rightarrow> bool" where
  "buffered_ok r \<longleftrightarrow> ge_gasLimit r = applyBuffer (ge_rawEstimate r)"

lemma buffered_ok [simp]: "buffered_ok (buffered est m)"
  by (simp add: buffered_ok_def buffered_def)

definition gas_outcome_ok :: "failure + gas_estimate \<Rightarrow> bool" where
  "gas_outcome_ok r = (case r of Inr e \<Rightarrow> buffered_ok e
     | Inl (GasEstimateError t m reason) \<Rightarrow> t = E_revert \<and> reason = Some m \<or> t = E_rpc_error \<and> reason = None
     | Inl _ \<Rightarrow> False)"

lemma gas_outcome_ok_simps [simp]:
  "gas_outcome_ok (Inr (buffered est m))" "gas_outcome_ok (Inl (revert_error reason))"
  "gas_outcome_ok (Inl (GasEstimateError E_rpc_error reason None))"
  by (simp_all add: gas_outcome_ok_def revert_error_def)

lemma simulated_ok: "gas_outcome_ok (fst (estimate_simulated node base w))"
  by (auto simp: estimate_simulated_def split: prod.split sum.split)

lemma unpriced_ok: "gas_outcome_ok (fst (estimate_unpriced node base w))"
  by (auto simp: estimate_unpriced_def simulated_ok split: prod.split sum.split)

lemma legacy_ok: "gas_outcome_ok (fst (estimate_legacy node base w))"
  by (auto simp: estimate_legacy_def unpriced_ok Let_def split: prod.split sum.split)

text \<open>Whatever the node answers, a standard estimate either returns a limit that is the raw
  estimate times 1.3 rounded down, or throws a \<open>GasEstimateError\<close> of type \<open>revert\<close> with its
  reason or of type \<open>rpc-error\<close>: no other exception escapes.\<close>
theorem estimateGas_outcome:
  "(case fst (estimateGas node to data from val w) of
      Inr e \<Rightarrow> ge_gasLimit e = applyBuffer (ge_rawEstimate e)
    | Inl f \<Rightarrow> \<exists>m. f = GasEstimateError E_revert m (Some m) \<or> f = GasEstimateError E_rpc_error m None)"
proof -
  have "gas_outcome_ok (fst (estimateGas node to data from val w))"
    by (auto simp: estimateGas_def legacy_ok Let_def split: prod.split sum.split)
  then show ?thesis
    by (auto simp: gas_outcome_ok_def buffered_ok_def split: sum.splits failure.splits)
qed

text \<open>The buffered limit is never below the raw estimate and at most 1.3 times it, and it is
  the largest integer with that bound.\<close>
theorem applyBuffer_tight:
  assumes "0 \<le> gas"
  shows "gas \<le> applyBuffer gas \<and> 100 * applyBuffer gas \<le> 130 * gas \<and> 130 * gas < 100 * (applyBuffer gas + 1)"
  using applyBuffer_bounds [OF assms] by simp

theorem applyBuffer_tight_witness: "(21001 :: int) \<le> applyBuffer 21001 \<and> applyBuffer 21001 = 27301"
  using applyBuffer_tight [of 21001] by (simp add: applyBuffer_def signed_divide_int_def)

section \<open>Cross-chain calls\<close>

lemma byte_gas_bounds: "4 * int (length s div 2) \<le> byte_gas s \<and> byte_gas s \<le> 16 * int (length s div 2)"
  by (induction s rule: byte_gas.induct) auto

definition cross_outcome :: "string \<Rightarrow> failure + gas_estimate \<Rightarrow> bool" where
  "cross_outcome calldata r \<longleftrightarrow> (\<exists>e. r = Inr e \<and> ge_gasLimit e = applyBuffer (ge_rawEstimate e) \<and>
     (ge_method e \<noteq> M_calldata_computed \<or>
      284000 \<le> ge_rawEstimate e \<and> ge_rawEstimate e \<le> 284000 + 8 * int (length calldata)))"

lemma cross_outcome_buffered:
  "cross_outcome calldata (Inr (buffered est m)) \<longleftrightarrow>
     m \<noteq> M_calldata_computed \<or> 284000 \<le> est \<and> est \<le> 284000 + 8 * int (length calldata)"
  by (auto simp: cross_outcome_def buffered_def)

text \<open>A cross-chain estimate never fails, whatever the node answers (so it never reports a
  genuine revert): it returns a buffered limit, and when every strategy fails the raw estimate
  lies between the fixed overhead of 284000 gas and 16 gas more per calldata byte.\<close>
theorem estimateCrossChainGas_total:
  "\<exists>e. fst (estimateCrossChainGas node proxy calldata from val w) = Inr e \<and>
     ge_gasLimit e = applyBuffer (ge_rawEstimate e) \<and>
     (ge_method e \<noteq> M_calldata_computed \<or>
      284000 \<le> ge_rawEstimate e \<and> ge_rawEstimate e \<le> 284000 + 8 * int (length calldata))"
proof -
  have len: "0 \<le> computeCalldataGas calldata \<and> computeCalldataGas calldata \<le> 8 * int (length calldata)"
  proof -
    have "16 * int (length s div 2) \<le> 8 * int (length s)" for s :: string by linarith
    then have b: "0 \<le> byte_gas s \<and> byte_gas s \<le> 8 * int (length s)" for s
      using byte_gas_bounds [of s] by fastforce
    have "int (length (drop 2 calldata)) \<le> int (length calldata)" by simp
    with b [of "drop 2 calldata"] have "byte_gas (drop 2 calldata) \<le> 8 * int (length calldata)" by linarith
    with b [of calldata] b [of "drop 2 calldata"] show ?thesis
      by (simp add: computeCalldataGas_def Let_def)
  qed
  have "cross_outcome calldata (fst (estimateCrossChainGas node proxy calldata from val w))"
    using len by (simp add: estimateCrossChainGas_def Let_def cross_outcome_buffered split: prod.split sum.split)
  then show ?thesis by (simp add: cross_outcome_def)
qed

definition failing_node :: "unit node" where
  "failing_node w req = (Inl \<lparr>re_message = ''execution reverted'', re_isRpcError = True, re_code = None, re_data = JUndefined\<rparr>, ())"

theorem estimateCrossChainGas_total_witness:
  "\<exists>e. fst (estimateCrossChainGas failing_node ''0xp'' ''0x00ff'' None None ()) = Inr e \<and>
     284000 \<le> ge_rawEstimate e \<and> ge_rawEstimate e \<le> 284048"
proof -
  have m: "map_sum id ge_method (fst (estimateCrossChainGas failing_node ''0xp'' ''0x00ff'' None None ())) = Inr M_calldata_computed"
    by code_simp
  obtain e where e: "fst (estimateCrossChainGas failing_node ''0xp'' ''0x00ff'' None None ()) = Inr e"
    "ge_method e \<noteq> M_calldata_computed \<or> 284000 \<le> ge_rawEstimate e \<and> ge_rawEstimate e \<le> 284000 + 8 * int (length ''0x00ff'')"
    using estimateCrossChainGas_total [of failing_node "''0xp''" "''0x00ff''" None None "()"] by blast
  with m show ?thesis by simp
qed

section \<open>Bridge estimates\<close>

lemma attempts_waits:
  "snd (bridge_attempts node dec before waiting params attempt left w) =
     map (\<lambda>i. 1000 * 2 ^ i) [attempt ..< attempt + length (snd (bridge_attempts node dec before waiting params attempt left w))]"
proof (induction left arbitrary: attempt w)
  case (Suc left)
  obtain r w' where n: "node w (''eth_estimateGas'', params) = (r, w')" by fastforce
  from Suc [of "attempt + 1" w'] show ?case
    by (auto simp: n upt_conv_Cons simp del: upt_Suc split: prod.split sum.split option.split)
qed simp

lemma backoff_prefix: "n \<le> 3 \<Longrightarrow> map (\<lambda>i. 1000 * 2 ^ i) [0 ..< n] = take n [1000, 2000, 4000 :: nat]"
proof -
  assume "n \<le> 3"
  then consider "n = 0" | "n = 1" | "n = 2" | "n = 3" by linarith
  then show ?thesis by cases (simp_all add: upt_rec)
qed

lemma attempts_bound:
  "attempt + left = 4 \<Longrightarrow> length (snd (bridge_attempts node dec before waiting params attempt left w)) \<le> left - 1"
proof (induction left arbitrary: attempt w)
  case (Suc left)
  show ?case
  proof (cases "attempt = 3")
    case True
    with Suc.prems show ?thesis
      by (auto simp: bridge_failure_def Let_def split: prod.split sum.split option.split)
  next
    case False
    with Suc.prems have "1 \<le> left" by simp
    with Suc.IH [of "attempt + 1"] Suc.prems show ?thesis
      by (auto split: prod.split sum.split option.split) (metis Suc_le_mono Suc_pred add_Suc_shift snd_conv zero_less_Suc le_Suc_eq not_less_eq_eq less_eq_Suc_le)
  qed
qed simp

text \<open>A node that keeps a record of its requests and answers beside its state.\<close>

definition recording :: "'w node \<Rightarrow> ('w \<times> (rpc_request \<times> (rpc_error + js)) list) node" where
  "recording node = (\<lambda>(w, log) request. case node w request of (answer, w') \<Rightarrow> (answer, (w', log @ [(request, answer)])))"

lemma recording_step: "node w request = (answer, w') \<Longrightarrow> recording node (w, log) request = (answer, (w', log @ [(request, answer)]))"
  by (simp add: recording_def)

text \<open>The answers of a run: each one but the last is an error that is retried, and a value is the last one.\<close>

definition retried :: "error_decoder \<Rightarrow> nat \<Rightarrow> (rpc_error + js) list \<Rightarrow> bool" where
  "retried dec attempt answers \<longleftrightarrow> (\<forall>i < length answers - 1. \<exists>err. answers ! i = Inl err \<and> bridge_failure dec (attempt + i) err = None)"

lemma retried_Cons:
  assumes "bridge_failure dec attempt err = None" and "retried dec (attempt + 1) answers"
  shows "retried dec attempt (Inl err # answers)"
  unfolding retried_def
proof (intro allI impI)
  fix i assume "i < length (Inl err # answers) - 1"
  with assms show "\<exists>e. (Inl err # answers) ! i = Inl e \<and> bridge_failure dec (attempt + i) e = None"
    by (cases i) (auto simp: retried_def nth_Cons' less_diff_conv split: if_splits) 
qed

lemma attempts_recorded:
  assumes "bridge_attempts node dec before waiting params attempt left w = ((r, w'), waits)"
  shows "\<exists>answers. (\<forall>log. bridge_attempts (recording node) dec before waiting params attempt left (w, log)
        = ((r, (w', log @ map (Pair (''eth_estimateGas'', params)) answers)), waits))
    \<and> length answers \<le> left \<and> length waits \<le> length answers \<and> length answers \<le> length waits + 1
    \<and> retried dec attempt answers \<and> (\<forall>v. r = Inr v \<and> answers \<noteq> [] \<and> length waits < length answers \<longrightarrow> last answers = Inr v)"
  using assms
proof (induction left arbitrary: attempt w waits)
  case 0
  then show ?case by (intro exI [of _ "[]"]) (simp add: retried_def)
next
  case (Suc left)
  let ?req = "(''eth_estimateGas'', params)"
  obtain answer w1 where n: "node w ?req = (answer, w1)" by fastforce
  note step = recording_step [of node w ?req, OF n]
  consider "before attempt" | v where "\<not> before attempt" "answer = Inr v"
    | err e where "\<not> before attempt" "answer = Inl err" "bridge_failure dec attempt err = Some e"
    | err where "\<not> before attempt" "answer = Inl err" "bridge_failure dec attempt err = None" "waiting attempt"
    | err where "\<not> before attempt" "answer = Inl err" "bridge_failure dec attempt err = None" "\<not> waiting attempt"
    by (cases answer; cases "bridge_failure dec attempt (projl answer)") auto
  then show ?case
  proof cases
    case 1
    with Suc.prems show ?thesis by (intro exI [of _ "[]"]) (simp add: retried_def)
  next
    case 5
    then obtain waits' where run: "bridge_attempts node dec before waiting params (attempt + 1) left w1 = ((r, w'), waits')"
      and waits: "waits = 1000 * 2 ^ attempt # waits'"
      using Suc.prems n by (auto split: prod.splits)
    from Suc.IH [OF run] obtain answers where ih: "\<forall>log. bridge_attempts (recording node) dec before waiting params (attempt + 1) left (w1, log)
        = ((r, (w', log @ map (Pair ?req) answers)), waits')" "length answers \<le> left" "length waits' \<le> length answers" "length answers \<le> length waits' + 1"
      "retried dec (attempt + 1) answers" "\<forall>v. r = Inr v \<and> answers \<noteq> [] \<and> length waits' < length answers \<longrightarrow> last answers = Inr v" by blast
    from ih(1) 5 step waits have "\<forall>log. bridge_attempts (recording node) dec before waiting params attempt (Suc left) (w, log)
        = ((r, (w', log @ map (Pair ?req) (answer # answers))), waits)" by simp
    with ih 5 retried_Cons waits show ?thesis by (intro exI [of _ "answer # answers"]) auto
  qed (use Suc.prems n step in \<open>intro exI [of _ "[answer]"]; auto simp: retried_def\<close>)+
qed

lemma attempts_value:
  assumes "attempt + left = 4" and "0 < left" and "bridge_attempts node dec before waiting params attempt left w = ((Inr v, w'), waits)"
    and "bridge_attempts (recording node) dec before waiting params attempt left (w, log)
        = ((Inr v, (w', log @ map (Pair (''eth_estimateGas'', params)) answers)), waits)"
  shows "length waits < length answers"
  using assms
proof (induction left arbitrary: attempt w waits log answers)
  case (Suc left)
  let ?req = "(''eth_estimateGas'', params)"
  obtain answer w1 where n: "node w ?req = (answer, w1)" by fastforce
  note step = recording_step [of node w ?req, OF n]
  show ?case
  proof (cases answer)
    case (Inr u)
    with Suc.prems n step show ?thesis by (auto split: if_splits)
  next
    case (Inl err)
    with Suc.prems(3) n have go: "\<not> before attempt" "bridge_failure dec attempt err = None" "\<not> waiting attempt"
      by (auto split: if_splits option.splits)
    then obtain waits' where run: "bridge_attempts node dec before waiting params (attempt + 1) left w1 = ((Inr v, w'), waits')"
      and waits: "waits = 1000 * 2 ^ attempt # waits'"
      using Suc.prems(3) n Inl by (auto split: prod.splits)
    have left: "0 < left" using go(2) Suc.prems(1) by (cases left) (auto simp: bridge_failure_def Let_def split: if_splits)
    from Suc.prems(4) step go waits Inl have rec: "bridge_attempts (recording node) dec before waiting params (attempt + 1) left (w1, log @ [(?req, answer)])
        = ((Inr v, (w', log @ map (Pair ?req) answers)), waits')"
      by (auto split: prod.splits)
    from attempts_recorded [OF run] obtain rest where
      rest: "bridge_attempts (recording node) dec before waiting params (attempt + 1) left (w1, log @ [(?req, answer)])
        = ((Inr v, (w', (log @ [(?req, answer)]) @ map (Pair ?req) rest)), waits')" by blast
    with rec have "log @ map (Pair ?req) answers = (log @ [(?req, answer)]) @ map (Pair ?req) rest" by simp
    then have a: "map (Pair ?req) answers = map (Pair ?req) (answer # rest)" by simp
    then have "length answers = Suc (length rest)" by (metis length_map length_Cons)
    moreover have "length waits' < length rest" using Suc.IH [OF _ left run rest] Suc.prems(1) by simp
    ultimately show ?thesis using waits by simp
  qed
qed simp

text \<open>C22. A bridge estimate sends at most four requests, all of them this one \<open>eth_estimateGas\<close>: with a node that records its requests
  and answers, the run is the same and the record holds the requests. Between them it pauses for 1, 2 and 4 seconds in this order,
  and only an error that asks for a retry is followed by another request. A limit that is returned is exactly the positive amount that
  the last answer names, at most 2^53 - 1, without buffer.\<close>
theorem estimateBridgeGas_policy:
  "case estimateBridgeGas node dec before waiting from to data val w of ((r, w'), waits) \<Rightarrow>
     \<exists>answers. estimateBridgeGas (recording node) dec before waiting from to data val (w, [])
         = ((r, (w', map (Pair (''eth_estimateGas'',
              [JObj [(''from'', JStr from), (''to'', JStr to), (''data'', JStr data), (''value'', JStr val)]])) answers)), waits)
       \<and> length answers \<le> 4 \<and> length waits \<le> 3 \<and> waits = take (length waits) [1000, 2000, 4000]
       \<and> length waits \<le> length answers \<and> length answers \<le> length waits + 1 \<and> retried dec 0 answers
       \<and> (\<forall>e. r = Inr e \<longrightarrow> length answers = length waits + 1 \<and> 0 < ge_rawEstimate e \<and> ge_rawEstimate e \<le> 9007199254740991
            \<and> ge_gasLimit e = ge_rawEstimate e \<and> (\<exists>s. last answers = Inr (JStr s) \<and> string_BigInt s = Inr (ge_rawEstimate e)))"
proof -
  let ?params = "[JObj [(''from'', JStr from), (''to'', JStr to), (''data'', JStr data), (''value'', JStr val)]]"
  obtain r w' waits where run: "bridge_attempts node dec before waiting ?params 0 4 w = ((r, w'), waits)"
    by (metis surj_pair)
  have le: "length waits \<le> 3" using attempts_bound [of 0 4 node dec before waiting ?params w] run by simp
  moreover have "waits = map (\<lambda>i. 1000 * 2 ^ i) [0 ..< length waits]"
    using attempts_waits [of node dec before waiting ?params 0 4 w] run by simp
  ultimately have waits: "waits = take (length waits) [1000, 2000, 4000]"
    using backoff_prefix [of "length waits"] by simp
  from attempts_recorded [OF run] obtain answers where
    rec: "bridge_attempts (recording node) dec before waiting ?params 0 4 (w, []) = ((r, (w', [] @ map (Pair (''eth_estimateGas'', ?params)) answers)), waits)"
    and sizes: "length answers \<le> 4" "length waits \<le> length answers" "length answers \<le> length waits + 1" "retried dec 0 answers"
    and final: "\<forall>v. r = Inr v \<and> answers \<noteq> [] \<and> length waits < length answers \<longrightarrow> last answers = Inr v" by blast
  have "length answers = length waits + 1 \<and> last answers = Inr v" if "r = Inr v" for v
  proof -
    have "length waits < length answers" using attempts_value [OF _ _ run [unfolded that] rec [unfolded that]] by simp
    with sizes(3) final that show ?thesis by auto
  qed
  then show ?thesis
    using waits le sizes rec
    by (auto simp: estimateBridgeGas_def run rpc_bind_def read_estimate_def split: sum.splits js.splits if_splits intro!: exI [of _ answers])
qed

text \<open>A node that is busy for two requests; its state counts the requests.\<close>

definition busy_node :: "nat node" where
  "busy_node = (\<lambda>n request. (if n < 2 then Inl \<lparr>re_message = ''busy'', re_isRpcError = True, re_code = Some (-32000),
       re_data = JObj [(''retryable'', JBool True), (''code'', JStr (hd retry_codes))]\<rparr> else Inr (JStr ''0x5208''), n + 1))"

lemma busy_run: "case estimateBridgeGas busy_node (\<lambda>s. None) (\<lambda>i. False) (\<lambda>i. False) ''0xa'' ''0xb'' ''0x'' ''0x1'' 0 of ((r, n), waits) \<Rightarrow>
    r = Inr \<lparr>ge_gasLimit = 21000, ge_rawEstimate = 21000, ge_method = M_direct\<rparr> \<and> n = 3 \<and> length waits = 2"
  by code_simp

theorem estimateBridgeGas_policy_witness:
  "\<exists>answers. estimateBridgeGas (recording busy_node) (\<lambda>s. None) (\<lambda>i. False) (\<lambda>i. False) ''0xa'' ''0xb'' ''0x'' ''0x1'' (0, [])
       = ((Inr \<lparr>ge_gasLimit = 21000, ge_rawEstimate = 21000, ge_method = M_direct\<rparr>,
          (3, map (Pair (''eth_estimateGas'', [JObj [(''from'', JStr ''0xa''), (''to'', JStr ''0xb''), (''data'', JStr ''0x''), (''value'', JStr ''0x1'')]])) answers)), [1000, 2000])
     \<and> length answers = 3 \<and> (\<exists>s. last answers = Inr (JStr s) \<and> string_BigInt s = Inr 21000)"
proof -
  obtain r n waits where run: "estimateBridgeGas busy_node (\<lambda>s. None) (\<lambda>i. False) (\<lambda>i. False) ''0xa'' ''0xb'' ''0x'' ''0x1'' 0 = ((r, n), waits)"
    by (metis surj_pair)
  then have r: "r = Inr \<lparr>ge_gasLimit = 21000, ge_rawEstimate = 21000, ge_method = M_direct\<rparr>" "n = 3" "length waits = 2"
    using busy_run by auto
  from estimateBridgeGas_policy [of busy_node "\<lambda>s. None" "\<lambda>i. False" "\<lambda>i. False" "''0xa''" "''0xb''" "''0x''" "''0x1''" 0]
  show ?thesis unfolding run prod.case using r by (fastforce simp: numeral_2_eq_2)
qed

section \<open>Fees and hexadecimal output\<close>

text \<open>The fee quote covers the gas price of the node and twice the base fee plus the tip, and
  the tip is at least the node's and at least what the gas price leaves above the base fee.\<close>
theorem fee_quote_covers:
  "gasPrice \<le> ff_maxFeePerGas (fee_quote baseFee gasPrice p) \<and>
   2 * baseFee + ff_maxPriorityFeePerGas (fee_quote baseFee gasPrice p) \<le> ff_maxFeePerGas (fee_quote baseFee gasPrice p) \<and>
   p \<le> ff_maxPriorityFeePerGas (fee_quote baseFee gasPrice p) \<and>
   (gasPrice \<le> baseFee \<or> gasPrice - baseFee \<le> ff_maxPriorityFeePerGas (fee_quote baseFee gasPrice p))"
  by (auto simp: fee_quote_def Let_def)

text \<open>A gas amount that is written as a hexadecimal transaction field reads back as itself.\<close>
theorem gasToHex_roundtrip:
  assumes "0 \<le> gas"
  shows "js_BigInt (JStr (gasToHex gas)) = Inr gas"
  using assms by (simp add: gasToHex_def string_BigInt_hex_of)

theorem gasToHex_roundtrip_witness: "js_BigInt (JStr (gasToHex 27300)) = Inr 27300"
  by (rule gasToHex_roundtrip) simp

end
