(* ===== verification/Treasury_Payments.thy ===== *)
theory Treasury_Payments
  imports Js_Value "HOL-Library.Signed_Division"
begin

text \<open>
  \<open>src/src/lib/treasury/payments.ts\<close> and \<open>src/src/lib/treasury/savedPayments.ts\<close>: amounts, the
  review of a payment, the split of a payment over the two Safes, the spending state read from
  both chains and the settlement evidence.
  A payment comes from storage or a form, so it is a JavaScript object (\<^typ>\<open>js_object\<close>) that
  \<open>checkedPayment\<close> validates. The address functions of the ABI library are parameters:
  \<open>isAddr\<close> is \<open>isAddress\<close> and \<open>getAddr\<close> is \<open>getAddress\<close> (the checksummed form).
\<close>

section \<open>Digits\<close>

definition is_digit :: "char \<Rightarrow> bool" where
  "is_digit c \<longleftrightarrow> (48 :: nat) \<le> of_char c \<and> (of_char c :: nat) \<le> 57"

text \<open>\<open>/^\d{lo,hi}$/\<close> and \<open>/^[1-9]\d{0,n}$/\<close>.\<close>

definition digits_between :: "nat \<Rightarrow> nat \<Rightarrow> string \<Rightarrow> bool" where
  "digits_between lo hi s \<longleftrightarrow> lo \<le> length s \<and> length s \<le> hi \<and> (\<forall>c \<in> set s. is_digit c)"

definition positive_digits :: "nat \<Rightarrow> string \<Rightarrow> bool" where
  "positive_digits n s \<longleftrightarrow> digits_between 1 (n + 1) s \<and> hd s \<noteq> CHR ''0''"

section \<open>Amounts\<close>

text \<open>\<open>/^\d{1,20}(?:\.\d{1,6})?$/\<close> and the two parts \<open>text.split(".")\<close> gives.\<close>

definition usdc_parts :: "string \<Rightarrow> (string \<times> string) option" where
  "usdc_parts text =
     (let whole = takeWhile (\<lambda>c. c \<noteq> CHR ''.'') text; rest = dropWhile (\<lambda>c. c \<noteq> CHR ''.'') text
      in if \<not> digits_between 1 20 whole then None
         else case rest of
           [] \<Rightarrow> Some (whole, [])
         | dot # fraction \<Rightarrow> if digits_between 1 6 fraction then Some (whole, fraction) else None)"

definition pad_end :: "nat \<Rightarrow> char \<Rightarrow> string \<Rightarrow> string" where
  "pad_end n c s = s @ replicate (n - length s) c"

definition pad_start :: "nat \<Rightarrow> char \<Rightarrow> string \<Rightarrow> string" where
  "pad_start n c s = replicate (n - length s) c @ s"

definition strip_zeros :: "string \<Rightarrow> string" where
  "strip_zeros s = rev (dropWhile (\<lambda>c. c = CHR ''0'') (rev s))" \<comment> \<open>\<open>s.replace(/0+$/, "")\<close>\<close>

definition parseUSDC :: "string \<Rightarrow> js_error + int" where
  "parseUSDC text =
     (case usdc_parts text of
        None \<Rightarrow> throw ''Enter a positive USDC amount with at most 6 decimals''
      | Some (whole, fraction) \<Rightarrow>
          res_bind (string_BigInt whole) (\<lambda>w.
          res_bind (string_BigInt (pad_end 6 CHR ''0'' fraction)) (\<lambda>f.
            let v = w * 1000000 + f
            in if v \<le> 0 \<or> v > 150000000 then throw ''A payment must be greater than 0 and at most 150 USDC''
               else Inr v)))"

definition format_fraction :: "int \<Rightarrow> nat \<Rightarrow> int \<Rightarrow> string" where
  "format_fraction value digits scale =
     (let fraction = strip_zeros (pad_start digits CHR ''0'' (show_int (value smod scale)))
      in show_int (value sdiv scale) @ (if fraction \<noteq> [] then ''.'' @ fraction else []))"

definition formatUSDC :: "int \<Rightarrow> string" where
  "formatUSDC value = format_fraction value 6 1000000"

definition formatPercentage :: "int \<Rightarrow> string" where
  "formatPercentage bps = format_fraction bps 2 100"

section \<open>The review of a payment\<close>

type_synonym payment = js_object

definition has_key :: "js_object \<Rightarrow> string \<Rightarrow> bool" where
  "has_key p k \<longleftrightarrow> k \<in> set (jmap_keys p)" \<comment> \<open>\<open>k in p\<close>\<close>

definition chain_value :: "js \<Rightarrow> bool" where
  "chain_value v \<longleftrightarrow> v = JStr ''l1'' \<or> v = JStr ''l2''"

definition with_recipient :: "(string \<Rightarrow> string) \<Rightarrow> payment \<Rightarrow> payment" where
  "with_recipient getAddr p = jmap_set ''recipient'' (JStr (getAddr (js_string (js_prop p ''recipient'')))) p"

definition checked_transfer :: "(string \<Rightarrow> string) \<Rightarrow> payment \<Rightarrow> js_error + payment" where
  "checked_transfer getAddr p =
     (let bad = throw ''Invalid Safe transfer'';
          amount = js_prop p ''amount''; rollupId = js_prop p ''rollupId''
      in if js_prop p ''source'' \<noteq> JStr ''l1'' \<or> js_prop p ''destination'' \<noteq> JStr ''l2'' \<or> has_key p ''fromL1''
            \<or> has_key p ''bps'' \<or> has_key p ''invoiceId'' \<or> \<not> positive_digits 77 (js_string amount) then bad
         else res_bind (js_BigInt amount) (\<lambda>a.
           if a \<ge> 2 ^ 256 \<or> \<not> positive_digits 19 (js_string rollupId) then bad
           else res_bind (js_BigInt rollupId) (\<lambda>r.
             if r \<ge> 2 ^ 64 then bad else Inr (with_recipient getAddr p))))"

definition is_text :: "js \<Rightarrow> bool" where
  "is_text v = (case v of JStr _ \<Rightarrow> True | _ \<Rightarrow> False)"

text \<open>The kind specific part of a payment from a budget.\<close>

definition checked_route :: "payment \<Rightarrow> int \<Rightarrow> js_error + unit" where
  "checked_route p amount =
     (let fromL1 = js_prop p ''fromL1''; invoiceId = js_prop p ''invoiceId''
      in if js_prop p ''kind'' \<noteq> JStr ''invoice'' then
           if \<not> is_text fromL1 \<or> \<not> digits_between 1 9 (js_string fromL1) then throw ''Invalid Safe contributions''
           else res_bind (js_BigInt fromL1) (\<lambda>f.
             if f > amount then throw ''Invalid Safe contributions''
             else if has_key p ''invoiceId'' then throw ''Unexpected invoice condition''
             else Inr ())
         else if has_key p ''fromL1'' then throw ''Unexpected Safe contribution''
         else if js_prop p ''destination'' \<noteq> JStr ''l1'' \<or> \<not> is_hex_of 64 (js_string invoiceId) then throw ''Invalid invoice payment''
         else res_bind (js_BigInt invoiceId) (\<lambda>i.
           if i = 0 then throw ''Invalid invoice payment'' else Inr ()))"

definition budget_kind :: "js \<Rightarrow> bool" where
  "budget_kind k \<longleftrightarrow> k = JUndefined \<or> k = JStr ''fixed'' \<or> k = JStr ''invoice''"

definition checkedPayment :: "(js \<Rightarrow> bool) \<Rightarrow> (string \<Rightarrow> string) \<Rightarrow> payment \<Rightarrow> js_error + payment" where
  "checkedPayment isAddr getAddr p =
     (let bad = throw ''Invalid payment review'';
          source = js_prop p ''source''; recipient = js_prop p ''recipient''; amount = js_prop p ''amount''
      in if (source \<noteq> JUndefined \<and> \<not> chain_value source) \<or> \<not> isAddr recipient then bad
         else res_bind (js_BigInt recipient) (\<lambda>r.
           if r = 0 \<or> \<not> chain_value (js_prop p ''destination'') \<or> has_key p ''funding''
              \<or> \<not> digits_between 1 16 (js_string (js_prop p ''epoch'')) then bad
           else if js_prop p ''kind'' = JStr ''transfer'' then checked_transfer getAddr p
           else if \<not> budget_kind (js_prop p ''kind'') \<or> has_key p ''bps'' \<or> \<not> digits_between 1 9 (js_string amount)
             then throw ''Invalid fixed payment review''
           else res_bind (js_BigInt amount) (\<lambda>a.
             if a < 1 \<or> a > 150000000 then throw ''Invalid fixed payment review''
             else res_bind (checked_route p a) (\<lambda>_. Inr (with_recipient getAddr p)))))"

section \<open>The spending state\<close>

text \<open>The five words of \<open>getTokenAllowance\<close>.\<close>

record allowance =
  al_amount :: int
  al_spent :: int
  al_resetTimeMin :: int
  al_lastResetMin :: int
  al_nonce :: int

record payment_state =
  ps_epoch :: int
  ps_resetsAt :: int
  ps_observedL1 :: string
  ps_observedL2 :: string
  ps_balanceL1 :: int
  ps_balanceL2 :: int
  ps_allowanceL1 :: allowance
  ps_allowanceL2 :: allowance
  ps_spent :: int
  ps_globalLimit :: int

definition remaining :: "allowance \<Rightarrow> int" where
  "remaining a = (if al_amount a > al_spent a then al_amount a - al_spent a else 0)"

definition js_min :: "int \<Rightarrow> int \<Rightarrow> int" where
  "js_min a b = (if a < b then a else b)"

definition capL1 :: "payment_state \<Rightarrow> int" where
  "capL1 s = js_min (ps_balanceL1 s) (remaining (ps_allowanceL1 s))"

definition capL2 :: "payment_state \<Rightarrow> int" where
  "capL2 s = js_min (ps_balanceL2 s) (remaining (ps_allowanceL2 s))"

datatype destination = To_l1 | To_l2

definition defaultSplit :: "payment_state \<Rightarrow> int \<Rightarrow> destination \<Rightarrow> int" where
  "defaultSplit s amount destination =
     (if destination = To_l1 then js_min amount (capL1 s) else amount - js_min amount (capL2 s))"

record funding =
  fu_fromL1 :: int
  fu_fromL2 :: int

definition budget_funding :: "payment_state \<Rightarrow> payment \<Rightarrow> int \<Rightarrow> js_error + funding" where
  "budget_funding s p amount =
     res_bind (js_BigInt (js_prop p ''epoch'')) (\<lambda>epoch.
       if epoch \<noteq> ps_epoch s then throw ''The budget period changed. Review the payment again.''
       else if ps_spent s + amount > ps_globalLimit s
         then throw (''Shared budget exceeded: '' @ formatUSDC (ps_globalLimit s - ps_spent s) @ '' USDC remains globally'')
       else res_bind (if js_prop p ''kind'' = JStr ''invoice'' then Inr (js_min amount (capL1 s))
                      else js_BigInt (js_prop p ''fromL1'')) (\<lambda>fromL1.
         if fromL1 > capL1 s \<or> amount - fromL1 > capL2 s
         then throw ''Insufficient balance or Safe allowance for this funding route''
         else Inr \<lparr>fu_fromL1 = fromL1, fu_fromL2 = amount - fromL1\<rparr>))"

definition fundingPreview ::
  "(js \<Rightarrow> bool) \<Rightarrow> (string \<Rightarrow> string) \<Rightarrow> payment_state \<Rightarrow> payment \<Rightarrow> js_error + funding" where
  "fundingPreview isAddr getAddr s p0 =
     res_bind (checkedPayment isAddr getAddr p0) (\<lambda>p.
     res_bind (js_BigInt (js_prop p ''amount'')) (\<lambda>amount.
       if js_prop p ''kind'' = JStr ''transfer'' then
         (if amount > ps_balanceL1 s then throw ''Insufficient balance in the source Safe''
          else Inr \<lparr>fu_fromL1 = amount, fu_fromL2 = 0\<rparr>)
       else budget_funding s p amount))"

text \<open>\<open>paymentState\<close> from the values its requests return: both anchor blocks with their hash when
  read again, and the contracts as functions of the block they are read at: the balances, the
  allowance words, the total spent in a period and, for a policy with a predecessor, the
  spending carried into the period.\<close>

record block_reading =
  br_number :: int
  br_hash :: string
  br_timestamp :: int
  br_again :: "string option"

record state_readings =
  sr_l1 :: "block_reading option"
  sr_l2 :: "block_reading option"
  sr_balanceL1 :: "int \<Rightarrow> int"
  sr_balanceL2 :: "int \<Rightarrow> int"
  sr_allowanceL1 :: "int \<Rightarrow> allowance"
  sr_allowanceL2 :: "int \<Rightarrow> allowance"
  sr_spent :: "int \<Rightarrow> int \<Rightarrow> int"
  sr_carried :: "(int \<Rightarrow> int \<Rightarrow> int \<times> int) option"

definition aligned_allowance :: "int \<Rightarrow> allowance \<Rightarrow> js_error + allowance" where
  "aligned_allowance epoch a =
     (if al_resetTimeMin a \<noteq> 10 \<or> al_lastResetMin a smod 10 \<noteq> 0 \<or> al_lastResetMin a > epoch * 10
      then throw ''Safe allowance periods do not match the shared budget''
      else Inr (if al_lastResetMin a < epoch * 10 then a\<lparr>al_spent := 0, al_lastResetMin := epoch * 10\<rparr> else a))"

definition carry_spending :: "int \<Rightarrow> allowance \<Rightarrow> allowance" where
  "carry_spending n a = a\<lparr>al_spent := al_spent a + n\<rparr>"

definition with_carried :: "state_readings \<Rightarrow> int \<Rightarrow> int \<Rightarrow> allowance \<times> allowance \<Rightarrow> allowance \<times> allowance" where
  "with_carried r epoch block as = (case sr_carried r of None \<Rightarrow> as
     | Some carried \<Rightarrow> (case carried epoch block of (c1, c2) \<Rightarrow> (carry_spending c1 (fst as), carry_spending c2 (snd as))))"

definition paymentState :: "state_readings \<Rightarrow> js_error + payment_state" where
  "paymentState r =
     (case (sr_l1 r, sr_l2 r) of
        (Some l1, Some l2) \<Rightarrow>
          (let epoch = br_timestamp l1 sdiv 600
           in if br_timestamp l2 sdiv 600 > epoch then throw ''Waiting for L1 to reach the observed L2 budget period''
              else res_bind (aligned_allowance epoch (sr_allowanceL1 r (br_number l1))) (\<lambda>a1.
                   res_bind (aligned_allowance epoch (sr_allowanceL2 r (br_number l2))) (\<lambda>a2.
                     let as = with_carried r epoch (br_number l2) (a1, a2)
                     in if br_again l1 \<noteq> Some (br_hash l1) \<or> br_again l2 \<noteq> Some (br_hash l2)
                        then throw ''Chain state changed while reading payment capacity''
                        else Inr \<lparr>ps_epoch = epoch, ps_resetsAt = (epoch + 1) * 600,
                          ps_observedL1 = show_int (br_number l1), ps_observedL2 = show_int (br_number l2),
                          ps_balanceL1 = sr_balanceL1 r (br_number l1), ps_balanceL2 = sr_balanceL2 r (br_number l2),
                          ps_allowanceL1 = fst as, ps_allowanceL2 = snd as, ps_spent = sr_spent r epoch (br_number l2),
                          ps_globalLimit = 150000000\<rparr>)))
      | _ \<Rightarrow> throw ''Missing payment chain observation'')"

section \<open>Saved payments\<close>

text \<open>The interface version of a saved deployment, and the validation of its old capability
  flags. The deployment is an object of storage.\<close>

definition paymentVersion :: "js_object \<Rightarrow> js" where
  "paymentVersion p =
     js_coalesce (js_prop p ''version'')
       (if js_truthy (js_prop p ''exactSplits'') then js_coalesce (js_prop p ''abiVersion'') (JNum 1) else JNum 0)"

definition version_number :: "js \<Rightarrow> bool" where
  "version_number v \<longleftrightarrow> v = JNum 0 \<or> v = JNum 1 \<or> v = JNum 2"

definition positive_version :: "js \<Rightarrow> bool" where
  "positive_version v = (case v of JNum n \<Rightarrow> n > 0 | _ \<Rightarrow> False)"

definition verifiesL1Initiation :: "js_object \<Rightarrow> bool" where
  "verifiesL1Initiation p = (if js_prop p ''version'' \<noteq> JUndefined then positive_version (js_prop p ''version'')
     else js_prop p ''l1Initiation'' = JBool True)"

definition verifiesReverseFunding :: "js_object \<Rightarrow> bool" where
  "verifiesReverseFunding p = (if js_prop p ''version'' \<noteq> JUndefined then positive_version (js_prop p ''version'')
     else js_prop p ''combinedL2'' = JBool True)"

definition boolean_or_absent :: "js \<Rightarrow> bool" where
  "boolean_or_absent v = (case v of JUndefined \<Rightarrow> True | JBool _ \<Rightarrow> True | _ \<Rightarrow> False)"

definition readPaymentDeployment :: "js_object \<Rightarrow> js_error + js_object" where
  "readPaymentDeployment p =
     (let v = js_prop p ''version''; abi = js_prop p ''abiVersion'' in
      if \<not> list_all (\<lambda>k. boolean_or_absent (js_prop p k)) [''exactSplits'', ''combinedL2'', ''l1Initiation'']
        then throw ''Invalid saved payment capability''
      else if abi \<noteq> JUndefined \<and> (abi \<noteq> JNum 2 \<or> \<not> js_truthy (js_prop p ''exactSplits''))
        then throw ''Invalid payment ABI version''
      else if v \<noteq> JUndefined \<and> \<not> version_number v then throw ''Invalid payment interface version''
      else if \<not> version_number (paymentVersion p) \<or>
              (v \<noteq> JUndefined \<and> (abi \<noteq> JUndefined \<or> js_prop p ''exactSplits'' \<noteq> JUndefined
                 \<or> js_prop p ''combinedL2'' \<noteq> JUndefined \<or> js_prop p ''l1Initiation'' \<noteq> JUndefined))
        then throw ''Conflicting payment interface versions''
      else Inr p)"

definition without_key :: "string \<Rightarrow> js_object \<Rightarrow> js_object" where
  "without_key k p = filter (\<lambda>(k', _). k' \<noteq> k) p"

definition checkedRecordedPayment :: "(js \<Rightarrow> bool) \<Rightarrow> (string \<Rightarrow> string) \<Rightarrow> payment \<Rightarrow> js_error + payment" where
  "checkedRecordedPayment isAddr getAddr value =
     (if has_key value ''funding'' then
        (let funding = js_prop value ''funding''; plain = without_key ''funding'' value; kind = js_prop value ''kind''
         in if funding = JStr ''split'' \<or> kind = JStr ''transfer'' \<and> funding = JStr ''local''
               \<or> kind = JStr ''invoice'' \<and> funding = JStr ''combined''
            then res_bind (checkedPayment isAddr getAddr plain) (\<lambda>_. Inr value)
            else if (kind = JUndefined \<or> kind = JStr ''fixed'')
                \<and> (funding = JStr ''local'' \<or> funding = JStr ''combined'') \<and> \<not> has_key value ''fromL1''
            then res_bind (checkedPayment isAddr getAddr (jmap_set ''fromL1'' (JStr ''0'') plain)) (\<lambda>_. Inr value)
            else throw ''Invalid saved payment review'')
      else checkedPayment isAddr getAddr value)"

section \<open>Settlement evidence\<close>

datatype policy_event = InvoicePaid string
  | Paid (pe_token: string) (pe_recipient: string) (pe_onL1: bool) (pe_amount: int) (pe_fromL1: int) (pe_fromL2: int) (pe_epoch: int)
  | Other_policy_event

record receipt_log =
  lg_address :: string
  lg_event :: "policy_event option" \<comment> \<open>what \<open>decodeEventLog\<close> returns, \<^const>\<open>None\<close> when it throws\<close>

definition policy_events :: "string \<Rightarrow> receipt_log list \<Rightarrow> policy_event list" where
  "policy_events policy logs = List.map_filter lg_event (filter (\<lambda>l. js_lower (lg_address l) = js_lower policy) logs)"

definition is_invoice_paid :: "policy_event \<Rightarrow> bool" where
  "is_invoice_paid e = (case e of InvoicePaid _ \<Rightarrow> True | _ \<Rightarrow> False)"

definition is_paid :: "policy_event \<Rightarrow> bool" where
  "is_paid e = (case e of Paid _ _ _ _ _ _ _ \<Rightarrow> True | _ \<Rightarrow> False)"

definition same_identity :: "string \<Rightarrow> payment \<Rightarrow> string \<Rightarrow> string \<Rightarrow> bool \<Rightarrow> bool" where
  "same_identity tokenL1 p token recipient onL1 \<longleftrightarrow> js_lower token = js_lower tokenL1
     \<and> js_lower recipient = js_lower (js_string (js_prop p ''recipient'')) \<and> onL1 = (js_prop p ''destination'' = JStr ''l1'')"

text \<open>An invoice payment needs exactly one event of its invoice, any other payment none.\<close>

definition invoice_evidence :: "payment \<Rightarrow> policy_event list \<Rightarrow> bool" where
  "invoice_evidence p events =
     (let invoices = filter is_invoice_paid events
      in if js_prop p ''kind'' = JStr ''invoice''
         then (case invoices of [InvoicePaid i] \<Rightarrow> JStr i = js_prop p ''invoiceId'' | _ \<Rightarrow> False)
         else invoices = [])"

definition paid_contributions :: "string \<Rightarrow> payment \<Rightarrow> policy_event \<Rightarrow> js_error + (string \<times> string) option" where
  "paid_contributions tokenL1 p e =
     (if \<not> same_identity tokenL1 p (pe_token e) (pe_recipient e) (pe_onL1 e) then Inr None
      else res_bind (js_BigInt (js_prop p ''epoch'')) (\<lambda>epoch.
        if pe_epoch e \<noteq> epoch \<or> pe_amount e = 0 \<or> pe_amount e > 150000000
           \<or> pe_fromL1 e + pe_fromL2 e \<noteq> pe_amount e then Inr None
        else res_bind (if has_key p ''fromL1'' then js_BigInt (js_prop p ''fromL1'') else Inr (pe_fromL1 e)) (\<lambda>f.
          if pe_fromL1 e \<noteq> f then Inr None
          else res_bind (js_BigInt (js_prop p ''amount'')) (\<lambda>a.
            Inr (if pe_amount e = a then Some (show_int (pe_fromL1 e), show_int (pe_fromL2 e)) else None)))))"

definition settledPayment ::
  "(js \<Rightarrow> bool) \<Rightarrow> (string \<Rightarrow> string) \<Rightarrow> string \<Rightarrow> string \<Rightarrow> payment \<Rightarrow> receipt_log list
    \<Rightarrow> js_error + (string \<times> string) option" where
  "settledPayment isAddr getAddr policy tokenL1 p0 logs =
     res_bind (checkedRecordedPayment isAddr getAddr p0) (\<lambda>p.
       let events = policy_events policy logs
       in if \<not> invoice_evidence p events then Inr None
          else (case filter is_paid events of [e] \<Rightarrow> paid_contributions tokenL1 p e | _ \<Rightarrow> Inr None))"

end
