(* ===== verification/Treasury_Checks.thy ===== *)
theory Treasury_Checks
  imports Treasury_Payments
begin

text \<open>
  Lemmas on the payment checks: decimal text is read without an exception, an accepted payment
  has a recipient, an amount and a contribution in range, and the printed form of an amount
  passes the text checks.
\<close>

section \<open>Decimal text\<close>

lemma digit_value_is_digit: "is_digit c \<Longrightarrow> \<exists>d. digit_value c = Some d \<and> d < 10"
  by (auto simp: is_digit_def digit_value_def Let_def)

lemma digits_value_digits:
  "\<forall>c \<in> set s. is_digit c \<Longrightarrow> \<exists>n. digits_value 10 acc s = Some n \<and> n < (acc + 1) * 10 ^ length s"
proof (induction s arbitrary: acc)
  case (Cons c s)
  obtain d where d: "digit_value c = Some d" "d < 10" using Cons.prems digit_value_is_digit by auto
  obtain n where n: "digits_value 10 (acc * 10 + d) s = Some n" "n < (acc * 10 + d + 1) * 10 ^ length s"
    using Cons by force
  have "(acc * 10 + d + 1) * 10 ^ length s \<le> ((acc + 1) * 10) * 10 ^ length s"
    using d(2) by (intro mult_le_mono1) simp
  with n(2) have "n < (acc + 1) * 10 ^ length (c # s)" by (simp only: power_Suc length_Cons mult.assoc)
  with n(1) d show ?case by auto
qed simp

lemma is_digit_char:
  assumes "is_digit c"
  shows "c \<noteq> CHR ''x''" "c \<noteq> CHR ''X''" "c \<noteq> CHR ''o''" "c \<noteq> CHR ''O''" "c \<noteq> CHR ''b''" "c \<noteq> CHR ''B''"
    "c \<noteq> CHR ''-''" "c \<noteq> CHR ''+''" "c \<noteq> CHR ''.''"
  using assms by (auto simp: is_digit_def)

lemma string_BigInt_digits:
  assumes "\<forall>c \<in> set s. is_digit c" and "s \<noteq> []"
  shows "string_BigInt s = parse_digits 10 s"
proof -
  obtain c cs where s: "s = c # cs" using assms(2) by (cases s) simp_all
  have c: "c \<noteq> CHR ''-''" "c \<noteq> CHR ''+''" using assms(1) s is_digit_char by auto
  show ?thesis
  proof (cases cs)
    case Nil
    with s c show ?thesis by (simp add: string_BigInt_def)
  next
    case (Cons d ds)
    with assms(1) s have d: "is_digit d" by simp
    show ?thesis using s Cons c is_digit_char [OF d] by (simp add: string_BigInt_def)
  qed
qed

lemma string_BigInt_between:
  assumes "digits_between lo hi s" and "0 < lo"
  shows "\<exists>n. string_BigInt s = Inr n \<and> 0 \<le> n \<and> n < 10 ^ hi"
proof -
  have s: "\<forall>c \<in> set s. is_digit c" "s \<noteq> []" "length s \<le> hi" using assms by (auto simp: digits_between_def)
  obtain n where n: "digits_value 10 0 s = Some n" "n < 10 ^ length s" using digits_value_digits [OF s(1), of 0] by auto
  have "(10 :: nat) ^ length s \<le> 10 ^ hi" using s(3) by (intro power_increasing) auto
  with n(2) have "int n < int (10 ^ hi)" by linarith
  then show ?thesis using n s by (simp add: string_BigInt_digits parse_digits_def)
qed

lemma is_digit_js_digit: "d < 10 \<Longrightarrow> is_digit (js_digit d)"
  by (simp add: is_digit_def js_digit_def)

lemma digits_show_nat: "\<forall>c \<in> set (show_nat n). is_digit c"
proof (induction n rule: less_induct)
  case (less n)
  show ?case
  proof (cases "n < 10")
    case False
    then have "\<forall>c \<in> set (show_nat (n div 10)). is_digit c" by (intro less.IH) simp
    with False show ?thesis by (auto simp: show_nat.simps [of n] is_digit_js_digit)
  qed (simp add: show_nat.simps [of n] is_digit_js_digit)
qed

lemma length_show_nat: "0 < k \<Longrightarrow> n < 10 ^ k \<Longrightarrow> length (show_nat n) \<le> k"
proof (induction n arbitrary: k rule: less_induct)
  case (less n)
  show ?case
  proof (cases "n < 10")
    case False
    then obtain k' where k: "k = Suc k'" "0 < k'" using less.prems by (cases k; cases "k - 1") auto
    then have "n div 10 < 10 ^ k'" using less.prems(2) by (simp add: less_mult_imp_div_less mult.commute)
    with less.IH [of "n div 10" k'] k False show ?thesis by (simp add: show_nat.simps [of n])
  qed (use less.prems in \<open>simp add: show_nat.simps [of n]\<close>)
qed

lemma digits_between_show:
  assumes "0 \<le> v" and "v < 10 ^ k" and "0 < k"
  shows "digits_between 1 k (show_int v)"
proof -
  have "int (nat v) < int (10 ^ k)" using assms by simp
  then have "nat v < 10 ^ k" by (simp only: of_nat_less_iff)
  then show ?thesis using assms length_show_nat [of k "nat v"] digits_show_nat [of "nat v"]
    by (simp add: show_int_def digits_between_def Suc_le_eq)
qed

lemma string_BigInt_show: "0 \<le> v \<Longrightarrow> string_BigInt (show_int v) = Inr v"
  using digits_show_nat [of "nat v"]
  by (simp add: show_int_def string_BigInt_digits parse_digits_def digits_value_show_nat)

lemma js_BigInt_digits:
  assumes "digits_between lo hi (js_string v)" and "0 < lo"
  shows "\<exists>n. js_BigInt v = Inr n \<and> 0 \<le> n \<and> n < 10 ^ hi"
proof -
  have num: ?thesis if "js_BigInt v = Inr i" "js_string v = show_int i" for i
  proof -
    have "0 \<le> i"
    proof (rule ccontr)
      assume "\<not> 0 \<le> i"
      then have "CHR ''-'' \<in> set (js_string v)" using that by (simp add: show_int_def)
      with assms(1) have "is_digit CHR ''-''" unfolding digits_between_def by blast
      then show False by (simp add: is_digit_def)
    qed
    then show ?thesis using string_BigInt_between [OF assms] that string_BigInt_show by auto
  qed
  have bad: False if "js_string v = t" "\<not> list_all is_digit t" for t
    using assms that by (simp add: digits_between_def list_all_iff)
  show ?thesis
  proof (cases v)
    case (JBool b)
    with bad show ?thesis by (cases b) (auto simp: is_digit_def)
  next
    case (JObj kvs)
    with bad [of "''[object Object]''"] show ?thesis by (simp add: is_digit_def)
  qed (use num string_BigInt_between [OF assms] bad [of "''undefined''"] bad [of "''null''"] in \<open>auto simp: is_digit_def\<close>)
qed

section \<open>What an accepted payment satisfies\<close>

lemma prop_with_recipient [simp]:
  "js_prop (with_recipient getAddr p) k =
     (if k = ''recipient'' then JStr (getAddr (js_string (js_prop p ''recipient''))) else js_prop p k)"
  by (simp add: with_recipient_def js_prop_def)

lemma has_key_iff: "has_key p k \<longleftrightarrow> jmap_get p k \<noteq> None"
  by (simp add: has_key_def jm.keys_get)

lemma has_key_with_recipient [simp]: "has_key (with_recipient getAddr p) k \<longleftrightarrow> k = ''recipient'' \<or> has_key p k"
  by (simp add: with_recipient_def has_key_iff)

lemma has_key_prop: "\<not> has_key p k \<Longrightarrow> js_prop p k = JUndefined"
  by (simp add: has_key_iff js_prop_def)

definition js_nat_below :: "int \<Rightarrow> js \<Rightarrow> bool" where
  "js_nat_below bound v \<longleftrightarrow> (\<exists>n. js_BigInt v = Inr n \<and> 0 \<le> n \<and> n < bound)"

lemma js_nat_below_digits: "digits_between 1 k (js_string v) \<Longrightarrow> js_nat_below (10 ^ k) v"
  using js_BigInt_digits [of 1 k v] by (auto simp: js_nat_below_def)

text \<open>The facts a payment carries once it is checked.\<close>

definition payment_ok :: "(js \<Rightarrow> bool) \<Rightarrow> payment \<Rightarrow> bool" where
  "payment_ok isAddr p \<longleftrightarrow> isAddr (js_prop p ''recipient'') \<and> chain_value (js_prop p ''destination'')
     \<and> js_nat_below (10 ^ 16) (js_prop p ''epoch'') \<and> \<not> has_key p ''bps'' \<and>
     (if js_prop p ''kind'' = JStr ''transfer''
      then js_prop p ''source'' = JStr ''l1'' \<and> js_prop p ''destination'' = JStr ''l2'' \<and>
        (\<exists>a. js_BigInt (js_prop p ''amount'') = Inr a \<and> 0 \<le> a \<and> a < 2 ^ 256)
      else \<exists>a. js_BigInt (js_prop p ''amount'') = Inr a \<and> 1 \<le> a \<and> a \<le> 150000000 \<and>
        (if js_prop p ''kind'' = JStr ''invoice''
         then js_prop p ''destination'' = JStr ''l1'' \<and> \<not> has_key p ''fromL1''
         else \<exists>f. js_BigInt (js_prop p ''fromL1'') = Inr f \<and> 0 \<le> f \<and> f \<le> a))"

lemma checked_transfer_ok:
  assumes "checked_transfer getAddr p = Inr q"
  shows "q = with_recipient getAddr p \<and> js_prop p ''source'' = JStr ''l1'' \<and> js_prop p ''destination'' = JStr ''l2''
    \<and> \<not> has_key p ''bps'' \<and> (\<exists>a. js_BigInt (js_prop p ''amount'') = Inr a \<and> 0 \<le> a \<and> a < 2 ^ 256)"
proof -
  from assms have "positive_digits 77 (js_string (js_prop p ''amount''))"
    by (auto simp: checked_transfer_def Let_def split: if_splits)
  then have "js_nat_below (10 ^ 78) (js_prop p ''amount'')"
    by (intro js_nat_below_digits) (simp add: positive_digits_def)
  then show ?thesis using assms
    by (auto simp: checked_transfer_def Let_def js_nat_below_def res_bind_Inr_iff split: if_splits)
qed

lemma checked_route_ok:
  assumes "checked_route p a = Inr u"
  shows "if js_prop p ''kind'' = JStr ''invoice''
    then js_prop p ''destination'' = JStr ''l1'' \<and> \<not> has_key p ''fromL1''
    else \<exists>f. js_BigInt (js_prop p ''fromL1'') = Inr f \<and> 0 \<le> f \<and> f \<le> a"
proof (cases "js_prop p ''kind'' = JStr ''invoice''")
  case False
  with assms have "js_nat_below (10 ^ 9) (js_prop p ''fromL1'')"
    by (intro js_nat_below_digits) (auto simp: checked_route_def Let_def split: if_splits)
  with False assms show ?thesis
    by (auto simp: checked_route_def Let_def js_nat_below_def res_bind_Inr_iff split: if_splits)
qed (use assms in \<open>auto simp: checked_route_def Let_def split: if_splits\<close>)

lemma checkedPayment_ok:
  assumes "checkedPayment isAddr getAddr p = Inr q"
  shows "q = with_recipient getAddr p \<and> payment_ok isAddr p"
proof -
  let ?amount = "js_prop p ''amount''"
  from assms obtain r where r: "js_BigInt (js_prop p ''recipient'') = Inr r"
    and base: "isAddr (js_prop p ''recipient'')" "chain_value (js_prop p ''destination'')"
      "digits_between 1 16 (js_string (js_prop p ''epoch''))"
    by (auto simp: checkedPayment_def Let_def res_bind_Inr_iff split: if_splits)
  note epoch = js_nat_below_digits [OF base(3)]
  show ?thesis
  proof (cases "js_prop p ''kind'' = JStr ''transfer''")
    case True
    with assms r have "checked_transfer getAddr p = Inr q"
      by (auto simp: checkedPayment_def Let_def split: if_splits)
    from checked_transfer_ok [OF this] True base epoch show ?thesis by (simp add: payment_ok_def)
  next
    case False
    with assms r obtain a where a: "js_BigInt ?amount = Inr a" "1 \<le> a" "a \<le> 150000000" "\<not> has_key p ''bps''"
      and route: "checked_route p a = Inr ()" and q: "q = with_recipient getAddr p"
      by (auto simp: checkedPayment_def Let_def res_bind_Inr_iff split: if_splits)
    from checked_route_ok [OF route] a q base epoch False show ?thesis by (simp add: payment_ok_def)
  qed
qed

end
