(* ===== verification/Treasury_Amounts.thy ===== *)
theory Treasury_Amounts
  imports Treasury_Checks
begin

text \<open>
  The text form of amounts: \<open>parseUSDC\<close> reads what \<open>formatUSDC\<close> prints, accepts exactly amounts
  in the payment range, and rejects everything else with an exception of its own.
\<close>

lemma strip_zeros_pad: "strip_zeros s @ replicate (length s - length (strip_zeros s)) CHR ''0'' = s"
proof -
  have tw: "takeWhile (\<lambda>c. c = CHR ''0'') (rev s) = replicate (length (takeWhile (\<lambda>c. c = CHR ''0'') (rev s))) CHR ''0''"
    by (intro replicate_eqI) (auto dest: set_takeWhileD)
  have "length (takeWhile (\<lambda>c. c = CHR ''0'') (rev s)) + length (dropWhile (\<lambda>c. c = CHR ''0'') (rev s)) = length s"
    by (metis length_append length_rev takeWhile_dropWhile_id)
  then have len: "length s - length (strip_zeros s) = length (takeWhile (\<lambda>c. c = CHR ''0'') (rev s))"
    by (simp add: strip_zeros_def)
  have "rev s = takeWhile (\<lambda>c. c = CHR ''0'') (rev s) @ dropWhile (\<lambda>c. c = CHR ''0'') (rev s)" by simp
  then have "s = strip_zeros s @ rev (takeWhile (\<lambda>c. c = CHR ''0'') (rev s))"
    unfolding strip_zeros_def by (metis rev_append rev_rev_ident)
  with len tw show ?thesis by (metis rev_replicate)
qed

lemma length_strip_zeros: "length (strip_zeros s) \<le> length s"
  by (simp add: strip_zeros_def length_dropWhile_le [of _ "rev s", simplified])

lemma set_strip_zeros: "set (strip_zeros s) \<subseteq> set s"
  using set_dropWhileD [of _ _ "rev s"] by (auto simp: strip_zeros_def)

lemma digits_value_zeros: "digits_value 10 0 (replicate k CHR ''0'' @ s) = digits_value 10 0 s"
  by (induction k) (simp_all add: digit_value_def)

lemma is_digit_zero [simp]: "is_digit CHR ''0''"
  by (simp add: is_digit_def)

lemma pad_start_digits: "\<forall>c \<in> set (pad_start k CHR ''0'' (show_nat n)). is_digit c"
  using digits_show_nat [of n] by (auto simp: pad_start_def)

lemma string_BigInt_pad: "string_BigInt (pad_start k CHR ''0'' (show_nat n)) = Inr (int n)"
proof -
  have "pad_start k CHR ''0'' (show_nat n) \<noteq> []" by (simp add: pad_start_def)
  from string_BigInt_digits [OF pad_start_digits this] show ?thesis
    by (simp add: parse_digits_def pad_start_def digits_value_zeros digits_value_show_nat)
qed

lemma no_dot: "\<forall>c \<in> set s. is_digit c \<Longrightarrow> takeWhile (\<lambda>c. c \<noteq> CHR ''.'') (s @ t) = s @ takeWhile (\<lambda>c. c \<noteq> CHR ''.'') t
    \<and> dropWhile (\<lambda>c. c \<noteq> CHR ''.'') (s @ t) = dropWhile (\<lambda>c. c \<noteq> CHR ''.'') t"
  by (induction s) (auto simp: is_digit_def)

text \<open>The two parts of a printed amount.\<close>

lemma usdc_parts_printed:
  assumes w: "digits_between 1 20 w" and f: "\<forall>c \<in> set f. is_digit c" "length f \<le> 6"
  shows "usdc_parts (w @ (if f \<noteq> [] then ''.'' @ f else [])) = Some (w, f)"
proof -
  have d: "\<forall>c \<in> set w. is_digit c" using w by (simp add: digits_between_def)
  show ?thesis
    using no_dot [OF d, of "''.'' @ f"] no_dot [OF d, of "[]"] w f
    by (auto simp: usdc_parts_def Let_def digits_between_def Suc_le_eq)
qed

lemma show_nat_short: "n < 10 ^ 6 \<Longrightarrow> length (show_nat n) \<le> 6"
  by (rule length_show_nat) simp_all

text \<open>C24. Reading the printed form of a payment amount gives the amount back, for every amount from
  one unit to 150 USDC.\<close>
theorem parse_format_roundtrip:
  assumes "0 < v" and "v \<le> 150000000"
  shows "parseUSDC (formatUSDC v) = Inr v"
proof -
  define n where "n = nat (v mod 1000000)"
  have n: "int n = v mod 1000000" "n < 10 ^ 6" by (simp_all add: n_def nat_less_iff)
  let ?pad = "pad_start 6 CHR ''0'' (show_nat n)"
  have len: "length ?pad = 6" using show_nat_short [OF n(2)] by (simp add: pad_start_def)
  have quot: "v sdiv 1000000 = v div 1000000" "v smod 1000000 = v mod 1000000"
    using assms(1) by (simp_all add: signed_divide_int_def signed_modulo_int_def sgn_if)
  have nn: "\<not> v mod 1000000 < 0" by (simp add: not_less)
  have w: "0 \<le> v div 1000000" "v div 1000000 < 10 ^ 20" using assms by auto
  have fmt: "formatUSDC v = show_int (v div 1000000) @ (if strip_zeros ?pad \<noteq> [] then ''.'' @ strip_zeros ?pad else [])"
    using nn by (simp add: formatUSDC_def format_fraction_def Let_def quot show_int_def [of "v mod 1000000"] n_def)
  have parts: "usdc_parts (formatUSDC v) = Some (show_int (v div 1000000), strip_zeros ?pad)"
    unfolding fmt by (rule usdc_parts_printed)
      (use digits_between_show [OF w] set_strip_zeros [of ?pad] pad_start_digits length_strip_zeros [of ?pad] len in auto)
  have "pad_end 6 CHR ''0'' (strip_zeros ?pad) = ?pad"
    using strip_zeros_pad [of ?pad] by (simp add: pad_end_def len)
  with parts string_BigInt_show [OF w(1)] string_BigInt_pad [of 6 n] n(1) assms show ?thesis
    by (simp add: parseUSDC_def Let_def)
qed

theorem parse_format_roundtrip_witness: "parseUSDC (formatUSDC 1050000) = Inr 1050000"
  by (rule parse_format_roundtrip) simp_all

text \<open>Whatever text is entered, reading an amount either gives a value from one unit to 150 USDC
  or throws one of the two messages of the form, never a conversion error.\<close>
theorem parse_range:
  "case parseUSDC text of
     Inr v \<Rightarrow> 1 \<le> v \<and> v \<le> 150000000
   | Inl e \<Rightarrow> e = Thrown ''Enter a positive USDC amount with at most 6 decimals''
       \<or> e = Thrown ''A payment must be greater than 0 and at most 150 USDC''"
proof (cases "usdc_parts text")
  case (Some parts)
  obtain w f where p: "parts = (w, f)" by (cases parts)
  have w: "digits_between 1 20 w" and f: "\<forall>c \<in> set f. is_digit c"
    using Some p by (auto simp: usdc_parts_def Let_def digits_between_def split: if_splits list.splits)
  have "\<forall>c \<in> set (pad_end 6 CHR ''0'' f). is_digit c" "pad_end 6 CHR ''0'' f \<noteq> []"
    using f by (auto simp: pad_end_def)
  then obtain n where "string_BigInt (pad_end 6 CHR ''0'' f) = Inr n"
    using string_BigInt_between [of 1 "length (pad_end 6 CHR ''0'' f)"] by (auto simp: digits_between_def Suc_le_eq)
  moreover obtain m where "string_BigInt w = Inr m" using string_BigInt_between [OF w] by auto
  ultimately show ?thesis using Some p by (auto simp: parseUSDC_def Let_def throw_def)
qed (simp add: parseUSDC_def throw_def)

end
