(* ===== verification/Treasury_Properties.thy ===== *)
theory Treasury_Properties
  imports Treasury_Checks
begin

text \<open>
  What the payment code guarantees: the funding of a payment, the default split, the text form
  of amounts, the spending state read from both chains and the evidence of a settlement.
\<close>

section \<open>Funding\<close>

lemma remaining_nonneg [simp]: "0 \<le> remaining a"
  by (simp add: remaining_def)

lemma js_min_le [simp]: "js_min a b \<le> a" "js_min a b \<le> b"
  by (simp_all add: js_min_def)

lemma capL1_nonneg: "0 \<le> ps_balanceL1 s \<Longrightarrow> 0 \<le> capL1 s"
  by (simp add: capL1_def js_min_def)

text \<open>The preview of a budget payment, with its checks as equations.\<close>

lemma fundingPreview_ok:
  assumes "fundingPreview isAddr getAddr s p = Inr f" and "js_prop p ''kind'' \<noteq> JStr ''transfer''"
  obtains amount where "payment_ok isAddr p" "js_BigInt (js_prop p ''amount'') = Inr amount" "1 \<le> amount" "amount \<le> 150000000"
    "js_BigInt (js_prop p ''epoch'') = Inr (ps_epoch s)" "ps_spent s + amount \<le> ps_globalLimit s"
    "fu_fromL1 f \<le> capL1 s" "fu_fromL2 f \<le> capL2 s" "fu_fromL1 f + fu_fromL2 f = amount"
    "if js_prop p ''kind'' = JStr ''invoice'' then fu_fromL1 f = js_min amount (capL1 s)
     else js_BigInt (js_prop p ''fromL1'') = Inr (fu_fromL1 f) \<and> 0 \<le> fu_fromL1 f \<and> fu_fromL1 f \<le> amount"
proof -
  obtain q a where run: "checkedPayment isAddr getAddr p = Inr q" "js_BigInt (js_prop q ''amount'') = Inr a" "budget_funding s q a = Inr f"
    using assms checkedPayment_ok by (fastforce simp: fundingPreview_def res_bind_Inr_iff)
  from checkedPayment_ok [OF run(1)] have ok: "q = with_recipient getAddr p" "payment_ok isAddr p" by auto
  with run(2) have a: "js_BigInt (js_prop p ''amount'') = Inr a" "1 \<le> a" "a \<le> 150000000"
    using assms(2) by (auto simp: payment_ok_def)
  from run(3) ok(1) obtain x where x: "js_BigInt (js_prop p ''epoch'') = Inr (ps_epoch s)" "ps_spent s + a \<le> ps_globalLimit s"
    "(if js_prop p ''kind'' = JStr ''invoice'' then Inr (js_min a (capL1 s)) else js_BigInt (js_prop p ''fromL1'')) = Inr x"
    "x \<le> capL1 s" "a - x \<le> capL2 s" "f = \<lparr>fu_fromL1 = x, fu_fromL2 = a - x\<rparr>"
    by (auto simp: budget_funding_def res_bind_Inr_iff split: if_splits)
  show ?thesis
    by (rule that [OF ok(2) a x(1,2)]) (use x ok(2) assms(2) a(1) in \<open>auto simp: payment_ok_def split: if_splits\<close>)
qed

text \<open>The preview of a transfer between the Safes: only the balance of the L1 Safe is checked.\<close>

lemma transferPreview_ok:
  assumes "fundingPreview isAddr getAddr s p = Inr f" and "js_prop p ''kind'' = JStr ''transfer''"
  shows "js_prop p ''source'' = JStr ''l1'' \<and> js_prop p ''destination'' = JStr ''l2'' \<and> js_BigInt (js_prop p ''amount'') = Inr (fu_fromL1 f)
    \<and> fu_fromL2 f = 0 \<and> 0 \<le> fu_fromL1 f \<and> fu_fromL1 f < 2 ^ 256 \<and> fu_fromL1 f \<le> ps_balanceL1 s"
proof -
  obtain q a where run: "checkedPayment isAddr getAddr p = Inr q" "js_BigInt (js_prop q ''amount'') = Inr a"
    "(if js_prop q ''kind'' = JStr ''transfer'' then if a > ps_balanceL1 s then throw ''Insufficient balance in the source Safe''
        else Inr \<lparr>fu_fromL1 = a, fu_fromL2 = 0\<rparr> else budget_funding s q a) = Inr f"
    using assms(1) by (auto simp: fundingPreview_def res_bind_Inr_iff)
  from checkedPayment_ok [OF run(1)] assms(2) have "js_prop q ''amount'' = js_prop p ''amount''" "js_prop q ''kind'' = JStr ''transfer''"
    "js_prop p ''source'' = JStr ''l1'' \<and> js_prop p ''destination'' = JStr ''l2'' \<and> (\<exists>a. js_BigInt (js_prop p ''amount'') = Inr a \<and> 0 \<le> a \<and> a < 2 ^ 256)"
    by (simp_all add: payment_ok_def)
  with run(2,3) show ?thesis by (auto split: if_splits)
qed

text \<open>C18. A previewed funding pays the whole amount and takes nothing negative from either Safe and no more than the L1 Safe holds (whose
  balance, a uint256, is not negative). A transfer between the Safes goes from L1 to L2 and takes the amount from the L1 Safe
  alone. A budget payment, of at most 150 USDC, takes from each Safe no more than its balance and its remaining allowance,
  keeps the shared budget and is signed for the current period.\<close>
theorem funding_preview_sound:
  assumes "fundingPreview isAddr getAddr s p = Inr f" and "0 \<le> ps_balanceL1 s"
  shows "\<exists>amount. js_BigInt (js_prop p ''amount'') = Inr amount \<and> fu_fromL1 f + fu_fromL2 f = amount \<and> 0 \<le> fu_fromL1 f \<and> 0 \<le> fu_fromL2 f
    \<and> fu_fromL1 f \<le> ps_balanceL1 s
    \<and> (if js_prop p ''kind'' = JStr ''transfer''
       then js_prop p ''source'' = JStr ''l1'' \<and> js_prop p ''destination'' = JStr ''l2'' \<and> fu_fromL1 f = amount \<and> amount < 2 ^ 256
       else 1 \<le> amount \<and> amount \<le> 150000000
         \<and> fu_fromL1 f \<le> remaining (ps_allowanceL1 s) \<and> fu_fromL2 f \<le> ps_balanceL2 s \<and> fu_fromL2 f \<le> remaining (ps_allowanceL2 s)
         \<and> ps_spent s + amount \<le> ps_globalLimit s \<and> js_BigInt (js_prop p ''epoch'') = Inr (ps_epoch s))"
proof (cases "js_prop p ''kind'' = JStr ''transfer''")
  case True
  with transferPreview_ok [OF assms(1)] show ?thesis by simp
next
  case False
  obtain a where a: "js_BigInt (js_prop p ''amount'') = Inr a" "1 \<le> a" "a \<le> 150000000"
    "js_BigInt (js_prop p ''epoch'') = Inr (ps_epoch s)" "ps_spent s + a \<le> ps_globalLimit s"
    "fu_fromL1 f \<le> capL1 s" "fu_fromL2 f \<le> capL2 s" "fu_fromL1 f + fu_fromL2 f = a"
    "if js_prop p ''kind'' = JStr ''invoice'' then fu_fromL1 f = js_min a (capL1 s)
     else js_BigInt (js_prop p ''fromL1'') = Inr (fu_fromL1 f) \<and> 0 \<le> fu_fromL1 f \<and> fu_fromL1 f \<le> a"
    using fundingPreview_ok [OF assms(1) False] by metis
  have "0 \<le> fu_fromL1 f \<and> fu_fromL1 f \<le> a"
    using a(2,9) capL1_nonneg [OF assms(2)] by (auto simp: js_min_def split: if_splits)
  moreover have "fu_fromL1 f \<le> ps_balanceL1 s" "fu_fromL1 f \<le> remaining (ps_allowanceL1 s)"
    using a(6) js_min_le [of "ps_balanceL1 s" "remaining (ps_allowanceL1 s)"] unfolding capL1_def by linarith+
  moreover have "fu_fromL2 f \<le> ps_balanceL2 s" "fu_fromL2 f \<le> remaining (ps_allowanceL2 s)"
    using a(7) js_min_le [of "ps_balanceL2 s" "remaining (ps_allowanceL2 s)"] unfolding capL2_def by linarith+
  ultimately show ?thesis using a False by auto
qed

text \<open>A concrete payment of 90 units to L1, with 50 left in the L1 Safe and 70 in the L2 Safe.\<close>

definition sample_addr :: "js \<Rightarrow> bool" where
  "sample_addr v \<longleftrightarrow> v = JStr ''0xab''"

definition sample_state :: payment_state where
  "sample_state = \<lparr>ps_epoch = 7, ps_resetsAt = 4800, ps_observedL1 = ''1'', ps_observedL2 = ''2'',
     ps_balanceL1 = 50, ps_balanceL2 = 90,
     ps_allowanceL1 = \<lparr>al_amount = 100, al_spent = 0, al_resetTimeMin = 10, al_lastResetMin = 70, al_nonce = 1\<rparr>,
     ps_allowanceL2 = \<lparr>al_amount = 100, al_spent = 30, al_resetTimeMin = 10, al_lastResetMin = 70, al_nonce = 1\<rparr>,
     ps_spent = 30, ps_globalLimit = 150000000\<rparr>"

definition sample_payment :: payment where
  "sample_payment = [(''recipient'', JStr ''0xab''), (''destination'', JStr ''l1''), (''epoch'', JStr ''7''),
     (''amount'', JStr ''90''), (''fromL1'', JStr ''40'')]"

lemma sample_preview: "fundingPreview sample_addr id sample_state sample_payment = Inr \<lparr>fu_fromL1 = 40, fu_fromL2 = 50\<rparr>"
  by code_simp

definition sample_transfer :: payment where
  "sample_transfer = [(''kind'', JStr ''transfer''), (''source'', JStr ''l1''), (''recipient'', JStr ''0xab''), (''destination'', JStr ''l2''), (''epoch'', JStr ''7''),
     (''amount'', JStr ''45''), (''rollupId'', JStr ''1'')]"

lemma sample_transfer_preview: "fundingPreview sample_addr id sample_state sample_transfer = Inr \<lparr>fu_fromL1 = 45, fu_fromL2 = 0\<rparr>"
  by code_simp

lemma sample_amounts: "js_BigInt (js_prop sample_payment ''amount'') = Inr 90" "js_prop sample_payment ''kind'' \<noteq> JStr ''transfer''"
    "js_BigInt (js_prop sample_transfer ''amount'') = Inr 45" "js_prop sample_transfer ''kind'' = JStr ''transfer''"
  by code_simp+

theorem funding_preview_sound_witness:
  "(\<exists>f. fundingPreview sample_addr id sample_state sample_payment = Inr f \<and> fu_fromL1 f + fu_fromL2 f = 90 \<and> fu_fromL2 f \<le> remaining (ps_allowanceL2 sample_state)
      \<and> ps_spent sample_state + 90 \<le> ps_globalLimit sample_state)
   \<and> (\<exists>f. fundingPreview sample_addr id sample_state sample_transfer = Inr f \<and> fu_fromL1 f = 45 \<and> fu_fromL1 f \<le> ps_balanceL1 sample_state)"
proof -
  have "0 \<le> ps_balanceL1 sample_state" by (simp add: sample_state_def)
  from funding_preview_sound [OF sample_preview this] funding_preview_sound [OF sample_transfer_preview this] sample_amounts
  show ?thesis by (simp add: sample_preview sample_transfer_preview)
qed

section \<open>The default split\<close>

definition with_fromL1 :: "js \<Rightarrow> payment \<Rightarrow> payment" where
  "with_fromL1 f p = jmap_set ''fromL1'' f p"

lemma prop_with_fromL1 [simp]: "js_prop (with_fromL1 f p) k = (if k = ''fromL1'' then f else js_prop p k)"
  by (simp add: with_fromL1_def js_prop_def)

lemma has_key_with_fromL1 [simp]: "has_key (with_fromL1 f p) k \<longleftrightarrow> k = ''fromL1'' \<or> has_key p k"
  by (simp add: with_fromL1_def has_key_iff)

text \<open>The other checks of a fixed payment do not look at its contribution.\<close>

lemma checked_with_fromL1:
  assumes "checkedPayment isAddr getAddr (with_fromL1 f p) = Inr q"
    and kind: "js_prop p ''kind'' \<noteq> JStr ''transfer''" "js_prop p ''kind'' \<noteq> JStr ''invoice''"
    and a: "js_BigInt (js_prop p ''amount'') = Inr a" and d: "0 \<le> d" "d \<le> a" "a \<le> 150000000"
  shows "checkedPayment isAddr getAddr (with_fromL1 (JStr (show_int d)) p) = Inr (with_recipient getAddr (with_fromL1 (JStr (show_int d)) p))"
proof -
  have "digits_between 1 9 (show_int d)" using d by (intro digits_between_show) auto
  then have route: "checked_route (with_fromL1 (JStr (show_int d)) p) a = Inr ()"
    if "checked_route (with_fromL1 f p) a = Inr ()"
    using that kind d string_BigInt_show [OF d(1)]
    by (auto simp: checked_route_def is_text_def Let_def res_bind_Inr_iff split: if_splits)
  from assms(1) kind a obtain r where
    "js_BigInt (js_prop p ''recipient'') = Inr r" "checked_route (with_fromL1 f p) a = Inr ()" "1 \<le> a"
    "js_prop p ''source'' = JUndefined \<or> chain_value (js_prop p ''source'')" "isAddr (js_prop p ''recipient'')" "r \<noteq> 0"
    "chain_value (js_prop p ''destination'')" "\<not> has_key p ''funding''" "digits_between 1 16 (js_string (js_prop p ''epoch''))"
    "budget_kind (js_prop p ''kind'')" "\<not> has_key p ''bps''" "digits_between 1 9 (js_string (js_prop p ''amount''))"
    by (auto simp: checkedPayment_def Let_def res_bind_Inr_iff split: if_splits)
  with route kind a d(3) show ?thesis
    by (auto simp: checkedPayment_def Let_def)
qed

lemma default_split_bounds:
  assumes "0 \<le> x" "x \<le> a" "x \<le> capL1 s" "a - x \<le> capL2 s" "0 \<le> ps_balanceL1 s" "0 \<le> ps_balanceL2 s"
  shows "0 \<le> defaultSplit s a dest" "defaultSplit s a dest \<le> a" "defaultSplit s a dest \<le> capL1 s" "a - defaultSplit s a dest \<le> capL2 s"
    and "dest = To_l1 \<Longrightarrow> x \<le> defaultSplit s a dest" and "dest = To_l2 \<Longrightarrow> defaultSplit s a dest \<le> x"
proof -
  have "0 \<le> capL2 s" using assms(6) by (simp add: capL2_def js_min_def)
  with assms show "0 \<le> defaultSplit s a dest" "defaultSplit s a dest \<le> a" "defaultSplit s a dest \<le> capL1 s" "a - defaultSplit s a dest \<le> capL2 s"
    "dest = To_l1 \<Longrightarrow> x \<le> defaultSplit s a dest" "dest = To_l2 \<Longrightarrow> defaultSplit s a dest \<le> x"
    by (auto simp: defaultSplit_def js_min_def)
qed

text \<open>C19. The default split never refuses a payment that some split could fund: when a fixed
  payment is funded with any contribution, it is funded with the default one. A payment on L1
  then takes as much as possible from the L1 Safe, a payment on L2 as little as possible, so the
  default moves the least value between the chains.\<close>
theorem default_split_funds:
  assumes "fundingPreview isAddr getAddr s (with_fromL1 f p) = Inr g"
    and "js_prop p ''kind'' \<noteq> JStr ''transfer''" and "js_prop p ''kind'' \<noteq> JStr ''invoice''"
    and "js_BigInt (js_prop p ''amount'') = Inr a" and "0 \<le> ps_balanceL1 s" and "0 \<le> ps_balanceL2 s"
  shows "fundingPreview isAddr getAddr s (with_fromL1 (JStr (show_int (defaultSplit s a dest))) p) =
      Inr \<lparr>fu_fromL1 = defaultSplit s a dest, fu_fromL2 = a - defaultSplit s a dest\<rparr> \<and>
    (dest = To_l1 \<longrightarrow> fu_fromL1 g \<le> defaultSplit s a dest) \<and> (dest = To_l2 \<longrightarrow> defaultSplit s a dest \<le> fu_fromL1 g)"
proof -
  let ?d = "defaultSplit s a dest"
  from assms(1) obtain q where q: "checkedPayment isAddr getAddr (with_fromL1 f p) = Inr q"
    by (auto simp: fundingPreview_def res_bind_Inr_iff)
  obtain b where b: "js_BigInt (js_prop p ''amount'') = Inr b" "b \<le> 150000000" "js_BigInt (js_prop p ''epoch'') = Inr (ps_epoch s)"
    "ps_spent s + b \<le> ps_globalLimit s" "fu_fromL1 g \<le> capL1 s" "fu_fromL2 g \<le> capL2 s" "fu_fromL1 g + fu_fromL2 g = b"
    "0 \<le> fu_fromL1 g" "fu_fromL1 g \<le> b"
    by (rule fundingPreview_ok [OF assms(1)]) (use assms(2,3) in auto)
  from b(1) assms(4) have [simp]: "b = a" by simp
  from b(7) have g2: "fu_fromL2 g = a - fu_fromL1 g" by simp
  note split = default_split_bounds [of "fu_fromL1 g" a s dest, OF b(8) b(9) [simplified] b(5) b(6) [unfolded g2] assms(5,6)]
  from checked_with_fromL1 [OF q assms(2-4) split(1,2)] b(2) split(1-4) b(3,4) string_BigInt_show [OF split(1)] assms(2-4)
  show ?thesis using split(5,6) by (simp add: fundingPreview_def budget_funding_def)
qed

theorem default_split_funds_witness:
  "fundingPreview sample_addr id sample_state (with_fromL1 (JStr (show_int (defaultSplit sample_state 90 To_l1))) sample_payment)
     = Inr \<lparr>fu_fromL1 = 50, fu_fromL2 = 40\<rparr>"
proof -
  have run: "fundingPreview sample_addr id sample_state (with_fromL1 (JStr ''40'') sample_payment) = Inr \<lparr>fu_fromL1 = 40, fu_fromL2 = 50\<rparr>"
    by code_simp
  have d: "defaultSplit sample_state 90 To_l1 = 50" by code_simp
  have "js_BigInt (js_prop sample_payment ''amount'') = Inr 90" by code_simp
  from default_split_funds [OF run _ _ this, of To_l1] d show ?thesis
    by (simp add: sample_payment_def sample_state_def js_prop_def jmap_get_def)
qed

text \<open>The greedy funding of an invoice is complete: for a checked invoice in the current period
  and within the shared budget, the preview succeeds exactly when the two Safes can fund the
  amount together.\<close>
theorem invoice_funding_complete:
  assumes "checkedPayment isAddr getAddr p = Inr q" and "js_prop p ''kind'' = JStr ''invoice''"
    and "js_BigInt (js_prop p ''amount'') = Inr a" and "js_BigInt (js_prop p ''epoch'') = Inr (ps_epoch s)"
    and "ps_spent s + a \<le> ps_globalLimit s" and "0 \<le> ps_balanceL1 s" and "0 \<le> ps_balanceL2 s"
  shows "(\<exists>f. fundingPreview isAddr getAddr s p = Inr f) \<longleftrightarrow>
    (\<exists>x y. 0 \<le> x \<and> 0 \<le> y \<and> x + y = a \<and> x \<le> capL1 s \<and> y \<le> capL2 s)"
proof -
  have q: "q = with_recipient getAddr p" and a: "1 \<le> a"
    using checkedPayment_ok [OF assms(1)] assms(2,3) by (auto simp: payment_ok_def)
  have preview: "fundingPreview isAddr getAddr s p =
      (if a - js_min a (capL1 s) > capL2 s then throw ''Insufficient balance or Safe allowance for this funding route''
       else Inr \<lparr>fu_fromL1 = js_min a (capL1 s), fu_fromL2 = a - js_min a (capL1 s)\<rparr>)"
    using assms(1-5) by (auto simp: fundingPreview_def budget_funding_def q not_less js_min_def)
  have caps: "0 \<le> capL1 s" "0 \<le> capL2 s" using assms(6,7) by (simp_all add: capL1_def capL2_def js_min_def)
  show ?thesis
  proof
    assume "\<exists>f. fundingPreview isAddr getAddr s p = Inr f"
    then have "a - js_min a (capL1 s) \<le> capL2 s" by (auto simp: preview split: if_splits)
    then show "\<exists>x y. 0 \<le> x \<and> 0 \<le> y \<and> x + y = a \<and> x \<le> capL1 s \<and> y \<le> capL2 s"
      using caps a by (intro exI [of _ "js_min a (capL1 s)"] exI [of _ "a - js_min a (capL1 s)"]) (auto simp: js_min_def)
  next
    assume "\<exists>x y. 0 \<le> x \<and> 0 \<le> y \<and> x + y = a \<and> x \<le> capL1 s \<and> y \<le> capL2 s"
    then show "\<exists>f. fundingPreview isAddr getAddr s p = Inr f" using a by (auto simp: preview js_min_def)
  qed
qed

definition sample_invoice :: payment where
  "sample_invoice = [(''recipient'', JStr ''0xab''), (''destination'', JStr ''l1''), (''epoch'', JStr ''7''),
     (''amount'', JStr ''90''), (''kind'', JStr ''invoice''), (''invoiceId'', JStr (''0x'' @ replicate 63 CHR ''0'' @ ''1''))]"

theorem invoice_funding_complete_witness: "\<exists>f. fundingPreview sample_addr id sample_state sample_invoice = Inr f"
proof -
  have "\<exists>q. checkedPayment sample_addr id sample_invoice = Inr q"
    by (rule exI [of _ "with_recipient id sample_invoice"]) code_simp
  then obtain q where q: "checkedPayment sample_addr id sample_invoice = Inr q" by blast
  have "js_BigInt (js_prop sample_invoice ''amount'') = Inr 90" "js_prop sample_invoice ''kind'' = JStr ''invoice''"
    "js_BigInt (js_prop sample_invoice ''epoch'') = Inr (ps_epoch sample_state)"
    "capL1 sample_state = 50" "capL2 sample_state = 70"
    by code_simp+
  with invoice_funding_complete [OF q, of 90 sample_state] show ?thesis
    by (simp add: sample_state_def) (rule exI [of _ 50], simp)
qed

end
