(* ===== verification/Treasury_Settlement.thy ===== *)
theory Treasury_Settlement
  imports Treasury_Properties
begin

text \<open>
  The spending state read from both chains, the settlement evidence of a payment and the
  interface version of a saved deployment.
\<close>

section \<open>The spending state\<close>

lemma aligned_allowance_ok:
  assumes "aligned_allowance epoch a = Inr b"
  shows "al_lastResetMin b = epoch * 10 \<and> al_resetTimeMin b = 10 \<and> al_amount b = al_amount a \<and> al_nonce b = al_nonce a
    \<and> al_spent b = (if al_lastResetMin a < epoch * 10 then 0 else al_spent a) \<and> al_lastResetMin a \<le> epoch * 10"
  using assms by (auto simp: aligned_allowance_def split: if_splits)

definition carried :: "state_readings \<Rightarrow> int \<Rightarrow> int \<Rightarrow> int \<times> int" where
  "carried r epoch block = (case sr_carried r of None \<Rightarrow> (0, 0) | Some c \<Rightarrow> c epoch block)"

definition spent_in :: "int \<Rightarrow> allowance \<Rightarrow> int" where
  "spent_in epoch a = (if al_lastResetMin a < epoch * 10 then 0 else al_spent a)"

lemma with_carried_simps [simp]:
  "al_spent (fst (with_carried r e b as)) = al_spent (fst as) + fst (carried r e b)"
  "al_spent (snd (with_carried r e b as)) = al_spent (snd as) + snd (carried r e b)"
  "al_amount (fst (with_carried r e b as)) = al_amount (fst as)" "al_amount (snd (with_carried r e b as)) = al_amount (snd as)"
  "al_lastResetMin (fst (with_carried r e b as)) = al_lastResetMin (fst as)"
  "al_lastResetMin (snd (with_carried r e b as)) = al_lastResetMin (snd as)"
  by (auto simp: with_carried_def carried_def carry_spending_def split: option.split prod.split)

text \<open>A spending state that is returned belongs to the ten-minute period of the L1 clock, which
  ends within the next ten minutes; both allowances are counted in this period (spending of an
  earlier period is dropped, carried spending of a predecessor policy is added), the L2 block is
  not from a later period, and all values were read at blocks that are still on their chain.\<close>
theorem paymentState_period:
  assumes "paymentState r = Inr s" and "sr_l1 r = Some l1" and "sr_l2 r = Some l2"
    and "0 \<le> br_timestamp l1" and "0 \<le> br_timestamp l2"
  shows "ps_epoch s = br_timestamp l1 div 600 \<and> br_timestamp l2 div 600 \<le> ps_epoch s \<and>
    br_timestamp l1 < ps_resetsAt s \<and> ps_resetsAt s \<le> br_timestamp l1 + 600 \<and>
    al_lastResetMin (ps_allowanceL1 s) = ps_epoch s * 10 \<and> al_lastResetMin (ps_allowanceL2 s) = ps_epoch s * 10 \<and>
    al_spent (ps_allowanceL1 s) = spent_in (ps_epoch s) (sr_allowanceL1 r (br_number l1)) + fst (carried r (ps_epoch s) (br_number l2)) \<and>
    al_spent (ps_allowanceL2 s) = spent_in (ps_epoch s) (sr_allowanceL2 r (br_number l2)) + snd (carried r (ps_epoch s) (br_number l2)) \<and>
    br_again l1 = Some (br_hash l1) \<and> br_again l2 = Some (br_hash l2)"
proof -
  let ?e = "br_timestamp l1 div 600"
  have e: "br_timestamp l1 sdiv 600 = ?e" "br_timestamp l2 sdiv 600 = br_timestamp l2 div 600"
    using assms(4,5) by (auto simp: signed_divide_int_def sgn_if)
  from assms(1-3) obtain a1 a2 where a: "br_timestamp l2 div 600 \<le> ?e"
    "aligned_allowance ?e (sr_allowanceL1 r (br_number l1)) = Inr a1"
    "aligned_allowance ?e (sr_allowanceL2 r (br_number l2)) = Inr a2"
    "br_again l1 = Some (br_hash l1)" "br_again l2 = Some (br_hash l2)"
    "ps_epoch s = ?e" "ps_resetsAt s = (?e + 1) * 600"
    "ps_allowanceL1 s = fst (with_carried r ?e (br_number l2) (a1, a2))"
    "ps_allowanceL2 s = snd (with_carried r ?e (br_number l2) (a1, a2))"
    by (auto simp: paymentState_def Let_def e res_bind_Inr_iff split: if_splits)
  have "br_timestamp l1 < (?e + 1) * 600" "(?e + 1) * 600 \<le> br_timestamp l1 + 600"
    using div_mult_mod_eq [of "br_timestamp l1" 600] pos_mod_bound [of 600 "br_timestamp l1"] pos_mod_sign [of 600 "br_timestamp l1"] by simp_all
  with a aligned_allowance_ok [OF a(2)] aligned_allowance_ok [OF a(3)] show ?thesis
    by (simp add: spent_in_def)
qed

definition sample_readings :: state_readings where
  "sample_readings = \<lparr>sr_l1 = Some \<lparr>br_number = 5, br_hash = ''0x1'', br_timestamp = 1250, br_again = Some ''0x1''\<rparr>,
     sr_l2 = Some \<lparr>br_number = 9, br_hash = ''0x2'', br_timestamp = 1100, br_again = Some ''0x2''\<rparr>,
     sr_balanceL1 = (\<lambda>_. 50), sr_balanceL2 = (\<lambda>_. 90),
     sr_allowanceL1 = (\<lambda>_. \<lparr>al_amount = 100, al_spent = 7, al_resetTimeMin = 10, al_lastResetMin = 20, al_nonce = 1\<rparr>),
     sr_allowanceL2 = (\<lambda>_. \<lparr>al_amount = 100, al_spent = 9, al_resetTimeMin = 10, al_lastResetMin = 10, al_nonce = 1\<rparr>),
     sr_spent = (\<lambda>_ _. 7), sr_carried = None\<rparr>"

theorem paymentState_period_witness:
  "\<exists>s. paymentState sample_readings = Inr s \<and> ps_epoch s = 2 \<and> ps_resetsAt s \<le> 1850 \<and>
     al_spent (ps_allowanceL1 s) = 7 \<and> al_spent (ps_allowanceL2 s) = 0"
proof -
  obtain s where s: "paymentState sample_readings = Inr s"
    by (simp add: paymentState_def sample_readings_def Let_def signed_divide_int_def signed_modulo_int_def aligned_allowance_def)
  from paymentState_period [OF s, of "the (sr_l1 sample_readings)" "the (sr_l2 sample_readings)"]
  have "ps_epoch s = 2 \<and> ps_resetsAt s \<le> 1850 \<and> al_spent (ps_allowanceL1 s) = 7 \<and> al_spent (ps_allowanceL2 s) = 0"
    by (simp add: sample_readings_def spent_in_def carried_def)
  with s show ?thesis by blast
qed

section \<open>Settlement\<close>

lemma prop_without_key [simp]: "js_prop (without_key k p) k' = (if k' = k then JUndefined else js_prop p k')"
proof -
  have "map_of (filter (\<lambda>(k', _). k' \<noteq> k) p) k' = (if k' = k then None else map_of p k')"
    by (induction p) auto
  then show ?thesis by (simp add: without_key_def js_prop_def jmap_get_def)
qed

text \<open>A recorded payment has an amount, a period and, where it names one, a contribution.\<close>

lemma recorded_ok:
  assumes "checkedRecordedPayment isAddr getAddr p0 = Inr p"
  shows "\<exists>q. payment_ok isAddr q \<and> (\<forall>k. k \<noteq> ''fromL1'' \<longrightarrow> k \<noteq> ''funding'' \<longrightarrow> js_prop q k = js_prop p0 k)
    \<and> (has_key p0 ''fromL1'' \<longrightarrow> js_prop q ''fromL1'' = js_prop p0 ''fromL1'')
    \<and> (\<forall>k. k \<noteq> ''recipient'' \<longrightarrow> js_prop p k = js_prop p0 k) \<and> (has_key p ''fromL1'' = has_key p0 ''fromL1'')
    \<and> (js_prop p ''recipient'' = js_prop p0 ''recipient'' \<or> js_prop p ''recipient'' = JStr (getAddr (js_string (js_prop p0 ''recipient''))))"
proof (cases "has_key p0 ''funding''")
  case False
  with assms have c: "checkedPayment isAddr getAddr p0 = Inr p" by (simp add: checkedRecordedPayment_def)
  from checkedPayment_ok [OF c] show ?thesis by (auto intro!: exI [of _ p0])
next
  case True
  have "(\<exists>q. checkedPayment isAddr getAddr (without_key ''funding'' p0) = Inr q) \<or>
    (\<not> has_key p0 ''fromL1'' \<and> (\<exists>q. checkedPayment isAddr getAddr (jmap_set ''fromL1'' (JStr ''0'') (without_key ''funding'' p0)) = Inr q))"
    and p: "p = p0"
    using assms True by (auto simp: checkedRecordedPayment_def Let_def res_bind_Inr_iff split: if_splits)
  then obtain q0 q where q0: "checkedPayment isAddr getAddr q0 = Inr q"
    and eq: "q0 = without_key ''funding'' p0 \<or> \<not> has_key p0 ''fromL1'' \<and> q0 = with_fromL1 (JStr ''0'') (without_key ''funding'' p0)"
    by (auto simp: with_fromL1_def)
  from checkedPayment_ok [OF q0] eq show ?thesis unfolding p by (intro exI [of _ q0]) auto
qed

lemma invoice_evidence_iff:
  "invoice_evidence p events \<longleftrightarrow>
     (if js_prop p ''kind'' = JStr ''invoice''
      then \<exists>i. filter is_invoice_paid events = [InvoicePaid i] \<and> js_prop p ''invoiceId'' = JStr i
      else filter is_invoice_paid events = [])"
  by (cases "filter is_invoice_paid events"; cases "tl (filter is_invoice_paid events)")
     (auto simp: invoice_evidence_def Let_def split: policy_event.split)

lemma single_case_iff:
  "(case xs of [e] \<Rightarrow> f e | _ \<Rightarrow> Inr None) = Inr (Some r) \<longleftrightarrow> (\<exists>e. xs = [e] \<and> f e = Inr (Some r))"
  by (cases xs; cases "tl xs") auto

text \<open>C21. Contributions are reported for a payment only when the logs of its policy contain exactly
  one \<open>Paid\<close> event, and this event carries the period, the destination, the recipient, the amount and the
  signed L1 contribution of the payment; the two contributions add up to the amount, which is at
  most 150 USDC, and an invoice payment has exactly one \<open>InvoicePaid\<close> event, with its invoice.\<close>
theorem settled_payment_sound:
  assumes "settledPayment isAddr getAddr policy tokenL1 p0 logs = Inr (Some (a, b))"
  shows "\<exists>token recipient onL1 amount x y e.
    filter is_paid (policy_events policy logs) = [Paid token recipient onL1 amount x y e] \<and>
    js_lower token = js_lower tokenL1 \<and>
    js_lower recipient \<in> {js_lower (js_string (js_prop p0 ''recipient'')), js_lower (getAddr (js_string (js_prop p0 ''recipient'')))} \<and>
    onL1 = (js_prop p0 ''destination'' = JStr ''l1'') \<and>
    a = show_int x \<and> b = show_int y \<and> x + y = amount \<and> 1 \<le> amount \<and> amount \<le> 150000000 \<and>
    js_BigInt (js_prop p0 ''amount'') = Inr amount \<and> js_BigInt (js_prop p0 ''epoch'') = Inr e \<and>
    (has_key p0 ''fromL1'' \<longrightarrow> js_BigInt (js_prop p0 ''fromL1'') = Inr x) \<and>
    (if js_prop p0 ''kind'' = JStr ''invoice''
     then \<exists>i. filter is_invoice_paid (policy_events policy logs) = [InvoicePaid i] \<and> js_prop p0 ''invoiceId'' = JStr i
     else filter is_invoice_paid (policy_events policy logs) = [])"
proof -
  let ?paid = "filter is_paid (policy_events policy logs)" and ?inv = "filter is_invoice_paid (policy_events policy logs)"
  obtain p where p: "checkedRecordedPayment isAddr getAddr p0 = Inr p"
    using assms by (auto simp: settledPayment_def res_bind_Inr_iff)
  obtain q where q0: "payment_ok isAddr q" "\<forall>k. k \<noteq> ''fromL1'' \<longrightarrow> k \<noteq> ''funding'' \<longrightarrow> js_prop q k = js_prop p0 k"
    and same0: "\<forall>k. k \<noteq> ''recipient'' \<longrightarrow> js_prop p k = js_prop p0 k" and key: "has_key p ''fromL1'' = has_key p0 ''fromL1''"
    and rec0: "js_prop p ''recipient'' = js_prop p0 ''recipient'' \<or> js_prop p ''recipient'' = JStr (getAddr (js_string (js_prop p0 ''recipient'')))"
    using recorded_ok [OF p] by blast
  have q: "payment_ok isAddr q" "js_prop q ''amount'' = js_prop p0 ''amount''" using q0 by simp_all
  note same = same0 [rule_format] key
  have rec: "js_lower (js_string (js_prop p ''recipient'')) \<in> {js_lower (js_string (js_prop p0 ''recipient'')), js_lower (getAddr (js_string (js_prop p0 ''recipient'')))}"
    using rec0 by auto
  have run: "(if \<not> invoice_evidence p (policy_events policy logs) then Inr None
      else case ?paid of [e] \<Rightarrow> paid_contributions tokenL1 p e | _ \<Rightarrow> Inr None) = Inr (Some (a, b))"
    using assms by (simp add: settledPayment_def p Let_def)
  then have inv: "invoice_evidence p (policy_events policy logs)" by (cases "invoice_evidence p (policy_events policy logs)") simp_all
  with run obtain e where ev: "?paid = [e]" and c: "paid_contributions tokenL1 p e = Inr (Some (a, b))"
    by (auto simp: single_case_iff)
  have "is_paid e" using ev by (metis filter_eq_ConsD)
  then obtain token recipient onL1 amount x y n where e: "e = Paid token recipient onL1 amount x y n"
    by (cases e) (auto simp: is_paid_def)
  with c same have f: "same_identity tokenL1 p token recipient onL1" "js_BigInt (js_prop p0 ''epoch'') = Inr n"
    "amount \<noteq> 0" "amount \<le> 150000000" "x + y = amount" "js_BigInt (js_prop p0 ''amount'') = Inr amount"
    "has_key p0 ''fromL1'' \<Longrightarrow> js_BigInt (js_prop p0 ''fromL1'') = Inr x" "a = show_int x" "b = show_int y"
    by (auto simp: paid_contributions_def res_bind_Inr_iff split: if_splits)
  have "0 \<le> amount" using q f(6) by (auto simp: payment_ok_def split: if_splits)
  with f have n: "1 \<le> amount" by simp
  have inv': "if js_prop p0 ''kind'' = JStr ''invoice'' then \<exists>i. ?inv = [InvoicePaid i] \<and> js_prop p0 ''invoiceId'' = JStr i else ?inv = []"
    using inv same(1) [of "''kind''"] same(1) [of "''invoiceId''"]
    by (cases "js_prop p0 ''kind'' = JStr ''invoice''") (simp_all add: invoice_evidence_iff)
  have ident: "js_lower token = js_lower tokenL1" "onL1 = (js_prop p0 ''destination'' = JStr ''l1'')"
    "js_lower recipient \<in> {js_lower (js_string (js_prop p0 ''recipient'')), js_lower (getAddr (js_string (js_prop p0 ''recipient'')))}"
    using f(1) same(1) [of "''destination''"] rec unfolding same_identity_def by simp_all
  have ev': "?paid = [Paid token recipient onL1 amount x y n]" using ev e by simp
  show ?thesis
    by (intro exI [of _ token] exI [of _ recipient] exI [of _ onL1] exI [of _ amount] exI [of _ x] exI [of _ y] exI [of _ n] conjI)
       (rule ev' ident f n inv' impI | assumption)+
qed

definition paid_log :: "string \<Rightarrow> policy_event \<Rightarrow> receipt_log" where
  "paid_log address e = \<lparr>lg_address = address, lg_event = Some e\<rparr>"

definition sample_logs :: "receipt_log list" where
  "sample_logs = [paid_log ''0xq'' Other_policy_event, paid_log ''0xP'' (Paid ''0xT'' ''0xAB'' True 90 40 50 7)]"

lemma sample_events:
  "filter is_paid (policy_events ''0xp'' sample_logs) = [Paid ''0xT'' ''0xAB'' True 90 40 50 7]"
  "filter is_invoice_paid (policy_events ''0xp'' sample_logs) = []"
  by code_simp+

lemma sample_fields:
  "js_prop sample_payment ''kind'' = JUndefined" "js_prop sample_payment ''destination'' = JStr ''l1''"
  "js_string (js_prop sample_payment ''recipient'') = ''0xab''" "ps_epoch sample_state = 7"
  "js_BigInt (js_prop sample_payment ''epoch'') = Inr 7" "js_BigInt (js_prop sample_payment ''amount'') = Inr 90"
  "js_BigInt (js_prop sample_payment ''fromL1'') = Inr 40" "has_key sample_payment ''fromL1''"
  "show_int 40 = ''40''" "show_int 50 = ''50''" "js_lower ''0xT'' = js_lower ''0xt''" "js_lower ''0xAB'' = js_lower ''0xab''"
  by code_simp+

lemma sample_checked: "checkedRecordedPayment sample_addr id sample_payment = Inr sample_payment"
  by code_simp

lemma sample_settled:
  "settledPayment sample_addr id ''0xp'' ''0xt'' sample_payment sample_logs = Inr (Some (''40'', ''50''))"
  by (simp add: settledPayment_def sample_checked sample_events sample_fields Let_def same_identity_def
      invoice_evidence_def paid_contributions_def)

theorem settled_payment_sound_witness:
  "\<exists>x y. ''40'' = show_int x \<and> ''50'' = show_int y \<and> js_BigInt (js_prop sample_payment ''amount'') = Inr (x + y)"
  using settled_payment_sound [OF sample_settled] by blast

text \<open>A settlement of what was previewed is recognised: when the policy emits one \<open>Paid\<close> event
  with the previewed contributions of a payment (and the payment's invoice, for an invoice),
  exactly these contributions are reported, whatever other contracts logged.\<close>
theorem preview_settles:
  assumes "fundingPreview isAddr getAddr s p = Inr f" and "js_prop p ''kind'' \<noteq> JStr ''transfer''"
    and "filter is_paid (policy_events policy logs) =
      [Paid token recipient onL1 (fu_fromL1 f + fu_fromL2 f) (fu_fromL1 f) (fu_fromL2 f) (ps_epoch s)]"
    and "js_lower token = js_lower tokenL1" and "js_lower recipient = js_lower (getAddr (js_string (js_prop p ''recipient'')))"
    and "onL1 = (js_prop p ''destination'' = JStr ''l1'')"
    and "filter is_invoice_paid (policy_events policy logs) =
      (if js_prop p ''kind'' = JStr ''invoice'' then [InvoicePaid i] else [])"
    and "js_prop p ''kind'' = JStr ''invoice'' \<Longrightarrow> js_prop p ''invoiceId'' = JStr i"
  shows "settledPayment isAddr getAddr policy tokenL1 p logs = Inr (Some (show_int (fu_fromL1 f), show_int (fu_fromL2 f)))"
proof -
  obtain q where q: "checkedPayment isAddr getAddr p = Inr q"
    using assms(1) by (auto simp: fundingPreview_def res_bind_Inr_iff)
  then have funding: "\<not> has_key p ''funding''"
    by (auto simp: checkedPayment_def Let_def res_bind_Inr_iff split: if_splits)
  have qq: "q = with_recipient getAddr p" using checkedPayment_ok [OF q] by simp
  obtain a where a: "payment_ok isAddr p" "js_BigInt (js_prop p ''amount'') = Inr a" "1 \<le> a" "a \<le> 150000000"
    "js_BigInt (js_prop p ''epoch'') = Inr (ps_epoch s)" "fu_fromL1 f + fu_fromL2 f = a"
    "js_prop p ''kind'' \<noteq> JStr ''invoice'' \<Longrightarrow> js_BigInt (js_prop p ''fromL1'') = Inr (fu_fromL1 f)"
    by (rule fundingPreview_ok [OF assms(1,2)]) (auto split: if_splits)
  have key: "has_key p ''fromL1'' \<Longrightarrow> js_prop p ''kind'' \<noteq> JStr ''invoice''"
    using a(1) by (auto simp: payment_ok_def)
  show ?thesis
    using funding q assms(2-8) a(2-6) a(7) [OF key]
    by (cases "js_prop p ''kind'' = JStr ''invoice''"; cases "has_key p ''fromL1''")
       (simp_all add: settledPayment_def checkedRecordedPayment_def qq Let_def same_identity_def
         invoice_evidence_iff paid_contributions_def)
qed

theorem preview_settles_witness:
  "settledPayment sample_addr id ''0xp'' ''0xt'' sample_payment sample_logs = Inr (Some (''40'', ''50''))"
  using preview_settles [OF sample_preview, of "''0xp''" sample_logs "''0xT''" "''0xAB''" True "''0xt''" "[]"] sample_events sample_fields
  by simp

section \<open>Saved deployments\<close>

text \<open>A saved deployment that is accepted is returned unchanged and has exactly one interface
  version, 0, 1 or 2: the one it names, or, for a manifest without a version, the one its old flags
  stand for; and a version above 0 is present whenever a path to L1 is offered from a
  versioned manifest.\<close>
theorem saved_deployment_version:
  assumes "readPaymentDeployment p = Inr q"
  shows "q = p \<and> (\<exists>n \<in> {0, 1, 2}. paymentVersion p = JNum n \<and>
    (if js_prop p ''version'' \<noteq> JUndefined
     then js_prop p ''version'' = JNum n \<and> verifiesL1Initiation p = (0 < n) \<and> verifiesReverseFunding p = (0 < n)
     else n = (if js_prop p ''exactSplits'' = JBool True then (if js_prop p ''abiVersion'' = JUndefined then 1 else 2) else 0)))"
proof -
  have flags: "boolean_or_absent (js_prop p ''exactSplits'')" and ver: "version_number (paymentVersion p)"
    and abi: "js_prop p ''abiVersion'' \<noteq> JUndefined \<Longrightarrow> js_prop p ''abiVersion'' = JNum 2 \<and> js_truthy (js_prop p ''exactSplits'')"
    and v: "js_prop p ''version'' \<noteq> JUndefined \<Longrightarrow> version_number (js_prop p ''version'')" and "q = p"
    using assms by (auto simp: readPaymentDeployment_def Let_def split: if_splits)
  show ?thesis
  proof (cases "js_prop p ''version'' = JUndefined")
    case False
    with v have "version_number (js_prop p ''version'')" by simp
    with False \<open>q = p\<close> show ?thesis
      by (auto simp: version_number_def paymentVersion_def js_coalesce_def verifiesL1Initiation_def
          verifiesReverseFunding_def positive_version_def)
  next
    case True
    then have "js_truthy (js_prop p ''exactSplits'') = (js_prop p ''exactSplits'' = JBool True)"
      using flags by (cases "js_prop p ''exactSplits''") (auto simp: boolean_or_absent_def)
    with True abi \<open>q = p\<close> show ?thesis
      by (cases "js_prop p ''abiVersion'' = JUndefined") (auto simp: paymentVersion_def js_coalesce_def)
  qed
qed

theorem saved_deployment_version_witness:
  "paymentVersion [(''exactSplits'', JBool True), (''abiVersion'', JNum 2)] = JNum 2"
proof -
  have "readPaymentDeployment [(''exactSplits'', JBool True), (''abiVersion'', JNum 2)] =
      Inr [(''exactSplits'', JBool True), (''abiVersion'', JNum 2)]" by code_simp
  from saved_deployment_version [OF this] show ?thesis
    by (auto simp: js_prop_def jmap_get_def)
qed

end
