(* ===== verification/Safe_Approvals.thy ===== *)
theory Safe_Approvals
  imports Treasury_Payments "HOL-Library.Multiset"
begin

text \<open>
  \<open>src/src/lib/treasury/safeTransactions.ts\<close>: the reviewed Safe transaction and the packing of
  owner approvals. The functions of the ABI library are the fields of \<open>safe_lib\<close>: \<open>isAddress\<close>,
  \<open>getAddress\<close>, \<open>size\<close>, \<open>concatHex\<close>, \<open>toHex\<close> of an integer in 32 bytes, \<open>hashTypedData\<close> and
  \<open>recoverAddress\<close>, which may throw.
\<close>

record safe_message =
  sm_to :: string
  sm_value :: int
  sm_data :: string
  sm_operation :: int
  sm_safeTxGas :: int
  sm_baseGas :: int
  sm_gasPrice :: int
  sm_gasToken :: string
  sm_refundReceiver :: string
  sm_nonce :: int

record safe_transaction =
  st_chainId :: int
  st_verifyingContract :: string
  st_message :: safe_message

record safe_lib =
  lib_isAddress :: "string \<Rightarrow> bool"
  lib_getAddress :: "string \<Rightarrow> string"
  lib_size :: "string \<Rightarrow> int"
  lib_concatHex :: "string list \<Rightarrow> string"
  lib_toHex32 :: "int \<Rightarrow> string"
  lib_hash :: "safe_transaction \<Rightarrow> string"
  lib_recover :: "string \<Rightarrow> string \<Rightarrow> js_error + string"

section \<open>The reviewed transaction\<close>

definition zeroAddress :: string where
  "zeroAddress = ''0x0000000000000000000000000000000000000000''"

definition checked_address :: "safe_lib \<Rightarrow> string \<Rightarrow> string \<Rightarrow> js_error + string" where
  "checked_address lib value name =
     (if \<not> lib_isAddress lib value \<or> js_lower value = zeroAddress then throw (''Invalid '' @ name)
      else Inr (lib_getAddress lib value))"

definition uint256 :: "int \<Rightarrow> string \<Rightarrow> js_error + int" where
  "uint256 value name = (if value < 0 \<or> value \<ge> 2 ^ 256 then throw (''Invalid '' @ name) else Inr value)"

text \<open>\<open>/^0x(?:[0-9a-fA-F]{2})*$/\<close>\<close>

definition bytes :: "string \<Rightarrow> js_error + unit" where
  "bytes value =
     (if take 2 value = ''0x'' \<and> even (length value) \<and> (\<forall>c \<in> set (drop 2 value). is_hex_digit c) then Inr ()
      else throw ''Invalid calldata bytes'')"

record safe_input =
  in_chainId :: int
  in_safe :: string
  in_to :: string
  in_data :: string
  in_nonce :: int
  in_operation :: "int option"

definition input_operation :: "safe_input \<Rightarrow> int" where
  "input_operation inp = (case in_operation inp of None \<Rightarrow> 0 | Some n \<Rightarrow> n)"

definition buildSafeTransaction :: "safe_lib \<Rightarrow> safe_input \<Rightarrow> js_error + safe_transaction" where
  "buildSafeTransaction lib inp =
     res_bind (uint256 (in_chainId inp) ''chain ID'') (\<lambda>chainId.
     if chainId = 0 then throw ''Invalid chain ID''
     else res_bind (bytes (in_data inp)) (\<lambda>_.
     if input_operation inp \<noteq> 0 \<and> input_operation inp \<noteq> 1 then throw ''Invalid Safe operation''
     else res_bind (checked_address lib (in_safe inp) ''Safe'') (\<lambda>safe.
          res_bind (checked_address lib (in_to inp) ''target'') (\<lambda>to.
          res_bind (uint256 (in_nonce inp) ''Safe nonce'') (\<lambda>nonce.
            Inr \<lparr>st_chainId = chainId, st_verifyingContract = safe,
                 st_message = \<lparr>sm_to = to, sm_value = 0, sm_data = in_data inp, sm_operation = input_operation inp,
                   sm_safeTxGas = 0, sm_baseGas = 0, sm_gasPrice = 0, sm_gasToken = zeroAddress,
                   sm_refundReceiver = zeroAddress, sm_nonce = nonce\<rparr>\<rparr>)))))"

section \<open>Approvals\<close>

record approval =
  ap_owner :: string
  ap_signature :: string

text \<open>\<open>/1[bBcC]$/\<close>: the recovery byte of a typed-data signature is 27 or 28.\<close>

definition typed_data_v :: "string \<Rightarrow> bool" where
  "typed_data_v s \<longleftrightarrow> length s \<ge> 2 \<and> js_lower (js_slice_last 2 s) \<in> {''1b'', ''1c''}"

fun check_approvals ::
  "safe_lib \<Rightarrow> string \<Rightarrow> string list \<Rightarrow> string list \<Rightarrow> approval list \<Rightarrow> js_error + approval list" where
  "check_approvals lib hash ownerSet seen [] = Inr []"
| "check_approvals lib hash ownerSet seen (a # as) =
     res_bind (checked_address lib (ap_owner a) ''signer'') (\<lambda>owner.
       if js_lower owner \<notin> set ownerSet \<or> js_lower owner \<in> set seen then throw ''Unknown or duplicate owner''
       else res_bind (bytes (ap_signature a)) (\<lambda>_.
         if lib_size lib (ap_signature a) \<noteq> 65 \<or> \<not> typed_data_v (ap_signature a)
           then throw ''Expected a 65-byte EOA typed-data signature''
         else res_bind (lib_recover lib hash (ap_signature a)) (\<lambda>recovered.
           if js_lower recovered \<noteq> js_lower owner then throw ''Signature does not approve this Safe transaction''
           else res_bind (check_approvals lib hash ownerSet (jset_add (js_lower owner) seen) as) (\<lambda>rest.
             Inr (\<lparr>ap_owner = owner, ap_signature = ap_signature a\<rparr> # rest)))))"

text \<open>\<open>validated.sort\<close> compares the owners as numbers; one element is not compared. The owners are
  different addresses, so the comparator is a strict order and the result does not depend on the
  algorithm.\<close>

definition sort_approvals :: "approval list \<Rightarrow> js_error + approval list" where
  "sort_approvals as =
     (if length as < 2 then Inr as
      else res_bind (res_map (\<lambda>a. string_BigInt (ap_owner a)) as) (\<lambda>keys.
        Inr (map snd (sort_key fst (zip keys as)))))"

definition owner_set :: "safe_lib \<Rightarrow> string list \<Rightarrow> js_error + string list" where
  "owner_set lib owners = res_bind (res_map (\<lambda>owner.
     res_bind (checked_address lib owner ''L1 owner'') (\<lambda>a. Inr (js_lower a))) owners) (\<lambda>keys. Inr (jset_of keys))"

definition packEOAApprovals ::
  "safe_lib \<Rightarrow> safe_transaction \<Rightarrow> string list \<Rightarrow> int \<Rightarrow> approval list \<Rightarrow> js_error + string" where
  "packEOAApprovals lib transaction owners threshold approvals =
     res_bind (owner_set lib owners) (\<lambda>ownerSet.
       if length ownerSet \<noteq> length owners \<or> threshold > 9007199254740991 \<or> threshold < 1 \<or> threshold > int (length owners)
         then throw ''Invalid owner set or threshold''
       else if int (length approvals) < threshold \<or> length approvals > length owners
         then throw ''Incomplete or invalid owner quorum''
       else res_bind (check_approvals lib (lib_hash lib transaction) ownerSet [] approvals) (\<lambda>validated.
            res_bind (sort_approvals validated) (\<lambda>sorted.
              Inr (lib_concatHex lib (map ap_signature sorted)))))"

definition packOwnerApprovals ::
  "safe_lib \<Rightarrow> safe_transaction \<Rightarrow> string \<Rightarrow> string list \<Rightarrow> int \<Rightarrow> approval list \<Rightarrow> js_error + string" where
  "packOwnerApprovals lib transaction adapter owners threshold approvals =
     res_bind (checked_address lib adapter ''owner adapter'') (\<lambda>contractOwner.
     res_bind (packEOAApprovals lib transaction owners threshold approvals) (\<lambda>inner.
     res_bind (string_BigInt contractOwner) (\<lambda>n.
       Inr (lib_concatHex lib [lib_toHex32 lib n, lib_toHex32 lib 65, ''0x00'', lib_toHex32 lib (lib_size lib inner), inner]))))"

section \<open>Addresses as numbers\<close>

lemma digit_value_lower:
  assumes "digit_value c = Some d"
  shows "js_lower_char c = char_of (if d < 10 then 48 + d else 87 + d)"
proof -
  define n where "n = (of_char c :: nat)"
  have c: "c = char_of n" by (simp add: n_def)
  have "48 \<le> n \<and> n \<le> 57 \<and> d = n - 48 \<or> 97 \<le> n \<and> n \<le> 102 \<and> d = n - 87 \<or> 65 \<le> n \<and> n \<le> 70 \<and> d = n - 55"
    using assms by (auto simp: digit_value_def Let_def n_def [symmetric] split: if_splits)
  then show ?thesis
    by (elim disjE) (auto simp: js_lower_char_def Let_def n_def [symmetric] c [symmetric] add.commute simp flip: c)
qed

lemma digit_value_inj: "digit_value c = Some d \<Longrightarrow> digit_value c' = Some d \<Longrightarrow> js_lower_char c = js_lower_char c'"
  by (simp add: digit_value_lower)

lemma digits_value_inj:
  "digits_value 16 0 s = Some n \<Longrightarrow> digits_value 16 0 t = Some n \<Longrightarrow> length s = length t \<Longrightarrow> js_lower s = js_lower t"
proof (induction s arbitrary: t n rule: rev_induct)
  case (snoc c s)
  then obtain c' t' where t: "t = t' @ [c']" by (cases t rule: rev_cases) auto
  from snoc.prems(1) obtain m d where m: "digits_value 16 0 s = Some m" "digit_value c = Some d" "d < 16" "n = m * 16 + d"
    by (auto simp: digits_value_append split: option.splits if_splits)
  from snoc.prems(2) t obtain m' d' where m': "digits_value 16 0 t' = Some m'" "digit_value c' = Some d'" "d' < 16" "n = m' * 16 + d'"
    by (auto simp: digits_value_append split: option.splits if_splits)
  have "n div 16 = m" "n mod 16 = d" unfolding m(4) using m(3) by simp_all
  moreover have "n div 16 = m'" "n mod 16 = d'" unfolding m'(4) using m'(3) by simp_all
  ultimately have eq: "m = m'" "d = d'" by simp_all
  have "js_lower s = js_lower t'"
    using m(1) m'(1) snoc.prems(3) eq by (intro snoc.IH [of m t']) (simp_all add: t)
  with digit_value_inj [OF m(2), of c'] m'(2) eq show ?case by (simp add: t js_lower_def)
qed simp

end
