(* ===== verification/Safe_Properties.thy ===== *)
theory Safe_Properties
  imports Safe_Approvals Treasury_Checks
begin

text \<open>
  What the packed owner approvals guarantee: a quorum of different known owners who signed this
  very transaction, in the strictly increasing owner order that the Safe contract requires,
  whatever the order in which the approvals were collected.
\<close>

section \<open>The address functions\<close>

text \<open>The documented behaviour of the address functions: \<open>getAddress\<close> of a valid address is its
  checksummed form, 40 hexadecimal digits that differ from it in case only.\<close>

definition addresses_ok :: "safe_lib \<Rightarrow> bool" where
  "addresses_ok lib \<longleftrightarrow> (\<forall>a. lib_isAddress lib a \<longrightarrow>
     is_hex_of 40 (lib_getAddress lib a) \<and> js_lower (lib_getAddress lib a) = js_lower a)"

definition owner_number :: "approval \<Rightarrow> int" where
  "owner_number v = (case string_BigInt (ap_owner v) of Inr n \<Rightarrow> n | Inl _ \<Rightarrow> 0)"

lemma digits_value_hex: "\<forall>c \<in> set s. is_hex_digit c \<Longrightarrow> \<exists>n. digits_value 16 acc s = Some n"
proof (induction s arbitrary: acc)
  case (Cons c s)
  then obtain d where "digit_value c = Some d" by (auto simp: is_hex_digit_def)
  moreover from this have "d < 16" by (auto simp: digit_value_def Let_def split: if_splits)
  ultimately show ?case using Cons by auto
qed simp

lemma hex_number:
  assumes "is_hex_of k s" and "0 < k"
  shows "\<exists>n. digits_value 16 0 (drop 2 s) = Some n \<and> string_BigInt s = Inr (int n)"
proof -
  obtain x r where s: "s = CHR ''0'' # x # r" "js_lower_char x = CHR ''x''" "\<forall>c \<in> set r. is_hex_digit c" "length r = k"
    using assms(1) by (cases s; cases "tl s") (auto simp: is_hex_of_def is_hex_text_def)
  have "x = CHR ''x'' \<or> x = CHR ''X''"
  proof -
    have "(of_char x :: nat) = of_char CHR ''x'' \<or> (of_char x :: nat) = of_char CHR ''X''"
    proof (cases "65 \<le> (of_char x :: nat) \<and> (of_char x :: nat) \<le> 90")
      case True
      then have "(of_char (char_of (of_char x + 32 :: nat)) :: nat) = of_char x + 32" by simp
      with True s(2) show ?thesis by (simp add: js_lower_char_def Let_def)
    next
      case False
      with s(2) show ?thesis by (auto simp: js_lower_char_def Let_def split: if_splits)
    qed
    then show ?thesis by (simp only: of_char_eq_iff)
  qed
  moreover obtain n where "digits_value 16 0 r = Some n" using digits_value_hex [OF s(3)] by blast
  moreover have "r \<noteq> []" using s(4) assms(2) by auto
  ultimately show ?thesis by (auto simp: s(1) string_BigInt_def parse_digits_def)
qed

lemma hex_number_inj:
  assumes "is_hex_of k s" "is_hex_of k t" "0 < k" "string_BigInt s = string_BigInt t"
  shows "js_lower s = js_lower t"
proof -
  have pre: "js_lower u = ''0x'' @ js_lower (drop 2 u)" "length (drop 2 u) = k" if "is_hex_of k u" for u
    using that by (cases u; cases "tl u"; simp add: is_hex_of_def is_hex_text_def js_lower_def js_lower_char_def)+
  obtain m where m: "digits_value 16 0 (drop 2 s) = Some m" "string_BigInt s = Inr (int m)" using hex_number assms by blast
  obtain n where n: "digits_value 16 0 (drop 2 t) = Some n" "string_BigInt t = Inr (int n)" using hex_number assms by blast
  from m n assms(4) have "m = n" by simp
  with digits_value_inj [of "drop 2 s" m "drop 2 t"] m(1) n(1) pre [OF assms(1)] pre [OF assms(2)] show ?thesis by simp
qed

lemma checked_address_ok:
  assumes "addresses_ok lib" and "checked_address lib value name = Inr a"
  shows "is_hex_of 40 a \<and> js_lower a = js_lower value"
  using assms by (auto simp: addresses_ok_def checked_address_def split: if_splits)

lemma owner_set_lower:
  assumes "addresses_ok lib" and "owner_set lib owners = Inr os"
  shows "set os = js_lower ` set owners"
proof -
  obtain keys where keys: "res_map (\<lambda>owner. res_bind (checked_address lib owner ''L1 owner'') (\<lambda>a. Inr (js_lower a))) owners = Inr keys"
    "os = jset_of keys" using assms(2) by (auto simp: owner_set_def res_bind_Inr_iff)
  have "list_all2 (\<lambda>owner key. key = js_lower owner) owners keys"
    by (rule list_all2_mono [OF keys(1) [unfolded res_map_all2]])
       (use checked_address_ok [OF assms(1)] in \<open>auto simp: res_bind_Inr_iff\<close>)
  then have "keys = map js_lower owners" by (induction rule: list_all2_induct) auto
  with keys(2) show ?thesis by simp
qed

section \<open>The checks of the approvals\<close>

text \<open>The check of one approval, without the duplicates.\<close>

definition single :: "safe_lib \<Rightarrow> string \<Rightarrow> string list \<Rightarrow> approval \<Rightarrow> js_error + approval" where
  "single lib hash ownerSet a = res_bind (check_approvals lib hash ownerSet [] [a]) (\<lambda>vs. Inr (hd vs))"

lemma single_Inr:
  "single lib hash os a = Inr v \<longleftrightarrow>
     (\<exists>owner r. checked_address lib (ap_owner a) ''signer'' = Inr owner \<and> js_lower owner \<in> set os \<and>
        bytes (ap_signature a) = Inr () \<and> lib_size lib (ap_signature a) = 65 \<and> typed_data_v (ap_signature a) \<and>
        lib_recover lib hash (ap_signature a) = Inr r \<and> js_lower r = js_lower owner \<and>
        v = \<lparr>ap_owner = owner, ap_signature = ap_signature a\<rparr>)"
  by (auto simp: single_def res_bind_Inr_iff guard_Inr)

lemma check_approvals_Inr:
  "check_approvals lib hash os seen as = Inr vs \<longleftrightarrow>
     list_all2 (\<lambda>a v. single lib hash os a = Inr v) as vs \<and> distinct (map (js_lower \<circ> ap_owner) vs) \<and>
     (\<forall>v \<in> set vs. js_lower (ap_owner v) \<notin> set seen)"
proof (induction as arbitrary: seen vs)
  case Nil
  then show ?case by auto
next
  case (Cons a as)
  have step: "check_approvals lib hash os seen (a # as) = Inr vs \<longleftrightarrow>
    (\<exists>v ws. vs = v # ws \<and> single lib hash os a = Inr v \<and> js_lower (ap_owner v) \<notin> set seen \<and>
       check_approvals lib hash os (jset_add (js_lower (ap_owner v)) seen) as = Inr ws)"
    by (auto simp: res_bind_Inr_iff single_Inr guard_Inr)
  show ?case unfolding step Cons.IH list_all2_Cons1 by (auto simp: comp_def image_iff) metis+
qed

lemma single_sig: "single lib hash os a = Inr v \<Longrightarrow> ap_signature v = ap_signature a"
  by (auto simp: single_Inr)

lemma all2_right: "list_all2 P xs ys \<Longrightarrow> y \<in> set ys \<Longrightarrow> \<exists>x. P x y"
  by (induction rule: list_all2_induct) auto

lemma all2_sigs: "list_all2 (\<lambda>a v. single lib hash os a = Inr v) as vs \<Longrightarrow> map ap_signature vs = map ap_signature as"
  by (induction rule: list_all2_induct) (auto dest: single_sig)

section \<open>Sorting\<close>

lemma insort_key_map: "insort_key f (g x) (map g xs) = map g (insort_key (f \<circ> g) x xs)"
  by (induction xs) auto

lemma sort_key_map: "sort_key f (map g xs) = map g (sort_key (f \<circ> g) xs)"
  by (induction xs) (simp_all add: insort_key_map [unfolded comp_def] comp_def)

lemma sort_approvals_sorted:
  assumes "\<forall>v \<in> set vs. string_BigInt (ap_owner v) = Inr (owner_number v)"
  shows "sort_approvals vs = Inr (sort_key owner_number vs)"
proof (cases "length vs < 2")
  case True
  then have "sort_key owner_number vs = vs" by (cases vs; cases "tl vs") auto
  with True show ?thesis by (simp add: sort_approvals_def)
next
  case False
  have "res_map (\<lambda>a. string_BigInt (ap_owner a)) vs = Inr (map owner_number vs)"
    using assms by (intro res_map_total) simp
  moreover have "zip (map owner_number vs) vs = map (\<lambda>v. (owner_number v, v)) vs"
    by (induction vs) auto
  ultimately show ?thesis using False by (simp add: sort_approvals_def sort_key_map comp_def)
qed

lemma sort_key_strict: "inj_on f (set xs) \<Longrightarrow> distinct xs \<Longrightarrow> sorted_wrt (\<lambda>a b. f a < f b) (sort_key f xs)"
proof -
  assume "inj_on f (set xs)" "distinct xs"
  then have "distinct (map f (sort_key f xs))" by (simp add: distinct_map)
  moreover have "sorted (map f (sort_key f xs))" by simp
  ultimately have "sorted_wrt (<) (map f (sort_key f xs))" by (simp add: strict_sorted_iff)
  then show ?thesis by (simp add: sorted_wrt_map)
qed

text \<open>What is packed: the checked approvals, sorted.\<close>

lemma pack_ok:
  assumes lib: "addresses_ok lib" and ok: "packEOAApprovals lib tx owners threshold approvals = Inr sigs"
  obtains os vs where "owner_set lib owners = Inr os" "list_all2 (\<lambda>a v. single lib (lib_hash lib tx) os a = Inr v) approvals vs"
    "distinct (map (js_lower \<circ> ap_owner) vs)" "threshold \<le> int (length approvals)" "1 \<le> threshold"
    "length approvals \<le> length owners" "length os = length owners" "threshold \<le> 9007199254740991" "threshold \<le> int (length owners)"
    "sigs = lib_concatHex lib (map ap_signature (sort_key owner_number vs))"
    "inj_on owner_number (set vs)" "\<forall>v \<in> set vs. string_BigInt (ap_owner v) = Inr (owner_number v)"
proof -
  from ok obtain os vs ss where c: "owner_set lib owners = Inr os" "check_approvals lib (lib_hash lib tx) os [] approvals = Inr vs"
    "threshold \<le> int (length approvals)" "1 \<le> threshold" "length approvals \<le> length owners"
    "length os = length owners" "threshold \<le> 9007199254740991" "threshold \<le> int (length owners)"
    "sort_approvals vs = Inr ss" "sigs = lib_concatHex lib (map ap_signature ss)"
    by (auto simp: packEOAApprovals_def res_bind_Inr_iff split: if_splits)
  from c(2) have all: "list_all2 (\<lambda>a v. single lib (lib_hash lib tx) os a = Inr v) approvals vs"
    and dist: "distinct (map (js_lower \<circ> ap_owner) vs)" by (simp_all add: check_approvals_Inr)
  have hex: "is_hex_of 40 (ap_owner v)" if "v \<in> set vs" for v
  proof -
    obtain a where "single lib (lib_hash lib tx) os a = Inr v" using all2_right [OF all \<open>v \<in> set vs\<close>] by blast
    then show ?thesis using checked_address_ok [OF lib] by (auto simp: single_Inr)
  qed
  have num: "\<forall>v \<in> set vs. string_BigInt (ap_owner v) = Inr (owner_number v)"
    using hex hex_number [of 40] by (force simp: owner_number_def)
  have "inj_on owner_number (set vs)"
  proof (rule inj_onI)
    fix v w assume vw: "v \<in> set vs" "w \<in> set vs" "owner_number v = owner_number w"
    with num have "string_BigInt (ap_owner v) = string_BigInt (ap_owner w)" by simp
    with hex_number_inj [of 40] hex vw have "js_lower (ap_owner v) = js_lower (ap_owner w)" by simp
    with dist vw show "v = w" by (auto simp: distinct_map inj_on_def)
  qed
  with that [OF c(1) all dist c(3-8)] c(9,10) sort_approvals_sorted [OF num] num show ?thesis by simp
qed

section \<open>Properties\<close>

text \<open>C17. A packed owner signature is a quorum: at least \<open>threshold\<close> approvals, each a 65-byte
  signature that recovers, for the hash of exactly this transaction, to a known owner; the owners
  are pairwise different and stand in strictly increasing numeric order, as the Safe contract
  requires, and the signatures are those that were collected.\<close>
theorem packed_quorum:
  assumes "addresses_ok lib" and "packEOAApprovals lib tx owners threshold approvals = Inr sigs"
  shows "\<exists>vs. sigs = lib_concatHex lib (map ap_signature vs) \<and>
    mset (map ap_signature vs) = mset (map ap_signature approvals) \<and>
    1 \<le> threshold \<and> threshold \<le> int (length vs) \<and> length vs \<le> length owners \<and>
    sorted_wrt (\<lambda>v w. owner_number v < owner_number w) vs \<and>
    (\<forall>v \<in> set vs. string_BigInt (ap_owner v) = Inr (owner_number v) \<and> js_lower (ap_owner v) \<in> js_lower ` set owners \<and>
       lib_size lib (ap_signature v) = 65 \<and>
       (\<exists>r. lib_recover lib (lib_hash lib tx) (ap_signature v) = Inr r \<and> js_lower r = js_lower (ap_owner v)))"
proof -
  let ?h = "lib_hash lib tx"
  obtain os vs where p: "owner_set lib owners = Inr os" "list_all2 (\<lambda>a v. single lib ?h os a = Inr v) approvals vs"
    "distinct (map (js_lower \<circ> ap_owner) vs)" "threshold \<le> int (length approvals)" "1 \<le> threshold"
    "length approvals \<le> length owners" "length os = length owners" "threshold \<le> 9007199254740991" "threshold \<le> int (length owners)"
    "sigs = lib_concatHex lib (map ap_signature (sort_key owner_number vs))"
    "inj_on owner_number (set vs)" "\<forall>v \<in> set vs. string_BigInt (ap_owner v) = Inr (owner_number v)"
    by (rule pack_ok [OF assms])
  have os: "set os \<subseteq> js_lower ` set owners" using owner_set_lower [OF assms(1) p(1)] by simp
  have sig: "lib_size lib (ap_signature v) = 65 \<and> js_lower (ap_owner v) \<in> set os \<and>
      (\<exists>r. lib_recover lib ?h (ap_signature v) = Inr r \<and> js_lower r = js_lower (ap_owner v))" if v: "v \<in> set vs" for v
  proof -
    obtain a where "single lib ?h os a = Inr v" using all2_right [OF p(2) v] by blast
    then show ?thesis by (auto simp: single_Inr)
  qed
  have sigs: "image_mset ap_signature (mset vs) = image_mset ap_signature (mset approvals)"
    using all2_sigs [OF p(2)] by (metis mset_map)
  have dist: "distinct vs" using p(3) by (simp add: distinct_map)
  have len: "length vs = length approvals" using p(2) by (simp add: list_all2_lengthD)
  show ?thesis
    by (rule exI [of _ "sort_key owner_number vs"])
       (use p sig os len sigs sort_key_strict [OF p(11) dist] in auto)
qed

text \<open>Two owners, and signatures that start with the address they recover to.\<close>

definition sample_lib :: safe_lib where
  "sample_lib = \<lparr>lib_isAddress = is_hex_of 40, lib_getAddress = (\<lambda>a. a), lib_size = (\<lambda>s. int ((length s - 2) div 2)),
     lib_concatHex = (\<lambda>ss. ''0x'' @ concat (map (drop 2) ss)), lib_toHex32 = (\<lambda>n. ''0x''), lib_hash = (\<lambda>_. ''0xh''),
     lib_recover = (\<lambda>h s. Inr (take 42 s))\<rparr>"

definition sample_owner :: "char \<Rightarrow> string" where
  "sample_owner c = ''0x'' @ replicate 39 CHR ''0'' @ [c]"

definition sample_approval :: "char \<Rightarrow> approval" where
  "sample_approval c = \<lparr>ap_owner = sample_owner c, ap_signature = sample_owner c @ replicate 88 CHR ''0'' @ ''1b''\<rparr>"

definition sample_safe_tx :: safe_transaction where
  "sample_safe_tx = \<lparr>st_chainId = 1, st_verifyingContract = sample_owner CHR ''9'', st_message =
     \<lparr>sm_to = sample_owner CHR ''8'', sm_value = 0, sm_data = ''0x'', sm_operation = 0, sm_safeTxGas = 0, sm_baseGas = 0,
       sm_gasPrice = 0, sm_gasToken = zeroAddress, sm_refundReceiver = zeroAddress, sm_nonce = 4\<rparr>\<rparr>"

lemma sample_lib_ok: "addresses_ok sample_lib"
  by (simp add: addresses_ok_def sample_lib_def)

lemma sample_pack:
  "packEOAApprovals sample_lib sample_safe_tx [sample_owner CHR ''1'', sample_owner CHR ''2''] 2
     [sample_approval CHR ''2'', sample_approval CHR ''1''] =
   Inr (''0x'' @ drop 2 (ap_signature (sample_approval CHR ''1'')) @ drop 2 (ap_signature (sample_approval CHR ''2'')))"
  by code_simp

theorem packed_quorum_witness:
  "\<exists>vs. mset (map ap_signature vs) = {#ap_signature (sample_approval CHR ''2''), ap_signature (sample_approval CHR ''1'')#} \<and>
    sorted_wrt (\<lambda>v w. owner_number v < owner_number w) vs \<and> 2 \<le> length vs"
  using packed_quorum [OF sample_lib_ok sample_pack] by auto

text \<open>The packed signature does not depend on the order in which the owners approved.\<close>
theorem packed_order_independent:
  assumes "addresses_ok lib" and "packEOAApprovals lib tx owners threshold approvals = Inr sigs"
    and "mset others = mset approvals"
  shows "packEOAApprovals lib tx owners threshold others = Inr sigs"
proof -
  let ?h = "lib_hash lib tx"
  obtain os vs where p: "owner_set lib owners = Inr os" "list_all2 (\<lambda>a v. single lib ?h os a = Inr v) approvals vs"
    "distinct (map (js_lower \<circ> ap_owner) vs)" "threshold \<le> int (length approvals)" "1 \<le> threshold"
    "length approvals \<le> length owners" "length os = length owners" "threshold \<le> 9007199254740991" "threshold \<le> int (length owners)"
    "sigs = lib_concatHex lib (map ap_signature (sort_key owner_number vs))"
    "inj_on owner_number (set vs)" "\<forall>v \<in> set vs. string_BigInt (ap_owner v) = Inr (owner_number v)"
    by (rule pack_ok [OF assms(1,2)])
  obtain ws where ws: "list_all2 (\<lambda>a v. single lib ?h os a = Inr v) others ws" "mset ws = mset vs"
    using list_all2_reorder_left_invariance [OF p(2) assms(3)] by blast
  have set: "set ws = set vs" using ws(2) by (rule mset_eq_setD)
  have "distinct (map (js_lower \<circ> ap_owner) ws)"
    using p(3) ws(2) by (metis mset_map mset_eq_imp_distinct_iff)
  with ws(1) have check: "check_approvals lib ?h os [] others = Inr ws" by (simp add: check_approvals_Inr)
  have sort: "sort_key owner_number ws = sort_key owner_number vs"
    by (rule sort_key_inj_key_eq) (use ws(2) p(11) set in simp_all)
  have "sort_approvals ws = Inr (sort_key owner_number vs)"
    using sort_approvals_sorted [of ws] p(12) set sort by simp
  moreover have "length others = length approvals" using assms(3) by (rule mset_eq_length)
  ultimately show ?thesis using p check by (simp add: packEOAApprovals_def)
qed

theorem packed_order_independent_witness:
  "packEOAApprovals sample_lib sample_safe_tx [sample_owner CHR ''1'', sample_owner CHR ''2''] 2
     [sample_approval CHR ''1'', sample_approval CHR ''2''] =
   Inr (''0x'' @ drop 2 (ap_signature (sample_approval CHR ''1'')) @ drop 2 (ap_signature (sample_approval CHR ''2'')))"
  by (rule packed_order_independent [OF sample_lib_ok sample_pack]) (simp add: add_mset_commute)

end
