(* ===== verification/Union_Find.thy ===== *)
theory Union_Find
  imports Js_Prelude
begin

text \<open>
  The union-find structure inside \<open>buildTransactionBundles\<close>
  (\<open>src/src/lib/crossChainCorrelation.ts\<close>): a \<open>Map\<close> of parents, \<open>find\<close> with path halving and
  \<open>union\<close> without ranks.
  \<^item> The \<open>while\<close> loop of \<open>find\<close> gets fuel; it is the number of parents plus one, and
    \<open>uf_find_total\<close> shows that this is enough on every structure the operations build.
  \<^item> The locale \<open>union_find\<close> is the contract the client relies on: a representative function that
    \<open>find\<close> computes without changing it, and that \<open>union\<close> merges. Its lemmas give the closure of
    a list of unions and the grouping by representative; it is interpreted on the map of parents.
\<close>

section \<open>The code\<close>

type_synonym parents = "(string, string) jmap"

fun uf_loop :: "nat \<Rightarrow> parents \<Rightarrow> string \<Rightarrow> (parents \<times> string) option" where
  "uf_loop 0 p x = None"
| "uf_loop (Suc n) p x =
     (case jmap_get p x of
        None \<Rightarrow> None
      | Some y \<Rightarrow>
          if y = x then Some (p, x)
          else (case jmap_get p y of None \<Rightarrow> None | Some z \<Rightarrow> uf_loop n (jmap_set x z p) z))"

definition uf_add :: "parents \<Rightarrow> string \<Rightarrow> parents" where
  "uf_add p x = (if jmap_get p x = None then jmap_set x x p else p)"

definition uf_find :: "parents \<Rightarrow> string \<Rightarrow> (parents \<times> string) option" where
  "uf_find p x = uf_loop (Suc (length (uf_add p x))) (uf_add p x) x"

definition uf_union :: "parents \<Rightarrow> string \<Rightarrow> string \<Rightarrow> parents option" where
  "uf_union p a b =
     Option.bind (uf_find p a) (\<lambda>(p1, ra).
     Option.bind (uf_find p1 b) (\<lambda>(p2, rb).
       Some (if ra \<noteq> rb then jmap_set ra rb p2 else p2)))"

text \<open>A loop over a list whose body may not return.\<close>

fun opt_fold :: "('s \<Rightarrow> 'e \<Rightarrow> 's option) \<Rightarrow> 's \<Rightarrow> 'e list \<Rightarrow> 's option" where
  "opt_fold f s [] = Some s"
| "opt_fold f s (x # xs) = Option.bind (f s x) (\<lambda>s'. opt_fold f s' xs)"

text \<open>The loop that puts every element into the set of its representative.\<close>

definition group_step ::
  "('s \<Rightarrow> 'a \<Rightarrow> ('s \<times> 'a) option) \<Rightarrow> 's \<times> ('a, 'a list) jmap \<Rightarrow> 'a \<Rightarrow> ('s \<times> ('a, 'a list) jmap) option" where
  "group_step lookup st x = Option.bind (lookup (fst st) x) (\<lambda>(s', r).
     Some (s', jmap_set r (jset_add x (case jmap_get (snd st) r of None \<Rightarrow> [] | Some g \<Rightarrow> g)) (snd st)))"

section \<open>The contract\<close>

locale union_find =
  fixes uinv :: "'s \<Rightarrow> bool" and rep :: "'s \<Rightarrow> 'a \<Rightarrow> 'a"
    and lookup :: "'s \<Rightarrow> 'a \<Rightarrow> ('s \<times> 'a) option" and merge :: "'s \<Rightarrow> 'a \<Rightarrow> 'a \<Rightarrow> 's option"
  assumes lookup_ok: "uinv s \<Longrightarrow> \<exists>s'. lookup s x = Some (s', rep s x) \<and> uinv s' \<and> rep s' = rep s"
    and merge_ok: "uinv s \<Longrightarrow> \<exists>s'. merge s a b = Some s' \<and> uinv s' \<and>
      (\<forall>x. rep s' x = (if rep s x = rep s a then rep s b else rep s x))"
begin

text \<open>The classes are the classes of a symmetric relation.\<close>

definition classes_of :: "'s \<Rightarrow> ('a \<times> 'a) set \<Rightarrow> bool" where
  "classes_of s R \<longleftrightarrow> (\<forall>x y. rep s x = rep s y \<longleftrightarrow> (x, y) \<in> (R \<union> R\<inverse>)\<^sup>*)"

lemma sym_closure: "sym ((R \<union> R\<inverse>)\<^sup>*)"
  by (intro sym_rtrancl) (auto simp: sym_def)

lemma closure_insert:
  "(x, y) \<in> (insert (a, b) R \<union> (insert (a, b) R)\<inverse>)\<^sup>* \<longleftrightarrow>
     (x, y) \<in> (R \<union> R\<inverse>)\<^sup>* \<or> (x, a) \<in> (R \<union> R\<inverse>)\<^sup>* \<and> (b, y) \<in> (R \<union> R\<inverse>)\<^sup>* \<or>
     (x, b) \<in> (R \<union> R\<inverse>)\<^sup>* \<and> (a, y) \<in> (R \<union> R\<inverse>)\<^sup>*" (is "?l \<longleftrightarrow> ?r x y")
proof
  let ?S = "(insert (a, b) R \<union> (insert (a, b) R)\<inverse>)\<^sup>*"
  have sub: "(R \<union> R\<inverse>)\<^sup>* \<subseteq> ?S" by (intro rtrancl_mono) auto
  have ab: "(a, b) \<in> ?S" "(b, a) \<in> ?S" by auto
  assume "?r x y"
  then show ?l using sub ab by (meson rtrancl_trans subsetD)
next
  assume ?l
  then show "?r x y"
  proof (induction rule: rtrancl_induct)
    case (step y z)
    from step.hyps(2) consider "(y, z) \<in> R \<union> R\<inverse>" | "y = a" "z = b" | "y = b" "z = a" by auto
    then show ?case
    proof cases
      case 1
      with step.IH show ?thesis by (meson rtrancl.rtrancl_into_rtrancl)
    next
      case 2
      with step.IH have "(x, a) \<in> (R \<union> R\<inverse>)\<^sup>* \<or> (x, b) \<in> (R \<union> R\<inverse>)\<^sup>*" by blast
      with 2 show ?thesis by blast
    next
      case 3
      with step.IH have "(x, a) \<in> (R \<union> R\<inverse>)\<^sup>* \<or> (x, b) \<in> (R \<union> R\<inverse>)\<^sup>*" by blast
      with 3 show ?thesis by blast
    qed
  qed simp
qed

lemma merge_classes:
  assumes "uinv s" and "classes_of s R"
  shows "\<exists>s'. merge s a b = Some s' \<and> uinv s' \<and> classes_of s' (insert (a, b) R)"
proof -
  obtain s' where s': "merge s a b = Some s'" "uinv s'" "\<And>x. rep s' x = (if rep s x = rep s a then rep s b else rep s x)"
    using merge_ok [OF assms(1), of a b] by blast
  have sym: "(x, y) \<in> (R \<union> R\<inverse>)\<^sup>* \<longleftrightarrow> (y, x) \<in> (R \<union> R\<inverse>)\<^sup>*" for x y
    using sym_closure by (meson symE)
  have "rep s' x = rep s' y \<longleftrightarrow> rep s x = rep s y \<or> rep s x = rep s a \<and> rep s b = rep s y \<or> rep s x = rep s b \<and> rep s a = rep s y" for x y
    by (auto simp: s'(3))
  then have "classes_of s' (insert (a, b) R)"
    using assms(2) unfolding classes_of_def closure_insert by blast
  with s' show ?thesis by blast
qed

lemma merges_classes:
  assumes "uinv s" and "classes_of s R"
  shows "\<exists>s'. opt_fold (\<lambda>s (a, b). merge s a b) s es = Some s' \<and> uinv s' \<and> classes_of s' (R \<union> set es)"
  using assms
proof (induction es arbitrary: s R)
  case (Cons e es)
  obtain a b where e: "e = (a, b)" by (cases e)
  obtain s' where "merge s a b = Some s'" "uinv s'" "classes_of s' (insert (a, b) R)"
    using merge_classes [OF Cons.prems] by blast
  with Cons.IH [of s' "insert (a, b) R"] show ?case by (auto simp: e)
qed auto

text \<open>Grouping by representative.\<close>

lemma groups_ok:
  assumes "uinv s" and "distinct xs"
    and "\<And>r. jmap_get g r = (if filter (\<lambda>x. rep s x = r) ys = [] then None else Some (filter (\<lambda>x. rep s x = r) ys))"
    and "set xs \<inter> set ys = {}" and "distinct (jmap_keys g)"
  shows "\<exists>s' g'. opt_fold (group_step lookup) (s, g) xs = Some (s', g') \<and> uinv s' \<and> rep s' = rep s \<and> distinct (jmap_keys g') \<and>
    (\<forall>r. jmap_get g' r = (if filter (\<lambda>x. rep s x = r) (ys @ xs) = [] then None else Some (filter (\<lambda>x. rep s x = r) (ys @ xs))))"
  using assms
proof (induction xs arbitrary: s g ys)
  case (Cons x xs)
  obtain s' where s': "lookup s x = Some (s', rep s x)" "uinv s'" "rep s' = rep s" using lookup_ok [OF Cons.prems(1)] by blast
  let ?old = "case jmap_get g (rep s x) of None \<Rightarrow> [] | Some h \<Rightarrow> h"
  let ?g = "jmap_set (rep s x) (jset_add x ?old) g"
  have old: "?old = filter (\<lambda>w. rep s w = rep s x) ys" by (simp add: Cons.prems(3))
  have "x \<notin> set ys" using Cons.prems(4) by auto
  then have new: "jset_add x ?old = filter (\<lambda>w. rep s w = rep s x) (ys @ [x])"
    unfolding old by (simp add: jset_add_def)
  have g: "jmap_get ?g r = (if filter (\<lambda>w. rep s' w = r) (ys @ [x]) = [] then None else Some (filter (\<lambda>w. rep s' w = r) (ys @ [x])))" for r
    using Cons.prems(3) [of r] unfolding new by (simp add: s'(3))
  have "distinct (jmap_keys ?g)" by (rule jm.distinct_put [OF Cons.prems(5)])
  from Cons.IH [OF s'(2) _ g _ this] Cons.prems(2,4) s'(3)
  show ?case by (auto simp: group_step_def s'(1))
qed auto

end

section \<open>Roots\<close>

text \<open>\<open>root p x r d\<close>: the parents lead from \<open>x\<close> to the root \<open>r\<close> in \<open>d\<close> steps.\<close>

inductive root :: "parents \<Rightarrow> string \<Rightarrow> string \<Rightarrow> nat \<Rightarrow> bool" for p where
  root_self: "jmap_get p x = Some x \<Longrightarrow> root p x x 0"
| root_step: "jmap_get p x = Some y \<Longrightarrow> y \<noteq> x \<Longrightarrow> root p y r d \<Longrightarrow> root p x r (Suc d)"

inductive_simps root_0: "root p x r 0"
inductive_simps root_Suc: "root p x r (Suc d)"

lemma root_unique: "root p x r d \<Longrightarrow> root p x r' d' \<Longrightarrow> r = r' \<and> d = d'"
proof (induction arbitrary: r' d' rule: root.induct)
  case (root_self x)
  from root_self.prems root_self.hyps show ?case by (cases rule: root.cases) auto
next
  case (root_step x y r d)
  from root_step.prems root_step.hyps obtain e where "d' = Suc e" "root p y r' e"
    by (cases rule: root.cases) auto
  with root_step.IH show ?case by auto
qed

lemma root_end: "root p x r d \<Longrightarrow> jmap_get p r = Some r"
  by (induction rule: root.induct) auto

lemma root_rep: "root p x r d \<Longrightarrow> root p r r 0"
  by (auto simp: root_0 dest: root_end)

definition forest :: "parents \<Rightarrow> bool" where
  "forest p \<longleftrightarrow> (\<forall>x. jmap_get p x \<noteq> None \<longrightarrow> (\<exists>r d. root p x r d))"

definition uf_rep :: "parents \<Rightarrow> string \<Rightarrow> string" where
  "uf_rep p x = (if jmap_get p x = None then x else THE r. \<exists>d. root p x r d)"

lemma uf_rep_root: "root p x r d \<Longrightarrow> uf_rep p x = r"
proof -
  assume r: "root p x r d"
  then have "jmap_get p x \<noteq> None" by (metis option.distinct(1) root.cases)
  moreover have "(THE r. \<exists>d. root p x r d) = r" using r root_unique by blast
  ultimately show ?thesis unfolding uf_rep_def by (metis (no_types))
qed

lemma uf_rep_missing: "jmap_get p x = None \<Longrightarrow> uf_rep p x = x"
  by (simp add: uf_rep_def)

text \<open>The chain of a node has different keys, so it is shorter than the map.\<close>

lemma root_chain:
  "root p x r d \<Longrightarrow> \<exists>S. finite S \<and> card S = Suc d \<and> S \<subseteq> set (jmap_keys p) \<and> (\<forall>s \<in> S. \<exists>e \<le> d. root p s r e)"
proof (induction rule: root.induct)
  case (root_self x)
  then have "x \<in> set (jmap_keys p)" by (simp add: jm.keys_get)
  with root_self show ?case by (intro exI [of _ "{x}"]) (auto intro: root.root_self)
next
  case (root_step x y r d)
  then obtain S where S: "finite S" "card S = Suc d" "S \<subseteq> set (jmap_keys p)" "\<forall>s \<in> S. \<exists>e \<le> d. root p s r e" by blast
  have x: "root p x r (Suc d)" using root_step.hyps by (rule root.root_step)
  have "x \<notin> S" using S(4) root_unique [OF x] by (metis Suc_n_not_le_n)
  moreover have "x \<in> set (jmap_keys p)" using root_step.hyps(1) by (simp add: jm.keys_get)
  moreover have "\<exists>e \<le> Suc d. root p s r e" if "s \<in> S" for s using S(4) that le_SucI by blast
  ultimately show ?case using S(1-3) x by (intro exI [of _ "insert x S"]) auto
qed

lemma root_short: "root p x r d \<Longrightarrow> d < length p"
proof -
  assume "root p x r d"
  then obtain S where S: "card S = Suc d" "S \<subseteq> set (jmap_keys p)" using root_chain by blast
  then have "Suc d \<le> card (set (jmap_keys p))" by (metis card_mono List.finite_set)
  also have "\<dots> \<le> length p" using card_length [of "jmap_keys p"] by (simp add: jmap_keys_def)
  finally show ?thesis by simp
qed

section \<open>Path halving\<close>

text \<open>Replacing the parent of a node by its grandparent keeps all roots.\<close>

lemma halve_root:
  assumes x: "jmap_get p x = Some y" "y \<noteq> x" "jmap_get p y = Some z" and w: "root p w r d"
  shows "\<exists>e \<le> d. root (jmap_set x z p) w r e"
  using w
proof (induction d arbitrary: w rule: less_induct)
  case (less d)
  let ?q = "jmap_set x z p"
  show ?case
  proof (cases d)
    case 0
    with less.prems have w: "jmap_get p w = Some w" "r = w" by (auto simp: root_0)
    then have "w \<noteq> x" using x by auto
    with w show ?thesis by (auto intro!: exI [of _ 0] root.root_self)
  next
    case (Suc d')
    with less.prems obtain v where v: "jmap_get p w = Some v" "v \<noteq> w" "root p v r d'" by (auto simp: root_Suc)
    show ?thesis
    proof (cases "w = x")
      case False
      from less.IH [OF _ v(3)] Suc obtain e where "e \<le> d'" "root ?q v r e" by auto
      moreover have "jmap_get ?q w = Some v" using False v(1) by simp
      ultimately have "root ?q w r (Suc e)" using v(2) by (auto intro: root.root_step)
      with Suc \<open>e \<le> d'\<close> show ?thesis by auto
    next
      case True
      with v x have y: "v = y" "root p y r d'" by auto
      show ?thesis
      proof (cases d')
        case 0
        with y x(3) have "z = y" "r = y" by (auto simp: root_0)
        then have "root ?q y r 0" using x by (auto simp: root_0)
        with True x(2) \<open>z = y\<close> have "root ?q w r (Suc 0)" by (intro root.root_step) auto
        with Suc 0 show ?thesis by auto
      next
        case (Suc d'')
        with y x(3) have z: "root p z r d''" by (auto simp: root_Suc)
        from less.IH [OF _ this] Suc \<open>d = Suc d'\<close> obtain e where e: "e \<le> d''" "root ?q z r e" by auto
        have "z \<noteq> x" using root_unique [OF z, of r d] less.prems True Suc \<open>d = Suc d'\<close> by auto
        with True e(2) have "root ?q w r (Suc e)" by (intro root.root_step) auto
        with e(1) Suc \<open>d = Suc d'\<close> show ?thesis by (intro exI [of _ "Suc e"]) auto
      qed
    qed
  qed
qed

lemma same_keys_forest:
  assumes "forest p" and "\<And>w. (jmap_get q w = None) = (jmap_get p w = None)"
    and "\<And>w r d. root p w r d \<Longrightarrow> \<exists>e. root q w r e"
  shows "forest q" and "uf_rep q = uf_rep p"
proof -
  show "forest q" using assms unfolding forest_def by metis
  show "uf_rep q = uf_rep p"
  proof
    fix w
    show "uf_rep q w = uf_rep p w"
    proof (cases "jmap_get p w = None")
      case True
      then show ?thesis using assms(2) [of w] by (simp add: uf_rep_missing)
    next
      case False
      then obtain r d where r: "root p w r d" using assms(1) by (auto simp: forest_def)
      then obtain e where "root q w r e" using assms(3) by blast
      with r show ?thesis by (simp add: uf_rep_root)
    qed
  qed
qed

lemma halve_forest:
  assumes "forest p" and "jmap_get p x = Some y" "y \<noteq> x" "jmap_get p y = Some z"
  shows "forest (jmap_set x z p)" and "uf_rep (jmap_set x z p) = uf_rep p"
proof -
  have keys: "(jmap_get (jmap_set x z p) w = None) = (jmap_get p w = None)" for w using assms(2) by auto
  show "forest (jmap_set x z p)" "uf_rep (jmap_set x z p) = uf_rep p"
    by (rule same_keys_forest [OF assms(1) keys], use halve_root [OF assms(2-4)] in blast)+
qed

lemma uf_loop_ok:
  "forest p \<Longrightarrow> root p x r d \<Longrightarrow> d < n \<Longrightarrow>
     \<exists>q. uf_loop n p x = Some (q, r) \<and> forest q \<and> uf_rep q = uf_rep p \<and> (\<forall>w. (jmap_get q w = None) = (jmap_get p w = None))"
proof (induction n arbitrary: p x d)
  case (Suc n)
  show ?case
  proof (cases d)
    case 0
    with Suc.prems show ?thesis by (auto simp: root_0)
  next
    case (Suc d')
    with Suc.prems obtain y where y: "jmap_get p x = Some y" "y \<noteq> x" "root p y r d'" by (auto simp: root_Suc)
    then obtain z where z: "jmap_get p y = Some z" by (metis root.cases)
    let ?q = "jmap_set x z p"
    note q = halve_forest [OF Suc.prems(1) y(1,2) z]
    have "\<exists>e. root p z r e \<and> e \<le> d'"
      by (rule root.cases [OF y(3)]) (use z in \<open>auto intro: root.root_self\<close>)
    then obtain e where e: "root p z r e" "e \<le> d'" by blast
    from halve_root [OF y(1,2) z e(1)] obtain e' where e': "root ?q z r e'" "e' \<le> e" by blast
    have "e' < n" using e' e Suc.prems(3) \<open>d = Suc d'\<close> by simp
    from Suc.IH [OF q(1) e'(1) this] q(2) y z show ?thesis by fastforce
  qed
qed simp

lemma root_add: "root p w r d \<Longrightarrow> root (uf_add p x) w r d"
proof (induction rule: root.induct)
  case (root_self w)
  then show ?case by (intro root.root_self) (auto simp: uf_add_def)
next
  case (root_step w y r d)
  then show ?case by (intro root.root_step [of _ w y]) (auto simp: uf_add_def)
qed

lemma uf_add_ok:
  assumes "forest p"
  shows "forest (uf_add p x)" "uf_rep (uf_add p x) = uf_rep p" "jmap_get (uf_add p x) x \<noteq> None"
proof -
  show "jmap_get (uf_add p x) x \<noteq> None" by (simp add: uf_add_def)
  have self: "root (uf_add p x) x x 0" if "jmap_get p x = None"
    using that by (simp add: root_0 uf_add_def)
  show "forest (uf_add p x)"
    unfolding forest_def
  proof (intro allI impI)
    fix w assume w: "jmap_get (uf_add p x) w \<noteq> None"
    show "\<exists>r d. root (uf_add p x) w r d"
    proof (cases "jmap_get p w = None")
      case True
      with w have "w = x" by (auto simp: uf_add_def split: if_splits)
      have "root (uf_add p x) x x 0" using self True \<open>w = x\<close> by simp
      then show ?thesis unfolding \<open>w = x\<close> by blast
    next
      case False
      with assms root_add show ?thesis unfolding forest_def by blast
    qed
  qed
  show "uf_rep (uf_add p x) = uf_rep p"
  proof
    fix w
    show "uf_rep (uf_add p x) w = uf_rep p w"
    proof (cases "jmap_get p w = None")
      case True
      show ?thesis
      proof (cases "w = x")
        case True
        with \<open>jmap_get p w = None\<close> self uf_rep_root show ?thesis by (simp add: uf_rep_missing)
      next
        case False
        with True show ?thesis by (simp add: uf_rep_missing uf_add_def)
      qed
    next
      case False
      then obtain r d where "root p w r d" using assms by (auto simp: forest_def)
      with root_add [OF this, of x] show ?thesis by (simp add: uf_rep_root)
    qed
  qed
qed

lemma uf_find_ok:
  assumes "forest p"
  shows "\<exists>q. uf_find p x = Some (q, uf_rep p x) \<and> forest q \<and> uf_rep q = uf_rep p \<and> jmap_get q (uf_rep p x) = Some (uf_rep p x)
    \<and> (\<forall>w. jmap_get p w \<noteq> None \<longrightarrow> jmap_get q w \<noteq> None)"
proof -
  note add = uf_add_ok [OF assms, of x]
  obtain r d where r: "root (uf_add p x) x r d" using add(1,3) by (auto simp: forest_def)
  from uf_loop_ok [OF add(1) r, of "Suc (length (uf_add p x))"] root_short [OF r]
  obtain q where q: "uf_find p x = Some (q, r)" "forest q" "uf_rep q = uf_rep p"
    "\<And>w. (jmap_get q w = None) = (jmap_get (uf_add p x) w = None)"
    by (auto simp: uf_find_def add(2) less_SucI)
  have rep: "uf_rep p x = r" using uf_rep_root [OF r] add(2) by simp
  have "jmap_get (uf_add p x) r = Some r" using root_end [OF r] .
  then obtain s e where s: "root q r s e" using q(2,4) by (metis forest_def option.distinct(1))
  have "s = r" using uf_rep_root [OF s] q(3) add(2) uf_rep_root [OF root_rep [OF r]] by simp
  then have "jmap_get q r = Some r" using root_end [OF s] by simp
  moreover have "jmap_get p w \<noteq> None \<longrightarrow> jmap_get q w \<noteq> None" for w
    using q(4) [of w] by (auto simp: uf_add_def split: if_splits)
  ultimately show ?thesis using q rep by blast
qed

text \<open>Making one root the parent of another merges the two classes.\<close>

lemma link_root:
  assumes ra: "jmap_get p ra = Some ra" and rb: "jmap_get p rb = Some rb" and ne: "ra \<noteq> rb" and w: "root p w r d"
  shows "\<exists>e. root (jmap_set ra rb p) w (if r = ra then rb else r) e"
  using w
proof (induction rule: root.induct)
  case (root_self x)
  have b: "root (jmap_set ra rb p) rb rb 0" using rb ne by (simp add: root_0)
  show ?case
  proof (cases "x = ra")
    case True
    have "root (jmap_set ra rb p) x rb (Suc 0)" by (rule root.root_step [OF _ _ b]) (use True ne in auto)
    with True show ?thesis by auto
  next
    case False
    with root_self have "root (jmap_set ra rb p) x x 0" by (simp add: root_0)
    with False show ?thesis by auto
  qed
next
  case (root_step x y r d)
  then obtain e where "root (jmap_set ra rb p) y (if r = ra then rb else r) e" by blast
  moreover have "x \<noteq> ra" using root_step.hyps ra by auto
  ultimately have "root (jmap_set ra rb p) x (if r = ra then rb else r) (Suc e)"
    using root_step.hyps by (intro root.root_step [of _ x y]) auto
  then show ?case by blast
qed

lemma uf_union_ok:
  assumes "forest p"
  shows "\<exists>q. uf_union p a b = Some q \<and> forest q \<and> (\<forall>x. uf_rep q x = (if uf_rep p x = uf_rep p a then uf_rep p b else uf_rep p x))"
proof -
  obtain p1 where p1: "uf_find p a = Some (p1, uf_rep p a)" "forest p1" "uf_rep p1 = uf_rep p" "jmap_get p1 (uf_rep p a) = Some (uf_rep p a)"
    using uf_find_ok [OF assms, of a] by blast
  obtain p2 where p2: "uf_find p1 b = Some (p2, uf_rep p b)" "forest p2" "uf_rep p2 = uf_rep p" "jmap_get p2 (uf_rep p b) = Some (uf_rep p b)"
    "jmap_get p2 (uf_rep p a) \<noteq> None"
    using uf_find_ok [OF p1(2), of b] p1(3,4) by auto
  let ?ra = "uf_rep p a" and ?rb = "uf_rep p b"
  have "uf_rep p2 ?ra = ?ra"
    using p1(3) p2(3) uf_rep_root [of p1 ?ra ?ra 0] p1(4) by (simp add: root_0)
  then have ra: "jmap_get p2 ?ra = Some ?ra"
    using p2(2,5) uf_rep_root root_end unfolding forest_def by metis
  show ?thesis
  proof (cases "?ra = ?rb")
    case True
    then show ?thesis using p1(1) p2 by (auto simp: uf_union_def)
  next
    case False
    let ?q = "jmap_set ?ra ?rb p2"
    note link = link_root [OF ra p2(4) False]
    have forest: "forest ?q"
      unfolding forest_def
    proof (intro allI impI)
      fix w assume "jmap_get ?q w \<noteq> None"
      then have "jmap_get p2 w \<noteq> None" using ra by (auto split: if_splits)
      with p2(2) link show "\<exists>r d. root ?q w r d" unfolding forest_def by blast
    qed
    have "uf_rep ?q x = (if uf_rep p x = ?ra then ?rb else uf_rep p x)" for x
    proof (cases "jmap_get p2 x = None")
      case True
      then have "x \<noteq> ?ra" "uf_rep p x = x" using ra uf_rep_missing [of p2 x] p2(3) by auto
      with True show ?thesis using uf_rep_missing [of ?q x] by simp
    next
      case False
      then obtain r d where r: "root p2 x r d" using p2(2) by (auto simp: forest_def)
      with link [OF r] have "uf_rep ?q x = (if r = ?ra then ?rb else r)" using uf_rep_root by blast
      with uf_rep_root [OF r] p2(3) show ?thesis by simp
    qed
    with False p1(1) p2(1) forest show ?thesis by (simp add: uf_union_def)
  qed
qed

interpretation uf: union_find forest uf_rep uf_find uf_union
proof
  show "\<exists>q. uf_find p x = Some (q, uf_rep p x) \<and> forest q \<and> uf_rep q = uf_rep p" if "forest p" for p x
    using uf_find_ok [OF that] by blast
  show "\<exists>q. uf_union p a b = Some q \<and> forest q \<and> (\<forall>x. uf_rep q x = (if uf_rep p x = uf_rep p a then uf_rep p b else uf_rep p x))"
    if "forest p" for p a b using uf_union_ok [OF that] .
qed

lemma forest_empty: "forest []"
  by (simp add: forest_def)

lemma uf_rep_empty: "uf_rep [] x = x"
  by (simp add: uf_rep_def)

end
