(* ===== verification/Correlation.thy ===== *)
theory Correlation
  imports Union_Find Action_Format
begin

text \<open>
  \<open>src/src/lib/crossChainCorrelation.ts\<close>: the pairs of consumptions and of table entries that
  share an action hash on both chains, and the bundles of events that share hashes, directly or
  through other events.
  Hashing an action is the parameter \<open>ah\<close>, which may throw. The bundles are an option of a sum:
  \<^const>\<open>None\<close> is the \<open>while\<close> loop of \<open>find\<close> not returning (shown impossible), the left side of the
  sum is the \<open>TypeError\<close> of \<open>toLowerCase\<close> on a missing hash.
\<close>

section \<open>Pairs\<close>

record correlated_pair =
  cp_actionHash :: string
  cp_l1Event :: event_record
  cp_l2Event :: event_record

record pair_state =
  pa_l1 :: "(string, event_record) jmap"
  pa_l2 :: "(string, event_record) jmap"
  pa_pairs :: "correlated_pair list"

definition pair_step :: "pair_state \<Rightarrow> event_record \<Rightarrow> pair_state" where
  "pair_step s e =
     (if ev_name e \<noteq> ExecutionConsumed then s
      else case ar_actionHash (ev_args e) of
        None \<Rightarrow> s
      | Some hash \<Rightarrow>
          if hash = [] then s
          else if ev_chain e = L1 then
            (let s' = s\<lparr>pa_l1 := jmap_set hash e (pa_l1 s)\<rparr>
             in case jmap_get (pa_l2 s) hash of
                  None \<Rightarrow> s'
                | Some m \<Rightarrow> s'\<lparr>pa_pairs := pa_pairs s @ [\<lparr>cp_actionHash = hash, cp_l1Event = e, cp_l2Event = m\<rparr>]\<rparr>)
          else
            (let s' = s\<lparr>pa_l2 := jmap_set hash e (pa_l2 s)\<rparr>
             in case jmap_get (pa_l1 s) hash of
                  None \<Rightarrow> s'
                | Some m \<Rightarrow> s'\<lparr>pa_pairs := pa_pairs s @ [\<lparr>cp_actionHash = hash, cp_l1Event = m, cp_l2Event = e\<rparr>]\<rparr>))"

definition findCorrelatedPairs :: "event_record list \<Rightarrow> correlated_pair list" where
  "findCorrelatedPairs events = pa_pairs (foldl pair_step \<lparr>pa_l1 = [], pa_l2 = [], pa_pairs = []\<rparr> events)"

section \<open>Entries\<close>

record correlated_entry =
  cn_actionHash :: string
  cn_l1EventId :: string
  cn_l2EventId :: string

definition event_entries :: "event_record \<Rightarrow> exec_entry list" where
  "event_entries e = (case ar_entries (ev_args e) of None \<Rightarrow> [] | Some es \<Rightarrow> es)"

definition entry_hashes :: "(string, string) jmap \<times> (string, string) jmap \<Rightarrow> event_record
    \<Rightarrow> (string, string) jmap \<times> (string, string) jmap" where
  "entry_hashes s e =
     (let l1 = (if ev_name e = BatchPosted \<and> ev_chain e = L1
                then foldl (\<lambda>m en. if ee_actionHash en \<noteq> zero_hash then jmap_set (ee_actionHash en) (ev_id e) m else m)
                       (fst s) (event_entries e)
                else fst s);
          l2 = (if ev_name e = ExecutionTableLoaded \<and> ev_chain e = L2
                then foldl (\<lambda>m en. jmap_set (ee_actionHash en) (ev_id e) m) (snd s) (event_entries e)
                else snd s)
      in (l1, l2))"

definition findCorrelatedEntries :: "event_record list \<Rightarrow> correlated_entry list" where
  "findCorrelatedEntries events =
     (let (l1, l2) = foldl entry_hashes ([], []) events
      in List.map_filter (\<lambda>(hash, l1EventId). case jmap_get l2 hash of
            Some l2EventId \<Rightarrow> if l2EventId \<noteq> [] then Some \<lparr>cn_actionHash = hash, cn_l1EventId = l1EventId, cn_l2EventId = l2EventId\<rparr> else None
          | None \<Rightarrow> None) l1)"

section \<open>Links\<close>

record links =
  lk_hashes :: "(string, string list) jmap" \<comment> \<open>\<open>hashToEvents\<close>\<close>
  lk_events :: "(string, string list) jmap" \<comment> \<open>\<open>eventToHashes\<close>\<close>

definition set_at :: "(string, string list) jmap \<Rightarrow> string \<Rightarrow> string list" where
  "set_at m k = (case jmap_get m k of None \<Rightarrow> [] | Some s \<Rightarrow> s)"

definition add_at :: "string \<Rightarrow> string \<Rightarrow> (string, string list) jmap \<Rightarrow> (string, string list) jmap" where
  "add_at k v m = jmap_set k (jset_add v (set_at m k)) m"

definition link :: "string \<Rightarrow> links \<Rightarrow> string option \<Rightarrow> links" where
  "link eventId s actionHash =
     (case actionHash of
        None \<Rightarrow> s
      | Some a \<Rightarrow>
          if a = [] \<or> a = zero_hash then s
          else s\<lparr>lk_hashes := add_at (js_lower a) eventId (lk_hashes s),
                 lk_events := add_at eventId (js_lower a) (lk_events s)\<rparr>)"

definition entry_links :: "action_hasher \<Rightarrow> exec_entry \<Rightarrow> string option list" where
  "entry_links ah entry =
     Some (ee_actionHash entry) #
       (case ah (actionFromEventArgs (ee_nextAction entry)) of Inl e \<Rightarrow> [] | Inr nextHash \<Rightarrow> [Some nextHash])"

definition event_links :: "action_hasher \<Rightarrow> event_record \<Rightarrow> string option list" where
  "event_links ah e =
     (case ev_name e of
        BatchPosted \<Rightarrow> concat (map (entry_links ah) (event_entries e))
      | ExecutionTableLoaded \<Rightarrow> concat (map (entry_links ah) (event_entries e))
      | ExecutionConsumed \<Rightarrow> [ar_actionHash (ev_args e)]
      | CrossChainCallExecuted \<Rightarrow> [ar_actionHash (ev_args e)]
      | L2TXExecuted \<Rightarrow> [ar_actionHash (ev_args e)]
      | IncomingCrossChainCallExecuted \<Rightarrow> [ar_actionHash (ev_args e)]
      | _ \<Rightarrow> [])"

definition link_event :: "action_hasher \<Rightarrow> links \<Rightarrow> event_record \<Rightarrow> links" where
  "link_event ah s e = foldl (link (ev_id e)) s (event_links ah e)"

definition link_events :: "action_hasher \<Rightarrow> event_record list \<Rightarrow> links" where
  "link_events ah events = foldl (link_event ah) \<lparr>lk_hashes = [], lk_events = []\<rparr> events"

section \<open>Groups\<close>

definition union_pairs :: "(string, string list) jmap \<Rightarrow> (string \<times> string) list" where
  "union_pairs hashes = concat (map (\<lambda>(_, ids). map (\<lambda>i. (hd ids, i)) (tl ids)) hashes)"

definition event_groups :: "links \<Rightarrow> (string, string list) jmap option" where
  "event_groups s =
     Option.bind (opt_fold (\<lambda>p (a, b). uf_union p a b) [] (union_pairs (lk_hashes s))) (\<lambda>p.
       map_option snd (opt_fold (group_step uf_find) (p, []) (jmap_keys (lk_events s))))"

section \<open>Direction and title\<close>

definition is_action_event :: "event_record \<Rightarrow> bool" where
  "is_action_event e \<longleftrightarrow>
     ev_name e \<in> {ExecutionConsumed, CrossChainCallExecuted, L2TXExecuted, IncomingCrossChainCallExecuted}"

definition chain_seq :: "event_record list \<Rightarrow> chain list" where
  "chain_seq events = foldl (\<lambda>seq e. if seq = [] \<or> last seq \<noteq> ev_chain e then seq @ [ev_chain e] else seq) [] events"

definition single_chain :: "chain \<Rightarrow> bundle_direction" where
  "single_chain c = (if c = L1 then D_L1 else D_L2)"

definition inferDirection :: "event_record list \<Rightarrow> bundle_direction" where
  "inferDirection events =
     (let actionEvents = filter is_action_event events
      in if actionEvents = [] then
           (case jset_of (map ev_chain events) of [c] \<Rightarrow> single_chain c | _ \<Rightarrow> D_mixed)
         else
           (case chain_seq actionEvents of
              [c] \<Rightarrow> single_chain c
            | [L1, L2] \<Rightarrow> D_L1_L2
            | [L2, L1] \<Rightarrow> D_L2_L1
            | [L1, L2, L1] \<Rightarrow> D_L1_L2_L1
            | [L2, L1, L2] \<Rightarrow> D_L2_L1_L2
            | _ \<Rightarrow> D_mixed))"

text \<open>\<open>${s?.slice(0, 8)}\<close> in a template.\<close>

definition short_text :: "string option \<Rightarrow> string" where
  "short_text s = (case s of None \<Rightarrow> ''undefined'' | Some t \<Rightarrow> js_slice_to 8 t)"

definition find_named :: "event_name \<Rightarrow> event_record list \<Rightarrow> event_record option" where
  "find_named n events = find (\<lambda>e. ev_name e = n) events"

definition table_title :: "event_record list \<Rightarrow> bundle_direction \<Rightarrow> string" where
  "table_title events direction =
     (case (find_named BatchPosted events, find_named ExecutionTableLoaded events) of
        (Some _, Some _) \<Rightarrow> direction_str direction @ '' cross-chain batch''
      | (Some _, None) \<Rightarrow> ''Batch posted''
      | (None, Some _) \<Rightarrow> ''Execution table loaded''
      | (None, None) \<Rightarrow> direction_str direction @ '' transaction'')"

definition generateBundleTitle :: "event_record list \<Rightarrow> bundle_direction \<Rightarrow> string" where
  "generateBundleTitle events direction =
     (case find_named CrossChainCallExecuted events of
        Some e \<Rightarrow> ''Cross-chain call '' @ short_text (ar_sourceAddress (ev_args e)) @ ''... via proxy ''
          @ short_text (ar_proxy (ev_args e)) @ ''...''
      | None \<Rightarrow>
     (case find_named L2TXExecuted events of
        Some e \<Rightarrow> ''L2TX execution (rollup '' @ js_String_int (ar_rollupId (ev_args e)) @ '')''
      | None \<Rightarrow>
     (case find_named IncomingCrossChainCallExecuted events of
        Some e \<Rightarrow> ''Incoming cross-chain call to '' @ short_text (ar_destination (ev_args e)) @ ''...''
      | None \<Rightarrow> table_title events direction)))"

section \<open>Bundles\<close>

definition group_events :: "(string, event_record) jmap \<Rightarrow> string list \<Rightarrow> event_record list" where
  "group_events eventMap ids = sort_key ev_key (List.map_filter (jmap_get eventMap) ids)"

definition consumed_hashes :: "event_record list \<Rightarrow> js_error + string list" where
  "consumed_hashes events =
     res_bind (res_map (\<lambda>e. res_bind (js_defined (ar_actionHash (ev_args e))) (\<lambda>h. Inr (js_lower h)))
       (filter (\<lambda>e. ev_name e = ExecutionConsumed) events)) (\<lambda>hs. Inr (jset_of hs))"

definition loaded_of :: "event_record \<Rightarrow> string list" where
  "loaded_of e =
     (if ev_name e = BatchPosted
      then map (js_lower \<circ> ee_actionHash) (filter (\<lambda>en. ee_actionHash en \<noteq> zero_hash) (event_entries e))
      else if ev_name e = ExecutionTableLoaded then map (js_lower \<circ> ee_actionHash) (event_entries e)
      else [])"

definition loaded_hashes :: "event_record list \<Rightarrow> string list" where
  "loaded_hashes events = jset_of (concat (map loaded_of events))"

definition group_status :: "string list \<Rightarrow> string list \<Rightarrow> bundle_status" where
  "group_status loaded consumed = (if loaded \<noteq> [] \<and> list_all (\<lambda>h. h \<in> set consumed) loaded then Complete else InProgress)"

definition block_min :: "event_record list \<Rightarrow> int" where
  "block_min es = foldl (\<lambda>m e. if ev_block e < m then ev_block e else m) (ev_block (hd es)) es"

definition block_max :: "event_record list \<Rightarrow> int" where
  "block_max es = foldl (\<lambda>m e. if ev_block e > m then ev_block e else m) (ev_block (hd es)) es"

definition bundle_id :: "nat \<Rightarrow> string" where
  "bundle_id i = ''bundle-'' @ show_nat i"

definition group_bundle ::
  "links \<Rightarrow> nat \<Rightarrow> string list \<Rightarrow> event_record list \<Rightarrow> js_error + tx_bundle" where
  "group_bundle s idx ids es =
     (let direction = inferDirection es
      in res_bind (consumed_hashes es) (\<lambda>consumed.
        Inr \<lparr>tb_id = bundle_id idx, tb_direction = direction, tb_title = generateBundleTitle es direction,
             tb_actionHashes = jset_of (concat (map (set_at (lk_events s)) ids)), tb_events = map ev_id es,
             tb_chains = jset_of (map ev_chain es), tb_from = block_min es, tb_to = block_max es,
             tb_txHashes = jset_of (map ev_tx es), tb_status = group_status (loaded_hashes es) consumed\<rparr>))"

fun group_bundles ::
  "links \<Rightarrow> (string, event_record) jmap \<Rightarrow> nat \<Rightarrow> string list list \<Rightarrow> js_error + tx_bundle list" where
  "group_bundles s eventMap idx [] = Inr []"
| "group_bundles s eventMap idx (ids # rest) =
     (let es = group_events eventMap ids
      in if es = [] then group_bundles s eventMap idx rest
         else res_bind (group_bundle s idx ids es) (\<lambda>b.
           res_bind (group_bundles s eventMap (idx + 1) rest) (\<lambda>bs. Inr (b # bs))))"

definition lone_bundle :: "nat \<Rightarrow> event_record \<Rightarrow> tx_bundle" where
  "lone_bundle idx e =
     \<lparr>tb_id = bundle_id idx, tb_direction = single_chain (ev_chain e), tb_title = event_name_str (ev_name e),
      tb_actionHashes = [], tb_events = [ev_id e], tb_chains = [ev_chain e], tb_from = ev_block e, tb_to = ev_block e,
      tb_txHashes = [ev_tx e], tb_status = Complete\<rparr>"

definition lone_bundles :: "links \<Rightarrow> nat \<Rightarrow> event_record list \<Rightarrow> tx_bundle list" where
  "lone_bundles s idx events =
     (let lone = filter (\<lambda>e. ev_id e \<notin> set (jmap_keys (lk_events s))) events
      in map2 lone_bundle [idx ..< idx + length lone] lone)"

definition buildTransactionBundles :: "action_hasher \<Rightarrow> event_record list \<Rightarrow> (js_error + tx_bundle list) option" where
  "buildTransactionBundles ah events =
     (let s = link_events ah events;
          eventMap = jmap_set_all (map (\<lambda>e. (ev_id e, e)) events) []
      in map_option (\<lambda>groups.
           res_bind (group_bundles s eventMap 0 (map snd groups)) (\<lambda>bundles.
             Inr (sort_key tb_from (bundles @ lone_bundles s (length bundles) events))))
         (event_groups s))"

end
