(* ===== verification/Correlation_Groups.thy ===== *)
theory Correlation_Groups
  imports Correlation
begin

text \<open>
  The groups of \<open>buildTransactionBundles\<close>: which hashes an event is linked with, and that the
  groups are the connected components of the events under sharing a hash.
\<close>

section \<open>The hashes of an event\<close>

definition linked_hash :: "string option \<Rightarrow> string option" where
  "linked_hash h = (case h of None \<Rightarrow> None | Some a \<Rightarrow> if a = [] \<or> a = zero_hash then None else Some (js_lower a))"

definition event_hashes :: "action_hasher \<Rightarrow> event_record \<Rightarrow> string list" where
  "event_hashes ah e = List.map_filter linked_hash (event_links ah e)"

text \<open>The pairs of an event id and a hash that the links hold.\<close>

definition links_hold :: "links \<Rightarrow> (string \<times> string) set \<Rightarrow> bool" where
  "links_hold s R \<longleftrightarrow>
     distinct (jmap_keys (lk_hashes s)) \<and> distinct (jmap_keys (lk_events s)) \<and>
     (\<forall>i. set (set_at (lk_events s) i) = {h. (i, h) \<in> R}) \<and> (\<forall>h. set (set_at (lk_hashes s) h) = {i. (i, h) \<in> R}) \<and>
     (\<forall>i. jmap_get (lk_events s) i \<noteq> Some []) \<and> (\<forall>h. jmap_get (lk_hashes s) h \<noteq> Some [])"

lemma set_at_add [simp]: "set_at (add_at k v m) k' = (if k' = k then jset_add v (set_at m k) else set_at m k')"
  by (simp add: add_at_def set_at_def)

lemma distinct_add_at: "distinct (jmap_keys m) \<Longrightarrow> distinct (jmap_keys (add_at k v m))"
  by (simp add: add_at_def jm.distinct_put)

lemma jset_add_not_Nil [simp]: "jset_add x s \<noteq> []"
  by (auto simp: jset_add_def)

lemma get_add_at: "jmap_get (add_at k v m) k' \<noteq> Some [] \<longleftrightarrow> k' = k \<or> jmap_get m k' \<noteq> Some []"
  by (simp add: add_at_def)

lemma link_hold:
  assumes "links_hold s R"
  shows "links_hold (link i s h) (R \<union> (case linked_hash h of None \<Rightarrow> {} | Some a \<Rightarrow> {(i, a)}))"
proof (cases "linked_hash h")
  case None
  then have "link i s h = s" by (auto simp: linked_hash_def link_def split: option.splits if_splits)
  with assms None show ?thesis by simp
next
  case (Some a)
  then have "link i s h = s\<lparr>lk_hashes := add_at a i (lk_hashes s), lk_events := add_at i a (lk_events s)\<rparr>"
    by (auto simp: linked_hash_def link_def split: option.splits if_splits)
  with assms Some show ?thesis by (auto simp: links_hold_def distinct_add_at get_add_at)
qed

lemma links_fold:
  "links_hold s R \<Longrightarrow> links_hold (foldl (link i) s hs) (R \<union> {i} \<times> set (List.map_filter linked_hash hs))"
proof (induction hs arbitrary: s R)
  case (Cons h hs)
  have "R \<union> {i} \<times> set (List.map_filter linked_hash (h # hs)) =
      R \<union> (case linked_hash h of None \<Rightarrow> {} | Some a \<Rightarrow> {(i, a)}) \<union> {i} \<times> set (List.map_filter linked_hash hs)"
    by (cases "linked_hash h") (auto simp: map_filter_simps)
  with Cons.IH [OF link_hold [OF Cons.prems, of i h]] show ?case by simp
qed (simp add: map_filter_simps)

definition hash_pairs :: "action_hasher \<Rightarrow> event_record list \<Rightarrow> (string \<times> string) set" where
  "hash_pairs ah events = {(ev_id e, h) | e h. e \<in> set events \<and> h \<in> set (event_hashes ah e)}"

lemma links_events_fold:
  "links_hold s R \<Longrightarrow> links_hold (foldl (link_event ah) s events) (R \<union> hash_pairs ah events)"
proof (induction events arbitrary: s R)
  case (Cons e events)
  have "hash_pairs ah (e # events) = {ev_id e} \<times> set (event_hashes ah e) \<union> hash_pairs ah events"
    by (auto simp: hash_pairs_def)
  with Cons.IH [OF links_fold [OF Cons.prems, of "ev_id e" "event_links ah e", folded link_event_def event_hashes_def]]
  show ?case by (simp add: Un_assoc link_event_def event_hashes_def)
qed (simp add: hash_pairs_def)

lemma links_hold_events: "links_hold (link_events ah events) (hash_pairs ah events)"
proof -
  have "links_hold \<lparr>lk_hashes = [], lk_events = []\<rparr> {}" by (simp add: links_hold_def set_at_def jmap_keys_def)
  from links_events_fold [OF this] show ?thesis by (simp add: link_events_def)
qed

section \<open>Components\<close>

definition share :: "(string \<times> string) set \<Rightarrow> (string \<times> string) set" where
  "share R = {(x, y). \<exists>h. (x, h) \<in> R \<and> (y, h) \<in> R}"

lemma sym_share: "(share R)\<inverse> = share R"
  by (auto simp: share_def)

lemma union_pairs_share:
  assumes "links_hold s R"
  defines "E \<equiv> set (union_pairs (lk_hashes s))"
  shows "(E \<union> E\<inverse>)\<^sup>* = (share R)\<^sup>*"
proof -
  have ids: "set ids = {i. (i, h) \<in> R}" if "(h, ids) \<in> set (lk_hashes s)" for h ids
  proof -
    have "jmap_get (lk_hashes s) h = Some ids"
      using assms(1) that by (intro jmap_get_distinct) (simp_all add: links_hold_def)
    then have "set_at (lk_hashes s) h = ids" by (simp add: set_at_def)
    with assms(1) show ?thesis by (auto simp: links_hold_def)
  qed
  have "E \<subseteq> share R"
  proof
    fix xy assume "xy \<in> E"
    then obtain h l y where l: "(h, l) \<in> set (lk_hashes s)" "y \<in> set (tl l)" "xy = (hd l, y)"
      unfolding E_def union_pairs_def by auto
    have "l \<noteq> []" using l(2) by auto
    then have "hd l \<in> set l" "y \<in> set l" using l(2) by (simp_all add: list.set_sel(2))
    then show "xy \<in> share R" using ids [OF l(1)] l(3) by (auto simp: share_def)
  qed
  then have 1: "E \<union> E\<inverse> \<subseteq> share R" using sym_share by blast
  have 2: "share R \<subseteq> (E \<union> E\<inverse>)\<^sup>*"
  proof
    fix xy assume "xy \<in> share R"
    then obtain x y h where xy: "xy = (x, y)" "(x, h) \<in> R" "(y, h) \<in> R" by (auto simp: share_def)
    let ?ids = "set_at (lk_hashes s) h"
    have mem: "x \<in> set ?ids" "y \<in> set ?ids" using assms(1) xy by (auto simp: links_hold_def)
    then have "(h, ?ids) \<in> set (lk_hashes s)"
      by (auto simp: set_at_def jmap_get_Some_key split: option.splits)
    then have e: "(hd ?ids, z) \<in> E" if "z \<in> set (tl ?ids)" for z
      using that unfolding E_def union_pairs_def by force
    have conn: "(hd ?ids, z) \<in> (E \<union> E\<inverse>)\<^sup>* \<and> (z, hd ?ids) \<in> (E \<union> E\<inverse>)\<^sup>*" if "z \<in> set ?ids" for z
    proof (cases "z = hd ?ids")
      case False
      with that have "z \<in> set (tl ?ids)" by (cases ?ids) auto
      with e show ?thesis by blast
    qed simp
    show "xy \<in> (E \<union> E\<inverse>)\<^sup>*" unfolding xy(1) using conn [OF mem(1)] conn [OF mem(2)] by (meson rtrancl_trans)
  qed
  show ?thesis using 1 2 by (meson rtrancl_subset_rtrancl rtrancl_mono subset_antisym)
qed

lemma keys_links: "links_hold s R \<Longrightarrow> set (jmap_keys (lk_events s)) = Domain R"
proof -
  assume s: "links_hold s R"
  have "i \<in> set (jmap_keys (lk_events s)) \<longleftrightarrow> set (set_at (lk_events s) i) \<noteq> {}" for i
  proof (cases "jmap_get (lk_events s) i")
    case None
    then show ?thesis by (simp add: jm.keys_get set_at_def)
  next
    case (Some l)
    then have "l \<noteq> []" using s by (auto simp: links_hold_def)
    with Some show ?thesis by (simp add: jm.keys_get set_at_def)
  qed
  with s show ?thesis by (auto simp: links_hold_def)
qed

text \<open>The groups: nonempty, disjoint, covering, and each one a component.\<close>

lemma event_groups_ok:
  assumes "links_hold s R"
  shows "\<exists>g. event_groups s = Some g \<and> distinct (concat (map snd g)) \<and> set (concat (map snd g)) = Domain R \<and>
    (\<forall>ids \<in> set (map snd g). ids \<noteq> [] \<and> (\<forall>x \<in> set ids. \<forall>y. y \<in> set ids \<longleftrightarrow> y \<in> Domain R \<and> (x, y) \<in> (share R)\<^sup>*))"
proof -
  let ?E = "set (union_pairs (lk_hashes s))" and ?xs = "jmap_keys (lk_events s)"
  have "uf.classes_of [] {}" by (simp add: uf.classes_of_def uf_rep_empty)
  from uf.merges_classes [OF forest_empty this, of "union_pairs (lk_hashes s)"]
  obtain p where p: "opt_fold (\<lambda>p (a, b). uf_union p a b) [] (union_pairs (lk_hashes s)) = Some p" "forest p" "uf.classes_of p ?E"
    by auto
  have cls: "uf_rep p x = uf_rep p y \<longleftrightarrow> (x, y) \<in> (share R)\<^sup>*" for x y
    using p(3) union_pairs_share [OF assms] by (simp add: uf.classes_of_def)
  have dist: "distinct ?xs" using assms by (simp add: links_hold_def)
  from uf.groups_ok [OF p(2) dist, of "[]" "[]"]
  obtain p' g where g: "opt_fold (group_step uf_find) (p, []) ?xs = Some (p', g)" "distinct (jmap_keys g)"
    "\<And>r. jmap_get g r = (if filter (\<lambda>x. uf_rep p x = r) ?xs = [] then None else Some (filter (\<lambda>x. uf_rep p x = r) ?xs))"
    by (auto simp: jmap_keys_def)
  have entry: "ids = filter (\<lambda>x. uf_rep p x = r) ?xs \<and> ids \<noteq> []" if "(r, ids) \<in> set g" for r ids
    using jmap_get_distinct [OF g(2) that] g(3) [of r] by (auto split: if_splits)
  have ev: "event_groups s = Some g" using p(1) g(1) by (simp add: event_groups_def)
  have cover: "set (concat (map snd g)) = Domain R"
  proof -
    have "x \<in> set (concat (map snd g))" if x: "x \<in> set ?xs" for x
    proof -
      have "jmap_get g (uf_rep p x) = Some (filter (\<lambda>w. uf_rep p w = uf_rep p x) ?xs)"
        using x by (auto simp: g(3) filter_empty_conv)
      from jmap_get_Some_key [OF this] show ?thesis using x by force
    qed
    moreover have "set (concat (map snd g)) \<subseteq> set ?xs" using entry by fastforce
    ultimately show ?thesis using keys_links [OF assms] by blast
  qed
  have disjoint: "distinct (concat (map snd h))" if "distinct (jmap_keys h)" "set h \<subseteq> set g" for h
    using that
  proof (induction h)
    case (Cons ri h)
    obtain r ids where ri: "ri = (r, ids)" by (cases ri)
    have ids: "ids = filter (\<lambda>x. uf_rep p x = r) ?xs" using entry [of r ids] Cons.prems(2) ri by simp
    have "set ids \<inter> set (concat (map snd h)) = {}"
    proof (rule ccontr)
      assume "set ids \<inter> set (concat (map snd h)) \<noteq> {}"
      then obtain x r' ids' where x: "x \<in> set ids" "(r', ids') \<in> set h" "x \<in> set ids'" by auto
      then have "r' = r" using entry [of r' ids'] ids Cons.prems(2) by auto
      with x(2) Cons.prems(1) ri show False by (force simp: jmap_keys_def)
    qed
    with Cons ri ids dist show ?case by (simp add: jmap_keys_def)
  qed simp
  have comp: "y \<in> set ids \<longleftrightarrow> y \<in> Domain R \<and> (x, y) \<in> (share R)\<^sup>*" if m: "ids \<in> set (map snd g)" and x: "x \<in> set ids" for ids x y
  proof -
    obtain r where r: "(r, ids) \<in> set g" using m by force
    have "y \<in> set ids \<longleftrightarrow> y \<in> set ?xs \<and> uf_rep p x = uf_rep p y"
      using entry [OF r] x by auto
    then show ?thesis using cls keys_links [OF assms] by simp
  qed
  have ne: "ids \<noteq> []" if "ids \<in> set (map snd g)" for ids using that entry by force
  show ?thesis using ev disjoint [OF g(2)] cover comp ne by blast
qed

end
