(* ===== verification/Correlation_Properties.thy ===== *)
theory Correlation_Properties
  imports Correlation_Groups "HOL-Library.Multiset"
begin

text \<open>
  The transaction bundles: for an event log without repeated ids they always come out, contain
  every event once, are the components of the events under sharing an action hash, and are
  sorted by their first block, with exact block ranges.
\<close>

section \<open>Block ranges\<close>

lemma foldl_min: "m \<le> foldl (\<lambda>m e. if f e < m then f e else m) a es \<longleftrightarrow> m \<le> (a :: int) \<and> (\<forall>e \<in> set es. m \<le> f e)"
  by (induction es arbitrary: a) auto

lemma foldl_max: "foldl (\<lambda>m e. if f e > m then f e else m) a es \<le> m \<longleftrightarrow> (a :: int) \<le> m \<and> (\<forall>e \<in> set es. f e \<le> m)"
  by (induction es arbitrary: a) auto

lemma foldl_min_mem: "foldl (\<lambda>m e. if f e < m then f e else m) a es \<in> insert a (f ` set es)"
proof (induction es arbitrary: a)
  case (Cons e es)
  from Cons [of "if f e < a then f e else a"] show ?case by (auto split: if_splits)
qed simp

lemma foldl_max_mem: "foldl (\<lambda>m e. if f e > m then f e else m) a es \<in> insert a (f ` set es)"
proof (induction es arbitrary: a)
  case (Cons e es)
  from Cons [of "if f e > a then f e else a"] show ?case by (auto split: if_splits)
qed simp

definition range_ok :: "event_record list \<Rightarrow> tx_bundle \<Rightarrow> bool" where
  "range_ok es b \<longleftrightarrow> (\<forall>e \<in> set es. tb_from b \<le> ev_block e \<and> ev_block e \<le> tb_to b) \<and>
     tb_from b \<in> ev_block ` set es \<and> tb_to b \<in> ev_block ` set es"

lemma block_range:
  assumes "es \<noteq> []"
  shows "(\<forall>e \<in> set es. block_min es \<le> ev_block e \<and> ev_block e \<le> block_max es) \<and>
    block_min es \<in> ev_block ` set es \<and> block_max es \<in> ev_block ` set es"
proof -
  have hd: "insert (ev_block (hd es)) (ev_block ` set es) = ev_block ` set es"
    using assms by (auto intro: imageI)
  show ?thesis
    using foldl_min [of "block_min es" ev_block "ev_block (hd es)" es] foldl_max [of ev_block "ev_block (hd es)" es "block_max es"]
      foldl_min_mem [of ev_block "ev_block (hd es)" es] foldl_max_mem [of ev_block "ev_block (hd es)" es]
    unfolding hd by (simp add: block_min_def block_max_def)
qed

section \<open>The events of a group\<close>

lemma event_map_get:
  assumes "distinct (map ev_id events)"
  shows "jmap_get (jmap_set_all (map (\<lambda>e. (ev_id e, e)) events) []) i = Some e \<longleftrightarrow> e \<in> set events \<and> ev_id e = i"
proof -
  have "map_of (rev (map (\<lambda>e. (ev_id e, e)) events)) i = Some e \<longleftrightarrow> e \<in> set events \<and> ev_id e = i"
    using assms by (subst map_of_eq_Some_iff) (auto simp: comp_def simp flip: rev_map)
  then show ?thesis by (auto simp: jmap_get_set_all split: option.split)
qed

lemma group_events_mset:
  assumes "distinct (map ev_id events)" and "set ids \<subseteq> ev_id ` set events"
  defines "es \<equiv> group_events (jmap_set_all (map (\<lambda>e. (ev_id e, e)) events) []) ids"
  shows "mset (map ev_id es) = mset ids" and "set es \<subseteq> set events" and "sorted (map ev_key es)"
proof -
  let ?m = "jmap_set_all (map (\<lambda>e. (ev_id e, e)) events) []"
  have get: "\<exists>e. jmap_get ?m i = Some e \<and> ev_id e = i \<and> e \<in> set events" if "i \<in> set ids" for i
    using that assms(2) event_map_get [OF assms(1)] by blast
  have "map ev_id (List.map_filter (jmap_get ?m) ids) = ids \<and> set (List.map_filter (jmap_get ?m) ids) \<subseteq> set events"
    using get
  proof (induction ids)
    case (Cons i ids)
    then obtain e where "jmap_get ?m i = Some e" "ev_id e = i" "e \<in> set events" by force
    with Cons show ?case by (simp add: map_filter_simps)
  qed (simp add: map_filter_simps)
  then have ids: "mset (map ev_id (List.map_filter (jmap_get ?m) ids)) = mset ids"
    and sub: "set (List.map_filter (jmap_get ?m) ids) \<subseteq> set events" by simp_all
  show "mset (map ev_id es) = mset ids" using ids by (simp add: es_def group_events_def)
  show "set es \<subseteq> set events" "sorted (map ev_key es)" using sub by (simp_all add: es_def group_events_def)
qed

text \<open>A grouped consumption has a hash, so its bundle does not throw.\<close>

lemma consumed_hashes_ok:
  assumes "\<forall>e \<in> set es. event_hashes ah e \<noteq> []"
  shows "\<exists>hs. consumed_hashes es = Inr hs"
proof -
  have "\<exists>h. ar_actionHash (ev_args e) = Some h" if "e \<in> set es" "ev_name e = ExecutionConsumed" for e
  proof -
    have "event_hashes ah e \<noteq> []" using assms that(1) by blast
    then show ?thesis
      using that(2) by (cases "ar_actionHash (ev_args e)") (auto simp: event_hashes_def event_links_def map_filter_simps linked_hash_def)
  qed
  then have "res_map (\<lambda>e. res_bind (js_defined (ar_actionHash (ev_args e))) (\<lambda>h. Inr (js_lower h)))
      (filter (\<lambda>e. ev_name e = ExecutionConsumed) es) =
    Inr (map (\<lambda>e. js_lower (the (ar_actionHash (ev_args e)))) (filter (\<lambda>e. ev_name e = ExecutionConsumed) es))"
    by (intro res_map_total) force
  then show ?thesis by (simp add: consumed_hashes_def)
qed

definition bundle_of :: "event_record list \<Rightarrow> string list \<Rightarrow> tx_bundle \<Rightarrow> bool" where
  "bundle_of events ids b \<longleftrightarrow> mset (tb_events b) = mset ids \<and>
     range_ok (filter (\<lambda>e. ev_id e \<in> set ids) events) b"

lemma group_bundles_ok:
  assumes "distinct (map ev_id events)" and "\<forall>ids \<in> set groups. ids \<noteq> [] \<and> set ids \<subseteq> Domain (hash_pairs ah events)"
  shows "\<exists>bs. group_bundles s (jmap_set_all (map (\<lambda>e. (ev_id e, e)) events) []) idx groups = Inr bs \<and>
    list_all2 (bundle_of events) groups bs \<and> map tb_id bs = map bundle_id [idx ..< idx + length bs]"
  using assms(2)
proof (induction groups arbitrary: idx)
  case (Cons ids groups)
  let ?m = "jmap_set_all (map (\<lambda>e. (ev_id e, e)) events) []"
  let ?es = "group_events ?m ids"
  have dom: "Domain (hash_pairs ah events) \<subseteq> ev_id ` set events" by (auto simp: hash_pairs_def)
  with Cons.prems have sub: "set ids \<subseteq> ev_id ` set events" by auto
  note es = group_events_mset [OF assms(1) sub]
  have ids: "set ids = ev_id ` set ?es" using mset_eq_setD [OF es(1)] by simp
  have ne: "?es \<noteq> []" using Cons.prems es(1) by auto
  have set_es: "set ?es = set (filter (\<lambda>e. ev_id e \<in> set ids) events)"
  proof
    show "set ?es \<subseteq> set (filter (\<lambda>e. ev_id e \<in> set ids) events)" using es(2) ids by auto
    show "set (filter (\<lambda>e. ev_id e \<in> set ids) events) \<subseteq> set ?es"
    proof
      fix e assume e: "e \<in> set (filter (\<lambda>e. ev_id e \<in> set ids) events)"
      then obtain e' where "e' \<in> set ?es" "ev_id e' = ev_id e" unfolding ids by auto
      moreover from this es(2) e assms(1) have "e' = e" by (auto simp: distinct_map dest: inj_onD)
      ultimately show "e \<in> set ?es" by simp
    qed
  qed
  have "event_hashes ah e \<noteq> []" if "e \<in> set ?es" for e
  proof -
    have "ev_id e \<in> Domain (hash_pairs ah events)" using that ids Cons.prems by auto
    then obtain e' where e': "e' \<in> set events" "ev_id e' = ev_id e" "event_hashes ah e' \<noteq> []"
      by (force simp: hash_pairs_def)
    then have "e' = e" using that es(2) assms(1) by (auto simp: distinct_map dest: inj_onD)
    with e' show ?thesis by simp
  qed
  then obtain b where b: "group_bundle s idx ids ?es = Inr b" "tb_events b = map ev_id ?es" "tb_from b = block_min ?es"
    "tb_to b = block_max ?es" "tb_id b = bundle_id idx"
    using consumed_hashes_ok [of ?es ah] by (auto simp: group_bundle_def Let_def)
  have "bundle_of events ids b"
    using block_range [OF ne] b es(1) unfolding bundle_of_def range_ok_def set_es by simp
  moreover obtain bs where "group_bundles s ?m (idx + 1) groups = Inr bs" "list_all2 (bundle_of events) groups bs"
    "map tb_id bs = map bundle_id [idx + 1 ..< idx + 1 + length bs]"
    using Cons.IH [of "idx + 1"] Cons.prems by auto
  ultimately show ?case using ne b by (simp add: Let_def upt_conv_Cons [of idx] del: upt_Suc)
qed simp

section \<open>The bundles\<close>

lemma bundle_id_inj: "bundle_id i = bundle_id j \<longleftrightarrow> i = j"
  by (auto simp: bundle_id_def dest: show_nat_inj)

lemma lone_bundles_events:
  "map tb_events (lone_bundles s idx events) = map (\<lambda>e. [ev_id e]) (filter (\<lambda>e. ev_id e \<notin> set (jmap_keys (lk_events s))) events)"
  "map tb_id (lone_bundles s idx events) = map bundle_id [idx ..< idx + length (lone_bundles s idx events)]"
proof -
  have *: "map tb_events (map2 lone_bundle is es) = map (\<lambda>e. [ev_id e]) es \<and> map tb_id (map2 lone_bundle is es) = map bundle_id is"
    if "length is = length es" for "is" es
    using that by (induction "is" es rule: list_induct2) (simp_all add: lone_bundle_def)
  show "map tb_events (lone_bundles s idx events) = map (\<lambda>e. [ev_id e]) (filter (\<lambda>e. ev_id e \<notin> set (jmap_keys (lk_events s))) events)"
    "map tb_id (lone_bundles s idx events) = map bundle_id [idx ..< idx + length (lone_bundles s idx events)]"
    using * [of "[idx ..< idx + length (filter (\<lambda>e. ev_id e \<notin> set (jmap_keys (lk_events s))) events)]"
        "filter (\<lambda>e. ev_id e \<notin> set (jmap_keys (lk_events s))) events"]
    by (simp_all add: lone_bundles_def Let_def)
qed

lemma lone_bundles_range:
  "b \<in> set (lone_bundles s idx events) \<Longrightarrow> \<exists>i. \<exists>e \<in> set events. b = lone_bundle i e \<and>
     ev_id e \<notin> set (jmap_keys (lk_events s))"
  by (fastforce simp: lone_bundles_def Let_def dest: set_zip_rightD)

definition shares_hash :: "action_hasher \<Rightarrow> event_record list \<Rightarrow> (string \<times> string) set" where
  "shares_hash ah events = share (hash_pairs ah events)"

definition bundles_spec :: "action_hasher \<Rightarrow> event_record list \<Rightarrow> tx_bundle list \<Rightarrow> bool" where
  "bundles_spec ah events bundles \<longleftrightarrow>
     mset (concat (map tb_events bundles)) = mset (map ev_id events) \<and>
     (\<forall>b \<in> set bundles. \<forall>x \<in> set (tb_events b). \<forall>y. y \<in> set (tb_events b) \<longleftrightarrow>
        y \<in> ev_id ` set events \<and> (x, y) \<in> (shares_hash ah events)\<^sup>*) \<and>
     sorted (map tb_from bundles) \<and> distinct (map tb_id bundles) \<and>
     (\<forall>b \<in> set bundles. range_ok (filter (\<lambda>e. ev_id e \<in> set (tb_events b)) events) b)"

lemma share_domain: "(x, y) \<in> (share R)\<^sup>* \<Longrightarrow> x \<noteq> y \<Longrightarrow> x \<in> Domain R \<and> y \<in> Domain R"
proof -
  assume "(x, y) \<in> (share R)\<^sup>*" "x \<noteq> y"
  then have xy: "(x, y) \<in> (share R)\<^sup>+" by (auto dest: rtranclD)
  then have "x \<in> Domain ((share R)\<^sup>+)" "y \<in> Range ((share R)\<^sup>+)" by blast+
  then have "x \<in> Domain (share R)" "y \<in> Range (share R)" by (simp_all only: trancl_domain trancl_range)
  then show ?thesis by (auto simp: share_def)
qed

lemma mset_concat_map: "mset (concat (map f xs)) = \<Sum>\<^sub># (image_mset (mset \<circ> f) (mset xs))"
  by (induction xs) simp_all

lemma mset_concat_sort: "mset (concat (map f (sort_key k xs))) = mset (concat (map f xs))"
  by (simp only: mset_concat_map mset_sort)

lemma bundles_ok:
  assumes dist: "distinct (map ev_id events)"
  shows "\<exists>bundles. buildTransactionBundles ah events = Some (Inr bundles) \<and> bundles_spec ah events bundles"
proof -
  let ?s = "link_events ah events" and ?R = "hash_pairs ah events"
  obtain g where g: "event_groups ?s = Some g" "distinct (concat (map snd g))" "set (concat (map snd g)) = Domain ?R"
    "\<forall>ids \<in> set (map snd g). ids \<noteq> [] \<and> (\<forall>x \<in> set ids. \<forall>y. y \<in> set ids \<longleftrightarrow> y \<in> Domain ?R \<and> (x, y) \<in> (share ?R)\<^sup>*)"
    using event_groups_ok [OF links_hold_events] by blast
  have "\<forall>ids \<in> set (map snd g). ids \<noteq> [] \<and> set ids \<subseteq> Domain ?R" using g(3,4) by auto
  from group_bundles_ok [OF dist this, of ?s 0]
  obtain bs where bs: "group_bundles ?s (jmap_set_all (map (\<lambda>e. (ev_id e, e)) events) []) 0 (map snd g) = Inr bs"
    "list_all2 (bundle_of events) (map snd g) bs" "map tb_id bs = map bundle_id [0 ..< length bs]"
    by auto
  let ?lone = "lone_bundles ?s (length bs) events"
  let ?bundles = "sort_key tb_from (bs @ ?lone)"
  have keys: "set (jmap_keys (lk_events ?s)) = Domain ?R" using keys_links [OF links_hold_events] .
  have run: "buildTransactionBundles ah events = Some (Inr ?bundles)"
    using g(1) bs(1) by (simp add: buildTransactionBundles_def Let_def)
  have bs_ids: "mset (concat (map tb_events bs)) = mset (concat (map snd g))"
    using bs(2) by (induction rule: list_all2_induct) (simp_all add: bundle_of_def)
  have bs_ex: "\<exists>ids \<in> set (map snd g). bundle_of events ids b" if "b \<in> set bs" for b
    using bs(2) that by (induction rule: list_all2_induct) auto
  have parts: "mset (concat (map tb_events ?bundles)) = mset (map ev_id events)"
  proof -
    have "mset (concat (map tb_events ?bundles)) = mset (concat (map tb_events (bs @ ?lone)))"
      by (rule mset_concat_sort)
    also have "\<dots> = mset (concat (map snd g)) + mset (map ev_id (filter (\<lambda>e. ev_id e \<notin> Domain ?R) events))"
      using bs_ids lone_bundles_events(1) [of ?s "length bs" events] keys by (simp add: comp_def)
    also have "mset (concat (map snd g)) = mset (map ev_id (filter (\<lambda>e. ev_id e \<in> Domain ?R) events))"
    proof -
      have "set (concat (map snd g)) = set (map ev_id (filter (\<lambda>e. ev_id e \<in> Domain ?R) events))"
        using g(3) by (auto simp: hash_pairs_def)
      moreover have "distinct (map ev_id (filter (\<lambda>e. ev_id e \<in> Domain ?R) events))"
        using dist by (simp add: distinct_map inj_on_def)
      ultimately show ?thesis using g(2) by (metis set_eq_iff_mset_eq_distinct)
    qed
    also have "\<dots> + mset (map ev_id (filter (\<lambda>e. ev_id e \<notin> Domain ?R) events)) = mset (map ev_id events)"
      by (simp flip: image_mset_union)
    finally show ?thesis .
  qed
  have lone: "\<exists>e \<in> set events. tb_events b = [ev_id e] \<and> tb_from b = ev_block e \<and> tb_to b = ev_block e \<and> ev_id e \<notin> Domain ?R"
    if "b \<in> set ?lone" for b
    using lone_bundles_range [OF that] keys by (auto simp: lone_bundle_def)
  have comp: "y \<in> set (tb_events b) \<longleftrightarrow> y \<in> ev_id ` set events \<and> (x, y) \<in> (share ?R)\<^sup>*"
    if b: "b \<in> set bs \<or> b \<in> set ?lone" and x: "x \<in> set (tb_events b)" for b x y
    using b
  proof
    assume "b \<in> set bs"
    with bs_ex obtain ids where ids: "ids \<in> set (map snd g)" "set (tb_events b) = set ids"
      by (metis bundle_of_def mset_eq_setD)
    have "y \<in> Domain ?R \<Longrightarrow> y \<in> ev_id ` set events" by (auto simp: hash_pairs_def)
    moreover have "x \<in> Domain ?R" using ids x g(3) by auto
    then have "(x, y) \<in> (share ?R)\<^sup>* \<Longrightarrow> y \<in> Domain ?R" using share_domain [of x y ?R] by (cases "x = y") auto
    moreover have "y \<in> set ids \<longleftrightarrow> y \<in> Domain ?R \<and> (x, y) \<in> (share ?R)\<^sup>*" 
      using conjunct2 [OF bspec [OF g(4) ids(1)]] ids(2) x by simp
    ultimately show ?thesis using ids(2) by auto
  next
    assume "b \<in> set ?lone"
    with lone obtain e where e: "e \<in> set events" "tb_events b = [ev_id e]" "ev_id e \<notin> Domain ?R" by blast
    with x show ?thesis using share_domain [of x y ?R] by auto
  qed
  have range: "range_ok (filter (\<lambda>e. ev_id e \<in> set (tb_events b)) events) b" if b: "b \<in> set bs \<or> b \<in> set ?lone" for b
    using b
  proof
    assume "b \<in> set bs"
    with bs_ex show ?thesis by (metis bundle_of_def mset_eq_setD)
  next
    assume "b \<in> set ?lone"
    with lone obtain e where e: "e \<in> set events" "tb_events b = [ev_id e]" "tb_from b = ev_block e" "tb_to b = ev_block e" by blast
    have "f = e" if "f \<in> set events" "ev_id f = ev_id e" for f
      using that e(1) dist by (auto simp: distinct_map dest: inj_onD)
    then show ?thesis using e by (auto simp: range_ok_def)
  qed
  have "distinct (map tb_id (bs @ ?lone))"
    using bs(3) lone_bundles_events(2) [of ?s "length bs" events]
    by (auto simp: distinct_map inj_on_def bundle_id_inj)
  then have ids: "distinct (map tb_id ?bundles)"
    by (metis mset_map mset_sort mset_eq_imp_distinct_iff)
  show ?thesis using run parts comp range ids by (auto simp: bundles_spec_def shares_hash_def)
qed

section \<open>Properties\<close>

text \<open>C31. For an event log without repeated ids, bundling always returns and never throws (the
  \<open>while\<close> loop of the union-find ends), every event is in exactly one bundle, bundle ids are
  different, bundles are sorted by their first block, and the block range of a bundle is exactly
  that of its events.\<close>
theorem bundles_partition:
  assumes "distinct (map ev_id events)"
  shows "\<exists>bundles. buildTransactionBundles ah events = Some (Inr bundles) \<and>
    mset (concat (map tb_events bundles)) = mset (map ev_id events) \<and>
    distinct (map tb_id bundles) \<and> sorted (map tb_from bundles) \<and>
    (\<forall>b \<in> set bundles. range_ok (filter (\<lambda>e. ev_id e \<in> set (tb_events b)) events) b)"
  using bundles_ok [OF assms, of ah] by (auto simp: bundles_spec_def)

text \<open>C32. Two events are in one bundle exactly when a chain of events leads from one to the other
  in which neighbours share an action hash (stored, computed from a next action, or consumed, up
  to letter case).\<close>
theorem bundles_are_components:
  assumes "distinct (map ev_id events)" and "buildTransactionBundles ah events = Some (Inr bundles)"
    and "x \<in> set events" and "y \<in> set events"
  shows "(\<exists>b \<in> set bundles. ev_id x \<in> set (tb_events b) \<and> ev_id y \<in> set (tb_events b)) \<longleftrightarrow>
    (ev_id x, ev_id y) \<in> {(ev_id d, ev_id e) | d e. d \<in> set events \<and> e \<in> set events \<and>
       set (event_hashes ah d) \<inter> set (event_hashes ah e) \<noteq> {}}\<^sup>*"
proof -
  have shares: "shares_hash ah events = {(ev_id d, ev_id e) | d e. d \<in> set events \<and> e \<in> set events \<and>
       set (event_hashes ah d) \<inter> set (event_hashes ah e) \<noteq> {}}"
    by (auto simp: shares_hash_def share_def hash_pairs_def)
  have spec: "bundles_spec ah events bundles" using bundles_ok [OF assms(1), of ah] assms(2) by auto
  then have "set (concat (map tb_events bundles)) = ev_id ` set events"
    by (metis bundles_spec_def mset_eq_setD set_map)
  then obtain b where b: "b \<in> set bundles" "ev_id x \<in> set (tb_events b)" using assms(3) by force
  have comp: "c \<in> set bundles \<Longrightarrow> ev_id x \<in> set (tb_events c) \<Longrightarrow>
      z \<in> set (tb_events c) \<longleftrightarrow> z \<in> ev_id ` set events \<and> (ev_id x, z) \<in> (shares_hash ah events)\<^sup>*" for c z
    using spec by (simp add: bundles_spec_def)
  show ?thesis unfolding shares [symmetric] using b comp assms(4) by blast
qed

definition hashed_event :: "string \<Rightarrow> chain \<Rightarrow> event_name \<Rightarrow> int \<Rightarrow> string \<Rightarrow> event_record" where
  "hashed_event i c n block h = \<lparr>ev_id = i, ev_chain = c, ev_name = n, ev_block = block, ev_logIndex = 0, ev_tx = i,
     ev_args = no_args\<lparr>ar_actionHash := Some h\<rparr>, ev_timestamp = None\<rparr>"

definition bundle_events :: "event_record list" where
  "bundle_events = [hashed_event ''c'' L1 L2TXExecuted 9 ''0x2'', hashed_event ''a'' L1 CrossChainCallExecuted 5 ''0xAB'',
     hashed_event ''b'' L2 ExecutionConsumed 7 ''0xab'']"

theorem bundles_partition_witness:
  "\<exists>bundles. buildTransactionBundles (\<lambda>_. Inl TypeError) bundle_events = Some (Inr bundles) \<and>
     mset (concat (map tb_events bundles)) = {#''a'', ''b'', ''c''#} \<and> sorted (map tb_from bundles)"
  using bundles_partition [of bundle_events "\<lambda>_. Inl TypeError"]
  by (auto simp: bundle_events_def hashed_event_def add_mset_commute)

theorem bundles_are_components_witness:
  "\<exists>bundles. buildTransactionBundles (\<lambda>_. Inl TypeError) bundle_events = Some (Inr bundles) \<and>
     (\<exists>b \<in> set bundles. ''a'' \<in> set (tb_events b) \<and> ''b'' \<in> set (tb_events b))"
proof -
  have dist: "distinct (map ev_id bundle_events)" by (simp add: bundle_events_def hashed_event_def)
  obtain bundles where run: "buildTransactionBundles (\<lambda>_. Inl TypeError) bundle_events = Some (Inr bundles)"
    using bundles_ok [OF dist] by blast
  let ?a = "bundle_events ! 1" and ?b = "bundle_events ! 2"
  have mem: "?a \<in> set bundle_events" "?b \<in> set bundle_events" "ev_id ?a = ''a''" "ev_id ?b = ''b''"
    by (simp_all add: bundle_events_def hashed_event_def)
  have h: "event_hashes (\<lambda>_. Inl TypeError) ?a = [''0xab'']" "event_hashes (\<lambda>_. Inl TypeError) ?b = [''0xab'']"
    by code_simp+
  have "(ev_id ?a, ev_id ?b) \<in> {(ev_id d, ev_id e) | d e. d \<in> set bundle_events \<and> e \<in> set bundle_events \<and>
       set (event_hashes (\<lambda>_. Inl TypeError) d) \<inter> set (event_hashes (\<lambda>_. Inl TypeError) e) \<noteq> {}}\<^sup>*"
  proof (intro r_into_rtrancl CollectI exI conjI)
    show "set (event_hashes (\<lambda>_. Inl TypeError) ?a) \<inter> set (event_hashes (\<lambda>_. Inl TypeError) ?b) \<noteq> {}"
      unfolding h by simp
  qed (use mem in simp_all)
  with bundles_are_components [OF dist run mem(1,2)] run mem(3,4) show ?thesis by auto
qed

end
