(* ===== verification/Bundle_Architecture.thy ===== *)
theory Bundle_Architecture
  imports Correlation Discovery
begin

text \<open>
  \<open>src/src/lib/bundleArchitecture.ts\<close>: the diagram of one transaction bundle (nodes, edges, and
  per step the highlighted part, the execution tables and the contract state), with each
  consumption merged into the call of its transaction.
  As in \<open>Event_Tables\<close>, hashing is the parameter \<open>ah\<close>, the detail cache of the event processor is
  passed in and returned, and the left side of a sum is the \<open>TypeError\<close> on an absent argument.
\<close>

section \<open>Addresses and edges\<close>

definition nid :: "chain \<Rightarrow> string \<Rightarrow> string" where
  "nid c addr = (if js_starts_with addr ''__'' then addr else chain_str c @ '':'' @ js_lower addr)"

record proxy_info =
  px_originalAddress :: string
  px_originalRollupId :: "int option"

type_synonym proxy_map = "(string, proxy_info) jmap"

definition proxy_key :: "chain \<Rightarrow> string \<Rightarrow> string" where
  "proxy_key c a = chain_str c @ '':'' @ a"

definition add_proxy :: "proxy_map \<Rightarrow> event_record \<Rightarrow> js_error + proxy_map" where
  "add_proxy m e =
     (if ev_name e \<noteq> CrossChainProxyCreated then Inr m
      else res_bind (js_defined (ar_proxy (ev_args e))) (\<lambda>p.
           res_bind (js_defined (ar_originalAddress (ev_args e))) (\<lambda>orig.
             Inr (jmap_set (proxy_key (ev_chain e) (js_lower p))
               \<lparr>px_originalAddress = js_lower orig, px_originalRollupId = ar_originalRollupId (ev_args e)\<rparr> m))))"

fun res_fold :: "('s \<Rightarrow> 'a \<Rightarrow> 'e + 's) \<Rightarrow> 's \<Rightarrow> 'a list \<Rightarrow> 'e + 's" where
  "res_fold f s [] = Inr s"
| "res_fold f s (x # xs) = res_bind (f s x) (\<lambda>s'. res_fold f s' xs)"

definition proxy_map_of :: "event_record list \<Rightarrow> js_error + proxy_map" where
  "proxy_map_of events = res_fold add_proxy [] events"

definition findProxyForOriginal :: "string \<Rightarrow> chain \<Rightarrow> proxy_map \<Rightarrow> string option" where
  "findProxyForOriginal originalAddress proxyChain pMap =
     (case find (\<lambda>(key, info). js_starts_with key (proxy_key proxyChain []) \<and> px_originalAddress info = js_lower originalAddress) pMap of
        None \<Rightarrow> None
      | Some (key, info) \<Rightarrow> Some (js_slice_from (length (chain_str proxyChain) + 1) key))"

record bundle_addr =
  ba_chain :: chain
  ba_type :: node_type
  ba_label :: string
  ba_rawAddr :: string

text \<open>What the loop over the events reads: the known addresses, the proxies and the managers.\<close>

record arch_input =
  inp_known :: "(string, addr_info) jmap"
  inp_proxies :: proxy_map
  inp_l1Manager :: string
  inp_l2Manager :: string

record arch_state =
  as_addrs :: "(string, bundle_addr) jmap"
  as_edges :: "(string, arch_edge) jmap"

definition labelFor :: "arch_input \<Rightarrow> string \<Rightarrow> chain \<Rightarrow> string" where
  "labelFor inp addr c =
     (case jmap_get (inp_known inp) (js_lower addr) of
        Some k \<Rightarrow> if ai_chain k = c then ai_label k else truncateAddress addr
      | None \<Rightarrow> truncateAddress addr)"

definition known_type :: "arch_input \<Rightarrow> string \<Rightarrow> chain \<Rightarrow> node_type option" where
  "known_type inp raw c = (case jmap_get (inp_known inp) raw of Some k \<Rightarrow> if ai_chain k = c then Some (ai_type k) else None | None \<Rightarrow> None)"

definition primed :: "string \<Rightarrow> string" where
  "primed l = l @ [CHR 0x27]"

definition addr_entry :: "arch_input \<Rightarrow> string \<Rightarrow> chain \<Rightarrow> node_type \<Rightarrow> string option \<Rightarrow> bundle_addr" where
  "addr_entry inp addr c t hint =
     (let raw = js_lower addr;
          (t', hint') = (case jmap_get (inp_proxies inp) (proxy_key c raw) of
              Some p \<Rightarrow> if hint = None \<or> hint = Some [] then (Proxy, Some (primed (labelFor inp (px_originalAddress p) (other_chain c)))) else (t, hint)
            | None \<Rightarrow> (t, hint))
      in \<lparr>ba_chain = c, ba_type = (case known_type inp raw c of Some k \<Rightarrow> k | None \<Rightarrow> t'),
          ba_label = (case hint' of Some l \<Rightarrow> l | None \<Rightarrow> labelFor inp addr c), ba_rawAddr = raw\<rparr>)"

definition addAddr :: "arch_input \<Rightarrow> string \<Rightarrow> chain \<Rightarrow> node_type \<Rightarrow> string option \<Rightarrow> arch_state \<Rightarrow> arch_state" where
  "addAddr inp addr c t hint s =
     (if js_lower addr = zero_addr \<or> jmap_get (as_addrs s) (nid c addr) \<noteq> None then s
      else s\<lparr>as_addrs := jmap_set (nid c addr) (addr_entry inp addr c t hint) (as_addrs s)\<rparr>)"

definition edge_id :: "string \<Rightarrow> string \<Rightarrow> bool \<Rightarrow> string" where
  "edge_id f t back = (if back then t @ ''->'' @ f @ ''-back'' else f @ ''->'' @ t)"

definition addEdge :: "string \<Rightarrow> string \<Rightarrow> string \<Rightarrow> bool \<Rightarrow> arch_state \<Rightarrow> arch_state" where
  "addEdge f t label back s =
     (if jmap_get (as_edges s) (edge_id f t back) \<noteq> None then s
      else s\<lparr>as_edges := jmap_set (edge_id f t back)
        \<lparr>ae_from = f, ae_to = t, ae_label = label, ae_back = (if back then Some True else None), ae_alt = None,
          ae_id = Some (edge_id f t back)\<rparr> (as_edges s)\<rparr>)"

definition mgr_id :: "arch_input \<Rightarrow> chain \<Rightarrow> string" where
  "mgr_id inp c = nid c (if c = L1 then inp_l1Manager inp else inp_l2Manager inp)"

section \<open>The diagram\<close>

fun event_priority :: "event_name \<Rightarrow> nat" where
  "event_priority BatchPosted = 0"
| "event_priority ExecutionTableLoaded = 1"
| "event_priority CrossChainProxyCreated = 2"
| "event_priority L2ExecutionPerformed = 3"
| "event_priority ExecutionConsumed = 4"
| "event_priority CrossChainCallExecuted = 5"
| "event_priority L2TXExecuted = 5"
| "event_priority IncomingCrossChainCallExecuted = 6"
| "event_priority _ = 3"

definition ordered_events :: "event_record list \<Rightarrow> event_record list" where
  "ordered_events events = sort_key (\<lambda>e. (event_priority (ev_name e), ev_block e, ev_logIndex e)) events"

definition rollup_chain :: "int \<Rightarrow> chain" where
  "rollup_chain r = (if r = 0 then L1 else L2)"

definition call_step :: "arch_input \<Rightarrow> chain \<Rightarrow> string \<Rightarrow> string \<Rightarrow> arch_state \<Rightarrow> arch_state" where
  "call_step inp c src proxy s =
     (let s1 = addAddr inp proxy c Proxy None (addAddr inp src c Contract None s);
          srcId = nid c src; proxyId = nid c proxy; mgrId = mgr_id inp c
      in addEdge proxyId srcId ''return'' True (addEdge mgrId proxyId ''result'' True
           (addEdge proxyId mgrId ''execCC'' False (addEdge srcId proxyId ''call'' False s1))))"

definition incoming_step :: "arch_input \<Rightarrow> chain \<Rightarrow> string \<Rightarrow> string option \<Rightarrow> arch_state \<Rightarrow> arch_state" where
  "incoming_step inp c dest srcAddr s =
     (let s1 = addAddr inp dest c Contract None s; destId = nid c dest; mgrId = mgr_id inp c
      in case srcAddr of
           None \<Rightarrow> s1
         | Some src \<Rightarrow>
             if src = [] \<or> src = zero_addr then s1
             else
               (let s2 = addAddr inp src (other_chain c) Contract None s1
                in case findProxyForOriginal src c (inp_proxies inp) of
                     Some proxyAddr \<Rightarrow>
                       if proxyAddr = [] then addEdge destId mgrId ''return'' True (addEdge mgrId destId ''execIncoming'' False s2)
                       else
                         (let s3 = addAddr inp proxyAddr c Proxy None s2; proxyId = nid c proxyAddr
                          in addEdge proxyId mgrId ''result'' True (addEdge destId proxyId ''return'' True
                               (addEdge proxyId destId ''call'' False (addEdge mgrId proxyId ''execOnBehalf'' False s3))))
                   | None \<Rightarrow> addEdge destId mgrId ''return'' True (addEdge mgrId destId ''execIncoming'' False s2)))"

definition consumed_step :: "arch_input \<Rightarrow> action_fields option \<Rightarrow> arch_state \<Rightarrow> arch_state" where
  "consumed_step inp action s =
     (case action of
        None \<Rightarrow> s
      | Some arg \<Rightarrow>
          (let fields = actionFromEventArgs arg
           in if a_actionType fields \<noteq> 0 then s
              else
                (let s1 = addAddr inp (a_destination fields) (rollup_chain (a_rollupId fields)) Contract None s
                 in if a_sourceAddress fields = zero_addr then s1
                    else addAddr inp (a_sourceAddress fields) (rollup_chain (a_sourceRollup fields)) Contract None s1)))"

definition proxy_step :: "arch_input \<Rightarrow> chain \<Rightarrow> string \<Rightarrow> string \<Rightarrow> arch_state \<Rightarrow> arch_state" where
  "proxy_step inp c proxy orig s =
     (let s1 = addAddr inp orig (other_chain c) Contract None s;
          label = (case jmap_get (as_addrs s1) (nid (other_chain c) orig) of Some i \<Rightarrow> primed (ba_label i) | None \<Rightarrow> truncateAddress proxy);
          s2 = addAddr inp proxy c Proxy (Some label) s1
      in addEdge (nid c proxy) (mgr_id inp c) ''proxy'' False s2)"

definition arch_step :: "arch_input \<Rightarrow> arch_state \<Rightarrow> event_record \<Rightarrow> js_error + arch_state" where
  "arch_step inp s e =
     (let args = ev_args e; c = ev_chain e
      in case ev_name e of
        BatchPosted \<Rightarrow> Inr (addEdge ''__prover__'' (mgr_id inp L1) ''postBatch'' False (addAddr inp ''__prover__'' L1 Ghost (Some ''Prover'') s))
      | ExecutionTableLoaded \<Rightarrow> Inr (addEdge ''__system__'' (mgr_id inp L2) ''loadTable'' False (addAddr inp ''__system__'' L2 Ghost (Some ''SYSTEM'') s))
      | CrossChainCallExecuted \<Rightarrow>
          res_bind (js_defined (ar_sourceAddress args)) (\<lambda>src. res_bind (js_defined (ar_proxy args)) (\<lambda>proxy. Inr (call_step inp c src proxy s)))
      | IncomingCrossChainCallExecuted \<Rightarrow>
          res_bind (js_defined (ar_destination args)) (\<lambda>dest. Inr (incoming_step inp c dest (ar_sourceAddress args) s))
      | ExecutionConsumed \<Rightarrow> Inr (consumed_step inp (ar_action args) s)
      | CrossChainProxyCreated \<Rightarrow>
          res_bind (js_defined (ar_originalAddress args)) (\<lambda>orig. res_bind (js_defined (ar_proxy args)) (\<lambda>proxy. Inr (proxy_step inp c proxy orig s)))
      | L2TXExecuted \<Rightarrow> Inr (addEdge (mgr_id inp L1) (mgr_id inp L1) ''L2TX'' False s)
      | _ \<Rightarrow> Inr s)"

definition manager_state :: "arch_input \<Rightarrow> arch_state" where
  "manager_state inp = addAddr inp (inp_l2Manager inp) L2 System (Some ''ManagerL2'')
     (addAddr inp (inp_l1Manager inp) L1 System (Some ''Rollups'') \<lparr>as_addrs = [], as_edges = []\<rparr>)"

fun type_order :: "node_type \<Rightarrow> nat" where
  "type_order System = 0"
| "type_order Contract = 1"
| "type_order User = 1"
| "type_order Proxy = 2"
| "type_order Ghost = 3"

definition node_sub :: "string \<Rightarrow> bundle_addr \<Rightarrow> string" where
  "node_sub i info = (if js_starts_with i ''__'' then (if i = ''__prover__'' then ''ZK batch poster'' else ''sysAddr'')
     else truncateAddress (ba_rawAddr info))"

definition chain_nodes :: "chain \<Rightarrow> (string, bundle_addr) jmap \<Rightarrow> arch_node list" where
  "chain_nodes c addrs =
     (let sorted = filter (\<lambda>(i, info). ba_chain info = c) (sort_key (\<lambda>(i, info). (ba_chain info, type_order (ba_type info))) addrs)
      in map (\<lambda>(col, i, info). \<lparr>an_id = i, an_label = ba_label info, an_sub = node_sub i info, an_type = ba_type info, an_col = col\<rparr>)
           (List.enumerate 0 sorted))"

section \<open>Highlights\<close>

record step_highlight =
  sh_activeNodes :: "string list"
  sh_activeEdges :: "string list"
  sh_description :: string

definition label_at :: "arch_state \<Rightarrow> string \<Rightarrow> string \<Rightarrow> string" where
  "label_at s i other = (case jmap_get (as_addrs s) i of Some info \<Rightarrow> ba_label info | None \<Rightarrow> other)"

definition upper :: "chain \<Rightarrow> string" where
  "upper c = map js_upper_char (chain_str c)"

definition mk_highlight :: "string list \<Rightarrow> string list \<Rightarrow> string \<Rightarrow> step_highlight" where
  "mk_highlight nodes edges desc = \<lparr>sh_activeNodes = nodes, sh_activeEdges = edges, sh_description = desc\<rparr>"

definition call_highlight :: "arch_input \<Rightarrow> arch_state \<Rightarrow> chain \<Rightarrow> string \<Rightarrow> string \<Rightarrow> step_highlight" where
  "call_highlight inp s c src proxy =
     (let srcId = nid c src; proxyId = nid c proxy; mgrId = mgr_id inp c
      in mk_highlight [srcId, proxyId, mgrId]
           [srcId @ ''->'' @ proxyId, proxyId @ ''->'' @ mgrId, proxyId @ ''->'' @ mgrId @ ''-back'', srcId @ ''->'' @ proxyId @ ''-back'']
           (label_at s srcId ''caller'' @ '' calls '' @ label_at s proxyId ''proxy''))"

definition consumed_highlight :: "arch_input \<Rightarrow> chain \<Rightarrow> action_fields option \<Rightarrow> step_highlight" where
  "consumed_highlight inp c action =
     (case action of
        None \<Rightarrow> mk_highlight [mgr_id inp c] [] ''ExecutionConsumed''
      | Some arg \<Rightarrow>
          (let fields = actionFromEventArgs arg
           in mk_highlight (mgr_id inp c # (if a_actionType fields = 0 then [nid (rollup_chain (a_rollupId fields)) (a_destination fields)] else []))
                [] (actionTypeName (a_actionType fields) @ '': consumed on '' @ upper c)))"

definition incoming_highlight :: "arch_input \<Rightarrow> arch_state \<Rightarrow> chain \<Rightarrow> string \<Rightarrow> string \<Rightarrow> step_highlight" where
  "incoming_highlight inp s c dest src =
     (let destId = nid c dest; mgrId = mgr_id inp c; desc = ''Incoming call: '' @ label_at s destId ''contract'' @ '' executes'';
          direct = mk_highlight [mgrId, destId] [mgrId @ ''->'' @ destId, mgrId @ ''->'' @ destId @ ''-back''] desc
      in case findProxyForOriginal (js_lower src) c (inp_proxies inp) of
           None \<Rightarrow> direct
         | Some proxyAddr \<Rightarrow>
             if proxyAddr = [] then direct
             else (let proxyId = nid c proxyAddr
               in mk_highlight [mgrId, destId, proxyId]
                    [mgrId @ ''->'' @ proxyId, proxyId @ ''->'' @ destId, proxyId @ ''->'' @ destId @ ''-back'', mgrId @ ''->'' @ proxyId @ ''-back''] desc))"

definition step_highlight_of :: "arch_input \<Rightarrow> arch_state \<Rightarrow> event_record \<Rightarrow> js_error + step_highlight" where
  "step_highlight_of inp s e =
     (let args = ev_args e; c = ev_chain e
      in case ev_name e of
        BatchPosted \<Rightarrow> Inr (mk_highlight [''__prover__'', mgr_id inp L1] [''__prover__->'' @ mgr_id inp L1] ''Prover posts batch to Rollups'')
      | ExecutionTableLoaded \<Rightarrow> Inr (mk_highlight [''__system__'', mgr_id inp L2] [''__system__->'' @ mgr_id inp L2] ''SYSTEM loads execution table on L2'')
      | CrossChainCallExecuted \<Rightarrow>
          res_bind (js_defined (ar_sourceAddress args)) (\<lambda>src. res_bind (js_defined (ar_proxy args)) (\<lambda>proxy. Inr (call_highlight inp s c src proxy)))
      | ExecutionConsumed \<Rightarrow> Inr (consumed_highlight inp c (ar_action args))
      | IncomingCrossChainCallExecuted \<Rightarrow>
          res_bind (js_defined (ar_destination args)) (\<lambda>dest. res_bind (js_defined (ar_sourceAddress args)) (\<lambda>src. Inr (incoming_highlight inp s c dest src)))
      | CrossChainProxyCreated \<Rightarrow>
          res_bind (js_defined (ar_proxy args)) (\<lambda>proxy.
            Inr (mk_highlight [nid c proxy, mgr_id inp c] [nid c proxy @ ''->'' @ mgr_id inp c] (''Proxy created: '' @ label_at s (nid c proxy) ''proxy'')))
      | L2ExecutionPerformed \<Rightarrow> Inr (mk_highlight [mgr_id inp L1] [] (''State updated for rollup '' @ js_String_int (ar_rollupId args)))
      | _ \<Rightarrow> Inr (mk_highlight [] [] (event_name_str (ev_name e))))"

section \<open>Table and contract states\<close>

datatype step_status = SS_ja | SS_ok | SS_jc | SS_consumed

record step_entry =
  se_entry :: table_entry
  se_status :: step_status

record table_state =
  st_l1 :: "step_entry list"
  st_l2 :: "step_entry list"

definition age_entries :: "step_entry list \<Rightarrow> step_entry list" where
  "age_entries es = filter (\<lambda>e. se_status e \<noteq> SS_consumed) (map (\<lambda>e. if se_status e = SS_ja then e\<lparr>se_status := SS_ok\<rparr> else e) es)"

definition fresh_entries :: "table_entry list \<Rightarrow> step_entry list" where
  "fresh_entries tes = map (\<lambda>te. \<lparr>se_entry = te, se_status = SS_ja\<rparr>) tes"

definition consume_first :: "step_entry list \<Rightarrow> consume_info \<Rightarrow> step_entry list" where
  "consume_first es info =
     update_first (\<lambda>e. te_fullActionHash (se_entry e) = ci_actionHash info \<and> se_status e \<noteq> SS_consumed)
       (\<lambda>e. let e' = e\<lparr>se_status := SS_jc\<rparr>
             in if ci_actionDetail info \<noteq> [] then e'\<lparr>se_entry := (se_entry e)\<lparr>te_actionDetail := Some (ci_actionDetail info)\<rparr>\<rparr> else e') es"

definition retire_entries :: "step_entry list \<Rightarrow> step_entry list" where
  "retire_entries es = map (\<lambda>e. if se_status e = SS_jc then e\<lparr>se_status := SS_consumed\<rparr> else e) es"

definition table_step :: "table_mutations \<Rightarrow> table_state \<Rightarrow> table_state" where
  "table_step m s =
     \<lparr>st_l1 = foldl consume_first (age_entries (st_l1 s) @ fresh_entries (l1Adds m)) (l1Consumes m),
      st_l2 = foldl consume_first (age_entries (st_l2 s) @ fresh_entries (l2Adds m)) (l2Consumes m)\<rparr>"

definition retire_state :: "table_state \<Rightarrow> table_state" where
  "retire_state s = \<lparr>st_l1 = retire_entries (st_l1 s), st_l2 = retire_entries (st_l2 s)\<rparr>"

fun table_states :: "action_hasher \<Rightarrow> detail_cache \<Rightarrow> table_state \<Rightarrow> event_record list
    \<Rightarrow> detail_cache \<times> (js_error + table_state list)" where
  "table_states ah cache s [] = (cache, Inr [])"
| "table_states ah cache s (e # es) =
     (case processEventForTables ah cache e of
        (cache', Inl err) \<Rightarrow> (cache', Inl err)
      | (cache', Inr m) \<Rightarrow>
          (let s' = table_step m s; (cache'', rest) = table_states ah cache' (retire_state s') es
           in (cache'', res_bind rest (\<lambda>ss. Inr (s' # ss)))))"

definition computeTableStates :: "action_hasher \<Rightarrow> detail_cache \<Rightarrow> event_record list \<Rightarrow> detail_cache \<times> (js_error + table_state list)" where
  "computeTableStates ah cache events = table_states ah cache \<lparr>st_l1 = [], st_l2 = []\<rparr> events"

record contract_entry =
  ct_key :: string
  ct_value :: "string option"
  ct_changed :: bool

definition truncateHash :: "string option \<Rightarrow> string option" where
  "truncateHash h = map_option (\<lambda>s. if length s < 12 then s else js_slice_to 10 s @ ''...'') h"

definition state_writes :: "event_record \<Rightarrow> js_error + (string \<times> string option) list" where
  "state_writes e =
     (let args = ev_args e; rid = js_String_int (ar_rollupId args)
      in case ev_name e of
        RollupCreated \<Rightarrow> res_bind (js_defined (ar_owner args)) (\<lambda>owner.
          Inr [(rollup_key rid ''state'', truncateHash (ar_initialState args)), (rollup_key rid ''owner'', Some (truncateAddress owner))])
      | BatchPosted \<Rightarrow> Inr (map (\<lambda>sd. (rollup_key (show_int (sd_rollupId sd)) ''state'', truncateHash (Some (sd_newState sd))))
          (concat (map ee_stateDeltas (event_entries e))))
      | L2ExecutionPerformed \<Rightarrow> Inr [(rollup_key rid ''state'', truncateHash (ar_newState args))]
      | StateUpdated \<Rightarrow> Inr [(rollup_key rid ''state'', truncateHash (ar_newStateRoot args))]
      | _ \<Rightarrow> Inr [])"

fun contract_states :: "(string, string option) jmap \<Rightarrow> event_record list \<Rightarrow> js_error + contract_entry list list" where
  "contract_states m [] = Inr []"
| "contract_states m (e # es) =
     res_bind (state_writes e) (\<lambda>writes.
       let m' = jmap_set_all writes m
       in res_bind (contract_states m' es) (\<lambda>rest.
            Inr (map (\<lambda>(k, v). \<lparr>ct_key = k, ct_value = v, ct_changed = (k \<in> fst ` set writes)\<rparr>) m' # rest)))"

definition computeContractStates :: "event_record list \<Rightarrow> js_error + contract_entry list list" where
  "computeContractStates events = contract_states [] events"

section \<open>Merging consumptions\<close>

definition merge_target :: "event_name \<Rightarrow> bool" where
  "merge_target n \<longleftrightarrow> n \<in> {CrossChainCallExecuted, IncomingCrossChainCallExecuted, L2TXExecuted}"

definition target_at :: "event_record list \<Rightarrow> nat \<Rightarrow> nat \<Rightarrow> bool" where
  "target_at events i j \<longleftrightarrow> ev_tx (events ! j) = ev_tx (events ! i) \<and> merge_target (ev_name (events ! j))"

definition merge_into :: "event_record list \<Rightarrow> nat \<Rightarrow> nat option" where
  "merge_into events i =
     (if ev_name (events ! i) \<noteq> ExecutionConsumed then None
      else case find (target_at events i) [i + 1 ..< length events] of
        Some j \<Rightarrow> Some j
      | None \<Rightarrow> find (target_at events i) (rev [0 ..< i]))"

record step_data =
  sp_highlights :: "step_highlight list"
  sp_tables :: "table_state list"
  sp_contracts :: "contract_entry list list"

definition merge_highlight :: "step_highlight \<Rightarrow> step_highlight \<Rightarrow> step_highlight" where
  "merge_highlight th ch = th\<lparr>sh_activeNodes := jset_of (sh_activeNodes th @ sh_activeNodes ch),
     sh_activeEdges := jset_of (sh_activeEdges th @ sh_activeEdges ch)\<rparr>"

definition just_consumed :: "table_state \<Rightarrow> bool" where
  "just_consumed s \<longleftrightarrow> list_ex (\<lambda>e. se_status e = SS_jc) (st_l1 s) \<or> list_ex (\<lambda>e. se_status e = SS_jc) (st_l2 s)"

definition merge_step :: "event_record list \<Rightarrow> step_data \<Rightarrow> nat \<Rightarrow> step_data" where
  "merge_step events d i =
     (case merge_into events i of
        None \<Rightarrow> d
      | Some t \<Rightarrow>
          \<lparr>sp_highlights = (sp_highlights d)[t := merge_highlight (sp_highlights d ! t) (sp_highlights d ! i)],
           sp_tables = (if just_consumed (sp_tables d ! i) then (sp_tables d)[t := sp_tables d ! i] else sp_tables d),
           sp_contracts = (if list_ex ct_changed (sp_contracts d ! i) \<and> \<not> list_ex ct_changed (sp_contracts d ! t)
             then (sp_contracts d)[t := sp_contracts d ! i] else sp_contracts d)\<rparr>)"

definition keep_steps :: "event_record list \<Rightarrow> 'a list \<Rightarrow> 'a list" where
  "keep_steps events xs = map snd (filter (\<lambda>(i, x). merge_into events i = None) (List.enumerate 0 xs))"

record bundle_architecture =
  bn_l1Nodes :: "arch_node list"
  bn_l2Nodes :: "arch_node list"
  bn_edges :: "arch_edge list"
  bn_stepHighlights :: "step_highlight list"
  bn_tableStates :: "table_state list"
  bn_contractStates :: "contract_entry list list"
  bn_mergedEvents :: "event_record list"

definition arch_of :: "arch_state \<Rightarrow> event_record list \<Rightarrow> step_data \<Rightarrow> bundle_architecture" where
  "arch_of s ordered d =
     (let d' = foldl (merge_step ordered) d [0 ..< length ordered]
      in \<lparr>bn_l1Nodes = chain_nodes L1 (as_addrs s), bn_l2Nodes = chain_nodes L2 (as_addrs s), bn_edges = map snd (as_edges s),
          bn_stepHighlights = keep_steps ordered (sp_highlights d'), bn_tableStates = keep_steps ordered (sp_tables d'),
          bn_contractStates = keep_steps ordered (sp_contracts d'), bn_mergedEvents = keep_steps ordered ordered\<rparr>)"

definition buildBundleArchitecture ::
  "action_hasher \<Rightarrow> detail_cache \<Rightarrow> event_record list \<Rightarrow> (string, addr_info) jmap \<Rightarrow> string \<Rightarrow> string \<Rightarrow> event_record list option
    \<Rightarrow> detail_cache \<times> (js_error + bundle_architecture)" where
  "buildBundleArchitecture ah cache bundleEvents known l1Manager l2Manager allEvents =
     (case proxy_map_of (case allEvents of None \<Rightarrow> bundleEvents | Some es \<Rightarrow> es) of
        Inl e \<Rightarrow> (cache, Inl e)
      | Inr proxies \<Rightarrow>
          (let inp = \<lparr>inp_known = known, inp_proxies = proxies, inp_l1Manager = l1Manager, inp_l2Manager = l2Manager\<rparr>;
               ordered = ordered_events bundleEvents
           in case res_fold (arch_step inp) (manager_state inp) ordered of
                Inl e \<Rightarrow> (cache, Inl e)
              | Inr s \<Rightarrow>
                  (case res_map (step_highlight_of inp s) ordered of
                     Inl e \<Rightarrow> (cache, Inl e)
                   | Inr highlights \<Rightarrow>
                       (case computeTableStates ah cache ordered of
                          (cache', Inl e) \<Rightarrow> (cache', Inl e)
                        | (cache', Inr tables) \<Rightarrow>
                            (cache', res_bind (computeContractStates ordered) (\<lambda>contracts.
                               Inr (arch_of s ordered \<lparr>sp_highlights = highlights, sp_tables = tables, sp_contracts = contracts\<rparr>)))))))"

end
