(* ===== verification/Bundle_Diagram.thy ===== *)
theory Bundle_Diagram
  imports Bundle_Architecture
begin

text \<open>
  The diagram of a bundle is well-formed: nodes and edges are unique, every edge ends at nodes, and
  the four step lists of the result belong together.
\<close>

section \<open>Ends of edges\<close>
























section \<open>Nodes\<close>






section \<open>Steps\<close>





lemma keep_steps_length: "length (keep_steps events xs) = length (filter (\<lambda>i. merge_into events i = None) [0 ..< length xs])"
proof -
  have "length (keep_steps events xs) = length (filter (\<lambda>x. merge_into events (fst x) = None) (List.enumerate 0 xs))"
    by (simp add: keep_steps_def split_def)
  also have "\<dots> = length (filter (\<lambda>i. merge_into events i = None) (map fst (List.enumerate 0 xs)))"
    by (simp only: filter_map length_map comp_def)
  finally show ?thesis by (simp only: map_fst_enumerate add_0)
qed
























end
