(* ===== verification/Execution_Analysis.thy ===== *)
theory Execution_Analysis
  imports Debug_Types
begin

text \<open>
  \<open>src/src/lib/executionAnalysis.ts\<close>: the execution plans of a transaction, the pairing of plans
  and recorded events by call hash, the comparison of every plan with the recorded evidence, and
  the classification of the frames of a call trace.
  \<open>isManager\<close> is \<open>isDebugManager\<close> with the configuration and the discovered contracts.
  Decoding the \<open>bytes\<close> result of a trace is the parameter \<open>dec_bytes\<close> (\<^const>\<open>None\<close> when it throws).
  A text with characters outside ASCII is its UTF-8 encoding (\<open>arrow_text\<close>).
\<close>

section \<open>Transactions\<close>

definition txKey :: "debug_transaction \<Rightarrow> string" where
  "txKey tx = chain_str (dt_chain tx) @ '':'' @ js_lower (rt_hash (dt_tx tx))"

definition isEezTransaction :: "(chain \<Rightarrow> string option \<Rightarrow> bool) \<Rightarrow> debug_transaction \<Rightarrow> bool" where
  "isEezTransaction isManager tx \<longleftrightarrow>
     isManager (dt_chain tx) (rt_to (dt_tx tx)) \<or> dt_payload tx \<noteq> None \<or> list_ex de_protocol (dt_events tx)"

definition eq_values :: "js \<Rightarrow> js \<Rightarrow> bool" where
  "eq_values a b = (case (a, b) of (JStr s, JStr t) \<Rightarrow> js_lower s = js_lower t | _ \<Rightarrow> js_strict_eq a b)"

definition entry_index :: "debug_event \<Rightarrow> string" where
  "entry_index e = js_string (js_coalesce (js_coalesce (js_prop (de_args e) ''entryQueueIndex'')
     (js_prop (de_args e) ''entryIndex'')) (JStr []))"

definition opt_zero :: "int option \<Rightarrow> int" where
  "opt_zero n = (case n of None \<Rightarrow> 0 | Some i \<Rightarrow> i)" \<comment> \<open>\<open>BigInt(n ?? 0)\<close>\<close>

definition tx_block :: "debug_transaction \<Rightarrow> int" where
  "tx_block tx = opt_zero (rt_blockNumber (dt_tx tx))"

definition tx_index :: "debug_transaction \<Rightarrow> int" where
  "tx_index tx = opt_zero (rt_transactionIndex (dt_tx tx))"

definition tx_order :: "debug_transaction \<Rightarrow> chain \<times> int \<times> int" where
  "tx_order tx = (dt_chain tx, tx_block tx, tx_index tx)"

definition contextTransactions :: "debug_context \<Rightarrow> debug_transaction list" where
  "contextTransactions context =
     (let transactions = block_transactions context;
          all = (case dx_selected context of
             Some s \<Rightarrow> if list_ex (\<lambda>tx. txKey tx = txKey s) transactions then transactions else transactions @ [s]
           | None \<Rightarrow> transactions)
      in sort_key tx_order (map snd (jmap_set_all (map (\<lambda>tx. (txKey tx, tx)) all) [])))"

definition has_method :: "debug_transaction \<Rightarrow> string \<Rightarrow> bool" where
  "has_method tx m \<longleftrightarrow> (case dt_payload tx of Some p \<Rightarrow> dp_method p = m | None \<Rightarrow> False)"

definition executionTransactions :: "debug_context \<Rightarrow> debug_transaction list" where
  "executionTransactions context =
     (let transactions = contextTransactions context
      in case dx_selected context of
           None \<Rightarrow> transactions
         | Some s \<Rightarrow>
             if dt_chain s \<noteq> L1 \<or> \<not> has_method s ''postAndVerifyBatch'' then transactions
             else filter (\<lambda>tx. dt_chain tx = L2 \<or> txKey tx = txKey s \<or> shares_call s tx) transactions)"

section \<open>Plans and pairs\<close>

datatype plan_kind = P_Execution | P_Static

fun plan_kind_str :: "plan_kind \<Rightarrow> string" where
  "plan_kind_str P_Execution = ''Execution''"
| "plan_kind_str P_Static = ''Static''"

record entry_plan =
  pl_id :: string
  pl_tx :: debug_transaction
  pl_entry :: js_object
  pl_index :: nat
  pl_kind :: plan_kind
  pl_hash :: "string option"

datatype role = R_Outgoing | R_Incoming | R_Consumed

record occurrence =
  oc_id :: string
  oc_tx :: debug_transaction
  oc_event :: debug_event
  oc_eventIndex :: nat
  oc_entryIndex :: string
  oc_role :: role

record execution_pair =
  ep_hash :: string
  ep_plans :: "entry_plan list"
  ep_occurrences :: "occurrence list"
  ep_ambiguous :: bool
  ep_direction :: string

definition protocol_events :: "debug_transaction \<Rightarrow> debug_event list" where
  "protocol_events tx = filter de_protocol (dt_events tx)"

definition loaded_table :: "debug_transaction \<Rightarrow> string \<Rightarrow> js_object list" where
  "loaded_table tx k =
     (case find (\<lambda>e. de_protocol e \<and> de_name e = ''ExecutionTableLoaded'') (dt_events tx) of
        None \<Rightarrow> [] | Some e \<Rightarrow> js_objects (js_prop (de_args e) k))"

definition mk_plan :: "debug_transaction \<Rightarrow> plan_kind \<Rightarrow> nat \<times> js_object \<Rightarrow> entry_plan" where
  "mk_plan tx kind ie =
     \<lparr>pl_id = txKey tx @ '':'' @ plan_kind_str kind @ '':'' @ show_nat (fst ie), pl_tx = tx, pl_entry = snd ie,
      pl_index = fst ie, pl_kind = kind, pl_hash = call_hash (js_prop (snd ie) ''proxyEntryHash'')\<rparr>"

definition executionPlans :: "debug_transaction \<Rightarrow> entry_plan list" where
  "executionPlans tx =
     (let pe = (case dt_payload tx of None \<Rightarrow> [] | Some p \<Rightarrow> dp_entries p);
          ps = (case dt_payload tx of None \<Rightarrow> [] | Some p \<Rightarrow> dp_staticEntries p);
          entries = (if pe \<noteq> [] then pe else loaded_table tx ''entries'');
          statics = (if ps \<noteq> [] then ps else loaded_table tx ''staticEntries'')
      in map (mk_plan tx P_Execution) (List.enumerate 0 entries) @ map (mk_plan tx P_Static) (List.enumerate 0 statics))"

definition event_role :: "string \<Rightarrow> role option" where
  "event_role name =
     (if name = ''CrossChainCallExecuted'' then Some R_Outgoing
      else if name = ''IncomingCrossChainCallExecuted'' then Some R_Incoming
      else if name = ''ExecutionConsumed'' then Some R_Consumed else None)"

definition step_id :: "debug_transaction \<Rightarrow> nat \<Rightarrow> string" where
  "step_id tx i = txKey tx @ '':'' @ show_nat i"

definition mk_occurrence :: "debug_transaction \<Rightarrow> nat \<Rightarrow> debug_event \<Rightarrow> (string \<times> occurrence) option" where
  "mk_occurrence tx i e =
     (case (call_hash (js_prop (de_args e) ''crossChainCallHash''), event_role (de_name e)) of
        (Some h, Some r) \<Rightarrow> Some (h, \<lparr>oc_id = step_id tx i, oc_tx = tx, oc_event = e, oc_eventIndex = i,
          oc_entryIndex = entry_index e, oc_role = r\<rparr>)
      | _ \<Rightarrow> None)"

definition new_pair :: "string \<Rightarrow> execution_pair" where
  "new_pair h = \<lparr>ep_hash = h, ep_plans = [], ep_occurrences = [], ep_ambiguous = False,
     ep_direction = ''Cross-chain execution''\<rparr>"

definition on_pair :: "string \<Rightarrow> (execution_pair \<Rightarrow> execution_pair) \<Rightarrow> (string, execution_pair) jmap \<Rightarrow> (string, execution_pair) jmap" where
  "on_pair h f groups = jmap_set h (f (case jmap_get groups h of None \<Rightarrow> new_pair h | Some p \<Rightarrow> p)) groups"

definition add_plan :: "(string, execution_pair) jmap \<Rightarrow> entry_plan \<Rightarrow> (string, execution_pair) jmap" where
  "add_plan groups plan = (case pl_hash plan of None \<Rightarrow> groups
     | Some h \<Rightarrow> on_pair h (\<lambda>p. p\<lparr>ep_plans := ep_plans p @ [plan]\<rparr>) groups)"

definition add_occurrence :: "(string, execution_pair) jmap \<Rightarrow> string \<times> occurrence \<Rightarrow> (string, execution_pair) jmap" where
  "add_occurrence groups ho = on_pair (fst ho) (\<lambda>p. p\<lparr>ep_occurrences := ep_occurrences p @ [snd ho]\<rparr>) groups"

definition tx_occurrences :: "debug_transaction \<Rightarrow> (string \<times> occurrence) list" where
  "tx_occurrences tx = List.map_filter (\<lambda>(i, e). mk_occurrence tx i e) (List.enumerate 0 (protocol_events tx))"

definition pair_tx :: "(string, execution_pair) jmap \<Rightarrow> debug_transaction \<Rightarrow> (string, execution_pair) jmap" where
  "pair_tx groups tx = foldl add_occurrence (foldl add_plan groups (executionPlans tx)) (tx_occurrences tx)"

definition arrow_text :: string where
  "arrow_text = '' '' @ map char_of [0xE2 :: nat, 0x86, 0x92] @ '' ''"

definition role_of :: "role \<Rightarrow> occurrence list \<Rightarrow> occurrence list" where
  "role_of r os = filter (\<lambda>oc. oc_role oc = r) os"

definition repeated_role :: "occurrence list \<Rightarrow> bool" where
  "repeated_role os \<longleftrightarrow> list_ex (\<lambda>c. list_ex (\<lambda>r. length (filter (\<lambda>oc. dt_chain (oc_tx oc) = c) (role_of r os)) > 1)
     [R_Consumed, R_Outgoing, R_Incoming]) [L1, L2]"

definition finish_pair :: "execution_pair \<Rightarrow> execution_pair" where
  "finish_pair p =
     (let directions = jset_of (map (\<lambda>oc. if dt_chain (oc_tx oc) = L1 then ''L1'' @ arrow_text @ ''L2'' else ''L2'' @ arrow_text @ ''L1'')
            (role_of R_Outgoing (ep_occurrences p)))
      in p\<lparr>ep_direction := (if directions \<noteq> [] then js_join '' / '' directions else ep_direction p),
           ep_ambiguous := repeated_role (ep_occurrences p)\<rparr>)"

definition buildExecutionPairs :: "debug_context \<Rightarrow> execution_pair list" where
  "buildExecutionPairs context = map (finish_pair \<circ> snd) (foldl pair_tx [] (executionTransactions context))"

section \<open>Events of one entry\<close>

fun consumed_before :: "debug_event list \<Rightarrow> string \<Rightarrow> nat \<Rightarrow> string option" where
  "consumed_before events i 0 = None"
| "consumed_before events i (Suc k) =
     (let previous = events ! k
      in if de_name previous = ''ExecutionConsumed'' \<and> entry_index previous = i
         then call_hash (js_prop (de_args previous) ''crossChainCallHash'')
         else consumed_before events i k)"

definition eventCallHash :: "debug_transaction \<Rightarrow> nat \<Rightarrow> string option" where
  "eventCallHash tx i =
     (let events = protocol_events tx
      in if i \<ge> length events then None
         else case call_hash (js_prop (de_args (events ! i)) ''crossChainCallHash'') of
           Some h \<Rightarrow> Some h
         | None \<Rightarrow> if entry_index (events ! i) = [] then None else consumed_before events (entry_index (events ! i)) i)"

fun completion_in :: "string \<Rightarrow> debug_event list \<Rightarrow> debug_event option" where
  "completion_in i [] = None"
| "completion_in i (e # es) =
     (if de_name e = ''ExecutionConsumed'' \<and> entry_index e = i then None
      else if de_name e = ''EntryExecuted'' \<and> entry_index e = i then Some e
      else completion_in i es)"

definition completion :: "occurrence \<Rightarrow> debug_event option" where
  "completion oc = completion_in (oc_entryIndex oc) (drop (oc_eventIndex oc + 1) (protocol_events (oc_tx oc)))"

end
