(* ===== verification/Execution_Evidence.thy ===== *)
theory Execution_Evidence
  imports Execution_Analysis
begin

text \<open>
  \<open>compareExecution\<close>, \<open>flattenTrace\<close>, \<open>firstFailurePath\<close> and \<open>summarizeBatch\<close> of
  \<open>src/src/lib/executionAnalysis.ts\<close>. Every planned entry is compared with the events that were
  recorded for it; the evidence is a match, a mismatch, missing, ambiguous or skipped.
\<close>

section \<open>Observations of a plan\<close>

datatype evidence_state = S_Match | S_Mismatch | S_Missing | S_Ambiguous | S_Skipped

record evidence_check =
  ck_field :: string
  ck_expected :: js
  ck_observed :: js
  ck_state :: evidence_state
  ck_detail :: "string option"

record entry_evidence =
  ee_plan :: entry_plan
  ee_state :: evidence_state
  ee_checks :: "evidence_check list"
  ee_observations :: "occurrence list"

definition not_before :: "debug_transaction \<Rightarrow> debug_transaction \<Rightarrow> bool" where
  "not_before a b \<longleftrightarrow> tx_block a > tx_block b \<or>
     rt_blockNumber (dt_tx a) = rt_blockNumber (dt_tx b) \<and> tx_index a \<ge> tx_index b"

definition pair_occurrences :: "execution_pair list \<Rightarrow> string \<Rightarrow> occurrence list" where
  "pair_occurrences pairs h = (case find (\<lambda>p. ep_hash p = h) pairs of None \<Rightarrow> [] | Some p \<Rightarrow> ep_occurrences p)"

definition plan_consumptions :: "execution_pair list \<Rightarrow> entry_plan \<Rightarrow> occurrence list" where
  "plan_consumptions pairs plan =
     (case pl_hash plan of
        None \<Rightarrow> []
      | Some h \<Rightarrow> filter (\<lambda>oc. dt_chain (oc_tx oc) = dt_chain (pl_tx plan) \<and> oc_role oc = R_Consumed \<and> not_before (oc_tx oc) (pl_tx plan))
          (pair_occurrences pairs h))"

definition preceding_load :: "debug_transaction list \<Rightarrow> debug_transaction \<Rightarrow> debug_transaction option" where
  "preceding_load transactions tx =
     (let loads = filter (\<lambda>t. dt_chain t = L2 \<and> executionPlans t \<noteq> [] \<and> rt_blockNumber (dt_tx t) = rt_blockNumber (dt_tx tx)
            \<and> tx_index t \<le> tx_index tx) transactions
      in if loads = [] then None else Some (last loads))"

definition of_last_load :: "debug_transaction list \<Rightarrow> entry_plan \<Rightarrow> occurrence \<Rightarrow> bool" where
  "of_last_load transactions plan oc =
     (case preceding_load transactions (oc_tx oc) of
        None \<Rightarrow> False
      | Some t \<Rightarrow> txKey t = txKey (pl_tx plan) \<and> oc_entryIndex oc = show_nat (pl_index plan))"

definition plan_observations :: "debug_transaction list \<Rightarrow> execution_pair list \<Rightarrow> entry_plan \<Rightarrow> occurrence list" where
  "plan_observations transactions pairs plan =
     (if dt_chain (pl_tx plan) = L2 then filter (of_last_load transactions plan) (plan_consumptions pairs plan)
      else plan_consumptions pairs plan)"

definition rolling :: "js_object \<Rightarrow> js" where
  "rolling ob = js_prop ob ''rollingHash''"

definition exact_completion :: "entry_plan \<Rightarrow> debug_event option \<Rightarrow> bool" where
  "exact_completion plan d = (case d of None \<Rightarrow> False | Some e \<Rightarrow> eq_values (rolling (de_args e)) (rolling (pl_entry plan)))"

definition duplicate_plans :: "entry_plan list \<Rightarrow> entry_plan \<Rightarrow> entry_plan list" where
  "duplicate_plans plans plan =
     filter (\<lambda>p. dt_chain (pl_tx p) = dt_chain (pl_tx plan) \<and> pl_hash p = pl_hash plan \<and> pl_kind p = pl_kind plan
       \<and> pl_id p \<noteq> pl_id plan \<and> (dt_chain (pl_tx plan) = L1 \<or> txKey (pl_tx p) = txKey (pl_tx plan))) plans"

definition same_rolling :: "entry_plan \<Rightarrow> entry_plan \<Rightarrow> bool" where
  "same_rolling plan p \<longleftrightarrow> eq_values (rolling (pl_entry p)) (rolling (pl_entry plan))"

text \<open>The observations that stay, the completion event and whether the association is ambiguous.\<close>

type_synonym association = "occurrence list \<times> debug_event option \<times> bool"

definition associate :: "entry_plan list \<Rightarrow> entry_plan \<Rightarrow> occurrence list \<Rightarrow> association" where
  "associate plans plan observations =
     (let candidates = map (\<lambda>oc. (oc, completion oc)) observations;
          exact = filter (\<lambda>(_, d). exact_completion plan d) candidates;
          duplicates = duplicate_plans plans plan
      in if pl_kind plan = P_Static then ([], None, False)
         else if length exact = 1 \<and> \<not> list_ex (same_rolling plan) duplicates
           then ([fst (hd exact)], snd (hd exact), False)
         else if length candidates = 1 \<and> duplicates = []
           then ([fst (hd candidates)], snd (hd candidates), False)
         else (observations, None, candidates \<noteq> []))"

definition immediate_entry :: "entry_plan list \<Rightarrow> entry_plan \<Rightarrow> association \<Rightarrow> association" where
  "immediate_entry plans plan a =
     (if pl_hash plan = None \<and> pl_kind plan = P_Execution then
        (let immediate = filter (\<lambda>e. de_protocol e \<and> de_name e = ''EntryExecuted'') (dt_events (pl_tx plan));
             matching = filter (\<lambda>e. eq_values (rolling (de_args e)) (rolling (pl_entry plan))) immediate
         in if length matching = 1 \<and> \<not> list_ex (\<lambda>p. pl_id p \<noteq> pl_id plan \<and> txKey (pl_tx p) = txKey (pl_tx plan) \<and> same_rolling plan p) plans
            then (fst a, Some (hd matching), snd (snd a))
            else if immediate \<noteq> [] then (fst a, fst (snd a), True) else a)
      else a)"

section \<open>The checks\<close>

definition plan_skipped :: "entry_plan \<Rightarrow> bool" where
  "plan_skipped plan \<longleftrightarrow> pl_kind plan = P_Execution \<and>
     list_ex (\<lambda>e. de_protocol e \<and> de_name e = ''L2TxSkipped'' \<and> entry_index e = show_nat (pl_index plan)) (dt_events (pl_tx plan))"

definition direct_trace :: "(string, call_trace) jmap \<Rightarrow> entry_plan \<Rightarrow> call_trace option" where
  "direct_trace traces plan =
     (if pl_kind plan = P_Execution \<and> pl_index plan = 0 \<and> has_method (pl_tx plan) ''executeIncomingCrossChainCall''
      then jmap_get traces (txKey (pl_tx plan)) else None)"

definition js_text_set :: "string option \<Rightarrow> bool" where
  "js_text_set t = (case t of None \<Rightarrow> False | Some s \<Rightarrow> s \<noteq> [])" \<comment> \<open>an optional text is truthy\<close>

definition returned_bytes :: "(string \<Rightarrow> string option) \<Rightarrow> call_trace option \<Rightarrow> string option" where
  "returned_bytes dec_bytes t =
     (case t of
        None \<Rightarrow> None
      | Some d \<Rightarrow> if js_text_set (tr_error d) then tr_output d
          else if js_text_set (tr_output d) then Option.bind (tr_output d) dec_bytes else None)"

definition actual_success :: "call_trace option \<Rightarrow> debug_event option \<Rightarrow> bool option" where
  "actual_success t d = (case t of Some d \<Rightarrow> Some (\<not> js_text_set (tr_error d)) | None \<Rightarrow> if d \<noteq> None then Some True else None)"

definition planned_success :: "entry_plan \<Rightarrow> bool" where
  "planned_success plan \<longleftrightarrow> js_prop (pl_entry plan) ''success'' \<noteq> JBool False"

definition missing_detail :: "bool \<Rightarrow> entry_plan \<Rightarrow> string" where
  "missing_detail ambiguous plan =
     (if ambiguous then ''Repeated hashes or execution indices prevent a unique association.''
      else if pl_kind plan = P_Static then ''Static execution cannot be established from persistent receipt logs alone.''
      else ''No uniquely associated recorded result. Reverts can roll back entry logs.'')"

definition missing_state :: "bool \<Rightarrow> evidence_state" where
  "missing_state ambiguous = (if ambiguous then S_Ambiguous else S_Missing)"

definition matched :: "bool \<Rightarrow> evidence_state" where
  "matched b = (if b then S_Match else S_Mismatch)"

definition outcome_text :: "bool \<Rightarrow> string" where
  "outcome_text b = (if b then ''Success'' else ''Revert'')"

definition outcome_check :: "entry_plan \<Rightarrow> bool \<Rightarrow> bool \<Rightarrow> bool option \<Rightarrow> evidence_check" where
  "outcome_check plan skipped ambiguous actual =
     \<lparr>ck_field = ''Outcome'', ck_expected = JStr (outcome_text (planned_success plan)),
      ck_observed = (if skipped then JStr ''Skipped'' else case actual of None \<Rightarrow> JUndefined | Some b \<Rightarrow> JStr (outcome_text b)),
      ck_state = (if skipped then S_Skipped else case actual of None \<Rightarrow> missing_state ambiguous | Some b \<Rightarrow> matched (b = planned_success plan)),
      ck_detail = (if actual = None then Some (missing_detail ambiguous plan) else None)\<rparr>"

definition rolling_check :: "entry_plan \<Rightarrow> bool \<Rightarrow> debug_event option \<Rightarrow> evidence_check" where
  "rolling_check plan ambiguous d =
     \<lparr>ck_field = ''Rolling hash'', ck_expected = rolling (pl_entry plan),
      ck_observed = (case d of None \<Rightarrow> JUndefined | Some e \<Rightarrow> rolling (de_args e)),
      ck_state = (case d of None \<Rightarrow> missing_state ambiguous | Some e \<Rightarrow> matched (eq_values (rolling (de_args e)) (rolling (pl_entry plan)))),
      ck_detail = (if d = None then Some (missing_detail ambiguous plan) else None)\<rparr>"

definition return_check :: "entry_plan \<Rightarrow> string option \<Rightarrow> evidence_check" where
  "return_check plan returned =
     \<lparr>ck_field = ''Return / revert data'', ck_expected = js_prop (pl_entry plan) ''returnData'',
      ck_observed = (case returned of None \<Rightarrow> JUndefined | Some s \<Rightarrow> JStr s),
      ck_state = (case returned of None \<Rightarrow> S_Missing | Some s \<Rightarrow> matched (eq_values (JStr s) (js_prop (pl_entry plan) ''returnData''))),
      ck_detail = (if returned = None
        then Some ''Entry completion events do not emit return bytes. A directly associated trace is needed.'' else None)\<rparr>"

definition overall_state :: "evidence_check list \<Rightarrow> bool \<Rightarrow> bool \<Rightarrow> evidence_state" where
  "overall_state checks skipped ambiguous =
     (if list_ex (\<lambda>c. ck_state c = S_Mismatch) checks then S_Mismatch
      else if skipped then S_Skipped
      else if ambiguous then S_Ambiguous
      else if list_all (\<lambda>c. ck_state c = S_Match) checks then S_Match
      else S_Missing)"

definition compare_plan ::
  "(string \<Rightarrow> string option) \<Rightarrow> debug_transaction list \<Rightarrow> execution_pair list \<Rightarrow> entry_plan list
    \<Rightarrow> (string, call_trace) jmap \<Rightarrow> entry_plan \<Rightarrow> entry_evidence" where
  "compare_plan dec_bytes transactions pairs plans traces plan =
     (let (observations, d, ambiguous) =
            immediate_entry plans plan (associate plans plan (plan_observations transactions pairs plan));
          skipped = plan_skipped plan;
          directTrace = direct_trace traces plan;
          returned = returned_bytes dec_bytes directTrace;
          actual = actual_success directTrace d;
          checks = [outcome_check plan skipped ambiguous actual, rolling_check plan ambiguous d, return_check plan returned]
      in \<lparr>ee_plan = plan, ee_state = overall_state checks skipped ambiguous, ee_checks = checks, ee_observations = observations\<rparr>)"

definition compareExecution ::
  "(string \<Rightarrow> string option) \<Rightarrow> debug_context \<Rightarrow> (string, call_trace) jmap \<Rightarrow> entry_evidence list" where
  "compareExecution dec_bytes context traces =
     (let transactions = executionTransactions context;
          pairs = buildExecutionPairs context;
          plans = concat (map executionPlans transactions)
      in map (compare_plan dec_bytes transactions pairs plans traces) plans)"

section \<open>Trace frames\<close>

datatype classification = Unexpected_failure | Expected_revert | Handled_revert

record trace_frame =
  fr_path :: string
  fr_trace :: call_trace
  fr_class :: "classification option"
  fr_explanation :: "string option"

definition failed_frame :: "call_trace \<Rightarrow> bool" where
  "failed_frame t \<longleftrightarrow> js_text_set (tr_error t)"

definition js_opt_text :: "string option \<Rightarrow> js" where
  "js_opt_text t = (case t of None \<Rightarrow> JUndefined | Some s \<Rightarrow> JStr s)"

definition is_js_text :: "js \<Rightarrow> bool" where
  "is_js_text v = (case v of JStr s \<Rightarrow> True | _ \<Rightarrow> False)" \<comment> \<open>\<open>typeof v === "string"\<close>\<close>

definition expected_plans :: "debug_transaction \<Rightarrow> entry_plan list" where
  "expected_plans tx = filter (\<lambda>p. js_prop (pl_entry p) ''success'' = JBool False \<and> is_js_text (js_prop (pl_entry p) ''returnData''))
     (executionPlans tx)"

definition expected_root :: "debug_transaction \<Rightarrow> call_trace \<Rightarrow> string \<Rightarrow> bool" where
  "expected_root tx node path \<longleftrightarrow> path = ''0'' \<and> has_method tx ''executeIncomingCrossChainCall'' \<and>
     list_ex (\<lambda>p. pl_index p = 0 \<and> eq_values (js_prop (pl_entry p) ''returnData'') (js_opt_text (tr_output node)))
       (expected_plans tx)"

definition mk_frame :: "debug_transaction \<Rightarrow> call_trace \<Rightarrow> string \<Rightarrow> bool \<Rightarrow> trace_frame" where
  "mk_frame tx node path handled =
     (if failed_frame node then
        (let expected = expected_root tx node path
         in \<lparr>fr_path = path, fr_trace = node,
             fr_class = Some (if expected then Expected_revert else if handled then Handled_revert else Unexpected_failure),
             fr_explanation = Some (if expected then ''The incoming entry's trace result matches its planned revert bytes.''
               else if handled then ''A successful enclosing call handled this nested revert.''
               else ''The transaction trace failed. Inspect this frame and its children.'')\<rparr>)
      else \<lparr>fr_path = path, fr_trace = node, fr_class = None, fr_explanation = None\<rparr>)"

fun visit :: "debug_transaction \<Rightarrow> call_trace \<Rightarrow> string \<Rightarrow> bool \<Rightarrow> trace_frame list"
and visit_calls :: "debug_transaction \<Rightarrow> call_trace list \<Rightarrow> string \<Rightarrow> nat \<Rightarrow> bool \<Rightarrow> trace_frame list" where
  "visit tx (Trace err out calls) path handled =
     mk_frame tx (Trace err out calls) path handled #
       visit_calls tx calls path 0 (handled \<or> \<not> failed_frame (Trace err out calls))"
| "visit_calls tx [] path i handled = []"
| "visit_calls tx (c # cs) path i handled =
     visit tx c (path @ ''.'' @ show_nat i) handled @ visit_calls tx cs path (i + 1) handled"

definition unwind_frame :: "trace_frame \<Rightarrow> trace_frame" where
  "unwind_frame f = (if fr_class f = None then f
     else f\<lparr>fr_class := Some Handled_revert,
            fr_explanation := Some ''Nested revert inside an entry with the expected root revert result.''\<rparr>)"

definition flattenTrace :: "debug_transaction \<Rightarrow> call_trace \<Rightarrow> trace_frame list" where
  "flattenTrace tx trace =
     (case visit tx trace ''0'' False of
        [] \<Rightarrow> []
      | root # rest \<Rightarrow> if fr_class root = Some Expected_revert then root # map unwind_frame rest else root # rest)"

definition firstFailurePath :: "debug_transaction \<Rightarrow> call_trace \<Rightarrow> string option" where
  "firstFailurePath tx trace =
     (let frames = filter (\<lambda>f. fr_class f = Some Unexpected_failure) (flattenTrace tx trace);
          matching = filter (\<lambda>f. js_text_set (tr_output (fr_trace f)) \<and> js_text_set (tr_output trace)
            \<and> eq_values (js_opt_text (tr_output (fr_trace f))) (js_opt_text (tr_output trace))) frames
      in if matching \<noteq> [] then Some (fr_path (last matching))
         else case frames of [] \<Rightarrow> None | f # _ \<Rightarrow> Some (fr_path f))"

end
