(* ===== verification/Execution_Timeline.thy ===== *)
theory Execution_Timeline
  imports Execution_Evidence Timeline_Align
begin

text \<open>
  \<open>describeTimelineEvent\<close> and \<open>buildExecutionTimeline\<close> of \<open>src/src/lib/executionTimeline.ts\<close>: the
  recorded EEZ transactions of both chains with their events as steps, and the connections between
  the chains, from matching call hashes and from replayed calls.
  The left side of a sum is the \<open>SyntaxError\<close> of \<open>BigInt\<close> on a malformed call number.
  The evidence is that of \<open>compareExecution\<close> without traces, where no result bytes are decoded.
\<close>

section \<open>Titles and descriptions\<close>

definition utf8 :: "nat list \<Rightarrow> string" where
  "utf8 bytes = map char_of bytes"

definition dot_text :: string where
  "dot_text = '' '' @ utf8 [0xC2, 0xB7] @ '' ''"

definition validAddress :: "js \<Rightarrow> string option" where
  "validAddress v = (case v of JStr s \<Rightarrow> if is_hex_of 40 s then Some (js_lower s) else None | _ \<Rightarrow> None)"

definition hex_value :: "js \<Rightarrow> string option" where
  "hex_value v = (case v of JStr s \<Rightarrow> if is_hex_text s then Some (js_lower s) else None | _ \<Rightarrow> None)"

definition preview :: "js \<Rightarrow> string" where
  "preview v = (let t = js_string (js_coalesce v (JStr []))
     in if length t > 20 then js_slice_to 10 t @ utf8 [0xE2, 0x80, 0xA6] @ js_slice_last 6 t else t)"

definition js_length_or_zero :: "js \<Rightarrow> nat" where
  "js_length_or_zero v = (case v of JArr vs \<Rightarrow> length vs | JStr s \<Rightarrow> length s | _ \<Rightarrow> 0)" \<comment> \<open>\<open>v?.length ?? 0\<close>\<close>

text \<open>The text of \<open>Math.max(0, (length - 2) / 2)\<close>, which is a half when the length is odd.\<close>

definition half_text :: "nat \<Rightarrow> string" where
  "half_text n = (if n \<le> 2 then ''0'' else show_nat ((n - 2) div 2) @ (if odd n then ''.5'' else []))"

definition or_hex :: "js \<Rightarrow> string" where
  "or_hex v = js_string (js_coalesce v (JStr ''0x''))"

definition chain_upper :: "chain \<Rightarrow> string" where
  "chain_upper c = map js_upper_char (chain_str c)"

type_synonym step_text = "string \<times> string \<times> step_kind"

definition reverted_text :: "debug_event \<Rightarrow> js_error + step_text" where
  "reverted_text e =
     (let a = de_args e
      in res_bind (string_BigInt (js_string (js_coalesce (js_coalesce (js_prop a ''startL2ToL1Call'') (js_prop a ''startCallNumber'')) (JNum 0)))) (\<lambda>start.
         res_bind (string_BigInt (js_string (js_coalesce (js_prop a ''nCalls'') (JNum 0)))) (\<lambda>count.
           Inr (''Calls '' @ show_int start @ (if count > 1 then utf8 [0xE2, 0x80, 0x93] @ show_int (start + count - 1) else []) @ '' rolled back'',
                ''Entry '' @ entry_index e @ dot_text @ show_int count @ '' calls executed in a reverted context; their state changes were rolled back.'',
                K_Rollback))))"

definition result_text :: "debug_event \<Rightarrow> step_text" where
  "result_text e =
     (let a = de_args e; ok = js_truthy (js_prop a ''success'')
      in (''Call '' @ js_string (js_coalesce (js_prop a ''l2ToL1CallNumber'') (js_prop a ''callNumber'')) @ '' '' @ (if ok then ''returned'' else ''reverted''),
          ''Entry '' @ entry_index e @ dot_text @ (if ok then ''successful call result'' else ''revert result recorded; this may be expected'')
            @ dot_text @ half_text (length (or_hex (js_prop a ''returnData''))) @ '' result bytes'',
          K_Result))"

definition call_text :: "string \<Rightarrow> js \<Rightarrow> string \<Rightarrow> js \<Rightarrow> js \<Rightarrow> step_text" where
  "call_text title source target_label target data =
     (title, preview source @ arrow_text @ target_label @ preview target @ dot_text @ ''selector '' @ js_slice_to 10 (or_hex data), K_Call)"

definition describeTimelineEvent :: "chain \<Rightarrow> debug_event \<Rightarrow> js_error + step_text" where
  "describeTimelineEvent c e =
     (let a = de_args e; n = de_name e
      in if n = ''ExecutionTableLoaded'' then
           Inr (''Execution table loaded'', show_nat (js_length_or_zero (js_prop a ''entries'')) @ '' execution entries'' @ dot_text
             @ show_nat (js_length_or_zero (js_prop a ''staticEntries'')) @ '' static entries. These are the execution plan.'', K_Table)
         else if n = ''ExecutionConsumed'' then
           Inr ((if c = L1 then ''Queue entry'' else ''Entry'') @ '' '' @ entry_index e @ '' consumed'', ''The protocol selected this entry for execution.'', K_Entry)
         else if n = ''EntryExecuted'' then
           Inr (''Entry '' @ entry_index e @ '' completed'', ''Rolling hash recorded''
             @ (if js_prop a ''callsProcessed'' \<noteq> JUndefined then dot_text @ js_string (js_prop a ''callsProcessed'') @ '' calls processed'' else []) @ ''.'', K_Entry)
         else if n = ''CrossChainCallExecuted'' then
           Inr (call_text ''Outgoing cross-chain call recorded'' (js_prop a ''sourceAddress'') ''proxy '' (js_prop a ''proxy'') (js_prop a ''callData''))
         else if n = ''IncomingCrossChainCallExecuted'' then
           Inr (call_text ''Incoming cross-chain call recorded'' (js_prop a ''sourceAddress'') [] (js_prop a ''destination'') (js_prop a ''data''))
         else if n = ''CallResult'' then Inr (result_text e)
         else if n = ''CallsReverted'' then reverted_text e
         else if n = ''L2TxSkipped'' then
           Inr (''Entry '' @ entry_index e @ '' skipped'', ''The batch recorded a skipped execution. Inspect the revert data for its reason.'', K_Rollback)
         else if n = ''L2ExecutionPerformed'' then
           Inr (''Rollup '' @ js_string (js_prop a ''rollupId'') @ '' commitment updated'',
             ''Root '' @ preview (js_prop a ''newRoot'') @ '' recorded on '' @ chain_upper c @ ''.'', K_Settlement)
         else if n = ''BatchPosted'' then
           Inr (''Batch verified and posted'',
             (if js_truthy (js_prop a ''rollupIds'') then ''Rollups '' @ js_string (js_prop a ''rollupIds'') @ dot_text @ ''settlement recorded on L1.''
              else ''Settlement recorded on L1.''), K_Settlement)
         else Inr (n, ''Recorded protocol event.'', K_Event))"

section \<open>Transactions and steps\<close>

record timeline_state =
  tm_seen :: "string list"
  tm_l1 :: "timeline_transaction list"
  tm_l2 :: "timeline_transaction list"
  tm_order1 :: nat
  tm_order2 :: nat

definition evidence_scope :: "debug_context \<Rightarrow> entry_evidence list \<Rightarrow> execution_pair list \<Rightarrow> debug_transaction option \<Rightarrow> string list" where
  "evidence_scope context evidence pairs selected =
     map (\<lambda>ev. txKey (pl_tx (ee_plan ev))) evidence @ concat (map (\<lambda>p. map (\<lambda>oc. txKey (oc_tx oc)) (ep_occurrences p)) pairs)
       @ map txKey (case dx_selected context of None \<Rightarrow> [] | Some s \<Rightarrow> [s]) @ map txKey (case selected of None \<Rightarrow> [] | Some s \<Rightarrow> [s])"

definition batch_scope :: "debug_context \<Rightarrow> bool" where
  "batch_scope context = (case dx_selected context of None \<Rightarrow> False | Some s \<Rightarrow> dt_chain s = L1 \<and> has_method s ''postAndVerifyBatch'')"

definition block_order :: "(debug_transaction \<times> debug_block) \<Rightarrow> chain \<times> int \<times> int" where
  "block_order = (\<lambda>(tx, b). (dt_chain tx, db_number b, tx_index tx))"

definition timeline_transactions :: "debug_context \<Rightarrow> (debug_transaction \<times> debug_block) list" where
  "timeline_transactions context =
     sort_key block_order (concat (map (\<lambda>b. map (\<lambda>tx. (tx, b)) (db_transactions b)) (dx_blocks context)))"

definition sorted_events :: "debug_transaction \<Rightarrow> (nat \<times> debug_event) list" where
  "sorted_events tx = sort_key (\<lambda>(i, e). rl_logIndex (de_raw e)) (List.enumerate 0 (protocol_events tx))"

definition mk_step :: "debug_transaction \<Rightarrow> nat \<Rightarrow> nat \<times> debug_event \<Rightarrow> js_error + timeline_step" where
  "mk_step tx ord ie =
     res_bind (describeTimelineEvent (dt_chain tx) (snd ie)) (\<lambda>(title, description, kind).
       Inr \<lparr>ts_id = step_id tx (fst ie), ts_tx = tx, ts_event = snd ie, ts_eventIndex = fst ie, ts_order = ord,
            ts_hash = eventCallHash tx (fst ie), ts_title = title, ts_description = description, ts_kind = kind\<rparr>)"

fun mk_steps :: "debug_transaction \<Rightarrow> nat \<Rightarrow> (nat \<times> debug_event) list \<Rightarrow> js_error + timeline_step list" where
  "mk_steps tx ord [] = Inr []"
| "mk_steps tx ord (ie # rest) =
     res_bind (mk_step tx (ord + 1) ie) (\<lambda>s. res_bind (mk_steps tx (ord + 1) rest) (\<lambda>ss. Inr (s # ss)))"

definition chain_order :: "timeline_state \<Rightarrow> chain \<Rightarrow> nat" where
  "chain_order s c = (if c = L1 then tm_order1 s else tm_order2 s)"

definition push_transaction :: "timeline_state \<Rightarrow> timeline_transaction \<Rightarrow> timeline_state" where
  "push_transaction s t =
     (let s' = s\<lparr>tm_seen := tm_seen s @ [txKey (tt_tx t)]\<rparr>
      in if dt_chain (tt_tx t) = L1
         then s'\<lparr>tm_l1 := tm_l1 s @ [t], tm_order1 := tm_order1 s + length (tt_steps t)\<rparr>
         else s'\<lparr>tm_l2 := tm_l2 s @ [t], tm_order2 := tm_order2 s + length (tt_steps t)\<rparr>)"

definition add_transaction ::
  "(chain \<Rightarrow> string option \<Rightarrow> bool) \<Rightarrow> (debug_transaction \<Rightarrow> bool) \<Rightarrow> timeline_state
    \<Rightarrow> debug_transaction \<times> string option \<Rightarrow> js_error + timeline_state" where
  "add_transaction isManager out_of_scope s tt =
     (let tx = fst tt
      in if \<not> isEezTransaction isManager tx \<or> txKey tx \<in> set (tm_seen s) \<or> out_of_scope tx then Inr s
         else res_bind (mk_steps tx (chain_order s (dt_chain tx)) (sorted_events tx)) (\<lambda>steps.
           Inr (push_transaction s \<lparr>tt_tx = tx, tt_timestamp = snd tt, tt_steps = steps\<rparr>)))"

fun add_transactions ::
  "(chain \<Rightarrow> string option \<Rightarrow> bool) \<Rightarrow> (debug_transaction \<Rightarrow> bool) \<Rightarrow> timeline_state
    \<Rightarrow> (debug_transaction \<times> string option) list \<Rightarrow> js_error + timeline_state" where
  "add_transactions isManager out_of_scope s [] = Inr s"
| "add_transactions isManager out_of_scope s (t # ts) =
     res_bind (add_transaction isManager out_of_scope s t) (\<lambda>s'. add_transactions isManager out_of_scope s' ts)"

definition listed_transactions :: "debug_context \<Rightarrow> debug_transaction option \<Rightarrow> (debug_transaction \<times> string option) list" where
  "listed_transactions context selected =
     map (\<lambda>(tx, b). (tx, Some (db_timestamp b))) (timeline_transactions context) @
     (case selected of Some s \<Rightarrow> [(s, None)]
      | None \<Rightarrow> (case dx_selected context of Some s \<Rightarrow> [(s, None)] | None \<Rightarrow> []))"

section \<open>Connections\<close>

definition step_ids :: "timeline_step list \<Rightarrow> string list" where
  "step_ids steps = map ts_id steps"

definition addConnection :: "timeline_step list \<Rightarrow> timeline_connection list \<Rightarrow> timeline_connection \<Rightarrow> timeline_connection list" where
  "addConnection steps connections c =
     (if tc_from c \<in> set (step_ids steps) \<and> tc_to c \<in> set (step_ids steps)
         \<and> \<not> list_ex (\<lambda>d. tc_from d = tc_from c \<and> tc_to d = tc_to c) connections
      then connections @ [c] else connections)"

definition hash_connections :: "execution_pair \<Rightarrow> timeline_connection list" where
  "hash_connections p =
     (let outgoing = role_of R_Outgoing (ep_occurrences p)
      in concat (map (\<lambda>source. map (\<lambda>target.
           \<lparr>tc_from = oc_id source, tc_to = oc_id target, tc_basis = Matching_call_hash, tc_hash = Some (ep_hash p),
            tc_ambiguous = (ep_ambiguous p \<or> length (filter (\<lambda>oc. dt_chain (oc_tx oc) = dt_chain (oc_tx source)) outgoing) > 1)\<rparr>)
         (filter (\<lambda>oc. dt_chain (oc_tx oc) \<noteq> dt_chain (oc_tx source) \<and> oc_role oc \<noteq> R_Outgoing) (ep_occurrences p))) outgoing))"

definition same_rollup :: "string \<Rightarrow> chain \<Rightarrow> js_object \<Rightarrow> bool" where
  "same_rollup rollupId c call =
     (let source = js_prop call ''sourceRollupId''
      in source = JUndefined \<or> (if c = L2 then js_string source = ''0'' else js_string source = rollupId))"

definition value_text :: "js \<Rightarrow> string" where
  "value_text v = js_string (js_coalesce v (JNum 0))"

definition replaySources :: "string \<Rightarrow> timeline_step list \<Rightarrow> js_object \<Rightarrow> chain \<Rightarrow> timeline_step list" where
  "replaySources rollupId steps call c =
     (if js_prop call ''isStatic'' = JBool True \<or> validAddress (js_prop call ''sourceAddress'') = None \<or> hex_value (js_prop call ''data'') = None
      then []
      else filter (\<lambda>st. dt_chain (ts_tx st) \<noteq> c \<and> de_name (ts_event st) = ''CrossChainCallExecuted''
        \<and> validAddress (js_prop (de_args (ts_event st)) ''sourceAddress'') = validAddress (js_prop call ''sourceAddress'')
        \<and> hex_value (js_prop (de_args (ts_event st)) ''callData'') = hex_value (js_prop call ''data'')
        \<and> value_text (js_prop (de_args (ts_event st)) ''value'') = value_text (js_prop call ''value'')
        \<and> same_rollup rollupId c call) steps)"

definition incoming_calls :: "js_object \<Rightarrow> js_object list" where
  "incoming_calls entry = js_objects (js_coalesce (js_prop entry ''incomingCalls'') (js_prop entry ''l2ToL1Calls''))"

definition call_ordinal :: "timeline_step \<Rightarrow> int option" where
  "call_ordinal st = js_Number (js_coalesce (js_prop (de_args (ts_event st)) ''callNumber'') (js_prop (de_args (ts_event st)) ''l2ToL1CallNumber''))"

definition after_occurrence :: "occurrence \<Rightarrow> timeline_step \<Rightarrow> bool" where
  "after_occurrence oc st \<longleftrightarrow> txKey (ts_tx st) = txKey (oc_tx oc) \<and> ts_eventIndex st > oc_eventIndex oc
     \<and> entry_index (ts_event st) = oc_entryIndex oc"

definition result_steps :: "timeline_step list \<Rightarrow> occurrence \<Rightarrow> timeline_step list" where
  "result_steps steps oc =
     (let boundary = find (\<lambda>st. after_occurrence oc st \<and> de_name (ts_event st) \<in> {''ExecutionConsumed'', ''EntryExecuted''}) steps
      in filter (\<lambda>st. (case boundary of None \<Rightarrow> True | Some b \<Rightarrow> ts_eventIndex st < ts_eventIndex b)
           \<and> after_occurrence oc st \<and> de_name (ts_event st) = ''CallResult'') steps)"

definition call_at :: "js_object list \<Rightarrow> int option \<Rightarrow> js_object option" where
  "call_at calls ordinal = (case ordinal of None \<Rightarrow> None
     | Some i \<Rightarrow> if 0 \<le> i \<and> i < int (length calls) then Some (calls ! nat i) else None)"

definition replay_link :: "timeline_step \<Rightarrow> timeline_step \<Rightarrow> bool \<Rightarrow> timeline_connection" where
  "replay_link source target ambiguous =
     \<lparr>tc_from = ts_id source, tc_to = ts_id target, tc_basis = Replay_candidate, tc_hash = None, tc_ambiguous = ambiguous\<rparr>"

definition result_connections :: "string \<Rightarrow> timeline_step list \<Rightarrow> js_object list \<Rightarrow> timeline_step list \<Rightarrow> timeline_step \<Rightarrow> timeline_connection list" where
  "result_connections rollupId steps incoming results result =
     (case call_at incoming (call_ordinal result) of
        None \<Rightarrow> []
      | Some call \<Rightarrow>
          (let sources = replaySources rollupId steps call (dt_chain (ts_tx result));
               repeated = length (filter (\<lambda>st. call_ordinal st = call_ordinal result) results) > 1
           in map (\<lambda>source. replay_link source result (length sources > 1 \<or> repeated)) sources))"

definition occurrence_connections :: "string \<Rightarrow> timeline_step list \<Rightarrow> js_object list \<Rightarrow> occurrence \<Rightarrow> timeline_connection list" where
  "occurrence_connections rollupId steps incoming oc =
     (let results = result_steps steps oc in concat (map (result_connections rollupId steps incoming results) results))"

definition rolling_matched :: "entry_evidence \<Rightarrow> bool" where
  "rolling_matched ev \<longleftrightarrow> list_ex (\<lambda>c. ck_field c = ''Rolling hash'' \<and> ck_state c = S_Match) (ee_checks ev)"

definition immediate_connections :: "string \<Rightarrow> timeline_step list \<Rightarrow> js_object list \<Rightarrow> entry_evidence \<Rightarrow> timeline_connection list" where
  "immediate_connections rollupId steps incoming ev =
     (let plan = ee_plan ev;
          completions = filter (\<lambda>st. txKey (ts_tx st) = txKey (pl_tx plan) \<and> de_name (ts_event st) = ''EntryExecuted''
            \<and> hex_value (rolling (de_args (ts_event st))) = hex_value (rolling (pl_entry plan))) steps
      in if pl_hash plan = None \<and> rolling_matched ev \<and> length completions = 1
         then concat (map (\<lambda>call. let sources = replaySources rollupId steps call (dt_chain (pl_tx plan))
                in map (\<lambda>source. replay_link source (hd completions) (length sources > 1)) sources) incoming)
         else [])"

definition evidence_connections :: "string \<Rightarrow> timeline_step list \<Rightarrow> entry_evidence \<Rightarrow> timeline_connection list" where
  "evidence_connections rollupId steps ev =
     (if pl_kind (ee_plan ev) \<noteq> P_Execution \<or> ee_state ev = S_Ambiguous then []
      else let incoming = incoming_calls (pl_entry (ee_plan ev))
           in concat (map (occurrence_connections rollupId steps incoming) (ee_observations ev))
              @ immediate_connections rollupId steps incoming ev)"

definition step_name :: "timeline_step list \<Rightarrow> string \<Rightarrow> string option" where
  "step_name steps i = map_option (\<lambda>st. de_name (ts_event st)) (find (\<lambda>st. ts_id st = i) steps)"

definition mark_ambiguous :: "timeline_step list \<Rightarrow> timeline_connection list \<Rightarrow> timeline_connection \<Rightarrow> timeline_connection" where
  "mark_ambiguous steps connections c =
     (if list_ex (\<lambda>d. tc_from d = tc_from c \<and> tc_basis d = tc_basis c \<and> tc_to d \<noteq> tc_to c
           \<and> step_name steps (tc_to d) = step_name steps (tc_to c)) connections
      then c\<lparr>tc_ambiguous := True\<rparr> else c)"

definition timeline_connections :: "string \<Rightarrow> timeline_step list \<Rightarrow> execution_pair list \<Rightarrow> entry_evidence list \<Rightarrow> timeline_connection list" where
  "timeline_connections rollupId steps pairs evidence =
     (let connections = foldl (addConnection steps) [] (concat (map hash_connections pairs) @ concat (map (evidence_connections rollupId steps) evidence))
      in map (mark_ambiguous steps connections) connections)"

definition buildExecutionTimeline ::
  "string \<Rightarrow> (chain \<Rightarrow> string option \<Rightarrow> bool) \<Rightarrow> debug_context \<Rightarrow> debug_transaction option \<Rightarrow> js_error + execution_timeline" where
  "buildExecutionTimeline rollupId isManager context selected =
     (let evidence = compareExecution (\<lambda>_. None) context [];
          pairs = buildExecutionPairs context;
          scope = evidence_scope context evidence pairs selected;
          out_of_scope = (\<lambda>tx. batch_scope context \<and> dt_chain tx = L1 \<and> txKey tx \<notin> set scope)
      in res_bind (add_transactions isManager out_of_scope \<lparr>tm_seen = [], tm_l1 = [], tm_l2 = [], tm_order1 = 0, tm_order2 = 0\<rparr>
             (listed_transactions context selected)) (\<lambda>s.
           let steps = chain_steps (tm_l1 s @ tm_l2 s)
           in Inr \<lparr>tl_l1 = tm_l1 s, tl_l2 = tm_l2 s, tl_connections = timeline_connections rollupId steps pairs evidence, tl_steps = steps\<rparr>))"

end
