(* ===== verification/Evidence_Properties.thy ===== *)
theory Evidence_Properties
  imports Execution_Evidence
begin

text \<open>
  What the evidence of \<open>Execution_Evidence\<close> says: where the occurrences of a pair come from, that
  a \<open>Match\<close> is established by one uniquely associated \<open>EntryExecuted\<close> event and a direct trace, and
  when a call trace has an unexpected failure.
\<close>

section \<open>Pairs\<close>

definition pairs_ok :: "debug_transaction list \<Rightarrow> (string, execution_pair) jmap \<Rightarrow> bool" where
  "pairs_ok txs groups \<longleftrightarrow> (\<forall>(h, p) \<in> set groups. ep_hash p = h \<and>
     (\<forall>oc \<in> set (ep_occurrences p). \<exists>tx \<in> set txs. (h, oc) \<in> set (tx_occurrences tx)))"

lemma pairs_okD:
  "pairs_ok txs groups \<Longrightarrow> (h, p) \<in> set groups \<Longrightarrow> ep_hash p = h
     \<and> (\<forall>oc \<in> set (ep_occurrences p). \<exists>tx \<in> set txs. (h, oc) \<in> set (tx_occurrences tx))"
  unfolding pairs_ok_def by blast

lemma on_pair_ok:
  assumes "pairs_ok txs groups" and "\<And>p. ep_hash (f p) = ep_hash p"
    and "\<And>p oc. oc \<in> set (ep_occurrences (f p)) \<Longrightarrow> oc \<in> set (ep_occurrences p) \<or> (\<exists>tx \<in> set txs. (h, oc) \<in> set (tx_occurrences tx))"
  shows "pairs_ok txs (on_pair h f groups)"
  unfolding pairs_ok_def
proof (intro ballI, clarify)
  fix k p
  assume kp: "(k, p) \<in> set (on_pair h f groups)"
  define q where "q = (case jmap_get groups h of None \<Rightarrow> new_pair h | Some p \<Rightarrow> p)"
  have q: "ep_hash q = h \<and> (\<forall>oc \<in> set (ep_occurrences q). \<exists>tx \<in> set txs. (h, oc) \<in> set (tx_occurrences tx))"
  proof (cases "jmap_get groups h")
    case (Some p)
    with pairs_okD [OF assms(1) jmap_get_Some_key] show ?thesis by (simp add: q_def)
  qed (simp add: q_def new_pair_def)
  from kp consider "(k, p) = (h, f q)" | "(k, p) \<in> set groups"
    unfolding on_pair_def q_def using set_jmap_set by (metis insert_iff subsetD)
  then show "ep_hash p = k \<and> (\<forall>oc \<in> set (ep_occurrences p). \<exists>tx \<in> set txs. (k, oc) \<in> set (tx_occurrences tx))"
  proof cases
    case 1
    with q assms(2,3) show ?thesis by (metis prod.inject)
  next
    case 2
    then show ?thesis by (rule pairs_okD [OF assms(1)])
  qed
qed

lemma add_plan_ok: "pairs_ok txs groups \<Longrightarrow> pairs_ok txs (add_plan groups plan)"
  by (auto simp: add_plan_def split: option.split intro: on_pair_ok)

lemma add_occurrence_ok:
  "pairs_ok txs groups \<Longrightarrow> tx \<in> set txs \<Longrightarrow> ho \<in> set (tx_occurrences tx) \<Longrightarrow> pairs_ok txs (add_occurrence groups ho)"
  unfolding add_occurrence_def by (rule on_pair_ok) auto

lemma pair_tx_ok:
  assumes "pairs_ok txs groups" and "tx \<in> set txs"
  shows "pairs_ok txs (pair_tx groups tx)"
proof -
  have "pairs_ok txs (foldl add_plan g ps)" if "pairs_ok txs g" for g ps
    using that by (induction ps arbitrary: g) (auto intro: add_plan_ok)
  moreover have "pairs_ok txs (foldl add_occurrence g hos)"
    if "pairs_ok txs g" and "set hos \<subseteq> set (tx_occurrences tx)" for g hos
    using that by (induction hos arbitrary: g) (auto intro: add_occurrence_ok [OF _ assms(2)])
  ultimately show ?thesis using assms(1) by (simp add: pair_tx_def)
qed

lemma pairs_fold_ok: "pairs_ok txs groups \<Longrightarrow> set ts \<subseteq> set txs \<Longrightarrow> pairs_ok txs (foldl pair_tx groups ts)"
  by (induction ts arbitrary: groups) (auto intro: pair_tx_ok)

lemma finish_pair_fields [simp]: "ep_hash (finish_pair p) = ep_hash p" "ep_occurrences (finish_pair p) = ep_occurrences p"
  by (simp_all add: finish_pair_def Let_def)

lemma pair_occurrences_from:
  assumes "oc \<in> set (pair_occurrences (buildExecutionPairs context) h)"
  obtains tx where "tx \<in> set (executionTransactions context)" and "(h, oc) \<in> set (tx_occurrences tx)"
proof -
  have ok: "pairs_ok (executionTransactions context) (foldl pair_tx [] (executionTransactions context))"
    by (rule pairs_fold_ok) (auto simp: pairs_ok_def)
  obtain p where "find (\<lambda>p. ep_hash p = h) (buildExecutionPairs context) = Some p" and oc: "oc \<in> set (ep_occurrences p)"
    using assms unfolding pair_occurrences_def
    by (cases "find (\<lambda>p. ep_hash p = h) (buildExecutionPairs context)") auto
  then have "p \<in> set (buildExecutionPairs context)" and h: "ep_hash p = h" by (auto dest: find_Some_mem)
  then obtain k q where kq: "(k, q) \<in> set (foldl pair_tx [] (executionTransactions context))" and "p = finish_pair q"
    by (auto simp: buildExecutionPairs_def)
  with oc h pairs_okD [OF ok kq] that show thesis by auto
qed

lemma mk_occurrence_Some:
  "mk_occurrence tx i e = Some (h, oc) \<Longrightarrow> oc_tx oc = tx \<and> oc_event oc = e \<and> oc_eventIndex oc = i
     \<and> oc_entryIndex oc = entry_index e \<and> oc_id oc = step_id tx i
     \<and> call_hash (js_prop (de_args e) ''crossChainCallHash'') = Some h \<and> event_role (de_name e) = Some (oc_role oc)"
  by (auto simp: mk_occurrence_def split: option.splits)

lemma tx_occurrences_iff:
  "ho \<in> set (tx_occurrences tx) \<longleftrightarrow> (\<exists>i < length (protocol_events tx). mk_occurrence tx i (protocol_events tx ! i) = Some ho)"
  by (auto simp: tx_occurrences_def map_filter_def in_set_enumerate_eq split_def Bex_def image_iff)

lemma completion_in_Some:
  "completion_in i es = Some e \<Longrightarrow> e \<in> set es \<and> de_name e = ''EntryExecuted'' \<and> entry_index e = i"
  by (induction i es rule: completion_in.induct) (auto split: if_splits)

lemma completion_Some:
  "completion oc = Some e \<Longrightarrow> e \<in> set (protocol_events (oc_tx oc)) \<and> de_name e = ''EntryExecuted'' \<and> entry_index e = oc_entryIndex oc"
  unfolding completion_def by (auto dest!: completion_in_Some in_set_dropD)

section \<open>Matches\<close>

lemma overall_state_Match:
  "overall_state checks skipped ambiguous = S_Match \<longleftrightarrow>
     \<not> skipped \<and> \<not> ambiguous \<and> (\<forall>c \<in> set checks. ck_state c = S_Match)"
  by (auto simp: overall_state_def list_ex_iff list_all_iff)

lemma matched_iff [simp]: "matched b = S_Match \<longleftrightarrow> b"
  by (simp add: matched_def)

lemma missing_state_Match [simp]: "missing_state a \<noteq> S_Match"
  by (simp add: missing_state_def)

lemma outcome_check_Match [simp]:
  "ck_state (outcome_check plan skipped ambiguous actual) = S_Match \<longleftrightarrow> \<not> skipped \<and> actual = Some (planned_success plan)"
  by (auto simp: outcome_check_def split: option.split)

lemma rolling_check_Match [simp]:
  "ck_state (rolling_check plan ambiguous d) = S_Match \<longleftrightarrow> exact_completion plan d"
  by (auto simp: rolling_check_def exact_completion_def split: option.split)

lemma return_check_Match [simp]:
  "ck_state (return_check plan returned) = S_Match \<longleftrightarrow>
     (\<exists>s. returned = Some s \<and> eq_values (JStr s) (js_prop (pl_entry plan) ''returnData''))"
  by (auto simp: return_check_def split: option.split)

lemma associate_Some:
  assumes "associate plans plan obs = (obs', Some e, amb)"
  obtains oc where "oc \<in> set obs" and "obs' = [oc]" and "completion oc = Some e" and "pl_kind plan = P_Execution"
    and "\<forall>q \<in> set (duplicate_plans plans plan). \<not> same_rolling plan q"
proof -
  define candidates where "candidates = map (\<lambda>oc. (oc, completion oc)) obs"
  define exact where "exact = filter (\<lambda>(_, d). exact_completion plan d) candidates"
  have kind: "pl_kind plan = P_Execution"
    using assms by (cases "pl_kind plan") (simp_all add: associate_def)
  have "\<exists>oc. (oc, completion oc) \<in> set candidates \<and> obs' = [oc] \<and> completion oc = Some e
      \<and> (\<forall>q \<in> set (duplicate_plans plans plan). \<not> same_rolling plan q)"
  proof (cases "length exact = 1 \<and> \<not> list_ex (same_rolling plan) (duplicate_plans plans plan)")
    case True
    then have "hd exact \<in> set exact" by (cases exact) auto
    then have "hd exact \<in> set candidates" by (simp add: exact_def)
    with True assms kind show ?thesis
      by (auto simp: associate_def Let_def candidates_def exact_def list_ex_iff)
  next
    case False
    with assms kind have one: "length candidates = 1" "duplicate_plans plans plan = []"
      and res: "obs' = [fst (hd candidates)]" "snd (hd candidates) = Some e"
      by (auto simp: associate_def Let_def candidates_def exact_def split: if_splits)
    from one have "hd candidates \<in> set candidates" by (cases candidates) auto
    with one res show ?thesis by (auto simp: candidates_def)
  qed
  then show thesis using that kind by (auto simp: candidates_def)
qed

definition immediate_unique :: "entry_plan list \<Rightarrow> entry_plan \<Rightarrow> bool" where
  "immediate_unique plans plan \<longleftrightarrow>
     (\<forall>q \<in> set plans. pl_id q \<noteq> pl_id plan \<and> txKey (pl_tx q) = txKey (pl_tx plan) \<longrightarrow> \<not> same_rolling plan q)"

lemma immediate_entry_None:
  assumes "pl_hash plan = None" and "immediate_entry plans plan (obs, None, amb) = (obs', Some e, amb')"
  shows "pl_kind plan = P_Execution \<and> e \<in> set (protocol_events (pl_tx plan)) \<and> de_name e = ''EntryExecuted''
    \<and> immediate_unique plans plan"
proof -
  define immediate where "immediate = filter (\<lambda>e. de_protocol e \<and> de_name e = ''EntryExecuted'') (dt_events (pl_tx plan))"
  define matching where "matching = filter (\<lambda>e. eq_values (rolling (de_args e)) (rolling (pl_entry plan))) immediate"
  from assms have kind: "pl_kind plan = P_Execution" by (auto simp: immediate_entry_def split: if_splits)
  from assms kind have "length matching = 1" and e: "e = hd matching"
    and u: "\<not> list_ex (\<lambda>p. pl_id p \<noteq> pl_id plan \<and> txKey (pl_tx p) = txKey (pl_tx plan) \<and> same_rolling plan p) plans"
    by (auto simp: immediate_entry_def Let_def matching_def immediate_def split: if_splits)
  then have "e \<in> set matching" by (cases matching) auto
  with u kind show ?thesis
    by (auto simp: matching_def immediate_def protocol_events_def immediate_unique_def list_ex_iff)
qed

lemma immediate_entry_hash: "pl_hash plan = Some h \<Longrightarrow> immediate_entry plans plan a = a"
  by (simp add: immediate_entry_def)

lemma plan_consumptions_mem:
  "oc \<in> set (plan_consumptions pairs plan) \<longleftrightarrow> (\<exists>h. pl_hash plan = Some h \<and> oc \<in> set (pair_occurrences pairs h)
     \<and> dt_chain (oc_tx oc) = dt_chain (pl_tx plan) \<and> oc_role oc = R_Consumed \<and> not_before (oc_tx oc) (pl_tx plan))"
  by (cases "pl_hash plan") (auto simp: plan_consumptions_def)

lemma plan_observations_mem:
  "oc \<in> set (plan_observations txs pairs plan) \<longleftrightarrow> oc \<in> set (plan_consumptions pairs plan)
     \<and> (dt_chain (pl_tx plan) = L2 \<longrightarrow> of_last_load txs plan oc)"
  by (auto simp: plan_observations_def)

lemma plan_observations_None: "pl_hash plan = None \<Longrightarrow> plan_observations txs pairs plan = []"
  by (simp add: plan_observations_def plan_consumptions_def)

lemma associate_Nil: "associate plans plan [] = ([], None, False)"
  by (simp add: associate_def Let_def)

lemma executionPlans_tx: "plan \<in> set (executionPlans tx) \<Longrightarrow> pl_tx plan = tx"
  by (auto simp: executionPlans_def Let_def mk_plan_def)

text \<open>How a completion event that the comparison uses is associated with its plan.\<close>

definition established ::
  "debug_context \<Rightarrow> entry_plan list \<Rightarrow> entry_plan \<Rightarrow> occurrence list \<Rightarrow> debug_transaction \<Rightarrow> debug_event \<Rightarrow> bool" where
  "established context plans plan obs tx e \<longleftrightarrow>
     (case pl_hash plan of
        None \<Rightarrow> tx = pl_tx plan \<and> immediate_unique plans plan
      | Some h \<Rightarrow> \<exists>oc. obs = [oc] \<and> oc_tx oc = tx \<and> oc_role oc = R_Consumed \<and> completion oc = Some e
          \<and> call_hash (js_prop (de_args (oc_event oc)) ''crossChainCallHash'') = Some h
          \<and> dt_chain tx = dt_chain (pl_tx plan) \<and> not_before tx (pl_tx plan)
          \<and> (dt_chain tx = L2 \<longrightarrow> of_last_load (executionTransactions context) plan oc)
          \<and> (\<forall>q \<in> set (duplicate_plans plans plan). \<not> same_rolling plan q))"

lemma association_established:
  assumes plan: "plan \<in> set (concat (map executionPlans (executionTransactions context)))"
    and a: "immediate_entry plans plan (associate plans plan
      (plan_observations (executionTransactions context) (buildExecutionPairs context) plan)) = (obs, Some e, amb)"
  obtains tx where "tx \<in> set (executionTransactions context)" and "e \<in> set (protocol_events tx)"
    and "de_name e = ''EntryExecuted''" and "pl_kind plan = P_Execution" and "established context plans plan obs tx e"
proof (cases "pl_hash plan")
  case None
  with a have "immediate_entry plans plan ([], None, False) = (obs, Some e, amb)"
    by (simp add: plan_observations_None associate_Nil)
  from immediate_entry_None [OF None this] None that [of "pl_tx plan"] plan show thesis
    by (auto simp: established_def dest: executionPlans_tx)
next
  case (Some h)
  with a obtain oc where oc: "oc \<in> set (plan_observations (executionTransactions context) (buildExecutionPairs context) plan)"
    and res: "obs = [oc]" "completion oc = Some e" "pl_kind plan = P_Execution"
      "\<forall>q \<in> set (duplicate_plans plans plan). \<not> same_rolling plan q"
    by (auto simp: immediate_entry_hash elim: associate_Some)
  from oc Some have pair: "oc \<in> set (pair_occurrences (buildExecutionPairs context) h)"
    and at: "dt_chain (oc_tx oc) = dt_chain (pl_tx plan)" "oc_role oc = R_Consumed" "not_before (oc_tx oc) (pl_tx plan)"
      "dt_chain (pl_tx plan) = L2 \<longrightarrow> of_last_load (executionTransactions context) plan oc"
    by (auto simp: plan_observations_mem plan_consumptions_mem)
  from pair obtain tx where tx: "tx \<in> set (executionTransactions context)" and "(h, oc) \<in> set (tx_occurrences tx)"
    by (rule pair_occurrences_from)
  then have fields: "oc_tx oc = tx" "call_hash (js_prop (de_args (oc_event oc)) ''crossChainCallHash'') = Some h"
    by (auto simp: tx_occurrences_iff dest!: mk_occurrence_Some)
  from completion_Some [OF res(2)] fields tx show thesis
    using that [of tx] res at Some by (auto simp: established_def)
qed

text \<open>C29. A planned entry is reported as a match only on evidence: it is an execution (not a static
  one) that was not skipped; a trace of its own transaction tells whether it succeeded, as planned,
  and its result bytes are the planned ones; and exactly one recorded \<open>EntryExecuted\<close> event carries
  its rolling hash, associated with it through the only remaining consumption of its call hash (not
  before the plan, and on L2 of the last table loaded before) or, without a hash, in its own
  transaction, while no competing plan has the same rolling hash.\<close>
theorem match_established:
  assumes "ev \<in> set (compareExecution dec_bytes context traces)" and "ee_state ev = S_Match"
  shows "pl_kind (ee_plan ev) = P_Execution \<and> \<not> plan_skipped (ee_plan ev)
    \<and> (\<exists>trace bytes. jmap_get traces (txKey (pl_tx (ee_plan ev))) = Some trace
        \<and> has_method (pl_tx (ee_plan ev)) ''executeIncomingCrossChainCall'' \<and> pl_index (ee_plan ev) = 0
        \<and> planned_success (ee_plan ev) = (\<not> js_text_set (tr_error trace))
        \<and> returned_bytes dec_bytes (Some trace) = Some bytes
        \<and> eq_values (JStr bytes) (js_prop (pl_entry (ee_plan ev)) ''returnData''))
    \<and> (\<exists>tx e. tx \<in> set (executionTransactions context) \<and> e \<in> set (protocol_events tx) \<and> de_name e = ''EntryExecuted''
        \<and> eq_values (rolling (de_args e)) (rolling (pl_entry (ee_plan ev)))
        \<and> established context (concat (map executionPlans (executionTransactions context))) (ee_plan ev) (ee_observations ev) tx e)"
proof -
  define plans where "plans = concat (map executionPlans (executionTransactions context))"
  from assms(1) obtain plan where plan: "plan \<in> set plans"
    and ev: "ev = compare_plan dec_bytes (executionTransactions context) (buildExecutionPairs context) plans traces plan"
    by (auto simp: compareExecution_def Let_def plans_def)
  obtain obs d amb where a: "immediate_entry plans plan (associate plans plan
      (plan_observations (executionTransactions context) (buildExecutionPairs context) plan)) = (obs, d, amb)"
    using prod_cases3 by blast
  have fields: "ee_plan ev = plan" "ee_observations ev = obs"
    by (simp_all add: ev compare_plan_def a Let_def)
  from assms(2) have checks: "\<not> plan_skipped plan" "actual_success (direct_trace traces plan) d = Some (planned_success plan)"
      "exact_completion plan d"
      "\<exists>s. returned_bytes dec_bytes (direct_trace traces plan) = Some s \<and> eq_values (JStr s) (js_prop (pl_entry plan) ''returnData'')"
    by (auto simp: ev compare_plan_def a Let_def overall_state_Match)
  from checks(3) obtain e where e: "d = Some e" and hash: "eq_values (rolling (de_args e)) (rolling (pl_entry plan))"
    by (auto simp: exact_completion_def split: option.splits)
  from checks(4) obtain trace where trace: "direct_trace traces plan = Some trace"
    by (cases "direct_trace traces plan") (auto simp: returned_bytes_def)
  then have direct: "jmap_get traces (txKey (pl_tx plan)) = Some trace" "pl_index plan = 0"
      "has_method (pl_tx plan) ''executeIncomingCrossChainCall''"
    by (auto simp: direct_trace_def split: if_splits)
  obtain tx where tx: "tx \<in> set (executionTransactions context)" "e \<in> set (protocol_events tx)" "de_name e = ''EntryExecuted''"
    "pl_kind plan = P_Execution" "established context plans plan obs tx e"
    using association_established [OF plan [unfolded plans_def] a [unfolded e]] by blast
  show ?thesis
    unfolding fields plans_def [symmetric]
    using checks trace direct tx hash by (auto simp: actual_success_def)
qed

text \<open>A block with one incoming L2 call of one entry, recorded by two events.\<close>

definition sample_call_hash :: string where
  "sample_call_hash = ''0x'' @ replicate 64 CHR ''a''"

definition sample_exec_event :: "string \<Rightarrow> js_object \<Rightarrow> debug_event" where
  "sample_exec_event name args = \<lparr>de_name = name, de_args = args,
     de_raw = \<lparr>rl_address = ''0x42'', rl_topics = [], rl_data = ''0x'', rl_logIndex = 0, rl_transactionHash = ''0x1'',
       rl_blockHash = ''0x2'', rl_blockNumber = 7\<rparr>, de_protocol = True\<rparr>"

definition sample_exec_tx :: debug_transaction where
  "sample_exec_tx = \<lparr>dt_chain = L2,
     dt_tx = \<lparr>rt_hash = ''0x1'', rt_from = ''0x3'', rt_to = Some ''0x42'', rt_input = ''0x'', rt_value = ''0x0'',
       rt_blockNumber = Some 7, rt_blockHash = Some ''0x2'', rt_transactionIndex = Some 0\<rparr>,
     dt_receipt = None,
     dt_events = [sample_exec_event ''ExecutionConsumed'' [(''crossChainCallHash'', JStr sample_call_hash), (''entryIndex'', JBig 0)],
       sample_exec_event ''EntryExecuted'' [(''entryIndex'', JBig 0), (''rollingHash'', JStr ''0xAB'')]],
     dt_payload = Some \<lparr>dp_method = ''executeIncomingCrossChainCall'', dp_args = [],
       dp_entries = [[(''proxyEntryHash'', JStr sample_call_hash), (''rollingHash'', JStr ''0xab''), (''returnData'', JStr ''0x05'')]],
       dp_staticEntries = [], dp_immediateEntryCount = 0\<rparr>,
     dt_warnings = []\<rparr>"

definition sample_exec_context :: debug_context where
  "sample_exec_context = \<lparr>dx_sourceChain = L2, dx_sourceBlock = None, dx_selected = Some sample_exec_tx,
     dx_blocks = [\<lparr>db_chain = L2, db_number = 7, db_hash = ''0x2'', db_parentHash = ''0x0'', db_timestamp = ''0x0'',
       db_gasUsed = ''0x0'', db_gasLimit = ''0x0'', db_transactions = [sample_exec_tx]\<rparr>],
     dx_settlements = [], dx_warnings = []\<rparr>"

definition sample_bytes :: "string \<Rightarrow> string option" where
  "sample_bytes s = (if s = ''0x01'' then Some ''0x05'' else None)"

definition sample_traces :: "(string, call_trace) jmap" where
  "sample_traces = [(''l2:0x1'', Trace None (Some ''0x01'') [])]"

lemma sample_transactions: "executionTransactions sample_exec_context = [sample_exec_tx]"
  by code_simp

lemma sample_evidence: "map ee_state (compareExecution sample_bytes sample_exec_context sample_traces) = [S_Match]"
  by code_simp

definition sample_match :: entry_evidence where
  "sample_match = hd (compareExecution sample_bytes sample_exec_context sample_traces)"

theorem match_established_witness:
  "ee_state sample_match = S_Match \<and> pl_kind (ee_plan sample_match) = P_Execution \<and>
     (\<exists>tx e. tx \<in> set (executionTransactions sample_exec_context) \<and> e \<in> set (protocol_events tx)
        \<and> de_name e = ''EntryExecuted''
        \<and> established sample_exec_context (concat (map executionPlans (executionTransactions sample_exec_context)))
            (ee_plan sample_match) (ee_observations sample_match) tx e)"
proof -
  have mem: "sample_match \<in> set (compareExecution sample_bytes sample_exec_context sample_traces)"
    unfolding sample_match_def by (rule hd_in_set) (use sample_evidence in auto)
  have st: "ee_state sample_match = S_Match"
    unfolding sample_match_def using sample_evidence by (metis hd_map list.map_disc_iff list.sel(1) not_Cons_self2)
  show ?thesis using match_established [OF mem st] st by blast
qed

section \<open>Trace frames\<close>

text \<open>The path of an enclosing frame, or the frame's own.\<close>

definition encloses :: "string \<Rightarrow> string \<Rightarrow> bool" where
  "encloses p q \<longleftrightarrow> q = p \<or> (\<exists>r. q = p @ ''.'' @ r)"

lemma encloses_refl [simp]: "encloses p p"
  by (simp add: encloses_def)

lemma encloses_trans: "encloses p q \<Longrightarrow> encloses q r \<Longrightarrow> encloses p r"
  by (auto simp: encloses_def)

lemma encloses_child: "encloses p (p @ ''.'' @ q)"
  by (auto simp: encloses_def)

lemma encloses_length: "encloses p q \<Longrightarrow> length p \<le> length q"
  by (auto simp: encloses_def)

lemma digit_value_dot: "digit_value CHR ''.'' = None"
  by code_simp

lemma child_unique:
  assumes "encloses (p @ ''.'' @ show_nat i) q" and "encloses (p @ ''.'' @ show_nat j) q"
  shows "i = j"
proof -
  from assms(1) obtain r where r: "q = p @ ''.'' @ show_nat i @ r" "r = [] \<or> (\<exists>r'. r = CHR ''.'' # r')"
    by (auto simp: encloses_def)
  from assms(2) obtain s where s: "q = p @ ''.'' @ show_nat j @ s" "s = [] \<or> (\<exists>r'. s = CHR ''.'' # r')"
    by (auto simp: encloses_def)
  from r s have "show_nat i @ r = show_nat j @ s" by simp
  with take_number [OF digit_value_dot r(2)] take_number [OF digit_value_dot s(2)] show ?thesis by (metis show_nat_inj)
qed

lemma mk_frame_fields [simp]:
  "fr_path (mk_frame tx t path handled) = path" "fr_trace (mk_frame tx t path handled) = t"
  by (simp_all add: mk_frame_def Let_def)

lemma visit_below:
  "f \<in> set (visit tx t path handled) \<Longrightarrow> encloses path (fr_path f)"
  "f \<in> set (visit_calls tx cs path i handled) \<Longrightarrow> \<exists>k \<ge> i. encloses (path @ ''.'' @ show_nat k) (fr_path f)"
proof (induction tx t path handled and tx cs path i handled rule: visit_visit_calls.induct)
  case (1 tx err out calls path handled)
  have "encloses path q" if "encloses (path @ ''.'' @ show_nat k) q" for k q
    using encloses_trans [OF encloses_child that] .
  with 1 show ?case by auto
next
  case (3 tx c cs path i handled)
  then show ?case by (auto intro: exI [of _ i]) (meson Suc_leD)
qed simp

lemma visit_paths_distinct:
  "distinct (map fr_path (visit tx t path handled))"
  "distinct (map fr_path (visit_calls tx cs path i handled))"
proof (induction tx t path handled and tx cs path i handled rule: visit_visit_calls.induct)
  case (1 tx err out calls path handled)
  then show ?case by (auto dest!: visit_below(2) encloses_length)
next
  case (3 tx c cs path i handled)
  have "fr_path f \<noteq> fr_path g" if "f \<in> set (visit tx c (path @ ''.'' @ show_nat i) handled)"
      and "g \<in> set (visit_calls tx cs path (i + 1) handled)" for f g
    using visit_below(1) [OF that(1)] visit_below(2) [OF that(2)] child_unique by (metis Suc_eq_plus1 Suc_n_not_le_n)
  with 3 show ?case by fastforce
qed simp

text \<open>No enclosing call of an unexpected failure succeeded.\<close>

definition unhandled :: "trace_frame list \<Rightarrow> trace_frame \<Rightarrow> bool" where
  "unhandled frames f \<longleftrightarrow> (\<forall>g \<in> set frames. encloses (fr_path g) (fr_path f) \<longrightarrow> failed_frame (fr_trace g))"

lemma mk_frame_Unexpected:
  "fr_class (mk_frame tx t path handled) = Some Unexpected_failure \<longleftrightarrow> failed_frame t \<and> \<not> handled \<and> \<not> expected_root tx t path"
  by (simp add: mk_frame_def Let_def)

lemma visit_unhandled:
  "f \<in> set (visit tx t path handled) \<Longrightarrow> fr_class f = Some Unexpected_failure \<Longrightarrow>
     \<not> handled \<and> unhandled (visit tx t path handled) f"
  "f \<in> set (visit_calls tx cs path i handled) \<Longrightarrow> fr_class f = Some Unexpected_failure \<Longrightarrow>
     \<not> handled \<and> unhandled (visit_calls tx cs path i handled) f"
proof (induction tx t path handled and tx cs path i handled rule: visit_visit_calls.induct)
  case (1 tx err out calls path handled)
  show ?case
  proof (cases "f = mk_frame tx (Trace err out calls) path handled")
    case True
    have "\<not> encloses (fr_path g) path" if "g \<in> set (visit_calls tx calls path 0 (handled \<or> \<not> failed_frame (Trace err out calls)))" for g
      using visit_below(2) [OF that] by (auto dest!: encloses_length)
    with True 1 show ?thesis by (auto simp: unhandled_def mk_frame_Unexpected)
  next
    case False
    with 1 show ?thesis by (auto simp: unhandled_def)
  qed
next
  case (3 tx c cs path i handled)
  have below: "\<not> encloses (fr_path g) (fr_path h) \<and> \<not> encloses (fr_path h) (fr_path g)"
    if "g \<in> set (visit tx c (path @ ''.'' @ show_nat i) handled)" and "h \<in> set (visit_calls tx cs path (i + 1) handled)" for g h
    using visit_below(1) [OF that(1)] visit_below(2) [OF that(2)] child_unique encloses_trans by (metis Suc_eq_plus1 Suc_n_not_le_n)
  from 3 below show ?case by (auto simp: unhandled_def)
qed simp

lemma visit_root:
  "\<exists>rest. visit tx t path handled = mk_frame tx t path handled # rest"
  by (cases t) simp

lemma unwind_frame_fields [simp]:
  "fr_path (unwind_frame f) = fr_path f" "fr_trace (unwind_frame f) = fr_trace f"
  "fr_class (unwind_frame f) \<noteq> Some Unexpected_failure"
  by (auto simp: unwind_frame_def)

lemma flattenTrace_cases:
  "flattenTrace tx trace = (let root = mk_frame tx trace ''0'' False; rest = tl (visit tx trace ''0'' False)
     in root # (if failed_frame trace \<and> expected_root tx trace ''0'' then map unwind_frame rest else rest))"
proof -
  obtain rest where "visit tx trace ''0'' False = mk_frame tx trace ''0'' False # rest"
    using visit_root by blast
  moreover have "fr_class (mk_frame tx trace ''0'' False) = Some Expected_revert \<longleftrightarrow> failed_frame trace \<and> expected_root tx trace ''0''"
    by (simp add: mk_frame_def Let_def)
  ultimately show ?thesis by (simp add: flattenTrace_def Let_def)
qed

lemma flattenTrace_paths: "map fr_path (flattenTrace tx trace) = map fr_path (visit tx trace ''0'' False)"
proof -
  obtain rest where "visit tx trace ''0'' False = mk_frame tx trace ''0'' False # rest"
    using visit_root by blast
  then show ?thesis by (simp add: flattenTrace_cases Let_def)
qed

lemma flattenTrace_unexpected:
  assumes "f \<in> set (flattenTrace tx trace)" and "fr_class f = Some Unexpected_failure"
  shows "flattenTrace tx trace = visit tx trace ''0'' False \<and> failed_frame trace \<and> \<not> expected_root tx trace ''0''
    \<and> unhandled (flattenTrace tx trace) f"
proof -
  obtain rest where v: "visit tx trace ''0'' False = mk_frame tx trace ''0'' False # rest"
    using visit_root by blast
  have ne: "\<not> (failed_frame trace \<and> expected_root tx trace ''0'')"
    using assms by (auto simp: flattenTrace_cases Let_def v mk_frame_Unexpected)
  then have eq: "flattenTrace tx trace = visit tx trace ''0'' False"
    by (auto simp: flattenTrace_cases Let_def v)
  with assms visit_unhandled(1) have u: "unhandled (visit tx trace ''0'' False) f" by metis
  have "encloses ''0'' (fr_path f)" using visit_below(1) assms(1) eq by metis
  with u v have "failed_frame trace" by (auto simp: unhandled_def)
  with ne eq u show ?thesis by simp
qed

lemma firstFailurePath_cases:
  "firstFailurePath tx trace = None \<longleftrightarrow> (\<forall>f \<in> set (flattenTrace tx trace). fr_class f \<noteq> Some Unexpected_failure)"
  "firstFailurePath tx trace = Some p \<Longrightarrow> \<exists>f \<in> set (flattenTrace tx trace). fr_class f = Some Unexpected_failure \<and> fr_path f = p"
proof -
  define frames where "frames = filter (\<lambda>f. fr_class f = Some Unexpected_failure) (flattenTrace tx trace)"
  define matching where "matching = filter (\<lambda>f. js_text_set (tr_output (fr_trace f)) \<and> js_text_set (tr_output trace)
            \<and> eq_values (js_opt_text (tr_output (fr_trace f))) (js_opt_text (tr_output trace))) frames"
  have eq: "firstFailurePath tx trace = (if matching \<noteq> [] then Some (fr_path (last matching))
       else case frames of [] \<Rightarrow> None | f # _ \<Rightarrow> Some (fr_path f))"
    unfolding firstFailurePath_def Let_def frames_def [symmetric] matching_def [symmetric] ..
  have sub: "set matching \<subseteq> set frames" by (auto simp: matching_def)
  then have "firstFailurePath tx trace = None \<longleftrightarrow> frames = []"
    unfolding eq by (cases frames) auto
  then show "firstFailurePath tx trace = None \<longleftrightarrow> (\<forall>f \<in> set (flattenTrace tx trace). fr_class f \<noteq> Some Unexpected_failure)"
    by (simp add: frames_def filter_empty_conv)
  assume "firstFailurePath tx trace = Some p"
  then have "\<exists>f \<in> set frames. fr_path f = p"
  proof (cases "matching = []")
    case True
    with \<open>firstFailurePath tx trace = Some p\<close> show ?thesis unfolding eq by (cases frames) auto
  next
    case False
    with sub have "last matching \<in> set frames" by auto
    with False \<open>firstFailurePath tx trace = Some p\<close> show ?thesis unfolding eq by auto
  qed
  then show "\<exists>f \<in> set (flattenTrace tx trace). fr_class f = Some Unexpected_failure \<and> fr_path f = p"
    by (auto simp: frames_def)
qed

text \<open>The frames of a trace have different paths; a first failure is reported exactly when the
  transaction itself failed and its revert is not the planned one; and the reported frame is a
  failed call that no enclosing call survived.\<close>
theorem first_failure_unhandled:
  "distinct (map fr_path (flattenTrace tx trace)) \<and>
   (firstFailurePath tx trace = None \<longleftrightarrow> \<not> failed_frame trace \<or> expected_root tx trace ''0'') \<and>
   (\<forall>p. firstFailurePath tx trace = Some p \<longrightarrow> (\<exists>f \<in> set (flattenTrace tx trace). fr_path f = p
      \<and> fr_class f = Some Unexpected_failure
      \<and> (\<forall>g \<in> set (flattenTrace tx trace). encloses (fr_path g) p \<longrightarrow> failed_frame (fr_trace g))))"
proof (intro conjI allI impI)
  show "distinct (map fr_path (flattenTrace tx trace))"
    by (simp add: flattenTrace_paths visit_paths_distinct(1))
  have root: "mk_frame tx trace ''0'' False \<in> set (flattenTrace tx trace)"
    by (simp add: flattenTrace_cases Let_def)
  show "firstFailurePath tx trace = None \<longleftrightarrow> \<not> failed_frame trace \<or> expected_root tx trace ''0''"
    unfolding firstFailurePath_cases(1)
    using flattenTrace_unexpected root mk_frame_Unexpected by metis
  fix p
  assume "firstFailurePath tx trace = Some p"
  with firstFailurePath_cases(2) obtain f where "f \<in> set (flattenTrace tx trace)" "fr_class f = Some Unexpected_failure" "fr_path f = p"
    by blast
  with flattenTrace_unexpected show "\<exists>f \<in> set (flattenTrace tx trace). fr_path f = p
      \<and> fr_class f = Some Unexpected_failure
      \<and> (\<forall>g \<in> set (flattenTrace tx trace). encloses (fr_path g) p \<longrightarrow> failed_frame (fr_trace g))"
    unfolding unhandled_def by blast
qed

text \<open>A failed call whose second child failed with the same output; its first child handled a revert.\<close>

definition sample_failure :: call_trace where
  "sample_failure = Trace (Some ''reverted'') (Some ''0x08'') [Trace None None [Trace (Some ''reverted'') None []],
     Trace (Some ''reverted'') (Some ''0x08'') []]"

lemma sample_failure_path: "firstFailurePath sample_exec_tx sample_failure = Some ''0.1''"
  by code_simp

theorem first_failure_unhandled_witness:
  "firstFailurePath sample_exec_tx sample_failure = Some ''0.1'' \<and>
   (\<exists>f \<in> set (flattenTrace sample_exec_tx sample_failure). fr_path f = ''0.1'' \<and> fr_class f = Some Unexpected_failure)"
  using first_failure_unhandled [of sample_exec_tx sample_failure] sample_failure_path by blast

end
