(* ===== verification/Timeline_Built.thy ===== *)
theory Timeline_Built
  imports Execution_Timeline Evidence_Properties "HOL-Library.Multiset"
begin

text \<open>
  Well-formedness of the timelines that \<open>buildExecutionTimeline\<close> builds: unique step ids, steps
  numbered from one in log order on each chain, and connections only between existing steps of
  different chains.
\<close>

section \<open>Step ids\<close>

lemma step_id_inj: "step_id a i = step_id b j \<Longrightarrow> txKey a = txKey b \<and> i = j"
proof -
  have "digit_value CHR '':'' = None" by code_simp
  then show "step_id a i = step_id b j \<Longrightarrow> txKey a = txKey b \<and> i = j"
    using last_number_inj [of "CHR '':''" "txKey a" i "txKey b" j] by (simp add: step_id_def)
qed

lemma txKey_chain: "txKey a = txKey b \<Longrightarrow> dt_chain a = dt_chain b"
  by (cases "dt_chain a"; cases "dt_chain b") (auto simp: txKey_def)

section \<open>The steps of a transaction\<close>

definition transaction_ok :: "timeline_transaction \<Rightarrow> bool" where
  "transaction_ok t \<longleftrightarrow>
     (\<forall>s \<in> set (tt_steps t). ts_tx s = tt_tx t \<and> ts_id s = step_id (tt_tx t) (ts_eventIndex s)
        \<and> ts_eventIndex s < length (protocol_events (tt_tx t)) \<and> ts_event s = protocol_events (tt_tx t) ! ts_eventIndex s) \<and>
     distinct (map ts_eventIndex (tt_steps t)) \<and>
     mset (map ts_event (tt_steps t)) = mset (protocol_events (tt_tx t)) \<and>
     sorted (map (\<lambda>s. rl_logIndex (de_raw (ts_event s))) (tt_steps t))"

lemma mk_step_Inr:
  "mk_step tx ord ie = Inr s \<Longrightarrow> ts_tx s = tx \<and> ts_id s = step_id tx (fst ie) \<and> ts_event s = snd ie
     \<and> ts_eventIndex s = fst ie \<and> ts_order s = ord"
  by (auto simp: mk_step_def res_bind_Inr_iff)

lemma mk_steps_Inr:
  "mk_steps tx ord ies = Inr ss \<Longrightarrow> map ts_eventIndex ss = map fst ies \<and> map ts_event ss = map snd ies
     \<and> map ts_order ss = [Suc ord ..< Suc ord + length ies]
     \<and> (\<forall>s \<in> set ss. ts_tx s = tx \<and> ts_id s = step_id tx (ts_eventIndex s) \<and> (ts_eventIndex s, ts_event s) \<in> set ies)"
proof (induction ies arbitrary: ord ss)
  case (Cons ie ies)
  then obtain s ss' where s: "mk_step tx (ord + 1) ie = Inr s" and ss': "mk_steps tx (ord + 1) ies = Inr ss'" and "ss = s # ss'"
    by (auto simp: res_bind_Inr_iff)
  with Cons.IH [OF ss'] mk_step_Inr [OF s] show ?case
    by (auto simp: upt_conv_Cons simp del: upt_Suc)
qed simp

lemma sorted_events_props:
  "distinct (map fst (sorted_events tx))" "mset (map snd (sorted_events tx)) = mset (protocol_events tx)"
  "sorted (map (\<lambda>(i, e). rl_logIndex (de_raw e)) (sorted_events tx))"
  "(i, e) \<in> set (sorted_events tx) \<Longrightarrow> i < length (protocol_events tx) \<and> e = protocol_events tx ! i"
proof -
  define key where "key = (\<lambda>(i :: nat, e :: debug_event). rl_logIndex (de_raw e))"
  have s: "sorted_events tx = sort_key key (List.enumerate 0 (protocol_events tx))"
    by (simp add: sorted_events_def key_def)
  have "mset (map fst (sorted_events tx)) = image_mset fst (mset (List.enumerate 0 (protocol_events tx)))"
    by (simp add: s)
  also have "\<dots> = mset (map fst (List.enumerate 0 (protocol_events tx)))" by (simp only: mset_map)
  finally have "mset (map fst (sorted_events tx)) = mset [0 ..< length (protocol_events tx)]"
    by (simp only: map_fst_enumerate add_0)
  then show "distinct (map fst (sorted_events tx))"
    by (metis distinct_upt mset_eq_imp_distinct_iff)
  have "mset (map snd (sorted_events tx)) = image_mset snd (mset (List.enumerate 0 (protocol_events tx)))"
    by (simp add: s)
  also have "\<dots> = mset (map snd (List.enumerate 0 (protocol_events tx)))" by (simp only: mset_map)
  finally show "mset (map snd (sorted_events tx)) = mset (protocol_events tx)"
    by (simp only: map_snd_enumerate)
  show "sorted (map (\<lambda>(i, e). rl_logIndex (de_raw e)) (sorted_events tx))"
    unfolding s key_def by (rule sorted_sort_key)
  show "(i, e) \<in> set (sorted_events tx) \<Longrightarrow> i < length (protocol_events tx) \<and> e = protocol_events tx ! i"
    by (auto simp: s in_set_enumerate_eq)
qed

lemma new_transaction_ok:
  assumes "mk_steps tx ord (sorted_events tx) = Inr ss"
  shows "transaction_ok \<lparr>tt_tx = tx, tt_timestamp = ts, tt_steps = ss\<rparr>"
proof -
  note m = mk_steps_Inr [OF assms]
  then have idx: "map ts_eventIndex ss = map fst (sorted_events tx)" and ev: "map ts_event ss = map snd (sorted_events tx)"
    by blast+
  have "map (\<lambda>s. rl_logIndex (de_raw (ts_event s))) ss = map (\<lambda>e. rl_logIndex (de_raw e)) (map ts_event ss)"
    by simp
  also have "\<dots> = map (\<lambda>(i, e). rl_logIndex (de_raw e)) (sorted_events tx)"
    by (simp add: ev split_def)
  finally have "sorted (map (\<lambda>s. rl_logIndex (de_raw (ts_event s))) ss)"
    using sorted_events_props(3) by metis
  moreover have "\<forall>s \<in> set ss. ts_tx s = tx \<and> ts_id s = step_id tx (ts_eventIndex s)
      \<and> ts_eventIndex s < length (protocol_events tx) \<and> ts_event s = protocol_events tx ! ts_eventIndex s"
    using m sorted_events_props(4) by blast
  ultimately show ?thesis
    using sorted_events_props(1,2) [of tx] unfolding transaction_ok_def by (simp add: idx ev del: mset_map)
qed

section \<open>The invariant of the construction\<close>

definition numbered :: "timeline_transaction list \<Rightarrow> bool" where
  "numbered ts \<longleftrightarrow> map ts_order (chain_steps ts) = [1 ..< Suc (length (chain_steps ts))]"

definition chain_ok :: "chain \<Rightarrow> timeline_transaction list \<Rightarrow> bool" where
  "chain_ok c ts \<longleftrightarrow> (\<forall>t \<in> set ts. dt_chain (tt_tx t) = c \<and> transaction_ok t) \<and> numbered ts"

definition building_ok :: "timeline_state \<Rightarrow> bool" where
  "building_ok s \<longleftrightarrow> chain_ok L1 (tm_l1 s) \<and> chain_ok L2 (tm_l2 s)
     \<and> tm_order1 s = length (chain_steps (tm_l1 s)) \<and> tm_order2 s = length (chain_steps (tm_l2 s))
     \<and> distinct (map (txKey \<circ> tt_tx) (tm_l1 s @ tm_l2 s)) \<and> set (tm_seen s) = set (map (txKey \<circ> tt_tx) (tm_l1 s @ tm_l2 s))"

lemma chain_steps_append [simp]: "chain_steps (ts @ us) = chain_steps ts @ chain_steps us"
  by (simp add: chain_steps_def)

lemma chain_steps_one [simp]: "chain_steps [t] = tt_steps t"
  by (simp add: chain_steps_def)

lemma numbered_snoc:
  "numbered ts \<Longrightarrow> map ts_order (tt_steps t) = [Suc (length (chain_steps ts)) ..< Suc (length (chain_steps ts)) + length (tt_steps t)]
     \<Longrightarrow> numbered (ts @ [t])"
  using upt_add_eq_append [of 1 "Suc (length (chain_steps ts))" "length (tt_steps t)"]
  by (simp add: numbered_def del: upt_Suc)

lemma add_transaction_ok:
  assumes "building_ok s" and "add_transaction isManager oos s tt = Inr s'"
  shows "building_ok s'"
proof (cases "\<not> isEezTransaction isManager (fst tt) \<or> txKey (fst tt) \<in> set (tm_seen s) \<or> oos (fst tt)")
  case True
  with assms show ?thesis by (simp add: add_transaction_def Let_def)
next
  case False
  define tx where "tx = fst tt"
  from False assms(2) obtain steps where st: "mk_steps tx (chain_order s (dt_chain tx)) (sorted_events tx) = Inr steps"
    and s': "s' = push_transaction s \<lparr>tt_tx = tx, tt_timestamp = snd tt, tt_steps = steps\<rparr>"
    by (auto simp: add_transaction_def Let_def res_bind_Inr_iff tx_def)
  have len: "length steps = length (sorted_events tx)" using mk_steps_Inr [OF st] by (metis length_map)
  have new: "txKey tx \<notin> (txKey \<circ> tt_tx) ` set (tm_l1 s @ tm_l2 s)"
    using False assms(1) by (auto simp: building_ok_def tx_def)
  have num: "map ts_order steps = [Suc (chain_order s (dt_chain tx)) ..< Suc (chain_order s (dt_chain tx)) + length steps]"
    using mk_steps_Inr [OF st] len by (simp del: upt_Suc)
  show ?thesis
    using assms(1) new num new_transaction_ok [OF st, of "snd tt"]
    by (cases "dt_chain tx")
       (auto simp: s' push_transaction_def building_ok_def chain_ok_def chain_order_def simp del: upt_Suc intro!: numbered_snoc)
qed

lemma add_transactions_ok:
  "building_ok s \<Longrightarrow> add_transactions isManager oos s tts = Inr s' \<Longrightarrow> building_ok s'"
  by (induction tts arbitrary: s) (auto simp: res_bind_Inr_iff intro: add_transaction_ok)

section \<open>Connections\<close>

lemma step_id_distinct:
  assumes "building_ok s"
  shows "distinct (map ts_id (chain_steps (tm_l1 s @ tm_l2 s)))"
proof -
  define ts where "ts = tm_l1 s @ tm_l2 s"
  from assms have "\<forall>t \<in> set ts. transaction_ok t" and "distinct (map (txKey \<circ> tt_tx) ts)"
    by (auto simp: building_ok_def chain_ok_def ts_def)
  then have "distinct (map ts_id (chain_steps ts))"
  proof (induction ts)
    case (Cons t ts)
    then have ok: "transaction_ok t" by simp
    have "distinct (map ts_id (tt_steps t))"
    proof -
      have "map ts_id (tt_steps t) = map (step_id (tt_tx t)) (map ts_eventIndex (tt_steps t))"
        using ok by (auto simp: transaction_ok_def)
      moreover have "inj (step_id (tt_tx t))" by (rule injI) (use step_id_inj in blast)
      moreover have "distinct (map ts_eventIndex (tt_steps t))" using ok by (simp add: transaction_ok_def)
      ultimately show ?thesis by (metis distinct_map inj_on_subset subset_UNIV)
    qed
    moreover have "ts_id a \<noteq> ts_id b" if "a \<in> set (tt_steps t)" and "b \<in> set (chain_steps ts)" for a b
    proof -
      from that(2) obtain u where u: "u \<in> set ts" "b \<in> set (tt_steps u)" by (auto simp: chain_steps_def)
      with Cons.prems have "txKey (tt_tx t) \<noteq> txKey (tt_tx u)" and "transaction_ok u" by auto
      with ok that u show ?thesis unfolding transaction_ok_def using step_id_inj by metis
    qed
    ultimately show ?case using Cons by (force simp: chain_steps_def)
  qed (simp add: chain_steps_def)
  then show ?thesis by (simp only: ts_def)
qed

text \<open>A connection between steps whose transactions are on different chains.\<close>

definition crossing :: "timeline_step list \<Rightarrow> timeline_connection \<Rightarrow> bool" where
  "crossing steps c \<longleftrightarrow> (\<exists>s \<in> set steps. \<exists>t \<in> set steps. ts_id s = tc_from c \<and> ts_id t = tc_to c
     \<and> dt_chain (ts_tx s) \<noteq> dt_chain (ts_tx t))"

definition apart :: "timeline_step list \<Rightarrow> timeline_connection \<Rightarrow> bool" where
  "apart steps c \<longleftrightarrow> (\<forall>s \<in> set steps. \<forall>t \<in> set steps. ts_id s = tc_from c \<longrightarrow> ts_id t = tc_to c
     \<longrightarrow> dt_chain (ts_tx s) \<noteq> dt_chain (ts_tx t))"

definition ends :: "timeline_connection \<Rightarrow> string \<times> string" where
  "ends c = (tc_from c, tc_to c)"

lemma addConnection_ok:
  assumes "\<forall>c \<in> set cs. apart steps c" and "\<forall>c \<in> set acc. crossing steps c" and "distinct (map ends acc)"
  shows "(\<forall>c \<in> set (foldl (addConnection steps) acc cs). crossing steps c) \<and> distinct (map ends (foldl (addConnection steps) acc cs))"
  using assms
proof (induction cs arbitrary: acc)
  case (Cons c cs)
  have "(\<forall>d \<in> set (addConnection steps acc c). crossing steps d) \<and> distinct (map ends (addConnection steps acc c))"
  proof (cases "addConnection steps acc c = acc")
    case False
    then have new: "addConnection steps acc c = acc @ [c]" and ids: "tc_from c \<in> ts_id ` set steps" "tc_to c \<in> ts_id ` set steps"
      and fresh: "\<forall>d \<in> set acc. ends d \<noteq> ends c"
      by (auto simp: addConnection_def step_ids_def list_ex_iff ends_def split: if_splits)
    from ids Cons.prems(1) have "crossing steps c" by (fastforce simp: crossing_def apart_def)
    with new fresh Cons.prems show ?thesis by auto
  qed (use Cons.prems in simp)
  with Cons.IH [of "addConnection steps acc c"] Cons.prems(1) show ?case by (metis foldl_Cons list.set_intros(2))
qed simp

lemma pair_occurrence_id:
  assumes "p \<in> set (buildExecutionPairs context)" and "oc \<in> set (ep_occurrences p)"
  shows "oc_id oc = step_id (oc_tx oc) (oc_eventIndex oc)"
proof -
  have ok: "pairs_ok (executionTransactions context) (foldl pair_tx [] (executionTransactions context))"
    by (rule pairs_fold_ok) (auto simp: pairs_ok_def)
  from assms(1) obtain h q where "(h, q) \<in> set (foldl pair_tx [] (executionTransactions context))" and "p = finish_pair q"
    by (auto simp: buildExecutionPairs_def)
  with pairs_okD [OF ok] assms(2) obtain tx where "(h, oc) \<in> set (tx_occurrences tx)" by fastforce
  then show ?thesis by (auto simp: tx_occurrences_iff dest!: mk_occurrence_Some)
qed

lemma hash_connections_apart:
  assumes "\<forall>s \<in> set steps. ts_id s = step_id (ts_tx s) (ts_eventIndex s)"
    and "\<forall>oc \<in> set (ep_occurrences p). oc_id oc = step_id (oc_tx oc) (oc_eventIndex oc)"
    and "c \<in> set (hash_connections p)"
  shows "apart steps c"
proof -
  from assms(3) obtain s t where "s \<in> set (ep_occurrences p)" "t \<in> set (ep_occurrences p)"
    and c: "tc_from c = oc_id s" "tc_to c = oc_id t" "dt_chain (oc_tx t) \<noteq> dt_chain (oc_tx s)"
    by (auto simp: hash_connections_def Let_def role_of_def)
  with assms(2) have "tc_from c = step_id (oc_tx s) (oc_eventIndex s)" "tc_to c = step_id (oc_tx t) (oc_eventIndex t)" by auto
  with c(3) assms(1) show ?thesis
    unfolding apart_def using step_id_inj txKey_chain by metis
qed

lemma replay_link_apart:
  assumes "\<forall>s \<in> set steps. ts_id s = step_id (ts_tx s) (ts_eventIndex s)"
    and "s \<in> set (replaySources rollupId steps call (dt_chain tx))" and "t \<in> set steps" and "txKey (ts_tx t) = txKey tx"
  shows "apart steps (replay_link s t a)"
proof -
  from assms(2) have "s \<in> set steps" and ne: "dt_chain (ts_tx s) \<noteq> dt_chain tx"
    by (auto simp: replaySources_def split: if_splits)
  with assms(1,3) have ids: "ts_id s = step_id (ts_tx s) (ts_eventIndex s)" "ts_id t = step_id (ts_tx t) (ts_eventIndex t)" by auto
  have "dt_chain (ts_tx t) = dt_chain tx" by (rule txKey_chain [OF assms(4)])
  with ids ne assms(1) show ?thesis
    unfolding apart_def replay_link_def using step_id_inj txKey_chain by (metis timeline_connection.select_convs(1,2))
qed

lemma evidence_connections_apart:
  assumes ids: "\<forall>s \<in> set steps. ts_id s = step_id (ts_tx s) (ts_eventIndex s)"
    and c: "c \<in> set (evidence_connections rollupId steps ev)"
  shows "apart steps c"
proof -
  define incoming where "incoming = incoming_calls (pl_entry (ee_plan ev))"
  from c consider oc where "c \<in> set (occurrence_connections rollupId steps incoming oc)"
    | "c \<in> set (immediate_connections rollupId steps incoming ev)"
    by (auto simp: evidence_connections_def Let_def incoming_def split: if_splits)
  then show ?thesis
  proof cases
    case 1
    then obtain t call s a where "t \<in> set (result_steps steps oc)" and s: "s \<in> set (replaySources rollupId steps call (dt_chain (ts_tx t)))"
      and c': "c = replay_link s t a"
      by (auto simp: occurrence_connections_def result_connections_def Let_def split: option.splits)
    then have "t \<in> set steps" by (auto simp: result_steps_def Let_def)
    from replay_link_apart [OF ids s this refl] c' show ?thesis by simp
  next
    case 2
    define completions where "completions = filter (\<lambda>st. txKey (ts_tx st) = txKey (pl_tx (ee_plan ev)) \<and> de_name (ts_event st) = ''EntryExecuted''
            \<and> hex_value (rolling (de_args (ts_event st))) = hex_value (rolling (pl_entry (ee_plan ev)))) steps"
    from 2 obtain call s a where one: "length completions = 1"
      and s: "s \<in> set (replaySources rollupId steps call (dt_chain (pl_tx (ee_plan ev))))" and c': "c = replay_link s (hd completions) a"
      by (auto simp: immediate_connections_def Let_def completions_def split: if_splits)
    then have "hd completions \<in> set completions" by (cases completions) auto
    then have "hd completions \<in> set steps" "txKey (ts_tx (hd completions)) = txKey (pl_tx (ee_plan ev))"
      unfolding completions_def by auto
    from replay_link_apart [OF ids s this] c' show ?thesis by simp
  qed
qed

section \<open>Built timelines\<close>

lemma building_step_id:
  assumes "building_ok s" and "st \<in> set (chain_steps (tm_l1 s @ tm_l2 s))"
  shows "ts_id st = step_id (ts_tx st) (ts_eventIndex st)"
proof -
  from assms(2) obtain t where "t \<in> set (tm_l1 s @ tm_l2 s)" and st: "st \<in> set (tt_steps t)"
    by (auto simp: chain_steps_def)
  with assms(1) have "transaction_ok t" by (auto simp: building_ok_def chain_ok_def)
  with st show ?thesis by (auto simp: transaction_ok_def)
qed

lemma mark_ambiguous_fields [simp]:
  "tc_from (mark_ambiguous steps cs c) = tc_from c" "tc_to (mark_ambiguous steps cs c) = tc_to c"
  by (simp_all add: mark_ambiguous_def)

lemma timeline_connections_ok:
  assumes "\<forall>s \<in> set steps. ts_id s = step_id (ts_tx s) (ts_eventIndex s)"
    and cs_def: "cs = timeline_connections rollupId steps (buildExecutionPairs context) evidence"
  shows "(\<forall>c \<in> set cs. crossing steps c) \<and> distinct (map ends cs)"
proof -
  define all where "all = concat (map hash_connections (buildExecutionPairs context)) @ concat (map (evidence_connections rollupId steps) evidence)"
  have "\<forall>c \<in> set all. apart steps c"
    using hash_connections_apart [OF assms(1)] pair_occurrence_id evidence_connections_apart [OF assms(1)]
    unfolding all_def by fastforce
  from addConnection_ok [OF this, of "[]"]
  have ok: "(\<forall>c \<in> set (foldl (addConnection steps) [] all). crossing steps c) \<and> distinct (map ends (foldl (addConnection steps) [] all))"
    by simp
  have cs: "cs = map (mark_ambiguous steps (foldl (addConnection steps) [] all)) (foldl (addConnection steps) [] all)"
    by (simp add: cs_def timeline_connections_def Let_def all_def)
  have "map ends cs = map ends (foldl (addConnection steps) [] all)"
    by (simp add: cs ends_def)
  with ok have "distinct (map ends cs)" by simp
  moreover have "\<forall>c \<in> set cs. crossing steps c" using ok by (auto simp: cs crossing_def)
  ultimately show ?thesis by blast
qed

lemma buildExecutionTimeline_Inr:
  assumes "buildExecutionTimeline rollupId isManager context selected = Inr tml"
  obtains s where "building_ok s" and "tl_l1 tml = tm_l1 s" and "tl_l2 tml = tm_l2 s" and "tl_steps tml = chain_steps (tm_l1 s @ tm_l2 s)"
    and "\<exists>evidence. tl_connections tml = timeline_connections rollupId (tl_steps tml) (buildExecutionPairs context) evidence"
proof -
  from assms obtain s oos evidence where add: "add_transactions isManager oos
      \<lparr>tm_seen = [], tm_l1 = [], tm_l2 = [], tm_order1 = 0, tm_order2 = 0\<rparr> (listed_transactions context selected) = Inr s"
    and tml: "tml = \<lparr>tl_l1 = tm_l1 s, tl_l2 = tm_l2 s,
      tl_connections = timeline_connections rollupId (chain_steps (tm_l1 s @ tm_l2 s)) (buildExecutionPairs context) evidence,
      tl_steps = chain_steps (tm_l1 s @ tm_l2 s)\<rparr>"
    unfolding buildExecutionTimeline_def Let_def res_bind_Inr_iff by blast
  have "building_ok s"
    by (rule add_transactions_ok [OF _ add]) (simp add: building_ok_def chain_ok_def numbered_def chain_steps_def)
  then show thesis by (rule that [of s]) (auto simp: tml)
qed

text \<open>C30. A timeline that is built is well-formed: the steps of each chain are numbered from one,
  every transaction is on its chain and shows exactly its protocol events in log order, step ids
  are different, and connections are different and lead from an existing step to an existing step
  of the other chain.\<close>
theorem timeline_well_formed:
  assumes "buildExecutionTimeline rollupId isManager context selected = Inr tml"
  shows "tl_steps tml = chain_steps (tl_l1 tml) @ chain_steps (tl_l2 tml) \<and> distinct (map ts_id (tl_steps tml)) \<and>
     map ts_order (chain_steps (tl_l1 tml)) = [1 ..< Suc (length (chain_steps (tl_l1 tml)))] \<and>
     map ts_order (chain_steps (tl_l2 tml)) = [1 ..< Suc (length (chain_steps (tl_l2 tml)))] \<and>
     (\<forall>t \<in> set (tl_l1 tml). dt_chain (tt_tx t) = L1) \<and> (\<forall>t \<in> set (tl_l2 tml). dt_chain (tt_tx t) = L2) \<and>
     (\<forall>t \<in> set (tl_l1 tml @ tl_l2 tml). mset (map ts_event (tt_steps t)) = mset (protocol_events (tt_tx t))
        \<and> sorted (map (\<lambda>s. rl_logIndex (de_raw (ts_event s))) (tt_steps t))) \<and>
     (\<forall>c \<in> set (tl_connections tml). \<exists>s \<in> set (tl_steps tml). \<exists>t \<in> set (tl_steps tml).
        ts_id s = tc_from c \<and> ts_id t = tc_to c \<and> dt_chain (ts_tx s) \<noteq> dt_chain (ts_tx t)) \<and>
     distinct (map (\<lambda>c. (tc_from c, tc_to c)) (tl_connections tml))"
proof -
  obtain s evidence where s: "building_ok s" and tml: "tl_l1 tml = tm_l1 s" "tl_l2 tml = tm_l2 s" "tl_steps tml = chain_steps (tm_l1 s @ tm_l2 s)"
    and cs: "tl_connections tml = timeline_connections rollupId (tl_steps tml) (buildExecutionPairs context) evidence"
    using buildExecutionTimeline_Inr [OF assms] by metis
  have "(\<forall>c \<in> set (tl_connections tml). crossing (tl_steps tml) c) \<and> distinct (map ends (tl_connections tml))"
    by (rule timeline_connections_ok [OF _ cs]) (use building_step_id [OF s] tml(3) in simp)
  moreover have "ends = (\<lambda>c. (tc_from c, tc_to c))" by (rule ext) (simp add: ends_def)
  moreover have "chain_ok L1 (tm_l1 s)" "chain_ok L2 (tm_l2 s)" using s by (simp_all add: building_ok_def)
  ultimately show ?thesis
    using step_id_distinct [OF s] unfolding tml crossing_def chain_ok_def numbered_def transaction_ok_def
    by (simp del: upt_Suc mset_map) blast
qed

definition sample_outgoing_tx :: debug_transaction where
  "sample_outgoing_tx = \<lparr>dt_chain = L1,
     dt_tx = \<lparr>rt_hash = ''0x9'', rt_from = ''0x3'', rt_to = Some ''0x41'', rt_input = ''0x'', rt_value = ''0x0'',
       rt_blockNumber = Some 3, rt_blockHash = Some ''0x4'', rt_transactionIndex = Some 0\<rparr>,
     dt_receipt = None,
     dt_events = [sample_exec_event ''CrossChainCallExecuted'' [(''crossChainCallHash'', JStr sample_call_hash)]],
     dt_payload = None, dt_warnings = []\<rparr>"

definition sample_pair_context :: debug_context where
  "sample_pair_context = \<lparr>dx_sourceChain = L2, dx_sourceBlock = None, dx_selected = Some sample_exec_tx,
     dx_blocks = [\<lparr>db_chain = L2, db_number = 7, db_hash = ''0x2'', db_parentHash = ''0x0'', db_timestamp = ''0x0'',
       db_gasUsed = ''0x0'', db_gasLimit = ''0x0'', db_transactions = [sample_exec_tx]\<rparr>,
       \<lparr>db_chain = L1, db_number = 3, db_hash = ''0x4'', db_parentHash = ''0x0'', db_timestamp = ''0x0'',
       db_gasUsed = ''0x0'', db_gasLimit = ''0x0'', db_transactions = [sample_outgoing_tx]\<rparr>],
     dx_settlements = [], dx_warnings = []\<rparr>"

lemma sample_built:
  "map_sum id (\<lambda>tml. (map ts_id (tl_steps tml), map ends (tl_connections tml)))
     (buildExecutionTimeline ''1'' (\<lambda>_ _. True) sample_pair_context None) =
   Inr ([''l1:0x9:0'', ''l2:0x1:0'', ''l2:0x1:1''], [(''l1:0x9:0'', ''l2:0x1:0'')])"
  by code_simp

theorem timeline_well_formed_witness:
  "\<exists>tml. buildExecutionTimeline ''1'' (\<lambda>_ _. True) sample_pair_context None = Inr tml \<and> length (tl_steps tml) = 3
     \<and> length (tl_connections tml) = 1 \<and> map ts_order (chain_steps (tl_l2 tml)) = [1 ..< Suc (length (chain_steps (tl_l2 tml)))]"
proof -
  obtain tml where tml: "buildExecutionTimeline ''1'' (\<lambda>_ _. True) sample_pair_context None = Inr tml"
    and "map ts_id (tl_steps tml) = [''l1:0x9:0'', ''l2:0x1:0'', ''l2:0x1:1'']" and "map ends (tl_connections tml) = [(''l1:0x9:0'', ''l2:0x1:0'')]"
    using sample_built by (cases "buildExecutionTimeline ''1'' (\<lambda>_ _. True) sample_pair_context None") auto
  then have "length (tl_steps tml) = 3" "length (tl_connections tml) = 1"
    by (metis length_map length_Cons list.size(3) numeral_3_eq_3, metis length_map length_Cons list.size(3) One_nat_def)
  with tml timeline_well_formed [OF tml] show ?thesis by blast
qed

end
