(* ===== verification/Live_Batches.thy ===== *)
theory Live_Batches
  imports Debug_Types "HOL-Library.Product_Lexorder"
begin

text \<open>
  \<open>fetchLiveBatchHistory\<close> of \<open>src/src/lib/executionDebugger.ts\<close>: the posted batches of the newest
  blocks, read in windows of at most 512 blocks, and the settlement data of each.
  One refresh sees the environment \<open>batch_env\<close>: the two heads, the logs of a block range and an
  address, the settlements of a block and the clock; a request gives a result or the message of
  its error. Responses of parallel requests are taken in the order of the requests, and
  \<open>lookups\<close>, which only avoids repeating a request, is not modelled.
\<close>

record live_batch =
  lb_transactionHash :: string
  lb_blockHash :: string
  lb_blockNumber :: int
  lb_logIndex :: int
  lb_registryAddress :: string
  lb_rollupIds :: js
  lb_l2BlockCount :: "nat option"
  lb_settlementCheckedAt :: "int option"
  lb_l2Range :: "(int \<times> int) option"
  lb_canonicalL2 :: "bool option"
  lb_l2Finalized :: "bool option"

record live_history =
  lh_batches :: "live_batch list"
  lh_l1Head :: int
  lh_l2Head :: "int option"
  lh_before :: "int option"
  lh_warnings :: "string list"
  lh_registryAddress :: "string option"

record batch_env =
  be_l1Head :: "string + int"
  be_l2Head :: "string + int"
  be_logs :: "int \<Rightarrow> int \<Rightarrow> string \<Rightarrow> string + (raw_log \<times> bool) list" \<comment> \<open>with the flag \<open>removed\<close>\<close>
  be_settlements :: "string \<Rightarrow> string + settlement list"
  be_now :: int

definition LIVE_BATCH_LIMIT :: nat where
  "LIVE_BATCH_LIMIT = 50"

section \<open>Reading posting logs\<close>

definition posted_batch :: "abi_lib \<Rightarrow> string \<Rightarrow> raw_log \<times> bool \<Rightarrow> live_batch option" where
  "posted_batch lib registry lr =
     (let log = fst lr; event = decodeProtocolLog lib L1 log
      in if snd lr \<or> de_name event \<noteq> ''BatchPosted'' \<or> registry \<noteq> [] \<and> \<not> same_text registry (rl_address log) then None
         else Some \<lparr>lb_transactionHash = rl_transactionHash log, lb_blockHash = rl_blockHash log, lb_blockNumber = rl_blockNumber log,
           lb_logIndex = rl_logIndex log, lb_registryAddress = rl_address log, lb_rollupIds = js_prop (de_args event) ''rollupIds'',
           lb_l2BlockCount = None, lb_settlementCheckedAt = None, lb_l2Range = None, lb_canonicalL2 = None, lb_l2Finalized = None\<rparr>)"

definition read_range :: "abi_lib \<Rightarrow> batch_env \<Rightarrow> string \<Rightarrow> int \<Rightarrow> int \<Rightarrow> string + live_batch list" where
  "read_range lib env registry a b =
     res_bind (be_logs env a b registry) (\<lambda>logs. Inr (List.map_filter (posted_batch lib registry) logs))"

definition batch_key :: "live_batch \<Rightarrow> string" where
  "batch_key b = js_lower (lb_transactionHash b)"

definition batch_order :: "live_batch \<Rightarrow> int \<times> int" where
  "batch_order b = (- lb_blockNumber b, - lb_logIndex b)"

definition newest :: "live_batch list \<Rightarrow> live_batch list" where
  "newest batches = take LIVE_BATCH_LIMIT (sort_key batch_order (map snd (jmap_set_all (map (\<lambda>b. (batch_key b, b)) batches) [])))"

definition page_start :: "int \<Rightarrow> int \<Rightarrow> int" where
  "page_start a to = (if to - a \<ge> 511 then to - 511 else a)"

text \<open>The overlap below a head is read downwards; the loop ends because every window is not empty.\<close>

function read_overlap :: "abi_lib \<Rightarrow> batch_env \<Rightarrow> string \<Rightarrow> int \<Rightarrow> int \<Rightarrow> string + live_batch list" where
  "read_overlap lib env registry a to =
     (if to \<ge> a then
        res_bind (read_range lib env registry (page_start a to) to) (\<lambda>bs.
          res_bind (read_overlap lib env registry a (page_start a to - 1)) (\<lambda>rest. Inr (bs @ rest)))
      else Inr [])"
  by pat_completeness auto

termination
  by (relation "measure (\<lambda>(lib, env, registry, a, to). nat (to + 1 - a))") (auto simp: page_start_def)

declare read_overlap.simps [simp del]

fun backfill :: "abi_lib \<Rightarrow> batch_env \<Rightarrow> string \<Rightarrow> nat \<Rightarrow> live_batch list \<Rightarrow> int option
    \<Rightarrow> string + live_batch list \<times> int option" where
  "backfill lib env registry 0 batches before = Inr (batches, before)"
| "backfill lib env registry (Suc pages) batches before =
     (case before of
        None \<Rightarrow> Inr (batches, None)
      | Some b \<Rightarrow>
          if length batches < LIVE_BATCH_LIMIT then
            (let a = (if b > 511 then b - 511 else 0)
             in res_bind (read_range lib env registry a b) (\<lambda>bs.
                  backfill lib env registry pages (newest (batches @ bs)) (if a > 0 then Some (a - 1) else None)))
          else Inr (batches, Some b))"

section \<open>Settlement data\<close>

definition or_else :: "'a option \<Rightarrow> 'a option \<Rightarrow> 'a option" where
  "or_else a b = (case a of None \<Rightarrow> b | Some x \<Rightarrow> a)"

definition merge_cached :: "(string, live_batch) jmap \<Rightarrow> live_batch \<Rightarrow> live_batch" where
  "merge_cached cached b =
     (case jmap_get cached (batch_key b) of
        None \<Rightarrow> b
      | Some old \<Rightarrow>
          if same_text (lb_blockHash old) (lb_blockHash b) then
            b\<lparr>lb_l2BlockCount := or_else (lb_l2BlockCount b) (lb_l2BlockCount old),
              lb_settlementCheckedAt := or_else (lb_settlementCheckedAt b) (lb_settlementCheckedAt old),
              lb_l2Range := or_else (lb_l2Range b) (lb_l2Range old),
              lb_canonicalL2 := or_else (lb_canonicalL2 b) (lb_canonicalL2 old),
              lb_l2Finalized := or_else (lb_l2Finalized b) (lb_l2Finalized old)\<rparr>
          else b)"

definition needs_settlement :: "int \<Rightarrow> live_batch \<Rightarrow> bool" where
  "needs_settlement now b \<longleftrightarrow> (lb_l2BlockCount b = None \<or> lb_l2Finalized b = Some False)
     \<and> now - (case lb_settlementCheckedAt b of None \<Rightarrow> 0 | Some t \<Rightarrow> t) \<ge> 30000"

definition apply_settlement :: "settlement list \<Rightarrow> live_batch \<Rightarrow> live_batch" where
  "apply_settlement settlements b =
     (case find (\<lambda>s. same_text (sl_l1TransactionHash s) (lb_transactionHash b)) settlements of
        None \<Rightarrow> b
      | Some s \<Rightarrow> b\<lparr>lb_l2Range := settlementRange s, lb_canonicalL2 := Some (sl_canonicalL2 s),
          lb_l2Finalized := Some (sl_l2Finalized s),
          lb_l2BlockCount := (if \<not> sl_canonicalL2 s then None else Some (length (sl_l2Blocks s)))\<rparr>)"

text \<open>The batches with the mark of those in \<open>missing\<close>, and \<open>indexError\<close>.\<close>

type_synonym lookup_state = "(bool \<times> live_batch) list \<times> string option"

definition on_block :: "string \<Rightarrow> (live_batch \<Rightarrow> live_batch) \<Rightarrow> (bool \<times> live_batch) list \<Rightarrow> (bool \<times> live_batch) list" where
  "on_block h f work = map (\<lambda>(m, b). (m, if m \<and> same_text (lb_blockHash b) h then f b else b)) work"

definition lookup_hash :: "batch_env \<Rightarrow> bool \<Rightarrow> lookup_state \<Rightarrow> string \<Rightarrow> lookup_state" where
  "lookup_hash env enabled s h =
     (let (work, err) = (if enabled then
            (case be_settlements env h of
               Inl msg \<Rightarrow> (fst s, or_else (snd s) (Some msg))
             | Inr settlements \<Rightarrow> (on_block h (apply_settlement settlements) (fst s), snd s))
          else s)
      in (on_block h (\<lambda>b. b\<lparr>lb_settlementCheckedAt := Some (be_now env)\<rparr>) work, err))"

text \<open>\<open>mapLimited\<close>: groups of eight requests.\<close>

fun in_groups :: "nat \<Rightarrow> 'a list \<Rightarrow> 'a list list" where
  "in_groups k [] = []"
| "in_groups k (x # xs) = take (Suc k) (x # xs) # in_groups k (drop k xs)"

definition no_error :: "string option \<Rightarrow> bool" where
  "no_error err = (case err of None \<Rightarrow> True | Some msg \<Rightarrow> msg = [])" \<comment> \<open>\<open>!indexError\<close>\<close>

definition lookup_group :: "batch_env \<Rightarrow> lookup_state \<Rightarrow> string list \<Rightarrow> lookup_state" where
  "lookup_group env s hs = foldl (lookup_hash env (no_error (snd s))) s hs"

definition enrich ::
  "batch_env \<Rightarrow> (string, live_batch) jmap \<Rightarrow> string option \<Rightarrow> live_batch list \<Rightarrow> live_batch list \<times> string option" where
  "enrich env cached err batches =
     (let merged = map (merge_cached cached) batches;
          l2_ok = (case be_l2Head env of Inr n \<Rightarrow> True | Inl e \<Rightarrow> False);
          work = map (\<lambda>b. (l2_ok \<and> needs_settlement (be_now env) b, b)) merged;
          hashes = jset_of (map (lb_blockHash \<circ> snd) (filter fst work));
          (work', err') = foldl (lookup_group env) (work, err) (in_groups 7 hashes)
      in (map snd work', err'))"

definition cache_all :: "live_batch list \<Rightarrow> (string, live_batch) jmap \<Rightarrow> (string, live_batch) jmap" where
  "cache_all batches cached = jmap_set_all (map (\<lambda>b. (batch_key b, b)) batches) cached"

section \<open>One refresh\<close>

definition overlap_start :: "int \<Rightarrow> int" where
  "overlap_start h = (if h > 12 then h - 12 else 0)"

definition refill_before :: "live_history \<Rightarrow> int \<Rightarrow> live_batch list \<Rightarrow> int option" where
  "refill_before p a batches =
     (if length batches < LIVE_BATCH_LIMIT \<and> length (lh_batches p) = LIVE_BATCH_LIMIT then
        (let oldest = lb_blockNumber (last (lh_batches p))
         in if a = 0 then None else Some (if oldest < a then oldest else a - 1))
      else lh_before p)"

definition start_batches :: "abi_lib \<Rightarrow> batch_env \<Rightarrow> string \<Rightarrow> live_history option \<Rightarrow> int \<Rightarrow> string + live_batch list \<times> int option" where
  "start_batches lib env registry previous head =
     (case previous of
        None \<Rightarrow> Inr ([], Some head)
      | Some p \<Rightarrow>
          if head \<ge> lh_l1Head p then
            (let a = overlap_start (lh_l1Head p)
             in res_bind (read_overlap lib env registry a head) (\<lambda>bs.
                  let batches = newest (filter (\<lambda>b. lb_blockNumber b < a) (lh_batches p) @ bs)
                  in Inr (batches, refill_before p a batches)))
          else Inr ([], Some head))"

definition start_registry :: "debug_config \<Rightarrow> live_history option \<Rightarrow> string" where
  "start_registry cfg previous =
     js_or (case previous of None \<Rightarrow> [] | Some p \<Rightarrow> (case lh_registryAddress p of None \<Rightarrow> [] | Some r \<Rightarrow> r)) (cfg_rollupsAddress cfg)"

definition old_batches :: "live_history option \<Rightarrow> live_batch list" where
  "old_batches previous = (case previous of None \<Rightarrow> [] | Some p \<Rightarrow> lh_batches p)"

text \<open>Batches, \<open>before\<close>, the registry and \<open>indexError\<close> after the optional restart with the registry
  that the first settled batch shows.\<close>

definition follow_registry ::
  "abi_lib \<Rightarrow> batch_env \<Rightarrow> int \<Rightarrow> (string, live_batch) jmap \<Rightarrow> string \<Rightarrow> live_batch list \<Rightarrow> int option \<Rightarrow> string option
    \<Rightarrow> string + live_batch list \<times> int option \<times> string \<times> string option" where
  "follow_registry lib env head cached registry batches before err =
     (if registry \<noteq> [] then Inr (batches, before, registry, err)
      else case find (\<lambda>b. lb_l2BlockCount b \<noteq> None) batches of
        None \<Rightarrow> Inr (batches, before, registry, err)
      | Some indexed \<Rightarrow>
          (let registry' = lb_registryAddress indexed
           in res_bind (backfill lib env registry' 8 (filter (\<lambda>b. same_text (lb_registryAddress b) registry') batches) (Some head))
                (\<lambda>(batches', before').
                  let (batches'', err') = enrich env cached err batches'
                  in Inr (batches'', before', registry', err'))))"

definition l2_warning :: "batch_env \<Rightarrow> string list" where
  "l2_warning env = (case be_l2Head env of Inr n \<Rightarrow> []
     | Inl msg \<Rightarrow> [''L2 RPC: '' @ msg @ ''. L1 batch history remains available.''])"

definition index_warning :: "string option \<Rightarrow> string list" where
  "index_warning err = (case err of None \<Rightarrow> []
     | Some msg \<Rightarrow> if no_error err then [] else [''Batch block counts unavailable: '' @ msg @ ''. Batch history remains available.''])"

definition fetchLiveBatchHistory ::
  "debug_config \<Rightarrow> abi_lib \<Rightarrow> batch_env \<Rightarrow> live_history option \<Rightarrow> string + live_history" where
  "fetchLiveBatchHistory cfg lib env previous =
     (case be_l1Head env of
        Inl msg \<Rightarrow> Inl (''L1 batch history unavailable: '' @ msg)
      | Inr head \<Rightarrow>
          res_bind (start_batches lib env (start_registry cfg previous) previous head) (\<lambda>(batches0, before0).
          res_bind (backfill lib env (start_registry cfg previous) 8 batches0 before0) (\<lambda>(batches1, before1).
            let cached = cache_all (old_batches previous) [];
                (batches2, err) = enrich env cached None batches1
            in res_bind (follow_registry lib env head (cache_all batches2 cached) (start_registry cfg previous) batches2 before1 err)
                 (\<lambda>(batches, before, registry, err').
                   Inr \<lparr>lh_batches = batches, lh_l1Head = head,
                     lh_l2Head = (case be_l2Head env of Inr n \<Rightarrow> Some n | Inl e \<Rightarrow> Option.bind previous lh_l2Head),
                     lh_before = before, lh_warnings = l2_warning env @ index_warning err',
                     lh_registryAddress = (if registry = [] then None else Some registry)\<rparr>))))"

end
