(* ===== verification/Live_Properties.thy ===== *)
theory Live_Properties
  imports Live_Batches
begin

text \<open>
  The live batch history: a refresh shows the newest batches of everything it has read, and
  repeated refreshes reach the first block unless fifty batches are found.
\<close>

section \<open>The newest batches\<close>

definition unique_batches :: "live_batch list \<Rightarrow> live_batch list" where
  "unique_batches bs = map snd (jmap_set_all (map (\<lambda>b. (batch_key b, b)) bs) [])"

lemma jmap_set_all_entries:
  "distinct (jmap_keys m) \<Longrightarrow> distinct (jmap_keys (jmap_set_all kvs m))
     \<and> set (jmap_keys (jmap_set_all kvs m)) = set (jmap_keys m) \<union> fst ` set kvs
     \<and> set (jmap_set_all kvs m) \<subseteq> set m \<union> set kvs"
proof (induction kvs arbitrary: m)
  case (Cons kv kvs)
  have step: "jmap_set_all (kv # kvs) m = jmap_set_all kvs (jmap_set (fst kv) (snd kv) m)"
    by (simp add: jmap_set_all_def split_def)
  have "set (jmap_set (fst kv) (snd kv) m) \<subseteq> insert kv (set m)"
    using set_jmap_set [of "fst kv" "snd kv" m] by simp
  moreover have "distinct (jmap_keys (jmap_set (fst kv) (snd kv) m))"
    using Cons.prems by (rule jm.distinct_put)
  ultimately show ?case
    using Cons.IH [of "jmap_set (fst kv) (snd kv) m"] by (auto simp: step jm.set_keys_put)
qed (simp add: jmap_set_all_def)

lemma unique_batches_props:
  "batch_key ` set (unique_batches bs) = batch_key ` set bs"
  "set (unique_batches bs) \<subseteq> set bs"
  "distinct (map batch_key (unique_batches bs))"
proof -
  define m where "m = jmap_set_all (map (\<lambda>b. (batch_key b, b)) bs) []"
  have m: "distinct (jmap_keys m)" "set (jmap_keys m) = batch_key ` set bs" "set m \<subseteq> (\<lambda>b. (batch_key b, b)) ` set bs"
    using jmap_set_all_entries [of "[]" "map (\<lambda>b. (batch_key b, b)) bs"] by (auto simp: m_def image_image)
  have keys: "map batch_key (unique_batches bs) = jmap_keys m"
    using m(3) by (auto simp: unique_batches_def m_def [symmetric] jmap_keys_def)
  show "distinct (map batch_key (unique_batches bs))" using m(1) keys by simp
  show "batch_key ` set (unique_batches bs) = batch_key ` set bs" using m(2) keys by (metis list.set_map)
  show "set (unique_batches bs) \<subseteq> set bs" using m(3) by (auto simp: unique_batches_def m_def [symmetric])
qed

lemma newest_eq: "newest bs = take LIVE_BATCH_LIMIT (sort_key batch_order (unique_batches bs))"
  by (simp add: newest_def unique_batches_def)

lemma newest_length: "length (newest bs) \<le> LIVE_BATCH_LIMIT"
  by (simp add: newest_eq)

lemma newest_subset: "set (newest bs) \<subseteq> set bs"
  using unique_batches_props(2) [of bs] set_take_subset by (fastforce simp: newest_eq)

lemma newest_distinct: "distinct (map batch_key (newest bs))"
proof -
  have "distinct (map batch_key (sort_key batch_order (unique_batches bs)))"
    using unique_batches_props(3) [of bs] by (simp add: distinct_map)
  then show ?thesis by (simp add: newest_eq take_map [symmetric] distinct_take)
qed

lemma newest_sorted: "sorted (map batch_order (newest bs))"
  by (simp add: newest_eq take_map [symmetric] sorted_wrt_take)

lemma newest_covers:
  assumes "x \<in> set bs"
  obtains y where "y \<in> set bs" and "batch_key y = batch_key x"
    and "y \<in> set (newest bs) \<or> length (newest bs) = LIVE_BATCH_LIMIT \<and> (\<forall>z \<in> set (newest bs). batch_order z \<le> batch_order y)"
proof -
  define s where "s = sort_key batch_order (unique_batches bs)"
  have "batch_key x \<in> batch_key ` set (unique_batches bs)" using assms unique_batches_props(1) by blast
  then obtain y where y: "y \<in> set s" "batch_key y = batch_key x" by (auto simp: s_def)
  have "y \<in> set bs" using y(1) unique_batches_props(2) by (auto simp: s_def)
  have "y \<in> set (take LIVE_BATCH_LIMIT s) \<or> y \<in> set (drop LIVE_BATCH_LIMIT s)"
    using y(1) by (metis Un_iff append_take_drop_id set_append)
  moreover have "length (take LIVE_BATCH_LIMIT s) = LIVE_BATCH_LIMIT \<and> (\<forall>z \<in> set (take LIVE_BATCH_LIMIT s). batch_order z \<le> batch_order y)"
    if "y \<in> set (drop LIVE_BATCH_LIMIT s)"
  proof -
    have "drop LIVE_BATCH_LIMIT s \<noteq> []" using that by auto
    moreover have "sorted (map batch_order (take LIVE_BATCH_LIMIT s) @ map batch_order (drop LIVE_BATCH_LIMIT s))"
      by (simp add: map_append [symmetric] s_def del: map_append)
    ultimately show ?thesis using that by (auto simp: sorted_append)
  qed
  ultimately show thesis using that [OF \<open>y \<in> set bs\<close> y(2)] by (auto simp: newest_eq s_def)
qed

section \<open>Backfill\<close>

text \<open>The posted batches of a fixed log list.\<close>

definition posted :: "abi_lib \<Rightarrow> string \<Rightarrow> (raw_log \<times> bool) list \<Rightarrow> live_batch list" where
  "posted lib r logs = List.map_filter (posted_batch lib r) logs"

definition serves :: "batch_env \<Rightarrow> string \<Rightarrow> (raw_log \<times> bool) list \<Rightarrow> bool" where
  "serves env r logs \<longleftrightarrow> (\<forall>a b. be_logs env a b r = Inr (filter (\<lambda>l. a \<le> rl_blockNumber (fst l) \<and> rl_blockNumber (fst l) \<le> b) logs))"

lemma posted_batch_block: "posted_batch lib r lr = Some b \<Longrightarrow> lb_blockNumber b = rl_blockNumber (fst lr)"
  by (auto simp: posted_batch_def Let_def split: if_splits)

lemma posted_iff: "x \<in> set (posted lib r logs) \<longleftrightarrow> (\<exists>l \<in> set logs. posted_batch lib r l = Some x)"
  by (force simp: posted_def map_filter_def)

lemma read_range_set:
  assumes "serves env r logs"
  obtains bs where "read_range lib env r a b = Inr bs" and "set bs = {x \<in> set (posted lib r logs). a \<le> lb_blockNumber x \<and> lb_blockNumber x \<le> b}"
proof -
  have "read_range lib env r a b = Inr (posted lib r (filter (\<lambda>l. a \<le> rl_blockNumber (fst l) \<and> rl_blockNumber (fst l) \<le> b) logs))"
    using assms by (simp add: read_range_def serves_def posted_def)
  then show thesis using that posted_batch_block by (fastforce simp: posted_iff)
qed

text \<open>The overlap covers every block from its start to the head.\<close>

lemma read_overlap_set:
  assumes "serves env r logs"
  shows "\<exists>bs. read_overlap lib env r a b = Inr bs \<and> set bs = {x \<in> set (posted lib r logs). a \<le> lb_blockNumber x \<and> lb_blockNumber x \<le> b}"
  using assms
proof (induction lib env r a b rule: read_overlap.induct)
  case (1 lib env r a to)
  show ?case
  proof (cases "to \<ge> a")
    case True
    obtain bs where bs: "read_range lib env r (page_start a to) to = Inr bs"
      "set bs = {x \<in> set (posted lib r logs). page_start a to \<le> lb_blockNumber x \<and> lb_blockNumber x \<le> to}" using read_range_set [OF 1(2)] .
    obtain rest where rest: "read_overlap lib env r a (page_start a to - 1) = Inr rest"
      "set rest = {x \<in> set (posted lib r logs). a \<le> lb_blockNumber x \<and> lb_blockNumber x \<le> page_start a to - 1}" using 1(1) [OF True 1(2)] by blast
    have "a \<le> page_start a to" by (auto simp: page_start_def)
    with True bs rest show ?thesis by (auto simp: read_overlap.simps [of lib env r a to] page_start_def split: if_splits)
  next
    case False
    then show ?thesis by (auto simp: read_overlap.simps [of lib env r a to])
  qed
qed

text \<open>A batch without its settlement data, which come later.\<close>

definition batch_id :: "live_batch \<Rightarrow> string \<times> string \<times> int \<times> int \<times> string" where
  "batch_id b = (lb_transactionHash b, lb_blockHash b, lb_blockNumber b, lb_logIndex b, lb_registryAddress b)"

lemma batch_id_eq: "batch_id y = batch_id z \<Longrightarrow> batch_key y = batch_key z \<and> lb_blockNumber y = lb_blockNumber z"
  by (simp add: batch_id_def batch_key_def)

text \<open>All posted batches above \<open>before\<close> are shown, or the list is full of later ones.\<close>

definition shown :: "live_batch list \<Rightarrow> live_batch \<Rightarrow> bool" where
  "shown bs x \<longleftrightarrow> (\<exists>y \<in> set bs. batch_key y = batch_key x)
     \<or> length bs = LIVE_BATCH_LIMIT \<and> (\<forall>y \<in> set bs. lb_blockNumber y \<ge> lb_blockNumber x)"

definition one_block :: "live_batch list \<Rightarrow> bool" where
  "one_block ps \<longleftrightarrow> (\<forall>x \<in> set ps. \<forall>y \<in> set ps. batch_key x = batch_key y \<longrightarrow> lb_blockNumber x = lb_blockNumber y)"

definition above :: "int option \<Rightarrow> live_batch \<Rightarrow> bool" where
  "above before x \<longleftrightarrow> (case before of None \<Rightarrow> True | Some b \<Rightarrow> lb_blockNumber x > b)"

definition window_ok :: "live_batch list \<Rightarrow> int \<Rightarrow> live_batch list \<Rightarrow> int option \<Rightarrow> bool" where
  "window_ok ps head bs before \<longleftrightarrow> batch_id ` set bs \<subseteq> batch_id ` set ps \<and> length bs \<le> LIVE_BATCH_LIMIT \<and>
     distinct (map batch_key bs) \<and> sorted (map batch_order bs) \<and>
     (\<forall>x \<in> set ps. lb_blockNumber x \<le> head \<longrightarrow> above before x \<longrightarrow> shown bs x)"

text \<open>The cursor is below the list, and after a page was read also below the next overlap.\<close>

definition cursor_weak :: "int \<Rightarrow> live_batch list \<Rightarrow> int option \<Rightarrow> bool" where
  "cursor_weak head bs before \<longleftrightarrow> (\<forall>b. before = Some b \<longrightarrow> 0 \<le> b \<and> b \<le> head \<and> (\<forall>y \<in> set bs. b \<le> lb_blockNumber y))"

definition cursor_ok :: "int \<Rightarrow> live_batch list \<Rightarrow> int option \<Rightarrow> bool" where
  "cursor_ok head bs before \<longleftrightarrow> (\<forall>b. before = Some b \<longrightarrow> 0 \<le> b \<and> b < head - 12 \<and> (\<forall>y \<in> set bs. b < lb_blockNumber y))"

lemma cursor_ok_weak: "cursor_ok head bs before \<Longrightarrow> cursor_weak head bs before"
  by (force simp: cursor_ok_def cursor_weak_def)

lemma batch_order_block: "batch_order z \<le> batch_order y \<Longrightarrow> lb_blockNumber z \<ge> lb_blockNumber y"
  by (auto simp: batch_order_def less_eq_prod_def)

lemma one_block_ids:
  assumes "one_block ps" and "batch_id ` set bs \<subseteq> batch_id ` set ps" and "x \<in> set ps" "y \<in> set bs" "batch_key y = batch_key x"
  shows "lb_blockNumber y = lb_blockNumber x"
proof -
  from assms(2,4) obtain z where "z \<in> set ps" "batch_id y = batch_id z" by blast
  with batch_id_eq assms(1,3,5) show ?thesis unfolding one_block_def by metis
qed

text \<open>A batch of a list is shown among the newest of the list.\<close>

lemma newest_shown:
  assumes "one_block ps" and sub: "batch_id ` set bs \<subseteq> batch_id ` set ps" and x: "x \<in> set ps" and z: "z \<in> set bs" "batch_key z = batch_key x"
  shows "shown (newest bs) x"
proof -
  obtain y where y: "y \<in> set bs" "batch_key y = batch_key z"
    "y \<in> set (newest bs) \<or> length (newest bs) = LIVE_BATCH_LIMIT \<and> (\<forall>u \<in> set (newest bs). batch_order u \<le> batch_order y)"
    using newest_covers [OF z(1)] by blast
  have "lb_blockNumber y = lb_blockNumber x"
    using one_block_ids [OF assms(1) sub x y(1)] y(2) z(2) by simp
  with y z show ?thesis unfolding shown_def using batch_order_block by metis
qed

lemma newest_window:
  assumes "batch_id ` set bs \<subseteq> batch_id ` set ps" and "\<And>x. x \<in> set ps \<Longrightarrow> lb_blockNumber x \<le> head \<Longrightarrow> above before x \<Longrightarrow> shown (newest bs) x"
  shows "window_ok ps head (newest bs) before"
  using assms newest_subset [of bs] newest_length newest_distinct newest_sorted unfolding window_ok_def by blast

lemma page_ok:
  assumes w: "window_ok ps head bs (Some b)" and one: "one_block ps" and full: "length bs < LIVE_BATCH_LIMIT"
    and page: "set page = {x \<in> set ps. a \<le> lb_blockNumber x \<and> lb_blockNumber x \<le> b}"
    and a: "(\<forall>x \<in> set ps. 0 \<le> lb_blockNumber x)"
  shows "window_ok ps head (newest (bs @ page)) (if a > 0 then Some (a - 1) else None)"
proof (rule newest_window)
  show sub: "batch_id ` set (bs @ page) \<subseteq> batch_id ` set ps" using w page by (auto simp: window_ok_def)
  fix x assume x: "x \<in> set ps" "lb_blockNumber x \<le> head" "above (if a > 0 then Some (a - 1) else None) x"
  have "\<exists>z \<in> set (bs @ page). batch_key z = batch_key x"
  proof (cases "lb_blockNumber x > b")
    case True
    with w x full show ?thesis by (auto simp: window_ok_def above_def shown_def)
  next
    case False
    with x a have "x \<in> set page" by (auto simp: page above_def split: if_splits)
    then show ?thesis by auto
  qed
  then show "shown (newest (bs @ page)) x" using newest_shown [OF one sub x(1)] by blast
qed

lemma page_cursor:
  assumes "cursor_weak head bs (Some b)" and "\<forall>x \<in> set page. a \<le> lb_blockNumber x" and "a = (if b > 511 then b - 511 else 0)"
  shows "cursor_ok head (newest (bs @ page)) (if a > 0 then Some (a - 1) else None)"
  using assms newest_subset [of "bs @ page"] by (force simp: cursor_weak_def cursor_ok_def)

lemma backfill_ok:
  assumes "serves env r logs" and one: "one_block (posted lib r logs)" and pos: "\<forall>x \<in> set (posted lib r logs). 0 \<le> lb_blockNumber x"
  shows "window_ok (posted lib r logs) head bs before \<Longrightarrow>
     cursor_ok head bs before \<or> 0 < pages \<and> length bs < LIVE_BATCH_LIMIT \<and> cursor_weak head bs before \<Longrightarrow>
     \<exists>bs' before'. backfill lib env r pages bs before = Inr (bs', before') \<and> window_ok (posted lib r logs) head bs' before' \<and> cursor_ok head bs' before'"
proof (induction pages arbitrary: bs before)
  case (Suc pages)
  show ?case
  proof (cases before)
    case None
    with Suc.prems(1) show ?thesis by (auto simp: cursor_ok_def)
  next
    case (Some b)
    show ?thesis
    proof (cases "length bs < LIVE_BATCH_LIMIT")
      case True
      define a where "a = (if b > 511 then b - 511 else 0)"
      obtain page where page: "read_range lib env r a b = Inr page"
        "set page = {x \<in> set (posted lib r logs). a \<le> lb_blockNumber x \<and> lb_blockNumber x \<le> b}"
        using read_range_set [OF assms(1)] .
      have "cursor_weak head bs (Some b)" using Suc.prems(2) Some cursor_ok_weak by blast
      from page_cursor [OF this _ a_def, of page] page(2)
      have "cursor_ok head (newest (bs @ page)) (if a > 0 then Some (a - 1) else None)" by simp
      with page_ok [OF Suc.prems(1) [unfolded Some] one True page(2) pos] Suc.IH page(1) True Some show ?thesis
        by (simp add: a_def [symmetric])
    next
      case False
      with Some Suc.prems show ?thesis by auto
    qed
  qed
qed auto

section \<open>The start of a later refresh\<close>

text \<open>Two views of the chain agree on the blocks that are more than 12 blocks below a head.\<close>

definition agree_below :: "int \<Rightarrow> live_batch list \<Rightarrow> live_batch list \<Rightarrow> bool" where
  "agree_below head ps qs \<longleftrightarrow> {x \<in> set ps. lb_blockNumber x < head - 12} = {x \<in> set qs. lb_blockNumber x < head - 12}"

lemma last_oldest:
  assumes "sorted (map batch_order bs)" and "y \<in> set bs"
  shows "lb_blockNumber (last bs) \<le> lb_blockNumber y"
proof -
  from assms(2) obtain i where i: "i < length bs" "bs ! i = y" by (auto simp: in_set_conv_nth)
  then have "last bs = bs ! (length bs - 1)" by (cases bs) (auto simp: last_conv_nth)
  moreover have "map batch_order bs ! i \<le> map batch_order bs ! (length bs - 1)" using i by (intro sorted_nth_mono [OF assms(1)]) auto
  ultimately show ?thesis using i batch_order_block [of y "last bs"] by simp
qed

lemma later_start:
  assumes w: "window_ok ps (lh_l1Head p) (lh_batches p) (lh_before p)" and cur: "cursor_ok (lh_l1Head p) (lh_batches p) (lh_before p)"
    and one: "one_block ps" "one_block qs" and pos: "\<forall>x \<in> set ps \<union> set qs. 0 \<le> lb_blockNumber x" and agree: "agree_below (lh_l1Head p) ps qs"
    and head: "0 \<le> lh_l1Head p" "lh_l1Head p \<le> head" and a: "a = overlap_start (lh_l1Head p)"
    and page: "set page = {x \<in> set qs. a \<le> lb_blockNumber x \<and> lb_blockNumber x \<le> head}"
    and bs: "bs = newest (filter (\<lambda>b. lb_blockNumber b < a) (lh_batches p) @ page)" and before: "before = refill_before p a bs"
  shows "window_ok qs head bs before \<and> (cursor_ok head bs before \<or> length bs < LIVE_BATCH_LIMIT \<and> cursor_weak head bs before)"
proof (rule conjI)
  let ?P = "lh_batches p" let ?all = "filter (\<lambda>b. lb_blockNumber b < a) ?P @ page"
  have a0: "0 \<le> a" "a \<le> lh_l1Head p" "lh_l1Head p - 12 \<le> a" "a \<le> 0 \<or> a = lh_l1Head p - 12" using a head(1) by (auto simp: overlap_start_def split: if_splits)
  have same: "x \<in> set ps \<longleftrightarrow> x \<in> set qs" if "lb_blockNumber x < a" "0 \<le> lb_blockNumber x" for x
    using agree that a0 by (auto simp: agree_below_def)
  have kept: "batch_id y \<in> batch_id ` set qs" if y: "y \<in> set ?P" "lb_blockNumber y < a" for y
  proof -
    from w y obtain x where x: "x \<in> set ps" "batch_id y = batch_id x" unfolding window_ok_def by blast
    with same [of x] batch_id_eq y pos show ?thesis by (metis UnI1 imageI)
  qed
  have sub: "batch_id ` set ?all \<subseteq> batch_id ` set qs" using kept page by auto
  have bs_sub: "set bs \<subseteq> {y \<in> set ?P. lb_blockNumber y < a} \<union> set page" using newest_subset [of ?all] bs by auto
  note refill = before [unfolded refill_before_def Let_def]
  show "window_ok qs head bs before" unfolding bs
  proof (rule newest_window [OF sub], fold bs)
    fix x assume x: "x \<in> set qs" "lb_blockNumber x \<le> head" "above before x"
    show "shown bs x"
    proof (cases "lb_blockNumber x < a")
      case False
      with x page have "x \<in> set ?all" by simp
      from newest_shown [OF one(2) sub x(1) this] show ?thesis by (simp add: bs)
    next
      case True
      with same x(1) pos have xp: "x \<in> set ps" "0 \<le> lb_blockNumber x" "lb_blockNumber x \<le> lh_l1Head p" using a0 by auto
      show ?thesis
      proof (cases "\<exists>y \<in> set ?P. batch_key y = batch_key x")
        case yes: True
        then obtain y where y: "y \<in> set ?P" "batch_key y = batch_key x" by blast
        with one_block_ids [OF one(1) _ xp(1), of ?P] w have "lb_blockNumber y = lb_blockNumber x" by (auto simp: window_ok_def)
        with y True have "y \<in> set ?all" by simp
        from newest_shown [OF one(2) sub x(1) this y(2)] show ?thesis by (simp add: bs)
      next
        case no: False
        have full: "length ?P = LIVE_BATCH_LIMIT \<and> (\<forall>y \<in> set ?P. lb_blockNumber x \<le> lb_blockNumber y)" if "above (lh_before p) x"
          using w xp no that unfolding window_ok_def shown_def by blast
        show ?thesis
        proof (cases "length bs < LIVE_BATCH_LIMIT \<and> length ?P = LIVE_BATCH_LIMIT")
          case True
          have ne: "?P \<noteq> []" using True by (auto simp: LIVE_BATCH_LIMIT_def)
          then have "lb_blockNumber (last ?P) < lb_blockNumber x \<and> lb_blockNumber (last ?P) < a"
            using x(3) refill True \<open>lb_blockNumber x < a\<close> xp(2) a0(1) by (auto simp: above_def split: if_splits)
          moreover have last: "last ?P \<in> set ?P" using ne by simp
          ultimately have "\<not> above (lh_before p) x" using full by fastforce
          then obtain b where "lh_before p = Some b" "lb_blockNumber x \<le> b" by (auto simp: above_def split: option.splits)
          with cur last have "lb_blockNumber x < lb_blockNumber (last ?P)" by (force simp: cursor_ok_def)
          with \<open>lb_blockNumber (last ?P) < lb_blockNumber x \<and> lb_blockNumber (last ?P) < a\<close> show ?thesis by simp
        next
          case False
          then have "before = lh_before p" using refill by auto
          with full x(3) False have f: "\<forall>y \<in> set ?P. lb_blockNumber x \<le> lb_blockNumber y" "length bs = LIVE_BATCH_LIMIT"
            using newest_length [of ?all] bs by auto
          have "lb_blockNumber x \<le> lb_blockNumber y" if "y \<in> set bs" for y using that bs_sub f(1) True page by auto
          with f(2) show ?thesis by (simp add: shown_def)
        qed
      qed
    qed
  qed
  show "cursor_ok head bs before \<or> length bs < LIVE_BATCH_LIMIT \<and> cursor_weak head bs before"
  proof (cases "length bs < LIVE_BATCH_LIMIT \<and> length ?P = LIVE_BATCH_LIMIT")
    case False
    then have "before = lh_before p" using refill by auto
    moreover have "cursor_ok head bs (lh_before p)"
      using cur head(2) bs_sub a0(3) page unfolding cursor_ok_def by fastforce
    ultimately show ?thesis by simp
  next
    case True
    then have ne: "?P \<noteq> []" by (auto simp: LIVE_BATCH_LIMIT_def)
    from w have old: "lb_blockNumber (last ?P) \<le> lb_blockNumber y" if "y \<in> set ?P" for y using last_oldest that by (auto simp: window_ok_def)
    have nonneg: "0 \<le> lb_blockNumber (last ?P)"
    proof -
      from w ne obtain x where "x \<in> set ps" "batch_id (last ?P) = batch_id x" unfolding window_ok_def by (meson image_iff last_in_set subsetD imageI)
      with batch_id_eq pos show ?thesis by (metis UnI1)
    qed
    have "cursor_weak head bs before"
      using refill True bs_sub page old nonneg a0 head(2) unfolding cursor_weak_def by (fastforce split: if_splits)
    with True show ?thesis by simp
  qed
qed

section \<open>Settlement data keep the batches\<close>

lemma on_block_ids: "(\<And>b. batch_id (f b) = batch_id b) \<Longrightarrow> map (batch_id \<circ> snd) (on_block h f work) = map (batch_id \<circ> snd) work"
  by (auto simp: on_block_def)

lemma apply_settlement_id: "batch_id (apply_settlement ss b) = batch_id b"
  by (auto simp: apply_settlement_def batch_id_def split: option.split)

lemma lookup_hash_ids: "map (batch_id \<circ> snd) (fst (lookup_hash env enabled s h)) = map (batch_id \<circ> snd) (fst s)"
proof -
  have checked: "batch_id (b\<lparr>lb_settlementCheckedAt := t\<rparr>) = batch_id b" for b t by (simp add: batch_id_def)
  show ?thesis
    by (cases "be_settlements env h")
       (auto simp: lookup_hash_def on_block_ids [OF checked] on_block_ids [OF apply_settlement_id] split_def)
qed

lemma lookup_group_ids: "map (batch_id \<circ> snd) (fst (lookup_group env s hs)) = map (batch_id \<circ> snd) (fst s)"
proof -
  have "map (batch_id \<circ> snd) (fst (foldl (lookup_hash env e) s hs)) = map (batch_id \<circ> snd) (fst s)" for e
    by (induction hs arbitrary: s) (simp_all add: lookup_hash_ids)
  then show ?thesis by (simp add: lookup_group_def)
qed

lemma enrich_ids: "map batch_id (fst (enrich env cached err bs)) = map batch_id bs"
proof -
  have groups: "map (batch_id \<circ> snd) (fst (foldl (lookup_group env) s gs)) = map (batch_id \<circ> snd) (fst s)" for s gs
    by (induction gs arbitrary: s) (simp_all add: lookup_group_ids)
  have "batch_id (merge_cached cached b) = batch_id b" for b
    by (auto simp: merge_cached_def batch_id_def split: option.split)
  then show ?thesis
    by (simp add: enrich_def Let_def split_def map_map [symmetric] groups del: map_map) (simp add: groups)
qed

lemma ids_keep:
  assumes "map batch_id bs = map batch_id cs"
  shows "length bs = length cs" and "map batch_key bs = map batch_key cs" and "map batch_order bs = map batch_order cs"
    and "shown bs x = shown cs x"
proof -
  have keys: "batch_key = js_lower \<circ> fst \<circ> batch_id" and ord: "batch_order = (\<lambda>(t, h, n, l, r). (- n, - l)) \<circ> batch_id"
    and num: "lb_blockNumber = (\<lambda>(t, h, n, l, r). n) \<circ> batch_id"
    by (auto simp: batch_key_def batch_id_def batch_order_def)
  show "length bs = length cs" by (metis assms length_map)
  show "map batch_key bs = map batch_key cs" by (simp only: keys map_map [symmetric] assms)
  show "map batch_order bs = map batch_order cs" by (simp only: ord map_map [symmetric] assms)
  have "map lb_blockNumber bs = map lb_blockNumber cs" by (simp only: num map_map [symmetric] assms)
  then have "set (map lb_blockNumber bs) = set (map lb_blockNumber cs)" by simp
  moreover have "set (map batch_key bs) = set (map batch_key cs)" using \<open>map batch_key bs = map batch_key cs\<close> by simp
  ultimately have "batch_key ` set bs = batch_key ` set cs" and "lb_blockNumber ` set bs = lb_blockNumber ` set cs"
    by simp_all
  then have "(\<exists>y \<in> set bs. batch_key y = batch_key x) \<longleftrightarrow> (\<exists>y \<in> set cs. batch_key y = batch_key x)"
    and "(\<forall>y \<in> set bs. lb_blockNumber y \<ge> lb_blockNumber x) \<longleftrightarrow> (\<forall>y \<in> set cs. lb_blockNumber y \<ge> lb_blockNumber x)"
  proof -
    assume k: "batch_key ` set bs = batch_key ` set cs" and n: "lb_blockNumber ` set bs = lb_blockNumber ` set cs"
    show "(\<exists>y \<in> set bs. batch_key y = batch_key x) \<longleftrightarrow> (\<exists>y \<in> set cs. batch_key y = batch_key x)"
      by (simp only: ex_image_iff k)
    have "(\<forall>n \<in> lb_blockNumber ` set bs. n \<ge> lb_blockNumber x) \<longleftrightarrow> (\<forall>n \<in> lb_blockNumber ` set cs. n \<ge> lb_blockNumber x)"
      by (simp only: n)
    then show "(\<forall>y \<in> set bs. lb_blockNumber y \<ge> lb_blockNumber x) \<longleftrightarrow> (\<forall>y \<in> set cs. lb_blockNumber y \<ge> lb_blockNumber x)"
      by simp
  qed
  with \<open>length bs = length cs\<close> show "shown bs x = shown cs x" by (simp add: shown_def)
qed

lemma fetch_known_registry:
  assumes "be_l1Head env = Inr head" and "start_registry cfg previous = r" and "r \<noteq> []"
    and "start_batches lib env r previous head = Inr (bs0, before0)" and "backfill lib env r 8 bs0 before0 = Inr (bs1, before1)"
  obtains h where "fetchLiveBatchHistory cfg lib env previous = Inr h" and "map batch_id (lh_batches h) = map batch_id bs1"
    and "lh_before h = before1" and "lh_l1Head h = head" and "lh_registryAddress h = Some r"
proof -
  obtain bs2 err where e: "enrich env (cache_all (old_batches previous) []) None bs1 = (bs2, err)" by fastforce
  have "fetchLiveBatchHistory cfg lib env previous = Inr \<lparr>lh_batches = bs2, lh_l1Head = head,
      lh_l2Head = (case be_l2Head env of Inr n \<Rightarrow> Some n | Inl e \<Rightarrow> Option.bind previous lh_l2Head),
      lh_before = before1, lh_warnings = l2_warning env @ index_warning err, lh_registryAddress = Some r\<rparr>"
    using assms e by (simp add: fetchLiveBatchHistory_def follow_registry_def)
  moreover have "map batch_id bs2 = map batch_id bs1" using enrich_ids [of env _ None bs1] e by (metis fst_conv)
  ultimately show thesis using that by simp
qed

text \<open>The invariant of a history under settlement data.\<close>

lemma window_ids:
  assumes ids: "map batch_id bs = map batch_id cs"
  shows "window_ok ps head bs before \<longleftrightarrow> window_ok ps head cs before" and "cursor_ok head bs before \<longleftrightarrow> cursor_ok head cs before"
proof -
  have "batch_id ` set bs = batch_id ` set cs" using ids by (metis list.set_map)
  with ids_keep [OF ids] show "window_ok ps head bs before \<longleftrightarrow> window_ok ps head cs before" unfolding window_ok_def by simp
  have num: "lb_blockNumber = (\<lambda>(t, h, n, l, r). n) \<circ> batch_id" by (auto simp: batch_id_def)
  have nums: "map lb_blockNumber bs = map lb_blockNumber cs" by (simp only: num map_map [symmetric] ids)
  have eq: "(\<forall>y \<in> set zs. b < lb_blockNumber y) \<longleftrightarrow> list_all (\<lambda>n. b < n) (map lb_blockNumber zs)" for b zs
    by (simp add: list_all_iff)
  have "(\<forall>y \<in> set bs. b < lb_blockNumber y) \<longleftrightarrow> (\<forall>y \<in> set cs. b < lb_blockNumber y)" for b by (simp only: eq nums)
  then show "cursor_ok head bs before \<longleftrightarrow> cursor_ok head cs before" unfolding cursor_ok_def by simp
qed

text \<open>What a refresh sees of L1: the head, and the logs that the node serves, where one transaction posts in one block.\<close>

definition sees :: "batch_env \<Rightarrow> abi_lib \<Rightarrow> string \<Rightarrow> int \<times> (raw_log \<times> bool) list \<Rightarrow> bool" where
  "sees env lib r v \<longleftrightarrow> be_l1Head env = Inr (fst v) \<and> 0 \<le> fst v \<and> serves env r (snd v) \<and> one_block (posted lib r (snd v))
     \<and> (\<forall>x \<in> set (posted lib r (snd v)). 0 \<le> lb_blockNumber x)"

definition history_ok :: "abi_lib \<Rightarrow> string \<Rightarrow> int \<times> (raw_log \<times> bool) list \<Rightarrow> live_history \<Rightarrow> bool" where
  "history_ok lib r v h \<longleftrightarrow> lh_l1Head h = fst v \<and> lh_registryAddress h = Some r
     \<and> window_ok (posted lib r (snd v)) (fst v) (lh_batches h) (lh_before h) \<and> cursor_ok (fst v) (lh_batches h) (lh_before h)"

text \<open>Between two refreshes only the newest 12 blocks and what follows them change, unless the head goes back.\<close>

definition shallow :: "abi_lib \<Rightarrow> string \<Rightarrow> int \<times> (raw_log \<times> bool) list \<Rightarrow> int \<times> (raw_log \<times> bool) list \<Rightarrow> bool" where
  "shallow lib r v v' \<longleftrightarrow> fst v' < fst v \<or> agree_below (fst v) (posted lib r (snd v)) (posted lib r (snd v'))"

lemma refresh_ok:
  assumes env: "sees env lib r v'" and r: "r \<noteq> []" "start_registry cfg previous = r"
    and prev: "\<And>p. previous = Some p \<Longrightarrow> \<exists>env v. sees env lib r v \<and> history_ok lib r v p \<and> shallow lib r v v'"
  shows "\<exists>h. fetchLiveBatchHistory cfg lib env previous = Inr h \<and> history_ok lib r v' h"
proof -
  obtain head logs where v': "v' = (head, logs)" by fastforce
  let ?ps = "posted lib r logs"
  from env v' have e: "be_l1Head env = Inr head" "0 \<le> head" "serves env r logs" "one_block ?ps" "\<forall>x \<in> set ?ps. 0 \<le> lb_blockNumber x"
    by (auto simp: sees_def)
  have "\<exists>bs before. start_batches lib env r previous head = Inr (bs, before) \<and> window_ok ?ps head bs before
      \<and> (cursor_ok head bs before \<or> length bs < LIVE_BATCH_LIMIT \<and> cursor_weak head bs before)"
  proof -
    have first: "window_ok ?ps head [] (Some head)" "cursor_weak head [] (Some head)" "length [] < LIVE_BATCH_LIMIT"
      using e(2) by (auto simp: window_ok_def above_def cursor_weak_def LIVE_BATCH_LIMIT_def)
    show ?thesis
    proof (cases previous)
      case None
      with first show ?thesis by (auto simp: start_batches_def)
    next
      case (Some p)
      show ?thesis
      proof (cases "head \<ge> lh_l1Head p")
        case False
        with Some first show ?thesis by (auto simp: start_batches_def)
      next
        case True
        from prev [OF Some] obtain env0 v where v: "sees env0 lib r v" "history_ok lib r v p" "shallow lib r v v'" by blast
        define a where "a = overlap_start (lh_l1Head p)"
        obtain page where page: "read_overlap lib env r a head = Inr page" "set page = {x \<in> set ?ps. a \<le> lb_blockNumber x \<and> lb_blockNumber x \<le> head}"
          using read_overlap_set [OF e(3)] by blast
        define bs where "bs = newest (filter (\<lambda>b. lb_blockNumber b < a) (lh_batches p) @ page)"
        have "window_ok ?ps head bs (refill_before p a bs)
            \<and> (cursor_ok head bs (refill_before p a bs) \<or> length bs < LIVE_BATCH_LIMIT \<and> cursor_weak head bs (refill_before p a bs))"
          using v True e v' by (intro later_start [OF _ _ _ e(4) _ _ _ True a_def page(2) bs_def refl, of "posted lib r (snd v)"])
            (auto simp: history_ok_def sees_def shallow_def)
        moreover have "start_batches lib env r previous head = Inr (bs, refill_before p a bs)"
          using Some True page(1) by (simp add: start_batches_def a_def [symmetric] bs_def Let_def)
        ultimately show ?thesis by blast
      qed
    qed
  qed
  then obtain bs0 before0 where s: "start_batches lib env r previous head = Inr (bs0, before0)" "window_ok ?ps head bs0 before0"
    "cursor_ok head bs0 before0 \<or> length bs0 < LIVE_BATCH_LIMIT \<and> cursor_weak head bs0 before0" by blast
  from backfill_ok [OF e(3-5) s(2), of 8] s(3) obtain bs before where
    b: "backfill lib env r 8 bs0 before0 = Inr (bs, before)" "window_ok ?ps head bs before" "cursor_ok head bs before" by auto
  from fetch_known_registry [OF e(1) r(2,1) s(1) b(1)] obtain h where
    h: "fetchLiveBatchHistory cfg lib env previous = Inr h" "map batch_id (lh_batches h) = map batch_id bs" "lh_before h = before"
      "lh_l1Head h = head" "lh_registryAddress h = Some r" by blast
  with b window_ids [OF h(2)] show ?thesis by (auto simp: history_ok_def v')
qed

section \<open>Repeated refreshes\<close>

text \<open>Each refresh continues from the history that the one before it returned.\<close>

fun refreshes :: "debug_config \<Rightarrow> abi_lib \<Rightarrow> batch_env list \<Rightarrow> live_history option \<Rightarrow> string + live_history list" where
  "refreshes cfg lib [] previous = Inr []"
| "refreshes cfg lib (env # envs) previous =
     res_bind (fetchLiveBatchHistory cfg lib env previous) (\<lambda>h. res_bind (refreshes cfg lib envs (Some h)) (\<lambda>hs. Inr (h # hs)))"

lemma refreshes_ok:
  assumes "list_all2 (\<lambda>env v. sees env lib r v) envs views" and "successively (shallow lib r) views" and "r \<noteq> []" and "start_registry cfg previous = r"
    and "\<And>p. previous = Some p \<Longrightarrow> views \<noteq> [] \<Longrightarrow> \<exists>env v. sees env lib r v \<and> history_ok lib r v p \<and> shallow lib r v (hd views)"
  shows "\<exists>hs. refreshes cfg lib envs previous = Inr hs \<and> list_all2 (history_ok lib r) views hs"
  using assms
proof (induction envs arbitrary: views previous)
  case (Cons env envs)
  then obtain v views' where views: "views = v # views'" "sees env lib r v" "list_all2 (\<lambda>env v. sees env lib r v) envs views'"
    by (auto simp: list_all2_Cons1)
  from refresh_ok [OF views(2) Cons.prems(3,4)] Cons.prems(5) views(1) obtain h where
    h: "fetchLiveBatchHistory cfg lib env previous = Inr h" "history_ok lib r v h" by auto
  have "start_registry cfg (Some h) = r" using h(2) Cons.prems(3) by (simp add: start_registry_def js_or_def history_ok_def)
  moreover have "successively (shallow lib r) views'" "views' \<noteq> [] \<Longrightarrow> shallow lib r v (hd views')"
    using Cons.prems(2) views(1) by (auto simp: successively_Cons)
  ultimately obtain hs where "refreshes cfg lib envs (Some h) = Inr hs" "list_all2 (history_ok lib r) views' hs"
    using Cons.IH [OF views(3) _ Cons.prems(3), of "Some h"] views(2) h(2) by blast
  with h views(1) show ?case by auto
qed auto

text \<open>C33. Every refresh of the live view, the first one and each later one from the history of the refresh before it, with a known
  registry, succeeds and shows different batches, newest first, all of them posted on the chain as this refresh sees it; every batch
  posted at or before the head and after the returned \<open>before\<close> is shown, unless fifty batches of blocks that are not older are. The node answers
  with its head and exactly the logs of the range it is asked for, and one transaction posts in one block. Between
  two refreshes the chain may grow and replace its newest 12 blocks, or its head may go back.\<close>
theorem live_history_complete:
  assumes "cfg_rollupsAddress cfg = r" and "r \<noteq> []" and "list_all2 (\<lambda>env v. sees env lib r v) envs views"
    and "\<And>i. Suc i < length views \<Longrightarrow> fst (views ! i) \<le> fst (views ! Suc i) \<Longrightarrow>
      {x \<in> set (posted lib r (snd (views ! i))). lb_blockNumber x < fst (views ! i) - 12}
      = {x \<in> set (posted lib r (snd (views ! Suc i))). lb_blockNumber x < fst (views ! i) - 12}"
  shows "\<exists>hs. refreshes cfg lib envs None = Inr hs \<and> length hs = length envs
     \<and> (\<forall>i < length envs. let h = hs ! i; head = fst (views ! i); all = set (posted lib r (snd (views ! i))) in
          lh_l1Head h = head \<and> length (lh_batches h) \<le> LIVE_BATCH_LIMIT
        \<and> distinct (map batch_key (lh_batches h)) \<and> sorted (map batch_order (lh_batches h))
        \<and> batch_id ` set (lh_batches h) \<subseteq> batch_id ` all
        \<and> (\<forall>x \<in> all. lb_blockNumber x \<le> head \<longrightarrow> above (lh_before h) x \<longrightarrow>
             (\<exists>y \<in> set (lh_batches h). batch_key y = batch_key x)
             \<or> length (lh_batches h) = LIVE_BATCH_LIMIT \<and> (\<forall>y \<in> set (lh_batches h). lb_blockNumber y \<ge> lb_blockNumber x)))"
proof -
  have "shallow lib r (views ! i) (views ! Suc i)" if "Suc i < length views" for i
    using assms(4) [OF that] by (auto simp: shallow_def agree_below_def not_less)
  then have "successively (shallow lib r) views" by (simp add: successively_conv_nth)
  moreover have "start_registry cfg None = r" using assms(1) by (simp add: start_registry_def js_or_def)
  ultimately obtain hs where hs: "refreshes cfg lib envs None = Inr hs" "list_all2 (history_ok lib r) views hs"
    using refreshes_ok [OF assms(3) _ assms(2)] by blast
  have len: "length views = length envs" "length hs = length envs" using list_all2_lengthD [OF hs(2)] list_all2_lengthD [OF assms(3)] by simp_all
  have "history_ok lib r (views ! i) (hs ! i)" if "i < length envs" for i using hs(2) that len by (auto dest: list_all2_nthD)
  with hs(1) len show ?thesis unfolding shown_def [symmetric] Let_def by (intro exI [of _ hs]) (auto simp: history_ok_def window_ok_def)
qed

text \<open>A log with two batches in old blocks.\<close>

definition sample_batch_log :: "string \<Rightarrow> int \<Rightarrow> raw_log \<times> bool" where
  "sample_batch_log tx n = (\<lparr>rl_address = ''0xr'', rl_topics = [], rl_data = ''0x'', rl_logIndex = 0,
     rl_transactionHash = tx, rl_blockHash = ''0xb'', rl_blockNumber = n\<rparr>, False)"

definition sample_batch_lib :: abi_lib where
  "sample_batch_lib = \<lparr>abi_events = (\<lambda>c. [\<lambda>l. Some (''BatchPosted'', [])]), abi_call = (\<lambda>c s. None), abi_error = (\<lambda>c s. None)\<rparr>"

definition sample_batch_logs :: "(raw_log \<times> bool) list" where
  "sample_batch_logs = [sample_batch_log ''0x1'' 3, sample_batch_log ''0x2'' 5]"

definition sample_batch_env :: batch_env where
  "sample_batch_env = \<lparr>be_l1Head = Inr 600, be_l2Head = Inr 9,
     be_logs = (\<lambda>a b r. Inr (filter (\<lambda>l. a \<le> rl_blockNumber (fst l) \<and> rl_blockNumber (fst l) \<le> b) sample_batch_logs)),
     be_settlements = (\<lambda>h. Inr []), be_now = 100000\<rparr>"

definition sample_live_config :: debug_config where
  "sample_live_config = \<lparr>cfg_l1Rpc = [], cfg_l2Rpc = [], cfg_rollupsAddress = ''0xR'', cfg_ccmL2Address = [], cfg_rollupId = ''1''\<rparr>"

lemma sample_posted: "map (\<lambda>b. (batch_key b, lb_blockNumber b)) (posted sample_batch_lib ''0xR'' sample_batch_logs) = [(''0x1'', 3), (''0x2'', 5)]"
  by code_simp

lemma sample_serves: "serves sample_batch_env r sample_batch_logs"
  by (simp add: serves_def sample_batch_env_def)

text \<open>The chain grows by 20 blocks, and one more batch is posted.\<close>

definition grown_logs :: "(raw_log \<times> bool) list" where
  "grown_logs = sample_batch_logs @ [sample_batch_log ''0x3'' 605]"

definition grown_env :: batch_env where
  "grown_env = sample_batch_env\<lparr>be_l1Head := Inr 620,
     be_logs := (\<lambda>a b r. Inr (filter (\<lambda>l. a \<le> rl_blockNumber (fst l) \<and> rl_blockNumber (fst l) \<le> b) grown_logs))\<rparr>"

lemma grown_posted: "map (\<lambda>b. (batch_key b, lb_blockNumber b)) (posted sample_batch_lib ''0xR'' grown_logs) = [(''0x1'', 3), (''0x2'', 5), (''0x3'', 605)]"
  by code_simp

lemma sample_views:
  "list_all2 (\<lambda>env v. sees env sample_batch_lib ''0xR'' v) [sample_batch_env, grown_env] [(600, sample_batch_logs), (620, grown_logs)]"
proof -
  have "one_block (posted sample_batch_lib ''0xR'' sample_batch_logs)" "\<forall>x \<in> set (posted sample_batch_lib ''0xR'' sample_batch_logs). 0 \<le> lb_blockNumber x"
    using sample_posted by (auto simp: one_block_def)
  moreover have "one_block (posted sample_batch_lib ''0xR'' grown_logs)" "\<forall>x \<in> set (posted sample_batch_lib ''0xR'' grown_logs). 0 \<le> lb_blockNumber x"
    using grown_posted by (auto simp: one_block_def)
  ultimately show ?thesis by (simp add: sees_def sample_serves) (simp add: serves_def grown_env_def sample_batch_env_def)
qed

lemma sample_refreshes:
  "case refreshes sample_live_config sample_batch_lib [sample_batch_env, grown_env] None of Inl e \<Rightarrow> False
   | Inr hs \<Rightarrow> map (\<lambda>h. (map lb_blockNumber (lh_batches h), lh_before h)) hs = [([5, 3], None), ([605, 5, 3], None)]"
  by code_simp

theorem live_history_complete_witness:
  "\<exists>hs. refreshes sample_live_config sample_batch_lib [sample_batch_env, grown_env] None = Inr hs
     \<and> (\<forall>x \<in> set (posted sample_batch_lib ''0xR'' grown_logs). \<exists>y \<in> set (lh_batches (hs ! 1)). batch_key y = batch_key x)
     \<and> batch_id ` set (lh_batches (hs ! 1)) \<subseteq> batch_id ` set (posted sample_batch_lib ''0xR'' grown_logs)
     \<and> map lb_blockNumber (lh_batches (hs ! 1)) = [605, 5, 3]"
proof -
  let ?views = "[(600, sample_batch_logs), (620, grown_logs)]"
  have agree: "{x \<in> set (posted sample_batch_lib ''0xR'' (snd (?views ! i))). lb_blockNumber x < fst (?views ! i) - 12}
      = {x \<in> set (posted sample_batch_lib ''0xR'' (snd (?views ! Suc i))). lb_blockNumber x < fst (?views ! i) - 12}" if "Suc i < length ?views" for i
  proof -
    have "posted sample_batch_lib ''0xR'' grown_logs = posted sample_batch_lib ''0xR'' sample_batch_logs @ posted sample_batch_lib ''0xR'' [sample_batch_log ''0x3'' 605]"
      by (simp add: posted_def map_filter_def grown_logs_def)
    moreover have "map lb_blockNumber (posted sample_batch_lib ''0xR'' [sample_batch_log ''0x3'' 605]) = [605]" by code_simp
    ultimately show ?thesis using that by auto
  qed
  have reg: "cfg_rollupsAddress sample_live_config = ''0xR''" "''0xR'' \<noteq> []" by (simp_all add: sample_live_config_def)
  from live_history_complete [OF reg sample_views agree] obtain hs where
    run: "refreshes sample_live_config sample_batch_lib [sample_batch_env, grown_env] None = Inr hs" "length hs = 2"
    and all: "batch_id ` set (lh_batches (hs ! 1)) \<subseteq> batch_id ` set (posted sample_batch_lib ''0xR'' grown_logs)"
      "\<forall>x \<in> set (posted sample_batch_lib ''0xR'' grown_logs). lb_blockNumber x \<le> 620 \<longrightarrow> above (lh_before (hs ! 1)) x \<longrightarrow> shown (lh_batches (hs ! 1)) x"
    unfolding shown_def Let_def by (force simp: numeral_2_eq_2)
  from run sample_refreshes have "map (\<lambda>h. (map lb_blockNumber (lh_batches h), lh_before h)) hs = [([5, 3], None), ([605, 5, 3], None)]" by simp
  then have second: "map lb_blockNumber (lh_batches (hs ! 1)) = [605, 5, 3]" "lh_before (hs ! 1) = None" by (auto simp: Cons_eq_map_conv)
  have "length (map lb_blockNumber (lh_batches (hs ! 1))) = 3" unfolding second(1) by simp
  then have "length (lh_batches (hs ! 1)) = 3" by simp
  moreover have "\<forall>x \<in> set (posted sample_batch_lib ''0xR'' grown_logs). lb_blockNumber x \<le> 620" using grown_posted by auto
  ultimately have "\<forall>x \<in> set (posted sample_batch_lib ''0xR'' grown_logs). \<exists>y \<in> set (lh_batches (hs ! 1)). batch_key y = batch_key x"
    using all(2) second(2) by (auto simp: above_def shown_def LIVE_BATCH_LIMIT_def)
  with run(1) all(1) second(1) show ?thesis by (intro exI [of _ hs] conjI)
qed

definition responds :: "batch_env \<Rightarrow> string \<Rightarrow> int \<Rightarrow> bool" where
  "responds env r head \<longleftrightarrow> be_l1Head env = Inr head \<and> 0 \<le> head \<and> (\<forall>a b. \<exists>logs. be_logs env a b r = Inr logs)"

lemma responds_range: "responds env r head \<Longrightarrow> \<exists>bs. read_range lib env r a b = Inr bs"
  by (metis responds_def read_range_def res_bind.simps(2))

lemma responds_overlap: "responds env r head \<Longrightarrow> \<exists>bs. read_overlap lib env r a b = Inr bs"
proof (induction lib env r a b rule: read_overlap.induct)
  case (1 lib env r a to)
  show ?case
  proof (cases "to \<ge> a")
    case True
    obtain bs where bs: "read_range lib env r (page_start a to) to = Inr bs" using responds_range [OF 1(2)] by blast
    obtain rest where "read_overlap lib env r a (page_start a to - 1) = Inr rest" using 1(1) [OF True 1(2)] by blast
    with bs True show ?thesis by (simp add: read_overlap.simps [of lib env r a to])
  next
    case False
    then show ?thesis by (simp add: read_overlap.simps [of lib env r a to])
  qed
qed

text \<open>How far down a refresh has read.\<close>

definition reached :: "int option \<Rightarrow> int \<Rightarrow> bool" where
  "reached before n \<longleftrightarrow> (case before of None \<Rightarrow> True | Some b \<Rightarrow> 0 \<le> b \<and> b \<le> n)"

lemma backfill_progress:
  assumes "responds env r head"
  shows "reached before n \<Longrightarrow> length bs \<le> LIVE_BATCH_LIMIT \<Longrightarrow>
     \<exists>bs' before'. backfill lib env r pages bs before = Inr (bs', before') \<and> length bs' \<le> LIVE_BATCH_LIMIT
       \<and> (length bs' = LIVE_BATCH_LIMIT \<or> reached before' (n - 512 * int pages))"
proof (induction pages arbitrary: bs before n)
  case (Suc pages)
  show ?case
  proof (cases before)
    case None
    with Suc.prems show ?thesis by (auto simp: reached_def)
  next
    case (Some b)
    show ?thesis
    proof (cases "length bs < LIVE_BATCH_LIMIT")
      case True
      define a where "a = (if b > 511 then b - 511 else 0)"
      obtain page where page: "read_range lib env r a b = Inr page" using responds_range [OF assms] by blast
      have "reached (if a > 0 then Some (a - 1) else None) (n - 512)"
        using Suc.prems Some by (auto simp: reached_def a_def)
      from Suc.IH [OF this newest_length [of "bs @ page"]] page True Some show ?thesis
        by (auto simp: a_def [symmetric] algebra_simps)
    next
      case False
      with Some Suc.prems show ?thesis by auto
    qed
  qed
qed auto

lemma refresh_progress:
  assumes env: "responds env r head" and r: "r \<noteq> []" "start_registry cfg previous = r"
    and prev: "previous = None \<and> n = head \<or> (\<exists>p. previous = Some p \<and> lh_l1Head p \<le> head \<and> length (lh_batches p) < LIVE_BATCH_LIMIT \<and> reached (lh_before p) n)"
  shows "\<exists>h. fetchLiveBatchHistory cfg lib env previous = Inr h \<and> lh_l1Head h = head \<and> lh_registryAddress h = Some r
     \<and> length (lh_batches h) \<le> LIVE_BATCH_LIMIT
     \<and> (length (lh_batches h) = LIVE_BATCH_LIMIT \<or> reached (lh_before h) (n - 4096))"
proof -
  have head: "be_l1Head env = Inr head" "0 \<le> head" using env by (simp_all add: responds_def)
  obtain bs0 before0 where s: "start_batches lib env r previous head = Inr (bs0, before0)"
    and "length bs0 \<le> LIVE_BATCH_LIMIT" and "reached before0 n"
  proof (cases previous)
    case None
    with prev head that show ?thesis by (auto simp: start_batches_def reached_def)
  next
    case (Some p)
    obtain bs where "read_overlap lib env r (overlap_start (lh_l1Head p)) head = Inr bs"
      using responds_overlap [OF env] by blast
    with Some prev that newest_length show ?thesis
      by (fastforce simp: start_batches_def refill_before_def Let_def)
  qed
  with backfill_progress [OF env, of before0 n bs0 lib 8] obtain bs1 before1 where
    b: "backfill lib env r 8 bs0 before0 = Inr (bs1, before1)" "length bs1 \<le> LIVE_BATCH_LIMIT"
      "length bs1 = LIVE_BATCH_LIMIT \<or> reached before1 (n - 4096)" by auto
  from fetch_known_registry [OF head(1) r(2,1) s b(1)] obtain h where
    h: "fetchLiveBatchHistory cfg lib env previous = Inr h" "map batch_id (lh_batches h) = map batch_id bs1"
      "lh_before h = before1" "lh_l1Head h = head" "lh_registryAddress h = Some r" by blast
  with b ids_keep(1) [OF h(2)] show ?thesis by auto
qed

definition settled_history :: "live_history \<Rightarrow> bool" where
  "settled_history h \<longleftrightarrow> length (lh_batches h) = LIVE_BATCH_LIMIT \<or> lh_before h = None"

lemma refreshes_progress:
  assumes "list_all2 (\<lambda>env head. responds env r head) envs heads" and "sorted heads" and "r \<noteq> []"
    and "start_registry cfg previous = r" and "envs \<noteq> []" and "n < 4096 * int (length envs)"
    and "previous = None \<and> n = hd heads \<or> (\<exists>p. previous = Some p \<and> lh_l1Head p \<le> hd heads \<and> length (lh_batches p) < LIVE_BATCH_LIMIT \<and> reached (lh_before p) n)"
  shows "\<exists>k hs. k \<le> length envs \<and> refreshes cfg lib (take k envs) previous = Inr hs \<and> hs \<noteq> [] \<and> settled_history (last hs)"
  using assms
proof (induction envs arbitrary: heads previous n)
  case (Cons env envs)
  then obtain head heads' where heads: "heads = head # heads'" by (cases heads) auto
  with Cons.prems(1) have env: "responds env r head" by simp
  obtain h where h: "fetchLiveBatchHistory cfg lib env previous = Inr h" "lh_l1Head h = head" "lh_registryAddress h = Some r"
      "length (lh_batches h) \<le> LIVE_BATCH_LIMIT" "length (lh_batches h) = LIVE_BATCH_LIMIT \<or> reached (lh_before h) (n - 4096)"
    using refresh_progress [OF env Cons.prems(3,4), of n] Cons.prems(7) heads by auto
  show ?case
  proof (cases "settled_history h")
    case True
    with h(1) show ?thesis by (intro exI [of _ 1] exI [of _ "[h]"]) simp
  next
    case False
    with h(4,5) have more: "length (lh_batches h) < LIVE_BATCH_LIMIT" "reached (lh_before h) (n - 4096)"
      and "lh_before h \<noteq> None" by (auto simp: settled_history_def)
    then have "0 \<le> n - 4096" by (auto simp: reached_def)
    with Cons.prems(6) have "envs \<noteq> []" by auto
    moreover from this Cons.prems(1,2) heads have "head \<le> hd heads'" by (cases heads') auto
    moreover have "start_registry cfg (Some h) = r" using h(3) Cons.prems(3) by (simp add: start_registry_def js_or_def)
    ultimately obtain k hs where "k \<le> length envs" "refreshes cfg lib (take k envs) (Some h) = Inr hs" "hs \<noteq> []" "settled_history (last hs)"
      using Cons.IH [of heads' "Some h" "n - 4096"] Cons.prems heads more h(2) by auto
    with h(1) show ?thesis by (intro exI [of _ "Suc k"] exI [of _ "h # hs"]) simp
  qed
qed simp

text \<open>C34. Polling settles: when the L1 node answers and its head does not go back, then within one
  refresh per 4096 blocks of the first head some refresh shows fifty batches or has read the whole
  chain down to its first block.\<close>
theorem live_history_settles:
  assumes "cfg_rollupsAddress cfg = r" and "r \<noteq> []" and "list_all2 (\<lambda>env head. responds env r head) envs heads"
    and "sorted heads" and "envs \<noteq> []" and "hd heads < 4096 * int (length envs)"
  shows "\<exists>k hs. k \<le> length envs \<and> refreshes cfg lib (take k envs) None = Inr hs \<and> hs \<noteq> []
     \<and> (length (lh_batches (last hs)) = LIVE_BATCH_LIMIT \<or> lh_before (last hs) = None)"
proof -
  have "start_registry cfg None = r" using assms(1) by (simp add: start_registry_def js_or_def)
  from refreshes_progress [OF assms(3,4,2) this assms(5,6)] show ?thesis unfolding settled_history_def by blast
qed

definition later_env :: batch_env where
  "later_env = sample_batch_env\<lparr>be_l1Head := Inr 5000\<rparr>"

theorem live_history_settles_witness:
  "\<exists>k hs. k \<le> 2 \<and> refreshes sample_live_config sample_batch_lib (take k [later_env, later_env]) None = Inr hs \<and> hs \<noteq> []
     \<and> (length (lh_batches (last hs)) = LIVE_BATCH_LIMIT \<or> lh_before (last hs) = None)"
proof -
  have "responds later_env ''0xR'' 5000" by (simp add: responds_def later_env_def sample_batch_env_def)
  then have "list_all2 (\<lambda>env head. responds env ''0xR'' head) [later_env, later_env] [5000, 5000]" by simp
  from live_history_settles [OF _ _ this, of sample_live_config sample_batch_lib] show ?thesis
    by (simp add: sample_live_config_def numeral_2_eq_2)
qed

end
