(* ===== verification/History_Transactions.thy ===== *)
theory History_Transactions
  imports Debug_Types
begin

text \<open>
  \<open>src/src/lib/historyTransactions.ts\<close>: the counterpart transactions of a wallet history entry.
  The four RPC methods it calls are the parameters of the record \<open>history_rpc\<close> (each call gives a
  result or the message of its error), the two event decoders those of \<open>history_abi\<close> (\<^const>\<open>None\<close>
  when decoding throws). A \<open>Number\<close> of a block number is the block number.
\<close>

record history_receipt =
  hr_blockNumber :: "int option"
  hr_blockHash :: string
  hr_logs :: "raw_log list"

record history_transactions =
  ht_chain :: chain
  ht_l1 :: "int option"
  ht_l2 :: "int option"
  ht_l1Hash :: "string option"
  ht_l2Hashes :: "string list"
  ht_settlement :: bool
  ht_lookupError :: "string option"

record history_rpc =
  hp_receipt :: "chain \<Rightarrow> string \<Rightarrow> string + history_receipt option"
  hp_settlement :: "string \<Rightarrow> string + settlement option"
  hp_ranges :: "string \<Rightarrow> string + settlement list option"
  hp_origins :: "string \<Rightarrow> string list \<Rightarrow> string list \<Rightarrow> string + raw_log list" \<comment> \<open>block hash, addresses, second topics\<close>
  hp_inbound :: "int \<Rightarrow> int \<Rightarrow> string list \<Rightarrow> string + raw_log list" \<comment> \<open>first and last block, second topics\<close>

record history_abi =
  ha_l1 :: "raw_log \<Rightarrow> (string \<times> js_object) option"
  ha_l2 :: "raw_log \<Rightarrow> (string \<times> js_object) option"

definition txHash :: "string \<Rightarrow> bool" where
  "txHash s \<longleftrightarrow> is_hex_of 64 s"

definition same_hash :: "string \<Rightarrow> string \<Rightarrow> bool" where
  "same_hash a b \<longleftrightarrow> js_lower a = js_lower b"

section \<open>From L2\<close>

definition l2_info :: "history_rpc \<Rightarrow> history_receipt \<Rightarrow> history_transactions \<Rightarrow> string + history_transactions" where
  "l2_info rpc receipt info =
     res_bind (hp_settlement rpc (hr_blockHash receipt)) (\<lambda>s.
       Inr (case s of
          None \<Rightarrow> info
        | Some st \<Rightarrow>
            if sl_canonicalL2 st \<and> list_ex (\<lambda>b. same_hash (snd b) (hr_blockHash receipt)) (sl_l2Blocks st) \<and> txHash (sl_l1TransactionHash st)
            then info\<lparr>ht_l1 := Some (sl_l1BlockNumber st), ht_l1Hash := Some (sl_l1TransactionHash st), ht_settlement := True\<rparr>
            else info))"

section \<open>From L1\<close>

definition settled_blocks :: "history_receipt \<Rightarrow> settlement list option \<Rightarrow> (int \<times> string) list" where
  "settled_blocks receipt ranges =
     concat (map sl_l2Blocks (filter (\<lambda>r. sl_canonicalL2 r \<and> same_hash (sl_l1BlockHash r) (hr_blockHash receipt))
       (case ranges of None \<Rightarrow> [] | Some rs \<Rightarrow> rs)))"

definition decoded_call :: "(raw_log \<Rightarrow> (string \<times> js_object) option) \<Rightarrow> string \<Rightarrow> raw_log \<Rightarrow> string option" where
  "decoded_call dec name log =
     (case dec log of
        None \<Rightarrow> None
      | Some (n, args) \<Rightarrow> if n \<noteq> name then None
          else (case js_prop args ''crossChainCallHash'' of JStr s \<Rightarrow> Some (js_lower s) | _ \<Rightarrow> None))"

definition outgoing_call :: "debug_config \<Rightarrow> history_abi \<Rightarrow> raw_log \<Rightarrow> string option" where
  "outgoing_call cfg lib log =
     (if cfg_rollupsAddress cfg \<noteq> [] \<and> \<not> same_hash (rl_address log) (cfg_rollupsAddress cfg) then None
      else decoded_call (ha_l1 lib) ''CrossChainCallExecuted'' log)"

definition call_hashes :: "debug_config \<Rightarrow> history_abi \<Rightarrow> history_receipt \<Rightarrow> string list" where
  "call_hashes cfg lib receipt = jset_of (List.map_filter (outgoing_call cfg lib) (hr_logs receipt))"

definition call_emitters :: "debug_config \<Rightarrow> history_abi \<Rightarrow> history_receipt \<Rightarrow> string list" where
  "call_emitters cfg lib receipt = jset_of (map rl_address (filter (\<lambda>log. outgoing_call cfg lib log \<noteq> None) (hr_logs receipt)))"

definition second_topic :: "raw_log \<Rightarrow> string option" where
  "second_topic log = (if length (rl_topics log) > 1 then Some (js_lower (rl_topics log ! 1)) else None)"

text \<open>A hash stays when the origin logs with it come from this transaction only.\<close>

definition origin_unique :: "string \<Rightarrow> raw_log list \<Rightarrow> string \<Rightarrow> bool" where
  "origin_unique hash origins key =
     (let transactions = jset_of (map (js_lower \<circ> rl_transactionHash) (filter (\<lambda>log. second_topic log = Some key) origins))
      in length transactions = 1 \<and> js_lower hash \<in> set transactions)"

definition manager_l2 :: "debug_config \<Rightarrow> string" where
  "manager_l2 cfg = js_or (cfg_ccmL2Address cfg) ''0x4200000000000000000000000000000000000007''"

definition incoming_call :: "debug_config \<Rightarrow> history_abi \<Rightarrow> (int \<times> string) list \<Rightarrow> string list \<Rightarrow> raw_log \<Rightarrow> string option" where
  "incoming_call cfg lib blocks hashes log =
     (if \<not> list_ex (\<lambda>b. same_hash (snd b) (rl_blockHash log)) blocks \<or> \<not> txHash (rl_transactionHash log)
         \<or> \<not> same_hash (rl_address log) (manager_l2 cfg) then None
      else (case decoded_call (ha_l2 lib) ''IncomingCrossChainCallExecuted'' log of
          None \<Rightarrow> None
        | Some key \<Rightarrow> if key \<in> set hashes then Some key else None))"

type_synonym call_matches = "(string, (string, raw_log) jmap) jmap"

definition add_match :: "debug_config \<Rightarrow> history_abi \<Rightarrow> (int \<times> string) list \<Rightarrow> string list \<Rightarrow> call_matches \<Rightarrow> raw_log \<Rightarrow> call_matches" where
  "add_match cfg lib blocks hashes matches log =
     (case incoming_call cfg lib blocks hashes log of
        None \<Rightarrow> matches
      | Some key \<Rightarrow> jmap_set key (jmap_set (js_lower (rl_transactionHash log)) log
          (case jmap_get matches key of None \<Rightarrow> [] | Some t \<Rightarrow> t)) matches)"

definition take_match :: "history_transactions \<Rightarrow> string \<times> (string, raw_log) jmap \<Rightarrow> history_transactions" where
  "take_match info km =
     (case snd km of
        [(_, log)] \<Rightarrow> info\<lparr>ht_l2Hashes := (if rl_transactionHash log \<in> set (ht_l2Hashes info) then ht_l2Hashes info
            else ht_l2Hashes info @ [rl_transactionHash log]), ht_l2 := Some (rl_blockNumber log)\<rparr>
      | _ \<Rightarrow> info)"

definition first_number :: "(int \<times> string) list \<Rightarrow> int" where
  "first_number blocks = foldl (\<lambda>a b. if a < b then a else b) (fst (hd blocks)) (map fst (tl blocks))"

definition last_number :: "(int \<times> string) list \<Rightarrow> int" where
  "last_number blocks = foldl (\<lambda>a b. if a > b then a else b) (fst (hd blocks)) (map fst (tl blocks))"

definition matched_info :: "debug_config \<Rightarrow> history_abi \<Rightarrow> history_rpc \<Rightarrow> (int \<times> string) list \<Rightarrow> string list
    \<Rightarrow> history_transactions \<Rightarrow> string + history_transactions" where
  "matched_info cfg lib rpc blocks hashes info =
     res_bind (hp_inbound rpc (first_number blocks) (last_number blocks) hashes) (\<lambda>logs.
       Inr (foldl take_match info (foldl (add_match cfg lib blocks hashes) [] logs)))"

definition l1_info :: "debug_config \<Rightarrow> history_abi \<Rightarrow> history_rpc \<Rightarrow> string \<Rightarrow> history_receipt
    \<Rightarrow> history_transactions \<Rightarrow> string + history_transactions" where
  "l1_info cfg lib rpc hash receipt info =
     res_bind (hp_ranges rpc (hr_blockHash receipt)) (\<lambda>ranges.
       let blocks = settled_blocks receipt ranges; hashes = call_hashes cfg lib receipt
       in if blocks = [] \<or> hashes = [] then Inr info
          else res_bind (hp_origins rpc (hr_blockHash receipt) (call_emitters cfg lib receipt) hashes) (\<lambda>origins.
            let unique = filter (origin_unique hash origins) hashes
            in if unique = [] then Inr info else matched_info cfg lib rpc blocks unique info))"

section \<open>The lookup\<close>

definition new_info :: "string \<Rightarrow> chain \<Rightarrow> history_transactions" where
  "new_info hash c = \<lparr>ht_chain = c, ht_l1 = None, ht_l2 = None, ht_l1Hash = (if c = L1 then Some hash else None),
     ht_l2Hashes = (if c = L2 then [hash] else []), ht_settlement = False, ht_lookupError = None\<rparr>"

definition included_info :: "string \<Rightarrow> chain \<Rightarrow> int \<Rightarrow> history_transactions" where
  "included_info hash c n = (if c = L1 then new_info hash c\<lparr>ht_l1 := Some n\<rparr> else new_info hash c\<lparr>ht_l2 := Some n\<rparr>)"

definition receipt_info :: "debug_config \<Rightarrow> history_abi \<Rightarrow> history_rpc \<Rightarrow> string \<Rightarrow> chain \<Rightarrow> history_receipt \<Rightarrow> int \<Rightarrow> history_transactions" where
  "receipt_info cfg lib rpc hash c receipt n =
     (let info = included_info hash c n
      in case (if c = L2 then l2_info rpc receipt info else l1_info cfg lib rpc hash receipt info) of
           Inr i \<Rightarrow> i
         | Inl msg \<Rightarrow> info\<lparr>ht_lookupError := Some (js_or (js_slice_to 240 msg) ''Unknown RPC error'')\<rparr>)"

definition upper_chain :: "chain \<Rightarrow> string" where
  "upper_chain c = map js_upper_char (chain_str c)"

fun lookup_chains :: "debug_config \<Rightarrow> history_abi \<Rightarrow> history_rpc \<Rightarrow> string \<Rightarrow> chain list \<Rightarrow> string list
    \<Rightarrow> string list + history_transactions" where
  "lookup_chains cfg lib rpc hash [] errors = Inl errors"
| "lookup_chains cfg lib rpc hash (c # cs) errors =
     (case hp_receipt rpc c hash of
        Inl msg \<Rightarrow> lookup_chains cfg lib rpc hash cs (errors @ [upper_chain c @ '' receipt: '' @ msg])
      | Inr None \<Rightarrow> lookup_chains cfg lib rpc hash cs errors
      | Inr (Some receipt) \<Rightarrow>
          (case hr_blockNumber receipt of
             None \<Rightarrow> lookup_chains cfg lib rpc hash cs errors
           | Some n \<Rightarrow> Inr (receipt_info cfg lib rpc hash c receipt n)))"

definition fetchHistoryTransactions :: "debug_config \<Rightarrow> history_abi \<Rightarrow> history_rpc \<Rightarrow> string \<Rightarrow> chain \<Rightarrow> history_transactions option" where
  "fetchHistoryTransactions cfg lib rpc hash preferred =
     (case lookup_chains cfg lib rpc hash [preferred, if preferred = L1 then L2 else L1] [] of
        Inr info \<Rightarrow> Some info
      | Inl errors \<Rightarrow> if errors = [] then None
          else Some (new_info hash preferred\<lparr>ht_lookupError := Some (js_slice_to 240 (js_join ''; '' errors))\<rparr>))"

end
