(* ===== verification/History_Properties.thy ===== *)
theory History_Properties
  imports History_Transactions
begin

text \<open>
  A counterpart that the wallet history shows rests on canonical settlement and on a call hash that
  only one transaction of either chain carries.
\<close>

definition matches_ok :: "(raw_log \<Rightarrow> string option) \<Rightarrow> raw_log list \<Rightarrow> call_matches \<Rightarrow> bool" where
  "matches_ok call logs m \<longleftrightarrow> distinct (jmap_keys m) \<and> (\<forall>key t. jmap_get m key = Some t \<longrightarrow> distinct (jmap_keys t) \<and>
     (\<forall>log \<in> set logs. call log = Some key \<longrightarrow> js_lower (rl_transactionHash log) \<in> set (jmap_keys t)) \<and>
     (\<forall>x log. jmap_get t x = Some log \<longrightarrow> log \<in> set logs \<and> call log = Some key)) \<and>
     (\<forall>log \<in> set logs. \<forall>key. call log = Some key \<longrightarrow> jmap_get m key \<noteq> None)"

lemma matches_ok_mono: "matches_ok call logs m \<Longrightarrow> call log = None \<Longrightarrow> matches_ok call (logs @ [log]) m"
  by (fastforce simp: matches_ok_def)

lemma matches_ok_add:
  assumes ok: "matches_ok call logs m" and key: "call log = Some key"
  shows "matches_ok call (logs @ [log])
    (jmap_set key (jmap_set (js_lower (rl_transactionHash log)) log (case jmap_get m key of None \<Rightarrow> [] | Some t \<Rightarrow> t)) m)"
proof -
  define old where "old = (case jmap_get m key of None \<Rightarrow> [] | Some t \<Rightarrow> t)"
  define new where "new = jmap_set (js_lower (rl_transactionHash log)) log old"
  have old: "distinct (jmap_keys old)" "\<forall>l \<in> set logs. call l = Some key \<longrightarrow> js_lower (rl_transactionHash l) \<in> set (jmap_keys old)"
      "\<forall>x l. jmap_get old x = Some l \<longrightarrow> l \<in> set logs \<and> call l = Some key"
    using ok by (cases "jmap_get m key"; force simp: matches_ok_def old_def)+
  have new: "distinct (jmap_keys new)"
      "\<forall>l \<in> set (logs @ [log]). call l = Some key \<longrightarrow> js_lower (rl_transactionHash l) \<in> set (jmap_keys new)"
      "\<forall>x l. jmap_get new x = Some l \<longrightarrow> l \<in> set (logs @ [log]) \<and> call l = Some key"
    using old key by (auto simp: new_def jm.distinct_put jm.set_keys_put)
  have "matches_ok call (logs @ [log]) (jmap_set key new m)"
    using ok new key unfolding matches_ok_def by (auto simp: jm.distinct_put)
  then show ?thesis by (simp add: new_def old_def)
qed

lemma matches_fold: "matches_ok (incoming_call cfg lib blocks hashes) logs (foldl (add_match cfg lib blocks hashes) [] logs)"
proof (induction logs rule: rev_induct)
  case (snoc log logs)
  then show ?case
    using matches_ok_mono [OF snoc] matches_ok_add [OF snoc]
    by (cases "incoming_call cfg lib blocks hashes log") (simp_all add: add_match_def)
qed (simp add: matches_ok_def)

text \<open>The only transaction of a call.\<close>

definition only_call :: "(raw_log \<Rightarrow> string option) \<Rightarrow> raw_log list \<Rightarrow> string \<Rightarrow> raw_log \<Rightarrow> bool" where
  "only_call call logs key log \<longleftrightarrow> log \<in> set logs \<and> call log = Some key \<and>
     (\<forall>l \<in> set logs. call l = Some key \<longrightarrow> same_hash (rl_transactionHash l) (rl_transactionHash log))"

lemma matches_single:
  assumes "matches_ok call logs m" and "(key, [(x, log)]) \<in> set m"
  shows "only_call call logs key log"
proof -
  have get: "jmap_get m key = Some [(x, log)]"
    using assms by (intro jmap_get_distinct) (auto simp: matches_ok_def)
  have "jmap_get [(x, log)] x = Some log" and keys: "jmap_keys [(x, log)] = [x]"
    by (simp_all add: jmap_get_def jmap_keys_def)
  with get assms(1) have "log \<in> set logs \<and> call log = Some key"
    and all: "\<forall>l \<in> set logs. call l = Some key \<longrightarrow> js_lower (rl_transactionHash l) \<in> {x}"
    unfolding matches_ok_def by fastforce+
  then show ?thesis by (auto simp: only_call_def same_hash_def)
qed

lemma take_matches:
  assumes "h \<in> set (ht_l2Hashes (foldl take_match info kms))"
  shows "h \<in> set (ht_l2Hashes info) \<or> (\<exists>key x log. (key, [(x, log)]) \<in> set kms \<and> rl_transactionHash log = h)"
  using assms
proof (induction kms arbitrary: info)
  case (Cons km kms)
  have "h' \<in> set (ht_l2Hashes info) \<or> (\<exists>x log. snd km = [(x, log)] \<and> rl_transactionHash log = h')"
    if "h' \<in> set (ht_l2Hashes (take_match info km))" for h'
    using that by (auto simp: take_match_def split: list.splits if_splits)
  with Cons show ?case by (cases km) fastforce
qed simp

lemma take_match_fields [simp]:
  "ht_l1Hash (foldl take_match info kms) = ht_l1Hash info" "ht_settlement (foldl take_match info kms) = ht_settlement info"
  by (induction kms arbitrary: info) (auto simp: take_match_def split: list.splits)

lemma distinct_single: "distinct ts \<Longrightarrow> length ts = 1 \<and> x \<in> set ts \<longleftrightarrow> set ts = {x}"
  by (cases ts; cases "List.tl ts") auto

lemma origin_unique_iff:
  "origin_unique hash origins key \<longleftrightarrow>
     (\<exists>og \<in> set origins. second_topic og = Some key) \<and> (\<forall>og \<in> set origins. second_topic og = Some key \<longrightarrow> same_hash (rl_transactionHash og) hash)"
proof -
  define ts where "ts = jset_of (map (js_lower \<circ> rl_transactionHash) (filter (\<lambda>log. second_topic log = Some key) origins))"
  have "distinct ts" by (simp add: ts_def)
  then have eq: "origin_unique hash origins key \<longleftrightarrow> set ts = {js_lower hash}"
    unfolding origin_unique_def Let_def ts_def [symmetric] by (rule distinct_single)
  have st: "set ts = (js_lower \<circ> rl_transactionHash) ` {og \<in> set origins. second_topic og = Some key}"
    by (simp add: ts_def)
  have img: "(js_lower \<circ> rl_transactionHash) ` X = {js_lower hash} \<longleftrightarrow>
      X \<noteq> {} \<and> (\<forall>og \<in> X. same_hash (rl_transactionHash og) hash)" for X :: "raw_log set"
    by (auto simp: same_hash_def)
  show ?thesis unfolding eq st img by blast
qed

text \<open>What backs a counterpart on L2: a call of the transaction's own receipt that no other transaction
  of its block made, and the only incoming call with that hash in the settled blocks.\<close>

definition counterpart_evidence :: "debug_config \<Rightarrow> history_abi \<Rightarrow> history_rpc \<Rightarrow> string \<Rightarrow> string \<Rightarrow> bool" where
  "counterpart_evidence cfg lib rpc hash h \<longleftrightarrow>
     (\<exists>receipt ranges origins logs key log hashes. hp_receipt rpc L1 hash = Inr (Some receipt)
        \<and> hp_ranges rpc (hr_blockHash receipt) = Inr ranges
        \<and> hp_origins rpc (hr_blockHash receipt) (call_emitters cfg lib receipt) (call_hashes cfg lib receipt) = Inr origins
        \<and> key \<in> set (call_hashes cfg lib receipt)
        \<and> (\<forall>og \<in> set origins. second_topic og = Some key \<longrightarrow> same_hash (rl_transactionHash og) hash)
        \<and> hp_inbound rpc (first_number (settled_blocks receipt ranges)) (last_number (settled_blocks receipt ranges)) hashes = Inr logs
        \<and> rl_transactionHash log = h
        \<and> only_call (incoming_call cfg lib (settled_blocks receipt ranges) hashes) logs key log)"

lemma l1_info_counterparts:
  assumes receipt: "hp_receipt rpc L1 hash = Inr (Some receipt)" and i: "l1_info cfg lib rpc hash receipt info = Inr i"
    and h: "h \<in> set (ht_l2Hashes i)"
  shows "h \<in> set (ht_l2Hashes info) \<or> counterpart_evidence cfg lib rpc hash h"
proof (cases "i = info")
  case False
  from i obtain ranges where r: "hp_ranges rpc (hr_blockHash receipt) = Inr ranges" by (auto simp: l1_info_def res_bind_Inr_iff)
  define blocks where "blocks = settled_blocks receipt ranges"
  define hashes where "hashes = call_hashes cfg lib receipt"
  have ne: "\<not> (blocks = [] \<or> hashes = [])"
    using i False r unfolding l1_info_def Let_def blocks_def hashes_def by auto
  with i r obtain origins where o: "hp_origins rpc (hr_blockHash receipt) (call_emitters cfg lib receipt) hashes = Inr origins"
    unfolding l1_info_def Let_def blocks_def hashes_def by (auto simp: res_bind_Inr_iff)
  define unique where "unique = filter (origin_unique hash origins) hashes"
  have "matched_info cfg lib rpc blocks unique info = Inr i"
    using i False r o ne unfolding l1_info_def Let_def blocks_def [symmetric] hashes_def [symmetric] unique_def
    by (auto split: if_splits simp: blocks_def hashes_def)
  then obtain logs where logs: "hp_inbound rpc (first_number blocks) (last_number blocks) unique = Inr logs"
    and "i = foldl take_match info (foldl (add_match cfg lib blocks unique) [] logs)"
    by (auto simp: matched_info_def res_bind_Inr_iff)
  with h take_matches have "h \<in> set (ht_l2Hashes info) \<or>
      (\<exists>key x log. (key, [(x, log)]) \<in> set (foldl (add_match cfg lib blocks unique) [] logs) \<and> rl_transactionHash log = h)"
    by blast
  then show ?thesis
  proof (elim disjE exE conjE)
    fix key x log
    assume m: "(key, [(x, log)]) \<in> set (foldl (add_match cfg lib blocks unique) [] logs)" and tx: "rl_transactionHash log = h"
    have only: "only_call (incoming_call cfg lib blocks unique) logs key log"
      by (rule matches_single [OF matches_fold m])
    then have "key \<in> set unique" by (auto simp: only_call_def incoming_call_def split: if_splits option.splits)
    then have "key \<in> set hashes" and "\<forall>og \<in> set origins. second_topic og = Some key \<longrightarrow> same_hash (rl_transactionHash og) hash"
      by (auto simp: unique_def origin_unique_iff)
    with receipt r o logs tx only show ?thesis
      unfolding counterpart_evidence_def blocks_def hashes_def by blast
  qed simp
qed (use h in simp)

lemma lookup_chains_cases:
  "lookup_chains cfg lib rpc hash cs errors = Inr info \<Longrightarrow>
     \<exists>c \<in> set cs. \<exists>receipt n. hp_receipt rpc c hash = Inr (Some receipt) \<and> hr_blockNumber receipt = Some n
       \<and> info = receipt_info cfg lib rpc hash c receipt n"
  by (induction cfg lib rpc hash cs errors rule: lookup_chains.induct) (auto split: sum.splits option.splits)

lemma fetch_cases:
  assumes "fetchHistoryTransactions cfg lib rpc hash preferred = Some info"
  obtains (found) c receipt n where "hp_receipt rpc c hash = Inr (Some receipt)" and "hr_blockNumber receipt = Some n"
      and "info = receipt_info cfg lib rpc hash c receipt n"
    | (missing) msg where "info = new_info hash preferred\<lparr>ht_lookupError := Some msg\<rparr>"
proof (cases "lookup_chains cfg lib rpc hash [preferred, if preferred = L1 then L2 else L1] []")
  case (Inl errors)
  with assms missing show thesis by (auto simp: fetchHistoryTransactions_def split: if_splits)
next
  case (Inr i)
  with assms have "i = info" by (simp add: fetchHistoryTransactions_def)
  with lookup_chains_cases [OF Inr] found show thesis by blast
qed

text \<open>What backs a settlement link: the L2 block of the receipt is one of the canonical settlement.\<close>

definition settlement_evidence :: "history_rpc \<Rightarrow> string \<Rightarrow> string \<Rightarrow> bool" where
  "settlement_evidence rpc hash h \<longleftrightarrow>
     (\<exists>receipt st. hp_receipt rpc L2 hash = Inr (Some receipt) \<and> hp_settlement rpc (hr_blockHash receipt) = Inr (Some st)
        \<and> sl_canonicalL2 st \<and> (\<exists>b \<in> set (sl_l2Blocks st). same_hash (snd b) (hr_blockHash receipt)) \<and> sl_l1TransactionHash st = h)"

lemma l2_info_cases:
  assumes "l2_info rpc receipt info = Inr j"
  shows "j = info \<or> (\<exists>st. hp_settlement rpc (hr_blockHash receipt) = Inr (Some st) \<and> sl_canonicalL2 st
     \<and> (\<exists>b \<in> set (sl_l2Blocks st). same_hash (snd b) (hr_blockHash receipt))
     \<and> ht_l1Hash j = Some (sl_l1TransactionHash st) \<and> ht_l2Hashes j = ht_l2Hashes info)"
proof -
  from assms obtain s where s: "hp_settlement rpc (hr_blockHash receipt) = Inr s" by (auto simp: l2_info_def res_bind_Inr_iff)
  show ?thesis
  proof (cases s)
    case None
    with assms s show ?thesis by (simp add: l2_info_def)
  next
    case (Some st)
    with assms s show ?thesis by (simp add: l2_info_def list_ex_iff split: if_splits) auto
  qed
qed

lemma receipt_info_counterparts:
  assumes receipt: "hp_receipt rpc c hash = Inr (Some receipt)" and i: "info = receipt_info cfg lib rpc hash c receipt n"
  shows "\<forall>h \<in> set (ht_l2Hashes info). h = hash \<or> counterpart_evidence cfg lib rpc hash h"
    and "\<forall>h. ht_l1Hash info = Some h \<longrightarrow> h = hash \<or> settlement_evidence rpc hash h"
proof -
  have base: "set (ht_l2Hashes (included_info hash c n)) \<subseteq> {hash}" "ht_l1Hash (included_info hash c n) \<in> {None, Some hash}"
    by (auto simp: included_info_def new_info_def)
  consider (l2) j where "c = L2" "l2_info rpc receipt (included_info hash c n) = Inr j" "info = j"
    | (l1) j where "c = L1" "l1_info cfg lib rpc hash receipt (included_info hash c n) = Inr j" "info = j"
    | (err) "ht_l2Hashes info = ht_l2Hashes (included_info hash c n)" "ht_l1Hash info = ht_l1Hash (included_info hash c n)"
    unfolding i receipt_info_def Let_def
    by (cases c; cases "l2_info rpc receipt (included_info hash c n)"; cases "l1_info cfg lib rpc hash receipt (included_info hash c n)") auto
  then have "(\<forall>h \<in> set (ht_l2Hashes info). h = hash \<or> counterpart_evidence cfg lib rpc hash h)
      \<and> (\<forall>h. ht_l1Hash info = Some h \<longrightarrow> h = hash \<or> settlement_evidence rpc hash h)"
  proof cases
    case l2
    with l2_info_cases [of rpc receipt "included_info hash c n" j] consider "info = included_info hash c n"
      | st where "hp_settlement rpc (hr_blockHash receipt) = Inr (Some st)" "sl_canonicalL2 st"
        "\<exists>b \<in> set (sl_l2Blocks st). same_hash (snd b) (hr_blockHash receipt)"
        "ht_l1Hash info = Some (sl_l1TransactionHash st)" "ht_l2Hashes info = ht_l2Hashes (included_info hash c n)"
      by blast
    then show ?thesis
    proof cases
      case 1
      with base show ?thesis by auto
    next
      case 2
      with receipt l2 have "settlement_evidence rpc hash (sl_l1TransactionHash st)" unfolding settlement_evidence_def by blast
      with 2 base(1) show ?thesis by auto
    qed
  next
    case l1
    have "ht_l1Hash info = ht_l1Hash (included_info hash c n)"
      using l1 by (auto simp: l1_info_def matched_info_def res_bind_Inr_iff Let_def split: if_splits)
    with l1 base receipt show ?thesis using l1_info_counterparts by fastforce
  next
    case err
    with base show ?thesis by auto
  qed
  then show "\<forall>h \<in> set (ht_l2Hashes info). h = hash \<or> counterpart_evidence cfg lib rpc hash h"
    and "\<forall>h. ht_l1Hash info = Some h \<longrightarrow> h = hash \<or> settlement_evidence rpc hash h" by blast+
qed

text \<open>C35. Every transaction that a wallet history entry links to is the entry's own one or is backed
  by evidence: an L2 counterpart by a call of the entry's receipt whose hash no other origin
  transaction of the block has, and by the only transaction of the settled canonical L2 blocks with
  an incoming call of that hash; an L1 settlement by a canonical settlement that contains the block
  of the entry's receipt. Failing lookups add no link.\<close>
theorem history_links_backed:
  assumes "fetchHistoryTransactions cfg lib rpc hash preferred = Some info"
  shows "(\<forall>h \<in> set (ht_l2Hashes info). h = hash \<or> counterpart_evidence cfg lib rpc hash h) \<and>
     (\<forall>h. ht_l1Hash info = Some h \<longrightarrow> h = hash \<or> settlement_evidence rpc hash h)"
  using assms
proof (cases rule: fetch_cases)
  case (found c receipt n)
  with receipt_info_counterparts [OF found(1,3)] show ?thesis by blast
next
  case (missing msg)
  then show ?thesis by (simp add: new_info_def)
qed

text \<open>An L1 call with one incoming call in the settled block.\<close>

definition sample_key :: string where
  "sample_key = ''0x'' @ replicate 64 CHR ''b''"

definition sample_history_log :: "string \<Rightarrow> string \<Rightarrow> raw_log" where
  "sample_history_log address tx = \<lparr>rl_address = address, rl_topics = [''0x0'', sample_key], rl_data = ''0x'', rl_logIndex = 0,
     rl_transactionHash = tx, rl_blockHash = ''0xB1'', rl_blockNumber = 9\<rparr>"

definition sample_incoming_tx :: string where
  "sample_incoming_tx = ''0x'' @ replicate 64 CHR ''c''"

definition sample_history_rpc :: history_rpc where
  "sample_history_rpc = \<lparr>
     hp_receipt = (\<lambda>c h. if c = L1 then Inr (Some \<lparr>hr_blockNumber = Some 4, hr_blockHash = ''0xA1'', hr_logs = [sample_history_log ''0x1'' h]\<rparr>) else Inr None),
     hp_settlement = (\<lambda>h. Inr None),
     hp_ranges = (\<lambda>h. Inr (Some [\<lparr>sl_l1BlockNumber = 4, sl_l1BlockHash = ''0xa1'', sl_l1TransactionHash = ''0x5'',
       sl_l2Blocks = [(8, ''0xb0''), (9, ''0xb1'')], sl_canonicalL2 = True, sl_l2Finalized = True\<rparr>])),
     hp_origins = (\<lambda>h addresses keys. Inr [sample_history_log ''0x1'' ''0xEE'']),
     hp_inbound = (\<lambda>a b keys. Inr [sample_history_log ''0x4200000000000000000000000000000000000007'' sample_incoming_tx])\<rparr>"

definition sample_history_abi :: history_abi where
  "sample_history_abi = \<lparr>ha_l1 = (\<lambda>l. Some (''CrossChainCallExecuted'', [(''crossChainCallHash'', JStr (rl_topics l ! 1))])),
     ha_l2 = (\<lambda>l. Some (''IncomingCrossChainCallExecuted'', [(''crossChainCallHash'', JStr (rl_topics l ! 1))]))\<rparr>"

definition sample_history_config :: debug_config where
  "sample_history_config = \<lparr>cfg_l1Rpc = [], cfg_l2Rpc = [], cfg_rollupsAddress = [], cfg_ccmL2Address = [], cfg_rollupId = ''1''\<rparr>"

lemma sample_history:
  "map_option ht_l2Hashes (fetchHistoryTransactions sample_history_config sample_history_abi sample_history_rpc ''0xee'' L1) = Some [sample_incoming_tx]"
  by code_simp

theorem history_links_backed_witness:
  "counterpart_evidence sample_history_config sample_history_abi sample_history_rpc ''0xee'' sample_incoming_tx"
proof -
  obtain info where info: "fetchHistoryTransactions sample_history_config sample_history_abi sample_history_rpc ''0xee'' L1 = Some info"
    and "ht_l2Hashes info = [sample_incoming_tx]"
    using sample_history by blast
  moreover have "sample_incoming_tx \<noteq> ''0xee''" by (simp add: sample_incoming_tx_def numeral_eq_Suc)
  ultimately show ?thesis using history_links_backed [OF info] by auto
qed

end
