(* ===== verification/Inspection.thy ===== *)
theory Inspection
  imports Debug_Types Live_Batches
begin

text \<open>
  The loading of a context in \<open>src/src/lib/executionDebugger.ts\<close>: transactions with their receipts,
  blocks, the counterpart blocks of a settlement, and the lookups by hash or number.
  The node is the record \<open>inspect_rpc\<close> (a result or the message of an error per request); the
  discovered contracts, a module variable, are passed in and returned, also by a function that
  throws. The members of a group of parallel requests are taken one after the other, in order, and
  the first that fails ends the group. A thrown error is its message.
\<close>

datatype block_item = Full_tx raw_transaction | Tx_hash string

record raw_block =
  rb_number :: int
  rb_hash :: string
  rb_parentHash :: string
  rb_timestamp :: string
  rb_gasUsed :: string
  rb_gasLimit :: string
  rb_transactions :: "block_item list"

record inspect_rpc =
  ir_receipt :: "chain \<Rightarrow> string \<Rightarrow> string + debug_receipt option"
  ir_transaction :: "chain \<Rightarrow> string \<Rightarrow> string + raw_transaction option"
  ir_blockByHash :: "chain \<Rightarrow> string \<Rightarrow> string + raw_block option"
  ir_blockLatest :: "chain \<Rightarrow> string + raw_block option"
  ir_blockByNumber :: "chain \<Rightarrow> int \<Rightarrow> string + raw_block option"
  ir_settlements :: "chain \<Rightarrow> string \<Rightarrow> string + settlement list" \<comment> \<open>by L1 or by L2 block hash\<close>

record loaded_context = debug_context +
  dx_remaining :: "(string \<times> chain) list"
  dx_syncOnly :: bool

text \<open>What the loading reads: the configuration, the ABI library, whether a log decodes as the L1
  \<open>BatchPosted\<close> event, and the node.\<close>

record inspect_env =
  in_config :: debug_config
  in_lib :: abi_lib
  in_posted :: "raw_log \<Rightarrow> bool"
  in_rpc :: inspect_rpc

section \<open>One transaction\<close>

definition receipt_logs :: "debug_receipt option \<Rightarrow> raw_log list" where
  "receipt_logs r = (case r of None \<Rightarrow> [] | Some x \<Rightarrow> dr_logs x)"

definition receipt_succeeded :: "debug_receipt option \<Rightarrow> bool" where
  "receipt_succeeded r = (case r of None \<Rightarrow> False | Some x \<Rightarrow> dr_status x = ''0x1'')"

definition manager_event :: "debug_event \<Rightarrow> bool" where
  "manager_event e \<longleftrightarrow> de_name e \<in> {''ExecutionTableLoaded'', ''ExecutionConsumed'', ''IncomingCrossChainCallExecuted''}
     \<or> de_name e = ''CrossChainCallExecuted'' \<and> js_prop (de_args e) ''callGas'' \<noteq> JUndefined"

definition discover_manager :: "inspect_env \<Rightarrow> debug_receipt option \<Rightarrow> discovered \<Rightarrow> discovered" where
  "discover_manager env receipt dv =
     (if cfg_ccmL2Address (in_config env) \<noteq> [] \<or> \<not> receipt_succeeded receipt then dv
      else case find manager_event (map (decodeProtocolLog (in_lib env) L2) (receipt_logs receipt)) of
        None \<Rightarrow> dv
      | Some e \<Rightarrow> dv\<lparr>dv_managers := jmap_set (cfg_l2Rpc (in_config env)) (rl_address (de_raw e)) (dv_managers dv)\<rparr>)"

definition posted_log :: "inspect_env \<Rightarrow> raw_transaction \<Rightarrow> debug_receipt option \<Rightarrow> raw_log option" where
  "posted_log env tx receipt =
     (case decodeDebugPayload (in_lib env) L1 (rt_input tx) of
        None \<Rightarrow> None
      | Some p \<Rightarrow> if dp_method p = ''postAndVerifyBatch'' then find (in_posted env) (receipt_logs receipt) else None)"

definition discover_registry :: "inspect_env \<Rightarrow> raw_transaction \<Rightarrow> debug_receipt option \<Rightarrow> discovered \<Rightarrow> discovered" where
  "discover_registry env tx receipt dv =
     (let cfg = in_config env
      in case rt_to tx of
           None \<Rightarrow> dv
         | Some to \<Rightarrow>
             if to = [] \<or> \<not> receipt_succeeded receipt then dv
             else case posted_log env tx receipt of
               None \<Rightarrow> dv
             | Some log \<Rightarrow>
                 if cfg_rollupsAddress cfg = [] \<or> isDebugManager cfg dv L1 (Some to) \<or> isDebugManager cfg dv L1 (Some (rl_address log))
                 then dv\<lparr>dv_registries := jmap_set (cfg_l1Rpc cfg) (rl_address log) (dv_registries dv),
                         dv_targets := jmap_set (cfg_l1Rpc cfg)
                           (jset_add (js_lower to) (jset_add (js_lower (rl_address log)) (batch_targets cfg dv))) (dv_targets dv)\<rparr>
                 else dv)"

definition decoded_payload :: "inspect_env \<Rightarrow> discovered \<Rightarrow> chain \<Rightarrow> raw_transaction \<Rightarrow> debug_payload option" where
  "decoded_payload env dv c tx =
     (if isDebugManager (in_config env) dv c (rt_to tx) then decodeDebugPayload (in_lib env) c (rt_input tx) else None)"

definition decoded_events :: "inspect_env \<Rightarrow> discovered \<Rightarrow> chain \<Rightarrow> debug_receipt option \<Rightarrow> debug_event list" where
  "decoded_events env dv c receipt = map (decodeDebugLog (in_lib env) (in_config env) dv c) (receipt_logs receipt)"

definition included_block :: "raw_transaction \<Rightarrow> string option" where
  "included_block tx = (case rt_blockHash tx of None \<Rightarrow> None | Some h \<Rightarrow> if h = [] then None else Some h)"

definition receipt_warnings :: "raw_transaction \<Rightarrow> string + debug_receipt option \<Rightarrow> string list" where
  "receipt_warnings tx r =
     (case r of Inl msg \<Rightarrow> [''Receipt unavailable: '' @ msg] | Inr x \<Rightarrow> []) @
     (if included_block tx \<noteq> None \<and> (case r of Inl msg \<Rightarrow> True | Inr x \<Rightarrow> x = None)
      then [''Receipt is not available for this included transaction; refresh to retry.''] else [])"

definition inspectTransaction :: "inspect_env \<Rightarrow> chain \<Rightarrow> discovered \<Rightarrow> raw_transaction \<Rightarrow> discovered \<times> debug_transaction" where
  "inspectTransaction env c dv tx =
     (let r = ir_receipt (in_rpc env) c (rt_hash tx);
          receipt = (case r of Inl msg \<Rightarrow> None | Inr x \<Rightarrow> x);
          dv' = (if c = L2 then discover_manager env receipt dv else discover_registry env tx receipt dv)
      in (dv', \<lparr>dt_chain = c, dt_tx = tx, dt_receipt = receipt, dt_events = decoded_events env dv' c receipt,
               dt_payload = decoded_payload env dv' c tx, dt_warnings = receipt_warnings tx r\<rparr>))"

section \<open>Blocks\<close>

definition upper_name :: "chain \<Rightarrow> string" where
  "upper_name c = map js_upper_char (chain_str c)"

definition request_block :: "inspect_rpc \<Rightarrow> chain \<Rightarrow> string \<Rightarrow> string + raw_block option" where
  "request_block rpc c selector =
     (if is_hex_of 64 selector then ir_blockByHash rpc c selector
      else if selector = ''latest'' then ir_blockLatest rpc c
      else case string_BigInt selector of
        Inl e \<Rightarrow> Inl (''Cannot convert '' @ selector @ '' to a BigInt'')
      | Inr n \<Rightarrow> ir_blockByNumber rpc c n)"

definition item_transaction :: "inspect_rpc \<Rightarrow> chain \<Rightarrow> block_item \<Rightarrow> string + raw_transaction" where
  "item_transaction rpc c item =
     (case item of
        Full_tx tx \<Rightarrow> Inr tx
      | Tx_hash h \<Rightarrow> res_bind (ir_transaction rpc c h) (\<lambda>t. case t of
          None \<Rightarrow> Inl (''Transaction '' @ h @ '' is unavailable'') | Some tx \<Rightarrow> Inr tx))"

fun inspect_items :: "inspect_env \<Rightarrow> chain \<Rightarrow> discovered \<Rightarrow> block_item list \<Rightarrow> discovered \<times> (string + debug_transaction list)" where
  "inspect_items env c dv [] = (dv, Inr [])"
| "inspect_items env c dv (item # items) =
     (case item_transaction (in_rpc env) c item of
        Inl msg \<Rightarrow> (dv, Inl msg)
      | Inr tx \<Rightarrow>
          (let (dv', t) = inspectTransaction env c dv tx; (dv'', rest) = inspect_items env c dv' items
           in (dv'', res_bind rest (\<lambda>ts. Inr (t # ts)))))"

definition redecode :: "inspect_env \<Rightarrow> discovered \<Rightarrow> chain \<Rightarrow> debug_transaction \<Rightarrow> debug_transaction" where
  "redecode env dv c t = t\<lparr>dt_events := decoded_events env dv c (dt_receipt t), dt_payload := decoded_payload env dv c (dt_tx t)\<rparr>"

definition fetchDebugBlock :: "inspect_env \<Rightarrow> discovered \<Rightarrow> chain \<Rightarrow> string \<Rightarrow> discovered \<times> (string + debug_block)" where
  "fetchDebugBlock env dv c selector =
     (case request_block (in_rpc env) c selector of
        Inl msg \<Rightarrow> (dv, Inl msg)
      | Inr None \<Rightarrow> (dv, Inl (upper_name c @ '' block '' @ selector @ '' was not found''))
      | Inr (Some b) \<Rightarrow>
          (let (dv', r) = inspect_items env c dv (rb_transactions b)
           in (dv', res_bind r (\<lambda>ts. Inr \<lparr>db_chain = c, db_number = rb_number b, db_hash = rb_hash b, db_parentHash = rb_parentHash b,
                db_timestamp = rb_timestamp b, db_gasUsed = rb_gasUsed b, db_gasLimit = rb_gasLimit b,
                db_transactions = map (redecode env dv' c) ts\<rparr>))))"

section \<open>Counterparts\<close>

definition maxBlocks :: nat where
  "maxBlocks = 12"

definition last_block :: "(int \<times> string) option \<Rightarrow> int \<times> string \<Rightarrow> (int \<times> string) option" where
  "last_block l b = (case l of None \<Rightarrow> Some b | Some x \<Rightarrow> if fst b > fst x then Some b else l)"

definition settlement_targets :: "chain \<Rightarrow> bool \<Rightarrow> settlement \<Rightarrow> (string \<times> chain) list" where
  "settlement_targets c syncOnly s =
     (if \<not> sl_canonicalL2 s then []
      else if c = L2 then [(sl_l1BlockHash s, L1)]
      else if syncOnly then (case foldl last_block None (sl_l2Blocks s) of None \<Rightarrow> [] | Some b \<Rightarrow> [(snd b, L2)])
      else map (\<lambda>b. (snd b, L2)) (sl_l2Blocks s))"

definition noncanonical_warnings :: "settlement list \<Rightarrow> string list" where
  "noncanonical_warnings ss =
     map (\<lambda>s. ''Settlement '' @ sl_l1TransactionHash s @ '' references noncanonical L2 blocks.'') (filter (\<lambda>s. \<not> sl_canonicalL2 s) ss)"

definition counterpart_targets :: "chain \<Rightarrow> bool \<Rightarrow> settlement list \<Rightarrow> (string, chain) jmap" where
  "counterpart_targets c syncOnly ss = jmap_set_all (concat (map (settlement_targets c syncOnly) ss)) []"

fun load_blocks :: "inspect_env \<Rightarrow> discovered \<Rightarrow> (string \<times> chain) list \<Rightarrow> discovered \<times> debug_block list \<times> string list" where
  "load_blocks env dv [] = (dv, [], [])"
| "load_blocks env dv ((h, c) # rest) =
     (let (dv', r) = fetchDebugBlock env dv c h; (dv'', blocks, warnings) = load_blocks env dv' rest
      in case r of
           Inl msg \<Rightarrow> (dv'', blocks, (upper_name c @ '' counterpart '' @ h @ '': '' @ msg) # warnings)
         | Inr b \<Rightarrow> (dv'', b # blocks, warnings))"

definition newest_targets :: "(string \<times> chain) list \<Rightarrow> (string \<times> chain) list" where
  "newest_targets ts = drop (length ts - maxBlocks) ts" \<comment> \<open>\<open>slice(-12)\<close>\<close>

definition older_targets :: "(string \<times> chain) list \<Rightarrow> (string \<times> chain) list" where
  "older_targets ts = take (length ts - maxBlocks) ts"

definition redecode_block :: "inspect_env \<Rightarrow> discovered \<Rightarrow> debug_block \<Rightarrow> debug_block" where
  "redecode_block env dv b = b\<lparr>db_transactions := map (\<lambda>t. t\<lparr>dt_events := decoded_events env dv (db_chain b) (dt_receipt t)\<rparr>) (db_transactions b)\<rparr>"

definition registry_warning :: "inspect_env \<Rightarrow> discovered \<Rightarrow> debug_block list \<Rightarrow> string list" where
  "registry_warning env dv blocks =
     (if managerAddress (in_config env) dv L1 = [] \<and> list_ex (\<lambda>b. db_chain b = L1) blocks
      then [''L1 registry address is not configured and no batch identified it. Raw receipts and traces are available; set the rollups URL parameter to decode L1 EEZ events.'']
      else [])"

definition batch_settlements :: "debug_transaction option \<Rightarrow> settlement list \<Rightarrow> settlement list" where
  "batch_settlements selected ss =
     (case selected of
        None \<Rightarrow> ss
      | Some t \<Rightarrow>
          (case dt_payload t of
             None \<Rightarrow> ss
           | Some p \<Rightarrow> if dp_method p = ''postAndVerifyBatch'' then filter (\<lambda>s. same_text (sl_l1TransactionHash s) (rt_hash (dt_tx t))) ss else ss))"

definition source_context :: "debug_block \<Rightarrow> debug_transaction option \<Rightarrow> bool \<Rightarrow> loaded_context" where
  "source_context b selected syncOnly = \<lparr>dx_sourceChain = db_chain b, dx_sourceBlock = Some b, dx_selected = selected, dx_blocks = [b],
     dx_settlements = [], dx_warnings = [], dx_remaining = [], dx_syncOnly = (syncOnly \<and> db_chain b = L1)\<rparr>"

text \<open>The last loop decodes the events of the context again; \<open>selected\<close> and the source block are
  objects of these blocks, so they change with them.\<close>

definition with_targets :: "inspect_env \<Rightarrow> discovered \<Rightarrow> debug_block \<Rightarrow> debug_transaction option \<Rightarrow> bool \<Rightarrow> settlement list
    \<Rightarrow> discovered \<times> loaded_context" where
  "with_targets env dv b selected syncOnly ss =
     (let ordered = counterpart_targets (db_chain b) syncOnly ss;
          (dv', blocks, failures) = load_blocks env dv (newest_targets ordered);
          source = redecode_block env dv' b; all = source # map (redecode_block env dv') blocks
      in (dv', \<lparr>dx_sourceChain = db_chain b, dx_sourceBlock = Some source,
           dx_selected = map_option (\<lambda>t. t\<lparr>dt_events := decoded_events env dv' (db_chain b) (dt_receipt t)\<rparr>) selected,
           dx_blocks = all, dx_settlements = ss,
           dx_warnings = (if ss = [] then [''No indexed settlement for this block yet. Cross-chain execution may precede settlement; inspect the counterpart hash directly.''] else [])
             @ noncanonical_warnings ss @ failures @ registry_warning env dv' all,
           dx_remaining = older_targets ordered, dx_syncOnly = (syncOnly \<and> db_chain b = L1)\<rparr>))"

definition withCounterpart :: "inspect_env \<Rightarrow> discovered \<Rightarrow> debug_block \<Rightarrow> debug_transaction option \<Rightarrow> bool \<Rightarrow> discovered \<times> loaded_context" where
  "withCounterpart env dv b selected syncOnly =
     (case ir_settlements (in_rpc env) (db_chain b) (db_hash b) of
        Inl msg \<Rightarrow> (dv, (source_context b selected syncOnly)\<lparr>dx_warnings := [''Settlement index unavailable: '' @ msg
          @ ''. Inspect either chain directly or supply the counterpart transaction hash.'']\<rparr>)
      | Inr response \<Rightarrow> with_targets env dv b selected syncOnly (batch_settlements selected response))"

definition loadMoreDebugBlocks :: "inspect_env \<Rightarrow> discovered \<Rightarrow> loaded_context \<Rightarrow> discovered \<times> loaded_context" where
  "loadMoreDebugBlocks env dv context =
     (let (dv', blocks, failures) = load_blocks env dv (newest_targets (dx_remaining context))
      in (dv', context\<lparr>dx_blocks := dx_blocks context @ blocks, dx_remaining := older_targets (dx_remaining context),
           dx_warnings := dx_warnings context @ failures\<rparr>))"

text \<open>
  The lookups of the inspector (\<open>inspectDebugBlock\<close>, \<open>inspectDebugTransaction\<close>, \<open>inspectExecution\<close>
  and \<open>inspectPostedBatch\<close> of \<open>src/src/lib/executionDebugger.ts\<close>): which context a hash or a number
  gives, and with which message a lookup fails. A chain that is not given (\<open>auto\<close>) is \<^const>\<open>None\<close>.
\<close>

datatype inspection_kind = IK_transaction | IK_block

section \<open>Transactions\<close>

definition inspectDebugBlock :: "inspect_env \<Rightarrow> discovered \<Rightarrow> chain \<Rightarrow> string \<Rightarrow> bool \<Rightarrow> discovered \<times> (string + loaded_context)" where
  "inspectDebugBlock env dv c selector syncOnly =
     (case fetchDebugBlock env dv c selector of
        (dv', Inl msg) \<Rightarrow> (dv', Inl msg)
      | (dv', Inr b) \<Rightarrow> (let (dv'', context) = withCounterpart env dv' b None syncOnly in (dv'', Inr context)))"

definition lookup_chains_of :: "chain option \<Rightarrow> chain list" where
  "lookup_chains_of c = (case c of None \<Rightarrow> [L1, L2] | Some x \<Rightarrow> [x])"

definition found_transactions :: "inspect_rpc \<Rightarrow> string \<Rightarrow> chain list \<Rightarrow> (chain \<times> raw_transaction) list" where
  "found_transactions rpc hash cs =
     List.map_filter (\<lambda>c. case ir_transaction rpc c hash of Inr (Some tx) \<Rightarrow> Some (c, tx) | _ \<Rightarrow> None) cs"

definition transaction_errors :: "inspect_rpc \<Rightarrow> string \<Rightarrow> chain list \<Rightarrow> string list" where
  "transaction_errors rpc hash cs =
     List.map_filter (\<lambda>c. case ir_transaction rpc c hash of Inl msg \<Rightarrow> Some (upper_name c @ '': '' @ msg) | Inr t \<Rightarrow> None) cs"

definition not_found_text :: "chain option \<Rightarrow> string list \<Rightarrow> string" where
  "not_found_text c errors =
     ''Transaction not found on '' @ (case c of None \<Rightarrow> ''L1 or L2'' | Some x \<Rightarrow> upper_name x) @ ''.''
       @ (if errors \<noteq> [] then '' RPC errors: '' @ js_join ''; '' errors else [])"

definition pending_context :: "chain \<Rightarrow> debug_transaction \<Rightarrow> loaded_context" where
  "pending_context c selected = \<lparr>dx_sourceChain = c, dx_sourceBlock = None, dx_selected = Some selected, dx_blocks = [], dx_settlements = [],
     dx_warnings = [''Transaction is pending. Refresh after inclusion to inspect execution.''], dx_remaining = [], dx_syncOnly = False\<rparr>"

definition block_transaction :: "debug_block \<Rightarrow> string \<Rightarrow> debug_transaction option" where
  "block_transaction b hash = find (\<lambda>t. same_text (rt_hash (dt_tx t)) hash) (db_transactions b)"

definition inspect_found :: "inspect_env \<Rightarrow> discovered \<Rightarrow> chain \<Rightarrow> raw_transaction \<Rightarrow> string \<Rightarrow> bool \<Rightarrow> discovered \<times> (string + loaded_context)" where
  "inspect_found env dv c tx hash syncOnly =
     (case included_block tx of
        None \<Rightarrow> (let (dv', t) = inspectTransaction env c dv tx in (dv', Inr (pending_context c t)))
      | Some h \<Rightarrow>
          (case fetchDebugBlock env dv c h of
             (dv', Inl msg) \<Rightarrow> (dv', Inl msg)
           | (dv', Inr b) \<Rightarrow>
               (case block_transaction b hash of
                  None \<Rightarrow> (dv', Inl ''Transaction is missing from its reported block; retry after the chain head stabilizes.'')
                | Some t \<Rightarrow> (let (dv'', context) = withCounterpart env dv' b (Some t) syncOnly in (dv'', Inr context)))))"

definition inspectDebugTransaction :: "inspect_env \<Rightarrow> discovered \<Rightarrow> string \<Rightarrow> chain option \<Rightarrow> bool \<Rightarrow> discovered \<times> (string + loaded_context)" where
  "inspectDebugTransaction env dv hash c syncOnly =
     (if \<not> is_hex_of 64 hash then (dv, Inl ''Enter a transaction hash: 0x followed by 64 hexadecimal characters.'')
      else case found_transactions (in_rpc env) hash (lookup_chains_of c) of
        [] \<Rightarrow> (dv, Inl (not_found_text c (transaction_errors (in_rpc env) hash (lookup_chains_of c))))
      | [(fc, tx)] \<Rightarrow> inspect_found env dv fc tx hash syncOnly
      | _ \<Rightarrow> (dv, Inl ''This hash exists on both chains. Select L1 or L2 to inspect it.''))"

section \<open>Hashes, numbers and posted batches\<close>

definition is_space :: "char \<Rightarrow> bool" where
  "is_space ch \<longleftrightarrow> (of_char ch :: nat) \<in> {9, 10, 11, 12, 13, 32}"

definition js_trim :: "string \<Rightarrow> string" where
  "js_trim s = rev (dropWhile is_space (rev (dropWhile is_space s)))"

text \<open>\<open>/^(latest|\d+|0x[\da-f]+)$/i\<close>.\<close>

definition is_selector :: "string \<Rightarrow> bool" where
  "is_selector s \<longleftrightarrow> js_lower s = ''latest''
     \<or> s \<noteq> [] \<and> list_all (\<lambda>ch. case digit_value ch of Some d \<Rightarrow> d < 10 | None \<Rightarrow> False) s
     \<or> is_hex_text s \<and> length s > 2"

fun inspect_chains :: "inspect_env \<Rightarrow> discovered \<Rightarrow> chain list \<Rightarrow> string \<Rightarrow> discovered \<times> (chain \<times> (string + loaded_context)) list" where
  "inspect_chains env dv [] query = (dv, [])"
| "inspect_chains env dv (c # cs) query =
     (let (dv', r) = inspectDebugBlock env dv c query True; (dv'', rest) = inspect_chains env dv' cs query
      in (dv'', (c, r) # rest))"

definition ok_contexts :: "(chain \<times> (string + loaded_context)) list \<Rightarrow> loaded_context list" where
  "ok_contexts rs = List.map_filter (\<lambda>(c, r). case r of Inl msg \<Rightarrow> None | Inr x \<Rightarrow> Some x) rs"

definition chain_errors :: "(chain \<times> (string + loaded_context)) list \<Rightarrow> string list" where
  "chain_errors rs = List.map_filter (\<lambda>(c, r). case r of Inl msg \<Rightarrow> Some (upper_name c @ '': '' @ msg) | Inr x \<Rightarrow> None) rs"

definition inspect_block_query :: "inspect_env \<Rightarrow> discovered \<Rightarrow> string \<Rightarrow> chain option \<Rightarrow> string option
    \<Rightarrow> discovered \<times> (string + loaded_context \<times> inspection_kind)" where
  "inspect_block_query env dv query c transactionError =
     (let chains = (case c of None \<Rightarrow> if is_hex_of 64 query then [L1, L2] else [L1] | Some x \<Rightarrow> [x]);
          (dv', results) = inspect_chains env dv chains query
      in case ok_contexts results of
           [] \<Rightarrow> (dv', Inl ((case transactionError of None \<Rightarrow> [] | Some msg \<Rightarrow> msg @ '' '') @ ''Block lookup failed. ''
                  @ js_join ''; '' (chain_errors results)))
         | [x] \<Rightarrow> (dv', Inr (x, IK_block))
         | _ \<Rightarrow> (dv', Inl ''This block hash exists on both chains. Select L1 or L2 to inspect it.''))"

definition inspectExecution :: "inspect_env \<Rightarrow> discovered \<Rightarrow> string \<Rightarrow> chain option \<Rightarrow> inspection_kind option
    \<Rightarrow> discovered \<times> (string + loaded_context \<times> inspection_kind)" where
  "inspectExecution env dv text c kind =
     (let query = js_trim text
      in if \<not> is_selector query then (dv, Inl ''Enter a transaction hash, block number, block hash, or latest.'')
         else if kind = Some IK_transaction \<or> kind = None \<and> is_hex_of 64 query then
           (case inspectDebugTransaction env dv query c True of
              (dv', Inr x) \<Rightarrow> (dv', Inr (x, IK_transaction))
            | (dv', Inl msg) \<Rightarrow>
                if kind = Some IK_transaction \<or> \<not> js_starts_with msg ''Transaction not found on '' then (dv', Inl msg)
                else inspect_block_query env dv' query c (Some msg))
         else inspect_block_query env dv query c None)"

definition inspectPostedBatch :: "inspect_env \<Rightarrow> discovered \<Rightarrow> live_batch \<Rightarrow> discovered \<times> (string + loaded_context)" where
  "inspectPostedBatch env dv batch =
     (case fetchDebugBlock env dv L1 (lb_blockHash batch) of
        (dv', Inl msg) \<Rightarrow> (dv', Inl msg)
      | (dv', Inr b) \<Rightarrow>
          if \<not> same_text (db_hash b) (lb_blockHash batch) \<or> db_number b \<noteq> lb_blockNumber batch
          then (dv', Inl ''Batch block changed; retrying inspection'')
          else (case block_transaction b (lb_transactionHash batch) of
              None \<Rightarrow> (dv', Inl ''Posted transaction is missing from its block; retrying inspection'')
            | Some t \<Rightarrow> (let (dv'', context) = withCounterpart env dv' b (Some t) True in (dv'', Inr context))))"

end
