(* ===== verification/Inspection_Properties.thy ===== *)
theory Inspection_Properties
  imports Inspection
begin

text \<open>
  What a loaded context promises: loading more ends with every indexed counterpart loaded or
  reported, and a transaction that is found is the selected one, in its source block.
\<close>

section \<open>Loading more blocks\<close>

lemma load_blocks_count:
  "load_blocks env dv ts = (dv', blocks, warnings) \<Longrightarrow> length blocks + length warnings = length ts"
  by (induction env dv ts arbitrary: dv' blocks warnings rule: load_blocks.induct)
     (fastforce split: prod.splits sum.splits)+

lemma newest_older: "older_targets ts @ newest_targets ts = ts"
  by (simp add: older_targets_def newest_targets_def)

fun load_times :: "nat \<Rightarrow> inspect_env \<Rightarrow> discovered \<times> loaded_context \<Rightarrow> discovered \<times> loaded_context" where
  "load_times 0 env s = s"
| "load_times (Suc k) env s = load_times k env (loadMoreDebugBlocks env (fst s) (snd s))"

definition seen_blocks :: "loaded_context \<Rightarrow> nat" where
  "seen_blocks x = length (dx_blocks x) + length (dx_warnings x)"

lemma load_more_step:
  assumes "loadMoreDebugBlocks env dv x = (dv', y)"
  shows "dx_remaining y = older_targets (dx_remaining x)"
    and "seen_blocks y + length (dx_remaining y) = seen_blocks x + length (dx_remaining x)"
    and "\<exists>bs. dx_blocks y = dx_blocks x @ bs"
proof -
  obtain dv1 blocks failures where l: "load_blocks env dv (newest_targets (dx_remaining x)) = (dv1, blocks, failures)"
    using prod_cases3 by blast
  have len: "length (dx_remaining x) = length (older_targets (dx_remaining x)) + length (newest_targets (dx_remaining x))"
    by (metis length_append newest_older)
  from assms l len load_blocks_count [OF l] show "dx_remaining y = older_targets (dx_remaining x)"
    and "seen_blocks y + length (dx_remaining y) = seen_blocks x + length (dx_remaining x)"
    and "\<exists>bs. dx_blocks y = dx_blocks x @ bs"
    by (auto simp: loadMoreDebugBlocks_def seen_blocks_def)
qed

lemma load_times_props:
  "dx_remaining (snd (load_times k env s)) = take (length (dx_remaining (snd s)) - maxBlocks * k) (dx_remaining (snd s))
   \<and> seen_blocks (snd (load_times k env s)) + length (dx_remaining (snd (load_times k env s))) = seen_blocks (snd s) + length (dx_remaining (snd s))
   \<and> (\<exists>bs. dx_blocks (snd (load_times k env s)) = dx_blocks (snd s) @ bs)"
proof (induction k arbitrary: s)
  case (Suc k)
  obtain dv' y where y: "loadMoreDebugBlocks env (fst s) (snd s) = (dv', y)" by fastforce
  note step = load_more_step [OF y]
  have rem: "dx_remaining y = take (length (dx_remaining (snd s)) - maxBlocks) (dx_remaining (snd s))"
    using step(1) by (simp add: older_targets_def)
  from Suc.IH [of "(dv', y)"] have IH:
    "dx_remaining (snd (load_times k env (dv', y))) = take (length (dx_remaining y) - maxBlocks * k) (dx_remaining y)"
    "seen_blocks (snd (load_times k env (dv', y))) + length (dx_remaining (snd (load_times k env (dv', y)))) = seen_blocks y + length (dx_remaining y)"
    "\<exists>bs. dx_blocks (snd (load_times k env (dv', y))) = dx_blocks y @ bs"
    unfolding snd_conv by blast+
  have "dx_remaining (snd (load_times k env (dv', y))) = take (length (dx_remaining (snd s)) - maxBlocks * Suc k) (dx_remaining (snd s))"
  proof -
    have "length (dx_remaining (snd s)) - maxBlocks - maxBlocks * k = length (dx_remaining (snd s)) - maxBlocks * Suc k" by simp
    then show ?thesis unfolding IH(1) rem by (simp add: take_take min_absorb1)
  qed
  with IH(2,3) step(2,3) y show ?case by auto
qed simp

text \<open>Loading more blocks ends: after one call per twelve remaining counterparts nothing remains,
  the blocks that were loaded before stay in front, and each of the remaining counterparts has given
  either one more block or one more warning.\<close>
theorem load_more_terminates:
  assumes "length (dx_remaining x) \<le> 12 * k"
  shows "dx_remaining (snd (load_times k env (dv, x))) = [] \<and>
     (\<exists>bs. dx_blocks (snd (load_times k env (dv, x))) = dx_blocks x @ bs) \<and>
     length (dx_blocks (snd (load_times k env (dv, x)))) + length (dx_warnings (snd (load_times k env (dv, x)))) =
       length (dx_blocks x) + length (dx_warnings x) + length (dx_remaining x)"
proof -
  note props = load_times_props [of k env "(dv, x)", unfolded snd_conv]
  have "dx_remaining (snd (load_times k env (dv, x))) = []" using props assms by (simp add: maxBlocks_def)
  with props show ?thesis by (simp add: seen_blocks_def)
qed

text \<open>A node that knows one block of one transaction on L2, by its hash.\<close>

definition sample_hash64 :: string where
  "sample_hash64 = ''0x'' @ replicate 64 CHR ''d''"

definition sample_raw_tx :: raw_transaction where
  "sample_raw_tx = \<lparr>rt_hash = sample_hash64, rt_from = ''0x3'', rt_to = Some ''0x42'', rt_input = ''0x'', rt_value = ''0x0'',
     rt_blockNumber = Some 7, rt_blockHash = Some sample_hash64, rt_transactionIndex = Some 0\<rparr>"

definition sample_inspect_rpc :: inspect_rpc where
  "sample_inspect_rpc = \<lparr>ir_receipt = (\<lambda>c h. Inr None), ir_transaction = (\<lambda>c h. Inr (if c = L2 then Some sample_raw_tx else None)),
     ir_blockByHash = (\<lambda>c h. if h = sample_hash64 then Inr (Some \<lparr>rb_number = 7, rb_hash = h, rb_parentHash = ''0x0'', rb_timestamp = ''0x0'',
       rb_gasUsed = ''0x0'', rb_gasLimit = ''0x0'', rb_transactions = [Full_tx sample_raw_tx]\<rparr>) else Inr None),
     ir_blockLatest = (\<lambda>c. Inr (Some \<lparr>rb_number = 9, rb_hash = ''0x9'', rb_parentHash = ''0x0'', rb_timestamp = ''0x0'',
       rb_gasUsed = ''0x0'', rb_gasLimit = ''0x0'', rb_transactions = [Full_tx sample_raw_tx]\<rparr>)), ir_blockByNumber = (\<lambda>c n. Inr None), ir_settlements = (\<lambda>c h. Inl ''down'')\<rparr>"

definition sample_inspect_env :: inspect_env where
  "sample_inspect_env = \<lparr>in_config = \<lparr>cfg_l1Rpc = [], cfg_l2Rpc = [], cfg_rollupsAddress = [], cfg_ccmL2Address = ''0x42'', cfg_rollupId = ''1''\<rparr>,
     in_lib = \<lparr>abi_events = (\<lambda>c. []), abi_call = (\<lambda>c s. None), abi_error = (\<lambda>c s. None)\<rparr>, in_posted = (\<lambda>l. False), in_rpc = sample_inspect_rpc\<rparr>"

definition no_discovered :: discovered where
  "no_discovered = \<lparr>dv_registries = [], dv_targets = [], dv_managers = []\<rparr>"

definition sample_remaining :: loaded_context where
  "sample_remaining = \<lparr>dx_sourceChain = L1, dx_sourceBlock = None, dx_selected = None, dx_blocks = [], dx_settlements = [],
     dx_warnings = [], dx_remaining = replicate 14 (sample_hash64, L2), dx_syncOnly = False\<rparr>"

theorem load_more_terminates_witness:
  "dx_remaining (snd (load_times 2 sample_inspect_env (no_discovered, sample_remaining))) = [] \<and>
     length (dx_blocks (snd (load_times 2 sample_inspect_env (no_discovered, sample_remaining))))
       + length (dx_warnings (snd (load_times 2 sample_inspect_env (no_discovered, sample_remaining)))) = 14"
  using load_more_terminates [of sample_remaining 2 sample_inspect_env no_discovered] by (simp add: sample_remaining_def)

section \<open>The selected transaction\<close>

lemma redecode_block_fields [simp]:
  "db_chain (redecode_block env dv b) = db_chain b" "db_hash (redecode_block env dv b) = db_hash b"
  by (simp_all add: redecode_block_def)

lemma block_transaction_Some: "block_transaction b hash = Some t \<Longrightarrow> t \<in> set (db_transactions b) \<and> same_text (rt_hash (dt_tx t)) hash"
  unfolding block_transaction_def by (auto dest: find_Some_mem)

lemma load_blocks_number: "load_blocks env dv ts = (dv', blocks, warnings) \<Longrightarrow> length blocks \<le> length ts"
  using load_blocks_count by fastforce

text \<open>A block as the node returned it: its number, hash and parent, and its transactions in order, those given by hash read one by one.\<close>

definition block_item_is :: "inspect_rpc \<Rightarrow> chain \<Rightarrow> block_item \<Rightarrow> raw_transaction \<Rightarrow> bool" where
  "block_item_is rpc c item tx \<longleftrightarrow> item = Full_tx tx \<or> (\<exists>h. item = Tx_hash h \<and> ir_transaction rpc c h = Inr (Some tx))"

definition shows_block :: "inspect_rpc \<Rightarrow> chain \<Rightarrow> raw_block \<Rightarrow> debug_block \<Rightarrow> bool" where
  "shows_block rpc c rb b \<longleftrightarrow> db_chain b = c \<and> db_number b = rb_number rb \<and> db_hash b = rb_hash rb \<and> db_parentHash b = rb_parentHash rb
     \<and> list_all2 (block_item_is rpc c) (rb_transactions rb) (map dt_tx (db_transactions b))"

text \<open>The context of a block with a transaction selected in it.\<close>

definition selected_in :: "inspect_rpc \<Rightarrow> loaded_context \<Rightarrow> chain \<Rightarrow> raw_block \<Rightarrow> string \<Rightarrow> bool" where
  "selected_in rpc x c rb hash \<longleftrightarrow> (\<exists>b t. dx_sourceBlock x = Some b \<and> shows_block rpc c rb b \<and> dx_selected x = Some t \<and> t \<in> set (db_transactions b)
     \<and> dx_sourceChain x = c \<and> hd (dx_blocks x) = b \<and> same_text (rt_hash (dt_tx t)) hash \<and> length (dx_blocks x) \<le> 13)"

lemma redecode_shows: "shows_block rpc c rb b \<Longrightarrow> shows_block rpc c rb (redecode_block env dv b)"
  by (simp add: shows_block_def redecode_block_def comp_def)

lemma withCounterpart_selected:
  assumes "withCounterpart env dv b (Some t) syncOnly = (dv', x)" and "block_transaction b hash = Some t" and b: "shows_block rpc c rb b"
  shows "selected_in rpc x c rb hash"
proof (cases "ir_settlements (in_rpc env) (db_chain b) (db_hash b)")
  case (Inl msg)
  with assms block_transaction_Some show ?thesis
    by (auto simp: withCounterpart_def source_context_def selected_in_def shows_block_def)
next
  case (Inr response)
  define ordered where "ordered = counterpart_targets (db_chain b) syncOnly (batch_settlements (Some t) response)"
  obtain dv1 blocks failures where l: "load_blocks env dv (newest_targets ordered) = (dv1, blocks, failures)"
    using prod_cases3 by blast
  have "length blocks \<le> 12" using load_blocks_number [OF l] by (simp add: newest_targets_def maxBlocks_def)
  moreover have "db_chain b = c" using b by (simp add: shows_block_def)
  moreover have "t\<lparr>dt_events := decoded_events env dv1 (db_chain b) (dt_receipt t)\<rparr> \<in> set (db_transactions (redecode_block env dv1 b))"
    using block_transaction_Some [OF assms(2)] by (auto simp: redecode_block_def)
  moreover note redecode_shows [OF b, of env dv1] block_transaction_Some [OF assms(2)]
  ultimately show ?thesis
    using Inr assms(1) l by (auto simp: withCounterpart_def with_targets_def ordered_def [symmetric] selected_in_def Let_def)
qed

lemma inspect_items_shown:
  "inspect_items env c dv items = (dv', Inr ts) \<Longrightarrow> list_all2 (block_item_is (in_rpc env) c) items (map dt_tx ts)"
proof (induction env c dv items arbitrary: dv' ts rule: inspect_items.induct)
  case (2 env c dv item items)
  from 2(2) obtain tx where tx: "item_transaction (in_rpc env) c item = Inr tx" by (auto split: sum.splits)
  obtain dv1 t where t: "inspectTransaction env c dv tx = (dv1, t)" by fastforce
  obtain dv2 rest where rest: "inspect_items env c dv1 items = (dv2, rest)" by fastforce
  from 2(2) tx t rest obtain us where us: "rest = Inr us" "ts = t # us" by (auto simp: res_bind_Inr_iff)
  have "dt_tx t = tx" using t by (auto simp: inspectTransaction_def Let_def)
  moreover have "block_item_is (in_rpc env) c item tx"
    using tx by (cases item) (auto simp: item_transaction_def block_item_is_def res_bind_Inr_iff split: option.splits)
  moreover have "list_all2 (block_item_is (in_rpc env) c) items (map dt_tx us)"
    using 2(1) [OF tx refl t [symmetric]] rest us(1) by simp
  ultimately show ?case using us(2) by simp
qed simp

lemma fetchDebugBlock_shows:
  assumes "fetchDebugBlock env dv c h = (dv', Inr b)"
  shows "\<exists>rb. request_block (in_rpc env) c h = Inr (Some rb) \<and> shows_block (in_rpc env) c rb b"
proof -
  from assms obtain rb where rb: "request_block (in_rpc env) c h = Inr (Some rb)" by (auto simp: fetchDebugBlock_def split: sum.splits option.splits)
  obtain dv1 r where items: "inspect_items env c dv (rb_transactions rb) = (dv1, r)" by fastforce
  from assms rb items obtain ts where r: "r = Inr ts"
    and b: "b = \<lparr>db_chain = c, db_number = rb_number rb, db_hash = rb_hash rb, db_parentHash = rb_parentHash rb,
                db_timestamp = rb_timestamp rb, db_gasUsed = rb_gasUsed rb, db_gasLimit = rb_gasLimit rb,
                db_transactions = map (redecode env dv' c) ts\<rparr>"
    by (auto simp: fetchDebugBlock_def res_bind_Inr_iff)
  from inspect_items_shown [OF items [unfolded r]] have "shows_block (in_rpc env) c rb b"
    by (simp add: shows_block_def b redecode_def comp_def)
  with rb show ?thesis by blast
qed

text \<open>The block that a transaction reports: its hash, and the block that the node returns for this hash.\<close>

definition reported_block :: "inspect_rpc \<Rightarrow> chain \<Rightarrow> raw_transaction \<Rightarrow> raw_block \<Rightarrow> bool" where
  "reported_block rpc c tx rb \<longleftrightarrow> (\<exists>h. rt_blockHash tx = Some h \<and> h \<noteq> []
     \<and> (if is_hex_of 64 h then ir_blockByHash rpc c h = Inr (Some rb) else request_block rpc c h = Inr (Some rb)))"

lemma inspect_found_ok:
  assumes "inspect_found env dv c tx hash syncOnly = (dv', Inr x)"
  shows "included_block tx = None \<and> dx_sourceBlock x = None \<and> map_option dt_tx (dx_selected x) = Some tx
    \<or> (\<exists>rb. reported_block (in_rpc env) c tx rb \<and> selected_in (in_rpc env) x c rb hash)"
proof (cases "included_block tx")
  case None
  with assms show ?thesis
    by (auto simp: inspect_found_def pending_context_def inspectTransaction_def Let_def split: prod.splits)
next
  case (Some h)
  with assms obtain dv1 b t where b: "fetchDebugBlock env dv c h = (dv1, Inr b)" and t: "block_transaction b hash = Some t"
    and w: "withCounterpart env dv1 b (Some t) syncOnly = (dv', x)"
    by (auto simp: inspect_found_def split: prod.splits sum.splits option.splits)
  from fetchDebugBlock_shows [OF b] obtain rb where rb: "request_block (in_rpc env) c h = Inr (Some rb)" "shows_block (in_rpc env) c rb b" by blast
  have "rt_blockHash tx = Some h \<and> h \<noteq> []" using Some by (auto simp: included_block_def split: option.splits if_splits)
  with rb(1) have "reported_block (in_rpc env) c tx rb" by (auto simp: reported_block_def request_block_def)
  with withCounterpart_selected [OF w t rb(2)] show ?thesis by blast
qed

lemma found_transactions_iff:
  "(c, tx) \<in> set (found_transactions rpc hash cs) \<longleftrightarrow> c \<in> set cs \<and> ir_transaction rpc c hash = Inr (Some tx)"
proof (induction cs)
  case (Cons d cs)
  have "found_transactions rpc hash (d # cs) =
      (case ir_transaction rpc d hash of Inr (Some u) \<Rightarrow> [(d, u)] | _ \<Rightarrow> []) @ found_transactions rpc hash cs"
    by (auto simp: found_transactions_def map_filter_simps split: sum.splits option.splits)
  with Cons show ?case by (auto split: sum.splits option.splits)
qed (simp add: found_transactions_def map_filter_simps)

text \<open>C37. A transaction lookup that succeeds found the hash on exactly one of the chains it searched;
  it selects that transaction: while it names no block, alone as pending; otherwise inside its reported block, which is the block that the
  node of its chain returned for the block hash of the transaction, shown with its number, hash, parent and transactions as returned, and the
  first of at most thirteen blocks of the context.\<close>
theorem inspected_transaction_found:
  assumes "inspectDebugTransaction env dv hash chain syncOnly = (dv', Inr x)"
  shows "is_hex_of 64 hash \<and> (\<exists>c tx. c \<in> set (lookup_chains_of chain) \<and> ir_transaction (in_rpc env) c hash = Inr (Some tx)
     \<and> (\<forall>d \<in> set (lookup_chains_of chain). \<forall>u. ir_transaction (in_rpc env) d hash = Inr (Some u) \<longrightarrow> d = c)
     \<and> (included_block tx = None \<and> dx_sourceBlock x = None \<and> map_option dt_tx (dx_selected x) = Some tx
        \<or> (\<exists>rb. reported_block (in_rpc env) c tx rb \<and> selected_in (in_rpc env) x c rb hash)))"
proof -
  define found where "found = found_transactions (in_rpc env) hash (lookup_chains_of chain)"
  from assms obtain c tx where h: "is_hex_of 64 hash" and one: "found = [(c, tx)]"
    and i: "inspect_found env dv c tx hash syncOnly = (dv', Inr x)"
    unfolding inspectDebugTransaction_def found_def [symmetric] by (auto split: if_splits list.splits)
  have "(d, u) \<in> set found \<longleftrightarrow> (d, u) = (c, tx)" for d u using one by simp
  then show ?thesis
    using h inspect_found_ok [OF i] unfolding found_def found_transactions_iff by blast
qed

lemma sample_inspected:
  "map_sum id (\<lambda>x. length (dx_blocks x)) (snd (inspectDebugTransaction sample_inspect_env no_discovered sample_hash64 None False)) = Inr 1"
  by code_simp

theorem inspected_transaction_found_witness:
  "\<exists>dv' x rb. inspectDebugTransaction sample_inspect_env no_discovered sample_hash64 None False = (dv', Inr x)
     \<and> ir_blockByHash sample_inspect_rpc L2 sample_hash64 = Inr (Some rb) \<and> selected_in sample_inspect_rpc x L2 rb sample_hash64"
proof -
  obtain dv' r where r: "inspectDebugTransaction sample_inspect_env no_discovered sample_hash64 None False = (dv', r)" by fastforce
  with sample_inspected obtain x where "r = Inr x" by (cases r) auto
  with r have x: "inspectDebugTransaction sample_inspect_env no_discovered sample_hash64 None False = (dv', Inr x)" by simp
  have "c = L2 \<and> tx = sample_raw_tx" if "ir_transaction (in_rpc sample_inspect_env) c sample_hash64 = Inr (Some tx)" for c tx
    using that by (simp add: sample_inspect_env_def sample_inspect_rpc_def split: if_splits)
  moreover have "included_block sample_raw_tx \<noteq> None" by (simp add: included_block_def sample_raw_tx_def sample_hash64_def)
  ultimately obtain rb where rb: "reported_block sample_inspect_rpc L2 sample_raw_tx rb" "selected_in sample_inspect_rpc x L2 rb sample_hash64"
    using inspected_transaction_found [OF x] by (metis inspect_env.select_convs(4) sample_inspect_env_def)
  have "is_hex_of 64 sample_hash64" by code_simp
  with rb(1) have "ir_blockByHash sample_inspect_rpc L2 sample_hash64 = Inr (Some rb)" by (simp add: reported_block_def sample_raw_tx_def)
  with x rb(2) show ?thesis by blast
qed

end
