(* ===== verification/Fee_Quote.thy ===== *)
theory Fee_Quote
  imports Js_Value
begin

text \<open>
  \<open>src/src/lib/fees/l2-fees.mjs\<close> and \<open>payment.mjs\<close>: a fee quote of the Composer, bound to one
  transaction, and the one wallet request it leads to. Transactions, quotes and wallet answers are
  untyped JavaScript values. \<open>keccak256\<close> (of a UTF-8 text) is a parameter, the clock a reading per
  validation, the Composer and the wallet functions that answer or throw.
\<close>

section \<open>Quantities\<close>

text \<open>\<open>/^0x(?:0|[1-9a-f][0-9a-f]*)$/i\<close>.\<close>

definition canonical_hex :: "string \<Rightarrow> bool" where
  "canonical_hex s \<longleftrightarrow> is_hex_text s \<and> length s > 2 \<and> (s ! 2 = CHR ''0'' \<longrightarrow> length s = 3)"

definition quantity :: "js \<Rightarrow> js_error + int" where
  "quantity v =
     (case v of
        JStr s \<Rightarrow> if \<not> canonical_hex s \<or> length s > 66 then throw ''Expected a canonical hex quantity'' else string_BigInt s
      | _ \<Rightarrow> throw ''Expected a canonical hex quantity'')"

definition is_safe_integer :: "int \<Rightarrow> bool" where
  "is_safe_integer n \<longleftrightarrow> \<bar>n\<bar> \<le> 9007199254740991"

definition walletQuantity :: "js \<Rightarrow> string \<Rightarrow> js_error + int" where
  "walletQuantity v field =
     (let bad = throw (''Invalid wallet '' @ field @ '': expected a hex quantity or non-negative safe integer'')
      in case v of
           JNum n \<Rightarrow> if is_safe_integer n \<and> n \<ge> 0 then Inr n else bad
         | JStr s \<Rightarrow> if is_hex_text s \<and> 3 \<le> length s \<and> length s \<le> 66 then string_BigInt s else bad
         | _ \<Rightarrow> bad)"

section \<open>Transactions\<close>

definition transactionKeys :: "string list" where
  "transactionKeys = [''type'', ''chainId'', ''from'', ''to'', ''nonce'', ''gas'', ''value'', ''data'']"

definition quantityKeys :: "string list" where
  "quantityKeys = [''type'', ''chainId'', ''nonce'', ''gas'', ''value'', ''gasPrice'', ''maxPriorityFeePerGas'', ''maxFeePerGas'']"

definition feeKeys :: "int \<Rightarrow> string list" where
  "feeKeys type = (if type = 0 then [''gasPrice''] else [''maxPriorityFeePerGas'', ''maxFeePerGas''])"

text \<open>\<open>Object.keys\<close>, and the pairs that an object spread copies.\<close>

fun own_pairs :: "js \<Rightarrow> (string \<times> js) list" where
  "own_pairs (JObj kvs) = kvs"
| "own_pairs (JArr vs) = map (\<lambda>i. (show_nat i, vs ! i)) [0 ..< length vs]"
| "own_pairs (JStr s) = map (\<lambda>i. (show_nat i, JStr [s ! i])) [0 ..< length s]"
| "own_pairs _ = []"

definition is_array :: "js \<Rightarrow> bool" where
  "is_array v = (case v of JArr vs \<Rightarrow> True | _ \<Rightarrow> False)"

definition has_prop :: "string \<Rightarrow> js_object \<Rightarrow> bool" where
  "has_prop k ob \<longleftrightarrow> k \<in> set (jmap_keys ob)"

definition exactKeys :: "js_object \<Rightarrow> string list \<Rightarrow> js_error + unit" where
  "exactKeys ob keys =
     (if length (jmap_keys ob) \<noteq> length keys \<or> list_ex (\<lambda>k. \<not> has_prop k ob) keys then throw ''Unexpected transaction fields'' else Inr ())"

text \<open>\<open>/^0x[0-9a-f]{40}$/i.test(value)\<close> reads a text of any value; its result is only a text when
  \<open>toLowerCase\<close> is called on it.\<close>

definition checked_addresses :: "js_object \<Rightarrow> js_error + unit" where
  "checked_addresses ob =
     (if list_ex (\<lambda>k. \<not> is_hex_of 40 (js_string (js_prop ob k))) [''from'', ''to''] then throw ''Invalid address'' else Inr ())"

definition checked_calldata :: "js \<Rightarrow> js_error + unit" where
  "checked_calldata v =
     (case v of
        JStr s \<Rightarrow> if \<not> is_hex_text s \<or> odd (length s) \<or> int (length s) > 2 + 2 * 64 * 1024 then throw ''Invalid calldata'' else Inr ()
      | _ \<Rightarrow> throw ''Invalid calldata'')"

definition checked_quantities :: "js_object \<Rightarrow> js_error + int list" where
  "checked_quantities ob = res_map (\<lambda>k. quantity (js_prop ob k)) (filter (\<lambda>k. has_prop k ob) quantityKeys)"

definition validateTransaction :: "js_object \<Rightarrow> js_error + unit" where
  "validateTransaction ob =
     res_bind (exactKeys ob transactionKeys) (\<lambda>_.
     res_bind (checked_quantities ob) (\<lambda>_.
     res_bind (quantity (js_prop ob ''type'')) (\<lambda>type.
     res_bind (quantity (js_prop ob ''chainId'')) (\<lambda>chainId.
       if type \<notin> {0, 2} \<or> chainId = 0 then throw ''Expected a legacy or type-2 chain-specific transaction''
       else res_bind (checked_addresses ob) (\<lambda>_.
         res_bind (checked_calldata (js_prop ob ''data'')) (\<lambda>_.
         res_bind (quantity (js_prop ob ''gas'')) (\<lambda>gas.
           if gas < 21000 \<or> gas > 16777216 then throw ''Gas outside quote profile'' else Inr ())))))))"

definition transaction_defaults :: js_object where
  "transaction_defaults = [(''type'', JStr ''0x2''), (''chainId'', JStr ''0x1''), (''nonce'', JStr ''0x0''), (''gas'', JStr ''0x1000000''),
     (''value'', JStr ''0x0''), (''data'', JStr ''0x'')]"

definition normal_value :: "string \<times> js \<Rightarrow> js_error + string \<times> js" where
  "normal_value = (\<lambda>(k, v).
     if k \<in> set quantityKeys then res_bind (quantity v) (\<lambda>n. Inr (k, JStr (hex_of n)))
     else (case v of JStr s \<Rightarrow> Inr (k, JStr (js_lower s)) | _ \<Rightarrow> Inl TypeError))"

definition normalizeTransaction :: "js \<Rightarrow> js_error + js_object" where
  "normalizeTransaction transaction =
     (if \<not> js_truthy transaction \<or> is_array transaction \<or> list_ex (\<lambda>(k, v). k \<notin> set transactionKeys) (own_pairs transaction)
      then throw ''Unexpected transaction fields''
      else let normalized = jmap_set_all (own_pairs transaction) transaction_defaults
           in res_bind (validateTransaction normalized) (\<lambda>_. res_map normal_value normalized))"

section \<open>Asking for a quote\<close>

text \<open>A property of a member of an array: \<open>null\<close> and \<open>undefined\<close> have none.\<close>

definition js_member :: "js \<Rightarrow> string \<Rightarrow> js_error + js" where
  "js_member v k = (if js_nullish v then Inl TypeError else Inr (js_field v k))"

definition fee_type_known :: "js \<Rightarrow> bool" where
  "fee_type_known v \<longleftrightarrow> v = JStr ''0x0'' \<or> v = JStr ''0x2''"

text \<open>\<open>transaction.k && quantity(transaction.k) !== n\<close>.\<close>

definition differs :: "js \<Rightarrow> js_error + int \<Rightarrow> js_error + bool" where
  "differs v n = (if \<not> js_truthy v then Inr False else res_bind (quantity v) (\<lambda>a. res_bind n (\<lambda>b. Inr (a \<noteq> b))))"

definition requested_types :: "js \<Rightarrow> js list" where
  "requested_types transaction =
     (if js_truthy (js_field transaction ''type'') then [js_field transaction ''type''] else [JStr ''0x0'', JStr ''0x2''])"

fun some_other_type :: "js list \<Rightarrow> js list \<Rightarrow> js_error + bool" where
  "some_other_type (option # options) (t # types) =
     res_bind (js_member option ''type'') (\<lambda>v. if \<not> js_strict_eq v t then Inr True else some_other_type options types)"
| "some_other_type _ _ = Inr False"

definition changed_options :: "js list \<Rightarrow> js \<Rightarrow> js_error + bool" where
  "changed_options types quote =
     (case js_field quote ''options'' of
        JArr options \<Rightarrow> if length options \<noteq> length types then Inr True else some_other_type options types
      | _ \<Rightarrow> Inr True)"

text \<open>The Composer is a function of the transaction and the requested types, which the caller may give.\<close>

definition bad_types :: "js \<Rightarrow> js \<Rightarrow> js_error + bool" where
  "bad_types transaction types =
     (case types of
        JArr ts \<Rightarrow>
          if ts = [] \<or> length ts > 2 \<or> list_ex (\<lambda>t. \<not> fee_type_known t) ts \<or> \<not> distinct ts then Inr True
          else if \<not> js_truthy (js_field transaction ''type'') then Inr False
          else if length ts \<noteq> 1 then Inr True
          else res_bind (quantity (hd ts)) (\<lambda>x. res_bind (quantity (js_field transaction ''type'')) (\<lambda>y. Inr (x \<noteq> y)))
      | _ \<Rightarrow> Inr True)"

definition array_of :: "js \<Rightarrow> js list" where
  "array_of v = (case v of JArr vs \<Rightarrow> vs | _ \<Rightarrow> [])"

definition requestFeeQuote :: "(js \<Rightarrow> js list \<Rightarrow> js_error + js) \<Rightarrow> js \<Rightarrow> js \<Rightarrow> js_error + js" where
  "requestFeeQuote rpc transaction transactionTypes =
     res_bind (normalizeTransaction transaction) (\<lambda>_.
       let types = js_coalesce transactionTypes (JArr (requested_types transaction))
       in res_bind (bad_types transaction types) (\<lambda>bad.
            if bad then throw ''Invalid transactionTypes''
            else res_bind (rpc transaction (array_of types)) (\<lambda>quote.
              res_bind (changed_options (array_of types) quote) (\<lambda>changed.
                if changed then throw ''Quote changed requested transaction types'' else Inr quote))))"

section \<open>Binding a quote to the transaction\<close>

record fee_args =
  fa_quote :: js
  fa_transaction :: js
  fa_type :: js
  fa_chainId :: js
  fa_maxTotalFee :: js

definition quote_expired :: "js \<Rightarrow> js \<Rightarrow> js_error + bool" where
  "quote_expired now expiresAt =
     res_bind (quantity expiresAt) (\<lambda>e.
       Inr (case now of JNum n \<Rightarrow> \<not> is_safe_integer n \<or> e * 1000 \<le> n \<or> e * 1000 > n + 31000 | _ \<Rightarrow> True))"

definition chain_mismatch :: "fee_args \<Rightarrow> js_error + bool" where
  "chain_mismatch a =
     res_bind (quantity (fa_chainId a)) (\<lambda>c. res_bind (quantity (js_field (fa_quote a) ''chainId'')) (\<lambda>q.
       if c \<noteq> q then Inr True else differs (js_field (fa_transaction a) ''chainId'') (Inr c)))"

definition type_mismatch :: "fee_args \<Rightarrow> js_error + bool" where
  "type_mismatch a =
     (if \<not> fee_type_known (fa_type a) then Inr True else differs (js_field (fa_transaction a) ''type'') (quantity (fa_type a)))"

fun some_unknown_type :: "js list \<Rightarrow> js_error + bool" where
  "some_unknown_type [] = Inr False"
| "some_unknown_type (option # options) =
     res_bind (js_member option ''type'') (\<lambda>v. if \<not> fee_type_known v then Inr True else some_unknown_type options)"

definition bad_options :: "js \<Rightarrow> js_error + bool" where
  "bad_options v =
     (case v of
        JArr options \<Rightarrow>
          if options = [] \<or> length options > 2 then Inr True
          else res_bind (some_unknown_type options) (\<lambda>bad. Inr (bad \<or> \<not> distinct (map (\<lambda>x. js_field x ''type'') options)))
      | _ \<Rightarrow> Inr True)"

definition option_code :: "js option \<Rightarrow> string" where
  "option_code m = (case m of None \<Rightarrow> ''missing'' | Some v \<Rightarrow>
     js_string (js_coalesce (js_field (js_field v ''error'') ''code'') (JStr ''missing'')))"

definition object_of :: "js \<Rightarrow> js_object" where
  "object_of v = (case v of JObj ob \<Rightarrow> ob | _ \<Rightarrow> [])"

definition selected_option :: "fee_args \<Rightarrow> js_error + js_object" where
  "selected_option a =
     (let found = find (\<lambda>x. js_strict_eq (js_field x ''type'') (fa_type a)) (array_of (js_field (fa_quote a) ''options''))
      in case found of
           None \<Rightarrow> throw (''Fee option unavailable: '' @ option_code found)
         | Some v \<Rightarrow> if js_truthy (js_field v ''error'') then throw (''Fee option unavailable: '' @ option_code found) else Inr (object_of v))"

definition resolve_key :: "js \<Rightarrow> string \<Rightarrow> js \<Rightarrow> js_object \<Rightarrow> js_error + js_object" where
  "resolve_key transaction k resolved normalized =
     (let asked = js_field transaction k
      in res_bind (if js_nullish asked then Inr False
                   else res_bind (quantity asked) (\<lambda>x. res_bind (quantity resolved) (\<lambda>y. Inr (x \<noteq> y)))) (\<lambda>changed.
           if changed then throw (''Quote changed '' @ k)
           else res_bind (quantity resolved) (\<lambda>n. Inr (jmap_set k (JStr (hex_of n)) normalized))))"

text \<open>\<open>JSON.stringify\<close> of an object of texts without quotes, backslashes or control characters: the
  values are hexadecimal here.\<close>

definition json_member :: "js_object \<Rightarrow> string \<Rightarrow> string" where
  "json_member ob k = [CHR 0x22] @ k @ [CHR 0x22] @ '':'' @ [CHR 0x22] @ js_string (js_prop ob k) @ [CHR 0x22]"

definition sorted_transactionKeys :: "string list" where
  "sorted_transactionKeys = [''chainId'', ''data'', ''from'', ''gas'', ''nonce'', ''to'', ''type'', ''value'']"

definition canonical_json :: "js_object \<Rightarrow> string" where
  "canonical_json ob = ''{'' @ js_join '','' (map (json_member ob) sorted_transactionKeys) @ ''}''"

definition binding_mismatch :: "(string \<Rightarrow> string) \<Rightarrow> js_object \<Rightarrow> js \<Rightarrow> bool" where
  "binding_mismatch keccak256 normalized requestHash =
     (case requestHash of
        JStr h \<Rightarrow> \<not> (is_hex_of 64 h) \<or> js_lower (keccak256 (canonical_json normalized)) \<noteq> js_lower h
      | _ \<Rightarrow> True)"

definition fee_cap :: "js \<Rightarrow> js_object \<Rightarrow> js_error + int" where
  "fee_cap type option =
     res_bind (quantity (js_prop option (if type = JStr ''0x0'' then ''gasPrice'' else ''maxFeePerGas''))) (\<lambda>cap.
       if cap > 2 ^ 128 - 1 then throw ''Invalid fee fields''
       else if type = JStr ''0x2'' then
         res_bind (quantity (js_prop option ''maxPriorityFeePerGas'')) (\<lambda>tip. if tip > cap then throw ''Invalid fee fields'' else Inr cap)
       else Inr cap)"

definition option_keys :: "js \<Rightarrow> string list" where
  "option_keys type = [''type'', ''gas'', ''requestHash'', ''estimatedFee''] @ (if type = JStr ''0x0'' then feeKeys 0 else feeKeys 2)"

definition with_fees :: "js \<Rightarrow> js_object \<Rightarrow> js_object \<Rightarrow> js_object" where
  "with_fees type option normalized =
     jmap_set_all (map (\<lambda>k. (k, js_prop option k)) (if type = JStr ''0x0'' then feeKeys 0 else feeKeys 2)) normalized"

definition checked_fees :: "int \<Rightarrow> js \<Rightarrow> js_object \<Rightarrow> js_object \<Rightarrow> js_error + js_object" where
  "checked_fees maxTotalFee type option normalized =
     res_bind (fee_cap type option) (\<lambda>cap.
     res_bind (quantity (js_prop option ''gas'')) (\<lambda>gas.
     res_bind (quantity (js_prop option ''estimatedFee'')) (\<lambda>estimated.
       if estimated > gas * cap then throw ''Inconsistent estimated fee''
       else if gas * cap > maxTotalFee then throw ''Quoted maximum fee exceeds app limit''
       else Inr (with_fees type option normalized))))"

definition bound_transaction :: "(string \<Rightarrow> string) \<Rightarrow> fee_args \<Rightarrow> js_object \<Rightarrow> js_object \<Rightarrow> js_error + js_object" where
  "bound_transaction keccak256 a option normalized =
     res_bind (resolve_key (fa_transaction a) ''gas'' (js_prop option ''gas'') normalized) (\<lambda>n1.
     res_bind (resolve_key (fa_transaction a) ''nonce'' (js_field (fa_quote a) ''nonce'') n1) (\<lambda>n2.
     res_bind (quantity (fa_chainId a)) (\<lambda>c.
       let n3 = jmap_set ''chainId'' (JStr (hex_of c)) (jmap_set ''type'' (fa_type a) n2)
       in res_bind (validateTransaction n3) (\<lambda>_.
          res_bind (quantity (js_prop n3 ''nonce'')) (\<lambda>nonce.
          res_bind (quantity (js_prop n3 ''chainId'')) (\<lambda>chainId.
            if nonce > 2 ^ 64 - 1 \<or> chainId > 2 ^ 64 - 1 then throw ''Quantity exceeds u64''
            else if binding_mismatch keccak256 n3 (js_prop option ''requestHash'') then throw ''Quote transaction binding mismatch''
            else Inr n3))))))"

definition feeQuoteTransaction :: "(string \<Rightarrow> string) \<Rightarrow> js \<Rightarrow> fee_args \<Rightarrow> js_error + js_object" where
  "feeQuoteTransaction keccak256 now a =
     res_bind (normalizeTransaction (fa_transaction a)) (\<lambda>normalized.
       if \<not> js_strict_eq (js_field (fa_quote a) ''version'') (JNum 1) then throw ''Unsupported fee quote''
       else (case fa_maxTotalFee a of
          JBig maxTotalFee \<Rightarrow>
            if maxTotalFee < 0 then throw ''A bigint maxTotalFee is required''
            else res_bind (chain_mismatch a) (\<lambda>m1. if m1 then throw ''Quote chain mismatch''
            else res_bind (quote_expired now (js_field (fa_quote a) ''expiresAt'')) (\<lambda>m2. if m2 then throw ''Quote expired or invalid clock''
            else res_bind (type_mismatch a) (\<lambda>m3. if m3 then throw ''Quote type mismatch''
            else res_bind (bad_options (js_field (fa_quote a) ''options'')) (\<lambda>m4. if m4 then throw ''Invalid quote options''
            else res_bind (selected_option a) (\<lambda>option.
                 res_bind (exactKeys option (option_keys (fa_type a))) (\<lambda>_.
                 res_bind (bound_transaction keccak256 a option normalized) (\<lambda>bound.
                 checked_fees maxTotalFee (fa_type a) option bound)))))))
        | _ \<Rightarrow> throw ''A bigint maxTotalFee is required''))"

text \<open>
  From a payment of the application to the one request the wallet gets
  (\<open>sendFeeQuotedTransaction\<close> of \<open>l2-fees.mjs\<close>, and \<open>src/src/lib/fees/payment.mjs\<close>). The result of a
  send is the transaction that is handed to the wallet. The clock is read once per validation; the
  readings are arguments.
\<close>

record fee_wallet =
  fw_isRabby :: bool
  fw_chainId :: "js_error + js"
  fw_accounts :: "js_error + js"
  fw_nonce :: "js \<Rightarrow> js_error + js" \<comment> \<open>the pending transaction count of an address\<close>

definition has_account :: "js \<Rightarrow> js \<Rightarrow> bool" where
  "has_account accounts sender \<longleftrightarrow>
     (case accounts of JArr vs \<Rightarrow> list_ex (\<lambda>v. case v of JStr s \<Rightarrow> js_strict_eq (JStr (js_lower s)) sender | _ \<Rightarrow> False) vs | _ \<Rightarrow> False)"

definition same_quantity :: "js \<Rightarrow> string \<Rightarrow> js \<Rightarrow> js_error + bool" where
  "same_quantity answer field v = res_bind (walletQuantity answer field) (\<lambda>x. res_bind (quantity v) (\<lambda>y. Inr (x = y)))"

definition sendFeeQuotedTransaction :: "(string \<Rightarrow> string) \<Rightarrow> int \<Rightarrow> int \<Rightarrow> fee_wallet \<Rightarrow> fee_args \<Rightarrow> js_error + js_object" where
  "sendFeeQuotedTransaction keccak256 now1 now2 wallet a =
     res_bind (feeQuoteTransaction keccak256 (JNum now1) a) (\<lambda>tx.
     res_bind (fw_chainId wallet) (\<lambda>chain.
     res_bind (fw_accounts wallet) (\<lambda>accounts.
     res_bind (fw_nonce wallet (js_prop tx ''from'')) (\<lambda>nonce.
     res_bind (same_quantity chain ''chain ID'' (js_prop tx ''chainId'')) (\<lambda>chain_ok.
       if \<not> chain_ok then throw ''Wallet is on a different chain''
       else if \<not> has_account accounts (js_prop tx ''from'') then throw ''Wallet account changed''
       else res_bind (same_quantity nonce ''pending nonce'' (js_prop tx ''nonce'')) (\<lambda>nonce_ok.
         if \<not> nonce_ok then throw ''Wallet nonce changed; request a new quote''
         else feeQuoteTransaction keccak256 (JNum now2) a))))))"

section \<open>The payment of the application\<close>

text \<open>The fields of the payment are texts (\<open>Record<string, string>\<close>); \<open>BigInt\<close> of one may throw.\<close>

type_synonym payment_fields = "(string, string) jmap"

definition allowed_fields :: "string list" where
  "allowed_fields = [''to'', ''data'', ''value'', ''gas'', ''gasLimit'', ''from'', ''chainId'', ''type'', ''nonce'']"

definition given :: "payment_fields \<Rightarrow> string \<Rightarrow> string option" where
  "given tx k = (case jmap_get tx k of None \<Rightarrow> None | Some v \<Rightarrow> if v = [] then None else Some v)" \<comment> \<open>truthy\<close>

definition or_default :: "string option \<Rightarrow> string \<Rightarrow> string" where
  "or_default m d = (case m of None \<Rightarrow> d | Some v \<Rightarrow> v)" \<comment> \<open>\<open>??\<close>\<close>

definition unequal :: "string option \<Rightarrow> string option \<Rightarrow> js_error + bool" where
  "unequal a b =
     (case (a, b) of
        (Some x, Some y) \<Rightarrow> res_bind (string_BigInt x) (\<lambda>m. res_bind (string_BigInt y) (\<lambda>n. Inr (m \<noteq> n)))
      | _ \<Rightarrow> Inr False)"

definition payment_type :: "payment_fields \<Rightarrow> bool \<Rightarrow> string \<Rightarrow> js_error + string" where
  "payment_type tx isRabby chainId =
     (case jmap_get tx ''type'' of
        Some t \<Rightarrow> Inr t
      | None \<Rightarrow> if \<not> isRabby then Inr ''0x2''
          else res_bind (string_BigInt chainId) (\<lambda>c. Inr (if c \<noteq> 1 then ''0x0'' else ''0x2'')))"

definition optional_hex :: "string \<Rightarrow> string option \<Rightarrow> js_error + (string \<times> js) list" where
  "optional_hex k m =
     (case m of None \<Rightarrow> Inr [] | Some v \<Rightarrow> res_bind (string_BigInt v) (\<lambda>n. Inr [(k, JStr (hex_of n))]))"

definition payment_gas :: "payment_fields \<Rightarrow> string option" where
  "payment_gas tx = (case jmap_get tx ''gas'' of None \<Rightarrow> jmap_get tx ''gasLimit'' | Some g \<Rightarrow> Some g)"

definition payment_transaction :: "payment_fields \<Rightarrow> string \<Rightarrow> string \<Rightarrow> int \<Rightarrow> js_error + js" where
  "payment_transaction tx sender chainId type =
     res_bind (string_BigInt chainId) (\<lambda>c.
     res_bind (string_BigInt (or_default (jmap_get tx ''value'') ''0x0'')) (\<lambda>value.
     res_bind (optional_hex ''gas'' (payment_gas tx)) (\<lambda>gas.
     res_bind (optional_hex ''nonce'' (jmap_get tx ''nonce'')) (\<lambda>nonce.
       Inr (JObj ([(''type'', JStr (hex_of type)), (''chainId'', JStr (hex_of c)), (''from'', JStr sender),
         (''to'', case jmap_get tx ''to'' of None \<Rightarrow> JUndefined | Some v \<Rightarrow> JStr v), (''value'', JStr (hex_of value)),
         (''data'', JStr (or_default (jmap_get tx ''data'') ''0x''))] @ gas @ nonce))))))"

record fee_options =
  fo_tx :: payment_fields
  fo_from :: string
  fo_chainId :: string
  fo_rpc :: "js \<Rightarrow> js list \<Rightarrow> js_error + js"
  fo_wallet :: fee_wallet
  fo_maxTotalFee :: int
  fo_log :: bool \<comment> \<open>whether a \<open>log\<close> callback is given\<close>

definition unsigned_payment :: "fee_options \<Rightarrow> js_error + js" where
  "unsigned_payment p =
     (let tx = fo_tx p
      in if list_ex (\<lambda>k. k \<notin> set allowed_fields) (jmap_keys tx) then throw ''Unsupported fee-quoted transaction field''
         else if (case given tx ''from'' of None \<Rightarrow> False | Some f \<Rightarrow> js_lower f \<noteq> js_lower (fo_from p)) then throw ''Transaction sender changed''
         else res_bind (unequal (given tx ''chainId'') (Some (fo_chainId p))) (\<lambda>chain_changed.
           if chain_changed then throw ''Transaction chain changed''
           else res_bind (payment_type tx (fw_isRabby (fo_wallet p)) (fo_chainId p)) (\<lambda>t.
             res_bind (string_BigInt t) (\<lambda>type.
               if type \<notin> {0, 2} then throw ''Settlement fee quotes require legacy or type-2 transactions''
               else res_bind (unequal (given tx ''gas'') (given tx ''gasLimit'')) (\<lambda>conflict.
                 if conflict then throw ''Conflicting gas limits'' else payment_transaction tx (fo_from p) (fo_chainId p) type)))))"

definition fee_args_of :: "fee_options \<Rightarrow> js \<Rightarrow> js \<Rightarrow> fee_args" where
  "fee_args_of p transaction quote = \<lparr>fa_quote = quote, fa_transaction = transaction, fa_type = js_field transaction ''type'',
     fa_chainId = js_field transaction ''chainId'', fa_maxTotalFee = JBig (fo_maxTotalFee p)\<rparr>"

definition prepareCrossChainFees :: "(string \<Rightarrow> string) \<Rightarrow> int \<Rightarrow> fee_options \<Rightarrow> js_error + fee_args \<times> js_object" where
  "prepareCrossChainFees keccak256 now p =
     res_bind (unsigned_payment p) (\<lambda>transaction.
     res_bind (requestFeeQuote (fo_rpc p) transaction JUndefined) (\<lambda>quote.
     res_bind (feeQuoteTransaction keccak256 (JNum now) (fee_args_of p transaction quote)) (\<lambda>tx.
       Inr (fee_args_of p transaction quote, tx))))"

definition quoteCrossChainFees :: "(string \<Rightarrow> string) \<Rightarrow> int \<Rightarrow> fee_options \<Rightarrow> js_error + js_object \<times> js" where
  "quoteCrossChainFees keccak256 now p =
     res_bind (prepareCrossChainFees keccak256 now p) (\<lambda>(a, tx). Inr (tx, js_field (fa_quote a) ''expiresAt''))"

definition fee_log :: "fee_args \<Rightarrow> js_object \<Rightarrow> js_error + string" where
  "fee_log a tx =
     res_bind (js_BigInt (js_field (case array_of (js_field (fa_quote a) ''options'') of [] \<Rightarrow> JUndefined | v # vs \<Rightarrow> v) ''estimatedFee'')) (\<lambda>estimated.
     res_bind (js_BigInt (js_prop tx ''gas'')) (\<lambda>gas.
     res_bind (js_BigInt (js_coalesce (js_prop tx ''gasPrice'') (js_prop tx ''maxFeePerGas''))) (\<lambda>price.
       Inr (''Estimated source-chain fee: '' @ show_int estimated @ '' wei; wallet fee cap '' @ show_int (gas * price) @ '' wei''))))"

definition sendCrossChainWithFees :: "(string \<Rightarrow> string) \<Rightarrow> int \<Rightarrow> int \<Rightarrow> int \<Rightarrow> fee_options \<Rightarrow> js_error + js_object" where
  "sendCrossChainWithFees keccak256 now0 now1 now2 p =
     res_bind (prepareCrossChainFees keccak256 now0 p) (\<lambda>(a, tx).
     res_bind (if fo_log p then fee_log a tx else Inr []) (\<lambda>_.
       sendFeeQuotedTransaction keccak256 now1 now2 (fo_wallet p) a))"

end
