(* ===== verification/Fee_Properties.thy ===== *)
theory Fee_Properties
  imports Fee_Quote
begin

text \<open>
  What an accepted fee quote guarantees, and what the wallet is asked to sign: the maximum fee stays
  within the limit of the application, the transaction is the requested one, bound to the quote by its
  hash, and nothing else than the previewed transaction reaches the wallet.
\<close>

lemma js_prop_set: "js_prop (jmap_set k v m) k' = (if k' = k then v else js_prop m k')"
  by (simp add: js_prop_def)

lemma map_of_rev: "distinct (map fst kvs) \<Longrightarrow> map_of (rev kvs) k = map_of kvs k"
  by (metis distinct_rev map_of_eqI map_of_inject_set rev_map set_rev)

lemma digits_nonneg: "parse_digits b s = Inr n \<Longrightarrow> 0 \<le> n"
  by (auto simp: parse_digits_def split: if_splits option.splits)

lemma lower_x: "js_lower_char y = CHR ''x'' \<Longrightarrow> y = CHR ''x'' \<or> y = CHR ''X''"
proof (cases "65 \<le> (of_char y :: nat) \<and> (of_char y :: nat) \<le> 90")
  case True
  assume "js_lower_char y = CHR ''x''"
  with True have "(of_char (char_of (of_char y + 32 :: nat)) :: nat) = of_char (CHR ''x'')" by (simp add: js_lower_char_def)
  with True have "(of_char y :: nat) = of_char (CHR ''X'')" by simp
  then have "y = CHR ''X''" by (simp only: of_char_eq_iff)
  then show ?thesis by (rule disjI2)
qed (auto simp: js_lower_char_def Let_def)

lemma quantity_Inr: "quantity v = Inr n \<Longrightarrow> \<exists>s. v = JStr s \<and> is_hex_text s \<and> string_BigInt s = Inr n \<and> 0 \<le> n"
proof (cases v)
  case (JStr s)
  assume "quantity v = Inr n"
  with JStr have h: "is_hex_text s" "s \<noteq> []" and n: "string_BigInt s = Inr n"
    by (auto simp: quantity_def canonical_hex_def split: if_splits)
  then obtain x y r where s: "s = x # y # r" by (cases s; cases "tl s") (auto simp: is_hex_text_def)
  with h have xy: "x = CHR ''0''" "js_lower_char y = CHR ''x''" by (auto simp: is_hex_text_def)
  then have "y = CHR ''x'' \<or> y = CHR ''X''" using lower_x by blast
  with n s xy have "parse_digits 16 r = Inr n" by (auto simp: string_BigInt_def)
  with JStr h n show ?thesis by (auto dest: digits_nonneg)
qed (simp_all add: quantity_def)

lemma quantity_hex_of: "quantity (JStr (hex_of n)) = Inr m \<Longrightarrow> m = n \<and> 0 \<le> n"
proof (cases "n < 0")
  case True
  then have "\<not> is_hex_text (hex_of n)" by (simp add: hex_of_def is_hex_text_def is_hex_digit_def digit_value_def)
  then show "quantity (JStr (hex_of n)) = Inr m \<Longrightarrow> m = n \<and> 0 \<le> n" by (auto simp: quantity_def canonical_hex_def)
next
  case False
  then show "quantity (JStr (hex_of n)) = Inr m \<Longrightarrow> m = n \<and> 0 \<le> n"
    by (auto simp: quantity_def string_BigInt_hex_of split: if_splits)
qed

lemma normal_values_get:
  assumes "res_map normal_value m = Inr n"
  shows "jmap_get n k = (case jmap_get m k of None \<Rightarrow> None | Some v \<Rightarrow> (case normal_value (k, v) of Inr p \<Rightarrow> Some (snd p) | Inl e \<Rightarrow> None))"
  using assms
proof (induction m arbitrary: n)
  case (Cons kv m)
  obtain k0 v0 where kv: "kv = (k0, v0)" by fastforce
  from Cons.prems obtain p n' where p: "normal_value (k0, v0) = Inr p" and r: "res_map normal_value m = Inr n'" and n: "n = p # n'"
    by (auto simp: kv res_bind_Inr_iff)
  have "fst p = k0" using p by (auto simp: normal_value_def res_bind_Inr_iff split: if_splits js.splits)
  then show ?case using Cons.IH [OF r] p by (cases p) (simp add: kv n jmap_get_def)
qed (simp add: jmap_get_def)

definition asked_field :: "js_object \<Rightarrow> string \<Rightarrow> js" where
  "asked_field ob k = (case jmap_get ob k of None \<Rightarrow> js_prop transaction_defaults k | Some v \<Rightarrow> v)"

definition fee_price :: "js_object \<Rightarrow> js" where
  "fee_price tx = (if js_prop tx ''type'' = JStr ''0x0'' then js_prop tx ''gasPrice'' else js_prop tx ''maxFeePerGas'')"

definition within_limit :: "int \<Rightarrow> js_object \<Rightarrow> bool" where
  "within_limit m tx \<longleftrightarrow> (\<exists>g cap. js_prop tx ''gas'' = JStr (hex_of g) \<and> 21000 \<le> g \<and> g \<le> 16777216
     \<and> quantity (fee_price tx) = Inr cap \<and> 0 \<le> cap \<and> g * cap \<le> m)"

definition keeps_request :: "js_object \<Rightarrow> js_object \<Rightarrow> bool" where
  "keeps_request ob tx \<longleftrightarrow>
     (\<forall>k \<in> {''from'', ''to'', ''data''}. js_prop tx k = JStr (js_lower (js_string (asked_field ob k)))) \<and>
     (\<exists>v \<ge> 0. quantity (asked_field ob ''value'') = Inr v \<and> js_prop tx ''value'' = JStr (hex_of v)) \<and>
     (\<forall>k \<in> {''gas'', ''nonce''}. js_nullish (js_prop ob k) \<or> (\<exists>n \<ge> 0. quantity (js_prop ob k) = Inr n \<and> js_prop tx k = JStr (hex_of n)))"

lemma asked_get:
  assumes "distinct (jmap_keys ob)"
  shows "jmap_get (jmap_set_all ob transaction_defaults) k = (case jmap_get ob k of None \<Rightarrow> jmap_get transaction_defaults k | Some v \<Rightarrow> Some v)"
  unfolding jmap_get_set_all using map_of_rev [of ob k] assms by (simp add: jmap_keys_def jmap_get_def)

lemma validate_Inr:
  assumes "validateTransaction ob = Inr u"
  shows "(\<forall>k \<in> set transactionKeys. has_prop k ob) \<and> (\<exists>g. quantity (js_prop ob ''gas'') = Inr g \<and> 21000 \<le> g \<and> g \<le> 16777216)
     \<and> (\<exists>t. quantity (js_prop ob ''type'') = Inr t \<and> t \<in> {0, 2})
     \<and> is_hex_of 40 (js_string (js_prop ob ''from'')) \<and> is_hex_of 40 (js_string (js_prop ob ''to''))"
  using assms unfolding validateTransaction_def exactKeys_def checked_addresses_def
  by (auto simp: res_bind_Inr_iff list_ex_iff split: if_splits)

lemma has_prop_get: "has_prop k ob \<longleftrightarrow> (\<exists>v. jmap_get ob k = Some v)"
  by (auto simp: has_prop_def jm.keys_get)

lemma normalize_Inr:
  assumes n: "normalizeTransaction (JObj ob) = Inr nz" and d: "distinct (jmap_keys ob)" and k: "k \<in> set transactionKeys"
  shows "if k \<in> set quantityKeys then \<exists>n \<ge> 0. quantity (asked_field ob k) = Inr n \<and> js_prop nz k = JStr (hex_of n)
     else js_prop nz k = JStr (js_lower (js_string (asked_field ob k)))"
proof -
  define m where "m = jmap_set_all ob transaction_defaults"
  from n obtain u where v: "validateTransaction m = Inr u" and r: "res_map normal_value m = Inr nz"
    unfolding m_def normalizeTransaction_def by (auto simp: res_bind_Inr_iff Let_def split: if_splits)
  from validate_Inr [OF v] k obtain x where x: "jmap_get m k = Some x" by (auto simp: has_prop_get)
  with asked_get [OF d, of k] have a: "asked_field ob k = x" unfolding m_def by (auto simp: asked_field_def js_prop_def split: option.splits)
  have "(k, x) \<in> set m" using x by (rule jmap_get_Some_key)
  with r obtain p where p: "normal_value (k, x) = Inr p" by (metis res_map_member)
  with normal_values_get [OF r, of k] x have "js_prop nz k = snd p" by (simp add: js_prop_def)
  with p a show ?thesis by (auto simp: normal_value_def res_bind_Inr_iff split: js.splits if_splits dest: quantity_Inr)
qed

lemma resolve_Inr:
  assumes "resolve_key transaction k resolved n = Inr n'"
  shows "\<exists>g \<ge> 0. quantity resolved = Inr g \<and> n' = jmap_set k (JStr (hex_of g)) n
     \<and> (js_nullish (js_field transaction k) \<or> quantity (js_field transaction k) = Inr g)"
  using assms unfolding resolve_key_def Let_def
  by (auto simp: res_bind_Inr_iff dest: quantity_Inr split: if_splits)

lemma bound_Inr:
  assumes "bound_transaction keccak256 a option nz = Inr n3"
  shows "\<exists>g nonce c h. 0 \<le> g \<and> 0 \<le> nonce \<and> 0 \<le> c \<and> quantity (js_prop option ''gas'') = Inr g \<and> quantity (fa_chainId a) = Inr c
     \<and> n3 = jmap_set ''chainId'' (JStr (hex_of c)) (jmap_set ''type'' (fa_type a) (jmap_set ''nonce'' (JStr (hex_of nonce)) (jmap_set ''gas'' (JStr (hex_of g)) nz)))
     \<and> (js_nullish (js_field (fa_transaction a) ''gas'') \<or> quantity (js_field (fa_transaction a) ''gas'') = Inr g)
     \<and> (js_nullish (js_field (fa_transaction a) ''nonce'') \<or> quantity (js_field (fa_transaction a) ''nonce'') = Inr nonce)
     \<and> 21000 \<le> g \<and> g \<le> 16777216
     \<and> js_prop option ''requestHash'' = JStr h \<and> js_lower (keccak256 (canonical_json n3)) = js_lower h"
proof -
  from assms obtain n1 n2 c u where n1: "resolve_key (fa_transaction a) ''gas'' (js_prop option ''gas'') nz = Inr n1"
    and n2: "resolve_key (fa_transaction a) ''nonce'' (js_field (fa_quote a) ''nonce'') n1 = Inr n2"
    and c: "quantity (fa_chainId a) = Inr c"
    and n3: "n3 = jmap_set ''chainId'' (JStr (hex_of c)) (jmap_set ''type'' (fa_type a) n2)"
    and v: "validateTransaction n3 = Inr u"
    and h: "\<not> binding_mismatch keccak256 n3 (js_prop option ''requestHash'')"
    unfolding bound_transaction_def by (auto simp: res_bind_Inr_iff Let_def split: if_splits)
  from resolve_Inr [OF n1] obtain g where g: "0 \<le> g" "quantity (js_prop option ''gas'') = Inr g" "n1 = jmap_set ''gas'' (JStr (hex_of g)) nz"
    "js_nullish (js_field (fa_transaction a) ''gas'') \<or> quantity (js_field (fa_transaction a) ''gas'') = Inr g" by blast
  from resolve_Inr [OF n2] obtain k where k: "0 \<le> k" "n2 = jmap_set ''nonce'' (JStr (hex_of k)) n1"
    "js_nullish (js_field (fa_transaction a) ''nonce'') \<or> quantity (js_field (fa_transaction a) ''nonce'') = Inr k" by blast
  have "js_prop n3 ''gas'' = JStr (hex_of g)" by (simp add: n3 g k js_prop_set)
  with validate_Inr [OF v] have range: "21000 \<le> g" "g \<le> 16777216" by (auto dest: quantity_hex_of)
  from h obtain s where s: "js_prop option ''requestHash'' = JStr s" "js_lower (keccak256 (canonical_json n3)) = js_lower s"
    by (auto simp: binding_mismatch_def split: js.splits)
  from quantity_Inr [OF c] have "0 \<le> c" by blast
  then show ?thesis using g k c s range n3 by blast
qed

lemma js_prop_with_fees:
  "js_prop (with_fees type option n) k =
     (if k \<in> set (if type = JStr ''0x0'' then feeKeys 0 else feeKeys 2) then js_prop option k else js_prop n k)"
  by (auto simp: with_fees_def feeKeys_def jmap_set_all_def js_prop_set)

lemma canonical_json_cong: "(\<And>k. k \<in> set transactionKeys \<Longrightarrow> js_prop a k = js_prop b k) \<Longrightarrow> canonical_json a = canonical_json b"
  by (simp add: canonical_json_def json_member_def sorted_transactionKeys_def transactionKeys_def)

lemma checked_fees_Inr:
  assumes "checked_fees m type option n = Inr tx" and "quantity (js_prop option ''gas'') = Inr g"
  shows "tx = with_fees type option n \<and> (\<exists>cap \<ge> 0. quantity (js_prop option (if type = JStr ''0x0'' then ''gasPrice'' else ''maxFeePerGas'')) = Inr cap \<and> g * cap \<le> m)"
  using assms unfolding checked_fees_def fee_cap_def
  by (auto simp: res_bind_Inr_iff dest: quantity_Inr split: if_splits)

lemma feeQuote_steps:
  assumes "feeQuoteTransaction keccak256 now a = Inr tx"
  shows "\<exists>nz m option bound. normalizeTransaction (fa_transaction a) = Inr nz \<and> fa_maxTotalFee a = JBig m
     \<and> quote_expired now (js_field (fa_quote a) ''expiresAt'') = Inr False \<and> type_mismatch a = Inr False
     \<and> selected_option a = Inr option \<and> bound_transaction keccak256 a option nz = Inr bound \<and> checked_fees m (fa_type a) option bound = Inr tx"
  using assms unfolding feeQuoteTransaction_def by (auto simp: res_bind_Inr_iff split: if_splits js.splits)

lemma feeQuote_clock:
  assumes "feeQuoteTransaction keccak256 now a = Inr tx" "feeQuoteTransaction keccak256 now' a = Inr tx'"
  shows "tx = tx'"
  using feeQuote_steps [OF assms(1)] feeQuote_steps [OF assms(2)] by auto

lemma selected_Inr:
  assumes "selected_option a = Inr option"
  shows "\<exists>v \<in> set (array_of (js_field (fa_quote a) ''options'')). option = object_of v"
  using assms unfolding selected_option_def Let_def by (auto split: option.splits if_splits dest: find_Some_mem)

lemma quoted_fee_facts:
  assumes q: "feeQuoteTransaction keccak256 now a = Inr tx" and ob: "fa_transaction a = JObj ob" "distinct (jmap_keys ob)"
  shows "(\<exists>m. fa_maxTotalFee a = JBig m \<and> within_limit m tx) \<and> keeps_request ob tx \<and> js_prop tx ''type'' = fa_type a
     \<and> (\<exists>c \<ge> 0. quantity (fa_chainId a) = Inr c \<and> js_prop tx ''chainId'' = JStr (hex_of c))"
proof -
  from feeQuote_steps [OF q] obtain nz m option bound where nz: "normalizeTransaction (JObj ob) = Inr nz" and m: "fa_maxTotalFee a = JBig m"
    and b: "bound_transaction keccak256 a option nz = Inr bound" and f: "checked_fees m (fa_type a) option bound = Inr tx"
    using ob by auto
  from bound_Inr [OF b] obtain g n c where g: "0 \<le> g" "0 \<le> n" "0 \<le> c" "quantity (js_prop option ''gas'') = Inr g" "quantity (fa_chainId a) = Inr c"
      "bound = jmap_set ''chainId'' (JStr (hex_of c)) (jmap_set ''type'' (fa_type a) (jmap_set ''nonce'' (JStr (hex_of n)) (jmap_set ''gas'' (JStr (hex_of g)) nz)))"
      "js_nullish (js_field (fa_transaction a) ''gas'') \<or> quantity (js_field (fa_transaction a) ''gas'') = Inr g"
      "js_nullish (js_field (fa_transaction a) ''nonce'') \<or> quantity (js_field (fa_transaction a) ''nonce'') = Inr n"
      "21000 \<le> g" "g \<le> 16777216" by blast
  from checked_fees_Inr [OF f g(4)] obtain cap where tx: "tx = with_fees (fa_type a) option bound"
    and cap: "0 \<le> cap" "quantity (js_prop option (if fa_type a = JStr ''0x0'' then ''gasPrice'' else ''maxFeePerGas'')) = Inr cap" "g * cap \<le> m" by blast
  have keys: "js_prop tx k = js_prop bound k" if "k \<in> set transactionKeys" for k
    using that by (auto simp: tx js_prop_with_fees feeKeys_def transactionKeys_def)
  have bkeys: "js_prop bound k = (if k = ''chainId'' then JStr (hex_of c) else if k = ''type'' then fa_type a
      else if k = ''nonce'' then JStr (hex_of n) else if k = ''gas'' then JStr (hex_of g) else js_prop nz k)" for k
    unfolding g(6) js_prop_set by simp
  have nkeys: "js_prop tx k = js_prop nz k" if "k \<in> {''from'', ''to'', ''data'', ''value''}" for k
  proof -
    have "k \<in> set transactionKeys" using that by (auto simp: transactionKeys_def)
    then have "js_prop tx k = js_prop bound k" by (rule keys)
    also have "\<dots> = js_prop nz k" using that unfolding bkeys by auto
    finally show ?thesis .
  qed
  have type: "js_prop tx ''type'' = fa_type a" and chain: "js_prop tx ''chainId'' = JStr (hex_of c)"
    and gas: "js_prop tx ''gas'' = JStr (hex_of g)" and nonce: "js_prop tx ''nonce'' = JStr (hex_of n)"
    by (subst keys, simp add: transactionKeys_def, simp add: bkeys)+
  have "fee_price tx = js_prop option (if fa_type a = JStr ''0x0'' then ''gasPrice'' else ''maxFeePerGas'')"
    unfolding fee_price_def type by (simp add: tx js_prop_with_fees feeKeys_def)
  with gas g cap have "within_limit m tx" unfolding within_limit_def by auto
  moreover have "keeps_request ob tx"
    unfolding keeps_request_def
  proof (intro conjI ballI)
    show "js_prop tx k = JStr (js_lower (js_string (asked_field ob k)))" if "k \<in> {''from'', ''to'', ''data''}" for k
    proof -
      have "k \<in> set transactionKeys" "k \<notin> set quantityKeys" using that by (auto simp: transactionKeys_def quantityKeys_def)
      moreover have "js_prop tx k = js_prop nz k" using that by (intro nkeys) auto
      ultimately show ?thesis using normalize_Inr [OF nz ob(2), of k] by simp
    qed
    have "''value'' \<in> set transactionKeys" "''value'' \<in> set quantityKeys" by (simp_all add: transactionKeys_def quantityKeys_def)
    with normalize_Inr [OF nz ob(2), of "''value''"] nkeys [of "''value''"]
    show "\<exists>v \<ge> 0. quantity (asked_field ob ''value'') = Inr v \<and> js_prop tx ''value'' = JStr (hex_of v)" by simp
    have field: "js_field (fa_transaction a) k = js_prop ob k" for k by (simp add: ob js_field_def)
    show "js_nullish (js_prop ob k) \<or> (\<exists>n \<ge> 0. quantity (js_prop ob k) = Inr n \<and> js_prop tx k = JStr (hex_of n))" if "k \<in> {''gas'', ''nonce''}" for k
      using that g(1,2,7,8) gas nonce unfolding field by blast
  qed
  ultimately show ?thesis using m type chain g(3,5) by blast
qed

lemma selected_type:
  assumes "selected_option a = Inr option" and "type_mismatch a = Inr False"
  shows "\<exists>v \<in> set (array_of (js_field (fa_quote a) ''options'')). option = object_of v \<and> js_field v ''type'' = fa_type a"
proof -
  from assms(1) obtain v where v: "find (\<lambda>x. js_strict_eq (js_field x ''type'') (fa_type a)) (array_of (js_field (fa_quote a) ''options'')) = Some v"
    and o: "option = object_of v"
    unfolding selected_option_def Let_def by (auto split: option.splits if_splits)
  from assms(2) have "fee_type_known (fa_type a)" by (auto simp: type_mismatch_def split: if_splits)
  then obtain s where s: "fa_type a = JStr s" by (auto simp: fee_type_known_def)
  have "js_strict_eq x (JStr s) \<Longrightarrow> x = JStr s" for x by (cases x) auto
  with find_Some_mem [OF v] o s show ?thesis by auto
qed

definition sample_fee_hash :: string where
  "sample_fee_hash = ''0x'' @ replicate 64 CHR ''a''"

definition sample_address40 :: string where
  "sample_address40 = ''0x'' @ replicate 40 CHR ''1''"

definition sample_fee_quote :: js where
  "sample_fee_quote = JObj [(''version'', JNum 1), (''chainId'', JStr ''0x5''), (''expiresAt'', JStr ''0x14''), (''nonce'', JStr ''0x7''),
     (''options'', JArr [JObj [(''type'', JStr ''0x2''), (''gas'', JStr ''0x5208''), (''requestHash'', JStr sample_fee_hash),
        (''estimatedFee'', JStr ''0x10''), (''maxPriorityFeePerGas'', JStr ''0x1''), (''maxFeePerGas'', JStr ''0x3'')]])]"

definition sample_fee_payment :: fee_options where
  "sample_fee_payment = \<lparr>fo_tx = [(''to'', sample_address40), (''value'', ''100'')], fo_from = sample_address40, fo_chainId = ''5'',
     fo_rpc = (\<lambda>t types. Inr sample_fee_quote),
     fo_wallet = \<lparr>fw_isRabby = False, fw_chainId = Inr (JStr ''0x05''), fw_accounts = Inr (JArr [JStr sample_address40]), fw_nonce = (\<lambda>a. Inr (JNum 7))\<rparr>,
     fo_maxTotalFee = 100000, fo_log = True\<rparr>"

definition sample_fee_sent :: "js_error + js_object" where
  "sample_fee_sent = sendCrossChainWithFees (\<lambda>s. sample_fee_hash) 5000 6000 7000 sample_fee_payment"

section \<open>What a quote commits to\<close>

text \<open>C4. A fee quote is accepted only within the limit of the application: gas between 21000 and
  16777216, at a price whose product with the gas is at most the given maximum fee; the transaction it
  gives has the requested sender, target, data, value, chain and type, and the requested gas and
  nonce where the request names them.\<close>
theorem quoted_fee_bounded:
  assumes q: "feeQuoteTransaction keccak256 now a = Inr tx" and ob: "fa_transaction a = JObj ob" "distinct (jmap_keys ob)"
  shows "(\<exists>m. fa_maxTotalFee a = JBig m \<and> within_limit m tx) \<and> keeps_request ob tx \<and> js_prop tx ''type'' = fa_type a
     \<and> (\<exists>c \<ge> 0. quantity (fa_chainId a) = Inr c \<and> js_prop tx ''chainId'' = JStr (hex_of c))"
  by (rule quoted_fee_facts [OF q ob])

text \<open>An accepted quote is bound to its transaction: the hash of the canonical text of the result
  is the hash in the quoted option of the requested type, and the quote expires after the reading of
  the clock, by at most 31 seconds.\<close>
theorem quote_binds_transaction:
  assumes q: "feeQuoteTransaction keccak256 (JNum now) a = Inr tx"
  shows "(\<exists>v \<in> set (array_of (js_field (fa_quote a) ''options'')). js_field v ''type'' = fa_type a
       \<and> (\<exists>h. js_field v ''requestHash'' = JStr h \<and> js_lower (keccak256 (canonical_json tx)) = js_lower h))
     \<and> (\<exists>e. quantity (js_field (fa_quote a) ''expiresAt'') = Inr e \<and> now < e * 1000 \<and> e * 1000 \<le> now + 31000)"
proof -
  from feeQuote_steps [OF q] obtain nz m option bound where x: "quote_expired (JNum now) (js_field (fa_quote a) ''expiresAt'') = Inr False"
    and t: "type_mismatch a = Inr False" and s: "selected_option a = Inr option"
    and b: "bound_transaction keccak256 a option nz = Inr bound" and f: "checked_fees m (fa_type a) option bound = Inr tx" by blast
  from bound_Inr [OF b] obtain g h where g: "quantity (js_prop option ''gas'') = Inr g"
    and h: "js_prop option ''requestHash'' = JStr h" "js_lower (keccak256 (canonical_json bound)) = js_lower h" by blast
  from checked_fees_Inr [OF f g] have tx: "tx = with_fees (fa_type a) option bound" by blast
  have "canonical_json tx = canonical_json bound"
    by (rule canonical_json_cong) (auto simp: tx js_prop_with_fees feeKeys_def transactionKeys_def)
  moreover from selected_type [OF s t] obtain v where v: "v \<in> set (array_of (js_field (fa_quote a) ''options''))" "option = object_of v"
    "js_field v ''type'' = fa_type a" by blast
  moreover have "js_field v k = js_prop option k" for k by (cases v) (simp_all add: v(2) object_of_def js_field_def js_prop_def)
  moreover have "\<exists>e. quantity (js_field (fa_quote a) ''expiresAt'') = Inr e \<and> now < e * 1000 \<and> e * 1000 \<le> now + 31000"
    using x unfolding quote_expired_def by (auto simp: res_bind_Inr_iff)
  ultimately show ?thesis using h by metis
qed

definition sample_fee_args :: fee_args where
  "sample_fee_args = \<lparr>fa_quote = sample_fee_quote, fa_transaction = JObj [(''from'', JStr sample_address40), (''to'', JStr sample_address40),
     (''chainId'', JStr ''0x5'')], fa_type = JStr ''0x2'', fa_chainId = JStr ''0x5'', fa_maxTotalFee = JBig 100000\<rparr>"

lemma sample_quote_evaluates:
  "map_sum id (\<lambda>tx. js_prop tx ''gas'') (feeQuoteTransaction (\<lambda>s. sample_fee_hash) (JNum 5000) sample_fee_args) = Inr (JStr ''0x5208'')"
  by code_simp

lemma map_sum_Inr: "map_sum id f r = Inr y \<Longrightarrow> \<exists>x. r = Inr x \<and> f x = y"
  by (cases r) auto

theorem quoted_fee_bounded_witness:
  "\<exists>tx. feeQuoteTransaction (\<lambda>s. sample_fee_hash) (JNum 5000) sample_fee_args = Inr tx \<and> within_limit 100000 tx"
proof -
  from map_sum_Inr [OF sample_quote_evaluates] obtain tx
    where tx: "feeQuoteTransaction (\<lambda>s. sample_fee_hash) (JNum 5000) sample_fee_args = Inr tx" by blast
  from quoted_fee_bounded [OF tx] tx show ?thesis by (simp add: sample_fee_args_def jmap_keys_def)
qed

theorem quote_binds_transaction_witness:
  "\<exists>tx. feeQuoteTransaction (\<lambda>s. sample_fee_hash) (JNum 5000) sample_fee_args = Inr tx
     \<and> (\<exists>e. quantity (js_field sample_fee_quote ''expiresAt'') = Inr e \<and> 5000 < e * 1000)"
proof -
  from map_sum_Inr [OF sample_quote_evaluates] obtain tx
    where tx: "feeQuoteTransaction (\<lambda>s. sample_fee_hash) (JNum 5000) sample_fee_args = Inr tx" by blast
  from quote_binds_transaction [OF tx] tx show ?thesis by (auto simp: sample_fee_args_def)
qed

section \<open>What the wallet is asked to sign\<close>

lemma asked_defaults: "distinct (jmap_keys ob) \<Longrightarrow> js_prop (jmap_set_all ob transaction_defaults) k = asked_field ob k"
  using asked_get [of ob k] by (auto simp: asked_field_def js_prop_def split: option.splits)

lemma normalize_address:
  assumes "normalizeTransaction (JObj ob) = Inr nz" and "distinct (jmap_keys ob)"
  shows "is_hex_of 40 (js_string (asked_field ob ''to''))"
proof -
  from assms(1) obtain u where "validateTransaction (jmap_set_all ob transaction_defaults) = Inr u"
    unfolding normalizeTransaction_def by (auto simp: res_bind_Inr_iff Let_def split: if_splits)
  from validate_Inr [OF this] show ?thesis by (simp add: asked_defaults [OF assms(2)])
qed

lemma payment_transaction_Inr:
  assumes "payment_transaction tx sender chainId type = Inr transaction"
  shows "\<exists>ob c v. transaction = JObj ob \<and> distinct (jmap_keys ob) \<and> string_BigInt chainId = Inr c \<and> js_prop ob ''chainId'' = JStr (hex_of c)
     \<and> string_BigInt (or_default (jmap_get tx ''value'') ''0x0'') = Inr v \<and> asked_field ob ''value'' = JStr (hex_of v)
     \<and> asked_field ob ''from'' = JStr sender \<and> asked_field ob ''data'' = JStr (or_default (jmap_get tx ''data'') ''0x'')
     \<and> asked_field ob ''to'' = (case jmap_get tx ''to'' of None \<Rightarrow> JUndefined | Some v \<Rightarrow> JStr v)"
proof -
  from assms obtain c v gas nonce where o: "string_BigInt chainId = Inr c" "string_BigInt (or_default (jmap_get tx ''value'') ''0x0'') = Inr v"
    "optional_hex ''gas'' (payment_gas tx) = Inr gas" "optional_hex ''nonce'' (jmap_get tx ''nonce'') = Inr nonce"
    and t: "transaction = JObj ([(''type'', JStr (hex_of type)), (''chainId'', JStr (hex_of c)), (''from'', JStr sender),
         (''to'', case jmap_get tx ''to'' of None \<Rightarrow> JUndefined | Some v \<Rightarrow> JStr v), (''value'', JStr (hex_of v)),
         (''data'', JStr (or_default (jmap_get tx ''data'') ''0x''))] @ gas @ nonce)"
    unfolding payment_transaction_def by (auto simp: res_bind_Inr_iff)
  have opt: "ps = [] \<or> (\<exists>n. ps = [(k, JStr (hex_of n))])" if "optional_hex k m = Inr ps" for k m ps
    using that by (auto simp: optional_hex_def res_bind_Inr_iff split: option.splits)
  from opt [OF o(3)] opt [OF o(4)] o(1,2) t show ?thesis
    by (auto simp: jmap_keys_def js_prop_def jmap_get_def asked_field_def)
qed

lemma unsigned_Inr:
  assumes "unsigned_payment p = Inr transaction"
  shows "\<exists>type. payment_transaction (fo_tx p) (fo_from p) (fo_chainId p) type = Inr transaction"
  using assms unfolding unsigned_payment_def Let_def by (auto simp: res_bind_Inr_iff split: if_splits)

lemma send_steps:
  assumes "sendFeeQuotedTransaction keccak256 t1 t2 wallet a = Inr sent"
  shows "\<exists>chain accounts nonce. feeQuoteTransaction keccak256 (JNum t2) a = Inr sent
     \<and> fw_chainId wallet = Inr chain \<and> same_quantity chain ''chain ID'' (js_prop sent ''chainId'') = Inr True
     \<and> fw_accounts wallet = Inr accounts \<and> has_account accounts (js_prop sent ''from'')
     \<and> fw_nonce wallet (js_prop sent ''from'') = Inr nonce \<and> same_quantity nonce ''pending nonce'' (js_prop sent ''nonce'') = Inr True"
proof -
  from assms obtain tx where 1: "feeQuoteTransaction keccak256 (JNum t1) a = Inr tx" and 2: "feeQuoteTransaction keccak256 (JNum t2) a = Inr sent"
    unfolding sendFeeQuotedTransaction_def by (auto simp: res_bind_Inr_iff split: if_splits)
  from feeQuote_clock [OF 1 2] 1 2 assms show ?thesis
    unfolding sendFeeQuotedTransaction_def by (auto simp: res_bind_Inr_iff split: if_splits)
qed

text \<open>C3. A payment that is sent hands the wallet exactly the transaction that was quoted and
  previewed, within the limit of the application, on the chain and with an account the wallet has at
  that moment; its sender, target, data and value are those of the payment.\<close>
theorem sent_transaction_previewed:
  assumes "sendCrossChainWithFees keccak256 t0 t1 t2 p = Inr sent"
  shows "(\<exists>a. prepareCrossChainFees keccak256 t0 p = Inr (a, sent)) \<and> within_limit (fo_maxTotalFee p) sent
     \<and> (\<exists>c chain. string_BigInt (fo_chainId p) = Inr c \<and> js_prop sent ''chainId'' = JStr (hex_of c)
          \<and> fw_chainId (fo_wallet p) = Inr chain \<and> walletQuantity chain ''chain ID'' = Inr c)
     \<and> js_prop sent ''from'' = JStr (js_lower (fo_from p))
     \<and> (\<exists>accounts. fw_accounts (fo_wallet p) = Inr accounts \<and> has_account accounts (js_prop sent ''from''))
     \<and> (\<exists>v. string_BigInt (or_default (jmap_get (fo_tx p) ''value'') ''0x0'') = Inr v \<and> js_prop sent ''value'' = JStr (hex_of v))
     \<and> js_prop sent ''data'' = JStr (js_lower (or_default (jmap_get (fo_tx p) ''data'') ''0x''))
     \<and> (\<exists>t. jmap_get (fo_tx p) ''to'' = Some t \<and> js_prop sent ''to'' = JStr (js_lower t))"
proof -
  from assms obtain transaction quote tx where u: "unsigned_payment p = Inr transaction"
    and q: "feeQuoteTransaction keccak256 (JNum t0) (fee_args_of p transaction quote) = Inr tx"
    and prep: "prepareCrossChainFees keccak256 t0 p = Inr (fee_args_of p transaction quote, tx)"
    and send: "sendFeeQuotedTransaction keccak256 t1 t2 (fo_wallet p) (fee_args_of p transaction quote) = Inr sent"
    unfolding sendCrossChainWithFees_def prepareCrossChainFees_def by (auto simp: res_bind_Inr_iff split: if_splits)
  from send_steps [OF send] obtain chain accounts where s: "feeQuoteTransaction keccak256 (JNum t2) (fee_args_of p transaction quote) = Inr sent"
    "fw_chainId (fo_wallet p) = Inr chain" "same_quantity chain ''chain ID'' (js_prop sent ''chainId'') = Inr True"
    "fw_accounts (fo_wallet p) = Inr accounts" "has_account accounts (js_prop sent ''from'')" by blast
  from feeQuote_clock [OF q s(1)] have tx: "tx = sent" .
  from unsigned_Inr [OF u] obtain type where "payment_transaction (fo_tx p) (fo_from p) (fo_chainId p) type = Inr transaction" ..
  from payment_transaction_Inr [OF this] obtain ob c v where ob: "transaction = JObj ob" "distinct (jmap_keys ob)"
    and f: "string_BigInt (fo_chainId p) = Inr c" "js_prop ob ''chainId'' = JStr (hex_of c)"
      "string_BigInt (or_default (jmap_get (fo_tx p) ''value'') ''0x0'') = Inr v" "asked_field ob ''value'' = JStr (hex_of v)"
      "asked_field ob ''from'' = JStr (fo_from p)" "asked_field ob ''data'' = JStr (or_default (jmap_get (fo_tx p) ''data'') ''0x'')"
      "asked_field ob ''to'' = (case jmap_get (fo_tx p) ''to'' of None \<Rightarrow> JUndefined | Some v \<Rightarrow> JStr v)" by blast
  have args: "fa_transaction (fee_args_of p transaction quote) = JObj ob" "fa_maxTotalFee (fee_args_of p transaction quote) = JBig (fo_maxTotalFee p)"
    "fa_chainId (fee_args_of p transaction quote) = JStr (hex_of c)"
    using f(2) ob(1) by (simp_all add: fee_args_of_def js_field_def)
  from quoted_fee_facts [OF s(1) args(1) ob(2)] args have limit: "within_limit (fo_maxTotalFee p) sent" and keep: "keeps_request ob sent"
    and ch: "js_prop sent ''chainId'' = JStr (hex_of c)" by (auto dest: quantity_hex_of)
  from keep f have "js_prop sent ''from'' = JStr (js_lower (fo_from p))"
    "js_prop sent ''data'' = JStr (js_lower (or_default (jmap_get (fo_tx p) ''data'') ''0x''))" "js_prop sent ''value'' = JStr (hex_of v)"
    unfolding keeps_request_def by (auto dest: quantity_hex_of)
  moreover from feeQuote_steps [OF s(1)] args ob obtain nz where "normalizeTransaction (JObj ob) = Inr nz" by auto
  from normalize_address [OF this ob(2)] f(7) keep obtain t where "jmap_get (fo_tx p) ''to'' = Some t" "js_prop sent ''to'' = JStr (js_lower t)"
    unfolding keeps_request_def by (cases "jmap_get (fo_tx p) ''to''") (auto simp: is_hex_of_def)
  moreover have "walletQuantity chain ''chain ID'' = Inr c"
    using s(3) unfolding ch same_quantity_def by (auto simp: res_bind_Inr_iff dest: quantity_hex_of)
  ultimately show ?thesis using prep tx limit f(1,3) ch s(2,4,5) by blast
qed

lemma sample_fee_evaluates: "map_sum id (\<lambda>tx. (js_prop tx ''gas'', js_prop tx ''maxFeePerGas'')) sample_fee_sent = Inr (JStr ''0x5208'', JStr ''0x3'')"
  by code_simp

theorem sent_transaction_previewed_witness:
  "\<exists>sent. sample_fee_sent = Inr sent \<and> within_limit 100000 sent \<and> js_prop sent ''value'' = JStr (hex_of 100)"
proof -
  from map_sum_Inr [OF sample_fee_evaluates] obtain sent where sent: "sample_fee_sent = Inr sent" by blast
  have "string_BigInt (or_default (jmap_get (fo_tx sample_fee_payment) ''value'') ''0x0'') = Inr 100" by code_simp
  with sent_transaction_previewed [OF sent [unfolded sample_fee_sent_def]] sent show ?thesis
    by (auto simp: sample_fee_payment_def)
qed

end
