(* ===== verification/Call_Settlement.thy ===== *)
theory Call_Settlement
  imports History_Transactions
begin

text \<open>
  \<open>src/src/lib/callSettlement.ts\<close>: how far the settlement of a sent call has come, judged from
  canonical hashes and the node's \<open>safe\<close> and \<open>finalized\<close> heads. The node is the record \<open>call_rpc\<close> (an
  answer, or the message of an error, per request); a block is its number and hash. The lookups that
  this module shares with the history are those of \<open>history_rpc\<close>. An error that leaves the function is
  its message.
\<close>

datatype call_state = Call_pending | Call_awaiting | Call_posted | Call_safe | Call_finalized | Call_reorg | Call_unavailable
datatype call_execution = Exec_pending | Exec_confirmed | Exec_reverted | Exec_unverified
datatype head_tag = Safe_head | Finalized_head

record call_settlement =
  cs_state :: call_state
  cs_execution :: call_execution
  cs_message :: string
  cs_settlement :: "settlement option"
  cs_counterpartHashes :: "string list"
  cs_localL1 :: bool

record call_rpc =
  cr_receipt :: "chain \<Rightarrow> string \<Rightarrow> string + debug_receipt option"
  cr_block :: "chain \<Rightarrow> int \<Rightarrow> string + (int \<times> string) option"
  cr_head :: "chain \<Rightarrow> head_tag \<Rightarrow> string + (int \<times> string) option"
  cr_history :: history_rpc

definition same_nonempty :: "string \<Rightarrow> string \<Rightarrow> bool" where
  "same_nonempty a b \<longleftrightarrow> a \<noteq> [] \<and> b \<noteq> [] \<and> js_lower a = js_lower b"

definition pending_call :: call_settlement where
  "pending_call = \<lparr>cs_state = Call_pending, cs_execution = Exec_pending, cs_message = ''Waiting for source-chain inclusion.'',
     cs_settlement = None, cs_counterpartHashes = [], cs_localL1 = False\<rparr>"

definition stopped :: "call_state \<Rightarrow> string \<Rightarrow> call_settlement \<Rightarrow> call_settlement" where
  "stopped state msg base = base\<lparr>cs_state := state, cs_message := msg\<rparr>"

section \<open>The settlement of a call\<close>

text \<open>A search ends the function with a result, or goes on with what it found.\<close>

datatype search = Ended call_settlement | Found call_settlement "settlement option"

definition includes_block :: "string \<Rightarrow> settlement \<Rightarrow> bool" where
  "includes_block h s \<longleftrightarrow> list_ex (\<lambda>b. same_nonempty (snd b) h) (sl_l2Blocks s)"

definition l2_settlement :: "call_rpc \<Rightarrow> debug_receipt \<Rightarrow> call_settlement \<Rightarrow> string + search" where
  "l2_settlement rpc receipt base =
     res_bind (hp_settlement (cr_history rpc) (dr_blockHash receipt)) (\<lambda>record.
       Inr (case record of
          None \<Rightarrow> Found base None
        | Some s \<Rightarrow> if \<not> includes_block (dr_blockHash receipt) s
            then Ended (stopped Call_unavailable ''The settlement index does not reference this transaction's L2 block.'' base)
            else Found base (Some s)))"

definition counterpart_record :: "call_rpc \<Rightarrow> string \<Rightarrow> string + settlement option" where
  "counterpart_record rpc counterpart =
     res_bind (cr_receipt rpc L2 counterpart) (\<lambda>other.
       case other of
         None \<Rightarrow> Inr None
       | Some r \<Rightarrow> res_bind (hp_settlement (cr_history rpc) (dr_blockHash r)) (\<lambda>record.
           Inr (case record of None \<Rightarrow> None | Some s \<Rightarrow> if includes_block (dr_blockHash r) s then Some s else None)))"

definition unique_records :: "settlement option list \<Rightarrow> (string, settlement) jmap" where
  "unique_records records =
     jmap_set_all (map (\<lambda>s. (js_lower (sl_l1TransactionHash s), s)) (List.map_filter id records)) []"

definition counterpart_hashes :: "history_transactions option \<Rightarrow> string + string list" where
  "counterpart_hashes h =
     (case h of
        None \<Rightarrow> Inr []
      | Some x \<Rightarrow> (case ht_lookupError x of
          Some msg \<Rightarrow> if msg \<noteq> [] then Inl msg else Inr (ht_l2Hashes x)
        | None \<Rightarrow> Inr (ht_l2Hashes x)))"

definition counterpart_settlement :: "call_rpc \<Rightarrow> history_transactions option \<Rightarrow> call_settlement \<Rightarrow> string + search" where
  "counterpart_settlement rpc counterparts base =
     res_bind (counterpart_hashes counterparts) (\<lambda>hashes.
     res_bind (res_map (counterpart_record rpc) hashes) (\<lambda>records.
       let base' = base\<lparr>cs_counterpartHashes := hashes\<rparr>; unique = unique_records records
       in Inr (if length unique > 1
               then Ended (stopped Call_unavailable ''This call spans multiple settlement records. Inspect its counterpart transactions individually.'' base')
               else Found base' (case unique of [] \<Rightarrow> None | (k, s) # rest \<Rightarrow> Some s))))"

definition posted_by :: "string \<Rightarrow> debug_receipt \<Rightarrow> settlement \<Rightarrow> bool" where
  "posted_by hash receipt s \<longleftrightarrow> same_nonempty (sl_l1TransactionHash s) hash \<and> same_nonempty (sl_l1BlockHash s) (dr_blockHash receipt)"

definition l1_settlement :: "debug_config \<Rightarrow> history_abi \<Rightarrow> call_rpc \<Rightarrow> string \<Rightarrow> debug_receipt \<Rightarrow> call_settlement \<Rightarrow> string + search" where
  "l1_settlement cfg lib rpc hash receipt base =
     res_bind (hp_ranges (cr_history rpc) (dr_blockHash receipt)) (\<lambda>records.
       case find (posted_by hash receipt) (case records of None \<Rightarrow> [] | Some rs \<Rightarrow> rs) of
         Some s \<Rightarrow> Inr (Found base (Some s))
       | None \<Rightarrow> counterpart_settlement rpc (fetchHistoryTransactions cfg lib (cr_history rpc) hash L1) base)"

section \<open>Its canonical evidence\<close>

text \<open>\<open>l2Blocks.reduce((a, b) => a.number > b.number ? a : b)\<close>.\<close>

definition later_block :: "int \<times> string \<Rightarrow> int \<times> string \<Rightarrow> int \<times> string" where
  "later_block a b = (if fst a > fst b then a else b)"

definition l2_target :: "settlement \<Rightarrow> int \<times> string" where
  "l2_target s = foldl later_block (hd (sl_l2Blocks s)) (List.tl (sl_l2Blocks s))"

text \<open>\<^term>\<open>Inl\<close> ends the function with a result, \<^term>\<open>Inr\<close> gives the L2 block to watch.\<close>

definition checked_settlement :: "call_rpc \<Rightarrow> call_settlement \<Rightarrow> settlement option \<Rightarrow> string + (call_settlement + settlement \<times> (int \<times> string))" where
  "checked_settlement rpc base found =
     (case found of
        None \<Rightarrow> Inr (Inl (stopped Call_awaiting ''Execution may precede settlement. No indexed L1 settlement for this call yet.'' base))
      | Some s \<Rightarrow>
          if \<not> sl_canonicalL2 s
          then Inr (Inl (stopped Call_reorg ''The indexed L2 range is noncanonical. Waiting for a replacement settlement.'' (base\<lparr>cs_settlement := Some s\<rparr>)))
          else if sl_l2Blocks s = []
          then Inr (Inl (stopped Call_unavailable ''The settlement index has not verified a canonical L2 range.'' base))
          else res_bind (cr_block rpc L1 (sl_l1BlockNumber s)) (\<lambda>anchor. case anchor of
              None \<Rightarrow> Inr (Inl (stopped Call_unavailable ''The L1 posting block is unavailable. Settlement is unverified.'' base))
            | Some a \<Rightarrow>
                if \<not> same_nonempty (snd a) (sl_l1BlockHash s)
                then Inr (Inl (stopped Call_reorg ''The L1 posting block changed. Waiting for the settlement index to reconcile.'' base))
                else res_bind (cr_block rpc L2 (fst (l2_target s))) (\<lambda>canonical. case canonical of
                    None \<Rightarrow> Inr (Inl (stopped Call_unavailable ''The posted L2 block is unavailable. Finality is unverified.'' base))
                  | Some b \<Rightarrow>
                      if \<not> same_nonempty (snd b) (snd (l2_target s))
                      then Inr (Inl (stopped Call_reorg ''The posted L2 range changed. Waiting for canonical settlement evidence.'' base))
                      else Inr (Inr (s, l2_target s)))))"

definition head_reached :: "call_rpc \<Rightarrow> chain \<Rightarrow> head_tag \<Rightarrow> int \<Rightarrow> bool" where
  "head_reached rpc c tag n = (case cr_head rpc c tag of Inr (Some h) \<Rightarrow> fst h \<ge> n | _ \<Rightarrow> False)"

definition reached :: "call_rpc \<Rightarrow> debug_receipt \<Rightarrow> (settlement \<times> (int \<times> string)) option \<Rightarrow> head_tag \<Rightarrow> bool" where
  "reached rpc receipt evidence tag =
     (case evidence of
        None \<Rightarrow> head_reached rpc L1 tag (dr_blockNumber receipt)
      | Some (s, target) \<Rightarrow> head_reached rpc L1 tag (sl_l1BlockNumber s) \<and> head_reached rpc L2 tag (fst target))"

definition settled_result :: "call_rpc \<Rightarrow> debug_receipt \<Rightarrow> call_settlement \<Rightarrow> bool \<Rightarrow> (settlement \<times> (int \<times> string)) option \<Rightarrow> call_settlement" where
  "settled_result rpc receipt base localL1 evidence =
     (let result = base\<lparr>cs_settlement := map_option fst evidence, cs_localL1 := localL1, cs_state := Call_posted,
            cs_message := (if localL1 then ''Included on L1. This local transaction does not require L2 settlement.''
              else ''Posted in a canonical L1 block. Waiting for safety and finality.'')\<rparr>
      in if reached rpc receipt evidence Finalized_head
         then stopped Call_finalized (if localL1 then ''The L1 transaction is finalized.'' else ''The posting block and posted L2 range are finalized.'') result
         else if reached rpc receipt evidence Safe_head
         then stopped Call_safe (if localL1 then ''The L1 transaction is safe; finality is pending.''
           else ''The posting block and posted L2 range are safe; finality is pending.'') result
         else result)"

definition source_result :: "debug_config \<Rightarrow> history_abi \<Rightarrow> call_rpc \<Rightarrow> string \<Rightarrow> chain \<Rightarrow> bool \<Rightarrow> debug_receipt \<Rightarrow> call_settlement \<Rightarrow> string + call_settlement" where
  "source_result cfg lib rpc hash c crossChain receipt base =
     (if c = L1 \<and> \<not> crossChain then Inr (settled_result rpc receipt base True None)
      else res_bind (if c = L2 then l2_settlement rpc receipt base else l1_settlement cfg lib rpc hash receipt base) (\<lambda>found.
        case found of
          Ended r \<Rightarrow> Inr r
        | Found base' s \<Rightarrow> res_bind (checked_settlement rpc base' s) (\<lambda>checked.
            Inr (case checked of Inl r \<Rightarrow> r | Inr evidence \<Rightarrow> settled_result rpc receipt base' False (Some evidence)))))"

definition fetchCallSettlement :: "debug_config \<Rightarrow> history_abi \<Rightarrow> call_rpc \<Rightarrow> string \<Rightarrow> chain \<Rightarrow> bool \<Rightarrow> string + call_settlement" where
  "fetchCallSettlement cfg lib rpc hash c crossChain =
     res_bind (cr_receipt rpc c hash) (\<lambda>r.
       case r of
         None \<Rightarrow> Inr pending_call
       | Some receipt \<Rightarrow>
           let base = pending_call\<lparr>cs_execution := (if dr_status receipt = ''0x1'' then Exec_confirmed else Exec_reverted)\<rparr>
           in res_bind (cr_block rpc c (dr_blockNumber receipt)) (\<lambda>source.
                case source of
                  None \<Rightarrow> Inr (stopped Call_unavailable ''Source block is unavailable. Canonical inclusion is unverified.'' (base\<lparr>cs_execution := Exec_unverified\<rparr>))
                | Some b \<Rightarrow>
                    if \<not> same_nonempty (snd b) (dr_blockHash receipt)
                    then Inr (stopped Call_reorg ''Source inclusion changed after a reorganization. Waiting for canonical evidence.''
                      (base\<lparr>cs_execution := Exec_unverified\<rparr>))
                    else source_result cfg lib rpc hash c crossChain receipt base))"

end
