(* ===== verification/Call_Settlement_Properties.thy ===== *)
theory Call_Settlement_Properties
  imports Call_Settlement
begin

text \<open>
  The state shown for a call is never ahead of the evidence: \<open>posted\<close>, \<open>safe\<close> and \<open>finalized\<close> are reported
  only for a canonical source block, a settlement that covers the call, canonical posting and target
  blocks and, for the last two, heads past all of them; and such evidence is always recognised.
\<close>

lemma foldl_later:
  "foldl later_block x xs \<in> set (x # xs) \<and> (\<forall>b \<in> set (x # xs). fst b \<le> fst (foldl later_block x xs))"
proof (induction xs arbitrary: x)
  case (Cons y ys)
  from Cons [of "later_block x y"] show ?case by (auto simp: later_block_def split: if_splits)
qed simp

lemma l2_target_latest:
  assumes "sl_l2Blocks s \<noteq> []"
  shows "l2_target s \<in> set (sl_l2Blocks s) \<and> (\<forall>b \<in> set (sl_l2Blocks s). fst b \<le> fst (l2_target s))"
  using foldl_later [of "hd (sl_l2Blocks s)" "List.tl (sl_l2Blocks s)"] assms by (simp add: l2_target_def)

section \<open>The evidence of a state\<close>

definition canonical_block :: "call_rpc \<Rightarrow> chain \<Rightarrow> int \<Rightarrow> string \<Rightarrow> bool" where
  "canonical_block rpc c n h \<longleftrightarrow> (\<exists>b. cr_block rpc c n = Inr (Some b) \<and> same_nonempty (snd b) h)"

definition tag_of :: "call_state \<Rightarrow> head_tag option" where
  "tag_of s = (if s = Call_finalized then Some Finalized_head else if s = Call_safe then Some Safe_head else None)"

definition heads_past :: "call_rpc \<Rightarrow> call_state \<Rightarrow> chain \<Rightarrow> int \<Rightarrow> bool" where
  "heads_past rpc state c n \<longleftrightarrow> (case tag_of state of None \<Rightarrow> True | Some tag \<Rightarrow> head_reached rpc c tag n)"

text \<open>A settlement covers a call: on L2 it lists the block of the call; on L1 its posting transaction is
  the call, or it is the record of a counterpart of the call, and the records of all
  counterparts name the same posting transaction.\<close>

definition settles_call :: "debug_config \<Rightarrow> history_abi \<Rightarrow> call_rpc \<Rightarrow> string \<Rightarrow> chain \<Rightarrow> debug_receipt \<Rightarrow> settlement \<Rightarrow> bool" where
  "settles_call cfg lib rpc hash c receipt s \<longleftrightarrow>
     (if c = L2 then includes_block (dr_blockHash receipt) s
      else posted_by hash receipt s \<or>
        (\<exists>hs h. counterpart_hashes (fetchHistoryTransactions cfg lib (cr_history rpc) hash L1) = Inr hs \<and> h \<in> set hs
           \<and> counterpart_record rpc h = Inr (Some s)
           \<and> (\<forall>g \<in> set hs. \<forall>u. counterpart_record rpc g = Inr (Some u) \<longrightarrow> js_lower (sl_l1TransactionHash u) = js_lower (sl_l1TransactionHash s))))"

definition settlement_evidence :: "call_rpc \<Rightarrow> call_state \<Rightarrow> settlement \<Rightarrow> bool" where
  "settlement_evidence rpc state s \<longleftrightarrow>
     sl_canonicalL2 s \<and> sl_l2Blocks s \<noteq> [] \<and> canonical_block rpc L1 (sl_l1BlockNumber s) (sl_l1BlockHash s)
     \<and> canonical_block rpc L2 (fst (l2_target s)) (snd (l2_target s))
     \<and> heads_past rpc state L1 (sl_l1BlockNumber s) \<and> (\<forall>b \<in> set (sl_l2Blocks s). heads_past rpc state L2 (fst b))"

lemma head_reached_mono: "head_reached rpc c tag n \<Longrightarrow> m \<le> n \<Longrightarrow> head_reached rpc c tag m"
  by (auto simp: head_reached_def split: sum.splits option.splits)

lemma settled_result_fields:
  "cs_execution (settled_result rpc receipt base l ev) = cs_execution base"
  "cs_settlement (settled_result rpc receipt base l ev) = map_option fst ev"
  "cs_counterpartHashes (settled_result rpc receipt base l ev) = cs_counterpartHashes base"
  by (simp_all add: settled_result_def stopped_def Let_def)

lemma settled_result_state:
  "cs_state (settled_result rpc receipt base l ev) =
     (if reached rpc receipt ev Finalized_head then Call_finalized else if reached rpc receipt ev Safe_head then Call_safe else Call_posted)"
  by (simp add: settled_result_def stopped_def Let_def)

lemma settled_result_heads:
  "case tag_of (cs_state (settled_result rpc receipt base l ev)) of None \<Rightarrow> True | Some tag \<Rightarrow> reached rpc receipt ev tag"
  unfolding settled_result_state by (simp add: tag_of_def)

section \<open>Sound steps\<close>

lemma unique_records_single:
  assumes "\<not> length (unique_records records) > 1"
  shows "unique_records records = [] \<longrightarrow> List.map_filter id records = []"
    and "unique_records records = (k, s) # rest \<longrightarrow> Some s \<in> set records \<and> (\<forall>u. Some u \<in> set records \<longrightarrow> js_lower (sl_l1TransactionHash u) = js_lower (sl_l1TransactionHash s))"
proof -
  define rs where "rs = List.map_filter id records"
  have mem: "u \<in> set rs \<longleftrightarrow> Some u \<in> set records" for u
    unfolding rs_def by (induction records) (auto simp: map_filter_simps split: option.splits)
  have keys: "set (jmap_keys (unique_records records)) = (\<lambda>s. js_lower (sl_l1TransactionHash s)) ` set rs"
    unfolding unique_records_def rs_def [symmetric] by (subst set_keys_jmap_set_all) (simp add: jmap_keys_def image_image)
  then show "unique_records records = [] \<longrightarrow> List.map_filter id records = []"
    unfolding rs_def [symmetric] by (auto simp: jmap_keys_def)
  show "unique_records records = (k, s) # rest \<longrightarrow> Some s \<in> set records \<and> (\<forall>u. Some u \<in> set records \<longrightarrow> js_lower (sl_l1TransactionHash u) = js_lower (sl_l1TransactionHash s))"
  proof
    assume u: "unique_records records = (k, s) # rest"
    with assms have one: "unique_records records = [(k, s)]" by (cases rest) auto
    then have "jmap_get (unique_records records) k = Some s" by (simp add: jmap_get_def)
    then have "(k, s) \<in> set (rev (map (\<lambda>s. (js_lower (sl_l1TransactionHash s), s)) rs))"
      unfolding unique_records_def rs_def [symmetric] jmap_get_set_all
      by (auto split: option.splits dest: map_of_SomeD)
    then have s: "s \<in> set rs" "k = js_lower (sl_l1TransactionHash s)" by auto
    moreover have "js_lower (sl_l1TransactionHash u) = k" if "u \<in> set rs" for u
      using that keys one by (auto simp: jmap_keys_def)
    ultimately show "Some s \<in> set records \<and> (\<forall>u. Some u \<in> set records \<longrightarrow> js_lower (sl_l1TransactionHash u) = js_lower (sl_l1TransactionHash s))"
      by (simp add: mem)
  qed
qed

lemma counterpart_settlement_Found:
  assumes "counterpart_settlement rpc (fetchHistoryTransactions cfg lib (cr_history rpc) hash L1) base = Inr (Found base' (Some s))"
  shows "cs_execution base' = cs_execution base \<and> settles_call cfg lib rpc hash L1 receipt s"
proof -
  from assms obtain hs records where hs: "counterpart_hashes (fetchHistoryTransactions cfg lib (cr_history rpc) hash L1) = Inr hs"
    and records: "res_map (counterpart_record rpc) hs = Inr records" and u: "\<not> length (unique_records records) > 1"
    and b: "base' = base\<lparr>cs_counterpartHashes := hs\<rparr>" and s: "(case unique_records records of [] \<Rightarrow> None | (k, s) # rest \<Rightarrow> Some s) = Some s"
    unfolding counterpart_settlement_def by (auto simp: res_bind_Inr_iff Let_def split: if_splits)
  from s obtain k rest where "unique_records records = (k, s) # rest" by (auto split: list.splits)
  with unique_records_single(2) [OF u] have one: "Some s \<in> set records"
    "\<forall>u. Some u \<in> set records \<longrightarrow> js_lower (sl_l1TransactionHash u) = js_lower (sl_l1TransactionHash s)" by blast+
  note image = res_map_origin [OF records] and answer = res_map_member [OF records]
  have same: "js_lower (sl_l1TransactionHash u) = js_lower (sl_l1TransactionHash s)" if "g \<in> set hs" "counterpart_record rpc g = Inr (Some u)" for g u
    using answer [OF that(1)] that(2) one(2) by auto
  from image [OF one(1)] hs same b show ?thesis
    unfolding settles_call_def by auto
qed

lemma found_settles:
  assumes "(if c = L2 then l2_settlement rpc receipt base else l1_settlement cfg lib rpc hash receipt base) = Inr (Found base' (Some s))"
  shows "cs_execution base' = cs_execution base \<and> settles_call cfg lib rpc hash c receipt s"
proof (cases c)
  case L2
  with assms show ?thesis
    by (auto simp: l2_settlement_def res_bind_Inr_iff settles_call_def split: option.splits if_splits)
next
  case L1
  with assms obtain records where r: "(case find (posted_by hash receipt) (case records of None \<Rightarrow> [] | Some rs \<Rightarrow> rs) of
      Some s \<Rightarrow> Inr (Found base (Some s))
    | None \<Rightarrow> counterpart_settlement rpc (fetchHistoryTransactions cfg lib (cr_history rpc) hash L1) base) = Inr (Found base' (Some s))"
    by (auto simp: l1_settlement_def res_bind_Inr_iff)
  show ?thesis
  proof (cases "find (posted_by hash receipt) (case records of None \<Rightarrow> [] | Some rs \<Rightarrow> rs)")
    case None
    with r L1 show ?thesis by (auto dest: counterpart_settlement_Found)
  next
    case (Some x)
    with r L1 find_Some_mem [OF Some] show ?thesis by (auto simp: settles_call_def)
  qed
qed

lemma checked_settlement_Inr:
  assumes "checked_settlement rpc base found = Inr (Inr ev)"
  shows "\<exists>s. found = Some s \<and> ev = (s, l2_target s) \<and> sl_canonicalL2 s \<and> sl_l2Blocks s \<noteq> []
     \<and> canonical_block rpc L1 (sl_l1BlockNumber s) (sl_l1BlockHash s) \<and> canonical_block rpc L2 (fst (l2_target s)) (snd (l2_target s))"
proof (cases found)
  case (Some s)
  with assms show ?thesis
    unfolding checked_settlement_def canonical_block_def
    by (cases "cr_block rpc L1 (sl_l1BlockNumber s)"; cases "cr_block rpc L2 (fst (l2_target s))") (auto split: option.splits if_splits)
qed (use assms in \<open>simp add: checked_settlement_def\<close>)

lemma checked_settlement_Inl: "checked_settlement rpc base found = Inr (Inl r) \<Longrightarrow> cs_state r \<in> {Call_awaiting, Call_reorg, Call_unavailable}"
proof (cases found)
  case (Some s)
  moreover assume "checked_settlement rpc base found = Inr (Inl r)"
  ultimately show ?thesis
    unfolding checked_settlement_def stopped_def
    by (cases "cr_block rpc L1 (sl_l1BlockNumber s)"; cases "cr_block rpc L2 (fst (l2_target s))") (auto split: option.splits if_splits)
qed (auto simp: checked_settlement_def stopped_def)

lemma found_Ended:
  "(if c = L2 then l2_settlement rpc receipt base else l1_settlement cfg lib rpc hash receipt base) = Inr (Ended r) \<Longrightarrow> cs_state r = Call_unavailable"
  by (auto simp: l2_settlement_def l1_settlement_def counterpart_settlement_def res_bind_Inr_iff stopped_def Let_def split: option.splits if_splits)

section \<open>Sound and complete\<close>

lemma settled_evidence:
  assumes "checked_settlement rpc base found = Inr (Inr ev)"
  shows "\<exists>s. found = Some s \<and> cs_settlement (settled_result rpc receipt base l (Some ev)) = Some s
     \<and> settlement_evidence rpc (cs_state (settled_result rpc receipt base l (Some ev))) s"
proof -
  from checked_settlement_Inr [OF assms] obtain s where s: "found = Some s" "ev = (s, l2_target s)" "sl_canonicalL2 s" "sl_l2Blocks s \<noteq> []"
     "canonical_block rpc L1 (sl_l1BlockNumber s) (sl_l1BlockHash s)" "canonical_block rpc L2 (fst (l2_target s)) (snd (l2_target s))" by blast
  define state where "state = cs_state (settled_result rpc receipt base l (Some ev))"
  have tag: "case tag_of state of None \<Rightarrow> True | Some tag \<Rightarrow> reached rpc receipt (Some ev) tag"
    unfolding state_def by (rule settled_result_heads)
  have "heads_past rpc state L1 (sl_l1BlockNumber s) \<and> (\<forall>b \<in> set (sl_l2Blocks s). heads_past rpc state L2 (fst b))"
    using tag l2_target_latest [OF s(4)]
    by (auto simp: heads_past_def reached_def s(2) split: option.splits intro: head_reached_mono)
  with s show ?thesis
    unfolding state_def [symmetric] by (simp add: settlement_evidence_def settled_result_fields)
qed

lemma source_result_backed:
  assumes "source_result cfg lib rpc hash c crossChain receipt base = Inr r" and state: "cs_state r \<in> {Call_posted, Call_safe, Call_finalized}"
  shows "cs_execution r = cs_execution base \<and>
     (case cs_settlement r of
        None \<Rightarrow> c = L1 \<and> \<not> crossChain \<and> heads_past rpc (cs_state r) L1 (dr_blockNumber receipt)
      | Some s \<Rightarrow> settles_call cfg lib rpc hash c receipt s \<and> settlement_evidence rpc (cs_state r) s)"
proof (cases "c = L1 \<and> \<not> crossChain")
  case True
  with assms have "r = settled_result rpc receipt base True None" by (simp add: source_result_def)
  with True settled_result_heads [where rpc = rpc and receipt = receipt and base = base and l = True and ev = None] show ?thesis
    by (auto simp: settled_result_fields heads_past_def reached_def split: option.splits)
next
  case False
  with assms obtain found where f: "(if c = L2 then l2_settlement rpc receipt base else l1_settlement cfg lib rpc hash receipt base) = Inr found"
    and rest: "(case found of Ended r \<Rightarrow> Inr r
        | Found base' s \<Rightarrow> res_bind (checked_settlement rpc base' s) (\<lambda>checked.
            Inr (case checked of Inl r \<Rightarrow> r | Inr evidence \<Rightarrow> settled_result rpc receipt base' False (Some evidence)))) = Inr r"
    unfolding source_result_def by (auto simp: res_bind_Inr_iff)
  show ?thesis
  proof (cases found)
    case (Ended x)
    with f have "cs_state x = Call_unavailable" using found_Ended by metis
    with rest state Ended show ?thesis by auto
  next
    case (Found base' m)
    with rest obtain checked where ch: "checked_settlement rpc base' m = Inr checked"
      and r: "r = (case checked of Inl r \<Rightarrow> r | Inr evidence \<Rightarrow> settled_result rpc receipt base' False (Some evidence))"
      by (auto simp: res_bind_Inr_iff)
    show ?thesis
    proof (cases checked)
      case (Inl x)
      with checked_settlement_Inl [of rpc base' m x] ch r state show ?thesis by auto
    next
      case (Inr ev)
      with ch have "checked_settlement rpc base' m = Inr (Inr ev)" by simp
      from settled_evidence [OF this, where receipt = receipt and l = False] obtain s where "m = Some s" "cs_settlement r = Some s"
        "settlement_evidence rpc (cs_state r) s" unfolding r Inr by auto
      moreover from this(1) Found f have "(if c = L2 then l2_settlement rpc receipt base else l1_settlement cfg lib rpc hash receipt base) = Inr (Found base' (Some s))" by simp
      note found_settles [OF this]
      ultimately show ?thesis by (simp add: r Inr settled_result_fields)
    qed
  qed
qed

text \<open>C5. A call is shown as posted, safe or finalized only on canonical evidence: its source block is
  canonical; a local L1 call has its head past that block; every other call has a settlement that
  covers it and is canonical, with its posting block and its highest L2 block canonical, and the
  safe or finalized heads are past the posting block and past every settled L2 block.\<close>
theorem call_settlement_backed:
  assumes "fetchCallSettlement cfg lib rpc hash c crossChain = Inr r" and "cs_state r \<in> {Call_posted, Call_safe, Call_finalized}"
  shows "\<exists>receipt. cr_receipt rpc c hash = Inr (Some receipt) \<and> canonical_block rpc c (dr_blockNumber receipt) (dr_blockHash receipt)
     \<and> cs_execution r = (if dr_status receipt = ''0x1'' then Exec_confirmed else Exec_reverted)
     \<and> (case cs_settlement r of
          None \<Rightarrow> c = L1 \<and> \<not> crossChain \<and> heads_past rpc (cs_state r) L1 (dr_blockNumber receipt)
        | Some s \<Rightarrow> settles_call cfg lib rpc hash c receipt s \<and> settlement_evidence rpc (cs_state r) s)"
proof -
  define base_of where "base_of = (\<lambda>receipt :: debug_receipt. pending_call\<lparr>cs_execution := (if dr_status receipt = ''0x1'' then Exec_confirmed else Exec_reverted)\<rparr>)"
  from assms obtain receipt where receipt: "cr_receipt rpc c hash = Inr (Some receipt)"
    unfolding fetchCallSettlement_def by (auto simp: res_bind_Inr_iff pending_call_def split: option.splits)
  have not_stopped: "cs_state (stopped state msg x) = state" for state msg x by (simp add: stopped_def)
  from assms receipt obtain b where b: "cr_block rpc c (dr_blockNumber receipt) = Inr (Some b)" "same_nonempty (snd b) (dr_blockHash receipt)"
    and s: "source_result cfg lib rpc hash c crossChain receipt (base_of receipt) = Inr r"
    unfolding fetchCallSettlement_def base_of_def [symmetric] Let_def
    by (cases "cr_block rpc c (dr_blockNumber receipt)") (auto simp: base_of_def not_stopped split: option.splits if_splits)
  have "cs_execution (base_of receipt) = (if dr_status receipt = ''0x1'' then Exec_confirmed else Exec_reverted)" by (simp add: base_of_def)
  moreover have "canonical_block rpc c (dr_blockNumber receipt) (dr_blockHash receipt)" using b unfolding canonical_block_def by blast
  ultimately show ?thesis using receipt source_result_backed [OF s assms(2)] by auto
qed

text \<open>Finality is recognised: an included L2 call whose block is in a settlement with canonical
  evidence and finalized heads is shown as finalized, with that settlement.\<close>
theorem finality_recognised:
  assumes "cr_receipt rpc L2 hash = Inr (Some receipt)" and "canonical_block rpc L2 (dr_blockNumber receipt) (dr_blockHash receipt)"
    and "hp_settlement (cr_history rpc) (dr_blockHash receipt) = Inr (Some s)" and "includes_block (dr_blockHash receipt) s"
    and "settlement_evidence rpc Call_finalized s"
  shows "\<exists>r. fetchCallSettlement cfg lib rpc hash L2 crossChain = Inr r \<and> cs_state r = Call_finalized \<and> cs_settlement r = Some s"
proof -
  define base where "base = pending_call\<lparr>cs_execution := (if dr_status receipt = ''0x1'' then Exec_confirmed else Exec_reverted)\<rparr>"
  from assms(2) obtain b where b: "cr_block rpc L2 (dr_blockNumber receipt) = Inr (Some b)" "same_nonempty (snd b) (dr_blockHash receipt)"
    unfolding canonical_block_def by blast
  from assms(5) have e: "sl_canonicalL2 s" "sl_l2Blocks s \<noteq> []" and heads: "head_reached rpc L1 Finalized_head (sl_l1BlockNumber s)"
      "\<forall>b \<in> set (sl_l2Blocks s). head_reached rpc L2 Finalized_head (fst b)"
    and blocks: "canonical_block rpc L1 (sl_l1BlockNumber s) (sl_l1BlockHash s)" "canonical_block rpc L2 (fst (l2_target s)) (snd (l2_target s))"
    by (simp_all add: settlement_evidence_def heads_past_def tag_of_def)
  from blocks obtain x y where "cr_block rpc L1 (sl_l1BlockNumber s) = Inr (Some x)" "same_nonempty (snd x) (sl_l1BlockHash s)"
    "cr_block rpc L2 (fst (l2_target s)) = Inr (Some y)" "same_nonempty (snd y) (snd (l2_target s))"
    unfolding canonical_block_def by blast
  with e have ch: "checked_settlement rpc base (Some s) = Inr (Inr (s, l2_target s))" by (simp add: checked_settlement_def)
  have "l2_settlement rpc receipt base = Inr (Found base (Some s))" using assms(3,4) by (simp add: l2_settlement_def)
  with ch have "source_result cfg lib rpc hash L2 crossChain receipt base = Inr (settled_result rpc receipt base False (Some (s, l2_target s)))"
    by (simp add: source_result_def)
  with b assms(1) have "fetchCallSettlement cfg lib rpc hash L2 crossChain = Inr (settled_result rpc receipt base False (Some (s, l2_target s)))"
    by (simp add: fetchCallSettlement_def base_def)
  moreover have "reached rpc receipt (Some (s, l2_target s)) Finalized_head"
    using heads l2_target_latest [OF e(2)] by (auto simp: reached_def)
  ultimately show ?thesis by (simp add: settled_result_state settled_result_fields)
qed

definition sample_settled :: settlement where
  "sample_settled = \<lparr>sl_l1BlockNumber = 9, sl_l1BlockHash = ''0xb9'', sl_l1TransactionHash = ''0xpost'', sl_l2Blocks = [(4, ''0xa4''), (5, ''0xa5'')],
     sl_canonicalL2 = True, sl_l2Finalized = False\<rparr>"

definition sample_l2_receipt :: debug_receipt where
  "sample_l2_receipt = \<lparr>dr_status = ''0x1'', dr_gasUsed = ''0x0'', dr_blockNumber = 4, dr_blockHash = ''0xA4'', dr_logs = [], dr_contractAddress = None\<rparr>"

definition sample_call_rpc :: call_rpc where
  "sample_call_rpc = \<lparr>cr_receipt = (\<lambda>c h. Inr (if c = L2 then Some sample_l2_receipt else None)),
     cr_block = (\<lambda>c n. Inr (Some (n, if c = L1 then ''0xb9'' else if n = 4 then ''0xa4'' else ''0xa5''))),
     cr_head = (\<lambda>c t. Inr (Some (20, []))),
     cr_history = \<lparr>hp_receipt = (\<lambda>c h. Inr None), hp_settlement = (\<lambda>h. Inr (Some sample_settled)), hp_ranges = (\<lambda>h. Inr None),
       hp_origins = (\<lambda>h a t. Inr []), hp_inbound = (\<lambda>a b t. Inr [])\<rparr>\<rparr>"

lemma sample_settled_evidence: "settlement_evidence sample_call_rpc Call_finalized sample_settled"
  by (simp add: settlement_evidence_def canonical_block_def sample_settled_def sample_call_rpc_def l2_target_def later_block_def
      same_nonempty_def heads_past_def tag_of_def head_reached_def js_eval)

definition sample_call_config :: debug_config where
  "sample_call_config = \<lparr>cfg_l1Rpc = ''a'', cfg_l2Rpc = ''b'', cfg_rollupsAddress = [], cfg_ccmL2Address = [], cfg_rollupId = ''1''\<rparr>"

definition sample_no_abi :: history_abi where
  "sample_no_abi = \<lparr>ha_l1 = (\<lambda>l. None), ha_l2 = (\<lambda>l. None)\<rparr>"

theorem finality_recognised_witness:
  "\<exists>r. fetchCallSettlement sample_call_config sample_no_abi sample_call_rpc ''0xcall'' L2 True = Inr r \<and> cs_state r = Call_finalized
     \<and> cs_settlement r = Some sample_settled"
proof (rule finality_recognised)
  show "cr_receipt sample_call_rpc L2 ''0xcall'' = Inr (Some sample_l2_receipt)" by (simp add: sample_call_rpc_def)
  show "canonical_block sample_call_rpc L2 (dr_blockNumber sample_l2_receipt) (dr_blockHash sample_l2_receipt)"
    unfolding canonical_block_def by (rule exI [of _ "(4, ''0xa4'')"]) code_simp
  show "includes_block (dr_blockHash sample_l2_receipt) sample_settled"
    by code_simp
  show "hp_settlement (cr_history sample_call_rpc) (dr_blockHash sample_l2_receipt) = Inr (Some sample_settled)" by (simp add: sample_call_rpc_def)
qed (rule sample_settled_evidence)

lemma sample_call_evaluates:
  "map_sum id cs_state (fetchCallSettlement sample_call_config sample_no_abi sample_call_rpc ''0xcall'' L2 True) = Inr Call_finalized"
  by code_simp

theorem call_settlement_backed_witness:
  "\<exists>r s. fetchCallSettlement sample_call_config sample_no_abi sample_call_rpc ''0xcall'' L2 True = Inr r \<and> cs_settlement r = Some s
     \<and> settlement_evidence sample_call_rpc Call_finalized s"
proof -
  obtain r where r: "fetchCallSettlement sample_call_config sample_no_abi sample_call_rpc ''0xcall'' L2 True = Inr r" "cs_state r = Call_finalized"
    using sample_call_evaluates by (cases "fetchCallSettlement sample_call_config sample_no_abi sample_call_rpc ''0xcall'' L2 True") auto
  from call_settlement_backed [OF r(1)] r show ?thesis by (auto split: option.splits)
qed

end
