(* ===== verification/Trace_Base.thy ===== *)
theory Trace_Base
  imports Debug_Types
begin

text \<open>
  The data of the trace decoder (\<open>src/trace-decoder/src/protocol.mjs\<close> and \<open>logical.mjs\<close>): call frames,
  tables, requests that leave a chain and calls that arrive. Decoded calldata is untyped (\<^typ>\<open>js\<close>);
  amounts of a frame are integers. Decoding by the protocol ABI, the call hash and the two registry reads
  at a block are the parameters of \<open>trace_lib\<close>: a read that fails gives \<^const>\<open>None\<close>, as in the code.
\<close>

text \<open>\<open>same\<close>: both given and equal up to the case of texts.\<close>

fun lower_js :: "js \<Rightarrow> js" where
  "lower_js (JStr s) = JStr (js_lower s)"
| "lower_js v = v"

definition same_js :: "js \<Rightarrow> js \<Rightarrow> bool" where
  "same_js a b \<longleftrightarrow> \<not> js_nullish a \<and> \<not> js_nullish b \<and> js_strict_eq (lower_js a) (lower_js b)"

definition same_addr :: "string option \<Rightarrow> string option \<Rightarrow> bool" where
  "same_addr a b = (case (a, b) of (Some x, Some y) \<Rightarrow> js_lower x = js_lower y | _ \<Rightarrow> False)"

section \<open>Raw traces and records\<close>

datatype raw_call = Raw_call (rc_type: string) (rc_from: "string option") (rc_to: "string option") (rc_input: string) (rc_output: string)
  (rc_value: int) (rc_error: "string option") (rc_logs: "raw_log list") (rc_calls: "raw_call list")

text \<open>\<open>raw.error\<close> is used as a truth value: an empty text is no error.\<close>

definition failed :: "string option \<Rightarrow> bool" where
  "failed e = (case e of None \<Rightarrow> False | Some s \<Rightarrow> s \<noteq> [])"

record trace_tx =
  tt_chain :: chain
  tt_hash :: string \<comment> \<open>in lower case, as the reader returns it\<close>
  tt_block :: int
  tt_index :: int
  tt_to :: "string option"
  tt_input :: string
  tt_status :: "int option" \<comment> \<open>of its receipt\<close>
  tt_receipt :: bool
  tt_logs :: "(bool \<times> raw_log) list" \<comment> \<open>of its receipt, with their \<open>removed\<close> flag\<close>
  tt_trace :: "raw_call option"

definition chain_name :: "chain \<Rightarrow> string" where
  "chain_name c = (if c = L1 then ''L1'' else ''L2'')"

definition tx_id :: "trace_tx \<Rightarrow> string" where
  "tx_id t = chain_name (tt_chain t) @ '':'' @ tt_hash t"

record trace_link =
  tk_id :: string
  tk_references :: "(chain \<times> string) list"
  tk_host :: "string option" \<comment> \<open>\<open>l1Execution.frameId\<close>\<close>

record trace_settlement =
  tz_id :: string
  tz_first :: int
  tz_last :: int
  tz_l1Transaction :: string

section \<open>Parsed calls and the interfaces of the decoder\<close>

record parsed_call =
  pc_name :: string
  pc_args :: "js list"

record proxy_identity =
  px_originalAddress :: string
  px_originalRollupId :: string

text \<open>The identity of a cross-chain call.\<close>

record call_identity =
  ci_source :: js
  ci_sourceRollup :: "string option"
  ci_target :: js
  ci_targetRollup :: "string option"
  ci_value :: string
  ci_data :: js
  ci_static :: js

record trace_lib =
  tl_event :: "chain \<Rightarrow> raw_log \<Rightarrow> (string \<times> js_object) option"
  tl_call :: "chain \<Rightarrow> string \<Rightarrow> parsed_call option"
  tl_proxyCall :: "string \<Rightarrow> parsed_call option"
  tl_proxy :: "chain \<Rightarrow> string \<Rightarrow> int \<Rightarrow> proxy_identity option"
  tl_system :: "int \<Rightarrow> string option"
  tl_hash :: "call_identity \<Rightarrow> string \<Rightarrow> string" \<comment> \<open>of an identity and a gas policy\<close>

record trace_env =
  te_lib :: trace_lib
  te_manager :: "chain \<Rightarrow> string"
  te_rollupId :: "chain \<Rightarrow> string option"
  te_links :: "trace_link list"
  te_settlements :: "trace_settlement list"
  te_matchingDisabled :: bool

section \<open>Frames and tables\<close>

datatype frame_role = Role_manager | Role_application | Role_outgoing_proxy | Role_incoming_proxy | Role_static_probe | Role_system_transfer

record phys_frame =
  pf_id :: string
  pf_chain :: chain
  pf_tx :: string
  pf_block :: int
  pf_txIndex :: int
  pf_path :: string
  pf_parent :: "string option"
  pf_children :: "string list"
  pf_type :: string
  pf_from :: "string option"
  pf_to :: "string option"
  pf_context :: "string option"
  pf_input :: string
  pf_output :: string
  pf_value :: int
  pf_error :: "string option"
  pf_static :: bool
  pf_reverted :: bool
  pf_role :: frame_role
  pf_generation :: "string option"

text \<open>A row is one prepared call of a table: its place and the decoded call.\<close>

record table_row =
  tr_id :: string
  tr_call :: js_object

record trace_table =
  tb_id :: string
  tb_frame :: "string option"
  tb_chain :: chain
  tb_tx :: string
  tb_previous :: "string option"
  tb_committed :: bool
  tb_entries :: "js_object list"
  tb_staticEntries :: "js_object list"
  tb_rows :: "table_row list"
  tb_settlements :: "string list"

record trace_event =
  tv_id :: string
  tv_frame :: "string option"
  tv_chain :: chain
  tv_tx :: string
  tv_committed :: "bool option" \<comment> \<open>\<open>null\<close> for an event of a trace that was not rolled back\<close>
  tv_address :: "string option"
  tv_decoded :: "(string \<times> js_object) option"

section \<open>Rows of a table\<close>

definition first_given :: "js_object \<Rightarrow> string \<Rightarrow> string \<Rightarrow> js_object list" where
  "first_given e a b = js_objects (if js_truthy (js_prop e a) then js_prop e a else js_prop e b)"

definition number_list :: "'a list \<Rightarrow> (nat \<times> 'a) list" where
  "number_list xs = zip [0 ..< length xs] xs"

definition nested_rows :: "string \<Rightarrow> nat \<times> js_object \<Rightarrow> table_row list" where
  "nested_rows place = (\<lambda>(j, item). map (\<lambda>(i, call). \<lparr>tr_id = place @ ''/nested/'' @ show_nat j @ ''/calls/'' @ show_nat i, tr_call = call\<rparr>)
     (number_list (first_given item ''incomingCalls'' ''l2ToL1Calls'')))"

definition entry_rows :: "string \<Rightarrow> string \<Rightarrow> nat \<times> js_object \<Rightarrow> table_row list" where
  "entry_rows table pool = (\<lambda>(index, e).
     (let place = table @ ''/'' @ pool @ ''/'' @ show_nat index
      in map (\<lambda>(i, call). \<lparr>tr_id = place @ ''/calls/'' @ show_nat i, tr_call = call\<rparr>) (number_list (first_given e ''incomingCalls'' ''l2ToL1Calls''))
         @ concat (map (nested_rows place) (number_list (first_given e ''expectedOutgoingCalls'' ''expectedL1ToL2Calls'')))))"

definition rowList :: "string \<Rightarrow> js_object list \<Rightarrow> js_object list \<Rightarrow> table_row list" where
  "rowList table entries staticEntries =
     concat (map (entry_rows table ''entries'') (number_list entries)) @ concat (map (entry_rows table ''staticEntries'') (number_list staticEntries))"

section \<open>Scopes\<close>

definition link_names :: "trace_link \<Rightarrow> chain \<Rightarrow> string \<Rightarrow> bool" where
  "link_names k c h \<longleftrightarrow> list_ex (\<lambda>(d, g). d = c \<and> js_lower g = js_lower h) (tk_references k)"

text \<open>\<open>scopes(record, generation)\<close>: the transaction is given by its chain, hash and block, the
  generation by the hash of its transaction.\<close>

definition scopes :: "trace_env \<Rightarrow> chain \<Rightarrow> string \<Rightarrow> int \<Rightarrow> string option \<Rightarrow> string list" where
  "scopes env c hash block generation =
     (if te_links env \<noteq> []
      then map tk_id (filter (\<lambda>k. link_names k c hash \<and> (case generation of None \<Rightarrow> True | Some g \<Rightarrow> link_names k c g)) (te_links env))
      else map tz_id (filter (\<lambda>s.
        if c = L2 then tz_first s \<le> block \<and> block \<le> tz_last s
        else js_lower (case generation of None \<Rightarrow> hash | Some g \<Rightarrow> g) = js_lower (tz_l1Transaction s)) (te_settlements env)))"

section \<open>Identities\<close>

definition sameIdentity :: "call_identity \<Rightarrow> call_identity \<Rightarrow> bool" where
  "sameIdentity a b \<longleftrightarrow>
     same_js (ci_source a) (ci_source b) \<and> same_js (ci_target a) (ci_target b) \<and> same_js (ci_data a) (ci_data b)
     \<and> ci_value a = ci_value b \<and> js_strict_eq (ci_static a) (ci_static b)
     \<and> ci_sourceRollup a \<noteq> None \<and> ci_sourceRollup a = ci_sourceRollup b
     \<and> ci_targetRollup a \<noteq> None \<and> ci_targetRollup a = ci_targetRollup b"

lemma js_strict_eq_sym: "js_strict_eq x y = js_strict_eq y x"
  by (cases x; cases y) auto

lemma sameIdentity_sym: "sameIdentity a b = sameIdentity b a"
proof -
  have "same_js x y = same_js y x" for x y using js_strict_eq_sym by (auto simp: same_js_def)
  then show ?thesis unfolding sameIdentity_def using js_strict_eq_sym by metis
qed

end
