(* ===== verification/Trace_Frames.thy ===== *)
theory Trace_Frames
  imports Trace_Base
begin

text \<open>
  The first pass of \<open>buildGraph\<close> (\<open>src/trace-decoder/src/logical.mjs\<close>): every call of every trace becomes a
  frame, in the order of the calls; a call that loads a table starts a new generation of its block, and
  a failed call takes back the generations that started inside it. The logs of a
  trace and the logs of a successful receipt are recorded as events.
\<close>

definition loadNames :: "string set" where
  "loadNames = {''postAndVerifyBatch'', ''loadExecutionTable'', ''executeIncomingCrossChainCall''}"

definition is_delegate :: "string \<Rightarrow> bool" where
  "is_delegate t \<longleftrightarrow> t = ''DELEGATECALL'' \<or> t = ''CALLCODE''"

record walk_state =
  ws_frames :: "phys_frame list"
  ws_tables :: "trace_table list"
  ws_parsed :: "(string, parsed_call) jmap"
  ws_events :: "trace_event list"
  ws_generation :: "string option" \<comment> \<open>\<open>state\<close>\<close>

section \<open>Tables\<close>

definition argument :: "parsed_call \<Rightarrow> nat \<Rightarrow> js" where
  "argument p i = (if i < length (pc_args p) then pc_args p ! i else JUndefined)"

definition table_entries :: "parsed_call \<Rightarrow> js_object list \<times> js_object list" where
  "table_entries p =
     (if pc_name p = ''postAndVerifyBatch''
      then (js_objects (js_field (argument p 0) ''entries''), js_objects (js_field (argument p 0) ''staticEntries''))
      else (js_objects (argument p 0), js_objects (argument p 1)))"

definition newTable :: "trace_env \<Rightarrow> trace_tx \<Rightarrow> string \<Rightarrow> string option \<Rightarrow> bool \<Rightarrow> parsed_call \<Rightarrow> string option \<Rightarrow> trace_table" where
  "newTable env record frame frameId reverted p state =
     (let (entries, staticEntries) = table_entries p; id = frame @ ''/table''
      in \<lparr>tb_id = id, tb_frame = frameId, tb_chain = tt_chain record, tb_tx = tt_hash record, tb_previous = state, tb_committed = (\<not> reverted),
          tb_entries = entries, tb_staticEntries = staticEntries, tb_rows = rowList id entries staticEntries,
          tb_settlements = scopes env (tt_chain record) (tt_hash record) (tt_block record) (if tt_chain record = L1 then Some (tt_hash record) else None)\<rparr>)"

section \<open>One trace\<close>

record walk_place =
  wp_parent :: "phys_frame option"
  wp_path :: string
  wp_static :: bool
  wp_reverted :: bool

definition role_at :: "trace_env \<Rightarrow> chain \<Rightarrow> string option \<Rightarrow> frame_role" where
  "role_at env c address = (if same_addr address (Some (te_manager env c)) then Role_manager else Role_application)"

definition new_frame :: "trace_env \<Rightarrow> trace_tx \<Rightarrow> walk_place \<Rightarrow> string option \<Rightarrow> raw_call \<Rightarrow> phys_frame" where
  "new_frame env record place generation raw =
     (let address = (if is_delegate (rc_type raw) then Option.bind (wp_parent place) pf_context else rc_to raw)
      in \<lparr>pf_id = tx_id record @ '':'' @ wp_path place, pf_chain = tt_chain record, pf_tx = tt_hash record, pf_block = tt_block record,
          pf_txIndex = tt_index record, pf_path = wp_path place, pf_parent = map_option pf_id (wp_parent place), pf_children = [],
          pf_type = (if rc_type raw = [] then ''CALL'' else rc_type raw), pf_from = rc_from raw, pf_to = rc_to raw, pf_context = address,
          pf_input = (if rc_input raw = [] then ''0x'' else rc_input raw), pf_output = (if rc_output raw = [] then ''0x'' else rc_output raw),
          pf_value = rc_value raw, pf_error = rc_error raw, pf_static = (wp_static place \<or> rc_type raw = ''STATICCALL''),
          pf_reverted = (wp_reverted place \<or> failed (rc_error raw)), pf_role = role_at env (tt_chain record) address, pf_generation = generation\<rparr>)"

definition add_child :: "string option \<Rightarrow> string \<Rightarrow> phys_frame list \<Rightarrow> phys_frame list" where
  "add_child parent child frames =
     (case parent of None \<Rightarrow> frames | Some p \<Rightarrow> map (\<lambda>f. if pf_id f = p then f\<lparr>pf_children := pf_children f @ [child]\<rparr> else f) frames)"

definition parsed_at :: "trace_env \<Rightarrow> phys_frame \<Rightarrow> parsed_call option" where
  "parsed_at env f = (if pf_role f = Role_manager then tl_call (te_lib env) (pf_chain f) (pf_input f) else None)"

text \<open>A delegate call of the manager with the input of its caller is the same load once more.\<close>

definition loads_table :: "phys_frame option \<Rightarrow> phys_frame \<Rightarrow> parsed_call option \<Rightarrow> bool" where
  "loads_table parent f parsed =
     (case parsed of
        None \<Rightarrow> False
      | Some p \<Rightarrow> pc_name p \<in> loadNames \<and>
          \<not> (is_delegate (pf_type f) \<and> (case parent of None \<Rightarrow> False | Some q \<Rightarrow> pf_role q = Role_manager \<and> js_lower (pf_input q) = js_lower (pf_input f))))"

definition enter_frame :: "trace_env \<Rightarrow> trace_tx \<Rightarrow> walk_place \<Rightarrow> raw_call \<Rightarrow> walk_state \<Rightarrow> phys_frame \<times> walk_state" where
  "enter_frame env record place raw s =
     (let f = new_frame env record place (ws_generation s) raw; parsed = parsed_at env f;
          s1 = s\<lparr>ws_parsed := (case parsed of None \<Rightarrow> ws_parsed s | Some p \<Rightarrow> jmap_set (pf_id f) p (ws_parsed s))\<rparr>
      in if loads_table (wp_parent place) f parsed
         then let t = newTable env record (pf_id f) (Some (pf_id f)) (pf_reverted f) (the parsed) (ws_generation s); f' = f\<lparr>pf_generation := Some (tb_id t)\<rparr>
              in (f', s1\<lparr>ws_frames := add_child (pf_parent f) (pf_id f) (ws_frames s @ [f']), ws_tables := ws_tables s @ [t], ws_generation := Some (tb_id t)\<rparr>)
         else (f, s1\<lparr>ws_frames := add_child (pf_parent f) (pf_id f) (ws_frames s @ [f])\<rparr>))"

definition decoded_log :: "trace_env \<Rightarrow> chain \<Rightarrow> string option \<Rightarrow> raw_log \<Rightarrow> (string \<times> js_object) option" where
  "decoded_log env c address log = (if same_addr address (Some (te_manager env c)) then tl_event (te_lib env) c log else None)"

definition frame_events :: "trace_env \<Rightarrow> phys_frame \<Rightarrow> raw_log list \<Rightarrow> trace_event list" where
  "frame_events env f logs =
     map (\<lambda>(i, log). let address = (if rl_address log = [] then pf_context f else Some (rl_address log))
       in \<lparr>tv_id = pf_id f @ ''/log/'' @ show_nat i, tv_frame = Some (pf_id f), tv_chain = pf_chain f, tv_tx = pf_tx f,
           tv_committed = (if pf_reverted f then Some False else None), tv_address = address, tv_decoded = decoded_log env (pf_chain f) address log\<rparr>)
       (number_list logs)"

definition receipt_events :: "trace_env \<Rightarrow> trace_tx \<Rightarrow> trace_event list" where
  "receipt_events env record =
     (if tt_status record \<noteq> Some 1 then []
      else map (\<lambda>(removed, log). \<lparr>tv_id = tx_id record @ ''/receipt/'' @ show_int (rl_logIndex log), tv_frame = None, tv_chain = tt_chain record, tv_tx = tt_hash record,
        tv_committed = Some True, tv_address = Some (rl_address log), tv_decoded = decoded_log env (tt_chain record) (Some (rl_address log)) log\<rparr>)
        (filter (\<lambda>(removed, log). \<not> removed) (tt_logs record)))"

definition child_place :: "phys_frame \<Rightarrow> nat \<Rightarrow> walk_place" where
  "child_place f i = \<lparr>wp_parent = Some f, wp_path = pf_path f @ ''.'' @ show_nat i, wp_static = pf_static f, wp_reverted = pf_reverted f\<rparr>"

fun walk :: "trace_env \<Rightarrow> trace_tx \<Rightarrow> walk_place \<Rightarrow> raw_call \<Rightarrow> walk_state \<Rightarrow> walk_state"
  and walk_calls :: "trace_env \<Rightarrow> trace_tx \<Rightarrow> phys_frame \<Rightarrow> nat \<Rightarrow> raw_call list \<Rightarrow> walk_state \<Rightarrow> walk_state" where
  "walk env record place (Raw_call ty fr tt inp out v err logs calls) s =
     (let raw = Raw_call ty fr tt inp out v err logs calls; (f, s1) = enter_frame env record place raw s;
          s2 = walk_calls env record f 0 calls (s1\<lparr>ws_events := ws_events s1 @ frame_events env f logs\<rparr>)
      in if failed err then s2\<lparr>ws_generation := ws_generation s\<rparr> else s2)"
| "walk_calls env record f i [] s = s"
| "walk_calls env record f i (c # cs) s = walk_calls env record f (Suc i) cs (walk env record (child_place f i) c s)"

section \<open>All transactions\<close>

record graph_state =
  gs_walk :: walk_state
  gs_roots :: "string list" \<comment> \<open>\<open>physicalRoots\<close>\<close>
  gs_blocks :: "(chain \<times> int, string option) jmap" \<comment> \<open>\<open>blockState\<close>\<close>

definition root_place :: "trace_tx \<Rightarrow> walk_place" where
  "root_place record = \<lparr>wp_parent = None, wp_path = ''0'', wp_static = False, wp_reverted = (tt_receipt record \<and> tt_status record = Some 0)\<rparr>"

text \<open>Calldata can preserve a table when no trace is available; it never gives a frame.\<close>

definition calldata_table :: "trace_env \<Rightarrow> trace_tx \<Rightarrow> walk_state \<Rightarrow> walk_state" where
  "calldata_table env record s =
     (if \<not> same_addr (tt_to record) (Some (te_manager env (tt_chain record))) then s
      else case tl_call (te_lib env) (tt_chain record) (tt_input record) of
        None \<Rightarrow> s
      | Some p \<Rightarrow>
          if pc_name p \<notin> loadNames then s
          else let reverted = (tt_status record \<noteq> Some 1);
                   t = newTable env record (tx_id record @ '':calldata'') None reverted p (ws_generation s)
               in s\<lparr>ws_tables := ws_tables s @ [t], ws_generation := (if reverted then ws_generation s else Some (tb_id t))\<rparr>)"

definition add_record :: "trace_env \<Rightarrow> graph_state \<Rightarrow> trace_tx \<Rightarrow> graph_state" where
  "add_record env g record =
     (let key = (tt_chain record, tt_block record);
          s = (gs_walk g)\<lparr>ws_generation := (case jmap_get (gs_blocks g) key of None \<Rightarrow> None | Some x \<Rightarrow> x)\<rparr>;
          s' = (case tt_trace record of None \<Rightarrow> calldata_table env record s | Some raw \<Rightarrow> walk env record (root_place record) raw s)
      in g\<lparr>gs_walk := s'\<lparr>ws_events := ws_events s' @ receipt_events env record\<rparr>, gs_roots := (if tt_trace record = None then gs_roots g else gs_roots g @ [tx_id record @ '':0'']),
           gs_blocks := jmap_set key (ws_generation s') (gs_blocks g)\<rparr>)"

definition empty_graph :: graph_state where
  "empty_graph = \<lparr>gs_walk = \<lparr>ws_frames = [], ws_tables = [], ws_parsed = [], ws_events = [], ws_generation = None\<rparr>, gs_roots = [], gs_blocks = []\<rparr>"

definition all_frames :: "trace_env \<Rightarrow> trace_tx list \<Rightarrow> graph_state" where
  "all_frames env transactions = foldl (add_record env) empty_graph transactions"

text \<open>
  The second pass of \<open>buildGraph\<close>: requests that leave a chain through a proxy and the manager
  (\<open>outgoing\<close>), and calls that the manager delivers through a proxy (\<open>incoming\<close>). Each is confirmed by
  the registry of proxies at its block; what cannot be confirmed is reported with its frame. A frame is
  looked up by its id; the descent through delegate calls of the manager is bounded by the number of
  frames, as a child always comes after its parent.
\<close>

datatype match_status = Status_unresolved | Status_matched | Status_ambiguous | Status_prepared

record entry_candidate =
  ec_generation :: string
  ec_pool :: string
  ec_index :: nat
  ec_success :: js
  ec_returnData :: js

record outgoing =
  og_id :: string
  og_frame :: string
  og_manager :: string
  og_chain :: chain
  og_identity :: call_identity
  og_gasPolicy :: js
  og_hashes :: "js list"
  og_generation :: "string option"
  og_consumed :: "js_object list"
  og_settlements :: "string list"
  og_reverted :: bool
  og_entryCandidates :: "entry_candidate list"
  og_candidates :: "string list"
  og_rejected :: "string list"
  og_status :: match_status
  og_remote :: "string option"
  og_evidence :: "string list"

record incoming =
  ic_id :: string
  ic_frame :: string
  ic_proxyFrame :: string
  ic_chain :: chain
  ic_identity :: call_identity
  ic_gas :: string
  ic_generation :: "string option"
  ic_settlements :: "string list"
  ic_reverted :: bool
  ic_tableRows :: "string list"
  ic_source :: "string option" \<comment> \<open>\<open>sourceFrameId\<close>\<close>

record call_graph =
  cg_frames :: "phys_frame list"
  cg_proxies :: "(string, proxy_identity) jmap"
  cg_outgoing :: "outgoing list"
  cg_incoming :: "incoming list"
  cg_unresolved :: "(string \<times> string) list" \<comment> \<open>code and frame\<close>

definition frame_by_id :: "phys_frame list \<Rightarrow> string \<Rightarrow> phys_frame option" where
  "frame_by_id frames k = find (\<lambda>f. pf_id f = k) frames"

definition parent_of :: "phys_frame list \<Rightarrow> phys_frame \<Rightarrow> phys_frame option" where
  "parent_of frames f = Option.bind (pf_parent f) (frame_by_id frames)"

definition table_by_id :: "trace_table list \<Rightarrow> string option \<Rightarrow> trace_table option" where
  "table_by_id tables k = (case k of None \<Rightarrow> None | Some i \<Rightarrow> find (\<lambda>t. tb_id t = i) (rev tables))" \<comment> \<open>the last one set\<close>

definition set_role :: "string \<Rightarrow> frame_role \<Rightarrow> phys_frame list \<Rightarrow> phys_frame list" where
  "set_role k role frames = map (\<lambda>f. if pf_id f = k then f\<lparr>pf_role := role\<rparr> else f) frames"

definition report :: "string \<Rightarrow> string \<Rightarrow> call_graph \<Rightarrow> call_graph" where
  "report code frame g = g\<lparr>cg_unresolved := cg_unresolved g @ [(code, frame)]\<rparr>"

definition proxyInfo :: "trace_env \<Rightarrow> phys_frame \<Rightarrow> string option \<Rightarrow> proxy_identity option" where
  "proxyInfo env f address = (case address of None \<Rightarrow> None | Some a \<Rightarrow> tl_proxy (te_lib env) (pf_chain f) (js_lower a) (pf_block f))"

section \<open>Events of a manager call\<close>

fun delegate_frames :: "nat \<Rightarrow> phys_frame list \<Rightarrow> phys_frame \<Rightarrow> string list" where
  "delegate_frames 0 frames f = []"
| "delegate_frames (Suc n) frames f =
     concat (map (\<lambda>id. case frame_by_id frames id of
         None \<Rightarrow> []
       | Some c \<Rightarrow> if is_delegate (pf_type c) \<and> pf_role c = Role_manager then id # delegate_frames n frames c else []) (pf_children f))"

definition managerEvents :: "phys_frame list \<Rightarrow> trace_event list \<Rightarrow> phys_frame \<Rightarrow> (string \<times> js_object) list" where
  "managerEvents frames events f =
     (let ids = pf_id f # delegate_frames (length frames) frames f
      in List.map_filter (\<lambda>e. case tv_frame e of None \<Rightarrow> None | Some i \<Rightarrow> if i \<in> set ids then tv_decoded e else None) events)"

section \<open>Requests\<close>

definition outgoingNames :: "string set" where
  "outgoingNames = {''executeCrossChainCall'', ''staticCrossChainCall''}"

definition js_opt :: "string option \<Rightarrow> js" where
  "js_opt m = (case m of None \<Rightarrow> JNull | Some s \<Rightarrow> JStr s)"

definition call_hashes_of :: "trace_env \<Rightarrow> call_identity \<Rightarrow> js \<Rightarrow> (string \<times> js_object) option \<Rightarrow> js list" where
  "call_hashes_of env identity gasPolicy event =
     jset_of ((if ci_sourceRollup identity = None then []
               else [JStr (tl_hash (te_lib env) identity ''0''), JStr (tl_hash (te_lib env) identity (js_string gasPolicy))])
              @ (case event of None \<Rightarrow> [] | Some (n, args) \<Rightarrow> [js_prop args ''crossChainCallHash'']))"

definition pool_candidates :: "js list \<Rightarrow> string \<Rightarrow> string \<Rightarrow> js_object list \<Rightarrow> entry_candidate list" where
  "pool_candidates hashes generation pool entries =
     map (\<lambda>(i, e). \<lparr>ec_generation = generation, ec_pool = pool, ec_index = i, ec_success = js_prop e ''success'', ec_returnData = js_prop e ''returnData''\<rparr>)
       (filter (\<lambda>(i, e). list_ex (\<lambda>h. same_js h (js_prop e ''proxyEntryHash'')) hashes) (number_list entries))"

definition entryCandidates :: "js list \<Rightarrow> trace_table option \<Rightarrow> entry_candidate list" where
  "entryCandidates hashes table =
     (case table of
        None \<Rightarrow> []
      | Some t \<Rightarrow> pool_candidates hashes (tb_id t) ''entries'' (tb_entries t) @ pool_candidates hashes (tb_id t) ''staticEntries'' (tb_staticEntries t))"

definition mk_outgoing :: "trace_env \<Rightarrow> trace_table list \<Rightarrow> trace_event list \<Rightarrow> call_graph \<Rightarrow> phys_frame \<Rightarrow> phys_frame \<Rightarrow> parsed_call \<Rightarrow> proxy_identity \<Rightarrow> outgoing" where
  "mk_outgoing env tables events g parent f p info =
     (let evs = managerEvents (cg_frames g) events f; event = find (\<lambda>e. fst e = ''CrossChainCallExecuted'') evs;
          table = table_by_id tables (pf_generation f);
          identity = \<lparr>ci_source = argument p 0, ci_sourceRollup = te_rollupId env (pf_chain f), ci_target = JStr (px_originalAddress info),
            ci_targetRollup = Some (px_originalRollupId info), ci_value = show_int (pf_value f), ci_data = argument p 1,
            ci_static = JBool (pc_name p = ''staticCrossChainCall'')\<rparr>;
          gasPolicy = (case event of None \<Rightarrow> JStr ''0'' | Some (n, args) \<Rightarrow> js_coalesce (js_prop args ''callGas'') (JStr ''0''));
          hashes = call_hashes_of env identity gasPolicy event
      in \<lparr>og_id = pf_id parent @ ''/outgoing'', og_frame = pf_id parent, og_manager = pf_id f, og_chain = pf_chain f, og_identity = identity,
          og_gasPolicy = gasPolicy, og_hashes = hashes, og_generation = pf_generation f,
          og_consumed = map snd (filter (\<lambda>e. fst e = ''ExecutionConsumed'') evs),
          og_settlements = scopes env (pf_chain f) (pf_tx f) (pf_block f) (map_option tb_tx table), og_reverted = pf_reverted parent,
          og_entryCandidates = entryCandidates hashes table, og_candidates = [], og_rejected = [], og_status = Status_unresolved,
          og_remote = None, og_evidence = []\<rparr>)"

text \<open>The first part of the loop body; \<^term>\<open>Inl\<close> is its \<open>continue\<close>.\<close>

definition outgoing_step :: "trace_env \<Rightarrow> trace_table list \<Rightarrow> trace_event list \<Rightarrow> parsed_call option \<Rightarrow> phys_frame \<Rightarrow> call_graph \<Rightarrow> call_graph + call_graph" where
  "outgoing_step env tables events parsed f g =
     (case parsed of
        None \<Rightarrow> Inr g
      | Some p \<Rightarrow>
          if pc_name p \<notin> outgoingNames \<or> is_delegate (pf_type f) then Inr g
          else (case parent_of (cg_frames g) f of
              None \<Rightarrow> Inl (report ''proxy-identity-unavailable'' (pf_id f) g)
            | Some parent \<Rightarrow>
                (case (if same_addr (pf_to parent) (pf_from f) then proxyInfo env f (pf_from f) else None) of
                   None \<Rightarrow> Inl (report ''proxy-identity-unavailable'' (pf_id f) g)
                 | Some info \<Rightarrow>
                     if \<not> same_js (argument p 0) (js_opt (pf_from parent)) \<or> \<not> same_js (argument p 1) (JStr (pf_input parent)) \<or> pf_value f \<noteq> pf_value parent
                     then Inl (report ''proxy-forwarding-mismatch'' (pf_id f) g)
                     else let g' = g\<lparr>cg_frames := set_role (pf_id parent) Role_outgoing_proxy (cg_frames g), cg_proxies := jmap_set (pf_id parent) info (cg_proxies g)\<rparr>
                          in Inr (g'\<lparr>cg_outgoing := cg_outgoing g' @ [mk_outgoing env tables events g' parent f p info]\<rparr>))))"

section \<open>Deliveries\<close>

definition row_identity :: "string option \<Rightarrow> js_object \<Rightarrow> call_identity" where
  "row_identity targetRollup call =
     \<lparr>ci_source = js_prop call ''sourceAddress'',
      ci_sourceRollup = (if js_nullish (js_prop call ''sourceRollupId'') then None else Some (js_string (js_prop call ''sourceRollupId''))),
      ci_target = js_prop call ''targetAddress'', ci_targetRollup = targetRollup, ci_value = js_string (js_prop call ''value''),
      ci_data = js_prop call ''data'', ci_static = js_prop call ''isStatic''\<rparr>"

definition matching_rows :: "call_identity \<Rightarrow> string \<Rightarrow> trace_table option \<Rightarrow> string list" where
  "matching_rows identity gas table =
     (case table of
        None \<Rightarrow> []
      | Some t \<Rightarrow> map tr_id (filter (\<lambda>row. sameIdentity identity (row_identity (ci_targetRollup identity) (tr_call row))
          \<and> js_strict_eq (js_prop (tr_call row) ''gas'') (JStr gas)) (tb_rows t)))"

definition delivery_targets :: "phys_frame list \<Rightarrow> phys_frame \<Rightarrow> js \<Rightarrow> js \<Rightarrow> phys_frame list" where
  "delivery_targets frames f target data =
     filter (\<lambda>c. same_js (js_opt (pf_to c)) target \<and> same_js (JStr (pf_input c)) data \<and> pf_value c = pf_value f \<and> pf_type c = ''CALL'')
       (List.map_filter (frame_by_id frames) (pf_children f))"

definition mk_incoming :: "trace_env \<Rightarrow> trace_table list \<Rightarrow> phys_frame \<Rightarrow> phys_frame \<Rightarrow> parsed_call \<Rightarrow> proxy_identity \<Rightarrow> incoming" where
  "mk_incoming env tables f target p info =
     (let table = table_by_id tables (pf_generation f);
          identity = \<lparr>ci_source = JStr (px_originalAddress info), ci_sourceRollup = Some (px_originalRollupId info), ci_target = argument p 0,
            ci_targetRollup = te_rollupId env (pf_chain f), ci_value = show_int (pf_value f), ci_data = argument p 2, ci_static = JBool (pf_static f)\<rparr>;
          gas = js_string (argument p 1)
      in \<lparr>ic_id = pf_id f @ ''/incoming'', ic_frame = pf_id target, ic_proxyFrame = pf_id f, ic_chain = pf_chain f, ic_identity = identity, ic_gas = gas,
          ic_generation = pf_generation f, ic_settlements = scopes env (pf_chain f) (pf_tx f) (pf_block f) (map_option tb_tx table),
          ic_reverted = pf_reverted target, ic_tableRows = matching_rows identity gas table, ic_source = None\<rparr>)"

definition delivery_step :: "trace_env \<Rightarrow> trace_table list \<Rightarrow> phys_frame \<Rightarrow> call_graph \<Rightarrow> call_graph" where
  "delivery_step env tables f g =
     (if \<not> same_addr (pf_from f) (Some (te_manager env (pf_chain f))) \<or> pf_role f = Role_manager \<or> is_delegate (pf_type f) then g
      else case tl_proxyCall (te_lib env) (pf_input f) of
        None \<Rightarrow> g
      | Some p \<Rightarrow>
          if pc_name p \<noteq> ''executeOnBehalf'' then g
          else (case proxyInfo env f (pf_to f) of
              None \<Rightarrow> report ''incoming-proxy-identity-unavailable'' (pf_id f) g
            | Some info \<Rightarrow>
                let g' = g\<lparr>cg_frames := set_role (pf_id f) Role_incoming_proxy (cg_frames g), cg_proxies := jmap_set (pf_id f) info (cg_proxies g)\<rparr>
                in case delivery_targets (cg_frames g') f (argument p 0) (argument p 2) of
                     [target] \<Rightarrow> g'\<lparr>cg_incoming := cg_incoming g' @ [mk_incoming env tables f target p info]\<rparr>
                   | _ \<Rightarrow> report ''incoming-target-unavailable'' (pf_id f) g'))"

definition detect_step :: "trace_env \<Rightarrow> walk_state \<Rightarrow> call_graph \<Rightarrow> string \<Rightarrow> call_graph" where
  "detect_step env w g k =
     (case frame_by_id (cg_frames g) k of
        None \<Rightarrow> g
      | Some f \<Rightarrow>
          (case outgoing_step env (ws_tables w) (ws_events w) (jmap_get (ws_parsed w) k) f g of
             Inl g' \<Rightarrow> g'
           | Inr g' \<Rightarrow> (case frame_by_id (cg_frames g') k of None \<Rightarrow> g' | Some f' \<Rightarrow> delivery_step env (ws_tables w) f' g')))"

definition is_probe :: "trace_env \<Rightarrow> phys_frame list \<Rightarrow> phys_frame \<Rightarrow> bool" where
  "is_probe env frames f \<longleftrightarrow>
     same_addr (pf_from f) (pf_to f) \<and> (case tl_proxyCall (te_lib env) (pf_input f) of None \<Rightarrow> False | Some p \<Rightarrow> pc_name p = ''staticCheck'')
     \<and> (case parent_of frames f of None \<Rightarrow> False | Some q \<Rightarrow> pf_role q = Role_outgoing_proxy \<or> pf_role q = Role_incoming_proxy)"

definition mark_probes :: "trace_env \<Rightarrow> phys_frame list \<Rightarrow> phys_frame list" where
  "mark_probes env frames = foldl (\<lambda>fs id. case frame_by_id fs id of
       None \<Rightarrow> fs | Some f \<Rightarrow> if is_probe env fs f then set_role id Role_static_probe fs else fs) frames (map pf_id frames)"

definition detect_calls :: "trace_env \<Rightarrow> walk_state \<Rightarrow> call_graph" where
  "detect_calls env w =
     (let g = foldl (detect_step env w) \<lparr>cg_frames = ws_frames w, cg_proxies = [], cg_outgoing = [], cg_incoming = [], cg_unresolved = []\<rparr> (map pf_id (ws_frames w))
      in g\<lparr>cg_frames := mark_probes env (cg_frames g)\<rparr>)"

end
