(* ===== verification/Trace_Facts.thy ===== *)
theory Trace_Facts
  imports Trace_Frames
begin

text \<open>
  What the first pass keeps of its state: a frame is recorded after its parent, so the parents
  of a frame are never circular; and the generation that a block is left with is a table that was
  not rolled back.
\<close>

section \<open>What entering a frame changes\<close>

definition frame_ids :: "walk_state \<Rightarrow> string set" where
  "frame_ids s = set (map pf_id (ws_frames s))"

text \<open>Every frame comes after the frame that it names as its parent.\<close>

definition parents_first :: "phys_frame list \<Rightarrow> bool" where
  "parents_first fs \<longleftrightarrow> (\<forall>n < length fs. \<forall>p. pf_parent (fs ! n) = Some p \<longrightarrow> p \<in> set (map pf_id (take n fs)))"

lemma add_child_map: "map pf_id (add_child p c fs) = map pf_id fs" "map pf_parent (add_child p c fs) = map pf_parent fs"
  by (induction fs) (auto simp: add_child_def split: option.splits)

lemma parents_first_cong: "map pf_id xs = map pf_id ys \<Longrightarrow> map pf_parent xs = map pf_parent ys \<Longrightarrow> parents_first xs = parents_first ys"
proof -
  assume i: "map pf_id xs = map pf_id ys" and p: "map pf_parent xs = map pf_parent ys"
  then have l: "length xs = length ys" using map_eq_imp_length_eq by blast
  have "pf_parent (xs ! n) = pf_parent (ys ! n)" if "n < length xs" for n using that p l by (metis nth_map)
  moreover have "map pf_id (take n xs) = map pf_id (take n ys)" for n using i by (metis take_map)
  ultimately show ?thesis unfolding parents_first_def l by (simp del: set_map)
qed

lemma parents_first_snoc:
  "parents_first fs \<Longrightarrow> (\<And>p. pf_parent f = Some p \<Longrightarrow> p \<in> set (map pf_id fs)) \<Longrightarrow> parents_first (fs @ [f])"
  unfolding parents_first_def by (auto simp: nth_append less_Suc_eq)

lemma new_frame_simps [simp]:
  "pf_parent (new_frame env r place g raw) = map_option pf_id (wp_parent place)"
  "pf_reverted (new_frame env r place g raw) = (wp_reverted place \<or> failed (rc_error raw))"
  by (simp_all add: new_frame_def Let_def)

definition committed_generation :: "walk_state \<Rightarrow> bool" where
  "committed_generation s = (case ws_generation s of None \<Rightarrow> True | Some g \<Rightarrow> \<exists>t \<in> set (ws_tables s). tb_id t = g \<and> tb_committed t)"

definition parent_known :: "walk_place \<Rightarrow> walk_state \<Rightarrow> bool" where
  "parent_known place s = (case wp_parent place of None \<Rightarrow> True | Some q \<Rightarrow> pf_id q \<in> frame_ids s)"

text \<open>What a step of the walk keeps.\<close>

definition extends :: "walk_state \<Rightarrow> walk_state \<Rightarrow> bool" where
  "extends s t \<longleftrightarrow> frame_ids s \<subseteq> frame_ids t \<and> set (ws_tables s) \<subseteq> set (ws_tables t)"

lemma extends_refl: "extends s s"
  by (simp add: extends_def)

lemma extends_trans: "extends s t \<Longrightarrow> extends t u \<Longrightarrow> extends s u"
  unfolding extends_def by blast

lemma extends_generation: "extends s t \<Longrightarrow> committed_generation s \<Longrightarrow> ws_generation t = ws_generation s \<Longrightarrow> committed_generation t"
  unfolding extends_def committed_generation_def by (auto split: option.splits)

lemma enter_frame_ok:
  assumes "enter_frame env r place raw s = (f, t)" and "parents_first (ws_frames s)" and "parent_known place s"
  shows "parents_first (ws_frames t)" "extends s t" "pf_id f \<in> frame_ids t" "pf_reverted f = (wp_reverted place \<or> failed (rc_error raw))"
    "committed_generation s \<Longrightarrow> \<not> pf_reverted f \<Longrightarrow> committed_generation t"
proof -
  let ?n = "new_frame env r place (ws_generation s) raw"
  have known: "p \<in> set (map pf_id (ws_frames s))" if "map_option pf_id (wp_parent place) = Some p" for p
    using assms(3) that by (auto simp: parent_known_def frame_ids_def)
  have pf: "parents_first (add_child x y (ws_frames s @ [f']))" if "pf_parent f' = pf_parent ?n" for x y f'
  proof -
    have "parents_first (ws_frames s @ [f'])" by (intro parents_first_snoc known assms(2)) (simp only: that new_frame_simps)
    then show ?thesis using parents_first_cong [of "add_child x y (ws_frames s @ [f'])" "ws_frames s @ [f']"] by (simp add: add_child_map)
  qed
  have ids: "set (map pf_id (add_child x y (ws_frames s @ [f']))) = insert (pf_id f') (frame_ids s)" for x y f'
    by (subst add_child_map) (auto simp: frame_ids_def)
  note d = assms(1) [unfolded enter_frame_def Let_def]
  show "parents_first (ws_frames t)" using d pf by (auto split: if_splits)
  show "extends s t" "pf_id f \<in> frame_ids t" using d ids unfolding extends_def frame_ids_def
    by (auto split: if_splits simp: frame_ids_def simp del: set_map)
  show "pf_reverted f = (wp_reverted place \<or> failed (rc_error raw))" using d by (auto split: if_splits)
  show "committed_generation t" if "committed_generation s" "\<not> pf_reverted f"
    using d that by (auto simp: committed_generation_def newTable_def Let_def split: if_splits option.splits prod.splits)
qed

section \<open>One trace\<close>

definition walked :: "bool \<Rightarrow> walk_state \<Rightarrow> walk_state \<Rightarrow> bool" where
  "walked reverted s t \<longleftrightarrow> parents_first (ws_frames t) \<and> extends s t \<and> (\<not> reverted \<longrightarrow> committed_generation s \<longrightarrow> committed_generation t)"

lemma walked_trans: "walked r s t \<Longrightarrow> walked r t u \<Longrightarrow> walked r s u"
  unfolding walked_def using extends_trans by blast

lemma parent_known_extends: "parent_known place s \<Longrightarrow> extends s t \<Longrightarrow> parent_known place t"
  by (auto simp: parent_known_def extends_def split: option.splits)

lemma walk_ok:
  "parents_first (ws_frames s) \<Longrightarrow> parent_known place s \<Longrightarrow> walked (wp_reverted place) s (walk env r place raw s)"
  "parents_first (ws_frames s) \<Longrightarrow> pf_id f \<in> frame_ids s \<Longrightarrow> walked (pf_reverted f) s (walk_calls env r f i calls s)"
proof (induction env r place raw s and env r f i calls s rule: walk_walk_calls.induct)
  case (1 env r place ty fr tt inp out v err logs calls s)
  let ?raw = "Raw_call ty fr tt inp out v err logs calls"
  obtain f t where e: "enter_frame env r place ?raw s = (f, t)" by fastforce
  note ok = enter_frame_ok [OF e "1.prems"]
  let ?t = "t\<lparr>ws_events := ws_events t @ frame_events env f logs\<rparr>"
  let ?u = "walk_calls env r f 0 calls ?t"
  have same: "extends t ?t" "committed_generation ?t = committed_generation t" "frame_ids ?t = frame_ids t"
    by (simp_all add: extends_def committed_generation_def frame_ids_def split: option.splits)
  have u: "walked (pf_reverted f) ?t ?u" by (rule "1.IH" [OF refl e [symmetric] refl]) (use ok same in simp_all)
  then have ext: "extends s ?u" using ok(2) same(1) extends_trans unfolding walked_def by blast
  show ?case
  proof (cases "failed err")
    case True
    let ?v = "?u\<lparr>ws_generation := ws_generation s\<rparr>"
    have "extends s ?v" using ext by (simp add: extends_def frame_ids_def)
    then have "walked (wp_reverted place) s ?v" using u extends_generation unfolding walked_def by auto
    then show ?thesis by (simp add: e True)
  next
    case False
    then show ?thesis using u ext ok(4,5) same by (auto simp: e walked_def)
  qed
next
  case (2 env r f i s)
  then show ?case by (simp add: walked_def extends_refl)
next
  case (3 env r f i c cs s)
  let ?t = "walk env r (child_place f i) c s"
  have t: "walked (pf_reverted f) s ?t"
    using "3.IH"(1) "3.prems" by (simp add: child_place_def parent_known_def)
  then have "walked (pf_reverted f) ?t (walk_calls env r f (Suc i) cs ?t)"
    using "3.IH"(2) "3.prems" by (auto simp: walked_def extends_def)
  with t show ?case using walked_trans by simp
qed

section \<open>All transactions\<close>

definition root_failed :: "trace_tx \<Rightarrow> bool" where
  "root_failed r = (case tt_trace r of None \<Rightarrow> True | Some raw \<Rightarrow> failed (rc_error raw))"

definition graph_ok :: "graph_state \<Rightarrow> bool" where
  "graph_ok g \<longleftrightarrow> parents_first (ws_frames (gs_walk g))
     \<and> (\<forall>(k, s) \<in> set (gs_blocks g). committed_generation ((gs_walk g)\<lparr>ws_generation := s\<rparr>))"

lemma calldata_ok: "parents_first (ws_frames s) \<Longrightarrow> committed_generation s \<Longrightarrow> walked False s (calldata_table env r s)"
  unfolding calldata_table_def Let_def
  by (auto simp: walked_def extends_def frame_ids_def committed_generation_def newTable_def Let_def split: option.splits prod.splits)

lemma walk_root_ok:
  assumes "parents_first (ws_frames s)" "committed_generation s" and "tt_status r = Some 0 \<longrightarrow> failed (rc_error raw)"
  shows "walked False s (walk env r (root_place r) raw s)"
proof (cases "failed (rc_error raw)")
  case True
  have w: "walked (wp_reverted (root_place r)) s (walk env r (root_place r) raw s)"
    using assms by (intro walk_ok) (simp_all add: parent_known_def root_place_def)
  have "ws_generation (walk env r (root_place r) raw s) = ws_generation s" using True by (cases raw) (simp split: prod.splits)
  with w assms(2) show ?thesis unfolding walked_def using extends_generation by blast
next
  case False
  with assms have "\<not> wp_reverted (root_place r)" by (simp add: root_place_def)
  moreover have "walked (wp_reverted (root_place r)) s (walk env r (root_place r) raw s)"
    using assms by (intro walk_ok) (simp_all add: parent_known_def root_place_def)
  ultimately show ?thesis by simp
qed

lemma committed_at_extends: "extends s t \<Longrightarrow> committed_generation (s\<lparr>ws_generation := g\<rparr>) \<Longrightarrow> committed_generation (t\<lparr>ws_generation := g\<rparr>)"
  unfolding extends_def committed_generation_def by (auto split: option.splits)

lemma jmap_set_mem: "(a, b) \<in> set (jmap_set k v m) \<Longrightarrow> (a, b) = (k, v) \<or> (a, b) \<in> set m"
  unfolding jmap_set_def by (induction m) (auto split: if_splits)

lemma add_record_ok:
  assumes g: "graph_ok g" and r: "tt_status r = Some 0 \<longrightarrow> root_failed r"
  shows "graph_ok (add_record env g r)"
proof -
  define key where "key = (tt_chain r, tt_block r)"
  define s where "s = (gs_walk g)\<lparr>ws_generation := (case jmap_get (gs_blocks g) key of None \<Rightarrow> None | Some x \<Rightarrow> x)\<rparr>"
  define t where "t = (case tt_trace r of None \<Rightarrow> calldata_table env r s | Some raw \<Rightarrow> walk env r (root_place r) raw s)"
  have s: "parents_first (ws_frames s)" using g by (simp add: s_def graph_ok_def)
  have sg: "committed_generation s"
  proof (cases "jmap_get (gs_blocks g) key")
    case None
    then show ?thesis by (simp add: s_def committed_generation_def)
  next
    case (Some x)
    then have "(key, x) \<in> set (gs_blocks g)" using map_of_SomeD by (fastforce simp: jmap_get_def)
    with g Some show ?thesis unfolding graph_ok_def s_def by auto
  qed
  have t: "walked False s t"
    unfolding t_def using s sg r calldata_ok walk_root_ok by (auto simp: root_failed_def split: option.splits)
  let ?w = "t\<lparr>ws_events := ws_events t @ receipt_events env r\<rparr>"
  have ext: "extends (gs_walk g) ?w" using t by (simp add: walked_def extends_def s_def frame_ids_def)
  have "committed_generation (?w\<lparr>ws_generation := v\<rparr>)" if "(k, v) \<in> set (jmap_set key (ws_generation t) (gs_blocks g))" for k v
  proof -
    from jmap_set_mem [OF that] consider "v = ws_generation t" | "(k, v) \<in> set (gs_blocks g)" by auto
    then show ?thesis
    proof cases
      case 1
      then show ?thesis using t sg by (simp add: walked_def committed_generation_def split: option.splits)
    next
      case 2
      with g have "committed_generation ((gs_walk g)\<lparr>ws_generation := v\<rparr>)" unfolding graph_ok_def by auto
      then show ?thesis by (rule committed_at_extends [OF ext])
    qed
  qed
  moreover have "add_record env g r = g\<lparr>gs_walk := ?w, gs_roots := (if tt_trace r = None then gs_roots g else gs_roots g @ [tx_id r @ '':0'']),
      gs_blocks := jmap_set key (ws_generation t) (gs_blocks g)\<rparr>"
    unfolding add_record_def Let_def key_def [symmetric] s_def [symmetric] t_def [symmetric] by (rule refl)
  ultimately show ?thesis using t by (auto simp: graph_ok_def walked_def)
qed

lemma all_frames_ok:
  assumes "\<forall>r \<in> set records. tt_status r = Some 0 \<longrightarrow> root_failed r"
  shows "graph_ok (all_frames env records)"
proof -
  have "graph_ok (foldl (add_record env) g records)" if "graph_ok g" for g
    using assms that by (induction records arbitrary: g) (auto intro: add_record_ok)
  then show ?thesis unfolding all_frames_def by (simp add: graph_ok_def empty_graph_def parents_first_def)
qed

end
