(* ===== verification/Trace_Matching.thy ===== *)
theory Trace_Matching
  imports Trace_Frames
begin

text \<open>
  The matching of \<open>buildGraph\<close>: which delivery on the other chain executes a request. Requests and
  deliveries are distinct_calls by their places in the two lists (the objects of the code); \<open>assigned\<close> maps the
  id of a request to the id of its delivery, \<open>used\<close> holds the ids of assigned deliveries, and
  \<open>matches\<close> records the assignments that were made, which the code writes into the objects. A round
  either assigns requests with a reciprocally unique candidate or, when there are none, complete
  ordered groups of equal requests; rounds repeat while they make progress.
\<close>

record match_state =
  mt_assigned :: "(string, string) jmap"
  mt_used :: "string list"
  mt_matches :: "(nat \<times> nat \<times> string list) list"

record match_input =
  mi_env :: trace_env
  mi_transactions :: "trace_tx list"
  mi_frames :: "phys_frame list"
  mi_tables :: "trace_table list"
  mi_outgoing :: "(nat \<times> outgoing) list"
  mi_incoming :: "(nat \<times> incoming) list"

section \<open>Enclosing calls\<close>

fun ancestors :: "nat \<Rightarrow> phys_frame list \<Rightarrow> phys_frame \<Rightarrow> phys_frame list" where
  "ancestors 0 frames f = []"
| "ancestors (Suc n) frames f = (case parent_of frames f of None \<Rightarrow> [] | Some p \<Rightarrow> p # ancestors n frames p)"

definition ancestors_of :: "match_input \<Rightarrow> string \<Rightarrow> phys_frame list" where
  "ancestors_of m k = (case frame_by_id (mi_frames m) k of None \<Rightarrow> [] | Some f \<Rightarrow> ancestors (length (mi_frames m)) (mi_frames m) f)"

definition first_some :: "('a \<Rightarrow> 'b option) \<Rightarrow> 'a list \<Rightarrow> 'b option" where
  "first_some f xs = (case List.map_filter f xs of [] \<Rightarrow> None | y # ys \<Rightarrow> Some y)"

definition nearestIncoming :: "match_input \<Rightarrow> outgoing \<Rightarrow> incoming option" where
  "nearestIncoming m o' = first_some (\<lambda>f. find (\<lambda>i. ic_frame i = pf_id f) (rev (map snd (mi_incoming m)))) (ancestors_of m (og_frame o'))"

definition nearestOutgoing :: "match_input \<Rightarrow> incoming \<Rightarrow> outgoing option" where
  "nearestOutgoing m i = first_some (\<lambda>f. find (\<lambda>o'. og_frame o' = pf_id f) (rev (map snd (mi_outgoing m)))) (ancestors_of m (ic_frame i))"

section \<open>Candidates\<close>

definition inside_host :: "match_input \<Rightarrow> string \<Rightarrow> trace_link \<Rightarrow> bool" where
  "inside_host m k link = (case tk_host link of None \<Rightarrow> True | Some host \<Rightarrow> host = [] \<or> k = host \<or> js_starts_with k (host @ ''.''))"

definition compatibleScope :: "match_input \<Rightarrow> outgoing \<Rightarrow> incoming \<Rightarrow> bool" where
  "compatibleScope m o' i \<longleftrightarrow>
     \<not> te_matchingDisabled (mi_env m) \<and>
     list_all (inside_host m (if og_chain o' = L1 then og_frame o' else ic_frame i)) (te_links (mi_env m)) \<and>
     (if te_links (mi_env m) \<noteq> [] \<or> te_settlements (mi_env m) \<noteq> []
      then list_ex (\<lambda>s. s \<in> set (ic_settlements i)) (og_settlements o')
      else ic_tableRows i \<noteq> []
        \<and> (case table_by_id (mi_tables m) (ic_generation i) of None \<Rightarrow> False | Some t \<Rightarrow> list_ex (\<lambda>r. tr_id r \<in> set (ic_tableRows i)) (tb_rows t))
        \<and> og_entryCandidates o' \<noteq> [])"

definition same_result :: "match_input \<Rightarrow> outgoing \<Rightarrow> incoming \<Rightarrow> bool" where
  "same_result m o' i \<longleftrightarrow>
     (case (frame_by_id (mi_frames m) (og_frame o'), frame_by_id (mi_frames m) (ic_frame i)) of
        (Some s, Some t) \<Rightarrow> failed (pf_error s) = failed (pf_error t) \<and> js_lower (pf_output s) = js_lower (pf_output t)
      | _ \<Rightarrow> False)"

definition possible :: "match_input \<Rightarrow> outgoing \<Rightarrow> incoming \<Rightarrow> bool" where
  "possible m o' i \<longleftrightarrow> og_chain o' \<noteq> ic_chain i \<and> sameIdentity (og_identity o') (ic_identity i) \<and> compatibleScope m o' i"

definition has_id :: "incoming option \<Rightarrow> string \<Rightarrow> bool" where
  "has_id i k = (case i of None \<Rightarrow> False | Some x \<Rightarrow> ic_id x = k)"

definition assigned_to :: "match_state \<Rightarrow> outgoing option \<Rightarrow> string option" where
  "assigned_to st o' = Option.bind o' (\<lambda>x. jmap_get (mt_assigned st) (og_id x))"

definition nested_ok :: "match_input \<Rightarrow> match_state \<Rightarrow> incoming option \<Rightarrow> outgoing option \<Rightarrow> bool" where
  "nested_ok m st local remote =
     (case assigned_to st remote of
        Some k \<Rightarrow> has_id local k
      | None \<Rightarrow>
          (case local of
             None \<Rightarrow> remote = None
           | Some l \<Rightarrow>
               (case find (\<lambda>x. jmap_get (mt_assigned st) (og_id x) = Some (ic_id l)) (map snd (mi_outgoing m)) of
                  None \<Rightarrow> False
                | Some parent \<Rightarrow> (case remote of None \<Rightarrow> False | Some r \<Rightarrow> og_id r = og_id parent))))"

definition available :: "match_input \<Rightarrow> match_state \<Rightarrow> outgoing \<Rightarrow> (nat \<times> incoming) list" where
  "available m st o' =
     filter (\<lambda>(k, i). ic_id i \<notin> set (mt_used st) \<and> possible m o' i \<and> same_result m o' i
       \<and> nested_ok m st (nearestIncoming m o') (nearestOutgoing m i)) (mi_incoming m)"

section \<open>Assignments\<close>

definition unassigned :: "match_state \<Rightarrow> nat \<times> outgoing \<Rightarrow> bool" where
  "unassigned st o' \<longleftrightarrow> jmap_get (mt_assigned st) (og_id (snd o')) = None"

definition scope_evidence :: "trace_env \<Rightarrow> string" where
  "scope_evidence env = (if te_links env \<noteq> [] then ''verified transaction link scope''
     else if te_settlements env \<noteq> [] then ''canonical settlement scope'' else ''bounded table evidence'')"

definition assign :: "match_input \<Rightarrow> string \<Rightarrow> nat \<times> outgoing \<Rightarrow> nat \<times> incoming \<Rightarrow> match_state \<Rightarrow> match_state" where
  "assign m evidence o' i st =
     st\<lparr>mt_assigned := jmap_set (og_id (snd o')) (ic_id (snd i)) (mt_assigned st), mt_used := jset_add (ic_id (snd i)) (mt_used st),
        mt_matches := mt_matches st @ [(fst o', fst i, [''source/destination identity'', ''calldata'', ''value'', ''static context'',
          scope_evidence (mi_env m), evidence])]\<rparr>"

text \<open>Reciprocal uniqueness: the only candidate of a request, which no other pending request can take.\<close>

definition claims :: "match_input \<Rightarrow> match_state \<Rightarrow> string \<Rightarrow> nat \<times> outgoing \<Rightarrow> bool" where
  "claims m st k o' \<longleftrightarrow> unassigned st o' \<and> list_ex (\<lambda>i. ic_id (snd i) = k) (available m st (snd o'))"

definition unique_step :: "match_input \<Rightarrow> (nat \<times> outgoing) list \<Rightarrow> match_state \<Rightarrow> nat \<times> outgoing \<Rightarrow> match_state" where
  "unique_step m pending st o' =
     (case available m st (snd o') of
        [i] \<Rightarrow> if length (filter (claims m st (ic_id (snd i))) pending) = 1
               then assign m ''unique occurrence in current nested scope'' o' i st else st
      | _ \<Rightarrow> st)"

section \<open>Ordered groups\<close>

definition consumed_index :: "outgoing \<Rightarrow> int option" where
  "consumed_index o' =
     (case og_consumed o' of
        [] \<Rightarrow> None
      | e # es \<Rightarrow> (case js_Number (js_coalesce (js_prop e ''entryIndex'') (js_prop e ''entryQueueIndex'')) of
          None \<Rightarrow> None | Some n \<Rightarrow> if \<bar>n\<bar> \<le> 9007199254740991 then Some n else None))"

text \<open>The positions are safe integers in strictly increasing order.\<close>

fun increasing_places :: "int option list \<Rightarrow> bool" where
  "increasing_places [] = True"
| "increasing_places [n] = (n \<noteq> None)"
| "increasing_places (a # b # ns) = (case (a, b) of (Some x, Some y) \<Rightarrow> x < y \<and> increasing_places (b # ns) | _ \<Rightarrow> False)"

definition frame_order :: "match_input \<Rightarrow> incoming \<Rightarrow> int \<times> int \<times> nat" where
  "frame_order m i =
     (case frame_by_id (mi_frames m) (ic_frame i) of
        None \<Rightarrow> (0, 0, 0)
      | Some f \<Rightarrow> (pf_block f, pf_txIndex f, length (takeWhile (\<lambda>g. pf_id g \<noteq> ic_frame i) (mi_frames m))))"

definition equal_requests :: "(nat \<times> outgoing) list \<Rightarrow> match_state \<Rightarrow> outgoing \<Rightarrow> (nat \<times> outgoing) list" where
  "equal_requests pending st first =
     filter (\<lambda>x. unassigned st x \<and> og_generation (snd x) = og_generation first \<and> sameIdentity (og_identity first) (og_identity (snd x))) pending"

definition untraced_in_scope :: "match_input \<Rightarrow> outgoing \<Rightarrow> bool" where
  "untraced_in_scope m first = list_ex (\<lambda>t. tt_trace t = None \<and>
     list_ex (\<lambda>s. s \<in> set (og_settlements first))
       (scopes (mi_env m) (tt_chain t) (tt_hash t) (tt_block t) (map_option tb_tx (table_by_id (mi_tables m) (og_generation first))))) (mi_transactions m)"

definition orderly_group :: "match_input \<Rightarrow> outgoing \<Rightarrow> (nat \<times> outgoing) list \<Rightarrow> bool" where
  "orderly_group m first grp \<longleftrightarrow>
     length grp \<ge> 2 \<and> length (og_settlements first) = 1
     \<and> list_all (\<lambda>x. length (og_consumed (snd x)) = 1 \<and> nearestIncoming m (snd x) = None) grp
     \<and> \<not> untraced_in_scope m first
     \<and> length (filter (\<lambda>e. ec_pool e = ''entries'') (og_entryCandidates first)) = length grp
     \<and> increasing_places (map (\<lambda>x. consumed_index (snd x)) grp)"

definition orderly_deliveries :: "match_input \<Rightarrow> match_state \<Rightarrow> (nat \<times> outgoing) list \<Rightarrow> (nat \<times> outgoing) list \<Rightarrow> (nat \<times> incoming) list \<Rightarrow> bool" where
  "orderly_deliveries m st pending grp candidates \<longleftrightarrow>
     length candidates = length grp
     \<and> list_all (\<lambda>i. length (ic_settlements (snd i)) = 1 \<and> nearestOutgoing m (snd i) = None \<and> ic_tableRows (snd i) \<noteq> []) candidates
     \<and> list_all (\<lambda>x. x \<in> set grp \<or> \<not> list_ex (\<lambda>i. i \<in> set candidates) (available m st (snd x))) pending"

definition generations_ok :: "chain \<Rightarrow> (nat \<times> incoming) list \<Rightarrow> bool" where
  "generations_ok c candidates =
     (let gs = map (\<lambda>i. ic_generation (snd i)) candidates
      in if c = L1 then distinct gs else length (remdups gs) = 1)"

definition assign_all :: "match_input \<Rightarrow> (nat \<times> outgoing) list \<Rightarrow> (nat \<times> incoming) list \<Rightarrow> match_state \<Rightarrow> match_state" where
  "assign_all m grp candidates st =
     foldl (\<lambda>s (x, i). assign m ''ordered consumed entries and complete delivery sequence'' x i s) st (zip grp candidates)"

definition order_step :: "match_input \<Rightarrow> (nat \<times> outgoing) list \<Rightarrow> match_state \<Rightarrow> nat \<times> outgoing \<Rightarrow> match_state" where
  "order_step m pending st first =
     (let grp = equal_requests pending st (snd first)
      in if \<not> orderly_group m (snd first) grp then st
         else let candidates = sort_key (\<lambda>i. frame_order m (snd i)) (available m st (snd first))
              in if orderly_deliveries m st pending grp candidates \<and> generations_ok (og_chain (snd first)) candidates
                   \<and> list_all2 (\<lambda>x i. i \<in> set (available m st (snd x))) grp candidates
                 then assign_all m grp candidates st else st)"

section \<open>The loop\<close>

definition match_round :: "match_input \<Rightarrow> match_state \<Rightarrow> match_state" where
  "match_round m st =
     (let pending = filter (unassigned st) (mi_outgoing m); st1 = foldl (unique_step m pending) st pending
      in if length (mt_matches st1) > length (mt_matches st) then st1
         else foldl (order_step m pending) st1 (filter (unassigned st1) pending))"

end
