(* ===== verification/Trace_Match_Loop.thy ===== *)
theory Trace_Match_Loop
  imports Trace_Matching
begin

text \<open>
  The assignments of a round, one lemma per step: what is assigned was available, ids are used once,
  and every round with progress leaves fewer unassigned requests, which is the measure of the loop.
  The invariant \<open>matching_ok\<close> holds of every state of the loop.
\<close>

section \<open>What a match respects\<close>

text \<open>A match is between a request and a delivery of the input, on different chains, with the same
  identity, scope and result; its enclosing calls are matched with one another, or there are none.\<close>

definition enclosing_ok :: "match_input \<Rightarrow> match_state \<Rightarrow> outgoing \<Rightarrow> incoming \<Rightarrow> bool" where
  "enclosing_ok m st o' i \<longleftrightarrow>
     (case (nearestIncoming m o', nearestOutgoing m i) of
        (None, None) \<Rightarrow> True
      | (Some l, Some r) \<Rightarrow> jmap_get (mt_assigned st) (og_id r) = Some (ic_id l)
      | _ \<Rightarrow> False)"

definition match_ok :: "match_input \<Rightarrow> match_state \<Rightarrow> nat \<times> nat \<times> string list \<Rightarrow> bool" where
  "match_ok m st = (\<lambda>(a, b, ev). \<exists>o' i. (a, o') \<in> set (mi_outgoing m) \<and> (b, i) \<in> set (mi_incoming m)
     \<and> possible m o' i \<and> same_result m o' i \<and> enclosing_ok m st o' i \<and> jmap_get (mt_assigned st) (og_id o') = Some (ic_id i))"

definition matching_ok :: "match_input \<Rightarrow> match_state \<Rightarrow> bool" where
  "matching_ok m st \<longleftrightarrow>
     (\<forall>x \<in> set (mt_matches st). match_ok m st x)
     \<and> distinct (map snd (mt_assigned st)) \<and> set (map snd (mt_assigned st)) = set (mt_used st)
     \<and> distinct (jmap_keys (mt_assigned st)) \<and> length (mt_matches st) = length (mt_assigned st)"

lemma nested_enclosing:
  assumes "nested_ok m st (nearestIncoming m o') (nearestOutgoing m i)"
  shows "enclosing_ok m st o' i"
  using assms unfolding nested_ok_def enclosing_ok_def assigned_to_def has_id_def
  by (cases "nearestIncoming m o'"; cases "nearestOutgoing m i") (auto split: option.splits dest!: find_Some_mem)

lemma available_iff:
  "(k, i) \<in> set (available m st o') \<longleftrightarrow> (k, i) \<in> set (mi_incoming m) \<and> ic_id i \<notin> set (mt_used st) \<and> possible m o' i
     \<and> same_result m o' i \<and> nested_ok m st (nearestIncoming m o') (nearestOutgoing m i)"
  by (auto simp: available_def)

section \<open>One assignment\<close>

lemma assign_simps [simp]:
  "mt_assigned (assign m ev x i st) = jmap_set (og_id (snd x)) (ic_id (snd i)) (mt_assigned st)"
  "mt_used (assign m ev x i st) = jset_add (ic_id (snd i)) (mt_used st)"
  "length (mt_matches (assign m ev x i st)) = Suc (length (mt_matches st))"
  by (simp_all add: assign_def)

lemma jmap_set_new: "jmap_get s k = None \<Longrightarrow> jmap_set k v s = s @ [(k, v)]"
  by (induction s) (auto simp: jmap_get_def jmap_set_def split: if_splits)

lemma assign_ok:
  assumes ok: "matching_ok m st" and x: "x \<in> set (mi_outgoing m)" "unassigned st x"
    and i: "i \<in> set (mi_incoming m)" "ic_id (snd i) \<notin> set (mt_used st)"
    and r: "possible m (snd x) (snd i)" "same_result m (snd x) (snd i)" "enclosing_ok m st (snd x) (snd i)"
  shows "matching_ok m (assign m ev x i st)"
proof -
  obtain a o' b j where xi: "x = (a, o')" "i = (b, j)" by fastforce
  have new: "jmap_get (mt_assigned st) (og_id o') = None" using x by (simp add: unassigned_def xi)
  let ?st = "assign m ev x i st"
  have keep: "jmap_get (mt_assigned ?st) k = Some v" if "jmap_get (mt_assigned st) k = Some v" for k v
    using that new by (auto simp: xi)
  have enc: "enclosing_ok m ?st o'' i''" if "enclosing_ok m st o'' i''" for o'' i''
    using that keep new unfolding enclosing_ok_def by (auto simp: xi split: option.splits)
  have old: "match_ok m ?st y" if "match_ok m st y" for y
    using that enc keep unfolding match_ok_def by (cases y) blast
  have latest: "match_ok m ?st (a, b, ev')" for ev'
    using x i r enc [of o' j] unfolding match_ok_def by (auto simp: xi)
  obtain ev' where "mt_matches ?st = mt_matches st @ [(a, b, ev')]" by (simp add: assign_def xi)
  then have all: "\<forall>y \<in> set (mt_matches ?st). match_ok m ?st y"
    using ok old latest [of ev'] unfolding matching_ok_def by simp
  have as: "mt_assigned ?st = mt_assigned st @ [(og_id o', ic_id j)]" using new by (simp add: xi jmap_set_new)
  have "ic_id j \<notin> set (map snd (mt_assigned st))" using ok i by (simp add: matching_ok_def xi)
  moreover have "og_id o' \<notin> set (jmap_keys (mt_assigned st))" using new by (simp add: jm.keys_get)
  ultimately show ?thesis
    using ok all unfolding matching_ok_def as by (auto simp: jmap_keys_def xi)
qed


section \<open>The two phases\<close>

definition grows :: "match_input \<Rightarrow> match_state \<Rightarrow> match_state \<Rightarrow> bool" where
  "grows m s t \<longleftrightarrow> (\<forall>k v. jmap_get (mt_assigned s) k = Some v \<longrightarrow> jmap_get (mt_assigned t) k = Some v)
     \<and> length (mt_matches s) \<le> length (mt_matches t)
     \<and> (length (mt_matches s) < length (mt_matches t) \<longrightarrow> (\<exists>x \<in> set (mi_outgoing m). unassigned s x \<and> \<not> unassigned t x))"

lemma grows_refl: "grows m s s"
  by (simp add: grows_def)

lemma grows_assigned: "grows m s t \<Longrightarrow> \<not> unassigned s x \<Longrightarrow> \<not> unassigned t x"
  by (auto simp: grows_def unassigned_def)

lemma grows_trans:
  assumes 1: "grows m s t" and 2: "grows m t u"
  shows "grows m s u"
proof -
  have "\<exists>x \<in> set (mi_outgoing m). unassigned s x \<and> \<not> unassigned u x" if "length (mt_matches s) < length (mt_matches u)"
  proof (cases "length (mt_matches s) < length (mt_matches t)")
    case True
    with 1 obtain x where "x \<in> set (mi_outgoing m)" "unassigned s x" "\<not> unassigned t x" unfolding grows_def by blast
    with grows_assigned [OF 2] show ?thesis by blast
  next
    case False
    with that have "length (mt_matches t) < length (mt_matches u)" by simp
    with 2 obtain x where "x \<in> set (mi_outgoing m)" "unassigned t x" "\<not> unassigned u x" unfolding grows_def by blast
    with grows_assigned [OF 1, of x] show ?thesis by blast
  qed
  with 1 2 show ?thesis unfolding grows_def by auto
qed

lemma assign_grows:
  assumes "x \<in> set (mi_outgoing m)" "unassigned st x"
  shows "grows m st (assign m ev x i st)"
  using assms by (auto simp: grows_def unassigned_def intro!: bexI [of _ x])

text \<open>A step on one request assigns at most that request.\<close>

definition step_ok :: "match_input \<Rightarrow> match_state \<Rightarrow> match_state \<Rightarrow> string set \<Rightarrow> bool" where
  "step_ok m s t ids \<longleftrightarrow> matching_ok m t \<and> grows m s t \<and> (\<forall>y. og_id (snd y) \<notin> ids \<longrightarrow> unassigned s y \<longrightarrow> unassigned t y)"

lemma step_ok_refl: "matching_ok m s \<Longrightarrow> step_ok m s s ids"
  by (simp add: step_ok_def grows_refl)

lemma assign_step_ok:
  assumes "matching_ok m st" "x \<in> set (mi_outgoing m)" "unassigned st x" "i \<in> set (mi_incoming m)" "ic_id (snd i) \<notin> set (mt_used st)"
    "possible m (snd x) (snd i)" "same_result m (snd x) (snd i)" "enclosing_ok m st (snd x) (snd i)"
  shows "step_ok m st (assign m ev x i st) {og_id (snd x)}"
  using assign_ok [OF assms] assign_grows [OF assms(2,3)] by (simp add: step_ok_def unassigned_def)

lemma unique_step_ok:
  assumes ok: "matching_ok m st" and x: "x \<in> set (mi_outgoing m)" "unassigned st x"
  shows "step_ok m st (unique_step m pending st x) {og_id (snd x)}"
proof (cases "unique_step m pending st x = st")
  case True
  with ok show ?thesis by (simp add: step_ok_refl)
next
  case False
  then obtain b j where a: "available m st (snd x) = [(b, j)]"
    and step: "unique_step m pending st x = assign m ''unique occurrence in current nested scope'' x (b, j) st"
    unfolding unique_step_def by (auto split: list.splits if_splits)
  have "(b, j) \<in> set (available m st (snd x))" by (simp add: a)
  then show ?thesis unfolding step available_iff using nested_enclosing by (intro assign_step_ok ok x) auto
qed

lemma step_ok_trans: "step_ok m s t A \<Longrightarrow> step_ok m t u B \<Longrightarrow> step_ok m s u (A \<union> B)"
  unfolding step_ok_def using grows_trans by blast

lemma unique_phase_ok:
  assumes "matching_ok m st" and "\<forall>x \<in> set xs. x \<in> set (mi_outgoing m) \<and> unassigned st x" and "distinct (map (\<lambda>x. og_id (snd x)) xs)"
  shows "step_ok m st (foldl (unique_step m pending) st xs) ((\<lambda>x. og_id (snd x)) ` set xs)"
  using assms
proof (induction xs arbitrary: st)
  case (Cons x xs)
  have s: "step_ok m st (unique_step m pending st x) {og_id (snd x)}" using Cons.prems by (intro unique_step_ok) auto
  moreover have "step_ok m (unique_step m pending st x) (foldl (unique_step m pending) (unique_step m pending st x) xs) ((\<lambda>x. og_id (snd x)) ` set xs)"
    using s Cons.prems by (intro Cons.IH) (auto simp: step_ok_def image_iff)
  ultimately show ?case using step_ok_trans by fastforce
qed (simp add: step_ok_refl)

section \<open>Groups\<close>

lemma enclosing_ok_grows: "grows m s t \<Longrightarrow> enclosing_ok m s o' i \<Longrightarrow> enclosing_ok m t o' i"
  by (auto simp: grows_def enclosing_ok_def split: option.splits)

lemma set_jset_used: "set (mt_used (assign m ev x i st)) = insert (ic_id (snd i)) (set (mt_used st))"
  by simp

lemma assign_pairs_ok:
  assumes "matching_ok m st"
    and "\<forall>(x, i) \<in> set ps. x \<in> set (mi_outgoing m) \<and> unassigned st x \<and> i \<in> set (mi_incoming m) \<and> ic_id (snd i) \<notin> set (mt_used st)
      \<and> possible m (snd x) (snd i) \<and> same_result m (snd x) (snd i) \<and> enclosing_ok m st (snd x) (snd i)"
    and "distinct (map (\<lambda>p. og_id (snd (fst p))) ps)" and "distinct (map (\<lambda>p. ic_id (snd (snd p))) ps)"
  shows "matching_ok m (foldl (\<lambda>s (x, i). assign m ev x i s) st ps) \<and> grows m st (foldl (\<lambda>s (x, i). assign m ev x i s) st ps)"
  using assms
proof (induction ps arbitrary: st)
  case (Cons p ps)
  obtain x i where p: "p = (x, i)" by (cases p)
  let ?st = "assign m ev x i st"
  have s: "step_ok m st ?st {og_id (snd x)}" using Cons.prems by (intro assign_step_ok) (auto simp: p)
  have rest: "\<forall>(y, j) \<in> set ps. y \<in> set (mi_outgoing m) \<and> unassigned ?st y \<and> j \<in> set (mi_incoming m) \<and> ic_id (snd j) \<notin> set (mt_used ?st)
      \<and> possible m (snd y) (snd j) \<and> same_result m (snd y) (snd j) \<and> enclosing_ok m ?st (snd y) (snd j)"
  proof (clarify, intro conjI)
    fix a o' b j
    assume mem: "((a, o'), (b, j)) \<in> set ps"
    with Cons.prems(2) have old: "(a, o') \<in> set (mi_outgoing m)" "unassigned st (a, o')" "(b, j) \<in> set (mi_incoming m)" "ic_id j \<notin> set (mt_used st)"
      "possible m o' j" "same_result m o' j" "enclosing_ok m st o' j" by fastforce+
    from mem Cons.prems(3,4) p have new: "og_id o' \<noteq> og_id (snd x)" "ic_id j \<noteq> ic_id (snd i)" by (force simp: image_iff)+
    show "(a, o') \<in> set (mi_outgoing m)" "(b, j) \<in> set (mi_incoming m)" "possible m (snd (a, o')) (snd (b, j))" "same_result m (snd (a, o')) (snd (b, j))"
      using old by simp_all
    show "unassigned ?st (a, o')" using old(2) new(1) by (simp add: unassigned_def)
    show "ic_id (snd (b, j)) \<notin> set (mt_used ?st)" using old(4) new(2) by (simp add: set_jset_used)
    show "enclosing_ok m ?st (snd (a, o')) (snd (b, j))" using enclosing_ok_grows [of m st ?st o' j] old(7) s by (simp add: step_ok_def)
  qed
  have "matching_ok m (foldl (\<lambda>s (x, i). assign m ev x i s) ?st ps) \<and> grows m ?st (foldl (\<lambda>s (x, i). assign m ev x i s) ?st ps)"
    using s Cons.prems(3,4) by (intro Cons.IH rest) (simp_all add: step_ok_def)
  with s show ?case unfolding step_ok_def by (auto simp: p intro: grows_trans)
qed (simp add: grows_refl)

definition distinct_calls :: "match_input \<Rightarrow> bool" where
  "distinct_calls m \<longleftrightarrow> distinct (map (\<lambda>x. og_id (snd x)) (mi_outgoing m)) \<and> distinct (map (\<lambda>i. ic_id (snd i)) (mi_incoming m))"

lemma distinct_map_filter: "distinct (map f xs) \<Longrightarrow> distinct (map f (filter P xs))"
  by (simp add: distinct_map inj_on_def)

lemma order_step_ok:
  assumes ok: "matching_ok m st" and n: "distinct_calls m" and p: "set pending \<subseteq> set (mi_outgoing m)" "distinct (map (\<lambda>x. og_id (snd x)) pending)"
  shows "matching_ok m (order_step m pending st first) \<and> grows m st (order_step m pending st first)"
proof (cases "order_step m pending st first = st")
  case False
  define grp where "grp = equal_requests pending st (snd first)"
  define cs where "cs = sort_key (\<lambda>i. frame_order m (snd i)) (available m st (snd first))"
  from False have step: "order_step m pending st first = assign_all m grp cs st"
    and av: "list_all2 (\<lambda>x i. i \<in> set (available m st (snd x))) grp cs"
    unfolding order_step_def Let_def grp_def cs_def by (auto split: if_splits)
  have grp: "x \<in> set (mi_outgoing m) \<and> unassigned st x" if "x \<in> set grp" for x
    using that p by (auto simp: grp_def equal_requests_def)
  have "distinct (map (\<lambda>i. ic_id (snd i)) (available m st (snd first)))"
    unfolding available_def using n by (intro distinct_map_filter) (simp add: distinct_calls_def)
  then have cs: "distinct (map (\<lambda>i. ic_id (snd i)) cs)" unfolding cs_def by (simp add: distinct_map)
  have len: "length grp = length cs" using av by (rule list_all2_lengthD)
  have pairs: "x \<in> set grp \<and> i \<in> set (available m st (snd x))" if "(x, i) \<in> set (zip grp cs)" for x i
    using av that by (auto simp: list_all2_iff dest: set_zip_leftD)
  show ?thesis unfolding step assign_all_def
  proof (intro assign_pairs_ok ok)
    show "\<forall>(x, i) \<in> set (zip grp cs). x \<in> set (mi_outgoing m) \<and> unassigned st x \<and> i \<in> set (mi_incoming m) \<and> ic_id (snd i) \<notin> set (mt_used st)
      \<and> possible m (snd x) (snd i) \<and> same_result m (snd x) (snd i) \<and> enclosing_ok m st (snd x) (snd i)"
    proof (clarify)
      fix a o' b j
      assume "((a, o'), (b, j)) \<in> set (zip grp cs)"
      from pairs [OF this] grp show "(a, o') \<in> set (mi_outgoing m) \<and> unassigned st (a, o') \<and> (b, j) \<in> set (mi_incoming m) \<and> ic_id (snd (b, j)) \<notin> set (mt_used st)
        \<and> possible m (snd (a, o')) (snd (b, j)) \<and> same_result m (snd (a, o')) (snd (b, j)) \<and> enclosing_ok m st (snd (a, o')) (snd (b, j))"
        by (auto simp: available_iff dest: nested_enclosing)
    qed
    have "map (\<lambda>p. og_id (snd (fst p))) (zip grp cs) = map (\<lambda>x. og_id (snd x)) (map fst (zip grp cs))" by simp
    also have "\<dots> = map (\<lambda>x. og_id (snd x)) grp" by (simp add: len del: map_map)
    finally show "distinct (map (\<lambda>p. og_id (snd (fst p))) (zip grp cs))"
      using p(2) unfolding grp_def equal_requests_def by (simp add: distinct_map_filter)
    have "map (\<lambda>p. ic_id (snd (snd p))) (zip grp cs) = map (\<lambda>x. ic_id (snd x)) (map snd (zip grp cs))" by simp
    also have "\<dots> = map (\<lambda>x. ic_id (snd x)) cs" by (simp add: len del: map_map)
    finally show "distinct (map (\<lambda>p. ic_id (snd (snd p))) (zip grp cs))" using cs by simp
  qed
qed (simp add: ok grows_refl)

lemma group_phase_ok:
  assumes "matching_ok m st" "distinct_calls m" "set pending \<subseteq> set (mi_outgoing m)" "distinct (map (\<lambda>x. og_id (snd x)) pending)"
  shows "matching_ok m (foldl (order_step m pending) st xs) \<and> grows m st (foldl (order_step m pending) st xs)"
  using assms
proof (induction xs arbitrary: st)
  case (Cons x xs)
  from order_step_ok [OF Cons.prems, of x] Cons.IH [of "order_step m pending st x"] Cons.prems(2-4)
  show ?case by (auto intro: grows_trans)
qed (simp add: grows_refl)

lemma round_ok:
  assumes "matching_ok m st" "distinct_calls m"
  shows "matching_ok m (match_round m st) \<and> grows m st (match_round m st)"
proof -
  define pending where "pending = filter (unassigned st) (mi_outgoing m)"
  have d: "distinct (map (\<lambda>x. og_id (snd x)) pending)" unfolding pending_def using assms(2) by (intro distinct_map_filter) (simp add: distinct_calls_def)
  have p: "set pending \<subseteq> set (mi_outgoing m)" by (auto simp: pending_def)
  define st1 where "st1 = foldl (unique_step m pending) st pending"
  have "step_ok m st st1 ((\<lambda>x. og_id (snd x)) ` set pending)"
    unfolding st1_def using assms d by (intro unique_phase_ok) (auto simp: pending_def)
  then have s1: "matching_ok m st1" "grows m st st1" by (simp_all add: step_ok_def)
  have "matching_ok m (foldl (order_step m pending) st1 xs) \<and> grows m st1 (foldl (order_step m pending) st1 xs)" for xs
    by (rule group_phase_ok [OF s1(1) assms(2) p d])
  with s1 show ?thesis unfolding match_round_def Let_def pending_def [symmetric] st1_def [symmetric] by (auto intro: grows_trans)
qed

section \<open>The loop\<close>

definition open_requests :: "match_input \<Rightarrow> match_state \<Rightarrow> nat" where
  "open_requests m st = length (filter (unassigned st) (mi_outgoing m))"

text \<open>What a round that starts in \<open>s\<close> reaches: the requests it assigns were pending, whatever the ids.\<close>

definition advances :: "(nat \<times> outgoing) list \<Rightarrow> match_state \<Rightarrow> match_state \<Rightarrow> bool" where
  "advances pending s t \<longleftrightarrow> (\<forall>x. \<not> unassigned s x \<longrightarrow> \<not> unassigned t x) \<and> length (mt_matches s) \<le> length (mt_matches t)
     \<and> (length (mt_matches s) < length (mt_matches t) \<longrightarrow> (\<exists>x \<in> set pending. \<not> unassigned t x))"

lemma advances_refl: "advances pending s s"
  by (simp add: advances_def)

lemma assign_advances: "advances pending s t \<Longrightarrow> x \<in> set pending \<Longrightarrow> advances pending s (assign m ev x i t)"
  by (auto simp: advances_def unassigned_def)

lemma unique_step_cases: "unique_step m pending st x = st \<or> (\<exists>ev i. unique_step m pending st x = assign m ev x i st)"
  unfolding unique_step_def by (auto split: list.splits)

lemma unique_step_advances: "advances pending s t \<Longrightarrow> x \<in> set pending \<Longrightarrow> advances pending s (unique_step m pending t x)"
  using unique_step_cases [of m pending t x] assign_advances by metis

lemma assign_pairs_advances:
  "advances pending s t \<Longrightarrow> \<forall>(x, i) \<in> set ps. x \<in> set pending \<Longrightarrow> advances pending s (foldl (\<lambda>s (x, i). assign m ev x i s) t ps)"
proof (induction ps arbitrary: t)
  case (Cons p ps)
  then show ?case using assign_advances by (cases p) simp
qed simp

lemma order_step_advances: "advances pending s t \<Longrightarrow> advances pending s (order_step m pending t first)"
  unfolding order_step_def Let_def assign_all_def equal_requests_def
  by (auto dest: set_zip_leftD intro!: assign_pairs_advances)

lemma foldl_advances:
  assumes "\<And>t x. advances pending s t \<Longrightarrow> x \<in> set xs \<Longrightarrow> advances pending s (f t x)" and "advances pending s t"
  shows "advances pending s (foldl f t xs)"
  using assms by (induction xs arbitrary: t) auto

lemma round_advances: "advances (filter (unassigned st) (mi_outgoing m)) st (match_round m st)"
  unfolding match_round_def Let_def
  by (auto intro!: foldl_advances unique_step_advances order_step_advances advances_refl)

lemma round_open:
  assumes "length (mt_matches st) < length (mt_matches (match_round m st))"
  shows "open_requests m (match_round m st) < open_requests m st"
proof -
  let ?t = "match_round m st"
  from round_advances [of st m] assms
  obtain x where x: "x \<in> set (filter (unassigned st) (mi_outgoing m))" "\<not> unassigned ?t x" unfolding advances_def by blast
  have "unassigned st y \<and> unassigned ?t y \<longleftrightarrow> unassigned ?t y" for y
    using round_advances [of st m] unfolding advances_def by blast
  then have "filter (unassigned ?t) (filter (unassigned st) (mi_outgoing m)) = filter (unassigned ?t) (mi_outgoing m)" by simp
  moreover have "length (filter (unassigned ?t) (filter (unassigned st) (mi_outgoing m))) < length (filter (unassigned st) (mi_outgoing m))"
    by (rule length_filter_less [of x]) (use x in auto)
  ultimately show ?thesis by (simp add: open_requests_def del: filter_filter)
qed

function match_loop :: "match_input \<Rightarrow> match_state \<Rightarrow> match_state" where
  "match_loop m st =
     (let st' = match_round m st in if length (mt_matches st) < length (mt_matches st') then match_loop m st' else st')"
  by pat_completeness auto

termination
  by (relation "measure (\<lambda>(m, st). open_requests m st)") (auto dest: round_open)

declare match_loop.simps [simp del]

definition match_calls :: "match_input \<Rightarrow> match_state" where
  "match_calls m = match_loop m \<lparr>mt_assigned = [], mt_used = [], mt_matches = []\<rparr>"

lemma loop_ok: "matching_ok m st \<Longrightarrow> distinct_calls m \<Longrightarrow> matching_ok m (match_loop m st)"
proof (induction m st rule: match_loop.induct)
  case (1 m st)
  with round_ok [of m st] show ?case by (subst match_loop.simps) (simp add: Let_def)
qed

lemma match_calls_ok: "distinct_calls m \<Longrightarrow> matching_ok m (match_calls m)"
  unfolding match_calls_def by (intro loop_ok) (simp_all add: matching_ok_def jmap_keys_def)

text \<open>A round without progress changes nothing, so the loop ends in a state that a round keeps.\<close>

lemma unique_step_length: "length (mt_matches st) \<le> length (mt_matches (unique_step m pending st x))"
  using unique_step_cases [of m pending st x] by auto

lemma unique_phase_length: "length (mt_matches st) \<le> length (mt_matches (foldl (unique_step m pending) st xs))"
  by (induction xs arbitrary: st) (auto intro: order_trans [OF unique_step_length])

lemma unique_phase_still:
  "length (mt_matches (foldl (unique_step m pending) st xs)) \<le> length (mt_matches st) \<Longrightarrow> x \<in> set xs \<Longrightarrow> unique_step m pending st x = st"
proof (induction xs arbitrary: st)
  case (Cons y ys)
  have "unique_step m pending st y = st"
  proof (rule ccontr)
    assume "unique_step m pending st y \<noteq> st"
    then obtain ev i where "unique_step m pending st y = assign m ev y i st" using unique_step_cases by blast
    then have "length (mt_matches st) < length (mt_matches (unique_step m pending st y))" by simp
    also have "\<dots> \<le> length (mt_matches (foldl (unique_step m pending) st (y # ys)))" by (simp add: unique_phase_length)
    finally show False using Cons.prems by simp
  qed
  with Cons show ?case by auto
qed simp

lemma unique_phase_same:
  assumes "length (mt_matches (foldl (unique_step m pending) st xs)) \<le> length (mt_matches st)"
  shows "foldl (unique_step m pending) st xs = st"
proof -
  have "\<forall>x \<in> set xs. unique_step m pending st x = st" using unique_phase_still [OF assms] by blast
  then show ?thesis by (induction xs) auto
qed

lemma order_step_cases: "order_step m pending st x = st \<or> length (mt_matches st) < length (mt_matches (order_step m pending st x))"
proof (cases "order_step m pending st x = st")
  case False
  have grown: "length (mt_matches (foldl (\<lambda>s (x, i). assign m ev x i s) t ps)) = length (mt_matches t) + length ps" for ev t and ps :: "((nat \<times> outgoing) \<times> nat \<times> incoming) list"
    by (induction ps arbitrary: t) auto
  from False show ?thesis
    unfolding order_step_def Let_def assign_all_def orderly_group_def orderly_deliveries_def by (auto simp: grown split: if_splits)
qed simp

lemma group_phase_same:
  assumes "length (mt_matches (foldl (order_step m pending) st xs)) \<le> length (mt_matches st)"
  shows "foldl (order_step m pending) st xs = st"
  using assms
proof (induction xs arbitrary: st)
  case (Cons x xs)
  have le: "length (mt_matches t) \<le> length (mt_matches (foldl (order_step m pending) t ys))" for t ys
  proof (induction ys arbitrary: t)
    case (Cons y ys)
    from order_step_cases [of m pending t y] Cons [of "order_step m pending t y"] show ?case by auto
  qed simp
  have "order_step m pending st x = st" using order_step_cases [of m pending st x] le [of "order_step m pending st x" xs] Cons.prems by auto
  with Cons show ?case by simp
qed simp

lemma round_still:
  assumes "\<not> length (mt_matches st) < length (mt_matches (match_round m st))"
  shows "match_round m st = st"
proof -
  define pending where "pending = filter (unassigned st) (mi_outgoing m)"
  define st1 where "st1 = foldl (unique_step m pending) st pending"
  have "\<not> length (mt_matches st) < length (mt_matches st1)"
    using assms unfolding match_round_def Let_def pending_def [symmetric] st1_def [symmetric] by (auto split: if_splits)
  moreover from this have "st1 = st" unfolding st1_def by (intro unique_phase_same) simp
  ultimately show ?thesis
    using assms group_phase_same unfolding match_round_def Let_def pending_def [symmetric] st1_def [symmetric] by (auto simp: not_less)
qed

lemma loop_still: "match_round m (match_loop m st) = match_loop m st"
proof (induction m st rule: match_loop.induct)
  case (1 m st)
  show ?case
  proof (cases "length (mt_matches st) < length (mt_matches (match_round m st))")
    case True
    with 1 show ?thesis by (subst (1 2) match_loop.simps) (simp add: Let_def)
  next
    case False
    with round_still [OF False] show ?thesis by (subst (1 2) match_loop.simps) (simp add: Let_def)
  qed
qed

lemma round_unique:
  assumes "match_round m st = st" and x: "x \<in> set (mi_outgoing m)" "unassigned st x" and a: "available m st (snd x) = [i]"
  shows "length (filter (claims m st (ic_id (snd i))) (mi_outgoing m)) \<noteq> 1"
proof
  assume one: "length (filter (claims m st (ic_id (snd i))) (mi_outgoing m)) = 1"
  define pending where "pending = filter (unassigned st) (mi_outgoing m)"
  have st: "\<not> length (mt_matches st) < length (mt_matches (foldl (unique_step m pending) st pending))"
    using assms(1) unfolding match_round_def Let_def pending_def [symmetric] by (auto split: if_splits)
  have "filter (claims m st (ic_id (snd i))) pending = filter (claims m st (ic_id (snd i))) (mi_outgoing m)"
    unfolding pending_def claims_def filter_filter by (rule filter_cong) auto
  with one a have "unique_step m pending st x = assign m ''unique occurrence in current nested scope'' x i st" by (simp add: unique_step_def)
  moreover have "unique_step m pending st x = st"
    using st x by (intro unique_phase_still [of m pending st pending]) (simp_all add: pending_def)
  ultimately have "length (mt_matches st) = Suc (length (mt_matches st))" by (metis assign_simps(3))
  then show False by simp
qed

end
