(* ===== verification/Trace_Logical.thy ===== *)
theory Trace_Logical
  imports Trace_Match_Loop
begin

text \<open>
  The end of \<open>buildGraph\<close>: what becomes of requests without a delivery (ambiguous, unresolved, or answered
  from prepared data), the value transfers to the system address, and the logical tree, in which the
  frame that executes a request hangs below the request instead of below its physical caller.
\<close>

section \<open>Requests after the matching\<close>

text \<open>\<open>isPreparedLookup\<close> and \<open>isPreparedResult\<close> (\<open>prepared-result.mjs\<close>); \<open>resultKind\<close> is given exactly for
  the status \<^const>\<open>Status_prepared\<close>.\<close>

definition isPreparedLookup :: "outgoing \<Rightarrow> bool" where
  "isPreparedLookup o' \<longleftrightarrow>
     og_chain o' = L1 \<and> (case og_remote o' of None \<Rightarrow> True | Some r \<Rightarrow> r = []) \<and> og_candidates o' = [] \<and> og_rejected o' = []
     \<and> og_entryCandidates o' \<noteq> []
     \<and> (js_truthy (ci_static (og_identity o')) \<or> og_reverted o' \<or> list_all (\<lambda>e. ec_success e = JBool False) (og_entryCandidates o'))"

definition isPreparedResult :: "outgoing option \<Rightarrow> bool" where
  "isPreparedResult o' = (case o' of None \<Rightarrow> False | Some x \<Rightarrow> og_status x = Status_prepared)"

definition set_match :: "outgoing \<Rightarrow> string list \<Rightarrow> string \<Rightarrow> outgoing" where
  "set_match o' evidence remote = o'\<lparr>og_status := Status_matched, og_remote := Some remote, og_evidence := evidence, og_candidates := [remote]\<rparr>"

definition match_of :: "match_input \<Rightarrow> match_state \<Rightarrow> nat \<Rightarrow> (incoming \<times> string list) option" where
  "match_of m st k =
     (case find (\<lambda>(a, b, ev). a = k) (rev (mt_matches st)) of
        None \<Rightarrow> None
      | Some (a, b, ev) \<Rightarrow> map_option (\<lambda>i. (snd i, ev)) (find (\<lambda>i. fst i = b) (mi_incoming m)))"

text \<open>The broader candidates: without the condition on the enclosing calls.\<close>

definition broader :: "match_input \<Rightarrow> match_state \<Rightarrow> outgoing \<Rightarrow> incoming list" where
  "broader m st o' = filter (\<lambda>i. ic_id i \<notin> set (mt_used st) \<and> possible m o' i) (map snd (mi_incoming m))"

definition missing_remote_trace :: "match_input \<Rightarrow> outgoing \<Rightarrow> bool" where
  "missing_remote_trace m o' = list_ex (\<lambda>t. tt_chain t \<noteq> og_chain o' \<and> tt_trace t = None) (mi_transactions m)"

definition leave_unmatched :: "match_input \<Rightarrow> match_state \<Rightarrow> outgoing \<Rightarrow> outgoing" where
  "leave_unmatched m st o' =
     (let candidates = map ic_frame (filter (same_result m o') (broader m st o'));
          out = o'\<lparr>og_candidates := candidates,
            og_rejected := map ic_frame (filter (\<lambda>i. ic_frame i \<notin> set candidates) (broader m st o')),
            og_status := (if candidates \<noteq> [] then Status_ambiguous else Status_unresolved)\<rparr>
      in if \<not> missing_remote_trace m o' \<and> isPreparedLookup out then out\<lparr>og_status := Status_prepared\<rparr> else out)"

definition finish_request :: "match_input \<Rightarrow> match_state \<Rightarrow> nat \<times> outgoing \<Rightarrow> outgoing" where
  "finish_request m st x =
     (if unassigned st x then leave_unmatched m st (snd x)
      else case match_of m st (fst x) of None \<Rightarrow> snd x | Some (i, ev) \<Rightarrow> set_match (snd x) ev (ic_frame i))"

text \<open>What is reported of a request that stays open.\<close>

definition request_report :: "outgoing \<Rightarrow> (string \<times> string) list" where
  "request_report o' =
     (case og_status o' of
        Status_ambiguous \<Rightarrow> [(''ambiguous-remote-occurrence'', og_frame o')]
      | Status_unresolved \<Rightarrow> [(''remote-execution-unavailable'', og_frame o')]
      | _ \<Rightarrow> [])"

definition set_source :: "match_input \<Rightarrow> match_state \<Rightarrow> nat \<times> incoming \<Rightarrow> incoming" where
  "set_source m st i =
     (case find (\<lambda>(a, b, ev). b = fst i) (rev (mt_matches st)) of
        None \<Rightarrow> snd i
      | Some (a, b, ev) \<Rightarrow> (snd i)\<lparr>ic_source := map_option (\<lambda>x. og_frame (snd x)) (find (\<lambda>x. fst x = a) (mi_outgoing m))\<rparr>)"

section \<open>System value transfers\<close>

definition is_system_transfer :: "trace_env \<Rightarrow> (string, parsed_call) jmap \<Rightarrow> phys_frame list \<Rightarrow> phys_frame \<Rightarrow> bool" where
  "is_system_transfer env parsed frames f \<longleftrightarrow>
     (case parent_of frames f of
        None \<Rightarrow> False
      | Some p \<Rightarrow>
          pf_chain f = L2 \<and> pf_type f = ''CALL'' \<and> \<not> pf_static f \<and> pf_input f = ''0x'' \<and> pf_value f > 0 \<and> pf_value f = pf_value p
          \<and> same_addr (pf_from f) (Some (te_manager env L2)) \<and> same_addr (pf_context p) (Some (te_manager env L2))
          \<and> (case jmap_get parsed (pf_id p) of None \<Rightarrow> False | Some c \<Rightarrow> pc_name c = ''executeCrossChainCall'')
          \<and> same_addr (pf_to f) (tl_system (te_lib env) (pf_block f)))"

definition mark_transfers :: "trace_env \<Rightarrow> (string, parsed_call) jmap \<Rightarrow> phys_frame list \<Rightarrow> phys_frame list" where
  "mark_transfers env parsed frames =
     map (\<lambda>f. if is_system_transfer env parsed frames f then f\<lparr>pf_role := Role_system_transfer\<rparr> else f) frames"

section \<open>The logical tree\<close>

record logical_node =
  ln_id :: string
  ln_chain :: chain
  ln_role :: frame_role
  ln_reverted :: bool
  ln_children :: "string list"
  ln_boundary :: "outgoing option"

datatype logical_edge =
    Physical_call string string nat
  | Logical_call string string int
  | Logical_return string string
  | Cross_chain string string int "string list" "string option" string "string option"
  | Cross_return string string "string option"

definition outgoing_at :: "outgoing list \<Rightarrow> string \<Rightarrow> outgoing option" where
  "outgoing_at outs k = find (\<lambda>o'. og_frame o' = k) (rev outs)"

definition remote_of :: "outgoing option \<Rightarrow> string option" where
  "remote_of o' = (case Option.bind o' og_remote of None \<Rightarrow> None | Some r \<Rightarrow> if r = [] then None else Some r)"

definition relocated :: "outgoing list \<Rightarrow> string list" where
  "relocated outs = List.map_filter (\<lambda>o'. remote_of (Some o')) outs"

definition insert_at :: "int \<Rightarrow> 'a \<Rightarrow> 'a list \<Rightarrow> 'a list" where
  "insert_at i x xs = (let n = (if i < 0 then 0 else nat i) in take n xs @ x # drop n xs)"

definition index_in :: "'a list \<Rightarrow> 'a \<Rightarrow> int" where
  "index_in xs x = (if x \<in> set xs then int (length (takeWhile (\<lambda>y. y \<noteq> x) xs)) else -1)"

definition logical_children :: "outgoing list \<Rightarrow> phys_frame \<Rightarrow> string list" where
  "logical_children outs f =
     (let kept = filter (\<lambda>c. c \<notin> set (relocated outs)) (pf_children f); out = outgoing_at outs (pf_id f)
      in case (out, remote_of out) of
           (Some o', Some r) \<Rightarrow> insert_at (index_in kept (og_manager o')) r kept
         | _ \<Rightarrow> kept)"

definition child_edges :: "outgoing list \<Rightarrow> phys_frame \<Rightarrow> nat \<times> string \<Rightarrow> logical_edge list" where
  "child_edges outs f = (\<lambda>(order, child).
     Physical_call (pf_id f) child order
     # (if child \<in> set (relocated outs) then []
        else [Logical_call (pf_id f) child (index_in (logical_children outs f) child), Logical_return child (pf_id f)]))"

definition frame_edges :: "outgoing list \<Rightarrow> phys_frame \<Rightarrow> logical_edge list" where
  "frame_edges outs f =
     (let out = outgoing_at outs (pf_id f)
      in concat (map (child_edges outs f) (number_list (pf_children f)))
         @ (case (out, remote_of out) of
              (Some o', Some r) \<Rightarrow>
                [Cross_chain (pf_id f) r (index_in (logical_children outs f) r) (og_evidence o') (pf_to f) (og_manager o') (og_generation o'),
                 Cross_return r (pf_id f) (pf_parent f)]
            | _ \<Rightarrow> []))"

definition mk_node :: "outgoing list \<Rightarrow> phys_frame \<Rightarrow> logical_node" where
  "mk_node outs f =
     \<lparr>ln_id = pf_id f, ln_chain = pf_chain f, ln_role = pf_role f, ln_reverted = pf_reverted f,
      ln_children = logical_children outs f, ln_boundary = outgoing_at outs (pf_id f)\<rparr>"

section \<open>The graph\<close>

record trace_graph =
  tg_frames :: "phys_frame list"
  tg_nodes :: "logical_node list"
  tg_roots :: "string list"
  tg_edges :: "logical_edge list"
  tg_events :: "trace_event list"
  tg_tables :: "trace_table list"
  tg_outgoing :: "outgoing list"
  tg_incoming :: "incoming list"
  tg_unresolved :: "(string \<times> string) list"

definition matching_input :: "trace_env \<Rightarrow> trace_tx list \<Rightarrow> walk_state \<Rightarrow> call_graph \<Rightarrow> match_input" where
  "matching_input env transactions w g =
     \<lparr>mi_env = env, mi_transactions = transactions, mi_frames = cg_frames g, mi_tables = ws_tables w,
      mi_outgoing = number_list (cg_outgoing g), mi_incoming = number_list (cg_incoming g)\<rparr>"

definition buildGraph :: "trace_env \<Rightarrow> trace_tx list \<Rightarrow> trace_graph" where
  "buildGraph env transactions =
     (let gs = all_frames env transactions; w = gs_walk gs; g = detect_calls env w;
          m = matching_input env transactions w g; st = match_calls m;
          outs = map (finish_request m st) (mi_outgoing m);
          frames = mark_transfers env (ws_parsed w) (cg_frames g)
      in \<lparr>tg_frames = frames, tg_nodes = map (mk_node outs) frames, tg_roots = gs_roots gs,
          tg_edges = concat (map (frame_edges outs) frames), tg_events = ws_events w, tg_tables = ws_tables w,
          tg_outgoing = outs, tg_incoming = map (set_source m st) (mi_incoming m),
          tg_unresolved = cg_unresolved g @ concat (map (\<lambda>x. request_report (finish_request m st x)) (filter (unassigned st) (mi_outgoing m)))\<rparr>)"

end
