(* ===== verification/Trace_Graph_Facts.thy ===== *)
theory Trace_Graph_Facts
  imports Trace_Facts Trace_Logical
begin

text \<open>
  From the two passes to the graph: detection changes only the roles of frames, every request is new,
  and every delivery has a forwarder and a target of its own. So when the frames have ids of their own
  and no proxy call makes two requests, the matching is one to one on the frames.
\<close>

section \<open>Children\<close>

definition children_known :: "phys_frame list \<Rightarrow> bool" where
  "children_known fs \<longleftrightarrow> (\<forall>f \<in> set fs. \<forall>c \<in> set (pf_children f). \<exists>h \<in> set fs. pf_id h = c \<and> pf_parent h = Some (pf_id f))"

lemma add_child_known:
  assumes "children_known fs" "pf_children f = []"
  shows "children_known (add_child (pf_parent f) (pf_id f) (fs @ [f]))"
proof (cases "pf_parent f")
  case None
  with assms show ?thesis unfolding children_known_def add_child_def by auto
next
  case (Some p)
  let ?up = "\<lambda>h. if pf_id h = p then h\<lparr>pf_children := pf_children h @ [pf_id f]\<rparr> else h"
  have up: "pf_id (?up h) = pf_id h" "pf_parent (?up h) = pf_parent h" for h by auto
  have "\<exists>h \<in> ?up ` set (fs @ [f]). pf_id h = c \<and> pf_parent h = Some (pf_id g)" if g: "g \<in> set (fs @ [f])" and c: "c \<in> set (pf_children (?up g))" for g c
  proof (cases "c \<in> set (pf_children g)")
    case True
    with assms g obtain h where "h \<in> set fs" "pf_id h = c" "pf_parent h = Some (pf_id g)" unfolding children_known_def by auto
    then show ?thesis using up by (intro bexI [of _ "?up h"]) auto
  next
    case False
    with c have "pf_id g = p" "c = pf_id f" by (auto split: if_splits)
    then show ?thesis using up Some by (intro bexI [of _ "?up f"]) auto
  qed
  note kids = this
  show ?thesis unfolding children_known_def add_child_def Some option.case set_map
  proof (intro ballI)
    fix f' c
    assume m: "f' \<in> ?up ` set (fs @ [f])" and c: "c \<in> set (pf_children f')"
    from m obtain g where g: "f' = ?up g" "g \<in> set (fs @ [f])" by (rule imageE)
    from kids [OF g(2), of c] c g(1) up(1) [of g]
    show "\<exists>h \<in> ?up ` set (fs @ [f]). pf_id h = c \<and> pf_parent h = Some (pf_id f')" by (simp only:)
  qed
qed

lemma enter_children: "enter_frame env r place raw s = (f, t) \<Longrightarrow> children_known (ws_frames s) \<Longrightarrow> children_known (ws_frames t)"
  using add_child_known [of "ws_frames s" "new_frame env r place (ws_generation s) raw"]
    add_child_known [of "ws_frames s" "(new_frame env r place (ws_generation s) raw)\<lparr>pf_generation := g\<rparr>" for g]
  by (auto simp: enter_frame_def Let_def new_frame_def split: if_splits)

lemma walk_children:
  "children_known (ws_frames s) \<Longrightarrow> children_known (ws_frames (walk env r place raw s))"
  "children_known (ws_frames s) \<Longrightarrow> children_known (ws_frames (walk_calls env r f i calls s))"
proof (induction env r place raw s and env r f i calls s rule: walk_walk_calls.induct)
  case (1 env r place ty fr tt inp out v err logs calls s)
  obtain f t where e: "enter_frame env r place (Raw_call ty fr tt inp out v err logs calls) s = (f, t)" by fastforce
  from "1.IH" [OF refl e [symmetric] refl] enter_children [OF e "1.prems"] show ?case by (simp add: e Let_def)
qed simp_all

lemma calldata_frames: "ws_frames (calldata_table env r s) = ws_frames s"
  by (auto simp: calldata_table_def Let_def split: option.splits)

lemma all_children: "children_known (ws_frames (gs_walk (all_frames env records)))"
proof -
  have step: "children_known (ws_frames (gs_walk (add_record env g r)))" if "children_known (ws_frames (gs_walk g))" for g r
    using that walk_children(1) [of _ env r] by (auto simp: add_record_def Let_def calldata_frames split: option.splits)
  have "children_known (ws_frames (gs_walk (foldl (add_record env) g records)))" if "children_known (ws_frames (gs_walk g))" for g
    using that step by (induction records arbitrary: g) simp_all
  then show ?thesis by (simp add: all_frames_def empty_graph_def children_known_def)
qed

lemma all_parents_first: "parents_first (ws_frames (gs_walk (all_frames env records)))"
proof -
  have step: "parents_first (ws_frames (gs_walk (add_record env g r)))" if "parents_first (ws_frames (gs_walk g))" for g r
    using that walk_ok(1) [of _ "root_place r" env r]
    by (auto simp: add_record_def Let_def calldata_frames parent_known_def root_place_def walked_def split: option.splits)
  have "parents_first (ws_frames (gs_walk (foldl (add_record env) g records)))" if "parents_first (ws_frames (gs_walk g))" for g
    using that step by (induction records arbitrary: g) simp_all
  then show ?thesis by (simp add: all_frames_def empty_graph_def parents_first_def)
qed

section \<open>Detection\<close>

definition shape :: "phys_frame \<Rightarrow> phys_frame" where
  "shape f = f\<lparr>pf_role := Role_application\<rparr>"

lemma shape_simps [simp]:
  "pf_id (shape f) = pf_id f" "pf_parent (shape f) = pf_parent f" "pf_children (shape f) = pf_children f"
  by (simp_all add: shape_def)

lemma shape_set_role [simp]: "map shape (set_role k role fs) = map shape fs"
  by (auto simp: set_role_def shape_def)

lemma shape_eqD: "shape f = shape g \<Longrightarrow> pf_id f = pf_id g \<and> pf_parent f = pf_parent g \<and> pf_children f = pf_children g"
  by (metis shape_simps)

lemma same_shape:
  assumes "map shape fs = map shape gs"
  shows "map pf_id fs = map pf_id gs" "map pf_parent fs = map pf_parent gs"
    "f \<in> set fs \<Longrightarrow> \<exists>g \<in> set gs. pf_id g = pf_id f \<and> pf_parent g = pf_parent f \<and> pf_children g = pf_children f"
proof -
  have l: "length fs = length gs" using assms map_eq_imp_length_eq by blast
  have n: "shape (fs ! i) = shape (gs ! i)" if "i < length fs" for i using assms that l by (metis nth_map)
  show "map pf_id fs = map pf_id gs" "map pf_parent fs = map pf_parent gs"
    using arg_cong [OF assms, of "map pf_id"] arg_cong [OF assms, of "map pf_parent"] by (simp_all add: comp_def)
  show "\<exists>g \<in> set gs. pf_id g = pf_id f \<and> pf_parent g = pf_parent f \<and> pf_children g = pf_children f" if "f \<in> set fs"
  proof -
    from that obtain i where i: "i < length fs" "f = fs ! i" by (auto simp: in_set_conv_nth)
    with l have "gs ! i \<in> set gs" by simp
    then show ?thesis using shape_eqD [OF n [OF i(1)]] i(2) by auto
  qed
qed

definition fresh_request :: "outgoing \<Rightarrow> bool" where
  "fresh_request o' \<longleftrightarrow> og_id o' = og_frame o' @ ''/outgoing'' \<and> og_remote o' = None \<and> og_status o' = Status_unresolved"

definition delivery_ok :: "phys_frame list \<Rightarrow> incoming \<Rightarrow> bool" where
  "delivery_ok frames i \<longleftrightarrow> ic_id i = ic_proxyFrame i @ ''/incoming'' \<and> (\<exists>f \<in> set frames. pf_id f = ic_proxyFrame i \<and> ic_frame i \<in> set (pf_children f))"

definition detected :: "phys_frame list \<Rightarrow> string set \<Rightarrow> call_graph \<Rightarrow> bool" where
  "detected frames done g \<longleftrightarrow> map shape (cg_frames g) = map shape frames \<and> (\<forall>o' \<in> set (cg_outgoing g). fresh_request o')
     \<and> (\<forall>i \<in> set (cg_incoming g). delivery_ok frames i) \<and> distinct (map ic_proxyFrame (cg_incoming g)) \<and> ic_proxyFrame ` set (cg_incoming g) \<subseteq> done"

lemma report_simps [simp]:
  "cg_frames (report c k g) = cg_frames g" "cg_outgoing (report c k g) = cg_outgoing g" "cg_incoming (report c k g) = cg_incoming g"
  by (simp_all add: report_def)

lemma report_detected [simp]: "detected frames d (report c k g) = detected frames d g"
  by (simp add: detected_def)

lemma detected_mono: "detected frames d g \<Longrightarrow> d \<subseteq> e \<Longrightarrow> detected frames e g"
  unfolding detected_def by blast

lemma outgoing_step_ok:
  assumes "detected frames d g" and "outgoing_step env tables events parsed f g = Inl h \<or> outgoing_step env tables events parsed f g = Inr h"
  shows "detected frames d h"
proof -
  have fresh: "fresh_request (mk_outgoing env tables events g' parent f p info)" for g' parent p info
    by (simp add: fresh_request_def mk_outgoing_def Let_def)
  have step: "detected frames d ((g\<lparr>cg_frames := set_role a b (cg_frames g), cg_proxies := x\<rparr>)\<lparr>cg_outgoing := cg_outgoing g @ [o']\<rparr>)" if "fresh_request o'" for a b x o'
    using assms(1) that by (auto simp: detected_def)
  show ?thesis using assms step fresh unfolding outgoing_step_def Let_def
    by (auto split: option.splits if_splits)
qed

lemma frame_by_id_mem: "frame_by_id frames k = Some f \<Longrightarrow> f \<in> set frames \<and> pf_id f = k"
  unfolding frame_by_id_def by (auto dest: find_Some_mem)

lemma delivery_target_child:
  "delivery_targets frames f t d = [x] \<Longrightarrow> pf_id x \<in> set (pf_children f)"
proof -
  assume "delivery_targets frames f t d = [x]"
  then have "x \<in> set (delivery_targets frames f t d)" by simp
  then have "x \<in> set (List.map_filter (frame_by_id frames) (pf_children f))" unfolding delivery_targets_def by simp
  then show ?thesis unfolding List.map_filter_def by (auto dest: frame_by_id_mem)
qed

lemma delivery_step_ok:
  assumes g: "detected frames d g" and f: "frame_by_id (cg_frames g) k = Some f" and new: "k \<notin> d"
  shows "detected frames (insert k d) (delivery_step env tables f g)"
proof -
  have fid: "pf_id f = k" "f \<in> set (cg_frames g)" using frame_by_id_mem [OF f] by auto
  have sh: "map shape (cg_frames g) = map shape frames" using g by (simp add: detected_def)
  from same_shape(3) [OF sh fid(2)] obtain f0 where f0: "f0 \<in> set frames" "pf_id f0 = k" "pf_children f0 = pf_children f"
    using fid by auto
  let ?g = "\<lambda>info. g\<lparr>cg_frames := set_role k Role_incoming_proxy (cg_frames g), cg_proxies := jmap_set k info (cg_proxies g)\<rparr>"
  have keep: "detected frames (insert k d) (?g info)" "detected frames (insert k d) g" for info
    using g by (auto simp: detected_def)
  have add: "detected frames (insert k d) ((?g info)\<lparr>cg_incoming := cg_incoming g @ [mk_incoming env tables f t p info]\<rparr>)"
    if t: "delivery_targets (cg_frames (?g info)) f a b = [t]" for info t p a b
  proof -
    have "pf_id t \<in> set (pf_children f0)" using delivery_target_child [OF t] f0 by simp
    then have "delivery_ok frames (mk_incoming env tables f t p info)"
      using f0 fid by (auto simp: delivery_ok_def mk_incoming_def Let_def)
    moreover have "ic_proxyFrame (mk_incoming env tables f t p info) = k" using fid by (simp add: mk_incoming_def Let_def)
    ultimately show ?thesis using g new unfolding detected_def by auto
  qed
  show ?thesis unfolding delivery_step_def Let_def fid(1)
    using keep add by (auto split: option.splits list.splits)
qed

lemma detect_step_ok:
  assumes "detected frames d g" and "k \<notin> d"
  shows "detected frames (insert k d) (detect_step env w g k)"
proof (cases "frame_by_id (cg_frames g) k")
  case None
  then show ?thesis using detected_mono [OF assms(1), of "insert k d"] by (auto simp: detect_step_def)
next
  case (Some f)
  show ?thesis
  proof (cases "outgoing_step env (ws_tables w) (ws_events w) (jmap_get (ws_parsed w) k) f g")
    case (Inl h)
    then have "detected frames d h" using outgoing_step_ok [OF assms(1)] by blast
    then show ?thesis using Some Inl detected_mono [of _ d h "insert k d"] by (auto simp: detect_step_def)
  next
    case (Inr h)
    then have h: "detected frames d h" using outgoing_step_ok [OF assms(1)] by blast
    show ?thesis
    proof (cases "frame_by_id (cg_frames h) k")
      case None
      then show ?thesis using Some Inr detected_mono [OF h, of "insert k d"] by (auto simp: detect_step_def)
    next
      case (Some f')
      from delivery_step_ok [OF h this assms(2)] show ?thesis using \<open>frame_by_id (cg_frames g) k = Some f\<close> Inr Some by (simp add: detect_step_def)
    qed
  qed
qed

lemma mark_probes_shape: "map shape (mark_probes env fs) = map shape fs"
proof -
  let ?step = "\<lambda>fs id. case frame_by_id fs id of None \<Rightarrow> fs | Some f \<Rightarrow> if is_probe env fs f then set_role id Role_static_probe fs else fs"
  have "map shape (foldl ?step gs ks) = map shape gs" for gs ks
    by (induction ks arbitrary: gs) (auto split: option.splits)
  then show ?thesis by (simp add: mark_probes_def)
qed

lemma detect_calls_ok:
  assumes "distinct (map pf_id (ws_frames w))"
  shows "detected (ws_frames w) (set (map pf_id (ws_frames w))) (detect_calls env w)"
proof -
  have "detected frames (d \<union> set ks) (foldl (detect_step env w) g ks)" if "detected frames d g" "distinct ks" "d \<inter> set ks = {}" for frames d g ks
    using that
  proof (induction ks arbitrary: d g)
    case (Cons k ks)
    have "detected frames (insert k d) (detect_step env w g k)" using Cons.prems by (intro detect_step_ok) auto
    from Cons.IH [OF this] Cons.prems show ?case by auto
  qed simp
  from this [of "ws_frames w" "{}" "\<lparr>cg_frames = ws_frames w, cg_proxies = [], cg_outgoing = [], cg_incoming = [], cg_unresolved = []\<rparr>" "map pf_id (ws_frames w)"] assms
  show ?thesis by (simp add: detect_calls_def Let_def detected_def mark_probes_shape)
qed

lemma outgoing_step_shape:
  "outgoing_step env tables events parsed f g = Inl h \<or> outgoing_step env tables events parsed f g = Inr h \<Longrightarrow> map shape (cg_frames h) = map shape (cg_frames g)"
  unfolding outgoing_step_def Let_def by (auto split: option.splits if_splits)

lemma delivery_step_shape: "map shape (cg_frames (delivery_step env tables f g)) = map shape (cg_frames g)"
  unfolding delivery_step_def Let_def by (simp split: option.split list.split)

lemma detect_step_shape: "map shape (cg_frames (detect_step env w g k)) = map shape (cg_frames g)"
  unfolding detect_step_def
  by (simp split: option.split sum.split add: delivery_step_shape) (metis outgoing_step_shape)

section \<open>The input of the matching\<close>

definition graph_input :: "trace_env \<Rightarrow> trace_tx list \<Rightarrow> match_input" where
  "graph_input env records = (let w = gs_walk (all_frames env records) in matching_input env records w (detect_calls env w))"

lemma graph_outgoing:
  "tg_outgoing (buildGraph env records) = map (finish_request (graph_input env records) (match_calls (graph_input env records))) (mi_outgoing (graph_input env records))"
  by (simp add: buildGraph_def graph_input_def Let_def)

lemma graph_incoming:
  "tg_incoming (buildGraph env records) = map (set_source (graph_input env records) (match_calls (graph_input env records))) (mi_incoming (graph_input env records))"
  by (simp add: buildGraph_def graph_input_def Let_def)

lemma graph_nodes: "tg_nodes (buildGraph env records) = map (mk_node (tg_outgoing (buildGraph env records))) (tg_frames (buildGraph env records))"
  by (simp add: buildGraph_def Let_def)

lemma number_list_simps [simp]: "map snd (number_list xs) = xs" "map fst (number_list xs) = [0 ..< length xs]"
  by (simp_all add: number_list_def)

lemma number_list_mem: "x \<in> set (number_list xs) \<Longrightarrow> snd x \<in> set xs"
  by (metis image_eqI list.set_map number_list_simps(1))

lemma number_list_map: "map (\<lambda>x. f (snd x)) (number_list xs) = map f xs"
  using number_list_simps(1) [of xs] by (metis (no_types, lifting) list.map_comp comp_apply map_eq_conv)

lemma number_list_key: "(k, x) \<in> set (number_list xs) \<Longrightarrow> (k, y) \<in> set (number_list xs) \<Longrightarrow> x = y"
  unfolding number_list_def by (auto simp: in_set_zip)

lemma finish_same:
  "og_frame (finish_request m st x) = og_frame (snd x)" "og_id (finish_request m st x) = og_id (snd x)"
  "og_chain (finish_request m st x) = og_chain (snd x)" "og_identity (finish_request m st x) = og_identity (snd x)"
  "og_settlements (finish_request m st x) = og_settlements (snd x)" "og_entryCandidates (finish_request m st x) = og_entryCandidates (snd x)"
  by (simp_all add: finish_request_def leave_unmatched_def set_match_def Let_def split: option.splits prod.splits)

lemma set_source_same:
  "ic_frame (set_source m st x) = ic_frame (snd x)" "ic_id (set_source m st x) = ic_id (snd x)" "ic_chain (set_source m st x) = ic_chain (snd x)"
  "ic_identity (set_source m st x) = ic_identity (snd x)" "ic_settlements (set_source m st x) = ic_settlements (snd x)"
  "ic_tableRows (set_source m st x) = ic_tableRows (snd x)" "ic_generation (set_source m st x) = ic_generation (snd x)"
  by (simp_all add: set_source_def split: option.splits prod.splits)

text \<open>The frames have ids of their own, and no proxy frame makes two requests.\<close>

definition own_ids :: "trace_graph \<Rightarrow> bool" where
  "own_ids g \<longleftrightarrow> distinct (map pf_id (tg_frames g)) \<and> distinct (map og_frame (tg_outgoing g))"

lemma graph_detected:
  assumes "own_ids (buildGraph env records)"
  shows "detected (ws_frames (gs_walk (all_frames env records))) (set (map pf_id (ws_frames (gs_walk (all_frames env records)))))
    (detect_calls env (gs_walk (all_frames env records)))" "distinct (map pf_id (ws_frames (gs_walk (all_frames env records))))"
proof -
  let ?w = "gs_walk (all_frames env records)"
  have "map pf_id (tg_frames (buildGraph env records)) = map pf_id (cg_frames (detect_calls env ?w))"
    by (auto simp: buildGraph_def Let_def mark_transfers_def)
  also have "\<dots> = map pf_id (ws_frames ?w)"
  proof -
    have same: "map shape (cg_frames (detect_step env ?w g k)) = map shape (cg_frames g)" for g k
      by (rule detect_step_shape)
    have "map shape (cg_frames (foldl (detect_step env ?w) g ks)) = map shape (cg_frames g)" for g ks
      by (induction ks arbitrary: g) (simp_all only: foldl_Nil foldl_Cons same)
    then have "map shape (cg_frames (detect_calls env ?w)) = map shape (ws_frames ?w)"
      by (simp add: detect_calls_def Let_def mark_probes_shape)
    then show ?thesis by (rule same_shape(1))
  qed
  finally show d: "distinct (map pf_id (ws_frames ?w))" using assms by (simp add: own_ids_def)
  show "detected (ws_frames ?w) (set (map pf_id (ws_frames ?w))) (detect_calls env ?w)" by (rule detect_calls_ok [OF d])
qed

lemma graph_numbered:
  assumes "own_ids (buildGraph env records)"
  shows "distinct_calls (graph_input env records)" and "distinct (map (\<lambda>i. ic_frame (snd i)) (mi_incoming (graph_input env records)))"
proof -
  let ?w = "gs_walk (all_frames env records)" and ?m = "graph_input env records"
  let ?g = "detect_calls env ?w"
  note d = graph_detected [OF assms]
  have m: "mi_outgoing ?m = number_list (cg_outgoing ?g)" "mi_incoming ?m = number_list (cg_incoming ?g)"
    by (simp_all add: graph_input_def matching_input_def Let_def)
  have "map og_frame (tg_outgoing (buildGraph env records)) = map og_frame (cg_outgoing ?g)"
    using number_list_map [of og_frame "cg_outgoing ?g"] by (simp add: graph_outgoing finish_same m comp_def)
  then have og: "distinct (map og_frame (cg_outgoing ?g))" using assms by (simp add: own_ids_def)
  have "distinct (map og_id (cg_outgoing ?g))"
    using og d(1) by (auto simp: detected_def fresh_request_def distinct_map inj_on_def)
  moreover have ic: "distinct (map ic_proxyFrame (cg_incoming ?g))" using d(1) by (simp add: detected_def)
  then have "distinct (map ic_id (cg_incoming ?g))"
    using d(1) by (auto simp: detected_def delivery_ok_def distinct_map inj_on_def)
  ultimately show "distinct_calls ?m" by (simp add: distinct_calls_def m number_list_map)
  have kids: "ic_proxyFrame i = ic_proxyFrame j" if i: "i \<in> set (cg_incoming ?g)" "j \<in> set (cg_incoming ?g)" "ic_frame i = ic_frame j" for i j
  proof -
    have parent: "\<exists>h \<in> set (ws_frames ?w). pf_id h = ic_frame x \<and> pf_parent h = Some (ic_proxyFrame x)" if "x \<in> set (cg_incoming ?g)" for x
    proof -
      from d(1) that obtain f where "f \<in> set (ws_frames ?w)" "pf_id f = ic_proxyFrame x" "ic_frame x \<in> set (pf_children f)"
        unfolding detected_def delivery_ok_def by blast
      with all_children [of env records] show ?thesis unfolding children_known_def by metis
    qed
    from parent [OF i(1)] parent [OF i(2)] i(3) d(2) show ?thesis
      unfolding distinct_map inj_on_def by (metis option.inject)
  qed
  from ic kids have "distinct (map ic_frame (cg_incoming ?g))" unfolding distinct_map inj_on_def by metis
  then show "distinct (map (\<lambda>i. ic_frame (snd i)) (mi_incoming ?m))" by (simp add: m number_list_map)
qed

section \<open>Matched requests of the graph\<close>

lemma assigned_inj:
  "distinct (map snd a) \<Longrightarrow> jmap_get a k = Some v \<Longrightarrow> jmap_get a l = Some v \<Longrightarrow> k = l"
  unfolding jmap_get_def distinct_map inj_on_def by (metis Pair_inject map_of_SomeD snd_conv)

lemma request_of_match:
  assumes own: "own_ids (buildGraph env records)" and m: "m = graph_input env records" and st: "st = match_calls m"
    and mem: "(a, b, ev) \<in> set (mt_matches st)" and x: "(a, o') \<in> set (mi_outgoing m)" and i: "(b, i) \<in> set (mi_incoming m)"
  shows "possible m o' i \<and> same_result m o' i \<and> enclosing_ok m st o' i \<and> jmap_get (mt_assigned st) (og_id o') = Some (ic_id i)"
proof -
  have ml: "mi_outgoing m = number_list (cg_outgoing (detect_calls env (gs_walk (all_frames env records))))"
      "mi_incoming m = number_list (cg_incoming (detect_calls env (gs_walk (all_frames env records))))"
    by (simp_all add: m graph_input_def matching_input_def Let_def)
  have "matching_ok m st" unfolding st by (rule match_calls_ok) (simp add: m graph_numbered(1) [OF own])
  with mem have "match_ok m st (a, b, ev)" unfolding matching_ok_def by blast
  then obtain o2 i2 where o2: "(a, o2) \<in> set (mi_outgoing m)" and i2: "(b, i2) \<in> set (mi_incoming m)"
    and facts: "possible m o2 i2" "same_result m o2 i2" "enclosing_ok m st o2 i2" "jmap_get (mt_assigned st) (og_id o2) = Some (ic_id i2)"
    unfolding match_ok_def prod.case by blast
  have "o2 = o'" using o2 x unfolding ml by (rule number_list_key)
  moreover have "i2 = i" using i2 i unfolding ml by (rule number_list_key)
  ultimately show ?thesis using facts by simp
qed

lemma matched_request:
  assumes own: "own_ids (buildGraph env records)" and m: "m = graph_input env records" and st: "st = match_calls m"
    and x: "x \<in> set (mi_outgoing m)" and matched: "og_status (finish_request m st x) = Status_matched"
  obtains i where "i \<in> set (mi_incoming m)" "og_remote (finish_request m st x) = Some (ic_frame (snd i))"
    "possible m (snd x) (snd i)" "same_result m (snd x) (snd i)" "enclosing_ok m st (snd x) (snd i)"
    "jmap_get (mt_assigned st) (og_id (snd x)) = Some (ic_id (snd i))"
    "ic_source (set_source m st i) = Some (og_frame (snd x))"
proof -
  have ml: "mi_outgoing m = number_list (cg_outgoing (detect_calls env (gs_walk (all_frames env records))))"
      "mi_incoming m = number_list (cg_incoming (detect_calls env (gs_walk (all_frames env records))))"
    by (simp_all add: m graph_input_def matching_input_def Let_def)
  obtain k o' where xk: "x = (k, o')" by (cases x)
  have fresh: "og_status y = Status_unresolved" if "(j, y) \<in> set (mi_outgoing m)" for j y
    using that graph_detected(1) [OF own] unfolding ml detected_def fresh_request_def number_list_def by (auto dest: set_zip_rightD)
  have "\<not> unassigned st x" using matched
    by (auto simp: finish_request_def leave_unmatched_def Let_def split: if_splits)
  then obtain i ev where mo: "match_of m st k = Some (i, ev)"
    using matched fresh [of k o'] x by (auto simp: finish_request_def xk split: option.splits)
  then obtain b where b: "(k, b, ev) \<in> set (mt_matches st)" "(b, i) \<in> set (mi_incoming m)"
    unfolding match_of_def by (auto split: option.splits dest!: find_Some_mem)
  note facts = request_of_match [OF own m st b(1) x [unfolded xk] b(2)]
  have ok: "matching_ok m st" unfolding st by (rule match_calls_ok) (simp add: m graph_numbered(1) [OF own])
  have src: "ic_source (set_source m st (b, i)) = Some (og_frame o')"
  proof -
    obtain a ev' where a: "find (\<lambda>(a, b', ev). b' = b) (rev (mt_matches st)) = Some (a, b, ev')"
      using b(1) by (cases "find (\<lambda>(a, b', ev). b' = b) (rev (mt_matches st))") (auto simp: find_None_iff dest: find_Some_mem)
    then have mem: "(a, b, ev') \<in> set (mt_matches st)" by (auto dest: find_Some_mem)
    with ok obtain o'' where o'': "(a, o'') \<in> set (mi_outgoing m)" unfolding matching_ok_def match_ok_def by blast
    have "distinct (map snd (mt_assigned st))" using ok by (simp add: matching_ok_def)
    moreover have "jmap_get (mt_assigned st) (og_id o'') = Some (ic_id i)" using request_of_match [OF own m st mem o'' b(2)] by simp
    moreover have "jmap_get (mt_assigned st) (og_id o') = Some (ic_id i)" using facts by simp
    ultimately have same: "og_id o'' = og_id o'" by (rule assigned_inj)
    have "inj_on (\<lambda>x. og_id (snd x)) (set (mi_outgoing m))"
      using graph_numbered(1) [OF own] unfolding distinct_calls_def m distinct_map by blast
    from inj_onD [OF this _ o'' x [unfolded xk]] same have "(a, o'') = (k, o')" by simp
    then have ak: "a = k" by simp
    obtain y where y: "find (\<lambda>x. fst x = k) (mi_outgoing m) = Some y"
      using x xk by (cases "find (\<lambda>x. fst x = k) (mi_outgoing m)") (auto simp: find_None_iff)
    then have "y \<in> set (mi_outgoing m)" "fst y = k" by (auto dest: find_Some_mem)
    then have "snd y = o'" using x number_list_key unfolding xk ml by (metis prod.collapse)
    then show ?thesis using a y ak by (simp add: set_source_def)
  qed
  show thesis
    by (rule that [of "(b, i)"])
       (use b facts src mo \<open>\<not> unassigned st x\<close> in \<open>simp_all add: xk finish_request_def set_match_def\<close>)
qed

lemma remote_matched:
  assumes own: "own_ids (buildGraph env records)" and m: "m = graph_input env records" and st: "st = match_calls m"
    and x: "x \<in> set (mi_outgoing m)" and r: "og_remote (finish_request m st x) = Some r"
  shows "og_status (finish_request m st x) = Status_matched"
proof -
  have "snd x \<in> set (cg_outgoing (detect_calls env (gs_walk (all_frames env records))))"
    using x number_list_mem by (simp add: m graph_input_def matching_input_def Let_def)
  then have "og_remote (snd x) = None" using graph_detected(1) [OF own] unfolding detected_def fresh_request_def by blast
  then show ?thesis using r
    by (auto simp: finish_request_def leave_unmatched_def set_match_def Let_def split: option.splits if_splits prod.splits)
qed

text \<open>Two requests of the graph have different remote frames.\<close>

lemma remote_inj:
  assumes own: "own_ids (buildGraph env records)"
    and o1: "o1 \<in> set (tg_outgoing (buildGraph env records))" "og_remote o1 = Some r"
    and o2: "o2 \<in> set (tg_outgoing (buildGraph env records))" "og_remote o2 = Some r"
  shows "o1 = o2"
proof -
  define m where "m = graph_input env records"
  define st where "st = match_calls m"
  obtain x1 where x1: "x1 \<in> set (mi_outgoing m)" "o1 = finish_request m st x1" using o1(1) by (auto simp: graph_outgoing m_def st_def)
  obtain x2 where x2: "x2 \<in> set (mi_outgoing m)" "o2 = finish_request m st x2" using o2(1) by (auto simp: graph_outgoing m_def st_def)
  have s: "og_status (finish_request m st x1) = Status_matched" "og_status (finish_request m st x2) = Status_matched"
    using remote_matched [OF own m_def st_def] o1(2) o2(2) x1 x2 by simp_all
  obtain i1 where i1: "i1 \<in> set (mi_incoming m)" "og_remote (finish_request m st x1) = Some (ic_frame (snd i1))"
      "jmap_get (mt_assigned st) (og_id (snd x1)) = Some (ic_id (snd i1))"
    by (rule matched_request [OF own m_def st_def x1(1) s(1)])
  obtain i2 where i2: "i2 \<in> set (mi_incoming m)" "og_remote (finish_request m st x2) = Some (ic_frame (snd i2))"
      "jmap_get (mt_assigned st) (og_id (snd x2)) = Some (ic_id (snd i2))"
    by (rule matched_request [OF own m_def st_def x2(1) s(2)])
  have "i1 = i2" using graph_numbered(2) [OF own] i1 i2 o1(2) o2(2) x1(2) x2(2)
    unfolding distinct_map m_def inj_on_def by (metis option.inject)
  moreover have "matching_ok m st" unfolding st_def by (rule match_calls_ok) (simp add: m_def graph_numbered(1) [OF own])
  ultimately have "og_id (snd x1) = og_id (snd x2)" using i1(3) i2(3) assigned_inj unfolding matching_ok_def by metis
  then have "x1 = x2" using graph_numbered(1) [OF own] x1(1) x2(1) unfolding distinct_calls_def distinct_map inj_on_def m_def by blast
  then show ?thesis by (simp add: x1 x2)
qed

end
