(* ===== verification/Trace_Properties.thy ===== *)
theory Trace_Properties
  imports Trace_Graph_Facts
begin

text \<open>
  What the trace decoder guarantees: a matched request is executed by one delivery of the other chain that
  agrees with it in everything the code compares; the matching stops only when no open request has a
  delivery to itself; the executing frame hangs once in the logical tree, below its request; the table
  in force at the end of a block was not rolled back; and the search for enclosing calls reaches a root.
\<close>

section \<open>A request and its delivery\<close>

definition trace_sample_lib :: trace_lib where
  "trace_sample_lib = \<lparr>tl_event = (\<lambda>c log. None),
     tl_call = (\<lambda>c input. if input = ''0xrequest'' then Some \<lparr>pc_name = ''executeCrossChainCall'', pc_args = [JStr ''0xUser'', JStr ''0xda''] \<rparr>
       else if input = ''0xdeliver'' then Some \<lparr>pc_name = ''executeIncomingCrossChainCall'', pc_args = []\<rparr> else None),
     tl_proxyCall = (\<lambda>input. if input = ''0xforward'' then Some \<lparr>pc_name = ''executeOnBehalf'', pc_args = [JStr ''0xTarget'', JStr ''7'', JStr ''0xda'']\<rparr> else None),
     tl_proxy = (\<lambda>c a n. if a = ''0xp1'' then Some \<lparr>px_originalAddress = ''0xTarget'', px_originalRollupId = ''2''\<rparr>
       else if a = ''0xp2'' then Some \<lparr>px_originalAddress = ''0xuser'', px_originalRollupId = ''1''\<rparr> else None),
     tl_system = (\<lambda>n. None), tl_hash = (\<lambda>i gas. ''0xhash'')\<rparr>"

definition sample_env :: trace_env where
  "sample_env = \<lparr>te_lib = trace_sample_lib, te_manager = (\<lambda>c. if c = L1 then ''0xm1'' else ''0xm2''), te_rollupId = (\<lambda>c. Some (if c = L1 then ''1'' else ''2'')),
     te_links = [\<lparr>tk_id = ''k'', tk_references = [(L1, ''0xaa''), (L2, ''0xbb'')], tk_host = None\<rparr>], te_settlements = [], te_matchingDisabled = False\<rparr>"

text \<open>The deposit of 3 on L1 asks for a call on L2, which is delivered in a transaction of its own.\<close>

definition sample_records :: "trace_tx list" where
  "sample_records =
     [\<lparr>tt_chain = L1, tt_hash = ''0xaa'', tt_block = 5, tt_index = 0, tt_to = Some ''0xp1'', tt_input = ''0xda'', tt_status = Some 1, tt_receipt = True, tt_logs = [],
        tt_trace = Some (Raw_call ''CALL'' (Some ''0xuser'') (Some ''0xP1'') ''0xda'' ''0x01'' 3 None []
          [Raw_call ''CALL'' (Some ''0xp1'') (Some ''0xM1'') ''0xrequest'' ''0x'' 3 None [] []])\<rparr>,
      \<lparr>tt_chain = L2, tt_hash = ''0xbb'', tt_block = 9, tt_index = 1, tt_to = Some ''0xm2'', tt_input = ''0xdeliver'', tt_status = Some 1, tt_receipt = True, tt_logs = [],
        tt_trace = Some (Raw_call ''CALL'' (Some ''0xsys'') (Some ''0xm2'') ''0xdeliver'' ''0x'' 0 None []
          [Raw_call ''CALL'' (Some ''0xm2'') (Some ''0xp2'') ''0xforward'' ''0x01'' 3 None []
             [Raw_call ''CALL'' (Some ''0xp2'') (Some ''0xtarget'') ''0xDA'' ''0x01'' 3 None [] []]])\<rparr>]"

abbreviation sample_graph :: trace_graph where
  "sample_graph \<equiv> buildGraph sample_env sample_records"

lemma sample_own: "own_ids sample_graph"
  by code_simp

lemma sample_matched: "map og_status (tg_outgoing sample_graph) = [Status_matched]"
  by code_simp

lemma sample_remote: "map og_remote (tg_outgoing sample_graph) = [Some ''L2:0xbb:0.0.0'']"
  by code_simp

lemma map_single_hd: "map f xs = [y] \<Longrightarrow> hd xs \<in> set xs \<and> f (hd xs) = y"
  by (cases xs) auto

section \<open>Soundness of the matching\<close>

lemma matched_facts:
  assumes "own_ids (buildGraph env records)" and "o' \<in> set (tg_outgoing (buildGraph env records))" and "og_status o' = Status_matched"
  shows "\<exists>i \<in> set (tg_incoming (buildGraph env records)).
      og_remote o' = Some (ic_frame i) \<and> ic_source i = Some (og_frame o') \<and> og_chain o' \<noteq> ic_chain i
      \<and> sameIdentity (og_identity o') (ic_identity i) \<and> compatibleScope (graph_input env records) o' i
      \<and> same_result (graph_input env records) o' i
      \<and> enclosing_ok (graph_input env records) (match_calls (graph_input env records)) o' i"
proof -
  define m where "m = graph_input env records"
  define st where "st = match_calls m"
  obtain x where x: "x \<in> set (mi_outgoing m)" "o' = finish_request m st x" using assms(2) by (auto simp: graph_outgoing m_def st_def)
  obtain i where i: "i \<in> set (mi_incoming m)" "og_remote o' = Some (ic_frame (snd i))"
    "possible m (snd x) (snd i)" "same_result m (snd x) (snd i)" "enclosing_ok m st (snd x) (snd i)"
    "ic_source (set_source m st i) = Some (og_frame (snd x))"
    by (rule matched_request [OF assms(1) m_def st_def x(1)]) (use assms(3) x(2) in simp_all)
  let ?i = "set_source m st i"
  have mem: "?i \<in> set (tg_incoming (buildGraph env records))" using i(1) by (auto simp: graph_incoming m_def st_def)
  have "compatibleScope m o' ?i = compatibleScope m (snd x) (snd i)" "same_result m o' ?i = same_result m (snd x) (snd i)"
    "enclosing_ok m st o' ?i = enclosing_ok m st (snd x) (snd i)"
    by (simp_all add: compatibleScope_def same_result_def enclosing_ok_def nearestIncoming_def nearestOutgoing_def x(2) finish_same set_source_same split: option.split)
  then show ?thesis unfolding m_def [symmetric] st_def [symmetric]
    by (intro bexI [OF _ mem]) (use i x(2) in \<open>simp_all add: finish_same set_source_same possible_def\<close>)
qed

text \<open>C6. Soundness of the cross-chain matching. In the graph that is built from the traces, every request
  with status matched is executed by a delivery that the graph holds: the delivery's target frame is the
  remote frame of the request and names it back as its source; it is on the other chain, has the same
  source and destination identity, value, calldata and static context, lies in a compatible settlement or
  transaction link, has the same result, and the calls that enclose the two are matched with one
  another. It needs frame ids of their own and at most one manager request per proxy frame.\<close>
theorem trace_match_sound:
  assumes "own_ids (buildGraph env records)" and "o' \<in> set (tg_outgoing (buildGraph env records))" and "og_status o' = Status_matched"
  shows "\<exists>i \<in> set (tg_incoming (buildGraph env records)).
      og_remote o' = Some (ic_frame i) \<and> ic_source i = Some (og_frame o') \<and> og_chain o' \<noteq> ic_chain i
      \<and> sameIdentity (og_identity o') (ic_identity i) \<and> compatibleScope (graph_input env records) o' i
      \<and> same_result (graph_input env records) o' i
      \<and> enclosing_ok (graph_input env records) (match_calls (graph_input env records)) o' i"
  by (rule matched_facts [OF assms])

theorem trace_match_sound_witness:
  "\<exists>i \<in> set (tg_incoming sample_graph). og_remote (hd (tg_outgoing sample_graph)) = Some (ic_frame i)
      \<and> ic_source i = Some (og_frame (hd (tg_outgoing sample_graph)))"
  using trace_match_sound [OF sample_own] map_single_hd [OF sample_matched] by blast

section \<open>The matching is exhausted\<close>

lemma no_reciprocal:
  assumes "x \<in> set (mi_outgoing m)" and "unassigned (match_calls m) x" and "available m (match_calls m) (snd x) = [i]"
  shows "(\<exists>y \<in> set (mi_outgoing m). y \<noteq> x \<and> claims m (match_calls m) (ic_id (snd i)) y) \<or> length (filter ((=) x) (mi_outgoing m)) \<noteq> 1"
proof (rule ccontr)
  assume not: "\<not> ?thesis"
  define Q where "Q = claims m (match_calls m) (ic_id (snd i))"
  have "filter Q (mi_outgoing m) = filter ((=) x) (mi_outgoing m)"
  proof (rule filter_cong [OF refl])
    fix y assume y: "y \<in> set (mi_outgoing m)"
    have "Q x" using assms by (simp add: Q_def claims_def)
    with not y show "Q y = (x = y)" unfolding Q_def by (cases "x = y") auto
  qed
  moreover have "length (filter ((=) x) (mi_outgoing m)) = 1" using not assms(1) by blast
  moreover have "match_round m (match_calls m) = match_calls m" unfolding match_calls_def by (rule loop_still)
  from round_unique [OF this assms] have "length (filter Q (mi_outgoing m)) \<noteq> 1" by (simp add: Q_def)
  ultimately show False by simp
qed

text \<open>C12. The matching loop ends, and it ends only when it is exhausted: one more round changes nothing,
  and a request of the graph that is left open with exactly one available delivery is in competition for
  that delivery with another open request.\<close>
theorem trace_match_exhausted:
  assumes m: "m = graph_input env records" and x: "x \<in> set (mi_outgoing m)" and "unassigned (match_calls m) x"
    and "available m (match_calls m) (snd x) = [i]"
  shows "match_round m (match_calls m) = match_calls m
    \<and> (\<exists>y \<in> set (mi_outgoing m). y \<noteq> x \<and> claims m (match_calls m) (ic_id (snd i)) y)"
proof
  show "match_round m (match_calls m) = match_calls m" unfolding match_calls_def by (rule loop_still)
  have "distinct (map fst (mi_outgoing m))" by (simp add: m graph_input_def matching_input_def Let_def)
  then have "distinct (mi_outgoing m)" by (simp add: distinct_map)
  then have "length (filter ((=) x) (mi_outgoing m)) = 1" using x by (simp add: distinct_length_filter Collect_conv_if Int_def)
  with no_reciprocal [OF x assms(3,4)] show "\<exists>y \<in> set (mi_outgoing m). y \<noteq> x \<and> claims m (match_calls m) (ic_id (snd i)) y" by blast
qed

text \<open>Two equal deposits and a single delivery: neither request may take it.\<close>

definition rival_records :: "trace_tx list" where
  "rival_records = hd sample_records # (hd sample_records)\<lparr>tt_hash := ''0xcc''\<rparr> # drop 1 sample_records"

definition rival_env :: trace_env where
  "rival_env = sample_env\<lparr>te_links := [\<lparr>tk_id = ''k'', tk_references = [(L1, ''0xaa''), (L1, ''0xcc''), (L2, ''0xbb'')], tk_host = None\<rparr>]\<rparr>"

definition rival_input :: match_input where
  "rival_input = graph_input rival_env rival_records"

lemma rival_check: "let m = rival_input; st = match_calls m; x = hd (mi_outgoing m)
    in unassigned st x \<and> length (available m st (snd x)) = 1 \<and> mi_outgoing m \<noteq> []"
  by code_simp

lemma rival_open: "unassigned (match_calls rival_input) (hd (mi_outgoing rival_input))
    \<and> length (available rival_input (match_calls rival_input) (snd (hd (mi_outgoing rival_input)))) = 1 \<and> mi_outgoing rival_input \<noteq> []"
  using rival_check unfolding Let_def .

theorem trace_match_exhausted_witness:
  "\<exists>y \<in> set (mi_outgoing rival_input). y \<noteq> hd (mi_outgoing rival_input)
     \<and> claims rival_input (match_calls rival_input) (ic_id (snd (hd (available rival_input (match_calls rival_input) (snd (hd (mi_outgoing rival_input))))))) y"
proof -
  have one: "available rival_input (match_calls rival_input) (snd (hd (mi_outgoing rival_input)))
      = [hd (available rival_input (match_calls rival_input) (snd (hd (mi_outgoing rival_input))))]"
    using rival_open by (metis One_nat_def length_0_conv length_Suc_conv list.sel(1))
  from trace_match_exhausted [OF rival_input_def _ _ one] rival_open show ?thesis by simp
qed

section \<open>The logical tree\<close>

lemma set_insert_at [simp]: "set (insert_at k x xs) = insert x (set xs)"
proof -
  have "set (take n xs @ x # drop n xs) = insert x (set (take n xs @ drop n xs))" for n by (auto simp del: append_take_drop_id)
  then show ?thesis unfolding insert_at_def Let_def append_take_drop_id .
qed

lemma outgoing_at_mem: "outgoing_at outs k = Some o' \<Longrightarrow> o' \<in> set outs \<and> og_frame o' = k"
  by (auto simp: outgoing_at_def dest: find_Some_mem)

lemma outgoing_at_own: "distinct (map og_frame outs) \<Longrightarrow> o' \<in> set outs \<Longrightarrow> outgoing_at outs (og_frame o') = Some o'"
proof -
  assume d: "distinct (map og_frame outs)" and o': "o' \<in> set outs"
  then obtain x where "outgoing_at outs (og_frame o') = Some x"
    by (cases "outgoing_at outs (og_frame o')") (auto simp: outgoing_at_def find_None_iff)
  with d o' show ?thesis using outgoing_at_mem unfolding distinct_map inj_on_def by metis
qed

text \<open>C7. The frame that executes a request is relocated exactly once: among all the nodes of the logical
  tree it is a child of the node of the frame that made the request, and of no other node, whatever
  frame called it physically; every other frame stays a child of exactly its physical caller's
  node.\<close>
theorem trace_relocated_once:
  assumes own: "own_ids (buildGraph env records)"
    and o': "o' \<in> set (tg_outgoing (buildGraph env records))" and r: "remote_of (Some o') = Some r"
    and f: "f \<in> set (tg_frames (buildGraph env records))"
  shows "(r \<in> set (ln_children (mk_node (tg_outgoing (buildGraph env records)) f)) \<longleftrightarrow> pf_id f = og_frame o')
    \<and> mk_node (tg_outgoing (buildGraph env records)) f \<in> set (tg_nodes (buildGraph env records))
    \<and> (c \<in> set (relocated (tg_outgoing (buildGraph env records)))
       \<or> (c \<in> set (ln_children (mk_node (tg_outgoing (buildGraph env records)) f)) \<longleftrightarrow> c \<in> set (pf_children f)))"
proof (intro conjI)
  let ?outs = "tg_outgoing (buildGraph env records)"
  have rem: "og_remote y = Some s" if "remote_of (Some y) = Some s" for y s
    using that by (auto simp: remote_of_def split: option.splits if_splits)
  have rel: "s \<in> set (relocated ?outs)" if "y \<in> set ?outs" "remote_of (Some y) = Some s" for y s
    using that by (force simp: relocated_def List.map_filter_def)
  have kids: "set (logical_children ?outs f) = (set (pf_children f) - set (relocated ?outs))
      \<union> (case outgoing_at ?outs (pf_id f) of None \<Rightarrow> {} | Some y \<Rightarrow> set_option (remote_of (Some y)))"
    by (auto simp: logical_children_def Let_def remote_of_def split: option.splits)
  show "r \<in> set (ln_children (mk_node ?outs f)) \<longleftrightarrow> pf_id f = og_frame o'"
  proof
    assume "r \<in> set (ln_children (mk_node ?outs f))"
    with rel [OF o' r] kids obtain y where y: "outgoing_at ?outs (pf_id f) = Some y" "remote_of (Some y) = Some r"
      by (auto simp: mk_node_def split: option.splits)
    with outgoing_at_mem have "y \<in> set ?outs" "og_frame y = pf_id f" by blast+
    with remote_inj [OF own this(1) rem [OF y(2)] o' rem [OF r]] show "pf_id f = og_frame o'" by simp
  next
    assume "pf_id f = og_frame o'"
    with outgoing_at_own [of ?outs o'] own o' have "outgoing_at ?outs (pf_id f) = Some o'" by (simp add: own_ids_def)
    with kids r show "r \<in> set (ln_children (mk_node ?outs f))" by (simp add: mk_node_def)
  qed
  show "mk_node ?outs f \<in> set (tg_nodes (buildGraph env records))" using f by (simp add: graph_nodes)
  have "set_option (remote_of (Some y)) \<subseteq> set (relocated ?outs)" if "outgoing_at ?outs (pf_id f) = Some y" for y
    using rel outgoing_at_mem [OF that] by auto
  then show "c \<in> set (relocated ?outs) \<or> (c \<in> set (ln_children (mk_node ?outs f)) \<longleftrightarrow> c \<in> set (pf_children f))"
    using kids by (auto simp: mk_node_def split: option.splits)
qed

theorem trace_relocated_once_witness:
  "''L2:0xbb:0.0.0'' \<in> set (ln_children (mk_node (tg_outgoing sample_graph) (hd (tg_frames sample_graph))))
    \<longleftrightarrow> pf_id (hd (tg_frames sample_graph)) = og_frame (hd (tg_outgoing sample_graph))"
proof -
  have "remote_of (Some (hd (tg_outgoing sample_graph))) = Some ''L2:0xbb:0.0.0''"
    using map_single_hd [OF sample_remote] by (simp add: remote_of_def)
  moreover have "tg_frames sample_graph \<noteq> []" by code_simp
  ultimately show ?thesis using trace_relocated_once [OF sample_own] map_single_hd [OF sample_remote] hd_in_set by blast
qed

section \<open>Generations and enclosing calls\<close>

text \<open>C13. The generation that a block is left with, which the next transaction of the block starts from, is
  always a table that was loaded by a call that was not rolled back: a failed call, at any depth,
  takes back the tables loaded inside it. It needs a trace whose root fails when the receipt reports
  failure.\<close>
theorem trace_generation_committed:
  assumes "\<forall>r \<in> set records. tt_status r = Some 0 \<longrightarrow> root_failed r"
    and "jmap_get (gs_blocks (all_frames env records)) k = Some (Some g)"
  shows "\<exists>t \<in> set (ws_tables (gs_walk (all_frames env records))). tb_id t = g \<and> tb_committed t"
proof -
  have "(k, Some g) \<in> set (gs_blocks (all_frames env records))" using assms(2) by (simp add: jmap_get_def map_of_SomeD)
  with all_frames_ok [OF assms(1), of env] show ?thesis unfolding graph_ok_def committed_generation_def by fastforce
qed

theorem trace_generation_committed_witness:
  "\<exists>t \<in> set (ws_tables (gs_walk (all_frames sample_env sample_records))). tb_id t = ''L2:0xbb:0/table'' \<and> tb_committed t"
proof -
  have "\<forall>r \<in> set sample_records. tt_status r = Some 0 \<longrightarrow> root_failed r" by (simp add: sample_records_def)
  moreover have "jmap_get (gs_blocks (all_frames sample_env sample_records)) (L2, 9) = Some (Some ''L2:0xbb:0/table'')" by code_simp
  ultimately show ?thesis by (rule trace_generation_committed)
qed

definition frame_place :: "phys_frame list \<Rightarrow> string \<Rightarrow> nat" where
  "frame_place frames k = length (takeWhile (\<lambda>f. pf_id f \<noteq> k) frames)"

lemma frame_place_take: "k \<in> set (map pf_id (take n frames)) \<Longrightarrow> frame_place frames k < n"
proof (induction frames arbitrary: n)
  case (Cons f fs)
  then show ?case by (cases n) (auto simp: frame_place_def)
qed simp

lemma frame_by_id_place:
  "frame_by_id frames k = Some f \<Longrightarrow> frame_place frames k < length frames \<and> frames ! frame_place frames k = f \<and> pf_id f = k"
proof (induction frames)
  case (Cons g fs)
  then show ?case by (cases "pf_id g = k") (auto simp: frame_by_id_def frame_place_def)
qed (simp add: frame_by_id_def)

lemma ancestors_root:
  assumes "parents_first frames" and "frame_by_id frames k = Some f" and "frame_place frames k < n"
  shows "parent_of frames (last (f # ancestors n frames f)) = None"
  using assms(2,3)
proof (induction n arbitrary: k f)
  case (Suc n)
  show ?case
  proof (cases "parent_of frames f")
    case (Some q)
    then obtain p where p: "pf_parent f = Some p" "frame_by_id frames p = Some q" by (auto simp: parent_of_def split: bind_splits)
    from frame_by_id_place [OF Suc.prems(1)] p(1) assms(1) have "p \<in> set (map pf_id (take (frame_place frames k) frames))"
      unfolding parents_first_def by blast
    from frame_place_take [OF this] Suc.prems(2) have "frame_place frames p < n" by simp
    from Suc.IH [OF p(2) this] show ?thesis by (simp add: Some)
  qed simp
qed simp

text \<open>The search for the calls that enclose a frame terminates at a root of its trace: parents are
  always recorded before their children, so following them from any frame of the graph reaches, within as
  many steps as there are frames, a frame without a parent. In particular the bound of the model
  never cuts the search short.\<close>
theorem trace_ancestors_complete:
  assumes m: "m = graph_input env records" and f: "frame_by_id (mi_frames m) k = Some f"
  shows "parent_of (mi_frames m) (last (f # ancestors_of m k)) = None"
proof -
  let ?w = "gs_walk (all_frames env records)"
  have "map shape (cg_frames (foldl (detect_step env ?w) g ks)) = map shape (cg_frames g)" for g ks
    by (induction ks arbitrary: g) (simp_all only: foldl_Nil foldl_Cons detect_step_shape)
  then have "map shape (mi_frames m) = map shape (ws_frames ?w)"
    by (simp add: m graph_input_def matching_input_def detect_calls_def Let_def mark_probes_shape)
  moreover have "parents_first (ws_frames ?w)" by (rule all_parents_first)
  ultimately have "parents_first (mi_frames m)" using same_shape(1,2) parents_first_cong by metis
  from ancestors_root [OF this f] frame_by_id_place [OF f] f show ?thesis by (simp add: ancestors_of_def)
qed

theorem trace_ancestors_complete_witness:
  "\<exists>f. frame_by_id (mi_frames (graph_input sample_env sample_records)) ''L2:0xbb:0.0.0'' = Some f
    \<and> parent_of (mi_frames (graph_input sample_env sample_records)) (last (f # ancestors_of (graph_input sample_env sample_records) ''L2:0xbb:0.0.0'')) = None"
proof -
  have "frame_by_id (mi_frames (graph_input sample_env sample_records)) ''L2:0xbb:0.0.0'' \<noteq> None" by code_simp
  then obtain f where f: "frame_by_id (mi_frames (graph_input sample_env sample_records)) ''L2:0xbb:0.0.0'' = Some f" by blast
  from trace_ancestors_complete [OF refl f] f show ?thesis by blast
qed

end
