(* ===== verification/Trace_Rpc.thy ===== *)
theory Trace_Rpc
  imports Trace_Base Fee_Quote
begin

text \<open>
  The reads of the trace decoder (\<open>src/trace-decoder/src/rpc.mjs\<close>): a request with its retry on the trace
  endpoint, blocks and receipts, the recovery of a transaction from the canonical block, the search for the
  block nearest to a time, and the validation of a settlement. Answers of a node are untyped
  (\<^typ>\<open>js\<close>); a node and the quantity encoding of the ethers package are the parameters of \<open>trace_node\<close>. The caches of the
  reader keep answers, so a read is modelled as the answer itself; prefetching only fills a cache.
\<close>

record trace_item = \<comment> \<open>an item of a traced block, with the call tree of \<open>item.result ?? item\<close> if it is one\<close>
  ti_txHash :: js
  ti_transactionHash :: js
  ti_call :: "raw_call option"
  ti_error :: bool

record trace_node =
  nd_rpc :: "string \<Rightarrow> string \<Rightarrow> js list \<Rightarrow> js_error + js" \<comment> \<open>url, method, parameters\<close>
  nd_traceTransaction :: "string \<Rightarrow> string \<Rightarrow> js_error + raw_call option" \<comment> \<open>url, hash\<close>
  nd_traceBlock :: "string \<Rightarrow> string \<Rightarrow> js \<Rightarrow> js_error + trace_item list option" \<comment> \<open>\<^const>\<open>None\<close>: not an array\<close>
  nd_toQuantity :: "js \<Rightarrow> js_error + string"

record chain_reader =
  cr_chain :: chain
  cr_url :: string
  cr_traceUrl :: string
  cr_node :: trace_node

section \<open>Reading answers\<close>

text \<open>\<open>number(n)\<close>: a safe non-negative integer.\<close>

definition trace_number :: "js \<Rightarrow> js_error + int" where
  "trace_number v =
     (case js_Number v of
        None \<Rightarrow> throw ''Invalid block/index''
      | Some n \<Rightarrow> if js_nullish v \<or> \<not> is_safe_integer n \<or> n < 0 then throw ''Invalid block/index'' else Inr n)"

text \<open>\<open>v.k\<close>, which throws on null and undefined, and \<open>v\<close> as an array.\<close>

definition js_get :: "js \<Rightarrow> string \<Rightarrow> js_error + js" where
  "js_get v k = (if js_nullish v then Inl TypeError else Inr (js_field v k))"

definition js_array :: "js \<Rightarrow> js_error + js list" where
  "js_array v = (case v of JArr xs \<Rightarrow> Inr xs | _ \<Rightarrow> Inl TypeError)"

section \<open>Requests\<close>

definition retryOnNull :: "string set" where
  "retryOnNull = {''eth_getTransactionReceipt'', ''eth_getTransactionByHash'', ''eth_getBlockByNumber'', ''eth_getBlockByHash''}"

definition send :: "chain_reader \<Rightarrow> string \<Rightarrow> js list \<Rightarrow> bool \<Rightarrow> js_error + js" where
  "send rd m params trace =
     (let rpc = nd_rpc (cr_node rd)
      in if trace \<or> cr_traceUrl rd = cr_url rd then rpc (if trace then cr_traceUrl rd else cr_url rd) m params
         else case rpc (cr_url rd) m params of
             Inr r \<Rightarrow> if \<not> js_nullish r \<or> m \<notin> retryOnNull then Inr r else rpc (cr_traceUrl rd) m params
           | Inl e \<Rightarrow> (case rpc (cr_traceUrl rd) m params of Inr r \<Rightarrow> Inr r | Inl e' \<Rightarrow> Inl e))"

definition block_tag :: "chain_reader \<Rightarrow> js \<Rightarrow> js_error + string" where
  "block_tag rd n = (case n of JStr s \<Rightarrow> if s = ''latest'' \<or> length s = 66 then Inr s else nd_toQuantity (cr_node rd) n | _ \<Rightarrow> nd_toQuantity (cr_node rd) n)"

definition read_block :: "chain_reader \<Rightarrow> js \<Rightarrow> js_error + js" where
  "read_block rd n = res_bind (block_tag rd n) (\<lambda>tag.
     send rd (if length tag = 66 then ''eth_getBlockByHash'' else ''eth_getBlockByNumber'') [JStr tag, JBool True] False)"

definition block_receipts :: "chain_reader \<Rightarrow> js \<Rightarrow> js_error + js list" where
  "block_receipts rd block =
     res_bind (js_array (js_field block ''transactions'')) (\<lambda>txs.
       if txs = [] then Inr []
       else let v = (case send rd ''eth_getBlockReceipts'' [js_field block ''hash''] False of
                       Inr v \<Rightarrow> v
                     | Inl e \<Rightarrow> (case send rd ''eth_getBlockReceipts'' [js_field block ''number''] False of Inr v \<Rightarrow> v | Inl e' \<Rightarrow> JArr []))
            in if js_truthy v then js_array v else Inr [])"

section \<open>Recovery of a transaction\<close>

record rpc_record =
  rx_chain :: chain
  rx_hash :: string
  rx_transaction :: js
  rx_receipt :: js
  rx_blockNumber :: "int option"
  rx_blockHash :: js
  rx_transactionIndex :: int
  rx_recovery :: "string list"

text \<open>An entry of a block is a hash or a transaction.\<close>

definition entry_hash :: "js \<Rightarrow> js_error + js" where
  "entry_hash tx = (case tx of JStr s \<Rightarrow> Inr tx | _ \<Rightarrow> js_get tx ''hash'')"

fun find_entry :: "string \<Rightarrow> js list \<Rightarrow> js_error + nat option" where
  "find_entry h [] = Inr None"
| "find_entry h (tx # txs) = res_bind (entry_hash tx) (\<lambda>k.
     if same_js k (JStr h) then Inr (Some 0) else res_bind (find_entry h txs) (\<lambda>r. Inr (map_option Suc r)))"

fun find_receipt :: "string \<Rightarrow> js list \<Rightarrow> js_error + js" where
  "find_receipt h [] = Inr JNull"
| "find_receipt h (r # rs) = res_bind (js_get r ''transactionHash'') (\<lambda>k. if same_js k (JStr h) then Inr r else find_receipt h rs)"

definition other_block :: "js \<Rightarrow> js \<Rightarrow> bool" where
  "other_block v block \<longleftrightarrow> js_truthy (js_field v ''blockHash'') \<and> \<not> same_js (js_field v ''blockHash'') (js_field block ''hash'')"

definition other_index :: "js \<Rightarrow> nat \<Rightarrow> js_error + bool" where
  "other_index v index =
     (let i = js_field v ''transactionIndex''
      in if js_nullish i then Inr False else res_bind (trace_number i) (\<lambda>n. Inr (n \<noteq> int index)))"

definition fulfilled :: "js_error + js \<Rightarrow> js" where
  "fulfilled r = (case r of Inr v \<Rightarrow> v | Inl e \<Rightarrow> JNull)"

definition entry_transaction :: "chain_reader \<Rightarrow> js \<Rightarrow> js \<Rightarrow> nat \<Rightarrow> js \<Rightarrow> js_error + js \<times> string list" where
  "entry_transaction rd block tx index e =
     (case (js_truthy tx, e) of
        (False, JObj ob) \<Rightarrow> res_bind (nd_toQuantity (cr_node rd) (JNum (int index))) (\<lambda>q.
          Inr (JObj (jmap_set ''transactionIndex'' (JStr q) (jmap_set ''blockNumber'' (js_field block ''number'') (jmap_set ''blockHash'' (js_field block ''hash'') ob))),
            [''block-transaction'']))
      | _ \<Rightarrow> Inr (tx, []))"

definition block_receipt :: "chain_reader \<Rightarrow> string \<Rightarrow> js \<Rightarrow> js \<Rightarrow> js_error + js \<times> string list" where
  "block_receipt rd h block receipt =
     (if js_truthy receipt then Inr (receipt, [])
      else res_bind (block_receipts rd block) (\<lambda>rs. res_bind (find_receipt h rs) (\<lambda>r. Inr (if js_truthy r then (r, [''block-receipt'']) else (JNull, [])))))"

definition inclusion_error :: string where
  "inclusion_error = ''transaction is not included in the canonical block''"

definition agreement_error :: string where
  "agreement_error = ''recovered transaction/receipt disagrees with canonical inclusion''"

definition in_block :: "chain_reader \<Rightarrow> string \<Rightarrow> js \<Rightarrow> js \<Rightarrow> js \<Rightarrow> js_error + js \<times> js \<times> nat \<times> string list" where
  "in_block rd h block tx receipt =
     res_bind (js_array (js_field block ''transactions'')) (\<lambda>txs.
     res_bind (find_entry h txs) (\<lambda>found.
       case found of
         None \<Rightarrow> throw inclusion_error
       | Some index \<Rightarrow>
           if other_block tx block \<or> other_block receipt block then throw inclusion_error
           else res_bind (entry_transaction rd block tx index (txs ! index)) (\<lambda>(tx', r1).
                res_bind (block_receipt rd h block receipt) (\<lambda>(receipt', r2).
                  if other_block receipt' block then throw agreement_error
                  else res_bind (other_index receipt' index) (\<lambda>a.
                       if a then throw agreement_error
                       else res_bind (other_index tx' index) (\<lambda>b. if b then throw agreement_error else Inr (tx', receipt', index, r1 @ r2)))))))"

definition mk_record :: "chain_reader \<Rightarrow> string \<Rightarrow> js \<Rightarrow> js \<Rightarrow> int option \<Rightarrow> js \<Rightarrow> int \<Rightarrow> string list \<Rightarrow> rpc_record" where
  "mk_record rd h tx receipt n bh index r =
     \<lparr>rx_chain = cr_chain rd, rx_hash = js_lower h, rx_transaction = tx, rx_receipt = receipt, rx_blockNumber = n, rx_blockHash = bh,
      rx_transactionIndex = index, rx_recovery = r\<rparr>"

definition recover :: "chain_reader \<Rightarrow> string \<Rightarrow> js \<Rightarrow> js_error + rpc_record option" where
  "recover rd h hint =
     (let tx = fulfilled (send rd ''eth_getTransactionByHash'' [JStr h] False);
          receipt = fulfilled (send rd ''eth_getTransactionReceipt'' [JStr h] False);
          n = js_coalesce hint (js_coalesce (js_field receipt ''blockNumber'') (js_field tx ''blockNumber''))
      in if js_nullish n
         then (if \<not> js_truthy tx \<and> \<not> js_truthy receipt then Inr None
               else res_bind (trace_number (js_coalesce (js_field tx ''transactionIndex'') (js_coalesce (js_field receipt ''transactionIndex'') (JNum 0)))) (\<lambda>i.
                    Inr (Some (mk_record rd h tx receipt None JNull i []))))
         else res_bind (read_block rd n) (\<lambda>block.
              if \<not> js_truthy block then throw ''canonical transaction block unavailable''
              else res_bind (in_block rd h block tx receipt) (\<lambda>(tx', receipt', index, r).
                   if \<not> js_truthy tx' \<and> \<not> js_truthy receipt' then Inr None
                   else res_bind (trace_number (js_field block ''number'')) (\<lambda>bn.
                        Inr (Some (mk_record rd h tx' receipt' (Some bn) (js_coalesce (js_field block ''hash'') JNull) (int index) r))))))"

section \<open>Traces\<close>

text \<open>The index of the block is used only when the tracer gave the whole block and named no transaction. The
  reasons of a missing trace are not modelled: it is \<^const>\<open>None\<close>.\<close>

definition item_hash :: "trace_item \<Rightarrow> js" where
  "item_hash x = (if js_truthy (ti_txHash x) then ti_txHash x else ti_transactionHash x)"

definition pick_item :: "rpc_record \<Rightarrow> js list \<Rightarrow> trace_item list \<Rightarrow> trace_item option" where
  "pick_item r txs items =
     (case find (\<lambda>x. same_js (item_hash x) (JStr (rx_hash r))) items of
        Some x \<Rightarrow> Some x
      | None \<Rightarrow>
          if length items = length txs \<and> list_all (\<lambda>x. \<not> js_truthy (ti_txHash x) \<and> \<not> js_truthy (ti_transactionHash x)) items
             \<and> nat (rx_transactionIndex r) < length items
          then Some (items ! nat (rx_transactionIndex r)) else None)"

definition block_trace :: "chain_reader \<Rightarrow> rpc_record \<Rightarrow> string \<Rightarrow> js_error + raw_call option" where
  "block_trace rd r m =
     res_bind (if m = ''debug_traceBlockByHash'' then Inr (rx_blockHash r)
               else res_bind (nd_toQuantity (cr_node rd) (case rx_blockNumber r of None \<Rightarrow> JNull | Some n \<Rightarrow> JNum n)) (\<lambda>q. Inr (JStr q))) (\<lambda>k.
     res_bind (nd_traceBlock (cr_node rd) (cr_traceUrl rd) m k) (\<lambda>items.
     res_bind (read_block rd (case rx_blockNumber r of None \<Rightarrow> JNull | Some n \<Rightarrow> JNum n)) (\<lambda>block.
       case items of
         None \<Rightarrow> Inr None
       | Some xs \<Rightarrow> res_bind (js_get block ''transactions'') (\<lambda>v. res_bind (js_array v) (\<lambda>txs.
           Inr (case pick_item r txs xs of None \<Rightarrow> None | Some x \<Rightarrow> if ti_error x then None else ti_call x))))))"

definition first_call :: "(js_error + raw_call option) list \<Rightarrow> raw_call option" where
  "first_call rs = (case filter (\<lambda>r. case r of Inr (Some c) \<Rightarrow> True | _ \<Rightarrow> False) rs of Inr c # _ \<Rightarrow> c | _ \<Rightarrow> None)"

definition trace_of :: "chain_reader \<Rightarrow> rpc_record \<Rightarrow> raw_call option" where
  "trace_of rd r =
     (case nd_traceTransaction (cr_node rd) (cr_traceUrl rd) (rx_hash r) of
        Inr (Some c) \<Rightarrow> Some c
      | _ \<Rightarrow>
          if \<not> js_truthy (rx_blockHash r) then None
          else first_call (map (block_trace rd r) [''debug_traceBlockByHash'', ''debug_traceBlockByNumber'']))"

section \<open>The block nearest to a time\<close>

definition timestamp :: "chain_reader \<Rightarrow> int \<Rightarrow> js_error + int" where
  "timestamp rd n = res_bind (read_block rd (JNum n)) (\<lambda>b. res_bind (js_get b ''timestamp'') trace_number)"

function nearest_search :: "chain_reader \<Rightarrow> int \<Rightarrow> int \<Rightarrow> int \<Rightarrow> js_error + int" where
  "nearest_search rd t lo hi =
     (if lo < hi
      then let mid = (lo + hi) div 2
           in res_bind (read_block rd (JNum mid)) (\<lambda>b.
              if \<not> js_truthy b then throw ''block unavailable during timestamp search''
              else res_bind (trace_number (js_field b ''timestamp'')) (\<lambda>ts.
                   if ts < t then nearest_search rd t (mid + 1) hi else nearest_search rd t lo mid))
      else Inr lo)"
  by pat_completeness auto
termination
  by (relation "measure (\<lambda>(rd, t, lo, hi). nat (hi - lo))") auto

declare nearest_search.simps [simp del]

definition nearest :: "chain_reader \<Rightarrow> int \<Rightarrow> js_error + int \<times> int" where
  "nearest rd t =
     res_bind (read_block rd (JStr ''latest'')) (\<lambda>head.
       if \<not> js_truthy head then throw ''latest block unavailable''
       else res_bind (trace_number (js_field head ''number'')) (\<lambda>hi.
            res_bind (nearest_search rd t 0 hi) (\<lambda>lo.
              if lo > 0
              then res_bind (timestamp rd (lo - 1)) (\<lambda>a. res_bind (timestamp rd lo) (\<lambda>b.
                     Inr (if \<bar>a - t\<bar> \<le> \<bar>b - t\<bar> then lo - 1 else lo, hi)))
              else Inr (lo, hi))))"

section \<open>Settlements\<close>

record settlement_request =
  sq_L1 :: "int option"
  sq_L2 :: "int option"
  sq_blockHash :: "string option"

type_synonym block_checks = "(int, js) jmap" \<comment> \<open>\<open>checks\<close>\<close>

definition inconsistent :: "block_checks \<Rightarrow> int \<Rightarrow> js \<Rightarrow> bool" where
  "inconsistent checks n h = (case jmap_get checks n of None \<Rightarrow> False | Some k \<Rightarrow> \<not> same_js k h)"

text \<open>One block of the list, which must lie in the range.\<close>

definition add_check :: "int \<Rightarrow> int \<Rightarrow> string \<Rightarrow> js \<Rightarrow> block_checks \<Rightarrow> js_error + block_checks" where
  "add_check first final msg b checks =
     res_bind (js_get b ''number'') (\<lambda>v. res_bind (trace_number v) (\<lambda>n.
       if n < first \<or> n > final \<or> inconsistent checks n (js_field b ''hash'') then throw msg
       else Inr (jmap_set n (js_field b ''hash'') checks)))"

fun add_checks :: "int \<Rightarrow> int \<Rightarrow> js list \<Rightarrow> block_checks \<Rightarrow> js_error + block_checks" where
  "add_checks first final [] checks = Inr checks"
| "add_checks first final (b # bs) checks =
     res_bind (add_check first final ''Inconsistent settlement L2 block list'' b checks) (add_checks first final bs)"

fun run_checks :: "chain_reader \<Rightarrow> block_checks \<Rightarrow> js_error + unit" where
  "run_checks rd [] = Inr ()"
| "run_checks rd ((n, h) # cs) = res_bind (read_block rd (JNum n)) (\<lambda>b.
     if \<not> js_truthy b \<or> \<not> same_js (js_field b ''hash'') h then throw ''Noncanonical L2 block hash'' else run_checks rd cs)"

definition asked_hash :: "settlement_request \<Rightarrow> js \<Rightarrow> js_error + bool" where
  "asked_hash q raw =
     (case sq_blockHash q of
        None \<Rightarrow> Inr True
      | Some h \<Rightarrow>
          if h = [] then Inr True
          else if sq_L1 q \<noteq> None then Inr (same_js (js_field raw ''l1BlockHash'') (JStr h))
          else if \<not> same_js (js_field (js_field raw ''matchedL2Block'') ''hash'') (JStr h) then Inr False
          else res_bind (trace_number (js_field (js_field raw ''matchedL2Block'') ''number'')) (\<lambda>n. Inr (sq_L2 q = Some n)))"

definition is_object :: "js \<Rightarrow> bool" where
  "is_object v = (case v of JObj ob \<Rightarrow> True | JArr xs \<Rightarrow> True | _ \<Rightarrow> False)"

definition add_matched :: "settlement_request \<Rightarrow> int \<Rightarrow> int \<Rightarrow> js \<Rightarrow> block_checks \<Rightarrow> js_error + block_checks" where
  "add_matched q first final b checks =
     (if \<not> is_object b then Inr checks
      else res_bind (trace_number (js_field b ''number'')) (\<lambda>n.
           if sq_L2 q \<noteq> None \<and> sq_L2 q \<noteq> Some n then throw ''Settlement matched a different L2 block''
           else add_check first final ''Inconsistent matched L2 block'' b checks))"

definition l1_inclusion :: "chain_reader \<Rightarrow> js \<Rightarrow> int \<Rightarrow> js_error + unit" where
  "l1_inclusion rd raw n =
     res_bind (read_block rd (JNum n)) (\<lambda>l1.
       if \<not> js_truthy l1 \<or> \<not> same_js (js_field l1 ''hash'') (js_field raw ''l1BlockHash'') then throw ''Noncanonical L1 settlement block hash''
       else res_bind (trace_number (js_field raw ''l1TransactionIndex'')) (\<lambda>index.
            res_bind (js_array (js_field l1 ''transactions'')) (\<lambda>txs.
              let tx = (if nat index < length txs then txs ! nat index else JUndefined)
              in if same_js (case tx of JStr s \<Rightarrow> tx | _ \<Rightarrow> js_field tx ''hash'') (js_field raw ''l1TransactionHash'') then Inr ()
                 else throw ''Settlement transaction inclusion/index mismatch'')))"

definition l2_list :: "js \<Rightarrow> js_error + js list" where
  "l2_list raw = (let v = js_field raw ''l2Blocks'' in if js_truthy v then js_array v else Inr [])"

definition range_checks :: "chain_reader \<Rightarrow> settlement_request \<Rightarrow> js \<Rightarrow> int \<Rightarrow> int \<Rightarrow> js_error + unit" where
  "range_checks rd q raw first final =
     (let range = js_field raw ''l2Range''; fh = js_field range ''firstBlockHash''; lh = js_field range ''lastBlockHash''
      in if \<not> js_truthy fh \<or> \<not> js_truthy lh then throw ''Settlement is missing range boundary hashes''
         else if first = final \<and> \<not> same_js fh lh then throw ''Inconsistent single-block settlement boundary hashes''
         else res_bind (l2_list raw) (\<lambda>bs.
              res_bind (add_checks first final bs (jmap_set final lh (jmap_set first fh []))) (\<lambda>c1.
              res_bind (add_matched q first final (js_field raw ''matchedL2Block'') c1) (run_checks rd))))"

definition bad_count :: "js \<Rightarrow> int \<Rightarrow> int \<Rightarrow> js_error + bool" where
  "bad_count raw first final =
     (let v = js_field (js_field raw ''l2Range'') ''blockCount''
      in if js_nullish v then Inr False else res_bind (trace_number v) (\<lambda>n. Inr (n \<noteq> final - first + 1)))"

definition validateSettlement :: "js \<Rightarrow> (chain \<Rightarrow> chain_reader) \<Rightarrow> settlement_request \<Rightarrow> js_error + trace_settlement" where
  "validateSettlement raw readers q =
     (if \<not> js_truthy raw \<or> js_field raw ''canonicalL2'' \<noteq> JBool True then throw ''Settlement does not attest canonical L2 blocks''
      else res_bind (trace_number (js_field raw ''l1BlockNumber'')) (\<lambda>l1Number.
           res_bind (trace_number (js_field (js_field raw ''l2Range'') ''firstBlockNumber'')) (\<lambda>first.
           res_bind (trace_number (js_field (js_field raw ''l2Range'') ''lastBlockNumber'')) (\<lambda>final.
             if first > final then throw ''Invalid settlement L2 range''
             else res_bind (bad_count raw first final) (\<lambda>bad.
                  if bad then throw ''Invalid settlement L2 range''
                  else if sq_L1 q \<noteq> None \<and> sq_L1 q \<noteq> Some l1Number then throw ''Settlement returned for a different L1 block''
                  else if (case sq_L2 q of None \<Rightarrow> False | Some n \<Rightarrow> n < first \<or> n > final) then throw ''Settlement excludes requested L2 block''
                  else res_bind (asked_hash q raw) (\<lambda>asked.
                       if \<not> asked then throw ''Settlement does not match the requested block hash''
                       else res_bind (l1_inclusion (readers L1) raw l1Number) (\<lambda>_.
                            res_bind (range_checks (readers L2) q raw first final) (\<lambda>_.
                              let h = js_string (lower_js (js_field raw ''l1TransactionHash''))
                              in Inr \<lparr>tz_id = h @ '':'' @ show_int first @ ''-'' @ show_int final, tz_first = first, tz_last = final, tz_l1Transaction = h\<rparr>))))))))"

end
