(* ===== verification/Trace_Rpc_Properties.thy ===== *)
theory Trace_Rpc_Properties
  imports Trace_Rpc
begin

text \<open>
  What the reads of the trace decoder guarantee: a recovered transaction is the entry of its canonical block,
  the search by time finds a closest block, and a validated settlement names canonical blocks only.
\<close>

section \<open>The nearest block\<close>

text \<open>A chain whose blocks can be read and whose timestamps do not decrease.\<close>

definition timed_chain :: "chain_reader \<Rightarrow> int \<Rightarrow> (int \<Rightarrow> int) \<Rightarrow> bool" where
  "timed_chain rd tip ts \<longleftrightarrow> 0 \<le> tip
     \<and> (\<exists>b. read_block rd (JStr ''latest'') = Inr b \<and> js_truthy b \<and> trace_number (js_field b ''number'') = Inr tip)
     \<and> (\<forall>n \<in> {0 .. tip}. \<exists>b. read_block rd (JNum n) = Inr b \<and> js_truthy b \<and> trace_number (js_field b ''timestamp'') = Inr (ts n))
     \<and> (\<forall>m \<in> {0 .. tip}. \<forall>n \<in> {0 .. tip}. m \<le> n \<longrightarrow> ts m \<le> ts n)"

lemma timed_block:
  "timed_chain rd tip ts \<Longrightarrow> 0 \<le> n \<Longrightarrow> n \<le> tip \<Longrightarrow> \<exists>b. read_block rd (JNum n) = Inr b \<and> js_truthy b \<and> trace_number (js_field b ''timestamp'') = Inr (ts n)"
  by (simp add: timed_chain_def)

lemma timed_mono: "timed_chain rd tip ts \<Longrightarrow> 0 \<le> m \<Longrightarrow> m \<le> n \<Longrightarrow> n \<le> tip \<Longrightarrow> ts m \<le> ts n"
  by (simp add: timed_chain_def)

lemma truthy_not_nullish: "js_truthy v \<Longrightarrow> \<not> js_nullish v"
  by (cases v) auto

lemma timestamp_timed: "timed_chain rd tip ts \<Longrightarrow> 0 \<le> n \<Longrightarrow> n \<le> tip \<Longrightarrow> timestamp rd n = Inr (ts n)"
  using timed_block [of rd tip ts n] truthy_not_nullish by (auto simp: timestamp_def js_get_def)

text \<open>The binary search ends at the first block that is not earlier, or at the head.\<close>

lemma nearest_search_first:
  assumes "timed_chain rd tip ts" and "0 \<le> lo" "lo \<le> hi" "hi \<le> tip"
    and "\<forall>n \<in> {0 ..< lo}. ts n < t" and "hi = tip \<or> t \<le> ts hi"
  shows "\<exists>k. nearest_search rd t lo hi = Inr k \<and> lo \<le> k \<and> k \<le> hi \<and> (\<forall>n \<in> {0 ..< k}. ts n < t) \<and> (k = tip \<or> t \<le> ts k)"
  using assms
proof (induction rd t lo hi rule: nearest_search.induct)
  case (1 rd t lo hi)
  show ?case
  proof (cases "lo < hi")
    case True
    let ?mid = "(lo + hi) div 2"
    from True have mid: "lo \<le> ?mid" "?mid < hi" by auto
    with "1.prems" obtain b where b: "read_block rd (JNum ?mid) = Inr b" "js_truthy b" "trace_number (js_field b ''timestamp'') = Inr (ts ?mid)"
      using timed_block [of rd tip ts ?mid] by auto
    show ?thesis
    proof (cases "ts ?mid < t")
      case True
      have "ts n < t" if "n \<in> {0 ..< ?mid + 1}" for n
        using timed_mono [OF "1.prems"(1), of n ?mid] that mid "1.prems" True by auto
      with "1.IH"(1) [OF \<open>lo < hi\<close> refl _ True, of b] b mid "1.prems"
      have "\<exists>k. nearest_search rd t (?mid + 1) hi = Inr k \<and> ?mid + 1 \<le> k \<and> k \<le> hi \<and> (\<forall>n \<in> {0 ..< k}. ts n < t) \<and> (k = tip \<or> t \<le> ts k)"
        by auto
      then show ?thesis using b mid True \<open>lo < hi\<close> by (subst nearest_search.simps) (auto simp: Let_def)
    next
      case False
      with "1.IH"(2) [OF \<open>lo < hi\<close> refl _ False, of b] b mid "1.prems"
      have "\<exists>k. nearest_search rd t lo ?mid = Inr k \<and> lo \<le> k \<and> k \<le> ?mid \<and> (\<forall>n \<in> {0 ..< k}. ts n < t) \<and> (k = tip \<or> t \<le> ts k)"
        by auto
      then show ?thesis using b mid False \<open>lo < hi\<close> by (subst nearest_search.simps) (auto simp: Let_def)
    qed
  next
    case False
    with "1.prems" show ?thesis by (subst nearest_search.simps) auto
  qed
qed

text \<open>The search for the block at a time finds a closest one. On a chain whose blocks can all be read and
  whose timestamps do not decrease it always returns, within the chain, a block than which no block of the
  chain is closer to the time asked for, together with the head.\<close>
theorem nearest_closest:
  assumes "timed_chain rd tip ts"
  shows "\<exists>k. nearest rd t = Inr (k, tip) \<and> 0 \<le> k \<and> k \<le> tip \<and> (\<forall>n \<in> {0 .. tip}. \<bar>ts k - t\<bar> \<le> \<bar>ts n - t\<bar>)"
proof -
  have tip: "0 \<le> tip" using assms by (simp add: timed_chain_def)
  obtain h where h: "read_block rd (JStr ''latest'') = Inr h" "js_truthy h" "trace_number (js_field h ''number'') = Inr tip"
    using assms by (auto simp: timed_chain_def)
  obtain k where k: "nearest_search rd t 0 tip = Inr k" "0 \<le> k" "k \<le> tip" "\<forall>n \<in> {0 ..< k}. ts n < t" "k = tip \<or> t \<le> ts k"
    using nearest_search_first [OF assms, of 0 tip t] tip by auto
  define r where "r = (if k > 0 \<and> \<bar>ts (k - 1) - t\<bar> \<le> \<bar>ts k - t\<bar> then k - 1 else k)"
  have "nearest rd t = Inr (r, tip)"
    using h k timestamp_timed [OF assms] by (auto simp: nearest_def r_def)
  moreover have "\<bar>ts r - t\<bar> \<le> \<bar>ts n - t\<bar>" if n: "n \<in> {0 .. tip}" for n
  proof (cases "n < k")
    case True
    with k n have "ts n \<le> ts (k - 1)" "ts (k - 1) < t" using timed_mono [OF assms, of n "k - 1"] by auto
    then have "\<bar>ts (k - 1) - t\<bar> \<le> \<bar>ts n - t\<bar>" by linarith
    then show ?thesis using True n by (auto simp: r_def)
  next
    case False
    have "\<bar>ts k - t\<bar> \<le> \<bar>ts n - t\<bar>"
    proof (cases "n = k")
      case False
      with \<open>\<not> n < k\<close> n have "t \<le> ts k" "ts k \<le> ts n" using k(5) timed_mono [OF assms, of k n] k(2) by auto
      then show ?thesis by linarith
    qed simp
    then show ?thesis by (auto simp: r_def)
  qed
  moreover have "0 \<le> r" "r \<le> tip" using k by (auto simp: r_def)
  ultimately show ?thesis by blast
qed

definition sample_node :: trace_node where
  "sample_node = \<lparr>nd_rpc = (\<lambda>url m ps. case ps of
       JStr k # _ \<Rightarrow> Inr (if k = ''latest'' \<or> k = ''0x2'' then JObj [(''number'', JNum 2), (''timestamp'', JNum 90)]
         else if k = ''0x1'' then JObj [(''number'', JNum 1), (''timestamp'', JNum 50)]
         else if k = ''0x0'' then JObj [(''number'', JNum 0), (''timestamp'', JNum 20)] else JNull)
     | _ \<Rightarrow> Inr JNull),
     nd_traceTransaction = (\<lambda>u h. Inr None), nd_traceBlock = (\<lambda>u m k. Inr None),
     nd_toQuantity = (\<lambda>v. case v of JNum n \<Rightarrow> Inr (hex_of n) | _ \<Rightarrow> Inl TypeError)\<rparr>"

definition sample_reader :: chain_reader where
  "sample_reader = \<lparr>cr_chain = L2, cr_url = ''u'', cr_traceUrl = ''u'', cr_node = sample_node\<rparr>"

lemma sample_timed: "timed_chain sample_reader 2 (\<lambda>n. if n = 0 then 20 else if n = 1 then 50 else 90)"
proof -
  have b: "read_block sample_reader (JNum 0) = Inr (JObj [(''number'', JNum 0), (''timestamp'', JNum 20)])"
    "read_block sample_reader (JNum 1) = Inr (JObj [(''number'', JNum 1), (''timestamp'', JNum 50)])"
    "read_block sample_reader (JNum 2) = Inr (JObj [(''number'', JNum 2), (''timestamp'', JNum 90)])"
    "read_block sample_reader (JStr ''latest'') = Inr (JObj [(''number'', JNum 2), (''timestamp'', JNum 90)])"
    by code_simp+
  have n: "trace_number (js_field (JObj [(''number'', JNum 0), (''timestamp'', JNum 20)]) ''timestamp'') = Inr 20"
    "trace_number (js_field (JObj [(''number'', JNum 1), (''timestamp'', JNum 50)]) ''timestamp'') = Inr 50"
    "trace_number (js_field (JObj [(''number'', JNum 2), (''timestamp'', JNum 90)]) ''timestamp'') = Inr 90"
    "trace_number (js_field (JObj [(''number'', JNum 2), (''timestamp'', JNum 90)]) ''number'') = Inr 2"
    by code_simp+
  have "{0 .. 2 :: int} = {0, 1, 2}" by auto
  then show ?thesis by (simp add: timed_chain_def b n)
qed

theorem nearest_closest_witness: "\<exists>k. nearest sample_reader 60 = Inr (k, 2) \<and> 0 \<le> k \<and> k \<le> 2"
  using nearest_closest [OF sample_timed, of 60] by blast

section \<open>Recovery\<close>

lemma find_entry_Some: "find_entry h txs = Inr (Some i) \<Longrightarrow> i < length txs \<and> (\<exists>k. entry_hash (txs ! i) = Inr k \<and> same_js k (JStr h))"
proof (induction txs arbitrary: i)
  case (Cons tx txs)
  then obtain k where k: "entry_hash tx = Inr k"
      "(if same_js k (JStr h) then Inr (Some 0) else res_bind (find_entry h txs) (\<lambda>r. Inr (map_option Suc r))) = Inr (Some i)"
    by (auto simp: res_bind_Inr_iff)
  then show ?case using Cons.IH by (auto simp: res_bind_Inr_iff split: if_splits)
qed simp

lemma in_block_facts:
  assumes "in_block rd h block tx receipt = Inr (tx', receipt', i, r)"
  shows "\<exists>txs k. js_field block ''transactions'' = JArr txs \<and> i < length txs \<and> entry_hash (txs ! i) = Inr k \<and> same_js k (JStr h)
    \<and> \<not> other_block receipt' block \<and> \<not> other_block tx block \<and> other_index receipt' i = Inr False \<and> other_index tx' i = Inr False"
proof -
  from assms obtain txs where txs: "js_array (js_field block ''transactions'') = Inr txs" and
    f: "find_entry h txs = Inr (Some i)" and o: "\<not> other_block tx block" "\<not> other_block receipt' block"
    and i: "other_index receipt' i = Inr False" "other_index tx' i = Inr False"
    unfolding in_block_def by (auto simp: res_bind_Inr_iff split: option.splits if_splits prod.splits)
  from txs have "js_field block ''transactions'' = JArr txs" by (cases "js_field block ''transactions''") (auto simp: js_array_def)
  with find_entry_Some [OF f] o i show ?thesis by blast
qed

text \<open>The block that the recovery read, and the entry of it that the record is.\<close>

definition entry_of :: "chain_reader \<Rightarrow> string \<Rightarrow> rpc_record \<Rightarrow> int \<Rightarrow> bool" where
  "entry_of rd h rec n \<longleftrightarrow> (\<exists>b block txs k. read_block rd b = Inr block \<and> trace_number (js_field block ''number'') = Inr n
    \<and> rx_blockHash rec = js_coalesce (js_field block ''hash'') JNull
    \<and> js_field block ''transactions'' = JArr txs \<and> nat (rx_transactionIndex rec) < length txs
    \<and> entry_hash (txs ! nat (rx_transactionIndex rec)) = Inr k \<and> same_js k (JStr h)
    \<and> \<not> other_block (rx_receipt rec) block
    \<and> other_index (rx_receipt rec) (nat (rx_transactionIndex rec)) = Inr False
    \<and> other_index (rx_transaction rec) (nat (rx_transactionIndex rec)) = Inr False)"

lemma recovered_entry:
  assumes "recover rd h hint = Inr (Some rec)" and "rx_blockNumber rec = Some n"
  shows "entry_of rd h rec n"
proof -
  define tx where "tx = fulfilled (send rd ''eth_getTransactionByHash'' [JStr h] False)"
  define receipt where "receipt = fulfilled (send rd ''eth_getTransactionReceipt'' [JStr h] False)"
  define b where "b = js_coalesce hint (js_coalesce (js_field receipt ''blockNumber'') (js_field tx ''blockNumber''))"
  note d = assms(1) [unfolded recover_def Let_def, folded tx_def receipt_def, folded b_def]
  have "\<not> js_nullish b" using d assms(2) by (auto simp: res_bind_Inr_iff mk_record_def split: if_splits)
  with d obtain block tx' receipt' i r bn where
    block: "read_block rd b = Inr block" and ib: "in_block rd h block tx receipt = Inr (tx', receipt', i, r)"
    and bn: "trace_number (js_field block ''number'') = Inr bn"
    and rec: "rec = mk_record rd h tx' receipt' (Some bn) (js_coalesce (js_field block ''hash'') JNull) (int i) r"
    by (auto simp: res_bind_Inr_iff split: if_splits prod.splits)
  from in_block_facts [OF ib] block bn assms(2) show ?thesis by (simp add: rec mk_record_def entry_of_def) blast
qed

text \<open>C16. A transaction that is recovered with a block is the entry of that block. The block was read as the
  canonical one; its entry at the recorded index has the hash asked for; the recorded number and hash are
  those of the block; and the transaction index of the receipt and of the transaction, where they name one,
  is the index of that entry, and the block hash of the receipt is that of the block.\<close>
theorem recovered_canonical:
  assumes "recover rd h hint = Inr (Some rec)" and "rx_blockNumber rec = Some n"
  shows "\<exists>b block txs k. read_block rd b = Inr block \<and> trace_number (js_field block ''number'') = Inr n
    \<and> rx_blockHash rec = js_coalesce (js_field block ''hash'') JNull
    \<and> js_field block ''transactions'' = JArr txs \<and> nat (rx_transactionIndex rec) < length txs
    \<and> entry_hash (txs ! nat (rx_transactionIndex rec)) = Inr k \<and> same_js k (JStr h)
    \<and> \<not> other_block (rx_receipt rec) block
    \<and> other_index (rx_receipt rec) (nat (rx_transactionIndex rec)) = Inr False
    \<and> other_index (rx_transaction rec) (nat (rx_transactionIndex rec)) = Inr False"
  using recovered_entry [OF assms] by (simp add: entry_of_def)

definition including_node :: trace_node where
  "including_node = sample_node\<lparr>nd_rpc := (\<lambda>url m ps.
     Inr (if m = ''eth_getTransactionReceipt'' then JObj [(''blockNumber'', JStr ''0x7''), (''transactionIndex'', JNum 1), (''blockHash'', JStr ''0xB'')]
       else if m = ''eth_getBlockByNumber'' then JObj [(''number'', JStr ''0x7''), (''hash'', JStr ''0xb''), (''transactions'', JArr [JStr ''0xaa'', JObj [(''hash'', JStr ''0xCC'')]])]
       else JNull)), nd_toQuantity := (\<lambda>v. case v of JNum n \<Rightarrow> Inr (hex_of n) | JStr s \<Rightarrow> Inr s | _ \<Rightarrow> Inl TypeError)\<rparr>"

definition including_reader :: chain_reader where
  "including_reader = sample_reader\<lparr>cr_node := including_node\<rparr>"

lemma including_recovers:
  "recover including_reader ''0xcc'' JNull = Inr (Some (mk_record including_reader ''0xcc''
     (JObj [(''hash'', JStr ''0xCC''), (''blockHash'', JStr ''0xb''), (''blockNumber'', JStr ''0x7''), (''transactionIndex'', JStr ''0x1'')])
     (JObj [(''blockNumber'', JStr ''0x7''), (''transactionIndex'', JNum 1), (''blockHash'', JStr ''0xB'')]) (Some 7) (JStr ''0xb'') 1 [''block-transaction'']))"
  by code_simp

theorem recovered_canonical_witness:
  "\<exists>b block. read_block including_reader b = Inr block \<and> trace_number (js_field block ''number'') = Inr 7"
  using recovered_canonical [OF including_recovers, of 7] by (simp add: mk_record_def) blast

section \<open>Settlements\<close>

lemma js_strict_eq_iff: "js_strict_eq a b \<longleftrightarrow> a = b \<and> (\<forall>xs. a \<noteq> JArr xs) \<and> (\<forall>xs. a \<noteq> JObj xs)"
  by (cases a; cases b) auto

lemma same_js_sym: "same_js a b \<Longrightarrow> same_js b a"
  by (auto simp: same_js_def js_strict_eq_iff)

lemma same_js_trans: "same_js a b \<Longrightarrow> same_js b c \<Longrightarrow> same_js a c"
  by (auto simp: same_js_def js_strict_eq_iff)

text \<open>A hash that was claimed for a block is kept by the checks up to \<open>same\<close>.\<close>

definition covers :: "block_checks \<Rightarrow> int \<Rightarrow> js \<Rightarrow> bool" where
  "covers checks n h \<longleftrightarrow> (\<exists>k. jmap_get checks n = Some k \<and> (k = h \<or> same_js h k))"

definition canonical_at :: "chain_reader \<Rightarrow> int \<Rightarrow> js \<Rightarrow> bool" where
  "canonical_at rd n h \<longleftrightarrow> (\<exists>b. read_block rd (JNum n) = Inr b \<and> js_truthy b \<and> same_js (js_field b ''hash'') h)"

lemma add_check_facts:
  assumes "add_check first final msg b checks = Inr checks'"
  shows "\<exists>n. trace_number (js_field b ''number'') = Inr n \<and> first \<le> n \<and> n \<le> final \<and> covers checks' n (js_field b ''hash'')
    \<and> (\<forall>m h. covers checks m h \<longrightarrow> covers checks' m h)"
proof -
  from assms obtain n where n: "trace_number (js_field b ''number'') = Inr n" "first \<le> n" "n \<le> final" "\<not> inconsistent checks n (js_field b ''hash'')"
    and c: "checks' = jmap_set n (js_field b ''hash'') checks"
    unfolding add_check_def js_get_def by (auto simp: res_bind_Inr_iff split: if_splits)
  have "covers checks' m h" if "covers checks m h" for m h
  proof (cases "m = n")
    case True
    from that True obtain k where k: "jmap_get checks n = Some k" "k = h \<or> same_js h k" by (auto simp: covers_def)
    with n(4) have "same_js k (js_field b ''hash'')" by (simp add: inconsistent_def)
    with k True same_js_trans show ?thesis by (auto simp: c covers_def)
  next
    case False
    with that show ?thesis by (simp add: c covers_def)
  qed
  with n show ?thesis by (auto simp: c covers_def)
qed

lemma add_checks_facts:
  "add_checks first final bs checks = Inr checks' \<Longrightarrow>
     (\<forall>m h. covers checks m h \<longrightarrow> covers checks' m h)
     \<and> (\<forall>b \<in> set bs. \<exists>n. trace_number (js_field b ''number'') = Inr n \<and> first \<le> n \<and> n \<le> final \<and> covers checks' n (js_field b ''hash''))"
proof (induction bs arbitrary: checks)
  case (Cons b bs)
  then obtain c where c: "add_check first final ''Inconsistent settlement L2 block list'' b checks = Inr c" "add_checks first final bs c = Inr checks'"
    by (auto simp: res_bind_Inr_iff)
  from add_check_facts [OF c(1)] Cons.IH [OF c(2)] show ?case by (metis set_ConsD)
qed simp

lemma run_checks_all: "run_checks rd checks = Inr () \<Longrightarrow> (n, h) \<in> set checks \<Longrightarrow> canonical_at rd n h"
  by (induction rd checks rule: run_checks.induct) (auto simp: res_bind_Inr_iff canonical_at_def split: if_splits)

lemma covers_canonical:
  assumes "run_checks rd checks = Inr ()" and "covers checks n h"
  shows "canonical_at rd n h"
proof -
  from assms(2) obtain k where k: "jmap_get checks n = Some k" "k = h \<or> same_js h k" by (auto simp: covers_def)
  from run_checks_all [OF assms(1) jmap_get_Some_key [OF k(1)]] k(2) show ?thesis
    unfolding canonical_at_def using same_js_trans same_js_sym by blast
qed

lemma add_matched_facts:
  assumes "add_matched q first final b checks = Inr checks'"
  shows "\<forall>m h. covers checks m h \<longrightarrow> covers checks' m h"
proof (cases "is_object b")
  case True
  with assms obtain msg where "add_check first final msg b checks = Inr checks'"
    unfolding add_matched_def by (auto simp: res_bind_Inr_iff split: if_splits)
  from add_check_facts [OF this] show ?thesis by blast
qed (use assms in \<open>simp add: add_matched_def\<close>)

lemma range_checks_facts:
  assumes "range_checks rd q raw first final = Inr ()"
  shows "canonical_at rd first (js_field (js_field raw ''l2Range'') ''firstBlockHash'') \<and> canonical_at rd final (js_field (js_field raw ''l2Range'') ''lastBlockHash'')
    \<and> (\<exists>bs. l2_list raw = Inr bs \<and> (\<forall>b \<in> set bs. \<exists>n. trace_number (js_field b ''number'') = Inr n \<and> first \<le> n \<and> n \<le> final \<and> canonical_at rd n (js_field b ''hash'')))"
proof -
  let ?fh = "js_field (js_field raw ''l2Range'') ''firstBlockHash''" and ?lh = "js_field (js_field raw ''l2Range'') ''lastBlockHash''"
  from assms obtain bs c1 c2 where one: "\<not> (first = final \<and> \<not> same_js ?fh ?lh)" and bs: "l2_list raw = Inr bs"
    and c1: "add_checks first final bs (jmap_set final ?lh (jmap_set first ?fh [])) = Inr c1"
    and c2: "add_matched q first final (js_field raw ''matchedL2Block'') c1 = Inr c2" and run: "run_checks rd c2 = Inr ()"
    unfolding range_checks_def Let_def by (auto simp: res_bind_Inr_iff split: if_splits)
  have keep: "canonical_at rd n h" if "covers c1 n h" for n h
    using covers_canonical [OF run] add_matched_facts [OF c2] that by blast
  have start: "covers (jmap_set final ?lh (jmap_set first ?fh [])) first ?fh" "covers (jmap_set final ?lh (jmap_set first ?fh [])) final ?lh"
    using one by (auto simp: covers_def)
  note c1_facts = add_checks_facts [OF c1]
  have "canonical_at rd first ?fh" "canonical_at rd final ?lh" using start c1_facts by (auto intro!: keep)
  moreover have "\<forall>b \<in> set bs. \<exists>n. trace_number (js_field b ''number'') = Inr n \<and> first \<le> n \<and> n \<le> final \<and> canonical_at rd n (js_field b ''hash'')"
    using c1_facts keep by meson
  ultimately show ?thesis using bs by blast
qed

text \<open>C15. A validated settlement names canonical blocks only. The L2 range is not empty and holds the block
  that was asked for; the hashes that the settlement gives for the two ends of its range and for every
  block of its list are those of the canonical L2 blocks with these numbers; and its transaction is the entry
  of the canonical L1 block at the stated index.\<close>
theorem settlement_canonical:
  assumes "validateSettlement raw readers q = Inr s"
  shows "tz_first s \<le> tz_last s
    \<and> (case sq_L2 q of None \<Rightarrow> True | Some n \<Rightarrow> tz_first s \<le> n \<and> n \<le> tz_last s)
    \<and> canonical_at (readers L2) (tz_first s) (js_field (js_field raw ''l2Range'') ''firstBlockHash'')
    \<and> canonical_at (readers L2) (tz_last s) (js_field (js_field raw ''l2Range'') ''lastBlockHash'')
    \<and> (\<exists>bs. l2_list raw = Inr bs \<and> (\<forall>b \<in> set bs. \<exists>n. trace_number (js_field b ''number'') = Inr n
          \<and> tz_first s \<le> n \<and> n \<le> tz_last s \<and> canonical_at (readers L2) n (js_field b ''hash'')))
    \<and> (\<exists>n i l1 txs. trace_number (js_field raw ''l1BlockNumber'') = Inr n \<and> sq_L1 q \<in> {None, Some n}
          \<and> read_block (readers L1) (JNum n) = Inr l1 \<and> same_js (js_field l1 ''hash'') (js_field raw ''l1BlockHash'')
          \<and> trace_number (js_field raw ''l1TransactionIndex'') = Inr i \<and> js_field l1 ''transactions'' = JArr txs \<and> nat i < length txs
          \<and> same_js (case txs ! nat i of JStr h \<Rightarrow> JStr h | tx \<Rightarrow> js_field tx ''hash'') (js_field raw ''l1TransactionHash'')
          \<and> tz_l1Transaction s = js_string (lower_js (js_field raw ''l1TransactionHash'')))"
proof -
  from assms obtain n first final where n: "trace_number (js_field raw ''l1BlockNumber'') = Inr n" and le: "first \<le> final"
    and q1: "sq_L1 q \<in> {None, Some n}" and q2: "case sq_L2 q of None \<Rightarrow> True | Some m \<Rightarrow> first \<le> m \<and> m \<le> final"
    and l1: "l1_inclusion (readers L1) raw n = Inr ()" and rc: "range_checks (readers L2) q raw first final = Inr ()"
    and s: "tz_first s = first" "tz_last s = final" "tz_l1Transaction s = js_string (lower_js (js_field raw ''l1TransactionHash''))"
    unfolding validateSettlement_def by (auto simp: res_bind_Inr_iff Let_def split: if_splits option.splits)
  from l1 obtain b i txs where b: "read_block (readers L1) (JNum n) = Inr b" "same_js (js_field b ''hash'') (js_field raw ''l1BlockHash'')"
    and i: "trace_number (js_field raw ''l1TransactionIndex'') = Inr i" and txs: "js_array (js_field b ''transactions'') = Inr txs"
    and tx: "same_js (case (if nat i < length txs then txs ! nat i else JUndefined) of JStr h \<Rightarrow> (if nat i < length txs then txs ! nat i else JUndefined)
        | _ \<Rightarrow> js_field (if nat i < length txs then txs ! nat i else JUndefined) ''hash'') (js_field raw ''l1TransactionHash'')"
    unfolding l1_inclusion_def Let_def by (auto simp: res_bind_Inr_iff split: if_splits)
  have arr: "js_field b ''transactions'' = JArr txs" using txs by (cases "js_field b ''transactions''") (auto simp: js_array_def)
  have len: "nat i < length txs" using tx by (cases "nat i < length txs") (simp_all add: same_js_def js_field_def)
  with tx have "same_js (case txs ! nat i of JStr h \<Rightarrow> JStr h | tx \<Rightarrow> js_field tx ''hash'') (js_field raw ''l1TransactionHash'')"
    by (cases "txs ! nat i") simp_all
  with n q1 b i arr len s le q2 range_checks_facts [OF rc] show ?thesis by (simp split: option.splits)
qed

definition settled_node :: "chain \<Rightarrow> trace_node" where
  "settled_node c = sample_node\<lparr>nd_rpc := (\<lambda>url m ps. Inr (case ps of
     JStr k # _ \<Rightarrow> (if c = L1 then JObj [(''hash'', JStr ''0xL1''), (''transactions'', JArr [JStr ''0xother'', JObj [(''hash'', JStr ''0xpost'')]])]
       else if k = ''0x4'' then JObj [(''hash'', JStr ''0xfour'')] else if k = ''0x5'' then JObj [(''hash'', JStr ''0xfive'')] else JNull)
   | _ \<Rightarrow> JNull))\<rparr>"

definition settled_readers :: "chain \<Rightarrow> chain_reader" where
  "settled_readers c = \<lparr>cr_chain = c, cr_url = ''u'', cr_traceUrl = ''u'', cr_node = settled_node c\<rparr>"

definition settled_answer :: js where
  "settled_answer = JObj [(''canonicalL2'', JBool True), (''l1BlockNumber'', JNum 9), (''l1BlockHash'', JStr ''0xl1''), (''l1TransactionIndex'', JNum 1),
     (''l1TransactionHash'', JStr ''0xPOST''), (''l2Range'', JObj [(''firstBlockNumber'', JNum 4), (''lastBlockNumber'', JNum 5), (''blockCount'', JNum 2),
       (''firstBlockHash'', JStr ''0xFour''), (''lastBlockHash'', JStr ''0xfive'')]),
     (''l2Blocks'', JArr [JObj [(''number'', JNum 5), (''hash'', JStr ''0xFIVE'')]])]"

definition settled_request :: settlement_request where
  "settled_request = \<lparr>sq_L1 = None, sq_L2 = Some 4, sq_blockHash = None\<rparr>"

lemma settled_valid: "validateSettlement settled_answer settled_readers settled_request
    = Inr \<lparr>tz_id = ''0xpost:4-5'', tz_first = 4, tz_last = 5, tz_l1Transaction = ''0xpost''\<rparr>"
  by code_simp

theorem settlement_canonical_witness:
  "canonical_at (settled_readers L2) 4 (js_field (js_field settled_answer ''l2Range'') ''firstBlockHash'')"
  using settlement_canonical [OF settled_valid] by simp

end
