(* ===== verification/Trace_Links.thy ===== *)
theory Trace_Links
  imports Trace_Rpc
begin

text \<open>
  Transaction links (\<open>src/trace-decoder/src/transaction-links.mjs\<close>): the record that a frontend keeps of a cross-chain
  transaction is normalised, and every transaction that it names is recovered from its chain and
  checked before the decoder relies on it. The protocol ABI, the encoding of
  quantities and the frontend are parameters. The checks recorded in \<open>link.checks\<close> are constants and
  left out.
\<close>

record link_lib =
  ll_call :: "chain \<Rightarrow> js \<Rightarrow> parsed_call option"
  ll_event :: "chain \<Rightarrow> js \<Rightarrow> (string \<times> js_object) option"
  ll_reads :: "chain \<Rightarrow> js \<Rightarrow> bool" \<comment> \<open>the called function is \<open>view\<close> or \<open>pure\<close>\<close>
  ll_toQuantity :: "js \<Rightarrow> js_error + string"

record link_reference =
  rf_chain :: chain
  rf_chainId :: string
  rf_hash :: string
  rf_role :: string

record tx_links =
  lk_id :: string
  lk_sourceChain :: chain
  lk_sourceHash :: string
  lk_references :: "link_reference list"
  lk_raw :: js

datatype link_state = Link_pending | Link_legacy | Link_complete tx_links

definition require :: "bool \<Rightarrow> string \<Rightarrow> js_error + unit" where
  "require ok msg = (if ok then Inr () else throw msg)"

lemma require_Inr [simp]: "require ok msg = Inr u \<longleftrightarrow> ok"
  by (simp add: require_def)

definition link_quantity :: "js \<Rightarrow> js_error + int" where
  "link_quantity v =
     (let num = (case v of JNum n \<Rightarrow> Some n | JStr s \<Rightarrow> if is_hex_text s \<and> length s > 2 then js_Number v else None | _ \<Rightarrow> None)
      in case num of
           None \<Rightarrow> throw ''Invalid link quantity''
         | Some n \<Rightarrow> if is_safe_integer n \<and> n \<ge> 0 then Inr n else throw ''Inexact link quantity'')"

definition link_hash :: "js \<Rightarrow> js_error + string" where
  "link_hash v = (case v of JStr s \<Rightarrow> if is_hex_of 64 s then Inr (js_lower s) else throw ''Invalid transaction link hash'' | _ \<Rightarrow> throw ''Invalid transaction link hash'')"

definition chain_quantity :: "link_lib \<Rightarrow> string \<Rightarrow> js_error + int" where
  "chain_quantity lib k = res_bind (ll_toQuantity lib (JStr k)) (\<lambda>q. link_quantity (JStr q))" \<comment> \<open>\<open>quantity(hex(k))\<close>\<close>

section \<open>Normalisation\<close>

record link_origin =
  lo_chain :: chain
  lo_hash :: string

definition reference :: "link_lib \<Rightarrow> (chain \<Rightarrow> string) \<Rightarrow> js \<Rightarrow> chain \<Rightarrow> string \<Rightarrow> js_error + link_reference" where
  "reference lib chainIds v c role =
     (if \<not> js_truthy v then throw ''Transaction link chain ID mismatch''
      else res_bind (link_quantity (js_field v ''chainId'')) (\<lambda>a.
           res_bind (chain_quantity lib (chainIds c)) (\<lambda>b.
           res_bind (require (a = b) ''Transaction link chain ID mismatch'') (\<lambda>_.
           res_bind (link_hash (js_field v ''hash'')) (\<lambda>h.
             Inr \<lparr>rf_chain = c, rf_chainId = chainIds c, rf_hash = h, rf_role = role\<rparr>)))))"

definition l2_role :: "link_origin \<Rightarrow> js \<Rightarrow> string" where
  "l2_role origin r =
     (if lo_chain origin = L1 then ''l2-delivery''
      else if same_js (js_field r ''hash'') (JStr (lo_hash origin)) then ''source'' else ''l2-table-load'')"

definition equal_hash :: "string \<Rightarrow> string \<Rightarrow> bool" where
  "equal_hash a b \<longleftrightarrow> js_lower a = js_lower b"

definition complete_layout :: "link_origin \<Rightarrow> link_reference \<Rightarrow> link_reference \<Rightarrow> link_reference list \<Rightarrow> bool" where
  "complete_layout origin l1 post l2 \<longleftrightarrow>
     (if lo_chain origin = L1 then equal_hash (rf_hash l1) (lo_hash origin)
      else equal_hash (rf_hash l1) (rf_hash post) \<and> list_ex (\<lambda>r. rf_role r = ''source'') l2)"

definition complete_links :: "link_lib \<Rightarrow> (chain \<Rightarrow> string) \<Rightarrow> link_origin \<Rightarrow> js \<Rightarrow> js \<Rightarrow> js_error + link_state" where
  "complete_links lib chainIds origin raw t =
     res_bind (reference lib chainIds (js_field t ''l1'') L1 (if lo_chain origin = L1 then ''source'' else ''l1-execution'')) (\<lambda>l1.
     res_bind (reference lib chainIds (js_field t ''postBatch'') L1 ''l1-post-batch'') (\<lambda>post.
     res_bind (case js_field t ''l2'' of JArr rs \<Rightarrow> Inr rs | _ \<Rightarrow> throw ''Missing L2 transaction links'') (\<lambda>rs.
     res_bind (res_map (\<lambda>r. reference lib chainIds r L2 (l2_role origin r)) rs) (\<lambda>l2.
     res_bind (require (distinct (map rf_hash l2)) ''Duplicate L2 transaction links'') (\<lambda>_.
     res_bind (require (complete_layout origin l1 post l2) ''Missing source or unsupported L1 execution layout'') (\<lambda>_.
     res_bind (require (lo_chain origin = L1 \<or> length (filter (\<lambda>r. rf_role r = ''l2-table-load'') l2) = 1) ''Expected one L2 table loader'') (\<lambda>_.
       Inr (Link_complete \<lparr>lk_id = ''transaction-links:'' @ chain_name (lo_chain origin) @ '':'' @ js_lower (lo_hash origin),
         lk_sourceChain = lo_chain origin, lk_sourceHash = js_lower (lo_hash origin), lk_references = l1 # post # l2, lk_raw = raw\<rparr>))))))))"

definition is_plain_object :: "js \<Rightarrow> bool" where
  "is_plain_object v = (case v of JObj ob \<Rightarrow> True | _ \<Rightarrow> False)"

definition has_own :: "js \<Rightarrow> string \<Rightarrow> bool" where
  "has_own v k = (case v of JObj ob \<Rightarrow> jmap_get ob k \<noteq> None | _ \<Rightarrow> False)"

definition is_bool :: "js \<Rightarrow> bool" where
  "is_bool v = (case v of JBool b \<Rightarrow> True | _ \<Rightarrow> False)"

definition normalizeTransactionLinks :: "link_lib \<Rightarrow> js \<Rightarrow> link_origin \<Rightarrow> (chain \<Rightarrow> string) \<Rightarrow> js_error + link_state" where
  "normalizeTransactionLinks lib raw origin chainIds =
     (if js_nullish raw then Inr Link_pending
      else res_bind (require (is_plain_object raw) ''Invalid cross-chain transaction record'') (\<lambda>_.
           res_bind (require (same_js (js_field raw ''hash'') (JStr (lo_hash origin))
             \<and> js_strict_eq (js_field raw ''direction'') (JStr (if lo_chain origin = L1 then ''inbound'' else ''outbound''))) ''Cross-chain source identity/direction mismatch'') (\<lambda>_.
           res_bind (require (js_nullish (js_field (js_field raw ''ownership'') ''rejection'')) ''Cross-chain transaction was rejected'') (\<lambda>_.
             if \<not> has_own raw ''transactions'' then Inr Link_legacy
             else let t = js_field raw ''transactions''
                  in res_bind (require (is_plain_object t \<and> is_bool (js_field t ''complete'')) ''Invalid transaction links completeness'') (\<lambda>_.
                     if \<not> js_truthy (js_field t ''complete'') then Inr Link_pending
                     else complete_links lib chainIds origin raw t)))))"

section \<open>Events and inclusion\<close>

definition linked_logs :: "js \<Rightarrow> js_error + js list" where
  "linked_logs receipt = (let v = js_field receipt ''logs'' in if js_truthy v then js_array v else Inr [])"

definition manager_logs :: "string \<Rightarrow> js list \<Rightarrow> js list" where
  "manager_logs manager logs = filter (\<lambda>l. \<not> js_truthy (js_field l ''removed'') \<and> same_js (js_field l ''address'') (JStr manager)) logs"

text \<open>A list of two or more logs is sorted by their positions, which must be quantities.\<close>

definition manager_named_events :: "link_lib \<Rightarrow> rpc_record \<Rightarrow> string \<Rightarrow> string \<Rightarrow> js_error + js_object list" where
  "manager_named_events lib r manager name =
     res_bind (linked_logs (rx_receipt r)) (\<lambda>logs.
     let ls = manager_logs manager logs; named = (\<lambda>l. case ll_event lib (rx_chain r) l of None \<Rightarrow> None | Some (n, args) \<Rightarrow> if n = name then Some args else None)
     in if length ls < 2 then Inr (List.map_filter named ls)
        else res_bind (res_map (\<lambda>l. link_quantity (js_field l ''logIndex'')) ls) (\<lambda>ks.
             Inr (List.map_filter (\<lambda>p. named (snd p)) (sort_key fst (zip ks ls)))))"

definition log_included :: "rpc_record \<Rightarrow> string \<Rightarrow> js \<Rightarrow> js_error + unit" where
  "log_included r h log =
     res_bind (js_get log ''removed'') (\<lambda>removed.
     res_bind (require (\<not> js_truthy removed \<and> same_js (js_field log ''blockHash'') (rx_blockHash r) \<and> same_js (js_field log ''transactionHash'') (JStr h))
       ''Linked receipt log inclusion mismatch'') (\<lambda>_.
     res_bind (link_quantity (js_field log ''blockNumber'')) (\<lambda>n. require (rx_blockNumber r = Some n) ''Linked receipt log inclusion mismatch'')))"

definition coordinates :: "rpc_record \<Rightarrow> js \<Rightarrow> js_error + unit" where
  "coordinates r v =
     res_bind (link_quantity (js_field v ''blockNumber'')) (\<lambda>n.
     res_bind (require (rx_blockNumber r = Some n) ''Linked transaction/receipt coordinates mismatch'') (\<lambda>_.
     res_bind (link_quantity (js_field v ''transactionIndex'')) (\<lambda>i. require (rx_transactionIndex r = i) ''Linked transaction/receipt coordinates mismatch'')))"

definition signed_chain :: "link_lib \<Rightarrow> js \<Rightarrow> string \<Rightarrow> js_error + unit" where
  "signed_chain lib tx chainId =
     (let v = js_field tx ''chainId''
      in if js_nullish v then Inr ()
         else res_bind (link_quantity v) (\<lambda>a. res_bind (chain_quantity lib chainId) (\<lambda>b. require (a = b) ''Linked signed chain ID mismatch'')))"

text \<open>The coordinates of the transaction and of its receipt are compared key by key in the code; all four must
  agree, in any order.\<close>

definition checkInclusion :: "link_lib \<Rightarrow> rpc_record option \<Rightarrow> string \<Rightarrow> string \<Rightarrow> bool \<Rightarrow> js_error + unit" where
  "checkInclusion lib found h chainId successful =
     (case found of
        None \<Rightarrow> throw ''Linked transaction unavailable''
      | Some r \<Rightarrow>
          let tx = rx_transaction r; receipt = rx_receipt r
          in res_bind (require (js_truthy tx \<and> js_truthy receipt \<and> js_truthy (rx_blockHash r)) ''Linked transaction unavailable'') (\<lambda>_.
             res_bind (require (same_js (js_field tx ''hash'') (JStr h) \<and> same_js (js_field receipt ''transactionHash'') (JStr h)) ''Linked transaction/receipt identity or success mismatch'') (\<lambda>_.
             res_bind (link_quantity (js_field receipt ''status'')) (\<lambda>status.
             res_bind (require (status = 1 \<or> status = 0 \<and> \<not> successful) ''Linked transaction/receipt identity or success mismatch'') (\<lambda>_.
             res_bind (require (same_js (js_field tx ''blockHash'') (rx_blockHash r) \<and> same_js (js_field receipt ''blockHash'') (rx_blockHash r)) ''Linked block hash mismatch'') (\<lambda>_.
             res_bind (coordinates r tx) (\<lambda>_.
             res_bind (coordinates r receipt) (\<lambda>_.
             res_bind (signed_chain lib tx chainId) (\<lambda>_.
             res_bind (linked_logs receipt) (\<lambda>logs.
             res_bind (res_map (log_included r h) logs) (\<lambda>_. Inr ())))))))))))"

section \<open>Calls of the manager\<close>

definition call_address :: "raw_call \<Rightarrow> string option \<Rightarrow> string option" where
  "call_address node ctx = (if rc_type node = ''DELEGATECALL'' \<or> rc_type node = ''CALLCODE'' then ctx else rc_to node)"

definition call_name :: "link_lib \<Rightarrow> chain \<Rightarrow> raw_call \<Rightarrow> string option" where
  "call_name lib c node = map_option pc_name (ll_call lib c (JStr (rc_input node)))"

text \<open>\<open>hasManagerCall\<close>: the names are \<^const>\<open>None\<close> when any function of the manager counts.\<close>

definition named_call :: "link_lib \<Rightarrow> chain \<Rightarrow> string list option \<Rightarrow> raw_call \<Rightarrow> bool" where
  "named_call lib c names node = (case names of None \<Rightarrow> True | Some ns \<Rightarrow> (case call_name lib c node of None \<Rightarrow> False | Some n \<Rightarrow> n \<in> set ns))"

fun manager_call :: "link_lib \<Rightarrow> chain \<Rightarrow> string \<Rightarrow> string list option \<Rightarrow> bool \<Rightarrow> string option \<Rightarrow> raw_call \<Rightarrow> bool" where
  "manager_call lib c manager names committed ctx (Raw_call ty fr tt inp out v err logs calls) =
     (let node = Raw_call ty fr tt inp out v err logs calls; address = call_address node ctx
      in \<not> (committed \<and> failed err)
         \<and> (same_addr address (Some manager) \<and> named_call lib c names node
            \<or> list_ex (manager_call lib c manager names committed address) calls))"

definition hasManagerCall :: "link_lib \<Rightarrow> chain \<Rightarrow> string \<Rightarrow> string list option \<Rightarrow> bool \<Rightarrow> raw_call option \<Rightarrow> bool" where
  "hasManagerCall lib c manager names committed trace = (case trace of None \<Rightarrow> False | Some node \<Rightarrow> manager_call lib c manager names committed None node)"

fun source_call :: "link_lib \<Rightarrow> chain \<Rightarrow> string \<Rightarrow> string option \<Rightarrow> bool \<Rightarrow> raw_call \<Rightarrow> bool" where
  "source_call lib c manager ctx batchContext (Raw_call ty fr tt inp out v err logs calls) =
     (let node = Raw_call ty fr tt inp out v err logs calls;
          delegate = (ty = ''DELEGATECALL'' \<or> ty = ''CALLCODE'');
          address = call_address node ctx;
          name = (if same_addr address (Some manager) then call_name lib c node else None)
      in if c = L1 \<and> batchContext \<and> same_addr ctx (Some manager) \<and> same_addr fr (Some manager) \<and> \<not> delegate \<and> name = Some ''_attemptExecuteImmediateL2Txs'' then False
         else if name = Some ''executeCrossChainCall'' \<or> name = Some ''staticCrossChainCall'' then True
         else if c = L1 \<and> name = Some ''executeL2Txs'' then False
         else list_ex (source_call lib c manager address (name = Some ''postAndVerifyBatch'' \<or> batchContext \<and> delegate \<and> same_addr address (Some manager))) calls)"

definition hasSourceCall :: "link_lib \<Rightarrow> chain \<Rightarrow> string \<Rightarrow> raw_call option \<Rightarrow> bool" where
  "hasSourceCall lib c manager trace = (case trace of None \<Rightarrow> False | Some node \<Rightarrow> source_call lib c manager None False node)"

definition administrative :: "string list" where
  "administrative = [''executeL2Txs'', ''createCrossChainProxy'', ''getOrCreateCrossChainProxy'', ''registerRollup'', ''setRoot'']"

definition administrative_call :: "link_lib \<Rightarrow> chain \<Rightarrow> raw_call \<Rightarrow> bool" where
  "administrative_call lib c node = (case call_name lib c node of None \<Rightarrow> False | Some n \<Rightarrow> n \<in> set administrative \<or> ll_reads lib c (JStr (rc_input node)))"

text \<open>\<open>walk\<close> of \<open>isNonSourceManagerTrace\<close>: \<^const>\<open>None\<close> when a call is not known to be administrative, otherwise
  whether a call of the manager was seen.\<close>

fun nonsource_walk :: "link_lib \<Rightarrow> chain \<Rightarrow> string \<Rightarrow> string option \<Rightarrow> raw_call \<Rightarrow> bool option" where
  "nonsource_walk lib c manager ctx (Raw_call ty fr tt inp out v err logs calls) =
     (let node = Raw_call ty fr tt inp out v err logs calls; address = call_address node ctx;
          own = same_addr address (Some manager);
          below = map (nonsource_walk lib c manager address) calls
      in if own \<and> \<not> administrative_call lib c node then None
         else if own \<and> c = L1 \<and> call_name lib c node = Some ''executeL2Txs'' then Some True
         else if None \<in> set below then None
         else Some (own \<or> Some True \<in> set below))"

definition isNonSourceManagerTrace :: "link_lib \<Rightarrow> raw_call option \<Rightarrow> chain \<Rightarrow> string \<Rightarrow> bool" where
  "isNonSourceManagerTrace lib trace c manager = (case trace of None \<Rightarrow> False | Some node \<Rightarrow> nonsource_walk lib c manager None node = Some True)"

end
