(* ===== verification/Trace_Link_Checks.thy ===== *)
theory Trace_Link_Checks
  imports Trace_Links "HOL-Library.List_Lexorder" "HOL-Library.Char_ord"
begin

text \<open>
  \<open>validateTransactionLinks\<close>, \<open>recheckTransactionLinks\<close> and \<open>lookupTransactionLinks\<close>: every transaction that a link names
  is recovered from its canonical block and checked; an L1 source must agree with its deliveries in order and multiplicity;
  an L2 source must follow its table loader in one block without another table between them.
\<close>

record link_env =
  le_lib :: link_lib
  le_readers :: "chain \<Rightarrow> chain_reader"
  le_managers :: "chain \<Rightarrow> string"
  le_l2RollupId :: "string option"

type_synonym link_records = "(chain \<times> string, rpc_record) jmap"

section \<open>Recovering the transactions\<close>

fun recover_all :: "link_env \<Rightarrow> link_reference list \<Rightarrow> link_records \<Rightarrow> js_error + link_records" where
  "recover_all env [] records = Inr records"
| "recover_all env (r # rs) records =
     res_bind (case jmap_get records (rf_chain r, rf_hash r) of
         Some x \<Rightarrow> Inr (Some x)
       | None \<Rightarrow> recover (le_readers env (rf_chain r)) (rf_hash r) JNull) (\<lambda>found.
     res_bind (checkInclusion (le_lib env) found (rf_hash r) (rf_chainId r) True) (\<lambda>_.
     res_bind (js_defined found) (\<lambda>x. recover_all env rs (jmap_set (rf_chain r, rf_hash r) x records))))"

definition record_of :: "link_records \<Rightarrow> chain \<Rightarrow> string \<Rightarrow> js_error + rpc_record" where
  "record_of records c h = js_defined (jmap_get records (c, h))"

section \<open>The source and its batch\<close>

definition source_matches :: "js \<Rightarrow> rpc_record \<Rightarrow> js_error + unit" where
  "source_matches raw source =
     (let sender = js_field raw ''sender''; nonce = js_field raw ''nonce''; tx = rx_transaction source
      in res_bind (require (js_nullish sender \<or> same_js sender (js_field tx ''from'')) ''Linked source sender mismatch'') (\<lambda>_.
         if js_nullish nonce then Inr ()
         else res_bind (link_quantity nonce) (\<lambda>a. res_bind (link_quantity (js_field tx ''nonce'')) (\<lambda>b. require (a = b) ''Linked source nonce mismatch''))))"

definition ownership_matches :: "js \<Rightarrow> rpc_record \<Rightarrow> js_error + unit" where
  "ownership_matches raw l1 =
     (let canonical = js_field (js_field raw ''ownership'') ''canonical''; number = js_field canonical ''number''
      in if js_nullish canonical then Inr ()
         else res_bind (require (same_js (js_field canonical ''hash'') (rx_blockHash l1)) ''Ownership L1 inclusion mismatch'') (\<lambda>_.
              if js_nullish number then Inr ()
              else res_bind (link_quantity number) (\<lambda>n. require (rx_blockNumber l1 = Some n) ''Ownership L1 block number mismatch'')))"

definition calls_function :: "link_lib \<Rightarrow> chain \<Rightarrow> js \<Rightarrow> string \<Rightarrow> bool" where
  "calls_function lib c tx name = (case ll_call lib c (js_field tx ''input'') of None \<Rightarrow> False | Some p \<Rightarrow> pc_name p = name)"

definition batch_posted :: "link_env \<Rightarrow> rpc_record \<Rightarrow> bool" where
  "batch_posted env post =
     (same_js (js_field (rx_transaction post) ''to'') (JStr (le_managers env L1)) \<and> calls_function (le_lib env) L1 (rx_transaction post) ''postAndVerifyBatch''
      \<or> hasManagerCall (le_lib env) L1 (le_managers env L1) (Some [''postAndVerifyBatch'']) True (trace_of (le_readers env L1) post))"

definition post_precedes :: "rpc_record \<Rightarrow> rpc_record \<Rightarrow> bool" where
  "post_precedes post l1 \<longleftrightarrow> rx_blockNumber post = rx_blockNumber l1 \<and> rx_transactionIndex post \<le> rx_transactionIndex l1"

section \<open>Tables\<close>

definition table_order :: "rpc_record \<Rightarrow> int \<times> int" where
  "table_order r = (case rx_blockNumber r of None \<Rightarrow> 0 | Some n \<Rightarrow> n, rx_transactionIndex r)"

definition is_table_role :: "string \<Rightarrow> bool" where
  "is_table_role r \<longleftrightarrow> r = ''l2-table-load'' \<or> r = ''l2-delivery''"

definition link_tables :: "tx_links \<Rightarrow> link_records \<Rightarrow> js_error + rpc_record list" where
  "link_tables link records =
     res_bind (res_map (\<lambda>r. record_of records L2 (rf_hash r)) (filter (\<lambda>r. is_table_role (rf_role r)) (lk_references link))) (\<lambda>ts.
       Inr (sort_key table_order ts))"

definition check_table :: "link_env \<Rightarrow> chain \<Rightarrow> rpc_record \<Rightarrow> js_error + unit" where
  "check_table env source t =
     res_bind (require (same_js (js_field (rx_transaction t) ''to'') (JStr (le_managers env L2)) \<and> same_js (js_field (rx_receipt t) ''to'') (JStr (le_managers env L2)))
       ''Linked L2 table targets another manager'') (\<lambda>_.
     require (calls_function (le_lib env) L2 (rx_transaction t) (if source = L1 then ''executeIncomingCrossChainCall'' else ''loadExecutionTable''))
       ''Linked L2 table has the wrong function'')"

section \<open>An L1 source\<close>

definition call_hash_of :: "js_object \<Rightarrow> js" where
  "call_hash_of args = lower_js (js_prop args ''crossChainCallHash'')"

definition delivered_hash :: "link_env \<Rightarrow> rpc_record \<Rightarrow> js_error + js" where
  "delivered_hash env t =
     res_bind (manager_named_events (le_lib env) t (le_managers env L2) ''IncomingCrossChainCallExecuted'') (\<lambda>calls.
       case calls of [args] \<Rightarrow> Inr (call_hash_of args) | _ \<Rightarrow> throw ''Each linked delivery must emit one incoming call'')"

definition consumed_calls :: "link_env \<Rightarrow> string \<Rightarrow> rpc_record \<Rightarrow> js_error + js list" where
  "consumed_calls env rollup source =
     res_bind (manager_named_events (le_lib env) source (le_managers env L1) ''ExecutionConsumed'') (\<lambda>es.
       Inr (map call_hash_of (filter (\<lambda>args. js_strict_eq (js_prop args ''rollupId'') (JStr rollup)) es)))"

definition check_deliveries :: "link_env \<Rightarrow> rpc_record \<Rightarrow> rpc_record list \<Rightarrow> js_error + unit" where
  "check_deliveries env source tables =
     (case le_l2RollupId env of
        None \<Rightarrow> throw ''L2 rollup ID unavailable for delivery verification''
      | Some rollup \<Rightarrow>
          res_bind (consumed_calls env rollup source) (\<lambda>consumed.
          res_bind (res_map (delivered_hash env) tables) (\<lambda>delivered.
            require (consumed = delivered) ''Linked deliveries disagree with source event order/multiplicity'')))"

section \<open>An L2 source\<close>

definition loads_no_table :: "link_env \<Rightarrow> string \<Rightarrow> js \<Rightarrow> js \<Rightarrow> js_error + unit" where
  "loads_no_table env chainId n tx =
     res_bind (entry_hash tx) (\<lambda>k. case k of
        JStr h \<Rightarrow>
          res_bind (recover (le_readers env L2) h n) (\<lambda>found.
          res_bind (checkInclusion (le_lib env) found (js_lower h) chainId False) (\<lambda>_.
          res_bind (js_defined found) (\<lambda>r.
          res_bind (manager_named_events (le_lib env) r (le_managers env L2) ''ExecutionTableLoaded'') (\<lambda>es.
            require (es = []) ''Intervening L2 table replacement''))))
      | _ \<Rightarrow> Inl TypeError)"

definition int_range :: "int \<Rightarrow> int \<Rightarrow> int list" where
  "int_range a b = map (\<lambda>k. a + int k) [0 ..< nat (b - a + 1)]"

definition check_between :: "link_env \<Rightarrow> string \<Rightarrow> rpc_record \<Rightarrow> rpc_record \<Rightarrow> js_error + unit" where
  "check_between env chainId loader source =
     (let n = (case rx_blockNumber source of None \<Rightarrow> JNull | Some k \<Rightarrow> JNum k)
      in res_bind (read_block (le_readers env L2) n) (\<lambda>block.
         res_bind (js_get block ''transactions'') (\<lambda>v. res_bind (js_array v) (\<lambda>txs.
         res_bind (res_map (\<lambda>i. loads_no_table env chainId n (if nat i < length txs then txs ! nat i else JUndefined))
           (int_range (rx_transactionIndex loader + 1) (rx_transactionIndex source))) (\<lambda>_. Inr ())))))"

definition same_block :: "rpc_record \<Rightarrow> rpc_record \<Rightarrow> bool" where
  "same_block a b \<longleftrightarrow> same_js (rx_blockHash a) (rx_blockHash b)"

definition check_loader :: "link_env \<Rightarrow> tx_links \<Rightarrow> rpc_record \<Rightarrow> rpc_record list \<Rightarrow> js_error + unit" where
  "check_loader env link source tables =
     (case tables of
        [] \<Rightarrow> Inl TypeError
      | loader # ts \<Rightarrow>
          res_bind (require (same_block loader source \<and> rx_transactionIndex loader < rx_transactionIndex source) ''L2 loader must precede source in the same block'') (\<lambda>_.
          res_bind (manager_named_events (le_lib env) loader (le_managers env L2) ''ExecutionTableLoaded'') (\<lambda>es.
          res_bind (require (length es = 1) ''Expected one loader event'') (\<lambda>_.
          res_bind (js_defined (find (\<lambda>r. rf_chain r = L2) (lk_references link))) (\<lambda>r. check_between env (rf_chainId r) loader source)))))"

section \<open>Validation\<close>

definition post_reference :: "tx_links \<Rightarrow> js_error + link_reference" where
  "post_reference link = js_defined (find (\<lambda>r. rf_role r = ''l1-post-batch'') (lk_references link))"

definition check_records :: "link_env \<Rightarrow> tx_links \<Rightarrow> link_origin \<Rightarrow> link_records \<Rightarrow> js_error + unit" where
  "check_records env link origin records =
     res_bind (record_of records (lo_chain origin) (js_lower (lo_hash origin))) (\<lambda>source.
     res_bind (source_matches (lk_raw link) source) (\<lambda>_.
     res_bind (js_defined (case lk_references link of [] \<Rightarrow> None | r # rs \<Rightarrow> Some r)) (\<lambda>first.
     res_bind (record_of records L1 (rf_hash first)) (\<lambda>l1.
     res_bind (ownership_matches (lk_raw link) l1) (\<lambda>_.
     res_bind (post_reference link) (\<lambda>postRef.
     res_bind (record_of records L1 (rf_hash postRef)) (\<lambda>post.
     res_bind (require (post_precedes post l1) ''Batch post must precede L1 execution in the same block'') (\<lambda>_.
     res_bind (require (batch_posted env post) ''Linked posting transaction does not post an EEZ batch'') (\<lambda>_.
     res_bind (link_tables link records) (\<lambda>tables.
     res_bind (res_map (check_table env (lo_chain origin)) tables) (\<lambda>_.
       if lo_chain origin = L1 then check_deliveries env source tables else check_loader env link source tables)))))))))))"

definition validateTransactionLinks :: "link_env \<Rightarrow> tx_links \<Rightarrow> link_origin \<Rightarrow> js_error + link_records" where
  "validateTransactionLinks env link origin =
     res_bind (recover_all env (lk_references link) []) (\<lambda>records.
     res_bind (check_records env link origin records) (\<lambda>_. Inr records))"

section \<open>The recheck\<close>

text \<open>What \<open>identity\<close> prints as JSON; two links agree when these values are equal.\<close>

record links_identity =
  li_sourceHash :: string
  li_direction :: js
  li_sender :: js
  li_nonce :: "int option"
  li_basis :: js
  li_attemptGeneration :: "int option"
  li_ownership :: "js list"
  li_canonical :: "(string \<times> int option) option"
  li_references :: "string list"

definition optional_quantity :: "js \<Rightarrow> js_error + int option" where
  "optional_quantity v = (if js_nullish v then Inr None else res_bind (link_quantity v) (\<lambda>n. Inr (Some n)))"

definition link_identity :: "tx_links \<Rightarrow> js_error + links_identity" where
  "link_identity link =
     (let raw = lk_raw link; o' = js_field raw ''ownership''; canonical = js_field o' ''canonical''; t = js_field raw ''transactions''
      in res_bind (optional_quantity (js_field raw ''nonce'')) (\<lambda>nonce.
         res_bind (optional_quantity (js_field t ''attemptGeneration'')) (\<lambda>gen.
         res_bind (if js_nullish canonical then Inr None
                   else res_bind (link_hash (js_field canonical ''hash'')) (\<lambda>h. res_bind (optional_quantity (js_field canonical ''number'')) (\<lambda>n. Inr (Some (h, n))))) (\<lambda>c.
           Inr \<lparr>li_sourceHash = lk_sourceHash link, li_direction = js_field raw ''direction'', li_sender = lower_js (js_field raw ''sender''), li_nonce = nonce,
             li_basis = js_field t ''basis'', li_attemptGeneration = gen,
             li_ownership = [js_field o' ''state'', js_field o' ''reason'', lower_js (js_field o' ''replacementHash''), js_field o' ''rejection''], li_canonical = c,
             li_references = sort (map (\<lambda>r. chain_name (rf_chain r) @ '':'' @ rf_hash r @ '':'' @ rf_role r) (lk_references link))\<rparr>))))"

definition recheck_inclusion :: "link_env \<Rightarrow> rpc_record \<Rightarrow> js_error + unit" where
  "recheck_inclusion env r =
     res_bind (ll_toQuantity (le_lib env) (case rx_blockNumber r of None \<Rightarrow> JNull | Some n \<Rightarrow> JNum n)) (\<lambda>q.
     res_bind (send (le_readers env (rx_chain r)) ''eth_getBlockByNumber'' [JStr q, JBool True] False) (\<lambda>block.
       let tx = (case js_field block ''transactions'' of JArr txs \<Rightarrow> if nat (rx_transactionIndex r) < length txs then txs ! nat (rx_transactionIndex r) else JUndefined | _ \<Rightarrow> JUndefined)
       in require (same_js (js_field block ''hash'') (rx_blockHash r) \<and> same_js (case tx of JStr h \<Rightarrow> tx | _ \<Rightarrow> js_field tx ''hash'') (JStr (rx_hash r)))
            ''Linked transaction changed canonical inclusion during decoding''))"

definition recheckTransactionLinks :: "link_env \<Rightarrow> tx_links \<Rightarrow> link_origin \<Rightarrow> (chain \<Rightarrow> string) \<Rightarrow> js_error + js \<Rightarrow> link_records \<Rightarrow> js_error + unit" where
  "recheckTransactionLinks env link origin chainIds answer records =
     res_bind answer (\<lambda>raw.
     res_bind (normalizeTransactionLinks (le_lib env) raw origin chainIds) (\<lambda>state.
       case state of
         Link_complete new \<Rightarrow>
           res_bind (link_identity new) (\<lambda>a. res_bind (link_identity link) (\<lambda>b.
           res_bind (require (a = b) ''Transaction links changed during decoding'') (\<lambda>_.
           res_bind (res_map (recheck_inclusion env) (map snd records)) (\<lambda>_. Inr ()))))
       | _ \<Rightarrow> throw ''Transaction links changed during decoding''))"

section \<open>Lookup\<close>

record link_config =
  lc_txLinks :: js
  lc_noCorrelation :: bool
  lc_manager :: "chain \<Rightarrow> string"
  lc_front :: "chain \<Rightarrow> string" \<comment> \<open>\<open>l1Front\<close> and \<open>l2Front\<close>; the empty text when not given\<close>
  lc_correlationRpc :: string

text \<open>A failed request has a code, where the node gave one.\<close>

type_synonym link_rpc = "string \<Rightarrow> string \<Rightarrow> js list \<Rightarrow> (int option \<times> string) + js"

datatype link_answer = Fallback string | Linked link_state string

record link_transaction =
  lt_origin :: link_origin
  lt_transaction :: js
  lt_trace :: "raw_call option"

definition plain_error :: "(int option \<times> string) + js \<Rightarrow> js_error + js" where
  "plain_error r = (case r of Inl (c, m) \<Rightarrow> throw m | Inr v \<Rightarrow> Inr v)"

definition non_source_batch :: "link_lib \<Rightarrow> link_config \<Rightarrow> link_transaction \<Rightarrow> bool" where
  "non_source_batch lib cfg o' =
     (lo_chain (lt_origin o') = L1 \<and> hasManagerCall lib L1 (lc_manager cfg L1) (Some [''postAndVerifyBatch'']) True (lt_trace o')
      \<and> \<not> hasSourceCall lib L1 (lc_manager cfg L1) (lt_trace o'))"

definition system_function :: "link_lib \<Rightarrow> link_config \<Rightarrow> link_transaction \<Rightarrow> bool" where
  "system_function lib cfg o' =
     (let c = lo_chain (lt_origin o'); tx = lt_transaction o'
      in same_js (js_field tx ''to'') (JStr (lc_manager cfg c))
         \<and> (calls_function lib c tx ''loadExecutionTable'' \<or> calls_function lib c tx ''executeIncomingCrossChainCall''))"

definition settle_lookup :: "link_lib \<Rightarrow> link_config \<Rightarrow> link_transaction \<Rightarrow> (chain \<Rightarrow> string) \<Rightarrow> string \<Rightarrow> string \<Rightarrow> js \<Rightarrow> js_error + link_answer" where
  "settle_lookup lib cfg o' chainIds mode url raw =
     (let c = lo_chain (lt_origin o')
      in if js_nullish raw \<and> mode = ''auto'' \<and> (system_function lib cfg o' \<or> non_source_batch lib cfg o')
         then Inr (Fallback ''system transaction has no source record'')
         else if js_nullish raw \<and> mode = ''auto'' \<and> isNonSourceManagerTrace lib (lt_trace o') c (lc_manager cfg c)
         then Inr (Fallback ''non-source manager transaction has no source record'')
         else res_bind (normalizeTransactionLinks lib raw (lt_origin o') chainIds) (\<lambda>state.
              if state = Link_legacy
              then res_bind (require (mode \<noteq> ''required'') ''Required transaction links absent from legacy record'') (\<lambda>_. Inr (Fallback ''legacy record without transactions''))
              else Inr (Linked state url)))"

definition ask_links :: "link_lib \<Rightarrow> link_config \<Rightarrow> link_rpc \<Rightarrow> link_transaction \<Rightarrow> (chain \<Rightarrow> string) \<Rightarrow> string \<Rightarrow> string \<Rightarrow> js_error + link_answer" where
  "ask_links lib cfg rpc o' chainIds mode url =
     (let c = lo_chain (lt_origin o')
      in res_bind (plain_error (rpc url ''eth_chainId'' [])) (\<lambda>v. res_bind (js_BigInt v) (\<lambda>n.
         let frontend = show_int n
         in if frontend \<noteq> chainIds c \<and> lc_front cfg c = [] \<and> mode = ''auto'' then Inr (Fallback ''correlation endpoint is not a source-chain frontend'')
            else res_bind (require (frontend = chainIds c) ''Transaction link frontend has the wrong chain ID'') (\<lambda>_.
                 case rpc url ''eez_getCrossChainTransaction'' [JStr (lo_hash (lt_origin o'))] of
                   Inl (code, m) \<Rightarrow> if code \<noteq> Some (- 32601) \<or> mode = ''required'' then throw m else Inr (Fallback ''RPC method unsupported'')
                 | Inr raw \<Rightarrow> settle_lookup lib cfg o' chainIds mode url raw))))"

definition lookupTransactionLinks :: "link_lib \<Rightarrow> link_config \<Rightarrow> link_rpc \<Rightarrow> link_transaction \<Rightarrow> (chain \<Rightarrow> string) \<Rightarrow> js_error + link_answer" where
  "lookupTransactionLinks lib cfg rpc o' chainIds =
     (let mode = js_coalesce (lc_txLinks cfg) (JStr ''auto''); c = lo_chain (lt_origin o'); url = (if lc_front cfg c \<noteq> [] then lc_front cfg c else lc_correlationRpc cfg)
      in case mode of
           JStr m \<Rightarrow>
             res_bind (require (m \<in> {''auto'', ''required'', ''off''}) ''txLinks must be auto, required, or off'') (\<lambda>_.
               if m = ''off'' \<or> lc_noCorrelation cfg then Inr (Fallback ''disabled'')
               else if m = ''auto'' \<and> lt_trace o' \<noteq> None \<and> \<not> hasManagerCall lib c (lc_manager cfg c) None False (lt_trace o')
               then Inr (Fallback ''local transaction has no EEZ calls'')
               else if url = []
               then res_bind (require (m \<noteq> ''required'') ''Required transaction links need the source frontend or --correlation-rpc'') (\<lambda>_. Inr (Fallback ''source frontend not configured''))
               else ask_links lib cfg rpc o' chainIds m url)
         | _ \<Rightarrow> throw ''txLinks must be auto, required, or off'')"

end
