(* ===== verification/Trace_Link_Properties.thy ===== *)
theory Trace_Link_Properties
  imports Trace_Link_Checks Trace_Rpc_Properties
begin

text \<open>
  What a validated transaction link proves: every transaction that it names ran successfully in a canonical
  block, the batch was posted before its execution, and the deliveries or the table loader belong to the source.
\<close>

section \<open>The layout of a complete link\<close>

lemma reference_facts:
  assumes "reference lib ids v c role = Inr r"
  shows "rf_chain r = c \<and> rf_role r = role \<and> rf_chainId r = ids c \<and> (\<exists>s. js_field v ''hash'' = JStr s \<and> rf_hash r = js_lower s)"
proof (cases "js_field v ''hash''")
  case (JStr s)
  with assms show ?thesis by (auto simp: reference_def res_bind_Inr_iff link_hash_def split: if_splits)
qed (use assms in \<open>auto simp: reference_def res_bind_Inr_iff link_hash_def split: if_splits\<close>)

lemma complete_facts:
  assumes "complete_links lib ids origin raw t = Inr (Link_complete k)"
  obtains l1 post l2 rs where "lk_references k = l1 # post # l2" "lk_raw k = raw" "lk_sourceHash k = js_lower (lo_hash origin)"
    "reference lib ids (js_field t ''l1'') L1 (if lo_chain origin = L1 then ''source'' else ''l1-execution'') = Inr l1"
    "reference lib ids (js_field t ''postBatch'') L1 ''l1-post-batch'' = Inr post"
    "list_all2 (\<lambda>r r'. reference lib ids r L2 (l2_role origin r) = Inr r') rs l2"
    "distinct (map rf_hash l2)" "complete_layout origin l1 post l2"
    "lo_chain origin = L1 \<or> length (filter (\<lambda>r. rf_role r = ''l2-table-load'') l2) = 1"
proof -
  from assms obtain l1 post rs l2 where f: "reference lib ids (js_field t ''l1'') L1 (if lo_chain origin = L1 then ''source'' else ''l1-execution'') = Inr l1"
    "reference lib ids (js_field t ''postBatch'') L1 ''l1-post-batch'' = Inr post"
    "res_map (\<lambda>r. reference lib ids r L2 (l2_role origin r)) rs = Inr l2"
    "distinct (map rf_hash l2)" "complete_layout origin l1 post l2" "lo_chain origin = L1 \<or> length (filter (\<lambda>r. rf_role r = ''l2-table-load'') l2) = 1"
    "k = \<lparr>lk_id = ''transaction-links:'' @ chain_name (lo_chain origin) @ '':'' @ js_lower (lo_hash origin),
         lk_sourceChain = lo_chain origin, lk_sourceHash = js_lower (lo_hash origin), lk_references = l1 # post # l2, lk_raw = raw\<rparr>"
    unfolding complete_links_def by (simp only: res_bind_Inr_iff require_Inr) blast
  show thesis by (rule that [of l1 post l2 rs]) (use f in \<open>simp_all add: res_map_all2\<close>)
qed

lemma l2_references:
  assumes "list_all2 (\<lambda>r r'. reference lib ids r L2 (l2_role origin r) = Inr r') rs l2" and "r \<in> set l2"
  shows "rf_chain r = L2 \<and> rf_role r = (if lo_chain origin = L1 then ''l2-delivery'' else if rf_hash r = js_lower (lo_hash origin) then ''source'' else ''l2-table-load'')"
proof -
  from assms obtain v where v: "reference lib ids v L2 (l2_role origin v) = Inr r" by (induction rs l2 rule: list_all2_induct) auto
  from reference_facts [OF this] obtain s where s: "js_field v ''hash'' = JStr s" "rf_hash r = js_lower s" "rf_chain r = L2" "rf_role r = l2_role origin v" by blast
  then show ?thesis by (simp add: l2_role_def same_js_def)
qed

lemma complete_source:
  assumes "complete_links lib ids origin raw t = Inr (Link_complete k)"
  shows "\<exists>r \<in> set (lk_references k). rf_role r = ''source'' \<and> rf_chain r = lo_chain origin \<and> rf_hash r = js_lower (lo_hash origin)"
proof (rule complete_facts [OF assms])
  fix l1 post l2 rs
  assume k: "lk_references k = l1 # post # l2" and l1: "reference lib ids (js_field t ''l1'') L1 (if lo_chain origin = L1 then ''source'' else ''l1-execution'') = Inr l1"
    and l2: "list_all2 (\<lambda>r r'. reference lib ids r L2 (l2_role origin r) = Inr r') rs l2" and layout: "complete_layout origin l1 post l2"
  show ?thesis
  proof (cases "lo_chain origin = L1")
    case True
    with reference_facts [OF l1] layout show ?thesis by (intro bexI [of _ l1]) (auto simp: k complete_layout_def equal_hash_def)
  next
    case False
    with layout obtain r where r: "r \<in> set l2" "rf_role r = ''source''" by (auto simp: complete_layout_def list_ex_iff)
    have c: "lo_chain origin = L2" using False by (cases "lo_chain origin") auto
    from l2_references [OF l2 r(1)] r False c have "rf_hash r = js_lower (lo_hash origin)" "rf_chain r = lo_chain origin" by (auto split: if_splits)
    with r show ?thesis by (intro bexI [of _ r]) (auto simp: k)
  qed
qed

lemma normalize_complete:
  assumes "normalizeTransactionLinks lib raw origin ids = Inr (Link_complete k)"
  shows "complete_links lib ids origin raw (js_field raw ''transactions'') = Inr (Link_complete k)"
  using assms unfolding normalizeTransactionLinks_def by (auto simp: res_bind_Inr_iff Let_def split: if_splits)

section \<open>Recovered references\<close>

text \<open>A transaction that ran successfully in its block: it, its receipt and the logs agree on hash, block and position.\<close>

definition included :: "rpc_record \<Rightarrow> string \<Rightarrow> bool" where
  "included x h \<longleftrightarrow>
     (let tx = rx_transaction x; receipt = rx_receipt x
      in js_truthy (rx_blockHash x) \<and> same_js (js_field tx ''hash'') (JStr h) \<and> same_js (js_field receipt ''transactionHash'') (JStr h)
         \<and> same_js (js_field tx ''blockHash'') (rx_blockHash x) \<and> same_js (js_field receipt ''blockHash'') (rx_blockHash x)
         \<and> (\<exists>n. rx_blockNumber x = Some n \<and> link_quantity (js_field tx ''blockNumber'') = Inr n \<and> link_quantity (js_field receipt ''blockNumber'') = Inr n)
         \<and> link_quantity (js_field tx ''transactionIndex'') = Inr (rx_transactionIndex x)
         \<and> link_quantity (js_field receipt ''transactionIndex'') = Inr (rx_transactionIndex x)
         \<and> (\<exists>logs. linked_logs receipt = Inr logs \<and> (\<forall>log \<in> set logs. same_js (js_field log ''transactionHash'') (JStr h) \<and> same_js (js_field log ''blockHash'') (rx_blockHash x))))"

lemma coordinates_facts: "coordinates r v = Inr u \<Longrightarrow> (\<exists>n. rx_blockNumber r = Some n \<and> link_quantity (js_field v ''blockNumber'') = Inr n) \<and> link_quantity (js_field v ''transactionIndex'') = Inr (rx_transactionIndex r)"
  by (auto simp: coordinates_def res_bind_Inr_iff)

lemma inclusion_facts:
  assumes "checkInclusion lib (Some x) h cid ok = Inr u"
  shows "included x h \<and> (\<exists>s. link_quantity (js_field (rx_receipt x) ''status'') = Inr s \<and> (s = 1 \<or> s = 0 \<and> \<not> ok))"
proof -
  from assms obtain status logs us u1 u2 where
    t: "js_truthy (rx_blockHash x)" "same_js (js_field (rx_transaction x) ''hash'') (JStr h)" "same_js (js_field (rx_receipt x) ''transactionHash'') (JStr h)"
    and s: "link_quantity (js_field (rx_receipt x) ''status'') = Inr status" "status = 1 \<or> status = 0 \<and> \<not> ok"
    and b: "same_js (js_field (rx_transaction x) ''blockHash'') (rx_blockHash x)" "same_js (js_field (rx_receipt x) ''blockHash'') (rx_blockHash x)"
    and c: "coordinates x (rx_transaction x) = Inr u1" "coordinates x (rx_receipt x) = Inr u2"
    and logs: "linked_logs (rx_receipt x) = Inr logs" "res_map (log_included x h) logs = Inr us"
    unfolding checkInclusion_def option.case Let_def by (simp only: res_bind_Inr_iff require_Inr) blast
  have "\<forall>log \<in> set logs. same_js (js_field log ''transactionHash'') (JStr h) \<and> same_js (js_field log ''blockHash'') (rx_blockHash x)"
  proof
    fix log assume "log \<in> set logs"
    from res_map_member [OF logs(2) this] show "same_js (js_field log ''transactionHash'') (JStr h) \<and> same_js (js_field log ''blockHash'') (rx_blockHash x)"
      by (auto simp: log_included_def res_bind_Inr_iff)
  qed
  with t b logs coordinates_facts [OF c(1)] coordinates_facts [OF c(2)] s show ?thesis unfolding included_def Let_def by auto
qed

text \<open>A canonical block that was read holds the transaction: the number of the block and its hash are those of the record, and its
  list of transactions has the hash at the index of the record.\<close>

definition in_canonical_block :: "chain_reader \<Rightarrow> string \<Rightarrow> rpc_record \<Rightarrow> bool" where
  "in_canonical_block rd h x \<longleftrightarrow>
     (\<exists>n b block txs k. rx_blockNumber x = Some n \<and> read_block rd b = Inr block \<and> trace_number (js_field block ''number'') = Inr n
        \<and> js_field block ''hash'' = rx_blockHash x \<and> js_field block ''transactions'' = JArr txs \<and> nat (rx_transactionIndex x) < length txs
        \<and> entry_hash (txs ! nat (rx_transactionIndex x)) = Inr k \<and> same_js k (JStr h))"

lemma recovered_in_block:
  assumes "recover rd h hint = Inr (Some x)" and "included x h'"
  shows "in_canonical_block rd h x"
proof -
  from assms(2) obtain n where n: "rx_blockNumber x = Some n" and t: "js_truthy (rx_blockHash x)" unfolding included_def Let_def by blast
  have eq: "v = js_coalesce v JNull" if "js_truthy (js_coalesce v JNull)" for v using that by (cases v) (auto simp: js_coalesce_def)
  from recovered_entry [OF assms(1) n] n t eq show ?thesis unfolding entry_of_def in_canonical_block_def by metis
qed

text \<open>A record that was recovered for its key.\<close>

definition recovered :: "link_env \<Rightarrow> chain \<times> string \<Rightarrow> rpc_record \<Rightarrow> bool" where
  "recovered env k x \<longleftrightarrow> recover (le_readers env (fst k)) (snd k) JNull = Inr (Some x)"

lemma recover_all_facts:
  "recover_all env rs records = Inr result \<Longrightarrow> (\<And>k x. jmap_get records k = Some x \<Longrightarrow> recovered env k x) \<Longrightarrow>
     (\<forall>k x. jmap_get records k = Some x \<longrightarrow> jmap_get result k = Some x)
     \<and> (\<forall>r \<in> set rs. \<exists>x. jmap_get result (rf_chain r, rf_hash r) = Some x \<and> checkInclusion (le_lib env) (Some x) (rf_hash r) (rf_chainId r) True = Inr ()
         \<and> recovered env (rf_chain r, rf_hash r) x)"
proof (induction rs arbitrary: records)
  case (Cons r rs)
  let ?k = "(rf_chain r, rf_hash r)"
  from Cons.prems(1) obtain x where x: "checkInclusion (le_lib env) (Some x) (rf_hash r) (rf_chainId r) True = Inr ()"
    and rest: "recover_all env rs (jmap_set ?k x records) = Inr result"
    and old: "\<forall>y. jmap_get records ?k = Some y \<longrightarrow> y = x" "jmap_get records ?k = Some x \<or> recovered env ?k x"
    by (auto simp: res_bind_Inr_iff recovered_def split: option.splits)
  from old(2) Cons.prems(2) have now: "recovered env ?k x" by blast
  have step: "recovered env k y" if "jmap_get (jmap_set ?k x records) k = Some y" for k y
    using that now Cons.prems(2) by (cases "k = ?k") auto
  note ih = Cons.IH [OF rest step]
  have "jmap_get result k = Some y" if "jmap_get records k = Some y" for k y
  proof -
    have "jmap_get (jmap_set ?k x records) k = Some y" using that old(1) by (cases "k = ?k") auto
    with ih show ?thesis by blast
  qed
  moreover have "jmap_get result ?k = Some x" using ih by simp
  ultimately show ?case using ih x now by auto
qed simp

section \<open>A validated link\<close>

definition no_table_between :: "link_env \<Rightarrow> rpc_record \<Rightarrow> rpc_record \<Rightarrow> bool" where
  "no_table_between env loader source \<longleftrightarrow>
     (\<exists>n block txs. rx_blockNumber source = Some n \<and> read_block (le_readers env L2) (JNum n) = Inr block \<and> js_field block ''transactions'' = JArr txs
       \<and> (\<forall>i. rx_transactionIndex loader < i \<and> i \<le> rx_transactionIndex source \<longrightarrow>
            nat i < length txs
            \<and> (\<exists>h x. entry_hash (txs ! nat i) = Inr (JStr h) \<and> recover (le_readers env L2) h (JNum n) = Inr (Some x) \<and> included x (js_lower h) \<and> in_canonical_block (le_readers env L2) h x
                \<and> manager_named_events (le_lib env) x (le_managers env L2) ''ExecutionTableLoaded'' = Inr [])))"

lemma entry_hash_undefined: "entry_hash JUndefined = Inl TypeError"
  by (simp add: entry_hash_def js_get_def)

lemma set_int_range [simp]: "i \<in> set (int_range a b) \<longleftrightarrow> a \<le> i \<and> i \<le> b"
proof
  assume "a \<le> i \<and> i \<le> b"
  then have "i = a + int (nat (i - a))" "nat (i - a) \<in> {0 ..< nat (b - a + 1)}" by auto
  then show "i \<in> set (int_range a b)" unfolding int_range_def by (metis atLeast_upt image_eqI lessThan_atLeast0 list.set_map)
qed (auto simp: int_range_def)

lemma loads_no_table_facts:
  assumes "loads_no_table env cid n tx = Inr u"
  shows "\<exists>h x. entry_hash tx = Inr (JStr h) \<and> recover (le_readers env L2) h n = Inr (Some x) \<and> included x (js_lower h)
    \<and> in_canonical_block (le_readers env L2) h x \<and> manager_named_events (le_lib env) x (le_managers env L2) ''ExecutionTableLoaded'' = Inr []"
proof -
  from assms obtain k where k: "entry_hash tx = Inr k" unfolding loads_no_table_def res_bind_Inr_iff by blast
  with assms obtain h where h: "k = JStr h" by (cases k) (auto simp: loads_no_table_def)
  from assms [unfolded loads_no_table_def k h] obtain x where "recover (le_readers env L2) h n = Inr (Some x)"
    and i: "checkInclusion (le_lib env) (Some x) (js_lower h) cid False = Inr ()" and e: "manager_named_events (le_lib env) x (le_managers env L2) ''ExecutionTableLoaded'' = Inr []"
    by (auto simp: res_bind_Inr_iff)
  with k h inclusion_facts [OF i] recovered_in_block show ?thesis by blast
qed

lemma between_facts:
  assumes "check_between env cid loader source = Inr u" and n: "rx_blockNumber source = Some n"
  shows "no_table_between env loader source"
proof -
  from assms obtain block v txs us where b: "read_block (le_readers env L2) (JNum n) = Inr block" and v: "js_get block ''transactions'' = Inr v" "js_array v = Inr txs"
    and all: "res_map (\<lambda>i. loads_no_table env cid (JNum n) (if nat i < length txs then txs ! nat i else JUndefined)) (int_range (rx_transactionIndex loader + 1) (rx_transactionIndex source)) = Inr us"
    unfolding check_between_def n option.case Let_def by (simp only: res_bind_Inr_iff) blast
  have arr: "js_field block ''transactions'' = JArr txs" using v by (cases v) (auto simp: js_get_def js_array_def split: if_splits)
  have "nat i < length txs \<and> (\<exists>h x. entry_hash (txs ! nat i) = Inr (JStr h) \<and> recover (le_readers env L2) h (JNum n) = Inr (Some x) \<and> included x (js_lower h)
      \<and> in_canonical_block (le_readers env L2) h x \<and> manager_named_events (le_lib env) x (le_managers env L2) ''ExecutionTableLoaded'' = Inr [])"
    if i: "rx_transactionIndex loader < i \<and> i \<le> rx_transactionIndex source" for i
  proof -
    from i have "i \<in> set (int_range (rx_transactionIndex loader + 1) (rx_transactionIndex source))" by simp
    from res_map_member [OF all this] obtain y where y: "loads_no_table env cid (JNum n) (if nat i < length txs then txs ! nat i else JUndefined) = Inr y" by blast
    show ?thesis
    proof (cases "nat i < length txs")
      case True
      with loads_no_table_facts [OF y] show ?thesis by simp
    next
      case False
      with loads_no_table_facts [OF y] show ?thesis by (simp add: entry_hash_undefined)
    qed
  qed
  with n b arr show ?thesis unfolding no_table_between_def by blast
qed

definition l1_source_ok :: "link_env \<Rightarrow> tx_links \<Rightarrow> link_records \<Rightarrow> rpc_record \<Rightarrow> bool" where
  "l1_source_ok env link records source \<longleftrightarrow>
     (\<exists>tables rollup hs. link_tables link records = Inr tables \<and> le_l2RollupId env = Some rollup
        \<and> consumed_calls env rollup source = Inr hs \<and> list_all2 (\<lambda>t h. delivered_hash env t = Inr h) tables hs)"

definition l2_source_ok :: "link_env \<Rightarrow> tx_links \<Rightarrow> link_records \<Rightarrow> rpc_record \<Rightarrow> bool" where
  "l2_source_ok env link records source \<longleftrightarrow>
     (\<exists>loader ts e. link_tables link records = Inr (loader # ts) \<and> same_block loader source \<and> rx_transactionIndex loader < rx_transactionIndex source
        \<and> manager_named_events (le_lib env) loader (le_managers env L2) ''ExecutionTableLoaded'' = Inr [e] \<and> no_table_between env loader source)"

text \<open>C14. What a validated transaction link proves. When a record of the frontend normalises to a complete link and
  the link passes validation, then every transaction that it names ran successfully in its canonical block: a block
  was read from the node of its chain whose number and hash are those of the record and which lists the hash at the index of the
  record, and the record agrees with its receipt and logs on hash, block and position; the source transaction is among them;
  the batch was posted in the block of the L1 execution and not after it; and for a source on L1 the
  calls that it consumed for the L2 rollup are exactly the calls that the linked deliveries emitted, in
  block order; for a source on L2 the table was loaded once, earlier in the same block, and no
  transaction after the loader up to and including the source loaded another table.\<close>
theorem validated_link_evidence:
  assumes "normalizeTransactionLinks (le_lib env) raw origin ids = Inr (Link_complete link)"
    and "validateTransactionLinks env link origin = Inr records"
  shows "(\<forall>r \<in> set (lk_references link). \<exists>x. jmap_get records (rf_chain r, rf_hash r) = Some x \<and> included x (rf_hash r)
        \<and> in_canonical_block (le_readers env (rf_chain r)) (rf_hash r) x \<and> link_quantity (js_field (rx_receipt x) ''status'') = Inr 1)
    \<and> (\<exists>source l1 post. jmap_get records (lo_chain origin, js_lower (lo_hash origin)) = Some source \<and> included source (js_lower (lo_hash origin))
        \<and> in_canonical_block (le_readers env (lo_chain origin)) (js_lower (lo_hash origin)) source
        \<and> jmap_get records (L1, rf_hash (hd (lk_references link))) = Some l1
        \<and> (\<exists>p \<in> set (lk_references link). rf_role p = ''l1-post-batch'' \<and> jmap_get records (L1, rf_hash p) = Some post)
        \<and> post_precedes post l1 \<and> batch_posted env post
        \<and> (if lo_chain origin = L1 then l1_source_ok env link records source else l2_source_ok env link records source))"
proof (intro conjI)
  from assms(2) have ra: "recover_all env (lk_references link) [] = Inr records" and cr: "check_records env link origin records = Inr ()"
    by (auto simp: validateTransactionLinks_def res_bind_Inr_iff)
  have found: "\<forall>r \<in> set (lk_references link). \<exists>x. jmap_get records (rf_chain r, rf_hash r) = Some x
      \<and> checkInclusion (le_lib env) (Some x) (rf_hash r) (rf_chainId r) True = Inr () \<and> recovered env (rf_chain r, rf_hash r) x"
    using recover_all_facts [OF ra] by simp
  show refs: "\<forall>r \<in> set (lk_references link). \<exists>x. jmap_get records (rf_chain r, rf_hash r) = Some x \<and> included x (rf_hash r)
        \<and> in_canonical_block (le_readers env (rf_chain r)) (rf_hash r) x \<and> link_quantity (js_field (rx_receipt x) ''status'') = Inr 1"
  proof
    fix r assume "r \<in> set (lk_references link)"
    with found obtain x where x: "jmap_get records (rf_chain r, rf_hash r) = Some x" "checkInclusion (le_lib env) (Some x) (rf_hash r) (rf_chainId r) True = Inr ()"
      and rec: "recover (le_readers env (rf_chain r)) (rf_hash r) JNull = Inr (Some x)" by (auto simp: recovered_def)
    note inc = inclusion_facts [OF x(2)]
    with x(1) recovered_in_block [OF rec] show "\<exists>x. jmap_get records (rf_chain r, rf_hash r) = Some x \<and> included x (rf_hash r)
        \<and> in_canonical_block (le_readers env (rf_chain r)) (rf_hash r) x \<and> link_quantity (js_field (rx_receipt x) ''status'') = Inr 1" by auto
  qed
  obtain s where s: "s \<in> set (lk_references link)" "rf_chain s = lo_chain origin" "rf_hash s = js_lower (lo_hash origin)"
    using complete_source [OF normalize_complete [OF assms(1)]] by blast
  from cr obtain source first l1 postRef post tables us where src: "record_of records (lo_chain origin) (js_lower (lo_hash origin)) = Inr source"
    and first: "js_defined (case lk_references link of [] \<Rightarrow> None | r # rs \<Rightarrow> Some r) = Inr first" and l1: "record_of records L1 (rf_hash first) = Inr l1"
    and pr: "post_reference link = Inr postRef" and post: "record_of records L1 (rf_hash postRef) = Inr post"
    and pre: "post_precedes post l1" "batch_posted env post" and tables: "link_tables link records = Inr tables"
    and final: "(if lo_chain origin = L1 then check_deliveries env source tables else check_loader env link source tables) = Inr ()"
    unfolding check_records_def by (simp only: res_bind_Inr_iff require_Inr) blast
  have source: "jmap_get records (lo_chain origin, js_lower (lo_hash origin)) = Some source" using src by (simp add: record_of_def)
  with refs s have inc: "included source (js_lower (lo_hash origin))"
    "in_canonical_block (le_readers env (lo_chain origin)) (js_lower (lo_hash origin)) source" by force+
  then obtain n where n: "rx_blockNumber source = Some n" unfolding included_def Let_def by blast
  have ok: "if lo_chain origin = L1 then l1_source_ok env link records source else l2_source_ok env link records source"
  proof (cases "lo_chain origin = L1")
    case True
    with final obtain rollup hs where "le_l2RollupId env = Some rollup" "consumed_calls env rollup source = Inr hs" "res_map (delivered_hash env) tables = Inr hs"
      by (auto simp: check_deliveries_def res_bind_Inr_iff split: option.splits)
    with True tables show ?thesis by (auto simp: l1_source_ok_def res_map_all2)
  next
    case False
    with final obtain loader ts es cid where "tables = loader # ts" "same_block loader source" "rx_transactionIndex loader < rx_transactionIndex source"
      "manager_named_events (le_lib env) loader (le_managers env L2) ''ExecutionTableLoaded'' = Inr es" "length es = 1" "check_between env cid loader source = Inr ()"
      by (auto simp: check_loader_def res_bind_Inr_iff split: list.splits)
    moreover from this(5) obtain e where "es = [e]" by (auto simp: length_Suc_conv)
    ultimately show ?thesis using False tables between_facts [OF _ n] unfolding l2_source_ok_def by auto
  qed
  have "hd (lk_references link) = first" using first by (auto split: list.splits)
  moreover have "postRef \<in> set (lk_references link)" "rf_role postRef = ''l1-post-batch''" using pr by (auto simp: post_reference_def dest: find_Some_mem)
  ultimately show "\<exists>source l1 post. jmap_get records (lo_chain origin, js_lower (lo_hash origin)) = Some source \<and> included source (js_lower (lo_hash origin))
        \<and> in_canonical_block (le_readers env (lo_chain origin)) (js_lower (lo_hash origin)) source
        \<and> jmap_get records (L1, rf_hash (hd (lk_references link))) = Some l1
        \<and> (\<exists>p \<in> set (lk_references link). rf_role p = ''l1-post-batch'' \<and> jmap_get records (L1, rf_hash p) = Some post)
        \<and> post_precedes post l1 \<and> batch_posted env post
        \<and> (if lo_chain origin = L1 then l1_source_ok env link records source else l2_source_ok env link records source)"
    using source inc l1 post pre ok unfolding record_of_def by (auto intro!: exI [of _ source] exI [of _ l1] exI [of _ post])
qed

text \<open>An L2 transaction, loaded by the transaction before it, executed on L1 by the transaction that posts the batch.\<close>

definition source_hash :: string where
  "source_hash = ''0xaaaaaaaaaaaaaaaaaaaaaaaaaaaaaaaaaaaaaaaaaaaaaaaaaaaaaaaaaaaaaaaa''"

definition loader_hash :: string where
  "loader_hash = ''0xbbbbbbbbbbbbbbbbbbbbbbbbbbbbbbbbbbbbbbbbbbbbbbbbbbbbbbbbbbbbbbbb''"

definition posting_hash :: string where
  "posting_hash = ''0xcccccccccccccccccccccccccccccccccccccccccccccccccccccccccccccccc''"

definition link_place :: "string \<Rightarrow> (string \<times> string \<times> string) option" where \<comment> \<open>block hash, number and index\<close>
  "link_place h = (if h = posting_hash then Some (''0xl1'', ''0x9'', ''0x0'') else if h = loader_hash then Some (''0xl2'', ''0x5'', ''0x0'')
     else if h = source_hash then Some (''0xl2'', ''0x5'', ''0x1'') else None)"

definition link_logs :: "string \<Rightarrow> js" where
  "link_logs h = JArr (if h = loader_hash then [JObj [(''address'', JStr ''0xm2''), (''logIndex'', JNum 0), (''blockHash'', JStr ''0xl2''), (''blockNumber'', JStr ''0x5''),
     (''transactionHash'', JStr loader_hash)]] else [])"

definition link_target :: "string \<Rightarrow> js" where
  "link_target h = JStr (if h = posting_hash then ''0xm1'' else if h = loader_hash then ''0xm2'' else ''0xapp'')"

definition link_tx :: "string \<Rightarrow> js" where
  "link_tx h = (case link_place h of None \<Rightarrow> JNull | Some (b, n, i) \<Rightarrow> JObj [(''hash'', JStr h), (''blockHash'', JStr b), (''blockNumber'', JStr n), (''transactionIndex'', JStr i),
     (''to'', link_target h), (''input'', JStr (if h = posting_hash then ''post'' else if h = loader_hash then ''load'' else ''app''))])"

definition link_receipt :: "string \<Rightarrow> js" where
  "link_receipt h = (case link_place h of None \<Rightarrow> JNull | Some (b, n, i) \<Rightarrow> JObj [(''transactionHash'', JStr h), (''status'', JStr ''0x1''), (''blockHash'', JStr b), (''blockNumber'', JStr n),
     (''transactionIndex'', JStr i), (''to'', link_target h), (''logs'', link_logs h)])"

definition link_quantity_text :: "js \<Rightarrow> js_error + string" where
  "link_quantity_text v = (case v of JNum n \<Rightarrow> Inr (hex_of n) | JStr s \<Rightarrow> res_bind (string_BigInt s) (\<lambda>n. Inr (hex_of n)) | _ \<Rightarrow> Inl TypeError)"

definition link_node :: trace_node where
  "link_node = \<lparr>nd_rpc = (\<lambda>url m ps. Inr (case ps of
       JStr k # _ \<Rightarrow> (if m = ''eth_getTransactionByHash'' then link_tx k else if m = ''eth_getTransactionReceipt'' then link_receipt k
         else if k = ''0x9'' then JObj [(''number'', JStr k), (''hash'', JStr ''0xl1''), (''transactions'', JArr [JStr posting_hash])]
         else if k = ''0x5'' then JObj [(''number'', JStr k), (''hash'', JStr ''0xl2''), (''transactions'', JArr [JStr loader_hash, JStr source_hash])] else JNull)
     | _ \<Rightarrow> JNull)), nd_traceTransaction = (\<lambda>u h. Inr None), nd_traceBlock = (\<lambda>u m k. Inr None), nd_toQuantity = link_quantity_text\<rparr>"

definition sample_link_lib :: link_lib where
  "sample_link_lib = \<lparr>ll_call = (\<lambda>c v. if v = JStr ''post'' then Some \<lparr>pc_name = ''postAndVerifyBatch'', pc_args = []\<rparr>
       else if v = JStr ''load'' then Some \<lparr>pc_name = ''loadExecutionTable'', pc_args = []\<rparr> else None),
     ll_event = (\<lambda>c log. Some (''ExecutionTableLoaded'', [])), ll_reads = (\<lambda>c v. False), ll_toQuantity = link_quantity_text\<rparr>"

definition sample_link_env :: link_env where
  "sample_link_env = \<lparr>le_lib = sample_link_lib, le_readers = (\<lambda>c. \<lparr>cr_chain = c, cr_url = ''u'', cr_traceUrl = ''u'', cr_node = link_node\<rparr>),
     le_managers = (\<lambda>c. if c = L1 then ''0xm1'' else ''0xm2''), le_l2RollupId = Some ''2''\<rparr>"

definition sample_ids :: "chain \<Rightarrow> string" where
  "sample_ids c = (if c = L1 then ''1'' else ''2'')"

definition sample_origin :: link_origin where
  "sample_origin = \<lparr>lo_chain = L2, lo_hash = source_hash\<rparr>"

definition named_transaction :: "string \<Rightarrow> string \<Rightarrow> js" where
  "named_transaction k h = JObj [(''chainId'', JStr k), (''hash'', JStr h)]"

definition sample_raw :: js where
  "sample_raw = JObj [(''hash'', JStr source_hash), (''direction'', JStr ''outbound''), (''transactions'', JObj [(''complete'', JBool True),
     (''l1'', named_transaction ''0x1'' posting_hash), (''postBatch'', named_transaction ''0x1'' posting_hash),
     (''l2'', JArr [named_transaction ''0x2'' loader_hash, named_transaction ''0x2'' source_hash])])]"

definition sample_links :: tx_links where
  "sample_links = (case normalizeTransactionLinks sample_link_lib sample_raw sample_origin sample_ids of Inr (Link_complete k) \<Rightarrow> k
     | _ \<Rightarrow> \<lparr>lk_id = [], lk_sourceChain = L1, lk_sourceHash = [], lk_references = [], lk_raw = JNull\<rparr>)"

lemma sample_complete: "normalizeTransactionLinks (le_lib sample_link_env) sample_raw sample_origin sample_ids = Inr (Link_complete sample_links)"
  by code_simp

lemma sample_validates: "case validateTransactionLinks sample_link_env sample_links sample_origin of Inr rs \<Rightarrow> True | Inl e \<Rightarrow> False"
  by code_simp

theorem validated_link_evidence_witness:
  "\<exists>records source. validateTransactionLinks sample_link_env sample_links sample_origin = Inr records
     \<and> jmap_get records (L2, source_hash) = Some source \<and> in_canonical_block (le_readers sample_link_env L2) source_hash source
     \<and> l2_source_ok sample_link_env sample_links records source"
proof -
  obtain records where r: "validateTransactionLinks sample_link_env sample_links sample_origin = Inr records"
    using sample_validates by (cases "validateTransactionLinks sample_link_env sample_links sample_origin") auto
  have "lo_chain sample_origin = L2" "js_lower (lo_hash sample_origin) = source_hash" by code_simp+
  with validated_link_evidence [OF sample_complete r] r show ?thesis by auto
qed

end
