(* ===== verification/Composer_Probe.thy ===== *)
theory Composer_Probe
  imports Fee_Quote
begin

text \<open>
  \<open>src/src/lib/composerDiscovery.ts\<close>: the probe that asks the selected wallet whether it is connected to the
  Composer of this deployment.
  The wallet, the ABI library and the random nonce are the fields of \<open>composer_io\<close>. The probe races
  with a timer: an answer that does not arrive in time is the failure \<open>timed_out\<close> of that request, as the
  race ends there and \<open>sourceChain\<close> keeps its value. A failure is an \<open>Error\<close> with its message or another
  thrown value.
\<close>

datatype probe_failure = Failed string | Failed_other

definition timed_out :: probe_failure where
  "timed_out = Failed ''Composer verification timed out; recheck your wallet RPC''"

definition fail :: "string \<Rightarrow> probe_failure + 'a" where
  "fail msg = Inl (Failed msg)"

lemma fail_not_Inr [simp]: "fail msg \<noteq> Inr x" "Inr x \<noteq> fail msg"
  by (simp_all add: fail_def)

lemma res_bind_fail [simp]: "res_bind (fail msg) f = fail msg"
  by (simp add: fail_def)

text \<open>What \<open>composerInfo\<close> returns: the marker, the schema version, the nonce, the chain and the metadata.\<close>

type_synonym composer_answer = "string \<times> int \<times> string \<times> int \<times> string"

record composer_io =
  co_chainId :: "nat \<Rightarrow> probe_failure + js" \<comment> \<open>the first and the second \<open>eth_chainId\<close>\<close>
  co_call :: "string \<Rightarrow> string \<Rightarrow> probe_failure + js" \<comment> \<open>\<open>eth_call\<close> of an address with calldata\<close>
  co_nonce :: string
  co_encode :: "string \<Rightarrow> string"
  co_decode :: "string \<Rightarrow> probe_failure + composer_answer"
  co_json :: "string \<Rightarrow> probe_failure + js" \<comment> \<open>\<open>JSON.parse\<close> of the decoded bytes\<close>
  co_toHex :: "int \<Rightarrow> string"
  co_marker :: string \<comment> \<open>the hash \<open>COMPOSER_DISCOVERY_MARKER\<close>\<close>

record composer_expectation =
  ce_l1ChainId :: js
  ce_l2ChainId :: js
  ce_registryAddress :: "string option"
  ce_l2Address :: "string option"
  ce_rollupManagerAddress :: "string option"
  ce_l1BridgeAddress :: "string option"
  ce_l2BridgeAddress :: "string option"

datatype detection_status = Detected | Not_detected | Mismatch | Probe_unavailable | Unsupported_network

record composer_detection =
  de_status :: detection_status
  de_chainId :: "string option"
  de_detail :: string
  de_info :: "js_object option"

definition COMPOSER_DISCOVERY_ADDRESS :: string where
  "COMPOSER_DISCOVERY_ADDRESS = ''0x7Ae2c80116976915a0Ee9b7994e7Bb12026087f8''"

section \<open>Untyped values\<close>

text \<open>\<open>chainId(value)\<close>: \<open>/^0x[\da-f]+$/i\<close> and the number it denotes.\<close>

definition hex_number :: "string \<Rightarrow> int" where
  "hex_number s = (case parse_digits 16 (drop 2 s) of Inr n \<Rightarrow> n | Inl e \<Rightarrow> 0)"

definition probe_chainId :: "js \<Rightarrow> probe_failure + int" where
  "probe_chainId v =
     (case v of
        JStr s \<Rightarrow> if is_hex_text s \<and> length s > 2 then Inr (hex_number s) else fail ''Invalid wallet chain ID''
      | _ \<Rightarrow> fail ''Invalid wallet chain ID'')"

definition js_record :: "js \<Rightarrow> bool" where
  "js_record v = (case v of JObj _ \<Rightarrow> True | _ \<Rightarrow> False)"

definition nonzero_address :: "js \<Rightarrow> bool" where
  "nonzero_address v = (case v of JStr s \<Rightarrow> is_hex_of 40 s \<and> hex_number s \<noteq> 0 | _ \<Rightarrow> False)"

text \<open>\<open>s.trim()\<close> is empty.\<close>

definition js_blank :: "string \<Rightarrow> bool" where
  "js_blank s \<longleftrightarrow> list_all (\<lambda>c. c \<in> set [CHR 0x09, CHR 0x0A, CHR 0x0B, CHR 0x0C, CHR 0x0D, CHR 0x20]) s"

section \<open>The metadata\<close>

definition version_ok :: "js \<Rightarrow> bool" where
  "version_ok v = (case v of JStr s \<Rightarrow> \<not> js_blank s \<and> int (length s) \<le> 128 | _ \<Rightarrow> False)"

definition network_id_ok :: "js \<Rightarrow> bool" where
  "network_id_ok v = (case v of JNum n \<Rightarrow> is_safe_integer n \<and> n > 0 | _ \<Rightarrow> False)"

definition parseInfo :: "composer_io \<Rightarrow> string \<Rightarrow> probe_failure + js_object" where
  "parseInfo io bs =
     res_bind (co_json io bs) (\<lambda>info.
       case info of
         JObj ob \<Rightarrow>
           (let networks = js_prop ob ''supportedNetworks''; contracts = js_prop ob ''eezContracts''
            in if \<not> version_ok (js_prop ob ''version'') \<or> \<not> js_record networks \<or> \<not> js_record contracts
               then fail ''Invalid Composer metadata''
               else if \<not> list_all (\<lambda>k. network_id_ok (js_field networks k)) [''eezL1'', ''eezL2'']
               then fail ''Invalid Composer network IDs''
               else if \<not> list_all (\<lambda>k. nonzero_address (js_field contracts k)) [''eezRegistryAddress'', ''eezL2Address'']
                 \<or> \<not> list_all (\<lambda>k. js_field contracts k = JUndefined \<or> nonzero_address (js_field contracts k))
                      [''eezRollupManagerAddress'', ''eezL1BridgeSender'', ''eezL2BridgeReceiver'']
               then fail ''Invalid Composer contract addresses''
               else Inr ob)
       | _ \<Rightarrow> fail ''Invalid Composer metadata'')"

section \<open>The probe\<close>

definition composer_network :: "js_object \<Rightarrow> string \<Rightarrow> int" where
  "composer_network info k = (case js_field (js_prop info ''supportedNetworks'') k of JNum n \<Rightarrow> n | _ \<Rightarrow> 0)"

definition composer_contract :: "js_object \<Rightarrow> string \<Rightarrow> string option" where
  "composer_contract info k = (case js_field (js_prop info ''eezContracts'') k of JStr s \<Rightarrow> Some s | _ \<Rightarrow> None)"

text \<open>The compared contracts: the name, the configured and the advertised address.\<close>

definition composer_contracts :: "composer_expectation \<Rightarrow> js_object \<Rightarrow> (string \<times> string option \<times> string option) list" where
  "composer_contracts expected info =
     [(''L1 registry'', ce_registryAddress expected, composer_contract info ''eezRegistryAddress''),
      (''L2 manager'', ce_l2Address expected, composer_contract info ''eezL2Address''),
      (''rollup manager'', ce_rollupManagerAddress expected, composer_contract info ''eezRollupManagerAddress''),
      (''L1 bridge'', ce_l1BridgeAddress expected, composer_contract info ''eezL1BridgeSender''),
      (''L2 bridge'', ce_l2BridgeAddress expected, composer_contract info ''eezL2BridgeReceiver'')]"

definition different_contract :: "string option \<Rightarrow> string option \<Rightarrow> bool" where
  "different_contract configured advertised =
     (case (configured, advertised) of
        (Some a, Some b) \<Rightarrow> a \<noteq> [] \<and> b \<noteq> [] \<and> js_lower a \<noteq> js_lower b
      | _ \<Rightarrow> False)"

definition composer_mismatch :: "string \<Rightarrow> js_object \<Rightarrow> string \<Rightarrow> composer_detection" where
  "composer_mismatch source info detail =
     \<lparr>de_status = Mismatch, de_chainId = Some source, de_detail = detail, de_info = Some info\<rparr>"

definition compare_info ::
  "composer_expectation \<Rightarrow> string \<Rightarrow> int \<Rightarrow> int \<Rightarrow> js_object \<Rightarrow> probe_failure + composer_detection" where
  "compare_info expected source before sourceChainId info =
     (let mismatch = composer_mismatch source info
      in if sourceChainId \<noteq> before then Inr (mismatch ''Composer source chain does not match the wallet network'')
         else res_bind (probe_chainId (ce_l1ChainId expected)) (\<lambda>l1.
           if composer_network info ''eezL1'' \<noteq> l1 then Inr (mismatch ''Composer serves a different L1/L2 network pair'')
           else res_bind (probe_chainId (ce_l2ChainId expected)) (\<lambda>l2.
             if composer_network info ''eezL2'' \<noteq> l2 then Inr (mismatch ''Composer serves a different L1/L2 network pair'')
             else case find (\<lambda>(name, configured, advertised). different_contract configured advertised) (composer_contracts expected info) of
                 Some (name, _) \<Rightarrow> Inr (mismatch (''Composer '' @ name @ '' address does not match this dashboard''))
               | None \<Rightarrow> Inr \<lparr>de_status = Detected, de_chainId = Some source,
                   de_detail = ''The wallet read reached Composer for this deployment'', de_info = Some info\<rparr>)))"

text \<open>\<open>/^0x(?:[\da-f]{2})+$/i\<close> of at most 32770 characters.\<close>

definition response_text :: "js \<Rightarrow> string option" where
  "response_text v = (case v of
     JStr s \<Rightarrow> if is_hex_text s \<and> even (length s) \<and> length s > 2 \<and> int (length s) \<le> 32770 then Some s else None | _ \<Rightarrow> None)"

definition read_response ::
  "composer_io \<Rightarrow> composer_expectation \<Rightarrow> string \<Rightarrow> int \<Rightarrow> js \<Rightarrow> probe_failure + composer_detection" where
  "read_response io expected source before response =
     (if response = JStr ''0x''
      then Inr \<lparr>de_status = Not_detected, de_chainId = Some source, de_detail = ''The wallet read did not identify Composer.'', de_info = None\<rparr>
      else case response_text response of
          None \<Rightarrow> fail ''Invalid Composer discovery response''
        | Some text \<Rightarrow> res_bind (co_decode io text) (\<lambda>(marker, schema, echoedNonce, sourceChainId, bs).
            if js_lower marker \<noteq> co_marker io then fail ''Unrecognized Composer discovery marker''
            else if schema \<noteq> 1 then fail ''Unsupported Composer discovery version''
            else if js_lower echoedNonce \<noteq> js_lower (co_nonce io) then fail ''Composer discovery nonce did not match; recheck Composer''
            else res_bind (parseInfo io bs) (\<lambda>info. compare_info expected source before sourceChainId info)))"

text \<open>The network is one of the two: the second one is read when the first one is another.\<close>

definition supported_network :: "composer_expectation \<Rightarrow> int \<Rightarrow> probe_failure + bool" where
  "supported_network expected before =
     res_bind (probe_chainId (ce_l1ChainId expected)) (\<lambda>l1.
       if before = l1 then Inr True
       else res_bind (probe_chainId (ce_l2ChainId expected)) (\<lambda>l2. Inr (before = l2)))"

definition probe_network :: "composer_io \<Rightarrow> composer_expectation \<Rightarrow> string \<Rightarrow> int \<Rightarrow> probe_failure + composer_detection" where
  "probe_network io expected source before =
     res_bind (supported_network expected before) (\<lambda>supported.
       if \<not> supported
       then Inr \<lparr>de_status = Unsupported_network, de_chainId = Some source,
              de_detail = ''Select a dashboard network to check Composer'', de_info = None\<rparr>
       else res_bind (co_call io COMPOSER_DISCOVERY_ADDRESS (co_encode io (co_nonce io))) (\<lambda>response.
            res_bind (co_chainId io 1) (\<lambda>v. res_bind (probe_chainId v) (\<lambda>after.
              if before \<noteq> after then fail ''Wallet network changed during verification; recheck Composer''
              else read_response io expected source before response))))"

definition probe_unavailable :: "string option \<Rightarrow> probe_failure \<Rightarrow> composer_detection" where
  "probe_unavailable source e =
     \<lparr>de_status = Probe_unavailable, de_chainId = source,
      de_detail = (case e of Failed msg \<Rightarrow> js_slice_to 240 msg | Failed_other \<Rightarrow> ''Unable to verify the wallet RPC''), de_info = None\<rparr>"

definition probeComposer :: "composer_io \<Rightarrow> composer_expectation \<Rightarrow> composer_detection" where
  "probeComposer io expected =
     (case res_bind (co_chainId io 0) probe_chainId of
        Inl e \<Rightarrow> probe_unavailable None e
      | Inr before \<Rightarrow>
          let source = co_toHex io before
          in case probe_network io expected source before of
              Inl e \<Rightarrow> probe_unavailable (Some source) e
            | Inr d \<Rightarrow> d)"

section \<open>What the probe establishes\<close>

definition authentic_answer :: "composer_io \<Rightarrow> js \<Rightarrow> int \<Rightarrow> js_object \<Rightarrow> bool" where
  "authentic_answer io response source info \<longleftrightarrow>
     (\<exists>text marker echoed bs. response_text response = Some text \<and> co_decode io text = Inr (marker, 1, echoed, source, bs)
        \<and> js_lower marker = co_marker io \<and> js_lower echoed = js_lower (co_nonce io) \<and> parseInfo io bs = Inr info)"

definition contracts_agree :: "composer_expectation \<Rightarrow> js_object \<Rightarrow> bool" where
  "contracts_agree expected info \<longleftrightarrow>
     (\<forall>(name, configured, advertised) \<in> set (composer_contracts expected info).
        \<forall>a b. configured = Some a \<longrightarrow> advertised = Some b \<longrightarrow> a \<noteq> [] \<longrightarrow> b \<noteq> [] \<longrightarrow> js_lower a = js_lower b)"

lemma find_different_iff:
  "find (\<lambda>(name, configured, advertised). different_contract configured advertised) (composer_contracts expected info) = None
     \<longleftrightarrow> contracts_agree expected info"
  unfolding find_None_iff contracts_agree_def different_contract_def
  by (auto split: option.splits)

lemma compare_info_Detected:
  "compare_info expected source before chain info = Inr d \<and> de_status d = Detected \<longleftrightarrow>
     chain = before \<and> probe_chainId (ce_l1ChainId expected) = Inr (composer_network info ''eezL1'')
     \<and> probe_chainId (ce_l2ChainId expected) = Inr (composer_network info ''eezL2'') \<and> contracts_agree expected info
     \<and> d = \<lparr>de_status = Detected, de_chainId = Some source, de_detail = ''The wallet read reached Composer for this deployment'', de_info = Some info\<rparr>"
proof (cases "chain = before")
  case True
  show ?thesis
  proof (cases "probe_chainId (ce_l1ChainId expected)")
    case (Inr l1)
    show ?thesis
    proof (cases "probe_chainId (ce_l2ChainId expected)")
      case (Inr l2)
      show ?thesis
      proof (cases "find (\<lambda>(name, configured, advertised). different_contract configured advertised) (composer_contracts expected info)")
        case None
        then show ?thesis using True \<open>probe_chainId (ce_l1ChainId expected) = Inr l1\<close> Inr
          by (auto simp: compare_info_def composer_mismatch_def Let_def simp flip: find_different_iff)
      next
        case (Some x)
        obtain name rest where "x = (name, rest)" by (cases x)
        with Some show ?thesis using True \<open>probe_chainId (ce_l1ChainId expected) = Inr l1\<close> Inr
          by (auto simp: compare_info_def composer_mismatch_def Let_def simp flip: find_different_iff)
      qed
    qed (use True Inr in \<open>auto simp: compare_info_def composer_mismatch_def Let_def\<close>)
  qed (use True in \<open>auto simp: compare_info_def\<close>)
qed (auto simp: compare_info_def composer_mismatch_def Let_def)

lemma response_text_not_empty: "response_text response = Some text \<Longrightarrow> response \<noteq> JStr ''0x''"
  by (auto simp: response_text_def)

lemma read_response_Detected:
  "(\<exists>d. read_response io expected source before response = Inr d \<and> de_status d = Detected \<and> de_info d = Some info) \<longleftrightarrow>
     authentic_answer io response before info \<and> probe_chainId (ce_l1ChainId expected) = Inr (composer_network info ''eezL1'')
     \<and> probe_chainId (ce_l2ChainId expected) = Inr (composer_network info ''eezL2'') \<and> contracts_agree expected info"
  (is "?run \<longleftrightarrow> ?answer \<and> ?l1 \<and> ?l2 \<and> ?agree")
proof
  assume ?run
  then obtain d where d: "read_response io expected source before response = Inr d" "de_status d = Detected" "de_info d = Some info" by blast
  from d obtain body where body: "response_text response = Some body"
    by (cases "response_text response") (auto simp: read_response_def split: if_splits)
  note run = d(1) [unfolded read_response_def body, simplified response_text_not_empty [OF body] if_False option.case]
  then obtain marker schema echoed chain bs info' where r: "co_decode io body = Inr (marker, schema, echoed, chain, bs)"
    "js_lower marker = co_marker io" "schema = 1" "js_lower echoed = js_lower (co_nonce io)" "parseInfo io bs = Inr info'"
    "compare_info expected source before chain info' = Inr d"
    by (auto simp: res_bind_Inr_iff split: if_splits)
  from compare_info_Detected [of expected source before chain info' d] r(6) d(2)
  have c: "chain = before" "probe_chainId (ce_l1ChainId expected) = Inr (composer_network info' ''eezL1'')"
    "probe_chainId (ce_l2ChainId expected) = Inr (composer_network info' ''eezL2'')" "contracts_agree expected info'" "de_info d = Some info'"
    by simp_all
  have "info' = info" using c(5) d(3) by simp
  with c r body show "?answer \<and> ?l1 \<and> ?l2 \<and> ?agree" unfolding authentic_answer_def by blast
next
  assume a: "?answer \<and> ?l1 \<and> ?l2 \<and> ?agree"
  then obtain body marker echoed bs where body: "response_text response = Some body" and r: "co_decode io body = Inr (marker, 1, echoed, before, bs)"
    "js_lower marker = co_marker io" "js_lower echoed = js_lower (co_nonce io)" "parseInfo io bs = Inr info"
    unfolding authentic_answer_def by blast
  let ?d = "\<lparr>de_status = Detected, de_chainId = Some source, de_detail = ''The wallet read reached Composer for this deployment'', de_info = Some info\<rparr>"
  from a have "compare_info expected source before before info = Inr ?d"
    using compare_info_Detected [of expected source before before info ?d] by simp
  with r body show ?run by (simp add: read_response_def response_text_not_empty [OF body])
qed

text \<open>The Composer is reported as detected exactly when the wallet names the same supported chain before
  and after the read, and the answer at the discovery address is authentic (the marker, the schema, the fresh nonce
  and the chain are the expected ones, the metadata is valid) and advertises the two configured networks and no
  other address for a configured contract; everything else, a timeout or an error of any request included, is
  reported as another status.\<close>
theorem composer_detected_iff:
  "de_status (probeComposer io expected) = Detected \<and> de_info (probeComposer io expected) = Some info \<longleftrightarrow>
     (\<exists>v0 v1 before response. co_chainId io 0 = Inr v0 \<and> probe_chainId v0 = Inr before
        \<and> co_chainId io 1 = Inr v1 \<and> probe_chainId v1 = Inr before \<and> supported_network expected before = Inr True
        \<and> co_call io COMPOSER_DISCOVERY_ADDRESS (co_encode io (co_nonce io)) = Inr response
        \<and> authentic_answer io response before info
        \<and> probe_chainId (ce_l1ChainId expected) = Inr (composer_network info ''eezL1'')
        \<and> probe_chainId (ce_l2ChainId expected) = Inr (composer_network info ''eezL2'') \<and> contracts_agree expected info)"
proof (cases "res_bind (co_chainId io 0) probe_chainId")
  case (Inl e)
  then have "\<not> (\<exists>v before. co_chainId io 0 = Inr v \<and> probe_chainId v = Inr before)" by auto
  with Inl show ?thesis by (auto simp: probeComposer_def probe_unavailable_def)
next
  case (Inr before)
  then obtain v0 where v0: "co_chainId io 0 = Inr v0" "probe_chainId v0 = Inr before" by (auto simp: res_bind_Inr_iff)
  let ?source = "co_toHex io before"
  have "de_status (probeComposer io expected) = Detected \<and> de_info (probeComposer io expected) = Some info \<longleftrightarrow>
    (\<exists>d. probe_network io expected ?source before = Inr d \<and> de_status d = Detected \<and> de_info d = Some info)"
    by (cases "probe_network io expected ?source before") (simp_all add: probeComposer_def Inr probe_unavailable_def)
  also have "\<dots> \<longleftrightarrow> (\<exists>v1 response. co_chainId io 1 = Inr v1 \<and> probe_chainId v1 = Inr before \<and> supported_network expected before = Inr True
        \<and> co_call io COMPOSER_DISCOVERY_ADDRESS (co_encode io (co_nonce io)) = Inr response
        \<and> (\<exists>d. read_response io expected ?source before response = Inr d \<and> de_status d = Detected \<and> de_info d = Some info))"
    by (cases "supported_network expected before"; cases "co_call io COMPOSER_DISCOVERY_ADDRESS (co_encode io (co_nonce io))";
        cases "co_chainId io 1") (auto simp: probe_network_def res_bind_Inr_iff split: if_splits)
  finally show ?thesis using v0 unfolding read_response_Detected by auto
qed

text \<open>A probe that reaches a Composer whose metadata leaves out the optional contracts.\<close>

definition sample_info :: js where
  "sample_info = JObj [(''version'', JStr ''1.0''), (''supportedNetworks'', JObj [(''eezL1'', JNum 1), (''eezL2'', JNum 26)]),
     (''eezContracts'', JObj [(''eezRegistryAddress'', JStr ''0x00000000000000000000000000000000000000aB''),
        (''eezL2Address'', JStr ''0x00000000000000000000000000000000000000cD'')])]"

definition sample_composer :: composer_io where
  "sample_composer = \<lparr>co_chainId = (\<lambda>_. Inr (JStr ''0x1a'')), co_call = (\<lambda>_ _. Inr (JStr ''0xabcd'')), co_nonce = ''0x77'',
     co_encode = (\<lambda>n. n), co_decode = (\<lambda>_. Inr (''0xAA'', 1, ''0x77'', 26, ''0x'')), co_json = (\<lambda>_. Inr sample_info),
     co_toHex = hex_of, co_marker = ''0xaa''\<rparr>"

definition sample_expectation :: composer_expectation where
  "sample_expectation = \<lparr>ce_l1ChainId = JStr ''0x1'', ce_l2ChainId = JStr ''0x1A'',
     ce_registryAddress = Some ''0x00000000000000000000000000000000000000ab'', ce_l2Address = Some ''0x00000000000000000000000000000000000000cd'',
     ce_rollupManagerAddress = Some ''0x01'', ce_l1BridgeAddress = None, ce_l2BridgeAddress = None\<rparr>"

lemma sample_probe: "de_status (probeComposer sample_composer sample_expectation) = Detected"
  by code_simp

end
