(* ===== verification/Execution_Flow.thy ===== *)
theory Execution_Flow
  imports Execution_Timeline Union_Find
begin

text \<open>
  \<open>src/src/lib/executionFlow.ts\<close>, first part: the state updates of leading entries, the frames of a call trace, and the
  matching of recorded calls with the dispatches on the other chain.
  A frame of a trace is an object of its own; it is identified by its transaction and its position, and knows
  the positions of its enclosing frames, innermost first. An incoming dispatch is identified by the step of its
  result. Decoding of calldata and results and the hash of a call are the record \<open>flow_lib\<close>; the timeline and the
  evidence are those of theory \<open>Execution_Timeline\<close>.
\<close>

section \<open>Values\<close>

datatype flow_trace =
  Call_frame (ft_type: string) (ft_from: string) (ft_to: "string option") (ft_input: "string option")
    (ft_output: "string option") (ft_value: "string option") (ft_error: "string option") (ft_calls: "flow_trace list")

record flow_lib =
  fw_decodeCall :: "string \<Rightarrow> (string \<times> js list) option" \<comment> \<open>\<open>decodeFunctionData\<close> with \<open>callAbi\<close>\<close>
  fw_decodeBytes :: "string \<Rightarrow> string option"
  fw_callHash :: "js list \<Rightarrow> string option" \<comment> \<open>\<open>keccak256(encodeAbiParameters(...))\<close>\<close>
  fw_manager :: "chain \<Rightarrow> string"
  fw_isManager :: "chain \<Rightarrow> string option \<Rightarrow> bool"
  fw_rollupId :: string

definition flow_same :: "js \<Rightarrow> js \<Rightarrow> bool" where
  "flow_same a b = (case (a, b) of (JStr s, JStr t) \<Rightarrow> js_lower s = js_lower t | _ \<Rightarrow> False)"

definition flow_amount :: "js \<Rightarrow> int" where
  "flow_amount v = (case string_BigInt (value_text v) of Inl e \<Rightarrow> - 1 | Inr n \<Rightarrow> n)"

definition step_arg :: "timeline_step \<Rightarrow> string \<Rightarrow> js" where
  "step_arg st k = js_prop (de_args (ts_event st)) k"

definition step_named :: "string \<Rightarrow> timeline_step \<Rightarrow> bool" where
  "step_named name st \<longleftrightarrow> de_name (ts_event st) = name"

definition same_tx :: "timeline_step \<Rightarrow> debug_transaction \<Rightarrow> bool" where
  "same_tx st tx \<longleftrightarrow> txKey (ts_tx st) = txKey tx"

section \<open>State updates\<close>

datatype update_status = U_Applied | U_Skipped | U_Unconfirmed | U_Mismatch

record rollup_update =
  ru_rollupId :: string
  ru_currentRoot :: string
  ru_newRoot :: string
  ru_etherDelta :: string
  ru_observed :: "timeline_step option"

record flow_update =
  fu_id :: string
  fu_plan :: entry_plan
  fu_anchor :: "timeline_step option"
  fu_status :: update_status
  fu_rollups :: "rollup_update list"

definition is_zero_hash :: "js_object \<Rightarrow> bool" where
  "is_zero_hash entry \<longleftrightarrow>
     (let s = js_string (js_prop entry ''proxyEntryHash'') in is_hex_of 64 s \<and> list_all (\<lambda>c. c = CHR ''0'') (drop 2 s))"

definition leading_plan :: "entry_plan \<Rightarrow> bool" where
  "leading_plan plan \<longleftrightarrow> dt_chain (pl_tx plan) = L1 \<and> has_method (pl_tx plan) ''postAndVerifyBatch'' \<and> is_zero_hash (pl_entry plan)
     \<and> (case dt_payload (pl_tx plan) of None \<Rightarrow> False
        | Some p \<Rightarrow> int (pl_index plan) < dp_immediateEntryCount p \<and> list_all is_zero_hash (take (pl_index plan) (dp_entries p)))"

text \<open>The single completion with the rolling hash of a plan that no other plan of the transaction has.\<close>

definition update_completion :: "entry_plan list \<Rightarrow> timeline_step list \<Rightarrow> entry_plan \<Rightarrow> timeline_step option" where
  "update_completion plans steps plan =
     (let completions = filter (\<lambda>st. step_named ''EntryExecuted'' st \<and> flow_same (step_arg st ''rollingHash'') (rolling (pl_entry plan))) steps
      in if length completions = 1
            \<and> \<not> list_ex (\<lambda>p. pl_id p \<noteq> pl_id plan \<and> txKey (pl_tx p) = txKey (pl_tx plan) \<and> flow_same (rolling (pl_entry p)) (rolling (pl_entry plan))) plans
         then Some (hd completions) else None)"

definition step_position :: "timeline_step list \<Rightarrow> timeline_step \<Rightarrow> nat" where
  "step_position steps st = length (takeWhile (\<lambda>s. ts_id s \<noteq> ts_id st) steps)"

text \<open>The logs immediately before the completion, one for each planned update.\<close>

definition recorded_updates :: "timeline_step list \<Rightarrow> timeline_step option \<Rightarrow> nat \<Rightarrow> timeline_step list" where
  "recorded_updates steps fin n =
     (case fin of
        None \<Rightarrow> []
      | Some st \<Rightarrow> let p = step_position steps st in if p \<ge> n then take n (drop (p - n) steps) else [])"

definition tx_status :: "debug_transaction \<Rightarrow> string option" where
  "tx_status tx = map_option dr_status (dt_receipt tx)"

definition updates_scoped :: "entry_plan \<Rightarrow> timeline_step option \<Rightarrow> js_object list \<Rightarrow> timeline_step list \<Rightarrow> bool" where
  "updates_scoped plan fin expected recorded \<longleftrightarrow>
     tx_status (pl_tx plan) = Some ''0x1'' \<and> expected \<noteq> [] \<and> length recorded = length expected
     \<and> (case fin of None \<Rightarrow> False
        | Some c \<Rightarrow> list_all2 (\<lambda>st u. step_named ''L2ExecutionPerformed'' st
              \<and> js_lower (rl_address (de_raw (ts_event st))) = js_lower (rl_address (de_raw (ts_event c)))
              \<and> js_string (step_arg st ''rollupId'') = js_string (js_prop u ''rollupId'')) recorded expected)"

definition mk_rollup_update :: "js_object \<Rightarrow> timeline_step option \<Rightarrow> rollup_update" where
  "mk_rollup_update u observed =
     \<lparr>ru_rollupId = js_string (js_prop u ''rollupId''), ru_currentRoot = js_string (js_prop u ''currentRoot''),
      ru_newRoot = js_string (js_prop u ''newRoot''), ru_etherDelta = value_text (js_prop u ''etherDelta''), ru_observed = observed\<rparr>"

definition root_observed :: "rollup_update \<Rightarrow> bool" where
  "root_observed u = (case ru_observed u of None \<Rightarrow> False | Some st \<Rightarrow> flow_same (JStr (ru_newRoot u)) (step_arg st ''newRoot''))"

definition update_anchor :: "timeline_step option \<Rightarrow> timeline_step option \<Rightarrow> timeline_step list \<Rightarrow> timeline_step option" where
  "update_anchor skipped fin steps =
     (case skipped of Some st \<Rightarrow> Some st
      | None \<Rightarrow> case fin of Some st \<Rightarrow> Some st
      | None \<Rightarrow> case find (step_named ''BatchPosted'') steps of Some st \<Rightarrow> Some st
      | None \<Rightarrow> js_nth steps 0)"

definition update_of_plan :: "entry_plan list \<Rightarrow> timeline_step list \<Rightarrow> entry_plan \<Rightarrow> flow_update" where
  "update_of_plan plans all_steps plan =
     (let steps = filter (\<lambda>st. same_tx st (pl_tx plan)) all_steps;
          fin = update_completion plans steps plan;
          skipped = find (\<lambda>st. step_named ''L2TxSkipped'' st \<and> js_string (step_arg st ''entryIndex'') = show_nat (pl_index plan)) steps;
          expected = js_objects (js_coalesce (js_prop (pl_entry plan) ''rollupUpdates'') (JArr []));
          recorded = recorded_updates steps fin (length expected);
          scoped = updates_scoped plan fin expected recorded;
          rollups = (if scoped then map2 (\<lambda>u st. mk_rollup_update u (Some st)) expected recorded
                     else map (\<lambda>u. mk_rollup_update u None) expected)
      in \<lparr>fu_id = pl_id plan @ '':state'', fu_plan = plan, fu_anchor = update_anchor skipped fin steps,
          fu_status = (if skipped \<noteq> None then U_Skipped else if tx_status (pl_tx plan) = Some ''0x0'' then U_Unconfirmed
             else if scoped then (if list_all root_observed rollups then U_Applied else U_Mismatch) else U_Unconfirmed),
          fu_rollups = rollups\<rparr>)"

definition flowStateUpdates :: "entry_plan list \<Rightarrow> timeline_step list \<Rightarrow> flow_update list" where
  "flowStateUpdates plans steps = map (update_of_plan plans steps) (filter leading_plan plans)"

section \<open>Labels\<close>

definition given_or :: "js \<Rightarrow> string \<Rightarrow> js" where
  "given_or v s = js_coalesce v (JStr s)"

definition flowEventLabel :: "timeline_step \<Rightarrow> string \<times> string" where
  "flowEventLabel st =
     (let n = de_name (ts_event st); a = step_arg st
      in if n = ''CrossChainCallExecuted'' then (''Outgoing call'', js_slice_to 10 (js_string (given_or (a ''callData'') ''0x'')))
         else if n = ''IncomingCrossChainCallExecuted'' then (''Incoming call'', js_slice_to 10 (js_string (given_or (a ''data'') ''0x'')))
         else if n = ''CallResult'' then (if js_truthy (a ''success'') then ''Call returned'' else ''Call reverted'',
           ''#'' @ js_string (js_coalesce (a ''callNumber'') (given_or (a ''l2ToL1CallNumber'') ''?'')))
         else if n = ''CallsReverted'' then (''Calls rolled back'', js_string (given_or (a ''nCalls'') ''?'') @ '' calls'')
         else if n = ''L2TxSkipped'' then (''Entry skipped'', js_string (given_or (a ''entryIndex'') ''?''))
         else (ts_title st, []))"

section \<open>The frames of a trace\<close>

type_synonym frame_key = "string \<times> nat list"

record flow_frame =
  ff_key :: frame_key
  ff_parents :: "frame_key list" \<comment> \<open>innermost first\<close>
  ff_trace :: flow_trace
  ff_method :: string
  ff_args :: "js list"
  ff_static :: bool
  ff_rolledBack :: bool
  ff_underStatic :: bool \<comment> \<open>\<open>parent?.static\<close>\<close>

definition failed_call :: "flow_trace \<Rightarrow> bool" where
  "failed_call t \<longleftrightarrow> js_text_set (ft_error t)"

definition new_flow_frame :: "flow_lib \<Rightarrow> string \<Rightarrow> flow_frame option \<Rightarrow> nat list \<Rightarrow> flow_trace \<Rightarrow> flow_frame" where
  "new_flow_frame lib tx parent path t =
     (let decoded = (case fw_decodeCall lib (case ft_input t of None \<Rightarrow> ''0x'' | Some i \<Rightarrow> i) of None \<Rightarrow> ([], []) | Some d \<Rightarrow> d);
          under = (case parent of None \<Rightarrow> False | Some p \<Rightarrow> ff_static p)
      in \<lparr>ff_key = (tx, path), ff_parents = (case parent of None \<Rightarrow> [] | Some p \<Rightarrow> ff_key p # ff_parents p), ff_trace = t,
          ff_method = fst decoded, ff_args = snd decoded, ff_static = (ft_type t = ''STATICCALL'' \<or> under),
          ff_rolledBack = (case parent of None \<Rightarrow> False | Some p \<Rightarrow> ff_rolledBack p \<or> failed_call (ff_trace p)), ff_underStatic = under\<rparr>)"

text \<open>\<open>traceFrames\<close>: the frames in preorder and in postorder.\<close>

fun frames_before :: "flow_lib \<Rightarrow> string \<Rightarrow> flow_frame option \<Rightarrow> nat list \<Rightarrow> flow_trace \<Rightarrow> flow_frame list"
and calls_before :: "flow_lib \<Rightarrow> string \<Rightarrow> flow_frame \<Rightarrow> nat list \<Rightarrow> nat \<Rightarrow> flow_trace list \<Rightarrow> flow_frame list" where
  "frames_before lib tx parent path (Call_frame ty a b i out v e calls) =
     (let f = new_flow_frame lib tx parent path (Call_frame ty a b i out v e calls) in f # calls_before lib tx f path 0 calls)"
| "calls_before lib tx f path n [] = []"
| "calls_before lib tx f path n (t # ts) = frames_before lib tx (Some f) (path @ [n]) t @ calls_before lib tx f path (Suc n) ts"

fun frames_after :: "flow_lib \<Rightarrow> string \<Rightarrow> flow_frame option \<Rightarrow> nat list \<Rightarrow> flow_trace \<Rightarrow> flow_frame list"
and calls_after :: "flow_lib \<Rightarrow> string \<Rightarrow> flow_frame \<Rightarrow> nat list \<Rightarrow> nat \<Rightarrow> flow_trace list \<Rightarrow> flow_frame list" where
  "frames_after lib tx parent path (Call_frame ty a b i out v e calls) =
     (let f = new_flow_frame lib tx parent path (Call_frame ty a b i out v e calls) in calls_after lib tx f path 0 calls @ [f])"
| "calls_after lib tx f path n [] = []"
| "calls_after lib tx f path n (t # ts) = frames_after lib tx (Some f) (path @ [n]) t @ calls_after lib tx f path (Suc n) ts"

fun frameAncestor :: "(frame_key \<Rightarrow> 'a option) \<Rightarrow> frame_key list \<Rightarrow> 'a option" where
  "frameAncestor f [] = None"
| "frameAncestor f (k # ks) = (case f k of Some x \<Rightarrow> Some x | None \<Rightarrow> frameAncestor f ks)"

definition flowTraceTransactions ::
  "string \<Rightarrow> (chain \<Rightarrow> string option \<Rightarrow> bool) \<Rightarrow> debug_context \<Rightarrow> debug_transaction option \<Rightarrow> js_error + debug_transaction list" where
  "flowTraceTransactions rollupId isManager context selected =
     res_bind (buildExecutionTimeline rollupId isManager context selected) (\<lambda>timeline.
       Inr (map tt_tx (filter (\<lambda>g. list_ex (\<lambda>st. step_named ''CrossChainCallExecuted'' st \<or> step_named ''CallResult'' st) (tt_steps g))
         (tl_l1 timeline @ tl_l2 timeline))))"

section \<open>The scope of a step\<close>

text \<open>The plan whose completion ends the entry a step belongs to, when exactly one has its rolling hash.\<close>

definition evidence_in :: "debug_transaction \<Rightarrow> entry_evidence \<Rightarrow> bool" where
  "evidence_in tx ev \<longleftrightarrow> txKey (pl_tx (ee_plan ev)) = txKey tx \<or> list_ex (\<lambda>oc. txKey (oc_tx oc) = txKey tx) (ee_observations ev)"

definition flow_scope :: "timeline_step list \<Rightarrow> entry_evidence list \<Rightarrow> timeline_step \<Rightarrow> entry_plan option" where
  "flow_scope steps evidence st =
     (case find (\<lambda>node. same_tx node (ts_tx st) \<and> ts_eventIndex node \<ge> ts_eventIndex st \<and> step_named ''EntryExecuted'' node) steps of
        None \<Rightarrow> None
      | Some c \<Rightarrow>
          (case filter (\<lambda>ev. pl_kind (ee_plan ev) = P_Execution \<and> flow_same (rolling (pl_entry (ee_plan ev))) (step_arg c ''rollingHash'')
               \<and> evidence_in (ts_tx st) ev) evidence of
             [ev] \<Rightarrow> Some (ee_plan ev) | _ \<Rightarrow> None))"

text \<open>
  \<open>buildExecutionFlow\<close> of \<open>src/src/lib/executionFlow.ts\<close>: recorded calls are matched with frames of the source trace and
  with dispatches on the other chain, nested calls get their enclosing call, and the calls of an entry become an ordered
  list of requests and returns.
  The \<open>while\<close> loop that narrows the candidates is \<open>propagate\<close>, which ends because a round removes a candidate. The walk
  to the parents that looks for cycles, the walk to the root of a group and the recursion into nested calls have as fuel the
  number of calls or roots; the theories Flow_Roots and Flow_Order show that none runs out.
\<close>

section \<open>Frames of a transaction\<close>

record flow_incoming =
  fi_step :: timeline_step
  fi_frame :: flow_frame
  fi_plan :: "entry_plan option"
  fi_call :: "js_object option"
  fi_target :: string
  fi_data :: string

record flow_links =
  fk_sources :: "(string, flow_frame) jmap" \<comment> \<open>\<open>sourceFrames\<close>, by the step\<close>
  fk_frames :: "(frame_key, string) jmap" \<comment> \<open>\<open>frameSources\<close>\<close>
  fk_incoming :: "flow_incoming list"

definition frame_arg :: "flow_frame \<Rightarrow> nat \<Rightarrow> js" where
  "frame_arg f i = (case js_nth (ff_args f) i of None \<Rightarrow> JUndefined | Some v \<Rightarrow> v)"

definition same_record :: "flow_incoming \<Rightarrow> flow_incoming \<Rightarrow> bool" where
  "same_record a b \<longleftrightarrow> ts_id (fi_step a) = ts_id (fi_step b)"

definition flow_managers :: "flow_lib \<Rightarrow> timeline_transaction \<Rightarrow> string list" where
  "flow_managers lib g = js_lower (fw_manager lib (dt_chain (tt_tx g))) # map (\<lambda>st. js_lower (rl_address (de_raw (ts_event st)))) (tt_steps g)"

definition source_candidates :: "string list \<Rightarrow> flow_frame list \<Rightarrow> flow_frame list" where
  "source_candidates managers frames =
     filter (\<lambda>f. ft_type (ff_trace f) = ''CALL'' \<and> \<not> ff_static f \<and> \<not> ff_rolledBack f \<and> \<not> failed_call (ff_trace f)
       \<and> ff_method f = ''executeCrossChainCall'' \<and> js_lower (case ft_to (ff_trace f) of None \<Rightarrow> [] | Some a \<Rightarrow> a) \<in> set managers) frames"

definition frame_matches :: "timeline_step \<Rightarrow> flow_frame \<Rightarrow> bool" where
  "frame_matches st f \<longleftrightarrow> flow_same (JStr (ft_from (ff_trace f))) (step_arg st ''proxy'')
     \<and> flow_same (frame_arg f 0) (step_arg st ''sourceAddress'') \<and> flow_same (frame_arg f 1) (step_arg st ''callData'')
     \<and> flow_amount (js_opt_text (ft_value (ff_trace f))) = flow_amount (step_arg st ''value'')"

definition same_outgoing :: "timeline_step \<Rightarrow> timeline_step \<Rightarrow> bool" where
  "same_outgoing a b \<longleftrightarrow> flow_same (step_arg a ''proxy'') (step_arg b ''proxy'') \<and> flow_same (step_arg a ''sourceAddress'') (step_arg b ''sourceAddress'')
     \<and> flow_same (step_arg a ''callData'') (step_arg b ''callData'') \<and> flow_amount (step_arg a ''value'') = flow_amount (step_arg b ''value'')"

text \<open>Repeated calls of one transaction are told apart by their order in the log and in the trace, if there are equally many.\<close>

definition source_frame :: "flow_frame list \<Rightarrow> timeline_step list \<Rightarrow> timeline_step \<Rightarrow> flow_frame option" where
  "source_frame candidates outgoing st =
     (let logs = filter (\<lambda>other. same_outgoing other st) outgoing; matching = filter (frame_matches st) candidates
      in if length logs = length matching then js_nth matching (step_position logs st) else None)"

definition add_source :: "flow_frame list \<Rightarrow> timeline_step list \<Rightarrow> flow_links \<Rightarrow> timeline_step \<Rightarrow> flow_links" where
  "add_source candidates outgoing lk st =
     (case source_frame candidates outgoing st of
        None \<Rightarrow> lk
      | Some f \<Rightarrow> lk\<lparr>fk_sources := jmap_set (ts_id st) f (fk_sources lk), fk_frames := jmap_set (ff_key f) (ts_id st) (fk_frames lk)\<rparr>)"

definition flow_dispatches :: "string list \<Rightarrow> flow_frame list \<Rightarrow> flow_frame list" where
  "flow_dispatches managers frames =
     filter (\<lambda>f. ft_type (ff_trace f) \<in> set [''CALL'', ''STATICCALL''] \<and> \<not> ff_underStatic f \<and> \<not> ff_rolledBack f
       \<and> ff_method f = ''executeOnBehalf'' \<and> js_lower (ft_from (ff_trace f)) \<in> set managers) frames"

definition dispatch_agrees :: "flow_frame \<Rightarrow> timeline_step \<Rightarrow> bool" where
  "dispatch_agrees f st \<longleftrightarrow> flow_same (given_or (js_opt_text (ft_output (ff_trace f))) ''0x'') (given_or (step_arg st ''returnData'') ''0x'')
     \<and> (\<not> failed_call (ff_trace f)) = (step_arg st ''success'' = JBool True)"

text \<open>The planned calls at the position of a result, in the entry and in its nested frames.\<close>

definition planned_calls :: "entry_plan option \<Rightarrow> timeline_step \<Rightarrow> js_object list" where
  "planned_calls plan st =
     (case plan of
        None \<Rightarrow> []
      | Some p \<Rightarrow>
          List.map_filter (\<lambda>entry. call_at (js_objects (js_coalesce (js_prop entry ''l2ToL1Calls'') (js_prop entry ''incomingCalls''))) (call_ordinal st))
            (pl_entry p # js_objects (js_coalesce (js_prop (pl_entry p) ''expectedL1ToL2Calls'') (js_prop (pl_entry p) ''expectedOutgoingCalls''))))"

definition planned_dispatch :: "flow_lib \<Rightarrow> chain \<Rightarrow> flow_frame \<Rightarrow> js_object \<Rightarrow> bool" where
  "planned_dispatch lib c f call \<longleftrightarrow> js_prop call ''isStatic'' \<noteq> JBool True \<and> flow_same (js_prop call ''targetAddress'') (frame_arg f 0)
     \<and> flow_same (js_prop call ''data'') (frame_arg f 2) \<and> flow_amount (js_prop call ''gas'') = flow_amount (frame_arg f 1)
     \<and> flow_amount (js_prop call ''value'') = flow_amount (js_opt_text (ft_value (ff_trace f))) \<and> same_rollup (fw_rollupId lib) c call"

definition incoming_record :: "flow_lib \<Rightarrow> timeline_step list \<Rightarrow> entry_evidence list \<Rightarrow> timeline_step \<Rightarrow> flow_frame \<Rightarrow> flow_incoming" where
  "incoming_record lib steps evidence st f =
     (let plan = flow_scope steps evidence st
      in \<lparr>fi_step = st, fi_frame = f, fi_plan = plan,
          fi_call = (case filter (planned_dispatch lib (dt_chain (ts_tx st)) f) (planned_calls plan st) of [call] \<Rightarrow> Some call | _ \<Rightarrow> None),
          fi_target = js_string (frame_arg f 0), fi_data = js_string (frame_arg f 2)\<rparr>)"

definition group_incoming ::
  "flow_lib \<Rightarrow> timeline_step list \<Rightarrow> entry_evidence list \<Rightarrow> timeline_step list \<Rightarrow> flow_frame list \<Rightarrow> flow_incoming list" where
  "group_incoming lib steps evidence results dispatches =
     (if list_all2 dispatch_agrees dispatches results then map2 (incoming_record lib steps evidence) results dispatches else [])"

definition link_group ::
  "flow_lib \<Rightarrow> timeline_step list \<Rightarrow> entry_evidence list \<Rightarrow> (string, flow_trace) jmap \<Rightarrow> flow_links \<Rightarrow> timeline_transaction \<Rightarrow> flow_links" where
  "link_group lib steps evidence traces lk g =
     (case jmap_get traces (txKey (tt_tx g)) of
        None \<Rightarrow> lk
      | Some t \<Rightarrow>
          (let managers = flow_managers lib g;
               outgoing = filter (step_named ''CrossChainCallExecuted'') (tt_steps g);
               candidates = source_candidates managers (frames_before lib (txKey (tt_tx g)) None [] t);
               lk' = foldl (add_source candidates outgoing) lk outgoing
           in lk'\<lparr>fk_incoming := fk_incoming lk' @ group_incoming lib steps evidence (filter (step_named ''CallResult'') (tt_steps g))
                (flow_dispatches managers (frames_after lib (txKey (tt_tx g)) None [] t))\<rparr>))"

definition flow_links_of ::
  "flow_lib \<Rightarrow> execution_timeline \<Rightarrow> entry_evidence list \<Rightarrow> (string, flow_trace) jmap \<Rightarrow> flow_links" where
  "flow_links_of lib timeline evidence traces =
     foldl (link_group lib (tl_steps timeline) evidence traces) \<lparr>fk_sources = [], fk_frames = [], fk_incoming = []\<rparr> (tl_l1 timeline @ tl_l2 timeline)"

text \<open>\<open>incomingByFrame.get(frame)\<close>, and the frame of a source.\<close>

definition incoming_at :: "flow_links \<Rightarrow> frame_key \<Rightarrow> flow_incoming option" where
  "incoming_at lk k = find (\<lambda>r. ff_key (fi_frame r) = k) (fk_incoming lk)"

definition source_parents :: "flow_links \<Rightarrow> string \<Rightarrow> frame_key list" where
  "source_parents lk i = (case jmap_get (fk_sources lk) i of None \<Rightarrow> [] | Some f \<Rightarrow> ff_parents f)"

section \<open>Candidates\<close>

datatype result_evidence = Caller_trace | Destination_receipt

record flow_result =
  fe_success :: bool
  fe_data :: string
  fe_evidence :: result_evidence

record flow_candidate =
  fd_source :: timeline_step
  fd_hashMatches :: "flow_incoming list"
  fd_matching :: "flow_incoming list"
  fd_result :: "flow_result option"

definition record_matches :: "timeline_step \<Rightarrow> flow_incoming \<Rightarrow> bool" where
  "record_matches source r \<longleftrightarrow> dt_chain (ts_tx (fi_step r)) \<noteq> dt_chain (ts_tx source)
     \<and> (case fi_call r of None \<Rightarrow> False
        | Some call \<Rightarrow> flow_same (js_prop call ''sourceAddress'') (step_arg source ''sourceAddress'')
            \<and> flow_same (JStr (fi_data r)) (step_arg source ''callData'') \<and> flow_amount (js_prop call ''value'') = flow_amount (step_arg source ''value''))"

definition identity_hash :: "flow_lib \<Rightarrow> timeline_step \<Rightarrow> flow_incoming \<Rightarrow> string option" where
  "identity_hash lib source r =
     (case fi_call r of
        None \<Rightarrow> None
      | Some call \<Rightarrow>
          fw_callHash lib [JBool False, JStr (js_string (js_prop call ''sourceAddress'')), JBig (flow_amount (js_prop call ''sourceRollupId'')),
            JStr (fi_target r), JBig (if dt_chain (ts_tx (fi_step r)) = L1 then 0 else flow_amount (JStr (fw_rollupId lib))),
            JBig (flow_amount (js_prop call ''value'')), JBig (flow_amount (step_arg source ''callGas'')), JStr (fi_data r)])"

definition caller_result :: "flow_lib \<Rightarrow> flow_links \<Rightarrow> timeline_step \<Rightarrow> flow_result option" where
  "caller_result lib lk source =
     (case jmap_get (fk_sources lk) (ts_id source) of
        None \<Rightarrow> None
      | Some f \<Rightarrow>
          if \<not> js_text_set (ft_output (ff_trace f)) then None
          else (case Option.bind (ft_output (ff_trace f)) (fw_decodeBytes lib) of
              None \<Rightarrow> None
            | Some bytes \<Rightarrow> Some \<lparr>fe_success = (\<not> failed_call (ff_trace f)), fe_data = bytes, fe_evidence = Caller_trace\<rparr>))"

definition mk_candidate :: "flow_lib \<Rightarrow> flow_links \<Rightarrow> timeline_step \<Rightarrow> flow_candidate" where
  "mk_candidate lib lk source =
     (let records = filter (record_matches source) (fk_incoming lk);
          hashed = filter (\<lambda>r. flow_same (step_arg source ''crossChainCallHash'') (js_opt_text (identity_hash lib source r))) records
      in \<lparr>fd_source = source, fd_hashMatches = hashed,
          fd_matching = (if list_ex (\<lambda>r. js_text_set (identity_hash lib source r)) records \<and> js_text_set (ts_hash source) then hashed else records),
          fd_result = caller_result lib lk source\<rparr>)"

definition record_count :: "flow_candidate list \<Rightarrow> flow_incoming \<Rightarrow> nat" where
  "record_count candidates r = length (filter (same_record r) (concat (map fd_matching candidates)))"

definition result_agrees :: "flow_result \<Rightarrow> flow_incoming \<Rightarrow> bool" where
  "result_agrees res r \<longleftrightarrow> fe_success res = (step_arg (fi_step r) ''success'' = JBool True)
     \<and> flow_same (JStr (fe_data res)) (given_or (step_arg (fi_step r) ''returnData'') ''0x'')"

text \<open>The results tell repeated calls apart, where the matches are not unique.\<close>

definition tell_apart :: "flow_candidate list \<Rightarrow> flow_candidate \<Rightarrow> flow_candidate" where
  "tell_apart candidates c =
     (case fd_result c of
        None \<Rightarrow> c
      | Some res \<Rightarrow> if length (fd_matching c) > 1 \<or> list_ex (\<lambda>r. record_count candidates r > 1) (fd_matching c)
          then c\<lparr>fd_matching := filter (result_agrees res) (fd_matching c)\<rparr> else c)"

definition uniqueMatches :: "flow_candidate list \<Rightarrow> (string, flow_incoming) jmap" where
  "uniqueMatches candidates =
     jmap_set_all (List.map_filter (\<lambda>c. case fd_matching c of
         [r] \<Rightarrow> if record_count candidates r = 1 then Some (ts_id (fd_source c), r) else None
       | _ \<Rightarrow> None) candidates) []"

definition linked_source :: "(string, flow_incoming) jmap \<Rightarrow> flow_incoming \<Rightarrow> string option" where
  "linked_source linked r = map_option fst (find (\<lambda>(i, q). same_record q r) linked)"

text \<open>Linked callbacks say which dispatch a source encloses.\<close>

definition parent_anchors :: "flow_links \<Rightarrow> (string, flow_incoming) jmap \<Rightarrow> (string \<times> flow_incoming) list" where
  "parent_anchors lk linked =
     List.map_filter (\<lambda>(i, r). case (frameAncestor (incoming_at lk) (source_parents lk i), frameAncestor (jmap_get (fk_frames lk)) (ff_parents (fi_frame r))) of
         (Some remoteParent, Some localParent) \<Rightarrow> Some (localParent, remoteParent)
       | _ \<Rightarrow> None) linked"

definition anchored_ok :: "(string \<times> flow_incoming) list \<Rightarrow> string \<Rightarrow> flow_incoming \<Rightarrow> bool" where
  "anchored_ok anchors i r \<longleftrightarrow> list_all (\<lambda>(j, q). j = i \<longrightarrow> same_record q r) anchors"

definition consistent_link ::
  "flow_links \<Rightarrow> (string, flow_incoming) jmap \<Rightarrow> (string \<times> flow_incoming) list \<Rightarrow> string \<Rightarrow> flow_incoming \<Rightarrow> bool" where
  "consistent_link lk linked anchors i r \<longleftrightarrow>
     (let sourceParent = frameAncestor (incoming_at lk) (source_parents lk i);
          boundParent = Option.bind sourceParent (linked_source linked);
          targetParent = frameAncestor (jmap_get (fk_frames lk)) (ff_parents (fi_frame r));
          boundDispatch = Option.bind targetParent (jmap_get linked)
      in anchored_ok anchors i r
         \<and> (case (boundParent, targetParent) of (Some b, Some t) \<Rightarrow> b = t | _ \<Rightarrow> True)
         \<and> (case (sourceParent, boundDispatch) of (Some s, Some d) \<Rightarrow> same_record d s | _ \<Rightarrow> True))"

definition narrow_round :: "flow_links \<Rightarrow> flow_candidate list \<Rightarrow> flow_candidate list" where
  "narrow_round lk candidates =
     (let linked = uniqueMatches candidates; anchors = parent_anchors lk linked
      in map (\<lambda>c. c\<lparr>fd_matching := filter (consistent_link lk linked anchors (ts_id (fd_source c))) (fd_matching c)\<rparr>) candidates)"

definition matching_size :: "flow_candidate list \<Rightarrow> nat" where
  "matching_size candidates = sum_list (map (length \<circ> fd_matching) candidates)"

lemma filter_sizes: "sum_list (map (\<lambda>c. length (filter (P c) (g c))) cs) \<le> sum_list (map (\<lambda>c. length (g c)) cs)"
  by (induction cs) (auto intro: add_mono)

lemma sums_equal: "a + b = c + d \<Longrightarrow> a \<le> c \<Longrightarrow> b \<le> d \<Longrightarrow> a = c \<and> b = d" for a b c d :: nat
  by arith

lemma filter_sizes_same:
  "sum_list (map (\<lambda>c. length (filter (P c) (g c))) cs) = sum_list (map (\<lambda>c. length (g c)) cs) \<Longrightarrow> c \<in> set cs \<Longrightarrow> length (filter (P c) (g c)) = length (g c)"
proof (induction cs)
  case (Cons d ds)
  have "length (filter (P d) (g d)) = length (g d) \<and> sum_list (map (\<lambda>c. length (filter (P c) (g c))) ds) = sum_list (map (\<lambda>c. length (g c)) ds)"
    by (rule sums_equal [OF _ length_filter_le filter_sizes]) (use Cons.prems(1) in simp)
  with Cons show ?case by auto
qed simp

lemma narrow_shrinks:
  assumes "map (length \<circ> fd_matching) (narrow_round lk cs) \<noteq> map (length \<circ> fd_matching) cs"
  shows "matching_size (narrow_round lk cs) < matching_size cs"
proof (rule ccontr)
  let ?P = "\<lambda>c. consistent_link lk (uniqueMatches cs) (parent_anchors lk (uniqueMatches cs)) (ts_id (fd_source c))"
  have size: "matching_size (narrow_round lk cs) = sum_list (map (\<lambda>c. length (filter (?P c) (fd_matching c))) cs)"
    by (simp add: matching_size_def narrow_round_def Let_def comp_def)
  assume "\<not> ?thesis"
  with size filter_sizes [of ?P fd_matching cs] have "sum_list (map (\<lambda>c. length (filter (?P c) (fd_matching c))) cs) = sum_list (map (\<lambda>c. length (fd_matching c)) cs)"
    by (simp add: matching_size_def comp_def)
  from filter_sizes_same [OF this] have "map (length \<circ> fd_matching) (narrow_round lk cs) = map (length \<circ> fd_matching) cs"
    by (simp add: narrow_round_def Let_def comp_def)
  with assms show False by simp
qed

function propagate :: "flow_links \<Rightarrow> flow_candidate list \<Rightarrow> flow_candidate list" where
  "propagate lk candidates =
     (let next = narrow_round lk candidates
      in if map (length \<circ> fd_matching) next = map (length \<circ> fd_matching) candidates then next else propagate lk next)"
  by auto
termination by (relation "measure (\<lambda>(lk, cs). matching_size cs)") (auto intro: narrow_shrinks)

declare propagate.simps [simp del]

end
