(* ===== verification/Flow_Entries.thy ===== *)
theory Flow_Entries
  imports Execution_Flow
begin

text \<open>
  \<open>buildExecutionFlow\<close> of \<open>src/src/lib/executionFlow.ts\<close>, second part: the calls of a flow with their enclosing calls, the
  rejection of cycles, the entries, and their requests and returns in order; and \<open>flowExecutionConnections\<close>.
  A call is identified by the step of its source. An action holds its call; the numbers, which the code writes into the
  shared call objects at the end, are written into every copy.
\<close>

section \<open>Calls\<close>

datatype flow_basis = F_Matching_hash | F_Replay_candidate | F_Unlinked

record flow_call =
  fc_id :: string
  fc_number :: nat
  fc_source :: timeline_step
  fc_target :: "timeline_step option"
  fc_caller :: string
  fc_destination :: "string option"
  fc_plan :: "entry_plan option"
  fc_targetPlan :: "entry_plan option"
  fc_parent :: "string option"
  fc_basis :: flow_basis
  fc_result :: "flow_result option"
  fc_mismatch :: bool

text \<open>The deliveries an unambiguous connection of the timeline leads to.\<close>

definition exact_targets :: "execution_timeline \<Rightarrow> string \<Rightarrow> timeline_step list" where
  "exact_targets timeline i =
     filter (step_named ''IncomingCrossChainCallExecuted'')
       (List.map_filter (\<lambda>c. find (\<lambda>st. ts_id st = tc_to c) (tl_steps timeline))
         (filter (\<lambda>c. tc_from c = i \<and> tc_basis c = Matching_call_hash \<and> \<not> tc_ambiguous c) (tl_connections timeline)))"

definition call_target :: "execution_timeline \<Rightarrow> string \<Rightarrow> flow_incoming option \<Rightarrow> timeline_step option" where
  "call_target timeline i r =
     (case r of Some q \<Rightarrow> Some (fi_step q) | None \<Rightarrow> (case exact_targets timeline i of [st] \<Rightarrow> Some st | _ \<Rightarrow> None))"

definition receipt_result :: "flow_incoming \<Rightarrow> flow_result" where
  "receipt_result r = \<lparr>fe_success = (step_arg (fi_step r) ''success'' = JBool True),
     fe_data = js_string (given_or (step_arg (fi_step r) ''returnData'') ''0x''), fe_evidence = Destination_receipt\<rparr>"

definition call_result :: "flow_candidate \<Rightarrow> flow_incoming option \<Rightarrow> flow_result option" where
  "call_result c r = (case fd_result c of Some res \<Rightarrow> Some res | None \<Rightarrow> map_option receipt_result r)"

definition call_basis :: "flow_candidate \<Rightarrow> flow_incoming option \<Rightarrow> timeline_step option \<Rightarrow> flow_basis" where
  "call_basis c r target =
     (case r of
        Some q \<Rightarrow> if list_ex (same_record q) (fd_hashMatches c) then F_Matching_hash else F_Replay_candidate
      | None \<Rightarrow> if target \<noteq> None then F_Matching_hash else F_Unlinked)"

definition delivered_to :: "timeline_step \<Rightarrow> string option" where
  "delivered_to st = (if step_named ''IncomingCrossChainCallExecuted'' st then Some (js_string (step_arg st ''destination'')) else None)"

definition mk_call ::
  "execution_timeline \<Rightarrow> entry_evidence list \<Rightarrow> (string, flow_incoming) jmap \<Rightarrow> nat \<times> flow_candidate \<Rightarrow> flow_call" where
  "mk_call timeline evidence linked ic =
     (let c = snd ic; source = fd_source c; r = jmap_get linked (ts_id source); target = call_target timeline (ts_id source) r;
          res = call_result c r; scope = flow_scope (tl_steps timeline) evidence
      in \<lparr>fc_id = ts_id source, fc_number = fst ic + 1, fc_source = source, fc_target = target,
          fc_caller = js_string (given_or (step_arg source ''sourceAddress'') ''?''),
          fc_destination = (case r of Some q \<Rightarrow> Some (fi_target q) | None \<Rightarrow> Option.bind target delivered_to),
          fc_plan = scope source,
          fc_targetPlan = (case Option.bind r fi_plan of Some p \<Rightarrow> Some p | None \<Rightarrow> Option.bind target scope),
          fc_parent = None, fc_basis = call_basis c r target, fc_result = res,
          fc_mismatch = (case (r, res) of (Some q, Some x) \<Rightarrow> \<not> result_agrees x q | _ \<Rightarrow> False)\<rparr>)"

section \<open>Enclosing calls\<close>

definition call_of_record :: "flow_call list \<Rightarrow> flow_incoming \<Rightarrow> flow_call option" where
  "call_of_record calls r = find (\<lambda>c. map_option ts_id (fc_target c) = Some (ts_id (fi_step r))) calls"

definition call_by_id :: "flow_call list \<Rightarrow> string \<Rightarrow> flow_call option" where
  "call_by_id calls i = find (\<lambda>c. fc_id c = i) calls"

definition source_parent :: "flow_links \<Rightarrow> flow_call list \<Rightarrow> flow_call \<Rightarrow> flow_call option" where
  "source_parent lk calls c =
     frameAncestor (\<lambda>k. Option.bind (incoming_at lk k) (call_of_record calls)) (source_parents lk (fc_id c))"

definition target_parent :: "flow_links \<Rightarrow> flow_call list \<Rightarrow> flow_call \<Rightarrow> flow_call option" where
  "target_parent lk calls c =
     (case Option.bind (fc_target c) (\<lambda>st. find (\<lambda>r. ts_id (fi_step r) = ts_id st) (fk_incoming lk)) of
        None \<Rightarrow> None
      | Some r \<Rightarrow> frameAncestor (\<lambda>k. Option.bind (jmap_get (fk_frames lk) k) (call_by_id calls)) (ff_parents (fi_frame r)))"

definition set_parent :: "flow_links \<Rightarrow> flow_call list \<Rightarrow> flow_call \<Rightarrow> flow_call" where
  "set_parent lk calls c =
     (case (source_parent lk calls c, target_parent lk calls c) of
        (Some s, Some t) \<Rightarrow> if fc_id s \<noteq> fc_id t \<or> fc_id s = fc_id c then c else c\<lparr>fc_parent := Some (fc_id s)\<rparr>
      | (Some s, None) \<Rightarrow> if fc_id s = fc_id c then c else c\<lparr>fc_parent := Some (fc_id s)\<rparr>
      | (None, Some t) \<Rightarrow> if fc_id t = fc_id c then c else c\<lparr>fc_parent := Some (fc_id t)\<rparr>
      | (None, None) \<Rightarrow> c)"

text \<open>\<open>bySource.get(parent)?.parent\<close>, and the walk that has seen the given calls.\<close>

definition parent_call :: "flow_call list \<Rightarrow> string \<Rightarrow> string option" where
  "parent_call calls i = Option.bind (call_by_id calls i) fc_parent"

fun runs_in_cycle :: "nat \<Rightarrow> flow_call list \<Rightarrow> string list \<Rightarrow> string option \<Rightarrow> bool" where
  "runs_in_cycle n calls seen None = False"
| "runs_in_cycle 0 calls seen (Some p) = False"
| "runs_in_cycle (Suc n) calls seen (Some p) = (p \<in> set seen \<or> runs_in_cycle n calls (p # seen) (parent_call calls p))"

definition cut_parent :: "string \<Rightarrow> flow_call \<Rightarrow> flow_call" where
  "cut_parent i c = (if fc_id c = i then c\<lparr>fc_parent := None\<rparr> else c)"

definition cut_cycle :: "flow_call list \<Rightarrow> string \<Rightarrow> flow_call list" where
  "cut_cycle calls i =
     (if runs_in_cycle (Suc (length calls)) calls [i] (parent_call calls i) then map (cut_parent i) calls else calls)"

definition break_cycles :: "flow_call list \<Rightarrow> flow_call list" where
  "break_cycles calls = foldl cut_cycle calls (map fc_id calls)"

section \<open>Entries\<close>

fun flow_root :: "nat \<Rightarrow> parents \<Rightarrow> string \<Rightarrow> string" where
  "flow_root 0 roots i = i"
| "flow_root (Suc n) roots i =
     (case jmap_get roots i of None \<Rightarrow> i | Some p \<Rightarrow> if p = [] \<or> p = i then i else flow_root n roots p)"

definition entry_root :: "parents \<Rightarrow> string \<Rightarrow> string" where
  "entry_root roots i = flow_root (Suc (length roots)) roots i"

definition join_entries :: "string \<Rightarrow> string \<Rightarrow> parents \<Rightarrow> parents" where
  "join_entries a b roots = jmap_set (entry_root roots b) (entry_root roots a) roots"

definition join_plan :: "string \<Rightarrow> entry_plan option \<Rightarrow> parents \<Rightarrow> parents" where
  "join_plan i plan roots = (case plan of None \<Rightarrow> roots | Some p \<Rightarrow> join_entries i (pl_id p) roots)"

definition join_call :: "parents \<Rightarrow> flow_call \<Rightarrow> parents" where
  "join_call roots c = join_plan (fc_id c) (fc_targetPlan c) (join_plan (fc_id c) (fc_plan c) (jmap_set (fc_id c) (fc_id c) roots))"

definition join_parent :: "parents \<Rightarrow> flow_call \<Rightarrow> parents" where
  "join_parent roots c = (case fc_parent c of None \<Rightarrow> roots | Some p \<Rightarrow> join_entries (fc_id c) p roots)"

definition flow_roots :: "entry_plan list \<Rightarrow> flow_call list \<Rightarrow> parents" where
  "flow_roots plans calls =
     foldl join_parent (foldl join_call (foldl (\<lambda>roots p. jmap_set (pl_id p) (pl_id p) roots) [] plans) calls) calls"

datatype action_kind = A_request | A_return

record flow_action =
  fa_id :: string
  fa_call :: flow_call
  fa_kind :: action_kind
  fa_depth :: nat
  fa_anchor :: timeline_step

record flow_entry =
  fn_id :: string
  fn_plans :: "entry_plan list"
  fn_calls :: "flow_call list"
  fn_actions :: "flow_action list"
  fn_updates :: "flow_update list"

definition on_entry :: "parents \<Rightarrow> string \<Rightarrow> (flow_entry \<Rightarrow> flow_entry) \<Rightarrow> (string, flow_entry) jmap \<Rightarrow> (string, flow_entry) jmap" where
  "on_entry roots i f entries =
     (let key = entry_root roots i
      in jmap_set key (f (case jmap_get entries key of
           None \<Rightarrow> \<lparr>fn_id = key, fn_plans = [], fn_calls = [], fn_actions = [], fn_updates = []\<rparr> | Some e \<Rightarrow> e)) entries)"

definition add_entry_plan :: "parents \<Rightarrow> (string, flow_entry) jmap \<Rightarrow> entry_plan \<Rightarrow> (string, flow_entry) jmap" where
  "add_entry_plan roots entries p = on_entry roots (pl_id p) (\<lambda>e. e\<lparr>fn_plans := fn_plans e @ [p]\<rparr>) entries"

definition add_entry_update :: "parents \<Rightarrow> (string, flow_entry) jmap \<Rightarrow> flow_update \<Rightarrow> (string, flow_entry) jmap" where
  "add_entry_update roots entries u = on_entry roots (pl_id (fu_plan u)) (\<lambda>e. e\<lparr>fn_updates := fn_updates e @ [u]\<rparr>) entries"

definition add_entry_call :: "parents \<Rightarrow> (string, flow_entry) jmap \<Rightarrow> flow_call \<Rightarrow> (string, flow_entry) jmap" where
  "add_entry_call roots entries c = on_entry roots (fc_id c) (\<lambda>e. e\<lparr>fn_calls := fn_calls e @ [c]\<rparr>) entries"

definition flow_entries :: "parents \<Rightarrow> entry_plan list \<Rightarrow> flow_update list \<Rightarrow> flow_call list \<Rightarrow> (string, flow_entry) jmap" where
  "flow_entries roots plans updates calls =
     foldl (add_entry_call roots) (foldl (add_entry_update roots) (foldl (add_entry_plan roots) [] plans) updates) calls"

section \<open>Actions\<close>

definition request_action :: "nat \<Rightarrow> flow_call \<Rightarrow> flow_action" where
  "request_action depth c = \<lparr>fa_id = fc_id c @ '':request'', fa_call = c, fa_kind = A_request, fa_depth = depth, fa_anchor = fc_source c\<rparr>"

definition return_action :: "nat \<Rightarrow> flow_call \<Rightarrow> flow_action" where
  "return_action depth c = \<lparr>fa_id = fc_id c @ '':return'', fa_call = c, fa_kind = A_return, fa_depth = depth,
     fa_anchor = (case fc_target c of Some st \<Rightarrow> if step_named ''CallResult'' st then st else fc_source c | None \<Rightarrow> fc_source c)\<rparr>"

definition nested_calls :: "flow_call list \<Rightarrow> string option \<Rightarrow> flow_call list" where
  "nested_calls calls p = filter (\<lambda>c. fc_parent c = p) calls"

fun visit_call :: "nat \<Rightarrow> flow_call list \<Rightarrow> nat \<Rightarrow> flow_call \<Rightarrow> flow_action list" where
  "visit_call 0 calls depth c = []"
| "visit_call (Suc n) calls depth c =
     request_action depth c # concat (map (visit_call n calls (depth + 1)) (nested_calls calls (Some (fc_id c)))) @ [return_action depth c]"

definition with_actions :: "flow_entry \<Rightarrow> flow_entry" where
  "with_actions e = e\<lparr>fn_actions := concat (map (visit_call (Suc (length (fn_calls e))) (fn_calls e) 0) (nested_calls (fn_calls e) None))\<rparr>"

text \<open>The calls are numbered in the order of their requests.\<close>

definition request_ids :: "flow_action list \<Rightarrow> string list" where
  "request_ids actions = map (\<lambda>a. fc_id (fa_call a)) (filter (\<lambda>a. fa_kind a = A_request) actions)"

definition call_numbers :: "flow_entry list \<Rightarrow> (string, nat) jmap" where
  "call_numbers entries = jmap_set_all (map (\<lambda>(n, i). (i, n)) (List.enumerate 1 (concat (map (request_ids \<circ> fn_actions) entries)))) []"

definition renumbered :: "(string, nat) jmap \<Rightarrow> flow_call \<Rightarrow> flow_call" where
  "renumbered numbers c = (case jmap_get numbers (fc_id c) of None \<Rightarrow> c | Some n \<Rightarrow> c\<lparr>fc_number := n\<rparr>)"

definition number_entry :: "(string, nat) jmap \<Rightarrow> flow_entry \<Rightarrow> flow_entry" where
  "number_entry numbers e = e\<lparr>fn_calls := map (renumbered numbers) (fn_calls e),
     fn_actions := map (\<lambda>a. a\<lparr>fa_call := renumbered numbers (fa_call a)\<rparr>) (fn_actions e)\<rparr>"

section \<open>The flow\<close>

record execution_flow =
  xf_nodes :: "timeline_step list"
  xf_entries :: "flow_entry list"
  xf_actions :: "flow_action list"
  xf_calls :: "flow_call list"
  xf_timeline :: execution_timeline

definition flow_calls :: "flow_lib \<Rightarrow> execution_timeline \<Rightarrow> entry_evidence list \<Rightarrow> (string, flow_trace) jmap \<Rightarrow> flow_call list" where
  "flow_calls lib timeline evidence traces =
     (let lk = flow_links_of lib timeline evidence traces;
          made = map (mk_candidate lib lk) (filter (step_named ''CrossChainCallExecuted'') (tl_steps timeline));
          candidates = propagate lk (map (tell_apart made) made);
          calls = map (mk_call timeline evidence (uniqueMatches candidates)) (List.enumerate 0 candidates)
      in break_cycles (map (set_parent lk calls) calls))"

definition assemble_flow :: "execution_timeline \<Rightarrow> entry_plan list \<Rightarrow> flow_call list \<Rightarrow> execution_flow" where
  "assemble_flow timeline plans calls =
     (let roots = flow_roots plans calls;
          entries = map (with_actions \<circ> snd) (flow_entries roots plans (flowStateUpdates plans (tl_steps timeline)) calls);
          numbers = call_numbers entries; final = map (number_entry numbers) entries
      in \<lparr>xf_nodes = filter (\<lambda>st. ts_kind st \<in> {K_Call, K_Result, K_Rollback}) (tl_steps timeline), xf_entries = final,
          xf_actions = concat (map fn_actions final), xf_calls = map (renumbered numbers) calls, xf_timeline = timeline\<rparr>)"

definition buildExecutionFlow ::
  "flow_lib \<Rightarrow> debug_context \<Rightarrow> debug_transaction option \<Rightarrow> (string, flow_trace) jmap \<Rightarrow> js_error + execution_flow" where
  "buildExecutionFlow lib context selected traces =
     res_bind (buildExecutionTimeline (fw_rollupId lib) (fw_isManager lib) context selected) (\<lambda>timeline.
       let evidence = compareExecution (\<lambda>_. None) context [];
           plans = map ee_plan (filter (\<lambda>ev. pl_kind (ee_plan ev) = P_Execution) evidence)
       in Inr (assemble_flow timeline plans (flow_calls lib timeline evidence traces)))"

section \<open>Connections along the execution\<close>

datatype return_kind = Cross_chain_return | Local_return | Unavailable_return

definition flowReturnKind :: "flow_call \<Rightarrow> return_kind" where
  "flowReturnKind c =
     (if fc_target c \<noteq> None \<and> js_text_set (fc_destination c) \<and> fc_result c \<noteq> None then Cross_chain_return
      else if map_option fe_evidence (fc_result c) = Some Caller_trace then Local_return else Unavailable_return)"

record flow_connection =
  fx_id :: string
  fx_chain :: chain
  fx_call :: flow_call
  fx_from :: flow_action
  fx_to :: flow_action

definition action_of :: "flow_entry \<Rightarrow> action_kind \<Rightarrow> flow_call \<Rightarrow> flow_action option" where
  "action_of e k c = find (\<lambda>a. fc_id (fa_call a) = fc_id c \<and> fa_kind a = k) (fn_actions e)"

definition connect :: "flow_call \<Rightarrow> chain \<Rightarrow> flow_action option \<Rightarrow> flow_action option \<Rightarrow> flow_connection list" where
  "connect c ch from to =
     (case (from, to) of
        (Some a, Some b) \<Rightarrow> [\<lparr>fx_id = chain_str ch @ '':'' @ fa_id a @ '':'' @ fa_id b, fx_chain = ch, fx_call = c, fx_from = a, fx_to = b\<rparr>]
      | _ \<Rightarrow> [])"

text \<open>The execution on the receiving chain: from the request to the nested calls and to the return.\<close>

fun follow_children :: "flow_entry \<Rightarrow> flow_call \<Rightarrow> chain \<Rightarrow> flow_action option \<Rightarrow> flow_call list \<Rightarrow> flow_connection list" where
  "follow_children e c ch previous [] = connect c ch previous (action_of e A_return c)"
| "follow_children e c ch previous (child # rest) =
     (if dt_chain (ts_tx (fc_source child)) \<noteq> ch then follow_children e c ch None rest
      else connect c ch previous (action_of e A_request child)
        @ follow_children e c ch (if fc_result child = None then None else action_of e A_return child) rest)"

definition call_connections :: "flow_entry \<Rightarrow> flow_call \<Rightarrow> flow_connection list" where
  "call_connections e c =
     (if flowReturnKind c \<noteq> Cross_chain_return then []
      else follow_children e c (other_chain (dt_chain (ts_tx (fc_source c)))) (action_of e A_request c) (nested_calls (fn_calls e) (Some (fc_id c))))"

definition continues :: "flow_call \<Rightarrow> flow_call \<Rightarrow> bool" where
  "continues a b \<longleftrightarrow> map_option fe_evidence (fc_result a) = Some Caller_trace \<and> same_tx (fc_source a) (ts_tx (fc_source b))
     \<and> js_lower (fc_caller a) = js_lower (fc_caller b)"

fun root_connections :: "flow_entry \<Rightarrow> flow_call list \<Rightarrow> flow_connection list" where
  "root_connections e (a # b # rest) =
     (if continues a b then connect a (dt_chain (ts_tx (fc_source a))) (action_of e A_return a) (action_of e A_request b) else [])
     @ root_connections e (b # rest)"
| "root_connections e _ = []"

definition flowExecutionConnections :: "flow_entry \<Rightarrow> flow_connection list" where
  "flowExecutionConnections e =
     concat (map (call_connections e) (fn_calls e))
     @ root_connections e (map fa_call (filter (\<lambda>a. fa_kind a = A_request \<and> fc_parent (fa_call a) = None) (fn_actions e)))"

end
