(* ===== verification/Flow_Order.thy ===== *)
theory Flow_Order
  imports Flow_Entries
begin

text \<open>
  Chains of a partial successor function, which end: the calls that enclose a call, and the steps to the root of a
  group. \<open>rooted nx x k\<close> says that the chain of \<open>x\<close> ends after \<open>k\<close> steps. The cycle check of a flow leaves
  only chains that end, and the fuel of each walk is at least the length of a chain. The locale \<open>cut_step\<close> is the
  contract of a step that makes one chain end and lengthens none; \<open>cut_cycle\<close> is such a step.
\<close>

section \<open>Chains that end\<close>

inductive rooted :: "(string \<Rightarrow> string option) \<Rightarrow> string \<Rightarrow> nat \<Rightarrow> bool" for nx where
  rooted_end: "nx x = None \<Longrightarrow> rooted nx x 0"
| rooted_step: "nx x = Some y \<Longrightarrow> rooted nx y k \<Longrightarrow> rooted nx x (Suc k)"

inductive_simps rooted_0: "rooted nx x 0"
inductive_simps rooted_Suc: "rooted nx x (Suc k)"

lemma rooted_unique: "rooted nx x k \<Longrightarrow> rooted nx x j \<Longrightarrow> k = j"
proof (induction arbitrary: j rule: rooted.induct)
  case (rooted_end x)
  from rooted_end.prems rooted_end.hyps show ?case by (cases rule: rooted.cases) auto
next
  case (rooted_step x y k)
  from rooted_step.prems rooted_step.hyps obtain i where "j = Suc i" "rooted nx y i" by (cases rule: rooted.cases) auto
  with rooted_step.IH show ?case by auto
qed

lemma rooted_next: "rooted nx x k \<Longrightarrow> nx x = Some y \<Longrightarrow> \<exists>j. k = Suc j \<and> rooted nx y j"
  by (cases rule: rooted.cases) auto

text \<open>The elements of a chain that have a successor are as many as its steps.\<close>

lemma rooted_chain:
  "rooted nx x k \<Longrightarrow> \<exists>S. finite S \<and> card S = k \<and> (\<forall>s \<in> S. nx s \<noteq> None \<and> (\<exists>j \<le> k. rooted nx s j))"
proof (induction rule: rooted.induct)
  case (rooted_end x)
  then show ?case by (intro exI [of _ "{}"]) auto
next
  case (rooted_step x y k)
  then obtain S where S: "finite S" "card S = k" "\<forall>s \<in> S. nx s \<noteq> None \<and> (\<exists>j \<le> k. rooted nx s j)" by blast
  have x: "rooted nx x (Suc k)" using rooted_step.hyps by (rule rooted.rooted_step)
  have "x \<notin> S" using S(3) rooted_unique [OF x] by (metis Suc_n_not_le_n)
  with S x rooted_step.hyps(1) show ?case by (intro exI [of _ "insert x S"]) (auto intro: le_SucI)
qed

lemma rooted_short:
  assumes "rooted nx x k" and "\<And>s. nx s \<noteq> None \<Longrightarrow> s \<in> set ys"
  shows "k \<le> length ys"
proof -
  obtain S where "card S = k" "\<forall>s \<in> S. nx s \<noteq> None" using rooted_chain [OF assms(1)] by blast
  then have "k \<le> card (set ys)" using assms(2) by (metis List.finite_set card_mono subsetI)
  then show ?thesis using card_length [of ys] by simp
qed

section \<open>Cutting\<close>

text \<open>Cutting one element keeps the chains that end.\<close>

lemma rooted_cut:
  assumes "rooted nx x k"
  shows "\<exists>j. rooted (\<lambda>s. if s = i then None else nx s) x j"
  using assms
proof (induction rule: rooted.induct)
  case (rooted_step x y k)
  let ?cut = "\<lambda>s. if s = i then None else nx s"
  obtain j where j: "rooted ?cut y j" using rooted_step.IH by blast
  show ?case
  proof (cases "x = i")
    case True
    then have "rooted ?cut x 0" by (intro rooted_end) simp
    then show ?thesis by blast
  next
    case False
    then have "rooted ?cut x (Suc j)" using rooted_step.hyps(1) j by (intro rooted.rooted_step [of _ x y]) auto
    then show ?thesis by blast
  qed
next
  case (rooted_end x)
  then have "rooted (\<lambda>s. if s = i then None else nx s) x 0" by (intro rooted.rooted_end) simp
  then show ?case by blast
qed

locale cut_step =
  fixes cut :: "'s \<Rightarrow> string \<Rightarrow> 's" and nx :: "'s \<Rightarrow> string \<Rightarrow> string option"
  assumes cut_rooted: "\<exists>k. rooted (nx (cut s i)) i k"
    and cut_keeps: "rooted (nx s) x k \<Longrightarrow> \<exists>j. rooted (nx (cut s i)) x j"
begin

lemma cuts_keep: "rooted (nx s) x k \<Longrightarrow> \<exists>j. rooted (nx (foldl cut s is)) x j"
proof (induction "is" arbitrary: s k)
  case (Cons i "is")
  obtain j where "rooted (nx (cut s i)) x j" using cut_keeps [OF Cons.prems] by blast
  from Cons.IH [OF this] show ?case by simp
qed auto

lemma cuts_rooted: "x \<in> set is \<Longrightarrow> \<exists>k. rooted (nx (foldl cut s is)) x k"
proof (induction "is" arbitrary: s)
  case (Cons i "is")
  show ?case
  proof (cases "x \<in> set is")
    case False
    with Cons.prems have "x = i" by simp
    with cut_rooted [of s i] cuts_keep show ?thesis by auto
  qed (use Cons.IH in simp)
qed simp

end

section \<open>The calls of a flow\<close>

lemma call_by_id_Some: "call_by_id calls i = Some c \<Longrightarrow> c \<in> set calls \<and> fc_id c = i"
  by (auto simp: call_by_id_def dest: find_Some_mem)

lemma call_by_id_None: "call_by_id calls i = None \<longleftrightarrow> i \<notin> fc_id ` set calls"
  by (auto simp: call_by_id_def find_None_iff)

lemma parent_call_known: "parent_call calls i \<noteq> None \<Longrightarrow> i \<in> fc_id ` set calls"
  unfolding parent_call_def using call_by_id_None [of calls i] by (cases "call_by_id calls i") auto

lemma cut_parent_simps [simp]:
  "fc_id (cut_parent i c) = fc_id c" "fc_parent (cut_parent i c) = (if fc_id c = i then None else fc_parent c)"
  by (simp_all add: cut_parent_def)

lemma parent_call_cut: "parent_call (map (cut_parent i) calls) = (\<lambda>s. if s = i then None else parent_call calls s)"
proof
  fix s
  show "parent_call (map (cut_parent i) calls) s = (if s = i then None else parent_call calls s)"
    by (induction calls) (auto simp: parent_call_def call_by_id_def)
qed

text \<open>A walk that does not find a seen call again, with fuel for all calls, has come to an end.\<close>

lemma walk_rooted:
  assumes "\<not> runs_in_cycle n calls seen (Some p)" and "card (fc_id ` set calls - set seen) < n"
  shows "\<exists>k. rooted (parent_call calls) p k"
  using assms
proof (induction n arbitrary: seen p)
  case (Suc n)
  then have new: "p \<notin> set seen" and walk: "\<not> runs_in_cycle n calls (p # seen) (parent_call calls p)" by auto
  show ?case
  proof (cases "parent_call calls p")
    case None
    then show ?thesis by (auto intro: rooted.intros)
  next
    case (Some q)
    then have "p \<in> fc_id ` set calls" using parent_call_known [of calls p] by simp
    with new have "fc_id ` set calls - set (p # seen) \<subset> fc_id ` set calls - set seen" by auto
    then have "card (fc_id ` set calls - set (p # seen)) < card (fc_id ` set calls - set seen)" by (simp add: psubset_card_mono)
    with Suc.prems(2) have "card (fc_id ` set calls - set (p # seen)) < n" by linarith
    from Suc.IH [OF _ this] walk Some obtain k where "rooted (parent_call calls) q k" by auto
    with Some show ?thesis by (auto intro: rooted.intros)
  qed
qed simp

lemma cut_cycle_rooted: "\<exists>k. rooted (parent_call (cut_cycle calls i)) i k"
proof (cases "runs_in_cycle (Suc (length calls)) calls [i] (parent_call calls i)")
  case True
  have "rooted (\<lambda>s. if s = i then None else parent_call calls s) i 0" by (rule rooted_end) simp
  with True show ?thesis by (auto simp: cut_cycle_def parent_call_cut)
next
  case False
  show ?thesis
  proof (cases "parent_call calls i")
    case None
    with False show ?thesis by (auto simp: cut_cycle_def intro: rooted.intros)
  next
    case (Some p)
    have "card (fc_id ` set calls - set [i]) \<le> card (fc_id ` set calls)" by (intro card_mono) auto
    also have "\<dots> \<le> length calls" by (rule order_trans [OF card_image_le card_length]) simp
    finally have "card (fc_id ` set calls - set [i]) < Suc (length calls)" by simp
    from walk_rooted [OF _ this] False Some obtain k where "rooted (parent_call calls) p k" by auto
    with Some False show ?thesis by (auto simp: cut_cycle_def intro: rooted.intros)
  qed
qed

lemma cut_cycle_keeps: "rooted (parent_call calls) x k \<Longrightarrow> \<exists>j. rooted (parent_call (cut_cycle calls i)) x j"
  using rooted_cut [of "parent_call calls" x k i] by (auto simp: cut_cycle_def parent_call_cut)

interpretation fc: cut_step cut_cycle parent_call
  by unfold_locales (simp_all add: cut_cycle_rooted cut_cycle_keeps)

lemma cut_cycle_ids [simp]: "map fc_id (cut_cycle calls i) = map fc_id calls"
  by (simp add: cut_cycle_def)

lemma break_cycles_ids [simp]: "map fc_id (break_cycles calls) = map fc_id calls"
proof -
  have "map fc_id (foldl cut_cycle calls is) = map fc_id calls" for "is" by (induction "is" arbitrary: calls) auto
  then show ?thesis by (simp add: break_cycles_def)
qed

lemma break_cycles_rooted: "c \<in> set (break_cycles calls) \<Longrightarrow> \<exists>k. rooted (parent_call (break_cycles calls)) (fc_id c) k"
proof -
  assume "c \<in> set (break_cycles calls)"
  then have "fc_id c \<in> set (map fc_id (break_cycles calls))" unfolding set_map by (rule imageI)
  then have "fc_id c \<in> set (map fc_id calls)" unfolding break_cycles_ids .
  then show ?thesis unfolding break_cycles_def by (rule fc.cuts_rooted)
qed

text \<open>The walks only remove parents.\<close>

lemma cut_cycle_member: "c \<in> set (cut_cycle calls i) \<Longrightarrow> \<exists>d \<in> set calls. c = d \<or> c = d\<lparr>fc_parent := None\<rparr>"
  by (auto simp: cut_cycle_def cut_parent_def split: if_splits)

lemma break_cycles_parent:
  "c \<in> set (break_cycles calls) \<Longrightarrow> fc_parent c = Some p \<Longrightarrow> \<exists>d \<in> set calls. fc_id d = fc_id c \<and> fc_parent d = Some p"
proof -
  have "c \<in> set (foldl cut_cycle calls is) \<Longrightarrow> fc_parent c = Some p \<Longrightarrow> \<exists>d \<in> set calls. fc_id d = fc_id c \<and> fc_parent d = Some p" for "is"
  proof (induction "is" arbitrary: calls)
    case (Cons i "is")
    then obtain d where d: "d \<in> set (cut_cycle calls i)" "fc_id d = fc_id c" "fc_parent d = Some p" by auto
    with cut_cycle_member [OF d(1)] show ?case by auto
  qed auto
  then show "c \<in> set (break_cycles calls) \<Longrightarrow> fc_parent c = Some p \<Longrightarrow> ?thesis" by (simp add: break_cycles_def)
qed

text \<open>
  The groups of a flow: the map \<open>roots\<close> of \<open>buildExecutionFlow\<close> stays a forest, so the walk to a root ends, its fuel is enough, and a call is in
  the group of its enclosing call.
\<close>

definition next_root :: "parents \<Rightarrow> string \<Rightarrow> string option" where
  "next_root roots i = (case jmap_get roots i of None \<Rightarrow> None | Some p \<Rightarrow> if p = [] \<or> p = i then None else Some p)"

inductive ends_at :: "(string \<Rightarrow> string option) \<Rightarrow> string \<Rightarrow> string \<Rightarrow> bool" for nx where
  ends_here: "nx x = None \<Longrightarrow> ends_at nx x x"
| ends_later: "nx x = Some y \<Longrightarrow> ends_at nx y r \<Longrightarrow> ends_at nx x r"

lemma ends_rooted: "ends_at nx x r \<Longrightarrow> \<exists>k. rooted nx x k"
  by (induction rule: ends_at.induct) (blast intro: rooted.intros)+

lemma rooted_ends: "rooted nx x k \<Longrightarrow> \<exists>r. ends_at nx x r"
  by (induction rule: rooted.induct) (blast intro: ends_at.intros)+

lemma ends_unique: "ends_at nx x r \<Longrightarrow> ends_at nx x s \<Longrightarrow> r = s"
proof (induction arbitrary: s rule: ends_at.induct)
  case (ends_here x)
  from ends_here.prems ends_here.hyps show ?case by (cases rule: ends_at.cases) auto
next
  case (ends_later x y r)
  from ends_later.prems ends_later.hyps have "ends_at nx y s" by (cases rule: ends_at.cases) auto
  then show ?case by (rule ends_later.IH)
qed

lemma ends_last: "ends_at nx x r \<Longrightarrow> nx r = None"
  by (induction rule: ends_at.induct) auto

lemma flow_root_ends: "ends_at (next_root roots) i r \<Longrightarrow> rooted (next_root roots) i k \<Longrightarrow> k < n \<Longrightarrow> flow_root n roots i = r"
proof (induction arbitrary: k n rule: ends_at.induct)
  case (ends_here x)
  then show ?case by (cases n) (auto simp: next_root_def split: option.splits if_splits)
next
  case (ends_later x y r)
  obtain j where j: "k = Suc j" "rooted (next_root roots) y j" using rooted_next [OF ends_later.prems(1) ends_later.hyps(1)] by blast
  with ends_later.prems(2) obtain m where m: "n = Suc m" "j < m" by (cases n) auto
  from ends_later.IH [OF j(2) m(2)] ends_later.hyps(1) m(1) show ?case by (auto simp: next_root_def split: option.splits if_splits)
qed

definition roots_ok :: "parents \<Rightarrow> bool" where
  "roots_ok roots \<longleftrightarrow> (\<forall>x. \<exists>r. ends_at (next_root roots) x r) \<and> (\<forall>x p. jmap_get roots x = Some p \<longrightarrow> p \<noteq> [])"

lemma next_root_key: "next_root roots s \<noteq> None \<Longrightarrow> s \<in> set (jmap_keys roots)"
  by (auto simp: next_root_def jm.keys_get split: option.splits)

lemma entry_root_ends: "roots_ok roots \<Longrightarrow> ends_at (next_root roots) i (entry_root roots i)"
proof -
  assume "roots_ok roots"
  then obtain r where r: "ends_at (next_root roots) i r" unfolding roots_ok_def by blast
  then obtain k where k: "rooted (next_root roots) i k" using ends_rooted by blast
  have "k \<le> length (jmap_keys roots)" by (rule rooted_short [OF k next_root_key])
  then have "k < Suc (length roots)" by (simp add: jmap_keys_def)
  from flow_root_ends [OF r k this] r show ?thesis by (simp add: entry_root_def)
qed

lemma entry_root_not_Nil: "roots_ok roots \<Longrightarrow> i \<noteq> [] \<Longrightarrow> entry_root roots i \<noteq> []"
proof -
  have "ends_at (next_root roots) x r \<Longrightarrow> x \<noteq> [] \<Longrightarrow> r \<noteq> []" for x r
    by (induction rule: ends_at.induct) (auto simp: next_root_def split: option.splits if_splits)
  then show "roots_ok roots \<Longrightarrow> i \<noteq> [] \<Longrightarrow> ?thesis" using entry_root_ends by blast
qed

section \<open>The operations on the roots\<close>

lemma roots_ok_self:
  assumes "roots_ok roots" and "i \<noteq> []"
  shows "roots_ok (jmap_set i i roots)"
proof -
  have nx: "next_root (jmap_set i i roots) = (\<lambda>s. if s = i then None else next_root roots s)"
    by (rule ext) (simp add: next_root_def)
  have "\<exists>r. ends_at (next_root (jmap_set i i roots)) x r" for x
  proof -
    obtain k where "rooted (next_root roots) x k" using assms(1) ends_rooted unfolding roots_ok_def by blast
    from rooted_cut [OF this, of i] show ?thesis unfolding nx using rooted_ends by blast
  qed
  with assms show ?thesis by (simp add: roots_ok_def)
qed

lemma link_ends:
  assumes "ends_at nx x r" and "nx ra = None" and "ra \<noteq> rb" and "nx rb = None"
  shows "ends_at (\<lambda>s. if s = rb then Some ra else nx s) x (if r = rb then ra else r)"
  using assms(1)
proof (induction rule: ends_at.induct)
  case (ends_here x)
  show ?case
  proof (cases "x = rb")
    case True
    have "ends_at (\<lambda>s. if s = rb then Some ra else nx s) ra ra" using assms by (intro ends_at.ends_here) simp
    with True show ?thesis by (auto intro: ends_at.ends_later)
  next
    case False
    with ends_here show ?thesis by (auto intro: ends_at.ends_here)
  qed
next
  case (ends_later x y r)
  with assms(4) have "x \<noteq> rb" by auto
  with ends_later show ?case by (auto intro: ends_at.ends_later [of _ x y])
qed

lemma join_entries_ok:
  assumes ok: "roots_ok roots" and "a \<noteq> []" "b \<noteq> []"
  shows "roots_ok (join_entries a b roots)"
    and "entry_root (join_entries a b roots) x = (if entry_root roots x = entry_root roots b then entry_root roots a else entry_root roots x)"
proof -
  let ?ra = "entry_root roots a" and ?rb = "entry_root roots b"
  have ra: "next_root roots ?ra = None" and rb: "next_root roots ?rb = None"
    using ends_last [OF entry_root_ends [OF ok]] by blast+
  have ne: "?ra \<noteq> []" using entry_root_not_Nil [OF ok assms(2)] .
  have vals: "\<forall>x p. jmap_get (join_entries a b roots) x = Some p \<longrightarrow> p \<noteq> []"
    using ok ne by (auto simp: join_entries_def roots_ok_def)
  have ends: "ends_at (next_root (join_entries a b roots)) x (if entry_root roots x = ?rb then ?ra else entry_root roots x)" for x
  proof (cases "?ra = ?rb")
    case True
    then have "next_root (join_entries a b roots) = next_root roots"
      using rb by (intro ext) (auto simp: join_entries_def next_root_def)
    with True entry_root_ends [OF ok, of x] show ?thesis by auto
  next
    case False
    have nx: "next_root (join_entries a b roots) = (\<lambda>s. if s = ?rb then Some ?ra else next_root roots s)"
      using False ne by (intro ext) (auto simp: join_entries_def next_root_def)
    show ?thesis unfolding nx by (rule link_ends [OF entry_root_ends [OF ok] ra False rb])
  qed
  show ok': "roots_ok (join_entries a b roots)" using ends vals by (auto simp: roots_ok_def)
  show "entry_root (join_entries a b roots) x = (if entry_root roots x = ?rb then ?ra else entry_root roots x)"
    using ends_unique [OF entry_root_ends [OF ok'] ends] .
qed

lemma join_plan_ok: "roots_ok roots \<Longrightarrow> i \<noteq> [] \<Longrightarrow> (\<forall>p. plan = Some p \<longrightarrow> pl_id p \<noteq> []) \<Longrightarrow> roots_ok (join_plan i plan roots)"
  by (cases plan) (auto simp: join_plan_def join_entries_ok)

definition ids_given :: "flow_call \<Rightarrow> bool" where
  "ids_given c \<longleftrightarrow> fc_id c \<noteq> [] \<and> (\<forall>p. fc_plan c = Some p \<longrightarrow> pl_id p \<noteq> []) \<and> (\<forall>p. fc_targetPlan c = Some p \<longrightarrow> pl_id p \<noteq> [])
     \<and> (\<forall>p. fc_parent c = Some p \<longrightarrow> p \<noteq> [])"

lemma join_call_ok: "roots_ok roots \<Longrightarrow> ids_given c \<Longrightarrow> roots_ok (join_call roots c)"
  by (auto simp: join_call_def ids_given_def intro!: join_plan_ok roots_ok_self)

lemma join_calls_ok: "roots_ok roots \<Longrightarrow> \<forall>c \<in> set cs. ids_given c \<Longrightarrow> roots_ok (foldl join_call roots cs)"
  by (induction cs arbitrary: roots) (auto intro: join_call_ok)

lemma plan_roots_ok: "roots_ok roots \<Longrightarrow> \<forall>p \<in> set ps. pl_id p \<noteq> [] \<Longrightarrow> roots_ok (foldl (\<lambda>roots p. jmap_set (pl_id p) (pl_id p) roots) roots ps)"
  by (induction ps arbitrary: roots) (auto intro: roots_ok_self)

lemma roots_ok_Nil: "roots_ok []"
proof -
  have "next_root [] x = None" for x by (simp add: next_root_def)
  then show ?thesis by (auto simp: roots_ok_def intro: ends_at.ends_here)
qed

text \<open>The last joins put every call into the group of its parent, and separate nothing.\<close>

lemma join_parent_root:
  assumes "roots_ok roots" and "ids_given c" and "fc_parent c = Some p"
  shows "entry_root (join_parent roots c) x = (if entry_root roots x = entry_root roots p then entry_root roots (fc_id c) else entry_root roots x)"
proof -
  have "fc_id c \<noteq> []" "p \<noteq> []" using assms by (auto simp: ids_given_def)
  from join_entries_ok(2) [OF assms(1) this] show ?thesis unfolding join_parent_def assms(3) by (simp only: option.case)
qed

lemma join_parents_ok:
  assumes "roots_ok roots" and "\<forall>c \<in> set cs. ids_given c"
  shows "roots_ok (foldl join_parent roots cs)
    \<and> (\<forall>x y. entry_root roots x = entry_root roots y \<longrightarrow> entry_root (foldl join_parent roots cs) x = entry_root (foldl join_parent roots cs) y)
    \<and> (\<forall>c p. c \<in> set cs \<longrightarrow> fc_parent c = Some p \<longrightarrow> entry_root (foldl join_parent roots cs) (fc_id c) = entry_root (foldl join_parent roots cs) p)"
  using assms
proof (induction cs arbitrary: roots)
  case (Cons c cs)
  have ok: "roots_ok (join_parent roots c)"
    using Cons.prems join_entries_ok(1) [OF Cons.prems(1)] by (cases "fc_parent c") (simp_all add: join_parent_def ids_given_def)
  have given: "ids_given c" using Cons.prems(2) by simp
  have keep: "entry_root (join_parent roots c) x = entry_root (join_parent roots c) y" if "entry_root roots x = entry_root roots y" for x y
  proof (cases "fc_parent c")
    case (Some p)
    show ?thesis unfolding join_parent_root [OF Cons.prems(1) given Some] using that by simp
  qed (use that in \<open>simp add: join_parent_def\<close>)
  have new: "entry_root (join_parent roots c) (fc_id c) = entry_root (join_parent roots c) p" if "fc_parent c = Some p" for p
    unfolding join_parent_root [OF Cons.prems(1) given that] by simp
  have "\<forall>c \<in> set cs. ids_given c" using Cons.prems(2) by simp
  note IH = Cons.IH [OF ok this]
  let ?out = "foldl join_parent (join_parent roots c) cs"
  have all: "entry_root ?out (fc_id d) = entry_root ?out p" if d: "d \<in> set (c # cs)" "fc_parent d = Some p" for d p
  proof (cases "d = c")
    case True
    with d(2) have "entry_root (join_parent roots c) (fc_id d) = entry_root (join_parent roots c) p" using new by blast
    with IH show ?thesis by blast
  next
    case False
    with d IH show ?thesis by (metis set_ConsD)
  qed
  have rel: "entry_root ?out x = entry_root ?out y" if "entry_root roots x = entry_root roots y" for x y
    using IH keep [OF that] by blast
  from IH all rel show ?case unfolding foldl_Cons by blast
qed simp

lemma flow_roots_parent:
  assumes "\<forall>p \<in> set plans. pl_id p \<noteq> []" and "\<forall>c \<in> set calls. ids_given c"
  shows "roots_ok (flow_roots plans calls)"
    and "c \<in> set calls \<Longrightarrow> fc_parent c = Some p \<Longrightarrow> entry_root (flow_roots plans calls) (fc_id c) = entry_root (flow_roots plans calls) p"
  using join_parents_ok [OF join_calls_ok [OF plan_roots_ok [OF roots_ok_Nil assms(1)] assms(2)] assms(2)]
  unfolding flow_roots_def by blast+

text \<open>
  The order of requests and returns of a flow: the actions of an entry are well nested, and each of its calls is requested
  and returned exactly once. \<open>nested_actions\<close> runs over the actions with the stack of open calls.
\<close>

section \<open>Well nested actions\<close>

definition opened :: "string list \<Rightarrow> string option" where
  "opened stack = (case stack of [] \<Rightarrow> None | p # ps \<Rightarrow> Some p)"

fun nested_actions :: "string list \<Rightarrow> flow_action list \<Rightarrow> bool" where
  "nested_actions stack [] = (stack = [])"
| "nested_actions stack (a # as) =
     (case fa_kind a of
        A_request \<Rightarrow> fc_parent (fa_call a) = opened stack \<and> fa_depth a = length stack \<and> nested_actions (fc_id (fa_call a) # stack) as
      | A_return \<Rightarrow> opened stack = Some (fc_id (fa_call a)) \<and> Suc (fa_depth a) = length stack \<and> nested_actions (tl stack) as)"

lemma opened_simps [simp]: "opened [] = None" "opened (p # ps) = Some p"
  by (simp_all add: opened_def)

lemma action_simps [simp]:
  "fa_call (request_action d c) = c" "fa_kind (request_action d c) = A_request" "fa_depth (request_action d c) = d"
  "fa_call (return_action d c) = c" "fa_kind (return_action d c) = A_return" "fa_depth (return_action d c) = d"
  by (simp_all add: request_action_def return_action_def)

lemma visits_nested:
  assumes "\<And>c rest. c \<in> set cs \<Longrightarrow> nested_actions stack (f c @ rest) = nested_actions stack rest"
  shows "nested_actions stack (concat (map f cs) @ rest) = nested_actions stack rest"
  using assms by (induction cs) auto

lemma visit_nested:
  "fc_parent c = opened stack \<Longrightarrow> nested_actions stack (visit_call n calls (length stack) c @ rest) = nested_actions stack rest"
proof (induction n arbitrary: c stack rest)
  case (Suc n)
  have "nested_actions (fc_id c # stack) (concat (map (visit_call n calls (Suc (length stack))) (nested_calls calls (Some (fc_id c)))) @ rest')
      = nested_actions (fc_id c # stack) rest'" for rest'
  proof (rule visits_nested)
    fix d rest'
    assume "d \<in> set (nested_calls calls (Some (fc_id c)))"
    then have "fc_parent d = opened (fc_id c # stack)" by (simp add: nested_calls_def)
    from Suc.IH [OF this] show "nested_actions (fc_id c # stack) (visit_call n calls (Suc (length stack)) d @ rest') = nested_actions (fc_id c # stack) rest'"
      by simp
  qed
  with Suc.prems show ?case by simp
qed simp

lemma entry_nested: "nested_actions [] (fn_actions (with_actions e))"
proof -
  have "nested_actions [] (concat (map (visit_call (Suc (length (fn_calls e))) (fn_calls e) 0) (nested_calls (fn_calls e) None)) @ [])
      = nested_actions [] []"
  proof (rule visits_nested)
    fix d rest
    assume "d \<in> set (nested_calls (fn_calls e) None)"
    then have "fc_parent d = opened []" by (simp add: nested_calls_def)
    from visit_nested [OF this] show "nested_actions [] (visit_call (Suc (length (fn_calls e))) (fn_calls e) 0 d @ rest) = nested_actions [] rest"
      unfolding list.size .
  qed
  then show ?thesis by (simp add: with_actions_def del: visit_call.simps)
qed

section \<open>Every call once\<close>

lemma request_ids_simps [simp]:
  "request_ids [] = []" "request_ids (as @ bs) = request_ids as @ request_ids bs"
  "request_ids (a # as) = (if fa_kind a = A_request then fc_id (fa_call a) # request_ids as else request_ids as)"
  by (simp_all add: request_ids_def)

lemma request_ids_concat [simp]: "request_ids (concat (map f xs)) = concat (map (request_ids \<circ> f) xs)"
  by (induction xs) auto

fun ancestor :: "(string \<Rightarrow> string option) \<Rightarrow> nat \<Rightarrow> string \<Rightarrow> string option" where
  "ancestor nx 0 x = Some x"
| "ancestor nx (Suc j) x = Option.bind (ancestor nx j x) nx"

lemma ancestor_rooted: "ancestor nx j x = Some y \<Longrightarrow> rooted nx x k \<Longrightarrow> j \<le> k \<and> rooted nx y (k - j)"
proof (induction j arbitrary: y)
  case (Suc j)
  then obtain z where z: "ancestor nx j x = Some z" "nx z = Some y" by (auto simp: bind_eq_Some_conv)
  from Suc.IH [OF z(1) Suc.prems(2)] rooted_next [of nx z "k - j" y] z(2) obtain i where "j \<le> k" "k - j = Suc i" "rooted nx y i" by blast
  then show ?case by (metis Suc_diff_Suc Suc_le_eq diff_Suc_Suc diff_is_0_eq nat.distinct(1) not_le Suc_inject)
qed auto

lemma distinct_concat_map:
  "distinct xs \<Longrightarrow> (\<And>x. x \<in> set xs \<Longrightarrow> distinct (f x)) \<Longrightarrow> (\<And>x y i. x \<in> set xs \<Longrightarrow> y \<in> set xs \<Longrightarrow> i \<in> set (f x) \<Longrightarrow> i \<in> set (f y) \<Longrightarrow> x = y)
     \<Longrightarrow> distinct (concat (map f xs))"
proof (induction xs)
  case (Cons x xs)
  have "distinct (concat (map f xs))" by (rule Cons.IH) (use Cons.prems in auto)
  moreover have "set (f x) \<inter> set (f y) = {}" if "y \<in> set xs" for y using Cons.prems(1,3) that by fastforce
  ultimately show ?case using Cons.prems(2) by auto
qed simp

text \<open>The calls of an entry: different, with their parents among them, and without cycles.\<close>

definition group_ok :: "flow_call list \<Rightarrow> bool" where
  "group_ok g \<longleftrightarrow> distinct (map fc_id g) \<and> (\<forall>c \<in> set g. \<forall>p. fc_parent c = Some p \<longrightarrow> p \<in> fc_id ` set g)
     \<and> (\<forall>c \<in> set g. \<exists>k. rooted (parent_call g) (fc_id c) k)"

lemma group_by_id: "group_ok g \<Longrightarrow> c \<in> set g \<Longrightarrow> call_by_id g (fc_id c) = Some c"
proof -
  assume g: "group_ok g" and c: "c \<in> set g"
  then obtain d where d: "call_by_id g (fc_id c) = Some d" using call_by_id_None [of g "fc_id c"] by (cases "call_by_id g (fc_id c)") auto
  then have "d \<in> set g" "fc_id d = fc_id c" using call_by_id_Some by blast+
  with g c have "d = c" unfolding group_ok_def distinct_map by (auto dest: inj_onD)
  with d show ?thesis by simp
qed

lemma group_parent: "group_ok g \<Longrightarrow> c \<in> set g \<Longrightarrow> parent_call g (fc_id c) = fc_parent c"
  by (simp add: parent_call_def group_by_id)

lemma nested_member: "d \<in> set (nested_calls g p) \<longleftrightarrow> d \<in> set g \<and> fc_parent d = p"
  by (auto simp: nested_calls_def)

lemma visit_request_below:
  assumes "group_ok g"
  shows "c \<in> set g \<Longrightarrow> i \<in> set (request_ids (visit_call n g d c)) \<Longrightarrow> \<exists>j. ancestor (parent_call g) j i = Some (fc_id c)"
proof (induction n arbitrary: c d)
  case (Suc n)
  then consider "i = fc_id c" | e where "e \<in> set g" "fc_parent e = Some (fc_id c)" "i \<in> set (request_ids (visit_call n g (d + 1) e))"
    by (auto simp: nested_member)
  then show ?case
  proof cases
    case 1
    then show ?thesis by (intro exI [of _ 0]) simp
  next
    case 2
    from Suc.IH [OF 2(1,3)] obtain j where "ancestor (parent_call g) j i = Some (fc_id e)" by blast
    with 2(2) group_parent [OF assms 2(1)] show ?thesis by (intro exI [of _ "Suc j"]) simp
  qed
qed simp

lemma rooted_same: "nx x = nx y \<Longrightarrow> rooted nx x k \<Longrightarrow> rooted nx y k"
  by (cases k) (simp_all add: rooted_0 rooted_Suc)

text \<open>An element is below at most one call of a level.\<close>

lemma below_once:
  assumes "group_ok g" and "e \<in> set g" "e' \<in> set g" and "fc_parent e = fc_parent e'"
    and "ancestor (parent_call g) j i = Some (fc_id e)" "ancestor (parent_call g) j' i = Some (fc_id e')" and "rooted (parent_call g) i k"
  shows "e = e'"
proof -
  obtain a b where ab: "rooted (parent_call g) (fc_id e) a" "rooted (parent_call g) (fc_id e') b" using assms(1-3) unfolding group_ok_def by blast
  have "parent_call g (fc_id e) = parent_call g (fc_id e')" using assms(1-4) by (simp add: group_parent)
  then have "rooted (parent_call g) (fc_id e') a" using rooted_same [OF _ ab(1)] by blast
  with ab(2) rooted_unique have "a = b" by blast
  moreover have "j \<le> k" "rooted (parent_call g) (fc_id e) (k - j)" "j' \<le> k" "rooted (parent_call g) (fc_id e') (k - j')"
    using ancestor_rooted [OF assms(5,7)] ancestor_rooted [OF assms(6,7)] by blast+
  ultimately have "j = j'" using rooted_unique [OF ab(1)] rooted_unique [OF ab(2)] by fastforce
  with assms(5,6) have "fc_id e = fc_id e'" by simp
  with assms(1-3) show ?thesis using group_by_id by (metis option.inject)
qed

lemma ancestor_known: "group_ok g \<Longrightarrow> c \<in> set g \<Longrightarrow> ancestor (parent_call g) j i = Some (fc_id c) \<Longrightarrow> i \<in> fc_id ` set g"
proof (induction j arbitrary: c)
  case (Suc j)
  then obtain z where z: "ancestor (parent_call g) j i = Some z" "parent_call g z = Some (fc_id c)" by (auto simp: bind_eq_Some_conv)
  then obtain e where "e \<in> set g" "z = fc_id e" using parent_call_known [of g z] by auto
  with Suc.IH [OF Suc.prems(1), of e] z(1) show ?case by simp
qed auto

lemma visit_distinct:
  assumes "group_ok g"
  shows "c \<in> set g \<Longrightarrow> distinct (request_ids (visit_call n g d c))"
proof (induction n arbitrary: c d)
  case (Suc n)
  let ?below = "\<lambda>e. request_ids (visit_call n g (Suc d) e)"
  let ?kids = "nested_calls g (Some (fc_id c))"
  have up: "\<exists>j. ancestor (parent_call g) (Suc j) i = Some (fc_id c)" if "e \<in> set ?kids" "i \<in> set (?below e)" for e i
  proof -
    have "e \<in> set g" using that(1) by (simp add: nested_member)
    from visit_request_below [OF assms this that(2)] obtain j where "ancestor (parent_call g) j i = Some (fc_id e)" by blast
    moreover have "parent_call g (fc_id e) = Some (fc_id c)" using that(1) group_parent [OF assms] by (simp add: nested_member)
    ultimately have "ancestor (parent_call g) (Suc j) i = Some (fc_id c)" by simp
    then show ?thesis by blast
  qed
  have "distinct (concat (map ?below ?kids))"
  proof (rule distinct_concat_map)
    show "distinct ?kids" using assms by (auto simp: nested_calls_def group_ok_def distinct_map)
    show "distinct (?below e)" if "e \<in> set ?kids" for e using Suc.IH that by (simp add: nested_member)
    fix e e' i
    assume e: "e \<in> set ?kids" "e' \<in> set ?kids" and i: "i \<in> set (?below e)" "i \<in> set (?below e')"
    then have g: "e \<in> set g" "e' \<in> set g" "fc_parent e = fc_parent e'" by (auto simp: nested_member)
    obtain j j' where j: "ancestor (parent_call g) j i = Some (fc_id e)" "ancestor (parent_call g) j' i = Some (fc_id e')"
      using visit_request_below [OF assms g(1) i(1)] visit_request_below [OF assms g(2) i(2)] by blast
    have "i \<in> fc_id ` set g" using ancestor_known [OF assms g(1) j(1)] .
    then obtain k where "rooted (parent_call g) i k" using assms by (auto simp: group_ok_def)
    from below_once [OF assms g(1-3) j this] show "e = e'" .
  qed
  moreover have "fc_id c \<notin> set (concat (map ?below ?kids))"
  proof
    assume "fc_id c \<in> set (concat (map ?below ?kids))"
    then obtain e j where "ancestor (parent_call g) (Suc j) (fc_id c) = Some (fc_id c)" using up by auto
    moreover obtain k where "rooted (parent_call g) (fc_id c) k" using assms Suc.prems by (auto simp: group_ok_def)
    ultimately have "Suc j \<le> k" "k = k - Suc j" using ancestor_rooted rooted_unique by blast+
    then show False by linarith
  qed
  ultimately show ?case by (simp add: comp_def)
qed simp

lemma visit_reaches:
  assumes "group_ok g"
  shows "c \<in> set g \<Longrightarrow> ancestor (parent_call g) j i = Some (fc_id c) \<Longrightarrow> j < n \<Longrightarrow> i \<in> set (request_ids (visit_call n g d c))"
proof (induction n arbitrary: c d j)
  case (Suc n)
  show ?case
  proof (cases j)
    case 0
    with Suc.prems show ?thesis by simp
  next
    case (Suc m)
    with Suc.prems(2) obtain z where z: "ancestor (parent_call g) m i = Some z" "parent_call g z = Some (fc_id c)" by (auto simp: bind_eq_Some_conv)
    then obtain e where e: "e \<in> set g" "z = fc_id e" using parent_call_known [of g z] by auto
    with z(2) have "e \<in> set (nested_calls g (Some (fc_id c)))" using group_parent [OF assms] by (simp add: nested_member)
    moreover from Suc.IH [of e m "Suc d"] e z(1) Suc.prems(3) \<open>j = Suc m\<close> have "i \<in> set (request_ids (visit_call n g (Suc d) e))" by simp
    ultimately show ?thesis by auto
  qed
qed simp

lemma rooted_ancestor:
  "rooted (parent_call g) i k \<Longrightarrow> group_ok g \<Longrightarrow> i \<in> fc_id ` set g \<Longrightarrow> \<exists>r \<in> set g. ancestor (parent_call g) k i = Some (fc_id r) \<and> fc_parent r = None"
proof (induction k arbitrary: i rule: nat.induct)
  case zero
  then obtain c where "c \<in> set g" "i = fc_id c" by auto
  with zero group_parent show ?case by (auto simp: rooted_0)
next
  case (Suc k)
  from Suc.prems(1) obtain p where p: "parent_call g i = Some p" "rooted (parent_call g) p k" by (auto simp: rooted_Suc)
  obtain c where c: "c \<in> set g" "i = fc_id c" using Suc.prems(3) by auto
  with p(1) group_parent [OF Suc.prems(2) c(1)] have "fc_parent c = Some p" by simp
  with c(1) Suc.prems(2) have "p \<in> fc_id ` set g" by (auto simp: group_ok_def)
  from Suc.IH [OF p(2) Suc.prems(2) this] obtain r where "r \<in> set g" "ancestor (parent_call g) k p = Some (fc_id r)" "fc_parent r = None" by blast
  moreover have "ancestor (parent_call g) (Suc k) i = ancestor (parent_call g) k p"
  proof -
    have "ancestor nx (Suc j) x = Option.bind (nx x) (ancestor nx j)" for nx :: "string \<Rightarrow> string option" and j x
      by (induction j) (auto simp: bind_assoc)
    then show ?thesis using p(1) by (metis bind.bind_lunit)
  qed
  ultimately show ?case by metis
qed

lemma with_actions_calls [simp]: "fn_calls (with_actions e) = fn_calls e" "fn_id (with_actions e) = fn_id e"
  by (simp_all add: with_actions_def)

lemma entry_requests:
  assumes "group_ok (fn_calls e)"
  shows "distinct (request_ids (fn_actions (with_actions e))) \<and> set (request_ids (fn_actions (with_actions e))) = fc_id ` set (fn_calls e)"
proof -
  define g where "g = fn_calls e"
  have g: "group_ok g" using assms by (simp add: g_def)
  let ?visit = "\<lambda>c. request_ids (visit_call (Suc (length g)) g 0 c)"
  have ids: "request_ids (fn_actions (with_actions e)) = concat (map ?visit (nested_calls g None))"
    by (simp add: with_actions_def g_def comp_def del: visit_call.simps)
  have "distinct (concat (map ?visit (nested_calls g None)))"
  proof (rule distinct_concat_map)
    show "distinct (nested_calls g None)" using g by (auto simp: nested_calls_def group_ok_def distinct_map)
    show "distinct (?visit c)" if "c \<in> set (nested_calls g None)" for c using visit_distinct [OF g] that nested_member by blast
    fix c c' i
    assume c: "c \<in> set (nested_calls g None)" "c' \<in> set (nested_calls g None)" and i: "i \<in> set (?visit c)" "i \<in> set (?visit c')"
    then have m: "c \<in> set g" "c' \<in> set g" "fc_parent c = fc_parent c'" by (auto simp: nested_member)
    obtain j j' where j: "ancestor (parent_call g) j i = Some (fc_id c)" "ancestor (parent_call g) j' i = Some (fc_id c')"
      using visit_request_below [OF g m(1) i(1)] visit_request_below [OF g m(2) i(2)] by blast
    obtain k where "rooted (parent_call g) i k" using ancestor_known [OF g m(1) j(1)] g by (auto simp: group_ok_def)
    from below_once [OF g m j this] show "c = c'" .
  qed
  moreover have "set (concat (map ?visit (nested_calls g None))) = fc_id ` set g"
  proof (intro equalityI subsetI)
    fix i assume "i \<in> set (concat (map ?visit (nested_calls g None)))"
    then obtain c where "c \<in> set g" "i \<in> set (?visit c)" by (auto simp: nested_member simp del: visit_call.simps)
    with visit_request_below [OF g] ancestor_known [OF g] show "i \<in> fc_id ` set g" by meson
  next
    fix i assume i: "i \<in> fc_id ` set g"
    then obtain k where k: "rooted (parent_call g) i k" using g by (auto simp: group_ok_def)
    from rooted_ancestor [OF k g i] obtain r where r: "r \<in> set g" "ancestor (parent_call g) k i = Some (fc_id r)" "fc_parent r = None" by blast
    have "k \<le> length (map fc_id g)" by (rule rooted_short [OF k]) (use parent_call_known [of g] in auto)
    then have "k < Suc (length g)" by simp
    from visit_reaches [OF g r(1,2) this] have "i \<in> set (?visit r)" .
    moreover have "r \<in> set (nested_calls g None)" using r by (simp add: nested_member)
    ultimately show "i \<in> set (concat (map ?visit (nested_calls g None)))" unfolding set_concat set_map by blast
  qed
  ultimately show ?thesis by (simp add: ids g_def)
qed

end
