(* ===== verification/Flow_Properties.thy ===== *)
theory Flow_Properties
  imports Flow_Order Timeline_Built
begin

text \<open>
  A built flow: its calls are the outgoing calls of the timeline, every call is requested and returned once, inside the call
  that encloses it, and the requests are numbered in their order.
\<close>

section \<open>Entries\<close>

definition entry_calls :: "(string, flow_entry) jmap \<Rightarrow> string \<Rightarrow> flow_call list" where
  "entry_calls entries k = (case jmap_get entries k of None \<Rightarrow> [] | Some e \<Rightarrow> fn_calls e)"

lemma on_entry_keys: "distinct (jmap_keys entries) \<Longrightarrow> distinct (jmap_keys (on_entry roots i f entries))"
  by (auto simp: on_entry_def Let_def jm.keys_put jm.keys_get)

lemma add_entry_keeps [simp]:
  "entry_calls (add_entry_plan roots entries p) k = entry_calls entries k"
  "entry_calls (add_entry_update roots entries u) k = entry_calls entries k"
  by (auto simp: entry_calls_def add_entry_plan_def add_entry_update_def on_entry_def Let_def split: option.splits)

lemma add_entry_call_at:
  "entry_calls (add_entry_call roots entries c) k = entry_calls entries k @ (if entry_root roots (fc_id c) = k then [c] else [])"
  by (auto simp: entry_calls_def add_entry_call_def on_entry_def Let_def split: option.splits)

lemma flow_entries_keys: "distinct (jmap_keys (flow_entries roots plans updates calls))"
proof -
  have fold: "distinct (jmap_keys m) \<Longrightarrow> distinct (jmap_keys (foldl f m xs))"
    if "\<And>m x. distinct (jmap_keys m) \<Longrightarrow> distinct (jmap_keys (f m x))" for f :: "(string, flow_entry) jmap \<Rightarrow> 'a \<Rightarrow> (string, flow_entry) jmap" and m xs
    using that by (induction xs arbitrary: m) auto
  show ?thesis unfolding flow_entries_def
    by (intro fold) (auto simp: add_entry_plan_def add_entry_update_def add_entry_call_def intro: on_entry_keys)
qed

lemma flow_entries_calls: "entry_calls (flow_entries roots plans updates calls) k = filter (\<lambda>c. entry_root roots (fc_id c) = k) calls"
proof -
  have calls: "entry_calls (foldl (add_entry_call roots) m calls) k = entry_calls m k @ filter (\<lambda>c. entry_root roots (fc_id c) = k) calls" for m
    by (induction calls arbitrary: m) (auto simp: add_entry_call_at)
  have plans: "entry_calls (foldl (add_entry_plan roots) m plans) k = entry_calls m k" for m
    by (induction plans arbitrary: m) auto
  have updates: "entry_calls (foldl (add_entry_update roots) m updates) k = entry_calls m k" for m
    by (induction updates arbitrary: m) auto
  have "entry_calls [] k = []" by (simp add: entry_calls_def)
  then show ?thesis unfolding flow_entries_def calls updates plans by simp
qed

lemma flow_entry_calls:
  assumes "(k, e) \<in> set (flow_entries roots plans updates calls)"
  shows "fn_calls e = filter (\<lambda>c. entry_root roots (fc_id c) = k) calls"
proof -
  have "jmap_get (flow_entries roots plans updates calls) k = Some e" by (rule jmap_get_distinct [OF flow_entries_keys assms])
  with flow_entries_calls [of roots plans updates calls k] show ?thesis by (simp add: entry_calls_def)
qed

lemma flow_entry_of:
  assumes "c \<in> set calls"
  shows "\<exists>e. (entry_root roots (fc_id c), e) \<in> set (flow_entries roots plans updates calls) \<and> c \<in> set (fn_calls e)"
proof -
  let ?k = "entry_root roots (fc_id c)"
  have "c \<in> set (entry_calls (flow_entries roots plans updates calls) ?k)" using assms by (simp add: flow_entries_calls)
  then show ?thesis unfolding entry_calls_def
    by (cases "jmap_get (flow_entries roots plans updates calls) ?k") (auto dest: jmap_get_Some_key)
qed

section \<open>Groups\<close>

lemma group_filter:
  assumes g: "group_ok calls" and closed: "\<And>c d. c \<in> set calls \<Longrightarrow> d \<in> set calls \<Longrightarrow> fc_parent c = Some (fc_id d) \<Longrightarrow> P c \<Longrightarrow> P d"
  shows "group_ok (filter P calls)"
proof -
  let ?g = "filter P calls"
  have ids: "distinct (map fc_id ?g)" using g by (auto simp: group_ok_def distinct_map intro: inj_on_subset)
  have parents: "p \<in> fc_id ` set ?g" if "c \<in> set ?g" "fc_parent c = Some p" for c p
  proof -
    from that g obtain d where "d \<in> set calls" "p = fc_id d" unfolding group_ok_def by auto
    with closed that show ?thesis by auto
  qed
  have one: "d = c" if "call_by_id ?g (fc_id c) = Some d" "c \<in> set ?g" for c d
    using ids call_by_id_Some [OF that(1)] that(2) unfolding distinct_map by (auto dest: inj_onD)
  have same: "parent_call ?g (fc_id c) = fc_parent c" if "c \<in> set ?g" for c
    using one [OF _ that] call_by_id_None [of ?g "fc_id c"] that
    by (cases "call_by_id ?g (fc_id c)") (auto simp: parent_call_def)
  have "rooted (parent_call calls) x k \<Longrightarrow> x \<in> fc_id ` set ?g \<Longrightarrow> rooted (parent_call ?g) x k" for x k
  proof (induction rule: rooted.induct)
    case (rooted_end x)
    then obtain c where "c \<in> set ?g" "x = fc_id c" by auto
    with rooted_end same group_parent [OF g] show ?case by (auto intro: rooted.intros)
  next
    case (rooted_step x y k)
    then obtain c where c: "c \<in> set ?g" "x = fc_id c" by auto
    with rooted_step.hyps group_parent [OF g] have "fc_parent c = Some y" by auto
    with c same parents rooted_step.IH show ?case by (auto intro: rooted.rooted_step)
  qed
  with g ids parents show ?thesis unfolding group_ok_def by (meson filter_is_subset image_eqI subsetD)
qed

lemma entry_group_ok:
  assumes g: "group_ok calls" and "\<forall>p \<in> set plans. pl_id p \<noteq> []" and "\<forall>c \<in> set calls. ids_given c"
    and e: "(k, e) \<in> set (flow_entries (flow_roots plans calls) plans updates calls)"
  shows "group_ok (fn_calls e)"
  unfolding flow_entry_calls [OF e]
  by (rule group_filter [OF g]) (use flow_roots_parent(2) [OF assms(2,3)] in auto)

section \<open>Requests of all entries\<close>

lemma all_requests:
  assumes g: "group_ok calls" and plans: "\<forall>p \<in> set plans. pl_id p \<noteq> []" and given: "\<forall>c \<in> set calls. ids_given c"
    and es: "es = flow_entries (flow_roots plans calls) plans updates calls"
  shows "distinct (concat (map (request_ids \<circ> fn_actions) (map (with_actions \<circ> snd) es)))
    \<and> set (concat (map (request_ids \<circ> fn_actions) (map (with_actions \<circ> snd) es))) = fc_id ` set calls"
proof -
  let ?ids = "\<lambda>ke. request_ids (fn_actions (with_actions (snd ke)))"
  have req: "distinct (?ids (k, e)) \<and> set (?ids (k, e)) = fc_id ` set (fn_calls e)" if "(k, e) \<in> set es" for k e
    unfolding snd_conv by (rule entry_requests) (use entry_group_ok [OF g plans given] that es in blast)
  have calls: "fn_calls e = filter (\<lambda>c. entry_root (flow_roots plans calls) (fc_id c) = k) calls" if "(k, e) \<in> set es" for k e
    using flow_entry_calls that es by blast
  have keys: "distinct (map fst es)" using flow_entries_keys unfolding es jmap_keys_def .
  have "distinct (concat (map ?ids es))"
  proof (rule distinct_concat_map)
    show "distinct es" using keys by (simp add: distinct_map)
    show "distinct (?ids x)" if "x \<in> set es" for x using req that by (cases x) blast
    fix x y i
    assume x: "x \<in> set es" and y: "y \<in> set es" and i: "i \<in> set (?ids x)" "i \<in> set (?ids y)"
    have "entry_root (flow_roots plans calls) i = fst z" if "z \<in> set es" "i \<in> set (?ids z)" for z
      using that req [of "fst z" "snd z"] calls [of "fst z" "snd z"] by auto
    with x y i have "fst x = fst y" by metis
    with x y keys show "x = y" unfolding distinct_map by (auto dest: inj_onD)
  qed
  moreover have "set (concat (map ?ids es)) = fc_id ` set calls"
  proof -
    have "\<exists>e. (entry_root (flow_roots plans calls) (fc_id c), e) \<in> set es \<and> c \<in> set (fn_calls e)" if "c \<in> set calls" for c
      using flow_entry_of [OF that] es by blast
    then have "fc_id ` set calls \<subseteq> (\<Union>(k, e) \<in> set es. fc_id ` set (fn_calls e))" by fast
    moreover have "(\<Union>(k, e) \<in> set es. fc_id ` set (fn_calls e)) \<subseteq> fc_id ` set calls" using calls by fastforce
    moreover have "set (concat (map ?ids es)) = (\<Union>(k, e) \<in> set es. fc_id ` set (fn_calls e))"
      using req unfolding set_concat set_map by (auto simp: case_prod_beta)
    ultimately show ?thesis by (simp only: subset_antisym)
  qed
  ultimately show ?thesis by (simp add: comp_def)
qed

section \<open>Numbers\<close>

lemma call_numbers_get:
  assumes "distinct ids" and "j < length ids" and "ids = concat (map (request_ids \<circ> fn_actions) es)"
  shows "jmap_get (call_numbers es) (ids ! j) = Some (Suc j)"
proof -
  let ?kvs = "map (\<lambda>(n, i). (i, n)) (List.enumerate 1 ids)"
  have "(ids ! j, Suc j) \<in> set ?kvs" using assms(2) by (force simp: in_set_enumerate_eq)
  moreover have "map fst (rev ?kvs) = rev ids" by (simp add: rev_map [symmetric] comp_def case_prod_beta)
  ultimately have "map_of (rev ?kvs) (ids ! j) = Some (Suc j)" using assms(1) by (intro map_of_is_SomeI) simp_all
  then show ?thesis by (simp add: call_numbers_def assms(3) [symmetric] jmap_get_set_all)
qed

lemma renumbered_fields [simp]:
  "fc_id (renumbered ns c) = fc_id c" "fc_parent (renumbered ns c) = fc_parent c" "fc_source (renumbered ns c) = fc_source c"
  by (simp_all add: renumbered_def split: option.splits)

abbreviation renumber_action :: "(string, nat) jmap \<Rightarrow> flow_action \<Rightarrow> flow_action" where
  "renumber_action ns a \<equiv> a\<lparr>fa_call := renumbered ns (fa_call a)\<rparr>"

lemma renumber_nested [simp]: "nested_actions stack (map (renumber_action ns) as) = nested_actions stack as"
  by (induction as arbitrary: stack) (auto split: action_kind.splits)

lemma renumber_requests [simp]: "request_ids (map (renumber_action ns) as) = request_ids as"
  by (induction as) auto

lemma request_numbers:
  "(\<And>i. i \<in> set (request_ids as) \<Longrightarrow> jmap_get ns i = Some (f i)) \<Longrightarrow>
   map (\<lambda>a. fc_number (fa_call a)) (filter (\<lambda>a. fa_kind a = A_request) (map (renumber_action ns) as)) = map f (request_ids as)"
  by (induction as) (auto simp: renumbered_def)

lemma number_requests:
  assumes "distinct (concat (map (request_ids \<circ> fn_actions) es))" and "ns = call_numbers es"
  shows "map (\<lambda>a. fc_number (fa_call a)) (filter (\<lambda>a. fa_kind a = A_request) (concat (map fn_actions (map (number_entry ns) es))))
    = [1 ..< Suc (length (concat (map (request_ids \<circ> fn_actions) es)))]"
proof -
  define as where "as = concat (map fn_actions es)"
  have ids: "request_ids as = concat (map (request_ids \<circ> fn_actions) es)" by (simp add: as_def)
  have acts: "concat (map fn_actions (map (number_entry ns) es)) = map (renumber_action ns) as"
    unfolding as_def map_concat map_map by (simp add: number_entry_def comp_def)
  define f where "f = (\<lambda>i. the (jmap_get ns i))"
  have get: "jmap_get ns (request_ids as ! j) = Some (Suc j)" if "j < length (request_ids as)" for j
    unfolding assms(2) by (rule call_numbers_get [OF _ that]) (use assms(1) ids in simp_all)
  have "jmap_get ns i = Some (f i)" if "i \<in> set (request_ids as)" for i using that get by (auto simp: in_set_conv_nth f_def)
  from request_numbers [of as ns f, OF this] have "map (\<lambda>a. fc_number (fa_call a)) (filter (\<lambda>a. fa_kind a = A_request) (map (renumber_action ns) as)) = map f (request_ids as)" .
  also have "\<dots> = [1 ..< Suc (length (request_ids as))]"
    by (rule nth_equalityI) (use get in \<open>auto simp: f_def nth_append simp del: upt_Suc\<close>)
  finally show ?thesis unfolding acts ids .
qed

section \<open>Calls of a timeline\<close>

lemma narrow_source: "map fd_source (narrow_round lk cs) = map fd_source cs"
  by (simp add: narrow_round_def Let_def)

lemma propagate_source: "map fd_source (propagate lk cs) = map fd_source cs"
proof (induction lk cs rule: propagate.induct)
  case (1 lk cs)
  then show ?case by (subst propagate.simps) (auto simp: Let_def narrow_source)
qed

lemma tell_apart_fields [simp]: "fd_source (tell_apart cs c) = fd_source c" "set (fd_matching (tell_apart cs c)) \<subseteq> set (fd_matching c)"
  by (auto simp: tell_apart_def split: option.splits)

lemma set_parent_id [simp]: "fc_id (set_parent lk calls c) = fc_id c"
  by (simp add: set_parent_def split: option.splits)

lemma mk_call_id [simp]: "fc_id (mk_call timeline evidence linked ic) = ts_id (fd_source (snd ic))"
  by (simp add: mk_call_def Let_def)

lemma flow_calls_ids:
  "map fc_id (flow_calls lib timeline evidence traces) = map ts_id (filter (step_named ''CrossChainCallExecuted'') (tl_steps timeline))"
proof -
  have src: "map ts_id (map fd_source cs) = map (\<lambda>ic. ts_id (fd_source (snd ic))) (List.enumerate 0 cs)" for cs
  proof -
    have "map (\<lambda>ic. ts_id (fd_source (snd ic))) (List.enumerate 0 cs) = map (\<lambda>c. ts_id (fd_source c)) (map snd (List.enumerate 0 cs))"
      by (simp only: map_map comp_def)
    then show ?thesis by (simp only: map_snd_enumerate map_map comp_def)
  qed
  show ?thesis
    unfolding flow_calls_def Let_def break_cycles_ids map_map comp_def set_parent_id mk_call_id
    unfolding src [symmetric] propagate_source by (simp add: comp_def mk_candidate_def Let_def)
qed

section \<open>Given ids\<close>

definition plan_given :: "entry_plan option \<Rightarrow> bool" where
  "plan_given plan \<longleftrightarrow> (\<forall>p. plan = Some p \<longrightarrow> pl_id p \<noteq> [])"

definition evidence_given :: "entry_evidence list \<Rightarrow> bool" where
  "evidence_given evidence \<longleftrightarrow> (\<forall>ev \<in> set evidence. pl_id (ee_plan ev) \<noteq> [])"

lemma flow_scope_given: "evidence_given evidence \<Longrightarrow> plan_given (flow_scope steps evidence st)"
proof -
  assume given: "evidence_given evidence"
  have one: "pl_id (ee_plan ev) \<noteq> []" if "filter P evidence = [ev]" for P ev
  proof -
    from that have "ev \<in> set (filter P evidence)" by simp
    with given show ?thesis by (simp add: evidence_given_def)
  qed
  show ?thesis unfolding flow_scope_def plan_given_def by (auto split: option.splits list.splits dest: one)
qed

definition links_given :: "flow_links \<Rightarrow> bool" where
  "links_given lk \<longleftrightarrow> (\<forall>r \<in> set (fk_incoming lk). plan_given (fi_plan r))"

lemma add_sources_incoming [simp]: "fk_incoming (foldl (add_source candidates outgoing) lk sts) = fk_incoming lk"
  by (induction sts arbitrary: lk) (auto simp: add_source_def split: option.splits)

lemma flow_links_given: "evidence_given evidence \<Longrightarrow> links_given (flow_links_of lib timeline evidence traces)"
proof -
  assume given: "evidence_given evidence"
  have made: "plan_given (fi_plan r)" if "r \<in> set (group_incoming lib steps evidence results dispatches)" for r steps results dispatches
    using that flow_scope_given [OF given]
    by (auto simp: group_incoming_def incoming_record_def Let_def in_set_zip split: if_splits)
  have group: "links_given (link_group lib steps evidence traces lk g)" if "links_given lk" for lk g steps
    using that made by (auto simp: link_group_def links_given_def Let_def split: option.splits)
  have all: "links_given (foldl (link_group lib steps evidence traces) lk gs)" if "links_given lk" for lk gs steps
    using that group by (induction gs arbitrary: lk) auto
  show ?thesis unfolding flow_links_of_def by (rule all) (simp add: links_given_def)
qed

definition matching_given :: "flow_candidate list \<Rightarrow> bool" where
  "matching_given cs \<longleftrightarrow> (\<forall>c \<in> set cs. \<forall>r \<in> set (fd_matching c). plan_given (fi_plan r))"

lemma narrow_given: "matching_given cs \<Longrightarrow> matching_given (narrow_round lk cs)"
  by (auto simp: matching_given_def narrow_round_def Let_def)

lemma propagate_given: "matching_given cs \<Longrightarrow> matching_given (propagate lk cs)"
proof (induction lk cs rule: propagate.induct)
  case (1 lk cs)
  then show ?case using narrow_given [of cs lk] by (subst propagate.simps) (auto simp: Let_def)
qed

lemma candidates_given:
  assumes "links_given lk" and "made = map (mk_candidate lib lk) sources"
  shows "matching_given (propagate lk (map (tell_apart made) made))"
proof (rule propagate_given)
  have "plan_given (fi_plan r)" if "r \<in> set (fd_matching (mk_candidate lib lk st))" for st r
    using assms(1) that by (auto simp: mk_candidate_def Let_def links_given_def split: if_splits)
  then have "matching_given made" by (auto simp: matching_given_def assms(2))
  then show "matching_given (map (tell_apart made) made)"
    unfolding matching_given_def by (auto dest: subsetD [OF tell_apart_fields(2)])
qed

lemma unique_given: "matching_given cs \<Longrightarrow> jmap_get (uniqueMatches cs) i = Some r \<Longrightarrow> plan_given (fi_plan r)"
proof -
  assume given: "matching_given cs" and "jmap_get (uniqueMatches cs) i = Some r"
  then have "(i, r) \<in> set (List.map_filter (\<lambda>c. case fd_matching c of
      [r] \<Rightarrow> if record_count cs r = 1 then Some (ts_id (fd_source c), r) else None | _ \<Rightarrow> None) cs)"
    by (auto simp: uniqueMatches_def jmap_get_set_all dest!: map_of_SomeD split: option.splits)
  then obtain c where "c \<in> set cs" "(case fd_matching c of
      [r] \<Rightarrow> if record_count cs r = 1 then Some (ts_id (fd_source c), r) else None | _ \<Rightarrow> None) = Some (i, r)"
    by (force simp: List.map_filter_def)
  then have "c \<in> set cs" "r \<in> set (fd_matching c)" by (auto split: list.splits if_splits)
  with given show ?thesis by (simp add: matching_given_def)
qed

section \<open>Built flows\<close>

lemma set_parent_parent:
  assumes "fc_parent c = None" and "fc_parent (set_parent lk calls c) = Some p"
  shows "p \<in> fc_id ` set calls"
proof -
  have frames: "frameAncestor (\<lambda>k. Option.bind (g k) (call_by_id calls)) ks = Some d \<Longrightarrow> d \<in> set calls" for g :: "frame_key \<Rightarrow> string option" and ks d
    by (induction ks) (auto simp: bind_eq_Some_conv split: option.splits dest: call_by_id_Some)
  have records: "frameAncestor (\<lambda>k. Option.bind (g k) (call_of_record calls)) ks = Some d \<Longrightarrow> d \<in> set calls" for g :: "frame_key \<Rightarrow> flow_incoming option" and ks d
    by (induction ks) (auto simp: bind_eq_Some_conv call_of_record_def find_Some_iff split: option.splits)
  have "s \<in> set calls" if "source_parent lk calls c = Some s" for s using that records unfolding source_parent_def by blast
  moreover have "t \<in> set calls" if "target_parent lk calls c = Some t" for t
    using that frames unfolding target_parent_def by (auto split: option.splits)
  ultimately show ?thesis using assms by (auto simp: set_parent_def split: option.splits if_splits)
qed

lemma set_parent_plans [simp]: "fc_plan (set_parent lk calls c) = fc_plan c" "fc_targetPlan (set_parent lk calls c) = fc_targetPlan c"
  by (simp_all add: set_parent_def split: option.splits)

lemma break_cycles_member: "c \<in> set (break_cycles calls) \<Longrightarrow> \<exists>d \<in> set calls. c = d \<or> c = d\<lparr>fc_parent := None\<rparr>"
proof -
  have "c \<in> set (foldl cut_cycle calls is) \<Longrightarrow> \<exists>d \<in> set calls. c = d \<or> c = d\<lparr>fc_parent := None\<rparr>" for "is"
  proof (induction "is" arbitrary: calls)
    case (Cons i "is")
    then obtain d where d: "d \<in> set (cut_cycle calls i)" "c = d \<or> c = d\<lparr>fc_parent := None\<rparr>" by auto
    with cut_cycle_member [OF d(1)] show ?case by auto
  qed auto
  then show "c \<in> set (break_cycles calls) \<Longrightarrow> ?thesis" by (simp add: break_cycles_def)
qed

lemma mk_call_given:
  assumes "evidence_given evidence" and "matching_given cs"
  shows "plan_given (fc_plan (mk_call timeline evidence (uniqueMatches cs) ic)) \<and> plan_given (fc_targetPlan (mk_call timeline evidence (uniqueMatches cs) ic))"
  using flow_scope_given [OF assms(1)] unique_given [OF assms(2)]
  by (auto simp: mk_call_def Let_def plan_given_def bind_eq_Some_conv split: option.splits)

lemma flow_calls_ok:
  assumes ids: "distinct (map ts_id (tl_steps timeline))" "\<forall>st \<in> set (tl_steps timeline). ts_id st \<noteq> []" and evidence: "evidence_given evidence"
  shows "group_ok (flow_calls lib timeline evidence traces)" and "\<forall>c \<in> set (flow_calls lib timeline evidence traces). ids_given c"
proof -
  define lk where "lk = flow_links_of lib timeline evidence traces"
  define made where "made = map (mk_candidate lib lk) (filter (step_named ''CrossChainCallExecuted'') (tl_steps timeline))"
  define cs where "cs = propagate lk (map (tell_apart made) made)"
  define raw where "raw = map (mk_call timeline evidence (uniqueMatches cs)) (List.enumerate 0 cs)"
  define calls where "calls = map (set_parent lk raw) raw"
  have flow: "flow_calls lib timeline evidence traces = break_cycles calls"
    by (simp add: flow_calls_def Let_def lk_def made_def cs_def raw_def calls_def)
  have cids: "map fc_id calls = map ts_id (filter (step_named ''CrossChainCallExecuted'') (tl_steps timeline))"
    using flow_calls_ids [of lib timeline evidence traces] unfolding flow break_cycles_ids .
  have rids: "map fc_id raw = map fc_id calls" by (simp add: calls_def)
  have parent: "p \<in> fc_id ` set calls" if "c \<in> set calls" "fc_parent c = Some p" for c p
  proof -
    from that(1) obtain d where "d \<in> set raw" "c = set_parent lk raw d" by (auto simp: calls_def)
    moreover from this(1) have "fc_parent d = None" by (auto simp: raw_def mk_call_def Let_def)
    ultimately have "p \<in> fc_id ` set raw" using set_parent_parent that(2) by blast
    then show ?thesis using rids by (metis set_map)
  qed
  have dist: "distinct (map fc_id calls)" unfolding cids using ids(1) by (auto simp: distinct_map intro: inj_on_subset)
  have bids: "fc_id ` set (break_cycles calls) = fc_id ` set calls" using break_cycles_ids [of calls] by (metis set_map)
  have bparent: "p \<in> fc_id ` set (break_cycles calls)" if "c \<in> set (break_cycles calls)" "fc_parent c = Some p" for c p
    using break_cycles_parent [OF that] parent bids by blast
  have links: "links_given lk" unfolding lk_def by (rule flow_links_given [OF evidence])
  have matching: "matching_given cs" unfolding cs_def by (rule candidates_given [OF links made_def])
  have raw_given: "plan_given (fc_plan r) \<and> plan_given (fc_targetPlan r)" if "r \<in> set raw" for r
    using that mk_call_given [OF evidence matching] unfolding raw_def by auto
  show "group_ok (flow_calls lib timeline evidence traces)"
    unfolding flow group_ok_def break_cycles_ids using dist bparent break_cycles_rooted by blast
  show "\<forall>c \<in> set (flow_calls lib timeline evidence traces). ids_given c"
  proof
    fix c assume "c \<in> set (flow_calls lib timeline evidence traces)"
    then have c: "c \<in> set (break_cycles calls)" unfolding flow .
    obtain d where d: "d \<in> set calls" "c = d \<or> c = d\<lparr>fc_parent := None\<rparr>" using break_cycles_member [OF c] by blast
    then obtain r where r: "r \<in> set raw" "d = set_parent lk raw r" by (auto simp: calls_def)
    have same: "fc_id c = fc_id r" "fc_plan c = fc_plan r" "fc_targetPlan c = fc_targetPlan r" using d(2) unfolding r(2) by auto
    have "fc_id r \<in> set (map fc_id raw)" using r(1) by simp
    then have "fc_id r \<noteq> []" unfolding rids cids using ids(2) by auto
    moreover have "q \<noteq> []" if "q \<in> fc_id ` set calls" for q
    proof -
      from that have "q \<in> set (map fc_id calls)" by simp
      then show ?thesis unfolding cids using ids(2) by auto
    qed
    moreover have "\<forall>p. fc_parent c = Some p \<longrightarrow> p \<noteq> []" using bparent [OF c] bids calculation(2) by blast
    ultimately show "ids_given c" unfolding ids_given_def same using raw_given [OF r(1)] by (simp add: plan_given_def)
  qed
qed

lemma evidence_given_compare: "evidence_given (compareExecution dec context traces)"
  by (auto simp: evidence_given_def compareExecution_def compare_plan_def executionPlans_def mk_plan_def Let_def case_prod_beta)

lemma entry_parents_known: "group_ok g \<Longrightarrow> c \<in> set g \<Longrightarrow> fc_parent c = Some p \<Longrightarrow> p \<in> fc_id ` set g"
  by (auto simp: group_ok_def)

definition requests :: "execution_flow \<Rightarrow> flow_call list" where
  "requests flow = map fa_call (filter (\<lambda>a. fa_kind a = A_request) (xf_actions flow))"

lemma assembled_ok:
  assumes g: "group_ok calls" and plans: "\<forall>p \<in> set plans. pl_id p \<noteq> []" and given: "\<forall>c \<in> set calls. ids_given c"
    and flow: "flow = assemble_flow timeline plans calls"
  shows "map fc_id (xf_calls flow) = map fc_id calls
    \<and> distinct (map fc_id (requests flow)) \<and> set (map fc_id (requests flow)) = fc_id ` set calls
    \<and> map fc_number (requests flow) = [1 ..< Suc (length calls)]
    \<and> list_all (\<lambda>e. nested_actions [] (fn_actions e)) (xf_entries flow)"
proof -
  define updates where "updates = flowStateUpdates plans (tl_steps timeline)"
  define es where "es = flow_entries (flow_roots plans calls) plans updates calls"
  define entries where "entries = map (with_actions \<circ> snd) es"
  define ns where "ns = call_numbers entries"
  have x: "xf_entries flow = map (number_entry ns) entries" "xf_actions flow = concat (map fn_actions (map (number_entry ns) entries))"
    "xf_calls flow = map (renumbered ns) calls"
    by (simp_all add: flow assemble_flow_def Let_def ns_def entries_def es_def updates_def comp_assoc)
  let ?ids = "concat (map (request_ids \<circ> fn_actions) entries)"
  have all: "distinct ?ids" "set ?ids = fc_id ` set calls" unfolding entries_def using all_requests [OF g plans given es_def] by blast+
  have ids: "map fc_id (requests flow) = ?ids"
  proof -
    have "map fc_id (requests flow) = request_ids (xf_actions flow)" by (simp add: requests_def request_ids_def comp_def)
    then show ?thesis by (simp add: x(2) number_entry_def comp_def)
  qed
  have "length ?ids = card (set ?ids)" using distinct_card [OF all(1)] by simp
  also have "\<dots> = length (map fc_id calls)" unfolding all(2) using g distinct_card [of "map fc_id calls"] by (simp add: group_ok_def)
  finally have len: "length ?ids = length calls" by simp
  have "map fc_number (requests flow) = [1 ..< Suc (length calls)]"
    using number_requests [OF all(1) ns_def] unfolding len by (simp only: requests_def x(2) map_map comp_def)
  moreover have "list_all (\<lambda>e. nested_actions [] (fn_actions e)) (xf_entries flow)"
    using entry_nested by (auto simp: x(1) entries_def list_all_iff number_entry_def)
  moreover have "map fc_id (xf_calls flow) = map fc_id calls" by (simp add: x(3))
  ultimately show ?thesis using ids all by metis
qed

text \<open>C8. In a flow that is built, the calls are exactly the outgoing cross-chain calls of the timeline; every call is
  requested exactly once, with the numbers from one in the order of the requests; and in each entry requests and returns are
  well nested: a call is requested while the call that encloses it is open, at its depth, and returns when all its nested
  calls have returned.\<close>
theorem flow_calls_ordered:
  assumes "buildExecutionFlow lib context selected traces = Inr flow"
  shows "map fc_id (xf_calls flow) = map ts_id (filter (step_named ''CrossChainCallExecuted'') (tl_steps (xf_timeline flow)))
    \<and> distinct (map fc_id (requests flow)) \<and> set (map fc_id (requests flow)) = fc_id ` set (xf_calls flow)
    \<and> map fc_number (requests flow) = [1 ..< Suc (length (xf_calls flow))]
    \<and> list_all (\<lambda>e. nested_actions [] (fn_actions e)) (xf_entries flow)"
proof -
  define evidence where "evidence = compareExecution (\<lambda>_. None) context []"
  define plans where "plans = map ee_plan (filter (\<lambda>ev. pl_kind (ee_plan ev) = P_Execution) evidence)"
  obtain timeline where t: "buildExecutionTimeline (fw_rollupId lib) (fw_isManager lib) context selected = Inr timeline"
    and flow: "flow = assemble_flow timeline plans (flow_calls lib timeline evidence traces)"
    using assms unfolding buildExecutionFlow_def res_bind_Inr_iff Let_def evidence_def plans_def by blast
  have timeline: "xf_timeline flow = timeline" by (simp add: flow assemble_flow_def Let_def)
  obtain s where s: "building_ok s" "tl_steps timeline = chain_steps (tm_l1 s @ tm_l2 s)" using buildExecutionTimeline_Inr [OF t] by metis
  have dist: "distinct (map ts_id (tl_steps timeline))" unfolding s(2) by (rule step_id_distinct [OF s(1)])
  have named: "\<forall>st \<in> set (tl_steps timeline). ts_id st \<noteq> []" unfolding s(2) using building_step_id [OF s(1)] by (auto simp: step_id_def)
  have evidence: "evidence_given evidence" unfolding evidence_def by (rule evidence_given_compare)
  have plans: "\<forall>p \<in> set plans. pl_id p \<noteq> []" using evidence by (auto simp: plans_def evidence_given_def)
  note ok = flow_calls_ok [OF dist named evidence, of lib traces]
  note built = assembled_ok [OF ok(1) plans ok(2) flow]
  have ids: "map fc_id (xf_calls flow) = map fc_id (flow_calls lib timeline evidence traces)" using built by blast
  have "length (xf_calls flow) = length (flow_calls lib timeline evidence traces)" using arg_cong [OF ids, of length] by simp
  moreover have "fc_id ` set (xf_calls flow) = fc_id ` set (flow_calls lib timeline evidence traces)" using arg_cong [OF ids, of set] by simp
  ultimately show ?thesis using built unfolding timeline ids flow_calls_ids by simp
qed

text \<open>A call from L1 whose execution on L2 makes a call of its own.\<close>

definition nested_outer_tx :: debug_transaction where
  "nested_outer_tx = sample_outgoing_tx\<lparr>dt_events := [sample_exec_event ''CrossChainCallExecuted''
     [(''proxy'', JStr ''0x6''), (''sourceAddress'', JStr ''0x5''), (''callData'', JStr ''0xd'')]]\<rparr>"

definition nested_inner_tx :: debug_transaction where
  "nested_inner_tx = sample_exec_tx\<lparr>dt_events := [
       sample_exec_event ''ExecutionConsumed'' [(''crossChainCallHash'', JStr sample_call_hash), (''entryIndex'', JBig 0)],
       sample_exec_event ''CrossChainCallExecuted'' [(''proxy'', JStr ''0x8''), (''sourceAddress'', JStr ''0x7''), (''callData'', JStr ''0xe'')],
       sample_exec_event ''CallResult'' [(''entryIndex'', JBig 0), (''callNumber'', JBig 0), (''success'', JBool True), (''returnData'', JStr ''0x'')],
       sample_exec_event ''EntryExecuted'' [(''entryIndex'', JBig 0), (''rollingHash'', JStr ''0xAB'')]],
     dt_payload := Some \<lparr>dp_method = ''executeIncomingCrossChainCall'', dp_args = [],
       dp_entries = [[(''proxyEntryHash'', JStr sample_call_hash), (''rollingHash'', JStr ''0xab''), (''returnData'', JStr ''0x05''),
         (''incomingCalls'', JArr [JObj [(''sourceAddress'', JStr ''0x5''), (''targetAddress'', JStr ''0x7''), (''data'', JStr ''0xd'')]])]],
       dp_staticEntries = [], dp_immediateEntryCount = 0\<rparr>\<rparr>"

definition nested_flow_context :: debug_context where
  "nested_flow_context = \<lparr>dx_sourceChain = L2, dx_sourceBlock = None, dx_selected = Some nested_inner_tx,
     dx_blocks = [\<lparr>db_chain = L2, db_number = 7, db_hash = ''0x2'', db_parentHash = ''0x0'', db_timestamp = ''0x0'',
       db_gasUsed = ''0x0'', db_gasLimit = ''0x0'', db_transactions = [nested_inner_tx]\<rparr>,
       \<lparr>db_chain = L1, db_number = 3, db_hash = ''0x4'', db_parentHash = ''0x0'', db_timestamp = ''0x0'',
       db_gasUsed = ''0x0'', db_gasLimit = ''0x0'', db_transactions = [nested_outer_tx]\<rparr>],
     dx_settlements = [], dx_warnings = []\<rparr>"

definition sample_flow_lib :: flow_lib where
  "sample_flow_lib = \<lparr>fw_decodeCall = (\<lambda>i. map_of [(''0x01'', (''executeCrossChainCall'', [JStr ''0x5'', JStr ''0xd''])),
       (''0x02'', (''executeOnBehalf'', [JStr ''0x7'', JBig 0, JStr ''0xd''])),
       (''0x03'', (''executeCrossChainCall'', [JStr ''0x7'', JStr ''0xe'']))] i),
     fw_decodeBytes = (\<lambda>_. None), fw_callHash = (\<lambda>_. None), fw_manager = (\<lambda>c. case c of L1 \<Rightarrow> ''0x41'' | L2 \<Rightarrow> ''0x42''),
     fw_isManager = (\<lambda>_ _. True), fw_rollupId = ''1''\<rparr>"

definition nested_flow_traces :: "(string, flow_trace) jmap" where
  "nested_flow_traces =
     [(''l1:0x9'', Call_frame ''CALL'' ''0x6'' (Some ''0x41'') (Some ''0x01'') None None None []),
      (''l2:0x1'', Call_frame ''CALL'' ''0x3'' (Some ''0x42'') None None None None
         [Call_frame ''CALL'' ''0x42'' (Some ''0x7'') (Some ''0x02'') (Some ''0x'') None None
            [Call_frame ''CALL'' ''0x8'' (Some ''0x42'') (Some ''0x03'') None None None []]])]"

lemma nested_flow_steps:
  "map_sum id (\<lambda>t. map ts_id (filter (step_named ''CrossChainCallExecuted'') (tl_steps t)))
     (buildExecutionTimeline ''1'' (\<lambda>_ _. True) nested_flow_context None) = Inr [''l1:0x9:0'', ''l2:0x1:1'']"
  by code_simp

theorem flow_calls_ordered_witness:
  "\<exists>flow. buildExecutionFlow sample_flow_lib nested_flow_context None nested_flow_traces = Inr flow
     \<and> map fc_id (xf_calls flow) = [''l1:0x9:0'', ''l2:0x1:1''] \<and> map fc_number (requests flow) = [1, 2]"
proof -
  obtain t where t: "buildExecutionTimeline (fw_rollupId sample_flow_lib) (fw_isManager sample_flow_lib) nested_flow_context None = Inr t"
    and steps: "map ts_id (filter (step_named ''CrossChainCallExecuted'') (tl_steps t)) = [''l1:0x9:0'', ''l2:0x1:1'']"
    using nested_flow_steps unfolding sample_flow_lib_def flow_lib.select_convs
    by (cases "buildExecutionTimeline ''1'' (\<lambda>_ _. True) nested_flow_context None") auto
  then obtain flow where flow: "buildExecutionFlow sample_flow_lib nested_flow_context None nested_flow_traces = Inr flow" and "xf_timeline flow = t"
    unfolding buildExecutionFlow_def t by (simp add: assemble_flow_def Let_def)
  with flow_calls_ordered [OF flow] steps have ids: "map fc_id (xf_calls flow) = [''l1:0x9:0'', ''l2:0x1:1'']" by simp
  have "length (map fc_id (xf_calls flow)) = 2" unfolding ids by simp
  then have "length (xf_calls flow) = 2" unfolding length_map .
  with flow_calls_ordered [OF flow] have "map fc_number (requests flow) = [1 ..< Suc 2]" by metis
  with flow ids show ?thesis by (simp add: upt_rec numeral_2_eq_2)
qed

end
