(* ===== verification/Quote_Debug.thy ===== *)
theory Quote_Debug
  imports Gas_Estimation Chain_Types
begin

text \<open>
  \<open>src/src/lib/quoteDebug.ts\<close>: the request of a debug quote, the validation of an ABI that an explorer returns, and the
  decoding of the frames of a quote run with at most four lookups at a time.
  \<open>fetch\<close>, the URL and JSON parsers and viem's selectors, decoders and \<open>JSON.stringify\<close> are the record \<open>quote_lib\<close>. An ABI is
  read from its untyped value while it is validated; the selector cache is not a state of its own, as
  it holds what it is computed from.
\<close>

section \<open>The request\<close>

record quote_fields =
  qf_from :: string
  qf_to :: string
  qf_data :: string
  qf_value :: string
  qf_gas :: string
  qf_nonce :: string

datatype quote_type = Q_type_0 | Q_type_2 | Q_both

record quote_request =
  qr_jsonrpc :: string
  qr_id :: string
  qr_method :: string
  qr_transaction :: "(string, string) jmap"
  qr_trace :: string
  qr_transactionTypes :: "string list option"

text \<open>\<open>/^(?:0x[0-9a-f]+|[0-9]+)$/i\<close>, \<open>/^0x(?:[0-9a-f]{2})*$/i\<close> and \<open>addressPattern\<close>.\<close>

definition decimal_digit :: "char \<Rightarrow> bool" where
  "decimal_digit c \<longleftrightarrow> (case digit_value c of None \<Rightarrow> False | Some d \<Rightarrow> d < 10)"

definition quantity_text :: "string \<Rightarrow> bool" where
  "quantity_text s \<longleftrightarrow> is_hex_text s \<and> length s > 2 \<or> s \<noteq> [] \<and> list_all decimal_digit s"

definition byte_text :: "string \<Rightarrow> bool" where
  "byte_text s \<longleftrightarrow> is_hex_text s \<and> even (length s)"

definition address_text :: "string \<Rightarrow> bool" where
  "address_text s \<longleftrightarrow> is_hex_of 40 s"

definition quote_quantity :: "string \<Rightarrow> string \<Rightarrow> nat \<Rightarrow> js_error + string" where
  "quote_quantity value label bits =
     (let t = js_trim value
      in if \<not> quantity_text t \<or> length t > 80 then throw (label @ '' must be an unsigned integer (decimal or hex).'')
         else res_bind (string_BigInt t) (\<lambda>n.
           if n \<ge> 2 ^ bits then throw (label @ '' exceeds '' @ show_nat bits @ '' bits.'') else Inr (hex_of n)))"

definition or_text :: "string \<Rightarrow> string \<Rightarrow> string" where
  "or_text a b = (if a \<noteq> [] then a else b)" \<comment> \<open>\<open>a || b\<close>\<close>

definition gas_quantity :: "string \<Rightarrow> js_error + string" where
  "gas_quantity gas =
     res_bind (quote_quantity gas ''Gas limit'' 64) (\<lambda>q.
       if q = ''0x0'' then throw ''Gas limit must be positive, or empty for automatic estimation.'' else Inr q)"

definition given_quantity :: "string \<Rightarrow> string \<Rightarrow> (string \<Rightarrow> js_error + string) \<Rightarrow> (string, string) jmap \<Rightarrow> js_error + (string, string) jmap" where
  "given_quantity k value read tx =
     (if js_trim value = [] then Inr tx else res_bind (read value) (\<lambda>q. Inr (jmap_set k q tx)))"

definition max_calldata :: nat where
  "max_calldata = 2 + 128 * 1024 * 2"

definition quote_transaction :: "quote_fields \<Rightarrow> js_error + (string, string) jmap" where
  "quote_transaction q =
     (let from = js_trim (qf_from q); to = js_trim (qf_to q); data = or_text (js_trim (qf_data q)) ''0x''
      in if \<not> address_text from then throw ''Enter a 20-byte sender address.''
         else if to \<noteq> [] \<and> \<not> address_text to then throw ''Enter a 20-byte target address, or leave it empty for contract creation.''
         else if \<not> byte_text data then throw ''Calldata must be 0x followed by complete hex bytes.''
         else if length data > max_calldata then throw (''Calldata exceeds the debugger'' @ CHR 0x27 # ''s 128 KiB limit.'')
         else res_bind (quote_quantity (or_text (qf_value q) ''0'') ''Value'' 256) (\<lambda>value.
           let tx = [(''from'', from), (''data'', data), (''value'', value)];
               tx' = (if to \<noteq> [] then jmap_set ''to'' to tx else tx)
           in res_bind (given_quantity ''gas'' (qf_gas q) gas_quantity tx') (\<lambda>tx''.
                given_quantity ''nonce'' (qf_nonce q) (\<lambda>v. quote_quantity v ''Nonce'' 64) tx'')))"

definition buildDebugQuote :: "quote_fields \<Rightarrow> quote_type \<Rightarrow> js_error + quote_request" where
  "buildDebugQuote q kind =
     res_bind (quote_transaction q) (\<lambda>tx.
       Inr \<lparr>qr_jsonrpc = ''2.0'', qr_id = ''dashboard-quote'', qr_method = ''eez_debugQuoteFee'', qr_transaction = tx, qr_trace = ''calls'',
         qr_transactionTypes = (case kind of Q_both \<Rightarrow> None | Q_type_0 \<Rightarrow> Some [''0x0''] | Q_type_2 \<Rightarrow> Some [''0x2''])\<rparr>)"

section \<open>Responses\<close>

text \<open>A chunk of a body: its size and the text the decoder gives for it.\<close>

record http_answer =
  ha_ok :: bool
  ha_status :: nat
  ha_body :: "(nat \<times> string) list option"

fun read_chunks :: "nat \<Rightarrow> nat \<Rightarrow> string \<Rightarrow> (nat \<times> string) list \<Rightarrow> js_error + string" where
  "read_chunks limit read text [] = Inr text"
| "read_chunks limit read text ((n, t) # chunks) =
     (if read + n > limit then throw (''Response exceeds '' @ show_nat (limit div 1024) @ '' KiB.'')
      else read_chunks limit (read + n) (text @ t) chunks)"

definition boundedText :: "http_answer \<Rightarrow> nat \<Rightarrow> js_error + string" where
  "boundedText response limit =
     (case ha_body response of None \<Rightarrow> throw ''Empty response body.'' | Some chunks \<Rightarrow> read_chunks limit 0 [] chunks)"

definition MAX_QUOTE_BYTES :: nat where
  "MAX_QUOTE_BYTES = 8 * 1024 * 1024"

definition MAX_ABI_BYTES :: nat where
  "MAX_ABI_BYTES = 1024 * 1024"

definition requestDebugQuote :: "(string \<Rightarrow> js option) \<Rightarrow> http_answer \<Rightarrow> quote_request \<Rightarrow> js_error + string" where
  "requestDebugQuote parse response request =
     res_bind (boundedText response MAX_QUOTE_BYTES) (\<lambda>body_text.
       case parse body_text of
         None \<Rightarrow> throw (''Composer returned an invalid JSON response (HTTP '' @ show_nat (ha_status response) @ '').'')
       | Some body \<Rightarrow>
           if \<not> ha_ok response \<and> \<not> js_truthy (js_field body ''error'') then throw (''Composer HTTP '' @ show_nat (ha_status response) @ ''.'')
           else if js_field body ''id'' \<noteq> JStr (qr_id request) \<or> js_field body ''jsonrpc'' \<noteq> JStr ''2.0''
             then throw ''Composer returned an unrelated JSON-RPC response.''
           else Inr body_text)"

text \<open>\<open>BigInt(chainId)\<close> throws only when a configured id is compared; then the chain is unknown.\<close>

definition matches_chain :: "string \<Rightarrow> (chain \<Rightarrow> string option) \<Rightarrow> chain \<Rightarrow> js_error + bool" where
  "matches_chain chainId configured c =
     (case configured c of
        None \<Rightarrow> Inr False
      | Some i \<Rightarrow> if is_hex_text i \<and> length i > 2 then res_bind (string_BigInt chainId) (\<lambda>a. res_bind (string_BigInt i) (\<lambda>b. Inr (a = b))) else Inr False)"

definition quoteChain :: "string \<Rightarrow> (chain \<Rightarrow> string option) \<Rightarrow> chain option" where
  "quoteChain chainId configured =
     (case (matches_chain chainId configured L1, matches_chain chainId configured L2) of
        (Inr a, Inr b) \<Rightarrow> if a \<and> \<not> b then Some L1 else if b \<and> \<not> a then Some L2 else None
      | _ \<Rightarrow> None)"

section \<open>ABIs\<close>

datatype abi_parameter = Parameter (pm_name: "string option") (pm_type: string) (pm_components: "abi_parameter list option")

datatype abi_kind = K_function | K_error

record abi_item =
  ai_kind :: abi_kind
  ai_name :: string
  ai_inputs :: "abi_parameter list"
  ai_outputs :: "abi_parameter list"

record verified_abi =
  va_abi :: "abi_item list"
  va_name :: "string option"

text \<open>The matches of \<open>/\[([0-9]*)\]/g\<close>, and the text without them.\<close>

function split_arrays :: "string \<Rightarrow> string \<times> string list" where
  "split_arrays [] = ([], [])"
| "split_arrays (c # cs) =
     (let rest = dropWhile decimal_digit cs
      in if c = CHR ''['' \<and> rest \<noteq> [] \<and> hd rest = CHR '']''
         then (let (t, sizes) = split_arrays (tl rest) in (t, takeWhile decimal_digit cs # sizes))
         else (let (t, sizes) = split_arrays cs in (c # t, sizes)))"
  by pat_completeness auto
termination
proof (relation "measure length")
  fix c :: char and cs rest :: string
  assume "rest = dropWhile decimal_digit cs"
  then have "length rest \<le> length cs" by (simp add: length_dropWhile_le)
  then have "length (tl rest) < Suc (length cs)" by simp
  then show "(tl rest, c # cs) \<in> measure length" by simp
qed simp_all

definition array_size_ok :: "string \<Rightarrow> bool" where
  "array_size_ok s \<longleftrightarrow> s = [] \<or> (case digits_value 10 0 s of None \<Rightarrow> False | Some n \<Rightarrow> 1 \<le> n \<and> n \<le> 4096)"

definition elementary_types :: "string list" where
  "elementary_types = [''address'', ''bool'', ''string'', ''bytes'', ''int'', ''uint'']
     @ map (\<lambda>n. ''bytes'' @ show_nat n) [1 ..< 33]
     @ map (\<lambda>n. ''int'' @ show_nat (8 * n)) [1 ..< 33] @ map (\<lambda>n. ''uint'' @ show_nat (8 * n)) [1 ..< 33]"

definition name_ok :: "js \<Rightarrow> bool" where
  "name_ok v = (case v of JUndefined \<Rightarrow> True | JStr s \<Rightarrow> length s \<le> 256 | _ \<Rightarrow> False)"

definition text_of :: "js \<Rightarrow> string option" where
  "text_of v = (case v of JStr s \<Rightarrow> Some s | _ \<Rightarrow> None)"

text \<open>\<open>validParameters\<close>: the parameters, if they are valid; the nesting is at most twelve deep. \<open>room\<close> is \<open>12 - depth\<close>, and
  one more: at zero the depth exceeds twelve.\<close>

fun all_some :: "'a option list \<Rightarrow> 'a list option" where
  "all_some [] = Some []"
| "all_some (x # xs) = (case (x, all_some xs) of (Some y, Some ys) \<Rightarrow> Some (y # ys) | _ \<Rightarrow> None)"

fun validParameters :: "nat \<Rightarrow> js \<Rightarrow> abi_parameter list option" where
  "validParameters 0 parameters = None"
| "validParameters (Suc room) parameters =
     (case parameters of
        JArr ps \<Rightarrow>
          if length ps > 128 then None
          else all_some (map (\<lambda>p.
            case js_field p ''type'' of
              JStr type \<Rightarrow>
                if length type > 96 \<or> \<not> name_ok (js_field p ''name'') then None
                else (let (elem, sizes) = split_arrays type
                      in if length sizes > 8 \<or> \<not> list_all array_size_ok sizes then None
                         else if elem = ''tuple'' then
                           (case js_field p ''components'' of
                              JArr (c # cs) \<Rightarrow> map_option (\<lambda>qs. Parameter (text_of (js_field p ''name'')) type (Some qs)) (validParameters room (JArr (c # cs)))
                            | _ \<Rightarrow> None)
                         else if elem \<in> set elementary_types then Some (Parameter (text_of (js_field p ''name'')) type None)
                         else None)
            | _ \<Rightarrow> None) ps)
      | _ \<Rightarrow> None)"

definition abi_depth :: nat where
  "abi_depth = 13"

definition item_kind :: "js \<Rightarrow> abi_kind option" where
  "item_kind v = (if js_field v ''type'' = JStr ''function'' then Some K_function
     else if js_field v ''type'' = JStr ''error'' then Some K_error else None)"

definition safe_item :: "abi_kind \<Rightarrow> js \<Rightarrow> abi_item option" where
  "safe_item kind v =
     (case (text_of (js_field v ''name''), validParameters abi_depth (js_field v ''inputs''),
            if kind = K_function then validParameters abi_depth (js_field v ''outputs'') else Some []) of
        (Some name, Some inputs, Some outputs) \<Rightarrow>
          if length name > 256 then None else Some \<lparr>ai_kind = kind, ai_name = name, ai_inputs = inputs, ai_outputs = outputs\<rparr>
      | _ \<Rightarrow> None)"

definition safeAbi :: "js \<Rightarrow> abi_item list option" where
  "safeAbi value =
     (case value of
        JArr vs \<Rightarrow> if length vs > 1024 then None
          else all_some (List.map_filter (\<lambda>v. map_option (\<lambda>kind. safe_item kind v) (item_kind v)) vs)
      | _ \<Rightarrow> None)"

record quote_lib =
  ql_parse :: "string \<Rightarrow> js option" \<comment> \<open>\<open>JSON.parse\<close>\<close>
  ql_url :: "string \<Rightarrow> js_error + (string \<times> string \<times> string)" \<comment> \<open>protocol, username and password of \<open>new URL(base, origin)\<close>\<close>
  ql_selector :: "string \<Rightarrow> js_error + string" \<comment> \<open>\<open>toFunctionSelector\<close>\<close>
  ql_decode :: "abi_parameter list \<Rightarrow> string \<Rightarrow> js_error + js list" \<comment> \<open>\<open>decodeAbiParameters\<close>\<close>
  ql_stringify :: "js \<Rightarrow> string" \<comment> \<open>\<open>JSON.stringify\<close> with large integers as text\<close>

text \<open>What the explorer's answer says about a contract.\<close>

definition verified_contract :: "quote_lib \<Rightarrow> js \<Rightarrow> verified_abi option" where
  "verified_contract lib body =
     (if js_field body ''status'' \<noteq> JStr ''1'' then None
      else case js_field body ''result'' of
        JArr (contract # rest) \<Rightarrow>
          if \<not> js_truthy (js_field contract ''SourceCode'') then None
          else (let raw = (case js_field contract ''ABI'' of JStr s \<Rightarrow> ql_parse lib s | v \<Rightarrow> Some v)
                in map_option (\<lambda>abi. \<lparr>va_abi = abi, va_name = map_option (js_slice_to 256) (text_of (js_field contract ''ContractName''))\<rparr>)
                     (Option.bind raw safeAbi))
      | _ \<Rightarrow> None)"

definition fetchVerifiedQuoteAbi :: "quote_lib \<Rightarrow> (string \<Rightarrow> string \<Rightarrow> js_error + http_answer) \<Rightarrow> string \<Rightarrow> string \<Rightarrow> js_error + verified_abi option" where
  "fetchVerifiedQuoteAbi lib fetch base address =
     (if base = [] \<or> \<not> address_text address then Inr None
      else res_bind (ql_url lib base) (\<lambda>(protocol, username, password).
        if protocol \<notin> {''http:'', ''https:''} \<or> username \<noteq> [] \<or> password \<noteq> [] then Inr None
        else res_bind (fetch base address) (\<lambda>response.
          if \<not> ha_ok response then throw (''Explorer HTTP '' @ show_nat (ha_status response))
          else res_bind (boundedText response MAX_ABI_BYTES) (\<lambda>body_text.
            case ql_parse lib body_text of None \<Rightarrow> Inl syntax_error | Some body \<Rightarrow> if js_nullish body then Inl TypeError else Inr (verified_contract lib body)))))"

section \<open>Decoding a frame\<close>

fun canonicalType :: "abi_parameter \<Rightarrow> string" where
  "canonicalType (Parameter name type components) =
     (case components of
        Some cs \<Rightarrow> if js_starts_with type ''tuple'' then ''('' @ js_join '','' (map canonicalType cs) @ '')'' @ js_slice_from 5 type else type
      | None \<Rightarrow> type)"

definition signature :: "abi_item \<Rightarrow> string" where
  "signature item = ai_name item @ ''('' @ js_join '','' (map canonicalType (ai_inputs item)) @ '')''"

definition display :: "quote_lib \<Rightarrow> js \<Rightarrow> string" where
  "display lib value =
     (let t = ql_stringify lib value
      in if int (length t) \<le> 24000 then t else js_slice_to 24000 t @ CHR 0x0A # ''[Display shortened; inspect the raw bytes.]'')"

definition shown_parameter :: "js list \<Rightarrow> nat \<times> abi_parameter \<Rightarrow> js" where
  "shown_parameter values ip =
     JObj [(''name'', JStr (or_text (case pm_name (snd ip) of None \<Rightarrow> [] | Some n \<Rightarrow> n) (''arg'' @ show_nat (fst ip)))),
       (''type'', JStr (canonicalType (snd ip))), (''value'', if fst ip < length values then values ! fst ip else JUndefined)]"

definition decodeParameters :: "quote_lib \<Rightarrow> abi_parameter list \<Rightarrow> string \<Rightarrow> js_error + string" where
  "decodeParameters lib parameters data =
     res_bind (ql_decode lib parameters data) (\<lambda>values.
       Inr (display lib (JArr (map (shown_parameter values) (List.enumerate 0 parameters)))))"

definition item_selects :: "quote_lib \<Rightarrow> string \<Rightarrow> abi_item \<Rightarrow> js_error + (abi_item \<times> bool)" where
  "item_selects lib selector item = res_bind (ql_selector lib (signature item)) (\<lambda>key. Inr (item, js_lower key = js_lower selector))"

definition abi_candidates :: "quote_lib \<Rightarrow> verified_abi \<Rightarrow> string \<Rightarrow> js_error + abi_item list" where
  "abi_candidates lib contract selector =
     res_bind (res_map (item_selects lib selector) (va_abi contract)) (\<lambda>rows. Inr (map fst (filter snd rows)))"

definition the_candidate :: "quote_lib \<Rightarrow> verified_abi \<Rightarrow> abi_kind \<Rightarrow> string \<Rightarrow> js_error + abi_item option" where
  "the_candidate lib contract kind selector =
     res_bind (abi_candidates lib contract selector) (\<lambda>items.
       Inr (case filter (\<lambda>item. ai_kind item = kind) items of [item] \<Rightarrow> Some item | _ \<Rightarrow> None))"

record captured_bytes =
  cb_hex :: string
  cb_length :: nat
  cb_truncated :: bool

record quote_frame =
  qe_id :: nat
  qe_chainId :: string
  qe_codeAddress :: "string option"
  qe_kind :: string
  qe_status :: string
  qe_input :: captured_bytes
  qe_output :: "captured_bytes option"

record decoded_frame =
  dc_id :: nat
  dc_name :: "string option"
  dc_method :: "string option"
  dc_signature :: "string option"
  dc_arguments :: "string option"
  dc_returns :: "string option"
  dc_error :: "string option"
  dc_note :: string

definition plain_frame :: "nat \<Rightarrow> string \<Rightarrow> decoded_frame" where
  "plain_frame i note = \<lparr>dc_id = i, dc_name = None, dc_method = None, dc_signature = None, dc_arguments = None, dc_returns = None,
     dc_error = None, dc_note = note\<rparr>"

definition verified_note :: string where
  "verified_note = ''Explorer-verified ABI '' @ map char_of [0xC2 :: nat, 0xB7] @ '' historical code match not checked''"

definition add_note :: "string \<Rightarrow> decoded_frame \<Rightarrow> decoded_frame" where
  "add_note t d = d\<lparr>dc_note := dc_note d @ t\<rparr>"

text \<open>Output that is there and complete.\<close>

definition whole_output :: "quote_frame \<Rightarrow> captured_bytes option" where
  "whole_output frame = (case qe_output frame of None \<Rightarrow> None | Some b \<Rightarrow> if cb_truncated b then None else Some b)"

definition decode_arguments :: "quote_lib \<Rightarrow> quote_frame \<Rightarrow> abi_item \<Rightarrow> decoded_frame \<Rightarrow> decoded_frame" where
  "decode_arguments lib frame m d =
     (if cb_truncated (qe_input frame) then add_note ''. Input is truncated; arguments were not decoded.'' d
      else case decodeParameters lib (ai_inputs m) (''0x'' @ js_slice_from 10 (cb_hex (qe_input frame))) of
        Inr t \<Rightarrow> d\<lparr>dc_arguments := Some t\<rparr>
      | Inl e \<Rightarrow> add_note ''. Arguments do not decode with this ABI.'' d)"

definition decode_returns :: "quote_lib \<Rightarrow> quote_frame \<Rightarrow> abi_item \<Rightarrow> decoded_frame \<Rightarrow> decoded_frame" where
  "decode_returns lib frame m d =
     (case whole_output frame of
        None \<Rightarrow> d
      | Some b \<Rightarrow>
          if qe_status frame \<noteq> ''success'' then d
          else (case decodeParameters lib (ai_outputs m) (cb_hex b) of
              Inr t \<Rightarrow> d\<lparr>dc_returns := Some t\<rparr>
            | Inl e \<Rightarrow> add_note (if cb_length b = 0 then ''. Call returned no data despite declared return values.''
                else ''. Return data does not decode with this ABI.'') d))"

definition decode_error :: "quote_lib \<Rightarrow> verified_abi \<Rightarrow> quote_frame \<Rightarrow> decoded_frame \<Rightarrow> js_error + decoded_frame" where
  "decode_error lib contract frame d =
     (case whole_output frame of
        None \<Rightarrow> Inr d
      | Some b \<Rightarrow>
          if qe_status frame \<noteq> ''revert'' then Inr d
          else res_bind (the_candidate lib contract K_error (js_slice_to 10 (cb_hex b))) (\<lambda>candidate.
            case candidate of
              None \<Rightarrow> Inr d
            | Some e \<Rightarrow> (case decodeParameters lib (ai_inputs e) (''0x'' @ js_slice_from 10 (cb_hex b)) of
                Inr t \<Rightarrow> Inr (d\<lparr>dc_error := Some (signature e @ CHR 0x0A # t)\<rparr>)
              | Inl f \<Rightarrow> Inr d)))"

definition decodeQuoteFrame :: "quote_lib \<Rightarrow> quote_frame \<Rightarrow> verified_abi option \<Rightarrow> js_error + decoded_frame" where
  "decodeQuoteFrame lib frame known =
     (case known of
        None \<Rightarrow> Inr (plain_frame (qe_id frame) ''Verified ABI unavailable; showing captured bytes.'')
      | Some contract \<Rightarrow>
          (let d = (plain_frame (qe_id frame) verified_note)\<lparr>dc_name := va_name contract\<rparr>
           in if js_starts_with (qe_kind frame) ''CREATE'' then Inr (add_note ''. Constructor decoding is unavailable.'' d)
              else res_bind (the_candidate lib contract K_function (js_slice_to 10 (cb_hex (qe_input frame)))) (\<lambda>candidate.
                decode_error lib contract frame
                  (case candidate of
                     None \<Rightarrow> add_note ''. Function selector is unknown or ambiguous.'' d
                   | Some m \<Rightarrow> decode_returns lib frame m (decode_arguments lib frame m
                       (d\<lparr>dc_method := Some (ai_name m), dc_signature := Some (signature m)\<rparr>))))))"

section \<open>A run\<close>

record quote_group =
  qg_chain :: chain
  qg_address :: string
  qg_frames :: "quote_frame list"

record run_groups =
  rg_groups :: "(string, quote_group) jmap"
  rg_unavailable :: nat
  rg_skipped :: nat

definition max_groups :: nat where
  "max_groups = 128"

text \<open>The chain and the code address a frame is looked up with.\<close>

definition lookup_of :: "(chain \<Rightarrow> string option) \<Rightarrow> quote_frame \<Rightarrow> (chain \<times> string) option" where
  "lookup_of configured frame =
     (case (quoteChain (qe_chainId frame) configured, qe_codeAddress frame) of
        (Some c, Some a) \<Rightarrow> if a = [] \<or> js_starts_with (qe_kind frame) ''CREATE'' then None else Some (c, a)
      | _ \<Rightarrow> None)"

definition group_key :: "chain \<Rightarrow> string \<Rightarrow> string" where
  "group_key c a = chain_str c @ '':'' @ js_lower a"

definition group_frame :: "(chain \<Rightarrow> string option) \<Rightarrow> run_groups \<Rightarrow> quote_frame \<Rightarrow> run_groups" where
  "group_frame configured s frame =
     (case lookup_of configured frame of
        None \<Rightarrow> s\<lparr>rg_unavailable := rg_unavailable s + 1\<rparr>
      | Some (c, a) \<Rightarrow>
          (case jmap_get (rg_groups s) (group_key c a) of
             Some g \<Rightarrow> s\<lparr>rg_groups := jmap_set (group_key c a) (g\<lparr>qg_frames := qg_frames g @ [frame]\<rparr>) (rg_groups s)\<rparr>
           | None \<Rightarrow>
               if length (rg_groups s) < max_groups
               then s\<lparr>rg_groups := jmap_set (group_key c a) \<lparr>qg_chain = c, qg_address = a, qg_frames = [frame]\<rparr> (rg_groups s)\<rparr>
               else s\<lparr>rg_unavailable := rg_unavailable s + 1, rg_skipped := rg_skipped s + 1\<rparr>))"

definition group_frames :: "(chain \<Rightarrow> string option) \<Rightarrow> quote_frame list \<Rightarrow> run_groups" where
  "group_frames configured frames = foldl (group_frame configured) \<lparr>rg_groups = [], rg_unavailable = 0, rg_skipped = 0\<rparr> frames"

text \<open>
  The workers share \<open>next\<close>; a worker that has taken a group waits for its ABI. \<open>contracts\<close> is what the lookup of a group ends
  with (a lookup that fails ends with nothing). The signal can be aborted at any time.
\<close>

datatype worker = W_ready | W_waiting quote_group | W_done

record quote_run =
  qu_pending :: "quote_group list"
  qu_next :: nat
  qu_workers :: "worker list"
  qu_aborted :: bool
  qu_sent :: "decoded_frame list"
  qu_verified :: nat
  qu_unavailable :: nat

definition annotated :: "quote_lib \<Rightarrow> verified_abi option \<Rightarrow> quote_frame \<Rightarrow> decoded_frame" where
  "annotated lib contract frame =
     (case decodeQuoteFrame lib frame contract of
        Inr d \<Rightarrow> d
      | Inl e \<Rightarrow> plain_frame (qe_id frame) ''ABI decoding unavailable; inspect the captured bytes.'')"

text \<open>What the lookup of a group ends with.\<close>

definition looked_up :: "quote_lib \<Rightarrow> (string \<Rightarrow> string \<Rightarrow> js_error + http_answer) \<Rightarrow> (chain \<Rightarrow> string) \<Rightarrow> quote_group \<Rightarrow> verified_abi option" where
  "looked_up lib fetch explorers g =
     (case fetchVerifiedQuoteAbi lib fetch (explorers (qg_chain g)) (qg_address g) of Inl e \<Rightarrow> None | Inr contract \<Rightarrow> contract)"

definition start_run :: "run_groups \<Rightarrow> quote_run" where
  "start_run s =
     (let pending = map snd (rg_groups s)
      in \<lparr>qu_pending = pending, qu_next = 0, qu_workers = replicate (min 4 (length pending)) W_ready, qu_aborted = False,
          qu_sent = [], qu_verified = 0, qu_unavailable = rg_unavailable s\<rparr>)"

text \<open>\<open>while (!signal.aborted) { const group = pending[next++]; if (!group) return; \<dots>\<close>\<close>

definition take_group :: "nat \<Rightarrow> quote_run \<Rightarrow> quote_run" where
  "take_group w r =
     (if qu_aborted r then r\<lparr>qu_workers := (qu_workers r)[w := W_done]\<rparr>
      else if qu_next r < length (qu_pending r)
        then r\<lparr>qu_next := qu_next r + 1, qu_workers := (qu_workers r)[w := W_waiting (qu_pending r ! qu_next r)]\<rparr>
      else r\<lparr>qu_next := qu_next r + 1, qu_workers := (qu_workers r)[w := W_done]\<rparr>)"

definition finish_group :: "quote_lib \<Rightarrow> (quote_group \<Rightarrow> verified_abi option) \<Rightarrow> nat \<Rightarrow> quote_group \<Rightarrow> quote_run \<Rightarrow> quote_run" where
  "finish_group lib contracts w g r =
     (if qu_aborted r then r\<lparr>qu_workers := (qu_workers r)[w := W_done]\<rparr>
      else r\<lparr>qu_workers := (qu_workers r)[w := W_ready],
        qu_sent := qu_sent r @ map (annotated lib (contracts g)) (qg_frames g),
        qu_verified := qu_verified r + (if contracts g \<noteq> None then 1 else 0),
        qu_unavailable := qu_unavailable r + (if contracts g \<noteq> None then 0 else length (qg_frames g))\<rparr>)"

definition worker_step :: "quote_lib \<Rightarrow> (quote_group \<Rightarrow> verified_abi option) \<Rightarrow> nat \<Rightarrow> quote_run \<Rightarrow> quote_run" where
  "worker_step lib contracts w r =
     (case qu_workers r ! w of
        W_ready \<Rightarrow> take_group w r
      | W_waiting g \<Rightarrow> finish_group lib contracts w g r
      | W_done \<Rightarrow> r)"

inductive quote_step :: "quote_lib \<Rightarrow> (quote_group \<Rightarrow> verified_abi option) \<Rightarrow> quote_run \<Rightarrow> quote_run \<Rightarrow> bool" for lib contracts where
  step_worker: "w < length (qu_workers r) \<Longrightarrow> qu_workers r ! w \<noteq> W_done \<Longrightarrow> quote_step lib contracts r (worker_step lib contracts w r)"
| step_abort: "quote_step lib contracts r (r\<lparr>qu_aborted := True\<rparr>)"

inductive_cases quote_stepE: "quote_step lib contracts r r'"

definition run_message :: "nat \<Rightarrow> quote_run \<Rightarrow> string" where
  "run_message skipped r =
     show_nat (qu_verified r) @ '' verified contract ABI'' @ (if qu_verified r = 1 then [] else ''s'') @ '' loaded. ''
     @ show_nat (qu_unavailable r) @ '' call'' @ (if qu_unavailable r = 1 then [] else ''s'') @ '' without a verified ABI.''
     @ (if skipped = 0 then [] else '' '' @ show_nat skipped @ '' calls exceed the 128-contract lookup limit.'')
     @ '' Explorer metadata does not prove the historical code match.''"

end
