(* ===== verification/Quote_Properties.thy ===== *)
theory Quote_Properties
  imports Quote_Debug "HOL-Library.Multiset"
begin

text \<open>
  A quote run: whatever the order in which the lookups end, each frame with a code address within the limit is
  annotated exactly once, the others are counted, at most 128 addresses are looked up, and the workers end.
\<close>

section \<open>Quantities\<close>

text \<open>An accepted quantity is the canonical text of a number within its bits.\<close>

lemma quote_quantity_Inr: "quote_quantity value label bits = Inr q \<Longrightarrow> \<exists>n. string_BigInt (js_trim value) = Inr n \<and> n < 2 ^ bits \<and> q = hex_of n"
  by (auto simp: quote_quantity_def Let_def res_bind_Inr_iff throw_def split: if_splits)

lemma gas_quantity_Inr: "gas_quantity gas = Inr q \<Longrightarrow> \<exists>n. string_BigInt (js_trim gas) = Inr n \<and> n \<noteq> 0 \<and> n < 2 ^ 64 \<and> q = hex_of n"
proof -
  have "hex_of 0 = ''0x0''" by code_simp
  then show "gas_quantity gas = Inr q \<Longrightarrow> ?thesis"
    by (auto simp: gas_quantity_def res_bind_Inr_iff throw_def split: if_splits dest!: quote_quantity_Inr)
qed

section \<open>Grouping\<close>

definition group_sizes :: "run_groups \<Rightarrow> nat" where
  "group_sizes s = sum_list (map (length \<circ> qg_frames \<circ> snd) (rg_groups s))"

definition grouped :: "run_groups \<Rightarrow> quote_frame multiset" where
  "grouped s = \<Sum>\<^sub># (mset (map (mset \<circ> qg_frames \<circ> snd) (rg_groups s)))"

definition groups_ok :: "quote_frame list \<Rightarrow> run_groups \<Rightarrow> bool" where
  "groups_ok frames s \<longleftrightarrow> distinct (jmap_keys (rg_groups s)) \<and> length (rg_groups s) \<le> max_groups
     \<and> grouped s \<subseteq># mset frames \<and> size (grouped s) + rg_unavailable s = length frames \<and> rg_skipped s \<le> rg_unavailable s"

lemma grouped_set:
  "jmap_get m k = Some g \<Longrightarrow> \<Sum>\<^sub># (mset (map (mset \<circ> qg_frames \<circ> snd) (jmap_set k (g\<lparr>qg_frames := qg_frames g @ [f]\<rparr>) m)))
     = add_mset f (\<Sum>\<^sub># (mset (map (mset \<circ> qg_frames \<circ> snd) m)))"
  by (induction m) (auto simp: jmap_get_def jmap_set_def split: if_splits)

lemma grouped_new:
  "jmap_get m k = None \<Longrightarrow> \<Sum>\<^sub># (mset (map (mset \<circ> qg_frames \<circ> snd) (jmap_set k \<lparr>qg_chain = c, qg_address = a, qg_frames = [f]\<rparr> m)))
     = add_mset f (\<Sum>\<^sub># (mset (map (mset \<circ> qg_frames \<circ> snd) m)))"
  by (induction m) (auto simp: jmap_get_def jmap_set_def split: if_splits)

lemma jmap_set_length: "length (jmap_set k v m) = (if jmap_get m k = None then Suc (length m) else length m)"
proof -
  have "length (jmap_keys (jmap_set k v m)) = (if jmap_get m k = None then Suc (length (jmap_keys m)) else length (jmap_keys m))"
    by (simp add: jm.keys_put)
  then show ?thesis by (simp add: jmap_keys_def)
qed

lemma group_frame_ok:
  assumes "groups_ok frames s"
  shows "groups_ok (frames @ [f]) (group_frame configured s f)"
proof -
  from assms have keys: "distinct (jmap_keys (rg_groups s))" and len: "length (rg_groups s) \<le> max_groups"
    and sub: "grouped s \<subseteq># mset frames" and size: "size (grouped s) + rg_unavailable s = length frames" and skip: "rg_skipped s \<le> rg_unavailable s"
    by (simp_all add: groups_ok_def)
  have more: "grouped s \<subseteq># add_mset f (mset frames)" using sub by (rule subset_mset.order_trans) simp
  have dist: "distinct (jmap_keys (jmap_set k v (rg_groups s)))" for k and v :: quote_group
    using keys by (auto simp: jm.keys_put jm.keys_get)
  show ?thesis
  proof (cases "lookup_of configured f")
    case None
    with keys len more size skip show ?thesis by (simp add: group_frame_def groups_ok_def grouped_def)
  next
    case (Some ca)
    obtain c a where ca: "ca = (c, a)" by (cases ca)
    show ?thesis
    proof (cases "jmap_get (rg_groups s) (group_key c a)")
      case None
      show ?thesis
      proof (cases "length (rg_groups s) < max_groups")
        case True
        have g: "grouped (group_frame configured s f) = add_mset f (grouped s)"
          using Some ca None True by (simp add: group_frame_def grouped_def grouped_new [unfolded mset_map])
        show ?thesis unfolding groups_ok_def g
          using Some ca None True dist sub size skip by (simp add: group_frame_def jmap_set_length)
      next
        case False
        with Some ca None keys len more size skip show ?thesis by (simp add: group_frame_def groups_ok_def grouped_def)
      qed
    next
      case (Some g)
      have gr: "grouped (group_frame configured s f) = add_mset f (grouped s)"
        using \<open>lookup_of configured f = Some ca\<close> ca Some by (simp add: group_frame_def grouped_def grouped_set [unfolded mset_map])
      show ?thesis unfolding groups_ok_def gr
        using \<open>lookup_of configured f = Some ca\<close> ca Some dist len sub size skip by (simp add: group_frame_def jmap_set_length)
    qed
  qed
qed

lemma group_frames_ok: "groups_ok frames (group_frames configured frames)"
proof (induction frames rule: rev_induct)
  case Nil
  then show ?case by (simp add: group_frames_def groups_ok_def grouped_def)
next
  case (snoc f fs)
  then show ?case using group_frame_ok [OF snoc] by (simp add: group_frames_def)
qed

section \<open>The workers\<close>

definition waiting :: "quote_run \<Rightarrow> quote_group list" where
  "waiting r = List.map_filter (\<lambda>w. case w of W_waiting g \<Rightarrow> Some g | _ \<Rightarrow> None) (qu_workers r)"

definition parts :: "quote_group list \<Rightarrow> quote_run \<Rightarrow> quote_group multiset" where
  "parts finished r = mset finished + mset (waiting r) + mset (drop (qu_next r) (qu_pending r))"

text \<open>What has been sent and counted is what the finished groups give; finished, waiting and untaken groups are all groups.\<close>

definition run_ok :: "quote_lib \<Rightarrow> (quote_group \<Rightarrow> verified_abi option) \<Rightarrow> run_groups \<Rightarrow> quote_group list \<Rightarrow> quote_run \<Rightarrow> bool" where
  "run_ok lib contracts s finished r \<longleftrightarrow>
     qu_pending r = map snd (rg_groups s) \<and> length (qu_workers r) = min 4 (length (rg_groups s))
     \<and> parts finished r \<subseteq># mset (qu_pending r) \<and> (\<not> qu_aborted r \<longrightarrow> parts finished r = mset (qu_pending r))
     \<and> (\<not> qu_aborted r \<longrightarrow> W_done \<in> set (qu_workers r) \<longrightarrow> length (qu_pending r) \<le> qu_next r)
     \<and> qu_sent r = concat (map (\<lambda>g. map (annotated lib (contracts g)) (qg_frames g)) finished)
     \<and> qu_verified r = length (filter (\<lambda>g. contracts g \<noteq> None) finished)
     \<and> qu_unavailable r = rg_unavailable s + sum_list (map (length \<circ> qg_frames) (filter (\<lambda>g. contracts g = None) finished))"

lemma map_filter_update:
  "i < length ws \<Longrightarrow> mset (List.map_filter f (ws[i := w])) + mset (case f (ws ! i) of None \<Rightarrow> [] | Some x \<Rightarrow> [x])
     = mset (List.map_filter f ws) + mset (case f w of None \<Rightarrow> [] | Some x \<Rightarrow> [x])"
proof (induction ws arbitrary: i)
  case (Cons v ws)
  then show ?case by (cases i) (auto simp: List.map_filter_simps split: option.splits)
qed simp

abbreviation in_work :: "worker \<Rightarrow> quote_group option" where
  "in_work \<equiv> (\<lambda>w. case w of W_waiting g \<Rightarrow> Some g | _ \<Rightarrow> None)"

lemma waiting_update:
  assumes "i < length (qu_workers r)" and "qu_workers r' = (qu_workers r)[i := w]"
  shows "mset (waiting r') + mset (case in_work (qu_workers r ! i) of None \<Rightarrow> [] | Some g \<Rightarrow> [g])
    = mset (waiting r) + mset (case in_work w of None \<Rightarrow> [] | Some g \<Rightarrow> [g])"
  unfolding waiting_def assms(2) by (rule map_filter_update [OF assms(1)])

lemma start_run_ok: "run_ok lib contracts s [] (start_run s)"
proof -
  have "List.map_filter in_work (replicate n W_ready) = []" for n by (induction n) (simp_all add: List.map_filter_simps)
  then show ?thesis by (simp add: run_ok_def parts_def start_run_def Let_def waiting_def)
qed

lemma update_done: "W_done \<in> set (ws[i := w]) \<Longrightarrow> w \<noteq> W_done \<Longrightarrow> W_done \<in> set ws"
  using set_update_subset_insert [of ws i w] by auto

lemma take_group_parts:
  assumes w: "w < length (qu_workers r)" "qu_workers r ! w = W_ready"
  shows "parts fin (take_group w r) = parts fin r"
proof (cases "qu_aborted r \<or> length (qu_pending r) \<le> qu_next r")
  case True
  have "mset (waiting (take_group w r)) = mset (waiting r)"
    using waiting_update [OF w(1), of "take_group w r" W_done] w(2) True by (auto simp: take_group_def)
  with True show ?thesis by (auto simp: parts_def take_group_def)
next
  case False
  let ?g = "qu_pending r ! qu_next r"
  have "mset (waiting (take_group w r)) = add_mset ?g (mset (waiting r))"
    using waiting_update [OF w(1), of "take_group w r" "W_waiting ?g"] w(2) False by (simp add: take_group_def)
  moreover have "mset (drop (qu_next r) (qu_pending r)) = add_mset ?g (mset (drop (Suc (qu_next r)) (qu_pending r)))"
    using Cons_nth_drop_Suc [of "qu_next r" "qu_pending r"] False by (metis linorder_not_le mset.simps(2))
  ultimately show ?thesis using False by (simp add: parts_def take_group_def)
qed

lemma finish_group_parts:
  assumes w: "w < length (qu_workers r)" "qu_workers r ! w = W_waiting g"
  shows "parts r' (finish_group lib contracts w g r) = (parts r' r - {#g#}) \<and> g \<in># parts r' r"
proof -
  have eq: "add_mset g (mset (waiting (finish_group lib contracts w g r))) = mset (waiting r)"
    using waiting_update [OF w(1), of "finish_group lib contracts w g r" "if qu_aborted r then W_done else W_ready"] w(2) by (simp add: finish_group_def)
  have "qu_next (finish_group lib contracts w g r) = qu_next r" "qu_pending (finish_group lib contracts w g r) = qu_pending r"
    by (simp_all add: finish_group_def)
  then show ?thesis by (simp add: parts_def eq [symmetric])
qed

lemma parts_append: "parts (fin @ [g]) r = add_mset g (parts fin r)"
  by (simp add: parts_def)

lemma take_group_ok:
  assumes ok: "run_ok lib contracts s fin r" and w: "w < length (qu_workers r)" "qu_workers r ! w = W_ready"
  shows "run_ok lib contracts s fin (take_group w r)"
  using ok unfolding run_ok_def take_group_parts [OF w]
  by (elim conjE, intro conjI) (auto simp: take_group_def split: if_splits dest: update_done)

lemma finish_group_ok:
  assumes ok: "run_ok lib contracts s fin r" and w: "w < length (qu_workers r)" "qu_workers r ! w = W_waiting g"
  shows "run_ok lib contracts s (if qu_aborted r then fin else fin @ [g]) (finish_group lib contracts w g r)"
proof (cases "qu_aborted r")
  case True
  have "parts fin (finish_group lib contracts w g r) \<subseteq># parts fin r" using finish_group_parts [OF w, of fin] by simp
  then have "parts fin (finish_group lib contracts w g r) \<subseteq># mset (qu_pending r)" using ok unfolding run_ok_def by (meson subset_mset.order_trans)
  with ok True show ?thesis unfolding run_ok_def by (elim conjE, intro conjI) (auto simp: finish_group_def)
next
  case False
  have "parts (fin @ [g]) (finish_group lib contracts w g r) = parts fin r"
    using finish_group_parts [OF w, of fin lib contracts] by (simp add: parts_append)
  with ok False show ?thesis unfolding run_ok_def
    by (elim conjE, intro conjI) (auto simp: finish_group_def dest: update_done)
qed

lemma quote_step_ok:
  assumes "quote_step lib contracts r r'" and "run_ok lib contracts s finished r"
  shows "\<exists>finished'. run_ok lib contracts s finished' r'"
  using assms
proof (cases rule: quote_step.cases)
  case (step_worker w)
  show ?thesis
  proof (cases "qu_workers r ! w")
    case W_ready
    with take_group_ok [OF assms(2), of w] step_worker show ?thesis by (auto simp: worker_step_def)
  next
    case (W_waiting g)
    with finish_group_ok [OF assms(2), of w g] step_worker show ?thesis by (auto simp: worker_step_def)
  qed (use step_worker in simp)
next
  case step_abort
  with assms(2) show ?thesis by (intro exI [of _ finished]) (auto simp: run_ok_def parts_def waiting_def)
qed

lemma run_reached_ok:
  "(quote_step lib contracts)\<^sup>*\<^sup>* (start_run s) r \<Longrightarrow> \<exists>finished. run_ok lib contracts s finished r"
  by (induction rule: rtranclp_induct) (blast intro: start_run_ok quote_step_ok)+

section \<open>Ids\<close>

lemma decode_fields [simp]:
  "dc_id (add_note t d) = dc_id d" "dc_id (decode_arguments lib frame m d) = dc_id d" "dc_id (decode_returns lib frame m d) = dc_id d"
  "dc_id (plain_frame i t) = i"
  by (simp_all add: add_note_def decode_arguments_def decode_returns_def plain_frame_def split: sum.splits option.splits)

lemma decode_error_id:
  assumes "decode_error lib contract frame d = Inr d'"
  shows "dc_id d' = dc_id d"
proof (cases "whole_output frame")
  case (Some b)
  show ?thesis
  proof (cases "qe_status frame = ''revert''")
    case True
    with assms Some obtain candidate where c: "the_candidate lib contract K_error (js_slice_to 10 (cb_hex b)) = Inr candidate"
      by (auto simp: decode_error_def res_bind_Inr_iff)
    show ?thesis
    proof (cases candidate)
      case (Some e)
      with assms c True \<open>whole_output frame = Some b\<close> show ?thesis
        by (cases "decodeParameters lib (ai_inputs e) (''0x'' @ js_slice_from 10 (cb_hex b))") (auto simp: decode_error_def)
    qed (use assms c True Some in \<open>auto simp: decode_error_def\<close>)
  qed (use assms Some in \<open>simp add: decode_error_def\<close>)
qed (use assms in \<open>simp add: decode_error_def\<close>)

lemma annotated_id [simp]: "dc_id (annotated lib contract frame) = qe_id frame"
proof (cases "decodeQuoteFrame lib frame contract")
  case (Inr d)
  then have "dc_id d = qe_id frame"
    by (auto simp: decodeQuoteFrame_def Let_def res_bind_Inr_iff dest!: decode_error_id split: option.splits if_splits)
  with Inr show ?thesis by (simp add: annotated_def)
qed (simp add: annotated_def)

section \<open>Complete runs\<close>

definition frames_of :: "quote_group multiset \<Rightarrow> quote_frame multiset" where
  "frames_of gs = \<Sum>\<^sub># (image_mset (mset \<circ> qg_frames) gs)"

lemma frames_of_mono: "M \<subseteq># N \<Longrightarrow> frames_of M \<subseteq># frames_of N"
  unfolding frames_of_def by (metis image_mset_union mset_subset_eq_add_left subset_mset.le_iff_add sum_mset.union)

lemma sent_ids: "mset (map dc_id (concat (map (\<lambda>g. map (annotated lib (contracts g)) (qg_frames g)) gs))) = image_mset qe_id (frames_of (mset gs))"
  by (induction gs) (simp_all add: frames_of_def comp_def)

lemma frames_of_size: "size (frames_of (mset gs)) = sum_list (map (length \<circ> qg_frames) gs)"
  by (induction gs) (simp_all add: frames_of_def)

lemma sent_length: "length (concat (map (\<lambda>g. map (annotated lib (contracts g)) (qg_frames g)) gs)) = sum_list (map (length \<circ> qg_frames) gs)"
  by (simp add: length_concat comp_def)

lemma sum_list_mset: "mset as = mset bs \<Longrightarrow> sum_list (map h as) = sum_list (map h bs)" for h :: "'a \<Rightarrow> nat"
  by (metis mset_map sum_mset_sum_list)

lemma sum_filter_split: "sum_list (map h (filter P xs)) + sum_list (map h (filter (\<lambda>x. \<not> P x) xs)) = sum_list (map h xs)" for h :: "'a \<Rightarrow> nat"
  by (induction xs) auto

lemma grouped_frames: "grouped s = frames_of (mset (map snd (rg_groups s)))"
  by (simp add: grouped_def frames_of_def image_mset.compositionality comp_def)

lemma all_done_finished:
  assumes ok: "run_ok lib contracts s fin r" and "\<not> qu_aborted r" and ends: "set (qu_workers r) \<subseteq> {W_done}"
  shows "mset fin = mset (qu_pending r)"
proof -
  have none: "List.map_filter in_work ws = []" if "set ws \<subseteq> {W_done}" for ws
    using that by (induction ws) (auto simp: List.map_filter_simps)
  have "length (qu_pending r) \<le> qu_next r"
  proof (cases "qu_workers r = []")
    case True
    with ok show ?thesis by (auto simp: run_ok_def)
  next
    case False
    with ends have "W_done \<in> set (qu_workers r)" by (cases "qu_workers r") auto
    with ok assms(2) show ?thesis unfolding run_ok_def by blast
  qed
  with ok assms(2) none [OF ends] show ?thesis by (simp add: run_ok_def parts_def waiting_def)
qed

text \<open>A step of a worker that is not done brings the run closer to its end.\<close>

fun worker_weight :: "worker \<Rightarrow> nat" where
  "worker_weight W_ready = 1"
| "worker_weight (W_waiting g) = 2"
| "worker_weight W_done = 0"

definition run_left :: "quote_run \<Rightarrow> nat" where
  "run_left r = 3 * (length (qu_pending r) - qu_next r) + sum_list (map worker_weight (qu_workers r))"

lemma weight_update: "w < length ws \<Longrightarrow> sum_list (map worker_weight (ws[w := x])) + worker_weight (ws ! w) = sum_list (map worker_weight ws) + worker_weight x"
proof (induction ws arbitrary: w)
  case (Cons v ws)
  then show ?case by (cases w) auto
qed simp

lemma worker_step_less:
  assumes "w < length (qu_workers r)" and "qu_workers r ! w \<noteq> W_done"
  shows "run_left (worker_step lib contracts w r) < run_left r"
proof (cases "qu_workers r ! w")
  case W_ready
  show ?thesis
    using weight_update [OF assms(1), of W_done] weight_update [OF assms(1), of "W_waiting (qu_pending r ! qu_next r)"] W_ready
    by (auto simp: run_left_def worker_step_def take_group_def)
next
  case (W_waiting g)
  show ?thesis
    using weight_update [OF assms(1), of W_done] weight_update [OF assms(1), of W_ready] W_waiting
    by (auto simp: run_left_def worker_step_def finish_group_def)
qed (use assms in simp)

text \<open>C40. Whatever the order in which the lookups of a quote run end and whenever it is aborted: at most four lookups run at a time, at
  most 128 addresses are looked up, and no frame is annotated more often than it occurs in the run. When all workers have
  ended without an abort, every frame of a group is annotated, and the counts of the message are right: each frame is either
  counted as unavailable or belongs to a contract whose ABI was loaded. As long as a worker has not ended, its next
  step brings the run closer to its end.\<close>
theorem quote_run_complete:
  assumes "(quote_step lib contracts)\<^sup>*\<^sup>* (start_run (group_frames configured frames)) r"
  shows "length (qu_workers r) \<le> 4 \<and> length (qu_pending r) \<le> 128 \<and> mset (map dc_id (qu_sent r)) \<subseteq># mset (map qe_id frames)
    \<and> (\<not> qu_aborted r \<and> set (qu_workers r) \<subseteq> {W_done} \<longrightarrow>
        length (qu_sent r) + rg_unavailable (group_frames configured frames) = length frames
        \<and> qu_verified r = length (filter (\<lambda>g. contracts g \<noteq> None) (qu_pending r))
        \<and> qu_unavailable r + sum_list (map (length \<circ> qg_frames) (filter (\<lambda>g. contracts g \<noteq> None) (qu_pending r))) = length frames)
    \<and> (\<forall>w < length (qu_workers r). qu_workers r ! w \<noteq> W_done \<longrightarrow> run_left (worker_step lib contracts w r) < run_left r)"
proof -
  define s where "s = group_frames configured frames"
  obtain fin where ok: "run_ok lib contracts s fin r" using run_reached_ok assms unfolding s_def by blast
  have g: "groups_ok frames s" unfolding s_def by (rule group_frames_ok)
  have pending: "qu_pending r = map snd (rg_groups s)" using ok by (simp add: run_ok_def)
  have sent: "qu_sent r = concat (map (\<lambda>g. map (annotated lib (contracts g)) (qg_frames g)) fin)" using ok by (simp add: run_ok_def)
  have "mset fin \<subseteq># parts fin r" by (simp add: parts_def)
  also have "\<dots> \<subseteq># mset (qu_pending r)" using ok unfolding run_ok_def by blast
  finally have "frames_of (mset fin) \<subseteq># grouped s" unfolding grouped_frames pending by (rule frames_of_mono)
  then have "frames_of (mset fin) \<subseteq># mset frames" using g unfolding groups_ok_def by (meson subset_mset.order_trans)
  then have ids: "mset (map dc_id (qu_sent r)) \<subseteq># mset (map qe_id frames)"
    using sent_ids [of lib contracts fin] unfolding sent by (simp only: mset_map image_mset_subseteq_mono)
  have counts: "length (qu_sent r) + rg_unavailable s = length frames
      \<and> qu_verified r = length (filter (\<lambda>g. contracts g \<noteq> None) (qu_pending r))
      \<and> qu_unavailable r + sum_list (map (length \<circ> qg_frames) (filter (\<lambda>g. contracts g \<noteq> None) (qu_pending r))) = length frames"
    if ended: "\<not> qu_aborted r" "set (qu_workers r) \<subseteq> {W_done}"
  proof -
    have all: "mset fin = mset (qu_pending r)" by (rule all_done_finished [OF ok ended])
    have size: "sum_list (map (length \<circ> qg_frames) fin) + rg_unavailable s = length frames"
      using g frames_of_size [of fin] unfolding groups_ok_def grouped_frames all pending [symmetric] by simp
    have filters: "mset (filter P fin) = mset (filter P (qu_pending r))" for P using all by simp
    have "length (filter P fin) = length (filter P (qu_pending r))" for P using filters [of P] by (metis size_mset)
    then have verified: "qu_verified r = length (filter (\<lambda>g. contracts g \<noteq> None) (qu_pending r))" using ok by (simp add: run_ok_def)
    have "qu_unavailable r = rg_unavailable s + sum_list (map (length \<circ> qg_frames) (filter (\<lambda>g. \<not> contracts g \<noteq> None) fin))"
      using ok by (simp add: run_ok_def)
    then have "qu_unavailable r + sum_list (map (length \<circ> qg_frames) (filter (\<lambda>g. contracts g \<noteq> None) fin)) = length frames"
      using sum_filter_split [of "length \<circ> qg_frames" "\<lambda>g. contracts g \<noteq> None" fin] size by simp
    then show ?thesis using size verified sum_list_mset [OF filters] unfolding sent sent_length by metis
  qed
  have "length (qu_workers r) \<le> 4" "length (qu_pending r) \<le> 128" using ok g by (simp_all add: run_ok_def groups_ok_def max_groups_def)
  with ids counts worker_step_less show ?thesis unfolding s_def by blast
qed

definition sample_bytes_captured :: captured_bytes where
  "sample_bytes_captured = \<lparr>cb_hex = ''0x01020304'', cb_length = 4, cb_truncated = False\<rparr>"

definition sample_quote_frames :: "quote_frame list" where
  "sample_quote_frames =
     [\<lparr>qe_id = 1, qe_chainId = ''1'', qe_codeAddress = Some ''0xA1'', qe_kind = ''CALL'', qe_status = ''success'', qe_input = sample_bytes_captured, qe_output = None\<rparr>,
      \<lparr>qe_id = 2, qe_chainId = ''1'', qe_codeAddress = Some ''0xa1'', qe_kind = ''CALL'', qe_status = ''success'', qe_input = sample_bytes_captured, qe_output = None\<rparr>,
      \<lparr>qe_id = 3, qe_chainId = ''9'', qe_codeAddress = Some ''0xa1'', qe_kind = ''CALL'', qe_status = ''success'', qe_input = sample_bytes_captured, qe_output = None\<rparr>]"

definition sample_chains :: "chain \<Rightarrow> string option" where
  "sample_chains c = (case c of L1 \<Rightarrow> Some ''0x1'' | L2 \<Rightarrow> Some ''0x2'')"

definition sample_quote_lib :: quote_lib where
  "sample_quote_lib = \<lparr>ql_parse = (\<lambda>_. None), ql_url = (\<lambda>_. Inl TypeError), ql_selector = (\<lambda>_. Inr ''0x01020304''),
     ql_decode = (\<lambda>_ _. Inr []), ql_stringify = (\<lambda>_. ''[]'')\<rparr>"

definition sample_contract :: "quote_group \<Rightarrow> verified_abi option" where
  "sample_contract g = Some \<lparr>va_abi = [\<lparr>ai_kind = K_function, ai_name = ''f'', ai_inputs = [], ai_outputs = []\<rparr>], va_name = None\<rparr>"

definition sample_quote_run :: "nat \<Rightarrow> quote_run" where
  "sample_quote_run n = (worker_step sample_quote_lib sample_contract 0 ^^ n) (start_run (group_frames sample_chains sample_quote_frames))"

lemma sample_quote_workers: "map (\<lambda>n. map worker_weight (qu_workers (sample_quote_run n))) [0, 1, 2, 3] = [[1], [2], [1], [0]]"
  by code_simp

lemma sample_quote_reached: "(quote_step sample_quote_lib sample_contract)\<^sup>*\<^sup>* (start_run (group_frames sample_chains sample_quote_frames)) (sample_quote_run 3)"
proof -
  have step: "quote_step sample_quote_lib sample_contract (sample_quote_run n) (sample_quote_run (Suc n))" if "n \<in> {0, 1, 2}" for n
  proof -
    have "length (qu_workers (sample_quote_run n)) = 1 \<and> worker_weight (qu_workers (sample_quote_run n) ! 0) > 0"
      using sample_quote_workers that by (auto simp: length_Suc_conv map_eq_Cons_conv)
    then show ?thesis unfolding sample_quote_run_def funpow.simps comp_def
      by (intro quote_step.step_worker) (auto simp: sample_quote_run_def)
  qed
  from step [of 0] step [of 1] step [of 2] show ?thesis
    by (auto simp: sample_quote_run_def [of 0] numeral_2_eq_2 numeral_3_eq_3 intro: rtranclp.rtrancl_into_rtrancl)
qed

theorem quote_run_complete_witness:
  "map dc_id (qu_sent (sample_quote_run 3)) = [1, 2] \<and> map dc_method (qu_sent (sample_quote_run 3)) = [Some ''f'', Some ''f'']
     \<and> qu_unavailable (sample_quote_run 3) = 1 \<and> length (qu_pending (sample_quote_run 3)) \<le> 128"
proof -
  have "map dc_id (qu_sent (sample_quote_run 3)) = [1, 2] \<and> map dc_method (qu_sent (sample_quote_run 3)) = [Some ''f'', Some ''f'']
     \<and> qu_unavailable (sample_quote_run 3) = 1" by code_simp
  with quote_run_complete [OF sample_quote_reached] show ?thesis by blast
qed

end
