(* ===== verification/Call_Flow.thy ===== *)
theory Call_Flow
  imports Action_Format Execution_Analysis
begin

text \<open>
  \<open>src/src/lib/callFlowBuilder.ts\<close>: the strip of calls and returns of the consumed actions of a bundle, and the steps of a bundle
  with their texts. A detail reads some arguments of an event unchecked; there a missing argument is an error. The
  module's table of selectors is the one of \<open>actionHashDecoder.ts\<close>.
\<close>

section \<open>The call strip\<close>

record known_address =
  ka_label :: string
  ka_type :: string
  ka_chain :: string

record consumed_action =
  ca_action :: action_fields
  ca_chain :: chain
  ca_hash :: "string option"

definition resolveAddress :: "string \<Rightarrow> (string, known_address) jmap \<Rightarrow> known_address" where
  "resolveAddress addr known =
     (case jmap_get known (js_lower addr) of
        Some info \<Rightarrow> info
      | None \<Rightarrow> \<lparr>ka_label = truncateAddress addr, ka_type = ''contract'', ka_chain = ''l1''\<rparr>)"

definition consumed_of :: "event_record \<Rightarrow> consumed_action option" where
  "consumed_of event =
     (if ev_name event \<noteq> ExecutionConsumed then None
      else map_option (\<lambda>a. \<lparr>ca_action = actionFromEventArgs a, ca_chain = ev_chain event, ca_hash = ar_actionHash (ev_args event)\<rparr>)
        (ar_action (ev_args event)))"

definition action_chain :: "action_fields \<Rightarrow> string" where
  "action_chain action = (if a_rollupId action = 0 then ''l1'' else ''l2'')"

definition selector_name :: "string \<Rightarrow> string" where
  "selector_name d =
     (let selector = data_selector d in case jmap_get KNOWN_SELECTORS (js_lower selector) of Some n \<Rightarrow> n | None \<Rightarrow> selector)"

definition source_item :: "(string, known_address) jmap \<Rightarrow> consumed_action \<Rightarrow> diagram_item" where
  "source_item known c =
     (let info = resolveAddress (a_sourceAddress (ca_action c)) known
      in Node (ka_label info) (ka_type info) (ka_type info) (js_or (ka_chain info) (chain_str (ca_chain c))))"

definition call_target_item :: "(string, known_address) jmap \<Rightarrow> action_fields \<Rightarrow> diagram_item" where
  "call_target_item known action =
     (let info = resolveAddress (a_destination action) known in Node (ka_label info) (ka_type info) (ka_type info) (action_chain action))"

definition add_action_items :: "(string, known_address) jmap \<Rightarrow> diagram_item list \<Rightarrow> nat \<times> consumed_action \<Rightarrow> diagram_item list" where
  "add_action_items known items ic =
     (let action = ca_action (snd ic)
      in if a_actionType action = 0
         then items @ (if fst ic = 0 \<or> items = [] then [source_item known (snd ic)] else [])
           @ [Arrow (selector_name (a_data action)), call_target_item known action]
         else if a_actionType action = 1
         then items @ [Arrow (''return('' @ (if a_data action = ''0x'' then ''void'' else ''data='' @ js_slice_to 10 (a_data action) @ ''...'') @ '')'')]
         else if a_actionType action = 2
         then items @ [Node ''L2TX'' (''rlp='' @ js_slice_to 8 (a_data action) @ ''...'') ''system'' (action_chain action)]
         else items)"

definition buildCallFlow :: "event_record list \<Rightarrow> (string, known_address) jmap \<Rightarrow> diagram_item list" where
  "buildCallFlow events known =
     foldl (add_action_items known) [] (List.enumerate 0 (List.map_filter consumed_of events))"

section \<open>The steps of a bundle\<close>

record bundle_step =
  bt_eventId :: string
  bt_chain :: chain
  bt_title :: string
  bt_detail :: string
  bt_eventName :: string
  bt_txHash :: string

definition entry_count :: "event_args \<Rightarrow> string" where
  "entry_count args = show_nat (case ar_entries args of None \<Rightarrow> 0 | Some es \<Rightarrow> length es)"

definition stepTitle :: "event_record \<Rightarrow> string" where
  "stepTitle event =
     (case ev_name event of
        BatchPosted \<Rightarrow> ''Post batch ('' @ entry_count (ev_args event) @ '' entries)''
      | ExecutionTableLoaded \<Rightarrow> ''Load execution table ('' @ entry_count (ev_args event) @ '' entries)''
      | ExecutionConsumed \<Rightarrow> ''Entry consumed''
      | CrossChainCallExecuted \<Rightarrow> ''Cross-chain call executed''
      | L2TXExecuted \<Rightarrow> ''L2TX executed''
      | IncomingCrossChainCallExecuted \<Rightarrow> ''Incoming cross-chain call''
      | CrossChainProxyCreated \<Rightarrow> ''Proxy created''
      | n \<Rightarrow> event_name_str n)"

definition consumed_step_detail :: "event_args \<Rightarrow> string" where
  "consumed_step_detail args =
     (case ar_action args of
        Some arg \<Rightarrow>
          (let fields = actionFromEventArgs arg;
               dest = (if a_destination fields \<noteq> zero_addr then truncateAddress (a_destination fields) else []);
               scope = (if a_scope fields \<noteq> [] then '' scope='' @ formatScope (a_scope fields) else [])
           in actionTypeName (a_actionType fields) @ arrow_text @ ''rollup '' @ show_int (a_rollupId fields)
                @ (if dest \<noteq> [] then arrow_text @ dest else []) @ scope)
      | None \<Rightarrow> ''actionHash: '' @ (case ar_actionHash args of None \<Rightarrow> ''undefined'' | Some h \<Rightarrow> js_slice_to 18 h) @ ''...'')"

definition two_addresses :: "string \<Rightarrow> string option \<Rightarrow> string option \<Rightarrow> js_error + string" where
  "two_addresses name a b =
     res_bind (js_defined a) (\<lambda>x. res_bind (js_defined b) (\<lambda>y. Inr (name @ ''='' @ truncateAddress x @ '' src='' @ truncateAddress y)))"

definition stepDetail :: "event_record \<Rightarrow> js_error + string" where
  "stepDetail event =
     (let args = ev_args event
      in case ev_name event of
        ExecutionConsumed \<Rightarrow> Inr (consumed_step_detail args)
      | CrossChainCallExecuted \<Rightarrow> two_addresses ''proxy'' (ar_proxy args) (ar_sourceAddress args)
      | L2TXExecuted \<Rightarrow> Inr (''rollup='' @ js_String_int (ar_rollupId args))
      | IncomingCrossChainCallExecuted \<Rightarrow> two_addresses ''dest'' (ar_destination args) (ar_sourceAddress args)
      | _ \<Rightarrow> Inr (''block '' @ show_int (ev_block event) @ '', tx '' @ js_slice_to 10 (ev_tx event) @ ''...''))"

definition bundle_step_of :: "event_record \<Rightarrow> js_error + bundle_step" where
  "bundle_step_of event =
     res_bind (stepDetail event) (\<lambda>detail.
       Inr \<lparr>bt_eventId = ev_id event, bt_chain = ev_chain event, bt_title = stepTitle event, bt_detail = detail,
         bt_eventName = event_name_str (ev_name event), bt_txHash = ev_tx event\<rparr>)"

definition buildBundleSteps :: "event_record list \<Rightarrow> js_error + bundle_step list" where
  "buildBundleSteps events = res_map bundle_step_of events"

section \<open>Facts\<close>

text \<open>The arguments a detail reads unchecked.\<close>

definition detail_args :: "event_record \<Rightarrow> bool" where
  "detail_args event \<longleftrightarrow>
     (ev_name event = CrossChainCallExecuted \<longrightarrow> ar_proxy (ev_args event) \<noteq> None \<and> ar_sourceAddress (ev_args event) \<noteq> None)
     \<and> (ev_name event = IncomingCrossChainCallExecuted \<longrightarrow> ar_destination (ev_args event) \<noteq> None \<and> ar_sourceAddress (ev_args event) \<noteq> None)"

lemma bundle_step_of_Inr: "(\<exists>st. bundle_step_of e = Inr st) \<longleftrightarrow> detail_args e"
  by (cases "ev_name e"; cases "ar_proxy (ev_args e)"; cases "ar_sourceAddress (ev_args e)"; cases "ar_destination (ev_args e)")
    (simp_all add: bundle_step_of_def stepDetail_def two_addresses_def detail_args_def Let_def)

text \<open>Steps are built exactly when no such argument is missing, one for each event in order.\<close>

theorem bundle_steps_built: "(\<exists>steps. buildBundleSteps events = Inr steps) \<longleftrightarrow> list_all detail_args events"
proof (induction events)
  case (Cons e es)
  show ?case
  proof (cases "bundle_step_of e")
    case (Inl f)
    then have "\<not> detail_args e" using bundle_step_of_Inr [of e] by auto
    with Inl show ?thesis by (simp add: buildBundleSteps_def)
  next
    case (Inr st)
    then have "detail_args e" using bundle_step_of_Inr [of e] by blast
    with Inr Cons show ?thesis by (auto simp: buildBundleSteps_def res_bind_Inr_iff)
  qed
qed (simp add: buildBundleSteps_def)

lemma bundle_steps_ids: "buildBundleSteps events = Inr steps \<Longrightarrow> map bt_eventId steps = map ev_id events"
proof (induction events arbitrary: steps)
  case (Cons e es)
  then obtain st sts where "bundle_step_of e = Inr st" "buildBundleSteps es = Inr sts" "steps = st # sts"
    by (auto simp: buildBundleSteps_def res_bind_Inr_iff)
  with Cons.IH show ?case by (auto simp: bundle_step_of_def res_bind_Inr_iff)
qed (simp add: buildBundleSteps_def)

end
