(* ===== verification/Treasury_Transactions.thy ===== *)
theory Treasury_Transactions
  imports Treasury_Checks Safe_Approvals
begin

text \<open>
  The Safe transactions of the treasury: \<open>paymentTransaction\<close> (\<open>src/src/lib/treasury/payments.ts\<close>),
  \<open>transferTransaction\<close> (\<open>transfers.ts\<close>), \<open>packSafeCalls\<close> (\<open>safeSetup.ts\<close>), the calls of recorded
  payments (\<open>savedPayments.ts\<close>) and \<open>actionTransaction\<close> with the validation of a saved submission,
  \<open>readIntent\<close> (\<open>client.ts\<close>).
  The ABI library is the parameter \<open>treasury_lib\<close>: \<open>isAddress\<close> of an untyped value, the functions of \<open>safe_lib\<close>,
  and \<open>encodeFunctionData\<close> of an ABI, a function and its arguments, which throws on arguments it rejects.
  The deployed contracts of a policy are an object of the saved configuration. Typographic characters in the
  messages of errors are written in ASCII.
\<close>

record treasury_lib =
  tl_safe :: safe_lib
  tl_isAddress :: "js \<Rightarrow> bool"
  tl_encode :: "string \<Rightarrow> string \<Rightarrow> js list \<Rightarrow> js_error + string"
  tl_helper :: string \<comment> \<open>\<open>transferHelper.address\<close>\<close>

record treasury_chain =
  tc_chainId :: int
  tc_front :: "string option"

record treasury_config =
  tr_instance :: string
  tr_l1 :: treasury_chain
  tr_l2 :: treasury_chain
  tr_registry :: string
  tr_manager :: string
  tr_safeL1 :: string
  tr_safeL2 :: string
  tr_action :: "string option"
  tr_payments :: "js_object option"
  tr_previousPayments :: "js_object option"
  tr_olderPayments :: "js_object list option"

definition check :: "bool \<Rightarrow> string \<Rightarrow> js_error + unit" where
  "check ok msg = (if ok then Inr () else throw msg)"

lemma check_Inr [simp]: "check ok msg = Inr u \<longleftrightarrow> ok"
  by (simp add: check_def)

definition equal_text :: "string \<Rightarrow> string \<Rightarrow> bool" where
  "equal_text a b \<longleftrightarrow> js_lower a = js_lower b"

lemma equal_text_refl [simp]: "equal_text a a"
  by (simp add: equal_text_def)

abbreviation get_address :: "treasury_lib \<Rightarrow> string \<Rightarrow> string" where
  "get_address lib \<equiv> lib_getAddress (tl_safe lib)"

definition prop_text :: "js_object \<Rightarrow> string \<Rightarrow> string" where
  "prop_text p k = js_string (js_prop p k)"

definition prop_option :: "js_object \<Rightarrow> string \<Rightarrow> string option" where
  "prop_option p k = (case js_prop p k of JStr s \<Rightarrow> Some s | _ \<Rightarrow> None)"

section \<open>The calls of a payment\<close>

definition encodeSplitPayment :: "treasury_lib \<Rightarrow> js_object \<Rightarrow> payment \<Rightarrow> js_error + string" where
  "encodeSplitPayment lib deployment p =
     (if paymentVersion deployment = JNum 0 then throw ''This payment requires a treasury created with the current setup''
      else res_bind (js_BigInt (js_prop p ''amount'')) (\<lambda>amount.
           res_bind (js_BigInt (js_prop p ''epoch'')) (\<lambda>epoch.
           res_bind (js_BigInt (js_prop p ''fromL1'')) (\<lambda>fromL1.
             let args = [js_prop p ''recipient'', JBig amount, JBool (js_prop p ''destination'' = JStr ''l1''), JBig epoch, JBig fromL1]
             in if paymentVersion deployment = JNum 2 then tl_encode lib ''splitAbi'' ''paySplit'' args
                else tl_encode lib ''oldAbi'' ''paySplit'' (js_prop deployment ''tokenL1'' # args)))))"

text \<open>\<open>packSafeCalls\<close>: each call is a plain \<open>CALL\<close> without value.\<close>

definition packSafeCalls :: "safe_lib \<Rightarrow> (string \<times> string) list \<Rightarrow> string" where
  "packSafeCalls lib calls = lib_concatHex lib (map (\<lambda>(to, data).
     lib_concatHex lib [''0x00'', to, lib_toHex32 lib 0, lib_toHex32 lib (lib_size lib data), data]) calls)"

definition approve_call :: "treasury_lib \<Rightarrow> js_object \<Rightarrow> int \<Rightarrow> js_error + string \<times> string" where
  "approve_call lib asset amount =
     res_bind (tl_encode lib ''transferAbi'' ''approve'' [js_prop asset ''bridgeL1'', JBig amount]) (\<lambda>data.
       Inr (prop_text asset ''tokenL1'', data))"

definition bridge_call :: "treasury_lib \<Rightarrow> treasury_config \<Rightarrow> js_object \<Rightarrow> payment \<Rightarrow> js_error + string \<times> string" where
  "bridge_call lib c asset p =
     res_bind (js_BigInt (js_prop p ''amount'')) (\<lambda>amount.
     res_bind (js_BigInt (js_prop p ''rollupId'')) (\<lambda>rollup.
     res_bind (tl_encode lib ''transferAbi'' ''bridgeTokens'' [js_prop asset ''tokenL1'', JBig amount, JBig rollup, JStr (tr_safeL2 c)]) (\<lambda>data.
       Inr (prop_text asset ''bridgeL1'', data))))"

text \<open>The batch of a transfer: the allowance of the bridge is cleared, set to the amount, used and cleared.\<close>

definition transfer_calls :: "treasury_lib \<Rightarrow> treasury_config \<Rightarrow> js_object \<Rightarrow> payment \<Rightarrow> js_error + (string \<times> string) list" where
  "transfer_calls lib c asset p =
     res_bind (approve_call lib asset 0) (\<lambda>cleared.
     res_bind (js_BigInt (js_prop p ''amount'')) (\<lambda>amount.
     res_bind (approve_call lib asset amount) (\<lambda>approved.
     res_bind (bridge_call lib c asset p) (\<lambda>bridged.
     res_bind (approve_call lib asset 0) (\<lambda>again.
       Inr [cleared, approved, bridged, again])))))"

definition transferTransaction :: "treasury_lib \<Rightarrow> treasury_config \<Rightarrow> payment \<Rightarrow> int \<Rightarrow> js_error + safe_transaction" where
  "transferTransaction lib c p nonce =
     (let wrong = ''Transfers must go from this treasury's L1 Safe to its EEZ-X Safe''
      in case tr_payments c of
           None \<Rightarrow> throw wrong
         | Some asset \<Rightarrow>
             if js_prop p ''source'' \<noteq> JStr ''l1'' \<or> js_prop p ''destination'' \<noteq> JStr ''l2''
                \<or> \<not> equal_text (prop_text p ''recipient'') (tr_safeL2 c) then throw wrong
             else res_bind (transfer_calls lib c asset p) (\<lambda>calls.
                  res_bind (tl_encode lib ''transferAbi'' ''multiSend'' [JStr (js_lower (packSafeCalls (tl_safe lib) calls))]) (\<lambda>data.
                    buildSafeTransaction (tl_safe lib) \<lparr>in_chainId = tc_chainId (tr_l1 c), in_safe = tr_safeL1 c,
                      in_to = tl_helper lib, in_data = data, in_nonce = nonce, in_operation = Some 1\<rparr>)))"

section \<open>The transaction of a payment\<close>

definition own_contracts :: "treasury_config \<Rightarrow> js_object \<Rightarrow> string list" where
  "own_contracts c d = [tr_safeL1 c, tr_safeL2 c, prop_text d ''policy'', prop_text d ''alias'', prop_text d ''bridgeL1'', prop_text d ''bridgeL2'']
     @ (case prop_option d ''bridgeExecutorL1'' of None \<Rightarrow> [] | Some e \<Rightarrow> [e])"

definition payment_call :: "treasury_lib \<Rightarrow> js_object \<Rightarrow> payment \<Rightarrow> js_error + string" where
  "payment_call lib d p =
     (if js_prop p ''kind'' = JStr ''invoice'' then
        res_bind (js_BigInt (js_prop p ''amount'')) (\<lambda>amount.
        res_bind (js_BigInt (js_prop p ''epoch'')) (\<lambda>epoch.
          tl_encode lib ''paymentAbi'' ''payInvoice''
            [js_prop d ''tokenL1'', js_prop p ''recipient'', JBig amount, js_prop p ''invoiceId'', JBig epoch]))
      else encodeSplitPayment lib d p)"

text \<open>\<open>p.source ?? "l2"\<close> and the transaction from the Safe of that chain to the policy or its alias.\<close>

definition from_l1 :: "payment \<Rightarrow> bool" where
  "from_l1 p \<longleftrightarrow> js_coalesce (js_prop p ''source'') (JStr ''l2'') = JStr ''l1''"

definition policy_transaction ::
  "treasury_lib \<Rightarrow> treasury_config \<Rightarrow> js_object \<Rightarrow> bool \<Rightarrow> int \<Rightarrow> string \<Rightarrow> js_error + safe_transaction" where
  "policy_transaction lib c d l1 nonce data =
     buildSafeTransaction (tl_safe lib)
       \<lparr>in_chainId = tc_chainId (if l1 then tr_l1 c else tr_l2 c), in_safe = (if l1 then tr_safeL1 c else tr_safeL2 c),
        in_to = prop_text d (if l1 then ''alias'' else ''policy''), in_data = data, in_nonce = nonce, in_operation = None\<rparr>"

definition paymentTransaction :: "treasury_lib \<Rightarrow> treasury_config \<Rightarrow> payment \<Rightarrow> int \<Rightarrow> js_error + safe_transaction" where
  "paymentTransaction lib c input nonce =
     res_bind (checkedPayment (tl_isAddress lib) (get_address lib) input) (\<lambda>p.
       case tr_payments c of
         None \<Rightarrow> throw ''Payments are not deployed on this deployment''
       | Some d \<Rightarrow>
           if js_prop p ''kind'' = JStr ''transfer'' then transferTransaction lib c p nonce
           else if list_ex (\<lambda>a. equal_text a (prop_text p ''recipient'')) (own_contracts c d)
             then throw ''Payments cannot target this treasury's contracts. Choose Move to EEZ-X Safe to transfer between your Safes.''
           else if js_prop p ''kind'' = JStr ''invoice'' \<and> \<not> js_truthy (js_prop d ''invoiceMerchant'')
             then throw ''This devnet does not support invoice payments''
           else res_bind (payment_call lib d p) (\<lambda>data.
             if from_l1 p \<and> (\<not> verifiesL1Initiation d \<or> (case tc_front (tr_l1 c) of None \<Rightarrow> True | Some f \<Rightarrow> f = []))
             then throw ''This policy supports initiation from EEZ-X only''
             else policy_transaction lib c d (from_l1 p) nonce data))"

section \<open>Recorded payments\<close>

definition legacy_fixed :: "payment \<Rightarrow> bool" where
  "legacy_fixed p \<longleftrightarrow> has_key p ''funding'' \<and> (js_prop p ''kind'' = JUndefined \<or> js_prop p ''kind'' = JStr ''fixed'') \<and> \<not> has_key p ''fromL1''"

definition legacy_call :: "treasury_lib \<Rightarrow> js_object \<Rightarrow> payment \<Rightarrow> js_error + string" where
  "legacy_call lib d p =
     res_bind (js_BigInt (js_prop p ''amount'')) (\<lambda>amount.
     res_bind (js_BigInt (js_prop p ''epoch'')) (\<lambda>epoch.
       tl_encode lib ''oldAbi'' (if js_prop p ''funding'' = JStr ''local'' then ''pay'' else ''payRouted'')
         [js_prop d ''tokenL1'', js_prop p ''recipient'', JBig amount, JBool (js_prop p ''destination'' = JStr ''l1''), JBig epoch]))"

definition recordedPaymentTransaction :: "treasury_lib \<Rightarrow> treasury_config \<Rightarrow> payment \<Rightarrow> int \<Rightarrow> js_error + safe_transaction" where
  "recordedPaymentTransaction lib c input nonce =
     res_bind (checkedRecordedPayment (tl_isAddress lib) (get_address lib) input) (\<lambda>p.
       if legacy_fixed p then
         (case tr_payments c of
            None \<Rightarrow> throw ''Missing recorded payment deployment''
          | Some d \<Rightarrow> res_bind (legacy_call lib d p) (\<lambda>data. policy_transaction lib c d (from_l1 p) nonce data))
       else paymentTransaction lib c (without_key ''funding'' p) nonce)"

definition actionTransaction :: "treasury_lib \<Rightarrow> treasury_config \<Rightarrow> js \<Rightarrow> int \<Rightarrow> js_error + safe_transaction" where
  "actionTransaction lib c value nonce =
     (case tr_action c of
        None \<Rightarrow> throw ''This treasury has no owner-action fixture; use a payment''
      | Some action \<Rightarrow>
          let wrong = ''Enter a whole number from 0 to 2^256 - 1''
          in if action = [] then throw ''This treasury has no owner-action fixture; use a payment''
             else if \<not> digits_between 1 78 (js_string value) then throw wrong
             else res_bind (js_BigInt value) (\<lambda>n.
               if n \<ge> 2 ^ 256 then throw wrong
               else res_bind (tl_encode lib ''actionAbi'' ''setValue'' [JBig n]) (\<lambda>data.
                 buildSafeTransaction (tl_safe lib) \<lparr>in_chainId = tc_chainId (tr_l2 c), in_safe = tr_safeL2 c,
                   in_to = action, in_data = data, in_nonce = nonce, in_operation = None\<rparr>)))"

section \<open>A saved submission\<close>

text \<open>\<open>typeof v === "string" && /^0x[\da-f]{64}$/i.test(v)\<close> and \<open>/^0x[\da-f]+$/i.test(v)\<close>.\<close>

definition digest :: "js \<Rightarrow> bool" where
  "digest v = (case v of JStr s \<Rightarrow> is_hex_of 64 s | _ \<Rightarrow> False)"

definition hex_quantity :: "js \<Rightarrow> bool" where
  "hex_quantity v \<longleftrightarrow> is_hex_text (js_string v) \<and> length (js_string v) > 2"

definition hex_bytes :: "js \<Rightarrow> bool" where
  "hex_bytes v \<longleftrightarrow> hex_quantity v \<and> even (length (js_string v))"

definition intent_shape :: "treasury_lib \<Rightarrow> treasury_config \<Rightarrow> js_object \<Rightarrow> bool" where
  "intent_shape lib c i \<longleftrightarrow> js_prop i ''version'' = JNum 1 \<and> js_prop i ''instance'' = JStr (tr_instance c)
     \<and> digest (js_prop i ''safeHash'') \<and> (js_truthy (js_prop i ''hash'') \<longrightarrow> digest (js_prop i ''hash''))
     \<and> tl_isAddress lib (js_prop i ''sender'') \<and> hex_quantity (js_prop i ''sourceNonce'') \<and> hex_quantity (js_prop i ''startBlock'')
     \<and> hex_bytes (js_prop i ''data'') \<and> digits_between 1 78 (js_string (js_prop i ''nonce''))"

text \<open>The reviewed transaction of a submission. A payment that is not an object does not pass
  its review.\<close>

definition intent_transaction :: "treasury_lib \<Rightarrow> treasury_config \<Rightarrow> js_object \<Rightarrow> int \<Rightarrow> js_error + safe_transaction" where
  "intent_transaction lib c i nonce =
     (case js_prop i ''payment'' of
        JObj p \<Rightarrow> recordedPaymentTransaction lib c p nonce
      | JArr _ \<Rightarrow> throw ''Invalid payment review''
      | v \<Rightarrow> if js_truthy v then Inl TypeError else actionTransaction lib c (js_prop i ''value'') nonce)"

definition standard_bridge :: "treasury_config \<Rightarrow> bool" where
  "standard_bridge c \<longleftrightarrow> (case tr_payments c of None \<Rightarrow> False | Some d \<Rightarrow> js_prop d ''bridgeKind'' = JStr ''standard'')"

definition payment_source :: "js_object \<Rightarrow> js" where
  "payment_source i = js_field (js_prop i ''payment'') ''source''"

definition intent_transport :: "treasury_config \<Rightarrow> js_object \<Rightarrow> js" where
  "intent_transport c i = (if standard_bridge c then JStr ''l1'' else js_coalesce (payment_source i) (JStr ''l2''))"

text \<open>\<open>readIntent\<close> from the parsed text; an array has none of the properties it reads.\<close>

definition read_fields :: "js \<Rightarrow> js_error + js_object" where
  "read_fields v = (case v of JUndefined \<Rightarrow> Inl TypeError | JNull \<Rightarrow> Inl TypeError | JObj ob \<Rightarrow> Inr ob | _ \<Rightarrow> Inr [])"

definition readIntent :: "treasury_lib \<Rightarrow> treasury_config \<Rightarrow> js \<Rightarrow> js_error + js_object" where
  "readIntent lib c parsed =
     res_bind (read_fields parsed) (\<lambda>i.
     res_bind (check (intent_shape lib c i) ''Saved submission is invalid; keep its wallet transaction hash for recovery'') (\<lambda>_.
     res_bind (js_BigInt (js_prop i ''nonce'')) (\<lambda>nonce.
     res_bind (intent_transaction lib c i nonce) (\<lambda>tx.
     res_bind (check (js_prop i ''safeHash'' = JStr (lib_hash (tl_safe lib) tx)) ''Saved Safe transaction does not match this treasury deployment'') (\<lambda>_.
     res_bind (check (payment_source i = JStr ''l1'' \<or> standard_bridge c \<longrightarrow> hex_quantity (js_coalesce (js_prop i ''l2StartBlock'') (JStr [])))
       ''Missing L2 observation for the saved L1 payment'') (\<lambda>_.
     res_bind (check (js_prop i ''submissionChain'' = JUndefined \<or> js_strict_eq (js_prop i ''submissionChain'') (intent_transport c i))
       ''Saved submission network does not match this treasury'') (\<lambda>_.
     res_bind (check (standard_bridge c \<longrightarrow> js_prop i ''submissionChain'' = JStr ''l1'') ''Missing Ethereum relay identity'') (\<lambda>_.
       Inr i))))))))"

end
