(* ===== verification/Payment_History.thy ===== *)
theory Payment_History
  imports Treasury_Transactions
begin

text \<open>
  \<open>src/src/lib/treasury/history.ts\<close>: the history of submitted payments and of rejected preparations that the
  browser keeps for a treasury.
  The text of a storage item is modelled by what \<open>JSON.parse\<close> gives for it: a value, or the error of a malformed
  text. \<open>json_value\<close> is the value that the text of \<open>JSON.stringify\<close> denotes; two texts are equal exactly when these
  values are, in the order of their keys. The clock, random identifiers and \<open>Date.parse\<close> are parameters.
\<close>

section \<open>JSON\<close>

text \<open>\<^const>\<open>None\<close> is \<open>undefined\<close>, which an object leaves out and an array writes as null.\<close>

fun json_value :: "js \<Rightarrow> js_error + js option"
  and json_list :: "js list \<Rightarrow> js_error + js list"
  and json_fields :: "(string \<times> js) list \<Rightarrow> js_error + (string \<times> js) list" where
  "json_value JUndefined = Inr None"
| "json_value (JBig n) = Inl TypeError"
| "json_value (JArr vs) = res_bind (json_list vs) (\<lambda>ws. Inr (Some (JArr ws)))"
| "json_value (JObj kvs) = res_bind (json_fields kvs) (\<lambda>ws. Inr (Some (JObj ws)))"
| "json_value v = Inr (Some v)"
| "json_list [] = Inr []"
| "json_list (v # vs) = res_bind (json_value v) (\<lambda>w. res_bind (json_list vs) (\<lambda>ws.
     Inr ((case w of None \<Rightarrow> JNull | Some u \<Rightarrow> u) # ws)))"
| "json_fields [] = Inr []"
| "json_fields ((k, v) # kvs) = res_bind (json_value v) (\<lambda>w. res_bind (json_fields kvs) (\<lambda>ws.
     Inr (case w of None \<Rightarrow> ws | Some u \<Rightarrow> (k, u) # ws)))"

text \<open>A value that a text denotes: what \<open>JSON.parse\<close> returns.\<close>

definition plain_json :: "js \<Rightarrow> bool" where
  "plain_json v \<longleftrightarrow> json_value v = Inr (Some v)"

text \<open>The text of a value, read again: \<open>JSON.parse(JSON.stringify(v))\<close>.\<close>

definition reparsed :: "js \<Rightarrow> js_error + js" where
  "reparsed v = res_bind (json_value v) (\<lambda>w. case w of None \<Rightarrow> Inl syntax_error | Some u \<Rightarrow> Inr u)"

section \<open>The configuration of an old submission\<close>

definition previous_config :: "treasury_config \<Rightarrow> treasury_config" where
  "previous_config c = c\<lparr>tr_payments := tr_previousPayments c,
     tr_previousPayments := (case tr_olderPayments c of Some (d # ds) \<Rightarrow> Some d | _ \<Rightarrow> None),
     tr_olderPayments := (case tr_olderPayments c of Some (d # d' # ds) \<Rightarrow> Some (d' # ds) | _ \<Rightarrow> None)\<rparr>"

definition older_policies :: "treasury_config \<Rightarrow> nat" where
  "older_policies c = (if tr_previousPayments c = None then 0 else Suc (case tr_olderPayments c of None \<Rightarrow> 0 | Some ds \<Rightarrow> length ds))"

lemma previous_config_older: "tr_previousPayments c \<noteq> None \<Longrightarrow> older_policies (previous_config c) < older_policies c"
  by (auto simp: older_policies_def previous_config_def split: option.split list.split)

function historyConfig :: "treasury_lib \<Rightarrow> treasury_config \<Rightarrow> js \<Rightarrow> js_error + treasury_config" where
  "historyConfig lib c intent =
     (case res_bind (reparsed intent) (readIntent lib c) of
        Inr _ \<Rightarrow> Inr c
      | Inl e \<Rightarrow> if tr_previousPayments c = None then Inl e else historyConfig lib (previous_config c) intent)"
  by auto
termination by (relation "measure (\<lambda>(lib, c, intent). older_policies c)") (auto intro: previous_config_older)

declare historyConfig.simps [simp del]

section \<open>Entries\<close>

record history_lib =
  hl_treasury :: treasury_lib
  hl_dateOk :: "string \<Rightarrow> bool" \<comment> \<open>\<open>Number.isFinite(Date.parse(s))\<close>\<close>

text \<open>An entry is an object; the order of its keys is that of the literal that makes it.\<close>

type_synonym history_entry = js_object

definition read_submitted :: "string \<Rightarrow> js \<Rightarrow> js_object \<Rightarrow> history_entry" where
  "read_submitted key at i = [(''id'', JStr key), (''recordedAt'', at), (''kind'', JStr ''submitted''), (''intent'', JObj i)]"

definition read_preparation :: "string \<Rightarrow> js \<Rightarrow> payment \<Rightarrow> js \<Rightarrow> history_entry" where
  "read_preparation key at p detail =
     [(''id'', JStr key), (''recordedAt'', at), (''kind'', JStr ''preparation''), (''payment'', JObj p), (''detail'', detail)]"

text \<open>\<open>attemptId\<close>: the Safe hash, the sender, the nonce and the starting block of a submission.\<close>

definition attemptId :: "js_object \<Rightarrow> js_error + string" where
  "attemptId i =
     res_bind (js_BigInt (js_prop i ''sourceNonce'')) (\<lambda>nonce.
     res_bind (js_BigInt (js_prop i ''startBlock'')) (\<lambda>start.
       Inr (prop_text i ''safeHash'' @ '':'' @ js_lower (prop_text i ''sender'') @ '':'' @ show_int nonce @ '':'' @ show_int start)))"

definition has_payment :: "js_object \<Rightarrow> bool" where
  "has_payment i \<longleftrightarrow> js_truthy (js_prop i ''payment'')"

datatype history_status = H_settled | H_preparation | H_rollback | H_pending | H_rejected

datatype outcome_kind = O_pending | O_settled | O_rejected | O_unknown

record history_observation =
  ob_outcome :: "(outcome_kind \<times> bool \<times> string option) option" \<comment> \<open>the kind, a rollback, \<open>rejectionStage\<close>\<close>
  ob_error :: "string option"
  ob_checking :: bool

definition historyStatus :: "history_entry \<Rightarrow> history_observation option \<Rightarrow> history_status" where
  "historyStatus entry observation =
     (if js_prop entry ''kind'' = JStr ''preparation'' then H_preparation
      else case observation of
        None \<Rightarrow> H_pending
      | Some o' \<Rightarrow>
          if (case ob_error o' of None \<Rightarrow> False | Some e \<Rightarrow> e \<noteq> []) \<or> ob_checking o' then H_pending
          else case ob_outcome o' of
              Some (O_settled, _, _) \<Rightarrow> H_settled
            | Some (O_rejected, rollback, stage) \<Rightarrow>
                if rollback then H_rollback else if stage = Some ''preparation'' then H_preparation else H_rejected
            | _ \<Rightarrow> H_pending)"

section \<open>Reading\<close>

definition uuid_text :: "string \<Rightarrow> bool" where
  "uuid_text s \<longleftrightarrow> length s = 36 \<and> list_all (\<lambda>c. is_hex_digit c \<or> c = CHR ''-'') s"

definition detail_ok :: "js \<Rightarrow> bool" where
  "detail_ok v = (case v of JStr s \<Rightarrow> int (length s) \<le> 2000 | _ \<Rightarrow> False)"

definition read_submission :: "history_lib \<Rightarrow> treasury_config \<Rightarrow> string \<Rightarrow> js_object \<Rightarrow> js_error + history_entry" where
  "read_submission lib c key entry =
     (let intent = js_prop entry ''intent'' in
      res_bind (historyConfig (hl_treasury lib) c intent) (\<lambda>c'.
      res_bind (reparsed intent) (\<lambda>v. res_bind (readIntent (hl_treasury lib) c' v) (\<lambda>i.
      if \<not> has_payment i then throw ''Payment history identity mismatch''
      else res_bind (attemptId i) (\<lambda>attempt.
        if attempt \<noteq> key then throw ''Payment history identity mismatch''
        else Inr (read_submitted key (js_prop entry ''recordedAt'') i))))))"

text \<open>\<open>checkedRecordedPayment\<close> of an untyped value; only an object passes.\<close>

definition recorded_payment :: "treasury_lib \<Rightarrow> js \<Rightarrow> js_error + payment" where
  "recorded_payment lib v =
     (case v of
        JObj p \<Rightarrow> checkedRecordedPayment (tl_isAddress lib) (get_address lib) p
      | JArr _ \<Rightarrow> throw ''Invalid payment review''
      | _ \<Rightarrow> if js_truthy v then Inl TypeError else throw ''Invalid payment review'')"

definition read_rejection :: "history_lib \<Rightarrow> string \<Rightarrow> js_object \<Rightarrow> js_error + history_entry" where
  "read_rejection lib key entry =
     (if js_prop entry ''kind'' \<noteq> JStr ''preparation'' \<or> \<not> uuid_text key \<or> \<not> detail_ok (js_prop entry ''detail'')
      then throw ''Invalid preparation history entry''
      else res_bind (recorded_payment (hl_treasury lib) (js_prop entry ''payment'')) (\<lambda>p.
        Inr (read_preparation key (js_prop entry ''recordedAt'') p (js_prop entry ''detail''))))"

definition entry_key :: "history_lib \<Rightarrow> string list \<Rightarrow> js \<Rightarrow> js_error + string" where
  "entry_key lib ids entry =
     (case (entry, js_field entry ''id'', js_field entry ''recordedAt'') of
        (JObj ob, JStr key, JStr at) \<Rightarrow>
          if key \<in> set ids \<or> \<not> hl_dateOk lib at then throw ''Invalid payment history entry'' else Inr key
      | _ \<Rightarrow> throw ''Invalid payment history entry'')"

definition read_entry :: "history_lib \<Rightarrow> treasury_config \<Rightarrow> string \<Rightarrow> js_object \<Rightarrow> js_error + history_entry" where
  "read_entry lib c key entry =
     (if js_prop entry ''kind'' = JStr ''submitted'' then read_submission lib c key entry else read_rejection lib key entry)"

text \<open>\<open>saved.entries.map\<close> with the set of the identifiers that were read before.\<close>

fun read_entries :: "history_lib \<Rightarrow> treasury_config \<Rightarrow> string list \<Rightarrow> js list \<Rightarrow> js_error + history_entry list" where
  "read_entries lib c ids [] = Inr []"
| "read_entries lib c ids (e # es) =
     res_bind (entry_key lib ids e) (\<lambda>key.
     res_bind (read_entry lib c key (case e of JObj ob \<Rightarrow> ob | _ \<Rightarrow> [])) (\<lambda>entry.
     res_bind (read_entries lib c (key # ids) es) (\<lambda>rest. Inr (entry # rest))))"

type_synonym storage_item = "(js_error + js) option" \<comment> \<open>\<^const>\<open>None\<close>: no item\<close>

definition read_history :: "history_lib \<Rightarrow> treasury_config \<Rightarrow> storage_item \<Rightarrow> js_error + history_entry list" where
  "read_history lib c item =
     (case item of
        None \<Rightarrow> Inr []
      | Some parsed \<Rightarrow> res_bind parsed (\<lambda>saved.
          let wrong = throw ''Invalid payment history for this devnet''
          in if js_field saved ''version'' \<noteq> JNum 1 \<or> js_field saved ''instance'' \<noteq> JStr (tr_instance c) then wrong
             else case js_field saved ''entries'' of JArr es \<Rightarrow> read_entries lib c [] es | _ \<Rightarrow> wrong))"

section \<open>Writing\<close>

text \<open>The new content of the item is what the stringified history denotes.\<close>

definition write_history :: "treasury_config \<Rightarrow> history_entry list \<Rightarrow> js_error + history_entry list \<times> storage_item" where
  "write_history c entries =
     res_bind (reparsed (JObj [(''version'', JNum 1), (''instance'', JStr (tr_instance c)), (''entries'', JArr (map JObj entries))]))
       (\<lambda>v. Inr (entries, Some (Inr v)))"

definition submitted_hash :: "history_entry \<Rightarrow> js" where
  "submitted_hash e = (if js_prop e ''kind'' = JStr ''submitted'' then js_field (js_prop e ''intent'') ''hash'' else JUndefined)"

definition next_intent :: "history_entry option \<Rightarrow> js_object \<Rightarrow> js_object" where
  "next_intent old i =
     (case old of None \<Rightarrow> i | Some e \<Rightarrow> if js_truthy (submitted_hash e) then jmap_set ''hash'' (submitted_hash e) i else i)"

definition next_entry :: "string \<Rightarrow> string \<Rightarrow> history_entry option \<Rightarrow> js_object \<Rightarrow> history_entry" where
  "next_entry now key old i =
     [(''id'', JStr key), (''kind'', JStr ''submitted''),
      (''recordedAt'', (case old of None \<Rightarrow> JStr now | Some e \<Rightarrow> js_coalesce (js_prop e ''recordedAt'') (JStr now))),
      (''intent'', JObj (next_intent old i))]"

definition same_json :: "js_object \<Rightarrow> js_object \<Rightarrow> bool" where
  "same_json a b \<longleftrightarrow> json_value (JObj a) = json_value (JObj b)"

definition conflicting :: "history_entry option \<Rightarrow> js_object \<Rightarrow> bool" where
  "conflicting old i = (case old of None \<Rightarrow> False | Some e \<Rightarrow>
     js_truthy (submitted_hash e) \<and> js_truthy (js_prop i ''hash'') \<and> \<not> js_strict_eq (submitted_hash e) (js_prop i ''hash''))"

text \<open>\<open>entries.findIndex(e => e.id === id)\<close> and the replacement at that index, or a push.\<close>

definition is_entry :: "string \<Rightarrow> history_entry \<Rightarrow> bool" where
  "is_entry key e \<longleftrightarrow> js_prop e ''id'' = JStr key"

fun put_entry :: "string \<Rightarrow> history_entry \<Rightarrow> history_entry list \<Rightarrow> history_entry list" where
  "put_entry key new [] = [new]"
| "put_entry key new (e # es) = (if is_entry key e then new # es else e # put_entry key new es)"

definition remember_payment ::
  "history_lib \<Rightarrow> treasury_config \<Rightarrow> string \<Rightarrow> js_object \<Rightarrow> storage_item \<Rightarrow> js_error + history_entry list \<times> storage_item" where
  "remember_payment lib c now i item =
     res_bind (read_history lib c item) (\<lambda>entries.
       if \<not> has_payment i then Inr (entries, item)
       else res_bind (historyConfig (hl_treasury lib) c (JObj i)) (\<lambda>c'.
            res_bind (reparsed (JObj i)) (\<lambda>v. res_bind (readIntent (hl_treasury lib) c' v) (\<lambda>_.
            res_bind (attemptId i) (\<lambda>key.
              let old = find (is_entry key) entries; new = next_entry now key old i
              in if conflicting old i then throw ''Conflicting transaction hashes for a saved payment attempt''
                 else if (case old of None \<Rightarrow> False | Some e \<Rightarrow> same_json e new) then Inr (entries, item)
                 else write_history c (put_entry key new entries))))))"

definition reject_payment ::
  "history_lib \<Rightarrow> treasury_config \<Rightarrow> string \<Rightarrow> string \<Rightarrow> payment \<Rightarrow> string \<Rightarrow> storage_item
    \<Rightarrow> js_error + history_entry list \<times> storage_item" where
  "reject_payment lib c now uuid p detail item =
     res_bind (read_history lib c item) (\<lambda>entries.
     res_bind (checkedPayment (tl_isAddress (hl_treasury lib)) (get_address (hl_treasury lib)) p) (\<lambda>q.
       write_history c (entries @ [[(''kind'', JStr ''preparation''), (''id'', JStr uuid), (''recordedAt'', JStr now), (''payment'', JObj q),
         (''detail'', JStr (js_slice_to 2000 detail))]])))"

definition cancel_payment ::
  "history_lib \<Rightarrow> treasury_config \<Rightarrow> js_object \<Rightarrow> storage_item \<Rightarrow> js_error + history_entry list \<times> storage_item" where
  "cancel_payment lib c i item =
     res_bind (read_history lib c item) (\<lambda>entries.
     res_bind (attemptId i) (\<lambda>key.
       if js_truthy (js_prop i ''hash'') \<or> (case find (is_entry key) entries of None \<Rightarrow> False | Some e \<Rightarrow> js_truthy (submitted_hash e))
       then throw ''Cannot remove a submitted payment''
       else write_history c (filter (\<lambda>e. \<not> is_entry key e) entries)))"

end
