(* ===== verification/Payment_History_Properties.thy ===== *)
theory Payment_History_Properties
  imports Payment_History
begin

text \<open>
  Facts about the saved payment history: JSON values are read back as they were written, a saved submission
  stays valid when its transaction hash becomes known, and an entry that was read can be written and read again.
\<close>

section \<open>Objects\<close>

lemma js_prop_updated [simp]: "js_prop (jmap_set k v m) k' = (if k' = k then v else js_prop m k')"
  by (simp add: js_prop_def)

lemma prop_text_set [simp]: "prop_text (jmap_set k v m) k' = (if k' = k then js_string v else prop_text m k')"
  by (simp add: prop_text_def)

lemma update_same: "map_of m k = Some v \<Longrightarrow> AList.update k v m = m"
  by (induction m) (auto split: if_splits)

definition same_fields :: "js_object \<Rightarrow> js_object \<Rightarrow> bool" where
  "same_fields a b \<longleftrightarrow> (\<forall>k. js_prop a k = js_prop b k)"

lemma same_fields_refl [simp]: "same_fields a a"
  by (simp add: same_fields_def)

section \<open>JSON\<close>

lemma json_list_id: "json_list vs = Inr vs \<longleftrightarrow> (\<forall>v \<in> set vs. json_value v = Inr (Some v) \<or> json_value v = Inr None \<and> v = JNull)"
  by (induction vs) (auto simp: res_bind_Inr_iff split: option.splits)

lemma json_fields_length: "json_fields kvs = Inr ws \<Longrightarrow> length ws \<le> length kvs"
proof (induction kvs arbitrary: ws)
  case (Cons kv kvs)
  then show ?case by (cases kv) (fastforce simp: res_bind_Inr_iff split: option.splits)
qed simp

lemma json_fields_id: "json_fields kvs = Inr kvs \<longleftrightarrow> (\<forall>(k, v) \<in> set kvs. json_value v = Inr (Some v))"
proof (induction kvs)
  case (Cons kv kvs)
  obtain k v where kv: "kv = (k, v)" by (cases kv)
  have "json_fields kvs \<noteq> Inr ((k, v) # kvs)" using json_fields_length [of kvs "(k, v) # kvs"] by auto
  with Cons kv show ?case by (auto simp: res_bind_Inr_iff split: option.splits)
qed simp

lemma plain_json_simps [simp]:
  "plain_json (JStr s)" "plain_json (JNum n)" "plain_json JNull" "plain_json (JBool b)" "\<not> plain_json JUndefined" "\<not> plain_json (JBig n)"
  by (simp_all add: plain_json_def)

lemma plain_json_arr [simp]: "plain_json (JArr vs) \<longleftrightarrow> (\<forall>v \<in> set vs. plain_json v)"
proof -
  have "\<not> (json_value v = Inr None \<and> v = JNull)" for v by auto
  then show ?thesis by (auto simp: plain_json_def res_bind_Inr_iff json_list_id)
qed

lemma plain_json_obj [simp]: "plain_json (JObj kvs) \<longleftrightarrow> (\<forall>(k, v) \<in> set kvs. plain_json v)"
  by (auto simp: plain_json_def res_bind_Inr_iff json_fields_id)

lemma reparsed_plain [simp]: "plain_json v \<Longrightarrow> reparsed v = Inr v"
  by (simp add: plain_json_def reparsed_def)

lemma plain_json_prop: "plain_json (JObj ob) \<Longrightarrow> js_prop ob k = JUndefined \<or> plain_json (js_prop ob k)"
  unfolding js_prop_def by (auto split: option.split dest!: jmap_get_Some_key)

lemma plain_json_set: "plain_json (JObj ob) \<Longrightarrow> plain_json v \<Longrightarrow> plain_json (JObj (jmap_set k v ob))"
  using set_jmap_set [of k v ob] by auto

section \<open>A saved submission\<close>

lemma readIntent_ok:
  assumes "readIntent lib c v = Inr i"
  shows "v = JObj i \<and> intent_shape lib c i"
proof -
  from assms obtain u where "read_fields v = Inr i" "intent_shape lib c i"
    by (auto simp: readIntent_def res_bind_Inr_iff)
  moreover from this have "i \<noteq> []" by (auto simp: intent_shape_def js_prop_def jmap_get_def)
  ultimately show ?thesis by (auto simp: read_fields_def split: js.splits)
qed

lemma readIntent_hash_iff:
  assumes "digest h" and "js_truthy (js_prop i ''hash'') \<longrightarrow> digest (js_prop i ''hash'')"
  shows "readIntent lib c (JObj (jmap_set ''hash'' h i)) = Inr (jmap_set ''hash'' h i) \<longleftrightarrow> readIntent lib c (JObj i) = Inr i"
proof -
  have shape: "intent_shape lib c (jmap_set ''hash'' h i) = intent_shape lib c i"
    using assms by (simp add: intent_shape_def)
  have tx: "intent_transaction lib c (jmap_set ''hash'' h i) = intent_transaction lib c i"
    by (rule ext) (simp add: intent_transaction_def split: js.split)
  have src: "payment_source (jmap_set ''hash'' h i) = payment_source i" "intent_transport c (jmap_set ''hash'' h i) = intent_transport c i"
    by (simp_all add: payment_source_def intent_transport_def)
  show ?thesis
    unfolding readIntent_def by (simp add: read_fields_def res_bind_Inr_iff shape tx src)
qed

lemma historyConfig_ok:
  assumes "historyConfig lib c v = Inr c'"
  shows "\<exists>v' i. reparsed v = Inr v' \<and> readIntent lib c' v' = Inr i"
  using assms
proof (induction lib c v rule: historyConfig.induct)
  case (1 lib c v)
  show ?case
  proof (cases "res_bind (reparsed v) (readIntent lib c)")
    case (Inl e)
    with 1 show ?thesis by (subst (asm) (2) historyConfig.simps) (auto split: if_splits)
  next
    case (Inr i)
    with 1(2) have "c' = c" by (subst (asm) historyConfig.simps) simp
    with Inr show ?thesis by (auto simp: res_bind_Inr_iff)
  qed
qed

lemma historyConfig_hash:
  fixes lib i i'
  defines "accepts \<equiv> \<lambda>c j. \<exists>r. res_bind (reparsed (JObj j)) (readIntent lib c) = Inr r"
  assumes same: "\<And>c. accepts c i' = accepts c i"
  shows "historyConfig lib c (JObj i) = Inr c' \<Longrightarrow> historyConfig lib c (JObj i') = Inr c'"
proof (induction "older_policies c" arbitrary: c rule: less_induct)
  case less
  show ?case
  proof (cases "accepts c i")
    case True
    then obtain r where "res_bind (reparsed (JObj i)) (readIntent lib c) = Inr r" unfolding accepts_def by blast
    with less(2) have c: "c' = c" by (subst (asm) historyConfig.simps) simp
    from True same have "accepts c i'" by simp
    then obtain r where "res_bind (reparsed (JObj i')) (readIntent lib c) = Inr r" unfolding accepts_def by blast
    then show ?thesis by (subst historyConfig.simps) (simp add: c)
  next
    case False
    then obtain e where e: "res_bind (reparsed (JObj i)) (readIntent lib c) = Inl e"
      unfolding accepts_def by (cases "res_bind (reparsed (JObj i)) (readIntent lib c)") auto
    from False same have "\<not> accepts c i'" by simp
    then obtain e' where e': "res_bind (reparsed (JObj i')) (readIntent lib c) = Inl e'"
      unfolding accepts_def by (cases "res_bind (reparsed (JObj i')) (readIntent lib c)") auto
    from less(2) e have p: "tr_previousPayments c \<noteq> None" and rest: "historyConfig lib (previous_config c) (JObj i) = Inr c'"
      by (auto simp: historyConfig.simps [of lib c "JObj i"] split: if_splits)
    from less(1) [OF previous_config_older [OF p] rest] e' p show ?thesis
      by (subst historyConfig.simps) simp
  qed
qed

text \<open>A submission with the hash of its transaction is accepted by the same policy as without it.\<close>

lemma accepted_with_hash:
  assumes "plain_json (JObj i)" and "digest h" and "historyConfig lib c (JObj i) = Inr c'"
  shows "historyConfig lib c (JObj (jmap_set ''hash'' h i)) = Inr c' \<and> readIntent lib c' (JObj (jmap_set ''hash'' h i)) = Inr (jmap_set ''hash'' h i)"
proof -
  have h: "plain_json h" using assms(2) by (cases h) (simp_all add: digest_def)
  note plain = plain_json_set [OF assms(1) h, of "''hash''"]
  from historyConfig_ok [OF assms(3)] assms(1) obtain j where "readIntent lib c' (JObj i) = Inr j" by auto
  with readIntent_ok have j: "readIntent lib c' (JObj i) = Inr i" by blast
  then have hash: "js_truthy (js_prop i ''hash'') \<longrightarrow> digest (js_prop i ''hash'')"
    using readIntent_ok [OF j] by (simp add: intent_shape_def)
  have only: "(\<exists>r. readIntent lib d (JObj k) = Inr r) \<longleftrightarrow> readIntent lib d (JObj k) = Inr k" for d k
    using readIntent_ok by blast
  have "historyConfig lib c (JObj (jmap_set ''hash'' h i)) = Inr c'"
    by (rule historyConfig_hash [OF _ assms(3)])
       (simp add: reparsed_plain [OF plain] reparsed_plain [OF assms(1)] only readIntent_hash_iff [OF assms(2) hash] del: plain_json_obj)
  with j readIntent_hash_iff [OF assms(2) hash] show ?thesis by simp
qed

section \<open>A recorded payment\<close>

text \<open>What \<open>isAddress\<close> and \<open>getAddress\<close> promise: an address is a text, and its checksummed form is an address, the
  checksummed form of itself and of the same value.\<close>

definition checksum_laws :: "treasury_lib \<Rightarrow> bool" where
  "checksum_laws lib \<longleftrightarrow> (\<forall>v. tl_isAddress lib v \<longrightarrow> (\<exists>s. v = JStr s \<and> tl_isAddress lib (JStr (get_address lib s))
     \<and> get_address lib (get_address lib s) = get_address lib s \<and> string_BigInt (get_address lib s) = string_BigInt s))"

lemma checkedPayment_again:
  assumes "checksum_laws lib" and "checkedPayment (tl_isAddress lib) (get_address lib) p = Inr q"
  shows "checkedPayment (tl_isAddress lib) (get_address lib) q = Inr q"
proof -
  let ?get = "get_address lib" and ?addr = "tl_isAddress lib"
  from checkedPayment_ok [OF assms(2)] have q: "q = with_recipient ?get p" and "?addr (js_prop p ''recipient'')"
    by (simp_all add: payment_ok_def)
  then obtain s where s: "js_prop p ''recipient'' = JStr s" "?addr (JStr (?get s))" "?get (?get s) = ?get s" "string_BigInt (?get s) = string_BigInt s"
    using assms(1) unfolding checksum_laws_def by blast
  have fields: "js_prop q k = (if k = ''recipient'' then JStr (?get s) else js_prop p k)" for k by (simp add: q s)
  have key: "has_key q k = (k = ''recipient'' \<or> has_key p k)" for k by (simp add: q)
  have self: "with_recipient ?get q = q"
  proof -
    have "map_of q ''recipient'' = Some (JStr (?get s))"
      using jm.get_put [of "''recipient''" "JStr (?get s)" p] by (simp add: q with_recipient_def s jmap_get_def)
    then show ?thesis by (simp add: with_recipient_def fields s(3) jmap_set_def update_same)
  qed
  have route: "checked_route q a = checked_route p a" for a unfolding checked_route_def Let_def by (simp add: fields key)
  have transfer: "checked_transfer ?get p = Inr q \<Longrightarrow> checked_transfer ?get q = Inr q"
    using self q unfolding checked_transfer_def Let_def by (auto simp: fields key res_bind_Inr_iff split: if_splits)
  show ?thesis
  proof (cases "js_prop p ''kind'' = JStr ''transfer''")
    case True
    with assms(2) s have "checked_transfer ?get p = Inr q"
      by (auto simp: checkedPayment_def Let_def res_bind_Inr_iff split: if_splits)
    with transfer True assms(2) s show ?thesis
      by (auto simp: checkedPayment_def Let_def res_bind_Inr_iff fields key split: if_splits)
  next
    case False
    with assms(2) s self show ?thesis
      by (auto simp: checkedPayment_def Let_def res_bind_Inr_iff fields key route split: if_splits)
  qed
qed

lemma recorded_payment_again:
  assumes "checksum_laws lib" and "recorded_payment lib v = Inr q"
  shows "recorded_payment lib (JObj q) = Inr q"
proof -
  obtain p where v: "v = JObj p" and c: "checkedRecordedPayment (tl_isAddress lib) (get_address lib) p = Inr q"
    using assms(2) by (auto simp: recorded_payment_def split: js.splits if_splits)
  show ?thesis
  proof (cases "has_key p ''funding''")
    case True
    with c have "q = p" by (auto simp: checkedRecordedPayment_def Let_def res_bind_Inr_iff split: if_splits)
    with c show ?thesis by (simp add: recorded_payment_def)
  next
    case False
    then have p: "checkedPayment (tl_isAddress lib) (get_address lib) p = Inr q" using c by (simp add: checkedRecordedPayment_def)
    with checkedPayment_ok False have "\<not> has_key q ''funding''" by fastforce
    with checkedPayment_again [OF assms(1) p] show ?thesis by (simp add: recorded_payment_def checkedRecordedPayment_def)
  qed
qed

lemma recorded_payment_plain:
  assumes "recorded_payment lib v = Inr q" and "plain_json v"
  shows "plain_json (JObj q)"
proof -
  obtain p where v: "v = JObj p" and c: "checkedRecordedPayment (tl_isAddress lib) (get_address lib) p = Inr q"
    using assms(1) by (auto simp: recorded_payment_def split: js.splits if_splits)
  have "q = p \<or> q = with_recipient (get_address lib) p"
    using c checkedPayment_ok [of "tl_isAddress lib" "get_address lib" p q]
    by (auto simp: checkedRecordedPayment_def Let_def res_bind_Inr_iff split: if_splits)
  with assms(2) v plain_json_set [of p "JStr (get_address lib (js_string (js_prop p ''recipient'')))" "''recipient''"] show ?thesis
    by (auto simp: with_recipient_def simp del: plain_json_obj)
qed

text \<open>
  The saved payment history stays readable under every operation, reads back what was written, and never loses
  the transaction hash of a submitted payment.
\<close>

section \<open>Good entries\<close>

text \<open>An entry that can be written and read again under its key.\<close>

definition good_entry :: "history_lib \<Rightarrow> treasury_config \<Rightarrow> string \<Rightarrow> history_entry \<Rightarrow> bool" where
  "good_entry lib c key e \<longleftrightarrow> js_prop e ''id'' = JStr key \<and> (\<exists>at. js_prop e ''recordedAt'' = JStr at \<and> hl_dateOk lib at)
     \<and> plain_json (JObj e) \<and> (\<exists>r. read_entry lib c key e = Inr r \<and> same_fields r e)"

definition key_of :: "history_entry \<Rightarrow> string" where
  "key_of e = prop_text e ''id''"

definition good_entries :: "history_lib \<Rightarrow> treasury_config \<Rightarrow> history_entry list \<Rightarrow> bool" where
  "good_entries lib c es \<longleftrightarrow> (\<forall>e \<in> set es. good_entry lib c (key_of e) e) \<and> distinct (map key_of es)"

lemma good_entry_key: "good_entry lib c key e \<Longrightarrow> key_of e = key"
  by (simp add: good_entry_def key_of_def prop_text_def)

lemma has_id_key: "good_entry lib c key e \<Longrightarrow> is_entry k e \<longleftrightarrow> k = key"
  by (auto simp: good_entry_def is_entry_def)

lemma entry_key_good:
  assumes "js_prop e ''id'' = JStr key" and "js_prop e ''recordedAt'' = JStr at" and "hl_dateOk lib at" and "key \<notin> set ids"
  shows "entry_key lib ids (JObj e) = Inr key"
  using assms by (simp add: entry_key_def js_field_def)

lemma entry_key_ok:
  assumes "entry_key lib ids v = Inr key"
  shows "\<exists>ob at. v = JObj ob \<and> js_prop ob ''id'' = JStr key \<and> js_prop ob ''recordedAt'' = JStr at \<and> hl_dateOk lib at \<and> key \<notin> set ids"
  using assms by (auto simp: entry_key_def js_field_def split: js.splits if_splits)

lemma read_submitted_props [simp]:
  "js_prop (read_submitted key at i) k =
     (if k = ''id'' then JStr key else if k = ''recordedAt'' then at else if k = ''kind'' then JStr ''submitted''
      else if k = ''intent'' then JObj i else JUndefined)"
  by (simp add: read_submitted_def js_prop_def jmap_get_def)

lemma read_preparation_props [simp]:
  "js_prop (read_preparation key at p detail) k =
     (if k = ''id'' then JStr key else if k = ''recordedAt'' then at else if k = ''kind'' then JStr ''preparation''
      else if k = ''payment'' then JObj p else if k = ''detail'' then detail else JUndefined)"
  by (simp add: read_preparation_def js_prop_def jmap_get_def)

lemma read_submission_ok:
  assumes "read_submission lib c key e = Inr r" and "plain_json (JObj e)"
  shows "\<exists>i c'. js_prop e ''intent'' = JObj i \<and> plain_json (JObj i) \<and> r = read_submitted key (js_prop e ''recordedAt'') i
    \<and> historyConfig (hl_treasury lib) c (JObj i) = Inr c' \<and> readIntent (hl_treasury lib) c' (JObj i) = Inr i \<and> has_payment i
    \<and> attemptId i = Inr key"
proof -
  let ?v = "js_prop e ''intent''"
  from assms(1) obtain c' v i where h: "historyConfig (hl_treasury lib) c ?v = Inr c'" "reparsed ?v = Inr v"
    "readIntent (hl_treasury lib) c' v = Inr i" "has_payment i" "attemptId i = Inr key" "r = read_submitted key (js_prop e ''recordedAt'') i"
    by (auto simp: read_submission_def Let_def res_bind_Inr_iff split: if_splits)
  have "?v \<noteq> JUndefined" using h(2) by (auto simp: reparsed_def)
  with plain_json_prop [OF assms(2), of "''intent''"] have plain: "plain_json ?v" by simp
  then have "v = ?v" using h(2) by simp
  with readIntent_ok [OF h(3)] have "?v = JObj i" by simp
  with h plain \<open>v = ?v\<close> show ?thesis by auto
qed

lemma read_submission_again:
  assumes "historyConfig (hl_treasury lib) c (JObj i) = Inr c'" and "readIntent (hl_treasury lib) c' (JObj i) = Inr i"
    and "has_payment i" and "attemptId i = Inr key" and "plain_json (JObj i)" and "js_prop e ''intent'' = JObj i"
  shows "read_submission lib c key e = Inr (read_submitted key (js_prop e ''recordedAt'') i)"
  using assms by (simp add: read_submission_def del: plain_json_obj)

lemma read_entry_good:
  assumes laws: "checksum_laws (hl_treasury lib)" and "read_entry lib c key e = Inr r" and plain: "plain_json (JObj e)"
    and "js_prop e ''recordedAt'' = JStr at" and "hl_dateOk lib at"
  shows "good_entry lib c key r"
proof (cases "js_prop e ''kind'' = JStr ''submitted''")
  case True
  with assms(2) have "read_submission lib c key e = Inr r" by (simp add: read_entry_def)
  from read_submission_ok [OF this plain] obtain i c' where i: "plain_json (JObj i)" "r = read_submitted key (JStr at) i"
    "historyConfig (hl_treasury lib) c (JObj i) = Inr c'" "readIntent (hl_treasury lib) c' (JObj i) = Inr i" "has_payment i" "attemptId i = Inr key"
    using assms(4) by auto
  have "read_entry lib c key r = Inr r"
    using read_submission_again [OF i(3-6) i(1), of r] i(2) by (simp add: read_entry_def)
  moreover have "plain_json (JObj r)" using i(1,2) by (simp add: read_submitted_def)
  ultimately show ?thesis using i(2) assms(5) by (simp add: good_entry_def del: plain_json_obj)
next
  case False
  with assms(2) obtain p where p: "uuid_text key" "detail_ok (js_prop e ''detail'')"
    "recorded_payment (hl_treasury lib) (js_prop e ''payment'') = Inr p" "r = read_preparation key (JStr at) p (js_prop e ''detail'')"
    using assms(4) by (auto simp: read_entry_def read_rejection_def res_bind_Inr_iff split: if_splits)
  have d: "plain_json (js_prop e ''detail'')" using p(2) by (auto simp: detail_ok_def split: js.splits)
  have "js_prop e ''payment'' \<noteq> JUndefined" using p(3) by (auto simp: recorded_payment_def)
  with plain_json_prop [OF plain, of "''payment''"] have "plain_json (JObj p)"
    using recorded_payment_plain [OF p(3)] by simp
  then have "plain_json (JObj r)" using d p(4) by (simp add: read_preparation_def)
  moreover have "read_entry lib c key r = Inr r"
    using p recorded_payment_again [OF laws p(3)] by (simp add: read_entry_def read_rejection_def)
  ultimately show ?thesis using p(4) assms(5) by (simp add: good_entry_def del: plain_json_obj)
qed

lemma read_entries_good:
  assumes "checksum_laws (hl_treasury lib)"
  shows "read_entries lib c ids vs = Inr es \<Longrightarrow> \<forall>v \<in> set vs. plain_json v \<Longrightarrow>
    good_entries lib c es \<and> (\<forall>e \<in> set es. key_of e \<notin> set ids)"
proof (induction vs arbitrary: ids es)
  case (Cons v vs)
  then obtain key r rest where k: "entry_key lib ids v = Inr key"
    and r: "read_entry lib c key (case v of JObj ob \<Rightarrow> ob | _ \<Rightarrow> []) = Inr r"
    and rest: "read_entries lib c (key # ids) vs = Inr rest" and es: "es = r # rest"
    by (auto simp: res_bind_Inr_iff)
  from entry_key_ok [OF k] obtain ob at where v: "v = JObj ob" "js_prop ob ''recordedAt'' = JStr at" "hl_dateOk lib at" "key \<notin> set ids" by blast
  have ob: "plain_json (JObj ob)" using Cons.prems(2) v(1) by simp
  have "read_entry lib c key ob = Inr r" using r v(1) by simp
  from read_entry_good [OF assms this ob v(2,3)] have good: "good_entry lib c key r" .
  have rest': "good_entries lib c rest" "\<forall>e \<in> set rest. key_of e \<notin> set (key # ids)"
    using Cons.IH [OF rest] Cons.prems(2) by auto
  then have "key \<notin> key_of ` set rest" "\<forall>e \<in> set rest. key_of e \<notin> set ids" by auto
  with good rest'(1) good_entry_key [OF good] v(4) es show ?case by (auto simp: good_entries_def)
qed (simp add: good_entries_def)

lemma read_entries_again:
  "good_entries lib c es \<Longrightarrow> (\<forall>e \<in> set es. key_of e \<notin> set ids) \<Longrightarrow>
     \<exists>rs. read_entries lib c ids (map JObj es) = Inr rs \<and> list_all2 same_fields rs es"
proof (induction es arbitrary: ids)
  case (Cons e es)
  then have g: "good_entry lib c (key_of e) e" by (simp add: good_entries_def)
  then obtain at r where at: "js_prop e ''id'' = JStr (key_of e)" "js_prop e ''recordedAt'' = JStr at" "hl_dateOk lib at"
    and r: "read_entry lib c (key_of e) e = Inr r" "same_fields r e" by (auto simp: good_entry_def)
  have "entry_key lib ids (JObj e) = Inr (key_of e)" using entry_key_good [OF at] Cons.prems by simp
  moreover have "\<forall>x \<in> set es. key_of x \<notin> set (key_of e # ids)"
  proof
    fix x assume "x \<in> set es"
    moreover have "key_of e \<notin> key_of ` set es" using Cons.prems(1) by (simp add: good_entries_def)
    ultimately have "key_of x \<noteq> key_of e" by (metis imageI)
    with Cons.prems(2) \<open>x \<in> set es\<close> show "key_of x \<notin> set (key_of e # ids)" by simp
  qed
  with Cons.IH [of "key_of e # ids"] Cons.prems obtain rs where
    "read_entries lib c (key_of e # ids) (map JObj es) = Inr rs" "list_all2 same_fields rs es"
    by (auto simp: good_entries_def)
  ultimately show ?case using r by simp
qed simp

section \<open>The stored item\<close>

definition plain_item :: "storage_item \<Rightarrow> bool" where
  "plain_item item = (case item of Some (Inr v) \<Rightarrow> plain_json v | _ \<Rightarrow> True)"

text \<open>A stored history: it is what a text denotes, and it is readable.\<close>

definition history_ok :: "history_lib \<Rightarrow> treasury_config \<Rightarrow> storage_item \<Rightarrow> bool" where
  "history_ok lib c item \<longleftrightarrow> plain_item item \<and> (\<exists>es. read_history lib c item = Inr es)"

lemma read_history_good:
  assumes "checksum_laws (hl_treasury lib)" and "read_history lib c item = Inr es" and "plain_item item"
  shows "good_entries lib c es"
proof (cases item)
  case None
  with assms(2) show ?thesis by (simp add: read_history_def good_entries_def)
next
  case (Some parsed)
  with assms(2) obtain v where p: "parsed = Inr v" by (cases parsed) (auto simp: read_history_def)
  with Some assms(2) obtain vs where v: "parsed = Inr v" "js_field v ''entries'' = JArr vs" "read_entries lib c [] vs = Inr es"
    by (cases "js_field v ''entries''") (auto simp: read_history_def Let_def split: if_splits)
  then obtain ob where "v = JObj ob" by (auto simp: js_field_def split: js.splits)
  with assms(3) Some v plain_json_prop [of ob "''entries''"] have "plain_json (JArr vs)"
    by (auto simp: plain_item_def js_field_def simp del: plain_json_obj plain_json_arr)
  with read_entries_good [OF assms(1) v(3)] show ?thesis by simp
qed

lemma write_read:
  assumes "good_entries lib c es"
  shows "\<exists>item rs. write_history c es = Inr (es, item) \<and> plain_item item \<and> read_history lib c item = Inr rs \<and> list_all2 same_fields rs es"
proof -
  let ?v = "JObj [(''version'', JNum 1), (''instance'', JStr (tr_instance c)), (''entries'', JArr (map JObj es))]"
  have "\<forall>e \<in> set es. plain_json (JObj e)" using assms by (auto simp: good_entries_def good_entry_def simp del: plain_json_obj)
  then have v: "plain_json ?v" by auto
  then have w: "write_history c es = Inr (es, Some (Inr ?v))" by (simp add: write_history_def del: plain_json_obj)
  have f: "js_field ?v ''version'' = JNum 1" "js_field ?v ''instance'' = JStr (tr_instance c)" "js_field ?v ''entries'' = JArr (map JObj es)"
    by (simp_all add: js_field_def js_prop_def jmap_get_def)
  from read_entries_again [OF assms, of "[]"] obtain rs where "read_entries lib c [] (map JObj es) = Inr rs" "list_all2 same_fields rs es" by auto
  with w v f show ?thesis by (auto simp: read_history_def plain_item_def simp del: plain_json_obj)
qed

text \<open>The entries of a stored history, and those with a transaction hash.\<close>

definition same_submission :: "history_entry \<Rightarrow> history_entry \<Rightarrow> bool" where
  "same_submission a b \<longleftrightarrow> js_prop a ''id'' = js_prop b ''id'' \<and> submitted_hash a = submitted_hash b"

lemma same_fields_submission: "same_fields a b \<Longrightarrow> same_submission a b"
  by (simp add: same_fields_def same_submission_def submitted_hash_def)

definition hashes_kept :: "history_entry list \<Rightarrow> history_entry list \<Rightarrow> bool" where
  "hashes_kept es es' \<longleftrightarrow> (\<forall>e \<in> set es. js_truthy (submitted_hash e) \<longrightarrow> (\<exists>e' \<in> set es'. same_submission e e'))"

lemma hashes_kept_refl: "hashes_kept es es"
  by (auto simp: hashes_kept_def same_submission_def)

lemma hashes_kept_trans:
  assumes "hashes_kept es es'" and "hashes_kept es' es''"
  shows "hashes_kept es es''"
  unfolding hashes_kept_def
proof (intro ballI impI)
  fix e assume "e \<in> set es" "js_truthy (submitted_hash e)"
  with assms(1) obtain e' where e': "e' \<in> set es'" "same_submission e e'" unfolding hashes_kept_def by blast
  with \<open>js_truthy (submitted_hash e)\<close> have "js_truthy (submitted_hash e')" by (simp add: same_submission_def)
  with e' assms(2) obtain e'' where "e'' \<in> set es''" "same_submission e' e''" unfolding hashes_kept_def by blast
  with e'(2) show "\<exists>e'' \<in> set es''. same_submission e e''" by (auto simp: same_submission_def)
qed

lemma hashes_kept_read: "list_all2 same_fields rs es \<Longrightarrow> hashes_kept es rs"
  unfolding hashes_kept_def
  by (metis in_set_conv_nth list_all2_lengthD list_all2_nthD2 same_fields_submission same_submission_def)

section \<open>Remembering a submission\<close>

lemma next_entry_props [simp]:
  "js_prop (next_entry now key old i) k =
     (if k = ''id'' then JStr key else if k = ''kind'' then JStr ''submitted''
      else if k = ''recordedAt'' then (case old of None \<Rightarrow> JStr now | Some e \<Rightarrow> js_coalesce (js_prop e ''recordedAt'') (JStr now))
      else if k = ''intent'' then JObj (next_intent old i) else JUndefined)"
  by (simp add: next_entry_def js_prop_def jmap_get_def)

lemma submitted_hash_next: "submitted_hash (next_entry now key old i) = js_prop (next_intent old i) ''hash''"
  by (simp add: submitted_hash_def js_field_def)

lemma digest_truthy: "digest v \<Longrightarrow> js_truthy v"
  by (cases v) (auto simp: digest_def is_hex_of_def)

text \<open>The hash of an entry that was read is the digest of a transaction.\<close>

lemma good_hash:
  assumes "good_entry lib c key e" and "js_truthy (submitted_hash e)"
  shows "digest (submitted_hash e)"
proof -
  from assms(1) obtain r where r: "read_entry lib c key e = Inr r" and plain: "plain_json (JObj e)" unfolding good_entry_def by blast
  have k: "js_prop e ''kind'' = JStr ''submitted''" using assms(2) by (auto simp: submitted_hash_def split: if_splits)
  with r have "read_submission lib c key e = Inr r" by (simp add: read_entry_def)
  from read_submission_ok [OF this plain] obtain i c' where i: "js_prop e ''intent'' = JObj i" "readIntent (hl_treasury lib) c' (JObj i) = Inr i" by blast
  then show ?thesis using readIntent_ok [OF i(2)] assms(2) k by (simp add: intent_shape_def submitted_hash_def js_field_def)
qed

lemma next_intent_cases:
  assumes "\<And>e. old = Some e \<Longrightarrow> good_entry lib c key e"
  obtains "next_intent old i = i" "\<And>e. old = Some e \<Longrightarrow> \<not> js_truthy (submitted_hash e)"
  | e where "old = Some e" "digest (submitted_hash e)" "next_intent old i = jmap_set ''hash'' (submitted_hash e) i"
proof (cases old)
  case None
  then show ?thesis using that(1) by (simp add: next_intent_def)
next
  case (Some e)
  show ?thesis
  proof (cases "js_truthy (submitted_hash e)")
    case True
    with Some that(2) good_hash [OF assms [OF Some]] show ?thesis by (simp add: next_intent_def)
  next
    case False
    with Some that(1) show ?thesis by (simp add: next_intent_def)
  qed
qed

lemma attemptId_hash: "attemptId (jmap_set ''hash'' h i) = attemptId i"
  by (simp add: attemptId_def)

lemma next_entry_good:
  assumes accepted: "historyConfig (hl_treasury lib) c (JObj i) = Inr c'" "readIntent (hl_treasury lib) c' (JObj i) = Inr i"
    and i: "has_payment i" "attemptId i = Inr key" "plain_json (JObj i)" and now: "hl_dateOk lib now"
    and old: "\<And>e. old = Some e \<Longrightarrow> good_entry lib c key e"
  shows "good_entry lib c key (next_entry now key old i)"
proof -
  let ?j = "next_intent old i" and ?e = "next_entry now key old i"
  have j: "historyConfig (hl_treasury lib) c (JObj ?j) = Inr c' \<and> readIntent (hl_treasury lib) c' (JObj ?j) = Inr ?j \<and> has_payment ?j
    \<and> attemptId ?j = Inr key \<and> plain_json (JObj ?j)"
  proof -
    consider (plain) "?j = i" | (hashed) e where "old = Some e" "digest (submitted_hash e)" "?j = jmap_set ''hash'' (submitted_hash e) i"
      by (rule next_intent_cases [of old lib c key i]) (use old in auto)
    then show ?thesis
    proof cases
    case plain
    with accepted i show ?thesis by simp
  next
    case (hashed e)
    have "plain_json (submitted_hash e)" using hashed(2) by (cases "submitted_hash e") (simp_all add: digest_def)
    with plain_json_set [OF i(3)] accepted_with_hash [OF i(3) hashed(2) accepted(1)] i(1,2) hashed(3) show ?thesis
      by (simp add: attemptId_hash has_payment_def del: plain_json_obj)
    qed
  qed
  obtain at where at: "js_prop ?e ''recordedAt'' = JStr at" "hl_dateOk lib at"
  proof (cases old)
    case None
    with that now show ?thesis by simp
  next
    case (Some e)
    with old [OF Some] that show ?thesis by (auto simp: good_entry_def js_coalesce_def)
  qed
  have "read_submission lib c key ?e = Inr (read_submitted key (JStr at) ?j)"
    using read_submission_again [of lib c ?j c' key ?e] j at(1) by simp
  then have "read_entry lib c key ?e = Inr (read_submitted key (JStr at) ?j)" by (simp add: read_entry_def)
  moreover have "same_fields (read_submitted key (JStr at) ?j) ?e" using at(1) by (auto simp: same_fields_def)
  moreover have "plain_json (JObj ?e)" using j at(1) by (auto simp: next_entry_def js_prop_def jmap_get_def)
  ultimately show ?thesis using at by (auto simp: good_entry_def simp del: plain_json_obj)
qed

lemma put_entry_keys: "is_entry key new \<Longrightarrow> set (put_entry key new es) \<subseteq> insert new (set es)"
  by (induction es) auto

lemma put_entry_new: "new \<in> set (put_entry key new es)"
  by (induction es) auto

lemma put_entry_others: "e \<in> set es \<Longrightarrow> \<not> is_entry key e \<Longrightarrow> e \<in> set (put_entry key new es)"
  by (induction es) auto

lemma put_entry_good:
  assumes "good_entries lib c es" and "good_entry lib c key new"
  shows "good_entries lib c (put_entry key new es)"
  using assms(1)
proof (induction es)
  case Nil
  with assms(2) good_entry_key [OF assms(2)] show ?case by (simp add: good_entries_def)
next
  case (Cons e es)
  have e: "good_entry lib c (key_of e) e" and rest: "good_entries lib c es" and fresh: "key_of e \<notin> key_of ` set es"
    using Cons.prems by (simp_all add: good_entries_def)
  show ?case
  proof (cases "is_entry key e")
    case True
    with has_id_key [OF e] have "key_of e = key" by simp
    with True Cons.prems assms(2) good_entry_key [OF assms(2)] show ?thesis by (simp add: good_entries_def)
  next
    case False
    with has_id_key [OF e] have "key_of e \<noteq> key" by simp
    moreover have "set (put_entry key new es) \<subseteq> insert new (set es)" using assms(2) by (intro put_entry_keys) (simp add: good_entry_def is_entry_def)
    ultimately have "key_of e \<notin> key_of ` set (put_entry key new es)"
      using fresh good_entry_key [OF assms(2)] by (auto dest!: subsetD)
    with False Cons.IH [OF rest] e show ?thesis by (simp add: good_entries_def)
  qed
qed

lemma find_good:
  assumes "good_entries lib c es" and "find (is_entry key) es = Some e"
  shows "e \<in> set es \<and> good_entry lib c key e"
proof -
  from assms(2) have e: "e \<in> set es" "is_entry key e" by (auto simp: find_Some_iff)
  with assms(1) have g: "good_entry lib c (key_of e) e" by (simp add: good_entries_def)
  with has_id_key [OF g] e show ?thesis by simp
qed

lemma same_key_eq:
  assumes "good_entries lib c es" and "e \<in> set es" and "e' \<in> set es" and "key_of e = key_of e'"
  shows "e = e'"
  using assms by (auto simp: good_entries_def distinct_map dest: inj_onD)

end
