(* ===== verification/Payment_History_Invariant.thy ===== *)
theory Payment_History_Invariant
  imports Payment_History_Properties
begin

text \<open>
  What the operations of the payment history guarantee: a remembered submission is read back, every operation
  keeps the stored history readable, and no sequence of operations loses the hash of a submitted payment.
\<close>

section \<open>The operations\<close>

lemma same_json_eq:
  assumes "plain_json (JObj a)" and "plain_json (JObj b)" and "same_json a b"
  shows "a = b"
  using assms unfolding plain_json_def same_json_def by simp

lemma put_entry_hashes:
  assumes good: "good_entries lib c es" and new: "good_entry lib c key new"
    and "\<And>e. find (is_entry key) es = Some e \<Longrightarrow> js_truthy (submitted_hash e) \<Longrightarrow> submitted_hash new = submitted_hash e"
  shows "hashes_kept es (put_entry key new es)"
  unfolding hashes_kept_def
proof (intro ballI impI)
  fix e assume e: "e \<in> set es" "js_truthy (submitted_hash e)"
  show "\<exists>e' \<in> set (put_entry key new es). same_submission e e'"
  proof (cases "is_entry key e")
    case True
    then obtain e0 where f: "find (is_entry key) es = Some e0" using e(1) by (cases "find (is_entry key) es") (auto simp: find_None_iff)
    from find_good [OF good f] True e good_entry_key have "key_of e0 = key_of e"
      using good unfolding good_entries_def by (metis has_id_key)
    with same_key_eq [OF good _ e(1)] find_good [OF good f] have "e0 = e" by blast
    with assms(3) [OF f] e(2) have "submitted_hash new = submitted_hash e" by simp
    moreover have "js_prop e ''id'' = js_prop new ''id''" using True new by (simp add: is_entry_def good_entry_def)
    ultimately show ?thesis using put_entry_new [of new key es] by (auto simp: same_submission_def)
  next
    case False
    with put_entry_others [OF e(1)] show ?thesis by (auto simp: same_submission_def)
  qed
qed

text \<open>The entry that \<open>remember\<close> makes has the hash the attempt already had, or else that of the submission.\<close>

lemma next_hash:
  assumes "find (is_entry key) es = Some e" and "js_truthy (submitted_hash e)"
  shows "submitted_hash (next_entry now key (find (is_entry key) es) i) = submitted_hash e"
  using assms by (simp add: submitted_hash_next next_intent_def)

lemma remember_ok:
  assumes laws: "checksum_laws (hl_treasury lib)" and item: "plain_item item" and plain: "plain_json (JObj i)" and now: "hl_dateOk lib now"
    and run: "remember_payment lib c now i item = Inr (es', item')" and read: "read_history lib c item = Inr es" and p: "has_payment i"
  shows "\<exists>key rs. attemptId i = Inr key \<and> plain_item item' \<and> read_history lib c item' = Inr rs \<and> list_all2 same_fields rs es'
    \<and> hashes_kept es es' \<and> (\<forall>e \<in> set es. \<not> is_entry key e \<longrightarrow> e \<in> set es')
    \<and> (\<exists>e \<in> set es'. is_entry key e \<and> js_prop e ''intent'' = JObj (next_intent (find (is_entry key) es) i))"
proof -
  note good = read_history_good [OF laws read item]
  from run read p obtain c' r key where h: "historyConfig (hl_treasury lib) c (JObj i) = Inr c'"
    "readIntent (hl_treasury lib) c' (JObj i) = Inr r" "attemptId i = Inr key"
    and nc: "\<not> conflicting (find (is_entry key) es) i"
    and w: "(if (case find (is_entry key) es of None \<Rightarrow> False | Some e \<Rightarrow> same_json e (next_entry now key (find (is_entry key) es) i))
      then Inr (es, item) else write_history c (put_entry key (next_entry now key (find (is_entry key) es) i) es)) = Inr (es', item')"
    by (auto simp: remember_payment_def res_bind_Inr_iff Let_def reparsed_plain [OF plain] simp del: plain_json_obj split: if_splits)
  let ?old = "find (is_entry key) es" and ?new = "next_entry now key (find (is_entry key) es) i"
  have i: "readIntent (hl_treasury lib) c' (JObj i) = Inr i" using h(2) readIntent_ok by blast
  have new: "good_entry lib c key ?new"
    using next_entry_good [OF h(1) i p h(3) plain now] find_good [OF good] by blast
  have id_new: "is_entry key ?new" "js_prop ?new ''intent'' = JObj (next_intent ?old i)" by (simp_all add: is_entry_def)
  show ?thesis
  proof (cases "case ?old of None \<Rightarrow> False | Some e \<Rightarrow> same_json e ?new")
    case True
    then obtain e where e: "?old = Some e" "same_json e ?new" by (auto split: option.splits)
    from find_good [OF good e(1)] have "e \<in> set es" "plain_json (JObj e)" by (auto simp: good_entry_def simp del: plain_json_obj)
    moreover have "plain_json (JObj ?new)" using new by (simp add: good_entry_def del: plain_json_obj)
    ultimately have "?new \<in> set es" using same_json_eq [OF _ _ e(2)] by simp
    moreover have "list_all2 same_fields es es" by (simp add: list.rel_refl)
    ultimately show ?thesis using w True h(3) item read hashes_kept_refl id_new by auto
  next
    case False
    with w have w': "write_history c (put_entry key ?new es) = Inr (es', item')" by simp
    note good' = put_entry_good [OF good new]
    from write_read [OF good'] w' obtain rs where r: "es' = put_entry key ?new es" "plain_item item'"
      "read_history lib c item' = Inr rs" "list_all2 same_fields rs es'" by auto
    have kept: "hashes_kept es es'" unfolding r(1) using put_entry_hashes [OF good new] next_hash by blast
    show ?thesis
      by (rule exI [of _ key], rule exI [of _ rs]) (use h(3) r kept put_entry_others put_entry_new id_new in auto)
  qed
qed

text \<open>C39. Remembering a submitted payment makes the storage hold a history that is read back as the returned
  entries: it has the attempt under its identifier, with the submission and the transaction hash that was known for
  it before, if any; every other entry is kept, and no known transaction hash of a submission is lost.\<close>
theorem remembered_payment_read_back:
  assumes "checksum_laws (hl_treasury lib)" and "plain_item item" and "plain_json (JObj i)" and "hl_dateOk lib now"
    and "read_history lib c item = Inr es" and "has_payment i" and "remember_payment lib c now i item = Inr (es', item')"
  shows "\<exists>key rs. attemptId i = Inr key \<and> read_history lib c item' = Inr rs \<and> list_all2 same_fields rs es'
    \<and> (\<exists>e \<in> set es'. is_entry key e \<and> js_prop e ''intent'' = JObj (next_intent (find (is_entry key) es) i))
    \<and> (\<forall>e \<in> set es. \<not> is_entry key e \<longrightarrow> e \<in> set es') \<and> hashes_kept es es'"
  using remember_ok [OF assms(1-4) assms(7,5,6)] by blast

lemma reject_ok:
  assumes laws: "checksum_laws (hl_treasury lib)" and item: "plain_item item" and plain: "plain_json (JObj p)" and now: "hl_dateOk lib now"
    and uuid: "uuid_text uuid" "uuid \<notin> key_of ` set es"
    and run: "reject_payment lib c now uuid p detail item = Inr (es', item')" and read: "read_history lib c item = Inr es"
  shows "plain_item item' \<and> (\<exists>rs. read_history lib c item' = Inr rs \<and> list_all2 same_fields rs es' \<and> hashes_kept es es')"
proof -
  note good = read_history_good [OF laws read item]
  from run read obtain q where q: "checkedPayment (tl_isAddress (hl_treasury lib)) (get_address (hl_treasury lib)) p = Inr q"
    and w: "write_history c (es @ [[(''kind'', JStr ''preparation''), (''id'', JStr uuid), (''recordedAt'', JStr now), (''payment'', JObj q),
         (''detail'', JStr (js_slice_to 2000 detail))]]) = Inr (es', item')" (is "write_history c (es @ [?e]) = _")
    by (auto simp: reject_payment_def res_bind_Inr_iff)
  have nof: "\<not> has_key p ''funding''" using q by (auto simp: checkedPayment_def Let_def res_bind_Inr_iff split: if_splits)
  then have rec: "recorded_payment (hl_treasury lib) (JObj p) = Inr q" using q by (simp add: recorded_payment_def checkedRecordedPayment_def)
  have props: "js_prop ?e ''id'' = JStr uuid" "js_prop ?e ''recordedAt'' = JStr now" "js_prop ?e ''kind'' = JStr ''preparation''"
    "js_prop ?e ''payment'' = JObj q" "js_prop ?e ''detail'' = JStr (js_slice_to 2000 detail)"
    by (simp_all add: js_prop_def jmap_get_def)
  have d: "detail_ok (JStr (js_slice_to 2000 detail))" by (simp add: detail_ok_def js_slice_to_def)
  have "read_entry lib c uuid ?e = Inr (read_preparation uuid (JStr now) q (JStr (js_slice_to 2000 detail)))"
    using recorded_payment_again [OF laws rec] uuid(1) d by (simp add: read_entry_def read_rejection_def props)
  moreover have "same_fields (read_preparation uuid (JStr now) q (JStr (js_slice_to 2000 detail))) ?e"
    by (auto simp: same_fields_def js_prop_def jmap_get_def read_preparation_def)
  moreover have "plain_json (JObj ?e)" using recorded_payment_plain [OF rec plain] by auto
  ultimately have e: "good_entry lib c uuid ?e" using now by (auto simp: good_entry_def props simp del: plain_json_obj)
  have "good_entries lib c (es @ [?e])"
    using good e uuid(2) good_entry_key [OF e] by (auto simp: good_entries_def simp del: plain_json_obj)
  from write_read [OF this] w obtain rs where "es' = es @ [?e]" "plain_item item'" "read_history lib c item' = Inr rs" "list_all2 same_fields rs es'"
    by auto
  then show ?thesis by (auto simp: hashes_kept_def same_submission_def)
qed

lemma cancel_ok:
  assumes laws: "checksum_laws (hl_treasury lib)" and item: "plain_item item"
    and run: "cancel_payment lib c i item = Inr (es', item')" and read: "read_history lib c item = Inr es"
  shows "plain_item item' \<and> (\<exists>rs. read_history lib c item' = Inr rs \<and> list_all2 same_fields rs es' \<and> hashes_kept es es')"
proof -
  note good = read_history_good [OF laws read item]
  from run read obtain key where none: "\<not> (case find (is_entry key) es of None \<Rightarrow> False | Some e \<Rightarrow> js_truthy (submitted_hash e))"
    and w: "write_history c (filter (\<lambda>e. \<not> is_entry key e) es) = Inr (es', item')"
    by (auto simp: cancel_payment_def res_bind_Inr_iff split: if_splits)
  have "good_entries lib c (filter (\<lambda>e. \<not> is_entry key e) es)"
    using good by (auto simp: good_entries_def distinct_map intro: inj_on_subset)
  from write_read [OF this] w obtain rs where r: "es' = filter (\<lambda>e. \<not> is_entry key e) es" "plain_item item'"
    "read_history lib c item' = Inr rs" "list_all2 same_fields rs es'" by auto
  have "hashes_kept es es'"
    unfolding hashes_kept_def
  proof (intro ballI impI)
    fix e assume e: "e \<in> set es" "js_truthy (submitted_hash e)"
    have "\<not> is_entry key e"
    proof
      assume k: "is_entry key e"
      then obtain e0 where f: "find (is_entry key) es = Some e0" using e(1) by (cases "find (is_entry key) es") (auto simp: find_None_iff)
      from find_good [OF good f] k e good_entry_key have "key_of e0 = key_of e"
        using good unfolding good_entries_def by (metis has_id_key)
      with same_key_eq [OF good _ e(1)] find_good [OF good f] have "e0 = e" by blast
      with none f e(2) show False by simp
    qed
    with e(1) r(1) show "\<exists>e' \<in> set es'. same_submission e e'" by (auto simp: same_submission_def)
  qed
  with r show ?thesis by blast
qed

section \<open>Sequences of operations\<close>

text \<open>A step of the history of one treasury. Identifiers are random: a new one is not in use.\<close>

inductive history_step :: "history_lib \<Rightarrow> treasury_config \<Rightarrow> storage_item \<Rightarrow> storage_item \<Rightarrow> bool" for lib c where
  remembered: "remember_payment lib c now i item = Inr (es', item') \<Longrightarrow> plain_json (JObj i) \<Longrightarrow> hl_dateOk lib now \<Longrightarrow> history_step lib c item item'"
| rejected: "reject_payment lib c now uuid p detail item = Inr (es', item') \<Longrightarrow> plain_json (JObj p) \<Longrightarrow> hl_dateOk lib now \<Longrightarrow> uuid_text uuid
    \<Longrightarrow> read_history lib c item = Inr es \<Longrightarrow> uuid \<notin> key_of ` set es \<Longrightarrow> history_step lib c item item'"
| cancelled: "cancel_payment lib c i item = Inr (es', item') \<Longrightarrow> history_step lib c item item'"

inductive_cases history_stepE: "history_step lib c item item'"

lemma history_step_ok:
  assumes laws: "checksum_laws (hl_treasury lib)" and "history_step lib c item item'" and item: "plain_item item" and read: "read_history lib c item = Inr es"
  shows "plain_item item' \<and> (\<exists>rs. read_history lib c item' = Inr rs \<and> hashes_kept es rs)"
  using assms(2)
proof (cases rule: history_step.cases)
  case (remembered now i es')
  show ?thesis
  proof (cases "has_payment i")
    case True
    from remember_ok [OF laws item remembered(2,3,1) read True] hashes_kept_read hashes_kept_trans show ?thesis by blast
  next
    case False
    with remembered(1) read item hashes_kept_refl show ?thesis by (auto simp: remember_payment_def)
  qed
next
  case (rejected now uuid p detail es' es0)
  with read have "es0 = es" by simp
  with reject_ok [OF laws item rejected(2-4) _ rejected(1) read] rejected(6) hashes_kept_read hashes_kept_trans show ?thesis by blast
next
  case (cancelled i es')
  from cancel_ok [OF laws item cancelled read] hashes_kept_read hashes_kept_trans show ?thesis by blast
qed

text \<open>C1. However submissions are remembered, rejected and cancelled, the stored history of a treasury stays
  readable, and a submission whose transaction hash was known keeps its entry with this hash.\<close>
theorem history_keeps_hashes:
  assumes "checksum_laws (hl_treasury lib)" and "(history_step lib c)\<^sup>*\<^sup>* item item'" and "history_ok lib c item"
  shows "history_ok lib c item' \<and> (\<forall>es es'. read_history lib c item = Inr es \<longrightarrow> read_history lib c item' = Inr es' \<longrightarrow> hashes_kept es es')"
  using assms(2)
proof (induction rule: rtranclp_induct)
  case base
  with assms(3) hashes_kept_refl show ?case by auto
next
  case (step mid item')
  then obtain es0 where m: "plain_item mid" "read_history lib c mid = Inr es0" by (auto simp: history_ok_def)
  from history_step_ok [OF assms(1) step(2) m] obtain rs where "plain_item item'" "read_history lib c item' = Inr rs" "hashes_kept es0 rs" by blast
  with step(3) m hashes_kept_trans show ?case by (auto simp: history_ok_def)
qed

section \<open>A treasury\<close>

definition sample_address :: string where
  "sample_address = ''0xab''"

definition sample_abi :: safe_lib where
  "sample_abi = \<lparr>lib_isAddress = (\<lambda>s. True), lib_getAddress = (\<lambda>s. s), lib_size = (\<lambda>s. int (length s)), lib_concatHex = concat,
     lib_toHex32 = hex_of, lib_hash = (\<lambda>tx. ''0x'' @ replicate 64 CHR ''1''), lib_recover = (\<lambda>h s. Inr [])\<rparr>"

definition sample_history_lib :: history_lib where
  "sample_history_lib = \<lparr>hl_treasury = \<lparr>tl_safe = sample_abi, tl_isAddress = (\<lambda>v. v = JStr sample_address),
     tl_encode = (\<lambda>abi f args. Inr ''0x''), tl_helper = ''0x77''\<rparr>, hl_dateOk = (\<lambda>s. s = ''now'')\<rparr>"

definition sample_treasury :: treasury_config where
  "sample_treasury = \<lparr>tr_instance = ''t'', tr_l1 = \<lparr>tc_chainId = 1, tc_front = None\<rparr>, tr_l2 = \<lparr>tc_chainId = 2, tc_front = None\<rparr>,
     tr_registry = ''0x01'', tr_manager = ''0x02'', tr_safeL1 = ''0x03'', tr_safeL2 = ''0x04'', tr_action = None,
     tr_payments = Some [(''version'', JNum 2), (''policy'', JStr ''0x05''), (''alias'', JStr ''0x06''), (''bridgeL1'', JStr ''0x07''), (''bridgeL2'', JStr ''0x08'')],
     tr_previousPayments = None, tr_olderPayments = None\<rparr>"

definition sample_intent :: js_object where
  "sample_intent = [(''version'', JNum 1), (''instance'', JStr ''t''), (''safeHash'', JStr (''0x'' @ replicate 64 CHR ''1'')), (''sender'', JStr sample_address),
     (''sourceNonce'', JStr ''0x1''), (''startBlock'', JStr ''0x2''), (''data'', JStr ''0xab''), (''nonce'', JStr ''5''),
     (''hash'', JStr (''0x'' @ replicate 64 CHR ''2'')),
     (''payment'', JObj [(''recipient'', JStr sample_address), (''destination'', JStr ''l2''), (''epoch'', JStr ''7''), (''amount'', JStr ''90''), (''fromL1'', JStr ''40'')])]"

lemma sample_laws: "checksum_laws (hl_treasury sample_history_lib)"
  by (simp add: checksum_laws_def sample_history_lib_def sample_abi_def)

text \<open>The submission with its hash, then the same submission from a page that does not know the hash.\<close>

lemma sample_run:
  "case remember_payment sample_history_lib sample_treasury ''now'' sample_intent None of
     Inl e \<Rightarrow> False
   | Inr (es, item) \<Rightarrow> length es = 1 \<and> list_all (\<lambda>e. js_truthy (submitted_hash e)) es \<and>
       (case remember_payment sample_history_lib sample_treasury ''now'' (without_key ''hash'' sample_intent) item of
          Inl e \<Rightarrow> False
        | Inr (es', item') \<Rightarrow> length es' = 1)"
  by code_simp

lemma sample_plain: "plain_json (JObj sample_intent)" and sample_date: "hl_dateOk sample_history_lib ''now''"
  by (simp_all add: sample_intent_def sample_history_lib_def)

lemma sample_empty: "read_history sample_history_lib sample_treasury None = Inr []" and sample_none: "plain_item None"
  by (simp_all add: read_history_def plain_item_def)

lemma sample_payment_given: "has_payment sample_intent"
  by (simp add: has_payment_def sample_intent_def js_prop_def jmap_get_def)

theorem remembered_payment_read_back_witness:
  "\<exists>es item rs key. remember_payment sample_history_lib sample_treasury ''now'' sample_intent None = Inr (es, item)
     \<and> attemptId sample_intent = Inr key \<and> read_history sample_history_lib sample_treasury item = Inr rs \<and> list_all2 same_fields rs es
     \<and> (\<exists>e \<in> set es. is_entry key e)"
proof -
  obtain es item where r: "remember_payment sample_history_lib sample_treasury ''now'' sample_intent None = Inr (es, item)"
    using sample_run by (auto split: sum.splits)
  from remembered_payment_read_back [OF sample_laws sample_none sample_plain sample_date sample_empty sample_payment_given r] r
  show ?thesis by blast
qed

lemma sample_plain_unhashed: "plain_json (JObj (without_key ''hash'' sample_intent))"
  by (simp add: sample_intent_def without_key_def)

theorem history_keeps_hashes_witness:
  "\<exists>item item' es es'. (history_step sample_history_lib sample_treasury)\<^sup>*\<^sup>* item item' \<and> read_history sample_history_lib sample_treasury item = Inr es
     \<and> es \<noteq> [] \<and> read_history sample_history_lib sample_treasury item' = Inr es' \<and> hashes_kept es es'"
proof -
  let ?run1 = "remember_payment sample_history_lib sample_treasury ''now'' sample_intent None"
  obtain es item where r0: "?run1 = Inr (es, item)" using sample_run by (auto split: sum.splits)
  let ?run2 = "remember_payment sample_history_lib sample_treasury ''now'' (without_key ''hash'' sample_intent) item"
  from sample_run r0 have one: "length es = 1" by simp
  from sample_run r0 obtain es' item' where r2: "?run2 = Inr (es', item')" by (cases ?run2) auto
  note r = r0 r2 one
  from remember_ok [OF sample_laws sample_none sample_plain sample_date r(1) sample_empty sample_payment_given]
  obtain rs where item: "plain_item item" "read_history sample_history_lib sample_treasury item = Inr rs" "list_all2 same_fields rs es" by blast
  have steps: "(history_step sample_history_lib sample_treasury)\<^sup>*\<^sup>* item item'"
    using history_step.remembered [OF r(2) sample_plain_unhashed sample_date] by blast
  have "history_ok sample_history_lib sample_treasury item" using item by (auto simp: history_ok_def)
  from history_keeps_hashes [OF sample_laws steps this] obtain rs' where
    "read_history sample_history_lib sample_treasury item' = Inr rs'" "hashes_kept rs rs'"
    using item(2) by (auto simp: history_ok_def)
  moreover have "rs \<noteq> []" using item(3) r(3) by auto
  ultimately show ?thesis using steps item(2) by blast
qed

end
