(* ===== verification/Treasury_Transaction_Properties.thy ===== *)
theory Treasury_Transaction_Properties
  imports Payment_History_Invariant
begin

text \<open>
  What a transaction of the treasury can do: a payment goes to the policy of the treasury and never pays the
  treasury's own contracts, a transfer hands the bridge exactly its amount and leaves no allowance.
\<close>

lemma buildSafeTransaction_ok:
  assumes "buildSafeTransaction lib inp = Inr tx"
  shows "st_chainId tx = in_chainId inp \<and> st_verifyingContract tx = lib_getAddress lib (in_safe inp) \<and> sm_value (st_message tx) = 0
    \<and> sm_to (st_message tx) = lib_getAddress lib (in_to inp) \<and> sm_data (st_message tx) = in_data inp
    \<and> sm_operation (st_message tx) = input_operation inp \<and> sm_nonce (st_message tx) = in_nonce inp"
proof -
  from assms obtain chainId safe to nonce where "uint256 (in_chainId inp) ''chain ID'' = Inr chainId"
    "checked_address lib (in_safe inp) ''Safe'' = Inr safe" "checked_address lib (in_to inp) ''target'' = Inr to"
    "uint256 (in_nonce inp) ''Safe nonce'' = Inr nonce"
    and tx: "tx = \<lparr>st_chainId = chainId, st_verifyingContract = safe,
      st_message = \<lparr>sm_to = to, sm_value = 0, sm_data = in_data inp, sm_operation = input_operation inp,
        sm_safeTxGas = 0, sm_baseGas = 0, sm_gasPrice = 0, sm_gasToken = zeroAddress, sm_refundReceiver = zeroAddress, sm_nonce = nonce\<rparr>\<rparr>"
    unfolding buildSafeTransaction_def by (auto simp: res_bind_Inr_iff split: if_splits)
  then show ?thesis by (auto simp: uint256_def checked_address_def split: if_splits)
qed

text \<open>The batch of a transfer: the allowance of the bridge is set to zero, to the amount, used and set to zero.\<close>

definition transfer_batch :: "treasury_lib \<Rightarrow> treasury_config \<Rightarrow> js_object \<Rightarrow> int \<Rightarrow> int \<Rightarrow> (string \<times> string) list \<Rightarrow> bool" where
  "transfer_batch lib c d amount rollup calls \<longleftrightarrow>
     (\<exists>zero some bridge. calls = [(prop_text d ''tokenL1'', zero), (prop_text d ''tokenL1'', some), (prop_text d ''bridgeL1'', bridge), (prop_text d ''tokenL1'', zero)]
        \<and> tl_encode lib ''transferAbi'' ''approve'' [js_prop d ''bridgeL1'', JBig 0] = Inr zero
        \<and> tl_encode lib ''transferAbi'' ''approve'' [js_prop d ''bridgeL1'', JBig amount] = Inr some
        \<and> tl_encode lib ''transferAbi'' ''bridgeTokens'' [js_prop d ''tokenL1'', JBig amount, JBig rollup, JStr (tr_safeL2 c)] = Inr bridge)"

lemma transfer_calls_batch:
  assumes "transfer_calls lib c d p = Inr calls"
  shows "\<exists>amount rollup. js_BigInt (js_prop p ''amount'') = Inr amount \<and> js_BigInt (js_prop p ''rollupId'') = Inr rollup \<and> transfer_batch lib c d amount rollup calls"
  using assms by (auto simp: transfer_calls_def approve_call_def bridge_call_def transfer_batch_def res_bind_Inr_iff)

text \<open>Where a transaction is signed and what it calls.\<close>

definition sent_from :: "treasury_lib \<Rightarrow> treasury_config \<Rightarrow> bool \<Rightarrow> safe_transaction \<Rightarrow> bool" where
  "sent_from lib c l1 tx \<longleftrightarrow> st_chainId tx = tc_chainId (if l1 then tr_l1 c else tr_l2 c)
     \<and> st_verifyingContract tx = get_address lib (if l1 then tr_safeL1 c else tr_safeL2 c)"

definition transfer_sent :: "treasury_lib \<Rightarrow> treasury_config \<Rightarrow> js_object \<Rightarrow> payment \<Rightarrow> safe_message \<Rightarrow> bool" where
  "transfer_sent lib c d p m \<longleftrightarrow> sm_to m = get_address lib (tl_helper lib) \<and> sm_operation m = 1 \<and> equal_text (prop_text p ''recipient'') (tr_safeL2 c)
     \<and> (\<exists>amount rollup calls. js_BigInt (js_prop p ''amount'') = Inr amount \<and> js_BigInt (js_prop p ''rollupId'') = Inr rollup
          \<and> transfer_batch lib c d amount rollup calls
          \<and> tl_encode lib ''transferAbi'' ''multiSend'' [JStr (js_lower (packSafeCalls (tl_safe lib) calls))] = Inr (sm_data m))"

definition payment_sent :: "treasury_lib \<Rightarrow> treasury_config \<Rightarrow> js_object \<Rightarrow> payment \<Rightarrow> safe_message \<Rightarrow> bool" where
  "payment_sent lib c d p m \<longleftrightarrow> sm_to m = get_address lib (prop_text d (if from_l1 p then ''alias'' else ''policy'')) \<and> sm_operation m = 0
     \<and> payment_call lib d p = Inr (sm_data m) \<and> (\<forall>a \<in> set (own_contracts c d). \<not> equal_text a (prop_text p ''recipient''))
     \<and> (from_l1 p \<longrightarrow> verifiesL1Initiation d)"

text \<open>C10. The Safe transaction that is built for a payment moves no ether, has the reviewed nonce and belongs to the Safe
  and chain of the payment's source. A payment from the budget is one plain call of the policy, or of its alias on L1, with the
  payment as reviewed, and its recipient is none of the treasury's own contracts; a transfer goes to the treasury's own L2 Safe
  and is the batch that clears the allowance of the bridge, sets it to the amount, bridges it and clears it again.\<close>
theorem payment_transaction_bound:
  assumes "paymentTransaction lib c p0 nonce = Inr tx" and "tr_payments c = Some d"
  shows "sm_value (st_message tx) = 0 \<and> sm_nonce (st_message tx) = nonce \<and>
    (\<exists>p. checkedPayment (tl_isAddress lib) (get_address lib) p0 = Inr p \<and> sent_from lib c (from_l1 p) tx \<and>
       (if js_prop p ''kind'' = JStr ''transfer'' then transfer_sent lib c d p (st_message tx) else payment_sent lib c d p (st_message tx)))"
proof -
  from assms obtain p where p: "checkedPayment (tl_isAddress lib) (get_address lib) p0 = Inr p"
    by (auto simp: paymentTransaction_def res_bind_Inr_iff)
  note run = assms(1) [unfolded paymentTransaction_def p res_bind.simps assms(2) option.case]
  show ?thesis
  proof (cases "js_prop p ''kind'' = JStr ''transfer''")
    case True
    with run have t: "transferTransaction lib c p nonce = Inr tx" by simp
    with assms(2) obtain calls data where s: "js_prop p ''source'' = JStr ''l1''" "equal_text (prop_text p ''recipient'') (tr_safeL2 c)"
      "transfer_calls lib c d p = Inr calls"
      "tl_encode lib ''transferAbi'' ''multiSend'' [JStr (js_lower (packSafeCalls (tl_safe lib) calls))] = Inr data"
      and b: "buildSafeTransaction (tl_safe lib) \<lparr>in_chainId = tc_chainId (tr_l1 c), in_safe = tr_safeL1 c,
         in_to = tl_helper lib, in_data = data, in_nonce = nonce, in_operation = Some 1\<rparr> = Inr tx"
      unfolding transferTransaction_def by (auto simp: Let_def res_bind_Inr_iff split: if_splits)
    have l1: "from_l1 p" by (simp add: from_l1_def js_coalesce_def s(1))
    from buildSafeTransaction_ok [OF b] transfer_calls_batch [OF s(3)] s p l1 True show ?thesis
      by (auto simp: sent_from_def transfer_sent_def input_operation_def)
  next
    case False
    with run obtain data where own: "\<not> list_ex (\<lambda>a. equal_text a (prop_text p ''recipient'')) (own_contracts c d)"
      and data: "payment_call lib d p = Inr data" and l1: "from_l1 p \<longrightarrow> verifiesL1Initiation d"
      and b: "policy_transaction lib c d (from_l1 p) nonce data = Inr tx"
      by (auto simp: res_bind_Inr_iff split: if_splits)
    from buildSafeTransaction_ok [OF b [unfolded policy_transaction_def]] own data l1 p False show ?thesis
      by (auto simp: sent_from_def payment_sent_def input_operation_def list_ex_iff)
  qed
qed

definition sample_spend :: payment where
  "sample_spend = [(''recipient'', JStr sample_address), (''destination'', JStr ''l2''), (''epoch'', JStr ''7''), (''amount'', JStr ''90''), (''fromL1'', JStr ''40'')]"

definition sample_deployment :: js_object where
  "sample_deployment = [(''version'', JNum 2), (''policy'', JStr ''0x05''), (''alias'', JStr ''0x06''), (''bridgeL1'', JStr ''0x07''), (''bridgeL2'', JStr ''0x08'')]"

lemma sample_spend_built:
  "case paymentTransaction (hl_treasury sample_history_lib) sample_treasury sample_spend 5 of Inl e \<Rightarrow> False | Inr tx \<Rightarrow> st_chainId tx = 2"
  by code_simp

theorem payment_transaction_bound_witness:
  "\<exists>tx. paymentTransaction (hl_treasury sample_history_lib) sample_treasury sample_spend 5 = Inr tx \<and> sm_value (st_message tx) = 0 \<and> sm_nonce (st_message tx) = 5"
proof -
  obtain tx where tx: "paymentTransaction (hl_treasury sample_history_lib) sample_treasury sample_spend 5 = Inr tx"
    using sample_spend_built by (auto split: sum.splits)
  have "tr_payments sample_treasury = Some sample_deployment" by (simp add: sample_treasury_def sample_deployment_def)
  from payment_transaction_bound [OF tx this] tx show ?thesis by blast
qed

end
