(* ===== verification/Treasury_Outcome.thy ===== *)
theory Treasury_Outcome
  imports Treasury_Transactions Payment_History Chain_Types
begin

text \<open>
  The outcome of a submitted L1 payment: \<open>l1PaymentOutcome\<close> (\<open>src/src/lib/treasury/l1Payments.ts\<close>) with
  \<open>decodeSafeExecution\<close> (\<open>safeEvents.ts\<close>) and \<open>transferOutcome\<close> (\<open>transfers.ts\<close>).
  The node and the Composer are the record \<open>treasury_rpc\<close>: quantities of their answers are numbers, a block is
  its hash, and a block or head that is read twice may answer differently (the number of the reading). Decoding of logs and calldata by an
  ABI is the record \<open>outcome_lib\<close>. Requests that are sent in parallel are taken in the order of the list.
\<close>

section \<open>Answers\<close>

record chain_log =
  cl_address :: string
  cl_topics :: "string list"
  cl_data :: string
  cl_blockHash :: string
  cl_blockNumber :: int
  cl_transactionHash :: string

record chain_receipt =
  re_status :: string
  re_blockNumber :: int
  re_blockHash :: string
  re_logs :: "chain_log list"

record chain_transaction =
  ct_from :: string
  ct_to :: string
  ct_input :: string
  ct_nonce :: int
  ct_value :: int

record request_status =
  rs_lifecycle :: "string option"
  rs_reason :: "string option"

record block_settlement =
  bs_canonicalL2 :: bool
  bs_l1BlockHash :: string
  bs_l1BlockNumber :: int
  bs_l2Blocks :: "(int \<times> string) list"

text \<open>The log queries: executions of a Safe from a block on, source calls of a call hash in a block,
  source calls of a proxy, deliveries of a call hash and payment markers in a range.\<close>

datatype log_query = Executions js "int option" | Source_calls string string | Proxy_calls js string
  | Incoming_calls string js int | Payment_markers "string list" js int

record treasury_rpc =
  rp_receipt :: "chain \<Rightarrow> string \<Rightarrow> js_error + chain_receipt option"
  rp_block :: "nat \<Rightarrow> chain \<Rightarrow> int \<Rightarrow> js_error + string option"
  rp_safe :: "nat \<Rightarrow> js_error + int option"
  rp_transaction :: "chain \<Rightarrow> string \<Rightarrow> js_error + chain_transaction option"
  rp_status :: "chain \<Rightarrow> string \<Rightarrow> js_error + request_status option"
  rp_logs :: "chain \<Rightarrow> log_query \<Rightarrow> js_error + chain_log list"
  rp_settlement :: "string \<Rightarrow> js_error + block_settlement option"

record safe_event =
  sv_success :: bool \<comment> \<open>\<open>ExecutionSuccess\<close>, else \<open>ExecutionFailure\<close>\<close>
  sv_txHash :: string

record outcome_lib =
  ou_treasury :: treasury_lib
  ou_safeEvent :: "bool \<Rightarrow> chain_log \<Rightarrow> safe_event option" \<comment> \<open>decoding with the legacy or the indexed ABI\<close>
  ou_policyEvent :: "chain_log \<Rightarrow> policy_event option"
  ou_bridgeEvent :: "chain_log \<Rightarrow> (string \<times> js_object) option"
  ou_bridgeCall :: "string \<Rightarrow> (string \<times> js list) option"
  ou_keccak :: "string \<Rightarrow> string"
  ou_markerTopics :: "int \<Rightarrow> string \<Rightarrow> string list"

section \<open>Outcomes\<close>

record outcome =
  oc_kind :: outcome_kind
  oc_detail :: string
  oc_stage :: "string option"
  oc_hash :: "string option"
  oc_sourceBlock :: "string option"
  oc_block :: "string option"
  oc_l1 :: "string option"
  oc_l2 :: "string option"
  oc_contributions :: "(string \<times> string) option"
  oc_rollback :: "(string \<times> string) option" \<comment> \<open>the posting transaction of a verified rollback, its block\<close>

definition plain_outcome :: "outcome_kind \<Rightarrow> string option \<Rightarrow> string \<Rightarrow> outcome" where
  "plain_outcome kind hash detail = \<lparr>oc_kind = kind, oc_detail = detail, oc_stage = None, oc_hash = hash, oc_sourceBlock = None, oc_block = None,
     oc_l1 = None, oc_l2 = None, oc_contributions = None, oc_rollback = None\<rparr>"

text \<open>A step ends the function with an outcome or goes on with a value.\<close>

definition early_bind :: "js_error + (outcome + 'a) \<Rightarrow> ('a \<Rightarrow> js_error + (outcome + 'b)) \<Rightarrow> js_error + (outcome + 'b)" where
  "early_bind r f = res_bind r (\<lambda>s. case s of Inl out \<Rightarrow> Inr (Inl out) | Inr x \<Rightarrow> f x)"

definition ended :: "outcome \<Rightarrow> js_error + (outcome + 'a)" where
  "ended out = Inr (Inl out)"

definition goes_on :: "'a \<Rightarrow> js_error + (outcome + 'a)" where
  "goes_on x = Inr (Inr x)"

definition checked :: "bool \<Rightarrow> string \<Rightarrow> js_error + (outcome + unit)" where
  "checked ok msg = res_bind (check ok msg) goes_on"

definition asked :: "js_error + 'a \<Rightarrow> js_error + (outcome + 'a)" where
  "asked r = res_bind r goes_on"

lemma early_bind_go [simp]: "early_bind r f = Inr (Inr y) \<longleftrightarrow> (\<exists>x. r = Inr (Inr x) \<and> f x = Inr (Inr y))"
proof (cases r)
  case (Inr s)
  then show ?thesis by (cases s) (simp_all add: early_bind_def)
qed (simp add: early_bind_def)

lemma early_simps [simp]:
  "checked ok msg = Inr (Inr u) \<longleftrightarrow> ok" "asked r = Inr (Inr x) \<longleftrightarrow> r = Inr x" "goes_on x = Inr (Inr x') \<longleftrightarrow> x = x'"
  "ended out \<noteq> Inr (Inr x)"
  by (auto simp: checked_def asked_def goes_on_def ended_def res_bind_Inr_iff check_def)

section \<open>Safe executions\<close>

text \<open>\<open>decodeSafeExecution\<close>: the exact shape of the event, with its hash in the data or indexed.\<close>

definition decodeSafeExecution :: "outcome_lib \<Rightarrow> chain_log \<Rightarrow> safe_event option" where
  "decodeSafeExecution lib log =
     (let legacy = (length (cl_topics log) = 1); bytes = (if legacy then 64 else 32)
      in if length (cl_topics log) \<notin> set [1, 2] \<or> \<not> list_all (is_hex_of 64) (cl_topics log) \<or> \<not> is_hex_text (cl_data log)
            \<or> length (cl_data log) \<noteq> 2 + bytes * 2 then None
         else ou_safeEvent lib legacy log)"

definition executes :: "outcome_lib \<Rightarrow> string \<Rightarrow> string \<Rightarrow> chain_log \<Rightarrow> bool" where
  "executes lib safe safeHash log \<longleftrightarrow> equal_text (cl_address log) safe
     \<and> (case decodeSafeExecution lib log of None \<Rightarrow> False | Some e \<Rightarrow> sv_txHash e = safeHash)"

definition succeeds :: "outcome_lib \<Rightarrow> string \<Rightarrow> string \<Rightarrow> chain_log \<Rightarrow> bool" where
  "succeeds lib safe safeHash log \<longleftrightarrow> equal_text (cl_address log) safe
     \<and> (case decodeSafeExecution lib log of None \<Rightarrow> False | Some e \<Rightarrow> sv_success e \<and> sv_txHash e = safeHash)"

definition intent_hash :: "js_object \<Rightarrow> string option" where
  "intent_hash i = (case js_prop i ''hash'' of JStr h \<Rightarrow> if h = [] then None else Some h | _ \<Rightarrow> None)"

definition submitted_transaction :: "outcome_lib \<Rightarrow> treasury_rpc \<Rightarrow> chain \<Rightarrow> string \<Rightarrow> js_object \<Rightarrow> js_error + string option" where
  "submitted_transaction lib rpc c safe i =
     (case intent_hash i of
        Some h \<Rightarrow> Inr (Some h)
      | None \<Rightarrow> res_bind (rp_logs rpc c (Executions (js_prop i ''startBlock'') None)) (\<lambda>logs.
          Inr (map_option cl_transactionHash (find (executes lib safe (prop_text i ''safeHash'')) logs))))"

text \<open>The Composer gave the request up.\<close>

definition composer_ended :: "request_status option \<Rightarrow> string option" where
  "composer_ended status = (case status of None \<Rightarrow> None | Some s \<Rightarrow>
     if rs_lifecycle s = Some ''terminal'' \<and> rs_reason s \<in> set [Some ''PoolDiscarded'', Some ''AttemptsExhausted'', Some ''NonceGap'']
     then rs_reason s else None)"

section \<open>The L1 transaction\<close>

text \<open>The transaction is the submission: its sender, target and input, its nonce, and no ether.\<close>

definition submission_check :: "string \<Rightarrow> chain_transaction option \<Rightarrow> js_object \<Rightarrow> string \<Rightarrow> js_error + unit" where
  "submission_check msg transaction i to =
     (case transaction of
        None \<Rightarrow> throw msg
      | Some tx \<Rightarrow>
          res_bind (check (equal_text (ct_from tx) (prop_text i ''sender'') \<and> equal_text (ct_to tx) to \<and> equal_text (ct_input tx) (prop_text i ''data'')) msg) (\<lambda>_.
          res_bind (js_BigInt (js_prop i ''sourceNonce'')) (\<lambda>nonce. check (ct_nonce tx = nonce \<and> ct_value tx = 0) msg)))"

lemma submission_check_Inr [simp]:
  "submission_check msg transaction i to = Inr u \<longleftrightarrow>
     (\<exists>tx. transaction = Some tx \<and> equal_text (ct_from tx) (prop_text i ''sender'') \<and> equal_text (ct_to tx) to \<and> equal_text (ct_input tx) (prop_text i ''data'')
        \<and> js_BigInt (js_prop i ''sourceNonce'') = Inr (ct_nonce tx) \<and> ct_value tx = 0)"
  by (cases transaction) (auto simp: submission_check_def res_bind_Inr_iff)

definition missing_receipt :: "string \<Rightarrow> request_status option \<Rightarrow> outcome" where
  "missing_receipt hash status =
     (case composer_ended status of
        Some reason \<Rightarrow> plain_outcome O_rejected (Some hash) (''Composer ended this request ('' @ reason @ ''). Refresh owners and nonce before a new review.'')
      | None \<Rightarrow> plain_outcome O_pending (Some hash) ''Waiting for the L1 Safe transaction and cross-chain settlement.'')"

definition l1_receipt :: "treasury_rpc \<Rightarrow> string \<Rightarrow> js_error + (outcome + chain_receipt)" where
  "l1_receipt rpc hash =
     early_bind (asked (rp_receipt rpc L1 hash)) (\<lambda>receipt. early_bind (asked (rp_status rpc L1 hash)) (\<lambda>status.
       case receipt of None \<Rightarrow> ended (missing_receipt hash status) | Some r \<Rightarrow> goes_on r))"

definition l1_included :: "outcome_lib \<Rightarrow> treasury_rpc \<Rightarrow> treasury_config \<Rightarrow> js_object \<Rightarrow> string \<Rightarrow> js_error + (outcome + chain_receipt)" where
  "l1_included lib rpc c i hash =
     early_bind (l1_receipt rpc hash) (\<lambda>receipt.
     early_bind (asked (rp_transaction rpc L1 hash)) (\<lambda>transaction.
     early_bind (asked (rp_block rpc 0 L1 (re_blockNumber receipt))) (\<lambda>block.
     early_bind (asked (submission_check ''Transaction hash does not match this reviewed L1 action'' transaction i (tr_safeL1 c))) (\<lambda>_.
       if block \<noteq> Some (re_blockHash receipt) then ended (plain_outcome O_pending (Some hash) ''L1 inclusion changed. Rechecking the submitted payment.'')
       else if re_status receipt \<noteq> ''0x1'' \<or> \<not> list_ex (succeeds lib (tr_safeL1 c) (prop_text i ''safeHash'')) (re_logs receipt)
       then ended ((plain_outcome O_rejected (Some hash) ''The canonical L1 Safe transaction failed.'')
              \<lparr>oc_sourceBlock := Some (show_int (re_blockNumber receipt)), oc_stage := Some ''execution''\<rparr>)
       else goes_on receipt))))"

section \<open>The L2 payment\<close>

definition waiting_l2 :: "string \<Rightarrow> outcome" where
  "waiting_l2 hash = plain_outcome O_pending (Some hash) ''L1 Safe executed. Waiting for canonical L2 payment evidence.''"

text \<open>The safe head, once it has reached the start of the observation.\<close>

definition safe_head :: "treasury_rpc \<Rightarrow> js_object \<Rightarrow> outcome \<Rightarrow> js_error + (outcome + int)" where
  "safe_head rpc i pending =
     early_bind (asked (rp_safe rpc 0)) (\<lambda>safe. case safe of
       None \<Rightarrow> ended pending
     | Some n \<Rightarrow> early_bind (asked (js_BigInt (js_prop i ''l2StartBlock''))) (\<lambda>start.
         if n < start then ended pending else goes_on n))"

definition payment_marker ::
  "outcome_lib \<Rightarrow> treasury_rpc \<Rightarrow> js_object \<Rightarrow> string list \<Rightarrow> int \<Rightarrow> string \<Rightarrow> js_error + (outcome + chain_log)" where
  "payment_marker lib rpc i topics safe hash =
     early_bind (asked (rp_logs rpc L2 (Payment_markers topics (js_prop i ''l2StartBlock'') safe))) (\<lambda>events.
       case events of
         [] \<Rightarrow> ended (waiting_l2 hash)
       | [event] \<Rightarrow> goes_on event
       | _ \<Rightarrow> asked (throw ''Ambiguous L1 payment evidence; keep this request for verification''))"

definition marks_payment :: "string \<Rightarrow> string list \<Rightarrow> chain_log \<Rightarrow> bool" where
  "marks_payment policy topics log \<longleftrightarrow> equal_text (cl_address log) policy \<and> cl_topics log = topics"

definition payment_logs :: "outcome_lib \<Rightarrow> chain_log list \<Rightarrow> receipt_log list" where
  "payment_logs lib logs = map (\<lambda>log. \<lparr>lg_address = cl_address log, lg_event = ou_policyEvent lib log\<rparr>) logs"

definition treasury_settled ::
  "outcome_lib \<Rightarrow> js_object \<Rightarrow> js \<Rightarrow> chain_log list \<Rightarrow> js_error + (string \<times> string) option" where
  "treasury_settled lib d p logs =
     (case p of
        JObj ob \<Rightarrow> settledPayment (tl_isAddress (ou_treasury lib)) (get_address (ou_treasury lib)) (prop_text d ''policy'') (prop_text d ''tokenL1'') ob (payment_logs lib logs)
      | _ \<Rightarrow> throw ''Invalid payment review'')"

definition l2_payment ::
  "outcome_lib \<Rightarrow> treasury_rpc \<Rightarrow> js_object \<Rightarrow> js_object \<Rightarrow> string list \<Rightarrow> int \<Rightarrow> string \<Rightarrow> chain_log \<Rightarrow> js_error + (outcome + (string \<times> string))" where
  "l2_payment lib rpc d i topics safe hash event =
     early_bind (asked (rp_receipt rpc L2 (cl_transactionHash event))) (\<lambda>receipt.
     early_bind (asked (rp_block rpc 0 L2 (cl_blockNumber event))) (\<lambda>block.
       case receipt of
         None \<Rightarrow> ended (plain_outcome O_pending (Some hash) ''L2 payment evidence changed. Rechecking settlement.'')
       | Some r \<Rightarrow>
           if re_blockHash r \<noteq> cl_blockHash event \<or> block \<noteq> Some (cl_blockHash event) \<or> cl_blockNumber event > safe
           then ended (plain_outcome O_pending (Some hash) ''L2 payment evidence changed. Rechecking settlement.'')
           else early_bind (checked (re_status r = ''0x1'' \<and> list_ex (marks_payment (prop_text d ''policy'') topics) (re_logs r))
                  ''Missing authenticated L1 payment marker in the L2 receipt'') (\<lambda>_.
                early_bind (asked (treasury_settled lib d (js_prop i ''payment'') (re_logs r))) (\<lambda>contributions.
                  case contributions of
                    None \<Rightarrow> asked (throw ''L1 Safe succeeded without matching canonical payment events'')
                  | Some x \<Rightarrow> goes_on x))))"

text \<open>Both blocks and the safe head are read again before a settlement is reported.\<close>

definition observed_again :: "treasury_rpc \<Rightarrow> chain_receipt \<Rightarrow> chain_log \<Rightarrow> outcome \<Rightarrow> js_error + (outcome + unit)" where
  "observed_again rpc receipt event pending =
     early_bind (asked (rp_block rpc 1 L1 (re_blockNumber receipt))) (\<lambda>l1.
     early_bind (asked (rp_block rpc 1 L2 (cl_blockNumber event))) (\<lambda>l2.
     early_bind (asked (rp_safe rpc 1)) (\<lambda>safe.
       if l1 \<noteq> Some (re_blockHash receipt) \<or> l2 \<noteq> Some (cl_blockHash event) \<or> (case safe of None \<Rightarrow> True | Some n \<Rightarrow> n < cl_blockNumber event)
       then ended pending else goes_on ())))"

definition settled_outcome :: "string \<Rightarrow> chain_receipt \<Rightarrow> chain_log \<Rightarrow> string \<times> string \<Rightarrow> string \<Rightarrow> outcome" where
  "settled_outcome hash receipt event contributions detail =
     \<lparr>oc_kind = O_settled, oc_detail = detail, oc_stage = None, oc_hash = Some hash,
      oc_sourceBlock = Some (show_int (re_blockNumber receipt)), oc_block = Some (show_int (cl_blockNumber event)),
      oc_l1 = Some hash, oc_l2 = Some (cl_transactionHash event), oc_contributions = Some contributions, oc_rollback = None\<rparr>"

end
