(* ===== verification/Treasury_Transfers.thy ===== *)
theory Treasury_Transfers
  imports Treasury_Outcome
begin

text \<open>
  The end of the outcome of an L1 submission: \<open>transferOutcome\<close> with \<open>parseTransferAmount\<close> (\<open>src/src/lib/treasury/transfers.ts\<close>),
  \<open>l1PaymentOutcome\<close> as a whole (\<open>l1Payments.ts\<close>) and \<open>mirrorRelayOutcome\<close> (\<open>mirrorRelay.ts\<close>), the outcome of a
  mirror payment that Ethereum relays.
\<close>

section \<open>The amount of a transfer\<close>

text \<open>\<open>/^(?:\d+(?:\.\d{0,6})?|\.\d{1,6})$/\<close>; \<open>parseUnits(value, 6)\<close> of the library is a parameter.\<close>

definition decimal_text :: "string \<Rightarrow> bool" where
  "decimal_text value \<longleftrightarrow>
     (let whole = takeWhile (\<lambda>c. c \<noteq> CHR ''.'') value; rest = dropWhile (\<lambda>c. c \<noteq> CHR ''.'') value
      in list_all is_digit whole \<and> (case rest of
           [] \<Rightarrow> whole \<noteq> []
         | dot # fraction \<Rightarrow> digits_between (if whole = [] then 1 else 0) 6 fraction))"

definition parseTransferAmount :: "(string \<Rightarrow> int) \<Rightarrow> string \<Rightarrow> js_error + int" where
  "parseTransferAmount parseUnits value =
     res_bind (check (int (length value) \<le> 85 \<and> decimal_text value) ''Enter a positive USDC amount with up to 6 decimals'') (\<lambda>_.
       let amount = parseUnits value
       in res_bind (check (amount > 0 \<and> amount \<le> 2 ^ 256 - 1) ''Enter a positive ERC-20 amount'') (\<lambda>_. Inr amount))"

section \<open>Events of the bridge and the protocol\<close>

definition decoded_event :: "outcome_lib \<Rightarrow> string \<Rightarrow> string \<Rightarrow> chain_log \<Rightarrow> js_object option" where
  "decoded_event lib address name log =
     (if \<not> equal_text (cl_address log) address then None
      else case ou_bridgeEvent lib log of Some (n, args) \<Rightarrow> if n = name then Some args else None | None \<Rightarrow> None)"

definition holds_event :: "outcome_lib \<Rightarrow> string \<Rightarrow> string \<Rightarrow> (js_object \<Rightarrow> bool) \<Rightarrow> chain_log \<Rightarrow> bool" where
  "holds_event lib address name P log = (case decoded_event lib address name log of None \<Rightarrow> False | Some e \<Rightarrow> P e)"

text \<open>The tokens that leave the Safe: the lock of the token and the event of the bridge.\<close>

definition locks_tokens :: "treasury_config \<Rightarrow> js_object \<Rightarrow> int \<Rightarrow> js_object \<Rightarrow> bool" where
  "locks_tokens c d amount e \<longleftrightarrow> equal_text (prop_text e ''from'') (tr_safeL1 c) \<and> equal_text (prop_text e ''to'') (prop_text d ''bridgeL1'')
     \<and> js_prop e ''value'' = JBig amount"

definition bridges_tokens :: "treasury_config \<Rightarrow> js_object \<Rightarrow> int \<Rightarrow> int \<Rightarrow> js_object \<Rightarrow> bool" where
  "bridges_tokens c d amount rollup e \<longleftrightarrow> equal_text (prop_text e ''token'') (prop_text d ''tokenL1'') \<and> equal_text (prop_text e ''sender'') (tr_safeL1 c)
     \<and> js_prop e ''rollupId'' = JBig rollup \<and> js_prop e ''amount'' = JBig amount"

text \<open>The call of \<open>receiveTokens\<close> that carries them to the L2 Safe.\<close>

definition receives_tokens :: "treasury_config \<Rightarrow> js_object \<Rightarrow> int \<Rightarrow> string \<times> js list \<Rightarrow> bool" where
  "receives_tokens c d amount call =
     (case call of
        (name, [token, origin, recipient, value, _, _, _, source]) \<Rightarrow>
          name = ''receiveTokens'' \<and> equal_text (js_string token) (prop_text d ''tokenL1'') \<and> origin = JBig 0
          \<and> equal_text (js_string recipient) (tr_safeL2 c) \<and> value = JBig amount \<and> source = JBig 0
      | _ \<Rightarrow> False)"

definition outbound_call :: "outcome_lib \<Rightarrow> treasury_config \<Rightarrow> js_object \<Rightarrow> int \<Rightarrow> js_object \<Rightarrow> bool" where
  "outbound_call lib c d amount e \<longleftrightarrow> equal_text (prop_text e ''sourceAddress'') (prop_text d ''bridgeL1'') \<and> js_prop e ''value'' = JBig 0
     \<and> (case ou_bridgeCall lib (prop_text e ''callData'') of None \<Rightarrow> False | Some call \<Rightarrow> receives_tokens c d amount call)"

definition outbound_calls :: "outcome_lib \<Rightarrow> treasury_config \<Rightarrow> js_object \<Rightarrow> int \<Rightarrow> chain_log list \<Rightarrow> js_object list" where
  "outbound_calls lib c d amount logs =
     filter (outbound_call lib c d amount) (List.map_filter (decoded_event lib (tr_registry c) ''CrossChainCallExecuted'') logs)"

definition origin_hashes :: "outcome_lib \<Rightarrow> treasury_config \<Rightarrow> string \<Rightarrow> js \<Rightarrow> chain_log list \<Rightarrow> string list" where
  "origin_hashes lib c blockHash callHash origins =
     jset_of (map (\<lambda>log. js_lower (cl_transactionHash log)) (filter (\<lambda>log. equal_text (cl_blockHash log) blockHash
       \<and> holds_event lib (tr_registry c) ''CrossChainCallExecuted'' (\<lambda>e. js_prop e ''crossChainCallHash'' = callHash) log) origins))"

text \<open>The delivery of a call on L2, and the settlement that covers its block in the L1 block of the source.\<close>

definition delivers :: "string \<Rightarrow> string \<Rightarrow> js \<Rightarrow> js \<Rightarrow> js_object \<Rightarrow> bool" where
  "delivers source destination callHash callData e \<longleftrightarrow> js_prop e ''crossChainCallHash'' = callHash \<and> js_prop e ''isStatic'' = JBool False
     \<and> js_prop e ''sourceRollup'' = JBig 0 \<and> js_prop e ''value'' = JBig 0 \<and> equal_text (prop_text e ''sourceAddress'') source
     \<and> equal_text (prop_text e ''destination'') destination \<and> js_prop e ''data'' = callData"

definition settled_with :: "chain_receipt \<Rightarrow> chain_log \<Rightarrow> block_settlement option \<Rightarrow> bool" where
  "settled_with receipt log settlement =
     (case settlement of
        None \<Rightarrow> False
      | Some s \<Rightarrow> bs_canonicalL2 s \<and> equal_text (bs_l1BlockHash s) (re_blockHash receipt) \<and> bs_l1BlockNumber s = re_blockNumber receipt
          \<and> list_ex (\<lambda>(n, h). equal_text h (cl_blockHash log) \<and> n = cl_blockNumber log) (bs_l2Blocks s))"

fun settled_logs :: "treasury_rpc \<Rightarrow> chain_receipt \<Rightarrow> chain_log list \<Rightarrow> js_error + chain_log list" where
  "settled_logs rpc receipt [] = Inr []"
| "settled_logs rpc receipt (log # logs) =
     res_bind (rp_settlement rpc (cl_blockHash log)) (\<lambda>s.
     res_bind (settled_logs rpc receipt logs) (\<lambda>rest. Inr (if settled_with receipt log s then log # rest else rest)))"

section \<open>The outcome of a transfer\<close>

definition transfer_pending :: "string \<Rightarrow> chain_receipt \<Rightarrow> outcome" where
  "transfer_pending hash receipt =
     (plain_outcome O_pending (Some hash) ''Safe transfer included. Verifying the EEZ-X Safe's receipt.'')\<lparr>oc_sourceBlock := Some (show_int (re_blockNumber receipt))\<rparr>"

definition transfer_source ::
  "outcome_lib \<Rightarrow> treasury_config \<Rightarrow> js_object \<Rightarrow> payment \<Rightarrow> int \<Rightarrow> chain_receipt \<Rightarrow> js_error + unit" where
  "transfer_source lib c d p amount receipt =
     res_bind (js_BigInt (js_prop p ''rollupId'')) (\<lambda>rollup.
       check (length (filter (holds_event lib (prop_text d ''tokenL1'') ''Transfer'' (locks_tokens c d amount)) (re_logs receipt)) = 1
         \<and> length (filter (holds_event lib (prop_text d ''bridgeL1'') ''TokensBridged'' (bridges_tokens c d amount rollup)) (re_logs receipt)) = 1)
         ''Missing exact Safe-to-bridge transfer evidence'')"

text \<open>The single call of the source transaction, which no other transaction of its block made.\<close>

definition transfer_call ::
  "outcome_lib \<Rightarrow> treasury_rpc \<Rightarrow> treasury_config \<Rightarrow> js_object \<Rightarrow> int \<Rightarrow> string \<Rightarrow> chain_receipt \<Rightarrow> js_error + js_object" where
  "transfer_call lib rpc c d amount hash receipt =
     (case outbound_calls lib c d amount (re_logs receipt) of
        [call] \<Rightarrow>
          (let callHash = js_prop call ''crossChainCallHash'' in
           res_bind (rp_logs rpc L1 (Source_calls (re_blockHash receipt) (js_string callHash))) (\<lambda>origins.
           res_bind (check (origin_hashes lib c (re_blockHash receipt) callHash origins = [js_lower hash])
             ''Ambiguous source transfer; keeping this request for verification'') (\<lambda>_. Inr call)))
      | _ \<Rightarrow> throw ''Missing unique bridge execution in the source transaction'')"

definition transfer_delivery ::
  "outcome_lib \<Rightarrow> treasury_rpc \<Rightarrow> treasury_config \<Rightarrow> js_object \<Rightarrow> js_object \<Rightarrow> int \<Rightarrow> chain_receipt \<Rightarrow> js_object \<Rightarrow> outcome \<Rightarrow> js_error + (outcome + chain_log)" where
  "transfer_delivery lib rpc c d i safe receipt call pending =
     (let P = delivers (prop_text d ''bridgeL1'') (prop_text d ''bridgeL2'') (js_prop call ''crossChainCallHash'') (js_prop call ''callData'') in
      early_bind (asked (rp_logs rpc L2 (Incoming_calls (js_string (js_prop call ''crossChainCallHash'')) (js_prop i ''l2StartBlock'') safe))) (\<lambda>logs.
      early_bind (asked (settled_logs rpc receipt (filter (holds_event lib (tr_manager c) ''IncomingCrossChainCallExecuted'' P) logs))) (\<lambda>matches.
        case matches of
          [] \<Rightarrow> ended pending
        | [log] \<Rightarrow> goes_on log
        | _ \<Rightarrow> asked (throw ''Ambiguous transfer evidence; keeping this request for verification''))))"

definition mints_tokens :: "outcome_lib \<Rightarrow> treasury_config \<Rightarrow> js_object \<Rightarrow> int \<Rightarrow> js_object \<Rightarrow> chain_log \<Rightarrow> chain_receipt \<Rightarrow> bool" where
  "mints_tokens lib c d amount call log r \<longleftrightarrow> re_status r = ''0x1'' \<and> re_blockNumber r = cl_blockNumber log
     \<and> list_ex (holds_event lib (tr_manager c) ''IncomingCrossChainCallExecuted''
         (delivers (prop_text d ''bridgeL1'') (prop_text d ''bridgeL2'') (js_prop call ''crossChainCallHash'') (js_prop call ''callData''))) (re_logs r)
     \<and> list_ex (holds_event lib (prop_text d ''tokenL2'') ''Transfer'' (\<lambda>e. equal_text (prop_text e ''from'') zeroAddress
         \<and> equal_text (prop_text e ''to'') (tr_safeL2 c) \<and> js_prop e ''value'' = JBig amount)) (re_logs r)
     \<and> list_ex (holds_event lib (prop_text d ''bridgeL2'') ''WrappedTokensMinted'' (\<lambda>e. equal_text (prop_text e ''wrappedToken'') (prop_text d ''tokenL2'')
         \<and> equal_text (prop_text e ''to'') (tr_safeL2 c) \<and> js_prop e ''amount'' = JBig amount)) (re_logs r)"

definition transfer_mint ::
  "outcome_lib \<Rightarrow> treasury_rpc \<Rightarrow> treasury_config \<Rightarrow> js_object \<Rightarrow> int \<Rightarrow> int \<Rightarrow> js_object \<Rightarrow> chain_log \<Rightarrow> outcome \<Rightarrow> js_error + (outcome + unit)" where
  "transfer_mint lib rpc c d amount safe call log pending =
     early_bind (asked (rp_receipt rpc L2 (cl_transactionHash log))) (\<lambda>destination.
     early_bind (asked (rp_block rpc 0 L2 (cl_blockNumber log))) (\<lambda>block.
       case destination of
         None \<Rightarrow> ended pending
       | Some r \<Rightarrow>
           if re_blockHash r \<noteq> cl_blockHash log \<or> block \<noteq> Some (cl_blockHash log) \<or> cl_blockNumber log > safe then ended pending
           else checked (mints_tokens lib c d amount call log r) ''Missing exact EEZ-X Safe mint evidence''))"

definition transferOutcome ::
  "outcome_lib \<Rightarrow> treasury_rpc \<Rightarrow> treasury_config \<Rightarrow> js_object \<Rightarrow> js_object \<Rightarrow> payment \<Rightarrow> string \<Rightarrow> chain_receipt \<Rightarrow> js_error + (outcome + outcome)" where
  "transferOutcome lib rpc c d i p hash receipt =
     (let pending = transfer_pending hash receipt in
      early_bind (checked (js_prop p ''kind'' = JStr ''transfer'') ''Missing transfer identity'') (\<lambda>_.
      early_bind (asked (js_BigInt (js_prop p ''amount''))) (\<lambda>amount.
      early_bind (asked (transfer_source lib c d p amount receipt)) (\<lambda>_.
      early_bind (safe_head rpc i pending) (\<lambda>safe.
      early_bind (asked (transfer_call lib rpc c d amount hash receipt)) (\<lambda>call.
      early_bind (transfer_delivery lib rpc c d i safe receipt call pending) (\<lambda>log.
      early_bind (transfer_mint lib rpc c d amount safe call log pending) (\<lambda>_.
      early_bind (observed_again rpc receipt log pending) (\<lambda>_.
        goes_on (settled_outcome hash receipt log (prop_text p ''amount'', ''0'')
          ''Transfer completed. The EEZ-X Safe received the tokens.''))))))))))"

section \<open>The outcome of an L1 payment\<close>

definition l1_identity :: "treasury_config \<Rightarrow> js_object \<Rightarrow> js_error + payment" where
  "l1_identity c i =
     (case js_prop i ''payment'' of
        JObj p \<Rightarrow>
          res_bind (check (js_prop p ''source'' = JStr ''l1'' \<and> js_truthy (js_prop i ''l2StartBlock'')
             \<and> (case tc_front (tr_l1 c) of None \<Rightarrow> False | Some f \<Rightarrow> f \<noteq> [])) ''Missing L1 payment tracking identity'') (\<lambda>_. Inr p)
      | _ \<Rightarrow> throw ''Missing L1 payment tracking identity'')"

text \<open>The reviewed transaction, whose hash is the one that was signed.\<close>

definition reviewed_transaction :: "treasury_lib \<Rightarrow> treasury_config \<Rightarrow> js_object \<Rightarrow> payment \<Rightarrow> js_error + safe_transaction" where
  "reviewed_transaction lib c i p =
     res_bind (js_BigInt (js_prop i ''nonce'')) (\<lambda>nonce.
     res_bind (recordedPaymentTransaction lib c p nonce) (\<lambda>reviewed.
     res_bind (check (JStr (lib_hash (tl_safe lib) reviewed) = js_prop i ''safeHash'') ''L1 Safe transaction does not match the reviewed payment'') (\<lambda>_.
       Inr reviewed)))"

definition deployed :: "treasury_config \<Rightarrow> js_error + js_object" where
  "deployed c = js_defined (tr_payments c)"

definition budget_outcome ::
  "outcome_lib \<Rightarrow> treasury_rpc \<Rightarrow> js_object \<Rightarrow> js_object \<Rightarrow> safe_transaction \<Rightarrow> string \<Rightarrow> chain_receipt \<Rightarrow> js_error + (outcome + outcome)" where
  "budget_outcome lib rpc d i reviewed hash receipt =
     early_bind (safe_head rpc i (waiting_l2 hash)) (\<lambda>safe.
       let topics = ou_markerTopics lib (sm_nonce (st_message reviewed) + 1) (ou_keccak lib (sm_data (st_message reviewed))) in
       early_bind (payment_marker lib rpc i topics safe hash) (\<lambda>event.
       early_bind (l2_payment lib rpc d i topics safe hash event) (\<lambda>contributions.
       early_bind (observed_again rpc receipt event
           (plain_outcome O_pending (Some hash) ''Chain observations changed during verification. Rechecking settlement.'')) (\<lambda>_.
         goes_on (settled_outcome hash receipt event contributions
           ''Settled on L1. The L1 Safe execution and matching L2 payment are canonical.'')))))"

definition l1_outcome_steps :: "outcome_lib \<Rightarrow> treasury_rpc \<Rightarrow> treasury_config \<Rightarrow> js_object \<Rightarrow> js_error + (outcome + outcome)" where
  "l1_outcome_steps lib rpc c i =
     early_bind (asked (l1_identity c i)) (\<lambda>p.
     early_bind (asked (reviewed_transaction (ou_treasury lib) c i p)) (\<lambda>reviewed.
     early_bind (asked (submitted_transaction lib rpc L1 (tr_safeL1 c) i)) (\<lambda>found.
       case found of
         None \<Rightarrow> ended (plain_outcome O_unknown None ''Waiting for the wallet transaction. This payment will not be resubmitted automatically.'')
       | Some hash \<Rightarrow>
           early_bind (l1_included lib rpc c i hash) (\<lambda>receipt.
           early_bind (asked (deployed c)) (\<lambda>d.
             if js_prop p ''kind'' = JStr ''transfer'' then transferOutcome lib rpc c d i p hash receipt
             else budget_outcome lib rpc d i reviewed hash receipt)))))"

definition final_outcome :: "js_error + (outcome + outcome) \<Rightarrow> js_error + outcome" where
  "final_outcome r = res_bind r (\<lambda>s. Inr (case s of Inl out \<Rightarrow> out | Inr out \<Rightarrow> out))"

definition l1PaymentOutcome :: "outcome_lib \<Rightarrow> treasury_rpc \<Rightarrow> treasury_config \<Rightarrow> js_object \<Rightarrow> js_error + outcome" where
  "l1PaymentOutcome lib rpc c i = final_outcome (l1_outcome_steps lib rpc c i)"

section \<open>The outcome of a mirror payment\<close>

definition mirror_identity :: "treasury_config \<Rightarrow> js_object \<Rightarrow> js_error + js_object \<times> string" where
  "mirror_identity c i =
     res_bind (deployed c) (\<lambda>d.
       case prop_option d ''safeL2Alias'' of
         None \<Rightarrow> throw ''Missing mirror relay identity''
       | Some proxy \<Rightarrow>
           res_bind (check (js_prop d ''bridgeKind'' = JStr ''standard'' \<and> proxy \<noteq> [] \<and> js_truthy (js_prop i ''l2StartBlock'')
             \<and> js_truthy (js_prop i ''payment'') \<and> js_field (js_prop i ''payment'') ''source'' \<noteq> JStr ''l1'') ''Missing mirror relay identity'') (\<lambda>_.
           Inr (d, proxy)))"

definition relays :: "js_object \<Rightarrow> js_object \<Rightarrow> bool" where
  "relays i e \<longleftrightarrow> equal_text (prop_text e ''sourceAddress'') (prop_text i ''sender'')
     \<and> equal_text (prop_text e ''callData'') (prop_text i ''data'') \<and> js_prop e ''value'' = JBig 0"

text \<open>Among the calls with the submitted data, those whose transaction has the submitted nonce.\<close>

fun relay_identities :: "treasury_rpc \<Rightarrow> js_object \<Rightarrow> string list \<Rightarrow> chain_log list \<Rightarrow> js_error + string list" where
  "relay_identities rpc i acc [] = Inr acc"
| "relay_identities rpc i acc (log # logs) =
     res_bind (rp_transaction rpc L1 (cl_transactionHash log)) (\<lambda>tx. case tx of
         None \<Rightarrow> relay_identities rpc i acc logs
       | Some t \<Rightarrow> res_bind (js_BigInt (js_prop i ''sourceNonce'')) (\<lambda>nonce.
           relay_identities rpc i (if ct_nonce t = nonce then jset_add (cl_transactionHash log) acc else acc) logs))"

definition relay_hash :: "outcome_lib \<Rightarrow> treasury_rpc \<Rightarrow> treasury_config \<Rightarrow> js_object \<Rightarrow> string \<Rightarrow> js_error + string option" where
  "relay_hash lib rpc c i proxy =
     (case intent_hash i of
        Some h \<Rightarrow> Inr (Some h)
      | None \<Rightarrow>
          res_bind (rp_logs rpc L1 (Proxy_calls (js_prop i ''startBlock'') proxy)) (\<lambda>logs.
          res_bind (relay_identities rpc i [] (filter (holds_event lib (tr_registry c) ''CrossChainCallExecuted'' (relays i)) logs)) (\<lambda>found.
          res_bind (check (length found \<le> 1) ''Ambiguous mirror submission; keep this request for verification'') (\<lambda>_.
            Inr (case found of [] \<Rightarrow> None | h # _ \<Rightarrow> Some h)))))"

definition mirror_pending :: "string \<Rightarrow> outcome" where
  "mirror_pending hash = plain_outcome O_pending (Some hash) ''Verifying the Ethereum submission and EEZ-X Safe execution.''"

definition mirror_receipt :: "treasury_rpc \<Rightarrow> string \<Rightarrow> js_error + (outcome + chain_receipt)" where
  "mirror_receipt rpc hash =
     early_bind (asked (rp_receipt rpc L1 hash)) (\<lambda>receipt. early_bind (asked (rp_status rpc L1 hash)) (\<lambda>status.
       case (receipt, composer_ended status) of
         (Some r, _) \<Rightarrow> goes_on r
       | (None, Some reason) \<Rightarrow>
           ended ((plain_outcome O_rejected (Some hash) (''Composer ended this request ('' @ reason @ ''). Review again before retrying.''))\<lparr>oc_stage := Some ''preparation''\<rparr>)
       | (None, None) \<Rightarrow> ended (mirror_pending hash)))"

text \<open>
  \<open>mirrorRelayOutcome\<close> (\<open>src/src/lib/treasury/mirrorRelay.ts\<close>) from the Ethereum receipt on: the relayed call, its
  execution by the mirror Safe, the settlement of its block, and the payment.
\<close>

definition mirror_inclusion :: "treasury_rpc \<Rightarrow> js_object \<Rightarrow> string \<Rightarrow> string \<Rightarrow> js_error + (outcome + chain_receipt)" where
  "mirror_inclusion rpc i proxy hash =
     early_bind (mirror_receipt rpc hash) (\<lambda>receipt.
     early_bind (asked (rp_transaction rpc L1 hash)) (\<lambda>transaction.
     early_bind (asked (rp_block rpc 0 L1 (re_blockNumber receipt))) (\<lambda>block.
     early_bind (asked (submission_check ''Ethereum transaction does not match the reviewed mirror payment'' transaction i proxy)) (\<lambda>_.
       if block \<noteq> Some (re_blockHash receipt) then ended (mirror_pending hash)
       else if re_status receipt \<noteq> ''0x1''
       then ended ((plain_outcome O_rejected (Some hash) ''The Ethereum relay transaction reverted.'')
              \<lparr>oc_sourceBlock := Some (show_int (re_blockNumber receipt)), oc_stage := Some ''execution''\<rparr>)
       else goes_on receipt))))"

definition relay_calls :: "outcome_lib \<Rightarrow> treasury_config \<Rightarrow> js_object \<Rightarrow> string \<Rightarrow> chain_log list \<Rightarrow> js_object list" where
  "relay_calls lib c i proxy logs =
     filter (\<lambda>e. equal_text (prop_text e ''proxy'') proxy \<and> relays i e)
       (List.map_filter (decoded_event lib (tr_registry c) ''CrossChainCallExecuted'') logs)"

text \<open>The call of the source transaction, the only one with its hash in the block.\<close>

definition relay_call ::
  "outcome_lib \<Rightarrow> treasury_rpc \<Rightarrow> treasury_config \<Rightarrow> js_object \<Rightarrow> string \<Rightarrow> string \<Rightarrow> chain_receipt \<Rightarrow> js_error + js" where
  "relay_call lib rpc c i proxy hash receipt =
     (case relay_calls lib c i proxy (re_logs receipt) of
        [call] \<Rightarrow>
          (let callHash = js_prop call ''crossChainCallHash'' in
           res_bind (rp_logs rpc L1 (Source_calls (re_blockHash receipt) (js_string callHash))) (\<lambda>origins.
           res_bind (check (case origins of [log] \<Rightarrow> equal_text (cl_transactionHash log) hash | _ \<Rightarrow> False) ''Ambiguous relay source identity'') (\<lambda>_.
             Inr callHash)))
      | _ \<Rightarrow> throw ''Missing unique mirror relay execution'')"

definition mirror_delivers :: "treasury_config \<Rightarrow> js_object \<Rightarrow> js \<Rightarrow> js_object \<Rightarrow> bool" where
  "mirror_delivers c i callHash e \<longleftrightarrow> js_prop e ''crossChainCallHash'' = callHash \<and> js_prop e ''isStatic'' = JBool False
     \<and> js_prop e ''sourceRollup'' = JBig 0 \<and> js_prop e ''value'' = JBig 0 \<and> equal_text (prop_text e ''sourceAddress'') (prop_text i ''sender'')
     \<and> equal_text (prop_text e ''destination'') (tr_safeL2 c) \<and> equal_text (prop_text e ''data'') (prop_text i ''data'')"

fun mirror_matches ::
  "outcome_lib \<Rightarrow> treasury_rpc \<Rightarrow> treasury_config \<Rightarrow> js_object \<Rightarrow> chain_receipt \<Rightarrow> js \<Rightarrow> chain_log list
    \<Rightarrow> js_error + (chain_log \<times> chain_receipt) list" where
  "mirror_matches lib rpc c i receipt callHash [] = Inr []"
| "mirror_matches lib rpc c i receipt callHash (log # logs) =
     res_bind (rp_receipt rpc L2 (cl_transactionHash log)) (\<lambda>destination. case destination of
         None \<Rightarrow> mirror_matches lib rpc c i receipt callHash logs
       | Some r \<Rightarrow>
           if re_blockHash r \<noteq> cl_blockHash log
              \<or> \<not> list_ex (holds_event lib (tr_manager c) ''IncomingCrossChainCallExecuted'' (mirror_delivers c i callHash)) (re_logs r)
           then mirror_matches lib rpc c i receipt callHash logs
           else res_bind (rp_settlement rpc (cl_blockHash log)) (\<lambda>s.
                res_bind (mirror_matches lib rpc c i receipt callHash logs) (\<lambda>rest.
                  Inr (if settled_with receipt log s then (log, r) # rest else rest))))"

definition mirror_execution ::
  "outcome_lib \<Rightarrow> treasury_rpc \<Rightarrow> treasury_config \<Rightarrow> js_object \<Rightarrow> chain_receipt \<Rightarrow> js \<Rightarrow> int \<Rightarrow> outcome \<Rightarrow> js_error + (outcome + chain_log \<times> chain_receipt)" where
  "mirror_execution lib rpc c i receipt callHash safe pending =
     early_bind (asked (rp_logs rpc L2 (Executions (js_prop i ''l2StartBlock'') (Some safe)))) (\<lambda>logs.
     early_bind (asked (mirror_matches lib rpc c i receipt callHash (filter (executes lib (tr_safeL2 c) (prop_text i ''safeHash'')) logs))) (\<lambda>matches.
       case matches of
         [] \<Rightarrow> ended pending
       | [m] \<Rightarrow> goes_on m
       | _ \<Rightarrow> asked (throw ''Ambiguous mirror execution evidence'')))"

definition mirror_payment ::
  "outcome_lib \<Rightarrow> js_object \<Rightarrow> js_object \<Rightarrow> chain_log \<Rightarrow> chain_receipt \<Rightarrow> js_error + string \<times> string" where
  "mirror_payment lib d i log r =
     res_bind (treasury_settled lib d (js_prop i ''payment'') (re_logs r)) (\<lambda>contributions.
       case contributions of
         Some x \<Rightarrow>
           if re_status r = ''0x1'' \<and> (case decodeSafeExecution lib log of None \<Rightarrow> False | Some e \<Rightarrow> sv_success e) then Inr x
           else throw ''Mirror Safe did not complete the reviewed payment''
       | None \<Rightarrow> throw ''Mirror Safe did not complete the reviewed payment'')"

definition mirror_outcome_steps :: "outcome_lib \<Rightarrow> treasury_rpc \<Rightarrow> treasury_config \<Rightarrow> js_object \<Rightarrow> js_error + (outcome + outcome)" where
  "mirror_outcome_steps lib rpc c i =
     early_bind (asked (mirror_identity c i)) (\<lambda>(d, proxy).
     early_bind (asked (relay_hash lib rpc c i proxy)) (\<lambda>found.
       case found of
         None \<Rightarrow> ended (plain_outcome O_unknown None ''Waiting for the Ethereum submission. This payment will not be resubmitted automatically.'')
       | Some hash \<Rightarrow>
           let pending = mirror_pending hash in
           early_bind (mirror_inclusion rpc i proxy hash) (\<lambda>receipt.
           early_bind (asked (relay_call lib rpc c i proxy hash receipt)) (\<lambda>callHash.
           early_bind (safe_head rpc i pending) (\<lambda>safe.
           early_bind (mirror_execution lib rpc c i receipt callHash safe pending) (\<lambda>(log, r).
           early_bind (asked (mirror_payment lib d i log r)) (\<lambda>contributions.
           early_bind (observed_again rpc receipt log pending) (\<lambda>_.
             goes_on (settled_outcome hash receipt log contributions
               ''Payment completed. The EEZ-X Safe execution and Ethereum submission are verified.'')))))))))"

definition mirrorRelayOutcome :: "outcome_lib \<Rightarrow> treasury_rpc \<Rightarrow> treasury_config \<Rightarrow> js_object \<Rightarrow> js_error + outcome" where
  "mirrorRelayOutcome lib rpc c i = final_outcome (mirror_outcome_steps lib rpc c i)"

section \<open>What a settled outcome proves\<close>

text \<open>A transaction is the submission of an intent, in the canonical block of its receipt.\<close>

definition submission_included :: "treasury_rpc \<Rightarrow> js_object \<Rightarrow> string \<Rightarrow> string \<Rightarrow> chain_receipt \<Rightarrow> bool" where
  "submission_included rpc i to hash receipt \<longleftrightarrow>
     rp_receipt rpc L1 hash = Inr (Some receipt) \<and> re_status receipt = ''0x1''
     \<and> (\<exists>tx. rp_transaction rpc L1 hash = Inr (Some tx) \<and> equal_text (ct_from tx) (prop_text i ''sender'') \<and> equal_text (ct_to tx) to
          \<and> equal_text (ct_input tx) (prop_text i ''data'') \<and> js_BigInt (js_prop i ''sourceNonce'') = Inr (ct_nonce tx) \<and> ct_value tx = 0)
     \<and> rp_block rpc 0 L1 (re_blockNumber receipt) = Inr (Some (re_blockHash receipt))
     \<and> rp_block rpc 1 L1 (re_blockNumber receipt) = Inr (Some (re_blockHash receipt))"

text \<open>A log in a successful receipt of a block that is canonical and not after the safe head, when read at
  the end.\<close>

definition canonical_log :: "treasury_rpc \<Rightarrow> chain_log \<Rightarrow> chain_receipt \<Rightarrow> bool" where
  "canonical_log rpc log r \<longleftrightarrow> rp_receipt rpc L2 (cl_transactionHash log) = Inr (Some r) \<and> re_status r = ''0x1'' \<and> re_blockHash r = cl_blockHash log
     \<and> rp_block rpc 1 L2 (cl_blockNumber log) = Inr (Some (cl_blockHash log))
     \<and> (\<exists>head. rp_safe rpc 1 = Inr (Some head) \<and> cl_blockNumber log \<le> head)"

lemma observed_again_ok:
  "observed_again rpc receipt log pending = Inr (Inr ()) \<longleftrightarrow>
     rp_block rpc 1 L1 (re_blockNumber receipt) = Inr (Some (re_blockHash receipt))
     \<and> rp_block rpc 1 L2 (cl_blockNumber log) = Inr (Some (cl_blockHash log))
     \<and> (\<exists>head. rp_safe rpc 1 = Inr (Some head) \<and> cl_blockNumber log \<le> head)"
  by (auto simp: observed_again_def not_less split: option.splits)

lemma l1_receipt_ok: "l1_receipt rpc hash = Inr (Inr r) \<longleftrightarrow> rp_receipt rpc L1 hash = Inr (Some r) \<and> (\<exists>s. rp_status rpc L1 hash = Inr s)"
  by (auto simp: l1_receipt_def split: option.splits)

lemma mirror_receipt_ok: "mirror_receipt rpc hash = Inr (Inr r) \<longleftrightarrow> rp_receipt rpc L1 hash = Inr (Some r) \<and> (\<exists>s. rp_status rpc L1 hash = Inr s)"
  by (auto simp: mirror_receipt_def split: option.splits)

text \<open>Every early end of a step is an outcome that is not settled.\<close>

definition unsettled :: "js_error + (outcome + 'a) \<Rightarrow> bool" where
  "unsettled r \<longleftrightarrow> (\<forall>out. r = Inr (Inl out) \<longrightarrow> oc_kind out \<noteq> O_settled)"

lemma unsettled_bind [intro]:
  assumes "unsettled r" and "\<And>x. unsettled (f x)"
  shows "unsettled (early_bind r f)"
proof (cases r)
  case (Inr s)
  with assms show ?thesis by (cases s) (auto simp: unsettled_def early_bind_def)
qed (simp add: unsettled_def early_bind_def)

lemma unsettled_simps [simp]:
  "unsettled (asked r)" "unsettled (checked ok msg)" "unsettled (goes_on x)" "unsettled (ended out) \<longleftrightarrow> oc_kind out \<noteq> O_settled"
  by (auto simp: unsettled_def asked_def checked_def goes_on_def ended_def res_bind_Inr_iff)

lemma plain_outcome_kind [simp]: "oc_kind (plain_outcome kind hash detail) = kind"
  by (simp add: plain_outcome_def)

lemma final_settled:
  assumes "final_outcome r = Inr out" and "oc_kind out = O_settled" and "unsettled r"
  shows "r = Inr (Inr out)"
proof -
  from assms(1) obtain s where r: "r = Inr s" and s: "(case s of Inl x \<Rightarrow> x | Inr x \<Rightarrow> x) = out"
    by (auto simp: final_outcome_def res_bind_Inr_iff)
  with assms(2,3) show ?thesis by (cases s) (auto simp: unsettled_def)
qed

end
