(* ===== verification/Invoice_Rollback.thy ===== *)
theory Invoice_Rollback
  imports Treasury_Transfers
begin

text \<open>
  \<open>src/src/lib/treasury/invoices.ts\<close>: the treasury state around an invoice (\<open>invoiceSnapshot\<close>), the trace that shows two
  transfers followed by a rejection under a common reverted call (\<open>invoiceTrace\<close>) and the verification of a rollback.
  Contract reads, calldata and receipts are the fields of \<open>invoice_rpc\<close>. A frame of a trace is an object; two frames are the same
  object when they have the same position, which a row therefore carries. The two HTTP requests to the fixture
  (\<open>invoiceControl\<close>, \<open>invoiceEvidence\<close>) carry no logic besides their transport.
\<close>

section \<open>The state around an invoice\<close>

record invoice_anchor =
  an_number :: int
  an_hash :: string
  an_timestamp :: int

text \<open>A value of a contract read: one number, or the five words of an allowance.\<close>

datatype contract_value = Single int | Words int int int int int

datatype state_value = Text string | Texts "string list"

record invoice_snapshot =
  is_l1 :: invoice_anchor
  is_l2 :: invoice_anchor
  is_values :: "(string \<times> state_value) list"
  is_invoice :: "string \<times> int \<times> int" \<comment> \<open>recipient, amount, status\<close>

text \<open>A read names its key, chain, contract, function and arguments.\<close>

type_synonym contract_row = "string \<times> chain \<times> string \<times> string \<times> js list"

record invoice_rpc =
  iv_anchor :: "chain \<Rightarrow> int option \<Rightarrow> js_error + invoice_anchor option" \<comment> \<open>\<^const>\<open>None\<close>: the latest L1 or the safe L2 block\<close>
  iv_again :: "chain \<Rightarrow> int \<Rightarrow> js_error + string option"
  iv_read :: "chain \<Rightarrow> int \<Rightarrow> string \<Rightarrow> string \<Rightarrow> js list \<Rightarrow> js_error + contract_value"
  iv_invoice :: "int \<Rightarrow> string \<Rightarrow> js \<Rightarrow> js_error + string \<times> int \<times> int"
  iv_encode :: "string \<Rightarrow> js list \<Rightarrow> js_error + string"

definition invoice_payment :: "js_object \<Rightarrow> payment option" where
  "invoice_payment i = (case js_prop i ''payment'' of JObj p \<Rightarrow> if js_prop p ''kind'' = JStr ''invoice'' then Some p else None | _ \<Rightarrow> None)"

definition invoice_rows :: "treasury_config \<Rightarrow> js_object \<Rightarrow> payment \<Rightarrow> int \<Rightarrow> contract_row list" where
  "invoice_rows c d p epoch =
     (let prop = js_prop d; text = prop_text d; recipient = js_prop p ''recipient''; safe1 = JStr (tr_safeL1 c); safe2 = JStr (tr_safeL2 c)
      in [(''balanceL1'', L1, text ''tokenL1'', ''balanceOf'', [safe1]),
          (''balanceL2'', L2, text ''tokenL2'', ''balanceOf'', [safe2]),
          (''recipientL1'', L1, text ''tokenL1'', ''balanceOf'', [recipient]),
          (''recipientL2'', L2, text ''tokenL2'', ''balanceOf'', [recipient]),
          (''escrow'', L1, text ''tokenL1'', ''balanceOf'', [prop ''bridgeL1'']),
          (''aliasBalance'', L1, text ''tokenL1'', ''balanceOf'', [prop ''alias'']),
          (''policyBalance'', L2, text ''tokenL2'', ''balanceOf'', [prop ''policy'']),
          (''supply'', L2, text ''tokenL2'', ''totalSupply'', []),
          (''safeNonce'', L2, tr_safeL2 c, ''nonce'', []),
          (''safeL1Nonce'', L1, tr_safeL1 c, ''nonce'', []),
          (''spent'', L2, text ''policy'', ''spent'', [JBig epoch]),
          (''aliasApproval'', L1, text ''tokenL1'', ''allowance'', [prop ''alias'', prop ''bridgeL1'']),
          (''allowanceL1'', L1, text ''moduleL1'', ''getTokenAllowance'', [safe1, prop ''alias'', prop ''tokenL1'']),
          (''allowanceL2'', L2, text ''moduleL2'', ''getTokenAllowance'', [safe2, prop ''policy'', prop ''tokenL2''])])"

text \<open>An allowance of an idle block is advanced to the signed period.\<close>

definition advanced_value :: "int \<Rightarrow> contract_value \<Rightarrow> js_error + state_value" where
  "advanced_value epoch v =
     (case v of
        Single n \<Rightarrow> Inr (Text (show_int n))
      | Words amount spent reset at nonce \<Rightarrow>
          if reset \<noteq> 10 \<or> at smod 10 \<noteq> 0 \<or> at > epoch * 10 then throw ''Invoice allowance period mismatch''
          else Inr (Texts (map show_int (if at < epoch * 10 then [amount, 0, reset, epoch * 10, nonce] else [amount, spent, reset, at, nonce]))))"

definition read_row :: "invoice_rpc \<Rightarrow> invoice_anchor \<Rightarrow> invoice_anchor \<Rightarrow> int \<Rightarrow> contract_row \<Rightarrow> js_error + string \<times> state_value" where
  "read_row rpc l1 l2 epoch row =
     (case row of (key, c, address, name, args) \<Rightarrow>
        res_bind (iv_read rpc c (an_number (if c = L1 then l1 else l2)) address name args) (\<lambda>v.
        res_bind (advanced_value epoch v) (\<lambda>s. Inr (key, s))))"

definition anchor_canonical :: "invoice_rpc \<Rightarrow> chain \<Rightarrow> invoice_anchor \<Rightarrow> js_error + unit" where
  "anchor_canonical rpc c a =
     res_bind (iv_again rpc c (an_number a)) (\<lambda>h. check (h = Some (an_hash a)) ''Invoice evidence block is no longer canonical'')"

definition invoiceSnapshot ::
  "invoice_rpc \<Rightarrow> treasury_config \<Rightarrow> js_object \<Rightarrow> (invoice_anchor \<times> invoice_anchor) option \<Rightarrow> js_error + invoice_snapshot" where
  "invoiceSnapshot rpc c i anchors =
     (case invoice_payment i of
        None \<Rightarrow> throw ''Missing signed invoice''
      | Some p \<Rightarrow> res_bind (js_defined (tr_payments c)) (\<lambda>d.
           res_bind (check (js_truthy (js_prop d ''invoiceMerchant'')) ''Missing signed invoice'') (\<lambda>_.
           res_bind (iv_anchor rpc L1 (map_option (\<lambda>a. an_number (fst a)) anchors)) (\<lambda>b1.
           res_bind (iv_anchor rpc L2 (map_option (\<lambda>a. an_number (snd a)) anchors)) (\<lambda>b2.
             case (b1, b2) of
               (Some l1, Some l2) \<Rightarrow>
                 res_bind (check (case anchors of None \<Rightarrow> True | Some (a1, a2) \<Rightarrow> an_hash l1 = an_hash a1 \<and> an_hash l2 = an_hash a2)
                   ''Invoice evidence block is no longer canonical'') (\<lambda>_.
                 res_bind (js_BigInt (js_prop p ''epoch'')) (\<lambda>epoch.
                 res_bind (check (an_timestamp l1 sdiv 600 = epoch) ''Invoice evidence crosses its signed budget period'') (\<lambda>_.
                 res_bind (res_map (read_row rpc l1 l2 epoch) (invoice_rows c d p epoch)) (\<lambda>values.
                 res_bind (iv_invoice rpc (an_number l1) (prop_text d ''invoiceMerchant'') (js_prop p ''invoiceId'')) (\<lambda>invoice.
                 res_bind (anchor_canonical rpc L1 l1) (\<lambda>_. res_bind (anchor_canonical rpc L2 l2) (\<lambda>_.
                   Inr \<lparr>is_l1 = l1, is_l2 = l2, is_values = values, is_invoice = invoice\<rparr>)))))))
             | _ \<Rightarrow> throw ''Missing canonical invoice observation'')))))"

section \<open>The trace\<close>

datatype invoice_frame =
  Frame (fr_from: "string option") (fr_to: "string option") (fr_input: "string option") (fr_output: "string option")
    (fr_error: "string option") (fr_calls: "invoice_frame list")

text \<open>A row is a frame with its position and its ancestors, outermost first; a position is the list of
  indices from the root.\<close>

type_synonym position = "nat list"
type_synonym trace_row = "(position \<times> invoice_frame) \<times> (position \<times> invoice_frame) list"

fun visit_frame :: "position \<Rightarrow> (position \<times> invoice_frame) list \<Rightarrow> invoice_frame \<Rightarrow> trace_row list"
  and visit_calls :: "position \<Rightarrow> (position \<times> invoice_frame) list \<Rightarrow> nat \<Rightarrow> invoice_frame list \<Rightarrow> trace_row list" where
  "visit_frame pos ancestors (Frame a b i out e calls) =
     ((pos, Frame a b i out e calls), ancestors) # visit_calls pos (ancestors @ [(pos, Frame a b i out e calls)]) 0 calls"
| "visit_calls pos ancestors n [] = []"
| "visit_calls pos ancestors n (f # fs) = visit_frame (pos @ [n]) ancestors f @ visit_calls pos ancestors (Suc n) fs"

definition same_given :: "string option \<Rightarrow> string option \<Rightarrow> bool" where
  "same_given a b = (case (a, b) of (Some x, Some y) \<Rightarrow> x \<noteq> [] \<and> y \<noteq> [] \<and> js_lower x = js_lower y | _ \<Rightarrow> False)"

definition given_text :: "string option \<Rightarrow> bool" where
  "given_text a = (case a of None \<Rightarrow> False | Some x \<Rightarrow> x \<noteq> [])"

text \<open>\<open>rows.findIndex\<close> with a predicate that may throw.\<close>

fun find_index :: "('a \<Rightarrow> js_error + bool) \<Rightarrow> 'a list \<Rightarrow> js_error + nat option" where
  "find_index P [] = Inr None"
| "find_index P (x # xs) = res_bind (P x) (\<lambda>b. if b then Inr (Some 0) else res_bind (find_index P xs) (\<lambda>r. Inr (map_option Suc r)))"

text \<open>A successful \<open>transfer\<close> of an amount to the recipient by a sender.\<close>

definition transfer_row ::
  "invoice_rpc \<Rightarrow> js_object \<Rightarrow> payment \<Rightarrow> string \<Rightarrow> int \<Rightarrow> trace_row \<Rightarrow> js_error + bool" where
  "transfer_row rpc d p sender amount row =
     (let f = snd (fst row) in
      if \<not> same_given (fr_to f) (prop_option d ''tokenL1'') \<or> \<not> same_given (fr_from f) (Some sender) then Inr False
      else res_bind (iv_encode rpc ''transfer'' [js_prop p ''recipient'', JBig amount]) (\<lambda>input.
        if fr_input f \<noteq> Some input \<or> given_text (fr_error f) then Inr False
        else case fr_output f of
          None \<Rightarrow> Inr False
        | Some out \<Rightarrow> if out = [] then Inr False else res_bind (string_BigInt out) (\<lambda>n. Inr (n = 1))))"

text \<open>The rejection of the invoice by the merchant, \<open>InvoiceNotOpen(id)\<close>.\<close>

definition rejection_row :: "invoice_rpc \<Rightarrow> js_object \<Rightarrow> payment \<Rightarrow> trace_row \<Rightarrow> js_error + bool" where
  "rejection_row rpc d p row =
     (let f = snd (fst row) in
      if \<not> same_given (fr_to f) (prop_option d ''invoiceMerchant'') \<or> \<not> same_given (fr_from f) (prop_option d ''alias'') then Inr False
      else res_bind (js_BigInt (js_prop p ''amount'')) (\<lambda>amount.
        res_bind (iv_encode rpc ''accept'' [js_prop p ''invoiceId'', js_prop d ''tokenL1'', js_prop p ''recipient'', JBig amount]) (\<lambda>input.
          Inr (fr_input f = Some input \<and> given_text (fr_error f)
            \<and> (case fr_output f of None \<Rightarrow> False
               | Some out \<Rightarrow> js_lower out = js_lower (''0xa1c43db2'' @ js_slice_from 2 (prop_text p ''invoiceId'')))))))"

definition common_rollback :: "trace_row list \<Rightarrow> nat \<Rightarrow> nat \<Rightarrow> nat \<Rightarrow> bool" where
  "common_rollback rows i j k \<longleftrightarrow>
     list_ex (\<lambda>(pos, f). given_text (fr_error f) \<and> pos \<in> set (map fst (snd (rows ! i))) \<and> pos \<in> set (map fst (snd (rows ! j)))) (snd (rows ! k))"

definition invoiceTrace :: "invoice_rpc \<Rightarrow> treasury_config \<Rightarrow> js_object \<Rightarrow> invoice_frame \<Rightarrow> js_error + unit" where
  "invoiceTrace rpc c i trace =
     (case invoice_payment i of
        None \<Rightarrow> throw ''Missing invoice intent''
      | Some p \<Rightarrow> res_bind (js_defined (tr_payments c)) (\<lambda>d.
           let rows = visit_frame [] [] trace in
           res_bind (find_index (transfer_row rpc d p (prop_text d ''bridgeL1'') 10000000) rows) (\<lambda>first.
           res_bind (find_index (transfer_row rpc d p (tr_safeL1 c) 100000000) rows) (\<lambda>second.
           res_bind (find_index (rejection_row rpc d p) rows) (\<lambda>last.
             check (case (first, second, last) of
                 (Some a, Some b, Some e) \<Rightarrow> a < b \<and> b < e \<and> common_rollback rows a b e
               | _ \<Rightarrow> False) ''No common rollback trace for the two transfers followed by InvoiceNotOpen'')))))"

section \<open>The verification of a rollback\<close>

text \<open>The report of the fixture, the receipts and transactions it names, and the result.\<close>

record invoice_report =
  ir_verified :: bool
  ir_intent :: js_object
  ir_postHash :: "string option"
  ir_closeHash :: "string option"
  ir_l1BlockHash :: "string option"
  ir_before :: "(invoice_anchor \<times> invoice_anchor) option"
  ir_after :: "(invoice_anchor \<times> invoice_anchor) option"

record posting_receipt =
  pr_status :: string
  pr_blockHash :: string
  pr_blockNumber :: int
  pr_transactionIndex :: int

record rollback_rpc =
  rb_invoice :: invoice_rpc
  rb_receipt :: "string \<Rightarrow> js_error + posting_receipt option"
  rb_trace :: "string \<Rightarrow> js_error + invoice_frame"
  rb_safe :: "js_error + int option"
  rb_transaction :: "string \<Rightarrow> js_error + (string option \<times> string) option" \<comment> \<open>target and input\<close>

record invoice_rollback =
  rl_postHash :: string
  rl_closeHash :: string
  rl_block :: string
  rl_before :: "(string \<times> state_value) list"
  rl_after :: "(string \<times> state_value) list"

definition reports_intent :: "invoice_report \<Rightarrow> js_object \<Rightarrow> bool" where
  "reports_intent report i \<longleftrightarrow> ir_verified report
     \<and> list_all (\<lambda>k. js_prop (ir_intent report) k = js_prop i k) [''safeHash'', ''data'', ''sourceNonce'', ''nonce'']
     \<and> same_given (prop_option (ir_intent report) ''sender'') (prop_option i ''sender'')"

text \<open>The parts of the report, which must all be given.\<close>

definition report_parts :: "invoice_report \<Rightarrow> js_object \<Rightarrow> js_error + string \<times> string \<times> (invoice_anchor \<times> invoice_anchor) \<times> (invoice_anchor \<times> invoice_anchor)" where
  "report_parts report i =
     (let bad = throw ''Incomplete invoice rollback evidence'' in
      if invoice_payment i = None \<or> \<not> reports_intent report i then bad
      else case (ir_before report, ir_after report, ir_postHash report, ir_closeHash report) of
          (Some before, Some after, Some post, Some close) \<Rightarrow> if post = [] \<or> close = [] then bad else Inr (post, close, before, after)
        | _ \<Rightarrow> bad)"

text \<open>The closing transaction comes before the posting one, in the same block, which the L2 state after it has reached.\<close>

definition ordered_posting ::
  "invoice_report \<Rightarrow> posting_receipt option \<Rightarrow> posting_receipt option \<Rightarrow> int option \<Rightarrow> invoice_anchor \<times> invoice_anchor \<Rightarrow> js_error + posting_receipt" where
  "ordered_posting report post close safe after =
     (let bad = throw ''Invoice closure and payment are not canonically ordered'' in
      case (post, close) of
        (Some p, Some q) \<Rightarrow>
          if pr_status q \<noteq> ''0x1'' \<or> Some (pr_blockHash p) \<noteq> ir_l1BlockHash report \<or> pr_blockHash q \<noteq> pr_blockHash p
             \<or> pr_transactionIndex q \<ge> pr_transactionIndex p \<or> an_hash (fst after) \<noteq> pr_blockHash p then bad
          else (case safe of None \<Rightarrow> Inl TypeError | Some n \<Rightarrow> if n < an_number (snd after) then bad else Inr p)
      | _ \<Rightarrow> bad)"

definition js_includes :: "string \<Rightarrow> string \<Rightarrow> bool" where
  "js_includes s t = list_ex (\<lambda>n. take (length t) (drop n s) = t) [0..<Suc (length s)]"

definition binds_authorization :: "js_object \<Rightarrow> invoice_frame \<Rightarrow> invoice_snapshot \<Rightarrow> bool" where
  "binds_authorization i trace before \<longleftrightarrow>
     (case fr_input trace of None \<Rightarrow> False | Some s \<Rightarrow> js_includes (js_lower s) (js_lower (js_slice_from 2 (prop_text i ''safeHash''))))
     \<and> (case map_of (is_values before) ''safeNonce'' of Some (Text n) \<Rightarrow> js_prop i ''nonce'' = JStr n | _ \<Rightarrow> False)"

definition rolled_back :: "payment \<Rightarrow> invoice_snapshot \<Rightarrow> invoice_snapshot \<Rightarrow> js_error + unit" where
  "rolled_back p before after =
     (let msg = ''Treasury effects did not fully roll back'' in
      res_bind (check (is_values before = is_values after \<and> snd (snd (is_invoice before)) = 1 \<and> snd (snd (is_invoice after)) = 3
        \<and> same_given (Some (fst (is_invoice after))) (prop_option p ''recipient'')) msg) (\<lambda>_.
      res_bind (js_BigInt (js_prop p ''amount'')) (\<lambda>amount. check (fst (snd (is_invoice after)) = amount) msg)))"

definition closes_invoice :: "invoice_rpc \<Rightarrow> js_object \<Rightarrow> payment \<Rightarrow> (string option \<times> string) option \<Rightarrow> js_error + unit" where
  "closes_invoice rpc d p transaction =
     (let msg = ''Invoice closure does not match this payment'' in
      case transaction of
        None \<Rightarrow> throw msg
      | Some (to, input) \<Rightarrow>
          res_bind (check (same_given to (prop_option d ''invoiceMerchant'')) msg) (\<lambda>_.
          res_bind (iv_encode rpc ''close'' [js_prop p ''invoiceId'']) (\<lambda>expected. check (input = expected) msg)))"

definition verifyInvoiceRollback ::
  "rollback_rpc \<Rightarrow> treasury_config \<Rightarrow> js_object \<Rightarrow> invoice_report \<Rightarrow> js_error + invoice_rollback" where
  "verifyInvoiceRollback rpc c i report =
     res_bind (report_parts report i) (\<lambda>(postHash, closeHash, before0, after0).
     res_bind (js_defined (invoice_payment i)) (\<lambda>p.
     res_bind (rb_receipt rpc postHash) (\<lambda>post.
     res_bind (rb_receipt rpc closeHash) (\<lambda>close.
     res_bind (rb_trace rpc postHash) (\<lambda>trace.
     res_bind (invoiceSnapshot (rb_invoice rpc) c i (Some before0)) (\<lambda>before.
     res_bind (invoiceSnapshot (rb_invoice rpc) c i (Some after0)) (\<lambda>after.
     res_bind (rb_safe rpc) (\<lambda>safe.
     res_bind (ordered_posting report post close safe after0) (\<lambda>posting.
     res_bind (check (same_given (fr_to trace) (Some (tr_registry c))) ''Rollback trace is not a protocol posting'') (\<lambda>_.
     res_bind (check (binds_authorization i trace before) ''Rollback evidence does not bind this Safe authorization'') (\<lambda>_.
     res_bind (invoiceTrace (rb_invoice rpc) c i trace) (\<lambda>_.
     res_bind (rolled_back p before after) (\<lambda>_.
     res_bind (rb_transaction rpc closeHash) (\<lambda>transaction.
     res_bind (js_defined (tr_payments c)) (\<lambda>d.
     res_bind (closes_invoice (rb_invoice rpc) d p transaction) (\<lambda>_.
       Inr \<lparr>rl_postHash = postHash, rl_closeHash = closeHash, rl_block = show_int (pr_blockNumber posting),
            rl_before = is_values before, rl_after = is_values after\<rparr>))))))))))))))))"

end
