(* ===== verification/Treasury_Client.thy ===== *)
theory Treasury_Client
  imports Invoice_Rollback
begin

text \<open>
  \<open>src/src/lib/treasury/client.ts\<close>: the outcome of a submission on L2 (\<open>TreasuryClient.outcome\<close>), the closing of a request
  (\<open>canonicalRequestRetired\<close>), the source of a transaction; and \<open>settlement.ts\<close>: the settlement evidence and the transactions
  that are shown for an outcome.
\<close>

section \<open>Sources of a transaction\<close>

record treasury_snapshot =
  sn_source :: "string option"
  sn_nonce :: int
  sn_fingerprint :: string

definition source_or_l2 :: "string option \<Rightarrow> string" where
  "source_or_l2 s = (case s of None \<Rightarrow> ''l2'' | Some x \<Rightarrow> x)"

definition unchanged :: "treasury_snapshot \<Rightarrow> treasury_snapshot \<Rightarrow> bool" where
  "unchanged a b \<longleftrightarrow> source_or_l2 (sn_source a) = source_or_l2 (sn_source b) \<and> sn_nonce a = sn_nonce b \<and> sn_fingerprint a = sn_fingerprint b"

definition transactionSource :: "treasury_config \<Rightarrow> safe_transaction \<Rightarrow> js_error + chain" where
  "transactionSource c tx =
     (if st_chainId tx = tc_chainId (tr_l1 c) \<and> equal_text (st_verifyingContract tx) (tr_safeL1 c) then Inr L1
      else res_bind (check (st_chainId tx = tc_chainId (tr_l2 c) \<and> equal_text (st_verifyingContract tx) (tr_safeL2 c))
        ''Safe signing domain does not match this treasury'') (\<lambda>_. Inr L2))"

definition submissionSource :: "treasury_config \<Rightarrow> safe_transaction \<Rightarrow> js_error + chain" where
  "submissionSource c tx = (if standard_bridge c then Inr L1 else transactionSource c tx)"

section \<open>The closing of a request\<close>

record fixture_report =
  fx_phase :: string
  fx_detail :: string
  fx_mode :: "string option"
  fx_id :: js
  fx_recipient :: "string option"
  fx_amount :: js
  fx_report :: invoice_report

record client_rpc =
  cn_rpc :: treasury_rpc
  cn_rollback :: rollback_rpc
  cn_evidence :: "js_error + fixture_report option" \<comment> \<open>\<open>invoiceEvidence\<close>\<close>
  cn_head :: "js_error + (int \<times> string) option" \<comment> \<open>the safe L2 block\<close>
  cn_again :: "int \<Rightarrow> js_error + string option"
  cn_safeNonce :: "int \<Rightarrow> js_error + int option" \<comment> \<open>\<^const>\<open>None\<close>: not a \<open>bigint\<close>\<close>
  cn_sourceNonce :: "int \<Rightarrow> js_error + int"

text \<open>Both nonces, of the Safe and of the sender, are past those of the request.\<close>

definition canonicalRequestRetired :: "client_rpc \<Rightarrow> js_object \<Rightarrow> js_error + bool" where
  "canonicalRequestRetired rpc i =
     res_bind (cn_head rpc) (\<lambda>head. case head of
         None \<Rightarrow> throw ''Canonical request observation is unavailable''
       | Some (number, h) \<Rightarrow>
           res_bind (cn_safeNonce rpc number) (\<lambda>safeNonce.
           res_bind (cn_sourceNonce rpc number) (\<lambda>sourceNonce.
           res_bind (cn_again rpc number) (\<lambda>again.
           res_bind (check (again = Some h) ''Canonical request observation changed during verification'') (\<lambda>_.
             case safeNonce of
               None \<Rightarrow> Inr False
             | Some n \<Rightarrow> res_bind (js_BigInt (js_prop i ''nonce'')) (\<lambda>nonce.
                 if n \<le> nonce then Inr False
                 else res_bind (js_BigInt (js_prop i ''sourceNonce'')) (\<lambda>source. Inr (sourceNonce > source))))))))"

section \<open>The outcome on L2\<close>

text \<open>The last execution of the Safe transaction in the logs, when the wallet did not report a hash.\<close>

definition last_execution :: "outcome_lib \<Rightarrow> treasury_config \<Rightarrow> js_object \<Rightarrow> chain_log list \<Rightarrow> string option" where
  "last_execution lib c i logs =
     foldl (\<lambda>found log. if executes lib (tr_safeL2 c) (prop_text i ''safeHash'') log then Some (cl_transactionHash log) else found) None logs"

definition l2_hash :: "outcome_lib \<Rightarrow> treasury_rpc \<Rightarrow> treasury_config \<Rightarrow> js_object \<Rightarrow> js_error + string option" where
  "l2_hash lib rpc c i =
     (case intent_hash i of
        Some h \<Rightarrow> Inr (Some h)
      | None \<Rightarrow> res_bind (rp_logs rpc L2 (Executions (js_prop i ''startBlock'') None)) (\<lambda>logs. Inr (last_execution lib c i logs)))"

definition is_action :: "chain_transaction \<Rightarrow> treasury_config \<Rightarrow> js_object \<Rightarrow> bool" where
  "is_action tx c i \<longleftrightarrow> equal_text (ct_from tx) (prop_text i ''sender'') \<and> equal_text (ct_to tx) (tr_safeL2 c) \<and> equal_text (ct_input tx) (prop_text i ''data'')"

definition action_contributions :: "outcome_lib \<Rightarrow> treasury_config \<Rightarrow> js_object \<Rightarrow> chain_receipt \<Rightarrow> js_error + (string \<times> string) option" where
  "action_contributions lib c i receipt =
     (if has_payment i then res_bind (js_defined (tr_payments c)) (\<lambda>d. treasury_settled lib d (js_prop i ''payment'') (re_logs receipt)) else Inr None)"

definition action_result :: "outcome_lib \<Rightarrow> treasury_config \<Rightarrow> js_object \<Rightarrow> string \<Rightarrow> chain_receipt \<Rightarrow> js_error + outcome" where
  "action_result lib c i hash receipt =
     (let success = list_ex (succeeds lib (tr_safeL2 c) (prop_text i ''safeHash'')) (re_logs receipt); ok = (re_status receipt = ''0x1'' \<and> success)
      in res_bind (action_contributions lib c i receipt) (\<lambda>contributions.
         res_bind (check (\<not> has_payment i \<or> \<not> success \<or> contributions \<noteq> None)
           ''Safe succeeded without the expected payment event; investigate this transaction'') (\<lambda>_.
         Inr \<lparr>oc_kind = (if ok then O_settled else O_rejected),
           oc_detail = (if ok then ''Settled on L1. Safe execution is in the canonical L2 safe chain.'' else ''Canonical transaction failed; the Safe action did not succeed.''),
           oc_stage = (if ok then None else Some ''execution''), oc_hash = Some hash, oc_sourceBlock = None,
           oc_block = Some (show_int (re_blockNumber receipt)), oc_l1 = None, oc_l2 = Some hash, oc_contributions = contributions, oc_rollback = None\<rparr>)))"

text \<open>The receipt is in a canonical block that the safe head has reached.\<close>

definition safely_included :: "chain_receipt \<Rightarrow> int option \<Rightarrow> string option \<Rightarrow> bool" where
  "safely_included receipt safe block \<longleftrightarrow> (case safe of None \<Rightarrow> False | Some n \<Rightarrow> re_blockNumber receipt \<le> n) \<and> block = Some (re_blockHash receipt)"

definition executed_outcome ::
  "outcome_lib \<Rightarrow> treasury_rpc \<Rightarrow> treasury_config \<Rightarrow> js_object \<Rightarrow> string \<Rightarrow> chain_receipt \<Rightarrow> js_error + outcome" where
  "executed_outcome lib rpc c i hash receipt =
     res_bind (rp_safe rpc 0) (\<lambda>safe.
     res_bind (rp_block rpc 0 L2 (re_blockNumber receipt)) (\<lambda>block.
     res_bind (rp_transaction rpc L2 hash) (\<lambda>transaction.
     res_bind (check (case transaction of None \<Rightarrow> False | Some tx \<Rightarrow> is_action tx c i) ''Transaction hash does not match this reviewed action'') (\<lambda>_.
       if safely_included receipt safe block then action_result lib c i hash receipt
       else Inr (plain_outcome O_pending (Some hash) ''Executed speculatively. Waiting for canonical L1 settlement.'')))))"

definition unresolved_outcome :: "string \<Rightarrow> request_status option \<Rightarrow> outcome" where
  "unresolved_outcome hash status =
     (case composer_ended status of
        Some reason \<Rightarrow> plain_outcome O_rejected (Some hash) (''Composer ended this request ('' @ reason @ ''). Refresh owners and nonce before a new review.'')
      | None \<Rightarrow> plain_outcome O_pending (Some hash) (if status = None then ''Outcome unresolved. Checking the submitted hash; no automatic resubmission.''
          else ''Composer accepted the request. Waiting for canonical settlement.''))"

text \<open>The fixture closed the invoice before the submission and the Composer discarded the request.\<close>

definition rejected_in_preparation :: "payment \<Rightarrow> request_status option \<Rightarrow> fixture_report \<Rightarrow> bool" where
  "rejected_in_preparation p status report \<longleftrightarrow> composer_ended status = Some ''PoolDiscarded'' \<and> fx_mode report = Some ''preparation'' \<and> fx_phase report = ''open''
     \<and> js_strict_eq (fx_id report) (js_prop p ''invoiceId'') \<and> js_strict_eq (fx_amount report) (js_prop p ''amount'')
     \<and> (case fx_recipient report of None \<Rightarrow> False | Some r \<Rightarrow> equal_text r (prop_text p ''recipient''))"

definition verified_invoice_outcome ::
  "client_rpc \<Rightarrow> treasury_config \<Rightarrow> js_object \<Rightarrow> string \<Rightarrow> request_status option \<Rightarrow> fixture_report \<Rightarrow> js_error + outcome" where
  "verified_invoice_outcome rpc c i hash status report =
     res_bind (if composer_ended status \<noteq> None then Inr True else canonicalRequestRetired rpc i) (\<lambda>closed.
       if \<not> closed then Inr (plain_outcome O_pending (Some hash) ''L1 payment effects rolled back. Waiting for Composer to finish reconciliation.'')
       else res_bind (verifyInvoiceRollback (cn_rollback rpc) c i (fx_report report)) (\<lambda>rollback.
         Inr ((plain_outcome O_rejected (Some hash) ''Rollback verified at L1 settlement. Both payment legs executed before invoice rejection; no payment funds or budget were consumed.'')
           \<lparr>oc_rollback := Some (rl_postHash rollback, rl_block rollback)\<rparr>)))"

definition invoice_outcome ::
  "client_rpc \<Rightarrow> treasury_config \<Rightarrow> js_object \<Rightarrow> payment \<Rightarrow> string \<Rightarrow> request_status option \<Rightarrow> js_error + outcome" where
  "invoice_outcome rpc c i p hash status =
     res_bind (cn_evidence rpc) (\<lambda>evidence. case evidence of
         None \<Rightarrow> Inr (unresolved_outcome hash status)
       | Some report \<Rightarrow>
           if fx_phase report = ''verified'' then verified_invoice_outcome rpc c i hash status report
           else (case (fx_phase report = ''unverified'', composer_ended status) of
               (True, Some reason) \<Rightarrow> Inr (plain_outcome O_rejected (Some hash)
                 (''Composer ended this request ('' @ reason @ ''). The fixture did not verify the intended rollback: '' @ fx_detail report))
             | _ \<Rightarrow>
                 if fx_phase report \<in> set [''armed'', ''executing'', ''unverified'']
                 then Inr (plain_outcome O_pending (Some hash) (if fx_phase report = ''unverified'' then ''Invoice outcome remains unverified: '' @ fx_detail report
                        else ''Invoice payment is being checked for canonical rollback evidence.''))
                 else if rejected_in_preparation p status report
                 then Inr ((plain_outcome O_rejected (Some hash)
                   ''Rejected during preparation: the fixture closed this invoice before submission. Composer discarded the request; no L1 rollback is claimed.'')
                   \<lparr>oc_stage := Some ''preparation''\<rparr>)
                 else Inr (unresolved_outcome hash status)))"

definition l2_outcome :: "outcome_lib \<Rightarrow> client_rpc \<Rightarrow> treasury_config \<Rightarrow> js_object \<Rightarrow> js_error + outcome" where
  "l2_outcome lib rpc c i =
     res_bind (l2_hash lib (cn_rpc rpc) c i) (\<lambda>found. case found of
         None \<Rightarrow> Inr (plain_outcome O_unknown None ''No transaction hash yet. Check wallet activity; this action will not be resubmitted automatically.'')
       | Some hash \<Rightarrow>
           res_bind (rp_receipt (cn_rpc rpc) L2 hash) (\<lambda>receipt.
           res_bind (rp_status (cn_rpc rpc) L2 hash) (\<lambda>status.
             case (receipt, invoice_payment i) of
               (Some r, _) \<Rightarrow> executed_outcome lib (cn_rpc rpc) c i hash r
             | (None, Some p) \<Rightarrow> invoice_outcome rpc c i p hash status
             | (None, None) \<Rightarrow> Inr (unresolved_outcome hash status))))"

definition treasury_outcome :: "outcome_lib \<Rightarrow> client_rpc \<Rightarrow> treasury_config \<Rightarrow> js_object \<Rightarrow> js_error + outcome" where
  "treasury_outcome lib rpc c i =
     (if payment_source i = JStr ''l1'' then l1PaymentOutcome lib (cn_rpc rpc) c i
      else if standard_bridge c then mirrorRelayOutcome lib (cn_rpc rpc) c i
      else l2_outcome lib rpc c i)"

section \<open>Settlement evidence\<close>

record explorer_record =
  er_canonicalL2 :: bool
  er_l1TransactionHash :: string
  er_l1BlockHash :: string
  er_l1BlockNumber :: int
  er_l2Blocks :: "(int \<times> string) list option"

record posting =
  po_status :: string
  po_transactionHash :: string
  po_blockHash :: string
  po_blockNumber :: int

record explorer_rpc =
  ex_receipt :: "string \<Rightarrow> js_error + chain_receipt option"
  ex_block :: "nat \<Rightarrow> chain \<Rightarrow> int \<Rightarrow> js_error + string option"
  ex_record :: "string \<Rightarrow> js_error + explorer_record option"
  ex_posting :: "string \<Rightarrow> js_error + posting option"

record treasury_settlement =
  ts_l1Transaction :: string
  ts_l1Block :: string
  ts_l2Block :: string

text \<open>\<open>same(a?, b?)\<close> of a text and an optional text, both not empty.\<close>

definition same_block :: "string \<Rightarrow> string option \<Rightarrow> bool" where
  "same_block h other = (case other of None \<Rightarrow> False | Some b \<Rightarrow> h \<noteq> [] \<and> b \<noteq> [] \<and> js_lower h = js_lower b)"

definition record_settles :: "explorer_record \<Rightarrow> string \<Rightarrow> int \<Rightarrow> bool" where
  "record_settles s h n \<longleftrightarrow> er_canonicalL2 s \<and> is_hex_of 64 (er_l1TransactionHash s) \<and> is_hex_of 64 (er_l1BlockHash s)
     \<and> (case er_l2Blocks s of None \<Rightarrow> False | Some blocks \<Rightarrow> list_ex (\<lambda>(m, b). same_block b (Some h) \<and> m = n) blocks)"

definition posting_confirms :: "explorer_record \<Rightarrow> posting option \<Rightarrow> bool" where
  "posting_confirms s posting = (case posting of
     None \<Rightarrow> False
   | Some p \<Rightarrow> po_status p = ''0x1'' \<and> same_block (po_transactionHash p) (Some (er_l1TransactionHash s))
       \<and> same_block (po_blockHash p) (Some (er_l1BlockHash s)) \<and> po_blockNumber p = er_l1BlockNumber s)"

definition settled_block :: "explorer_rpc \<Rightarrow> string \<Rightarrow> int \<Rightarrow> chain_receipt \<Rightarrow> js_error + treasury_settlement option" where
  "settled_block rpc blockText number receipt =
     res_bind (ex_record rpc (re_blockHash receipt)) (\<lambda>found. case found of
         None \<Rightarrow> Inr None
       | Some s \<Rightarrow>
           if \<not> record_settles s (re_blockHash receipt) number then Inr None
           else res_bind (ex_posting rpc (er_l1TransactionHash s)) (\<lambda>posting.
                res_bind (ex_block rpc 0 L1 (er_l1BlockNumber s)) (\<lambda>anchor.
                res_bind (ex_block rpc 1 L2 number) (\<lambda>again.
                  if posting_confirms s posting \<and> same_block (er_l1BlockHash s) anchor \<and> same_block (re_blockHash receipt) again
                  then Inr (Some \<lparr>ts_l1Transaction = er_l1TransactionHash s, ts_l1Block = show_int (er_l1BlockNumber s), ts_l2Block = blockText\<rparr>)
                  else Inr None))))"

definition treasurySettlement :: "explorer_rpc \<Rightarrow> outcome \<Rightarrow> js_error + treasury_settlement option" where
  "treasurySettlement rpc out =
     (case (oc_kind out, oc_block out, oc_l2 out) of
        (O_settled, Some blockText, Some l2) \<Rightarrow>
          if blockText = [] \<or> l2 = [] then Inr None
          else res_bind (string_BigInt blockText) (\<lambda>number.
               res_bind (ex_receipt rpc l2) (\<lambda>receipt.
               res_bind (ex_block rpc 0 L2 number) (\<lambda>block.
                 case receipt of
                   None \<Rightarrow> Inr None
                 | Some r \<Rightarrow>
                     if re_status r \<noteq> ''0x1'' \<or> re_blockNumber r \<noteq> number \<or> \<not> same_block (re_blockHash r) block then Inr None
                     else settled_block rpc blockText number r)))
      | _ \<Rightarrow> Inr None)"

definition settlementIdentity :: "outcome option \<Rightarrow> string option" where
  "settlementIdentity out =
     (case out of
        None \<Rightarrow> None
      | Some x \<Rightarrow> (case (oc_kind x, oc_l2 x, oc_block x) of
          (O_settled, Some l2, Some b) \<Rightarrow> if l2 = [] \<or> b = [] then None else Some (l2 @ '':'' @ b)
        | _ \<Rightarrow> None))"

section \<open>The transactions of an outcome\<close>

datatype link_role = Execution_link | Settlement_link

record treasury_link =
  tk_chain :: chain
  tk_hash :: string
  tk_block :: "string option"
  tk_role :: link_role

definition link_source :: "js_object \<Rightarrow> js" where
  "link_source i = js_coalesce (js_prop i ''submissionChain'') (js_coalesce (payment_source i) (JStr ''l2''))"

definition first_some :: "'a option \<Rightarrow> 'a option \<Rightarrow> 'a option" where
  "first_some a b = (case a of None \<Rightarrow> b | Some x \<Rightarrow> Some x)"

definition execution_link :: "chain \<Rightarrow> string option \<Rightarrow> string option \<Rightarrow> treasury_link list" where
  "execution_link c hash block =
     (case hash of None \<Rightarrow> [] | Some h \<Rightarrow> if h = [] then [] else [\<lparr>tk_chain = c, tk_hash = h, tk_block = block, tk_role = Execution_link\<rparr>])"

text \<open>The posting transaction is a link of its own, unless it is the execution: then it fills in its block.\<close>

fun post_link :: "string option \<Rightarrow> string option \<Rightarrow> treasury_link list \<Rightarrow> treasury_link list" where
  "post_link None block links = links"
| "post_link (Some post) block links =
     (if post = [] then links
      else case find (\<lambda>l. js_lower (tk_hash l) = js_lower post) links of
          None \<Rightarrow> links @ [\<lparr>tk_chain = L1, tk_hash = post, tk_block = block, tk_role = Settlement_link\<rparr>]
        | Some l \<Rightarrow> map (\<lambda>l. if js_lower (tk_hash l) = js_lower post then l\<lparr>tk_block := first_some (tk_block l) block\<rparr> else l) links)"

definition treasuryTransactions ::
  "js_object option \<Rightarrow> outcome option \<Rightarrow> treasury_settlement option \<Rightarrow> treasury_link list" where
  "treasuryTransactions intent out settlement =
     (case intent of
        None \<Rightarrow> []
      | Some i \<Rightarrow>
          let rollback = Option.bind out oc_rollback;
              hash = first_some (Option.bind out oc_hash) (prop_option i ''hash'');
              l1 = first_some (Option.bind out oc_l1) (if link_source i = JStr ''l1'' then hash else None);
              l2 = first_some (Option.bind out oc_l2) (if link_source i = JStr ''l2'' then hash else None);
              post = first_some (map_option ts_l1Transaction settlement) (map_option fst rollback);
              postBlock = first_some (map_option ts_l1Block settlement) (map_option snd rollback)
          in post_link post postBlock (execution_link L1 l1 (Option.bind out oc_sourceBlock))
             @ execution_link L2 l2 (Option.bind out oc_block))"

end
