(* ===== verification/Treasury_Outcome_Properties.thy ===== *)
theory Treasury_Outcome_Properties
  imports Treasury_Transfers Payment_History_Invariant
begin

text \<open>
  A submission is reported as settled only with the whole evidence: its own transaction in a canonical L1 block, the
  execution of the signed Safe transaction, and the payment, or the mint, in a canonical L2 block.
\<close>

section \<open>Early ends are not settled\<close>

lemma unsettled_if: "(b \<Longrightarrow> unsettled x) \<Longrightarrow> (\<not> b \<Longrightarrow> unsettled y) \<Longrightarrow> unsettled (if b then x else y)"
  by simp

lemma unsettled_option: "unsettled a \<Longrightarrow> (\<And>x. unsettled (f x)) \<Longrightarrow> unsettled (case m of None \<Rightarrow> a | Some x \<Rightarrow> f x)"
  by (cases m) auto

lemma unsettled_list1:
  "unsettled a \<Longrightarrow> (\<And>x. unsettled (f x)) \<Longrightarrow> unsettled b \<Longrightarrow> unsettled (case xs of [] \<Rightarrow> a | [x] \<Rightarrow> f x | _ \<Rightarrow> b)"
  by (cases xs; cases "tl xs") auto

lemma missing_receipt_kind [simp]: "oc_kind (missing_receipt hash status) \<noteq> O_settled"
  by (simp add: missing_receipt_def split: option.split)

lemma pending_kinds [simp]: "oc_kind (waiting_l2 hash) = O_pending" "oc_kind (mirror_pending hash) = O_pending" "oc_kind (transfer_pending hash r) = O_pending"
  by (simp_all add: waiting_l2_def mirror_pending_def transfer_pending_def)

lemma unsettled_l1_receipt [simp]: "unsettled (l1_receipt rpc hash)"
  unfolding l1_receipt_def by (intro unsettled_bind unsettled_option) simp_all

lemma unsettled_mirror_receipt [simp]: "unsettled (mirror_receipt rpc hash)"
  unfolding mirror_receipt_def by (intro unsettled_bind) (auto split: option.split)

lemma unsettled_l1_inclusion [simp]: "unsettled (l1_included lib rpc c i hash)"
  unfolding l1_included_def by (intro unsettled_bind unsettled_if) simp_all

lemma unsettled_mirror_inclusion [simp]: "unsettled (mirror_inclusion rpc i proxy hash)"
  unfolding mirror_inclusion_def by (intro unsettled_bind unsettled_if) simp_all

lemma unsettled_safe_head [simp]: "oc_kind pending \<noteq> O_settled \<Longrightarrow> unsettled (safe_head rpc i pending)"
  unfolding safe_head_def by (intro unsettled_bind unsettled_option unsettled_if) simp_all

lemma unsettled_observed_again [simp]: "oc_kind pending \<noteq> O_settled \<Longrightarrow> unsettled (observed_again rpc receipt log pending)"
  unfolding observed_again_def by (intro unsettled_bind unsettled_if) simp_all

lemma unsettled_payment_marker [simp]: "unsettled (payment_marker lib rpc i topics safe hash)"
  unfolding payment_marker_def by (intro unsettled_bind unsettled_list1) simp_all

lemma unsettled_l2_payment [simp]: "unsettled (l2_payment lib rpc d i topics safe hash event)"
  unfolding l2_payment_def by (intro unsettled_bind unsettled_option unsettled_if) simp_all

lemma unsettled_transfer_delivery [simp]: "oc_kind pending \<noteq> O_settled \<Longrightarrow> unsettled (transfer_delivery lib rpc c d i safe receipt call pending)"
  unfolding transfer_delivery_def Let_def by (intro unsettled_bind unsettled_list1) simp_all

lemma unsettled_transfer_mint [simp]: "oc_kind pending \<noteq> O_settled \<Longrightarrow> unsettled (transfer_mint lib rpc c d amount safe call log pending)"
  unfolding transfer_mint_def by (intro unsettled_bind unsettled_option unsettled_if) simp_all

lemma unsettled_transferOutcome [simp]: "unsettled (transferOutcome lib rpc c d i p hash receipt)"
  unfolding transferOutcome_def Let_def by (intro unsettled_bind) simp_all

lemma unsettled_budget_outcome [simp]: "unsettled (budget_outcome lib rpc d i reviewed hash receipt)"
  unfolding budget_outcome_def Let_def by (intro unsettled_bind) simp_all

lemma unsettled_l1_steps [simp]: "unsettled (l1_outcome_steps lib rpc c i)"
  unfolding l1_outcome_steps_def by (intro unsettled_bind unsettled_option unsettled_if) simp_all

lemma unsettled_mirror_execution [simp]: "oc_kind pending \<noteq> O_settled \<Longrightarrow> unsettled (mirror_execution lib rpc c i receipt callHash safe pending)"
  unfolding mirror_execution_def by (intro unsettled_bind unsettled_list1) simp_all

lemma unsettled_mirror_steps [simp]: "unsettled (mirror_outcome_steps lib rpc c i)"
  unfolding mirror_outcome_steps_def Let_def by (intro unsettled_bind) (auto split: prod.split option.split intro!: unsettled_bind)

section \<open>L1 payments\<close>

lemma l1_included_ok:
  assumes "l1_included lib rpc c i hash = Inr (Inr receipt)" and "rp_block rpc 1 L1 (re_blockNumber receipt) = Inr (Some (re_blockHash receipt))"
  shows "submission_included rpc i (tr_safeL1 c) hash receipt \<and> (\<exists>log \<in> set (re_logs receipt). succeeds lib (tr_safeL1 c) (prop_text i ''safeHash'') log)"
  using assms by (auto simp: l1_included_def l1_receipt_ok submission_included_def list_ex_iff split: if_splits)

lemma list1_case_iff: "(case xs of [] \<Rightarrow> ended a | [x] \<Rightarrow> goes_on x | _ \<Rightarrow> asked (throw msg)) = Inr (Inr y) \<longleftrightarrow> xs = [y]"
  by (cases xs; cases "tl xs") auto

text \<open>A log of the Safe is an \<open>ExecutionSuccess\<close> of the signed transaction.\<close>

definition safe_executed :: "outcome_lib \<Rightarrow> string \<Rightarrow> string \<Rightarrow> chain_log list \<Rightarrow> bool" where
  "safe_executed lib safe safeHash logs \<longleftrightarrow>
     (\<exists>log \<in> set logs. \<exists>e. equal_text (cl_address log) safe \<and> decodeSafeExecution lib log = Some e \<and> sv_success e \<and> sv_txHash e = safeHash)"

lemma safe_executed_iff: "(\<exists>log \<in> set logs. succeeds lib safe safeHash log) \<longleftrightarrow> safe_executed lib safe safeHash logs"
  by (auto simp: safe_executed_def succeeds_def split: option.splits)

text \<open>The payment of a budget submission: the marker of the signed call and the payment in one canonical receipt.\<close>

definition budget_paid :: "outcome_lib \<Rightarrow> treasury_rpc \<Rightarrow> js_object \<Rightarrow> js_object \<Rightarrow> safe_transaction \<Rightarrow> string \<times> string \<Rightarrow> bool" where
  "budget_paid lib rpc d i reviewed contributions \<longleftrightarrow>
     (\<exists>log r topics. topics = ou_markerTopics lib (sm_nonce (st_message reviewed) + 1) (ou_keccak lib (sm_data (st_message reviewed)))
        \<and> canonical_log rpc log r \<and> (\<exists>l \<in> set (re_logs r). marks_payment (prop_text d ''policy'') topics l)
        \<and> treasury_settled lib d (js_prop i ''payment'') (re_logs r) = Inr (Some contributions))"

definition transfer_minted :: "outcome_lib \<Rightarrow> treasury_rpc \<Rightarrow> treasury_config \<Rightarrow> js_object \<Rightarrow> payment \<Rightarrow> chain_receipt \<Rightarrow> bool" where
  "transfer_minted lib rpc c d p receipt \<longleftrightarrow>
     (\<exists>amount call log r s. js_BigInt (js_prop p ''amount'') = Inr amount \<and> canonical_log rpc log r
        \<and> outbound_calls lib c d amount (re_logs receipt) = [call]
        \<and> rp_settlement rpc (cl_blockHash log) = Inr s \<and> settled_with receipt log s \<and> mints_tokens lib c d amount call log r)"

lemma budget_outcome_ok:
  assumes "budget_outcome lib rpc d i reviewed hash receipt = Inr (Inr out)"
  shows "rp_block rpc 1 L1 (re_blockNumber receipt) = Inr (Some (re_blockHash receipt)) \<and> oc_hash out = Some hash
    \<and> (\<exists>x. oc_contributions out = Some x \<and> budget_paid lib rpc d i reviewed x)"
proof -
  let ?topics = "ou_markerTopics lib (sm_nonce (st_message reviewed) + 1) (ou_keccak lib (sm_data (st_message reviewed)))"
  from assms obtain safe event x where "l2_payment lib rpc d i ?topics safe hash event = Inr (Inr x)"
    and a: "observed_again rpc receipt event (plain_outcome O_pending (Some hash) ''Chain observations changed during verification. Rechecking settlement.'') = Inr (Inr ())"
    and out: "out = settled_outcome hash receipt event x ''Settled on L1. The L1 Safe execution and matching L2 payment are canonical.''"
    unfolding budget_outcome_def Let_def by auto
  then obtain r where r: "rp_receipt rpc L2 (cl_transactionHash event) = Inr (Some r)" "re_blockHash r = cl_blockHash event" "re_status r = ''0x1''"
    "list_ex (marks_payment (prop_text d ''policy'') ?topics) (re_logs r)" "treasury_settled lib d (js_prop i ''payment'') (re_logs r) = Inr (Some x)"
    by (auto simp: l2_payment_def split: option.splits if_splits)
  have "canonical_log rpc event r" using r a by (auto simp: observed_again_ok canonical_log_def)
  moreover have "\<exists>l \<in> set (re_logs r). marks_payment (prop_text d ''policy'') ?topics l" using r(4) by (auto simp: list_ex_iff)
  ultimately have "budget_paid lib rpc d i reviewed x" unfolding budget_paid_def using r(5) by blast
  with a out show ?thesis by (auto simp: observed_again_ok settled_outcome_def)
qed

lemma settled_logs_member:
  "settled_logs rpc receipt logs = Inr found \<Longrightarrow> log \<in> set found \<Longrightarrow> \<exists>s. rp_settlement rpc (cl_blockHash log) = Inr s \<and> settled_with receipt log s"
  by (induction rpc receipt logs arbitrary: found rule: settled_logs.induct) (auto simp: res_bind_Inr_iff split: if_splits)

lemma transfer_outcome_ok:
  assumes "transferOutcome lib rpc c d i p hash receipt = Inr (Inr out)"
  shows "rp_block rpc 1 L1 (re_blockNumber receipt) = Inr (Some (re_blockHash receipt)) \<and> oc_hash out = Some hash
    \<and> oc_contributions out = Some (prop_text p ''amount'', ''0'') \<and> transfer_minted lib rpc c d p receipt"
proof -
  from assms obtain amount safe call log where amount: "js_BigInt (js_prop p ''amount'') = Inr amount"
    and c: "transfer_call lib rpc c d amount hash receipt = Inr call"
    and l: "transfer_delivery lib rpc c d i safe receipt call (transfer_pending hash receipt) = Inr (Inr log)"
    and m: "transfer_mint lib rpc c d amount safe call log (transfer_pending hash receipt) = Inr (Inr ())"
    and a: "observed_again rpc receipt log (transfer_pending hash receipt) = Inr (Inr ())"
    and out: "out = settled_outcome hash receipt log (prop_text p ''amount'', ''0'') ''Transfer completed. The EEZ-X Safe received the tokens.''"
    unfolding transferOutcome_def Let_def by auto
  from c have one: "outbound_calls lib c d amount (re_logs receipt) = [call]"
    unfolding transfer_call_def Let_def
    by (cases "outbound_calls lib c d amount (re_logs receipt)"; cases "tl (outbound_calls lib c d amount (re_logs receipt))") (auto simp: res_bind_Inr_iff)
  from l obtain logs where "settled_logs rpc receipt logs = Inr [log]"
    unfolding transfer_delivery_def Let_def early_bind_go early_simps list1_case_iff by blast
  from settled_logs_member [OF this] obtain s where s: "rp_settlement rpc (cl_blockHash log) = Inr s" "settled_with receipt log s" by auto
  from m obtain r where r: "rp_receipt rpc L2 (cl_transactionHash log) = Inr (Some r)" "re_blockHash r = cl_blockHash log" "mints_tokens lib c d amount call log r"
    by (auto simp: transfer_mint_def split: option.splits if_splits)
  have "canonical_log rpc log r" using r a by (auto simp: observed_again_ok canonical_log_def mints_tokens_def)
  with amount one s r(3) have "transfer_minted lib rpc c d p receipt" unfolding transfer_minted_def by blast
  with a out show ?thesis by (auto simp: observed_again_ok settled_outcome_def)
qed

text \<open>C2. An L1 submission is reported as settled only if its transaction is the reviewed one, sent by its sender with its
  nonce and included in an L1 block that is still canonical, executes the signed Safe transaction, whose hash is that of
  the saved payment, and, in an L2 block that is still canonical and not after the safe head, a successful transaction has the marker of this
  authorization and the payment with the reported contributions or, for a transfer, the delivery of its only bridge call, settled by
  the block of the submission, with the mint of exactly its amount.\<close>
theorem l1_payment_settled:
  assumes "l1PaymentOutcome lib rpc c i = Inr out" and "oc_kind out = O_settled"
  shows "\<exists>p d hash receipt nonce reviewed x. js_prop i ''payment'' = JObj p \<and> tr_payments c = Some d \<and> js_BigInt (js_prop i ''nonce'') = Inr nonce
    \<and> recordedPaymentTransaction (ou_treasury lib) c p nonce = Inr reviewed
    \<and> js_prop i ''safeHash'' = JStr (lib_hash (tl_safe (ou_treasury lib)) reviewed)
    \<and> oc_hash out = Some hash \<and> submission_included rpc i (tr_safeL1 c) hash receipt
    \<and> safe_executed lib (tr_safeL1 c) (prop_text i ''safeHash'') (re_logs receipt)
    \<and> oc_contributions out = Some x
    \<and> (if js_prop p ''kind'' = JStr ''transfer'' then x = (prop_text p ''amount'', ''0'') \<and> transfer_minted lib rpc c d p receipt
       else budget_paid lib rpc d i reviewed x)"
proof -
  from final_settled [OF assms(1) [unfolded l1PaymentOutcome_def] assms(2)] have steps: "l1_outcome_steps lib rpc c i = Inr (Inr out)" by simp
  then obtain p reviewed hash receipt d where p: "l1_identity c i = Inr p" and rev: "reviewed_transaction (ou_treasury lib) c i p = Inr reviewed"
    and inc: "l1_included lib rpc c i hash = Inr (Inr receipt)" and d: "tr_payments c = Some d"
    and fin: "(if js_prop p ''kind'' = JStr ''transfer'' then transferOutcome lib rpc c d i p hash receipt
      else budget_outcome lib rpc d i reviewed hash receipt) = Inr (Inr out)"
    unfolding l1_outcome_steps_def deployed_def by (auto split: option.splits)
  have p': "js_prop i ''payment'' = JObj p" using p by (auto simp: l1_identity_def res_bind_Inr_iff split: js.splits)
  obtain nonce where n: "js_BigInt (js_prop i ''nonce'') = Inr nonce" "recordedPaymentTransaction (ou_treasury lib) c p nonce = Inr reviewed"
    "js_prop i ''safeHash'' = JStr (lib_hash (tl_safe (ou_treasury lib)) reviewed)"
    using rev by (auto simp: reviewed_transaction_def res_bind_Inr_iff)
  show ?thesis
  proof (cases "js_prop p ''kind'' = JStr ''transfer''")
    case True
    with fin have t: "transferOutcome lib rpc c d i p hash receipt = Inr (Inr out)" by simp
    from transfer_outcome_ok [OF t] l1_included_ok [OF inc, unfolded safe_executed_iff] p' n d True show ?thesis by auto
  next
    case False
    with fin have t: "budget_outcome lib rpc d i reviewed hash receipt = Inr (Inr out)" by simp
    from budget_outcome_ok [OF t] l1_included_ok [OF inc, unfolded safe_executed_iff] p' n d False show ?thesis by auto
  qed
qed

section \<open>Mirror payments\<close>

lemma mirror_inclusion_ok:
  assumes "mirror_inclusion rpc i proxy hash = Inr (Inr receipt)" and "rp_block rpc 1 L1 (re_blockNumber receipt) = Inr (Some (re_blockHash receipt))"
  shows "submission_included rpc i proxy hash receipt"
  using assms by (auto simp: mirror_inclusion_def mirror_receipt_ok submission_included_def split: if_splits)

definition mirror_executed ::
  "outcome_lib \<Rightarrow> treasury_rpc \<Rightarrow> treasury_config \<Rightarrow> js_object \<Rightarrow> chain_receipt \<Rightarrow> js \<Rightarrow> chain_log \<Rightarrow> chain_receipt \<Rightarrow> bool" where
  "mirror_executed lib rpc c i receipt callHash log r \<longleftrightarrow> executes lib (tr_safeL2 c) (prop_text i ''safeHash'') log
     \<and> rp_receipt rpc L2 (cl_transactionHash log) = Inr (Some r) \<and> re_blockHash r = cl_blockHash log
     \<and> (\<exists>l \<in> set (re_logs r). holds_event lib (tr_manager c) ''IncomingCrossChainCallExecuted'' (mirror_delivers c i callHash) l)
     \<and> (\<exists>s. rp_settlement rpc (cl_blockHash log) = Inr s \<and> settled_with receipt log s)"

lemma mirror_matches_ok:
  "mirror_matches lib rpc c i receipt callHash logs = Inr found \<Longrightarrow> \<forall>log \<in> set logs. executes lib (tr_safeL2 c) (prop_text i ''safeHash'') log \<Longrightarrow>
     (log, r) \<in> set found \<Longrightarrow> mirror_executed lib rpc c i receipt callHash log r"
proof (induction lib rpc c i receipt callHash logs arbitrary: found rule: mirror_matches.induct)
  case (2 lib rpc c i receipt callHash l logs)
  then obtain dest where dest: "rp_receipt rpc L2 (cl_transactionHash l) = Inr dest" by (auto simp: res_bind_Inr_iff)
  show ?case
  proof (cases dest)
    case None
    with 2 dest show ?thesis by auto
  next
    case (Some r')
    show ?thesis
    proof (cases "re_blockHash r' \<noteq> cl_blockHash l
        \<or> \<not> list_ex (holds_event lib (tr_manager c) ''IncomingCrossChainCallExecuted'' (mirror_delivers c i callHash)) (re_logs r')")
      case True
      with 2 dest Some show ?thesis by auto
    next
      case False
      with 2(4) dest Some obtain s rest where s: "rp_settlement rpc (cl_blockHash l) = Inr s"
        "mirror_matches lib rpc c i receipt callHash logs = Inr rest" "found = (if settled_with receipt l s then (l, r') # rest else rest)"
        by (auto simp: res_bind_Inr_iff)
      show ?thesis
      proof (cases "(log, r) \<in> set rest")
        case True
        with 2 dest Some False s show ?thesis by auto
      next
        case not_rest: False
        with s(3) 2(6) have "log = l" "r = r'" "settled_with receipt l s" by (auto split: if_splits)
        with 2(5) dest Some False s(1) show ?thesis by (auto simp: mirror_executed_def list_ex_iff)
      qed
    qed
  qed
qed simp

text \<open>C38. A mirror payment is reported as settled only if its Ethereum transaction is the submission, in a block that is still
  canonical, with a single relayed call of the signed data, and the mirror Safe executed the signed transaction successfully on this
  call in a successful transaction of an L2 block that is settled by the block of the submission, still canonical and not
  after the safe head, with the payment and contributions that are reported.\<close>
theorem mirror_payment_settled:
  assumes "mirrorRelayOutcome lib rpc c i = Inr out" and "oc_kind out = O_settled"
  shows "\<exists>d proxy hash receipt call log r x. tr_payments c = Some d \<and> js_prop d ''safeL2Alias'' = JStr proxy \<and> oc_hash out = Some hash
    \<and> submission_included rpc i proxy hash receipt \<and> relay_calls lib c i proxy (re_logs receipt) = [call]
    \<and> mirror_executed lib rpc c i receipt (js_prop call ''crossChainCallHash'') log r \<and> canonical_log rpc log r
    \<and> (\<exists>e. decodeSafeExecution lib log = Some e \<and> sv_success e)
    \<and> oc_contributions out = Some x \<and> treasury_settled lib d (js_prop i ''payment'') (re_logs r) = Inr (Some x)"
proof -
  from final_settled [OF assms(1) [unfolded mirrorRelayOutcome_def] assms(2)] have steps: "mirror_outcome_steps lib rpc c i = Inr (Inr out)" by simp
  then obtain d proxy hash receipt callHash safe log r x where ident: "mirror_identity c i = Inr (d, proxy)"
    and inc: "mirror_inclusion rpc i proxy hash = Inr (Inr receipt)" and call: "relay_call lib rpc c i proxy hash receipt = Inr callHash"
    and ex: "mirror_execution lib rpc c i receipt callHash safe (mirror_pending hash) = Inr (Inr (log, r))"
    and pay: "mirror_payment lib d i log r = Inr x" and again: "observed_again rpc receipt log (mirror_pending hash) = Inr (Inr ())"
    and out: "out = settled_outcome hash receipt log x ''Payment completed. The EEZ-X Safe execution and Ethereum submission are verified.''"
    unfolding mirror_outcome_steps_def Let_def by (auto split: prod.splits option.splits)
  have d: "tr_payments c = Some d" "js_prop d ''safeL2Alias'' = JStr proxy"
    using ident by (auto simp: mirror_identity_def deployed_def prop_option_def res_bind_Inr_iff split: option.splits js.splits)
  from call obtain e where e: "relay_calls lib c i proxy (re_logs receipt) = [e]" "callHash = js_prop e ''crossChainCallHash''"
    unfolding relay_call_def Let_def
    by (cases "relay_calls lib c i proxy (re_logs receipt)"; cases "tl (relay_calls lib c i proxy (re_logs receipt))") (auto simp: res_bind_Inr_iff)
  from ex obtain logs where "mirror_matches lib rpc c i receipt callHash (filter (executes lib (tr_safeL2 c) (prop_text i ''safeHash'')) logs) = Inr [(log, r)]"
    unfolding mirror_execution_def early_bind_go early_simps list1_case_iff by blast
  from mirror_matches_ok [OF this] have m: "mirror_executed lib rpc c i receipt callHash log r" by simp
  from pay have s: "treasury_settled lib d (js_prop i ''payment'') (re_logs r) = Inr (Some x)" "re_status r = ''0x1''"
    "\<exists>e. decodeSafeExecution lib log = Some e \<and> sv_success e"
    by (auto simp: mirror_payment_def res_bind_Inr_iff split: option.splits if_splits)
  have "canonical_log rpc log r" using m again s(2) by (auto simp: mirror_executed_def observed_again_ok canonical_log_def)
  moreover have "submission_included rpc i proxy hash receipt" using mirror_inclusion_ok [OF inc] again by (simp add: observed_again_ok)
  moreover have "oc_hash out = Some hash" "oc_contributions out = Some x" by (simp_all add: out settled_outcome_def)
  ultimately show ?thesis using d e m s by blast
qed

section \<open>A settled payment\<close>

definition topic_of :: "char \<Rightarrow> string" where
  "topic_of d = ''0x'' @ replicate 64 d"

definition event_log :: "string \<Rightarrow> string list \<Rightarrow> chain_log" where
  "event_log address topics = \<lparr>cl_address = address, cl_topics = topics, cl_data = ''0x'' @ replicate 64 CHR ''0'', cl_blockHash = ''0xb2'',
     cl_blockNumber = 20, cl_transactionHash = ''0xt2''\<rparr>"

definition sample_outcome_lib :: outcome_lib where
  "sample_outcome_lib = \<lparr>ou_treasury = hl_treasury sample_history_lib, ou_safeEvent = (\<lambda>_ _. Some \<lparr>sv_success = True, sv_txHash = topic_of CHR ''1''\<rparr>),
     ou_policyEvent = (\<lambda>log. if cl_topics log = [''p''] then Some (Paid ''0xT'' sample_address False 90 40 50 7) else Some Other_policy_event),
     ou_bridgeEvent = (\<lambda>_. None), ou_bridgeCall = (\<lambda>_. None), ou_keccak = (\<lambda>s. s), ou_markerTopics = (\<lambda>_ _. [''m''])\<rparr>"

definition sample_l1_treasury :: treasury_config where
  "sample_l1_treasury = sample_treasury\<lparr>tr_l1 := \<lparr>tc_chainId = 1, tc_front = Some ''https''\<rparr>,
     tr_payments := Some [(''version'', JNum 2), (''policy'', JStr ''0x05''), (''alias'', JStr ''0x06''), (''bridgeL1'', JStr ''0x07''), (''bridgeL2'', JStr ''0x08''),
       (''tokenL1'', JStr ''0xt'')]\<rparr>"

definition sample_l1_intent :: js_object where
  "sample_l1_intent = [(''version'', JNum 1), (''instance'', JStr ''t''), (''safeHash'', JStr (topic_of CHR ''1'')), (''sender'', JStr sample_address),
     (''sourceNonce'', JStr ''0x1''), (''startBlock'', JStr ''0x2''), (''l2StartBlock'', JStr ''0x3''), (''data'', JStr ''0xab''), (''nonce'', JStr ''5''),
     (''hash'', JStr ''0xt1''),
     (''payment'', JObj [(''source'', JStr ''l1''), (''recipient'', JStr sample_address), (''destination'', JStr ''l2''), (''epoch'', JStr ''7''), (''amount'', JStr ''90''),
        (''fromL1'', JStr ''40'')])]"

definition sample_rpc :: treasury_rpc where
  "sample_rpc = \<lparr>rp_receipt = (\<lambda>c h. Inr (Some (if c = L1
       then \<lparr>re_status = ''0x1'', re_blockNumber = 10, re_blockHash = ''0xb1'', re_logs = [event_log ''0x03'' [topic_of CHR ''a'', topic_of CHR ''b'']]\<rparr>
       else \<lparr>re_status = ''0x1'', re_blockNumber = 20, re_blockHash = ''0xb2'', re_logs = [event_log ''0x05'' [''m''], event_log ''0x05'' [''p'']]\<rparr>))),
     rp_block = (\<lambda>n c b. Inr (Some (if c = L1 then ''0xb1'' else ''0xb2''))), rp_safe = (\<lambda>n. Inr (Some 25)),
     rp_transaction = (\<lambda>c h. Inr (Some \<lparr>ct_from = sample_address, ct_to = ''0x03'', ct_input = ''0xAB'', ct_nonce = 1, ct_value = 0\<rparr>)),
     rp_status = (\<lambda>c h. Inr None), rp_logs = (\<lambda>c q. Inr [event_log ''0x05'' [''m'']]), rp_settlement = (\<lambda>h. Inr None)\<rparr>"

lemma sample_l1_settled:
  "case l1PaymentOutcome sample_outcome_lib sample_rpc sample_l1_treasury sample_l1_intent of Inl e \<Rightarrow> False | Inr out \<Rightarrow> oc_kind out = O_settled"
  by code_simp

theorem l1_payment_settled_witness:
  "\<exists>out hash receipt. l1PaymentOutcome sample_outcome_lib sample_rpc sample_l1_treasury sample_l1_intent = Inr out \<and> oc_kind out = O_settled
     \<and> submission_included sample_rpc sample_l1_intent (tr_safeL1 sample_l1_treasury) hash receipt"
proof -
  obtain out where out: "l1PaymentOutcome sample_outcome_lib sample_rpc sample_l1_treasury sample_l1_intent = Inr out" "oc_kind out = O_settled"
    using sample_l1_settled by (auto split: sum.splits)
  from l1_payment_settled [OF out] out show ?thesis by blast
qed

section \<open>A settled mirror payment\<close>

definition sample_source_call :: js_object where
  "sample_source_call = [(''proxy'', JStr ''0x09''), (''sourceAddress'', JStr sample_address), (''callData'', JStr ''0xab''), (''value'', JBig 0),
     (''crossChainCallHash'', JStr ''0xc'')]"

definition sample_delivery :: js_object where
  "sample_delivery = [(''crossChainCallHash'', JStr ''0xc''), (''isStatic'', JBool False), (''sourceRollup'', JBig 0), (''value'', JBig 0),
     (''sourceAddress'', JStr sample_address), (''destination'', JStr ''0x04''), (''data'', JStr ''0xab'')]"

definition sample_mirror_lib :: outcome_lib where
  "sample_mirror_lib = sample_outcome_lib\<lparr>ou_bridgeEvent := (\<lambda>log. if cl_topics log = [''c''] then Some (''CrossChainCallExecuted'', sample_source_call)
     else if cl_topics log = [''i''] then Some (''IncomingCrossChainCallExecuted'', sample_delivery) else None)\<rparr>"

definition sample_mirror_treasury :: treasury_config where
  "sample_mirror_treasury = sample_l1_treasury\<lparr>tr_payments := Some [(''version'', JNum 2), (''bridgeKind'', JStr ''standard''), (''safeL2Alias'', JStr ''0x09''),
     (''policy'', JStr ''0x05''), (''tokenL1'', JStr ''0xt'')]\<rparr>"

definition sample_mirror_intent :: js_object where
  "sample_mirror_intent = jmap_set ''payment'' (JObj [(''recipient'', JStr sample_address), (''destination'', JStr ''l2''), (''epoch'', JStr ''7''),
     (''amount'', JStr ''90''), (''fromL1'', JStr ''40'')]) sample_l1_intent"

definition sample_execution :: chain_log where
  "sample_execution = event_log ''0x04'' [topic_of CHR ''a'', topic_of CHR ''b'']"

definition sample_mirror_rpc :: treasury_rpc where
  "sample_mirror_rpc = sample_rpc\<lparr>rp_receipt := (\<lambda>c h. Inr (Some (if c = L1
       then \<lparr>re_status = ''0x1'', re_blockNumber = 10, re_blockHash = ''0xb1'', re_logs = [event_log ''0x01'' [''c'']]\<rparr>
       else \<lparr>re_status = ''0x1'', re_blockNumber = 20, re_blockHash = ''0xb2'',
         re_logs = [event_log ''0x02'' [''i''], event_log ''0x05'' [''p''], sample_execution]\<rparr>))),
     rp_transaction := (\<lambda>c h. Inr (Some \<lparr>ct_from = sample_address, ct_to = ''0x09'', ct_input = ''0xAB'', ct_nonce = 1, ct_value = 0\<rparr>)),
     rp_logs := (\<lambda>c q. Inr [if c = L1 then (event_log ''0x01'' [''c''])\<lparr>cl_transactionHash := ''0xT1''\<rparr> else sample_execution]),
     rp_settlement := (\<lambda>h. Inr (Some \<lparr>bs_canonicalL2 = True, bs_l1BlockHash = ''0xB1'', bs_l1BlockNumber = 10, bs_l2Blocks = [(20, ''0xb2'')]\<rparr>))\<rparr>"

lemma sample_mirror_settled:
  "case mirrorRelayOutcome sample_mirror_lib sample_mirror_rpc sample_mirror_treasury sample_mirror_intent of Inl e \<Rightarrow> False | Inr out \<Rightarrow> oc_kind out = O_settled"
  by code_simp

theorem mirror_payment_settled_witness:
  "\<exists>out x. mirrorRelayOutcome sample_mirror_lib sample_mirror_rpc sample_mirror_treasury sample_mirror_intent = Inr out \<and> oc_kind out = O_settled
     \<and> oc_contributions out = Some x"
proof -
  obtain out where out: "mirrorRelayOutcome sample_mirror_lib sample_mirror_rpc sample_mirror_treasury sample_mirror_intent = Inr out" "oc_kind out = O_settled"
    using sample_mirror_settled by (auto split: sum.splits)
  from mirror_payment_settled [OF out] out show ?thesis by blast
qed

end
