(* ===== verification/Invoice_Properties.thy ===== *)
theory Invoice_Properties
  imports Invoice_Rollback "HOL-Library.Sublist"
begin

text \<open>
  A verified rollback of an invoice payment: the trace of the posting transaction contains the two transfers and then the
  rejection, in the order of execution and below one call that failed, and the state before and after is the same.
\<close>

section \<open>Positions of frames\<close>

fun frame_at :: "invoice_frame \<Rightarrow> position \<Rightarrow> invoice_frame option" where
  "frame_at f [] = Some f"
| "frame_at f (n # ns) = (if n < length (fr_calls f) then frame_at (fr_calls f ! n) ns else None)"

text \<open>The row of a position below a frame: its ancestors are the frames of the proper prefixes of the position.\<close>

definition row_of :: "position \<Rightarrow> (position \<times> invoice_frame) list \<Rightarrow> invoice_frame \<Rightarrow> position \<Rightarrow> trace_row \<Rightarrow> bool" where
  "row_of pos anc f ns row \<longleftrightarrow> (\<exists>g. frame_at f ns = Some g \<and> fst row = (pos @ ns, g)
     \<and> (\<forall>a \<in> set (snd row). a \<in> set anc \<or> (\<exists>ms. strict_prefix ms ns \<and> fst a = pos @ ms \<and> frame_at f ms = Some (snd a))))"

lemma visit_rows:
  "row \<in> set (visit_frame pos anc f) \<Longrightarrow> \<exists>ns. row_of pos anc f ns row"
  "row \<in> set (visit_calls pos anc n fs) \<Longrightarrow> \<exists>k ns. k < length fs \<and> row_of (pos @ [n + k]) anc (fs ! k) ns row"
proof (induction pos anc f and pos anc n fs rule: visit_frame_visit_calls.induct)
  case (1 pos anc a b i out e calls)
  let ?f = "Frame a b i out e calls"
  show ?case
  proof (cases "row = ((pos, ?f), anc)")
    case True
    then have "row_of pos anc ?f [] row" by (simp add: row_of_def)
    then show ?thesis by blast
  next
    case False
    with 1 obtain k ns where k: "k < length calls" and r: "row_of (pos @ [k]) (anc @ [(pos, ?f)]) (calls ! k) ns row" by auto
    have "row_of pos anc ?f (k # ns) row"
    proof -
      from r obtain g where g: "frame_at (calls ! k) ns = Some g" "fst row = (pos @ k # ns, g)"
        and anc: "\<forall>x \<in> set (snd row). x \<in> set (anc @ [(pos, ?f)]) \<or> (\<exists>ms. strict_prefix ms ns \<and> fst x = (pos @ [k]) @ ms \<and> frame_at (calls ! k) ms = Some (snd x))"
        by (auto simp: row_of_def)
      have "x \<in> set anc \<or> (\<exists>ms. strict_prefix ms (k # ns) \<and> fst x = pos @ ms \<and> frame_at ?f ms = Some (snd x))" if "x \<in> set (snd row)" for x
      proof -
        from anc that consider "x \<in> set anc" | "x = (pos, ?f)"
          | ms where "strict_prefix ms ns" "fst x = (pos @ [k]) @ ms" "frame_at (calls ! k) ms = Some (snd x)" by auto
        then show ?thesis
        proof cases
          case 2
          then show ?thesis by (intro disjI2 exI [of _ "[]"]) simp
        next
          case 3
          with k show ?thesis by (intro disjI2 exI [of _ "k # ms"]) simp
        qed simp
      qed
      with g k show ?thesis by (simp add: row_of_def)
    qed
    then show ?thesis by blast
  qed
next
  case (2 pos anc n)
  then show ?case by simp
next
  case (3 pos anc n f fs)
  from 3(3) consider "row \<in> set (visit_frame (pos @ [n]) anc f)" | "row \<in> set (visit_calls pos anc (Suc n) fs)" by auto
  then show ?case
  proof cases
    case 1
    with 3(1) obtain ns where "row_of (pos @ [n]) anc f ns row" by blast
    then show ?thesis by (intro exI [of _ 0] exI [of _ ns]) simp
  next
    case 2
    with 3(2) obtain k ns where "k < length fs" "row_of (pos @ [Suc n + k]) anc (fs ! k) ns row" by blast
    then show ?thesis by (intro exI [of _ "Suc k"] exI [of _ ns]) simp
  qed
qed

abbreviation before_pos :: "position \<Rightarrow> position \<Rightarrow> bool" where
  "before_pos \<equiv> ord_class.lexordp"

lemma before_extension: "before_pos pos (pos @ n # ns)"
  by (induction pos) simp_all

lemma before_sibling: "m < n \<Longrightarrow> before_pos (pos @ m # ms) (pos @ n # ns)"
  by (induction pos) simp_all

lemma position_row: "row_of pos anc f ns row \<Longrightarrow> fst (fst row) = pos @ ns"
  by (auto simp: row_of_def)

lemma visit_calls_position:
  assumes "row \<in> set (visit_calls pos anc n fs)"
  shows "\<exists>k ns. n \<le> k \<and> fst (fst row) = pos @ k # ns"
  using visit_rows(2) [OF assms] position_row by fastforce

text \<open>The rows are in the order of execution.\<close>

lemma visit_ordered:
  "sorted_wrt before_pos (map (fst \<circ> fst) (visit_frame pos anc f))"
  "sorted_wrt before_pos (map (fst \<circ> fst) (visit_calls pos anc n fs))"
proof (induction pos anc f and pos anc n fs rule: visit_frame_visit_calls.induct)
  case (1 pos anc a b i out e calls)
  have "before_pos pos (fst (fst row))" if "row \<in> set (visit_calls pos (anc @ [(pos, Frame a b i out e calls)]) 0 calls)" for row
    using visit_calls_position [OF that] before_extension by fastforce
  with 1 show ?case by (auto simp: o_def)
next
  case (3 pos anc n f fs)
  have "before_pos (fst (fst r)) (fst (fst s))"
    if r: "r \<in> set (visit_frame (pos @ [n]) anc f)" and s: "s \<in> set (visit_calls pos anc (Suc n) fs)" for r s
  proof -
    obtain ns where "fst (fst r) = pos @ n # ns" using visit_rows(1) [OF r] position_row by fastforce
    moreover obtain k ms where "Suc n \<le> k" "fst (fst s) = pos @ k # ms" using visit_calls_position [OF s] by blast
    ultimately show ?thesis using before_sibling [of n k] by simp
  qed
  with 3 show ?case by (auto simp: sorted_wrt_append o_def)
qed simp

section \<open>The trace of a rollback\<close>

lemma find_index_ok: "find_index P xs = Inr (Some n) \<Longrightarrow> n < length xs \<and> P (xs ! n) = Inr True"
  by (induction xs arbitrary: n) (auto simp: res_bind_Inr_iff split: if_splits)

definition transfer_frame :: "invoice_rpc \<Rightarrow> js_object \<Rightarrow> payment \<Rightarrow> string \<Rightarrow> int \<Rightarrow> invoice_frame \<Rightarrow> bool" where
  "transfer_frame rpc d p sender amount f \<longleftrightarrow> same_given (fr_to f) (prop_option d ''tokenL1'') \<and> same_given (fr_from f) (Some sender)
     \<and> (\<exists>input. iv_encode rpc ''transfer'' [js_prop p ''recipient'', JBig amount] = Inr input \<and> fr_input f = Some input) \<and> \<not> given_text (fr_error f)
     \<and> (\<exists>out. fr_output f = Some out \<and> string_BigInt out = Inr 1)"

lemma transfer_row_ok: "transfer_row rpc d p sender amount row = Inr True \<Longrightarrow> transfer_frame rpc d p sender amount (snd (fst row))"
  by (auto simp: transfer_row_def transfer_frame_def Let_def res_bind_Inr_iff split: if_splits option.splits)

definition rejection_frame :: "invoice_rpc \<Rightarrow> js_object \<Rightarrow> payment \<Rightarrow> invoice_frame \<Rightarrow> bool" where
  "rejection_frame rpc d p f \<longleftrightarrow> same_given (fr_to f) (prop_option d ''invoiceMerchant'') \<and> same_given (fr_from f) (prop_option d ''alias'')
     \<and> given_text (fr_error f) \<and> (\<exists>out. fr_output f = Some out \<and> js_lower out = js_lower (''0xa1c43db2'' @ js_slice_from 2 (prop_text p ''invoiceId'')))"

lemma rejection_row_ok: "rejection_row rpc d p row = Inr True \<Longrightarrow> rejection_frame rpc d p (snd (fst row))"
  by (auto simp: rejection_row_def rejection_frame_def Let_def res_bind_Inr_iff split: if_splits option.splits)

text \<open>Three frames of a trace in the order of execution, below a common frame that failed.\<close>

definition rolled_back_calls :: "invoice_rpc \<Rightarrow> treasury_config \<Rightarrow> js_object \<Rightarrow> payment \<Rightarrow> invoice_frame \<Rightarrow> bool" where
  "rolled_back_calls rpc c d p trace \<longleftrightarrow>
     (\<exists>q1 q2 q3 q f1 f2 f3 f. frame_at trace q1 = Some f1 \<and> frame_at trace q2 = Some f2 \<and> frame_at trace q3 = Some f3 \<and> frame_at trace q = Some f
        \<and> before_pos q1 q2 \<and> before_pos q2 q3 \<and> strict_prefix q q1 \<and> strict_prefix q q2 \<and> strict_prefix q q3 \<and> given_text (fr_error f)
        \<and> transfer_frame rpc d p (prop_text d ''bridgeL1'') 10000000 f1 \<and> transfer_frame rpc d p (tr_safeL1 c) 100000000 f2 \<and> rejection_frame rpc d p f3)"

lemma row_at:
  assumes "n < length (visit_frame [] [] trace)"
  shows "frame_at trace (fst (fst (visit_frame [] [] trace ! n))) = Some (snd (fst (visit_frame [] [] trace ! n)))
    \<and> (\<forall>a \<in> set (snd (visit_frame [] [] trace ! n)). strict_prefix (fst a) (fst (fst (visit_frame [] [] trace ! n))) \<and> frame_at trace (fst a) = Some (snd a))"
proof -
  have "visit_frame [] [] trace ! n \<in> set (visit_frame [] [] trace)" using assms by simp
  from visit_rows(1) [OF this] obtain ns where "row_of [] [] trace ns (visit_frame [] [] trace ! n)" by blast
  then show ?thesis by (auto simp: row_of_def)
qed

lemma invoiceTrace_ok:
  assumes "invoiceTrace rpc c i trace = Inr u" and "invoice_payment i = Some p" and "tr_payments c = Some d"
  shows "rolled_back_calls rpc c d p trace"
proof -
  define rows where "rows = visit_frame [] [] trace"
  from assms obtain x y z where i0: "find_index (transfer_row rpc d p (prop_text d ''bridgeL1'') 10000000) rows = Inr x"
    "find_index (transfer_row rpc d p (tr_safeL1 c) 100000000) rows = Inr y" "find_index (rejection_row rpc d p) rows = Inr z"
    and chk: "case (x, y, z) of (Some a, Some b, Some e) \<Rightarrow> a < b \<and> b < e \<and> common_rollback rows a b e | _ \<Rightarrow> False"
    unfolding invoiceTrace_def rows_def Let_def by (simp only: res_bind_Inr_iff option.case js_defined_Inr_iff check_Inr option.inject) blast
  then obtain a b e where i: "find_index (transfer_row rpc d p (prop_text d ''bridgeL1'') 10000000) rows = Inr (Some a)"
    "find_index (transfer_row rpc d p (tr_safeL1 c) 100000000) rows = Inr (Some b)" "find_index (rejection_row rpc d p) rows = Inr (Some e)"
    and o': "a < b" "b < e" and common: "common_rollback rows a b e"
    by (cases x; cases y; cases z) auto
  note found = find_index_ok [OF i(1)] find_index_ok [OF i(2)] find_index_ok [OF i(3)]
  have pos: "before_pos (fst (fst (rows ! m))) (fst (fst (rows ! n)))" if "m < n" "n < length rows" for m n
    using sorted_wrt_nth_less [OF visit_ordered(1) [of "[]" "[]" trace], of m n] that by (simp add: rows_def)
  have at: "frame_at trace (fst (fst (rows ! n))) = Some (snd (fst (rows ! n)))"
    "\<And>x. x \<in> set (snd (rows ! n)) \<Longrightarrow> strict_prefix (fst x) (fst (fst (rows ! n))) \<and> frame_at trace (fst x) = Some (snd x)"
    if "n < length rows" for n
    using row_at [of n trace] that by (auto simp: rows_def)
  from common obtain q f where q: "(q, f) \<in> set (snd (rows ! e))" "given_text (fr_error f)"
    "q \<in> fst ` set (snd (rows ! a))" "q \<in> fst ` set (snd (rows ! b))"
    by (auto simp: common_rollback_def list_ex_iff)
  have "strict_prefix q (fst (fst (rows ! a)))" using q(3) at(2) found(1) by auto
  moreover have "strict_prefix q (fst (fst (rows ! b)))" using q(4) at(2) found(2) by auto
  moreover have "strict_prefix q (fst (fst (rows ! e)))" "frame_at trace q = Some f" using q(1) at(2) found(3) by fastforce+
  ultimately show ?thesis
    unfolding rolled_back_calls_def
    using at(1) [of a] at(1) [of b] at(1) [of e] pos [OF o'(1)] pos [OF o'(2)] found q(2)
      transfer_row_ok [of rpc d p _ _ "rows ! a"] transfer_row_ok [of rpc d p _ _ "rows ! b"] rejection_row_ok [of rpc d p "rows ! e"] by blast
qed

section \<open>A verified rollback\<close>

lemma report_parts_ok:
  assumes "report_parts report i = Inr (post, close, before, after)"
  shows "reports_intent report i \<and> invoice_payment i \<noteq> None \<and> ir_before report = Some before \<and> ir_after report = Some after
    \<and> ir_postHash report = Some post \<and> ir_closeHash report = Some close"
  using assms by (auto simp: report_parts_def Let_def split: if_splits option.splits)

lemma ordered_posting_ok:
  assumes "ordered_posting report post close safe after = Inr p"
  shows "post = Some p \<and> (\<exists>q. close = Some q \<and> pr_status q = ''0x1'' \<and> pr_blockHash q = pr_blockHash p \<and> pr_transactionIndex q < pr_transactionIndex p)
    \<and> an_hash (fst after) = pr_blockHash p \<and> (\<exists>n. safe = Some n \<and> an_number (snd after) \<le> n)"
  using assms by (auto simp: ordered_posting_def Let_def not_le split: if_splits option.splits)

lemma closes_invoice_ok:
  assumes "closes_invoice rpc d p transaction = Inr u"
  shows "\<exists>to input. transaction = Some (to, input) \<and> same_given to (prop_option d ''invoiceMerchant'') \<and> iv_encode rpc ''close'' [js_prop p ''invoiceId''] = Inr input"
  using assms by (auto simp: closes_invoice_def Let_def res_bind_Inr_iff split: option.splits)

text \<open>The closing of an invoice by its merchant before the payment of it was posted, in one L1 block.\<close>

definition closed_before :: "rollback_rpc \<Rightarrow> js_object \<Rightarrow> payment \<Rightarrow> invoice_rollback \<Rightarrow> bool" where
  "closed_before rpc d p r \<longleftrightarrow> (\<exists>post close to input. rb_receipt rpc (rl_postHash r) = Inr (Some post) \<and> rb_receipt rpc (rl_closeHash r) = Inr (Some close)
     \<and> pr_status close = ''0x1'' \<and> pr_blockHash close = pr_blockHash post \<and> pr_transactionIndex close < pr_transactionIndex post
     \<and> rl_block r = show_int (pr_blockNumber post)
     \<and> rb_transaction rpc (rl_closeHash r) = Inr (Some (to, input)) \<and> same_given to (prop_option d ''invoiceMerchant'')
     \<and> iv_encode (rb_invoice rpc) ''close'' [js_prop p ''invoiceId''] = Inr input)"

text \<open>What a value of the recorded state says of the read of a contract at a block: the number that was read, or the words of an
  allowance of period 10, whose spent amount is that of the signed period.\<close>

definition shows_read :: "invoice_rpc \<Rightarrow> (string \<times> state_value) list \<Rightarrow> int \<Rightarrow> int \<Rightarrow> string \<Rightarrow> chain \<Rightarrow> string \<Rightarrow> string \<Rightarrow> js list \<Rightarrow> bool" where
  "shows_read rpc m epoch block key c address name args \<longleftrightarrow>
     (\<exists>v. iv_read rpc c block address name args = Inr v
        \<and> (case v of
             Single n \<Rightarrow> map_of m key = Some (Text (show_int n))
           | Words amount spent reset at nonce \<Rightarrow> reset = 10 \<and> at smod 10 = 0 \<and> at \<le> epoch * 10
               \<and> map_of m key = Some (Texts [show_int amount, show_int (if at < epoch * 10 then 0 else spent), ''10'', show_int (epoch * 10), show_int nonce])))"

text \<open>The state of the treasury at an L1 and an L2 block: the balances of both Safes, of the recipient, of the bridge, the alias and the
  policy, the supply of the L2 token, the nonces of both Safes, what the policy spent in the period, and the three allowances.\<close>

definition treasury_state :: "invoice_rpc \<Rightarrow> treasury_config \<Rightarrow> js_object \<Rightarrow> payment \<Rightarrow> int \<Rightarrow> int \<Rightarrow> int \<Rightarrow> (string \<times> state_value) list \<Rightarrow> bool" where
  "treasury_state rpc c d p epoch n1 n2 m \<longleftrightarrow>
     (let at1 = shows_read rpc m epoch n1; at2 = shows_read rpc m epoch n2; address = prop_text d;
          safe1 = JStr (tr_safeL1 c); safe2 = JStr (tr_safeL2 c); alias = js_prop d ''alias'' in
        at1 ''balanceL1'' L1 (address ''tokenL1'') ''balanceOf'' [safe1]
      \<and> at2 ''balanceL2'' L2 (address ''tokenL2'') ''balanceOf'' [safe2]
      \<and> at1 ''recipientL1'' L1 (address ''tokenL1'') ''balanceOf'' [js_prop p ''recipient'']
      \<and> at2 ''recipientL2'' L2 (address ''tokenL2'') ''balanceOf'' [js_prop p ''recipient'']
      \<and> at1 ''escrow'' L1 (address ''tokenL1'') ''balanceOf'' [js_prop d ''bridgeL1'']
      \<and> at1 ''aliasBalance'' L1 (address ''tokenL1'') ''balanceOf'' [alias]
      \<and> at2 ''policyBalance'' L2 (address ''tokenL2'') ''balanceOf'' [js_prop d ''policy'']
      \<and> at2 ''supply'' L2 (address ''tokenL2'') ''totalSupply'' []
      \<and> at2 ''safeNonce'' L2 (tr_safeL2 c) ''nonce'' []
      \<and> at1 ''safeL1Nonce'' L1 (tr_safeL1 c) ''nonce'' []
      \<and> at2 ''spent'' L2 (address ''policy'') ''spent'' [JBig epoch]
      \<and> at1 ''aliasApproval'' L1 (address ''tokenL1'') ''allowance'' [alias, js_prop d ''bridgeL1'']
      \<and> at1 ''allowanceL1'' L1 (address ''moduleL1'') ''getTokenAllowance'' [safe1, alias, js_prop d ''tokenL1'']
      \<and> at2 ''allowanceL2'' L2 (address ''moduleL2'') ''getTokenAllowance'' [safe2, js_prop d ''policy'', js_prop d ''tokenL2''])"

text \<open>What was observed at the anchors of a report: the canonical blocks with their hashes, in the signed budget period, the state of the
  treasury at these blocks and the invoice of the merchant at the L1 block.\<close>

definition observed_at :: "invoice_rpc \<Rightarrow> treasury_config \<Rightarrow> js_object \<Rightarrow> payment \<Rightarrow> invoice_anchor \<times> invoice_anchor \<Rightarrow> (string \<times> state_value) list
    \<Rightarrow> string \<times> int \<times> int \<Rightarrow> bool" where
  "observed_at rpc c d p anchors m invoice \<longleftrightarrow>
     (\<exists>l1 l2 epoch. iv_anchor rpc L1 (Some (an_number (fst anchors))) = Inr (Some l1) \<and> an_hash l1 = an_hash (fst anchors)
        \<and> iv_anchor rpc L2 (Some (an_number (snd anchors))) = Inr (Some l2) \<and> an_hash l2 = an_hash (snd anchors)
        \<and> iv_again rpc L1 (an_number l1) = Inr (Some (an_hash l1)) \<and> iv_again rpc L2 (an_number l2) = Inr (Some (an_hash l2))
        \<and> js_BigInt (js_prop p ''epoch'') = Inr epoch \<and> an_timestamp l1 sdiv 600 = epoch
        \<and> treasury_state rpc c d p epoch (an_number l1) (an_number l2) m
        \<and> iv_invoice rpc (an_number l1) (prop_text d ''invoiceMerchant'') (js_prop p ''invoiceId'') = Inr invoice)"

lemma read_row_ok:
  assumes read: "res_map (read_row rpc l1 l2 epoch) rows = Inr m" and rows: "distinct (map fst rows)" "(key, c, address, name, args) \<in> set rows"
  shows "shows_read rpc m epoch (an_number (if c = L1 then l1 else l2)) key c address name args"
proof -
  have keys: "map fst m = map fst rows"
    using read by (induction rows arbitrary: m) (auto simp: res_bind_Inr_iff read_row_def)
  from res_map_member [OF read rows(2)] obtain v t where v: "iv_read rpc c (an_number (if c = L1 then l1 else l2)) address name args = Inr v"
    and t: "advanced_value epoch v = Inr t" "(key, t) \<in> set m"
    by (auto simp: read_row_def res_bind_Inr_iff)
  from t(2) keys rows(1) have "map_of m key = Some t" by (simp add: map_of_eq_Some_iff)
  moreover have "show_int 10 = ''10''" by code_simp
  ultimately show ?thesis using v t(1) unfolding shows_read_def
    by (cases v) (auto simp: advanced_value_def split: if_splits)
qed

lemma invoice_rows_distinct: "distinct (map fst (invoice_rows c d p epoch))"
  by (simp add: invoice_rows_def Let_def)

lemma treasury_rows_ok:
  assumes "res_map (read_row rpc l1 l2 epoch) (invoice_rows c d p epoch) = Inr m"
  shows "treasury_state rpc c d p epoch (an_number l1) (an_number l2) m"
proof -
  note row = read_row_ok [OF assms invoice_rows_distinct]
  have l1: "shows_read rpc m epoch (an_number l1) key L1 address name args" if "(key, L1, address, name, args) \<in> set (invoice_rows c d p epoch)" for key address name args
    using row [OF that] by simp
  have l2: "shows_read rpc m epoch (an_number l2) key L2 address name args" if "(key, L2, address, name, args) \<in> set (invoice_rows c d p epoch)" for key address name args
    using row [OF that] by simp
  show ?thesis unfolding treasury_state_def Let_def by (intro conjI l1 l2) (simp_all add: invoice_rows_def Let_def)
qed

lemma invoiceSnapshot_ok:
  assumes "invoiceSnapshot rpc c i (Some anchors) = Inr s" and "invoice_payment i = Some p" and "tr_payments c = Some d"
  shows "observed_at rpc c d p anchors (is_values s) (is_invoice s)"
proof -
  obtain a1 a2 where anchors: "anchors = (a1, a2)" by (cases anchors)
  note run = assms(1) [unfolded invoiceSnapshot_def anchors assms(2,3) option.case js_defined.simps res_bind.simps fst_conv snd_conv option.map]
  obtain b1 where b1: "iv_anchor rpc L1 (Some (an_number a1)) = Inr b1"
    using run by (cases "iv_anchor rpc L1 (Some (an_number a1))") (simp_all add: res_bind_Inr_iff)
  obtain b2 where b2: "iv_anchor rpc L2 (Some (an_number a2)) = Inr b2"
    using run [unfolded b1 res_bind.simps] by (cases "iv_anchor rpc L2 (Some (an_number a2))") (simp_all add: res_bind_Inr_iff)
  obtain l1 l2 where l: "b1 = Some l1" "b2 = Some l2"
    using run [unfolded b1 b2 res_bind.simps] by (cases b1; cases b2) (simp_all add: res_bind_Inr_iff)
  note b = b1 [unfolded l] b2 [unfolded l]
  from run [unfolded b res_bind.simps prod.case option.case] obtain epoch m invoice u1 u2 where
    h: "an_hash l1 = an_hash a1" "an_hash l2 = an_hash a2"
    and e: "js_BigInt (js_prop p ''epoch'') = Inr epoch" "an_timestamp l1 sdiv 600 = epoch"
    and m: "res_map (read_row rpc l1 l2 epoch) (invoice_rows c d p epoch) = Inr m"
    and invoice: "iv_invoice rpc (an_number l1) (prop_text d ''invoiceMerchant'') (js_prop p ''invoiceId'') = Inr invoice"
    and again: "anchor_canonical rpc L1 l1 = Inr u1" "anchor_canonical rpc L2 l2 = Inr u2"
    and s: "s = \<lparr>is_l1 = l1, is_l2 = l2, is_values = m, is_invoice = invoice\<rparr>"
    by (simp only: res_bind_Inr_iff check_Inr sum.inject) blast
  from again have "iv_again rpc L1 (an_number l1) = Inr (Some (an_hash l1))" "iv_again rpc L2 (an_number l2) = Inr (Some (an_hash l2))"
    by (auto simp: anchor_canonical_def res_bind_Inr_iff)
  then show ?thesis using b h e treasury_rows_ok [OF m] invoice unfolding observed_at_def anchors s by auto
qed

lemma binds_authorization_ok:
  assumes "binds_authorization i trace before"
  shows "\<exists>n input. map_of (is_values before) ''safeNonce'' = Some (Text n) \<and> js_prop i ''nonce'' = JStr n \<and> fr_input trace = Some input
    \<and> js_includes (js_lower input) (js_lower (js_slice_from 2 (prop_text i ''safeHash'')))"
  using assms by (auto simp: binds_authorization_def split: option.splits state_value.splits)

text \<open>C9. A rollback is verified only if the invoice was closed by a successful transaction before the posting transaction of the same L1
  block; the trace of that posting transaction enters the registry, carries the signed authorization and runs the two transfers and then the
  rejection of this invoice in this order below one failed call; the state recorded before and after is what was read of the treasury (every
  balance, nonce, spent amount and allowance) at the canonical blocks which the report names before and after, and it is the same state, with
  the nonce that was signed; and the merchant held the invoice as open before, and as closed with the recipient and the amount of the payment
  after.\<close>
theorem verified_rollback_sound:
  assumes "verifyInvoiceRollback rpc c i report = Inr r"
  shows "\<exists>p d trace before after old recipient amount input n. invoice_payment i = Some p \<and> tr_payments c = Some d \<and> reports_intent report i
    \<and> closed_before rpc d p r
    \<and> rb_trace rpc (rl_postHash r) = Inr trace \<and> rolled_back_calls (rb_invoice rpc) c d p trace
    \<and> same_given (fr_to trace) (Some (tr_registry c))
    \<and> fr_input trace = Some input \<and> js_includes (js_lower input) (js_lower (js_slice_from 2 (prop_text i ''safeHash'')))
    \<and> ir_before report = Some before \<and> observed_at (rb_invoice rpc) c d p before (rl_before r) (fst old, snd old, 1)
    \<and> ir_after report = Some after \<and> observed_at (rb_invoice rpc) c d p after (rl_after r) (recipient, amount, 3)
    \<and> rl_before r = rl_after r \<and> map_of (rl_before r) ''safeNonce'' = Some (Text n) \<and> js_prop i ''nonce'' = JStr n
    \<and> same_given (Some recipient) (prop_option p ''recipient'') \<and> js_BigInt (js_prop p ''amount'') = Inr amount"
proof -
  from assms obtain postHash closeHash before0 after0 p post close trace before after safe posting transaction d u1 u2 u3 u4 u5 where
    parts: "report_parts report i = Inr (postHash, closeHash, before0, after0)" and p: "invoice_payment i = Some p"
    and post: "rb_receipt rpc postHash = Inr post" and close: "rb_receipt rpc closeHash = Inr close" and trace: "rb_trace rpc postHash = Inr trace"
    and snap: "invoiceSnapshot (rb_invoice rpc) c i (Some before0) = Inr before" "invoiceSnapshot (rb_invoice rpc) c i (Some after0) = Inr after"
    and ord: "ordered_posting report post close safe after0 = Inr posting" and binds: "binds_authorization i trace before"
    and to: "same_given (fr_to trace) (Some (tr_registry c))"
    and tr: "invoiceTrace (rb_invoice rpc) c i trace = Inr u3" and undone: "rolled_back p before after = Inr u4"
    and tx: "rb_transaction rpc closeHash = Inr transaction" and d: "tr_payments c = Some d"
    and cl: "closes_invoice (rb_invoice rpc) d p transaction = Inr u5"
    and r: "r = \<lparr>rl_postHash = postHash, rl_closeHash = closeHash, rl_block = show_int (pr_blockNumber posting), rl_before = is_values before, rl_after = is_values after\<rparr>"
    unfolding verifyInvoiceRollback_def by (auto simp: res_bind_Inr_iff)
  note o' = ordered_posting_ok [OF ord]
  from closes_invoice_ok [OF cl] o' post close tx r have closed: "closed_before rpc d p r" unfolding closed_before_def by auto
  have same: "is_values before = is_values after" "snd (snd (is_invoice before)) = 1" "snd (snd (is_invoice after)) = 3"
    "same_given (Some (fst (is_invoice after))) (prop_option p ''recipient'')" "js_BigInt (js_prop p ''amount'') = Inr (fst (snd (is_invoice after)))"
    using undone by (auto simp: rolled_back_def Let_def res_bind_Inr_iff)
  obtain b1 b2 b3 a1 a2 a3 where inv: "is_invoice before = (b1, b2, b3)" "is_invoice after = (a1, a2, a3)" by (cases "is_invoice before"; cases "is_invoice after") auto
  have observed: "observed_at (rb_invoice rpc) c d p before0 (rl_before r) (fst (b1, b2), snd (b1, b2), 1)"
    "observed_at (rb_invoice rpc) c d p after0 (rl_after r) (a1, a2, 3)"
    using invoiceSnapshot_ok [OF snap(1) p d] invoiceSnapshot_ok [OF snap(2) p d] same(2,3) inv r by simp_all
  have result: "rb_trace rpc (rl_postHash r) = Inr trace" "rl_before r = rl_after r" "is_values before = rl_before r"
    using r trace same(1) by simp_all
  from binds_authorization_ok [OF binds] obtain n input where bound: "map_of (rl_before r) ''safeNonce'' = Some (Text n)" "js_prop i ''nonce'' = JStr n"
    "fr_input trace = Some input" "js_includes (js_lower input) (js_lower (js_slice_from 2 (prop_text i ''safeHash'')))"
    unfolding result(3) by blast
  from report_parts_ok [OF parts] have "reports_intent report i" "ir_before report = Some before0" "ir_after report = Some after0" by simp_all
  moreover have "same_given (Some a1) (prop_option p ''recipient'')" "js_BigInt (js_prop p ''amount'') = Inr a2" using same(4,5) inv by simp_all
  ultimately show ?thesis using invoiceTrace_ok [OF tr p d] p d closed to result(1,2) bound observed by blast
qed

section \<open>A rollback\<close>

definition sample_invoice_intent :: js_object where
  "sample_invoice_intent = [(''safeHash'', JStr ''0xfe''), (''data'', JStr ''0xab''), (''sourceNonce'', JStr ''0x1''), (''nonce'', JStr ''5''), (''sender'', JStr ''0xaa''),
     (''payment'', JObj [(''kind'', JStr ''invoice''), (''recipient'', JStr ''0xcc''), (''epoch'', JStr ''7''), (''amount'', JStr ''110''), (''invoiceId'', JStr ''0xd1'')])]"

definition sample_invoice_treasury :: treasury_config where
  "sample_invoice_treasury = \<lparr>tr_instance = ''t'', tr_l1 = \<lparr>tc_chainId = 1, tc_front = None\<rparr>, tr_l2 = \<lparr>tc_chainId = 2, tc_front = None\<rparr>,
     tr_registry = ''0x01'', tr_manager = ''0x02'', tr_safeL1 = ''0x03'', tr_safeL2 = ''0x04'', tr_action = None,
     tr_payments = Some [(''policy'', JStr ''0x05''), (''alias'', JStr ''0x06''), (''bridgeL1'', JStr ''0x07''), (''tokenL1'', JStr ''0x0a''), (''invoiceMerchant'', JStr ''0x0b'')],
     tr_previousPayments = None, tr_olderPayments = None\<rparr>"

definition sample_anchors :: "int \<Rightarrow> string \<Rightarrow> invoice_anchor \<times> invoice_anchor" where
  "sample_anchors n h = (\<lparr>an_number = n, an_hash = h, an_timestamp = 4200\<rparr>, \<lparr>an_number = 20, an_hash = ''0xe'', an_timestamp = 4200\<rparr>)"

definition sample_failed_call :: invoice_frame where
  "sample_failed_call = Frame None None None None (Some ''reverted'')
     [Frame (Some ''0x07'') (Some ''0x0a'') (Some ''transfer'') (Some ''0x1'') None [],
      Frame (Some ''0x03'') (Some ''0x0A'') (Some ''transfer'') (Some ''0x1'') None [],
      Frame (Some ''0x06'') (Some ''0x0b'') (Some ''accept'') (Some ''0xA1C43DB2d1'') (Some ''reverted'') []]"

text \<open>Both transfers have the same calldata in this sample, so the first match of the second search is told apart by its sender.\<close>

definition sample_rollback_rpc :: rollback_rpc where
  "sample_rollback_rpc = \<lparr>rb_invoice = \<lparr>iv_anchor = (\<lambda>c n. Inr (Some (if c = L2 then snd (sample_anchors 9 ''0xb9'')
         else if n = Some 9 then fst (sample_anchors 9 ''0xb9'') else fst (sample_anchors 10 ''0xb10'')))),
       iv_again = (\<lambda>c n. Inr (Some (if c = L2 then ''0xe'' else if n = 9 then ''0xb9'' else ''0xb10''))),
       iv_read = (\<lambda>c n a f args. Inr (if f = ''getTokenAllowance'' then Words 100 40 10 60 3 else Single 5)), iv_invoice = (\<lambda>n m k. Inr (''0xCC'', 110, if n = 9 then 1 else 3)), iv_encode = (\<lambda>f args. Inr f)\<rparr>,
     rb_receipt = (\<lambda>h. Inr (Some \<lparr>pr_status = ''0x1'', pr_blockHash = ''0xb10'', pr_blockNumber = 10, pr_transactionIndex = (if h = ''0x51'' then 1 else 2)\<rparr>)),
     rb_trace = (\<lambda>h. Inr (Frame None (Some ''0x01'') (Some ''0x77fe77'') None None [sample_failed_call])),
     rb_safe = Inr (Some 30), rb_transaction = (\<lambda>h. Inr (Some (Some ''0x0B'', ''close'')))\<rparr>"

definition sample_report :: invoice_report where
  "sample_report = \<lparr>ir_verified = True, ir_intent = sample_invoice_intent, ir_postHash = Some ''0x50'', ir_closeHash = Some ''0x51'', ir_l1BlockHash = Some ''0xb10'',
     ir_before = Some (sample_anchors 9 ''0xb9''), ir_after = Some (sample_anchors 10 ''0xb10'')\<rparr>"

lemma sample_verified:
  "case verifyInvoiceRollback sample_rollback_rpc sample_invoice_treasury sample_invoice_intent sample_report of Inl e \<Rightarrow> False
   | Inr r \<Rightarrow> rl_block r = ''10'' \<and> map fst (rl_before r) = [''balanceL1'', ''balanceL2'', ''recipientL1'', ''recipientL2'', ''escrow'', ''aliasBalance'',
         ''policyBalance'', ''supply'', ''safeNonce'', ''safeL1Nonce'', ''spent'', ''aliasApproval'', ''allowanceL1'', ''allowanceL2'']
       \<and> map_of (rl_before r) ''spent'' = Some (Text ''5'')
       \<and> map_of (rl_before r) ''allowanceL2'' = Some (Texts [''100'', ''0'', ''10'', ''70'', ''3''])"
  by code_simp

theorem verified_rollback_sound_witness:
  "\<exists>r p d before after old invoice. verifyInvoiceRollback sample_rollback_rpc sample_invoice_treasury sample_invoice_intent sample_report = Inr r
     \<and> tr_payments sample_invoice_treasury = Some d \<and> closed_before sample_rollback_rpc d p r
     \<and> observed_at (rb_invoice sample_rollback_rpc) sample_invoice_treasury d p before (rl_before r) (fst old, snd old, 1)
     \<and> observed_at (rb_invoice sample_rollback_rpc) sample_invoice_treasury d p after (rl_after r) invoice
     \<and> rl_before r = rl_after r \<and> length (rl_before r) = 14 \<and> map_of (rl_before r) ''spent'' = Some (Text ''5'')
     \<and> map_of (rl_before r) ''allowanceL2'' = Some (Texts [''100'', ''0'', ''10'', ''70'', ''3''])"
proof -
  obtain r where r: "verifyInvoiceRollback sample_rollback_rpc sample_invoice_treasury sample_invoice_intent sample_report = Inr r"
    and shown: "map fst (rl_before r) = [''balanceL1'', ''balanceL2'', ''recipientL1'', ''recipientL2'', ''escrow'', ''aliasBalance'',
         ''policyBalance'', ''supply'', ''safeNonce'', ''safeL1Nonce'', ''spent'', ''aliasApproval'', ''allowanceL1'', ''allowanceL2'']"
      "map_of (rl_before r) ''spent'' = Some (Text ''5'')" "map_of (rl_before r) ''allowanceL2'' = Some (Texts [''100'', ''0'', ''10'', ''70'', ''3''])"
    using sample_verified by (auto split: sum.splits)
  have "length (rl_before r) = 14" using arg_cong [OF shown(1), of length] by simp
  with verified_rollback_sound [OF r] r shown(2,3) show ?thesis by blast
qed

end
