(* ===== verification/Treasury_Client_Properties.thy ===== *)
theory Treasury_Client_Properties
  imports Treasury_Client Treasury_Outcome_Properties Invoice_Properties
begin

text \<open>
  The outcome of a submission on L2 is settled, or a rollback, only on evidence; the links shown for an outcome are transactions
  of its evidence, each once.
\<close>

section \<open>L2 outcomes\<close>

lemma plain_outcome_rollback [simp]: "oc_rollback (plain_outcome kind hash detail) = None"
  by (simp add: plain_outcome_def)

lemma unresolved_kind [simp]: "oc_kind (unresolved_outcome hash status) \<noteq> O_settled" "oc_rollback (unresolved_outcome hash status) = None"
  by (simp_all add: unresolved_outcome_def split: option.split)

text \<open>The Safe transaction succeeded in a canonical block that is not after the safe head.\<close>

definition action_settled :: "outcome_lib \<Rightarrow> treasury_rpc \<Rightarrow> treasury_config \<Rightarrow> js_object \<Rightarrow> outcome \<Rightarrow> bool" where
  "action_settled lib rpc c i out \<longleftrightarrow>
     (\<exists>hash r tx head. oc_hash out = Some hash \<and> rp_receipt rpc L2 hash = Inr (Some r) \<and> re_status r = ''0x1''
        \<and> rp_transaction rpc L2 hash = Inr (Some tx) \<and> is_action tx c i
        \<and> rp_block rpc 0 L2 (re_blockNumber r) = Inr (Some (re_blockHash r)) \<and> rp_safe rpc 0 = Inr (Some head) \<and> re_blockNumber r \<le> head
        \<and> safe_executed lib (tr_safeL2 c) (prop_text i ''safeHash'') (re_logs r)
        \<and> (has_payment i \<longrightarrow> (\<exists>d x. tr_payments c = Some d \<and> oc_contributions out = Some x
             \<and> treasury_settled lib d (js_prop i ''payment'') (re_logs r) = Inr (Some x))))"

lemma action_result_ok:
  assumes "action_result lib c i hash r = Inr out"
  shows "oc_rollback out = None \<and> oc_hash out = Some hash \<and> (oc_kind out = O_settled \<longrightarrow>
    re_status r = ''0x1'' \<and> safe_executed lib (tr_safeL2 c) (prop_text i ''safeHash'') (re_logs r)
    \<and> (has_payment i \<longrightarrow> (\<exists>d x. tr_payments c = Some d \<and> oc_contributions out = Some x
         \<and> treasury_settled lib d (js_prop i ''payment'') (re_logs r) = Inr (Some x))))"
  using assms unfolding action_result_def Let_def
  by (auto simp: res_bind_Inr_iff action_contributions_def list_ex_iff safe_executed_iff split: if_splits)

lemma executed_outcome_ok:
  assumes "executed_outcome lib rpc c i hash r = Inr out" and "rp_receipt rpc L2 hash = Inr (Some r)"
  shows "oc_rollback out = None \<and> (oc_kind out = O_settled \<longrightarrow> action_settled lib rpc c i out)"
proof -
  from assms(1) obtain safe block transaction u where h: "rp_safe rpc 0 = Inr safe" "rp_block rpc 0 L2 (re_blockNumber r) = Inr block"
    "rp_transaction rpc L2 hash = Inr transaction" "case transaction of None \<Rightarrow> False | Some tx \<Rightarrow> is_action tx c i"
    and rest: "(if safely_included r safe block then action_result lib c i hash r
       else Inr (plain_outcome O_pending (Some hash) ''Executed speculatively. Waiting for canonical L1 settlement.'')) = Inr out"
    unfolding executed_outcome_def by (simp only: res_bind_Inr_iff check_Inr) blast
  show ?thesis
  proof (cases "safely_included r safe block")
    case True
    then obtain head where head: "safe = Some head" "re_blockNumber r \<le> head" "block = Some (re_blockHash r)"
      by (auto simp: safely_included_def split: option.splits)
    from h(4) obtain tx where "transaction = Some tx" "is_action tx c i" by (auto split: option.splits)
    with h head True rest action_result_ok [of lib c i hash r out] assms(2) show ?thesis unfolding action_settled_def by auto
  next
    case False
    with rest show ?thesis by auto
  qed
qed

text \<open>A rollback is reported for a request that is closed, after its verification.\<close>

definition rollback_reported :: "client_rpc \<Rightarrow> treasury_config \<Rightarrow> js_object \<Rightarrow> outcome \<Rightarrow> bool" where
  "rollback_reported rpc c i out \<longleftrightarrow>
     (\<exists>report r hash status. oc_kind out = O_rejected \<and> oc_rollback out = Some (rl_postHash r, rl_block r) \<and> cn_evidence rpc = Inr (Some report)
        \<and> verifyInvoiceRollback (cn_rollback rpc) c i (fx_report report) = Inr r \<and> rp_status (cn_rpc rpc) L2 hash = Inr status
        \<and> rp_receipt (cn_rpc rpc) L2 hash = Inr None \<and> (composer_ended status \<noteq> None \<or> canonicalRequestRetired rpc i = Inr True))"

lemma invoice_outcome_ok:
  assumes "invoice_outcome rpc c i p hash status = Inr out"
  shows "oc_kind out \<noteq> O_settled \<and> (oc_rollback out \<noteq> None \<longrightarrow>
    (\<exists>report r. oc_kind out = O_rejected \<and> oc_rollback out = Some (rl_postHash r, rl_block r) \<and> cn_evidence rpc = Inr (Some report)
      \<and> verifyInvoiceRollback (cn_rollback rpc) c i (fx_report report) = Inr r \<and> (composer_ended status \<noteq> None \<or> canonicalRequestRetired rpc i = Inr True)))"
proof -
  from assms obtain evidence where e: "cn_evidence rpc = Inr evidence" by (auto simp: invoice_outcome_def res_bind_Inr_iff)
  show ?thesis
  proof (cases evidence)
    case None
    with assms e show ?thesis by (auto simp: invoice_outcome_def)
  next
    case (Some report)
    show ?thesis
    proof (cases "fx_phase report = ''verified''")
      case True
      with assms e Some have v: "verified_invoice_outcome rpc c i hash status report = Inr out" by (simp add: invoice_outcome_def)
      then obtain closed where c: "(if composer_ended status \<noteq> None then Inr True else canonicalRequestRetired rpc i) = Inr closed"
        by (auto simp: verified_invoice_outcome_def res_bind_Inr_iff)
      show ?thesis
      proof (cases closed)
        case False
        with v c show ?thesis by (auto simp: verified_invoice_outcome_def)
      next
        case closed: True
        with v c obtain r where "verifyInvoiceRollback (cn_rollback rpc) c i (fx_report report) = Inr r"
          "oc_kind out = O_rejected" "oc_rollback out = Some (rl_postHash r, rl_block r)"
          by (auto simp: verified_invoice_outcome_def res_bind_Inr_iff)
        moreover have "composer_ended status \<noteq> None \<or> canonicalRequestRetired rpc i = Inr True" using c closed by (auto split: if_splits)
        ultimately show ?thesis using e Some by auto
      qed
    next
      case False
      have "oc_kind out \<noteq> O_settled \<and> oc_rollback out = None"
        using assms e Some False by (cases "composer_ended status") (auto simp: invoice_outcome_def split: if_splits bool.splits)
      then show ?thesis by simp
    qed
  qed
qed

text \<open>C11. A submission from L2 is reported as settled only if its transaction is the reviewed one, succeeded with the signed Safe
  transaction in a canonical block that is not after the safe head and, for a payment, the reported contributions come from the payment events of
  this receipt; a rollback is reported only for a request that was never included, is closed, and whose rollback was verified.\<close>
theorem l2_outcome_evidence:
  assumes "treasury_outcome lib rpc c i = Inr out" and "payment_source i \<noteq> JStr ''l1''" and "\<not> standard_bridge c"
  shows "(oc_kind out = O_settled \<longrightarrow> action_settled lib (cn_rpc rpc) c i out) \<and> (oc_rollback out \<noteq> None \<longrightarrow> rollback_reported rpc c i out)"
proof -
  from assms have run: "l2_outcome lib rpc c i = Inr out" by (simp add: treasury_outcome_def)
  then obtain found where f: "l2_hash lib (cn_rpc rpc) c i = Inr found" by (auto simp: l2_outcome_def res_bind_Inr_iff)
  show ?thesis
  proof (cases found)
    case None
    with run f show ?thesis by (auto simp: l2_outcome_def)
  next
    case (Some hash)
    with run f obtain receipt status where s: "rp_receipt (cn_rpc rpc) L2 hash = Inr receipt" "rp_status (cn_rpc rpc) L2 hash = Inr status"
      and fin: "(case (receipt, invoice_payment i) of (Some r, _) \<Rightarrow> executed_outcome lib (cn_rpc rpc) c i hash r
        | (None, Some p) \<Rightarrow> invoice_outcome rpc c i p hash status | (None, None) \<Rightarrow> Inr (unresolved_outcome hash status)) = Inr out"
      by (auto simp: l2_outcome_def res_bind_Inr_iff)
    show ?thesis
    proof (cases receipt)
      case (Some r)
      with fin s executed_outcome_ok [of lib "cn_rpc rpc" c i hash r out] show ?thesis by auto
    next
      case None
      show ?thesis
      proof (cases "invoice_payment i")
        case None
        with \<open>receipt = None\<close> fin show ?thesis by auto
      next
        case (Some p)
        with None fin have "invoice_outcome rpc c i p hash status = Inr out" by simp
        from invoice_outcome_ok [OF this] s None show ?thesis unfolding rollback_reported_def by blast
      qed
    qed
  qed
qed

section \<open>A settled action\<close>

definition sample_client :: client_rpc where
  "sample_client = \<lparr>cn_rpc = sample_rpc\<lparr>rp_receipt := (\<lambda>c h. Inr (Some \<lparr>re_status = ''0x1'', re_blockNumber = 20, re_blockHash = ''0xb2'',
         re_logs = [sample_execution, event_log ''0x05'' [''p'']]\<rparr>)),
       rp_transaction := (\<lambda>c h. Inr (Some \<lparr>ct_from = sample_address, ct_to = ''0x04'', ct_input = ''0xAB'', ct_nonce = 9, ct_value = 0\<rparr>))\<rparr>,
     cn_rollback = sample_rollback_rpc, cn_evidence = Inr None, cn_head = Inr None, cn_again = (\<lambda>n. Inr None), cn_safeNonce = (\<lambda>n. Inr None), cn_sourceNonce = (\<lambda>n. Inr 0)\<rparr>"

lemma sample_action_settled:
  "case treasury_outcome sample_outcome_lib sample_client sample_l1_treasury sample_mirror_intent of Inl e \<Rightarrow> False | Inr out \<Rightarrow> oc_kind out = O_settled"
  "payment_source sample_mirror_intent \<noteq> JStr ''l1''" "\<not> standard_bridge sample_l1_treasury"
  by code_simp+

theorem l2_outcome_evidence_witness:
  "\<exists>out. treasury_outcome sample_outcome_lib sample_client sample_l1_treasury sample_mirror_intent = Inr out \<and> oc_kind out = O_settled
     \<and> action_settled sample_outcome_lib (cn_rpc sample_client) sample_l1_treasury sample_mirror_intent out"
proof -
  obtain out where out: "treasury_outcome sample_outcome_lib sample_client sample_l1_treasury sample_mirror_intent = Inr out" "oc_kind out = O_settled"
    using sample_action_settled(1) by (auto split: sum.splits)
  from l2_outcome_evidence [OF out(1) sample_action_settled(2,3)] out show ?thesis by blast
qed

section \<open>Shown transactions\<close>

text \<open>What the explorer evidence of a settled outcome says.\<close>

lemma treasurySettlement_ok:
  assumes "treasurySettlement rpc out = Inr (Some s)"
  shows "\<exists>l2 number r er. oc_kind out = O_settled \<and> oc_l2 out = Some l2 \<and> oc_block out = Some (ts_l2Block s) \<and> string_BigInt (ts_l2Block s) = Inr number
    \<and> ex_receipt rpc l2 = Inr (Some r) \<and> re_status r = ''0x1'' \<and> re_blockNumber r = number \<and> ex_record rpc (re_blockHash r) = Inr (Some er)
    \<and> record_settles er (re_blockHash r) number \<and> ts_l1Transaction s = er_l1TransactionHash er
    \<and> (\<exists>p. ex_posting rpc (er_l1TransactionHash er) = Inr p \<and> posting_confirms er p)
    \<and> (\<exists>a. ex_block rpc 0 L1 (er_l1BlockNumber er) = Inr a \<and> same_block (er_l1BlockHash er) a)
    \<and> (\<exists>b. ex_block rpc 1 L2 number = Inr b \<and> same_block (re_blockHash r) b)"
proof -
  from assms obtain blockText l2 where b: "oc_kind out = O_settled" "oc_block out = Some blockText" "oc_l2 out = Some l2"
    by (auto simp: treasurySettlement_def split: outcome_kind.splits option.splits)
  with assms obtain number receipt block where n: "string_BigInt blockText = Inr number" "ex_receipt rpc l2 = Inr receipt" "ex_block rpc 0 L2 number = Inr block"
    and fin: "(case receipt of None \<Rightarrow> Inr None | Some r \<Rightarrow> if re_status r \<noteq> ''0x1'' \<or> re_blockNumber r \<noteq> number \<or> \<not> same_block (re_blockHash r) block then Inr None
       else settled_block rpc blockText number r) = Inr (Some s)"
    by (auto simp: treasurySettlement_def res_bind_Inr_iff split: if_splits)
  then obtain r where r: "receipt = Some r" "re_status r = ''0x1''" "re_blockNumber r = number" and sb: "settled_block rpc blockText number r = Inr (Some s)"
    by (auto split: option.splits if_splits)
  then obtain er where rec: "ex_record rpc (re_blockHash r) = Inr (Some er)" "record_settles er (re_blockHash r) number"
    by (auto simp: settled_block_def res_bind_Inr_iff split: option.splits if_splits)
  with sb obtain p a again where "ex_posting rpc (er_l1TransactionHash er) = Inr p" "posting_confirms er p"
    "ex_block rpc 0 L1 (er_l1BlockNumber er) = Inr a" "same_block (er_l1BlockHash er) a"
    "ex_block rpc 1 L2 number = Inr again" "same_block (re_blockHash r) again"
    "s = \<lparr>ts_l1Transaction = er_l1TransactionHash er, ts_l1Block = show_int (er_l1BlockNumber er), ts_l2Block = blockText\<rparr>"
    by (auto simp: settled_block_def res_bind_Inr_iff split: if_splits)
  with b n r rec show ?thesis by auto
qed

end
