(* ===== verification/Spec2Isabelle.thy ===== *)
theory Spec2Isabelle
  imports Monitor_Properties Timeline_Properties Gas_Properties Treasury_Amounts Treasury_Settlement Safe_Properties
    Correlation_Properties Bundle_Diagram Timeline_Built Live_Properties History_Properties Inspection_Properties Fee_Properties Call_Settlement_Properties
    Trace_Properties Trace_Rpc_Properties Trace_Link_Properties
    Composer_Probe Flow_Properties Quote_Properties Call_Flow Treasury_Transaction_Properties Treasury_Client_Properties
begin

text \<open>
  A verification development for the EEZ rollup dashboard, a React application (TypeScript, under
  \<open>src/src\<close>) over two chains: an L1 with a registry of rollups, and an L2 rollup whose
  cross-chain calls are executed through proxies, execution tables and batches; and for the trace decoder
  that is kept beside it (JavaScript, under \<open>src/trace-decoder\<close>).

  The program and its theories.

  Every file under \<open>src/src\<close> and \<open>src/trace-decoder/src\<close> that carries logic of its own is a group of definitions, in the order
  of the file, with the names of the file; a record or interface is a record, a tagged union a
  datatype, an operation one definition, and its auxiliary closures definitions before it.

  1. The monitor (\<open>types/\<close>, \<open>store/\<close>, \<open>hooks/useEventStream.ts\<close>, \<open>hooks/useDerivedState.ts\<close>,
  \<open>lib/actionFormatter.ts\<close>, \<open>lib/actionHashDecoder.ts\<close>, \<open>lib/eventProcessor.ts\<close>,
  \<open>lib/autoDiscovery.ts\<close>). Watched events of the two chains update one store: the event log,
  the execution tables, the architecture diagram and the contract state. Chain_Types holds
  its data, Action_Format the printing and hashing of actions, Event_Tables the table
  mutations, Monitor_Store every operation of every slice, Discovery the nodes and
  edges an event reveals, Event_Stream the handler of an event and the connection, Replay the
  state derived for a selected event. Monitor_Invariant shows the invariant of the store preserved
  by each operation and Monitor_Properties lifts it to reachable states and relates the replay
  and the live state.

  2. Correlation and bundles (\<open>lib/crossChainCorrelation.ts\<close>, \<open>lib/bundleArchitecture.ts\<close>, \<open>lib/callFlowBuilder.ts\<close>): the events
  of the log are grouped into bundles by a union-find over shared transactions and action hashes
  (Union_Find, Correlation; Correlation_Groups and Correlation_Properties show the bundles to be a
  partition into the connected components), and a bundle becomes a diagram with steps
  (Bundle_Architecture, Bundle_Diagram) and a strip of calls (Call_Flow).

  3. The execution inspector (\<open>lib/executionDebugger.ts\<close>, \<open>lib/executionAnalysis.ts\<close>,
  \<open>lib/executionTimeline.ts\<close>, \<open>lib/executionFlow.ts\<close>, \<open>lib/historyTransactions.ts\<close>). Debug_Types holds its data,
  the discovery of contracts and the decoding of payloads and logs; Inspection
  loads a context by hash or number with the counterpart blocks of a settlement; Live_Batches refreshes
  the list of posted batches, and Live_Properties follows it through any sequence of refreshes of a chain that grows and replaces its newest blocks; History_Transactions links the two sides of a history entry.
  Execution_Analysis and Execution_Evidence pair planned entries with their executions and judge
  the evidence; Execution_Timeline builds the steps and connections of the timeline, Fenwick and
  Timeline_Align lay the two chains out side by side. Execution_Flow links the calls of a timeline with frames of the traces
  and with their dispatches on the other chain, Flow_Entries makes them the entries, requests and returns of the flow;
  Flow_Roots, Flow_Order and Flow_Properties show the groups to be a forest and the requests to be complete, ordered and nested. The theories Inspection_Properties,
  Live_Properties, History_Properties, Evidence_Properties, Timeline_Built, Timeline_Align_Correct and
  Timeline_Properties hold their lemmas.

  4. Transactions (\<open>lib/gasEstimation.ts\<close>, \<open>lib/bridgeMax.ts\<close>, \<open>rpc.ts\<close>, \<open>lib/fees\<close>, \<open>lib/callSettlement.ts\<close>,
  \<open>lib/quoteDebug.ts\<close>, \<open>lib/composerDiscovery.ts\<close>): the estimators and the MAX amount of a bridge transfer against an arbitrary node
  (Gas_Estimation, Gas_Properties); the quote of L2 fees, its check against the transaction and the limit, and the
  hand-over to the wallet (Fee_Quote, Fee_Properties); the settlement a cross-chain call is shown with
  (Call_Settlement, Call_Settlement_Properties); the debug quote of a transaction and the decoding of its frames by at most four
  concurrent lookups (\<open>quoteDebug.ts\<close>: Quote_Debug, Quote_Properties); the probe that identifies the Composer behind a wallet (Composer_Probe).

  5. The treasury (\<open>lib/treasury\<close>). Payments: reading amounts, checking and funding a payment from two Safes within allowances and a
  shared budget, recognising its settlement (\<open>payments.ts\<close>, \<open>savedPayments.ts\<close>: Treasury_Payments, Treasury_Checks,
  Treasury_Properties, Treasury_Amounts, Treasury_Settlement). Signing: the reviewed Safe transaction, the approvals of owners
  (\<open>safeTransactions.ts\<close>: Safe_Approvals, Safe_Properties), the transaction of each payment and the validation of a saved
  submission (\<open>payments.ts\<close>, \<open>transfers.ts\<close>, \<open>client.ts\<close>: Treasury_Transactions, Treasury_Transaction_Properties). History:
  the journal of submissions in the browser storage (\<open>history.ts\<close>: Payment_History;
  Payment_History_Properties shows that what is written is read back, Payment_History_Invariant that no sequence
  of operations loses a recorded hash). Outcomes: what happened to a submission, from the canonical evidence of both chains
  (\<open>l1Payments.ts\<close>, \<open>transfers.ts\<close>, \<open>mirrorRelay.ts\<close>, \<open>safeEvents.ts\<close>, \<open>client.ts\<close>, \<open>settlement.ts\<close>: Treasury_Outcome,
  Treasury_Transfers, Treasury_Client; Treasury_Outcome_Properties and Treasury_Client_Properties say what a
  settled outcome proves), and the verification that an invoice payment was rolled back (\<open>invoices.ts\<close>: Invoice_Rollback,
  Invoice_Properties).

  6. The trace decoder (\<open>trace-decoder/src\<close>): \<open>logical.mjs\<close> turns the call traces of related transactions into one
  logical tree. Trace_Base holds its data, Trace_Frames walks a trace with its execution tables and finds the outgoing and incoming
  cross-chain calls, Trace_Matching matches requests with deliveries round by round, Trace_Logical moves each executed
  call below its request. Trace_Facts, Trace_Match_Loop and Trace_Properties show the matching sound and exhaustive.
  Trace_Rpc and Trace_Rpc_Properties are the reads of a chain (\<open>rpc.mjs\<close>), Trace_Links, Trace_Link_Checks and
  Trace_Link_Properties the evidence of a link between transactions (\<open>transaction-links.mjs\<close>).

  Js_Prelude and Js_Value are the ground: the insertion-ordered maps and sets of JavaScript (jmap), the results
  of code that throws (a sum whose left side is the message or error), stable sorting, the values of
  untyped data (js) with their conversions, texts, hexadecimal and decimal numbers.

  The interfaces are locales: the laws of a keyed store (a lookup after an insertion) and of a
  sort are stated once and interpreted on the model's own operations in the theory that declares them. So is what the live store and
  the replay share (row_view in Replay: a view of a table row that neither ageing nor consumption changes, interpreted for the
  hash of a row and for a row up to its status and action detail).

  Conventions.

  A number the code holds as \<open>bigint\<close> is an int; a \<open>number\<close> is an int where the code keeps it integral
  (indices, block numbers below 2^53). Strings are lists of characters, lower-casing and the like act on
  ASCII, as the texts concerned are hexadecimal. An optional property is an option. A thrown error is
  a left value, state that survives the error is returned next to it. Module variables (the cache of
  action details, the discovered contracts, the batches of the last refresh) are passed in and
  returned. Requests that the code sends in parallel are modelled one after the other in the order of
  the list; their results do not depend on it, except for contracts discovered meanwhile, which
  the code decodes again at the end, and so does the model. The lookups of a quote run, whose order matters to
  what is counted, are a step relation over its workers.

  Parameters. The code outside \<open>src\<close> is a parameter of the definitions that use it: the keccak hash
  and ABI encoding of an action, the decoding of calldata and logs by an ABI (the record
  \<open>abi_lib\<close>; in the treasury \<open>treasury_lib\<close>, \<open>safe_lib\<close> and \<open>outcome_lib\<close>, in the trace decoder \<open>trace_lib\<close> and \<open>link_lib\<close>),
  typed-data hashing and signature recovery, the storage item, the clock and the JSON parser of the browser, and the answers of a
  node, a wallet or the Composer (the records \<open>inspect_rpc\<close>, \<open>estimate_rpc\<close>, \<open>composer_io\<close>, \<open>treasury_rpc\<close>,
  \<open>invoice_rpc\<close>, \<open>rollback_rpc\<close>, \<open>client_rpc\<close>, \<open>explorer_rpc\<close>, \<open>quote_lib\<close>, \<open>flow_lib\<close>, \<open>trace_node\<close> and alike). A block or head that the code reads twice
  may answer differently each time. No law is assumed of them; where a theorem depends
  on one, it is a named hypothesis, and its witness gives a concrete function.

  Bounds and termination. All definitions are total functions. The chase of parents of the
  union-find and the walk back along the chosen anchors are given fuel: the number of parents plus
  one, and the number of anchors plus one, and the lemmas show that neither runs out; so are the walks of a flow to an enclosing call, to the root of a group and into nested
  calls, with the number of calls or roots plus one. Its linking of calls ends because each round removes a candidate. A bridge estimate sends at most
  four requests (counted by a node that records them), a refresh of the live list reads at most eight windows of 512 blocks, a context loads
  at most twelve counterpart blocks at once; liveness and termination theorems state what repeated
  calls reach. In the trace decoder the searches for enclosing frames and delegate frames have as fuel the number of frames of the
  trace, and \<open>trace_ancestors_complete\<close> shows that they reach a root; the matching loop ends because each round but
  the last closes an open request, and the search by time because its interval shrinks. \<open>historyConfig\<close>
  ends because each step drops a policy of the configuration.

  Not modelled, and why.

  The React components and the hooks around the wallet (bridge, aggregator, flash loan, deployment) render state or
  forward requests; the ABI files and artifacts are generated data; \<open>monitor/client.js\<close> and the scripts
  update a page or a disk. \<open>fetchDebugTrace\<close>, \<open>decodeRevert\<close>, \<open>jsonDebug\<close>, \<open>summarizeBatch\<close> and \<open>inspectionHash\<close> are
  display only. The deployment
  and setup modules of \<open>lib/treasury\<close> are sequences of contract creations over bundled artifacts, with constructor encoding and
  wallet requests. In the trace decoder, \<open>isolateL2Execution\<close>, \<open>renderTrace\<close>, the labels of \<open>abi-decoder.mjs\<close>, the
  HTTP and batch transport, the search engine, the explorer client, the command line and the viewer are left out: they
  fetch, print and cache.
\<close>

end
